(* ===== verification/Go_Prelude.thy ===== *)
theory Go_Prelude
  imports Main "HOL-Library.Char_ord" "HOL-Library.List_Lexorder" "HOL-Library.Code_Target_Nat"
begin

text \<open>
  Shared vocabulary of the development: Go's error values, the state-and-error
  actions in which the services are written, and the functions of Go's
  standard library (packages strings, strconv) that the panel uses.

  A Go string is its list of bytes. \<open>err\<close> has one constructor per way the code
  makes an error: \<open>Err\<close> for \<open>errors.New\<close> with the text, \<open>ErrArg\<close> for
  \<open>common.NewError(text, value)\<close>, \<open>NotFound\<close> for \<open>gorm.ErrRecordNotFound\<close>,
  \<open>DbErr\<close> for any other error of a database statement, \<open>ExtErr\<close> for an error that
  comes from outside the program (a file, a process, the network), \<open>Multi\<close> for
  \<open>common.Combine\<close> and \<open>Panic\<close> for a run-time panic.
\<close>

named_theorems act_simps "unfolding rules of the state-and-error actions"
named_theorems go_str "facts on the string functions"

section \<open>Errors and actions\<close>

datatype err =
    Err string
  | ErrArg string string
  | NotFound
  | DbErr string
  | ExtErr string
  | Multi "err list"
  | Panic string

type_synonym 'a res = "err + 'a"
type_synonym ('s, 'a) act = "'s \<Rightarrow> 'a res \<times> 's"

definition ret :: "'a \<Rightarrow> ('s, 'a) act" where
  "ret x = (\<lambda>s. (Inr x, s))"

definition throw :: "err \<Rightarrow> ('s, 'a) act" where
  "throw e = (\<lambda>s. (Inl e, s))"

definition andThen :: "('s, 'a) act \<Rightarrow> ('a \<Rightarrow> ('s, 'b) act) \<Rightarrow> ('s, 'b) act" where
  "andThen m f = (\<lambda>s. case m s of (Inl e, t) \<Rightarrow> (Inl e, t) | (Inr x, t) \<Rightarrow> f x t)"

definition gets :: "('s \<Rightarrow> 'a) \<Rightarrow> ('s, 'a) act" where
  "gets f = (\<lambda>s. (Inr (f s), s))"

definition modify :: "('s \<Rightarrow> 's) \<Rightarrow> ('s, unit) act" where
  "modify f = (\<lambda>s. (Inr (), f s))"

text \<open>A pure computation that may fail, used in an action.\<close>

definition lift_res :: "'a res \<Rightarrow> ('s, 'a) act" where
  "lift_res r = (\<lambda>s. (r, s))"

text \<open>\<open>if cond { return err }\<close>\<close>

definition reject :: "bool \<Rightarrow> err \<Rightarrow> ('s, unit) act" where
  "reject b e = (if b then throw e else ret ())"

text \<open>A range loop whose body returns on the first error.\<close>

fun for_each :: "('a \<Rightarrow> ('s, unit) act) \<Rightarrow> 'a list \<Rightarrow> ('s, unit) act" where
  "for_each f [] = ret ()"
| "for_each f (x # xs) = andThen (f x) (\<lambda>_. for_each f xs)"

text \<open>A call whose error the caller inspects instead of returning it.\<close>

definition attempt :: "('s, 'a) act \<Rightarrow> ('s, 'a res) act" where
  "attempt m = (\<lambda>s. case m s of (r, t) \<Rightarrow> (Inr r, t))"

lemma ret_run [simp, act_simps]: "ret x s = (Inr x, s)"
  by (simp add: ret_def)

lemma throw_run [simp, act_simps]: "throw e s = (Inl e, s)"
  by (simp add: throw_def)

lemma gets_run [simp, act_simps]: "gets f s = (Inr (f s), s)"
  by (simp add: gets_def)

lemma modify_run [simp, act_simps]: "modify f s = (Inr (), f s)"
  by (simp add: modify_def)

lemma lift_res_run [simp, act_simps]: "lift_res r s = (r, s)"
  by (simp add: lift_res_def)

lemma reject_run [simp, act_simps]: "reject b e s = (if b then (Inl e, s) else (Inr (), s))"
  by (simp add: reject_def)

lemma attempt_run [act_simps]: "attempt m s = (Inr (fst (m s)), snd (m s))"
  by (simp add: attempt_def split: prod.split)

lemma andThen_run [act_simps]:
  "andThen m f s = (case m s of (Inl e, t) \<Rightarrow> (Inl e, t) | (Inr x, t) \<Rightarrow> f x t)"
  by (simp add: andThen_def)

lemma andThen_ret [simp]: "andThen (ret x) f = f x"
  by (simp add: andThen_def fun_eq_iff)

lemma andThen_throw [simp]: "andThen (throw e) f = throw e"
  by (simp add: andThen_def fun_eq_iff)

lemma andThen_assoc: "andThen (andThen m f) g = andThen m (\<lambda>x. andThen (f x) g)"
  by (simp add: andThen_def fun_eq_iff split: prod.split sum.split)

lemma andThen_Inr:
  "andThen m f s = (Inr y, u) \<longleftrightarrow> (\<exists>x t. m s = (Inr x, t) \<and> f x t = (Inr y, u))"
  by (auto simp: andThen_def split: prod.splits sum.splits)

lemma andThen_Inl:
  "andThen m f s = (Inl e, u) \<longleftrightarrow>
     m s = (Inl e, u) \<or> (\<exists>x t. m s = (Inr x, t) \<and> f x t = (Inl e, u))"
  by (auto simp: andThen_def split: prod.splits sum.splits)

section \<open>What an action preserves\<close>

text \<open>
  \<open>keeps P m\<close>: whatever \<open>m\<close> returns, an error included, a state with \<open>P\<close> ends
  in a state with \<open>P\<close>. The rules follow the structure of an action.
\<close>

definition keeps :: "('s \<Rightarrow> bool) \<Rightarrow> ('s, 'a) act \<Rightarrow> bool" where
  "keeps P m \<longleftrightarrow> (\<forall>s. P s \<longrightarrow> P (snd (m s)))"

named_theorems keeps_intro "rules for keeps"

lemma keepsD: "keeps P m \<Longrightarrow> P s \<Longrightarrow> P (snd (m s))"
  by (simp add: keeps_def)

lemma keepsD_eq: "keeps P m \<Longrightarrow> m s = (r, t) \<Longrightarrow> P s \<Longrightarrow> P t"
  by (auto simp: keeps_def)

lemma keeps_ret [keeps_intro]: "keeps P (ret x)"
  by (simp add: keeps_def)

lemma keeps_throw [keeps_intro]: "keeps P (throw e)"
  by (simp add: keeps_def)

lemma keeps_gets [keeps_intro]: "keeps P (gets f)"
  by (simp add: keeps_def)

lemma keeps_lift_res [keeps_intro]: "keeps P (lift_res r)"
  by (simp add: keeps_def)

lemma keeps_reject [keeps_intro]: "keeps P (reject b e)"
  by (simp add: keeps_def)

lemma keeps_modify: "(\<And>s. P s \<Longrightarrow> P (f s)) \<Longrightarrow> keeps P (modify f)"
  by (simp add: keeps_def)

lemma keeps_andThen [keeps_intro]:
  assumes "keeps P m" and "\<And>x. keeps P (f x)"
  shows "keeps P (andThen m f)"
  using assms by (fastforce simp: keeps_def andThen_def split: prod.split sum.split)

lemma keeps_attempt [keeps_intro]: "keeps P m \<Longrightarrow> keeps P (attempt m)"
  by (auto simp: keeps_def attempt_def split: prod.split)

lemma keeps_for_each [keeps_intro]: "(\<And>x. keeps P (f x)) \<Longrightarrow> keeps P (for_each f xs)"
  by (induction xs) (auto intro: keeps_intro)

lemma keeps_if [keeps_intro]:
  "(b \<Longrightarrow> keeps P m) \<Longrightarrow> (\<not> b \<Longrightarrow> keeps P n) \<Longrightarrow> keeps P (if b then m else n)"
  by simp

lemma keeps_case_res [keeps_intro]:
  "(\<And>e. r = Inl e \<Longrightarrow> keeps P (f e)) \<Longrightarrow> (\<And>x. r = Inr x \<Longrightarrow> keeps P (g x)) \<Longrightarrow>
     keeps P (case r of Inl e \<Rightarrow> f e | Inr x \<Rightarrow> g x)"
  by (simp split: sum.split)

lemma keeps_case_option [keeps_intro]:
  "(r = None \<Longrightarrow> keeps P f) \<Longrightarrow> (\<And>x. r = Some x \<Longrightarrow> keeps P (g x)) \<Longrightarrow>
     keeps P (case r of None \<Rightarrow> f | Some x \<Rightarrow> g x)"
  by (simp split: option.split)

text \<open>What a pure step returned is known in the rest of the action.\<close>

lemma keeps_lift_res_bind: "(\<And>x. r = Inr x \<Longrightarrow> keeps P (f x)) \<Longrightarrow> keeps P (andThen (lift_res r) f)"
  by (cases r) (auto simp: keeps_def andThen_run)

text \<open>A loop that builds a list and returns on the first error.\<close>

fun map_res :: "('a \<Rightarrow> 'b res) \<Rightarrow> 'a list \<Rightarrow> 'b list res" where
  "map_res f [] = Inr []"
| "map_res f (x # xs) = (case f x of Inl e \<Rightarrow> Inl e | Inr y \<Rightarrow>
     (case map_res f xs of Inl e \<Rightarrow> Inl e | Inr ys \<Rightarrow> Inr (y # ys)))"

text \<open>The next step of a computation that returns on the first error.\<close>

definition bind_res :: "'a res \<Rightarrow> ('a \<Rightarrow> 'b res) \<Rightarrow> 'b res" where
  "bind_res r f = (case r of Inl e \<Rightarrow> Inl e | Inr x \<Rightarrow> f x)"

lemma bind_res_simps [simp]: "bind_res (Inl e) f = Inl e" "bind_res (Inr x) f = f x"
  by (simp_all add: bind_res_def)

lemma bind_res_Inr: "bind_res r f = Inr y \<longleftrightarrow> (\<exists>x. r = Inr x \<and> f x = Inr y)"
  by (cases r) auto

text \<open>The first hit in a list that goes on.\<close>

lemma find_append: "find P (xs @ ys) = (case find P xs of None \<Rightarrow> find P ys | Some x \<Rightarrow> Some x)"
  by (induction xs) auto

section \<open>common.Combine\<close>

text \<open>util/common/multi_error.go: the errors among the arguments, none if there is none.\<close>

definition Combine :: "err option list \<Rightarrow> err option" where
  "Combine es = (let errs = List.map_filter (\<lambda>e. e) es in
     if errs = [] then None else Some (Multi errs))"

lemma Combine_None: "Combine es = None \<longleftrightarrow> (\<forall>e \<in> set es. e = None)"
  by (auto simp: Combine_def List.map_filter_def Let_def filter_empty_conv)

text \<open>The error an action ended with, as the \<open>error\<close> value the caller holds.\<close>

fun err_of :: "'a res \<Rightarrow> err option" where
  "err_of (Inl e) = Some e"
| "err_of (Inr x) = None"

end
