(* ===== verification/Go_Strings.thy ===== *)
theory Go_Strings
  imports Go_Prelude
begin

text \<open>
  The functions of Go's packages strings and strconv that the panel calls, on
  byte strings, with the facts the components use: trimming is idempotent and
  never lengthens, printing and reading an integer are inverse, splitting and
  joining are inverse.  \<open>ToLower\<close> and \<open>EqualFold\<close> fold the ASCII letters (every
  string the panel folds is compared with an ASCII word); \<open>TrimSpace\<close> removes all
  the characters of \<open>unicode.IsSpace\<close>, in their UTF-8 encoding.
\<close>

abbreviation byte :: "char \<Rightarrow> nat" where
  "byte c \<equiv> of_char c"

abbreviation bytes :: "nat list \<Rightarrow> string" where
  "bytes ns \<equiv> map char_of ns"

section \<open>Prefixes, trimming, folding\<close>

definition HasPrefix :: "string \<Rightarrow> string \<Rightarrow> bool" where
  "HasPrefix s p \<longleftrightarrow> take (length p) s = p"

definition HasSuffix :: "string \<Rightarrow> string \<Rightarrow> bool" where
  "HasSuffix s p \<longleftrightarrow> HasPrefix (rev s) (rev p)"

lemma HasPrefix_append [simp, go_str]: "HasPrefix (p @ s) p"
  by (simp add: HasPrefix_def)

lemma HasPrefix_iff: "HasPrefix s p \<longleftrightarrow> (\<exists>r. s = p @ r)"
  unfolding HasPrefix_def by (metis append_eq_conv_conj append_take_drop_id)

lemma HasSuffix_iff: "HasSuffix s p \<longleftrightarrow> (\<exists>r. s = r @ p)"
  unfolding HasSuffix_def HasPrefix_iff by (metis rev_append rev_rev_ident)

lemma HasSuffix_append [simp, go_str]: "HasSuffix (s @ p) p"
  by (auto simp: HasSuffix_iff)

text \<open>Remove leading occurrences of the (non-empty) patterns while there is one.\<close>

definition lead_match :: "string list \<Rightarrow> string \<Rightarrow> string option" where
  "lead_match ps s = find (\<lambda>p. p \<noteq> [] \<and> HasPrefix s p) ps"

lemma lead_match_Some: "lead_match ps s = Some p \<Longrightarrow> p \<noteq> [] \<and> (\<exists>r. s = p @ r)"
  by (auto simp: lead_match_def find_Some_iff HasPrefix_iff)

lemma lead_match_None: "lead_match ps s = None \<longleftrightarrow> (\<forall>p \<in> set ps. p \<noteq> [] \<longrightarrow> \<not> HasPrefix s p)"
  by (auto simp: lead_match_def find_None_iff)

function strip :: "string list \<Rightarrow> string \<Rightarrow> string" where
  "strip ps s = (case lead_match ps s of
       None \<Rightarrow> s
     | Some p \<Rightarrow> strip ps (drop (length p) s))"
  by pat_completeness auto
termination
  by (relation "measure (\<lambda>(ps, s). length s)") (auto dest!: lead_match_Some)

declare strip.simps [simp del]

lemma strip_None: "lead_match ps s = None \<Longrightarrow> strip ps s = s"
  by (simp add: strip.simps [of ps s])

lemma strip_Some: "lead_match ps s = Some p \<Longrightarrow> strip ps s = strip ps (drop (length p) s)"
  by (simp add: strip.simps [of ps s])

lemma strip_lead_match: "lead_match ps (strip ps s) = None"
proof (induction ps s rule: strip.induct)
  case (1 ps s)
  then show ?case by (cases "lead_match ps s") (simp_all add: strip_None strip_Some)
qed

lemma strip_stops: "p \<in> set ps \<Longrightarrow> p \<noteq> [] \<Longrightarrow> \<not> HasPrefix (strip ps s) p"
  using strip_lead_match [of ps s] by (simp add: lead_match_None)

lemma strip_fixed:
  assumes "\<And>p. p \<in> set ps \<Longrightarrow> p \<noteq> [] \<Longrightarrow> \<not> HasPrefix s p"
  shows "strip ps s = s"
  by (rule strip_None) (use assms in \<open>simp add: lead_match_None\<close>)

lemma strip_suffix: "\<exists>pre. s = pre @ strip ps s"
proof (induction ps s rule: strip.induct)
  case (1 ps s)
  show ?case
  proof (cases "lead_match ps s")
    case None
    then show ?thesis by (simp add: strip_None)
  next
    case (Some q)
    from lead_match_Some [OF this] obtain r where r: "s = q @ r" by blast
    from "1" [OF Some] r obtain pre where "r = pre @ strip ps r" by auto
    then have "s = (q @ pre) @ strip ps s" using Some r by (simp add: strip_Some)
    then show ?thesis by blast
  qed
qed

text \<open>\<open>unicode.IsSpace\<close>, each space as the bytes that encode it.\<close>

definition ascii_spaces :: "string list" where
  "ascii_spaces = [bytes [9], bytes [10], bytes [11], bytes [12], bytes [13], bytes [32]]"

definition wide_spaces :: "string list" where
  "wide_spaces =
     [bytes [194, 133], bytes [194, 160], bytes [225, 154, 128]]
     @ map (\<lambda>k. bytes [226, 128, 128 + k]) [0, 1, 2, 3, 4, 5, 6, 7, 8, 9, 10, 40, 41, 47]
     @ [bytes [226, 129, 159], bytes [227, 128, 128]]"

definition unicode_spaces :: "string list" where
  "unicode_spaces = ascii_spaces @ wide_spaces"

definition TrimLeftSpace :: "string \<Rightarrow> string" where
  "TrimLeftSpace s = strip unicode_spaces s"

definition TrimRightSpace :: "string \<Rightarrow> string" where
  "TrimRightSpace s = rev (strip (map rev unicode_spaces) (rev s))"

definition TrimSpace :: "string \<Rightarrow> string" where
  "TrimSpace s = TrimRightSpace (TrimLeftSpace s)"

lemma HasPrefix_shorter: "HasPrefix r p \<Longrightarrow> HasPrefix (r @ t) p"
  by (auto simp: HasPrefix_iff)

lemma TrimRightSpace_prefix: "\<exists>t. s = TrimRightSpace s @ t"
proof -
  from strip_suffix [of "rev s" "map rev unicode_spaces"]
  obtain pre where "rev s = pre @ strip (map rev unicode_spaces) (rev s)" by blast
  then have "s = TrimRightSpace s @ rev pre"
    unfolding TrimRightSpace_def by (metis rev_append rev_rev_ident)
  then show ?thesis by blast
qed

lemma TrimSpace_no_lead:
  assumes "p \<in> set unicode_spaces" and "p \<noteq> []"
  shows "\<not> HasPrefix (TrimSpace s) p"
proof
  assume "HasPrefix (TrimSpace s) p"
  moreover obtain u where "TrimLeftSpace s = TrimSpace s @ u"
    using TrimRightSpace_prefix [of "TrimLeftSpace s"] by (auto simp: TrimSpace_def)
  ultimately have "HasPrefix (TrimLeftSpace s) p" by (simp add: HasPrefix_shorter)
  with strip_stops [OF assms, of s] show False by (simp add: TrimLeftSpace_def)
qed

lemma TrimSpace_no_trail:
  assumes "p \<in> set unicode_spaces" and "p \<noteq> []"
  shows "\<not> HasSuffix (TrimSpace s) p"
proof -
  have "rev p \<in> set (map rev unicode_spaces)" "rev p \<noteq> []" using assms by auto
  from strip_stops [OF this, of "rev (TrimLeftSpace s)"] show ?thesis
    by (simp add: HasSuffix_def TrimSpace_def TrimRightSpace_def)
qed

lemma TrimSpace_idem [simp, go_str]: "TrimSpace (TrimSpace s) = TrimSpace s"
proof -
  let ?t = "TrimSpace s"
  have 1: "TrimLeftSpace ?t = ?t"
    unfolding TrimLeftSpace_def by (rule strip_fixed) (rule TrimSpace_no_lead)
  have "strip (map rev unicode_spaces) (rev ?t) = rev ?t"
  proof (rule strip_fixed)
    fix p assume "p \<in> set (map rev unicode_spaces)" "p \<noteq> []"
    then have "rev p \<in> set unicode_spaces" "rev p \<noteq> []" by auto
    from TrimSpace_no_trail [OF this] show "\<not> HasPrefix (rev ?t) p"
      by (simp add: HasSuffix_def)
  qed
  then have "TrimRightSpace ?t = ?t" by (simp add: TrimRightSpace_def)
  with 1 show ?thesis by (simp add: TrimSpace_def [of ?t])
qed

lemma TrimSpace_infix: "\<exists>a b. s = a @ TrimSpace s @ b"
proof -
  obtain a where "s = a @ TrimLeftSpace s"
    using strip_suffix [of s unicode_spaces] by (auto simp: TrimLeftSpace_def)
  moreover obtain b where "TrimLeftSpace s = TrimSpace s @ b"
    using TrimRightSpace_prefix [of "TrimLeftSpace s"] by (auto simp: TrimSpace_def)
  ultimately show ?thesis by metis
qed

text \<open>A text whose ends are graphic characters of ASCII has nothing to trim.\<close>

definition graphic :: "char \<Rightarrow> bool" where
  "graphic c \<longleftrightarrow> 32 < byte c \<and> byte c < 128"

lemma spaces_heads: "q \<in> set unicode_spaces \<Longrightarrow> q \<noteq> [] \<and> \<not> graphic (hd q) \<and> \<not> graphic (last q)"
proof -
  have "list_all (\<lambda>q. q \<noteq> [] \<and> \<not> graphic (hd q) \<and> \<not> graphic (last q)) unicode_spaces" by code_simp
  then show "q \<in> set unicode_spaces \<Longrightarrow> q \<noteq> [] \<and> \<not> graphic (hd q) \<and> \<not> graphic (last q)"
    by (simp add: list_all_iff)
qed

lemma TrimSpace_graphic: 
  assumes "s = [] \<or> graphic (hd s) \<and> graphic (last s)"
  shows "TrimSpace s = s"
proof -
  have 1: "TrimLeftSpace s = s" unfolding TrimLeftSpace_def
  proof (rule strip_fixed)
    fix q assume "q \<in> set unicode_spaces" "q \<noteq> []"
    with spaces_heads [of q] assms show "\<not> HasPrefix s q" by (cases q) (auto simp: HasPrefix_iff)
  qed
  have "strip (map rev unicode_spaces) (rev s) = rev s"
  proof (rule strip_fixed)
    fix q assume "q \<in> set (map rev unicode_spaces)" "q \<noteq> []"
    then obtain r where r: "r \<in> set unicode_spaces" "q = rev r" by auto
    with spaces_heads [of r] assms show "\<not> HasPrefix (rev s) q"
      by (cases r rule: rev_cases) (auto simp: HasPrefix_iff rev_swap)
  qed
  with 1 show ?thesis by (simp add: TrimSpace_def TrimRightSpace_def)
qed

lemma length_TrimSpace_le [go_str]: "length (TrimSpace s) \<le> length s"
proof -
  obtain a b where "s = a @ TrimSpace s @ b" using TrimSpace_infix by blast
  then have "length s = length (a @ TrimSpace s @ b)" by simp
  then show ?thesis by simp
qed

lemma TrimSpace_Nil [simp, go_str]: "TrimSpace [] = []"
  using length_TrimSpace_le [of "[]"] by simp

definition to_lower_char :: "char \<Rightarrow> char" where
  "to_lower_char c = (if 65 \<le> byte c \<and> byte c \<le> 90 then char_of (byte c + 32) else c)"

definition ToLower :: "string \<Rightarrow> string" where
  "ToLower s = map to_lower_char s"

definition EqualFold :: "string \<Rightarrow> string \<Rightarrow> bool" where
  "EqualFold s t \<longleftrightarrow> ToLower s = ToLower t"

lemma to_lower_char_idem: "to_lower_char (to_lower_char c) = to_lower_char c"
  by (auto simp: to_lower_char_def)

lemma ToLower_idem [simp, go_str]: "ToLower (ToLower s) = ToLower s"
  by (simp add: ToLower_def to_lower_char_idem)

lemma length_ToLower [simp, go_str]: "length (ToLower s) = length s"
  by (simp add: ToLower_def)

lemma EqualFold_refl [simp]: "EqualFold s s"
  by (simp add: EqualFold_def)

end
