(* ===== verification/Go_Strconv.thy ===== *)
theory Go_Strconv
  imports Go_Strings
begin

text \<open>
  Searching, splitting, joining and replacing (package strings) and the
  conversions of package strconv.  \<open>int\<close> values of the code are 64-bit: reading
  one checks the range, and \<open>wrap64\<close> is the wrap-around of Go's arithmetic.
\<close>

section \<open>Searching, splitting, joining, replacing\<close>

fun Contains :: "string \<Rightarrow> string \<Rightarrow> bool" where
  "Contains [] p = (p = [])"
| "Contains (c # s) p = (HasPrefix (c # s) p \<or> Contains s p)"

lemma Contains_iff: "Contains s p \<longleftrightarrow> (\<exists>a b. s = a @ p @ b)"
proof (induction s)
  case Nil
  then show ?case by simp
next
  case (Cons c s)
  have "(\<exists>a b. c # s = a @ p @ b) \<longleftrightarrow> (\<exists>b. c # s = p @ b) \<or> (\<exists>a b. s = a @ p @ b)"
    by (metis append_Cons append_Nil list.sel(3) neq_Nil_conv)
  with Cons show ?case by (simp add: HasPrefix_iff)
qed

lemma Contains_char [go_str]: "Contains s [c] \<longleftrightarrow> c \<in> set s"
  by (auto simp: Contains_iff in_set_conv_decomp)

definition ContainsAny :: "string \<Rightarrow> string \<Rightarrow> bool" where
  "ContainsAny s chars \<longleftrightarrow> list_ex (\<lambda>c. c \<in> set chars) s"

text \<open>\<open>strings.Split\<close> with a separator of one byte: never the empty list.\<close>

fun Split :: "string \<Rightarrow> char \<Rightarrow> string list" where
  "Split [] sep = [[]]"
| "Split (c # s) sep =
     (if c = sep then [] # Split s sep
      else case Split s sep of [] \<Rightarrow> [[c]] | w # ws \<Rightarrow> (c # w) # ws)"

fun Join :: "string list \<Rightarrow> string \<Rightarrow> string" where
  "Join [] sep = []"
| "Join [w] sep = w"
| "Join (w # v # ws) sep = w @ sep @ Join (v # ws) sep"

lemma Split_not_Nil [simp]: "Split s sep \<noteq> []"
  by (induction s) (auto split: list.split)

lemma Join_Split: "Join (Split s sep) [sep] = s"
proof (induction s)
  case Nil
  then show ?case by simp
next
  case (Cons c s)
  obtain w ws where w: "Split s sep = w # ws" by (cases "Split s sep") auto
  show ?case
  proof (cases "c = sep")
    case True
    with Cons w show ?thesis by simp
  next
    case False
    with Cons w show ?thesis by (cases ws) auto
  qed
qed

lemma Split_no_sep: "w \<in> set (Split s sep) \<Longrightarrow> sep \<notin> set w"
proof (induction s arbitrary: w)
  case Nil
  then show ?case by simp
next
  case (Cons c s)
  obtain v vs where v: "Split s sep = v # vs" by (cases "Split s sep") auto
  with Cons show ?case by (auto split: if_splits)
qed

lemma length_Split: "length (Split s sep) = Suc (count_list s sep)"
proof (induction s)
  case Nil
  then show ?case by simp
next
  case (Cons c s)
  then show ?case by (auto split: list.split)
qed

text \<open>\<open>strings.ReplaceAll\<close> with a non-empty pattern.\<close>

function ReplaceAll :: "string \<Rightarrow> string \<Rightarrow> string \<Rightarrow> string" where
  "ReplaceAll [] old new = []"
| "ReplaceAll (c # s) old new =
     (if old \<noteq> [] \<and> HasPrefix (c # s) old
      then new @ ReplaceAll (drop (length old) (c # s)) old new
      else c # ReplaceAll s old new)"
  by pat_completeness auto
termination
  by (relation "measure (\<lambda>(s, old, new). length s)") (auto simp: neq_Nil_conv)

lemma ReplaceAll_char_Nil: "ReplaceAll s [c] [] = filter (\<lambda>d. d \<noteq> c) s"
  by (induction s "[c]" "[] :: string" rule: ReplaceAll.induct) (auto simp: HasPrefix_def)

definition TrimSuffix :: "string \<Rightarrow> string \<Rightarrow> string" where
  "TrimSuffix s p = (if HasSuffix s p then take (length s - length p) s else s)"

text \<open>\<open>strings.Trim(s, cutset)\<close>.\<close>

definition TrimChars :: "string \<Rightarrow> string \<Rightarrow> string" where
  "TrimChars s cs = rev (dropWhile (\<lambda>c. c \<in> set cs) (rev (dropWhile (\<lambda>c. c \<in> set cs) s)))"

section \<open>Integers\<close>

definition max_int64 :: int where "max_int64 = 9223372036854775807"
definition min_int64 :: int where "min_int64 = - 9223372036854775808"

definition in_int64 :: "int \<Rightarrow> bool" where
  "in_int64 n \<longleftrightarrow> min_int64 \<le> n \<and> n \<le> max_int64"

definition wrap64 :: "int \<Rightarrow> int" where
  "wrap64 n = (n + 9223372036854775808) mod 18446744073709551616 - 9223372036854775808"

lemma in_int64_wrap64 [simp]: "in_int64 (wrap64 n)"
proof -
  have "0 \<le> (n + 9223372036854775808) mod 18446744073709551616"
    and "(n + 9223372036854775808) mod 18446744073709551616 < 18446744073709551616" by simp_all
  then show ?thesis unfolding in_int64_def wrap64_def min_int64_def max_int64_def by linarith
qed

lemma wrap64_id: "in_int64 n \<Longrightarrow> wrap64 n = n"
  by (simp add: in_int64_def wrap64_def min_int64_def max_int64_def)

definition is_digit :: "char \<Rightarrow> bool" where
  "is_digit c \<longleftrightarrow> 48 \<le> byte c \<and> byte c \<le> 57"

definition digit :: "nat \<Rightarrow> char" where
  "digit d = char_of (48 + d)"

fun nat_str :: "nat \<Rightarrow> string" where
  "nat_str n = (if n < 10 then [digit n] else nat_str (n div 10) @ [digit (n mod 10)])"

declare nat_str.simps [simp del]

fun read_digits :: "nat \<Rightarrow> string \<Rightarrow> nat option" where
  "read_digits acc [] = Some acc"
| "read_digits acc (c # cs) =
     (if is_digit c then read_digits (10 * acc + (byte c - 48)) cs else None)"

lemma byte_digit: "d < 10 \<Longrightarrow> byte (digit d) = 48 + d"
  by (simp add: digit_def of_char_of)

lemma is_digit_digit: "d < 10 \<Longrightarrow> is_digit (digit d)"
  by (simp add: is_digit_def byte_digit)

lemma read_digits_append:
  "read_digits acc (xs @ ys) = (case read_digits acc xs of None \<Rightarrow> None | Some m \<Rightarrow> read_digits m ys)"
  by (induction xs arbitrary: acc) auto

lemma read_digits_nat_str: "read_digits 0 (nat_str n) = Some n"
proof (induction n rule: nat_str.induct)
  case (1 n)
  show ?case
  proof (cases "n < 10")
    case True
    then show ?thesis by (simp add: nat_str.simps [of n] is_digit_digit byte_digit)
  next
    case False
    with 1 show ?thesis
      by (simp add: nat_str.simps [of n] read_digits_append is_digit_digit byte_digit)
  qed
qed

lemma nat_str_digits: "c \<in> set (nat_str n) \<Longrightarrow> is_digit c"
proof (induction n rule: nat_str.induct)
  case (1 n)
  then show ?case
    by (subst (asm) (2) nat_str.simps) (auto simp: is_digit_digit split: if_splits)
qed

lemma nat_str_not_Nil [simp]: "nat_str n \<noteq> []"
  by (subst nat_str.simps) simp

definition Itoa :: "int \<Rightarrow> string" where
  "Itoa n = (if n < 0 then ''-'' @ nat_str (nat (- n)) else nat_str (nat n))"

text \<open>\<open>strconv.ParseInt(s, 10, bits)\<close> for the range \<open>lo .. hi\<close>, and \<open>strconv.Atoi\<close>.\<close>

definition ParseIntIn :: "int \<Rightarrow> int \<Rightarrow> string \<Rightarrow> int res" where
  "ParseIntIn lo hi s =
     (let body = (case s of c # t \<Rightarrow> if c = CHR ''-'' \<or> c = CHR ''+'' then t else s | [] \<Rightarrow> []);
          neg = (case s of c # t \<Rightarrow> c = CHR ''-'' | [] \<Rightarrow> False)
      in if body = [] then Inl (ErrArg ''invalid syntax'' s)
         else case read_digits 0 body of
             None \<Rightarrow> Inl (ErrArg ''invalid syntax'' s)
           | Some m \<Rightarrow> (let n = (if neg then - int m else int m)
               in if lo \<le> n \<and> n \<le> hi then Inr n else Inl (ErrArg ''value out of range'' s)))"

definition ParseInt64 :: "string \<Rightarrow> int res" where
  "ParseInt64 = ParseIntIn min_int64 max_int64"

definition ParseInt32 :: "string \<Rightarrow> int res" where
  "ParseInt32 = ParseIntIn (- 2147483648) 2147483647"

definition Atoi :: "string \<Rightarrow> int res" where
  "Atoi = ParseIntIn min_int64 max_int64"

lemma nat_str_head: "nat_str n = c # t \<Longrightarrow> c \<noteq> CHR ''-'' \<and> c \<noteq> CHR ''+''"
  using nat_str_digits [of c n] by (auto simp: is_digit_def)

lemma ParseIntIn_Itoa:
  assumes "lo \<le> n" and "n \<le> hi"
  shows "ParseIntIn lo hi (Itoa n) = Inr n"
proof (cases "n < 0")
  case True
  with assms show ?thesis by (simp add: ParseIntIn_def Itoa_def read_digits_nat_str Let_def)
next
  case False
  obtain c t where ct: "nat_str (nat n) = c # t" by (cases "nat_str (nat n)") auto
  with nat_str_head [OF ct] read_digits_nat_str [of "nat n"] False assms show ?thesis
    by (simp add: ParseIntIn_def Itoa_def Let_def)
qed

lemma Atoi_Itoa [go_str]: "in_int64 n \<Longrightarrow> Atoi (Itoa n) = Inr n"
  by (simp add: Atoi_def in_int64_def ParseIntIn_Itoa)

lemma ParseInt64_Itoa [go_str]: "in_int64 n \<Longrightarrow> ParseInt64 (Itoa n) = Inr n"
  by (simp add: ParseInt64_def in_int64_def ParseIntIn_Itoa)

lemma Atoi_in_int64: "Atoi s = Inr n \<Longrightarrow> in_int64 n"
  by (auto simp: Atoi_def ParseIntIn_def in_int64_def Let_def split: option.splits if_splits)

section \<open>Booleans\<close>

definition ParseBool :: "string \<Rightarrow> bool res" where
  "ParseBool s =
     (if s \<in> set [''1'', ''t'', ''T'', ''TRUE'', ''true'', ''True''] then Inr True
      else if s \<in> set [''0'', ''f'', ''F'', ''FALSE'', ''false'', ''False''] then Inr False
      else Inl (ErrArg ''strconv.ParseBool: invalid syntax'' s))"

definition FormatBool :: "bool \<Rightarrow> string" where
  "FormatBool b = (if b then ''true'' else ''false'')"

lemma ParseBool_FormatBool [simp, go_str]: "ParseBool (FormatBool b) = Inr b"
  by (simp add: ParseBool_def FormatBool_def)

end
