(* ===== verification/Json_Parse.thy ===== *)
theory Json_Parse
  imports Json_Text
begin

text \<open>
  Numbers, whole values, the parser, and the round trip \<open>parse (print v) = v\<close>.
\<close>

section \<open>Strings are read back\<close>

lemma hex4_u_escape: "n < 65536 \<Longrightarrow>
  hex4 (hex_digit (n div 4096) # hex_digit (n div 256 mod 16) # hex_digit (n div 16 mod 16)
    # hex_digit (n mod 16) # r) = Some (n, r)"
proof -
  assume "n < 65536"
  then have 1: "n div 4096 < 16" by simp
  have e: "n div 256 = n div 16 div 16" "n div 4096 = n div 16 div 16 div 16"
    by (simp_all flip: div_mult2_eq)
  have 2: "16 * (n div 16) + n mod 16 = n"
    "16 * (n div 16 div 16) + n div 16 mod 16 = n div 16"
    "16 * (n div 16 div 16 div 16) + n div 16 div 16 mod 16 = n div 16 div 16"
    by (rule mult_div_mod_eq)+
  have "4096 * (n div 4096) + 256 * (n div 256 mod 16) + 16 * (n div 16 mod 16) + n mod 16 = n"
    unfolding e using 2 by linarith
  with 1 show ?thesis by (simp add: hex_val_digit)
qed

lemma next_piece_u_escape:
  "n < 55296 \<Longrightarrow> next_piece (u_escape n @ r) = Some (encode_rune n, r)"
  by (simp add: next_piece_def u_escape_def unicode_escape_def hex4_u_escape del: hex4.simps)

lemma encode_rune_byte: "byte c < 128 \<Longrightarrow> encode_rune (byte c) = [c]"
  by (simp add: encode_rune_def)

lemma next_piece_print_ascii: "byte c < 128 \<Longrightarrow> next_piece (print_ascii c @ r) = Some ([c], r)"
proof -
  assume c: "byte c < 128"
  show ?thesis
  proof (cases "html_safe c")
    case True
    with c show ?thesis by (simp add: print_ascii_def next_piece_def html_safe_def)
  next
    case False
    have "next_piece (u_escape (byte c) @ r) = Some ([c], r)"
      using c by (simp add: next_piece_u_escape encode_rune_byte)
    moreover have "next_piece ([bslash, c] @ r) = Some ([c], r)" if "c = quote_ch \<or> c = bslash"
      using that by (auto simp: next_piece_def simple_escape_def)
    moreover have "next_piece ([bslash, e] @ r) = Some ([d], r)"
      if "(e, d) \<in> set [(CHR ''n'', CHR 0x0A), (CHR ''r'', CHR 0x0D), (CHR ''t'', CHR 0x09)]" for e d
      using that by (auto simp: next_piece_def simple_escape_def)
    ultimately show ?thesis using False by (simp add: print_ascii_def)
  qed
qed

lemma print_ascii_head: "\<exists>d t. print_ascii c = d # t \<and> d \<noteq> quote_ch"
  by (auto simp: print_ascii_def u_escape_def html_safe_def)

lemma read_string_step:
  assumes "next_piece s = Some (p, r)" and "s = c # t" and "c \<noteq> quote_ch" and "length r < length s"
  shows "read_string s = (case read_string r of None \<Rightarrow> None | Some (q, u) \<Rightarrow> Some (p @ q, u))"
  using assms by (subst read_string.simps) simp

lemma line_separator_bytes:
  "encode_rune 8232 = [CHR 0xE2, CHR 0x80, CHR 0xA8]"
  "encode_rune 8233 = [CHR 0xE2, CHR 0x80, CHR 0xA9]"
  by code_simp+

lemma line_separator_size:
  assumes "take 3 s = encode_rune n" and "n = 8232 \<or> n = 8233"
  shows "utf8_size s = 3"
proof -
  have "s = encode_rune n @ drop 3 s" using assms(1) by (metis append_take_drop_id)
  then obtain u where "s = encode_rune n @ u" by blast
  with assms(2) show ?thesis
    by (elim disjE) (simp_all add: line_separator_bytes in_range_def utf8_second_def cont_def)
qed

lemma next_piece_multibyte:
  assumes "utf8_size (c # r) \<noteq> 0"
  shows "next_piece (take (utf8_size (c # r)) (c # r) @ u)
    = Some (take (utf8_size (c # r)) (c # r), u)"
proof -
  obtain k where k: "utf8_size (c # r) = Suc k" using assms by (cases "utf8_size (c # r)") auto
  have len: "k \<le> length r" using utf8_size_le [of "c # r"] unfolding k by simp
  have "194 \<le> byte c" using assms utf8_size_lead by blast
  then have "\<not> byte c < 32" "\<not> byte c < 128" by linarith+
  moreover have "c \<noteq> bslash" using \<open>194 \<le> byte c\<close> by (intro notI) simp
  moreover have "utf8_size (c # take k r @ u) = Suc k"
    using utf8_size_take [OF assms, of u] unfolding k by (simp del: utf8_size.simps)
  ultimately have "next_piece (c # take k r @ u) = Some (take (Suc k) (c # take k r @ u), drop (Suc k) (c # take k r @ u))"
    by (simp add: next_piece_def del: utf8_size.simps take_Suc_Cons drop_Suc_Cons)
  with len show ?thesis unfolding k by simp
qed

lemma read_string_print_body:
  "valid_utf8 s \<Longrightarrow> read_string (print_body s @ quote_ch # t) = Some (s, t)"
proof (induction s rule: print_body.induct)
  case (1 s)
  show ?case
  proof (cases s)
    case Nil
    then show ?thesis by (simp add: print_body.simps read_string.simps)
  next
    case (Cons c r)
    show ?thesis
    proof (cases "byte c < 128")
      case True
      with "1.prems" Cons have v: "valid_utf8 r" by (simp add: valid_utf8.simps [of "c # r"])
      obtain d u where d: "print_ascii c = d # u" "d \<noteq> quote_ch" using print_ascii_head by blast
      let ?rest = "print_body r @ quote_ch # t"
      have np: "next_piece (print_ascii c @ ?rest) = Some ([c], ?rest)"
        using True by (rule next_piece_print_ascii)
      have "read_string (print_ascii c @ ?rest)
        = (case read_string ?rest of None \<Rightarrow> None | Some (q, w) \<Rightarrow> Some ([c] @ q, w))"
        by (rule read_string_step [OF np]) (use d in auto)
      with "1.IH"(1) [OF Cons True v] True Cons show ?thesis
        by (simp add: print_body.simps [of "c # r"])
    next
      case False
      with "1.prems" Cons have sz: "utf8_size s \<noteq> 0" and v: "valid_utf8 (drop (utf8_size s) s)"
        by (auto simp: valid_utf8.simps [of "c # r"] split: if_splits)
      let ?n = "utf8_size s" and ?rest = "print_body (drop (utf8_size s) s) @ quote_ch # t"
      have IH: "read_string ?rest = Some (drop ?n s, t)" using "1.IH"(3) [OF Cons False sz v] .
      show ?thesis
      proof (cases "take 3 s \<in> set line_separators")
        case True
        then obtain n where n: "take 3 s = encode_rune n" "n = 8232 \<or> n = 8233"
          by (auto simp: line_separators_def)
        then have e: "(if take 3 s = encode_rune 8232 then 8232 else 8233 :: nat) = n"
          by (auto simp: line_separator_bytes)
        have s3: "?n = 3" using n by (rule line_separator_size)
        have np: "next_piece (u_escape n @ ?rest) = Some (take ?n s, ?rest)"
          using n s3 next_piece_u_escape [of n ?rest] by auto
        have "read_string (u_escape n @ ?rest)
          = (case read_string ?rest of None \<Rightarrow> None | Some (q, w) \<Rightarrow> Some (take ?n s @ q, w))"
          by (rule read_string_step [OF np]) (auto simp: u_escape_def)
        with IH True False Cons sz e show ?thesis
          by (simp add: print_body.simps [of "c # r"] del: append_take_drop_id)
             (metis append_take_drop_id)
      next
        case nosep: False
        have np: "next_piece (take ?n s @ ?rest) = Some (take ?n s, ?rest)"
          using next_piece_multibyte [of c r] sz Cons by simp
        obtain k where k: "?n = Suc k" using sz by (cases ?n) auto
        have "c \<noteq> quote_ch" using False by auto
        have "read_string (take ?n s @ ?rest)
          = (case read_string ?rest of None \<Rightarrow> None | Some (q, w) \<Rightarrow> Some (take ?n s @ q, w))"
          by (rule read_string_step [OF np, of c "take k r @ ?rest"])
            (use Cons k \<open>c \<noteq> quote_ch\<close> in auto)
        with IH nosep False Cons sz show ?thesis
          by (simp add: print_body.simps [of "c # r"] del: append_take_drop_id)
             (metis append_take_drop_id)
      qed
    qed
  qed
qed


section \<open>Numbers\<close>

function norm10 :: "int \<Rightarrow> int \<Rightarrow> int \<times> int" where
  "norm10 m e =
     (if m = 0 then (0, 0)
      else if m mod 10 = 0 then norm10 (m div 10) (e + 1)
      else (m, e))"
  by pat_completeness auto
termination by (relation "measure (\<lambda>(m, e). nat \<bar>m\<bar>)") auto

declare norm10.simps [simp del]

definition mk_num :: "int \<Rightarrow> int \<Rightarrow> json" where
  "mk_num m e = (case norm10 m e of (m', e') \<Rightarrow> JNum m' e')"

definition num_normal :: "int \<Rightarrow> int \<Rightarrow> bool" where
  "num_normal m e \<longleftrightarrow> (if m = 0 then e = 0 else m mod 10 \<noteq> 0)"

lemma norm10_normal: "num_normal m e \<Longrightarrow> norm10 m e = (m, e)"
  by (auto simp: num_normal_def norm10.simps [of m e] split: if_splits)

lemma norm10_power: "m \<noteq> 0 \<Longrightarrow> norm10 (m * 10 ^ k) e = norm10 m (e + int k)"
proof (induction k arbitrary: e)
  case 0
  then show ?case by simp
next
  case (Suc k)
  have "norm10 (m * 10 ^ Suc k) e = norm10 (m * 10 ^ k) (e + 1)"
    using Suc.prems by (simp add: norm10.simps [of "m * (10 * 10 ^ k)" e])
  also have "\<dots> = norm10 m (e + 1 + int k)" using Suc by blast
  finally show ?case by (simp add: algebra_simps)
qed

lemma mk_num_of_int: "num_normal m e \<Longrightarrow> 0 \<le> e \<Longrightarrow> mk_num (m * 10 ^ nat e) 0 = JNum m e"
proof (cases "m = 0")
  case True
  assume "num_normal m e"
  with True show ?thesis by (simp add: mk_num_def num_normal_def norm10.simps)
next
  case False
  assume n: "num_normal m e" and "0 \<le> e"
  with False have "norm10 (m * 10 ^ nat e) 0 = norm10 m e" using norm10_power [of m "nat e" 0] by simp
  with norm10_normal [OF n] show ?thesis by (simp add: mk_num_def)
qed

definition digits_val :: "string \<Rightarrow> nat" where
  "digits_val ds = foldl (\<lambda>a c. 10 * a + (byte c - 48)) 0 ds"

lemma read_digits_foldl:
  "read_digits acc ds = Some n \<Longrightarrow> foldl (\<lambda>a c. 10 * a + (byte c - 48)) acc ds = n"
  by (induction acc ds rule: read_digits.induct) (auto split: if_splits)

lemma digits_val_nat_str: "digits_val (nat_str n) = n"
  unfolding digits_val_def by (rule read_digits_foldl [OF read_digits_nat_str])

text \<open>The exponent part: \<open>Some (0, s)\<close> where there is none, \<open>None\<close> where it is broken.\<close>

definition read_exponent :: "string \<Rightarrow> (int \<times> string) option" where
  "read_exponent s = (case s of
       [] \<Rightarrow> Some (0, [])
     | c # r \<Rightarrow>
         if c = CHR ''e'' \<or> c = CHR ''E'' then
           (let neg = HasPrefix r ''-'';
                r' = (if HasPrefix r ''-'' \<or> HasPrefix r ''+'' then tl r else r);
                ds = takeWhile is_digit r'
            in if ds = [] then None
               else Some (if neg then - int (digits_val ds) else int (digits_val ds), drop (length ds) r'))
         else Some (0, s))"

definition read_number :: "string \<Rightarrow> (json \<times> string) option" where
  "read_number s =
     (let neg = HasPrefix s ''-'';
          s1 = (if neg then tl s else s);
          ip = (if HasPrefix s1 ''0'' then ''0'' else takeWhile is_digit s1);
          s2 = drop (length ip) s1;
          frac = (if HasPrefix s2 ''.'' then takeWhile is_digit (tl s2) else []);
          s3 = (if HasPrefix s2 ''.'' then drop (length frac) (tl s2) else s2)
      in if ip = [] \<or> (HasPrefix s2 ''.'' \<and> frac = []) then None
         else (case read_exponent s3 of
             None \<Rightarrow> None
           | Some (x, r) \<Rightarrow>
               (let m = int (digits_val (ip @ frac)) in
                Some (mk_num (if neg then - m else m) (x - int (length frac)), r))))"

text \<open>Go's \<open>floatEncoder\<close>: plain digits while the decimal exponent is in -6 .. 20, else \<open>e\<close>.\<close>

definition print_num :: "int \<Rightarrow> int \<Rightarrow> string" where
  "print_num m e =
     (let ds = nat_str (nat \<bar>m\<bar>); n = int (length ds); x = n + e - 1;
          sign = (if m < 0 then ''-'' else [])
      in if 0 \<le> e \<and> x < 21 then Itoa (m * 10 ^ nat e)
         else if - 6 \<le> x \<and> x < 21 then
           (if 0 < n + e then sign @ take (nat (n + e)) ds @ ''.'' @ drop (nat (n + e)) ds
            else sign @ ''0.'' @ replicate (nat (- e - n)) (CHR ''0'') @ ds)
         else sign @ take 1 ds @ (if 1 < n then ''.'' @ drop 1 ds else []) @ ''e''
           @ (if x < 0 then ''-'' else ''+'') @ nat_str (nat \<bar>x\<bar>))"

definition number_end :: "string \<Rightarrow> bool" where
  "number_end s \<longleftrightarrow> (case s of [] \<Rightarrow> True | c # _ \<Rightarrow>
      \<not> is_digit c \<and> c \<notin> set [CHR ''.'', CHR ''e'', CHR ''E''])"

lemma nat_str_no_leading_zero: "HasPrefix (nat_str n @ r) ''0'' \<longleftrightarrow> n = 0"
proof (induction n arbitrary: r rule: nat_str.induct)
  case (1 n)
  show ?case
  proof (cases "n < 10")
    case True
    then have "byte (digit n) = byte (CHR ''0'') \<longleftrightarrow> n = 0" by (simp add: byte_digit)
    then have "digit n = CHR ''0'' \<longleftrightarrow> n = 0" by (simp only: of_char_eq_iff)
    with True show ?thesis by (simp add: nat_str.simps [of n] HasPrefix_def)
  next
    case False
    with "1.IH" show ?thesis by (simp add: nat_str.simps [of n])
  qed
qed

lemma nat_str_0: "nat_str 0 = ''0''"
  by code_simp

lemma takeWhile_digits: "number_end r \<Longrightarrow> takeWhile is_digit (nat_str n @ r) = nat_str n"
  by (cases r) (auto simp: takeWhile_append number_end_def dest: nat_str_digits)

text \<open>A number from its parts: sign, integer part, fraction, exponent.\<close>

lemma digit_head_not_sign: "is_digit c \<Longrightarrow> c \<noteq> CHR ''-'' \<and> c \<noteq> CHR ''.'' \<and> c \<noteq> CHR ''+''"
  by (auto simp: is_digit_def)

lemma read_number_parts:
  assumes ip: "ip \<noteq> []" "\<forall>c \<in> set ip. is_digit c" "hd ip = CHR ''0'' \<longrightarrow> ip = ''0''"
    and frac: "\<forall>c \<in> set frac. is_digit c"
    and tail: "read_exponent s3 = Some (x, r)" "s3 \<noteq> [] \<longrightarrow> \<not> is_digit (hd s3) \<and> hd s3 \<noteq> CHR ''.''"
  shows "read_number ((if neg then ''-'' else []) @ ip @ (if frac = [] then [] else ''.'' @ frac) @ s3)
    = Some (mk_num (if neg then - int (digits_val (ip @ frac)) else int (digits_val (ip @ frac)))
        (x - int (length frac)), r)"
proof -
  define s2 where "s2 = (if frac = [] then [] else ''.'' @ frac) @ s3"
  obtain c t where ct: "ip = c # t" using ip(1) by (cases ip) auto
  have stop: "takeWhile is_digit s3 = []" using tail(2) by (cases s3) auto
  have s2_hd: "s2 \<noteq> [] \<longrightarrow> \<not> is_digit (hd s2)"
    using tail(2) by (auto simp: s2_def is_digit_def)
  then have "takeWhile is_digit s2 = []" by (cases s2) auto
  then have tk: "takeWhile is_digit (ip @ s2) = ip" using ip(2) by (simp add: takeWhile_append2)
  have ip': "(if HasPrefix (ip @ s2) ''0'' then ''0'' else takeWhile is_digit (ip @ s2)) = ip"
    using ip(3) tk by (simp add: ct HasPrefix_def)
  have dot: "HasPrefix s2 ''.'' \<longleftrightarrow> frac \<noteq> []"
    using tail(2) by (cases s3) (auto simp: s2_def HasPrefix_def)
  have tf: "frac \<noteq> [] \<Longrightarrow> takeWhile is_digit (tl s2) = frac"
    using frac stop by (simp add: s2_def takeWhile_append2)
  have s3': "(if HasPrefix s2 ''.'' then drop (length frac) (tl s2) else s2) = s3"
    unfolding dot by (simp add: s2_def)
  have frac': "(if HasPrefix s2 ''.'' then takeWhile is_digit (tl s2) else []) = frac"
    unfolding dot using tf by auto
  have dr: "drop (length ip) (ip @ s2) = s2" by simp
  have sgn: "HasPrefix ((if neg then ''-'' else []) @ ip @ s2) ''-'' \<longleftrightarrow> neg"
    using digit_head_not_sign [of c] ip(2) by (auto simp: ct HasPrefix_def)
  have s1: "(if neg then tl ((if neg then ''-'' else []) @ ip @ s2) else (if neg then ''-'' else []) @ ip @ s2) = ip @ s2"
    by simp
  have "read_number ((if neg then ''-'' else []) @ ip @ s2)
    = Some (mk_num (if neg then - int (digits_val (ip @ frac)) else int (digits_val (ip @ frac)))
        (x - int (length frac)), r)"
    unfolding read_number_def Let_def sgn s1 ip' dr frac' s3'
    using ip(1) by (simp add: tail(1) dot)
  then show ?thesis by (simp add: s2_def)
qed

lemma read_exponent_none: "number_end r \<Longrightarrow> read_exponent r = Some (0, r)"
  by (cases r) (auto simp: read_exponent_def number_end_def)

lemma read_exponent_print:
  assumes "number_end r"
  shows "read_exponent (''e'' @ (if x < 0 then ''-'' else ''+'') @ nat_str (nat \<bar>x\<bar>) @ r) = Some (x, r)"
proof -
  define d where "d = nat_str (nat \<bar>x\<bar>)"
  have tw: "takeWhile is_digit (d @ r) = d" unfolding d_def using assms by (rule takeWhile_digits)
  have d: "d \<noteq> []" "int (digits_val d) = \<bar>x\<bar>" by (simp_all add: d_def digits_val_nat_str)
  have "read_exponent (''e'' @ (if x < 0 then ''-'' else ''+'') @ d @ r) = Some (x, r)"
    using d by (cases "x < 0") (simp_all add: read_exponent_def HasPrefix_def Let_def tw)
  then show ?thesis by (simp add: d_def)
qed

lemma nat_str_hd: "hd (nat_str n) = CHR ''0'' \<longrightarrow> nat_str n = ''0''"
proof -
  obtain c t where ct: "nat_str n = c # t" by (cases "nat_str n") auto
  have "HasPrefix (nat_str n @ []) ''0'' \<longleftrightarrow> n = 0" by (rule nat_str_no_leading_zero)
  then show ?thesis using nat_str_0 by (auto simp: ct HasPrefix_def)
qed

lemma read_number_Itoa: "number_end r \<Longrightarrow> read_number (Itoa k @ r) = Some (mk_num k 0, r)"
proof -
  assume r: "number_end r"
  note read_number_parts [of "nat_str (nat \<bar>k\<bar>)" "[]" r 0 r "k < 0",
    OF nat_str_not_Nil _ nat_str_hd _ read_exponent_none [OF r]]
  moreover have "\<forall>c \<in> set (nat_str (nat \<bar>k\<bar>)). is_digit c" by (auto dest: nat_str_digits)
  moreover have "r \<noteq> [] \<longrightarrow> \<not> is_digit (hd r) \<and> hd r \<noteq> CHR ''.''"
    using r by (auto simp: number_end_def split: list.splits)
  ultimately show ?thesis by (cases "k < 0") (simp_all add: digits_val_nat_str Itoa_def)
qed

lemma digits_val_zeros: "digits_val (replicate k (CHR ''0'') @ ds) = digits_val ds"
  by (induction k) (simp_all add: digits_val_def)

lemma num_normal_digits:
  assumes "num_normal m e" "m \<noteq> 0" "ds = nat_str (nat \<bar>m\<bar>)"
  shows "ds \<noteq> []" "\<forall>c \<in> set ds. is_digit c" "hd ds \<noteq> CHR ''0''" "digits_val ds = nat \<bar>m\<bar>"
proof -
  have ne: "ds \<noteq> []" using assms(3) by simp
  then obtain c t where ct: "ds = c # t" by (cases ds) auto
  show "ds \<noteq> []" "\<forall>c \<in> set ds. is_digit c" "digits_val ds = nat \<bar>m\<bar>"
    using assms by (auto simp: digits_val_nat_str dest: nat_str_digits)
  show "hd ds \<noteq> CHR ''0''"
    using nat_str_no_leading_zero [of "nat \<bar>m\<bar>" "[]"] assms(2)
    unfolding assms(3) [symmetric] ct by (simp add: HasPrefix_def)
qed

lemma mk_num_sign:
  assumes "num_normal m e" and "d = nat \<bar>m\<bar>"
  shows "mk_num (if m < 0 then - int d else int d) e = JNum m e"
  using norm10_normal [OF assms(1)] assms(2) by (auto simp: mk_num_def)

theorem read_number_print:
  assumes nn: "num_normal m e" and r: "number_end r"
  shows "read_number (print_num m e @ r) = Some (JNum m e, r)"
proof -
  define ds where "ds = nat_str (nat \<bar>m\<bar>)"
  define n where "n = int (length ds)"
  define x where "x = n + e - 1"
  have pr: "print_num m e =
    (if 0 \<le> e \<and> x < 21 then Itoa (m * 10 ^ nat e)
     else if - 6 \<le> x \<and> x < 21 then
       (if 0 < n + e then (if m < 0 then ''-'' else []) @ take (nat (n + e)) ds @ ''.'' @ drop (nat (n + e)) ds
        else (if m < 0 then ''-'' else []) @ ''0.'' @ replicate (nat (- e - n)) (CHR ''0'') @ ds)
     else (if m < 0 then ''-'' else []) @ take 1 ds @ (if 1 < n then ''.'' @ drop 1 ds else []) @ ''e''
       @ (if x < 0 then ''-'' else ''+'') @ nat_str (nat \<bar>x\<bar>))"
    by (simp add: print_num_def Let_def ds_def n_def x_def)
  consider (int) "0 \<le> e" "x < 21" | (big) "m \<noteq> 0" "\<not> (- 6 \<le> x \<and> x < 21)"
    | (mixed) "m \<noteq> 0" "e < 0" "- 6 \<le> x" "x < 21" "0 < n + e"
    | (small) "m \<noteq> 0" "e < 0" "- 6 \<le> x" "x < 21" "n + e \<le> 0"
    using nn by (fastforce simp: num_normal_def x_def n_def ds_def nat_str_0 split: if_splits)
  then show ?thesis
  proof cases
    case int
    with nn r show ?thesis by (simp add: pr read_number_Itoa mk_num_of_int)
  next
    case mixed
    note ds = num_normal_digits [OF nn mixed(1) ds_def]
    define k where "k = nat (n + e)"
    have k: "0 < k" "k < length ds" using mixed by (auto simp: k_def n_def)
    have "read_number ((if m < 0 then ''-'' else []) @ take k ds @ (if drop k ds = [] then [] else ''.'' @ drop k ds) @ r)
      = Some (mk_num (if m < 0 then - int (digits_val (take k ds @ drop k ds)) else int (digits_val (take k ds @ drop k ds)))
          (0 - int (length (drop k ds))), r)"
      by (rule read_number_parts [OF _ _ _ _ read_exponent_none [OF r]])
        (use k ds r in \<open>auto dest: in_set_takeD in_set_dropD simp: number_end_def hd_take split: list.splits\<close>)
    moreover have "0 - int (length (drop k ds)) = e" using mixed k by (simp add: k_def n_def)
    ultimately show ?thesis
      using mixed k mk_num_sign [OF nn ds(4)] by (simp add: pr cong: if_cong split del: if_split flip: k_def)
  next
    case small
    note ds = num_normal_digits [OF nn small(1) ds_def]
    define z where "z = replicate (nat (- e - n)) (CHR ''0'')"
    have "read_number ((if m < 0 then ''-'' else []) @ ''0'' @ (if z @ ds = [] then [] else ''.'' @ z @ ds) @ r)
      = Some (mk_num (if m < 0 then - int (digits_val (''0'' @ z @ ds)) else int (digits_val (''0'' @ z @ ds)))
          (0 - int (length (z @ ds))), r)"
      by (rule read_number_parts [OF _ _ _ _ read_exponent_none [OF r]])
        (use ds r in \<open>auto simp: number_end_def z_def is_digit_def split: list.splits\<close>)
    moreover have "0 - int (length (z @ ds)) = e" using small by (simp add: z_def n_def)
    moreover have "digits_val (''0'' @ z @ ds) = nat \<bar>m\<bar>"
      using digits_val_zeros [of "Suc (nat (- e - n))" ds] ds(4) by (simp add: z_def)
    ultimately show ?thesis
      using small ds mk_num_sign [OF nn refl] by (simp add: pr cong: if_cong split del: if_split flip: z_def)
  next
    case big
    note ds = num_normal_digits [OF nn big(1) ds_def]
    have "read_number ((if m < 0 then ''-'' else []) @ take 1 ds @ (if drop 1 ds = [] then [] else ''.'' @ drop 1 ds)
        @ (''e'' @ (if x < 0 then ''-'' else ''+'') @ nat_str (nat \<bar>x\<bar>) @ r))
      = Some (mk_num (if m < 0 then - int (digits_val (take 1 ds @ drop 1 ds)) else int (digits_val (take 1 ds @ drop 1 ds)))
          (x - int (length (drop 1 ds))), r)"
      by (rule read_number_parts [OF _ _ _ _ read_exponent_print [OF r]])
        (use ds in \<open>auto dest: in_set_takeD in_set_dropD simp: is_digit_def hd_take\<close>)
    moreover have "x - int (length (drop 1 ds)) = e"
      using ds(1) by (cases ds) (auto simp: x_def n_def)
    moreover have "(if drop 1 ds = [] then [] else ''.'' @ drop 1 ds) = (if 1 < n then ''.'' @ drop 1 ds else [])"
      by (simp add: n_def)
    moreover have "\<not> (0 \<le> e \<and> x < 21)"
      using big(2) ds(1) by (cases ds) (auto simp: x_def n_def)
    then have "print_num m e = (if m < 0 then ''-'' else []) @ take 1 ds @ (if 1 < n then ''.'' @ drop 1 ds else [])
        @ ''e'' @ (if x < 0 then ''-'' else ''+'') @ nat_str (nat \<bar>x\<bar>)"
      using big(2) by (simp only: pr if_False simp_thms)
    ultimately show ?thesis
      by (simp only: append_take_drop_id append_assoc mk_num_sign [OF nn ds(4)])
  qed
qed

section \<open>What the parser returns\<close>

text \<open>Strings that were read are well-formed UTF-8, numbers are in lowest terms.\<close>

lemma num_normal_norm10: "num_normal (fst (norm10 m e)) (snd (norm10 m e))"
proof (induction m e rule: norm10.induct)
  case (1 m e)
  then show ?case by (simp add: norm10.simps [of m e] num_normal_def)
qed

lemma read_number_ok: "read_number s = Some (v, r) \<Longrightarrow> \<exists>m e. v = JNum m e \<and> num_normal m e"
proof -
  assume "read_number s = Some (v, r)"
  then obtain m e where "v = mk_num m e"
    by (auto simp: read_number_def Let_def split: if_splits option.splits)
  then show ?thesis using num_normal_norm10 [of m e] by (cases "norm10 m e") (simp add: mk_num_def)
qed

lemma valid_utf8_Nil [simp]: "valid_utf8 []"
  by (simp add: valid_utf8.simps)

lemma valid_utf8_ascii: "byte c < 128 \<Longrightarrow> valid_utf8 (c # r) = valid_utf8 r"
  by (simp add: valid_utf8.simps [of "c # r"])

lemma utf8_size_append: "utf8_size s \<noteq> 0 \<Longrightarrow> utf8_size (s @ t) = utf8_size s"
  by (induction s rule: utf8_size.induct) (auto split: list.splits if_splits)

lemma valid_utf8_append: "valid_utf8 p \<Longrightarrow> valid_utf8 q \<Longrightarrow> valid_utf8 (p @ q)"
proof (induction p rule: valid_utf8.induct)
  case (1 s)
  show ?case
  proof (cases s)
    case (Cons c r)
    show ?thesis
    proof (cases "byte c < 128")
      case True
      with 1 Cons show ?thesis by (simp add: valid_utf8_ascii)
    next
      case False
      with 1 Cons have sz: "utf8_size s \<noteq> 0" by (auto simp: valid_utf8.simps [of "c # r"] split: if_splits)
      with 1 Cons False have "valid_utf8 (drop (utf8_size s) s @ q)"
        by (auto simp: valid_utf8.simps [of "c # r"])
      moreover have "drop (utf8_size s) (s @ q) = drop (utf8_size s) s @ q"
        using utf8_size_le [of s] by simp
      ultimately show ?thesis using sz False Cons
        by (simp add: valid_utf8.simps [of "c # r @ q"] utf8_size_append [of "c # r", simplified])
    qed
  qed (use 1 in simp)
qed

lemma valid_utf8_char: "utf8_size s = length s \<Longrightarrow> s \<noteq> [] \<Longrightarrow> valid_utf8 s"
proof (cases s)
  case (Cons c t)
  assume "utf8_size s = length s"
  with Cons utf8_size_lead [of c t] show ?thesis by (simp add: valid_utf8.simps [of "c # t"])
qed simp

definition scalar :: "nat \<Rightarrow> bool" where
  "scalar n \<longleftrightarrow> n < 55296 \<or> (57343 < n \<and> n < 1114112)"

lemma valid_utf8_encode_rune:
  assumes "scalar n" shows "valid_utf8 (encode_rune n)"
proof -
  have m: "k mod 64 \<le> 63" for k :: nat using mod_less_divisor [of 64 k] by simp
  consider "n < 128" | "128 \<le> n" "n < 2048" | "2048 \<le> n" "n < 65536" | "65536 \<le> n" "n < 1114112"
    using assms by (force simp: scalar_def)
  then show ?thesis
  proof cases
    case 1
    then show ?thesis by (simp add: encode_rune_def valid_utf8_ascii of_char_of)
  next
    case 2
    have "2 \<le> n div 64" "n div 64 < 32" using 2 by auto
    then show ?thesis using 2 by (intro valid_utf8_char) (simp_all add: encode_rune_def cont_def in_range_def of_char_of)
  next
    case 3
    have "n div 4096 < 16" using 3 by auto
    moreover have "n div 64 \<le> 63" if "n div 4096 = 0" using that by auto
    moreover have "32 \<le> n div 64 mod 64" if "n div 4096 = 0"
    proof -
      have "n div 64 < 64" "32 \<le> n div 64" using that 3 by auto
      then show ?thesis by simp
    qed
    moreover have "n div 64 mod 64 \<le> 31" if "n div 4096 = 13"
    proof -
      have "53248 \<le> n" "n < 57344" using that by auto
      with assms have "n < 55296" by (simp add: scalar_def)
      then have "n div 64 < 864" "832 \<le> n div 64" using \<open>53248 \<le> n\<close> by auto
      then have "(n div 64 - 832) mod 64 = n div 64 mod 64" "n div 64 - 832 < 32"
        using mod_mult_self2 [of "n div 64 - 832" 64 13] by auto
      then show ?thesis by simp
    qed
    ultimately show ?thesis using 3
      by (intro valid_utf8_char) (simp_all add: encode_rune_def cont_def utf8_second_def in_range_def of_char_of m)
  next
    case 4
    have "n div 262144 < 5" using 4 by auto
    moreover have "n div 4096 \<le> 63" if "n div 262144 = 0" using that by auto
    moreover have "16 \<le> n div 4096 mod 64" if "n div 262144 = 0"
    proof -
      have "n div 4096 < 64" "16 \<le> n div 4096" using that 4 by auto
      then show ?thesis by simp
    qed
    moreover have "n div 4096 mod 64 \<le> 15" if "n div 262144 = 4"
    proof -
      have "n div 4096 < 272" "256 \<le> n div 4096" using that 4 by auto
      then have "(n div 4096 - 256) mod 64 = n div 4096 mod 64" "n div 4096 - 256 < 16"
        using mod_mult_self2 [of "n div 4096 - 256" 64 4] by auto
      then show ?thesis by simp
    qed
    ultimately show ?thesis using 4
      by (intro valid_utf8_char) (simp_all add: encode_rune_def cont_def utf8_second_def in_range_def of_char_of m)
  qed
qed
lemma hex4_bound: "hex4 s = Some (n, r) \<Longrightarrow> n < 65536"
proof -
  have h: "hex_val c = Some d \<Longrightarrow> d < 16" for c d
    by (auto simp: hex_val_def is_digit_def in_range_def split: if_splits)
  show "hex4 s = Some (n, r) \<Longrightarrow> n < 65536"
    by (induction s rule: hex4.induct) (fastforce split: option.splits dest: h)+
qed

lemma unicode_escape_valid: "unicode_escape s = Some (p, r) \<Longrightarrow> valid_utf8 p"
proof -
  have b: "(a - 55296) * 1024 + c < 1104896" if "a < 56320" "c \<le> 57343" for a c :: nat
    using that by linarith
  show "unicode_escape s = Some (p, r) \<Longrightarrow> valid_utf8 p"
  by (auto simp: b unicode_escape_def scalar_def rune_error_def split: option.splits list.splits if_splits
      dest!: hex4_bound intro!: valid_utf8_encode_rune)
qed

lemma next_piece_valid: "next_piece s = Some (p, r) \<Longrightarrow> valid_utf8 p"
proof -
  assume a: "next_piece s = Some (p, r)"
  have sz: "valid_utf8 (take (utf8_size s) s)" if "utf8_size s \<noteq> 0"
    using that utf8_size_take [of s "[]"] utf8_size_le [of s]
    by (intro valid_utf8_char) (auto simp: min_def)
  have re: "valid_utf8 (encode_rune rune_error)"
    by (rule valid_utf8_encode_rune) (simp add: scalar_def rune_error_def)
  have e: "valid_utf8 [d]" if "simple_escape c = Some d" for c d
  proof -
    have "byte d < 128" using that unfolding simple_escape_def by (simp split: if_splits) auto
    then show ?thesis by (simp add: valid_utf8_ascii)
  qed
  show ?thesis
  proof (cases s)
    case (Cons c t)
    with a sz re show ?thesis
      unfolding next_piece_def
      by (auto simp: valid_utf8_ascii split: list.splits if_splits option.splits intro: unicode_escape_valid e)
  qed (use a in \<open>simp add: next_piece_def\<close>)
qed

lemma read_string_valid: "read_string s = Some (p, r) \<Longrightarrow> valid_utf8 p"
proof (induction s arbitrary: p r rule: read_string.induct)
  case (1 s)
  show ?case
  proof (cases s)
    case Nil
    with "1.prems" show ?thesis by (simp add: read_string.simps)
  next
    case (Cons c t)
    show ?thesis
    proof (cases "c = quote_ch")
      case True
      with "1.prems" Cons show ?thesis by (simp add: read_string.simps [of "quote_ch # t"])
    next
      case False
      with "1.prems" Cons obtain q u v where
        "next_piece s = Some (q, u)" "length u < length s" "read_string u = Some (v, r)" "p = q @ v"
        by (auto simp: read_string.simps [of "c # t"] split: if_splits option.splits)
      with "1.IH" [OF Cons False] show ?thesis by (auto intro: valid_utf8_append dest: next_piece_valid)
    qed
  qed
qed

end
