(* ===== verification/Json_Codec.thy ===== *)
theory Json_Codec
  imports Json_Parse
begin

text \<open>
  \<open>json.Marshal\<close> and the parser behind \<open>json.Unmarshal\<close> on whole values, and the
  interface through which the services use them: a locale with one law, that a
  printed value is read back, interpreted on the two functions.
\<close>

section \<open>The parser\<close>

definition is_ws :: "char \<Rightarrow> bool" where
  "is_ws c \<longleftrightarrow> c \<in> set [CHR '' '', CHR 0x09, CHR 0x0A, CHR 0x0D]"

definition skip_ws :: "string \<Rightarrow> string" where
  "skip_ws s = dropWhile is_ws s"

lemma length_skip_ws: "length (skip_ws s) \<le> length s"
  by (simp add: skip_ws_def length_dropWhile_le)

lemma skip_ws_shorter: "skip_ws s = c # r \<Longrightarrow> length r < length s"
  using length_skip_ws [of s] by simp

function read_value :: "string \<Rightarrow> (json \<times> string) option"
  and read_elems :: "string \<Rightarrow> (json list \<times> string) option"
  and read_members :: "string \<Rightarrow> ((string \<times> json) list \<times> string) option"
where
  "read_value s = (case skip_ws s of
       [] \<Rightarrow> None
     | c # r \<Rightarrow>
         if c = quote_ch then map_option (apfst JStr) (read_string r)
         else if c = CHR ''{'' then
           (case skip_ws r of
              [] \<Rightarrow> None
            | d # r' \<Rightarrow> if d = CHR ''}'' then Some (JObj [], r')
                else map_option (apfst JObj) (read_members (d # r')))
         else if c = CHR ''['' then
           (case skip_ws r of
              [] \<Rightarrow> None
            | d # r' \<Rightarrow> if d = CHR '']'' then Some (JArr [], r')
                else map_option (apfst JArr) (read_elems (d # r')))
         else if HasPrefix (c # r) ''null'' then Some (JNull, drop 3 r)
         else if HasPrefix (c # r) ''true'' then Some (JBool True, drop 3 r)
         else if HasPrefix (c # r) ''false'' then Some (JBool False, drop 4 r)
         else read_number (c # r))"
| "read_elems s = (case read_value s of
       None \<Rightarrow> None
     | Some (v, r) \<Rightarrow> (case skip_ws r of
           [] \<Rightarrow> None
         | d # r' \<Rightarrow>
             if d = CHR '']'' then Some ([v], r')
             else if d = CHR '','' \<and> length r' < length s
             then map_option (apfst (\<lambda>vs. v # vs)) (read_elems r')
             else None))"
| "read_members s = (case skip_ws s of
       [] \<Rightarrow> None
     | q # r \<Rightarrow>
         if q \<noteq> quote_ch then None
         else (case read_string r of
             None \<Rightarrow> None
           | Some (k, r1) \<Rightarrow> (case skip_ws r1 of
               [] \<Rightarrow> None
             | c # r2 \<Rightarrow>
                 if c = CHR '':'' \<and> length r2 < length s then
                   (case read_value r2 of
                      None \<Rightarrow> None
                    | Some (v, r3) \<Rightarrow> (case skip_ws r3 of
                        [] \<Rightarrow> None
                      | d # r4 \<Rightarrow>
                          if d = CHR ''}'' then Some ([(k, v)], r4)
                          else if d = CHR '','' \<and> length r4 < length s
                          then map_option (apfst (\<lambda>kvs. (k, v) # kvs)) (read_members r4)
                          else None))
                 else None)))"
  by pat_completeness auto
termination
  by (relation "measure (\<lambda>x. case x of Inl s \<Rightarrow> 2 * length s
        | Inr (Inl s) \<Rightarrow> Suc (2 * length s) | Inr (Inr s) \<Rightarrow> Suc (2 * length s))")
     (auto dest!: skip_ws_shorter)

declare read_value.simps [simp del] read_elems.simps [simp del] read_members.simps [simp del]

text \<open>\<open>checkValid\<close> and the parse: one value, white space around it, nothing else.\<close>

definition parse_json :: "string \<Rightarrow> json option" where
  "parse_json s = (case read_value s of
       None \<Rightarrow> None
     | Some (v, r) \<Rightarrow> if skip_ws r = [] then Some v else None)"

section \<open>The printer\<close>

fun print_json :: "json \<Rightarrow> string" where
  "print_json JNull = ''null''"
| "print_json (JBool b) = FormatBool b"
| "print_json (JNum m e) = print_num m e"
| "print_json (JStr s) = print_string s"
| "print_json (JArr vs) = ''['' @ Join (map print_json vs) '','' @ '']''"
| "print_json (JObj kvs) =
     ''{'' @ Join (map (\<lambda>(k, v). print_string k @ '':'' @ print_json v) kvs) '','' @ ''}''"

text \<open>
  The values whose text is read back unchanged: strings are well-formed UTF-8 and
  numbers are in lowest terms.
\<close>

fun json_ok :: "json \<Rightarrow> bool" where
  "json_ok JNull = True"
| "json_ok (JBool b) = True"
| "json_ok (JNum m e) = num_normal m e"
| "json_ok (JStr s) = valid_utf8 s"
| "json_ok (JArr vs) = list_all json_ok vs"
| "json_ok (JObj kvs) = list_all (\<lambda>(k, v). valid_utf8 k \<and> json_ok v) kvs"

text \<open>What may follow a value inside a document.\<close>

definition value_end :: "string \<Rightarrow> bool" where
  "value_end s \<longleftrightarrow> (case s of [] \<Rightarrow> True | c # _ \<Rightarrow> c \<in> set [CHR '','', CHR '']'', CHR ''}''] \<or> is_ws c)"

lemma value_end_number_end: "value_end s \<Longrightarrow> number_end s"
  by (cases s) (auto simp: value_end_def number_end_def is_ws_def is_digit_def)

lemma print_json_head: "\<exists>c t. print_json v = c # t \<and> \<not> is_ws c \<and> c \<noteq> CHR '']'' \<and> c \<noteq> CHR ''}'' \<or> (\<exists>m e. v = JNum m e)"
  by (cases v) (auto simp: FormatBool_def print_string_def is_ws_def)

lemma Itoa_head:
  "\<exists>c t. Itoa k = c # t \<and> (c = CHR ''-'' \<or> is_digit c)"
proof (cases "nat_str (nat k)")
  case (Cons c t)
  with nat_str_digits [of c "nat k"] show ?thesis by (auto simp: Itoa_def)
qed simp

lemma nat_str_is_digit: "nat_str n = c # t \<Longrightarrow> is_digit c"
  using nat_str_digits [of c n] by simp

lemma print_num_head: "\<exists>c t. print_num m e = c # t \<and> (c = CHR ''-'' \<or> is_digit c)"
proof -
  obtain d ds where d: "nat_str (nat \<bar>m\<bar>) = d # ds" by (cases "nat_str (nat \<bar>m\<bar>)") auto
  have t: "take (nat k) (d # ds) = d # take (nat k - 1) ds" if "0 < k" for k :: int
    using that by (simp add: take_Cons')
  have z: "is_digit (CHR ''0'')" by (simp add: is_digit_def)
  show ?thesis
    using nat_str_is_digit [OF d] Itoa_head [of "m * 10 ^ nat e"]
    unfolding print_num_def Let_def d by (simp add: t z)
qed

lemma print_json_head_ok:
  assumes "json_ok v"
  shows "\<exists>c t. print_json v = c # t \<and> \<not> is_ws c \<and> c \<noteq> CHR '']'' \<and> c \<noteq> CHR ''}''"
proof (cases "\<exists>m e. v = JNum m e")
  case True
  then obtain m e where v: "v = JNum m e" by blast
  with print_num_head [of m e] show ?thesis by (auto simp: is_ws_def is_digit_def)
next
  case False
  with print_json_head [of v] show ?thesis by blast
qed

lemma skip_ws_id: "\<not> is_ws c \<Longrightarrow> skip_ws (c # r) = c # r"
  by (simp add: skip_ws_def)


section \<open>The round trip\<close>

lemma read_value_num:
  assumes "json_ok (JNum m e)" and "value_end r"
  shows "read_value (print_json (JNum m e) @ r) = Some (JNum m e, r)"
proof -
  have rd: "read_number (print_num m e @ r) = Some (JNum m e, r)"
    using assms by (simp add: read_number_print value_end_number_end)
  obtain c t where ct: "print_num m e = c # t" "c = CHR ''-'' \<or> is_digit c"
    using print_num_head by blast
  then have nws: "\<not> is_ws c" by (auto simp: is_ws_def is_digit_def)
  have "c \<notin> set [quote_ch, CHR ''{'', CHR ''['', CHR ''n'', CHR ''t'', CHR ''f'']"
    using ct(2) by (auto simp: is_digit_def)
  then have "read_value ((c # t) @ r) = read_number ((c # t) @ r)"
    by (subst read_value.simps) (simp add: skip_ws_id nws HasPrefix_def)
  with rd show ?thesis by (simp add: ct(1))
qed

lemma read_string_print: "valid_utf8 s \<Longrightarrow> read_string (print_body s @ quote_ch # r) = Some (s, r)"
  by (rule read_string_print_body)

lemma read_elems_print:
  assumes "vs \<noteq> []"
    and "\<And>v u. v \<in> set vs \<Longrightarrow> value_end u \<Longrightarrow> read_value (print_json v @ u) = Some (v, u)"
  shows "read_elems (Join (map print_json vs) '','' @ CHR '']'' # r) = Some (vs, r)"
  using assms
proof (induction vs)
  case Nil
  then show ?case by simp
next
  case (Cons v vs)
  let ?tail = "(if vs = [] then CHR '']'' # r else CHR '','' # Join (map print_json vs) '','' @ CHR '']'' # r)"
  have body: "Join (map print_json (v # vs)) '','' @ CHR '']'' # r = print_json v @ ?tail"
    by (cases vs) auto
  have "value_end ?tail" by (simp add: value_end_def)
  then have rv: "read_value (print_json v @ ?tail) = Some (v, ?tail)" using Cons.prems by simp
  show ?case
  proof (cases "vs = []")
    case True
    with rv show ?thesis unfolding body
      by (subst read_elems.simps) (simp add: skip_ws_id is_ws_def)
  next
    case False
    with Cons have "read_elems (Join (map print_json vs) '','' @ CHR '']'' # r) = Some (vs, r)" by simp
    with rv False show ?thesis unfolding body
      by (subst read_elems.simps) (simp add: skip_ws_id is_ws_def)
  qed
qed

lemma read_members_print:
  assumes "kvs \<noteq> []"
    and "\<And>k v u. (k, v) \<in> set kvs \<Longrightarrow> value_end u \<Longrightarrow> read_value (print_json v @ u) = Some (v, u)"
    and "\<And>k v. (k, v) \<in> set kvs \<Longrightarrow> valid_utf8 k"
  shows "read_members (Join (map (\<lambda>(k, v). print_string k @ '':'' @ print_json v) kvs) '',''
      @ CHR ''}'' # r) = Some (kvs, r)"
  using assms
proof (induction kvs)
  case Nil
  then show ?case by simp
next
  case (Cons kv kvs)
  obtain k v where kv: "kv = (k, v)" by (cases kv)
  let ?pm = "\<lambda>(k, v). print_string k @ '':'' @ print_json v"
  let ?tail = "(if kvs = [] then CHR ''}'' # r else CHR '','' # Join (map ?pm kvs) '','' @ CHR ''}'' # r)"
  let ?val = "print_json v @ ?tail"
  have body: "Join (map ?pm (kv # kvs)) '','' @ CHR ''}'' # r
      = quote_ch # print_body k @ quote_ch # CHR '':'' # ?val"
    by (cases kvs) (auto simp: kv print_string_def)
  have "value_end ?tail" by (simp add: value_end_def)
  then have rv: "read_value ?val = Some (v, ?tail)" by (rule Cons.prems(2) [of k v, rotated]) (simp add: kv)
  have rs: "read_string (print_body k @ quote_ch # CHR '':'' # ?val) = Some (k, CHR '':'' # ?val)"
    by (rule read_string_print) (use Cons.prems(3) kv in auto)
  have len: "\<not> is_ws quote_ch" "\<not> is_ws (CHR '':'')" by (simp_all add: is_ws_def)
  show ?case
  proof (cases "kvs = []")
    case True
    with rv rs show ?thesis unfolding body
      by (subst read_members.simps) (simp add: skip_ws_id len kv is_ws_def)
  next
    case False
    have "read_members (Join (map ?pm kvs) '','' @ CHR ''}'' # r) = Some (kvs, r)"
      by (rule Cons.IH [OF False]; (rule Cons.prems(2) | rule Cons.prems(3))) auto
    with rv rs False show ?thesis unfolding body
      by (subst read_members.simps) (simp add: skip_ws_id len kv is_ws_def)
  qed
qed

lemma print_elems_head:
  assumes "json_ok v"
  shows "\<exists>c t. Join (map print_json (v # vs)) '','' @ u = c # t \<and> \<not> is_ws c \<and> c \<noteq> CHR '']''"
proof -
  from print_json_head_ok [OF assms] obtain c t where
    "print_json v = c # t" "\<not> is_ws c" "c \<noteq> CHR '']''" by blast
  then show ?thesis by (cases vs) auto
qed

theorem read_value_print:
  "json_ok v \<Longrightarrow> value_end r \<Longrightarrow> read_value (print_json v @ r) = Some (v, r)"
proof (induction v arbitrary: r rule: print_json.induct)
  case (3 m e)
  then show ?case by (intro read_value_num)
next
  case (4 s)
  then show ?case
    by (subst read_value.simps) (simp add: print_string_def skip_ws_id is_ws_def read_string_print)
next
  case (5 vs)
  show ?case
  proof (cases vs)
    case Nil
    then show ?thesis by (subst read_value.simps) (simp add: skip_ws_id is_ws_def)
  next
    case (Cons w ws)
    let ?b = "Join (map print_json vs) '','' @ CHR '']'' # r"
    have "read_elems ?b = Some (vs, r)"
      by (rule read_elems_print) (use 5 Cons in \<open>auto simp: list_all_iff\<close>)
    moreover obtain c t where c: "?b = c # t" "\<not> is_ws c" "c \<noteq> CHR '']''"
      using print_elems_head [of w ws "CHR '']'' # r"] 5 Cons by auto
    ultimately have re: "read_elems (c # t) = Some (vs, r)" by simp
    have "print_json (JArr vs) @ r = CHR ''['' # c # t" by (simp add: c(1))
    then show ?thesis
      using c by (subst read_value.simps) (simp add: skip_ws_id [OF c(2)] skip_ws_id re, simp add: is_ws_def skip_ws_def re)
  qed
next
  case (6 kvs)
  show ?case
  proof (cases kvs)
    case Nil
    then show ?thesis by (subst read_value.simps) (simp add: skip_ws_id is_ws_def)
  next
    case (Cons w ws)
    let ?b = "Join (map (\<lambda>(k, v). print_string k @ '':'' @ print_json v) kvs) '','' @ CHR ''}'' # r"
    have rm: "read_members ?b = Some (kvs, r)"
      by (rule read_members_print) (use 6 Cons in \<open>fastforce simp: list_all_iff\<close>)+
    have "hd ?b = quote_ch \<and> ?b \<noteq> []" unfolding Cons
      by (cases w; cases ws) (auto simp: print_string_def)
    then obtain t where t: "?b = quote_ch # t" by (metis list.collapse)
    from rm have re: "read_members (quote_ch # t) = Some (kvs, r)" by (simp only: t)
    have "print_json (JObj kvs) @ r = CHR ''{'' # quote_ch # t" using t by simp
    then show ?thesis
      by (subst read_value.simps) (simp add: skip_ws_id is_ws_def re)
  qed
qed (subst read_value.simps, simp add: skip_ws_id is_ws_def HasPrefix_def FormatBool_def)+

theorem parse_print_json: "json_ok v \<Longrightarrow> parse_json (print_json v) = Some v"
  using read_value_print [of v "[]"] by (simp add: parse_json_def value_end_def skip_ws_def)

text \<open>Whatever the parser returns can be printed and read back.\<close>

lemma read_json_ok:
  "read_value s = Some (v, r) \<Longrightarrow> json_ok v"
  "read_elems s = Some (vs, r) \<Longrightarrow> list_all json_ok vs"
  "read_members s = Some (kvs, r) \<Longrightarrow> list_all (\<lambda>(k, v). valid_utf8 k \<and> json_ok v) kvs"
proof (induction s and s and s arbitrary: v r and vs r and kvs r
    rule: read_value_read_elems_read_members.induct)
  case (1 s)
  from "1.prems" show ?case
    by (subst (asm) read_value.simps)
      (auto split: list.splits if_splits dest!: read_number_ok dest: read_string_valid "1.IH")
next
  case (2 s)
  from "2.prems" obtain v r1 d r' where
    v: "read_value s = Some (v, r1)" and d: "skip_ws r1 = d # r'"
    by (subst (asm) read_elems.simps) (auto split: list.splits option.splits)
  note ih = "2.IH"(2) [OF v refl d]
  show ?case
  proof (cases "d = CHR '']''")
    case True
    with "2.prems" v d "2.IH"(1) [OF v] show ?thesis
      by (subst (asm) read_elems.simps) auto
  next
    case False
    with "2.prems" v d "2.IH"(1) [OF v] ih show ?thesis
      by (subst (asm) read_elems.simps) (auto split: if_splits)
  qed
next
  case (3 s)
  from "3.prems" obtain q r0 k r1 c r2 v r3 d r4 where
    q: "skip_ws s = q # r0" "\<not> q \<noteq> quote_ch" and k: "read_string r0 = Some (k, r1)"
    and c: "skip_ws r1 = c # r2" "c = CHR '':'' \<and> length r2 < length s"
    and v: "read_value r2 = Some (v, r3)" and d: "skip_ws r3 = d # r4"
    by (subst (asm) read_members.simps) (auto split: list.splits option.splits if_splits)
  note v' = "3.IH"(1) [OF q k refl c v]
  note ih = "3.IH"(2) [OF q k refl c v refl d]
  note k' = read_string_valid [OF k]
  show ?case
  proof (cases "d = CHR ''}''")
    case True
    with "3.prems" q k c v d v' k' show ?thesis
      by (subst (asm) read_members.simps) auto
  next
    case False
    with "3.prems" q k c v d v' k' ih show ?thesis
      by (subst (asm) read_members.simps) (auto split: if_splits)
  qed
qed

theorem parse_json_ok: "parse_json s = Some v \<Longrightarrow> json_ok v"
  using read_json_ok(1) [of s v] by (auto simp: parse_json_def split: option.splits if_splits)

section \<open>The interface of encoding/json\<close>

text \<open>
  What the services rely on: marshalling gives a text that is valid and unmarshals to
  the same value.
\<close>

locale json_codec =
  fixes marshal :: "'v \<Rightarrow> string" and unmarshal :: "string \<Rightarrow> 'v option" and wf :: "'v \<Rightarrow> bool"
  assumes unmarshal_marshal: "wf v \<Longrightarrow> unmarshal (marshal v) = Some v"
begin

lemma marshal_inj: "wf v \<Longrightarrow> wf w \<Longrightarrow> marshal v = marshal w \<Longrightarrow> v = w"
  using unmarshal_marshal by (metis option.inject)

lemma marshal_valid: "wf v \<Longrightarrow> unmarshal (marshal v) \<noteq> None"
  by (simp add: unmarshal_marshal)

text \<open>A normaliser that is idempotent on values is idempotent on texts.\<close>

lemma normalise_text_idem:
  assumes "unmarshal s = Some v" and "wf (f v)" and "f (f v) = f v"
  shows "map_option (marshal \<circ> f) (unmarshal (marshal (f v))) = map_option (marshal \<circ> f) (unmarshal s)"
  using assms by (simp add: unmarshal_marshal)

end

interpretation js: json_codec print_json parse_json json_ok
  by unfold_locales (rule parse_print_json)

end
