(* ===== verification/Json_Value.thy ===== *)
theory Json_Value
  imports Json_Codec
begin

text \<open>
  The Go values that \<open>json.Unmarshal\<close> makes: \<open>map[string]interface{}\<close> as its list
  of entries in key order (the order in which \<open>json.Marshal\<close> prints a map), the
  decoding of a document into it (of two equal keys the last wins), and the
  decoding of the members of an object into the fields of a struct (names are
  matched up to case, \<open>null\<close> leaves a string field as it is, a value of another
  kind is an error).  The interface \<open>go_map\<close> states the laws of a map, \<open>gm\<close>
  discharges them for the model's maps.
\<close>

section \<open>Maps\<close>

type_synonym obj = "(string \<times> json) list"

fun obj_put :: "string \<Rightarrow> json \<Rightarrow> obj \<Rightarrow> obj" where
  "obj_put k v [] = [(k, v)]"
| "obj_put k v ((k', v') # m) =
     (if k = k' then (k, v) # m
      else if k < k' then (k, v) # (k', v') # m
      else (k', v') # obj_put k v m)"

definition obj_get :: "obj \<Rightarrow> string \<Rightarrow> json option" where
  "obj_get m k = map_of m k"

definition obj_del :: "string \<Rightarrow> obj \<Rightarrow> obj" where
  "obj_del k m = filter (\<lambda>e. fst e \<noteq> k) m"

definition obj_wf :: "obj \<Rightarrow> bool" where
  "obj_wf m \<longleftrightarrow> sorted_wrt (<) (map fst m)"

lemma obj_get_put: "obj_get (obj_put k v m) k' = (if k' = k then Some v else obj_get m k')"
  by (induction k v m rule: obj_put.induct) (auto simp: obj_get_def)

lemma obj_get_del: "obj_get (obj_del k m) k' = (if k' = k then None else obj_get m k')"
  by (induction m) (auto simp: obj_get_def obj_del_def)

lemma keys_obj_put: "fst ` set (obj_put k v m) = insert k (fst ` set m)"
  by (induction k v m rule: obj_put.induct) auto

lemma obj_wf_put: "obj_wf m \<Longrightarrow> obj_wf (obj_put k v m)"
proof (induction k v m rule: obj_put.induct)
  case (1 k v)
  then show ?case by (simp add: obj_wf_def)
next
  case (2 k v k' v' m)
  have "\<forall>x \<in> fst ` set (obj_put k v m). k' < x" if "k \<noteq> k'" "\<not> k < k'"
    using that 2 by (auto simp: keys_obj_put obj_wf_def)
  with 2 show ?case by (auto simp: obj_wf_def)
qed

lemma obj_wf_del: "obj_wf m \<Longrightarrow> obj_wf (obj_del k m)"
  by (simp add: obj_wf_def obj_del_def sorted_wrt_map sorted_wrt_filter)

lemma obj_wf_Nil [simp]: "obj_wf []"
  by (simp add: obj_wf_def)

lemma obj_wf_unique: "obj_wf m \<Longrightarrow> obj_wf n \<Longrightarrow> (\<And>k. obj_get m k = obj_get n k) \<Longrightarrow> m = n"
proof -
  assume m: "obj_wf m" and n: "obj_wf n" and eq: "\<And>k. obj_get m k = obj_get n k"
  have d: "distinct (map fst m)" "distinct (map fst n)"
    using m n by (auto simp: obj_wf_def strict_sorted_iff)
  have "set m = set n"
  proof -
    have "(k, v) \<in> set m \<longleftrightarrow> (k, v) \<in> set n" for k v
      using eq [of k] d by (metis map_of_eq_Some_iff obj_get_def)
    then show ?thesis by auto
  qed
  moreover have "inj_on fst (set m \<union> set n)"
    using \<open>set m = set n\<close> d by (simp add: distinct_map)
  ultimately show "m = n"
    using m n d map_sorted_distinct_set_unique [of fst m n]
    by (simp add: obj_wf_def strict_sorted_iff)
qed

locale go_map =
  fixes get :: "'m \<Rightarrow> 'k \<Rightarrow> 'v option" and put :: "'k \<Rightarrow> 'v \<Rightarrow> 'm \<Rightarrow> 'm"
    and del :: "'k \<Rightarrow> 'm \<Rightarrow> 'm" and wf :: "'m \<Rightarrow> bool"
  assumes get_put: "get (put k v m) k' = (if k' = k then Some v else get m k')"
    and get_del: "get (del k m) k' = (if k' = k then None else get m k')"
    and wf_put: "wf m \<Longrightarrow> wf (put k v m)"
    and wf_del: "wf m \<Longrightarrow> wf (del k m)"
    and ext: "wf m \<Longrightarrow> wf n \<Longrightarrow> (\<And>k. get m k = get n k) \<Longrightarrow> m = n"
begin

lemma del_absent: "wf m \<Longrightarrow> get m k = None \<Longrightarrow> del k m = m"
  by (rule ext) (auto simp: get_del wf_del)

lemma del_del: "wf m \<Longrightarrow> del k (del k m) = del k m"
  by (rule del_absent) (simp_all add: get_del wf_del)

lemma put_same: "wf m \<Longrightarrow> get m k = Some v \<Longrightarrow> put k v m = m"
  by (rule ext) (auto simp: get_put wf_put)

lemma put_put: "wf m \<Longrightarrow> put k v (put k w m) = put k v m"
  by (rule ext) (auto simp: get_put wf_put)

lemma del_put: "wf m \<Longrightarrow> del k (put k v m) = del k m"
  by (rule ext) (auto simp: get_put get_del wf_put wf_del)

lemma put_commute: "wf m \<Longrightarrow> k \<noteq> k' \<Longrightarrow> put k v (put k' v' m) = put k' v' (put k v m)"
  by (rule ext) (auto simp: get_put wf_put)

end

interpretation gm: go_map obj_get obj_put obj_del obj_wf
  by unfold_locales (auto simp: obj_get_put obj_get_del obj_wf_put obj_wf_del intro: obj_wf_unique)

section \<open>Decoding into interface{}\<close>

definition obj_of_members :: "(string \<times> json) list \<Rightarrow> obj" where
  "obj_of_members kvs = foldl (\<lambda>m (k, v). obj_put k v m) [] kvs"

fun canon :: "json \<Rightarrow> json" where
  "canon (JArr vs) = JArr (map canon vs)"
| "canon (JObj kvs) = JObj (obj_of_members (map (\<lambda>(k, v). (k, canon v)) kvs))"
| "canon v = v"

text \<open>A number above the largest float64 is an error of the decoder.\<close>

definition num_fits :: "int \<Rightarrow> int \<Rightarrow> bool" where
  "num_fits m e \<longleftrightarrow> m = 0 \<or> int (length (nat_str (nat \<bar>m\<bar>))) + e \<le> 308"

fun nums_fit :: "json \<Rightarrow> bool" where
  "nums_fit (JArr vs) = list_all nums_fit vs"
| "nums_fit (JObj kvs) = list_all (\<lambda>(k, v). nums_fit v) kvs"
| "nums_fit (JNum m e) = num_fits m e"
| "nums_fit v = True"

definition decode_any :: "json \<Rightarrow> json option" where
  "decode_any v = (if nums_fit v then Some (canon v) else None)"

text \<open>Values as they are in memory: every object is a map.\<close>

fun canonical :: "json \<Rightarrow> bool" where
  "canonical (JArr vs) = list_all canonical vs"
| "canonical (JObj kvs) \<longleftrightarrow> obj_wf kvs \<and> list_all (\<lambda>(k, v). canonical v) kvs"
| "canonical v = True"

lemma foldl_put_wf: "obj_wf m \<Longrightarrow> obj_wf (foldl (\<lambda>m (k, v). obj_put k v m) m kvs)"
  by (induction kvs arbitrary: m) (auto simp: obj_wf_put)

lemma obj_of_members_wf [simp]: "obj_wf (obj_of_members kvs)"
  by (simp add: obj_of_members_def foldl_put_wf)

lemma set_obj_put: "set (obj_put k v m) \<subseteq> insert (k, v) (set m)"
  by (induction k v m rule: obj_put.induct) auto

lemma set_foldl_put: "set (foldl (\<lambda>m (k, v). obj_put k v m) m kvs) \<subseteq> set m \<union> set kvs"
proof (induction kvs arbitrary: m)
  case (Cons kv kvs)
  obtain k v where kv: "kv = (k, v)" by (cases kv)
  from Cons.IH [of "obj_put k v m"] set_obj_put [of k v m] show ?case by (auto simp: kv)
qed simp

lemma set_obj_of_members: "set (obj_of_members kvs) \<subseteq> set kvs"
  using set_foldl_put [of "[]" kvs] by (simp add: obj_of_members_def)

lemma obj_get_of_members: "obj_get (obj_of_members kvs) k = map_of (rev kvs) k"
proof -
  have "obj_get (foldl (\<lambda>m (k, v). obj_put k v m) m kvs) k
      = (case map_of (rev kvs) k of Some v \<Rightarrow> Some v | None \<Rightarrow> obj_get m k)" for m
  proof (induction kvs arbitrary: m)
    case (Cons kv kvs)
    then show ?case by (auto simp: obj_get_put map_add_def split: option.split prod.split)
  qed simp
  then show ?thesis by (auto simp: obj_of_members_def obj_get_def split: option.split)
qed

lemma obj_of_members_id: "obj_wf m \<Longrightarrow> obj_of_members m = m"
proof (rule gm.ext)
  fix k assume "obj_wf m"
  then have "distinct (map fst m)" by (auto simp: obj_wf_def strict_sorted_iff)
  then have "map_of (rev m) k = map_of m k"
    by (metis distinct_rev map_of_inject_set rev_map set_rev)
  then show "obj_get (obj_of_members m) k = obj_get m k"
    using obj_get_of_members [of m k] by (simp add: obj_get_def)
qed simp_all

lemma canonical_canon: "canonical (canon v)"
proof (induction v rule: canon.induct)
  case (2 kvs)
  have "canonical w" if "(k, w) \<in> set (obj_of_members (map (\<lambda>(k, v). (k, canon v)) kvs))" for k w
    using that set_obj_of_members [of "map (\<lambda>(k, v). (k, canon v)) kvs"] 2 by fastforce
  then show ?case by (auto simp: list_all_iff)
qed (auto simp: list_all_iff)

lemma canon_canonical: "canonical v \<Longrightarrow> canon v = v"
proof (induction v rule: canon.induct)
  case (1 vs)
  then show ?case by (simp add: list_all_iff map_idI)
next
  case (2 kvs)
  have "map (\<lambda>(k, v). (k, canon v)) kvs = kvs"
    by (rule map_idI) (use 2 in \<open>fastforce simp: list_all_iff\<close>)
  with 2 show ?case by (simp add: obj_of_members_id)
qed auto

lemma canon_idem [simp]: "canon (canon v) = canon v"
  by (simp add: canon_canonical canonical_canon)

lemma json_ok_canon: "json_ok v \<Longrightarrow> json_ok (canon v)"
proof (induction v rule: canon.induct)
  case (2 kvs)
  have "valid_utf8 k \<and> json_ok w" if "(k, w) \<in> set (obj_of_members (map (\<lambda>(k, v). (k, canon v)) kvs))" for k w
    using that set_obj_of_members [of "map (\<lambda>(k, v). (k, canon v)) kvs"] 2
    by (fastforce simp: list_all_iff)
  then show ?case by (auto simp: list_all_iff)
qed (auto simp: list_all_iff)

lemma decode_any_idem: "decode_any v = Some w \<Longrightarrow> nums_fit w \<Longrightarrow> decode_any w = Some w"
  by (auto simp: decode_any_def split: if_splits)


section \<open>Decoding into typed variables\<close>

fun as_string :: "json \<Rightarrow> string option" where
  "as_string (JStr s) = Some s"
| "as_string JNull = Some []"
| "as_string v = None"

text \<open>\<open>[]string\<close>; \<open>null\<close> makes the slice nil, which has no element.\<close>

fun as_strings :: "json \<Rightarrow> string list option" where
  "as_strings (JArr vs) = those (map as_string vs)"
| "as_strings JNull = Some []"
| "as_strings v = None"

text \<open>\<open>map[string]interface{}\<close>; \<open>null\<close> makes the map nil (printed \<open>null\<close>).\<close>

definition as_map :: "json \<Rightarrow> json option" where
  "as_map v = (case v of
       JObj kvs \<Rightarrow> decode_any (JObj kvs)
     | JNull \<Rightarrow> Some JNull
     | _ \<Rightarrow> None)"

text \<open>\<open>[]map[string]interface{}\<close>; \<open>None\<close> is the nil slice.\<close>

definition as_maps :: "json \<Rightarrow> json list option option" where
  "as_maps v = (case v of
       JArr vs \<Rightarrow> map_option Some (those (map as_map vs))
     | JNull \<Rightarrow> Some None
     | _ \<Rightarrow> None)"

text \<open>
  The members of an object that go into the struct field \<open>name\<close>, in document order,
  and the value they leave there, starting from the field's zero value.
\<close>

definition field_vals :: "string \<Rightarrow> (string \<times> json) list \<Rightarrow> json list" where
  "field_vals name kvs = map snd (filter (\<lambda>kv. EqualFold (fst kv) name) kvs)"

fun last_decoded :: "(json \<Rightarrow> 'a option) \<Rightarrow> 'a \<Rightarrow> json list \<Rightarrow> 'a option" where
  "last_decoded f d [] = Some d"
| "last_decoded f d (v # vs) = (case f v of None \<Rightarrow> None | Some x \<Rightarrow> last_decoded f x vs)"

fun string_field :: "string \<Rightarrow> json list \<Rightarrow> string option" where
  "string_field d [] = Some d"
| "string_field d (JNull # vs) = string_field d vs"
| "string_field d (JStr s # vs) = string_field s vs"
| "string_field d (v # vs) = None"

definition get_string :: "string \<Rightarrow> (string \<times> json) list \<Rightarrow> string option" where
  "get_string name kvs = string_field [] (field_vals name kvs)"

definition get_strings :: "string \<Rightarrow> (string \<times> json) list \<Rightarrow> string list option" where
  "get_strings name kvs = last_decoded as_strings [] (field_vals name kvs)"

definition get_any :: "string \<Rightarrow> (string \<times> json) list \<Rightarrow> json option" where
  "get_any name kvs = last_decoded decode_any JNull (field_vals name kvs)"

definition get_maps :: "string \<Rightarrow> (string \<times> json) list \<Rightarrow> json list option option" where
  "get_maps name kvs = last_decoded as_maps None (field_vals name kvs)"

text \<open>The members of a document that is decoded into a struct: \<open>null\<close> changes nothing.\<close>

definition struct_members :: "string \<Rightarrow> (string \<times> json) list option" where
  "struct_members s = (case parse_json s of
       Some (JObj kvs) \<Rightarrow> Some kvs
     | Some JNull \<Rightarrow> Some []
     | _ \<Rightarrow> None)"

text \<open>A type assertion \<open>v.(string)\<close>, \<open>v.(map[string]interface{})\<close>.\<close>

fun is_string :: "json \<Rightarrow> string option" where
  "is_string (JStr s) = Some s"
| "is_string v = None"

fun is_object :: "json \<Rightarrow> obj option" where
  "is_object (JObj m) = Some m"
| "is_object v = None"

text \<open>\<open>m[k]\<close> of a \<open>map[string]interface{}\<close>: nil where there is no entry.\<close>

definition obj_index :: "obj \<Rightarrow> string \<Rightarrow> json" where
  "obj_index m k = (case obj_get m k of None \<Rightarrow> JNull | Some v \<Rightarrow> v)"

lemma obj_index_put: "obj_index (obj_put k v m) k' = (if k' = k then v else obj_index m k')"
  by (simp add: obj_index_def obj_get_put)

lemma obj_index_del: "obj_index (obj_del k m) k' = (if k' = k then JNull else obj_index m k')"
  by (simp add: obj_index_def obj_get_del)

lemma as_map_wf: "as_map v = Some (JObj m) \<Longrightarrow> obj_wf m"
  by (auto simp: as_map_def decode_any_def split: json.splits if_splits)

lemma as_map_kind: "as_map v = Some w \<Longrightarrow> w = JNull \<or> (\<exists>m. w = JObj m)"
  by (auto simp: as_map_def decode_any_def split: json.splits if_splits)

section \<open>RawMessage: the text of a member\<close>

text \<open>
  \<open>json.RawMessage\<close> keeps the bytes of the member, without the white space around
  them.  The members of the object (the elements of the array) a valid document is.
\<close>

definition raw_value :: "string \<Rightarrow> (string \<times> string) option" where
  "raw_value s = (let t = skip_ws s in case read_value t of
       None \<Rightarrow> None
     | Some (_, r) \<Rightarrow> Some (take (length t - length r) t, r))"

function raw_members :: "string \<Rightarrow> (string \<times> string) list option" where
  "raw_members s = (case skip_ws s of
       [] \<Rightarrow> None
     | q # r \<Rightarrow> (case read_string r of
           None \<Rightarrow> None
         | Some (k, r1) \<Rightarrow> (case raw_value (drop 1 (skip_ws r1)) of
               None \<Rightarrow> None
             | Some (w, r3) \<Rightarrow> (case skip_ws r3 of
                   [] \<Rightarrow> None
                 | d # r4 \<Rightarrow>
                     if d = CHR '','' \<and> length r4 < length s
                     then map_option (\<lambda>kvs. (k, w) # kvs) (raw_members r4)
                     else Some [(k, w)]))))"
  by pat_completeness auto
termination by (relation "measure length") auto

function raw_elems :: "string \<Rightarrow> string list option" where
  "raw_elems s = (case raw_value s of
       None \<Rightarrow> None
     | Some (w, r) \<Rightarrow> (case skip_ws r of
           [] \<Rightarrow> None
         | d # r' \<Rightarrow>
             if d = CHR '','' \<and> length r' < length s
             then map_option (\<lambda>ws. w # ws) (raw_elems r')
             else Some [w]))"
  by pat_completeness auto
termination by (relation "measure length") auto

declare raw_members.simps [simp del] raw_elems.simps [simp del]

definition raw_object :: "string \<Rightarrow> (string \<times> string) list option" where
  "raw_object s = (case parse_json s of
       Some (JObj kvs) \<Rightarrow> if kvs = [] then Some [] else raw_members (drop 1 (skip_ws s))
     | Some JNull \<Rightarrow> Some []
     | _ \<Rightarrow> None)"

definition raw_array :: "string \<Rightarrow> string list option" where
  "raw_array s = (case parse_json s of
       Some (JArr vs) \<Rightarrow> if vs = [] then Some [] else raw_elems (drop 1 (skip_ws s))
     | Some JNull \<Rightarrow> Some []
     | _ \<Rightarrow> None)"

text \<open>The text a struct field of type RawMessage is left with: the last member's.\<close>

definition raw_field :: "string \<Rightarrow> (string \<times> string) list \<Rightarrow> string" where
  "raw_field name kws = (case filter (\<lambda>kw. EqualFold (fst kw) name) kws of
       [] \<Rightarrow> []
     | ks \<Rightarrow> snd (last ks))"

end
