(* ===== verification/Xray_Model.thy ===== *)
theory Xray_Model
  imports Json_Value
begin

text \<open>
  Package xray, the configuration: \<open>Config\<close> and \<open>InboundConfig\<close> with their
  \<open>Equals\<close> (src/xray/config.go, src/xray/inbound.go), \<open>Traffic\<close>
  (src/xray/traffic.go) and \<open>RawMessage\<close> (src/util/json_util/json.go).  A
  RawMessage is its text; the empty text marshals as \<open>null\<close>.  Decoding a document
  keeps the text of each member, as \<open>json.Unmarshal\<close> does through
  \<open>RawMessage.UnmarshalJSON\<close>; of two members of the same name the last one wins.
\<close>

section \<open>The data\<close>

record inbound_config =
  ic_Listen :: string
  ic_Port :: int
  ic_Protocol :: string
  ic_Settings :: string
  ic_StreamSettings :: string
  ic_Tag :: string
  ic_Sniffing :: string

record xconfig =
  LogConfig :: string
  RouterConfig :: string
  DNSConfig :: string
  InboundConfigs :: "inbound_config list"
  OutboundConfigs :: string
  Transport :: string
  Policy :: string
  API :: string
  Stats :: string
  Reverse :: string
  FakeDNS :: string

record traffic =
  t_IsInbound :: bool
  t_Tag :: string
  t_Up :: int
  t_Down :: int

definition zero_inbound_config :: inbound_config where
  "zero_inbound_config = \<lparr>ic_Listen = [], ic_Port = 0, ic_Protocol = [], ic_Settings = [],
     ic_StreamSettings = [], ic_Tag = [], ic_Sniffing = []\<rparr>"

definition zero_config :: xconfig where
  "zero_config = \<lparr>LogConfig = [], RouterConfig = [], DNSConfig = [], InboundConfigs = [],
     OutboundConfigs = [], Transport = [], Policy = [], API = [], Stats = [], Reverse = [],
     FakeDNS = []\<rparr>"

section \<open>Equals\<close>

definition InboundConfig_Equals :: "inbound_config \<Rightarrow> inbound_config \<Rightarrow> bool" where
  "InboundConfig_Equals c d =
     (if ic_Listen c \<noteq> ic_Listen d then False
      else if ic_Port c \<noteq> ic_Port d then False
      else if ic_Protocol c \<noteq> ic_Protocol d then False
      else if ic_Settings c \<noteq> ic_Settings d then False
      else if ic_StreamSettings c \<noteq> ic_StreamSettings d then False
      else if ic_Tag c \<noteq> ic_Tag d then False
      else if ic_Sniffing c \<noteq> ic_Sniffing d then False
      else True)"

text \<open>The range loop over the inbounds; the lengths were compared before.\<close>

fun inbounds_equal :: "inbound_config list \<Rightarrow> inbound_config list \<Rightarrow> bool" where
  "inbounds_equal (c # cs) (d # ds) =
     (if \<not> InboundConfig_Equals c d then False else inbounds_equal cs ds)"
| "inbounds_equal cs ds = True"

definition Config_Equals :: "xconfig \<Rightarrow> xconfig \<Rightarrow> bool" where
  "Config_Equals c d =
     (if length (InboundConfigs c) \<noteq> length (InboundConfigs d) then False
      else if \<not> inbounds_equal (InboundConfigs c) (InboundConfigs d) then False
      else if LogConfig c \<noteq> LogConfig d then False
      else if RouterConfig c \<noteq> RouterConfig d then False
      else if DNSConfig c \<noteq> DNSConfig d then False
      else if OutboundConfigs c \<noteq> OutboundConfigs d then False
      else if Transport c \<noteq> Transport d then False
      else if Policy c \<noteq> Policy d then False
      else if API c \<noteq> API d then False
      else if Stats c \<noteq> Stats d then False
      else if Reverse c \<noteq> Reverse d then False
      else if FakeDNS c \<noteq> FakeDNS d then False
      else True)"

lemma InboundConfig_Equals_iff: "InboundConfig_Equals c d \<longleftrightarrow> c = d"
  by (cases c; cases d) (auto simp: InboundConfig_Equals_def)

lemma inbounds_equal_iff: "length cs = length ds \<Longrightarrow> inbounds_equal cs ds \<longleftrightarrow> cs = ds"
  by (induction cs ds rule: inbounds_equal.induct) (auto simp: InboundConfig_Equals_iff)

lemma Config_Equals_iff: "Config_Equals c d \<longleftrightarrow> c = d"
  by (cases c; cases d) (auto simp: Config_Equals_def inbounds_equal_iff)

section \<open>RawMessage\<close>

definition RawMessage_MarshalJSON :: "string \<Rightarrow> json option" where
  "RawMessage_MarshalJSON m = (if m = [] then Some JNull else parse_json m)"

definition RawMessage_UnmarshalJSON :: "string \<Rightarrow> string \<Rightarrow> string" where
  "RawMessage_UnmarshalJSON m data = data"

section \<open>Decoding a configuration\<close>

text \<open>The texts of the members that go into a field, in document order.\<close>

definition raw_vals :: "string \<Rightarrow> (string \<times> string) list \<Rightarrow> string list" where
  "raw_vals name kws = map snd (filter (\<lambda>kw. EqualFold (fst kw) name) kws)"

definition raw_message :: "string \<Rightarrow> (string \<times> string) list \<Rightarrow> string" where
  "raw_message name kws = foldl RawMessage_UnmarshalJSON [] (raw_vals name kws)"

text \<open>An \<open>int\<close> field: \<open>null\<close> leaves it, any other text must be an integer literal.\<close>

fun int_member :: "int \<Rightarrow> string list \<Rightarrow> int option" where
  "int_member d [] = Some d"
| "int_member d (w # ws) =
     (if w = ''null'' then int_member d ws
      else case ParseInt64 w of Inl e \<Rightarrow> None | Inr n \<Rightarrow> int_member n ws)"

definition string_member :: "string list \<Rightarrow> string option" where
  "string_member ws = (case those (map parse_json ws) of
       None \<Rightarrow> None | Some vs \<Rightarrow> string_field [] vs)"

definition decode_inbound :: "string \<Rightarrow> inbound_config option" where
  "decode_inbound w = (case raw_object w of
       None \<Rightarrow> None
     | Some kws \<Rightarrow>
         (case (int_member 0 (raw_vals ''port'' kws), string_member (raw_vals ''protocol'' kws),
                string_member (raw_vals ''tag'' kws)) of
            (Some n, Some pr, Some tg) \<Rightarrow> Some
              \<lparr>ic_Listen = raw_message ''listen'' kws, ic_Port = n, ic_Protocol = pr,
               ic_Settings = raw_message ''settings'' kws,
               ic_StreamSettings = raw_message ''streamSettings'' kws, ic_Tag = tg,
               ic_Sniffing = raw_message ''sniffing'' kws\<rparr>
          | _ \<Rightarrow> None))"

definition decode_inbounds :: "string \<Rightarrow> inbound_config list option" where
  "decode_inbounds w = (case raw_array w of
       None \<Rightarrow> None | Some ws \<Rightarrow> those (map decode_inbound ws))"

definition inbounds_member :: "string list \<Rightarrow> inbound_config list option" where
  "inbounds_member ws = (case those (map decode_inbounds ws) of
       None \<Rightarrow> None
     | Some [] \<Rightarrow> Some []
     | Some css \<Rightarrow> Some (last css))"

text \<open>\<open>json.Unmarshal(data, &xray.Config{})\<close>.\<close>

definition Config_Unmarshal :: "string \<Rightarrow> xconfig res" where
  "Config_Unmarshal data = (case raw_object data of
       None \<Rightarrow> Inl (Err ''json: invalid config'')
     | Some kws \<Rightarrow> (case inbounds_member (raw_vals ''inbounds'' kws) of
           None \<Rightarrow> Inl (Err ''json: invalid config'')
         | Some ics \<Rightarrow> Inr
            \<lparr>LogConfig = raw_message ''log'' kws, RouterConfig = raw_message ''routing'' kws,
             DNSConfig = raw_message ''dns'' kws, InboundConfigs = ics,
             OutboundConfigs = raw_message ''outbounds'' kws,
             Transport = raw_message ''transport'' kws, Policy = raw_message ''policy'' kws,
             API = raw_message ''api'' kws, Stats = raw_message ''stats'' kws,
             Reverse = raw_message ''reverse'' kws, FakeDNS = raw_message ''fakeDns'' kws\<rparr>))"

section \<open>Printing a configuration\<close>

text \<open>
  \<open>json.Marshal\<close> of a configuration as the document it prints; an error where a
  RawMessage is not JSON.  \<open>MarshalIndent\<close> prints the same document.  A list of
  no inbound is printed \<open>null\<close>, as the nil slice is (the empty slice of a template
  with \<open>inbounds: []\<close> would be printed \<open>[]\<close>, which xray reads alike).
\<close>

definition obj_of_fields :: "(string \<times> json option) list \<Rightarrow> json option" where
  "obj_of_fields fs = map_option (\<lambda>vs. JObj (zip (map fst fs) vs)) (those (map snd fs))"

definition InboundConfig_Marshal :: "inbound_config \<Rightarrow> json option" where
  "InboundConfig_Marshal c = obj_of_fields
     [(''listen'', RawMessage_MarshalJSON (ic_Listen c)),
      (''port'', Some (JNum (fst (norm10 (ic_Port c) 0)) (snd (norm10 (ic_Port c) 0)))),
      (''protocol'', Some (JStr (ic_Protocol c))),
      (''settings'', RawMessage_MarshalJSON (ic_Settings c)),
      (''streamSettings'', RawMessage_MarshalJSON (ic_StreamSettings c)),
      (''tag'', Some (JStr (ic_Tag c))),
      (''sniffing'', RawMessage_MarshalJSON (ic_Sniffing c))]"

definition Config_Marshal :: "xconfig \<Rightarrow> json option" where
  "Config_Marshal c = obj_of_fields
     [(''log'', RawMessage_MarshalJSON (LogConfig c)),
      (''routing'', RawMessage_MarshalJSON (RouterConfig c)),
      (''dns'', RawMessage_MarshalJSON (DNSConfig c)),
      (''inbounds'', if InboundConfigs c = [] then Some JNull
         else map_option JArr (those (map InboundConfig_Marshal (InboundConfigs c)))),
      (''outbounds'', RawMessage_MarshalJSON (OutboundConfigs c)),
      (''transport'', RawMessage_MarshalJSON (Transport c)),
      (''policy'', RawMessage_MarshalJSON (Policy c)),
      (''api'', RawMessage_MarshalJSON (API c)),
      (''stats'', RawMessage_MarshalJSON (Stats c)),
      (''reverse'', RawMessage_MarshalJSON (Reverse c)),
      (''fakeDns'', RawMessage_MarshalJSON (FakeDNS c))]"

lemma obj_of_fields_Some:
  "obj_of_fields fs = Some v \<Longrightarrow> \<exists>kvs. v = JObj kvs \<and> map fst kvs = map fst fs"
proof -
  have l: "those xs = Some ys \<Longrightarrow> length ys = length xs" for xs :: "json option list" and ys
    by (induction xs arbitrary: ys) (auto split: option.splits)
  assume "obj_of_fields fs = Some v"
  then show ?thesis using l by (fastforce simp: obj_of_fields_def)
qed

lemma Config_Marshal_None:
  "Config_Marshal c \<noteq> None \<Longrightarrow> RawMessage_MarshalJSON (LogConfig c) \<noteq> None
     \<and> RawMessage_MarshalJSON (RouterConfig c) \<noteq> None
     \<and> RawMessage_MarshalJSON (OutboundConfigs c) \<noteq> None"
  by (auto simp: Config_Marshal_def obj_of_fields_def split: option.splits)

end
