(* ===== verification/Panel_State.thy ===== *)
theory Panel_State
  imports Xray_Model
begin

text \<open>
  The state of the panel: the rows of src/database/model/model.go, the tables of
  the SQLite database, the open transaction, the xray process
  (src/xray/process.go), the flags of src/web/service/xray.go and what the
  panel meets outside (\<open>world\<close>).

  Every statement sent to the database, and every other call that may fail for a
  reason outside the program, takes the next entry of the schedule \<open>faults\<close>:
  \<open>Some e\<close> makes it fail with \<open>e\<close> and change nothing; when the schedule is empty
  nothing fails.  A statement runs on a handle: the connection (each statement is
  its own transaction) or the open transaction.
\<close>

section \<open>The rows\<close>

type_synonym protocol = string

abbreviation VMess :: protocol where "VMess \<equiv> ''vmess''"
abbreviation VLESS :: protocol where "VLESS \<equiv> ''vless''"
abbreviation Dokodemo :: protocol where "Dokodemo \<equiv> ''dokodemo-door''"
abbreviation Http :: protocol where "Http \<equiv> ''http''"
abbreviation Trojan :: protocol where "Trojan \<equiv> ''trojan''"
abbreviation Shadowsocks :: protocol where "Shadowsocks \<equiv> ''shadowsocks''"
abbreviation Socks :: protocol where "Socks \<equiv> ''socks''"
abbreviation Mixed :: protocol where "Mixed \<equiv> ''mixed''"
abbreviation Tunnel :: protocol where "Tunnel \<equiv> ''tunnel''"

record user =
  u_Id :: int
  u_Username :: string
  u_Password :: string

record inbound =
  in_Id :: int
  in_UserId :: int
  in_Up :: int
  in_Down :: int
  in_Total :: int
  in_Remark :: string
  in_Enable :: bool
  in_ExpiryTime :: int
  in_IPLimit :: int
  in_IPTimeout :: int
  in_PortRate :: string
  in_IPRate :: string
  in_Listen :: string
  in_Port :: int
  in_Protocol :: protocol
  in_Settings :: string
  in_StreamSettings :: string
  in_Tag :: string
  in_Sniffing :: string

record outbound =
  ob_Id :: int
  ob_Tag :: string
  ob_Protocol :: string
  ob_Settings :: string
  ob_StreamSettings :: string
  ob_Mux :: string
  ob_Enabled :: bool
  ob_Remark :: string
  ob_Sort :: int
  ob_IsSystem :: bool
  ob_CreatedAt :: int
  ob_UpdatedAt :: int

record routing_rule =
  rr_Id :: int
  rr_Type :: string
  rr_Domain :: string
  rr_IP :: string
  rr_Port :: string
  rr_Protocol :: string
  rr_Network :: string
  rr_Source :: string
  rr_InboundTag :: string
  rr_OutboundTag :: string
  rr_Enabled :: bool
  rr_Remark :: string
  rr_Sort :: int
  rr_IsSystem :: bool
  rr_CreatedAt :: int
  rr_UpdatedAt :: int

record setting =
  st_Id :: int
  st_Key :: string
  st_Value :: string

record access_record =
  ar_Id :: int
  ar_SourceIP :: string
  ar_LastPort :: int
  ar_HitCount :: int
  ar_FirstSeen :: int
  ar_LastSeen :: int

text \<open>The tables, each in the order of its primary key.\<close>

record database =
  tbl_users :: "user list"
  tbl_inbounds :: "inbound list"
  tbl_outbounds :: "outbound list"
  tbl_rules :: "routing_rule list"
  tbl_settings :: "setting list"
  tbl_access :: "access_record list"

definition empty_database :: database where
  "empty_database = \<lparr>tbl_users = [], tbl_inbounds = [], tbl_outbounds = [], tbl_rules = [], tbl_settings = [], tbl_access = []\<rparr>"

section \<open>The process\<close>

text \<open>
  \<open>cmd\<close> of a process: not created, created and not yet started by the goroutine
  that runs it, started (the flag: the kill signal was sent), waited for.
  \<open>pr_stdout\<close> and \<open>pr_stderr\<close> are the lines the two readers have made room for
  and not yet put into the queue.
\<close>

datatype cmd_state = NoCmd | Spawning | Started bool | Exited

record process =
  pr_cmd :: cmd_state
  pr_version :: string
  pr_apiPort :: int
  pr_config :: xconfig
  pr_lines :: "string list"
  pr_stdout :: "string option"
  pr_stderr :: "string option"
  pr_exitErr :: "err option"

section \<open>The panel\<close>

text \<open>A certificate as crypto/x509 gives it, as far as src/web/service/cert.go reads it.\<close>

record x509 =
  x_IssuerCN :: string
  x_Issuer :: string
  x_SubjectCN :: string
  x_Subject :: string
  x_DNSNames :: "string list"
  x_NotBefore :: int
  x_NotAfter :: int

text \<open>An index of the table of access records, as \<open>PRAGMA index_list\<close> and \<open>index_info\<close> give it.\<close>

record access_index =
  ix_Name :: string
  ix_Unique :: int
  ix_Columns :: "string list"

text \<open>The files of the machine: a path and its content.  \<open>restarts\<close> of the panel below counts
  the restarts of the panel itself that were requested (SIGHUP).\<close>

type_synonym files = "string \<rightharpoonup> string"

text \<open>
  The outside that is not under src/: the verdict of \<open>xray run -test\<close>, the key pairs
  and time zones that load, the version xray prints; \<open>w_zone\<close> is the look-up of
  the local time zone (offset, begin and end of its validity at an instant); \<open>w_pem\<close> is
  \<open>pem.Decode\<close> (the block and the rest), \<open>w_x509\<close> \<open>x509.ParseCertificate\<close> and
  \<open>w_pair\<close> \<open>tls.X509KeyPair\<close> on texts; \<open>w_lookup\<close> the DNS, \<open>w_hostname\<close>
  \<open>os.Hostname\<close>; \<open>w_migrate\<close> what \<open>AutoMigrate\<close> makes of the indexes of the access records; \<open>w_command\<close> the programs the panel runs: their output,
  their error and the files they leave; \<open>w_fetch\<close> is \<open>http.Get\<close> (the chunks of the body and
  the error that ended it, if any), \<open>w_zip\<close> \<open>zip.NewReader\<close> (the entries), \<open>w_arch\<close> \<open>runtime.GOARCH\<close>; \<open>w_path\<close>, \<open>w_env\<close>, \<open>w_home\<close> what \<open>exec.LookPath\<close>,
  \<open>os.Getenv\<close> and \<open>os.UserHomeDir\<close> give; \<open>w_port_free\<close> whether a port can be listened on;
  \<open>w_tls\<close> and \<open>w_http\<close> what the probes of the listener meet when the panel was restarted
  with a certificate and a key file in its settings: the rounds of a wait that end before the
  deadline, and the round after which it has passed.
\<close>

text \<open>A round of the HTTP probe: the rounds of the TLS probe in it, and the answer
  (status and Location) or error of the request.\<close>

type_synonym 'a rounds = "'a list \<times> 'a"
type_synonym http_round = "err option rounds \<times> (int \<times> string) res"

record world =
  w_test :: "json \<Rightarrow> err option"
  w_keypair :: "string \<Rightarrow> string \<Rightarrow> err option"
  w_location :: "string \<Rightarrow> bool"
  w_version :: "string option"
  w_secret :: string
  w_zone :: "int \<Rightarrow> int \<times> int \<times> int"
  w_pem :: "string \<Rightarrow> (string \<times> string) option"
  w_x509 :: "string \<Rightarrow> x509 option"
  w_pair :: "string \<Rightarrow> string \<Rightarrow> bool"
  w_lookup :: "string \<Rightarrow> string list res"
  w_hostname :: "string option"
  w_migrate :: "access_index list \<Rightarrow> access_index list"
  w_command :: "string list \<Rightarrow> files \<Rightarrow> (string \<times> err option) \<times> files"
  w_fetch :: "string \<Rightarrow> (string list \<times> err option) res"
  w_zip :: "string \<Rightarrow> (string \<rightharpoonup> string) option"
  w_arch :: string
  w_path :: "files \<Rightarrow> string \<Rightarrow> string option"
  w_env :: "string \<Rightarrow> string"
  w_home :: "string option"
  w_port_free :: "int \<Rightarrow> bool"
  w_tls :: "string \<Rightarrow> string \<Rightarrow> err option rounds"
  w_http :: "string \<Rightarrow> string \<Rightarrow> http_round rounds"

record panel =
  pdb :: database
  ptx :: "database option"
  faults :: "err option list"
  clock_now :: int
  xray_p :: "process option"
  orphans :: "process list"
  isNeedXrayRestart :: bool
  xray_result :: string
  config_file :: "json option"
  files :: files
  restarts :: nat
  indexes :: "access_index list"
  world :: world

datatype handle = Conn | Tx

section \<open>Statements and transactions\<close>

definition next_fault :: "(panel, err option) act" where
  "next_fault s = (case faults s of
       [] \<Rightarrow> (Inr None, s)
     | f # fs \<Rightarrow> (Inr f, s\<lparr>faults := fs\<rparr>))"

text \<open>A call that fails exactly when the schedule says so.\<close>

definition outside :: "(panel, unit) act" where
  "outside = andThen next_fault (\<lambda>f. case f of None \<Rightarrow> ret () | Some e \<Rightarrow> throw e)"

definition on_handle :: "handle \<Rightarrow> (database \<Rightarrow> 'a res \<times> database) \<Rightarrow> (panel, 'a) act" where
  "on_handle h f s = (case h of
       Conn \<Rightarrow> (case f (pdb s) of (r, d) \<Rightarrow> (r, s\<lparr>pdb := d\<rparr>))
     | Tx \<Rightarrow> (case ptx s of
           None \<Rightarrow> (Inl (DbErr ''invalid transaction''), s)
         | Some d0 \<Rightarrow> (case f d0 of (r, d) \<Rightarrow> (r, s\<lparr>ptx := Some d\<rparr>))))"

definition stmt :: "handle \<Rightarrow> (database \<Rightarrow> 'a res \<times> database) \<Rightarrow> (panel, 'a) act" where
  "stmt h f = andThen outside (\<lambda>_. on_handle h f)"

definition query :: "handle \<Rightarrow> (database \<Rightarrow> 'a res) \<Rightarrow> (panel, 'a) act" where
  "query h f = stmt h (\<lambda>d. (f d, d))"

definition begin_tx :: "(panel, unit) act" where
  "begin_tx = modify (\<lambda>s. s\<lparr>ptx := Some (pdb s)\<rparr>)"

definition rollback_tx :: "(panel, unit) act" where
  "rollback_tx = modify (\<lambda>s. s\<lparr>ptx := None\<rparr>)"

definition commit_tx :: "(panel, unit) act" where
  "commit_tx s = (case ptx s of
       None \<Rightarrow> (Inl (DbErr ''invalid transaction''), s)
     | Some d \<Rightarrow> (case outside s of
           (Inl e, s') \<Rightarrow> (Inl e, s'\<lparr>ptx := None\<rparr>)
         | (Inr _, s') \<Rightarrow> (Inr (), s'\<lparr>pdb := d, ptx := None\<rparr>)))"

text \<open>\<open>if err := step; err != nil { tx.Rollback(); return err }\<close>\<close>

definition or_rollback :: "(panel, 'a) act \<Rightarrow> (panel, 'a) act" where
  "or_rollback m s = (case m s of
       (Inl e, s') \<Rightarrow> (Inl e, s'\<lparr>ptx := None\<rparr>)
     | (Inr x, s') \<Rightarrow> (Inr x, s'))"

definition abort_if :: "bool \<Rightarrow> err \<Rightarrow> (panel, unit) act" where
  "abort_if b e = or_rollback (reject b e)"

definition on_world :: "(world \<Rightarrow> 'a) \<Rightarrow> (panel, 'a) act" where
  "on_world f = gets (\<lambda>s. f (world s))"

section \<open>A panel to begin with\<close>

text \<open>
  The package variables of src/web/service/xray.go at start, over an empty database, in a
  given world and with nothing that fails; and a world in which xray accepts
  every document, every key pair can be loaded and every time zone exists.
\<close>

definition fresh_panel :: "world \<Rightarrow> panel" where
  "fresh_panel w = \<lparr>pdb = empty_database, ptx = None, faults = [], clock_now = 0, xray_p = None,
     orphans = [], isNeedXrayRestart = False, xray_result = [], config_file = None, files = Map.empty, restarts = 0, indexes = [], world = w\<rparr>"

definition quiet_world :: world where
  "quiet_world = \<lparr>w_test = (\<lambda>_. None), w_keypair = (\<lambda>_ _. None), w_location = (\<lambda>_. True),
     w_version = Some ''Xray 1.8.24'', w_secret = ''secret'', w_zone = (\<lambda>t. (0, 0, 0)),
     w_pem = (\<lambda>s. if s = [] then None else Some (s, [])), w_x509 = (\<lambda>_. None), w_pair = (\<lambda>_ _. False),
     w_lookup = (\<lambda>_. Inr []), w_hostname = None, w_migrate = (\<lambda>ixs. ixs), w_command = (\<lambda>_ fs. (([], None), fs)),
     w_fetch = (\<lambda>_. Inr ([], None)), w_zip = (\<lambda>_. None), w_arch = ''amd64'', w_path = (\<lambda>_ _. None),
     w_env = (\<lambda>_. []), w_home = None, w_port_free = (\<lambda>_. True),
     w_tls = (\<lambda>_ _. ([], None)), w_http = (\<lambda>_ _. ([], (([], Some NotFound), Inr (200, []))))\<rparr>"

end
