(* ===== verification/Database.thy ===== *)
theory Database
  imports Panel_State
begin

text \<open>
  What gorm and SQLite do for the panel.  A table is the list of its rows in the
  order of the primary key; the locale \<open>row_store\<close> states what the services rely
  on, over an arbitrary row type, and is interpreted for every table of the model.
  Then the lemmas by which a handler is followed through its statements.
\<close>

section \<open>Tables\<close>

text \<open>SQLite gives a new row the largest row id plus one.\<close>

definition next_id :: "('r \<Rightarrow> int) \<Rightarrow> 'r list \<Rightarrow> int" where
  "next_id rid t = (if t = [] then 1 else rid (last t) + 1)"

definition row_by_id :: "('r \<Rightarrow> int) \<Rightarrow> int \<Rightarrow> 'r list \<Rightarrow> 'r option" where
  "row_by_id rid i t = find (\<lambda>r. rid r = i) t"

text \<open>\<open>INSERT\<close>: a zero id is left to the database, another one must be free.\<close>

definition insert_row :: "('r \<Rightarrow> int) \<Rightarrow> (int \<Rightarrow> 'r \<Rightarrow> 'r) \<Rightarrow> 'r \<Rightarrow> 'r list \<Rightarrow> ('r \<times> 'r list) res" where
  "insert_row rid put r t =
     (if rid r = 0 then (let r' = put (next_id rid t) r in Inr (r', t @ [r']))
      else if row_by_id rid (rid r) t = None then Inr (r, insort_key rid r t)
      else Inl (DbErr ''UNIQUE constraint failed: id''))"

text \<open>\<open>UPDATE ... WHERE\<close>, \<open>DELETE ... WHERE\<close>, \<open>SELECT ... WHERE\<close>.\<close>

definition update_rows :: "('r \<Rightarrow> bool) \<Rightarrow> ('r \<Rightarrow> 'r) \<Rightarrow> 'r list \<Rightarrow> 'r list" where
  "update_rows P f t = map (\<lambda>r. if P r then f r else r) t"

definition delete_rows :: "('r \<Rightarrow> bool) \<Rightarrow> 'r list \<Rightarrow> 'r list" where
  "delete_rows P t = filter (\<lambda>r. \<not> P r) t"

definition ids_ok :: "('r \<Rightarrow> int) \<Rightarrow> 'r list \<Rightarrow> bool" where
  "ids_ok rid t \<longleftrightarrow> sorted_wrt (<) (map rid t)"

locale row_store =
  fixes rid :: "'r \<Rightarrow> int" and put :: "int \<Rightarrow> 'r \<Rightarrow> 'r"
  assumes rid_put: "rid (put i r) = i"
begin

lemma next_id_fresh: "ids_ok rid t \<Longrightarrow> r \<in> set t \<Longrightarrow> rid r < next_id rid t"
proof (induction t rule: rev_induct)
  case (snoc x xs)
  then show ?case by (auto simp: next_id_def ids_ok_def sorted_wrt_append)
qed simp

lemma insert_row_ids: "insert_row rid put r t = Inr (r', t') \<Longrightarrow> ids_ok rid t \<Longrightarrow> ids_ok rid t'"
proof -
  assume ins: "insert_row rid put r t = Inr (r', t')" and ok: "ids_ok rid t"
  show "ids_ok rid t'"
  proof (cases "rid r = 0")
    case True
    with ins ok next_id_fresh [OF ok] show ?thesis
      by (auto simp: insert_row_def Let_def ids_ok_def sorted_wrt_append rid_put)
  next
    case False
    with ins have t': "t' = insort_key rid r t" and "row_by_id rid (rid r) t = None"
      by (auto simp: insert_row_def split: if_splits)
    then have "rid r \<notin> rid ` set t" by (auto simp: row_by_id_def find_None_iff)
    with ok show ?thesis
      by (simp add: t' ids_ok_def strict_sorted_iff sorted_insort_key distinct_map
          set_insort_key distinct_insort inj_on_def image_iff) metis
  qed
qed

lemma insert_row_set: "insert_row rid put r t = Inr (r', t') \<Longrightarrow> set t' = insert r' (set t)"
  by (auto simp: insert_row_def Let_def set_insort_key split: if_splits)

lemma insert_row_lookup:
  assumes "insert_row rid put r t = Inr (r', t')" and "ids_ok rid t"
  shows "row_by_id rid (rid r') t' = Some r'"
proof -
  from insert_row_ids [OF assms] have d: "distinct (map rid t')"
    by (simp add: ids_ok_def strict_sorted_iff)
  from insert_row_set [OF assms(1)] have m: "r' \<in> set t'" by simp
  then have "row_by_id rid (rid r') t' \<noteq> None" by (auto simp: row_by_id_def find_None_iff)
  then obtain x where x: "row_by_id rid (rid r') t' = Some x" by blast
  then have "x \<in> set t'" "rid x = rid r'"
    by (auto simp: row_by_id_def find_Some_iff)
  with d m have "x = r'" by (metis distinct_map inj_onD)
  with x show ?thesis by simp
qed

lemma update_rows_ids: "(\<And>r. rid (f r) = rid r) \<Longrightarrow> ids_ok rid t \<Longrightarrow> ids_ok rid (update_rows P f t)"
proof -
  assume "\<And>r. rid (f r) = rid r"
  then have "map rid (update_rows P f t) = map rid t" by (simp add: update_rows_def)
  then show "ids_ok rid t \<Longrightarrow> ids_ok rid (update_rows P f t)" by (simp add: ids_ok_def)
qed

lemma delete_rows_ids: "ids_ok rid t \<Longrightarrow> ids_ok rid (delete_rows P t)"
  by (simp add: ids_ok_def delete_rows_def sorted_wrt_map sorted_wrt_filter)

lemma row_by_id_Some: "ids_ok rid t \<Longrightarrow> row_by_id rid i t = Some r \<longleftrightarrow> r \<in> set t \<and> rid r = i"
proof
  assume ok: "ids_ok rid t" and "r \<in> set t \<and> rid r = i"
  then have m: "r \<in> set t" "rid r = i" by auto
  then have "row_by_id rid i t \<noteq> None" by (auto simp: row_by_id_def find_None_iff)
  then obtain x where x: "row_by_id rid i t = Some x" by blast
  then have "x \<in> set t" "rid x = i" by (auto simp: row_by_id_def find_Some_iff)
  with ok m have "x = r" by (metis distinct_map ids_ok_def inj_onD strict_sorted_iff)
  with x show "row_by_id rid i t = Some r" by simp
qed (auto simp: row_by_id_def find_Some_iff)

lemma delete_rows_lookup: "row_by_id rid i (delete_rows (\<lambda>r. rid r = i) t) = None"
  by (auto simp: row_by_id_def delete_rows_def find_None_iff)

lemma update_rows_lookup:
  assumes "ids_ok rid t" and "\<And>r. rid (f r) = rid r"
  shows "row_by_id rid i (update_rows (\<lambda>r. rid r = i) f t) = map_option f (row_by_id rid i t)"
  using assms(2) by (induction t) (auto simp: row_by_id_def update_rows_def)

end

interpretation user_rows: row_store u_Id "\<lambda>i r. r\<lparr>u_Id := i\<rparr>" by unfold_locales simp
interpretation inbound_rows: row_store in_Id "\<lambda>i r. r\<lparr>in_Id := i\<rparr>" by unfold_locales simp
interpretation outbound_rows: row_store ob_Id "\<lambda>i r. r\<lparr>ob_Id := i\<rparr>" by unfold_locales simp
interpretation rule_rows: row_store rr_Id "\<lambda>i r. r\<lparr>rr_Id := i\<rparr>" by unfold_locales simp
interpretation setting_rows: row_store st_Id "\<lambda>i r. r\<lparr>st_Id := i\<rparr>" by unfold_locales simp
interpretation access_rows: row_store ar_Id "\<lambda>i r. r\<lparr>ar_Id := i\<rparr>" by unfold_locales simp

section \<open>Following an action\<close>

lemma outside_run: "outside s = (case faults s of
    [] \<Rightarrow> (Inr (), s)
  | None # fs \<Rightarrow> (Inr (), s\<lparr>faults := fs\<rparr>)
  | Some e # fs \<Rightarrow> (Inl e, s\<lparr>faults := fs\<rparr>))"
  by (auto simp: outside_def next_fault_def andThen_run split: list.split option.split)

lemma outside_calm [simp, act_simps]: "faults s = [] \<Longrightarrow> outside s = (Inr (), s)"
  by (simp add: outside_run)

lemma stmt_calm_Conn [act_simps]:
  "faults s = [] \<Longrightarrow> stmt Conn f s = (fst (f (pdb s)), s\<lparr>pdb := snd (f (pdb s))\<rparr>)"
  by (simp add: stmt_def andThen_run on_handle_def split: prod.split)

lemma stmt_calm_Tx [act_simps]:
  "faults s = [] \<Longrightarrow> ptx s = Some d \<Longrightarrow> stmt Tx f s = (fst (f d), s\<lparr>ptx := Some (snd (f d))\<rparr>)"
  by (simp add: stmt_def andThen_run on_handle_def split: prod.split)

lemma query_calm_Conn [simp, act_simps]: "faults s = [] \<Longrightarrow> query Conn f s = (f (pdb s), s)"
  by (simp add: query_def stmt_calm_Conn)

lemma query_calm_Tx [simp, act_simps]:
  "faults s = [] \<Longrightarrow> ptx s = Some d \<Longrightarrow> query Tx f s = (f d, s)"
  by (simp add: query_def stmt_calm_Tx)

lemma begin_tx_run [simp, act_simps]: "begin_tx s = (Inr (), s\<lparr>ptx := Some (pdb s)\<rparr>)"
  by (simp add: begin_tx_def)

lemma rollback_tx_run [simp, act_simps]: "rollback_tx s = (Inr (), s\<lparr>ptx := None\<rparr>)"
  by (simp add: rollback_tx_def)

lemma or_rollback_run [act_simps]:
  "or_rollback m s = (case m s of (Inl e, s') \<Rightarrow> (Inl e, s'\<lparr>ptx := None\<rparr>) | (Inr x, s') \<Rightarrow> (Inr x, s'))"
  by (simp add: or_rollback_def)

lemma abort_if_run [simp, act_simps]:
  "abort_if b e s = (if b then (Inl e, s\<lparr>ptx := None\<rparr>) else (Inr (), s))"
  by (simp add: abort_if_def or_rollback_def)

lemma commit_calm [act_simps]:
  "faults s = [] \<Longrightarrow> ptx s = Some d \<Longrightarrow> commit_tx s = (Inr (), s\<lparr>pdb := d, ptx := None\<rparr>)"
  by (simp add: commit_tx_def)

lemma on_world_run [simp, act_simps]: "on_world f s = (Inr (f (world s)), s)"
  by (simp add: on_world_def)

text \<open>Under any schedule: a statement that succeeds had its effect, and took from the schedule.\<close>

lemma outside_faults: "\<exists>fs. snd (outside s) = s\<lparr>faults := fs\<rparr>"
proof (cases "faults s")
  case Nil
  then show ?thesis by (intro exI [of _ "[]"]) simp
next
  case (Cons f fs)
  then show ?thesis by (intro exI [of _ fs]) (simp add: outside_run split: option.split)
qed

lemma stmt_Tx_Inr:
  assumes "stmt Tx f s = (Inr x, t)" and "ptx s = Some d"
  shows "\<exists>fs. fst (f d) = Inr x \<and> t = s\<lparr>faults := fs, ptx := Some (snd (f d))\<rparr>"
proof -
  obtain fs where fs: "snd (outside s) = s\<lparr>faults := fs\<rparr>" using outside_faults by blast
  with assms obtain u where "outside s = (Inr u, s\<lparr>faults := fs\<rparr>)"
    by (auto simp: stmt_def andThen_Inr)
  with assms show ?thesis by (auto simp: stmt_def andThen_run on_handle_def split: prod.splits)
qed

lemma stmt_Conn_Inr:
  assumes "stmt Conn f s = (Inr x, t)"
  shows "\<exists>fs. fst (f (pdb s)) = Inr x \<and> t = s\<lparr>faults := fs, pdb := snd (f (pdb s))\<rparr>"
proof -
  obtain fs where fs: "snd (outside s) = s\<lparr>faults := fs\<rparr>" using outside_faults by blast
  with assms obtain u where "outside s = (Inr u, s\<lparr>faults := fs\<rparr>)"
    by (auto simp: stmt_def andThen_Inr)
  with assms show ?thesis by (auto simp: stmt_def andThen_run on_handle_def split: prod.splits)
qed

lemma stmt_Conn_cases: "stmt Conn f s = (r, t) \<Longrightarrow> \<exists>fs. (\<exists>e. r = Inl e \<and> t = s\<lparr>faults := fs\<rparr>)
    \<or> (r = fst (f (pdb s)) \<and> t = s\<lparr>faults := fs, pdb := snd (f (pdb s))\<rparr>)"
proof -
  assume run: "stmt Conn f s = (r, t)"
  obtain fs where fs: "snd (outside s) = s\<lparr>faults := fs\<rparr>" using outside_faults by blast
  then obtain q where q: "outside s = (q, s\<lparr>faults := fs\<rparr>)" by (cases "outside s") auto
  with run show ?thesis by (cases q) (auto simp: stmt_def andThen_run on_handle_def split: prod.splits)
qed

lemma query_Conn_cases: "query Conn f s = (r, t) \<Longrightarrow> \<exists>fs. t = s\<lparr>faults := fs\<rparr> \<and> ((\<exists>e. r = Inl e) \<or> r = f (pdb s))"
  unfolding query_def by (drule stmt_Conn_cases) auto

lemma commit_cases: "ptx s = Some d \<Longrightarrow> \<exists>fs.
    commit_tx s = (Inr (), s\<lparr>faults := fs, pdb := d, ptx := None\<rparr>)
    \<or> (\<exists>e. commit_tx s = (Inl e, s\<lparr>faults := fs, ptx := None\<rparr>))"
proof -
  assume d: "ptx s = Some d"
  obtain fs where "snd (outside s) = s\<lparr>faults := fs\<rparr>" using outside_faults by blast
  then obtain r where "outside s = (r, s\<lparr>faults := fs\<rparr>)" by (cases "outside s") auto
  with d show ?thesis by (cases r) (auto simp: commit_tx_def)
qed

section \<open>What statements keep\<close>

lemma keeps_outside_gen: "(\<And>s fs. P s \<Longrightarrow> P (s\<lparr>faults := fs\<rparr>)) \<Longrightarrow> keeps P outside"
  by (auto simp: keeps_def outside_run split: list.split option.split)

text \<open>
  A predicate on the committed database alone: kept by everything that runs on
  the open transaction.
\<close>

definition committed :: "(database \<Rightarrow> bool) \<Rightarrow> panel \<Rightarrow> bool" where
  "committed I s \<longleftrightarrow> I (pdb s)"

text \<open>A predicate on every database there is, the one of an open transaction included.\<close>

definition all_db :: "(database \<Rightarrow> bool) \<Rightarrow> panel \<Rightarrow> bool" where
  "all_db I s \<longleftrightarrow> I (pdb s) \<and> (\<forall>d. ptx s = Some d \<longrightarrow> I d)"

lemma all_db_committed: "all_db I s \<Longrightarrow> committed I s"
  by (simp add: all_db_def committed_def)

lemma keeps_outside [keeps_intro]: "keeps (all_db I) outside" "keeps (committed I) outside"
  by (rule keeps_outside_gen, simp add: all_db_def committed_def)+

lemma keeps_stmt:
  assumes "\<And>d. I d \<Longrightarrow> I (snd (f d))"
  shows "keeps (all_db I) (stmt h f)"
  unfolding stmt_def
proof (intro keeps_andThen keeps_outside)
  have k: "f d = (r, d') \<Longrightarrow> I d \<Longrightarrow> I d'" for d r d' using assms [of d] by simp
  show "keeps (all_db I) (on_handle h f)"
    by (cases h) (auto simp: keeps_def on_handle_def all_db_def dest: k split: prod.split option.split)
qed

lemma keeps_query [keeps_intro]: "keeps (all_db I) (query h f)"
  unfolding query_def by (rule keeps_stmt) simp

lemma keeps_query_committed [keeps_intro]: "keeps (committed I) (query h f)"
  by (cases h) (auto simp: keeps_def query_def stmt_def andThen_run outside_run on_handle_def committed_def
      split: list.split option.split)

lemma keeps_stmt_Tx [keeps_intro]: "keeps (committed I) (stmt Tx f)"
  by (auto simp: keeps_def stmt_def andThen_run outside_run on_handle_def committed_def
      split: list.split option.split prod.split)

lemma keeps_begin [keeps_intro]: "keeps (all_db I) begin_tx" "keeps (committed I) begin_tx"
  by (auto simp: keeps_def all_db_def committed_def)

lemma keeps_rollback [keeps_intro]: "keeps (all_db I) rollback_tx" "keeps (committed I) rollback_tx"
  by (auto simp: keeps_def all_db_def committed_def)

lemma keeps_commit [keeps_intro]: "keeps (all_db I) commit_tx"
  by (auto simp: keeps_def commit_tx_def outside_run all_db_def split: option.split list.split)

lemma keeps_or_rollback_gen:
  assumes "keeps P m" and "\<And>s. P s \<Longrightarrow> P (s\<lparr>ptx := None\<rparr>)"
  shows "keeps P (or_rollback m)"
  unfolding keeps_def
proof (intro allI impI)
  fix s assume "P s"
  obtain r t where r: "m s = (r, t)" by (cases "m s")
  with keepsD_eq [OF assms(1) r \<open>P s\<close>] show "P (snd (or_rollback m s))"
    using assms(2) by (cases r) (simp_all add: or_rollback_def)
qed

lemma keeps_or_rollback [keeps_intro]: "keeps (all_db I) m \<Longrightarrow> keeps (all_db I) (or_rollback m)"
  by (erule keeps_or_rollback_gen) (simp add: all_db_def)

lemma keeps_or_rollback_committed [keeps_intro]:
  "keeps (committed I) m \<Longrightarrow> keeps (committed I) (or_rollback m)"
  by (erule keeps_or_rollback_gen) (simp add: committed_def)

lemma keeps_abort_if [keeps_intro]: "keeps (all_db I) (abort_if b e)" "keeps (committed I) (abort_if b e)"
  unfolding abort_if_def by (intro keeps_intro)+

lemma keeps_on_world [keeps_intro]: "keeps P (on_world f)"
  by (simp add: on_world_def keeps_gets)

end
