(* ===== verification/Go_Net.thy ===== *)
theory Go_Net
  imports Json_Text
begin

text \<open>
  IP addresses of Go's package net: \<open>net.ParseIP\<close>, \<open>IP.String\<close> and
  \<open>IP.IsLoopback\<close>.  An address is its four bytes or its eight 16-bit groups; an
  IPv4-mapped IPv6 address is the IPv4 address, as \<open>To4\<close> makes it.
\<close>

datatype ip = V4 "nat list" | V6 "nat list"

section \<open>Parsing\<close>

definition octet :: "string \<Rightarrow> nat option" where
  "octet w =
     (if w = [] \<or> (1 < length w \<and> hd w = CHR ''0'') \<or> 3 < length w then None
      else case read_digits 0 w of
          None \<Rightarrow> None
        | Some n \<Rightarrow> if n \<le> 255 then Some n else None)"

definition parseIPv4 :: "string \<Rightarrow> nat list option" where
  "parseIPv4 s = (let parts = Split s (CHR ''.'') in
     if length parts = 4 then those (map octet parts) else None)"

definition hex_group :: "string \<Rightarrow> nat" where
  "hex_group ds = foldl (\<lambda>a c. 16 * a + the (hex_val c)) 0 ds"

definition is_hex :: "char \<Rightarrow> bool" where
  "is_hex c \<longleftrightarrow> hex_val c \<noteq> None"

text \<open>
  The loop of \<open>parseIPv6\<close>: the groups so far, the position of the ellipsis, the
  rest of the text; \<open>None\<close> is an error.  At most eight rounds.
\<close>

fun ipv6_groups :: "nat \<Rightarrow> nat list \<Rightarrow> nat option \<Rightarrow> string \<Rightarrow> (nat list \<times> nat option \<times> string) option" where
  "ipv6_groups 0 gs el s = Some (gs, el, s)"
| "ipv6_groups (Suc k) gs el s =
     (let ds = takeWhile is_hex s; r = drop (length ds) s in
      if ds = [] \<or> 4 < length ds then None
      else if HasPrefix r ''.'' then
        (if (el = None \<and> length gs \<noteq> 6) \<or> 6 < length gs then None
         else case parseIPv4 s of
             Some [a, b, c, d] \<Rightarrow> Some (gs @ [256 * a + b, 256 * c + d], el, [])
           | _ \<Rightarrow> None)
      else if r = [] then Some (gs @ [hex_group ds], el, [])
      else if hd r \<noteq> CHR '':'' \<or> length r = 1 then None
      else if hd (tl r) = CHR '':'' then
        (if el \<noteq> None then None
         else if tl (tl r) = [] then Some (gs @ [hex_group ds], Some (Suc (length gs)), [])
         else ipv6_groups k (gs @ [hex_group ds]) (Some (Suc (length gs))) (tl (tl r)))
      else ipv6_groups k (gs @ [hex_group ds]) el (tl r))"

definition parseIPv6 :: "string \<Rightarrow> nat list option" where
  "parseIPv6 s =
     (if s = ''::'' then Some (replicate 8 0)
      else case (if HasPrefix s ''::'' then ipv6_groups 8 [] (Some 0) (drop 2 s)
                 else ipv6_groups 8 [] None s) of
          None \<Rightarrow> None
        | Some (gs, el, rest) \<Rightarrow>
            if rest \<noteq> [] then None
            else (case el of
                None \<Rightarrow> if length gs = 8 then Some gs else None
              | Some e \<Rightarrow> if length gs < 8
                  then Some (take e gs @ replicate (8 - length gs) 0 @ drop e gs) else None))"

definition mk_ip :: "nat list \<Rightarrow> ip" where
  "mk_ip gs =
     (if take 6 gs = [0, 0, 0, 0, 0, 65535]
      then V4 [gs ! 6 div 256, gs ! 6 mod 256, gs ! 7 div 256, gs ! 7 mod 256] else V6 gs)"

text \<open>The first of the characters \<open>. :\<close> decides which of the two it is; a zone is refused.\<close>

definition ParseIP :: "string \<Rightarrow> ip option" where
  "ParseIP s = (case find (\<lambda>c. c = CHR ''.'' \<or> c = CHR '':'' \<or> c = CHR ''%'') s of
       None \<Rightarrow> None
     | Some c \<Rightarrow>
         if c = CHR ''.'' then map_option V4 (parseIPv4 s)
         else if c = CHR ''%'' \<or> CHR ''%'' \<in> set s then None
         else map_option mk_ip (parseIPv6 s))"

section \<open>Printing\<close>

fun hex_str :: "nat \<Rightarrow> string" where
  "hex_str n = (if n < 16 then [hex_digit n] else hex_str (n div 16) @ [hex_digit (n mod 16)])"

declare hex_str.simps [simp del]

definition zero_run :: "nat list \<Rightarrow> nat \<Rightarrow> nat" where
  "zero_run gs i = length (takeWhile (\<lambda>g. g = 0) (drop i gs))"

text \<open>The leftmost longest run of at least two zero groups.\<close>

definition best_run :: "nat list \<Rightarrow> nat \<times> nat" where
  "best_run gs = foldl (\<lambda>(b, l) i. if max 1 l < zero_run gs i then (i, zero_run gs i) else (b, l))
     (0, 0) [0 ..< length gs]"

definition ip_String :: "ip \<Rightarrow> string" where
  "ip_String a = (case a of
       V4 bs \<Rightarrow> Join (map nat_str bs) ''.''
     | V6 gs \<Rightarrow> (case best_run gs of (b, l) \<Rightarrow>
         if l = 0 then Join (map hex_str gs) '':''
         else Join (map hex_str (take b gs)) '':'' @ ''::'' @ Join (map hex_str (drop (b + l) gs)) '':''))"

definition IsLoopback :: "ip \<Rightarrow> bool" where
  "IsLoopback a = (case a of
       V4 bs \<Rightarrow> bs \<noteq> [] \<and> hd bs = 127
     | V6 gs \<Rightarrow> gs = [0, 0, 0, 0, 0, 0, 0, 1])"

section \<open>Printing and reading an IPv4 address\<close>

lemma nat_str_len3: "n \<le> 255 \<Longrightarrow> length (nat_str n) \<le> 3"
proof -
  assume "n \<le> 255"
  then have "n div 10 div 10 < 10" by simp
  then show ?thesis
    by (subst nat_str.simps, subst nat_str.simps, subst nat_str.simps) simp
qed

lemma octet_nat_str: "n \<le> 255 \<Longrightarrow> octet (nat_str n) = Some n"
proof -
  assume n: "n \<le> 255"
  have "\<not> (1 < length (nat_str n) \<and> hd (nat_str n) = CHR ''0'')"
  proof
    assume a: "1 < length (nat_str n) \<and> hd (nat_str n) = CHR ''0''"
    have "hd (nat_str n) = CHR ''0'' \<longrightarrow> nat_str n = ''0''"
    proof (induction n rule: nat_str.induct)
      case (1 n)
      show ?case
      proof (cases "n < 10")
        case True
        then show ?thesis by (simp add: nat_str.simps [of n])
      next
        case False
        with 1 have "hd (nat_str (n div 10)) = CHR ''0'' \<longrightarrow> nat_str (n div 10) = ''0''" by simp
        moreover have "nat_str (n div 10) \<noteq> ''0''"
        proof
          assume "nat_str (n div 10) = ''0''"
          with read_digits_nat_str [of "n div 10"] have "n div 10 = 0" by (simp add: is_digit_def)
          with False show False by simp
        qed
        ultimately show ?thesis using False by (simp add: nat_str.simps [of n])
      qed
    qed
    with a show False by simp
  qed
  with n nat_str_len3 [OF n] show ?thesis by (simp add: octet_def read_digits_nat_str)
qed

lemma Split_append: "sep \<notin> set w \<Longrightarrow> Split (w @ sep # s) sep = w # Split s sep"
  by (induction w) auto

lemma Split_none: "sep \<notin> set w \<Longrightarrow> Split w sep = [w]"
  by (induction w) auto

lemma dot_not_in_nat_str [simp]: "CHR ''.'' \<notin> set (nat_str n)" "CHR '':'' \<notin> set (nat_str n)" "CHR ''%'' \<notin> set (nat_str n)"
  using nat_str_digits by (fastforce simp: is_digit_def)+

theorem ParseIP_String_V4:
  assumes "a \<le> 255" "b \<le> 255" "c \<le> 255" "d \<le> 255"
  shows "ParseIP (ip_String (V4 [a, b, c, d])) = Some (V4 [a, b, c, d])"
proof -
  let ?s = "nat_str a @ CHR ''.'' # nat_str b @ CHR ''.'' # nat_str c @ CHR ''.'' # nat_str d"
  have "find (\<lambda>x. x = CHR ''.'' \<or> x = CHR '':'' \<or> x = CHR ''%'') (w @ CHR ''.'' # t) = Some (CHR ''.'')"
    if "CHR '':'' \<notin> set w" "CHR ''%'' \<notin> set w" for w t
    using that by (induction w) auto
  then have f: "find (\<lambda>x. x = CHR ''.'' \<or> x = CHR '':'' \<or> x = CHR ''%'') ?s = Some (CHR ''.'')" by simp
  have "parseIPv4 ?s = Some [a, b, c, d]"
    using assms by (simp add: parseIPv4_def Let_def Split_append Split_none octet_nat_str)
  with f show ?thesis by (simp add: ParseIP_def ip_String_def)
qed

text \<open>\<open>net.JoinHostPort\<close>.\<close>

definition JoinHostPort :: "string \<Rightarrow> string \<Rightarrow> string" where
  "JoinHostPort host port =
     (if CHR '':'' \<in> set host then ''['' @ host @ '']:'' @ port else host @ '':'' @ port)"

end
