(* ===== verification/Settings.thy ===== *)
theory Settings
  imports Database Go_Net
begin

text \<open>
  src/web/service/setting.go and src/web/entity/entity.go: the key-value settings
  with their defaults, the typed accessors, the settings form (\<open>AllSetting\<close>) with
  its validation, reading it from and writing it to the table.

  The lemmas: the table behaves as a finite map from keys to values (the locale
  \<open>kv_store\<close>, interpreted on \<open>save_setting\<close>), the accessors read what the setters
  wrote, and a form that was saved is read back.
\<close>

section \<open>Defaults\<close>

text \<open>src/web/service/config.json, embedded in the program.\<close>

definition xrayTemplateConfig :: string where
  \<open>xrayTemplateConfig = Join
    [''{'',
     ''  "log": {'',
     ''    "access": "/var/log/xray/access.log",'',
     ''    "error": "/var/log/xray/error.log",'',
     ''    "loglevel": "warning"'',
     ''  },'',
     ''  "api": {'',
     ''    "services": ['',
     ''      "HandlerService",'',
     ''      "LoggerService",'',
     ''      "StatsService"'',
     ''    ],'',
     ''    "tag": "api"'',
     ''  },'',
     ''  "inbounds": ['',
     ''    {'',
     ''      "listen": "127.0.0.1",'',
     ''      "port": 62789,'',
     ''      "protocol": "dokodemo-door",'',
     ''      "settings": {'',
     ''        "address": "127.0.0.1"'',
     ''      },'',
     ''      "tag": "api"'',
     ''    }'',
     ''  ],'',
     ''  "outbounds": ['',
     ''    {'',
     ''      "protocol": "freedom",'',
     ''      "settings": {}'',
     ''    },'',
     ''    {'',
     ''      "protocol": "blackhole",'',
     ''      "settings": {},'',
     ''      "tag": "blocked"'',
     ''    }'',
     ''  ],'',
     ''  "policy": {'',
     ''    "system": {'',
     ''      "statsInboundDownlink": true,'',
     ''      "statsInboundUplink": true'',
     ''    }'',
     ''  },'',
     ''  "routing": {'',
     ''    "rules": ['',
     ''      {'',
     ''        "inboundTag": ['',
     ''          "api"'',
     ''        ],'',
     ''        "outboundTag": "api",'',
     ''        "type": "field"'',
     ''      },'',
     ''      {'',
     ''        "ip": ['',
     ''          "geoip:private"'',
     ''        ],'',
     ''        "outboundTag": "blocked",'',
     ''        "type": "field"'',
     ''      },'',
     ''      {'',
     ''        "outboundTag": "blocked",'',
     ''        "protocol": ['',
     ''          "bittorrent"'',
     ''        ],'',
     ''        "type": "field"'',
     ''      }'',
     ''    ]'',
     ''  },'',
     ''  "stats": {}'',
     ''}'',
     ''''] [CHR 0x0A]\<close>

definition defaultValueMap :: "world \<Rightarrow> string \<Rightarrow> string option" where
  "defaultValueMap w = map_of
     [(''xrayTemplateConfig'', xrayTemplateConfig),
      (''managedOutboundsRouting'', ''false''),
      (''webListen'', ''''),
      (''webPort'', ''54321''),
      (''webCertFile'', ''''),
      (''webKeyFile'', ''''),
      (''webDomain'', ''''),
      (''webCertStatus'', ''none''),
      (''webCertExpireAt'', ''0''),
      (''webCertIssuer'', ''''),
      (''webCertAutoRenew'', ''false''),
      (''webCertMode'', ''none''),
      (''webCertProvider'', ''''),
      (''secret'', w_secret w),
      (''webBasePath'', ''/''),
      (''timeLocation'', ''Asia/Shanghai'')]"

text \<open>The keys, for the loop over the map; its order makes no difference.\<close>

definition default_keys :: "string list" where
  "default_keys = [''xrayTemplateConfig'', ''managedOutboundsRouting'', ''webListen'', ''webPort'',
     ''webCertFile'', ''webKeyFile'', ''webDomain'', ''webCertStatus'', ''webCertExpireAt'',
     ''webCertIssuer'', ''webCertAutoRenew'', ''webCertMode'', ''webCertProvider'', ''secret'',
     ''webBasePath'', ''timeLocation'']"

section \<open>The table of settings\<close>

definition first_setting :: "string \<Rightarrow> database \<Rightarrow> setting res" where
  "first_setting key d = (case find (\<lambda>r. st_Key r = key) (tbl_settings d) of
       None \<Rightarrow> Inl NotFound | Some r \<Rightarrow> Inr r)"

definition create_setting :: "setting \<Rightarrow> database \<Rightarrow> unit res \<times> database" where
  "create_setting r d = (case insert_row st_Id (\<lambda>i r. r\<lparr>st_Id := i\<rparr>) r (tbl_settings d) of
       Inl e \<Rightarrow> (Inl e, d)
     | Inr (r', t) \<Rightarrow> (Inr (), d\<lparr>tbl_settings := t\<rparr>))"

definition store_setting :: "setting \<Rightarrow> database \<Rightarrow> unit res \<times> database" where
  "store_setting r d =
     (Inr (), d\<lparr>tbl_settings := update_rows (\<lambda>x. st_Id x = st_Id r) (\<lambda>_. r) (tbl_settings d)\<rparr>)"

definition getSetting :: "string \<Rightarrow> (panel, setting) act" where
  "getSetting key = query Conn (first_setting key)"

definition saveSetting :: "string \<Rightarrow> string \<Rightarrow> (panel, unit) act" where
  "saveSetting key value =
     andThen (attempt (getSetting key)) (\<lambda>r. case r of
       Inl e \<Rightarrow>
         if e = NotFound
         then stmt Conn (create_setting \<lparr>st_Id = 0, st_Key = key, st_Value = value\<rparr>)
         else throw e
     | Inr setting \<Rightarrow> stmt Conn (store_setting (setting\<lparr>st_Key := key, st_Value := value\<rparr>)))"

definition ResetSettings :: "(panel, unit) act" where
  "ResetSettings = stmt Conn (\<lambda>d. (Inr (), d\<lparr>tbl_settings := delete_rows (\<lambda>r. True) (tbl_settings d)\<rparr>))"

definition getString :: "string \<Rightarrow> (panel, string) act" where
  "getString key =
     andThen (attempt (getSetting key)) (\<lambda>r. case r of
       Inl e \<Rightarrow>
         if e = NotFound
         then andThen (on_world (\<lambda>w. defaultValueMap w key)) (\<lambda>v. case v of
             None \<Rightarrow> throw (ErrArg ''key not in defaultValueMap'' key)
           | Some value \<Rightarrow> ret value)
         else throw e
     | Inr setting \<Rightarrow> ret (st_Value setting))"

definition setString :: "string \<Rightarrow> string \<Rightarrow> (panel, unit) act" where
  "setString key value = saveSetting key value"

definition getInt :: "string \<Rightarrow> (panel, int) act" where
  "getInt key = andThen (getString key) (\<lambda>str. lift_res (Atoi str))"

definition setInt :: "string \<Rightarrow> int \<Rightarrow> (panel, unit) act" where
  "setInt key value = setString key (Itoa value)"

definition getInt64 :: "string \<Rightarrow> (panel, int) act" where
  "getInt64 key = andThen (getString key) (\<lambda>str. lift_res (ParseInt64 str))"

definition setInt64 :: "string \<Rightarrow> int \<Rightarrow> (panel, unit) act" where
  "setInt64 key value = setString key (Itoa value)"

definition getBool :: "string \<Rightarrow> (panel, bool) act" where
  "getBool key = andThen (getString key) (\<lambda>str. lift_res (ParseBool str))"

section \<open>The accessors\<close>

definition GetManagedOutboundsRouting :: "(panel, bool) act" where
  "GetManagedOutboundsRouting = getBool ''managedOutboundsRouting''"
definition GetXrayConfigTemplate :: "(panel, string) act" where
  "GetXrayConfigTemplate = getString ''xrayTemplateConfig''"
definition GetListen :: "(panel, string) act" where
  "GetListen = getString ''webListen''"
definition GetPort :: "(panel, int) act" where
  "GetPort = getInt ''webPort''"
definition SetPort :: "int \<Rightarrow> (panel, unit) act" where
  "SetPort port = setInt ''webPort'' port"
definition GetCertFile :: "(panel, string) act" where
  "GetCertFile = getString ''webCertFile''"
definition SetCertFile :: "string \<Rightarrow> (panel, unit) act" where
  "SetCertFile path = setString ''webCertFile'' path"
definition GetKeyFile :: "(panel, string) act" where
  "GetKeyFile = getString ''webKeyFile''"
definition SetKeyFile :: "string \<Rightarrow> (panel, unit) act" where
  "SetKeyFile path = setString ''webKeyFile'' path"
definition GetWebDomain :: "(panel, string) act" where
  "GetWebDomain = getString ''webDomain''"
definition SetWebDomain :: "string \<Rightarrow> (panel, unit) act" where
  "SetWebDomain domain = setString ''webDomain'' domain"
definition GetWebCertStatus :: "(panel, string) act" where
  "GetWebCertStatus = getString ''webCertStatus''"
definition SetWebCertStatus :: "string \<Rightarrow> (panel, unit) act" where
  "SetWebCertStatus status = setString ''webCertStatus'' status"
definition GetWebCertExpireAt :: "(panel, int) act" where
  "GetWebCertExpireAt = getInt64 ''webCertExpireAt''"
definition SetWebCertExpireAt :: "int \<Rightarrow> (panel, unit) act" where
  "SetWebCertExpireAt expireAt = setInt64 ''webCertExpireAt'' expireAt"
definition GetWebCertIssuer :: "(panel, string) act" where
  "GetWebCertIssuer = getString ''webCertIssuer''"
definition SetWebCertIssuer :: "string \<Rightarrow> (panel, unit) act" where
  "SetWebCertIssuer issuer = setString ''webCertIssuer'' issuer"
definition GetWebCertAutoRenew :: "(panel, bool) act" where
  "GetWebCertAutoRenew = getBool ''webCertAutoRenew''"
definition SetWebCertAutoRenew :: "bool \<Rightarrow> (panel, unit) act" where
  "SetWebCertAutoRenew autoRenew = setString ''webCertAutoRenew'' (FormatBool autoRenew)"
definition GetWebCertMode :: "(panel, string) act" where
  "GetWebCertMode = getString ''webCertMode''"
definition SetWebCertMode :: "string \<Rightarrow> (panel, unit) act" where
  "SetWebCertMode mode = setString ''webCertMode'' mode"
definition GetWebCertProvider :: "(panel, string) act" where
  "GetWebCertProvider = getString ''webCertProvider''"
definition SetWebCertProvider :: "string \<Rightarrow> (panel, unit) act" where
  "SetWebCertProvider provider = setString ''webCertProvider'' provider"

definition GetSecret :: "(panel, string) act" where
  "GetSecret =
     andThen (attempt (getString ''secret'')) (\<lambda>r.
       let secret = (case r of Inl e \<Rightarrow> [] | Inr v \<Rightarrow> v) in
       andThen (on_world (\<lambda>w. defaultValueMap w ''secret'')) (\<lambda>dv.
       andThen (if Some secret = dv then attempt (saveSetting ''secret'' secret) else ret (Inr ())) (\<lambda>_.
         lift_res r)))"

definition with_slashes :: "string \<Rightarrow> string" where
  "with_slashes basePath =
     (let b = (if \<not> HasPrefix basePath ''/'' then ''/'' @ basePath else basePath)
      in if \<not> HasSuffix b ''/'' then b @ ''/'' else b)"

definition GetBasePath :: "(panel, string) act" where
  "GetBasePath = andThen (getString ''webBasePath'') (\<lambda>basePath. ret (with_slashes basePath))"

text \<open>The name of the location; \<open>w_location\<close> says which names can be loaded.\<close>

definition LoadLocation :: "string \<Rightarrow> (panel, string) act" where
  "LoadLocation l = andThen (on_world (\<lambda>w. w_location w l)) (\<lambda>ok.
     if ok then ret l else throw (ExtErr ''unknown time zone''))"

definition GetTimeLocation :: "(panel, string) act" where
  "GetTimeLocation =
     andThen (getString ''timeLocation'') (\<lambda>l.
     andThen (attempt (LoadLocation l)) (\<lambda>r. case r of
       Inl e \<Rightarrow> andThen (on_world (\<lambda>w. defaultValueMap w ''timeLocation'')) (\<lambda>dv.
           LoadLocation (case dv of None \<Rightarrow> [] | Some v \<Rightarrow> v))
     | Inr location \<Rightarrow> ret location))"

section \<open>The settings form\<close>

record all_setting =
  WebListen :: string
  WebPort :: int
  WebCertFile :: string
  WebKeyFile :: string
  WebBasePath :: string
  WebDomain :: string
  WebCertStatus :: string
  WebCertExpireAt :: int
  WebCertIssuer :: string
  WebCertAutoRenew :: bool
  WebCertMode :: string
  WebCertProvider :: string
  XrayTemplateConfig :: string
  ManagedOutboundsRouting :: bool
  TimeLocation :: string

definition zero_setting :: all_setting where
  "zero_setting = \<lparr>WebListen = [], WebPort = 0, WebCertFile = [], WebKeyFile = [], WebBasePath = [],
     WebDomain = [], WebCertStatus = [], WebCertExpireAt = 0, WebCertIssuer = [],
     WebCertAutoRenew = False, WebCertMode = [], WebCertProvider = [], XrayTemplateConfig = [],
     ManagedOutboundsRouting = False, TimeLocation = []\<rparr>"

definition CheckValid :: "world \<Rightarrow> all_setting \<Rightarrow> all_setting res" where
  "CheckValid w s =
     (if WebListen s \<noteq> [] \<and> ParseIP (WebListen s) = None
      then Inl (ErrArg ''web listen is not valid ip:'' (WebListen s))
      else if WebPort s \<le> 0 \<or> 65535 < WebPort s
      then Inl (ErrArg ''web port is not a valid port:'' (Itoa (WebPort s)))
      else if (WebCertFile s \<noteq> [] \<or> WebKeyFile s \<noteq> []) \<and> w_keypair w (WebCertFile s) (WebKeyFile s) \<noteq> None
      then Inl (ErrArg ''cert file or key file invalid'' (WebCertFile s))
      else
        let s1 = s\<lparr>WebBasePath := with_slashes (WebBasePath s), WebDomain := TrimSpace (WebDomain s)\<rparr> in
        if WebDomain s1 \<noteq> [] \<and> (Contains (WebDomain s1) ''://'' \<or> Contains (WebDomain s1) ''/''
             \<or> Contains (WebDomain s1) '' '')
        then Inl (ErrArg ''web domain is invalid:'' (WebDomain s1))
        else case Config_Unmarshal (XrayTemplateConfig s1) of
            Inl e \<Rightarrow> Inl (ErrArg ''xray template config invalid:'' (XrayTemplateConfig s1))
          | Inr _ \<Rightarrow>
              if \<not> w_location w (TimeLocation s1)
              then Inl (ErrArg ''time location not exist:'' (TimeLocation s1))
              else Inr s1)"

text \<open>One row of the table put into the field whose JSON tag is the key.\<close>

definition setSetting :: "string \<Rightarrow> string \<Rightarrow> all_setting \<Rightarrow> all_setting res" where
  "setSetting key value a =
     (if key = ''webListen'' then Inr (a\<lparr>WebListen := value\<rparr>)
      else if key = ''webPort'' then
        (case ParseInt32 value of Inl e \<Rightarrow> Inl e | Inr n \<Rightarrow> Inr (a\<lparr>WebPort := n\<rparr>))
      else if key = ''webCertFile'' then Inr (a\<lparr>WebCertFile := value\<rparr>)
      else if key = ''webKeyFile'' then Inr (a\<lparr>WebKeyFile := value\<rparr>)
      else if key = ''webBasePath'' then Inr (a\<lparr>WebBasePath := value\<rparr>)
      else if key = ''webDomain'' then Inr (a\<lparr>WebDomain := value\<rparr>)
      else if key = ''webCertStatus'' then Inr (a\<lparr>WebCertStatus := value\<rparr>)
      else if key = ''webCertExpireAt'' then
        (case ParseInt64 value of Inl e \<Rightarrow> Inl e | Inr n \<Rightarrow> Inr (a\<lparr>WebCertExpireAt := n\<rparr>))
      else if key = ''webCertIssuer'' then Inr (a\<lparr>WebCertIssuer := value\<rparr>)
      else if key = ''webCertAutoRenew'' then
        (case ParseBool value of Inl e \<Rightarrow> Inl e | Inr b \<Rightarrow> Inr (a\<lparr>WebCertAutoRenew := b\<rparr>))
      else if key = ''webCertMode'' then Inr (a\<lparr>WebCertMode := value\<rparr>)
      else if key = ''webCertProvider'' then Inr (a\<lparr>WebCertProvider := value\<rparr>)
      else if key = ''xrayTemplateConfig'' then Inr (a\<lparr>XrayTemplateConfig := value\<rparr>)
      else if key = ''managedOutboundsRouting'' then
        (case ParseBool value of Inl e \<Rightarrow> Inl e | Inr b \<Rightarrow> Inr (a\<lparr>ManagedOutboundsRouting := b\<rparr>))
      else if key = ''timeLocation'' then Inr (a\<lparr>TimeLocation := value\<rparr>)
      else Inr a)"

fun setSettings :: "(string \<times> string) list \<Rightarrow> all_setting \<Rightarrow> all_setting res" where
  "setSettings [] a = Inr a"
| "setSettings ((key, value) # kvs) a = (case setSetting key value a of
       Inl e \<Rightarrow> Inl e | Inr b \<Rightarrow> setSettings kvs b)"

definition GetAllSetting :: "(panel, all_setting) act" where
  "GetAllSetting =
     andThen (query Conn (\<lambda>d. Inr (tbl_settings d))) (\<lambda>rows.
     andThen (lift_res (setSettings (map (\<lambda>r. (st_Key r, st_Value r)) rows) zero_setting)) (\<lambda>a.
     andThen (on_world defaultValueMap) (\<lambda>dv.
       let missing = filter (\<lambda>k. k \<notin> set (map st_Key rows)) default_keys
       in lift_res (setSettings (map (\<lambda>k. (k, case dv k of None \<Rightarrow> [] | Some v \<Rightarrow> v)) missing) a))))"

text \<open>The fields of the form in the order of the struct, each as \<open>fmt.Sprint\<close> prints it.\<close>

definition setting_fields :: "all_setting \<Rightarrow> (string \<times> string) list" where
  "setting_fields a =
     [(''webListen'', WebListen a), (''webPort'', Itoa (WebPort a)), (''webCertFile'', WebCertFile a),
      (''webKeyFile'', WebKeyFile a), (''webBasePath'', WebBasePath a), (''webDomain'', WebDomain a),
      (''webCertStatus'', WebCertStatus a), (''webCertExpireAt'', Itoa (WebCertExpireAt a)),
      (''webCertIssuer'', WebCertIssuer a), (''webCertAutoRenew'', FormatBool (WebCertAutoRenew a)),
      (''webCertMode'', WebCertMode a), (''webCertProvider'', WebCertProvider a),
      (''xrayTemplateConfig'', XrayTemplateConfig a),
      (''managedOutboundsRouting'', FormatBool (ManagedOutboundsRouting a)),
      (''timeLocation'', TimeLocation a)]"

text \<open>The loop goes on after an error and collects the errors.\<close>

fun save_fields :: "(string \<times> string) list \<Rightarrow> (panel, err option list) act" where
  "save_fields [] = ret []"
| "save_fields ((key, value) # kvs) =
     andThen (attempt (saveSetting key value)) (\<lambda>r.
     andThen (save_fields kvs) (\<lambda>errs. ret (err_of r # errs)))"

definition UpdateAllSetting :: "all_setting \<Rightarrow> (panel, unit) act" where
  "UpdateAllSetting allSetting =
     andThen (on_world (\<lambda>w. CheckValid w allSetting)) (\<lambda>r. case r of
       Inl e \<Rightarrow> throw e
     | Inr a \<Rightarrow> andThen (save_fields (setting_fields a)) (\<lambda>errs. case Combine errs of
           None \<Rightarrow> ret () | Some e \<Rightarrow> throw e))"

section \<open>The table as a map\<close>

definition setting_value :: "setting list \<Rightarrow> string \<Rightarrow> string option" where
  "setting_value t k = map_option st_Value (find (\<lambda>r. st_Key r = k) t)"

definition save_setting :: "string \<Rightarrow> string \<Rightarrow> setting list \<Rightarrow> setting list" where
  "save_setting k v t = (case find (\<lambda>r. st_Key r = k) t of
       None \<Rightarrow> t @ [\<lparr>st_Id = next_id st_Id t, st_Key = k, st_Value = v\<rparr>]
     | Some r \<Rightarrow> update_rows (\<lambda>x. st_Id x = st_Id r) (\<lambda>_. r\<lparr>st_Key := k, st_Value := v\<rparr>) t)"

definition settings_ok :: "setting list \<Rightarrow> bool" where
  "settings_ok t \<longleftrightarrow> ids_ok st_Id t \<and> distinct (map st_Key t)"

lemma find_key: "distinct (map f t) \<Longrightarrow> find (\<lambda>r. f r = k) t = Some r \<longleftrightarrow> r \<in> set t \<and> f r = k"
  by (induction t) auto

lemma find_key_None: "find (\<lambda>r. f r = k) t = None \<longleftrightarrow> k \<notin> f ` set t"
  by (auto simp: find_None_iff)

lemma find_SomeD: "find P xs = Some x \<Longrightarrow> P x \<and> x \<in> set xs"
  by (auto simp: find_Some_iff)

lemma save_setting_present:
  assumes "settings_ok t" and "find (\<lambda>r. st_Key r = k) t = Some r"
  shows "save_setting k v t = map (\<lambda>x. if st_Key x = k then r\<lparr>st_Value := v\<rparr> else x) t"
proof -
  have r: "r \<in> set t" "st_Key r = k" using assms by (simp_all add: find_key settings_ok_def)
  have same: "st_Id x = st_Id r \<longleftrightarrow> st_Key x = k" if "x \<in> set t" for x
    using assms(1) r that unfolding settings_ok_def ids_ok_def strict_sorted_iff
    by (metis distinct_map inj_onD)
  have "r\<lparr>st_Key := k, st_Value := v\<rparr> = r\<lparr>st_Value := v\<rparr>" using r(2) by (cases r) simp
  with assms(2) same show ?thesis by (simp add: save_setting_def update_rows_def)
qed

lemma save_setting_ok: "settings_ok t \<Longrightarrow> settings_ok (save_setting k v t)"
proof (cases "find (\<lambda>r. st_Key r = k) t")
  case None
  assume ok: "settings_ok t"
  from None have k: "k \<notin> st_Key ` set t" by (simp add: find_key_None)
  have e: "save_setting k v t = t @ [\<lparr>st_Id = next_id st_Id t, st_Key = k, st_Value = v\<rparr>]"
    using None by (simp add: save_setting_def)
  from ok k setting_rows.next_id_fresh [of t] show ?thesis
    by (auto simp: e settings_ok_def ids_ok_def sorted_wrt_append)
next
  case (Some r)
  assume ok: "settings_ok t"
  from ok Some have r: "r \<in> set t" "st_Key r = k" by (simp_all add: find_key settings_ok_def)
  have same: "st_Id x = st_Id r" if "x \<in> set t" "st_Key x = k" for x
    using ok r that unfolding settings_ok_def by (metis distinct_map inj_onD)
  have "map st_Id (save_setting k v t) = map st_Id t" "map st_Key (save_setting k v t) = map st_Key t"
    using save_setting_present [OF ok Some] same r(2) by auto
  with ok show ?thesis by (simp add: settings_ok_def ids_ok_def)
qed

lemma setting_value_save:
  assumes "settings_ok t"
  shows "setting_value (save_setting k v t) k' = (if k' = k then Some v else setting_value t k')"
proof (cases "find (\<lambda>r. st_Key r = k) t")
  case None
  then show ?thesis
    by (auto simp: save_setting_def setting_value_def find_append split: option.split)
next
  case (Some r)
  then have r: "st_Key r = k" using assms by (auto simp: find_key settings_ok_def)
  let ?g = "\<lambda>x. if st_Key x = k then r\<lparr>st_Value := v\<rparr> else x"
  have "find (\<lambda>x. st_Key x = k') (map ?g t) = map_option ?g (find (\<lambda>x. st_Key x = k') t)"
    using r by (induction t) auto
  note m = this
  have "setting_value (map ?g t) k' = (if k' = k then Some v else setting_value t k')"
  proof (cases "k' = k")
    case True
    with m Some r show ?thesis by (simp add: setting_value_def)
  next
    case False
    show ?thesis
    proof (cases "find (\<lambda>x. st_Key x = k') t")
      case (Some x)
      then have "st_Key x = k'" by (auto dest: find_SomeD)
      with m Some False show ?thesis by (simp add: setting_value_def)
    qed (use m False in \<open>simp add: setting_value_def\<close>)
  qed
  with save_setting_present [OF assms Some] show ?thesis by simp
qed

lemma map_of_distinct_rev: "distinct (map fst kvs) \<Longrightarrow> map_of (rev kvs) = map_of kvs"
  by (metis distinct_rev map_of_inject_set rev_map set_rev)

locale kv_store =
  fixes get :: "'s \<Rightarrow> 'k \<Rightarrow> 'v option" and put :: "'k \<Rightarrow> 'v \<Rightarrow> 's \<Rightarrow> 's" and wf :: "'s \<Rightarrow> bool"
  assumes get_put: "wf s \<Longrightarrow> get (put k v s) k' = (if k' = k then Some v else get s k')"
    and wf_put: "wf s \<Longrightarrow> wf (put k v s)"
begin

definition puts :: "('k \<times> 'v) list \<Rightarrow> 's \<Rightarrow> 's" where
  "puts kvs s = foldl (\<lambda>s (k, v). put k v s) s kvs"

lemma puts_Cons: "puts ((k, v) # kvs) s = puts kvs (put k v s)"
  by (simp add: puts_def)

lemma puts_Nil: "puts [] s = s"
  by (simp add: puts_def)

lemma wf_puts: "wf s \<Longrightarrow> wf (puts kvs s)"
  by (induction kvs arbitrary: s) (auto simp: puts_Cons puts_Nil wf_put)

lemma get_puts: "wf s \<Longrightarrow> get (puts kvs s) k = (case map_of (rev kvs) k of None \<Rightarrow> get s k | Some v \<Rightarrow> Some v)"
proof (induction kvs arbitrary: s)
  case (Cons kv kvs)
  obtain a b where kv: "kv = (a, b)" by (cases kv)
  from Cons.prems have "wf (put a b s)" by (rule wf_put)
  from Cons.IH [OF this] Cons.prems show ?case
    by (auto simp: kv puts_Cons get_put map_add_def split: option.split)
qed (simp add: puts_Nil)

lemma get_puts_distinct: "wf s \<Longrightarrow> distinct (map fst kvs) \<Longrightarrow>
    get (puts kvs s) k = (case map_of kvs k of None \<Rightarrow> get s k | Some v \<Rightarrow> Some v)"
  by (subst get_puts) (auto simp: map_of_distinct_rev split: option.split)

end

interpretation kv: kv_store setting_value save_setting settings_ok
  by unfold_locales (simp_all add: setting_value_save save_setting_ok)

section \<open>The accessors on a calm schedule\<close>

abbreviation upd_settings :: "(setting list \<Rightarrow> setting list) \<Rightarrow> panel \<Rightarrow> panel" where
  "upd_settings f s \<equiv> s\<lparr>pdb := (pdb s)\<lparr>tbl_settings := f (tbl_settings (pdb s))\<rparr>\<rparr>"

lemma getSetting_calm: "faults s = [] \<Longrightarrow> getSetting k s = (first_setting k (pdb s), s)"
  by (simp add: getSetting_def)

lemma saveSetting_calm: "faults s = [] \<Longrightarrow>
    saveSetting k v s = (Inr (), upd_settings (save_setting k v) s)"
  by (auto simp: saveSetting_def andThen_run attempt_run getSetting_calm first_setting_def stmt_calm_Conn
      create_setting_def store_setting_def save_setting_def insert_row_def Let_def split: option.split)

lemma getString_calm: "faults s = [] \<Longrightarrow> getString k s =
    (case setting_value (tbl_settings (pdb s)) k of
       Some v \<Rightarrow> Inr v
     | None \<Rightarrow> (case defaultValueMap (world s) k of
         None \<Rightarrow> Inl (ErrArg ''key not in defaultValueMap'' k) | Some v \<Rightarrow> Inr v), s)"
  by (auto simp: getString_def andThen_run attempt_run getSetting_calm first_setting_def setting_value_def
      split: option.split)

lemma saveSetting_getString:
  assumes "faults s = []" and "settings_ok (tbl_settings (pdb s))"
  shows "fst (getString k' (snd (saveSetting k v s))) = (if k' = k then Inr v else fst (getString k' s))"
  using assms by (simp add: saveSetting_calm getString_calm kv.get_put split: option.split)

section \<open>The form is read back\<close>

text \<open>The text in which a form keeps a field.\<close>

definition field_text :: "all_setting \<Rightarrow> string \<Rightarrow> string option" where
  "field_text a k = map_of (setting_fields a) k"

definition form_keys :: "string list" where
  "form_keys = [''webListen'', ''webPort'', ''webCertFile'', ''webKeyFile'', ''webBasePath'', ''webDomain'',
     ''webCertStatus'', ''webCertExpireAt'', ''webCertIssuer'', ''webCertAutoRenew'', ''webCertMode'',
     ''webCertProvider'', ''xrayTemplateConfig'', ''managedOutboundsRouting'', ''timeLocation'']"

lemma map_fst_setting_fields: "map fst (setting_fields a) = form_keys"
  by (simp add: setting_fields_def form_keys_def)

lemma distinct_form_keys: "distinct form_keys"
  by (simp add: form_keys_def)

lemma Itoa_inject: "Itoa m = Itoa n \<longleftrightarrow> m = n"
proof
  assume e: "Itoa m = Itoa n"
  have "ParseIntIn (min m n) (max m n) (Itoa m) = Inr m" by (rule ParseIntIn_Itoa) simp_all
  moreover have "ParseIntIn (min m n) (max m n) (Itoa n) = Inr n" by (rule ParseIntIn_Itoa) simp_all
  ultimately have "(Inr m :: int res) = Inr n" by (simp only: e)
  then show "m = n" by (rule sum.inject(2) [THEN iffD1])
qed (rule arg_cong)

lemma FormatBool_inject: "FormatBool a = FormatBool b \<longleftrightarrow> a = b"
  by (cases a; cases b) (simp_all add: FormatBool_def)

lemma setting_fields_inject: "setting_fields a = setting_fields b \<Longrightarrow> a = b"
proof -
  assume "setting_fields a = setting_fields b"
  then have "map snd (setting_fields a) = map snd (setting_fields b)" by simp
  then show "a = b"
    unfolding setting_fields_def list.map snd_conv list.inject Itoa_inject FormatBool_inject
    by (intro all_setting.equality) simp_all
qed

lemma field_text_inject:
  assumes "\<And>k. k \<in> set form_keys \<Longrightarrow> field_text a k = field_text b k"
  shows "a = b"
proof (rule setting_fields_inject)
  have "map snd (setting_fields c) = map (\<lambda>k. the (field_text c k)) form_keys" for c
  proof -
    have d: "distinct (map fst (setting_fields c))"
      by (simp add: map_fst_setting_fields distinct_form_keys)
    have "map (\<lambda>k. the (map_of (setting_fields c) k)) (map fst (setting_fields c)) = map snd (setting_fields c)"
      using d by (auto simp: map_of_eq_Some_iff)
    then show ?thesis by (simp add: map_fst_setting_fields field_text_def)
  qed
  with assms have "map snd (setting_fields a) = map snd (setting_fields b)" by (auto cong: map_cong)
  then show "setting_fields a = setting_fields b"
    using map_fst_setting_fields [of a] map_fst_setting_fields [of b] by (metis zip_map_fst_snd)
qed

definition form_ok :: "all_setting \<Rightarrow> bool" where
  "form_ok a \<longleftrightarrow> 0 < WebPort a \<and> WebPort a \<le> 65535 \<and> in_int64 (WebCertExpireAt a)"

lemma field_text_cases: "field_text a k = 
   (if k = ''webListen'' then Some (WebListen a)
    else if k = ''webPort'' then Some (Itoa (WebPort a))
    else if k = ''webCertFile'' then Some (WebCertFile a)
    else if k = ''webKeyFile'' then Some (WebKeyFile a)
    else if k = ''webBasePath'' then Some (WebBasePath a)
    else if k = ''webDomain'' then Some (WebDomain a)
    else if k = ''webCertStatus'' then Some (WebCertStatus a)
    else if k = ''webCertExpireAt'' then Some (Itoa (WebCertExpireAt a))
    else if k = ''webCertIssuer'' then Some (WebCertIssuer a)
    else if k = ''webCertAutoRenew'' then Some (FormatBool (WebCertAutoRenew a))
    else if k = ''webCertMode'' then Some (WebCertMode a)
    else if k = ''webCertProvider'' then Some (WebCertProvider a)
    else if k = ''xrayTemplateConfig'' then Some (XrayTemplateConfig a)
    else if k = ''managedOutboundsRouting'' then Some (FormatBool (ManagedOutboundsRouting a))
    else if k = ''timeLocation'' then Some (TimeLocation a)
    else None)"
  unfolding field_text_def setting_fields_def by (simp only: map_of.simps fun_upd_apply) simp


lemma field_text_upd:
  "field_text (a\<lparr>WebListen := v\<rparr>) = (field_text a)(''webListen'' \<mapsto> v)"
  "field_text (a\<lparr>WebPort := n\<rparr>) = (field_text a)(''webPort'' \<mapsto> Itoa n)"
  "field_text (a\<lparr>WebCertFile := v\<rparr>) = (field_text a)(''webCertFile'' \<mapsto> v)"
  "field_text (a\<lparr>WebKeyFile := v\<rparr>) = (field_text a)(''webKeyFile'' \<mapsto> v)"
  "field_text (a\<lparr>WebBasePath := v\<rparr>) = (field_text a)(''webBasePath'' \<mapsto> v)"
  "field_text (a\<lparr>WebDomain := v\<rparr>) = (field_text a)(''webDomain'' \<mapsto> v)"
  "field_text (a\<lparr>WebCertStatus := v\<rparr>) = (field_text a)(''webCertStatus'' \<mapsto> v)"
  "field_text (a\<lparr>WebCertExpireAt := n\<rparr>) = (field_text a)(''webCertExpireAt'' \<mapsto> Itoa n)"
  "field_text (a\<lparr>WebCertIssuer := v\<rparr>) = (field_text a)(''webCertIssuer'' \<mapsto> v)"
  "field_text (a\<lparr>WebCertAutoRenew := c\<rparr>) = (field_text a)(''webCertAutoRenew'' \<mapsto> FormatBool c)"
  "field_text (a\<lparr>WebCertMode := v\<rparr>) = (field_text a)(''webCertMode'' \<mapsto> v)"
  "field_text (a\<lparr>WebCertProvider := v\<rparr>) = (field_text a)(''webCertProvider'' \<mapsto> v)"
  "field_text (a\<lparr>XrayTemplateConfig := v\<rparr>) = (field_text a)(''xrayTemplateConfig'' \<mapsto> v)"
  "field_text (a\<lparr>ManagedOutboundsRouting := c\<rparr>) = (field_text a)(''managedOutboundsRouting'' \<mapsto> FormatBool c)"
  "field_text (a\<lparr>TimeLocation := v\<rparr>) = (field_text a)(''timeLocation'' \<mapsto> v)"
  by (rule ext, simp add: field_text_cases)+

lemma field_text_keys: "field_text b k = Some v \<Longrightarrow> k \<in> set form_keys"
  using map_of_SomeD [of "setting_fields b" k v]
  by (metis field_text_def fst_conv image_eqI list.set_map map_fst_setting_fields)

lemma setSetting_step:
  assumes ok: "form_ok b" and k: "field_text b k = Some v"
  shows "\<exists>y. setSetting k v x = Inr y \<and> field_text y = (field_text x)(k \<mapsto> v)"
proof -
  have i: "ParseInt32 (Itoa (WebPort b)) = Inr (WebPort b)"
    using ok by (simp add: form_ok_def ParseInt32_def ParseIntIn_Itoa)
  have j: "ParseInt64 (Itoa (WebCertExpireAt b)) = Inr (WebCertExpireAt b)"
    using ok by (simp add: form_ok_def ParseInt64_Itoa)
  from field_text_keys [OF k] k show ?thesis unfolding form_keys_def list.set insert_iff empty_iff simp_thms
    by (elim disjE; auto simp: setSetting_def field_text_cases [of b] field_text_upd i j)
qed

lemma setSetting_other: "k \<notin> set form_keys \<Longrightarrow> setSetting k v x = Inr x"
  by (simp add: form_keys_def setSetting_def)

lemma setSettings_append: "setSettings (xs @ ys) a = (case setSettings xs a of Inl e \<Rightarrow> Inl e | Inr b \<Rightarrow> setSettings ys b)"
  by (induction xs a rule: setSettings.induct) (auto split: sum.split)

lemma setSettings_fields:
  assumes "form_ok b" and "\<And>k v. (k, v) \<in> set kvs \<Longrightarrow> k \<in> set form_keys \<Longrightarrow> field_text b k = Some v"
  shows "\<exists>y. setSettings kvs x = Inr y \<and>
    (\<forall>k. k \<in> set form_keys \<longrightarrow> field_text y k = (if k \<in> fst ` set kvs then field_text b k else field_text x k))"
  using assms(2)
proof (induction kvs arbitrary: x)
  case (Cons kv kvs)
  obtain k v where kv: "kv = (k, v)" by (cases kv)
  obtain z where z: "setSetting k v x = Inr z"
    and zf: "\<And>k'. k' \<in> set form_keys \<Longrightarrow> field_text z k' = (if k' = k then field_text b k' else field_text x k')"
  proof (cases "k \<in> set form_keys")
    case True
    with Cons.prems [of k v] have "field_text b k = Some v" by (simp add: kv)
    with setSetting_step [OF assms(1) this, of x] show ?thesis using that by auto
  next
    case False
    with setSetting_other [OF False, of v x] show ?thesis using that by metis
  qed
  from Cons.IH [of z] Cons.prems obtain y where "setSettings kvs z = Inr y"
    "\<forall>k. k \<in> set form_keys \<longrightarrow> field_text y k = (if k \<in> fst ` set kvs then field_text b k else field_text z k)"
    by auto
  with z zf show ?case by (auto simp: kv)
qed simp

lemma save_fields_calm: "faults s = [] \<Longrightarrow> \<exists>es. save_fields kvs s = (Inr es, upd_settings (kv.puts kvs) s)
    \<and> Combine es = None"
proof (induction kvs arbitrary: s)
  case (Cons kv kvs)
  obtain k v where kv: "kv = (k, v)" by (cases kv)
  have "faults (upd_settings (save_setting k v) s) = []" using Cons.prems by simp
  from Cons.IH [OF this] show ?case using Cons.prems
    by (auto simp: kv andThen_run attempt_run saveSetting_calm kv.puts_Cons Combine_None)
qed (simp add: kv.puts_Nil Combine_def)

lemma UpdateAllSetting_calm: "faults s = [] \<Longrightarrow> UpdateAllSetting a s = (case CheckValid (world s) a of
    Inl e \<Rightarrow> (Inl e, s) | Inr b \<Rightarrow> (Inr (), upd_settings (kv.puts (setting_fields b)) s))"
proof (cases "CheckValid (world s) a")
  case (Inr b)
  assume "faults s = []"
  from save_fields_calm [OF this, of "setting_fields b"] Inr show ?thesis
    by (auto simp: UpdateAllSetting_def andThen_run)
qed (simp add: UpdateAllSetting_def andThen_run)

lemma CheckValid_form_ok: "CheckValid w a = Inr b \<Longrightarrow> in_int64 (WebCertExpireAt a) \<Longrightarrow> form_ok b"
  by (auto simp: CheckValid_def Let_def form_ok_def split: if_splits sum.splits)

lemma setting_value_row: "settings_ok t \<Longrightarrow> r \<in> set t \<Longrightarrow> setting_value t (st_Key r) = Some (st_Value r)"
  unfolding setting_value_def settings_ok_def by (metis find_key option.map(2))

lemma setting_value_keys: "setting_value t k \<noteq> None \<longleftrightarrow> k \<in> st_Key ` set t"
  by (auto simp: setting_value_def find_None_iff image_iff)

lemma GetAllSetting_reads:
  assumes calm: "faults s = []" and ok: "settings_ok (tbl_settings (pdb s))" and b: "form_ok b"
    and fields: "\<And>k. k \<in> set form_keys \<Longrightarrow> setting_value (tbl_settings (pdb s)) k = field_text b k"
  shows "GetAllSetting s = (Inr b, s)"
proof -
  let ?t = "tbl_settings (pdb s)"
  let ?kvs = "map (\<lambda>r. (st_Key r, st_Value r)) ?t"
  have rows: "field_text b k = Some v" if "(k, v) \<in> set ?kvs" "k \<in> set form_keys" for k v
    using that fields [of k] setting_value_row [OF ok] by auto
  have all: "k \<in> fst ` set ?kvs" if "k \<in> set form_keys" for k
  proof -
    have "field_text b k \<noteq> None" using that map_fst_setting_fields [of b]
      by (metis field_text_def list.set_map map_of_eq_None_iff)
    with fields [OF that] have "k \<in> st_Key ` set ?t" by (metis setting_value_keys)
    then show ?thesis by (force simp: image_iff)
  qed
  from setSettings_fields [OF b, of ?kvs zero_setting] rows obtain y where
    y: "setSettings ?kvs zero_setting = Inr y"
      "\<And>k. k \<in> set form_keys \<Longrightarrow> field_text y k = field_text b k"
    using all by auto
  have "y = b" by (rule field_text_inject) (rule y(2))
  have skip: "setSettings kvs x = Inr x" if "fst ` set kvs \<inter> set form_keys = {}" for kvs x
    using that by (induction kvs) (auto simp: setSetting_other)
  have m: "set (filter (\<lambda>k. k \<notin> set (map st_Key ?t)) default_keys) \<inter> set form_keys = {}"
    using all by (auto simp: image_iff)
  show ?thesis using y(1) \<open>y = b\<close> calm m
    by (simp add: GetAllSetting_def andThen_run Let_def) (rule skip, force)
qed

lemma UpdateAllSetting_GetAllSetting:
  assumes "faults s = []" and "settings_ok (tbl_settings (pdb s))"
    and "in_int64 (WebCertExpireAt a)" and "UpdateAllSetting a s = (Inr (), t)"
  shows "\<exists>b. CheckValid (world s) a = Inr b \<and> GetAllSetting t = (Inr b, t)"
proof -
  obtain b where b: "CheckValid (world s) a = Inr b" "t = upd_settings (kv.puts (setting_fields b)) s"
    using assms(4) UpdateAllSetting_calm [OF assms(1), of a] by (auto split: sum.splits)
  have "GetAllSetting t = (Inr b, t)"
  proof (rule GetAllSetting_reads)
    fix k assume "k \<in> set form_keys"
    then have "map_of (setting_fields b) k \<noteq> None" using map_fst_setting_fields [of b]
      by (metis list.set_map map_of_eq_None_iff)
    then show "setting_value (tbl_settings (pdb t)) k = field_text b k"
      using assms(2) by (auto simp: b(2) field_text_def kv.get_puts_distinct map_fst_setting_fields distinct_form_keys)
  qed (use assms b in \<open>simp_all add: kv.wf_puts CheckValid_form_ok\<close>)
  with b show ?thesis by blast
qed

section \<open>Properties\<close>

text \<open>what \<open>saveSetting\<close> wrote is what \<open>getString\<close> reads, and every other key reads as before.\<close>

theorem setting_read_back:
  assumes "faults s = []" and "settings_ok (tbl_settings (pdb s))"
  shows "fst (getString k' (snd (saveSetting k v s))) = (if k' = k then Inr v else fst (getString k' s))"
  using assms by (rule saveSetting_getString)

theorem setting_read_back_witness:
  "fst (getString ''webPort'' (snd (saveSetting ''webPort'' ''8080'' (fresh_panel quiet_world)))) = Inr ''8080''"
  by (subst setting_read_back) (simp_all add: fresh_panel_def empty_database_def settings_ok_def ids_ok_def)

text \<open>a form that \<open>UpdateAllSetting\<close> accepted is the form that \<open>GetAllSetting\<close> shows
  next, as \<open>CheckValid\<close> left it.\<close>

theorem form_read_back:
  assumes "faults s = []" and "settings_ok (tbl_settings (pdb s))"
    and "in_int64 (WebCertExpireAt a)" and "UpdateAllSetting a s = (Inr (), t)"
  shows "\<exists>b. CheckValid (world s) a = Inr b \<and> GetAllSetting t = (Inr b, t)"
  using assms by (rule UpdateAllSetting_GetAllSetting)

definition sample_form :: all_setting where
  "sample_form = zero_setting\<lparr>WebPort := 54321, WebBasePath := ''panel'', WebDomain := '' example.com '',
     XrayTemplateConfig := ''{}'', TimeLocation := ''Asia/Shanghai''\<rparr>"

lemma sample_form_valid: "CheckValid quiet_world sample_form
    = Inr (sample_form\<lparr>WebBasePath := ''/panel/'', WebDomain := ''example.com''\<rparr>)"
  by code_simp

theorem form_read_back_witness:
  "\<exists>t. UpdateAllSetting sample_form (fresh_panel quiet_world) = (Inr (), t)
     \<and> GetAllSetting t = (Inr (sample_form\<lparr>WebBasePath := ''/panel/'', WebDomain := ''example.com''\<rparr>), t)"
proof -
  have w: "world (fresh_panel quiet_world) = quiet_world" "faults (fresh_panel quiet_world) = []"
    "settings_ok (tbl_settings (pdb (fresh_panel quiet_world)))"
    by (simp_all add: fresh_panel_def empty_database_def settings_ok_def ids_ok_def)
  then obtain t where t: "UpdateAllSetting sample_form (fresh_panel quiet_world) = (Inr (), t)"
    by (simp add: UpdateAllSetting_calm sample_form_valid)
  have "in_int64 (WebCertExpireAt sample_form)" by code_simp
  from form_read_back [OF w(2,3) this t] w(1) sample_form_valid t show ?thesis by auto
qed

definition form_valid :: "all_setting \<Rightarrow> bool" where
  "form_valid a \<longleftrightarrow> (WebListen a = [] \<or> ParseIP (WebListen a) \<noteq> None)
     \<and> 0 < WebPort a \<and> WebPort a < 65536
     \<and> HasPrefix (WebBasePath a) ''/'' \<and> HasSuffix (WebBasePath a) ''/''
     \<and> TrimSpace (WebDomain a) = WebDomain a
     \<and> (\<forall>p \<in> set [''://'', ''/'', '' '']. \<not> Contains (WebDomain a) p)"

lemma with_slashes_ends: "HasPrefix (with_slashes p) ''/'' \<and> HasSuffix (with_slashes p) ''/''"
  by (cases p) (auto simp: with_slashes_def Let_def HasPrefix_def HasSuffix_def)

text \<open>An accepted form has a port of the range, an address that parses, slashes around
  the base path and a domain without a scheme, a slash or a space.\<close>

theorem accepted_form_valid:
  assumes "CheckValid w a = Inr b"
  shows "form_valid b"
proof -
  have d: "form_valid (a\<lparr>WebBasePath := with_slashes (WebBasePath a), WebDomain := TrimSpace (WebDomain a)\<rparr>)"
    if "WebListen a = [] \<or> ParseIP (WebListen a) \<noteq> None" "0 < WebPort a" "WebPort a \<le> 65535"
      "TrimSpace (WebDomain a) = [] \<or> (\<forall>p \<in> set [''://'', ''/'', '' '']. \<not> Contains (TrimSpace (WebDomain a)) p)"
    using that with_slashes_ends [of "WebBasePath a"]
    by (auto simp: form_valid_def)
  from assms have "b = a\<lparr>WebBasePath := with_slashes (WebBasePath a), WebDomain := TrimSpace (WebDomain a)\<rparr>"
    by (auto simp: CheckValid_def Let_def split: if_splits sum.splits)
  moreover from assms have "WebListen a = [] \<or> ParseIP (WebListen a) \<noteq> None" "0 < WebPort a" "WebPort a \<le> 65535"
    "TrimSpace (WebDomain a) = [] \<or> (\<forall>p \<in> set [''://'', ''/'', '' '']. \<not> Contains (TrimSpace (WebDomain a)) p)"
    by (auto simp: CheckValid_def Let_def split: if_splits sum.splits)
  ultimately show ?thesis using d by simp
qed

theorem accepted_form_valid_witness:
  "form_valid (sample_form\<lparr>WebBasePath := ''/panel/'', WebDomain := ''example.com''\<rparr>)"
  by (rule accepted_form_valid [OF sample_form_valid])

end
