(* ===== verification/Access_Log.thy ===== *)
theory Access_Log
  imports Settings
begin

text \<open>
  The switches of src/web/service/access_ip.go that the configuration of xray
  depends on: the boolean settings with their lenient reading and the rewriting of
  the \<open>log\<close> section of a configuration.
\<close>

definition xrayAccessLogPath :: string where
  "xrayAccessLogPath = ''/var/log/xray/access.log''"
definition accessLogEnabledKey :: string where
  "accessLogEnabledKey = ''accessLogEnabled''"
definition aggregationEnabledKey :: string where
  "aggregationEnabledKey = ''accessIPAggregationEnabled''"

record access_ip_config =
  AccessLogEnabled :: bool
  AggregationEnabled :: bool

section \<open>The boolean settings\<close>

definition parse_switch :: "string \<Rightarrow> bool \<Rightarrow> bool res" where
  "parse_switch text_value defaultValue =
     (let value = TrimSpace (ToLower text_value) in
      if value = [] then Inr defaultValue
      else if value \<in> set [''1'', ''true'', ''yes'', ''on''] then Inr True
      else if value \<in> set [''0'', ''false'', ''no'', ''off''] then Inr False
      else ParseBool value)"

definition getBoolSetting :: "string \<Rightarrow> bool \<Rightarrow> (panel, bool) act" where
  "getBoolSetting key defaultValue =
     andThen (attempt (getSetting key)) (\<lambda>r. case r of
       Inl e \<Rightarrow> if e = NotFound then ret defaultValue else throw e
     | Inr setting \<Rightarrow> lift_res (parse_switch (st_Value setting) defaultValue))"

definition IsAccessLogEnabled :: "(panel, bool) act" where
  "IsAccessLogEnabled = getBoolSetting accessLogEnabledKey True"

definition IsAggregationEnabled :: "(panel, bool) act" where
  "IsAggregationEnabled = getBoolSetting aggregationEnabledKey True"

definition AccessIP_GetConfig :: "(panel, access_ip_config) act" where
  "AccessIP_GetConfig =
     andThen (getBoolSetting accessLogEnabledKey True) (\<lambda>accessLogEnabled.
     andThen (getBoolSetting aggregationEnabledKey True) (\<lambda>aggregationEnabled.
     ret \<lparr>AccessLogEnabled = accessLogEnabled, AggregationEnabled = aggregationEnabled\<rparr>))"

section \<open>The log section\<close>

record xray_log_config =
  lc_Access :: string
  lc_Error :: string
  lc_LogLevel :: string

definition decode_log :: "string \<Rightarrow> xray_log_config option" where
  "decode_log raw = (case struct_members raw of
       None \<Rightarrow> None
     | Some kvs \<Rightarrow> (case (get_string ''access'' kvs, get_string ''error'' kvs, get_string ''loglevel'' kvs) of
           (Some a, Some e, Some l) \<Rightarrow> Some \<lparr>lc_Access = a, lc_Error = e, lc_LogLevel = l\<rparr>
         | _ \<Rightarrow> None))"

text \<open>A field with \<open>omitempty\<close>.\<close>

definition omit_empty :: "string \<Rightarrow> string \<Rightarrow> (string \<times> json) list" where
  "omit_empty name s = (if s = [] then [] else [(name, JStr s)])"

definition encode_log :: "xray_log_config \<Rightarrow> json" where
  "encode_log c = JObj (omit_empty ''access'' (lc_Access c) @ omit_empty ''error'' (lc_Error c)
     @ omit_empty ''loglevel'' (lc_LogLevel c))"

definition log_setting :: "bool \<Rightarrow> xray_log_config \<Rightarrow> xray_log_config" where
  "log_setting enabled c =
     (if enabled then
        \<lparr>lc_Access = (if lc_Access c = [] then xrayAccessLogPath else lc_Access c),
         lc_Error = (if lc_Error c = [] then ''/var/log/xray/error.log'' else lc_Error c),
         lc_LogLevel = (if lc_LogLevel c = [] then ''warning'' else lc_LogLevel c)\<rparr>
      else c\<lparr>lc_Access := []\<rparr>)"

definition apply_log :: "bool \<Rightarrow> xconfig \<Rightarrow> xconfig res" where
  "apply_log enabled config =
     (let raw = TrimSpace (LogConfig config) in
      case (if raw \<noteq> [] \<and> raw \<noteq> ''null'' then decode_log (LogConfig config)
            else Some \<lparr>lc_Access = [], lc_Error = [], lc_LogLevel = []\<rparr>) of
        None \<Rightarrow> Inl (Err ''parse xray log config failed'')
      | Some c0 \<Rightarrow>
          (let c = log_setting enabled c0 in
           if lc_Access c = [] \<and> lc_Error c = [] \<and> lc_LogLevel c = []
           then Inr (config\<lparr>LogConfig := []\<rparr>)
           else Inr (config\<lparr>LogConfig := print_json (encode_log c)\<rparr>)))"

definition ApplyAccessLogSetting :: "xconfig \<Rightarrow> (panel, xconfig) act" where
  "ApplyAccessLogSetting config =
     andThen IsAccessLogEnabled (\<lambda>enabled. lift_res (apply_log enabled config))"

section \<open>Lemmas\<close>

lemma getBoolSetting_calm: "faults s = [] \<Longrightarrow> getBoolSetting k b s =
    (case setting_value (tbl_settings (pdb s)) k of None \<Rightarrow> Inr b | Some v \<Rightarrow> parse_switch v b, s)"
  by (auto simp: getBoolSetting_def andThen_run attempt_run getSetting_calm first_setting_def
      setting_value_def split: option.split)

lemma trim_lower_bool: "TrimSpace (ToLower ''true'') = ''true''" "TrimSpace (ToLower ''false'') = ''false''"
  by code_simp+

lemma parse_switch_FormatBool: "parse_switch (FormatBool b) d = Inr b"
  by (cases b) (simp_all add: parse_switch_def FormatBool_def trim_lower_bool Let_def)

lemma apply_log_frame: "apply_log b c = Inr c' \<Longrightarrow> c'\<lparr>LogConfig := LogConfig c\<rparr> = c"
  by (auto simp: apply_log_def Let_def split: option.splits if_splits)

end
