(* ===== verification/Managed_Tables.thy ===== *)
theory Managed_Tables
  imports Access_Log
begin

text \<open>
  The statements of src/web/service/outbound.go and routing.go on the tables of
  outbounds and routing rules: ordered queries, look-up by id, the counts behind
  the checks of a tag, and what \<open>Create\<close>, \<open>Save\<close> and \<open>Updates\<close> of gorm do with
  the column defaults of src/database/model/model.go: a zero value of a column
  with a default is stored as the default, times are stamped, the index on the tag
  is unique.
\<close>

section \<open>Outbounds\<close>

text \<open>\<open>Order("sort asc, id asc")\<close>: the table is in the order of the ids and the sort is stable.\<close>

definition outbounds_ordered :: "bool \<Rightarrow> database \<Rightarrow> outbound list" where
  "outbounds_ordered includeSystem d = sort_key ob_Sort
     (filter (\<lambda>o'. includeSystem \<or> \<not> ob_IsSystem o') (tbl_outbounds d))"

definition getOutboundsByDB :: "handle \<Rightarrow> bool \<Rightarrow> (panel, outbound list) act" where
  "getOutboundsByDB h includeSystem = query h (\<lambda>d. Inr (outbounds_ordered includeSystem d))"

definition GetOutbounds :: "bool \<Rightarrow> (panel, outbound list) act" where
  "GetOutbounds includeSystem = getOutboundsByDB Conn includeSystem"

definition GetAllOutbounds :: "(panel, outbound list) act" where
  "GetAllOutbounds = GetOutbounds True"

definition outbound_by_id :: "int \<Rightarrow> database \<Rightarrow> outbound res" where
  "outbound_by_id i d = (case row_by_id ob_Id i (tbl_outbounds d) of
       None \<Rightarrow> Inl (Err ''OUTBOUND_NOT_FOUND: outbound not found'') | Some r \<Rightarrow> Inr r)"

definition getOutboundByDB :: "handle \<Rightarrow> int \<Rightarrow> (panel, outbound) act" where
  "getOutboundByDB h i = query h (outbound_by_id i)"

definition GetOutbound :: "int \<Rightarrow> (panel, outbound) act" where
  "GetOutbound i = getOutboundByDB Conn i"

definition outbound_tag_count :: "string \<Rightarrow> int \<Rightarrow> database \<Rightarrow> nat" where
  "outbound_tag_count tag excludeId d = length (filter (\<lambda>r. ob_Tag r = tag \<and>
     (0 < excludeId \<longrightarrow> ob_Id r \<noteq> excludeId)) (tbl_outbounds d))"

definition isOutboundTagExistsByDB :: "handle \<Rightarrow> string \<Rightarrow> int \<Rightarrow> (panel, bool) act" where
  "isOutboundTagExistsByDB h tag excludeId = query h (\<lambda>d. Inr (0 < outbound_tag_count tag excludeId d))"

definition IsOutboundTagExists :: "string \<Rightarrow> int \<Rightarrow> (panel, bool) act" where
  "IsOutboundTagExists tag excludeId = isOutboundTagExistsByDB Conn tag excludeId"

definition outboundTagExistsByDB :: "handle \<Rightarrow> string \<Rightarrow> (panel, bool) act" where
  "outboundTagExistsByDB h tag =
     query h (\<lambda>d. Inr (0 < length (filter (\<lambda>r. ob_Tag r = tag) (tbl_outbounds d))))"

definition outboundTagExists :: "string \<Rightarrow> (panel, bool) act" where
  "outboundTagExists tag = outboundTagExistsByDB Conn tag"

definition countOutboundRefsByDB :: "handle \<Rightarrow> string \<Rightarrow> (panel, nat) act" where
  "countOutboundRefsByDB h tag =
     query h (\<lambda>d. Inr (length (filter (\<lambda>r. rr_OutboundTag r = tag) (tbl_rules d))))"

definition CountOutboundRefs :: "string \<Rightarrow> (panel, nat) act" where
  "CountOutboundRefs tag = countOutboundRefsByDB Conn tag"

definition outbound_defaults :: "int \<Rightarrow> outbound \<Rightarrow> outbound" where
  "outbound_defaults t r = r\<lparr>ob_Enabled := True,
     ob_Sort := (if ob_Sort r = 0 then 1000 else ob_Sort r),
     ob_CreatedAt := (if ob_CreatedAt r = 0 then t else ob_CreatedAt r),
     ob_UpdatedAt := (if ob_UpdatedAt r = 0 then t else ob_UpdatedAt r)\<rparr>"

definition create_outbound :: "int \<Rightarrow> outbound \<Rightarrow> database \<Rightarrow> outbound res \<times> database" where
  "create_outbound t r d =
     (if ob_Tag r \<in> ob_Tag ` set (tbl_outbounds d)
      then (Inl (DbErr ''UNIQUE constraint failed: outbounds.tag''), d)
      else case insert_row ob_Id (\<lambda>i r. r\<lparr>ob_Id := i\<rparr>) (outbound_defaults t r) (tbl_outbounds d) of
          Inl e \<Rightarrow> (Inl e, d)
        | Inr (r', rows) \<Rightarrow> (Inr r', d\<lparr>tbl_outbounds := rows\<rparr>))"

definition save_outbound :: "int \<Rightarrow> outbound \<Rightarrow> database \<Rightarrow> unit res \<times> database" where
  "save_outbound t r d =
     (if list_ex (\<lambda>x. ob_Tag x = ob_Tag r \<and> ob_Id x \<noteq> ob_Id r) (tbl_outbounds d)
      then (Inl (DbErr ''UNIQUE constraint failed: outbounds.tag''), d)
      else (Inr (), d\<lparr>tbl_outbounds :=
          update_rows (\<lambda>x. ob_Id x = ob_Id r) (\<lambda>_. r\<lparr>ob_UpdatedAt := t\<rparr>) (tbl_outbounds d)\<rparr>))"

text \<open>\<open>Update("enabled", ...)\<close> and \<open>Update("is_system", ...)\<close> stamp the time too.\<close>

definition update_outbound :: "int \<Rightarrow> int \<Rightarrow> (outbound \<Rightarrow> outbound) \<Rightarrow> database \<Rightarrow> unit res \<times> database" where
  "update_outbound t i f d = (Inr (), d\<lparr>tbl_outbounds :=
     update_rows (\<lambda>x. ob_Id x = i) (\<lambda>x. (f x)\<lparr>ob_UpdatedAt := t\<rparr>) (tbl_outbounds d)\<rparr>)"

definition delete_outbound :: "int \<Rightarrow> database \<Rightarrow> unit res \<times> database" where
  "delete_outbound i d = (Inr (), d\<lparr>tbl_outbounds := delete_rows (\<lambda>x. ob_Id x = i) (tbl_outbounds d)\<rparr>)"

section \<open>Routing rules\<close>

definition rules_ordered :: "bool \<Rightarrow> database \<Rightarrow> routing_rule list" where
  "rules_ordered includeSystem d = sort_key rr_Sort
     (filter (\<lambda>r. includeSystem \<or> \<not> rr_IsSystem r) (tbl_rules d))"

definition getRulesByDB :: "handle \<Rightarrow> bool \<Rightarrow> (panel, routing_rule list) act" where
  "getRulesByDB h includeSystem = query h (\<lambda>d. Inr (rules_ordered includeSystem d))"

definition GetRules :: "bool \<Rightarrow> (panel, routing_rule list) act" where
  "GetRules includeSystem = getRulesByDB Conn includeSystem"

definition rule_by_id :: "int \<Rightarrow> database \<Rightarrow> routing_rule res" where
  "rule_by_id i d = (case row_by_id rr_Id i (tbl_rules d) of
       None \<Rightarrow> Inl (Err ''ROUTING_RULE_NOT_FOUND: routing rule not found'') | Some r \<Rightarrow> Inr r)"

definition getRuleByDB :: "handle \<Rightarrow> int \<Rightarrow> (panel, routing_rule) act" where
  "getRuleByDB h i = query h (rule_by_id i)"

definition GetRule :: "int \<Rightarrow> (panel, routing_rule) act" where
  "GetRule i = getRuleByDB Conn i"

definition rule_defaults :: "int \<Rightarrow> routing_rule \<Rightarrow> routing_rule" where
  "rule_defaults t r = r\<lparr>rr_Type := (if rr_Type r = [] then ''field'' else rr_Type r),
     rr_Sort := (if rr_Sort r = 0 then 1000 else rr_Sort r),
     rr_CreatedAt := (if rr_CreatedAt r = 0 then t else rr_CreatedAt r),
     rr_UpdatedAt := (if rr_UpdatedAt r = 0 then t else rr_UpdatedAt r)\<rparr>"

definition create_rule :: "int \<Rightarrow> routing_rule \<Rightarrow> database \<Rightarrow> routing_rule res \<times> database" where
  "create_rule t r d =
     (case insert_row rr_Id (\<lambda>i r. r\<lparr>rr_Id := i\<rparr>) (rule_defaults t r) (tbl_rules d) of
        Inl e \<Rightarrow> (Inl e, d)
      | Inr (r', rows) \<Rightarrow> (Inr r', d\<lparr>tbl_rules := rows\<rparr>))"

definition update_rule :: "int \<Rightarrow> int \<Rightarrow> (routing_rule \<Rightarrow> routing_rule) \<Rightarrow> database \<Rightarrow> unit res \<times> database" where
  "update_rule t i f d = (Inr (), d\<lparr>tbl_rules :=
     update_rows (\<lambda>x. rr_Id x = i) (\<lambda>x. (f x)\<lparr>rr_UpdatedAt := t\<rparr>) (tbl_rules d)\<rparr>)"

definition delete_rule :: "int \<Rightarrow> database \<Rightarrow> unit res \<times> database" where
  "delete_rule i d = (Inr (), d\<lparr>tbl_rules := delete_rows (\<lambda>x. rr_Id x = i) (tbl_rules d)\<rparr>)"

section \<open>Statements stamped with the time\<close>

definition stmt_now :: "handle \<Rightarrow> (int \<Rightarrow> database \<Rightarrow> 'a res \<times> database) \<Rightarrow> (panel, 'a) act" where
  "stmt_now h f = andThen (gets clock_now) (\<lambda>t. stmt h (f t))"

lemma keeps_stmt_now: "(\<And>t d. I d \<Longrightarrow> I (snd (f t d))) \<Longrightarrow> keeps (all_db I) (stmt_now h f)"
  unfolding stmt_now_def by (intro keeps_intro keeps_stmt) auto

lemma keeps_stmt_now_Tx [keeps_intro]: "keeps (committed I) (stmt_now Tx f)"
  unfolding stmt_now_def by (intro keeps_intro)

lemma stmt_now_calm_Tx [act_simps]:
  "faults s = [] \<Longrightarrow> ptx s = Some d \<Longrightarrow>
     stmt_now Tx f s = (fst (f (clock_now s) d), s\<lparr>ptx := Some (snd (f (clock_now s) d))\<rparr>)"
  by (simp add: stmt_now_def andThen_run stmt_calm_Tx)

section \<open>The invariant of the two tables\<close>

text \<open>
  Ids increase and are distinct, tags are distinct, and every rule sends to a tag
  that an outbound has.
\<close>

definition tags_ok :: "outbound list \<Rightarrow> bool" where
  "tags_ok t \<longleftrightarrow> ids_ok ob_Id t \<and> distinct (map ob_Tag t)"

definition refs_ok :: "database \<Rightarrow> bool" where
  "refs_ok d \<longleftrightarrow> rr_OutboundTag ` set (tbl_rules d) \<subseteq> ob_Tag ` set (tbl_outbounds d)"

definition tables_ok :: "database \<Rightarrow> bool" where
  "tables_ok d \<longleftrightarrow> tags_ok (tbl_outbounds d) \<and> ids_ok rr_Id (tbl_rules d) \<and> refs_ok d"

end
