(* ===== verification/Inbound_Normalize.thy ===== *)
theory Inbound_Normalize
  imports Database
begin

text \<open>
  The normalisation of an inbound before it is stored (src/web/service/inbound.go)
  and its translation for xray (src/database/model/model.go): rates and limits,
  the protocol settings, the REALITY stream settings.
\<close>

section \<open>Rates\<close>

definition rate_units :: "string list" where
  "rate_units = [''kbit'', ''mbit'', ''gbit'', ''kbps'', ''mbps'', ''gbps'', ''kbyte'', ''kbyte/s'',
     ''mbyte'', ''mbyte/s'', ''gbyte'', ''gbyte/s'']"

text \<open>\<open>rateLimitRegexp\<close>: the two groups of a match.\<close>

definition match_rate :: "string \<Rightarrow> (string \<times> string) option" where
  "match_rate s0 =
     (let s = ToLower s0; whole = takeWhile is_digit s; r = drop (length whole) s;
          frac = (if HasPrefix r ''.'' then takeWhile is_digit (drop 1 r) else []);
          n = (if frac = [] then length whole else length whole + 1 + length frac)
      in if whole \<noteq> [] \<and> (drop n s = [] \<or> drop n s \<in> set rate_units)
         then Some (take n s0, drop n s0) else None)"

definition normalizeRate :: "string \<Rightarrow> string" where
  "normalizeRate rate0 =
     (let rate = ReplaceAll (TrimSpace (ToLower rate0)) '' '' [] in
      if rate = [] then []
      else case match_rate rate of
          None \<Rightarrow> rate
        | Some (number, unit0) \<Rightarrow>
            (let unit1 = (if unit0 = [] then ''mbit'' else unit0);
                 unit2 = (if unit1 \<in> set [''kbyte'', ''mbyte'', ''gbyte''] then unit1 @ ''/s'' else unit1)
             in number @ unit2))"

definition keep_rate :: "string \<Rightarrow> string" where
  "keep_rate r = (if r \<noteq> [] \<and> match_rate r = None then [] else r)"

definition normalizeLimit :: "inbound \<Rightarrow> inbound" where
  "normalizeLimit i =
     (let limit = (if in_IPLimit i < 0 then 0 else in_IPLimit i);
          t1 = (if in_IPTimeout i \<le> 0 then 5 else in_IPTimeout i);
          t2 = (if 1440 < t1 then 1440 else t1)
      in i\<lparr>in_IPLimit := limit, in_IPTimeout := t2,
           in_PortRate := keep_rate (normalizeRate (in_PortRate i)),
           in_IPRate := keep_rate (normalizeRate (in_IPRate i))\<rparr>)"

section \<open>Protocol settings\<close>

definition maps_json :: "json list option \<Rightarrow> json" where
  "maps_json ms = (case ms of None \<Rightarrow> JNull | Some vs \<Rightarrow> JArr vs)"

record trojan_settings =
  tr_Clients :: "json list option"
  tr_Fallbacks :: "json list option"

record vless_settings =
  vl_Clients :: "json list option"
  vl_Decryption :: string
  vl_Fallbacks :: "json list option"

record socks_settings =
  so_Auth :: string
  so_Accounts :: "json list option"
  so_Udp :: json
  so_IP :: string

definition decode_trojan :: "string \<Rightarrow> trojan_settings option" where
  "decode_trojan s = (case struct_members s of
       None \<Rightarrow> None
     | Some kvs \<Rightarrow> (case (get_maps ''clients'' kvs, get_maps ''fallbacks'' kvs) of
           (Some c, Some f) \<Rightarrow> Some \<lparr>tr_Clients = c, tr_Fallbacks = f\<rparr>
         | _ \<Rightarrow> None))"

definition encode_trojan :: "trojan_settings \<Rightarrow> json" where
  "encode_trojan t = JObj [(''clients'', maps_json (tr_Clients t)), (''fallbacks'', maps_json (tr_Fallbacks t))]"

definition decode_vless :: "string \<Rightarrow> vless_settings option" where
  "decode_vless s = (case struct_members s of
       None \<Rightarrow> None
     | Some kvs \<Rightarrow> (case (get_maps ''clients'' kvs, get_string ''decryption'' kvs, get_maps ''fallbacks'' kvs) of
           (Some c, Some d, Some f) \<Rightarrow> Some \<lparr>vl_Clients = c, vl_Decryption = d, vl_Fallbacks = f\<rparr>
         | _ \<Rightarrow> None))"

definition encode_vless :: "vless_settings \<Rightarrow> json" where
  "encode_vless t = JObj [(''clients'', maps_json (vl_Clients t)), (''decryption'', JStr (vl_Decryption t)),
     (''fallbacks'', maps_json (vl_Fallbacks t))]"

definition decode_socks :: "string \<Rightarrow> socks_settings option" where
  "decode_socks s = (case struct_members s of
       None \<Rightarrow> None
     | Some kvs \<Rightarrow> (case (get_string ''auth'' kvs, get_maps ''accounts'' kvs, get_any ''udp'' kvs, get_string ''ip'' kvs) of
           (Some a, Some ac, Some u, Some ip) \<Rightarrow> Some \<lparr>so_Auth = a, so_Accounts = ac, so_Udp = u, so_IP = ip\<rparr>
         | _ \<Rightarrow> None))"

definition encode_socks :: "socks_settings \<Rightarrow> json" where
  "encode_socks t = JObj [(''auth'', JStr (so_Auth t)), (''accounts'', maps_json (so_Accounts t)),
     (''udp'', so_Udp t), (''ip'', JStr (so_IP t))]"

text \<open>\<open>delete(client, "flow")\<close>; the nil map has no entry.\<close>

fun drop_flow :: "json \<Rightarrow> json" where
  "drop_flow (JObj m) = JObj (obj_del ''flow'' m)"
| "drop_flow v = v"

definition legacy_flow :: "json \<Rightarrow> bool" where
  "legacy_flow v \<longleftrightarrow> (case v of
       JObj m \<Rightarrow> obj_index m ''flow'' = JStr ''xtls-rprx-direct'' \<or> obj_index m ''flow'' = JStr ''xtls-rprx-origin''
     | _ \<Rightarrow> False)"

fun clear_flow :: "json \<Rightarrow> json" where
  "clear_flow (JObj m) = (if legacy_flow (JObj m) then JObj (obj_put ''flow'' (JStr []) m) else JObj m)"
| "clear_flow v = v"

definition normalizeSocksAuth :: "string \<Rightarrow> bool \<Rightarrow> string" where
  "normalizeSocksAuth auth0 hasAccounts =
     (let auth = TrimSpace (ToLower auth0) in
      if auth = ''password'' then ''password''
      else if auth = ''noauth'' then ''noauth''
      else if hasAccounts then ''password'' else ''noauth'')"

definition normalizeSocksUDPValue :: "json \<Rightarrow> bool" where
  "normalizeSocksUDPValue value = (case value of
       JBool v \<Rightarrow> v
     | JStr v \<Rightarrow> (let t = TrimSpace (ToLower v) in
         if t \<in> set [''1'', ''true'', ''yes'', ''on''] then True
         else if t \<in> set [''0'', ''false'', ''no'', ''off'', ''''] then False
         else True)
     | JNum m e \<Rightarrow> m \<noteq> 0
     | _ \<Rightarrow> True)"

definition normal_socks :: "socks_settings \<Rightarrow> socks_settings" where
  "normal_socks t =
     (let auth = normalizeSocksAuth (so_Auth t) (case so_Accounts t of None \<Rightarrow> False | Some as \<Rightarrow> as \<noteq> [])
      in \<lparr>so_Auth = auth,
          so_Accounts = (if auth \<noteq> ''password'' then None else so_Accounts t),
          so_Udp = JBool (normalizeSocksUDPValue (so_Udp t)),
          so_IP = (if TrimSpace (so_IP t) = [] then ''127.0.0.1'' else so_IP t)\<rparr>)"

definition normal_trojan :: "trojan_settings \<Rightarrow> trojan_settings" where
  "normal_trojan t = t\<lparr>tr_Clients := map_option (map drop_flow) (tr_Clients t)\<rparr>"

definition normal_vless :: "vless_settings \<Rightarrow> vless_settings" where
  "normal_vless t = t\<lparr>vl_Clients := map_option (map clear_flow) (vl_Clients t)\<rparr>"

definition protocol_settings :: "protocol \<Rightarrow> string \<Rightarrow> string" where
  "protocol_settings proto raw =
     (let settings = TrimSpace raw in
      if settings = [] then raw
      else if proto = Trojan then (case decode_trojan settings of
          None \<Rightarrow> raw | Some t \<Rightarrow> print_json (encode_trojan (normal_trojan t)))
      else if proto = VLESS then (case decode_vless settings of
          None \<Rightarrow> raw | Some t \<Rightarrow> print_json (encode_vless (normal_vless t)))
      else if proto = Socks \<or> proto = Mixed then (case decode_socks settings of
          None \<Rightarrow> raw | Some t \<Rightarrow> print_json (encode_socks (normal_socks t)))
      else raw)"

definition normalizeProtocolSettings :: "inbound \<Rightarrow> inbound" where
  "normalizeProtocolSettings i = i\<lparr>in_Settings := protocol_settings (in_Protocol i) (in_Settings i)\<rparr>"

section \<open>REALITY stream settings\<close>

definition trimJSONStringValue :: "json \<Rightarrow> string" where
  "trimJSONStringValue value = (case is_string value of Some t \<Rightarrow> TrimSpace t | None \<Rightarrow> [])"

definition non_empty_trimmed :: "string list \<Rightarrow> string list" where
  "non_empty_trimmed ts = filter (\<lambda>t. t \<noteq> []) (map TrimSpace ts)"

definition normalizeRealityStringList :: "json \<Rightarrow> string list" where
  "normalizeRealityStringList value = (case value of
       JArr vs \<Rightarrow> non_empty_trimmed (map trimJSONStringValue vs)
     | JStr v \<Rightarrow> non_empty_trimmed
         (Split (ReplaceAll (ReplaceAll v [CHR 0x0D, CHR 0x0A] [CHR 0x0A]) [bslash, CHR ''n''] [CHR 0x0A]) (CHR 0x0A))
     | _ \<Rightarrow> [])"

text \<open>
  \<open>int64(v)\<close> of a positive float truncates; above the range of int64 the
  conversion gives the smallest value on amd64.
\<close>

definition trunc_decimal :: "int \<Rightarrow> int \<Rightarrow> int" where
  "trunc_decimal m e = (if 0 \<le> e then m * 10 ^ nat e else m div 10 ^ nat (- e))"

definition normalizeRealityMaxTimeDiff :: "json \<Rightarrow> int option" where
  "normalizeRealityMaxTimeDiff value = (case value of
       JNum m e \<Rightarrow>
         if 0 < m then Some (if trunc_decimal m e \<le> max_int64 then trunc_decimal m e else min_int64) else None
     | _ \<Rightarrow> None)"

definition normalizeRealityShow :: "json \<Rightarrow> bool" where
  "normalizeRealityShow value = (case value of
       JBool v \<Rightarrow> v
     | JStr v \<Rightarrow> ToLower (TrimSpace v) \<in> set [''1'', ''true'', ''yes'', ''on'']
     | JNum m e \<Rightarrow> m \<noteq> 0
     | _ \<Rightarrow> False)"

definition share_value :: "obj option \<Rightarrow> obj \<Rightarrow> string \<Rightarrow> string" where
  "share_value share reality key =
     (let v = (case share of None \<Rightarrow> [] | Some m \<Rightarrow> trimJSONStringValue (obj_index m key))
      in if v = [] then trimJSONStringValue (obj_index reality key) else v)"

definition put_non_empty :: "string \<Rightarrow> string \<Rightarrow> obj \<Rightarrow> obj" where
  "put_non_empty key v m = (if v \<noteq> [] then obj_put key (JStr v) m else m)"

definition normalizeRealityShareMetadata :: "obj \<Rightarrow> obj \<Rightarrow> obj" where
  "normalizeRealityShareMetadata stream reality =
     (let share = is_object (obj_index stream ''realityShare'') in
      put_non_empty ''fingerprint'' (share_value share reality ''fingerprint'')
        (put_non_empty ''shortId'' (share_value share reality ''shortId'')
          (put_non_empty ''publicKey'' (share_value share reality ''publicKey'') [])))"

definition is_hex_char :: "char \<Rightarrow> bool" where
  "is_hex_char c \<longleftrightarrow> is_digit c \<or> in_range 97 102 c \<or> in_range 65 70 c"

fun validateRealityShortIDs :: "string list \<Rightarrow> err option" where
  "validateRealityShortIDs [] = None"
| "validateRealityShortIDs (item # items) =
     (if item = [] then Some (Err ''REALITY shortIds empty'')
      else if 16 < length item then Some (ErrArg ''REALITY shortId too long:'' item)
      else if length item mod 2 \<noteq> 0 then Some (ErrArg ''REALITY shortId odd length:'' item)
      else if \<not> list_all is_hex_char item then Some (ErrArg ''REALITY shortId not hexadecimal:'' item)
      else validateRealityShortIDs items)"

text \<open>The header of the TCP settings is absent, not an object, or of type none.\<close>

definition plain_tcp :: "obj \<Rightarrow> bool" where
  "plain_tcp stream = (case is_object (obj_index stream ''tcpSettings'') of
       None \<Rightarrow> True
     | Some tcp \<Rightarrow> (case is_object (obj_index tcp ''header'') of
           None \<Rightarrow> True
         | Some header \<Rightarrow> (let t = ToLower (trimJSONStringValue (obj_index header ''type''))
             in t = [] \<or> t = ''none'')))"

definition normal_reality :: "string \<Rightarrow> string list \<Rightarrow> string \<Rightarrow> string list \<Rightarrow> obj \<Rightarrow> obj" where
  "normal_reality target serverNames privateKey shortIDs reality =
     (let base = obj_of_members
        [(''target'', JStr target), (''serverNames'', JArr (map JStr serverNames)),
         (''privateKey'', JStr privateKey), (''shortIds'', JArr (map JStr shortIDs)),
         (''show'', JBool (normalizeRealityShow (obj_index reality ''show'')))]
      in case normalizeRealityMaxTimeDiff (obj_index reality ''maxTimeDiff'') of
          None \<Rightarrow> base
        | Some n \<Rightarrow> obj_put ''maxTimeDiff'' (mk_num n 0) base)"

definition normal_stream :: "obj \<Rightarrow> obj \<Rightarrow> obj \<Rightarrow> obj" where
  "normal_stream stream reality normalized =
     (let base = obj_of_members
        [(''network'', JStr ''tcp''), (''security'', JStr ''reality''), (''realitySettings'', JObj normalized)];
          share = normalizeRealityShareMetadata stream reality;
          s1 = (if share \<noteq> [] then obj_put ''realityShare'' (JObj share) base else base)
      in case is_object (obj_index stream ''tcpSettings'') of
          None \<Rightarrow> s1
        | Some tcp \<Rightarrow> if tcp \<noteq> [] then obj_put ''tcpSettings'' (JObj tcp) s1 else s1)"

text \<open>\<open>json.Unmarshal\<close> into a map made before: \<open>null\<close> makes it nil, which reads like the empty one.\<close>

definition decode_object :: "string \<Rightarrow> obj option" where
  "decode_object s = (case parse_json s of
       None \<Rightarrow> None
     | Some v \<Rightarrow> (case as_map v of
           Some (JObj m) \<Rightarrow> Some m
         | Some JNull \<Rightarrow> Some []
         | _ \<Rightarrow> None))"

definition reality_stream :: "protocol \<Rightarrow> obj \<Rightarrow> obj res" where
  "reality_stream proto stream =
     (if proto \<noteq> VLESS then Inl (Err ''REALITY: only VLESS inbounds'')
      else if ToLower (trimJSONStringValue (obj_index stream ''network'')) \<noteq> ''tcp''
      then Inl (Err ''REALITY: only RAW(TCP) transport'')
      else if \<not> plain_tcp stream then Inl (Err ''REALITY: no TCP HTTP camouflage'')
      else case is_object (obj_index stream ''realitySettings'') of
          None \<Rightarrow> Inl (Err ''REALITY: realitySettings missing'')
        | Some reality \<Rightarrow>
            let t0 = trimJSONStringValue (obj_index reality ''target'');
                target = (if t0 = [] then trimJSONStringValue (obj_index reality ''dest'') else t0);
                serverNames = normalizeRealityStringList (obj_index reality ''serverNames'');
                privateKey = trimJSONStringValue (obj_index reality ''privateKey'');
                shortIDs = normalizeRealityStringList (obj_index reality ''shortIds'')
            in if target = [] then Inl (Err ''REALITY: target/dest empty'')
               else if serverNames = [] then Inl (Err ''REALITY: serverNames empty'')
               else if privateKey = [] then Inl (Err ''REALITY: privateKey empty'')
               else if shortIDs = [] then Inl (Err ''REALITY: shortIds empty'')
               else case validateRealityShortIDs shortIDs of
                   Some e \<Rightarrow> Inl e
                 | None \<Rightarrow> Inr (normal_stream stream reality
                     (normal_reality target serverNames privateKey shortIDs reality)))"

definition stream_settings :: "protocol \<Rightarrow> string \<Rightarrow> string res" where
  "stream_settings proto text_value =
     (let raw = TrimSpace text_value in
      if raw = [] then Inr text_value
      else if \<not> Contains (ToLower raw) ''reality'' then Inr text_value
      else case decode_object raw of
          None \<Rightarrow> Inl (Err ''json: invalid stream settings'')
        | Some stream \<Rightarrow>
            if ToLower (trimJSONStringValue (obj_index stream ''security'')) \<noteq> ''reality'' then Inr text_value
            else (case reality_stream proto stream of
                Inl e \<Rightarrow> Inl e
              | Inr m \<Rightarrow> Inr (print_json (JObj m))))"

definition normalizeStreamSettings :: "inbound \<Rightarrow> inbound res" where
  "normalizeStreamSettings i = (case stream_settings (in_Protocol i) (in_StreamSettings i) of
       Inl e \<Rightarrow> Inl e
     | Inr s \<Rightarrow> Inr (i\<lparr>in_StreamSettings := s\<rparr>))"

section \<open>The inbound of the xray configuration\<close>

definition stripPanelOnlyStreamSettings :: "string \<Rightarrow> string" where
  "stripPanelOnlyStreamSettings raw =
     (let t = TrimSpace raw in
      if t = [] then raw
      else case decode_object t of
          None \<Rightarrow> raw
        | Some stream \<Rightarrow>
            if obj_get stream ''realityShare'' = None then raw
            else print_json (JObj (obj_del ''realityShare'' stream)))"

definition GenXrayInboundConfig :: "inbound \<Rightarrow> inbound_config" where
  "GenXrayInboundConfig i =
     \<lparr>ic_Listen = (if in_Listen i \<noteq> [] then quote_ch # in_Listen i @ [quote_ch] else in_Listen i),
      ic_Port = in_Port i, ic_Protocol = in_Protocol i, ic_Settings = in_Settings i,
      ic_StreamSettings = stripPanelOnlyStreamSettings (in_StreamSettings i),
      ic_Tag = in_Tag i, ic_Sniffing = in_Sniffing i\<rparr>"

section \<open>Facts on rates and limits\<close>

definition normal_units :: "string list" where
  "normal_units = [''kbit'', ''mbit'', ''gbit'', ''kbps'', ''mbps'', ''gbps'', ''kbyte/s'', ''mbyte/s'', ''gbyte/s'']"

text \<open>A rate in its normal form: digits, at most one fraction, a unit.\<close>

definition is_number :: "string \<Rightarrow> bool" where
  "is_number n \<longleftrightarrow> (\<exists>w f. w \<noteq> [] \<and> list_all is_digit w \<and> list_all is_digit f \<and>
     n = (if f = [] then w else w @ ''.'' @ f))"

definition normal_rate :: "string \<Rightarrow> bool" where
  "normal_rate r \<longleftrightarrow> r = [] \<or> (\<exists>n u. is_number n \<and> u \<in> set normal_units \<and> r = n @ u)"

lemma unit_head:
  assumes "u \<in> set rate_units"
  shows "u \<noteq> []" "\<not> is_digit (hd u)" "hd u \<noteq> CHR ''.''" "graphic (last u)" "ToLower u = u" "CHR '' '' \<notin> set u"
proof -
  have "list_all (\<lambda>u. u \<noteq> [] \<and> \<not> is_digit (hd u) \<and> hd u \<noteq> CHR ''.'' \<and> graphic (last u) \<and> ToLower u = u
    \<and> CHR '' '' \<notin> set u) rate_units" by code_simp
  with assms show "u \<noteq> []" "\<not> is_digit (hd u)" "hd u \<noteq> CHR ''.''" "graphic (last u)" "ToLower u = u" "CHR '' '' \<notin> set u"
    by (auto simp: list_all_iff)
qed

lemma lower_digit: "is_digit c \<Longrightarrow> to_lower_char c = c"
  by (simp add: to_lower_char_def is_digit_def)

lemma lower_digits: "list_all is_digit w \<Longrightarrow> ToLower w = w"
  by (induction w) (auto simp: ToLower_def lower_digit)

lemma takeWhile_digits_app: "list_all is_digit w \<Longrightarrow> r = [] \<or> \<not> is_digit (hd r) \<Longrightarrow> takeWhile is_digit (w @ r) = w"
  by (induction w; cases r) auto

lemma match_rate_number:
  assumes "is_number n" and "u = [] \<or> u \<in> set rate_units"
  shows "match_rate (n @ u) = Some (n, u)"
proof -
  obtain w f where wf: "w \<noteq> []" "list_all is_digit w" "list_all is_digit f"
    "n = (if f = [] then w else w @ ''.'' @ f)" using assms(1) by (auto simp: is_number_def)
  have lu: "ToLower u = u" and hu: "u = [] \<or> \<not> is_digit (hd u) \<and> hd u \<noteq> CHR ''.''"
    using assms(2) unit_head(2,3,5) [of u] by (auto simp: ToLower_def)
  have dd: "to_lower_char (CHR ''.'') = CHR ''.''" "\<not> is_digit (CHR ''.'')" by (simp_all add: to_lower_char_def is_digit_def)
  have ln: "ToLower (n @ u) = n @ u"
    using wf lu lower_digits [of w] lower_digits [of f] by (auto simp: ToLower_def dd)
  have np: "\<not> HasPrefix u ''.''" using hu by (cases u) (auto simp: HasPrefix_iff)
  show ?thesis
  proof (cases "f = []")
    case True
    then have n: "n = w" using wf by simp
    have "takeWhile is_digit (w @ u) = w" using wf hu by (intro takeWhile_digits_app) auto
    then show ?thesis using wf ln assms(2) np by (simp add: match_rate_def n Let_def)
  next
    case False
    then have n: "n = w @ ''.'' @ f" using wf by simp
    have t: "takeWhile is_digit (w @ CHR ''.'' # f @ u) = w" using wf dd by (intro takeWhile_digits_app) auto
    have t': "takeWhile is_digit (f @ u) = f" using wf hu by (intro takeWhile_digits_app) auto
    have p: "HasPrefix (CHR ''.'' # f @ u) ''.''" by (simp add: HasPrefix_iff)
    show ?thesis using wf ln assms(2) False unfolding match_rate_def n
      by (simp add: Let_def t t' p)
  qed
qed

lemma match_rate_Some:
  assumes "match_rate s = Some (n, u)" and low: "ToLower s = s"
  shows "is_number n \<and> (u = [] \<or> u \<in> set rate_units) \<and> s = n @ u"
proof -
  define w where "w = takeWhile is_digit s"
  define r where "r = drop (length w) s"
  define f where "f = (if HasPrefix r ''.'' then takeWhile is_digit (drop 1 r) else [])"
  define k where "k = (if f = [] then length w else length w + 1 + length f)"
  have "match_rate s = (if w \<noteq> [] \<and> (drop k s = [] \<or> drop k s \<in> set rate_units)
      then Some (take k s, drop k s) else None)"
    by (simp only: match_rate_def Let_def low w_def r_def f_def k_def)
  with assms(1) have nz: "w \<noteq> []" and nu: "u = [] \<or> u \<in> set rate_units"
    and n: "n = take k s" and u: "u = drop k s" by (auto split: if_splits)
  have s: "s = w @ r" unfolding r_def w_def by (metis append_take_drop_id takeWhile_eq_take)
  have dw: "list_all is_digit w" unfolding w_def by (metis list_all_iff set_takeWhileD)
  have "is_number n"
  proof (cases "f = []")
    case True
    then have "n = w" using n s by (simp add: k_def)
    with nz dw show ?thesis unfolding is_number_def by (intro exI [of _ w] exI [of _ "[]"]) simp
  next
    case False
    then have "HasPrefix r ''.''" by (auto simp: f_def split: if_splits)
    then obtain t where t: "r = CHR ''.'' # t" by (auto simp: HasPrefix_iff)
    then have f: "f = takeWhile is_digit t" by (simp add: f_def HasPrefix_def)
    then have df: "list_all is_digit f" by (metis list_all_iff set_takeWhileD)
    have "take (length f) t = f" unfolding f by (metis takeWhile_eq_take)
    then have "n = w @ ''.'' @ f" using n s t False by (simp add: k_def)
    with nz dw df False show ?thesis unfolding is_number_def by (intro exI [of _ w] exI [of _ f]) simp
  qed
  with nu n u show ?thesis by (metis append_take_drop_id)
qed

lemma is_number_chars: "is_number n \<Longrightarrow> c \<in> set n \<Longrightarrow> is_digit c \<or> c = CHR ''.''"
  by (auto simp: is_number_def list_all_iff split: if_splits)

lemma is_number_hd: "is_number n \<Longrightarrow> n \<noteq> [] \<and> is_digit (hd n)"
  by (auto simp: is_number_def list_all_iff neq_Nil_conv split: if_splits)

lemma normal_units_sub: "u \<in> set normal_units \<Longrightarrow> u \<in> set rate_units \<and> u \<notin> set [''kbyte'', ''mbyte'', ''gbyte'']"
proof -
  have "list_all (\<lambda>u. u \<in> set rate_units \<and> u \<notin> set [''kbyte'', ''mbyte'', ''gbyte'']) normal_units" by code_simp
  then show "u \<in> set normal_units \<Longrightarrow> u \<in> set rate_units \<and> u \<notin> set [''kbyte'', ''mbyte'', ''gbyte'']"
    by (simp add: list_all_iff)
qed

lemma lower_space_free: "set (ReplaceAll (TrimSpace (ToLower r)) '' '' []) \<subseteq> set (ToLower r) - {CHR '' ''}"
proof -
  obtain a b where "ToLower r = a @ TrimSpace (ToLower r) @ b" using TrimSpace_infix by blast
  then have "set (TrimSpace (ToLower r)) \<subseteq> set (ToLower r)" by (metis Un_iff set_append subsetI)
  then show ?thesis by (auto simp: ReplaceAll_char_Nil)
qed

lemma ToLower_fixed: "(\<And>c. c \<in> set s \<Longrightarrow> c \<in> set (ToLower r)) \<Longrightarrow> ToLower s = s"
proof -
  assume "\<And>c. c \<in> set s \<Longrightarrow> c \<in> set (ToLower r)"
  then have "to_lower_char c = c" if "c \<in> set s" for c
    using that unfolding ToLower_def set_map by (metis imageE to_lower_char_idem)
  then show ?thesis by (simp add: ToLower_def map_idI)
qed

lemma normal_rate_fixed: "normal_rate r \<Longrightarrow> normalizeRate r = r \<and> keep_rate r = r"
proof (cases "r = []")
  case True
  then show ?thesis by (simp add: normalizeRate_def keep_rate_def ToLower_def)
next
  case False
  assume "normal_rate r"
  with False obtain n u where nu: "is_number n" "u \<in> set normal_units" "r = n @ u" by (auto simp: normal_rate_def)
  note ru = normal_units_sub [OF nu(2)]
  note uh = unit_head [OF conjunct1 [OF ru]]
  have m: "match_rate r = Some (n, u)" using match_rate_number [of n u] nu ru by simp
  have low: "ToLower r = r"
  proof -
    have "to_lower_char c = c" if "c \<in> set n" for c
    proof -
      from is_number_chars [OF nu(1) that] show ?thesis
        by (elim disjE) (rule lower_digit, assumption, simp add: to_lower_char_def)
    qed
    then have "ToLower n = n" by (simp add: ToLower_def map_idI)
    with uh(5) show ?thesis by (simp add: nu(3) ToLower_def)
  qed
  have g: "graphic (hd r) \<and> graphic (last r)"
    using is_number_hd [OF nu(1)] uh(1,4) by (auto simp: nu(3) graphic_def is_digit_def)
  have sp: "CHR '' '' \<notin> set r"
    using is_number_chars [OF nu(1), of "CHR '' ''"] uh(6) by (auto simp: nu(3) is_digit_def)
  have "ReplaceAll (TrimSpace (ToLower r)) '' '' [] = r"
    using TrimSpace_graphic [of r] g sp by (auto simp: low ReplaceAll_char_Nil filter_id_conv)
  with m False ru uh(1) nu(3) show ?thesis
    by (simp add: normalizeRate_def keep_rate_def Let_def)
qed

lemma keep_normalizeRate: "normal_rate (keep_rate (normalizeRate r))"
proof -
  define x where "x = ReplaceAll (TrimSpace (ToLower r)) '' '' []"
  have low: "ToLower x = x" by (rule ToLower_fixed [of _ r]) (use lower_space_free [of r] x_def in auto)
  show ?thesis
  proof (cases "match_rate x")
    case None
    then have "normalizeRate r = x" by (simp add: normalizeRate_def x_def Let_def)
    with None show ?thesis by (simp add: keep_rate_def normal_rate_def)
  next
    case (Some nu)
    obtain n u where nu: "nu = (n, u)" by (cases nu)
    define v where "v = (let u1 = (if u = [] then ''mbit'' else u) in
      if u1 \<in> set [''kbyte'', ''mbyte'', ''gbyte''] then u1 @ ''/s'' else u1)"
    from match_rate_Some [OF Some [unfolded nu] low] have p: "is_number n" "u = [] \<or> u \<in> set rate_units" by auto
    have "list_all (\<lambda>u. (let u1 = (if u = [] then ''mbit'' else u) in
      if u1 \<in> set [''kbyte'', ''mbyte'', ''gbyte''] then u1 @ ''/s'' else u1) \<in> set normal_units) ([] # rate_units)"
      by code_simp
    then have v: "v \<in> set normal_units" using p(2) unfolding v_def list_all_iff by auto
    have "x \<noteq> []" using Some by (auto simp: match_rate_def ToLower_def)
    then have "normalizeRate r = n @ v"
      using Some nu by (simp add: normalizeRate_def x_def [symmetric] v_def Let_def)
    then have "normal_rate (normalizeRate r)" using p(1) v by (auto simp: normal_rate_def)
    then show ?thesis using normal_rate_fixed by simp
  qed
qed

definition limits_ok :: "inbound \<Rightarrow> bool" where
  "limits_ok i \<longleftrightarrow> 0 \<le> in_IPLimit i \<and> 1 \<le> in_IPTimeout i \<and> in_IPTimeout i \<le> 1440
     \<and> normal_rate (in_PortRate i) \<and> normal_rate (in_IPRate i)"

lemma normalizeLimit_ok: "limits_ok (normalizeLimit i)"
  by (simp add: limits_ok_def normalizeLimit_def Let_def keep_normalizeRate)

lemma normalizeLimit_fixed: "limits_ok i \<Longrightarrow> normalizeLimit i = i"
  by (simp add: limits_ok_def normalizeLimit_def Let_def normal_rate_fixed)

section \<open>Facts on the protocol settings\<close>

lemma nums_fit_canon: "nums_fit v \<Longrightarrow> nums_fit (canon v)"
proof (induction v rule: canon.induct)
  case (2 kvs)
  have "nums_fit w" if "(k, w) \<in> set (obj_of_members (map (\<lambda>(k, v). (k, canon v)) kvs))" for k w
    using that set_obj_of_members [of "map (\<lambda>(k, v). (k, canon v)) kvs"] 2 by (fastforce simp: list_all_iff)
  then show ?case by (auto simp: list_all_iff)
qed (auto simp: list_all_iff)

text \<open>A value in memory: canonical, with numbers and strings that JSON can carry.\<close>

definition mem_ok :: "json \<Rightarrow> bool" where
  "mem_ok v \<longleftrightarrow> canonical v \<and> nums_fit v \<and> json_ok v"

lemma decode_any_mem: "mem_ok v \<Longrightarrow> decode_any v = Some v"
  by (simp add: mem_ok_def decode_any_def canon_canonical)

lemma decode_any_ok: "decode_any v = Some w \<Longrightarrow> json_ok v \<Longrightarrow> mem_ok w"
  by (auto simp: decode_any_def mem_ok_def canonical_canon nums_fit_canon json_ok_canon split: if_splits)

lemma mem_ok_simps [simp]:
  "mem_ok JNull" "mem_ok (JBool b)" "mem_ok (JStr s) = valid_utf8 s"
  "mem_ok (JArr vs) = list_all mem_ok vs"
  "mem_ok (JObj m) \<longleftrightarrow> obj_wf m \<and> list_all (\<lambda>(k, v). valid_utf8 k \<and> mem_ok v) m"
  by (auto simp: mem_ok_def list_all_iff)

definition map_ok :: "json \<Rightarrow> bool" where
  "map_ok v \<longleftrightarrow> mem_ok v \<and> (v = JNull \<or> (\<exists>m. v = JObj m))"

lemma as_map_mem: "map_ok v \<Longrightarrow> as_map v = Some v"
  by (auto simp: map_ok_def as_map_def decode_any_mem simp del: mem_ok_simps)

lemma as_map_ok: "as_map v = Some w \<Longrightarrow> json_ok v \<Longrightarrow> map_ok w"
  using as_map_kind [of v w] decode_any_ok
  by (auto simp: map_ok_def as_map_def simp del: mem_ok_simps(3-) split: json.splits)

definition maps_ok :: "json list option \<Rightarrow> bool" where
  "maps_ok ms \<longleftrightarrow> (\<forall>vs. ms = Some vs \<longrightarrow> list_all map_ok vs)"

lemma those_map_Some: "(\<And>x. x \<in> set xs \<Longrightarrow> f x = Some x) \<Longrightarrow> those (map f xs) = Some xs"
  by (induction xs) auto

lemma those_Some: "those xs = Some ys \<Longrightarrow> y \<in> set ys \<Longrightarrow> Some y \<in> set xs"
  by (induction xs arbitrary: ys) (auto split: option.splits)

lemma as_maps_mem: "maps_ok ms \<Longrightarrow> as_maps (maps_json ms) = Some ms"
  by (cases ms) (auto simp: maps_ok_def maps_json_def as_maps_def list_all_iff as_map_mem intro: those_map_Some)

lemma as_maps_ok: "as_maps v = Some ms \<Longrightarrow> json_ok v \<Longrightarrow> maps_ok ms"
proof -
  assume a: "as_maps v = Some ms" "json_ok v"
  show "maps_ok ms"
  proof (cases v)
    case (JArr vs)
    with a obtain ws where ws: "those (map as_map vs) = Some ws" "ms = Some ws" by (auto simp: as_maps_def)
    have "map_ok w" if "w \<in> set ws" for w
      using those_Some [OF ws(1) that] a JArr as_map_ok by (auto simp: list_all_iff)
    with ws show ?thesis by (simp add: maps_ok_def list_all_iff)
  qed (use a in \<open>auto simp: as_maps_def maps_ok_def\<close>)
qed

lemma json_ok_maps: "maps_ok ms \<Longrightarrow> json_ok (maps_json ms)"
  by (cases ms) (auto simp: maps_ok_def maps_json_def map_ok_def mem_ok_def list_all_iff)

lemma last_decoded_ok:
  assumes "\<And>v x. f v = Some x \<Longrightarrow> json_ok v \<Longrightarrow> P x" and "list_all json_ok vs" and "P d"
  shows "last_decoded f d vs = Some x \<Longrightarrow> P x"
  using assms(2,3)
proof (induction vs arbitrary: d)
  case (Cons v vs)
  then obtain y where y: "f v = Some y" "last_decoded f y vs = Some x" by (auto split: option.splits)
  have "P y" by (rule assms(1) [OF y(1)]) (use Cons.prems in simp)
  with Cons y show ?case by simp
qed simp

lemma field_vals_ok: "json_ok (JObj kvs) \<Longrightarrow> list_all json_ok (field_vals name kvs)"
  by (auto simp: field_vals_def list_all_iff)

lemma get_maps_ok: "get_maps name kvs = Some ms \<Longrightarrow> json_ok (JObj kvs) \<Longrightarrow> maps_ok ms"
  unfolding get_maps_def
  by (rule last_decoded_ok [where P = maps_ok and f = as_maps, OF as_maps_ok field_vals_ok])
    (simp_all add: maps_ok_def)

lemma get_any_ok: "get_any name kvs = Some v \<Longrightarrow> json_ok (JObj kvs) \<Longrightarrow> mem_ok v"
  unfolding get_any_def
  by (rule last_decoded_ok [where P = mem_ok and f = decode_any, OF decode_any_ok field_vals_ok]) simp_all

lemma string_field_ok: "string_field d vs = Some s \<Longrightarrow> list_all json_ok vs \<Longrightarrow> valid_utf8 d \<Longrightarrow> valid_utf8 s"
  by (induction d vs rule: string_field.induct) auto

lemma get_string_ok: "get_string name kvs = Some s \<Longrightarrow> json_ok (JObj kvs) \<Longrightarrow> valid_utf8 s"
  unfolding get_string_def by (rule string_field_ok [OF _ field_vals_ok]) auto

lemma struct_members_ok: "struct_members s = Some kvs \<Longrightarrow> json_ok (JObj kvs)"
  using parse_json_ok by (fastforce simp: struct_members_def split: option.splits json.splits)

lemma struct_members_print: "json_ok (JObj kvs) \<Longrightarrow> struct_members (print_json (JObj kvs)) = Some kvs"
  by (simp add: struct_members_def js.unmarshal_marshal del: json_ok.simps print_json.simps)

lemma map_ok_drop_flow: "map_ok v \<Longrightarrow> map_ok (drop_flow v)"
  using obj_wf_del [of _ "''flow''"] by (auto simp: map_ok_def list_all_iff obj_del_def)

lemma map_ok_put: "map_ok (JObj m) \<Longrightarrow> valid_utf8 k \<Longrightarrow> mem_ok v \<Longrightarrow> map_ok (JObj (obj_put k v m))"
proof -
  assume m: "map_ok (JObj m)" and kv: "valid_utf8 k" "mem_ok v"
  have "valid_utf8 k' \<and> mem_ok v'" if "(k', v') \<in> set (obj_put k v m)" for k' v'
  proof -
    from that set_obj_put [of k v m] have "(k', v') = (k, v) \<or> (k', v') \<in> set m" by blast
    with kv m show ?thesis by (auto simp: map_ok_def list_all_iff)
  qed
  with m show ?thesis by (auto simp: map_ok_def obj_wf_put list_all_iff)
qed

lemma valid_utf8_names: "valid_utf8 ''flow''" "valid_utf8 ''127.0.0.1''"
  by code_simp+

lemma map_ok_clear_flow: "map_ok v \<Longrightarrow> map_ok (clear_flow v)"
  by (cases v) (auto simp: map_ok_put valid_utf8_names)

lemma drop_flow_idem: "map_ok v \<Longrightarrow> drop_flow (drop_flow v) = drop_flow v"
  by (auto simp: map_ok_def gm.del_del)

lemma clear_flow_idem: "clear_flow (clear_flow v) = clear_flow v"
  by (cases v) (auto simp: legacy_flow_def obj_index_put)

lemma clear_flow_none: "\<not> legacy_flow (clear_flow v)"
  by (cases v) (auto simp: legacy_flow_def obj_index_put)

lemma field_vals_trojan:
  "field_vals ''clients'' [(''clients'', a), (''fallbacks'', b)] = [a]"
  "field_vals ''fallbacks'' [(''clients'', a), (''fallbacks'', b)] = [b]"
  by (simp_all add: field_vals_def EqualFold_def ToLower_def to_lower_char_def)

lemma field_vals_vless:
  "field_vals ''clients'' [(''clients'', a), (''decryption'', d), (''fallbacks'', b)] = [a]"
  "field_vals ''decryption'' [(''clients'', a), (''decryption'', d), (''fallbacks'', b)] = [d]"
  "field_vals ''fallbacks'' [(''clients'', a), (''decryption'', d), (''fallbacks'', b)] = [b]"
  by (simp_all add: field_vals_def EqualFold_def ToLower_def to_lower_char_def)

lemma field_vals_socks:
  "field_vals ''auth'' [(''auth'', a), (''accounts'', b), (''udp'', c), (''ip'', d)] = [a]"
  "field_vals ''accounts'' [(''auth'', a), (''accounts'', b), (''udp'', c), (''ip'', d)] = [b]"
  "field_vals ''udp'' [(''auth'', a), (''accounts'', b), (''udp'', c), (''ip'', d)] = [c]"
  "field_vals ''ip'' [(''auth'', a), (''accounts'', b), (''udp'', c), (''ip'', d)] = [d]"
  by (simp_all add: field_vals_def EqualFold_def ToLower_def to_lower_char_def)

lemma valid_utf8_fields: "valid_utf8 ''clients''" "valid_utf8 ''fallbacks''" "valid_utf8 ''decryption''"
  "valid_utf8 ''auth''" "valid_utf8 ''accounts''" "valid_utf8 ''udp''" "valid_utf8 ''ip''"
  by code_simp+

definition trojan_ok :: "trojan_settings \<Rightarrow> bool" where
  "trojan_ok t \<longleftrightarrow> maps_ok (tr_Clients t) \<and> maps_ok (tr_Fallbacks t)"

definition vless_ok :: "vless_settings \<Rightarrow> bool" where
  "vless_ok t \<longleftrightarrow> maps_ok (vl_Clients t) \<and> valid_utf8 (vl_Decryption t) \<and> maps_ok (vl_Fallbacks t)"

definition socks_ok :: "socks_settings \<Rightarrow> bool" where
  "socks_ok t \<longleftrightarrow> valid_utf8 (so_Auth t) \<and> maps_ok (so_Accounts t) \<and> mem_ok (so_Udp t) \<and> valid_utf8 (so_IP t)"

lemma decode_encode_trojan: "trojan_ok t \<Longrightarrow> decode_trojan (print_json (encode_trojan t)) = Some t"
  by (simp add: trojan_ok_def decode_trojan_def encode_trojan_def struct_members_print valid_utf8_fields
      json_ok_maps get_maps_def field_vals_trojan as_maps_mem del: print_json.simps)

lemma decode_encode_vless: "vless_ok t \<Longrightarrow> decode_vless (print_json (encode_vless t)) = Some t"
  by (simp add: vless_ok_def decode_vless_def encode_vless_def struct_members_print valid_utf8_fields
      json_ok_maps get_maps_def get_string_def field_vals_vless as_maps_mem del: print_json.simps)

lemma decode_encode_socks: "socks_ok t \<Longrightarrow> decode_socks (print_json (encode_socks t)) = Some t"
proof -
  assume ok: "socks_ok t"
  then have "json_ok (so_Udp t)" by (simp add: socks_ok_def mem_ok_def)
  with ok show ?thesis
    by (simp add: socks_ok_def decode_socks_def encode_socks_def struct_members_print valid_utf8_fields
      json_ok_maps get_maps_def get_string_def get_any_def field_vals_socks as_maps_mem decode_any_mem
      del: print_json.simps)
qed

lemma decode_trojan_ok: "decode_trojan s = Some t \<Longrightarrow> trojan_ok t"
  using struct_members_ok get_maps_ok
  by (auto simp: decode_trojan_def trojan_ok_def simp del: json_ok.simps split: option.splits)

lemma decode_vless_ok: "decode_vless s = Some t \<Longrightarrow> vless_ok t"
  using struct_members_ok get_maps_ok get_string_ok
  by (fastforce simp: decode_vless_def vless_ok_def simp del: json_ok.simps split: option.splits)

lemma decode_socks_ok: "decode_socks s = Some t \<Longrightarrow> socks_ok t"
  using struct_members_ok get_maps_ok get_string_ok get_any_ok
  by (fastforce simp: decode_socks_def socks_ok_def simp del: json_ok.simps split: option.splits)

lemma normal_trojan_ok: "trojan_ok t \<Longrightarrow> trojan_ok (normal_trojan t) \<and> normal_trojan (normal_trojan t) = normal_trojan t"
  by (cases t) (auto simp: trojan_ok_def normal_trojan_def maps_ok_def map_ok_drop_flow drop_flow_idem list_all_iff
      option.map_comp comp_def option.map_ident_strong intro!: option.map_cong)

lemma normal_vless_ok: "vless_ok t \<Longrightarrow> vless_ok (normal_vless t) \<and> normal_vless (normal_vless t) = normal_vless t"
  by (cases t) (auto simp: vless_ok_def normal_vless_def maps_ok_def map_ok_clear_flow clear_flow_idem list_all_iff
      option.map_comp comp_def)

lemma auth_words: "TrimSpace (ToLower ''password'') = ''password''" "TrimSpace (ToLower ''noauth'') = ''noauth''"
  "TrimSpace ''127.0.0.1'' = ''127.0.0.1''" "valid_utf8 ''password''" "valid_utf8 ''noauth''"
  by code_simp+

lemma normalizeSocksAuth_cases: "normalizeSocksAuth a b = ''password'' \<or> normalizeSocksAuth a b = ''noauth''"
  by (simp add: normalizeSocksAuth_def Let_def)

lemma normalizeSocksAuth_word: "normalizeSocksAuth ''password'' b = ''password''" "normalizeSocksAuth ''noauth'' b = ''noauth''"
  by (simp_all add: normalizeSocksAuth_def auth_words Let_def)

lemma normal_socks_ok: "socks_ok t \<Longrightarrow> socks_ok (normal_socks t) \<and> normal_socks (normal_socks t) = normal_socks t"
proof -
  assume ok: "socks_ok t"
  define a where "a = normalizeSocksAuth (so_Auth t) (case so_Accounts t of None \<Rightarrow> False | Some as \<Rightarrow> as \<noteq> [])"
  have a: "a = ''password'' \<or> a = ''noauth''" unfolding a_def by (rule normalizeSocksAuth_cases)
  have n: "normal_socks t = \<lparr>so_Auth = a, so_Accounts = (if a \<noteq> ''password'' then None else so_Accounts t),
      so_Udp = JBool (normalizeSocksUDPValue (so_Udp t)), so_IP = (if TrimSpace (so_IP t) = [] then ''127.0.0.1'' else so_IP t)\<rparr>"
    by (simp add: normal_socks_def Let_def a_def)
  have "normalizeSocksAuth a b = a" for b using a normalizeSocksAuth_word by blast
  then have "normal_socks (normal_socks t) = normal_socks t"
    unfolding n by (simp add: normal_socks_def Let_def auth_words normalizeSocksUDPValue_def)
  moreover have "socks_ok (normal_socks t)"
    using ok a unfolding n by (auto simp: socks_ok_def auth_words valid_utf8_names maps_ok_def)
  ultimately show ?thesis by blast
qed

lemma TrimSpace_object: "TrimSpace (print_json (JObj kvs)) = print_json (JObj kvs)"
  by (rule TrimSpace_graphic) (simp add: graphic_def)

lemma protocol_settings_idem: "protocol_settings pr (protocol_settings pr raw) = protocol_settings pr raw"
proof -
  let ?s = "TrimSpace raw"
  have t: "TrimSpace (print_json (encode_trojan x)) = print_json (encode_trojan x)"
    "TrimSpace (print_json (encode_vless y)) = print_json (encode_vless y)"
    "TrimSpace (print_json (encode_socks z)) = print_json (encode_socks z)" for x y z
    by (simp_all only: encode_trojan_def encode_vless_def encode_socks_def TrimSpace_object)
  have ne: "print_json (encode_trojan x) \<noteq> []" "print_json (encode_vless y) \<noteq> []" "print_json (encode_socks z) \<noteq> []" for x y z
    by (simp_all add: encode_trojan_def encode_vless_def encode_socks_def)
  show ?thesis
  proof (cases "?s = []")
    case True
    then show ?thesis by (simp add: protocol_settings_def)
  next
    case False
    consider "pr = Trojan" | "pr = VLESS" | "pr = Socks \<or> pr = Mixed" | "pr \<notin> set [Trojan, VLESS, Socks, Mixed]" by auto
    then show ?thesis
    proof cases
      case 1
      show ?thesis
      proof (cases "decode_trojan ?s")
        case (Some x)
        from normal_trojan_ok [OF decode_trojan_ok [OF Some]] have
          "decode_trojan (print_json (encode_trojan (normal_trojan x))) = Some (normal_trojan x)"
          "normal_trojan (normal_trojan x) = normal_trojan x" using decode_encode_trojan by auto
        then show ?thesis using 1 False Some by (simp add: protocol_settings_def t ne)
      qed (use 1 False in \<open>simp add: protocol_settings_def\<close>)
    next
      case 2
      show ?thesis
      proof (cases "decode_vless ?s")
        case (Some x)
        from normal_vless_ok [OF decode_vless_ok [OF Some]] have
          "decode_vless (print_json (encode_vless (normal_vless x))) = Some (normal_vless x)"
          "normal_vless (normal_vless x) = normal_vless x" using decode_encode_vless by auto
        then show ?thesis using 2 False Some by (simp add: protocol_settings_def t ne)
      qed (use 2 False in \<open>simp add: protocol_settings_def\<close>)
    next
      case 3
      then have np: "pr \<noteq> Trojan" "pr \<noteq> VLESS" by auto
      show ?thesis
      proof (cases "decode_socks ?s")
        case (Some x)
        from normal_socks_ok [OF decode_socks_ok [OF Some]] have
          "decode_socks (print_json (encode_socks (normal_socks x))) = Some (normal_socks x)"
          "normal_socks (normal_socks x) = normal_socks x" using decode_encode_socks by auto
        then show ?thesis using 3 np False Some by (simp add: protocol_settings_def t ne)
      qed (use 3 np False in \<open>simp add: protocol_settings_def\<close>)
    next
      case 4
      then have "protocol_settings pr raw = raw" by (simp add: protocol_settings_def Let_def)
      then show ?thesis by simp
    qed
  qed
qed

section \<open>Facts on the stream settings\<close>

lemma length_nat_str: "0 < d \<Longrightarrow> k < 10 ^ d \<Longrightarrow> length (nat_str k) \<le> d"
proof (induction d arbitrary: k)
  case (Suc d)
  show ?case
  proof (cases "k < 10")
    case True
    then show ?thesis by (simp add: nat_str.simps [of k])
  next
    case False
    with Suc.prems have "k div 10 < 10 ^ d" "0 < d" by (cases d; auto)+
    with Suc.IH False show ?thesis by (simp add: nat_str.simps [of k])
  qed
qed simp

lemma num_fits_norm10: "num_fits m e \<Longrightarrow> num_fits (fst (norm10 m e)) (snd (norm10 m e))"
proof (induction m e rule: norm10.induct)
  case (1 m e)
  show ?case
  proof (cases "m \<noteq> 0 \<and> m mod 10 = 0")
    case True
    then have "nat \<bar>m\<bar> div 10 = nat \<bar>m div 10\<bar>" "10 \<le> \<bar>m\<bar>" by auto
    then have "length (nat_str (nat \<bar>m\<bar>)) = Suc (length (nat_str (nat \<bar>m div 10\<bar>)))"
      by (simp add: nat_str.simps [of "nat \<bar>m\<bar>"])
    with 1 True show ?thesis by (auto simp: norm10.simps [of m e] num_fits_def)
  next
    case False
    with 1 show ?thesis by (auto simp: norm10.simps [of m e] num_fits_def)
  qed
qed

lemma mem_ok_mk_num: "in_int64 n \<Longrightarrow> mem_ok (mk_num n 0)"
proof -
  assume "in_int64 n"
  then have "nat \<bar>n\<bar> < 10 ^ 19" by (auto simp: in_int64_def min_int64_def max_int64_def)
  then have "length (nat_str (nat \<bar>n\<bar>)) \<le> 19" by (intro length_nat_str) auto
  then have "num_fits n 0" by (simp add: num_fits_def)
  from num_fits_norm10 [OF this] num_normal_norm10 [of n 0] show ?thesis
    by (auto simp: mk_num_def mem_ok_def split: prod.split)
qed

lemma decode_object_ok: "decode_object s = Some m \<Longrightarrow> map_ok (JObj m)"
  using parse_json_ok [of s] as_map_ok
  by (fastforce simp: decode_object_def map_ok_def split: option.splits json.splits)

lemma decode_object_print: "map_ok (JObj m) \<Longrightarrow> decode_object (print_json (JObj m)) = Some m"
  by (simp add: decode_object_def js.unmarshal_marshal as_map_mem map_ok_def mem_ok_def
      del: print_json.simps mem_ok_simps json_ok.simps canonical.simps nums_fit.simps)

lemma decode_object_trim: "map_ok (JObj m) \<Longrightarrow> decode_object (TrimSpace (print_json (JObj m))) = Some m"
  by (simp only: TrimSpace_object decode_object_print)

lemma map_ok_del: "map_ok (JObj m) \<Longrightarrow> map_ok (JObj (obj_del k m))"
  using obj_wf_del [of m k] by (auto simp: map_ok_def list_all_iff obj_del_def)

lemma strip_decodes:
  "decode_object (TrimSpace (stripPanelOnlyStreamSettings raw))
     = map_option (obj_del ''realityShare'') (decode_object (TrimSpace raw))"
proof (cases "decode_object (TrimSpace raw)")
  case None
  have "stripPanelOnlyStreamSettings raw = raw"
    using None by (cases "TrimSpace raw = []") (simp_all add: stripPanelOnlyStreamSettings_def Let_def)
  with None show ?thesis by simp
next
  case (Some m)
  have ne: "TrimSpace raw \<noteq> []"
  proof
    assume "TrimSpace raw = []"
    with Some have "decode_object [] = Some m" by simp
    moreover have "decode_object [] = None" by code_simp
    ultimately show False by simp
  qed
  from decode_object_ok [OF Some] have ok: "map_ok (JObj m)" .
  then have wf: "obj_wf m" by (simp add: map_ok_def)
  show ?thesis
  proof (cases "obj_get m ''realityShare''")
    case None
    with Some ne gm.del_absent [OF wf None] show ?thesis
      by (simp add: stripPanelOnlyStreamSettings_def Let_def)
  next
    case (Some v)
    with \<open>decode_object (TrimSpace raw) = Some m\<close> ne map_ok_del [OF ok]
    show ?thesis by (simp add: stripPanelOnlyStreamSettings_def Let_def decode_object_trim del: print_json.simps)
  qed
qed

lemma strip_idem: "stripPanelOnlyStreamSettings (stripPanelOnlyStreamSettings raw) = stripPanelOnlyStreamSettings raw"
proof (cases "decode_object (TrimSpace (stripPanelOnlyStreamSettings raw))")
  case (Some m)
  with strip_decodes [of raw] have "obj_get m ''realityShare'' = None"
    by (cases "decode_object (TrimSpace raw)") (simp_all add: gm.get_del)
  with Some show ?thesis by (simp add: stripPanelOnlyStreamSettings_def [of "stripPanelOnlyStreamSettings raw"] Let_def)
qed (simp add: stripPanelOnlyStreamSettings_def [of "stripPanelOnlyStreamSettings raw"] Let_def)

text \<open>Stream settings that xray accepts for REALITY.\<close>

definition short_id_ok :: "string \<Rightarrow> bool" where
  "short_id_ok t \<longleftrightarrow> t \<noteq> [] \<and> length t \<le> 16 \<and> even (length t) \<and> list_all is_hex_char t"

definition reality_ok :: "obj \<Rightarrow> bool" where
  "reality_ok m \<longleftrightarrow> obj_get m ''network'' = Some (JStr ''tcp'') \<and> obj_get m ''security'' = Some (JStr ''reality'')
     \<and> plain_tcp m \<and> (\<exists>r target names key ids.
        obj_get m ''realitySettings'' = Some (JObj r)
        \<and> obj_get r ''target'' = Some (JStr target) \<and> target \<noteq> [] \<and> TrimSpace target = target
        \<and> obj_get r ''serverNames'' = Some (JArr (map JStr names)) \<and> names \<noteq> [] \<and> [] \<notin> set names
        \<and> obj_get r ''privateKey'' = Some (JStr key) \<and> key \<noteq> [] \<and> TrimSpace key = key
        \<and> obj_get r ''shortIds'' = Some (JArr (map JStr ids)) \<and> ids \<noteq> [] \<and> list_all short_id_ok ids)"

lemma validateRealityShortIDs_None: "validateRealityShortIDs ids = None \<longleftrightarrow> list_all short_id_ok ids"
  by (induction ids) (auto simp: short_id_ok_def even_iff_mod_2_eq_zero)

lemma non_empty_trimmed_ok: "[] \<notin> set (normalizeRealityStringList v)"
  by (auto simp: normalizeRealityStringList_def non_empty_trimmed_def split: json.splits)

lemma trimmed_fixed: "TrimSpace (trimJSONStringValue v) = trimJSONStringValue v"
  by (auto simp: trimJSONStringValue_def split: option.split)

lemma normal_reality_get:
  "obj_get (normal_reality target names key ids r) ''target'' = Some (JStr target)"
  "obj_get (normal_reality target names key ids r) ''serverNames'' = Some (JArr (map JStr names))"
  "obj_get (normal_reality target names key ids r) ''privateKey'' = Some (JStr key)"
  "obj_get (normal_reality target names key ids r) ''shortIds'' = Some (JArr (map JStr ids))"
  by (simp_all add: normal_reality_def Let_def obj_get_of_members obj_get_put split: option.split)

lemma normal_stream_get:
  "obj_get (normal_stream s r n) ''network'' = Some (JStr ''tcp'')"
  "obj_get (normal_stream s r n) ''security'' = Some (JStr ''reality'')"
  "obj_get (normal_stream s r n) ''realitySettings'' = Some (JObj n)"
  "obj_get (normal_stream s r n) ''tcpSettings'' = (case is_object (obj_index s ''tcpSettings'') of
     None \<Rightarrow> None | Some tcp \<Rightarrow> if tcp \<noteq> [] then Some (JObj tcp) else None)"
  by (auto simp: normal_stream_def Let_def obj_get_of_members obj_get_put split: option.split)

lemma reality_stream_ok: "reality_stream pr s = Inr m \<Longrightarrow> pr = VLESS \<and> reality_ok m"
proof -
  assume a: "reality_stream pr s = Inr m"
  then obtain r target names key ids where
    m: "m = normal_stream s r (normal_reality target names key ids r)" "pr = VLESS" "plain_tcp s"
    and t: "target \<noteq> []" "TrimSpace target = target" and n: "names \<noteq> []" "[] \<notin> set names"
    and k: "key \<noteq> []" "TrimSpace key = key" and i: "ids \<noteq> []" "list_all short_id_ok ids"
    using non_empty_trimmed_ok trimmed_fixed
    by (auto simp: reality_stream_def Let_def validateRealityShortIDs_None split: if_splits option.splits)
  have "plain_tcp m"
  proof (cases "is_object (obj_index s ''tcpSettings'')")
    case None
    then have "obj_index m ''tcpSettings'' = JNull" by (simp add: m(1) obj_index_def normal_stream_get)
    then show ?thesis by (simp add: plain_tcp_def)
  next
    case (Some tcp)
    then have "obj_index m ''tcpSettings'' = (if tcp \<noteq> [] then JObj tcp else JNull)"
      by (simp add: m(1) obj_index_def normal_stream_get)
    with m(3) Some show ?thesis by (simp add: plain_tcp_def)
  qed
  with m t n k i show ?thesis unfolding reality_ok_def
    by (simp add: normal_stream_get normal_reality_get) blast
qed

lemma stream_settings_cases: "stream_settings pr s = Inr s' \<Longrightarrow>
    s' = s \<or> (pr = VLESS \<and> (\<exists>m. reality_ok m \<and> s' = print_json (JObj m)))"
  using reality_stream_ok
  by (fastforce simp: stream_settings_def Let_def simp del: print_json.simps split: if_splits option.splits sum.splits)

section \<open>Properties\<close>

text \<open>\<open>normalizeLimit\<close> puts the limits of every inbound into their range, the rates into
  their normal form, and does nothing to an inbound it has normalised.\<close>

theorem normalizeLimit_normal:
  "limits_ok (normalizeLimit i) \<and> normalizeLimit (normalizeLimit i) = normalizeLimit i"
  by (simp add: normalizeLimit_ok normalizeLimit_fixed)

text \<open>The normalisation of the protocol settings, for any protocol and any text, is idempotent.\<close>

theorem protocol_settings_twice:
  "protocol_settings proto (protocol_settings proto raw) = protocol_settings proto raw"
  by (rule protocol_settings_idem)

lemma trojan_text: "TrimSpace raw \<noteq> [] \<Longrightarrow> decode_trojan (TrimSpace raw) = Some t \<Longrightarrow>
    decode_trojan (protocol_settings Trojan raw) = Some (normal_trojan t)"
  using decode_trojan_ok [of "TrimSpace raw" t] normal_trojan_ok [of t]
  by (simp add: protocol_settings_def Let_def decode_encode_trojan)

lemma vless_text: "TrimSpace raw \<noteq> [] \<Longrightarrow> decode_vless (TrimSpace raw) = Some t \<Longrightarrow>
    decode_vless (protocol_settings VLESS raw) = Some (normal_vless t)"
  using decode_vless_ok [of "TrimSpace raw" t] normal_vless_ok [of t]
  by (simp add: protocol_settings_def Let_def decode_encode_vless)

lemma drop_flow_gone: "map_ok v \<Longrightarrow> drop_flow v = JObj m \<Longrightarrow> obj_get m ''flow'' = None"
  by (auto simp: map_ok_def gm.get_del)

definition clients_of :: "json list option \<Rightarrow> json list" where
  "clients_of ms = (case ms of None \<Rightarrow> [] | Some vs \<Rightarrow> vs)"

text \<open>of Trojan settings that decode, no client keeps a flow once normalised; the number of
  clients and the fallbacks are untouched.\<close>

theorem no_flow_stored:
  assumes "decode_trojan (TrimSpace raw) = Some t" and "TrimSpace raw \<noteq> []"
  shows "\<exists>u. decode_trojan (protocol_settings Trojan raw) = Some u
     \<and> (\<forall>m. JObj m \<in> set (clients_of (tr_Clients u)) \<longrightarrow> obj_get m ''flow'' = None)
     \<and> length (clients_of (tr_Clients u)) = length (clients_of (tr_Clients t))
     \<and> tr_Fallbacks u = tr_Fallbacks t"
proof (intro exI conjI allI impI)
  show "decode_trojan (protocol_settings Trojan raw) = Some (normal_trojan t)"
    by (rule trojan_text) fact+
  fix m assume "JObj m \<in> set (clients_of (tr_Clients (normal_trojan t)))"
  then obtain v vs where v: "tr_Clients t = Some vs" "v \<in> set vs" "drop_flow v = JObj m"
    by (cases "tr_Clients t") (auto simp: clients_of_def normal_trojan_def dest: sym)
  with decode_trojan_ok [OF assms(1)] have "map_ok v" by (simp add: trojan_ok_def maps_ok_def list_all_iff)
  with v show "obj_get m ''flow'' = None" by (intro drop_flow_gone)
qed (auto simp: normal_trojan_def clients_of_def split: option.split)

definition trojan_text_sample :: string where
  "trojan_text_sample = '' {\"clients\":[{\"password\":\"p\",\"flow\":\"xtls-rprx-direct\"}]}''"

theorem no_flow_stored_witness:
  "\<exists>u. decode_trojan (protocol_settings Trojan trojan_text_sample) = Some u
     \<and> (\<forall>m. JObj m \<in> set (clients_of (tr_Clients u)) \<longrightarrow> obj_get m ''flow'' = None)"
proof -
  have n: "TrimSpace trojan_text_sample \<noteq> []" by code_simp
  have "decode_trojan (TrimSpace trojan_text_sample) = Some \<lparr>tr_Clients = Some
     [JObj [(''flow'', JStr ''xtls-rprx-direct''), (''password'', JStr ''p'')]], tr_Fallbacks = None\<rparr>" by code_simp
  from no_flow_stored [OF this n] show ?thesis by blast
qed

text \<open>No VLESS client keeps a flow of the legacy XTLS; the rest of the settings is untouched.\<close>

theorem no_legacy_flow_stored:
  assumes "decode_vless (TrimSpace raw) = Some t" and "TrimSpace raw \<noteq> []"
  shows "\<exists>u. decode_vless (protocol_settings VLESS raw) = Some u
     \<and> (\<forall>v \<in> set (clients_of (vl_Clients u)). \<not> legacy_flow v)
     \<and> length (clients_of (vl_Clients u)) = length (clients_of (vl_Clients t))
     \<and> vl_Decryption u = vl_Decryption t \<and> vl_Fallbacks u = vl_Fallbacks t"
  using vless_text [OF assms(2,1)] clear_flow_none
  by (auto simp: normal_vless_def clients_of_def split: option.split)

definition vless_text_sample :: string where
  "vless_text_sample = ''{\"clients\":[{\"id\":\"a\",\"flow\":\"xtls-rprx-origin\"}],\"decryption\":\"none\"}''"

theorem no_legacy_flow_stored_witness:
  "\<exists>u. decode_vless (protocol_settings VLESS vless_text_sample) = Some u
     \<and> (\<forall>v \<in> set (clients_of (vl_Clients u)). \<not> legacy_flow v) \<and> vl_Decryption u = ''none''"
proof -
  have n: "TrimSpace vless_text_sample \<noteq> []" by code_simp
  have "decode_vless (TrimSpace vless_text_sample) = Some \<lparr>vl_Clients = Some
     [JObj [(''flow'', JStr ''xtls-rprx-origin''), (''id'', JStr ''a'')]], vl_Decryption = ''none'',
     vl_Fallbacks = None\<rparr>" by code_simp
  from no_legacy_flow_stored [OF this n] show ?thesis by auto
qed

text \<open>What reaches xray of the stream settings is the stored object without \<open>realityShare\<close>;
  a text that is no object reaches it as it is.\<close>

theorem share_stripped:
  "decode_object (TrimSpace (ic_StreamSettings (GenXrayInboundConfig i)))
     = map_option (obj_del ''realityShare'') (decode_object (TrimSpace (in_StreamSettings i)))"
  by (simp add: GenXrayInboundConfig_def strip_decodes)

text \<open>C28: the stream settings that are stored are the given text, or those of a VLESS inbound
  that satisfy every demand of REALITY.\<close>

theorem reality_or_unchanged:
  assumes "normalizeStreamSettings i = Inr j"
  shows "j = i \<or> (in_Protocol i = VLESS
     \<and> (\<exists>m. reality_ok m \<and> j = i\<lparr>in_StreamSettings := print_json (JObj m)\<rparr>))"
  using assms stream_settings_cases [of "in_Protocol i" "in_StreamSettings i"]
  by (auto simp: normalizeStreamSettings_def simp del: print_json.simps split: sum.splits)

definition zero_inbound :: inbound where
  "zero_inbound = \<lparr>in_Id = 0, in_UserId = 0, in_Up = 0, in_Down = 0, in_Total = 0, in_Remark = [],
     in_Enable = False, in_ExpiryTime = 0, in_IPLimit = 0, in_IPTimeout = 0, in_PortRate = [], in_IPRate = [],
     in_Listen = [], in_Port = 0, in_Protocol = [], in_Settings = [], in_StreamSettings = [], in_Tag = [],
     in_Sniffing = []\<rparr>"

definition reality_text_sample :: string where
  "reality_text_sample = ''{\"network\":\"tcp\",\"security\":\"reality\",\"realitySettings\":{\"dest\":\"a.com:443\",'' @
     ''\"serverNames\":[\"a.com\"],\"privateKey\":\"k\",\"shortIds\":\"ab\"}}''"

definition reality_sample :: inbound where
  "reality_sample = zero_inbound\<lparr>in_Protocol := VLESS, in_StreamSettings := reality_text_sample\<rparr>"

theorem reality_or_unchanged_witness:
  "\<exists>j m. normalizeStreamSettings reality_sample = Inr j \<and> reality_ok m
     \<and> j = reality_sample\<lparr>in_StreamSettings := print_json (JObj m)\<rparr>"
proof -
  have "case normalizeStreamSettings reality_sample of Inl e \<Rightarrow> False
      | Inr j \<Rightarrow> in_StreamSettings j \<noteq> in_StreamSettings reality_sample" by code_simp
  then obtain j where j: "normalizeStreamSettings reality_sample = Inr j" "j \<noteq> reality_sample"
    by (auto split: sum.splits)
  with reality_or_unchanged [OF j(1)] show ?thesis by blast
qed

end
