(* ===== verification/Inbounds.thy ===== *)
theory Inbounds
  imports Inbound_Normalize
begin

text \<open>
  The operations of src/web/service/inbound.go on the table of inbounds, and the
  clean-up of old settings that src/database/db.go runs at start.  The unique
  columns are the port and the tag; \<open>Save\<close> of gorm inserts a row whose id is zero
  or free and overwrites the row that has the id.
\<close>

section \<open>Statements\<close>

definition insert_inbound :: "inbound \<Rightarrow> database \<Rightarrow> unit res \<times> database" where
  "insert_inbound r d =
     (if list_ex (\<lambda>x. in_Port x = in_Port r \<or> in_Tag x = in_Tag r) (tbl_inbounds d)
      then (Inl (DbErr ''UNIQUE constraint failed: inbounds''), d)
      else case insert_row in_Id (\<lambda>i r. r\<lparr>in_Id := i\<rparr>)
             (r\<lparr>in_IPTimeout := (if in_IPTimeout r = 0 then 5 else in_IPTimeout r)\<rparr>) (tbl_inbounds d) of
          Inl e \<Rightarrow> (Inl e, d)
        | Inr (r', rows) \<Rightarrow> (Inr (), d\<lparr>tbl_inbounds := rows\<rparr>))"

definition overwrite_inbound :: "inbound \<Rightarrow> database \<Rightarrow> unit res \<times> database" where
  "overwrite_inbound r d =
     (if list_ex (\<lambda>x. (in_Port x = in_Port r \<or> in_Tag x = in_Tag r) \<and> in_Id x \<noteq> in_Id r) (tbl_inbounds d)
      then (Inl (DbErr ''UNIQUE constraint failed: inbounds''), d)
      else (Inr (), d\<lparr>tbl_inbounds := update_rows (\<lambda>x. in_Id x = in_Id r) (\<lambda>_. r) (tbl_inbounds d)\<rparr>))"

definition save_inbound :: "inbound \<Rightarrow> database \<Rightarrow> unit res \<times> database" where
  "save_inbound r d =
     (if in_Id r \<noteq> 0 \<and> row_by_id in_Id (in_Id r) (tbl_inbounds d) \<noteq> None
      then overwrite_inbound r d else insert_inbound r d)"

definition update_inbounds :: "(inbound \<Rightarrow> bool) \<Rightarrow> (inbound \<Rightarrow> inbound) \<Rightarrow> database \<Rightarrow> nat res \<times> database" where
  "update_inbounds P f d = (Inr (length (filter P (tbl_inbounds d))),
     d\<lparr>tbl_inbounds := update_rows P f (tbl_inbounds d)\<rparr>)"

definition find_inbounds :: "(inbound \<Rightarrow> bool) \<Rightarrow> (panel, inbound list) act" where
  "find_inbounds P = query Conn (\<lambda>d. Inr (filter P (tbl_inbounds d)))"

section \<open>The service\<close>

definition GetInbounds :: "int \<Rightarrow> (panel, inbound list) act" where
  "GetInbounds userId = andThen (attempt (find_inbounds (\<lambda>i. in_UserId i = userId))) (\<lambda>r. case r of
       Inl e \<Rightarrow> if e \<noteq> NotFound then throw e else ret []
     | Inr is' \<Rightarrow> ret is')"

definition GetAllInbounds :: "(panel, inbound list) act" where
  "GetAllInbounds = andThen (attempt (find_inbounds (\<lambda>i. True))) (\<lambda>r. case r of
       Inl e \<Rightarrow> if e \<noteq> NotFound then throw e else ret []
     | Inr is' \<Rightarrow> ret is')"

definition checkPortExist :: "int \<Rightarrow> int \<Rightarrow> (panel, bool) act" where
  "checkPortExist port ignoreId = query Conn (\<lambda>d. Inr (list_ex (\<lambda>i. in_Port i = port \<and>
     (0 < ignoreId \<longrightarrow> in_Id i \<noteq> ignoreId)) (tbl_inbounds d)))"

definition port_exists :: "int \<Rightarrow> err" where
  "port_exists port = ErrArg ''port exists:'' (Itoa port)"

definition normal_inbound :: "inbound \<Rightarrow> inbound res" where
  "normal_inbound i = normalizeStreamSettings (normalizeProtocolSettings (normalizeLimit i))"

definition AddInbound :: "inbound \<Rightarrow> (panel, unit) act" where
  "AddInbound inbound0 =
     andThen (lift_res (normal_inbound inbound0)) (\<lambda>i.
     andThen (checkPortExist (in_Port i) 0) (\<lambda>exist.
     andThen (reject exist (port_exists (in_Port i))) (\<lambda>_.
     stmt Conn (save_inbound i))))"

fun check_inbounds :: "inbound list \<Rightarrow> (panel, inbound list) act" where
  "check_inbounds [] = ret []"
| "check_inbounds (inbound0 # is') =
     andThen (lift_res (normal_inbound inbound0)) (\<lambda>i.
     andThen (checkPortExist (in_Port i) 0) (\<lambda>exist.
     andThen (reject exist (port_exists (in_Port i))) (\<lambda>_.
     andThen (check_inbounds is') (\<lambda>js. ret (i # js)))))"

text \<open>The deferred function commits without looking at the error of the commit.\<close>

definition AddInbounds :: "inbound list \<Rightarrow> (panel, unit) act" where
  "AddInbounds is0 =
     andThen (check_inbounds is0) (\<lambda>is'.
     andThen begin_tx (\<lambda>_.
     andThen (or_rollback (for_each (\<lambda>i. stmt Tx (save_inbound i)) is')) (\<lambda>_.
     andThen (attempt commit_tx) (\<lambda>_. ret ()))))"

definition DelInbound :: "int \<Rightarrow> (panel, unit) act" where
  "DelInbound i = stmt Conn (\<lambda>d. (Inr (), d\<lparr>tbl_inbounds := delete_rows (\<lambda>r. in_Id r = i) (tbl_inbounds d)\<rparr>))"

definition GetInbound :: "int \<Rightarrow> (panel, inbound) act" where
  "GetInbound i = query Conn (\<lambda>d. case row_by_id in_Id i (tbl_inbounds d) of
       None \<Rightarrow> Inl NotFound | Some r \<Rightarrow> Inr r)"

definition inbound_tag :: "int \<Rightarrow> string" where
  "inbound_tag port = ''inbound-'' @ Itoa port"

definition merge_inbound :: "inbound \<Rightarrow> inbound \<Rightarrow> inbound" where
  "merge_inbound old i = old\<lparr>in_Up := in_Up i, in_Down := in_Down i, in_Total := in_Total i,
     in_Remark := in_Remark i, in_Enable := in_Enable i, in_ExpiryTime := in_ExpiryTime i,
     in_IPLimit := in_IPLimit i, in_IPTimeout := in_IPTimeout i, in_PortRate := in_PortRate i,
     in_IPRate := in_IPRate i, in_Listen := in_Listen i, in_Port := in_Port i,
     in_Protocol := in_Protocol i, in_Settings := in_Settings i,
     in_StreamSettings := in_StreamSettings i, in_Sniffing := in_Sniffing i,
     in_Tag := inbound_tag (in_Port i)\<rparr>"

definition UpdateInbound :: "inbound \<Rightarrow> (panel, unit) act" where
  "UpdateInbound inbound0 =
     andThen (lift_res (normal_inbound inbound0)) (\<lambda>i.
     andThen (checkPortExist (in_Port i) (in_Id i)) (\<lambda>exist.
     andThen (reject exist (port_exists (in_Port i))) (\<lambda>_.
     andThen (GetInbound (in_Id i)) (\<lambda>oldInbound.
     stmt Conn (save_inbound (merge_inbound oldInbound i))))))"

definition add_up :: "traffic \<Rightarrow> database \<Rightarrow> nat res \<times> database" where
  "add_up t = update_inbounds (\<lambda>i. in_Tag i = t_Tag t) (\<lambda>i. i\<lparr>in_Up := in_Up i + t_Up t\<rparr>)"

definition add_down :: "traffic \<Rightarrow> database \<Rightarrow> nat res \<times> database" where
  "add_down t = update_inbounds (\<lambda>i. in_Tag i = t_Tag t) (\<lambda>i. i\<lparr>in_Down := in_Down i + t_Down t\<rparr>)"

definition add_one_traffic :: "traffic \<Rightarrow> (panel, unit) act" where
  "add_one_traffic t =
     (if t_IsInbound t
      then andThen (stmt Tx (add_up t)) (\<lambda>_. andThen (stmt Tx (add_down t)) (\<lambda>_. ret ()))
      else ret ())"

definition AddTraffic :: "traffic list \<Rightarrow> (panel, unit) act" where
  "AddTraffic traffics =
     (if traffics = [] then ret ()
      else andThen begin_tx (\<lambda>_.
        andThen (or_rollback (for_each add_one_traffic traffics)) (\<lambda>_.
        andThen (attempt commit_tx) (\<lambda>_. ret ()))))"

definition invalid_inbound :: "int \<Rightarrow> inbound \<Rightarrow> bool" where
  "invalid_inbound t i \<longleftrightarrow>
     ((0 < in_Total i \<and> in_Total i \<le> in_Up i + in_Down i)
        \<or> (0 < in_ExpiryTime i \<and> in_ExpiryTime i \<le> t)) \<and> in_Enable i"

definition DisableInvalidInbounds :: "(panel, nat) act" where
  "DisableInvalidInbounds =
     andThen (gets (\<lambda>s. clock_now s div 1000 * 1000)) (\<lambda>t.
     stmt Conn (update_inbounds (invalid_inbound t) (\<lambda>i. i\<lparr>in_Enable := False\<rparr>)))"

section \<open>Clean-up of old settings\<close>

definition set_settings :: "int \<Rightarrow> string \<Rightarrow> (panel, unit) act" where
  "set_settings i s = andThen (stmt Conn (update_inbounds (\<lambda>x. in_Id x = i) (\<lambda>x. x\<lparr>in_Settings := s\<rparr>))) (\<lambda>_. ret ())"

definition cleanup_service :: "protocol list \<Rightarrow> (panel, unit) act" where
  "cleanup_service protos =
     andThen (find_inbounds (\<lambda>i. in_Protocol i \<in> set protos)) (for_each (\<lambda>i.
       let s = in_Settings (normalizeProtocolSettings i) in
       if s = in_Settings i then ret () else set_settings (in_Id i) s))"

definition CleanupLegacyTrojanSettings :: "(panel, unit) act" where
  "CleanupLegacyTrojanSettings = cleanup_service [Trojan]"

definition CleanupLegacyVlessSettings :: "(panel, unit) act" where
  "CleanupLegacyVlessSettings = cleanup_service [VLESS]"

definition CleanupLegacySocksSettings :: "(panel, unit) act" where
  "CleanupLegacySocksSettings = cleanup_service [Socks, Mixed]"

text \<open>The versions of src/database/db.go: \<open>None\<close> where the loop continues with the next row.\<close>

definition has_flow :: "json \<Rightarrow> bool" where
  "has_flow v \<longleftrightarrow> (case v of JObj m \<Rightarrow> obj_get m ''flow'' \<noteq> None | _ \<Rightarrow> False)"

definition any_client :: "(json \<Rightarrow> bool) \<Rightarrow> json list option \<Rightarrow> bool" where
  "any_client P ms = (case ms of None \<Rightarrow> False | Some vs \<Rightarrow> list_ex P vs)"

definition legacy_trojan :: "string \<Rightarrow> string option" where
  "legacy_trojan raw = (let settings = TrimSpace raw in
     if settings = [] then None
     else case decode_trojan settings of
         None \<Rightarrow> None
       | Some t \<Rightarrow> if any_client has_flow (tr_Clients t)
           then Some (print_json (encode_trojan (normal_trojan t))) else None)"

definition legacy_vless :: "string \<Rightarrow> string option" where
  "legacy_vless raw = (let settings = TrimSpace raw in
     if settings = [] then None
     else case decode_vless settings of
         None \<Rightarrow> None
       | Some t \<Rightarrow> if any_client legacy_flow (vl_Clients t)
           then Some (print_json (encode_vless (normal_vless t))) else None)"

definition legacy_socks :: "string \<Rightarrow> string option" where
  "legacy_socks raw = (let settings = TrimSpace raw in
     if settings = [] then None
     else case decode_socks settings of
         None \<Rightarrow> None
       | Some t \<Rightarrow> (let new = print_json (encode_socks (normal_socks t))
           in if new = raw then None else Some new))"

definition cleanup_rows :: "protocol list \<Rightarrow> (string \<Rightarrow> string option) \<Rightarrow> (panel, unit) act" where
  "cleanup_rows protos f =
     andThen (find_inbounds (\<lambda>i. in_Protocol i \<in> set protos)) (for_each (\<lambda>i.
       case f (in_Settings i) of None \<Rightarrow> ret () | Some s \<Rightarrow> set_settings (in_Id i) s))"

definition cleanupLegacyTrojanSettings :: "(panel, unit) act" where
  "cleanupLegacyTrojanSettings = cleanup_rows [Trojan] legacy_trojan"

definition cleanupLegacyVlessSettings :: "(panel, unit) act" where
  "cleanupLegacyVlessSettings = cleanup_rows [VLESS] legacy_vless"

definition cleanupLegacySocksSettings :: "(panel, unit) act" where
  "cleanupLegacySocksSettings = cleanup_rows [Socks, Mixed] legacy_socks"

section \<open>The invariant of the table\<close>

definition inbounds_ok :: "inbound list \<Rightarrow> bool" where
  "inbounds_ok t \<longleftrightarrow> ids_ok in_Id t \<and> distinct (map in_Port t) \<and> distinct (map in_Tag t) \<and> list_all limits_ok t"

abbreviation inbounds_inv :: "database \<Rightarrow> bool" where
  "inbounds_inv d \<equiv> inbounds_ok (tbl_inbounds d)"

lemma limits_ok_frame: "limits_ok (i\<lparr>in_Settings := a\<rparr>) = limits_ok i" "limits_ok (i\<lparr>in_StreamSettings := a\<rparr>) = limits_ok i"
  "limits_ok (i\<lparr>in_Up := n\<rparr>) = limits_ok i" "limits_ok (i\<lparr>in_Down := n\<rparr>) = limits_ok i"
  "limits_ok (i\<lparr>in_Enable := b\<rparr>) = limits_ok i" "limits_ok (i\<lparr>in_Id := n\<rparr>) = limits_ok i"
  by (simp_all add: limits_ok_def)

lemma normal_inbound_limits: "normal_inbound i0 = Inr i \<Longrightarrow> limits_ok i"
  using normalizeLimit_ok [of i0]
  by (auto simp: normal_inbound_def normalizeStreamSettings_def normalizeProtocolSettings_def limits_ok_frame
      split: sum.splits)

lemma distinct_overwrite:
  assumes "distinct (map g t)" and "\<And>x. x \<in> set t \<Longrightarrow> g x = g r \<Longrightarrow> k x = k r" and "distinct (map k t)"
  shows "distinct (map g (update_rows (\<lambda>x. k x = k r) (\<lambda>_. r) t))"
  using assms
proof (induction t)
  case (Cons y t)
  then have IH: "distinct (map g (update_rows (\<lambda>x. k x = k r) (\<lambda>_. r) t))" by simp
  have sub: "z = r \<or> z \<in> set t" if "z \<in> set (update_rows (\<lambda>x. k x = k r) (\<lambda>_. r) t)" for z
    using that by (auto simp: update_rows_def split: if_splits)
  show ?case
  proof (cases "k y = k r")
    case True
    then have "update_rows (\<lambda>x. k x = k r) (\<lambda>_. r) t = t"
      using Cons.prems(3) unfolding update_rows_def by (intro map_idI) (auto simp: image_iff)
    moreover have "g r \<notin> g ` set t"
    proof
      assume "g r \<in> g ` set t"
      then obtain x where "x \<in> set t" "g x = g r" by auto
      with Cons.prems(2) [of x] have "k x = k r" by simp
      with True Cons.prems(3) \<open>x \<in> set t\<close> show False by (metis distinct.simps(2) image_eqI list.simps(9) list.set_map)
    qed
    ultimately show ?thesis using True Cons.prems by (simp add: update_rows_def)
  next
    case False
    have "g y \<notin> g ` set (update_rows (\<lambda>x. k x = k r) (\<lambda>_. r) t)"
    proof
      assume "g y \<in> g ` set (update_rows (\<lambda>x. k x = k r) (\<lambda>_. r) t)"
      then obtain z where z: "g y = g z" "z = r \<or> z \<in> set t" using sub by blast
      with Cons.prems(1) have "z = r" by auto
      with z Cons.prems(2) [of y] False show False by simp
    qed
    moreover have "update_rows (\<lambda>x. k x = k r) (\<lambda>_. r) (y # t) = y # update_rows (\<lambda>x. k x = k r) (\<lambda>_. r) t"
      using False by (simp add: update_rows_def)
    ultimately show ?thesis using IH by (simp only: list.map distinct.simps set_map) simp
  qed
qed (simp add: update_rows_def)

lemma update_rows_map: "(\<And>r. g (f r) = g r) \<Longrightarrow> map g (update_rows P f t) = map g t"
  by (simp add: update_rows_def)

lemma update_rows_all: "list_all Q t \<Longrightarrow> (\<And>r. Q r \<Longrightarrow> Q (f r)) \<Longrightarrow> list_all Q (update_rows P f t)"
  by (auto simp: update_rows_def list_all_iff)

lemma inbounds_ok_update:
  assumes "inbounds_ok t" and "\<And>r. in_Id (f r) = in_Id r" "\<And>r. in_Port (f r) = in_Port r"
    "\<And>r. in_Tag (f r) = in_Tag r" "\<And>r. limits_ok r \<Longrightarrow> limits_ok (f r)"
  shows "inbounds_ok (update_rows P f t)"
  using assms by (simp add: inbounds_ok_def inbound_rows.update_rows_ids update_rows_map update_rows_all)

lemma distinct_delete_rows: "distinct (map g t) \<Longrightarrow> distinct (map g (delete_rows P t))"
  by (simp add: delete_rows_def distinct_map_filter)

lemma inbounds_ok_delete: "inbounds_ok t \<Longrightarrow> inbounds_ok (delete_rows P t)"
proof -
  assume ok: "inbounds_ok t"
  then have "list_all limits_ok (delete_rows P t)" by (auto simp: inbounds_ok_def list_all_iff delete_rows_def)
  with ok show ?thesis by (simp add: inbounds_ok_def inbound_rows.delete_rows_ids distinct_delete_rows)
qed

lemma distinct_insert:
  assumes "insert_row rid put r t = Inr (r', t')" and "distinct (map g t)" and "g r' \<notin> g ` set t"
  shows "distinct (map g t')"
proof (cases "rid r = 0")
  case True
  with assms show ?thesis by (auto simp: insert_row_def Let_def)
next
  case False
  with assms(1) have "t' = insort_key rid r t" "r' = r" by (auto simp: insert_row_def split: if_splits)
  moreover have "distinct (map g (insort_key rid r t)) \<longleftrightarrow> distinct (map g t) \<and> g r \<notin> g ` set t"
    by (induction t) (auto simp: set_insort_key)
  ultimately show ?thesis using assms by simp
qed

lemma save_inbound_ok: "inbounds_inv d \<Longrightarrow> limits_ok r \<Longrightarrow> inbounds_inv (snd (save_inbound r d))"
proof -
  assume ok: "inbounds_inv d" and r: "limits_ok r"
  show ?thesis
  proof (cases "in_Id r \<noteq> 0 \<and> row_by_id in_Id (in_Id r) (tbl_inbounds d) \<noteq> None")
    case True
    have "inbounds_inv (snd (overwrite_inbound r d))"
    proof (cases "list_ex (\<lambda>x. (in_Port x = in_Port r \<or> in_Tag x = in_Tag r) \<and> in_Id x \<noteq> in_Id r) (tbl_inbounds d)")
      case False
      then have u: "\<And>x. x \<in> set (tbl_inbounds d) \<Longrightarrow> in_Port x = in_Port r \<or> in_Tag x = in_Tag r \<Longrightarrow> in_Id x = in_Id r"
        by (auto simp: list_ex_iff)
      have di: "distinct (map in_Id (tbl_inbounds d))" using ok by (simp add: inbounds_ok_def ids_ok_def strict_sorted_iff)
      have "map in_Id (update_rows (\<lambda>x. in_Id x = in_Id r) (\<lambda>_. r) (tbl_inbounds d)) = map in_Id (tbl_inbounds d)"
        by (auto simp: update_rows_def)
      then have "ids_ok in_Id (update_rows (\<lambda>x. in_Id x = in_Id r) (\<lambda>_. r) (tbl_inbounds d))"
        using ok by (simp add: inbounds_ok_def ids_ok_def)
      moreover have "distinct (map in_Port (update_rows (\<lambda>x. in_Id x = in_Id r) (\<lambda>_. r) (tbl_inbounds d)))"
        by (rule distinct_overwrite) (use ok u di in \<open>auto simp: inbounds_ok_def\<close>)
      moreover have "distinct (map in_Tag (update_rows (\<lambda>x. in_Id x = in_Id r) (\<lambda>_. r) (tbl_inbounds d)))"
        by (rule distinct_overwrite) (use ok u di in \<open>auto simp: inbounds_ok_def\<close>)
      moreover have "list_all limits_ok (update_rows (\<lambda>x. in_Id x = in_Id r) (\<lambda>_. r) (tbl_inbounds d))"
        using ok r by (intro update_rows_all) (auto simp: inbounds_ok_def)
      ultimately show ?thesis using False by (simp add: overwrite_inbound_def inbounds_ok_def)
    qed (simp add: overwrite_inbound_def ok)
    with True show ?thesis by (simp add: save_inbound_def)
  next
    case False
    have "inbounds_inv (snd (insert_inbound r d))"
    proof (cases "list_ex (\<lambda>x. in_Port x = in_Port r \<or> in_Tag x = in_Tag r) (tbl_inbounds d)")
      case fresh: False
      let ?r = "r\<lparr>in_IPTimeout := (if in_IPTimeout r = 0 then 5 else in_IPTimeout r)\<rparr>"
      have re: "?r = r" using r by (simp add: limits_ok_def)
      show ?thesis
      proof (cases "insert_row in_Id (\<lambda>i r. r\<lparr>in_Id := i\<rparr>) ?r (tbl_inbounds d)")
        case (Inr p)
        obtain r' t' where p: "p = (r', t')" by (cases p)
        with Inr re have ins: "insert_row in_Id (\<lambda>i r. r\<lparr>in_Id := i\<rparr>) r (tbl_inbounds d) = Inr (r', t')" by simp
        have r': "in_Port r' = in_Port r" "in_Tag r' = in_Tag r" "limits_ok r'"
          using ins r by (auto simp: insert_row_def Let_def limits_ok_frame split: if_splits)
        have f: "in_Port r' \<notin> in_Port ` set (tbl_inbounds d)" "in_Tag r' \<notin> in_Tag ` set (tbl_inbounds d)"
          using fresh r' by (auto simp: list_ex_iff)
        have "inbounds_ok t'"
          using ok r' inbound_rows.insert_row_ids [OF ins] inbound_rows.insert_row_set [OF ins]
            distinct_insert [OF ins _ f(1)] distinct_insert [OF ins _ f(2)]
          by (auto simp: inbounds_ok_def list_all_iff)
        then show ?thesis using Inr p fresh by (simp add: insert_inbound_def)
      qed (use fresh ok in \<open>simp add: insert_inbound_def\<close>)
    qed (use ok in \<open>simp add: insert_inbound_def\<close>)
    with False show ?thesis by (simp only: save_inbound_def if_False)
  qed
qed

lemma check_inbounds_limits: "check_inbounds is' s = (Inr js, t) \<Longrightarrow> list_all limits_ok js"
proof (induction is' arbitrary: js s t)
  case (Cons i is')
  then obtain x u s' ys s'' where "normal_inbound i = Inr x" "check_inbounds is' s' = (Inr ys, s'')" "js = x # ys"
    by (auto simp: andThen_Inr checkPortExist_def)
  with Cons.IH normal_inbound_limits show ?case by simp
qed simp

lemma keeps_for_each_list: "(\<And>x. x \<in> set xs \<Longrightarrow> keeps P (f x)) \<Longrightarrow> keeps P (for_each f xs)"
  by (induction xs) (auto intro!: keeps_intro)

lemma keeps_Let [keeps_intro]: "keeps P (f x) \<Longrightarrow> keeps P (let y = x in f y)"
  by simp

section \<open>What the operations do\<close>

text \<open>An inbound after a list of traffic records: the sums of the records with its tag are added.\<close>

definition own_traffic :: "traffic list \<Rightarrow> inbound \<Rightarrow> traffic list" where
  "own_traffic ts i = filter (\<lambda>t. t_IsInbound t \<and> t_Tag t = in_Tag i) ts"

definition with_traffic :: "traffic list \<Rightarrow> inbound \<Rightarrow> inbound" where
  "with_traffic ts i = i\<lparr>in_Up := in_Up i + sum_list (map t_Up (own_traffic ts i)),
     in_Down := in_Down i + sum_list (map t_Down (own_traffic ts i))\<rparr>"

lemma with_traffic_Cons: "with_traffic (t # ts) i = with_traffic ts (with_traffic [t] i)"
  by (simp add: with_traffic_def own_traffic_def)

lemma with_traffic_Nil: "with_traffic [] i = i"
  by (simp add: with_traffic_def own_traffic_def)

lemma for_each_traffic:
  assumes "faults s = []" and "ptx s = Some d"
  shows "for_each add_one_traffic ts s
    = (Inr (), s\<lparr>ptx := Some (d\<lparr>tbl_inbounds := map (with_traffic ts) (tbl_inbounds d)\<rparr>)\<rparr>)"
  using assms
proof (induction ts arbitrary: s d)
  case Nil
  then show ?case by (simp add: with_traffic_Nil)
next
  case (Cons t ts)
  let ?d = "d\<lparr>tbl_inbounds := map (with_traffic [t]) (tbl_inbounds d)\<rparr>"
  have rows: "map (\<lambda>r. if in_Tag (f r) = a then g (f r) else f r) (map f' l) = map h l"
    if "\<And>r. (if in_Tag (f (f' r)) = a then g (f (f' r)) else f (f' r)) = h r" for f f' g h a l
    using that by simp
  have one: "add_one_traffic t s = (Inr (), s\<lparr>ptx := Some ?d\<rparr>)"
  proof (cases "t_IsInbound t")
    case True
    with Cons.prems show ?thesis
      by (simp add: add_one_traffic_def andThen_run stmt_calm_Tx add_up_def add_down_def update_inbounds_def
          update_rows_def comp_def)
        (auto simp: with_traffic_def own_traffic_def intro!: map_cong)
  next
    case False
    with Cons.prems have "with_traffic [t] = (\<lambda>i. i)"
      by (simp add: with_traffic_def own_traffic_def fun_eq_iff)
    with False Cons.prems show ?thesis by (simp add: add_one_traffic_def)
  qed
  have "map (with_traffic (t # ts)) l = map (with_traffic ts) (map (with_traffic [t]) l)" for l
    by (simp add: with_traffic_Cons [of t ts] comp_def)
  with Cons.IH [of "s\<lparr>ptx := Some ?d\<rparr>" ?d] Cons.prems one show ?case by (simp add: andThen_run)
qed

lemma AddTraffic_calm: "faults s = [] \<Longrightarrow> ts \<noteq> [] \<Longrightarrow> AddTraffic ts s
    = (Inr (), s\<lparr>pdb := (pdb s)\<lparr>tbl_inbounds := map (with_traffic ts) (tbl_inbounds (pdb s))\<rparr>, ptx := None\<rparr>)"
  by (simp add: AddTraffic_def andThen_run or_rollback_run attempt_run for_each_traffic commit_calm)

text \<open>Whatever fails on the way, either all the records are added or none is.\<close>

lemma for_each_traffic_committed: "keeps (committed I) (for_each add_one_traffic ts)"
  unfolding add_one_traffic_def by (intro keeps_intro)

lemma add_one_traffic_Inr:
  assumes "add_one_traffic t s = (Inr (), s')" and "ptx s = Some d"
  shows "\<exists>fs. s' = s\<lparr>faults := fs, ptx := Some (d\<lparr>tbl_inbounds := map (with_traffic [t]) (tbl_inbounds d)\<rparr>)\<rparr>"
proof (cases "t_IsInbound t")
  case True
  let ?d1 = "snd (add_up t d)" and ?d2 = "snd (add_down t (snd (add_up t d)))"
  from assms True obtain n s1 m where 1: "stmt Tx (add_up t) s = (Inr n, s1)"
    and 2: "stmt Tx (add_down t) s1 = (Inr m, s')" by (auto simp: add_one_traffic_def andThen_Inr)
  from stmt_Tx_Inr [OF 1 assms(2)] obtain fs where s1: "s1 = s\<lparr>faults := fs, ptx := Some ?d1\<rparr>" by blast
  then have "ptx s1 = Some ?d1" by simp
  from stmt_Tx_Inr [OF 2 this] obtain fs' where "s' = s1\<lparr>faults := fs', ptx := Some ?d2\<rparr>" by blast
  moreover have "?d2 = d\<lparr>tbl_inbounds := map (with_traffic [t]) (tbl_inbounds d)\<rparr>"
    using True by (simp add: add_up_def add_down_def update_inbounds_def update_rows_def comp_def)
      (auto simp: with_traffic_def own_traffic_def intro!: map_cong)
  ultimately show ?thesis using s1 by (intro exI [of _ fs']) simp
next
  case False
  then have "with_traffic [t] = (\<lambda>i. i)" by (simp add: with_traffic_def own_traffic_def fun_eq_iff)
  with False assms show ?thesis by (intro exI [of _ "faults s"]) (simp add: add_one_traffic_def)
qed

lemma for_each_traffic_Inr:
  assumes "for_each add_one_traffic ts s = (Inr (), s')" and "ptx s = Some d"
  shows "\<exists>fs. s' = s\<lparr>faults := fs, ptx := Some (d\<lparr>tbl_inbounds := map (with_traffic ts) (tbl_inbounds d)\<rparr>)\<rparr>"
  using assms
proof (induction ts arbitrary: s d)
  case Nil
  then show ?case by (intro exI [of _ "faults s"]) (simp add: with_traffic_Nil)
next
  case (Cons t ts)
  let ?d1 = "d\<lparr>tbl_inbounds := map (with_traffic [t]) (tbl_inbounds d)\<rparr>"
  from Cons.prems obtain s1 where 1: "add_one_traffic t s = (Inr (), s1)"
    and 2: "for_each add_one_traffic ts s1 = (Inr (), s')" by (auto simp: andThen_Inr)
  from add_one_traffic_Inr [OF 1 Cons.prems(2)] obtain fs where s1: "s1 = s\<lparr>faults := fs, ptx := Some ?d1\<rparr>" by blast
  then have "ptx s1 = Some ?d1" by simp
  from Cons.IH [OF 2 this] s1 obtain fs' where
    "s' = s\<lparr>faults := fs', ptx := Some (?d1\<lparr>tbl_inbounds := map (with_traffic ts) (tbl_inbounds ?d1)\<rparr>)\<rparr>" by auto
  then show ?case by (intro exI [of _ fs']) (simp add: with_traffic_Cons [of t ts] comp_def)
qed

lemma AddTraffic_atomic:
  "pdb (snd (AddTraffic ts s)) = pdb s \<or>
   pdb (snd (AddTraffic ts s)) = (pdb s)\<lparr>tbl_inbounds := map (with_traffic ts) (tbl_inbounds (pdb s))\<rparr>"
proof (cases "ts = []")
  case False
  let ?s0 = "s\<lparr>ptx := Some (pdb s)\<rparr>"
  obtain r t where rt: "for_each add_one_traffic ts ?s0 = (r, t)" by (cases "for_each add_one_traffic ts ?s0")
  show ?thesis
  proof (cases r)
    case (Inl e)
    have "committed (\<lambda>d. d = pdb s) t"
      using keepsD_eq [OF for_each_traffic_committed rt, of "\<lambda>d. d = pdb s"] by (simp add: committed_def)
    with Inl rt False show ?thesis
      by (simp add: AddTraffic_def andThen_run or_rollback_run committed_def)
  next
    case (Inr u)
    with rt for_each_traffic_Inr [of ts ?s0 t "pdb s"] obtain fs where
      t: "t = s\<lparr>faults := fs, ptx := Some ((pdb s)\<lparr>tbl_inbounds := map (with_traffic ts) (tbl_inbounds (pdb s))\<rparr>)\<rparr>" by auto
    then have "ptx t = Some ((pdb s)\<lparr>tbl_inbounds := map (with_traffic ts) (tbl_inbounds (pdb s))\<rparr>)" by simp
    from commit_cases [OF this] Inr rt False t show ?thesis
      by (auto simp: AddTraffic_def andThen_run or_rollback_run attempt_run)
  qed
qed (simp add: AddTraffic_def)

lemma DisableInvalidInbounds_calm:
  assumes "faults s = []" and "t = clock_now s div 1000 * 1000"
  shows "DisableInvalidInbounds s = (Inr (length (filter (invalid_inbound t) (tbl_inbounds (pdb s)))),
    s\<lparr>pdb := (pdb s)\<lparr>tbl_inbounds := map (\<lambda>i. if invalid_inbound t i then i\<lparr>in_Enable := False\<rparr> else i)
      (tbl_inbounds (pdb s))\<rparr>\<rparr>)"
  using assms by (simp add: DisableInvalidInbounds_def andThen_run stmt_calm_Conn update_inbounds_def update_rows_def)

lemma DisableInvalidInbounds_twice:
  assumes "faults s = []"
  shows "fst (DisableInvalidInbounds (snd (DisableInvalidInbounds s))) = Inr 0"
proof -
  let ?t = "clock_now s div 1000 * 1000"
  have "filter (invalid_inbound ?t) (map (\<lambda>i. if invalid_inbound ?t i then i\<lparr>in_Enable := False\<rparr> else i) l) = []" for l
    by (auto simp: filter_empty_conv invalid_inbound_def)
  with assms show ?thesis by (simp add: DisableInvalidInbounds_calm)
qed

text \<open>A failed bulk insertion leaves the committed table as it was.\<close>

lemma check_inbounds_committed: "keeps (committed I) (check_inbounds is')"
  by (induction is') (simp_all only: check_inbounds.simps checkPortExist_def, intro keeps_intro, intro keeps_intro)

lemma AddInbounds_error: 
  assumes "AddInbounds is' s = (Inl e, t)"
  shows "pdb t = pdb s"
proof -
  define m where "m = andThen (check_inbounds is') (\<lambda>js. andThen begin_tx (\<lambda>_.
     or_rollback (for_each (\<lambda>i. stmt Tx (save_inbound i)) js)))"
  have k: "keeps (committed (\<lambda>d. d = pdb s)) m"
    unfolding m_def by (intro keeps_intro check_inbounds_committed)
  have "AddInbounds is' = andThen m (\<lambda>_. andThen (attempt commit_tx) (\<lambda>_. ret ()))"
    by (simp add: AddInbounds_def m_def andThen_assoc)
  with assms have "andThen m (\<lambda>_. andThen (attempt commit_tx) (\<lambda>_. ret ())) s = (Inl e, t)" by simp
  moreover have "andThen (attempt commit_tx) (\<lambda>_. ret ()) u \<noteq> (Inl e, t)" for u
    by (simp add: andThen_run attempt_run)
  ultimately have "m s = (Inl e, t)" unfolding andThen_Inl by blast
  from keepsD_eq [OF k this] show ?thesis by (simp add: committed_def)
qed

section \<open>Properties\<close>

text \<open>A panel with given inbounds, for the witnesses.\<close>

definition panel_with_inbounds :: "inbound list \<Rightarrow> panel" where
  "panel_with_inbounds is' = (fresh_panel quiet_world)\<lparr>pdb := empty_database\<lparr>tbl_inbounds := is'\<rparr>\<rparr>"

definition sample_inbound :: "int \<Rightarrow> int \<Rightarrow> inbound" where
  "sample_inbound i port = zero_inbound\<lparr>in_Id := i, in_Port := port, in_Tag := inbound_tag port,
     in_Enable := True, in_Total := 100, in_IPTimeout := 5, in_Protocol := VLESS\<rparr>"

lemmas sample_simps = panel_with_inbounds_def sample_inbound_def zero_inbound_def fresh_panel_def empty_database_def

text \<open>C14: when nothing fails, \<open>AddTraffic\<close> adds to every inbound the sums of the
  records that carry its tag, whatever their order, and changes nothing else.\<close>

theorem traffic_added:
  assumes "faults s = []" and "ts \<noteq> []"
  shows "AddTraffic ts s
    = (Inr (), s\<lparr>pdb := (pdb s)\<lparr>tbl_inbounds := map (with_traffic ts) (tbl_inbounds (pdb s))\<rparr>, ptx := None\<rparr>)"
  using assms by (rule AddTraffic_calm)

theorem traffic_added_witness:
  "map in_Up (tbl_inbounds (pdb (snd (AddTraffic
      [\<lparr>t_IsInbound = True, t_Tag = ''inbound-80'', t_Up = 7, t_Down = 1\<rparr>,
       \<lparr>t_IsInbound = False, t_Tag = ''inbound-80'', t_Up = 100, t_Down = 1\<rparr>,
       \<lparr>t_IsInbound = True, t_Tag = ''inbound-80'', t_Up = 2, t_Down = 1\<rparr>]
      (panel_with_inbounds [sample_inbound 1 80, sample_inbound 2 90]))))) = [9, 0]"
proof -
  have t: "inbound_tag 80 = ''inbound-80''" "inbound_tag 90 = ''inbound-90''" by code_simp+
  show ?thesis
    by (subst traffic_added) (simp_all add: sample_simps with_traffic_def own_traffic_def t)
qed

text \<open>C15: under every schedule of failures the committed inbounds carry all the records or none.\<close>

theorem traffic_all_or_nothing:
  "pdb (snd (AddTraffic ts s)) = pdb s \<or>
   pdb (snd (AddTraffic ts s)) = (pdb s)\<lparr>tbl_inbounds := map (with_traffic ts) (tbl_inbounds (pdb s))\<rparr>"
  by (rule AddTraffic_atomic)

text \<open>\<open>DisableInvalidInbounds\<close> switches off exactly the enabled inbounds that are over
  their quota or expired and returns their number; every inbound that is still enabled has quota
  left and has not expired, and a second run finds none.\<close>

theorem invalid_disabled:
  assumes "faults s = []" and "t = clock_now s div 1000 * 1000" and "DisableInvalidInbounds s = (r, s')"
  shows "r = Inr (length (filter (invalid_inbound t) (tbl_inbounds (pdb s))))
    \<and> tbl_inbounds (pdb s') = map (\<lambda>i. if invalid_inbound t i then i\<lparr>in_Enable := False\<rparr> else i) (tbl_inbounds (pdb s))
    \<and> (\<forall>i \<in> set (tbl_inbounds (pdb s')). in_Enable i \<longrightarrow>
          (in_Total i \<le> 0 \<or> in_Up i + in_Down i < in_Total i) \<and> (in_ExpiryTime i \<le> 0 \<or> t < in_ExpiryTime i))
    \<and> fst (DisableInvalidInbounds s') = Inr 0"
  using assms DisableInvalidInbounds_calm [OF assms(1,2)] DisableInvalidInbounds_twice [OF assms(1)]
  by (auto simp: invalid_inbound_def)

theorem invalid_disabled_witness:
  "map in_Enable (tbl_inbounds (pdb (snd (DisableInvalidInbounds
     (panel_with_inbounds [(sample_inbound 1 80)\<lparr>in_Up := 60, in_Down := 40\<rparr>, sample_inbound 2 90])))))
   = [False, True]"
proof -
  define s where "s = panel_with_inbounds [(sample_inbound 1 80)\<lparr>in_Up := 60, in_Down := 40\<rparr>, sample_inbound 2 90]"
  obtain r s' where run: "DisableInvalidInbounds s = (r, s')" by (cases "DisableInvalidInbounds s")
  have "faults s = []" by (simp add: s_def sample_simps)
  from invalid_disabled [OF this refl run] run show ?thesis
    by (simp add: s_def sample_simps invalid_inbound_def)
qed

text \<open>A bulk insertion that returns an error has left the database as it was, whichever
  inbound failed and however.\<close>

theorem bulk_insert_error:
  assumes "AddInbounds is' s = (Inl e, t)"
  shows "pdb t = pdb s"
  using assms by (rule AddInbounds_error)

theorem bulk_insert_error_witness:
  "\<exists>e t. AddInbounds [sample_inbound 0 80, sample_inbound 0 80] (panel_with_inbounds []) = (Inl e, t)
     \<and> pdb t = pdb (panel_with_inbounds [])"
proof -
  have "case fst (AddInbounds [sample_inbound 0 80, sample_inbound 0 80] (panel_with_inbounds [])) of
      Inl e \<Rightarrow> True | Inr u \<Rightarrow> False" by code_simp
  then obtain e t where "AddInbounds [sample_inbound 0 80, sample_inbound 0 80] (panel_with_inbounds []) = (Inl e, t)"
    by (metis (no_types, lifting) old.sum.exhaust old.sum.simps(6) prod.collapse)
  with bulk_insert_error [OF this] show ?thesis by blast
qed

lemma legacy_socks_service:
  assumes "p = Socks \<or> p = Mixed"
  shows "legacy_socks raw = (let s = protocol_settings p raw in if s = raw then None else Some s)"
  using assms by (auto simp: legacy_socks_def protocol_settings_def Let_def split: option.split)

lemma for_each_cong: "(\<And>x. x \<in> set xs \<Longrightarrow> f x = g x) \<Longrightarrow> for_each f xs = for_each g xs"
  by (induction xs) auto

lemma find_inbounds_set: "find_inbounds P s = (Inr xs, s') \<Longrightarrow> i \<in> set xs \<Longrightarrow> P i"
  unfolding find_inbounds_def query_def by (drule stmt_Conn_Inr) auto

lemma andThen_cong: "(\<And>s x t. m s = (Inr x, t) \<Longrightarrow> f x = g x) \<Longrightarrow> andThen m f = andThen m g"
  by (auto simp: fun_eq_iff andThen_run split: prod.split sum.split)

text \<open>the clean-up that runs when the database is opened does to a SOCKS inbound what
  the clean-up of the service does.\<close>

theorem socks_cleanups_agree: "cleanupLegacySocksSettings = CleanupLegacySocksSettings"
  unfolding cleanupLegacySocksSettings_def CleanupLegacySocksSettings_def cleanup_rows_def cleanup_service_def
proof (rule andThen_cong, rule for_each_cong)
  fix s t :: panel and xs i assume "find_inbounds (\<lambda>i. in_Protocol i \<in> set [Socks, Mixed]) s = (Inr xs, t)" "i \<in> set xs"
  from find_inbounds_set [OF this] have "in_Protocol i = Socks \<or> in_Protocol i = Mixed" by simp
  from legacy_socks_service [OF this]
  show "(case legacy_socks (in_Settings i) of None \<Rightarrow> ret () | Some x \<Rightarrow> set_settings (in_Id i) x)
    = (let x = in_Settings (normalizeProtocolSettings i) in
       if x = in_Settings i then ret () else set_settings (in_Id i) x)"
    by (simp add: normalizeProtocolSettings_def Let_def)
qed

lemma query_Conn_Inr: "query Conn f s = (Inr x, t) \<Longrightarrow> f (pdb s) = Inr x \<and> pdb t = pdb s"
  unfolding query_def by (drule stmt_Conn_Inr) auto

lemma normal_inbound_frame: "normal_inbound i0 = Inr i \<Longrightarrow>
    in_Id i = in_Id i0 \<and> in_Port i = in_Port i0 \<and> in_Protocol i = in_Protocol i0"
  by (auto simp: normal_inbound_def normalizeStreamSettings_def normalizeProtocolSettings_def normalizeLimit_def
      Let_def split: sum.splits)

text \<open>C4: an update that succeeds, under any schedule, replaced exactly the row with the id by
  the normalised inbound; its port was free and its tag is the one of the port.\<close>

theorem update_inbound_effect:
  assumes "UpdateInbound i0 s = (Inr (), t)" and "0 < in_Id i0"
  shows "\<exists>i old. normal_inbound i0 = Inr i \<and> row_by_id in_Id (in_Id i0) (tbl_inbounds (pdb s)) = Some old
    \<and> (\<forall>x \<in> set (tbl_inbounds (pdb s)). in_Port x = in_Port i0 \<longrightarrow> in_Id x = in_Id i0)
    \<and> pdb t = (pdb s)\<lparr>tbl_inbounds := update_rows (\<lambda>x. in_Id x = in_Id i0) (\<lambda>_. merge_inbound old i)
        (tbl_inbounds (pdb s))\<rparr>
    \<and> in_Tag (merge_inbound old i) = inbound_tag (in_Port i0)"
proof -
  from assms(1) obtain i u1 u2 u3 b old where n: "normal_inbound i0 = Inr i"
    and c: "checkPortExist (in_Port i) (in_Id i) s = (Inr b, u1)" and b: "\<not> b" and u: "u2 = u1"
    and g: "GetInbound (in_Id i) u2 = (Inr old, u3)" and w: "stmt Conn (save_inbound (merge_inbound old i)) u3 = (Inr (), t)"
    by (auto simp: UpdateInbound_def andThen_Inr split: if_splits)
  note frame = normal_inbound_frame [OF n]
  have 1: "\<forall>x \<in> set (tbl_inbounds (pdb s)). in_Port x = in_Port i0 \<longrightarrow> in_Id x = in_Id i0" "pdb u1 = pdb s"
    using query_Conn_Inr [OF c [unfolded checkPortExist_def]] b frame assms(2) by (auto simp: list_ex_iff)
  have 2: "row_by_id in_Id (in_Id i0) (tbl_inbounds (pdb s)) = Some old" "pdb u3 = pdb s"
    using query_Conn_Inr [OF g [unfolded GetInbound_def]] frame 1(2) u by (auto split: option.splits)
  have id: "in_Id (merge_inbound old i) = in_Id i0"
    using 2(1) by (auto simp: merge_inbound_def row_by_id_def find_Some_iff)
  from stmt_Conn_Inr [OF w] 2 have "fst (save_inbound (merge_inbound old i) (pdb s)) = Inr ()"
    "pdb t = snd (save_inbound (merge_inbound old i) (pdb s))" by auto
  then have "pdb t = (pdb s)\<lparr>tbl_inbounds := update_rows (\<lambda>x. in_Id x = in_Id i0) (\<lambda>_. merge_inbound old i)
        (tbl_inbounds (pdb s))\<rparr>"
    using 2(1) id assms(2) by (auto simp: save_inbound_def overwrite_inbound_def split: if_splits)
  with n 1 2 frame show ?thesis by (auto simp: merge_inbound_def)
qed

theorem update_inbound_effect_witness:
  "\<exists>t. UpdateInbound (sample_inbound 1 443) (panel_with_inbounds [sample_inbound 1 80]) = (Inr (), t)
     \<and> map in_Tag (tbl_inbounds (pdb t)) = [''inbound-443'']"
proof -
  have "case fst (UpdateInbound (sample_inbound 1 443) (panel_with_inbounds [sample_inbound 1 80])) of
      Inl e \<Rightarrow> False | Inr u \<Rightarrow> True" by code_simp
  then obtain t where t: "UpdateInbound (sample_inbound 1 443) (panel_with_inbounds [sample_inbound 1 80]) = (Inr (), t)"
    by (cases "UpdateInbound (sample_inbound 1 443) (panel_with_inbounds [sample_inbound 1 80])") (auto split: sum.splits)
  have "inbound_tag 443 = ''inbound-443''" by code_simp
  with update_inbound_effect [OF t] t show ?thesis
    by (auto simp: sample_inbound_def zero_inbound_def panel_with_inbounds_def update_rows_def)
qed

end
