(* ===== verification/Xray_Config.thy ===== *)
theory Xray_Config
  imports Managed_Tables Inbounds
begin

text \<open>
  The configuration of xray that the panel computes (src/web/service/xray.go):
  the template of the settings, the enabled inbounds, and either the template's
  own outbounds and routing (legacy) or those of the two tables (managed), with
  the extra rule and outbound for dokodemo and tunnel inbounds.
\<close>

section \<open>The routing section\<close>

record routing_rule_config =
  rc_Type :: string
  rc_Domain :: "string list"
  rc_InboundTag :: "string list"
  rc_IP :: "string list"
  rc_Port :: string
  rc_Protocol :: "string list"
  rc_Network :: string
  rc_Source :: "string list"
  rc_OutboundTag :: string

record routing_config =
  DomainStrategy :: string
  Rules :: "routing_rule_config list"

definition zero_rule_config :: routing_rule_config where
  "zero_rule_config = \<lparr>rc_Type = [], rc_Domain = [], rc_InboundTag = [], rc_IP = [], rc_Port = [],
     rc_Protocol = [], rc_Network = [], rc_Source = [], rc_OutboundTag = []\<rparr>"

definition zero_routing :: routing_config where
  "zero_routing = \<lparr>DomainStrategy = [], Rules = []\<rparr>"

definition omit_empties :: "string \<Rightarrow> string list \<Rightarrow> (string \<times> json) list" where
  "omit_empties name ws = (if ws = [] then [] else [(name, JArr (map JStr ws))])"

definition rule_json :: "routing_rule_config \<Rightarrow> json" where
  "rule_json r = JObj (omit_empty ''type'' (rc_Type r) @ omit_empties ''domain'' (rc_Domain r)
     @ omit_empties ''inboundTag'' (rc_InboundTag r) @ omit_empties ''ip'' (rc_IP r)
     @ omit_empty ''port'' (rc_Port r) @ omit_empties ''protocol'' (rc_Protocol r)
     @ omit_empty ''network'' (rc_Network r) @ omit_empties ''source'' (rc_Source r)
     @ omit_empty ''outboundTag'' (rc_OutboundTag r))"

definition routing_json :: "routing_config \<Rightarrow> json" where
  "routing_json c = JObj (omit_empty ''domainStrategy'' (DomainStrategy c)
     @ (if Rules c = [] then [] else [(''rules'', JArr (map rule_json (Rules c)))]))"

definition rule_of_members :: "(string \<times> json) list \<Rightarrow> routing_rule_config option" where
  "rule_of_members kvs =
     (case (get_string ''type'' kvs, get_strings ''domain'' kvs, get_strings ''inboundTag'' kvs,
            get_strings ''ip'' kvs, get_string ''port'' kvs, get_strings ''protocol'' kvs,
            get_string ''network'' kvs, get_strings ''source'' kvs, get_string ''outboundTag'' kvs) of
        (Some t, Some d, Some i, Some ip, Some po, Some pr, Some n, Some so, Some ob) \<Rightarrow> Some
          \<lparr>rc_Type = t, rc_Domain = d, rc_InboundTag = i, rc_IP = ip, rc_Port = po, rc_Protocol = pr,
           rc_Network = n, rc_Source = so, rc_OutboundTag = ob\<rparr>
      | _ \<Rightarrow> None)"

definition decode_rule :: "json \<Rightarrow> routing_rule_config option" where
  "decode_rule v = (case v of
       JObj kvs \<Rightarrow> rule_of_members kvs
     | JNull \<Rightarrow> Some zero_rule_config
     | _ \<Rightarrow> None)"

definition decode_rules :: "json \<Rightarrow> routing_rule_config list option" where
  "decode_rules v = (case v of
       JArr vs \<Rightarrow> those (map decode_rule vs)
     | JNull \<Rightarrow> Some []
     | _ \<Rightarrow> None)"

definition decode_routing :: "string \<Rightarrow> routing_config option" where
  "decode_routing raw = (case struct_members raw of
       None \<Rightarrow> None
     | Some kvs \<Rightarrow> (case (get_string ''domainStrategy'' kvs,
           last_decoded decode_rules [] (field_vals ''rules'' kvs)) of
         (Some ds, Some rs) \<Rightarrow> Some \<lparr>DomainStrategy = ds, Rules = rs\<rparr>
       | _ \<Rightarrow> None))"

section \<open>One rule, one outbound\<close>

definition dokodemoFreedomTag :: string where
  "dokodemoFreedomTag = ''dokodemo-freedom''"

definition json_error :: err where
  "json_error = Err ''json: invalid document''"

definition decodeJSONObject :: "string \<Rightarrow> json res" where
  "decodeJSONObject raw =
     (let t = TrimSpace raw; t' = (if t = [] then ''{}'' else t) in
      case Option.bind (parse_json t') as_map of None \<Rightarrow> Inl json_error | Some v \<Rightarrow> Inr v)"

definition decodeJSONArrayStrings :: "string \<Rightarrow> string list res" where
  "decodeJSONArrayStrings raw =
     (let t = TrimSpace raw in
      if t = [] then Inr []
      else case Option.bind (parse_json t) as_strings of None \<Rightarrow> Inl json_error | Some ws \<Rightarrow> Inr ws)"

definition defaultRoutingRuleType :: "string \<Rightarrow> string" where
  "defaultRoutingRuleType value = (let v = TrimSpace value in if v = [] then ''field'' else v)"

definition buildRoutingRuleConfig :: "routing_rule \<Rightarrow> routing_rule_config res" where
  "buildRoutingRuleConfig r =
     (case decodeJSONArrayStrings (rr_Domain r) of Inl e \<Rightarrow> Inl e | Inr domain \<Rightarrow>
     (case decodeJSONArrayStrings (rr_IP r) of Inl e \<Rightarrow> Inl e | Inr ips \<Rightarrow>
     (case decodeJSONArrayStrings (rr_Protocol r) of Inl e \<Rightarrow> Inl e | Inr protos \<Rightarrow>
     (case decodeJSONArrayStrings (rr_Source r) of Inl e \<Rightarrow> Inl e | Inr sources \<Rightarrow>
     (case decodeJSONArrayStrings (rr_InboundTag r) of Inl e \<Rightarrow> Inl e | Inr tags \<Rightarrow>
        Inr \<lparr>rc_Type = defaultRoutingRuleType (rr_Type r), rc_Domain = domain, rc_InboundTag = tags,
             rc_IP = ips, rc_Port = TrimSpace (rr_Port r), rc_Protocol = protos,
             rc_Network = TrimSpace (rr_Network r), rc_Source = sources,
             rc_OutboundTag = rr_OutboundTag r\<rparr>)))))"

record outbound_config =
  oc_Tag :: string
  oc_Protocol :: string
  oc_Settings :: json
  oc_StreamSettings :: "json option"
  oc_Mux :: "json option"

definition optional_object :: "string \<Rightarrow> json option res" where
  "optional_object raw =
     (if TrimSpace raw \<noteq> []
      then (case decodeJSONObject raw of Inl e \<Rightarrow> Inl e | Inr v \<Rightarrow> Inr (Some v))
      else Inr None)"

definition buildOutboundConfig :: "outbound \<Rightarrow> outbound_config res" where
  "buildOutboundConfig o' =
     (case decodeJSONObject (ob_Settings o') of Inl e \<Rightarrow> Inl e | Inr s \<Rightarrow>
     (case optional_object (ob_StreamSettings o') of Inl e \<Rightarrow> Inl e | Inr st \<Rightarrow>
     (case optional_object (ob_Mux o') of Inl e \<Rightarrow> Inl e | Inr m \<Rightarrow>
        Inr \<lparr>oc_Tag = ob_Tag o', oc_Protocol = ob_Protocol o', oc_Settings = s,
             oc_StreamSettings = st, oc_Mux = m\<rparr>)))"

definition present :: "string \<Rightarrow> json option \<Rightarrow> (string \<times> json) list" where
  "present name v = (case v of None \<Rightarrow> [] | Some j \<Rightarrow> [(name, j)])"

definition outbound_json :: "outbound_config \<Rightarrow> json" where
  "outbound_json c = JObj (omit_empty ''tag'' (oc_Tag c)
     @ [(''protocol'', JStr (oc_Protocol c)), (''settings'', oc_Settings c)]
     @ present ''streamSettings'' (oc_StreamSettings c) @ present ''mux'' (oc_Mux c))"

section \<open>Managed outbounds\<close>

definition system_outbound :: "string \<Rightarrow> string \<Rightarrow> outbound" where
  "system_outbound tag proto = \<lparr>ob_Id = 0, ob_Tag = tag, ob_Protocol = proto, ob_Settings = ''{}'',
     ob_StreamSettings = [], ob_Mux = [], ob_Enabled = False, ob_Remark = [], ob_Sort = 0,
     ob_IsSystem = False, ob_CreatedAt = 0, ob_UpdatedAt = 0\<rparr>"

text \<open>The first loop: the rows tagged direct and blocked, and the enabled others.\<close>

fun split_outbounds :: "outbound list \<Rightarrow> outbound option \<times> outbound option \<times> outbound list
    \<Rightarrow> outbound option \<times> outbound option \<times> outbound list" where
  "split_outbounds [] acc = acc"
| "split_outbounds (o' # os) (direct, blocked, us) =
     (if ob_Tag o' = ''direct'' then split_outbounds os (Some o', blocked, us)
      else if ob_Tag o' = ''blocked'' then split_outbounds os (direct, Some o', us)
      else if \<not> ob_Enabled o' then split_outbounds os (direct, blocked, us)
      else if ob_Tag o' = [] \<or> ob_Tag o' = dokodemoFreedomTag then split_outbounds os (direct, blocked, us)
      else split_outbounds os (direct, blocked, us @ [o']))"

definition managed_outbounds :: "outbound list \<Rightarrow> outbound_config list res" where
  "managed_outbounds os = (case split_outbounds os (None, None, []) of (direct, blocked, us) \<Rightarrow>
     (case buildOutboundConfig (case direct of None \<Rightarrow> system_outbound ''direct'' ''freedom'' | Some d \<Rightarrow> d) of
        Inl e \<Rightarrow> Inl e
      | Inr directConfig \<Rightarrow>
     (case buildOutboundConfig (case blocked of None \<Rightarrow> system_outbound ''blocked'' ''blackhole'' | Some b \<Rightarrow> b) of
        Inl e \<Rightarrow> Inl e
      | Inr blockedConfig \<Rightarrow>
     (case map_res buildOutboundConfig (filter (\<lambda>u. ob_Tag u \<noteq> ''direct'' \<and> ob_Tag u \<noteq> ''blocked'') us) of
        Inl e \<Rightarrow> Inl e
      | Inr cs \<Rightarrow> Inr (directConfig # blockedConfig # cs)))))"

definition buildManagedOutboundsForDB :: "handle \<Rightarrow> (panel, string) act" where
  "buildManagedOutboundsForDB h =
     andThen (getOutboundsByDB h True) (\<lambda>os.
     andThen (lift_res (managed_outbounds os)) (\<lambda>cs.
     ret (print_json (JArr (map outbound_json cs)))))"

definition buildManagedOutbounds :: "(panel, string) act" where
  "buildManagedOutbounds = buildManagedOutboundsForDB Conn"

section \<open>The base configuration and managed routing\<close>

definition getBaseXrayConfig :: "(panel, xconfig) act" where
  "getBaseXrayConfig =
     andThen GetXrayConfigTemplate (\<lambda>templateConfig.
     andThen (lift_res (Config_Unmarshal templateConfig)) (\<lambda>xrayConfig.
     ApplyAccessLogSetting xrayConfig))"

definition decode_routing_section :: "bool \<Rightarrow> string \<Rightarrow> routing_config res" where
  "decode_routing_section trim section =
     (let raw = (if trim then TrimSpace section else section) in
      if raw \<noteq> [] \<and> raw \<noteq> ''null''
      then (case decode_routing section of None \<Rightarrow> Inl json_error | Some r \<Rightarrow> Inr r)
      else Inr zero_routing)"

definition api_rule :: routing_rule_config where
  "api_rule = zero_rule_config\<lparr>rc_Type := ''field'', rc_InboundTag := [''api''], rc_OutboundTag := ''api''\<rparr>"

definition managed_routing :: "routing_config \<Rightarrow> routing_rule list \<Rightarrow> routing_config res" where
  "managed_routing base rs = (case map_res buildRoutingRuleConfig (filter rr_Enabled rs) of
       Inl e \<Rightarrow> Inl e
     | Inr cs \<Rightarrow> Inr \<lparr>DomainStrategy = DomainStrategy base, Rules = api_rule # cs\<rparr>)"

definition buildManagedRoutingForDB :: "handle \<Rightarrow> (panel, string) act" where
  "buildManagedRoutingForDB h =
     andThen getBaseXrayConfig (\<lambda>xrayConfig.
     andThen (lift_res (decode_routing_section True (RouterConfig xrayConfig))) (\<lambda>base.
     andThen (getRulesByDB h True) (\<lambda>dbRules.
     andThen (lift_res (managed_routing base dbRules)) (\<lambda>routing.
     ret (print_json (routing_json routing))))))"

definition buildManagedRouting :: "(panel, string) act" where
  "buildManagedRouting = buildManagedRoutingForDB Conn"

section \<open>Dokodemo and tunnel inbounds\<close>

definition is_tunnel :: "inbound \<Rightarrow> bool" where
  "is_tunnel i \<longleftrightarrow> in_Protocol i = Dokodemo \<or> in_Protocol i = Tunnel"

definition tunnel_tags :: "inbound list \<Rightarrow> string list" where
  "tunnel_tags is' = map in_Tag (filter is_tunnel (filter in_Enable is'))"

definition has_tag :: "string \<Rightarrow> json \<Rightarrow> bool" where
  "has_tag tag v = (case v of JObj m \<Rightarrow> obj_index m ''tag'' = JStr tag | _ \<Rightarrow> False)"

definition freedom_outbound :: json where
  "freedom_outbound = JObj (obj_of_members
     [(''protocol'', JStr ''freedom''), (''settings'', JObj []), (''tag'', JStr dokodemoFreedomTag)])"

definition ensureTaggedFreedomOutbound :: "xconfig \<Rightarrow> xconfig res" where
  "ensureTaggedFreedomOutbound c =
     (let raw = OutboundConfigs c in
      case (if raw \<noteq> [] \<and> raw \<noteq> ''null'' then Option.bind (parse_json raw) as_maps else Some (Some [])) of
        None \<Rightarrow> Inl json_error
      | Some ms \<Rightarrow>
          (let outbounds = (case ms of None \<Rightarrow> [] | Some vs \<Rightarrow> vs) in
           if list_ex (has_tag dokodemoFreedomTag) outbounds then Inr c
           else Inr (c\<lparr>OutboundConfigs := print_json (JArr (outbounds @ [freedom_outbound]))\<rparr>)))"

definition tunnel_rule :: "string list \<Rightarrow> routing_rule_config" where
  "tunnel_rule tags = zero_rule_config\<lparr>rc_Type := ''field'', rc_InboundTag := tags,
     rc_OutboundTag := dokodemoFreedomTag\<rparr>"

definition ensure_tunnel :: "(routing_rule_config \<Rightarrow> routing_rule_config list \<Rightarrow> routing_rule_config list)
    \<Rightarrow> xconfig \<Rightarrow> inbound list \<Rightarrow> xconfig res" where
  "ensure_tunnel place c is' =
     (case decode_routing_section False (RouterConfig c) of
        Inl e \<Rightarrow> Inl e
      | Inr routing \<Rightarrow>
          (let tags = tunnel_tags is' in
           if tags = [] then Inr c
           else case ensureTaggedFreedomOutbound c of
               Inl e \<Rightarrow> Inl e
             | Inr c' \<Rightarrow> Inr (c'\<lparr>RouterConfig := print_json (routing_json
                 (routing\<lparr>Rules := place (tunnel_rule tags) (Rules routing)\<rparr>))\<rparr>)))"

definition ensureDokodemoTunnelRouting :: "xconfig \<Rightarrow> inbound list \<Rightarrow> xconfig res" where
  "ensureDokodemoTunnelRouting = ensure_tunnel (\<lambda>r rs. r # rs)"

definition after_first :: "'a \<Rightarrow> 'a list \<Rightarrow> 'a list" where
  "after_first r rs = (case rs of [] \<Rightarrow> [r] | x # xs \<Rightarrow> x # r # xs)"

definition ensureManagedDokodemoTunnelRouting :: "xconfig \<Rightarrow> inbound list \<Rightarrow> xconfig res" where
  "ensureManagedDokodemoTunnelRouting = ensure_tunnel after_first"

section \<open>The whole configuration\<close>

definition add_inbounds :: "xconfig \<Rightarrow> inbound list \<Rightarrow> xconfig" where
  "add_inbounds c is' = c\<lparr>InboundConfigs := InboundConfigs c @ map GenXrayInboundConfig (filter in_Enable is')\<rparr>"

definition tunnel_needed :: "inbound list \<Rightarrow> bool" where
  "tunnel_needed is' = list_ex is_tunnel (filter in_Enable is')"

definition getLegacyXrayConfig :: "(panel, xconfig) act" where
  "getLegacyXrayConfig =
     andThen getBaseXrayConfig (\<lambda>base.
     andThen GetAllInbounds (\<lambda>is'.
       let c = add_inbounds base is' in
       if tunnel_needed is' then lift_res (ensureDokodemoTunnelRouting c is') else ret c))"

definition getManagedXrayConfigForDB :: "handle \<Rightarrow> (panel, xconfig) act" where
  "getManagedXrayConfigForDB h =
     andThen getBaseXrayConfig (\<lambda>base.
     andThen GetAllInbounds (\<lambda>is'.
     andThen (buildManagedOutboundsForDB h) (\<lambda>outboundsRaw.
     andThen (buildManagedRoutingForDB h) (\<lambda>routingRaw.
       let c = (add_inbounds base is')\<lparr>OutboundConfigs := outboundsRaw, RouterConfig := routingRaw\<rparr> in
       if tunnel_needed is' then lift_res (ensureManagedDokodemoTunnelRouting c is') else ret c))))"

definition getManagedXrayConfig :: "(panel, xconfig) act" where
  "getManagedXrayConfig = getManagedXrayConfigForDB Conn"

definition GetXrayConfig :: "(panel, xconfig) act" where
  "GetXrayConfig = andThen GetManagedOutboundsRouting (\<lambda>managed.
     if managed then getManagedXrayConfig else getLegacyXrayConfig)"

end
