(* ===== verification/Xray_Process.thy ===== *)
theory Xray_Process
  imports Xray_Config
begin

text \<open>
  The xray process (src/xray/process.go) and the operations of
  src/web/service/xray.go that start, stop and watch it.  A handler is one step;
  between handlers the operating system moves the process: it is spawned, it
  prints lines, it exits (the relation \<open>proc_step\<close>).  Processes that were
  replaced are kept in \<open>orphans\<close>: they may still run, and the finalizer stops them.
\<close>

section \<open>A process\<close>

definition newProcess :: "xconfig \<Rightarrow> process" where
  "newProcess config = \<lparr>pr_cmd = NoCmd, pr_version = ''Unknown'', pr_apiPort = 0, pr_config = config,
     pr_lines = [], pr_stdout = None, pr_stderr = None, pr_exitErr = None\<rparr>"

definition IsRunning :: "process \<Rightarrow> bool" where
  "IsRunning p = (case pr_cmd p of Started k \<Rightarrow> True | _ \<Rightarrow> False)"

fun err_text :: "err \<Rightarrow> string" where
  "err_text (Err s) = s"
| "err_text (ErrArg s a) = s @ '' '' @ a"
| "err_text NotFound = ''record not found''"
| "err_text (DbErr s) = s"
| "err_text (ExtErr s) = s"
| "err_text (Multi es) = ''multierr: '' @ concat (map (\<lambda>e. err_text e @ '' | '') es)"
| "err_text (Panic s) = s"

definition GetResult :: "process \<Rightarrow> string \<times> process" where
  "GetResult p = (case pr_exitErr p of
       Some e \<Rightarrow> if pr_lines p = [] then (err_text e, p)
         else (Join (pr_lines p) [CHR 0x0A], p\<lparr>pr_lines := []\<rparr>)
     | None \<Rightarrow> (Join (pr_lines p) [CHR 0x0A], p\<lparr>pr_lines := []\<rparr>))"

definition refreshAPIPort :: "process \<Rightarrow> process" where
  "refreshAPIPort p = (case find (\<lambda>i. ic_Tag i = ''api'') (InboundConfigs (pr_config p)) of
       None \<Rightarrow> p | Some i \<Rightarrow> p\<lparr>pr_apiPort := ic_Port i\<rparr>)"

definition refreshVersion :: "string option \<Rightarrow> process \<Rightarrow> process" where
  "refreshVersion output p = p\<lparr>pr_version := (case output of
       None \<Rightarrow> ''Unknown''
     | Some data \<Rightarrow> (case Split data (CHR '' '') of a # b # _ \<Rightarrow> b | _ \<Rightarrow> ''Unknown''))\<rparr>"

section \<open>Log directories\<close>

text \<open>\<open>filepath.Clean\<close> of a path's elements, and \<open>filepath.Dir\<close>.\<close>

fun clean_elems :: "bool \<Rightarrow> string list \<Rightarrow> string list \<Rightarrow> string list" where
  "clean_elems rooted acc [] = acc"
| "clean_elems rooted acc (w # ws) =
     (if w = [] \<or> w = ''.'' then clean_elems rooted acc ws
      else if w = ''..'' then
        (if acc \<noteq> [] \<and> last acc \<noteq> ''..'' then clean_elems rooted (butlast acc) ws
         else if rooted then clean_elems rooted acc ws
         else clean_elems rooted (acc @ [w]) ws)
      else clean_elems rooted (acc @ [w]) ws)"

definition filepath_Dir :: "string \<Rightarrow> string" where
  "filepath_Dir path =
     (let rooted = HasPrefix path ''/'';
          es = clean_elems rooted [] (butlast (Split path (CHR ''/''))) in
      if rooted then ''/'' @ Join es ''/'' else if es = [] then ''.'' else Join es ''/'')"

definition make_log_dir :: "string \<Rightarrow> (panel, unit) act" where
  "make_log_dir path =
     (if path = [] then ret ()
      else let dir = filepath_Dir path in
        if dir = ''.'' \<or> dir = [] then ret () else outside)"

definition log_paths :: "string \<Rightarrow> (string \<times> string) res" where
  "log_paths logConfig = (case struct_members logConfig of
       None \<Rightarrow> Inl (Err ''parse xray log config failed'')
     | Some kvs \<Rightarrow> (case (get_string ''access'' kvs, get_string ''error'' kvs) of
           (Some a, Some e) \<Rightarrow> Inr (a, e)
         | _ \<Rightarrow> Inl (Err ''parse xray log config failed'')))"

definition prepareLogDirectories :: "xconfig \<Rightarrow> (panel, unit) act" where
  "prepareLogDirectories config =
     (let logConfig = TrimSpace (LogConfig config) in
      if logConfig = [] \<or> logConfig = ''null'' then ret ()
      else andThen (lift_res (log_paths logConfig)) (\<lambda>(access, error). for_each make_log_dir [access, error]))"

section \<open>Testing a configuration\<close>

definition marshal_config :: "xconfig \<Rightarrow> (panel, json) act" where
  "marshal_config config = lift_res (case Config_Marshal config of
       None \<Rightarrow> Inl (Err ''marshal xray config failed'') | Some doc \<Rightarrow> Inr doc)"

definition TestConfig :: "xconfig \<Rightarrow> (panel, unit) act" where
  "TestConfig config =
     andThen (prepareLogDirectories config) (\<lambda>_.
     andThen (marshal_config config) (\<lambda>doc.
     andThen outside (\<lambda>_.
     andThen outside (\<lambda>_.
     andThen (on_world (\<lambda>w. w_test w doc)) (\<lambda>r. case r of
         None \<Rightarrow> ret () | Some e \<Rightarrow> throw e)))))"

section \<open>Start and stop\<close>

text \<open>The steps of \<open>Start\<close> up to the goroutines; an error is also kept in \<open>exitErr\<close>.\<close>

definition start_steps :: "xconfig \<Rightarrow> (panel, unit) act" where
  "start_steps config =
     andThen (prepareLogDirectories config) (\<lambda>_.
     andThen (marshal_config config) (\<lambda>doc.
     andThen outside (\<lambda>_.
     andThen (modify (\<lambda>s. s\<lparr>config_file := Some doc\<rparr>)) (\<lambda>_.
     andThen outside (\<lambda>_. outside)))))"

definition Start :: "process \<Rightarrow> (panel, err option \<times> process) act" where
  "Start p =
     (if IsRunning p then ret (Some (Err ''xray is already running''), p)
      else andThen (attempt (start_steps (pr_config p))) (\<lambda>r. case r of
          Inl e \<Rightarrow> ret (Some e, p\<lparr>pr_cmd := NoCmd, pr_exitErr := Some e\<rparr>)
        | Inr _ \<Rightarrow> andThen (on_world w_version) (\<lambda>v.
            ret (None, refreshAPIPort (refreshVersion v (p\<lparr>pr_cmd := Spawning\<rparr>))))))"

definition Stop :: "process \<Rightarrow> (panel, err option \<times> process) act" where
  "Stop p =
     (if \<not> IsRunning p then ret (Some (Err ''xray is not running''), p)
      else andThen (attempt outside) (\<lambda>r. case r of
          Inl e \<Rightarrow> ret (Some e, p)
        | Inr _ \<Rightarrow> ret (None, p\<lparr>pr_cmd := Started True\<rparr>)))"

section \<open>The service\<close>

definition IsXrayRunning :: "(panel, bool) act" where
  "IsXrayRunning = gets (\<lambda>s. case xray_p s of None \<Rightarrow> False | Some p \<Rightarrow> IsRunning p)"

definition GetXrayErr :: "(panel, err option) act" where
  "GetXrayErr = gets (\<lambda>s. case xray_p s of None \<Rightarrow> None | Some p \<Rightarrow> pr_exitErr p)"

definition GetXrayResult :: "(panel, string) act" where
  "GetXrayResult s =
     (if xray_result s \<noteq> [] then (Inr (xray_result s), s)
      else case xray_p s of
          None \<Rightarrow> (Inr [], s)
        | Some p \<Rightarrow> if IsRunning p then (Inr [], s)
            else (case GetResult p of (r, p') \<Rightarrow> (Inr r, s\<lparr>xray_result := r, xray_p := Some p'\<rparr>)))"

definition GetXrayVersion :: "(panel, string) act" where
  "GetXrayVersion = gets (\<lambda>s. case xray_p s of None \<Rightarrow> ''Unknown'' | Some p \<Rightarrow> pr_version p)"

text \<open>The variable \<open>p\<close> gets a new process; the old one is no longer referenced.\<close>

definition set_process :: "process \<Rightarrow> panel \<Rightarrow> panel" where
  "set_process p s = s\<lparr>xray_p := Some p, orphans := (case xray_p s of None \<Rightarrow> orphans s | Some q \<Rightarrow> q # orphans s)\<rparr>"

definition stop_current :: "process \<Rightarrow> (panel, unit) act" where
  "stop_current p = andThen (Stop p) (\<lambda>(_, p'). modify (\<lambda>s. s\<lparr>xray_p := Some p'\<rparr>))"

definition start_new :: "xconfig \<Rightarrow> (panel, err option) act" where
  "start_new config =
     andThen (modify (set_process (newProcess config))) (\<lambda>_.
     andThen (modify (\<lambda>s. s\<lparr>xray_result := []\<rparr>)) (\<lambda>_.
     andThen (Start (newProcess config)) (\<lambda>(e, p').
     andThen (modify (\<lambda>s. s\<lparr>xray_p := Some p'\<rparr>)) (\<lambda>_. ret e))))"

definition try_rollback :: "xconfig \<Rightarrow> (panel, unit) act" where
  "try_rollback oldConfig =
     andThen (Start (newProcess oldConfig)) (\<lambda>(e, p'). case e of
       None \<Rightarrow> modify (set_process p')
     | Some _ \<Rightarrow> ret ())"

definition replace_xray :: "xconfig option \<Rightarrow> xconfig \<Rightarrow> (panel, unit) act" where
  "replace_xray oldConfig xrayConfig =
     andThen (start_new xrayConfig) (\<lambda>err. case err of
       None \<Rightarrow> ret ()
     | Some e \<Rightarrow> andThen (case oldConfig of None \<Rightarrow> ret () | Some c \<Rightarrow> try_rollback c) (\<lambda>_. throw e))"

definition RestartXray :: "bool \<Rightarrow> (panel, unit) act" where
  "RestartXray isForce =
     andThen GetXrayConfig (\<lambda>xrayConfig.
     andThen (TestConfig xrayConfig) (\<lambda>_.
     andThen (gets xray_p) (\<lambda>q. case q of
       Some p \<Rightarrow>
         if IsRunning p then
           (if \<not> isForce \<and> Config_Equals (pr_config p) xrayConfig then ret ()
            else andThen (stop_current p) (\<lambda>_. replace_xray (Some (pr_config p)) xrayConfig))
         else replace_xray None xrayConfig
     | None \<Rightarrow> replace_xray None xrayConfig)))"

definition StopXray :: "(panel, unit) act" where
  "StopXray = andThen (gets xray_p) (\<lambda>q. case q of
       None \<Rightarrow> throw (Err ''xray is not running'')
     | Some p \<Rightarrow>
         if IsRunning p then andThen (Stop p) (\<lambda>(e, p').
           andThen (modify (\<lambda>s. s\<lparr>xray_p := Some p'\<rparr>)) (\<lambda>_. case e of None \<Rightarrow> ret () | Some x \<Rightarrow> throw x))
         else throw (Err ''xray is not running''))"

definition SetToNeedRestart :: "(panel, unit) act" where
  "SetToNeedRestart = modify (\<lambda>s. s\<lparr>isNeedXrayRestart := True\<rparr>)"

definition IsNeedRestartAndSetFalse :: "(panel, bool) act" where
  "IsNeedRestartAndSetFalse s = (Inr (isNeedXrayRestart s), s\<lparr>isNeedXrayRestart := False\<rparr>)"

definition ValidateManagedXrayConfig :: "(panel, unit) act" where
  "ValidateManagedXrayConfig = andThen GetXrayConfig TestConfig"

definition validateManagedXrayConfigForDB :: "handle \<Rightarrow> (panel, unit) act" where
  "validateManagedXrayConfigForDB h = andThen (getManagedXrayConfigForDB h) TestConfig"

definition ApplyManagedXrayIfEnabled :: "(panel, unit) act" where
  "ApplyManagedXrayIfEnabled =
     andThen GetManagedOutboundsRouting (\<lambda>managed.
     if \<not> managed then ret ()
     else andThen ValidateManagedXrayConfig (\<lambda>_. RestartXray False))"

section \<open>Traffic\<close>

text \<open>\<open>trafficRegex\<close> at the start of a text: the direction, the tag, the kind.\<close>

definition match_kind :: "string \<Rightarrow> bool option" where
  "match_kind s = (if HasPrefix s ''downlink'' then Some True
     else if HasPrefix s ''uplink'' then Some False else None)"

definition match_rest :: "string \<Rightarrow> (string \<times> bool) option" where
  "match_rest s = (let tag = takeWhile (\<lambda>c. c \<noteq> CHR ''>'') s; r = drop (length tag) s in
     if tag = [] \<or> \<not> HasPrefix r ''>>>traffic>>>'' then None
     else map_option (\<lambda>d. (tag, d)) (match_kind (drop 13 r)))"

definition match_here :: "string \<Rightarrow> (bool \<times> string \<times> bool) option" where
  "match_here s =
     (if HasPrefix s ''inbound>>>'' then map_option (\<lambda>m. (True, m)) (match_rest (drop 10 s))
      else if HasPrefix s ''outbound>>>'' then map_option (\<lambda>m. (False, m)) (match_rest (drop 11 s))
      else None)"

text \<open>\<open>FindStringSubmatch\<close>: the leftmost match; \<open>None\<close> is the nil slice.\<close>

fun trafficRegex :: "string \<Rightarrow> (bool \<times> string \<times> bool) option" where
  "trafficRegex [] = None"
| "trafficRegex (c # s) = (case match_here (c # s) of Some m \<Rightarrow> Some m | None \<Rightarrow> trafficRegex s)"

text \<open>The map from tags to records, in the order in which the records were appended.\<close>

definition put_traffic :: "bool \<Rightarrow> string \<Rightarrow> bool \<Rightarrow> int \<Rightarrow> traffic list \<Rightarrow> traffic list" where
  "put_traffic isInbound tag isDown v ts =
     (let ts' = (if list_ex (\<lambda>t. t_Tag t = tag) ts then ts
                 else ts @ [\<lparr>t_IsInbound = isInbound, t_Tag = tag, t_Up = 0, t_Down = 0\<rparr>])
      in map (\<lambda>t. if t_Tag t = tag then (if isDown then t\<lparr>t_Down := v\<rparr> else t\<lparr>t_Up := v\<rparr>) else t) ts')"

fun collect_traffic :: "(string \<times> int) list \<Rightarrow> traffic list \<Rightarrow> traffic list res" where
  "collect_traffic [] ts = Inr ts"
| "collect_traffic ((name, v) # stats) ts = (case trafficRegex name of
       None \<Rightarrow> Inl (Panic ''index out of range [1] with length 0'')
     | Some (isInbound, tag, isDown) \<Rightarrow>
         if tag = ''api'' then collect_traffic stats ts
         else collect_traffic stats (put_traffic isInbound tag isDown v ts))"

text \<open>\<open>reply\<close> is the answer of xray's statistics service.\<close>

definition GetTraffic :: "process \<Rightarrow> (string \<times> int) list res \<Rightarrow> traffic list res" where
  "GetTraffic p reply =
     (if pr_apiPort p = 0 then Inl (ErrArg ''xray api port wrong:'' (Itoa (pr_apiPort p)))
      else case reply of Inl e \<Rightarrow> Inl e | Inr stats \<Rightarrow> collect_traffic stats [])"

definition GetXrayTraffic :: "(string \<times> int) list res \<Rightarrow> (panel, traffic list) act" where
  "GetXrayTraffic reply = andThen (gets xray_p) (\<lambda>q. case q of
       None \<Rightarrow> throw (Err ''xray is not running'')
     | Some p \<Rightarrow> if IsRunning p then lift_res (GetTraffic p reply)
         else throw (Err ''xray is not running''))"

section \<open>What the operating system does\<close>

definition max_lines :: nat where "max_lines = 100"

text \<open>A reader makes room for the line it has read, and later puts it into the queue.\<close>

definition make_room :: "string list \<Rightarrow> string list" where
  "make_room ls = (if max_lines \<le> length ls then drop 1 ls else ls)"

definition has_run :: "process \<Rightarrow> bool" where
  "has_run p \<longleftrightarrow> pr_cmd p \<in> {Started False, Started True, Exited}"

inductive proc_step :: "process \<Rightarrow> process \<Rightarrow> bool" where
  spawned: "pr_cmd p = Spawning \<Longrightarrow> proc_step p (p\<lparr>pr_cmd := Started False\<rparr>)"
| spawn_failed: "pr_cmd p = Spawning \<Longrightarrow> proc_step p (p\<lparr>pr_cmd := NoCmd, pr_exitErr := Some e\<rparr>)"
| exited: "pr_cmd p = Started k \<Longrightarrow> proc_step p (p\<lparr>pr_cmd := Exited,
     pr_exitErr := (case r of None \<Rightarrow> pr_exitErr p | Some e \<Rightarrow> Some e)\<rparr>)"
| out_room: "has_run p \<Longrightarrow> pr_stdout p = None \<Longrightarrow> proc_step p (p\<lparr>pr_lines := make_room (pr_lines p), pr_stdout := Some l\<rparr>)"
| out_put: "pr_stdout p = Some l \<Longrightarrow> proc_step p (p\<lparr>pr_lines := pr_lines p @ [l], pr_stdout := None\<rparr>)"
| err_room: "has_run p \<Longrightarrow> pr_stderr p = None \<Longrightarrow> proc_step p (p\<lparr>pr_lines := make_room (pr_lines p), pr_stderr := Some l\<rparr>)"
| err_put: "pr_stderr p = Some l \<Longrightarrow> proc_step p (p\<lparr>pr_lines := pr_lines p @ [l], pr_stderr := None\<rparr>)"
| taken: "proc_step p (snd (GetResult p))"

end
