(* ===== verification/Outbounds.thy ===== *)
theory Outbounds
  imports Xray_Process
begin

text \<open>
  src/web/service/outbound.go: the validation of an outbound, the handlers that
  change the table inside a transaction, and \<open>commitManagedChange\<close>, by which every
  change of an outbound or a rule is tested, committed and applied to xray.
\<close>

section \<open>Validation\<close>

definition allowedOutboundProtocols :: "string list" where
  "allowedOutboundProtocols =
     [''freedom'', ''blackhole'', ''socks'', ''vmess'', ''vless'', ''trojan'', ''shadowsocks'']"

definition is_tag_char :: "char \<Rightarrow> bool" where
  "is_tag_char c \<longleftrightarrow> in_range 65 90 c \<or> in_range 97 122 c \<or> is_digit c \<or> c \<in> set ''_.-''"

definition outboundTagRegexp :: "string \<Rightarrow> bool" where
  "outboundTagRegexp s \<longleftrightarrow> s \<noteq> [] \<and> list_all is_tag_char s"

definition isReservedSystemTag :: "string \<Rightarrow> bool" where
  "isReservedSystemTag tag \<longleftrightarrow> EqualFold tag ''direct'' \<or> EqualFold tag ''blocked''"

text \<open>\<open>json.Unmarshal\<close> into an \<open>interface{}\<close> and the type assertion behind it.\<close>

definition validateJSONObjectString :: "string \<Rightarrow> err option" where
  "validateJSONObjectString raw = (case Option.bind (parse_json raw) decode_any of
       None \<Rightarrow> Some json_error
     | Some v \<Rightarrow> if is_object v = None then Some (Err ''not json object'') else None)"

definition trim_outbound :: "outbound \<Rightarrow> outbound" where
  "trim_outbound o' = o'\<lparr>ob_Tag := TrimSpace (ob_Tag o'),
     ob_Protocol := TrimSpace (ToLower (ob_Protocol o')), ob_Settings := TrimSpace (ob_Settings o'),
     ob_StreamSettings := TrimSpace (ob_StreamSettings o'), ob_Mux := TrimSpace (ob_Mux o'),
     ob_Remark := TrimSpace (ob_Remark o')\<rparr>"

definition ValidateOutbound :: "outbound \<Rightarrow> outbound res" where
  "ValidateOutbound ob =
     (let o' = trim_outbound ob in
      if ob_Tag o' = [] then Inl (Err ''OUTBOUND_TAG_REQUIRED: tag is required'')
      else if 64 < length (ob_Tag o') then Inl (Err ''OUTBOUND_TAG_INVALID: tag format is invalid'')
      else if \<not> outboundTagRegexp (ob_Tag o') then Inl (Err ''OUTBOUND_TAG_INVALID: tag format is invalid'')
      else if EqualFold (ob_Tag o') ''api'' then Inl (Err ''OUTBOUND_TAG_FORBIDDEN: tag api is reserved'')
      else if ob_Protocol o' \<notin> set allowedOutboundProtocols
      then Inl (Err ''OUTBOUND_PROTOCOL_INVALID: protocol is not supported'')
      else if validateJSONObjectString (ob_Settings o') \<noteq> None
      then Inl (Err ''OUTBOUND_SETTINGS_INVALID: settings must be a valid JSON object'')
      else if ob_StreamSettings o' \<noteq> [] \<and> validateJSONObjectString (ob_StreamSettings o') \<noteq> None
      then Inl (Err ''OUTBOUND_STREAM_SETTINGS_INVALID: streamSettings must be a valid JSON object'')
      else if ob_Mux o' \<noteq> [] \<and> validateJSONObjectString (ob_Mux o') \<noteq> None
      then Inl (Err ''OUTBOUND_MUX_INVALID: mux must be a valid JSON object'')
      else if 255 < length (ob_Remark o') then Inl (Err ''OUTBOUND_REMARK_TOO_LONG: remark is too long'')
      else Inr (o'\<lparr>ob_Sort := (if ob_Sort o' = 0 then 1000 else ob_Sort o')\<rparr>))"

section \<open>Committing a change\<close>

definition validate_if :: "bool \<Rightarrow> (panel, unit) act" where
  "validate_if managed = (if managed then validateManagedXrayConfigForDB Tx else ret ())"

definition commitManagedChange :: "(panel, bool) act" where
  "commitManagedChange =
     andThen (or_rollback GetManagedOutboundsRouting) (\<lambda>managed.
     andThen (or_rollback (validate_if managed)) (\<lambda>_.
     andThen commit_tx (\<lambda>_.
     if \<not> managed then ret False
     else andThen ApplyManagedXrayIfEnabled (\<lambda>_. ret True))))"

section \<open>The handlers\<close>

definition AddOutbound :: "outbound \<Rightarrow> (panel, bool \<times> outbound) act" where
  "AddOutbound ob0 =
     andThen (lift_res (ValidateOutbound ob0)) (\<lambda>ob.
     andThen (reject (isReservedSystemTag (ob_Tag ob)) (Err ''OUTBOUND_TAG_RESERVED: reserved system tag'')) (\<lambda>_.
     andThen (reject (ob_IsSystem ob) (Err ''OUTBOUND_IS_SYSTEM_FORBIDDEN: user cannot create system outbound'')) (\<lambda>_.
     andThen begin_tx (\<lambda>_.
     andThen (or_rollback (isOutboundTagExistsByDB Tx (ob_Tag ob) 0)) (\<lambda>exists.
     andThen (abort_if exists (Err ''OUTBOUND_TAG_DUPLICATE: tag already exists'')) (\<lambda>_.
     andThen (or_rollback (stmt_now Tx (\<lambda>t. create_outbound t ob))) (\<lambda>created.
     andThen commitManagedChange (\<lambda>applied. ret (applied, created)))))))))"

definition system_change_forbidden :: "outbound \<Rightarrow> outbound \<Rightarrow> bool" where
  "system_change_forbidden ob current \<longleftrightarrow>
     (ob_Tag ob \<noteq> [] \<and> ob_Tag ob \<noteq> ob_Tag current)
   \<or> (TrimSpace (ob_Protocol ob) \<noteq> [] \<and> ToLower (TrimSpace (ob_Protocol ob)) \<noteq> ob_Protocol current)
   \<or> (TrimSpace (ob_Settings ob) \<noteq> [] \<and> TrimSpace (ob_Settings ob) \<noteq> ob_Settings current)
   \<or> (TrimSpace (ob_StreamSettings ob) \<noteq> [] \<and> TrimSpace (ob_StreamSettings ob) \<noteq> ob_StreamSettings current)
   \<or> (TrimSpace (ob_Mux ob) \<noteq> [] \<and> TrimSpace (ob_Mux ob) \<noteq> ob_Mux current)"

definition update_system_outbound :: "outbound \<Rightarrow> outbound \<Rightarrow> (panel, bool) act" where
  "update_system_outbound ob current =
     (let remark = TrimSpace (ob_Remark ob);
          changed = current\<lparr>ob_Remark := remark,
            ob_Sort := (if ob_Sort ob \<noteq> 0 \<or> ob_Sort current = 0 then ob_Sort ob else ob_Sort current)\<rparr> in
      andThen (abort_if (system_change_forbidden ob current)
        (Err ''OUTBOUND_SYSTEM_UPDATE_RESTRICTED: system outbound only allows remark and sort changes'')) (\<lambda>_.
      andThen (abort_if (255 < length remark) (Err ''OUTBOUND_REMARK_TOO_LONG: remark is too long'')) (\<lambda>_.
      andThen (or_rollback (stmt_now Tx (\<lambda>t. save_outbound t changed))) (\<lambda>_. commitManagedChange))))"

definition merge_outbound :: "outbound \<Rightarrow> outbound \<Rightarrow> outbound" where
  "merge_outbound current ob = current\<lparr>ob_Tag := ob_Tag ob, ob_Protocol := ob_Protocol ob,
     ob_Settings := ob_Settings ob, ob_StreamSettings := ob_StreamSettings ob, ob_Mux := ob_Mux ob,
     ob_Enabled := ob_Enabled ob, ob_Remark := ob_Remark ob, ob_Sort := ob_Sort ob\<rparr>"

definition update_user_outbound :: "outbound \<Rightarrow> outbound \<Rightarrow> (panel, bool) act" where
  "update_user_outbound ob0 current =
     andThen (abort_if (ob_IsSystem ob0) (Err ''OUTBOUND_IS_SYSTEM_FORBIDDEN: user cannot create system outbound'')) (\<lambda>_.
     andThen (or_rollback (lift_res (ValidateOutbound ob0))) (\<lambda>ob.
     andThen (abort_if (isReservedSystemTag (ob_Tag ob)) (Err ''OUTBOUND_TAG_RESERVED: reserved system tag'')) (\<lambda>_.
     andThen (or_rollback (isOutboundTagExistsByDB Tx (ob_Tag ob) (ob_Id ob))) (\<lambda>exists.
     andThen (abort_if exists (Err ''OUTBOUND_TAG_DUPLICATE: tag already exists'')) (\<lambda>_.
     andThen (or_rollback (stmt_now Tx (\<lambda>t. save_outbound t (merge_outbound current ob)))) (\<lambda>_.
     commitManagedChange))))))"

definition UpdateOutbound :: "outbound \<Rightarrow> (panel, bool) act" where
  "UpdateOutbound ob =
     andThen (reject (ob_Id ob \<le> 0) (Err ''OUTBOUND_NOT_FOUND: outbound not found'')) (\<lambda>_.
     andThen begin_tx (\<lambda>_.
     andThen (or_rollback (getOutboundByDB Tx (ob_Id ob))) (\<lambda>current.
     if ob_IsSystem current then update_system_outbound ob current else update_user_outbound ob current)))"

definition DeleteOutbound :: "int \<Rightarrow> (panel, bool) act" where
  "DeleteOutbound i =
     andThen begin_tx (\<lambda>_.
     andThen (or_rollback (getOutboundByDB Tx i)) (\<lambda>ob.
     andThen (abort_if (ob_IsSystem ob \<or> isReservedSystemTag (ob_Tag ob))
       (Err ''OUTBOUND_SYSTEM_DELETE_FORBIDDEN: system outbound cannot be deleted'')) (\<lambda>_.
     andThen (or_rollback (countOutboundRefsByDB Tx (ob_Tag ob))) (\<lambda>refCount.
     andThen (abort_if (0 < refCount) (Err ''OUTBOUND_IN_USE: outbound is referenced by routing rules'')) (\<lambda>_.
     andThen (or_rollback (stmt Tx (delete_outbound i))) (\<lambda>_. commitManagedChange))))))"

definition ToggleOutbound :: "int \<Rightarrow> bool \<Rightarrow> (panel, bool) act" where
  "ToggleOutbound i enabled =
     andThen begin_tx (\<lambda>_.
     andThen (or_rollback (getOutboundByDB Tx i)) (\<lambda>ob.
     andThen (abort_if (\<not> enabled \<and> (ob_IsSystem ob \<or> isReservedSystemTag (ob_Tag ob)))
       (Err ''OUTBOUND_SYSTEM_DISABLE_FORBIDDEN: system outbound cannot be disabled'')) (\<lambda>_.
     andThen (or_rollback (stmt_now Tx (\<lambda>t. update_outbound t i (\<lambda>o'. o'\<lparr>ob_Enabled := enabled\<rparr>)))) (\<lambda>_.
     commitManagedChange))))"

section \<open>The rows every database starts with\<close>

text \<open>\<open>initOutbound\<close> of src/database/db.go; the loop variable is passed to \<open>Create\<close>.\<close>

definition system_outbounds :: "outbound list" where
  "system_outbounds =
     [(system_outbound ''direct'' ''freedom'')\<lparr>ob_Enabled := True, ob_Remark := ''System Direct'',
        ob_Sort := 0, ob_IsSystem := True\<rparr>,
      (system_outbound ''blocked'' ''blackhole'')\<lparr>ob_Enabled := True, ob_Remark := ''System Block'',
        ob_Sort := 10, ob_IsSystem := True\<rparr>]"

definition outbound_by_tag :: "string \<Rightarrow> database \<Rightarrow> outbound res" where
  "outbound_by_tag tag d = (case find (\<lambda>r. ob_Tag r = tag) (tbl_outbounds d) of
       None \<Rightarrow> Inl NotFound | Some r \<Rightarrow> Inr r)"

definition ensure_system_outbound :: "outbound \<Rightarrow> (panel, unit) act" where
  "ensure_system_outbound ob =
     andThen (attempt (query Conn (outbound_by_tag (ob_Tag ob)))) (\<lambda>r. case r of
       Inl e \<Rightarrow>
         if e = NotFound then andThen (stmt_now Conn (\<lambda>t. create_outbound t ob)) (\<lambda>_. ret ())
         else throw e
     | Inr existing \<Rightarrow>
         if \<not> ob_IsSystem existing
         then stmt_now Conn (\<lambda>t. update_outbound t (ob_Id existing) (\<lambda>o'. o'\<lparr>ob_IsSystem := True\<rparr>))
         else ret ())"

definition initOutbound :: "(panel, unit) act" where
  "initOutbound = andThen outside (\<lambda>_. for_each ensure_system_outbound system_outbounds)"

end
