(* ===== verification/Routing.thy ===== *)
theory Routing
  imports Outbounds
begin

text \<open>
  src/web/service/routing.go: the validation of a routing rule, its handlers, the
  reordering and the AI template.
\<close>

section \<open>Validation\<close>

definition validateJSONArrayString :: "string \<Rightarrow> err option" where
  "validateJSONArrayString raw =
     (if TrimSpace raw = [] then None
      else case Option.bind (parse_json raw) decode_any of
          None \<Rightarrow> Some json_error
        | Some v \<Rightarrow> (case v of JArr vs \<Rightarrow> None | _ \<Rightarrow> Some (Err ''not json array'')))"

definition trim_rule :: "routing_rule \<Rightarrow> routing_rule" where
  "trim_rule r = r\<lparr>rr_Type := TrimSpace (rr_Type r), rr_Domain := TrimSpace (rr_Domain r),
     rr_IP := TrimSpace (rr_IP r), rr_Port := TrimSpace (rr_Port r),
     rr_Protocol := TrimSpace (rr_Protocol r), rr_Network := TrimSpace (rr_Network r),
     rr_Source := TrimSpace (rr_Source r), rr_InboundTag := TrimSpace (rr_InboundTag r),
     rr_OutboundTag := TrimSpace (rr_OutboundTag r), rr_Remark := TrimSpace (rr_Remark r)\<rparr>"

definition default_type :: "routing_rule \<Rightarrow> routing_rule" where
  "default_type r = (if rr_Type r = [] then r\<lparr>rr_Type := ''field''\<rparr> else r)"

definition no_match :: "routing_rule \<Rightarrow> bool" where
  "no_match r \<longleftrightarrow> rr_Domain r = [] \<and> rr_IP r = [] \<and> rr_Port r = [] \<and> rr_Protocol r = []
     \<and> rr_Network r = [] \<and> rr_Source r = [] \<and> rr_InboundTag r = []"

text \<open>The checks behind the look-up of the tag.\<close>

definition check_rule :: "routing_rule \<Rightarrow> routing_rule res" where
  "check_rule r =
     (if no_match r then Inl (Err ''ROUTING_RULE_MATCH_REQUIRED: at least one match condition is required'')
      else if validateJSONArrayString (rr_Domain r) \<noteq> None
      then Inl (Err ''ROUTING_RULE_DOMAIN_INVALID: domain must be a valid JSON array'')
      else if validateJSONArrayString (rr_IP r) \<noteq> None
      then Inl (Err ''ROUTING_RULE_IP_INVALID: ip must be a valid JSON array'')
      else if validateJSONArrayString (rr_Protocol r) \<noteq> None
      then Inl (Err ''ROUTING_RULE_PROTOCOL_INVALID: protocol must be a valid JSON array'')
      else if validateJSONArrayString (rr_Source r) \<noteq> None
      then Inl (Err ''ROUTING_RULE_SOURCE_INVALID: source must be a valid JSON array'')
      else if validateJSONArrayString (rr_InboundTag r) \<noteq> None
      then Inl (Err ''ROUTING_RULE_INBOUND_TAG_INVALID: inboundTag must be a valid JSON array'')
      else if 255 < length (rr_Remark r) then Inl (Err ''ROUTING_RULE_REMARK_TOO_LONG: remark is too long'')
      else Inr (r\<lparr>rr_Sort := (if rr_Sort r = 0 then 1000 else rr_Sort r)\<rparr>))"

definition ValidateRule :: "routing_rule \<Rightarrow> (panel, routing_rule) act" where
  "ValidateRule rule0 =
     (let r = default_type (trim_rule rule0) in
      andThen (reject (rr_Type r \<noteq> ''field'') (Err ''ROUTING_RULE_TYPE_INVALID: type must be field'')) (\<lambda>_.
      andThen (reject (rr_OutboundTag r = []) (Err ''ROUTING_RULE_OUTBOUND_TAG_REQUIRED: outboundTag is required'')) (\<lambda>_.
      andThen (outboundTagExists (rr_OutboundTag r)) (\<lambda>exists.
      andThen (reject (\<not> exists) (Err ''ROUTING_RULE_OUTBOUND_TAG_NOT_FOUND: outboundTag not found'')) (\<lambda>_.
      lift_res (check_rule r))))))"

section \<open>The handlers\<close>

definition AddRule :: "routing_rule \<Rightarrow> (panel, bool \<times> routing_rule) act" where
  "AddRule rule0 =
     andThen (reject (rr_IsSystem rule0)
       (Err ''ROUTING_RULE_IS_SYSTEM_FORBIDDEN: user cannot create system routing rule'')) (\<lambda>_.
     andThen (ValidateRule rule0) (\<lambda>r.
     andThen begin_tx (\<lambda>_.
     andThen (or_rollback (stmt_now Tx (\<lambda>t. create_rule t r))) (\<lambda>created.
     andThen commitManagedChange (\<lambda>applied. ret (applied, created))))))"

definition differs :: "string \<Rightarrow> string \<Rightarrow> bool" where
  "differs given current \<longleftrightarrow> TrimSpace given \<noteq> [] \<and> TrimSpace given \<noteq> current"

definition system_rule_change_forbidden :: "routing_rule \<Rightarrow> routing_rule \<Rightarrow> bool" where
  "system_rule_change_forbidden r c \<longleftrightarrow>
     differs (rr_Type r) (rr_Type c) \<or> differs (rr_Domain r) (rr_Domain c) \<or> differs (rr_IP r) (rr_IP c)
   \<or> differs (rr_Port r) (rr_Port c) \<or> differs (rr_Protocol r) (rr_Protocol c)
   \<or> differs (rr_Network r) (rr_Network c) \<or> differs (rr_Source r) (rr_Source c)
   \<or> differs (rr_InboundTag r) (rr_InboundTag c) \<or> differs (rr_OutboundTag r) (rr_OutboundTag c)"

definition update_system_rule :: "routing_rule \<Rightarrow> routing_rule \<Rightarrow> (panel, bool) act" where
  "update_system_rule r current =
     (let remark = TrimSpace (rr_Remark r);
          srt = (if rr_Sort r \<noteq> 0 \<or> rr_Sort current = 0 then rr_Sort r else rr_Sort current) in
      andThen (abort_if (system_rule_change_forbidden r current)
        (Err ''ROUTING_RULE_SYSTEM_UPDATE_RESTRICTED: system routing rule only allows remark and sort changes'')) (\<lambda>_.
      andThen (abort_if (255 < length remark) (Err ''ROUTING_RULE_REMARK_TOO_LONG: remark is too long'')) (\<lambda>_.
      andThen (or_rollback (stmt_now Tx (\<lambda>t. update_rule t (rr_Id current)
        (\<lambda>x. x\<lparr>rr_Remark := remark, rr_Sort := srt\<rparr>)))) (\<lambda>_. commitManagedChange))))"

definition merge_rule :: "routing_rule \<Rightarrow> routing_rule \<Rightarrow> routing_rule" where
  "merge_rule r x = x\<lparr>rr_Type := rr_Type r, rr_Domain := rr_Domain r, rr_IP := rr_IP r,
     rr_Port := rr_Port r, rr_Protocol := rr_Protocol r, rr_Network := rr_Network r,
     rr_Source := rr_Source r, rr_InboundTag := rr_InboundTag r, rr_OutboundTag := rr_OutboundTag r,
     rr_Enabled := rr_Enabled r, rr_Remark := rr_Remark r, rr_Sort := rr_Sort r\<rparr>"

definition update_user_rule :: "routing_rule \<Rightarrow> routing_rule \<Rightarrow> (panel, bool) act" where
  "update_user_rule rule0 current =
     andThen (abort_if (rr_IsSystem rule0)
       (Err ''ROUTING_RULE_IS_SYSTEM_FORBIDDEN: user cannot create system routing rule'')) (\<lambda>_.
     andThen (or_rollback (ValidateRule rule0)) (\<lambda>r.
     andThen (or_rollback (stmt_now Tx (\<lambda>t. update_rule t (rr_Id current) (merge_rule r)))) (\<lambda>_.
     commitManagedChange)))"

definition UpdateRule :: "routing_rule \<Rightarrow> (panel, bool) act" where
  "UpdateRule r =
     andThen (reject (rr_Id r \<le> 0) (Err ''ROUTING_RULE_NOT_FOUND: routing rule not found'')) (\<lambda>_.
     andThen begin_tx (\<lambda>_.
     andThen (or_rollback (getRuleByDB Tx (rr_Id r))) (\<lambda>current.
     if rr_IsSystem current then update_system_rule r current else update_user_rule r current)))"

definition DeleteRule :: "int \<Rightarrow> (panel, bool) act" where
  "DeleteRule i =
     andThen begin_tx (\<lambda>_.
     andThen (or_rollback (getRuleByDB Tx i)) (\<lambda>r.
     andThen (abort_if (rr_IsSystem r)
       (Err ''ROUTING_RULE_SYSTEM_DELETE_FORBIDDEN: system routing rule cannot be deleted'')) (\<lambda>_.
     andThen (or_rollback (stmt Tx (delete_rule i))) (\<lambda>_. commitManagedChange))))"

definition ToggleRule :: "int \<Rightarrow> bool \<Rightarrow> (panel, bool) act" where
  "ToggleRule i enabled =
     andThen begin_tx (\<lambda>_.
     andThen (or_rollback (getRuleByDB Tx i)) (\<lambda>r.
     andThen (abort_if (\<not> enabled \<and> rr_IsSystem r)
       (Err ''ROUTING_RULE_SYSTEM_DISABLE_FORBIDDEN: system routing rule cannot be disabled'')) (\<lambda>_.
     andThen (or_rollback (stmt_now Tx (\<lambda>t. update_rule t i (\<lambda>x. x\<lparr>rr_Enabled := enabled\<rparr>)))) (\<lambda>_.
     commitManagedChange))))"

record reorder_item =
  ri_Id :: int
  ri_Sort :: int

definition reorder_one :: "reorder_item \<Rightarrow> (panel, unit) act" where
  "reorder_one item =
     andThen (or_rollback (getRuleByDB Tx (ri_Id item))) (\<lambda>_.
     or_rollback (stmt_now Tx (\<lambda>t. update_rule t (ri_Id item)
       (\<lambda>x. x\<lparr>rr_Sort := (if ri_Sort item = 0 then 1000 else ri_Sort item)\<rparr>))))"

definition ReorderRules :: "reorder_item list \<Rightarrow> (panel, bool) act" where
  "ReorderRules items =
     (if items = [] then ret False
      else andThen begin_tx (\<lambda>_. andThen (for_each reorder_one items) (\<lambda>_. commitManagedChange)))"

section \<open>The AI template\<close>

definition ai_specs :: "(string \<times> int \<times> string list) list" where
  "ai_specs =
     [(''OpenAI'', 10, [''geosite:openai'', ''domain:openai.com'', ''domain:chatgpt.com'',
         ''domain:oaistatic.com'', ''domain:oaiusercontent.com'', ''domain:openai.azure.com'']),
      (''Anthropic'', 20, [''domain:anthropic.com'', ''domain:claude.ai'']),
      (''Google AI'', 30, [''geosite:google'', ''domain:googleapis.com'',
         ''domain:generativelanguage.googleapis.com'', ''domain:ai.google.dev'',
         ''domain:makersuite.google.com'', ''domain:gemini.google.com'']),
      (''xAI'', 40, [''domain:x.ai'', ''domain:grok.com'']),
      (''Perplexity'', 50, [''domain:perplexity.ai'']),
      (''Poe'', 60, [''domain:poe.com'']),
      (''Cursor'', 70, [''domain:cursor.sh'', ''domain:cursor.com'']),
      (''GitHub Copilot'', 80, [''geosite:github'', ''domain:github.com'', ''domain:githubusercontent.com'',
         ''domain:githubcopilot.com'', ''domain:copilot.microsoft.com'']),
      (''HuggingFace'', 90, [''domain:huggingface.co'', ''domain:hf.space''])]"

definition buildAITemplateCandidates :: "string \<Rightarrow> int \<Rightarrow> string \<Rightarrow> routing_rule list" where
  "buildAITemplateCandidates outboundTag sortBase0 remarkPrefix0 =
     (let sortBase = (if sortBase0 = 0 then 100 else sortBase0);
          remarkPrefix = (if TrimSpace remarkPrefix0 = [] then ''AI'' else remarkPrefix0) in
      map (\<lambda>(name, off, domain).
        \<lparr>rr_Id = 0, rr_Type = ''field'', rr_Domain = print_json (JArr (map JStr domain)), rr_IP = [],
         rr_Port = [], rr_Protocol = [], rr_Network = [], rr_Source = [], rr_InboundTag = [],
         rr_OutboundTag = outboundTag, rr_Enabled = True,
         rr_Remark = TrimSpace remarkPrefix @ '' '' @ name, rr_Sort = wrap64 (sortBase + off),
         rr_IsSystem = False, rr_CreatedAt = 0, rr_UpdatedAt = 0\<rparr>) ai_specs)"

definition routingRuleFingerprint :: "routing_rule \<Rightarrow> string" where
  "routingRuleFingerprint r = Join (map TrimSpace [rr_Domain r, rr_IP r, rr_Port r, rr_Protocol r,
     rr_Network r, rr_Source r, rr_InboundTag r, rr_OutboundTag r]) ''||''"

text \<open>The loop over the candidates: the fingerprints seen, and the two counts.\<close>

fun add_candidates :: "routing_rule list \<Rightarrow> string list \<Rightarrow> nat \<Rightarrow> nat \<Rightarrow> (panel, nat \<times> nat) act" where
  "add_candidates [] fps created skipped = ret (created, skipped)"
| "add_candidates (c # cs) fps created skipped =
     (let fp = routingRuleFingerprint c in
      if fp \<in> set fps then add_candidates cs fps created (Suc skipped)
      else andThen (or_rollback (stmt_now Tx (\<lambda>t. create_rule t c))) (\<lambda>_.
        add_candidates cs (fp # fps) (Suc created) skipped))"

definition ApplyAITemplate :: "string \<Rightarrow> int \<Rightarrow> string \<Rightarrow> (panel, nat \<times> nat \<times> bool) act" where
  "ApplyAITemplate outboundTag0 sortBase0 remarkPrefix0 =
     (let outboundTag = TrimSpace outboundTag0;
          remarkPrefix1 = TrimSpace remarkPrefix0;
          sortBase = (if sortBase0 = 0 then 100 else sortBase0);
          remarkPrefix = (if remarkPrefix1 = [] then ''AI'' else remarkPrefix1) in
      andThen (reject (outboundTag = []) (Err ''ROUTING_RULE_OUTBOUND_TAG_REQUIRED: outboundTag is required'')) (\<lambda>_.
      andThen begin_tx (\<lambda>_.
      andThen (or_rollback (outboundTagExistsByDB Tx outboundTag)) (\<lambda>exists.
      andThen (abort_if (\<not> exists) (Err ''ROUTING_RULE_OUTBOUND_TAG_NOT_FOUND: outboundTag not found'')) (\<lambda>_.
      andThen (or_rollback (getRulesByDB Tx True)) (\<lambda>existingRules.
      andThen (add_candidates (buildAITemplateCandidates outboundTag sortBase remarkPrefix)
        (map routingRuleFingerprint existingRules) 0 0) (\<lambda>(created, skipped).
      andThen commitManagedChange (\<lambda>applied. ret (created, skipped, applied)))))))))"

end
