(* ===== verification/Tx_Logic.thy ===== *)
theory Tx_Logic
  imports Routing
begin

text \<open>
  A Hoare logic for handlers that work inside a transaction.  \<open>valid P m Q E\<close>: from a
  state with \<open>P\<close> the action \<open>m\<close> ends, with a value \<open>x\<close>, in a state with \<open>Q x\<close>, or
  with an error in a state with \<open>E\<close>, under every schedule of failures.  \<open>holds I R\<close>
  is the shape of the assertions: \<open>I\<close> of the committed database and of the open
  transaction, and the relation \<open>R\<close> between the two.
\<close>

definition valid :: "('s \<Rightarrow> bool) \<Rightarrow> ('s, 'a) act \<Rightarrow> ('a \<Rightarrow> 's \<Rightarrow> bool) \<Rightarrow> ('s \<Rightarrow> bool) \<Rightarrow> bool" where
  "valid P m Q E \<longleftrightarrow> (\<forall>s. P s \<longrightarrow>
     (case fst (m s) of Inl e \<Rightarrow> E (snd (m s)) | Inr x \<Rightarrow> Q x (snd (m s))))"

definition holds :: "(database \<Rightarrow> bool) \<Rightarrow> (database \<Rightarrow> database option \<Rightarrow> bool) \<Rightarrow> panel \<Rightarrow> bool" where
  "holds I R s \<longleftrightarrow> all_db I s \<and> R (pdb s) (ptx s)"

named_theorems hoare "rules of the logic"

lemma holds_top: "holds I (\<lambda>c d. True) = all_db I"
  by (simp add: holds_def fun_eq_iff)

lemma holds_all_db: "holds I R s \<Longrightarrow> all_db I s"
  by (simp add: holds_def)

lemma validI: "(\<And>s r t. P s \<Longrightarrow> m s = (r, t) \<Longrightarrow> case r of Inl e \<Rightarrow> E t | Inr x \<Rightarrow> Q x t) \<Longrightarrow> valid P m Q E"
  by (simp add: valid_def)

lemma validD: "valid P m Q E \<Longrightarrow> P s \<Longrightarrow> m s = (r, t) \<Longrightarrow> case r of Inl e \<Rightarrow> E t | Inr x \<Rightarrow> Q x t"
  unfolding valid_def by (drule spec [of _ s], cases r) simp_all

lemma valid_keeps: "keeps P m \<longleftrightarrow> valid P m (\<lambda>_. P) P"
  by (simp add: keeps_def valid_def sum.case_eq_if)

lemma valid_pre: "valid P m Q E \<Longrightarrow> (\<And>s. P' s \<Longrightarrow> P s) \<Longrightarrow> valid P' m Q E"
  by (auto simp: valid_def)

lemma valid_post: "valid P m Q E \<Longrightarrow> (\<And>x s. Q x s \<Longrightarrow> Q' x s) \<Longrightarrow> (\<And>s. E s \<Longrightarrow> E' s) \<Longrightarrow> valid P m Q' E'"
  by (simp add: valid_def sum.case_eq_if)

lemma valid_andThen:
  assumes "valid P m Q E" and "\<And>x. valid (Q x) (f x) R E"
  shows "valid P (andThen m f) R E"
proof (rule validI)
  fix s r u assume "P s" and run: "andThen m f s = (r, u)"
  obtain q t where q: "m s = (q, t)" by (cases "m s")
  from validD [OF assms(1) \<open>P s\<close> q] show "case r of Inl e \<Rightarrow> E u | Inr x \<Rightarrow> R x u"
  proof (cases q)
    case (Inl e)
    with run q validD [OF assms(1) \<open>P s\<close> q] show ?thesis by (auto simp: andThen_run)
  next
    case (Inr x)
    with validD [OF assms(1) \<open>P s\<close> q] have "Q x t" by simp
    moreover from run q Inr have "f x t = (r, u)" by (simp add: andThen_run)
    ultimately show ?thesis by (rule validD [OF assms(2)])
  qed
qed

lemma valid_ret: "valid (Q x) (ret x) Q E"
  by (simp add: valid_def)

lemma valid_if: "(b \<Longrightarrow> valid P m Q E) \<Longrightarrow> (\<not> b \<Longrightarrow> valid P n Q E) \<Longrightarrow> valid P (if b then m else n) Q E"
  by simp

lemma valid_query_Tx [hoare]:
  "valid (holds I R) (query Tx f) (\<lambda>x. holds I (\<lambda>c d. R c d \<and> (\<exists>e. d = Some e \<and> f e = Inr x))) (all_db I)"
  by (auto simp: valid_def query_def stmt_def andThen_run outside_run on_handle_def holds_def all_db_def
      split: list.split option.split sum.split)

lemma valid_query_Conn [hoare]:
  "valid (holds I R) (query Conn f) (\<lambda>x. holds I (\<lambda>c d. R c d \<and> f c = Inr x)) (all_db I)"
  by (auto simp: valid_def query_def stmt_def andThen_run outside_run on_handle_def holds_def all_db_def
      split: list.split option.split sum.split)

lemma valid_stmt_Tx:
  assumes "\<And>c d. I c \<Longrightarrow> I d \<Longrightarrow> R c (Some d) \<Longrightarrow> I (snd (f d))"
  shows "valid (holds I R) (stmt Tx f) (\<lambda>x. all_db I) (all_db I)"
proof (rule validI)
  fix s r t assume h: "holds I R s" and run: "stmt Tx f s = (r, t)"
  obtain fs where fs: "snd (outside s) = s\<lparr>faults := fs\<rparr>" using outside_faults by blast
  then obtain q where q: "outside s = (q, s\<lparr>faults := fs\<rparr>)" by (cases "outside s") auto
  have "all_db I t"
  proof (cases q)
    case (Inl e)
    with q run h show ?thesis by (simp add: stmt_def andThen_run holds_def all_db_def) auto
  next
    case (Inr u)
    with q run have o: "on_handle Tx f (s\<lparr>faults := fs\<rparr>) = (r, t)" by (simp add: stmt_def andThen_run)
    show ?thesis
    proof (cases "ptx s")
      case None
      with o h show ?thesis by (auto simp: on_handle_def holds_def all_db_def)
    next
      case (Some d)
      with h assms [of "pdb s" d] have "I (snd (f d))" by (simp add: holds_def all_db_def)
      with o h Some show ?thesis by (auto simp: on_handle_def holds_def all_db_def split: prod.splits)
    qed
  qed
  then show "case r of Inl e \<Rightarrow> all_db I t | Inr x \<Rightarrow> all_db I t" by (cases r) auto
qed

lemma valid_stmt_now_Tx:
  assumes "\<And>t c d. I c \<Longrightarrow> I d \<Longrightarrow> R c (Some d) \<Longrightarrow> I (snd (f t d))"
  shows "valid (holds I R) (stmt_now Tx f) (\<lambda>x. all_db I) (all_db I)"
  unfolding stmt_now_def
  by (rule valid_andThen [where Q = "\<lambda>_. holds I R"])
    (simp_all add: valid_def [of _ "gets clock_now"] valid_stmt_Tx assms)

lemma valid_or_rollback:
  assumes "valid P m Q (all_db I)"
  shows "valid P (or_rollback m) Q (all_db I)"
proof (rule validI)
  fix s r t assume "P s" and run: "or_rollback m s = (r, t)"
  obtain r' t' where m: "m s = (r', t')" by (cases "m s")
  from validD [OF assms \<open>P s\<close> m] run m show "case r of Inl e \<Rightarrow> all_db I t | Inr x \<Rightarrow> Q x t"
    by (cases r') (auto simp: or_rollback_def all_db_def)
qed

lemma valid_abort_if [hoare]: "valid (holds I R) (abort_if b e) (\<lambda>_. holds I (\<lambda>c d. R c d \<and> \<not> b)) (all_db I)"
  by (auto simp: valid_def holds_def all_db_def)

lemma valid_reject [hoare]: "valid (holds I R) (reject b e) (\<lambda>_. holds I (\<lambda>c d. R c d \<and> \<not> b)) (all_db I)"
  by (auto simp: valid_def holds_def all_db_def)

lemma valid_lift_res [hoare]:
  "valid (holds I R) (lift_res r) (\<lambda>x. holds I (\<lambda>c d. R c d \<and> r = Inr x)) (all_db I)"
  by (cases r) (auto simp: valid_def holds_def all_db_def)

lemma valid_begin [hoare]:
  "valid (holds I R) begin_tx (\<lambda>_. holds I (\<lambda>c d. d = Some c \<and> (\<exists>y. R c y))) (all_db I)"
  by (auto simp: valid_def holds_def all_db_def)

lemma valid_keeps_end: "keeps (all_db I) m \<Longrightarrow> valid (holds I R) m (\<lambda>_. all_db I) (all_db I)"
  by (rule valid_pre [where P = "all_db I"]) (simp_all add: valid_keeps holds_all_db)

lemma valid_keeps_all: "keeps (all_db I) m \<Longrightarrow> valid (all_db I) m (\<lambda>_. all_db I) (all_db I)"
  by (simp add: valid_keeps)

lemma keeps_valid: "valid (holds I (\<lambda>c d. True)) m (\<lambda>_. all_db I) (all_db I) \<Longrightarrow> keeps (all_db I) m"
  by (simp add: valid_keeps holds_top)

section \<open>What the services of xray keep of the databases\<close>

text \<open>
  They read the committed database and the open transaction and write neither:
  \<open>on_db P\<close> is an arbitrary predicate on the two.
\<close>

definition on_db :: "(database \<Rightarrow> database option \<Rightarrow> bool) \<Rightarrow> panel \<Rightarrow> bool" where
  "on_db P s \<longleftrightarrow> P (pdb s) (ptx s)"

named_theorems db_frame "actions that write no database"

lemma all_db_on_db: "all_db I = on_db (\<lambda>c t. I c \<and> (\<forall>d. t = Some d \<longrightarrow> I d))"
  by (simp add: fun_eq_iff all_db_def on_db_def)

lemma committed_on_db: "committed I = on_db (\<lambda>c t. I c)"
  by (simp add: fun_eq_iff committed_def on_db_def)

lemma frame_outside [db_frame]: "keeps (on_db P) outside"
  by (rule keeps_outside_gen) (simp add: on_db_def)

lemma frame_query [db_frame]: "keeps (on_db P) (query h f)"
  by (cases h) (auto simp: keeps_def query_def stmt_def andThen_run outside_run on_handle_def on_db_def
      split: list.split option.split)

lemma frame_on_world [db_frame]: "keeps (on_db P) (on_world f)"
  by (rule keeps_on_world)

lemma frame_modify:
  assumes "\<And>s. pdb (f s) = pdb s" and "\<And>s. ptx (f s) = ptx s"
  shows "keeps (on_db P) (modify f)"
  using assms by (auto simp: keeps_def on_db_def)

lemma keeps_case_prod [keeps_intro]: "(\<And>x y. z = (x, y) \<Longrightarrow> keeps P (f x y)) \<Longrightarrow> keeps P (case z of (x, y) \<Rightarrow> f x y)"
  by (cases z) simp

lemma getString_frame [db_frame]: "keeps (on_db P) (getString k)"
  unfolding getString_def getSetting_def by (intro keeps_intro db_frame)

lemma GetManagedOutboundsRouting_frame [db_frame]: "keeps (on_db P) GetManagedOutboundsRouting"
  unfolding GetManagedOutboundsRouting_def getBool_def by (intro keeps_intro db_frame)

lemma getBaseXrayConfig_frame [db_frame]: "keeps (on_db P) getBaseXrayConfig"
  unfolding getBaseXrayConfig_def GetXrayConfigTemplate_def ApplyAccessLogSetting_def IsAccessLogEnabled_def
    getBoolSetting_def getSetting_def by (intro keeps_intro db_frame)

lemma GetAllInbounds_frame [db_frame]: "keeps (on_db P) GetAllInbounds"
  unfolding GetAllInbounds_def find_inbounds_def by (intro keeps_intro db_frame)

lemma getManagedXrayConfigForDB_frame [db_frame]: "keeps (on_db P) (getManagedXrayConfigForDB h)"
  unfolding getManagedXrayConfigForDB_def buildManagedOutboundsForDB_def buildManagedRoutingForDB_def
    getOutboundsByDB_def getRulesByDB_def Let_def by (intro keeps_intro db_frame)

lemma GetXrayConfig_frame [db_frame]: "keeps (on_db P) GetXrayConfig"
  unfolding GetXrayConfig_def getManagedXrayConfig_def getLegacyXrayConfig_def Let_def
  by (intro keeps_intro db_frame)

lemma make_log_dir_frame [db_frame]: "keeps (on_db P) (make_log_dir path)"
  unfolding make_log_dir_def Let_def by (intro keeps_intro db_frame)

lemma prepareLogDirectories_frame [db_frame]: "keeps (on_db P) (prepareLogDirectories c)"
  unfolding prepareLogDirectories_def Let_def by (intro keeps_intro db_frame)

lemma TestConfig_frame [db_frame]: "keeps (on_db P) (TestConfig c)"
  unfolding TestConfig_def marshal_config_def by (intro keeps_intro db_frame)

lemma Start_frame [db_frame]: "keeps (on_db P) (Start p)"
  unfolding Start_def start_steps_def marshal_config_def by (intro keeps_intro db_frame frame_modify) simp_all

lemma Stop_frame [db_frame]: "keeps (on_db P) (Stop p)"
  unfolding Stop_def by (intro keeps_intro db_frame)

lemma replace_xray_frame [db_frame]: "keeps (on_db P) (replace_xray c d)"
  unfolding replace_xray_def start_new_def try_rollback_def
  by (intro keeps_intro db_frame frame_modify) (simp_all add: set_process_def)

lemma RestartXray_frame [db_frame]: "keeps (on_db P) (RestartXray b)"
  unfolding RestartXray_def stop_current_def by (intro keeps_intro db_frame frame_modify) simp_all

lemma ApplyManagedXrayIfEnabled_frame [db_frame]: "keeps (on_db P) ApplyManagedXrayIfEnabled"
  unfolding ApplyManagedXrayIfEnabled_def ValidateManagedXrayConfig_def by (intro keeps_intro db_frame)

lemma validate_if_frame [db_frame]: "keeps (on_db P) (validate_if b)"
  unfolding validate_if_def validateManagedXrayConfigForDB_def by (intro keeps_intro db_frame)

lemma commitManagedChange_keeps [keeps_intro]: "keeps (all_db I) commitManagedChange"
proof -
  have "keeps (all_db I) GetManagedOutboundsRouting" "keeps (all_db I) (validate_if b)"
    "keeps (all_db I) ApplyManagedXrayIfEnabled" for b
    unfolding all_db_on_db by (rule db_frame)+
  then show ?thesis unfolding commitManagedChange_def by (intro keeps_intro)
qed

end
