(* ===== verification/Managed_Invariants.thy ===== *)
theory Managed_Invariants
  imports Tx_Logic
begin

text \<open>
  The invariant \<open>tables_ok\<close> of the tables of outbounds and rules under every
  handler and every schedule of failures: ids and tags are distinct and no rule
  sends to a tag that no outbound has.  The one handler that can break it is the
  change of an outbound's tag.
\<close>

section \<open>Statements\<close>

lemma tags_ok_insert:
  assumes "insert_row ob_Id (\<lambda>i r. r\<lparr>ob_Id := i\<rparr>) r t = Inr (r', t')" and "tags_ok t" and "ob_Tag r \<notin> ob_Tag ` set t"
  shows "tags_ok t'"
proof -
  have "ob_Tag r' = ob_Tag r" using assms(1) by (auto simp: insert_row_def Let_def split: if_splits)
  with assms outbound_rows.insert_row_ids [OF assms(1)] distinct_insert [OF assms(1), of ob_Tag]
  show ?thesis by (simp add: tags_ok_def)
qed

lemma create_outbound_ok: "tables_ok d \<Longrightarrow> tables_ok (snd (create_outbound t r d))"
proof (cases "ob_Tag r \<in> ob_Tag ` set (tbl_outbounds d)")
  case False
  assume ok: "tables_ok d"
  show ?thesis
  proof (cases "insert_row ob_Id (\<lambda>i r. r\<lparr>ob_Id := i\<rparr>) (outbound_defaults t r) (tbl_outbounds d)")
    case (Inr q)
    obtain r' t' where q: "q = (r', t')" by (cases q)
    note ins = Inr [unfolded q]
    have "ob_Tag (outbound_defaults t r) = ob_Tag r" by (simp add: outbound_defaults_def)
    with tags_ok_insert [OF ins] False ok have "tags_ok t'" by (simp add: tables_ok_def)
    moreover have "refs_ok (d\<lparr>tbl_outbounds := t'\<rparr>)"
      using ok outbound_rows.insert_row_set [OF ins] by (auto simp: tables_ok_def refs_ok_def)
    ultimately show ?thesis using False ins ok by (simp add: create_outbound_def tables_ok_def)
  qed (use False ok in \<open>simp add: create_outbound_def\<close>)
qed (simp add: create_outbound_def)

lemma tags_ok_update:
  assumes "tags_ok t" and "\<And>r. ob_Id (f r) = ob_Id r" and "\<And>r. ob_Tag (f r) = ob_Tag r"
  shows "tags_ok (update_rows P f t)"
  using assms by (simp add: tags_ok_def outbound_rows.update_rows_ids update_rows_map)

lemma update_outbound_ok:
  assumes "tables_ok d" and "\<And>r. ob_Id (f r) = ob_Id r" and "\<And>r. ob_Tag (f r) = ob_Tag r"
  shows "tables_ok (snd (update_outbound t i f d))"
proof -
  have "ob_Tag ` set (update_rows P g l) = ob_Tag ` set l" if "\<And>r. ob_Tag (g r) = ob_Tag r" for P g l
    using that update_rows_map [of ob_Tag g P l] by (metis list.set_map)
  from this [of "\<lambda>x. (f x)\<lparr>ob_UpdatedAt := t\<rparr>"] assms show ?thesis
    by (simp add: update_outbound_def tables_ok_def refs_ok_def tags_ok_update)
qed

text \<open>\<open>Save\<close> under the tag that the row has, or in place of one that no rule uses.\<close>

lemma save_outbound_ok:
  assumes ok: "tables_ok d" and row: "row_by_id ob_Id (ob_Id r) (tbl_outbounds d) = Some c"
    and tag: "ob_Tag r = ob_Tag c \<or> ob_Tag c \<notin> rr_OutboundTag ` set (tbl_rules d)"
  shows "tables_ok (snd (save_outbound t r d))"
proof (cases "list_ex (\<lambda>x. ob_Tag x = ob_Tag r \<and> ob_Id x \<noteq> ob_Id r) (tbl_outbounds d)")
  case False
  let ?r = "r\<lparr>ob_UpdatedAt := t\<rparr>"
  let ?t = "update_rows (\<lambda>x. ob_Id x = ob_Id r) (\<lambda>_. ?r) (tbl_outbounds d)"
  have di: "distinct (map ob_Id (tbl_outbounds d))" "distinct (map ob_Tag (tbl_outbounds d))"
    using ok by (simp_all add: tables_ok_def tags_ok_def ids_ok_def strict_sorted_iff)
  have "map ob_Id ?t = map ob_Id (tbl_outbounds d)" by (auto simp: update_rows_def)
  then have "ids_ok ob_Id ?t" using ok by (simp add: tables_ok_def tags_ok_def ids_ok_def)
  moreover have "distinct (map ob_Tag ?t)"
    using distinct_overwrite [of ob_Tag "tbl_outbounds d" ?r ob_Id] di False by (auto simp: list_ex_iff)
  moreover have "refs_ok (d\<lparr>tbl_outbounds := ?t\<rparr>)"
    unfolding refs_ok_def
  proof
    fix g assume "g \<in> rr_OutboundTag ` set (tbl_rules (d\<lparr>tbl_outbounds := ?t\<rparr>))"
    then have gr: "g \<in> rr_OutboundTag ` set (tbl_rules d)" by simp
    with ok obtain x where x: "x \<in> set (tbl_outbounds d)" "ob_Tag x = g" by (auto simp: tables_ok_def refs_ok_def)
    have c: "c \<in> set (tbl_outbounds d)" "ob_Id c = ob_Id r"
      using row by (auto simp: row_by_id_def find_Some_iff)
    have "\<exists>y \<in> set ?t. ob_Tag y = g"
    proof (cases "ob_Id x = ob_Id r")
      case True
      with x c di have "x = c" by (metis distinct_map inj_onD)
      with tag gr x have "ob_Tag r = g" by auto
      moreover have "?r \<in> set ?t" using c by (force simp: update_rows_def)
      ultimately show ?thesis by (intro bexI [of _ ?r]) simp_all
    next
      case False
      then have "x \<in> set ?t" using x by (force simp: update_rows_def)
      with x show ?thesis by (intro bexI [of _ x])
    qed
    then show "g \<in> ob_Tag ` set (tbl_outbounds (d\<lparr>tbl_outbounds := ?t\<rparr>))" by auto
  qed
  ultimately show ?thesis using False ok by (simp add: save_outbound_def tables_ok_def tags_ok_def)
qed (use ok in \<open>simp add: save_outbound_def\<close>)

lemma delete_outbound_ok:
  assumes ok: "tables_ok d" and row: "row_by_id ob_Id i (tbl_outbounds d) = Some c"
    and free: "ob_Tag c \<notin> rr_OutboundTag ` set (tbl_rules d)"
  shows "tables_ok (snd (delete_outbound i d))"
proof -
  have "ob_Tag x \<noteq> g" if "x \<in> set (tbl_outbounds d)" "ob_Id x = i" "g \<in> rr_OutboundTag ` set (tbl_rules d)" for x g
  proof -
    have "ids_ok ob_Id (tbl_outbounds d)" using ok by (simp add: tables_ok_def tags_ok_def)
    from outbound_rows.row_by_id_Some [OF this, of i x] row that have "x = c" by auto
    with free that show ?thesis by auto
  qed
  then have keep: "x \<in> set (delete_rows (\<lambda>x. ob_Id x = i) (tbl_outbounds d))"
    if "x \<in> set (tbl_outbounds d)" "ob_Tag x \<in> rr_OutboundTag ` set (tbl_rules d)" for x
    using that by (auto simp: delete_rows_def)
  have "refs_ok (d\<lparr>tbl_outbounds := delete_rows (\<lambda>x. ob_Id x = i) (tbl_outbounds d)\<rparr>)"
    unfolding refs_ok_def
  proof
    fix g assume "g \<in> rr_OutboundTag ` set (tbl_rules (d\<lparr>tbl_outbounds := delete_rows (\<lambda>x. ob_Id x = i) (tbl_outbounds d)\<rparr>))"
    then have g: "g \<in> rr_OutboundTag ` set (tbl_rules d)" by simp
    with ok obtain x where "x \<in> set (tbl_outbounds d)" "g = ob_Tag x" by (auto simp: tables_ok_def refs_ok_def)
    with g keep show "g \<in> ob_Tag ` set (tbl_outbounds (d\<lparr>tbl_outbounds := delete_rows (\<lambda>x. ob_Id x = i) (tbl_outbounds d)\<rparr>))"
      by simp
  qed
  with ok show ?thesis
    by (simp add: delete_outbound_def tables_ok_def tags_ok_def outbound_rows.delete_rows_ids distinct_delete_rows)
qed

lemma create_rule_ok: "tables_ok d \<Longrightarrow> rr_OutboundTag r \<in> ob_Tag ` set (tbl_outbounds d)
    \<Longrightarrow> tables_ok (snd (create_rule t r d))"
proof -
  assume ok: "tables_ok d" and r: "rr_OutboundTag r \<in> ob_Tag ` set (tbl_outbounds d)"
  show ?thesis
  proof (cases "insert_row rr_Id (\<lambda>i r. r\<lparr>rr_Id := i\<rparr>) (rule_defaults t r) (tbl_rules d)")
    case (Inr q)
    obtain r' t' where q: "q = (r', t')" by (cases q)
    note ins = Inr [unfolded q]
    have "rr_OutboundTag r' = rr_OutboundTag r"
      using ins by (auto simp: insert_row_def Let_def rule_defaults_def split: if_splits)
    with ok r ins rule_rows.insert_row_ids [OF ins] rule_rows.insert_row_set [OF ins]
    show ?thesis by (auto simp: create_rule_def tables_ok_def refs_ok_def)
  qed (use ok in \<open>simp add: create_rule_def\<close>)
qed

lemma update_rule_ok:
  assumes "tables_ok d" and "\<And>r. rr_Id (f r) = rr_Id r"
    and "\<And>r. rr_OutboundTag (f r) = rr_OutboundTag r \<or> rr_OutboundTag (f r) \<in> ob_Tag ` set (tbl_outbounds d)"
  shows "tables_ok (snd (update_rule t i f d))"
proof -
  have "rr_OutboundTag x \<in> ob_Tag ` set (tbl_outbounds d)"
    if "x \<in> set (update_rows (\<lambda>x. rr_Id x = i) (\<lambda>x. (f x)\<lparr>rr_UpdatedAt := t\<rparr>) (tbl_rules d))" for x
  proof -
    from that obtain y where y: "y \<in> set (tbl_rules d)" "x = y \<or> x = (f y)\<lparr>rr_UpdatedAt := t\<rparr>"
      by (auto simp: update_rows_def split: if_splits)
    have "rr_OutboundTag y \<in> ob_Tag ` set (tbl_outbounds d)"
      using assms(1) y(1) by (auto simp: tables_ok_def refs_ok_def)
    with y(2) assms(3) [of y] show ?thesis by auto
  qed
  then show ?thesis using assms(1,2)
    by (auto simp: update_rule_def tables_ok_def refs_ok_def rule_rows.update_rows_ids)
qed

lemma delete_rule_ok: "tables_ok d \<Longrightarrow> tables_ok (snd (delete_rule i d))"
proof -
  have "set (delete_rows P (tbl_rules d)) \<subseteq> set (tbl_rules d)" for P by (auto simp: delete_rows_def)
  then show "tables_ok d \<Longrightarrow> tables_ok (snd (delete_rule i d))"
    unfolding delete_rule_def tables_ok_def refs_ok_def
    by (simp add: rule_rows.delete_rows_ids) (meson image_mono order_trans)
qed

section \<open>Handlers\<close>

text \<open>The end of a handler: the write, then the commit.\<close>

lemma write_commit:
  assumes "\<And>c d. I c \<Longrightarrow> I d \<Longrightarrow> R c (Some d) \<Longrightarrow> I (snd (f d))"
    and "\<And>x. keeps (all_db I) (g x)"
  shows "valid (holds I R) (andThen (or_rollback (stmt Tx f)) g) (\<lambda>_. all_db I) (all_db I)"
  by (rule valid_andThen [OF valid_or_rollback [OF valid_stmt_Tx]], rule assms(1), assumption+,
      rule valid_keeps_all, rule assms(2))

lemma write_now_commit:
  assumes "\<And>t c d. I c \<Longrightarrow> I d \<Longrightarrow> R c (Some d) \<Longrightarrow> I (snd (f t d))"
    and "\<And>x. keeps (all_db I) (g x)"
  shows "valid (holds I R) (andThen (or_rollback (stmt_now Tx f)) g) (\<lambda>_. all_db I) (all_db I)"
  by (rule valid_andThen [OF valid_or_rollback [OF valid_stmt_now_Tx]], rule assms(1), assumption+,
      rule valid_keeps_all, rule assms(2))

lemmas handler_defs = isOutboundTagExistsByDB_def getOutboundByDB_def countOutboundRefsByDB_def
  getRuleByDB_def getRulesByDB_def outboundTagExists_def outboundTagExistsByDB_def

lemma AddOutbound_keeps: "keeps (all_db tables_ok) (AddOutbound ob)"
  unfolding AddOutbound_def handler_defs
  by (rule keeps_valid, (rule valid_andThen, (rule hoare | rule valid_or_rollback, rule hoare))+,
      rule write_now_commit) (auto intro!: create_outbound_ok keeps_intro)

lemma outbound_by_id_Inr: "outbound_by_id i d = Inr r \<longleftrightarrow> row_by_id ob_Id i (tbl_outbounds d) = Some r"
  by (auto simp: outbound_by_id_def split: option.split)

lemma row_by_id_id: "row_by_id rid i t = Some r \<Longrightarrow> rid r = i"
  by (auto simp: row_by_id_def find_Some_iff)

lemma row_by_id_own: "row_by_id rid i t = Some r \<Longrightarrow> row_by_id rid (rid r) t = Some r"
  using row_by_id_id [of rid i t r] by simp

lemma DeleteOutbound_keeps: "keeps (all_db tables_ok) (DeleteOutbound i)"
  unfolding DeleteOutbound_def handler_defs
  by (rule keeps_valid, (rule valid_andThen, (rule hoare | rule valid_or_rollback, rule hoare))+,
      rule write_commit)
    (auto intro!: delete_outbound_ok keeps_intro simp: outbound_by_id_Inr filter_empty_conv)

lemma ToggleOutbound_keeps: "keeps (all_db tables_ok) (ToggleOutbound i b)"
  unfolding ToggleOutbound_def handler_defs
  by (rule keeps_valid, (rule valid_andThen, (rule hoare | rule valid_or_rollback, rule hoare))+,
      rule write_now_commit) (auto intro!: update_outbound_ok keeps_intro)

lemma rule_tag_exists: "0 < length (filter (\<lambda>r. ob_Tag r = g) t) \<longleftrightarrow> g \<in> ob_Tag ` set t"
  by (induction t) auto

lemma check_rule_tag: "check_rule r = Inr r' \<Longrightarrow> rr_OutboundTag r' = rr_OutboundTag r"
  by (auto simp: check_rule_def split: if_splits)

text \<open>A rule that passed the validation sends to a tag of the committed table.\<close>

lemma valid_ValidateRule [hoare]:
  "valid (holds I R) (ValidateRule r0)
     (\<lambda>r. holds I (\<lambda>c d. R c d \<and> rr_OutboundTag r \<in> ob_Tag ` set (tbl_outbounds c))) (all_db I)"
  unfolding ValidateRule_def Let_def handler_defs
  by ((rule valid_andThen, rule hoare)+, rule valid_post [OF valid_lift_res])
    (auto simp: holds_def filter_empty_conv dest!: check_rule_tag intro: rev_image_eqI)

lemma AddRule_keeps: "keeps (all_db tables_ok) (AddRule r)"
  unfolding AddRule_def
  by (rule keeps_valid, (rule valid_andThen, (rule hoare | rule valid_or_rollback, rule hoare))+,
      rule write_now_commit) (auto intro!: create_rule_ok keeps_intro)

lemma UpdateRule_keeps: "keeps (all_db tables_ok) (UpdateRule r)"
proof (rule keeps_valid)
  have u: "valid (holds tables_ok (\<lambda>c d. d = Some c)) (update_user_rule r cur) (\<lambda>_. all_db tables_ok) (all_db tables_ok)" for cur
    unfolding update_user_rule_def
    by ((rule valid_andThen, (rule hoare | rule valid_or_rollback, rule hoare))+,
        rule write_now_commit) (auto intro!: update_rule_ok keeps_intro simp: merge_rule_def)
  have v: "valid (holds tables_ok (\<lambda>c d. d = Some c)) (update_system_rule r cur) (\<lambda>_. all_db tables_ok) (all_db tables_ok)" for cur
    unfolding update_system_rule_def Let_def
    by ((rule valid_andThen, (rule hoare | rule valid_or_rollback, rule hoare))+,
        rule write_now_commit) (auto intro!: update_rule_ok keeps_intro)
  show "valid (holds tables_ok (\<lambda>c d. True)) (UpdateRule r) (\<lambda>_. all_db tables_ok) (all_db tables_ok)"
    unfolding UpdateRule_def handler_defs
    by ((rule valid_andThen, (rule hoare | rule valid_or_rollback, rule hoare))+, rule valid_if)
      (rule valid_pre [OF v], simp add: holds_def, rule valid_pre [OF u], simp add: holds_def)
qed

lemma DeleteRule_keeps: "keeps (all_db tables_ok) (DeleteRule i)"
  unfolding DeleteRule_def handler_defs
  by (rule keeps_valid, (rule valid_andThen, (rule hoare | rule valid_or_rollback, rule hoare))+,
      rule write_commit) (auto intro!: delete_rule_ok keeps_intro)

lemma ToggleRule_keeps: "keeps (all_db tables_ok) (ToggleRule i b)"
  unfolding ToggleRule_def handler_defs
  by (rule keeps_valid, (rule valid_andThen, (rule hoare | rule valid_or_rollback, rule hoare))+,
      rule write_now_commit) (auto intro!: update_rule_ok keeps_intro)

lemma ReorderRules_keeps: "keeps (all_db tables_ok) (ReorderRules items)"
  unfolding ReorderRules_def reorder_one_def handler_defs
  by (intro keeps_intro keeps_stmt_now update_rule_ok) auto


text \<open>
  The change of an outbound.  \<open>UpdateOutbound\<close> does not look at the rules, so the
  invariant survives when the row is a system row, keeps its tag, or has a tag that
  no rule names.
\<close>

definition rename_safe :: "outbound \<Rightarrow> database \<Rightarrow> bool" where
  "rename_safe ob d = (case row_by_id ob_Id (ob_Id ob) (tbl_outbounds d) of
       None \<Rightarrow> True
     | Some r \<Rightarrow> ob_IsSystem r \<or> TrimSpace (ob_Tag ob) = ob_Tag r \<or> ob_Tag r \<notin> rr_OutboundTag ` set (tbl_rules d))"

lemma ValidateOutbound_tag: "ValidateOutbound ob = Inr r \<Longrightarrow> ob_Tag r = TrimSpace (ob_Tag ob) \<and> ob_Id r = ob_Id ob"
  by (auto simp: ValidateOutbound_def Let_def trim_outbound_def split: if_splits)

lemma update_system_outbound_valid:
  "valid (holds tables_ok (\<lambda>c d. d = Some c \<and> row_by_id ob_Id i (tbl_outbounds c) = Some cur))
     (update_system_outbound ob cur) (\<lambda>_. all_db tables_ok) (all_db tables_ok)"
  unfolding update_system_outbound_def Let_def
  by ((rule valid_andThen, rule hoare)+, rule write_now_commit)
    (auto intro!: save_outbound_ok [where c = cur] keeps_intro dest: row_by_id_own)

lemma update_user_outbound_valid:
  "valid (holds tables_ok (\<lambda>c d. d = Some c \<and> row_by_id ob_Id (ob_Id ob) (tbl_outbounds c) = Some cur
       \<and> (TrimSpace (ob_Tag ob) = ob_Tag cur \<or> ob_Tag cur \<notin> rr_OutboundTag ` set (tbl_rules c))))
     (update_user_outbound ob cur) (\<lambda>_. all_db tables_ok) (all_db tables_ok)"
  unfolding update_user_outbound_def handler_defs
  by ((rule valid_andThen, (rule hoare | rule valid_or_rollback, rule hoare))+, rule write_now_commit)
    (auto intro!: save_outbound_ok [where c = cur] keeps_intro simp: merge_outbound_def dest: row_by_id_own dest!: ValidateOutbound_tag)

lemma UpdateOutbound_valid:
  "valid (holds tables_ok (\<lambda>c d. rename_safe ob c)) (UpdateOutbound ob) (\<lambda>_. all_db tables_ok) (all_db tables_ok)"
  unfolding UpdateOutbound_def handler_defs
  by ((rule valid_andThen, (rule hoare | rule valid_or_rollback, rule hoare))+, rule valid_if)
    (rule valid_pre [OF update_system_outbound_valid], (auto simp: holds_def outbound_by_id_Inr)[1],
     rule valid_pre [OF update_user_outbound_valid], (auto simp: holds_def outbound_by_id_Inr rename_safe_def)[1])

section \<open>The template and the first rows\<close>

lemma create_rule_frame: "tbl_outbounds (snd (create_rule t r d)) = tbl_outbounds d"
  by (auto simp: create_rule_def split: sum.split)

lemma holds_create_rule:
  assumes "rr_OutboundTag c = g"
  shows "valid (holds tables_ok (\<lambda>c d. \<exists>e. d = Some e \<and> g \<in> ob_Tag ` set (tbl_outbounds e)))
    (or_rollback (stmt_now Tx (\<lambda>t. create_rule t c)))
    (\<lambda>_. holds tables_ok (\<lambda>c d. \<exists>e. d = Some e \<and> g \<in> ob_Tag ` set (tbl_outbounds e))) (all_db tables_ok)"
proof (rule valid_or_rollback, rule validI)
  fix s r u
  assume h: "holds tables_ok (\<lambda>c d. \<exists>e. d = Some e \<and> g \<in> ob_Tag ` set (tbl_outbounds e)) s"
    and run: "stmt_now Tx (\<lambda>t. create_rule t c) s = (r, u)"
  then obtain e where e: "ptx s = Some e" "g \<in> ob_Tag ` set (tbl_outbounds e)" "tables_ok e" "tables_ok (pdb s)"
    by (auto simp: holds_def all_db_def)
  obtain fs where fs: "snd (outside s) = s\<lparr>faults := fs\<rparr>" using outside_faults by blast
  have "ptx u = Some e \<and> pdb u = pdb s \<or>
      ptx u = Some (snd (create_rule (clock_now s) c e)) \<and> pdb u = pdb s"
    using run e fs by (cases "outside s"; cases "fst (outside s)")
      (auto simp: stmt_now_def stmt_def andThen_run on_handle_def split: prod.splits)
  then show "case r of Inl x \<Rightarrow> all_db tables_ok u
      | Inr x \<Rightarrow> holds tables_ok (\<lambda>c d. \<exists>e. d = Some e \<and> g \<in> ob_Tag ` set (tbl_outbounds e)) u"
    using e assms create_rule_ok [OF e(3)]
    by (cases r) (auto simp: holds_def all_db_def create_rule_frame)
qed

lemma add_candidates_valid:
  assumes "\<forall>c \<in> set cs. rr_OutboundTag c = g"
  shows "valid (holds tables_ok (\<lambda>c d. \<exists>e. d = Some e \<and> g \<in> ob_Tag ` set (tbl_outbounds e)))
    (add_candidates cs fps m n) (\<lambda>_. all_db tables_ok) (all_db tables_ok)"
  using assms
proof (induction cs arbitrary: fps m n)
  case Nil
  then show ?case by (simp add: valid_def holds_def)
next
  case (Cons c cs)
  then show ?case
    by (auto simp: Let_def intro!: valid_andThen [OF holds_create_rule])
qed

lemma candidates_tag: "c \<in> set (buildAITemplateCandidates g b p) \<Longrightarrow> rr_OutboundTag c = g"
  by (auto simp: buildAITemplateCandidates_def Let_def)


lemma ApplyAITemplate_keeps: "keeps (all_db tables_ok) (ApplyAITemplate g b p)"
proof -
  have fin: "keeps (all_db tables_ok) (case x of (created, skipped) \<Rightarrow>
      andThen commitManagedChange (\<lambda>applied. ret (created, skipped, applied)))" for x
    by (intro keeps_intro)
  have loop: "valid (holds tables_ok (\<lambda>c d. \<exists>e. d = Some e \<and> g \<in> ob_Tag ` set (tbl_outbounds e)))
      (andThen (add_candidates (buildAITemplateCandidates g b p) fps m n) (\<lambda>(created, skipped).
        andThen commitManagedChange (\<lambda>applied. ret (created, skipped, applied))))
      (\<lambda>_. all_db tables_ok) (all_db tables_ok)" for g b p fps m n
    by (rule valid_andThen [OF add_candidates_valid], use candidates_tag in blast, rule valid_keeps_all, rule fin)
  show ?thesis
    unfolding ApplyAITemplate_def Let_def handler_defs
    by (rule keeps_valid, (rule valid_andThen, (rule hoare | rule valid_or_rollback, rule hoare))+,
        rule valid_pre [OF loop]) (auto simp: holds_def filter_empty_conv intro: rev_image_eqI)
qed

lemma ensure_system_outbound_keeps: "keeps (all_db tables_ok) (ensure_system_outbound ob)"
  unfolding ensure_system_outbound_def
  by (intro keeps_intro keeps_stmt_now create_outbound_ok update_outbound_ok) auto

lemma initOutbound_keeps: "keeps (all_db tables_ok) initOutbound"
  unfolding initOutbound_def by (intro keeps_intro ensure_system_outbound_keeps)

end
