(* ===== verification/Managed_Properties.thy ===== *)
theory Managed_Properties
  imports Managed_Invariants
begin

text \<open>
  What the handlers of outbounds and routing rules promise to their caller: what an
  error says about the stored tables, which rows are protected, and what a
  renamed outbound leaves behind.
\<close>

section \<open>Outcome of a managed change\<close>

definition in_tx :: "database \<Rightarrow> database \<Rightarrow> panel \<Rightarrow> bool" where
  "in_tx c d = on_db (\<lambda>x y. x = c \<and> y = Some d)"

definition settled :: "database \<Rightarrow> panel \<Rightarrow> bool" where
  "settled c = on_db (\<lambda>x y. x = c \<and> y = None)"

lemma valid_frame_rollback:
  assumes "keeps (on_db (\<lambda>x y. x = c \<and> y = Some d)) m"
  shows "valid (in_tx c d) (or_rollback m) (\<lambda>_. in_tx c d) (settled c)"
proof (rule validI)
  fix s r t assume s: "in_tx c d s" and run: "or_rollback m s = (r, t)"
  obtain r' t' where m: "m s = (r', t')" by (cases "m s")
  from keepsD_eq [OF assms m] s have "in_tx c d t'" by (simp add: in_tx_def)
  with run m show "case r of Inl e \<Rightarrow> settled c t | Inr x \<Rightarrow> in_tx c d t"
    by (cases r') (auto simp: or_rollback_def in_tx_def settled_def on_db_def)
qed

lemma valid_commit: "valid (in_tx c d) commit_tx (\<lambda>_. settled d) (settled c)"
proof (rule validI)
  fix s r t assume s: "in_tx c d s" and run: "commit_tx s = (r, t)"
  then have "ptx s = Some d" "pdb s = c" by (simp_all add: in_tx_def on_db_def)
  with commit_cases [of s d] run show "case r of Inl e \<Rightarrow> settled c t | Inr x \<Rightarrow> settled d t"
    by (auto simp: settled_def on_db_def)
qed

lemma valid_settled: "keeps (on_db (\<lambda>x y. x = c \<and> y = None)) m \<Longrightarrow> valid (settled c) m (\<lambda>_. settled c) (settled c)"
  by (simp add: valid_keeps settled_def)

lemma valid_error: "valid P m Q E \<Longrightarrow> (\<And>s. E s \<Longrightarrow> E' s) \<Longrightarrow> valid P m Q E'"
  by (erule valid_post)

text \<open>The part behind the look-up of the switch.\<close>

lemma commit_unmanaged:
  "valid (in_tx c d) (andThen (or_rollback (validate_if False)) (\<lambda>_. andThen commit_tx (\<lambda>_. ret False)))
     (\<lambda>_. settled d) (settled c)"
  by (rule valid_andThen [OF valid_frame_rollback [OF validate_if_frame]], rule valid_andThen [OF valid_commit])
    (simp add: valid_def)

lemma commit_managed:
  "valid (in_tx c d) (andThen (or_rollback (validate_if True)) (\<lambda>_. andThen commit_tx (\<lambda>_.
       andThen ApplyManagedXrayIfEnabled (\<lambda>_. ret True))))
     (\<lambda>_. settled d) (\<lambda>s. settled c s \<or> settled d s)"
proof -
  have "valid (settled d) (andThen ApplyManagedXrayIfEnabled (\<lambda>_. ret True)) (\<lambda>_. settled d) (settled d)"
    by (rule valid_andThen [OF valid_settled [OF ApplyManagedXrayIfEnabled_frame]]) (simp add: valid_def)
  then have a: "valid (settled d) (andThen ApplyManagedXrayIfEnabled (\<lambda>_. ret True)) (\<lambda>_. settled d)
      (\<lambda>s. settled c s \<or> settled d s)" by (rule valid_error) simp
  have b: "valid (in_tx c d) commit_tx (\<lambda>_. settled d) (\<lambda>s. settled c s \<or> settled d s)"
    by (rule valid_error [OF valid_commit]) simp
  have v: "valid (in_tx c d) (or_rollback (validate_if True)) (\<lambda>_. in_tx c d) (\<lambda>s. settled c s \<or> settled d s)"
    by (rule valid_error [OF valid_frame_rollback [OF validate_if_frame]]) simp
  show ?thesis by (rule valid_andThen [OF v], rule valid_andThen [OF b], rule a)
qed

lemma commitManagedChange_run:
  "commitManagedChange s = (case GetManagedOutboundsRouting s of
      (Inl e, t) \<Rightarrow> (Inl e, t\<lparr>ptx := None\<rparr>)
    | (Inr managed, t) \<Rightarrow> (andThen (or_rollback (validate_if managed)) (\<lambda>_. andThen commit_tx (\<lambda>_.
         if \<not> managed then ret False else andThen ApplyManagedXrayIfEnabled (\<lambda>_. ret True)))) t)"
proof (cases "GetManagedOutboundsRouting s")
  case (Pair q t)
  then have "or_rollback GetManagedOutboundsRouting s
      = (case q of Inl e \<Rightarrow> (Inl e, t\<lparr>ptx := None\<rparr>) | Inr x \<Rightarrow> (Inr x, t))"
    by (simp add: or_rollback_def split: sum.split)
  with Pair show ?thesis
    unfolding commitManagedChange_def
    by (cases q) (simp_all only: andThen_run [of "or_rollback GetManagedOutboundsRouting"] prod.case sum.case)
qed

lemma managed_outcome_raw:
  assumes "ptx s = Some d" and "commitManagedChange s = (r, t)"
  shows "ptx t = None
    \<and> (case r of Inr applied \<Rightarrow> pdb t = d | Inl e \<Rightarrow> pdb t = pdb s \<or> pdb t = d)
    \<and> (\<forall>e. r = Inl e \<and> fst (GetManagedOutboundsRouting s) \<noteq> Inr True \<longrightarrow> pdb t = pdb s)"
proof -
  obtain q u where g: "GetManagedOutboundsRouting s = (q, u)" by (cases "GetManagedOutboundsRouting s")
  have s: "in_tx (pdb s) d s" using assms(1) by (simp add: in_tx_def on_db_def)
  with keepsD_eq [OF GetManagedOutboundsRouting_frame g, of "\<lambda>x y. x = pdb s \<and> y = Some d"]
  have u: "in_tx (pdb s) d u" by (simp add: in_tx_def)
  show ?thesis
  proof (cases q)
    case (Inl e)
    with g u assms(2) show ?thesis by (auto simp: commitManagedChange_run in_tx_def on_db_def)
  next
    case (Inr managed)
    show ?thesis
    proof (cases managed)
      case True
      with Inr g assms(2) validD [OF commit_managed u, of r t] show ?thesis
        by (auto simp: commitManagedChange_run settled_def on_db_def split: sum.splits)
    next
      case False
      with Inr g assms(2) validD [OF commit_unmanaged u, of r t] show ?thesis
        by (auto simp: commitManagedChange_run settled_def on_db_def split: sum.splits)
    qed
  qed
qed

text \<open>A database with one outbound, and the panel with a transaction that holds it.\<close>

definition proxy_outbound :: outbound where
  "proxy_outbound = (system_outbound ''proxy'' ''socks'')\<lparr>ob_Id := 1, ob_Enabled := True, ob_Sort := 1000\<rparr>"

definition proxy_db :: database where
  "proxy_db = empty_database\<lparr>tbl_outbounds := [proxy_outbound]\<rparr>"

definition panel_with :: "database \<Rightarrow> panel" where
  "panel_with d = (fresh_panel quiet_world)\<lparr>pdb := d\<rparr>"

text \<open>C10: the change of a handler ends committed when it returns; when it returns an error it
  is committed or undone as a whole, and certainly undone while the switch for managed
  outbounds is off.  No transaction stays open.\<close>

theorem managed_change_outcome:
  assumes "ptx s = Some d" and "commitManagedChange s = (r, t)"
  shows "ptx t = None
    \<and> (case r of Inr applied \<Rightarrow> pdb t = d | Inl e \<Rightarrow> pdb t = pdb s \<or> pdb t = d)
    \<and> (\<forall>e. r = Inl e \<and> fst (GetManagedOutboundsRouting s) \<noteq> Inr True \<longrightarrow> pdb t = pdb s)"
  using assms by (rule managed_outcome_raw)

theorem managed_change_outcome_witness:
  "\<exists>t. commitManagedChange ((fresh_panel quiet_world)\<lparr>ptx := Some proxy_db\<rparr>) = (Inr False, t)
     \<and> pdb t = proxy_db \<and> ptx t = None"
proof -
  let ?s = "(fresh_panel quiet_world)\<lparr>ptx := Some proxy_db\<rparr>"
  have "fst (commitManagedChange ?s) = Inr False" by code_simp
  then obtain t where t: "commitManagedChange ?s = (Inr False, t)" by (cases "commitManagedChange ?s") auto
  have "ptx ?s = Some proxy_db" by simp
  from managed_change_outcome [OF this t] t show ?thesis by simp
qed

section \<open>Effects of the handlers\<close>

text \<open>
  \<open>started c\<close>: no change yet.  The rules follow a handler from \<open>begin_tx\<close> to the
  write; \<open>done_or_undone c d\<close> is how it ends.
\<close>

definition started :: "database \<Rightarrow> panel \<Rightarrow> bool" where
  "started c s \<longleftrightarrow> pdb s = c"

named_theorems tx_step "rules for the steps of a handler"

lemma tx_begin [tx_step]: "valid (started c) begin_tx (\<lambda>_. in_tx c c) (started c)"
  by (simp add: valid_def started_def in_tx_def on_db_def)

lemma settled_started: "settled c s \<Longrightarrow> started c s"
  by (simp add: settled_def on_db_def started_def)

lemma tx_query [tx_step]:
  "valid (\<lambda>s. in_tx c d s \<and> G) (or_rollback (query Tx f)) (\<lambda>x s. in_tx c d s \<and> (G \<and> f d = Inr x)) (started c)"
proof (rule validI)
  fix s r t assume s: "in_tx c d s \<and> G" and run: "or_rollback (query Tx f) s = (r, t)"
  obtain q u where m: "query Tx f s = (q, u)" by (cases "query Tx f s")
  from keepsD_eq [OF frame_query m] s have u: "in_tx c d u" by (simp add: in_tx_def)
  have "f d = Inr x" if "q = Inr x" for x
    using stmt_Tx_Inr [OF m [unfolded query_def that], of d] s by (auto simp: in_tx_def on_db_def)
  with u s run m show "case r of Inl e \<Rightarrow> started c t | Inr x \<Rightarrow> in_tx c d t \<and> (G \<and> f d = Inr x)"
    by (cases q) (auto simp: or_rollback_def in_tx_def on_db_def started_def)
qed

lemma tx_abort [tx_step]:
  "valid (\<lambda>s. in_tx c d s \<and> G) (abort_if b e) (\<lambda>_ s. in_tx c d s \<and> (G \<and> \<not> b)) (started c)"
  by (auto simp: valid_def in_tx_def on_db_def started_def)

lemma tx_lift [tx_step]:
  "valid (\<lambda>s. in_tx c d s \<and> G) (or_rollback (lift_res r)) (\<lambda>x s. in_tx c d s \<and> (G \<and> r = Inr x)) (started c)"
  by (cases r) (auto simp: valid_def or_rollback_def in_tx_def on_db_def started_def)

definition done_or_undone :: "database \<Rightarrow> (database \<Rightarrow> bool) \<Rightarrow> panel \<Rightarrow> bool" where
  "done_or_undone c D s \<longleftrightarrow> pdb s = c \<or> D (pdb s)"

lemma commit_any: "valid (in_tx c d) commitManagedChange (\<lambda>_. settled d) (\<lambda>s. settled c s \<or> settled d s)"
proof (rule validI)
  fix s r t assume "in_tx c d s" and run: "commitManagedChange s = (r, t)"
  then have "ptx s = Some d" "pdb s = c" by (simp_all add: in_tx_def on_db_def)
  with managed_outcome_raw [OF _ run, of d]
  show "case r of Inl e \<Rightarrow> settled c t \<or> settled d t | Inr x \<Rightarrow> settled d t"
    by (auto simp: settled_def on_db_def split: sum.splits)
qed

lemma tx_write_now:
  assumes "\<And>e x. valid (in_tx c e) (g x) (\<lambda>_. settled e) (\<lambda>s. settled c s \<or> settled e s)"
    and "\<And>t x e. G \<Longrightarrow> f t d = (Inr x, e) \<Longrightarrow> D e"
  shows "valid (\<lambda>s. in_tx c d s \<and> G) (andThen (or_rollback (stmt_now Tx f)) g)
    (\<lambda>_ s. D (pdb s)) (done_or_undone c D)"
proof (rule validI)
  fix s r t assume s: "in_tx c d s \<and> G" and run: "andThen (or_rollback (stmt_now Tx f)) g s = (r, t)"
  then have sd: "ptx s = Some d" "pdb s = c" by (simp_all add: in_tx_def on_db_def)
  obtain q u where m: "stmt_now Tx f s = (q, u)" by (cases "stmt_now Tx f s")
  have u: "pdb u = c"
    using keepsD_eq [OF keeps_stmt_now_Tx m, of "\<lambda>d. d = c"] sd by (simp add: committed_def)
  show "case r of Inl e \<Rightarrow> done_or_undone c D t | Inr x \<Rightarrow> D (pdb t)"
  proof (cases q)
    case (Inl e)
    with run m u show ?thesis by (auto simp: andThen_run or_rollback_def done_or_undone_def)
  next
    case (Inr x)
    from m Inr have "stmt Tx (f (clock_now s)) s = (Inr x, u)" by (simp add: stmt_now_def andThen_run)
    from stmt_Tx_Inr [OF this sd(1)] obtain e where e: "f (clock_now s) d = (Inr x, e)" "ptx u = Some e"
      by (cases "f (clock_now s) d") auto
    then have u': "in_tx c e u" using u by (simp add: in_tx_def on_db_def)
    from run m Inr have "g x u = (r, t)" by (simp add: andThen_run or_rollback_def)
    from validD [OF assms(1) u' this] assms(2) [OF _ e(1)] s show ?thesis
      by (auto simp: settled_def on_db_def done_or_undone_def split: sum.splits)
  qed
qed

lemma tx_write:
  assumes "\<And>e x. valid (in_tx c e) (g x) (\<lambda>_. settled e) (\<lambda>s. settled c s \<or> settled e s)"
    and "\<And>x e. G \<Longrightarrow> f d = (Inr x, e) \<Longrightarrow> D e"
  shows "valid (\<lambda>s. in_tx c d s \<and> G) (andThen (or_rollback (stmt Tx f)) g)
    (\<lambda>_ s. D (pdb s)) (done_or_undone c D)"
proof -
  have "stmt Tx f = stmt_now Tx (\<lambda>_. f)" by (simp add: stmt_now_def fun_eq_iff andThen_run)
  with tx_write_now [OF assms(1), of G "\<lambda>_. f" d D] assms(2) show ?thesis by simp
qed

lemma tx_from_begin: "valid (in_tx c d) m Q E \<Longrightarrow> valid (\<lambda>s. in_tx c d s \<and> True) m Q E"
  by simp

lemma tx_error: "valid P m Q (started c) \<Longrightarrow> valid P m Q (done_or_undone c D)"
  by (erule valid_post) (simp_all add: started_def done_or_undone_def)

lemma tx_begin' [tx_step]: "valid (started c) begin_tx (\<lambda>_ s. in_tx c c s \<and> True) (started c)"
  using tx_begin by simp

definition deletes_free_row :: "int \<Rightarrow> database \<Rightarrow> database \<Rightarrow> bool" where
  "deletes_free_row i c d \<longleftrightarrow> (\<exists>r. row_by_id ob_Id i (tbl_outbounds c) = Some r
     \<and> \<not> ob_IsSystem r \<and> \<not> isReservedSystemTag (ob_Tag r)
     \<and> (\<forall>x \<in> set (tbl_rules c). rr_OutboundTag x \<noteq> ob_Tag r)
     \<and> d = c\<lparr>tbl_outbounds := delete_rows (\<lambda>x. ob_Id x = i) (tbl_outbounds c)\<rparr>)"

lemma DeleteOutbound_valid:
  "valid (started c) (DeleteOutbound i) (\<lambda>_ s. deletes_free_row i c (pdb s)) (done_or_undone c (deletes_free_row i c))"
  unfolding DeleteOutbound_def getOutboundByDB_def countOutboundRefsByDB_def
  by ((rule valid_andThen, rule tx_error, rule tx_step)+, rule tx_write, rule commit_any)
    (auto simp: delete_outbound_def outbound_by_id_Inr deletes_free_row_def filter_empty_conv)

text \<open>C16: a deletion, whatever fails and wherever, changes nothing or removes one row: one that is
  no system row, has no reserved tag and is named by no rule.  Without an error it removes it.\<close>

theorem delete_outbound_outcome:
  "case DeleteOutbound i s of
     (Inl e, t) \<Rightarrow> pdb t = pdb s \<or> deletes_free_row i (pdb s) (pdb t)
   | (Inr applied, t) \<Rightarrow> deletes_free_row i (pdb s) (pdb t)"
proof (cases "DeleteOutbound i s")
  case (Pair r t)
  have "started (pdb s) s" by (simp add: started_def)
  from validD [OF DeleteOutbound_valid this Pair] Pair show ?thesis
    by (cases r) (simp_all add: done_or_undone_def)
qed

text \<open>The change of an outbound.\<close>

definition set_row :: "int \<Rightarrow> outbound \<Rightarrow> database \<Rightarrow> database" where
  "set_row i r c = c\<lparr>tbl_outbounds := update_rows (\<lambda>x. ob_Id x = i) (\<lambda>_. r) (tbl_outbounds c)\<rparr>"

definition updates_outbound :: "outbound \<Rightarrow> database \<Rightarrow> database \<Rightarrow> bool" where
  "updates_outbound ob c d \<longleftrightarrow> (\<exists>cur t. row_by_id ob_Id (ob_Id ob) (tbl_outbounds c) = Some cur
     \<and> (if ob_IsSystem cur
        then d = set_row (ob_Id ob) (cur\<lparr>ob_Remark := TrimSpace (ob_Remark ob),
          ob_Sort := (if ob_Sort ob \<noteq> 0 \<or> ob_Sort cur = 0 then ob_Sort ob else ob_Sort cur), ob_UpdatedAt := t\<rparr>) c
        else (\<exists>v. ValidateOutbound ob = Inr v \<and> \<not> isReservedSystemTag (ob_Tag v) \<and> \<not> ob_IsSystem ob
          \<and> (\<forall>x \<in> set (tbl_outbounds c). ob_Tag x = ob_Tag v \<longrightarrow> ob_Id x = ob_Id ob)
          \<and> d = set_row (ob_Id ob) ((merge_outbound cur v)\<lparr>ob_UpdatedAt := t\<rparr>) c)))"

lemma save_outbound_Inr: "save_outbound t r d = (Inr x, e) \<Longrightarrow>
    e = set_row (ob_Id r) (r\<lparr>ob_UpdatedAt := t\<rparr>) d
    \<and> (\<forall>x \<in> set (tbl_outbounds d). ob_Tag x = ob_Tag r \<longrightarrow> ob_Id x = ob_Id r)"
  by (auto simp: save_outbound_def set_row_def list_ex_iff split: if_splits)

lemma valid_cases:
  "(b \<Longrightarrow> valid P m Q E) \<Longrightarrow> (\<not> b \<Longrightarrow> valid P n Q E) \<Longrightarrow> valid P (if b then m else n) Q E"
  by simp

lemma update_system_valid:
  assumes "row_by_id ob_Id (ob_Id ob) (tbl_outbounds c) = Some cur" and "ob_IsSystem cur"
  shows "valid (\<lambda>s. in_tx c c s \<and> G) (update_system_outbound ob cur)
    (\<lambda>_ s. updates_outbound ob c (pdb s)) (done_or_undone c (updates_outbound ob c))"
  unfolding update_system_outbound_def Let_def
proof ((rule valid_andThen, rule tx_error, rule tx_step)+, rule tx_write_now, rule commit_any, goal_cases)
  case (1 x xa t xb e)
  have "ob_Id cur = ob_Id ob" using row_by_id_id [OF assms(1)] .
  with save_outbound_Inr [OF 1(2)] assms show ?case
    unfolding updates_outbound_def by (intro exI [of _ cur] exI [of _ t]) simp
qed

lemma update_user_valid:
  assumes "row_by_id ob_Id (ob_Id ob) (tbl_outbounds c) = Some cur" and "\<not> ob_IsSystem cur"
  shows "valid (\<lambda>s. in_tx c c s \<and> G) (update_user_outbound ob cur)
    (\<lambda>_ s. updates_outbound ob c (pdb s)) (done_or_undone c (updates_outbound ob c))"
  unfolding update_user_outbound_def isOutboundTagExistsByDB_def
proof ((rule valid_andThen, rule tx_error, rule tx_step)+, rule tx_write_now, rule commit_any, goal_cases)
  case (1 x v xa exists xb t xc e)
  have "ob_Id cur = ob_Id ob" using row_by_id_id [OF assms(1)] .
  with save_outbound_Inr [OF 1(2)] assms 1(1) show ?case
    by (auto simp: updates_outbound_def merge_outbound_def intro!: exI [of _ t])
qed

lemma UpdateOutbound_settles:
  "valid (started c) (UpdateOutbound ob) (\<lambda>_ s. updates_outbound ob c (pdb s)) (done_or_undone c (updates_outbound ob c))"
proof -
  have r: "valid (started c) (reject b e) (\<lambda>_. started c) (started c)" for b e
    by (auto simp: valid_def)
  have f: "valid (\<lambda>s. in_tx c c s \<and> True \<and> outbound_by_id (ob_Id ob) c = Inr cur)
     (if ob_IsSystem cur then update_system_outbound ob cur else update_user_outbound ob cur)
     (\<lambda>_ s. updates_outbound ob c (pdb s)) (done_or_undone c (updates_outbound ob c))" for cur
  proof (cases "row_by_id ob_Id (ob_Id ob) (tbl_outbounds c) = Some cur")
    case True
    with update_system_valid update_user_valid show ?thesis by (cases "ob_IsSystem cur") simp_all
  qed (simp add: valid_def outbound_by_id_Inr)
  show ?thesis
    unfolding UpdateOutbound_def getOutboundByDB_def
    by (rule valid_andThen [OF tx_error [OF r]], (rule valid_andThen, rule tx_error, rule tx_step)+, rule f)
qed

text \<open>C17: an update changes nothing or replaces one row; of a system row only the remark, the
  order and the time change, and a row of the user stays valid, with a tag that is free and not reserved.\<close>

theorem update_outbound_outcome:
  "case UpdateOutbound ob s of
     (Inl e, t) \<Rightarrow> pdb t = pdb s \<or> updates_outbound ob (pdb s) (pdb t)
   | (Inr applied, t) \<Rightarrow> updates_outbound ob (pdb s) (pdb t)"
proof (cases "UpdateOutbound ob s")
  case (Pair r t)
  have "started (pdb s) s" by (simp add: started_def)
  from validD [OF UpdateOutbound_settles this Pair] Pair show ?thesis
    by (cases r) (simp_all add: done_or_undone_def)
qed

end
