(* ===== verification/Rule_Properties.thy ===== *)
theory Rule_Properties
  imports Managed_Properties
begin

text \<open>
  The outcome of the handlers of routing rules: what they may change of the table, the
  reordering as one function on the rows, and the template that finds its own rules.
\<close>

section \<open>One rule\<close>

definition set_rule :: "int \<Rightarrow> (routing_rule \<Rightarrow> routing_rule) \<Rightarrow> int \<Rightarrow> database \<Rightarrow> database" where
  "set_rule i f t c = c\<lparr>tbl_rules := map (\<lambda>x. if rr_Id x = i then (f x)\<lparr>rr_UpdatedAt := t\<rparr> else x) (tbl_rules c)\<rparr>"

lemma update_rule_Inr: "update_rule t i f d = (Inr x, e) \<Longrightarrow> e = set_rule i f t d"
  by (auto simp: update_rule_def set_rule_def update_rows_def)

lemma rule_by_id_Inr: "rule_by_id i d = Inr r \<longleftrightarrow> row_by_id rr_Id i (tbl_rules d) = Some r"
  by (auto simp: rule_by_id_def split: option.split)

text \<open>
  What \<open>UpdateRule\<close> may do: a system rule gets a remark and an order, another rule the
  fields of the validated rule; the outbound of a validated rule exists.
\<close>

definition updates_rule :: "routing_rule \<Rightarrow> database \<Rightarrow> database \<Rightarrow> bool" where
  "updates_rule r c d \<longleftrightarrow> (\<exists>cur t. row_by_id rr_Id (rr_Id r) (tbl_rules c) = Some cur
     \<and> (if rr_IsSystem cur
        then d = set_rule (rr_Id r) (\<lambda>x. x\<lparr>rr_Remark := TrimSpace (rr_Remark r),
          rr_Sort := (if rr_Sort r \<noteq> 0 \<or> rr_Sort cur = 0 then rr_Sort r else rr_Sort cur)\<rparr>) t c
        else (\<exists>v. check_rule (default_type (trim_rule r)) = Inr v
          \<and> rr_OutboundTag v \<in> ob_Tag ` set (tbl_outbounds c)
          \<and> d = set_rule (rr_Id r) (merge_rule v) t c)))"

lemma tx_validate:
  "valid (\<lambda>s. in_tx c d s \<and> G) (or_rollback (ValidateRule r))
     (\<lambda>v s. in_tx c d s \<and> (G \<and> check_rule (default_type (trim_rule r)) = Inr v
        \<and> rr_OutboundTag v \<in> ob_Tag ` set (tbl_outbounds c))) (started c)"
proof (rule validI)
  fix s q t assume s: "in_tx c d s \<and> G" and run: "or_rollback (ValidateRule r) s = (q, t)"
  obtain q' u where m: "ValidateRule r s = (q', u)" by (cases "ValidateRule r s")
  have "keeps (on_db P) (ValidateRule r)" for P
    unfolding ValidateRule_def outboundTagExists_def outboundTagExistsByDB_def Let_def
    by (intro keeps_intro db_frame)
  from keepsD_eq [OF this m] s have u: "in_tx c d u" by (simp add: in_tx_def)
  have "check_rule (default_type (trim_rule r)) = Inr v \<and> rr_OutboundTag v \<in> ob_Tag ` set (tbl_outbounds c)"
    if v: "q' = Inr v" for v
  proof -
    from m v obtain b w where q: "query Conn (\<lambda>d. Inr (0 < length (filter
        (\<lambda>x. ob_Tag x = rr_OutboundTag (default_type (trim_rule r))) (tbl_outbounds d)))) s = (Inr b, w)"
      and b: b and c: "check_rule (default_type (trim_rule r)) = Inr v"
      by (auto simp: ValidateRule_def Let_def outboundTagExists_def outboundTagExistsByDB_def andThen_Inr split: if_splits)
    from query_Conn_Inr [OF q] b s have "0 < length (filter
        (\<lambda>x. ob_Tag x = rr_OutboundTag (default_type (trim_rule r))) (tbl_outbounds c))"
      by (simp add: in_tx_def on_db_def)
    with c check_rule_tag [OF c] show ?thesis by (simp only: rule_tag_exists)
  qed
  with u s run m show "case q of Inl e \<Rightarrow> started c t | Inr v \<Rightarrow> in_tx c d t \<and> (G
      \<and> check_rule (default_type (trim_rule r)) = Inr v \<and> rr_OutboundTag v \<in> ob_Tag ` set (tbl_outbounds c))"
    by (cases q') (auto simp: or_rollback_def in_tx_def on_db_def started_def)
qed

lemma update_system_rule_valid:
  assumes "row_by_id rr_Id (rr_Id r) (tbl_rules c) = Some cur" and "rr_IsSystem cur"
  shows "valid (\<lambda>s. in_tx c c s \<and> G) (update_system_rule r cur)
    (\<lambda>_ s. updates_rule r c (pdb s)) (done_or_undone c (updates_rule r c))"
  unfolding update_system_rule_def Let_def
proof ((rule valid_andThen, rule tx_error, rule tx_step)+, rule tx_write_now, rule commit_any, goal_cases)
  case (1 x xa t xb e)
  have "rr_Id cur = rr_Id r" using row_by_id_id [OF assms(1)] .
  with update_rule_Inr [OF 1(2)] assms show ?case
    unfolding updates_rule_def by (intro exI [of _ cur] exI [of _ t]) simp
qed

lemma update_user_rule_valid:
  assumes "row_by_id rr_Id (rr_Id r) (tbl_rules c) = Some cur" and "\<not> rr_IsSystem cur"
  shows "valid (\<lambda>s. in_tx c c s \<and> G) (update_user_rule r cur)
    (\<lambda>_ s. updates_rule r c (pdb s)) (done_or_undone c (updates_rule r c))"
  unfolding update_user_rule_def
proof ((rule valid_andThen, rule tx_error, rule tx_step tx_validate)+, rule tx_write_now, rule commit_any, goal_cases)
  case (1 x v t xb e)
  have "rr_Id cur = rr_Id r" using row_by_id_id [OF assms(1)] .
  with update_rule_Inr [OF 1(2)] assms 1(1) show ?case
    unfolding updates_rule_def by (intro exI [of _ cur] exI [of _ t]) auto
qed

lemma UpdateRule_valid:
  "valid (started c) (UpdateRule r) (\<lambda>_ s. updates_rule r c (pdb s)) (done_or_undone c (updates_rule r c))"
proof -
  have rj: "valid (started c) (reject b e) (\<lambda>_. started c) (started c)" for b e
    by (auto simp: valid_def)
  have f: "valid (\<lambda>s. in_tx c c s \<and> True \<and> rule_by_id (rr_Id r) c = Inr cur)
     (if rr_IsSystem cur then update_system_rule r cur else update_user_rule r cur)
     (\<lambda>_ s. updates_rule r c (pdb s)) (done_or_undone c (updates_rule r c))" for cur
  proof (cases "row_by_id rr_Id (rr_Id r) (tbl_rules c) = Some cur")
    case True
    with update_system_rule_valid update_user_rule_valid show ?thesis by (cases "rr_IsSystem cur") simp_all
  qed (simp add: valid_def rule_by_id_Inr)
  show ?thesis
    unfolding UpdateRule_def getRuleByDB_def
    by (rule valid_andThen [OF tx_error [OF rj]], (rule valid_andThen, rule tx_error, rule tx_step)+, rule f)
qed

text \<open>an update of a routing rule, whatever fails, changes nothing or one rule: a system rule only in
  its remark, order and time, another rule into a validated one whose outbound exists.\<close>

theorem update_rule_outcome:
  "case UpdateRule r s of
     (Inl e, t) \<Rightarrow> pdb t = pdb s \<or> updates_rule r (pdb s) (pdb t)
   | (Inr applied, t) \<Rightarrow> updates_rule r (pdb s) (pdb t)"
proof (cases "UpdateRule r s")
  case (Pair q t)
  have "started (pdb s) s" by (simp add: started_def)
  from validD [OF UpdateRule_valid this Pair] Pair show ?thesis
    by (cases q) (simp_all add: done_or_undone_def)
qed

section \<open>Reordering\<close>

text \<open>The order a rule has after the items: that of the last item with its id; zero stands for 1000.\<close>

definition item_sort :: "reorder_item \<Rightarrow> int" where
  "item_sort it = (if ri_Sort it = 0 then 1000 else ri_Sort it)"

definition new_sort :: "reorder_item list \<Rightarrow> routing_rule \<Rightarrow> int" where
  "new_sort items r = (case find (\<lambda>it. ri_Id it = rr_Id r) (rev items) of
       None \<Rightarrow> rr_Sort r | Some it \<Rightarrow> item_sort it)"

definition resorted :: "reorder_item list \<Rightarrow> routing_rule \<Rightarrow> routing_rule \<Rightarrow> bool" where
  "resorted items r r' \<longleftrightarrow> (\<exists>t. r' = r\<lparr>rr_Sort := new_sort items r, rr_UpdatedAt := t\<rparr>)"

definition reorders :: "reorder_item list \<Rightarrow> database \<Rightarrow> database \<Rightarrow> bool" where
  "reorders items c d \<longleftrightarrow> d\<lparr>tbl_rules := tbl_rules c\<rparr> = c
     \<and> list_all2 (resorted items) (tbl_rules c) (tbl_rules d)
     \<and> (\<forall>it \<in> set items. \<exists>r \<in> set (tbl_rules c). rr_Id r = ri_Id it)"

lemma resorted_Nil: "resorted [] r r"
  by (auto simp: resorted_def new_sort_def intro!: exI [of _ "rr_UpdatedAt r"])

lemma resorted_snoc:
  assumes "resorted items r x"
  shows "resorted (items @ [it]) r
    (if rr_Id x = ri_Id it then x\<lparr>rr_Sort := item_sort it, rr_UpdatedAt := t\<rparr> else x)"
proof -
  obtain u where x: "x = r\<lparr>rr_Sort := new_sort items r, rr_UpdatedAt := u\<rparr>"
    using assms by (auto simp: resorted_def)
  have n: "new_sort (items @ [it]) r = (if ri_Id it = rr_Id r then item_sort it else new_sort items r)"
    by (simp add: new_sort_def)
  show ?thesis unfolding resorted_def n
    by (rule exI [of _ "if rr_Id r = ri_Id it then t else u"]) (simp add: x)
qed

lemma reorders_snoc:
  assumes "reorders items c d" and "rr_Id r = ri_Id it" and "r \<in> set (tbl_rules d)"
  shows "reorders (items @ [it]) c (set_rule (ri_Id it) (\<lambda>x. x\<lparr>rr_Sort := item_sort it\<rparr>) t d)"
proof -
  let ?g = "\<lambda>x. if rr_Id x = ri_Id it then x\<lparr>rr_Sort := item_sort it, rr_UpdatedAt := t\<rparr> else x"
  have l: "list_all2 (resorted items) (tbl_rules c) (tbl_rules d)" using assms(1) by (simp add: reorders_def)
  have "list_all2 (resorted (items @ [it])) (tbl_rules c) (map ?g (tbl_rules d))"
    unfolding list_all2_map2 by (rule list_all2_mono [OF l resorted_snoc])
  moreover have "\<exists>r \<in> set (tbl_rules c). rr_Id r = ri_Id it"
  proof -
    from assms(3) obtain n where n: "n < length (tbl_rules d)" "r = tbl_rules d ! n" by (auto simp: in_set_conv_nth)
    with l have "resorted items (tbl_rules c ! n) r" "n < length (tbl_rules c)" by (auto simp: list_all2_conv_all_nth)
    with assms(2) show ?thesis by (intro bexI [of _ "tbl_rules c ! n"]) (auto simp: resorted_def)
  qed
  ultimately show ?thesis using assms(1) by (auto simp: reorders_def set_rule_def)
qed

definition reordering :: "database \<Rightarrow> reorder_item list \<Rightarrow> panel \<Rightarrow> bool" where
  "reordering c items s \<longleftrightarrow> (\<exists>d. in_tx c d s \<and> reorders items c d)"

lemma reorder_one_valid: "valid (reordering c items) (reorder_one it) (\<lambda>_. reordering c (items @ [it])) (started c)"
proof (rule validI)
  fix s r t assume pre: "reordering c items s" and run: "reorder_one it s = (r, t)"
  then obtain d where d: "in_tx c d s" "reorders items c d" by (auto simp: reordering_def)
  have w: "valid (\<lambda>s. in_tx c d s \<and> True \<and> rule_by_id (ri_Id it) d = Inr x)
     (or_rollback (stmt_now Tx (\<lambda>t. update_rule t (ri_Id it)
       (\<lambda>x. x\<lparr>rr_Sort := (if ri_Sort it = 0 then 1000 else ri_Sort it)\<rparr>))))
     (\<lambda>_. reordering c (items @ [it])) (started c)" for x
  proof (rule validI)
    fix s r t assume s: "in_tx c d s \<and> True \<and> rule_by_id (ri_Id it) d = Inr x"
      and run: "or_rollback (stmt_now Tx (\<lambda>t. update_rule t (ri_Id it)
       (\<lambda>x. x\<lparr>rr_Sort := (if ri_Sort it = 0 then 1000 else ri_Sort it)\<rparr>))) s = (r, t)"
    then have sd: "ptx s = Some d" "pdb s = c" by (simp_all add: in_tx_def on_db_def)
    let ?f = "\<lambda>t. update_rule t (ri_Id it) (\<lambda>x. x\<lparr>rr_Sort := (if ri_Sort it = 0 then 1000 else ri_Sort it)\<rparr>)"
    obtain q u where m: "stmt_now Tx ?f s = (q, u)" by (cases "stmt_now Tx ?f s")
    have u: "pdb u = c"
      using keepsD_eq [OF keeps_stmt_now_Tx m, of "\<lambda>d. d = c"] sd by (simp add: committed_def)
    show "case r of Inl e \<Rightarrow> started c t | Inr y \<Rightarrow> reordering c (items @ [it]) t"
    proof (cases q)
      case (Inl e)
      with run m u show ?thesis by (auto simp: or_rollback_def started_def)
    next
      case (Inr y)
      from m Inr have "stmt Tx (?f (clock_now s)) s = (Inr y, u)" by (simp add: stmt_now_def andThen_run)
      from stmt_Tx_Inr [OF this sd(1)]
      have e: "ptx u = Some (set_rule (ri_Id it) (\<lambda>x. x\<lparr>rr_Sort := item_sort it\<rparr>) (clock_now s) d)"
        by (auto simp: update_rule_def set_rule_def update_rows_def item_sort_def)
      from s have "row_by_id rr_Id (ri_Id it) (tbl_rules d) = Some x" by (simp add: rule_by_id_Inr)
      then have "rr_Id x = ri_Id it" "x \<in> set (tbl_rules d)" by (auto simp: row_by_id_def find_Some_iff)
      from reorders_snoc [OF d(2) this] e u have "reordering c (items @ [it]) u"
        by (auto simp: reordering_def in_tx_def on_db_def)
      with run m Inr show ?thesis by (auto simp: or_rollback_def)
    qed
  qed
  have "valid (\<lambda>s. in_tx c d s \<and> True) (reorder_one it) (\<lambda>_. reordering c (items @ [it])) (started c)"
    unfolding reorder_one_def getRuleByDB_def by (rule valid_andThen [OF tx_query], rule w)
  from validD [OF this _ run] d show "case r of Inl e \<Rightarrow> started c t | Inr x \<Rightarrow> reordering c (items @ [it]) t"
    by simp
qed

lemma reorder_all_valid:
  "valid (reordering c done) (for_each reorder_one items) (\<lambda>_. reordering c (done @ items)) (started c)"
proof (induction items arbitrary: "done")
  case Nil
  then show ?case by (simp add: valid_def)
next
  case (Cons it items)
  from valid_andThen [OF reorder_one_valid, of c "done" it "\<lambda>_. for_each reorder_one items"] Cons.IH [of "done @ [it]"]
  show ?case by simp
qed

lemma ReorderRules_valid:
  assumes "items \<noteq> []"
  shows "valid (started c) (ReorderRules items) (\<lambda>_ s. reorders items c (pdb s)) (done_or_undone c (reorders items c))"
proof -
  have b: "valid (started c) begin_tx (\<lambda>_. reordering c []) (done_or_undone c (reorders items c))"
    by (auto simp: valid_def started_def reordering_def in_tx_def on_db_def reorders_def list.rel_refl resorted_Nil)
  have e: "valid (reordering c items) commitManagedChange (\<lambda>_ s. reorders items c (pdb s)) (done_or_undone c (reorders items c))"
  proof (rule validI)
    fix s r t assume "reordering c items s" and run: "commitManagedChange s = (r, t)"
    then obtain d where d: "in_tx c d s" "reorders items c d" by (auto simp: reordering_def)
    from validD [OF commit_any d(1) run] d(2) show "case r of Inl e \<Rightarrow> done_or_undone c (reorders items c) t
        | Inr x \<Rightarrow> reorders items c (pdb t)"
      by (auto simp: settled_def on_db_def done_or_undone_def split: sum.splits)
  qed
  have "valid (reordering c []) (for_each reorder_one items) (\<lambda>_. reordering c items) (done_or_undone c (reorders items c))"
    using tx_error [OF reorder_all_valid [of c "[]" items]] by simp
  with assms show ?thesis unfolding ReorderRules_def
    by simp (rule valid_andThen [OF b], rule valid_andThen [OF _ e])
qed

text \<open>a reordering gives every rule the order of the last item that names it, changes nothing else
  but the time, and applies to all the items or to none.\<close>

theorem reorder_outcome:
  assumes "items \<noteq> []"
  shows "case ReorderRules items s of
     (Inl e, t) \<Rightarrow> pdb t = pdb s \<or> reorders items (pdb s) (pdb t)
   | (Inr applied, t) \<Rightarrow> reorders items (pdb s) (pdb t)"
proof (cases "ReorderRules items s")
  case (Pair q t)
  have "started (pdb s) s" by (simp add: started_def)
  from validD [OF ReorderRules_valid [OF assms] this Pair] Pair show ?thesis
    by (cases q) (simp_all add: done_or_undone_def)
qed

definition proxy_rule :: routing_rule where
  "proxy_rule = \<lparr>rr_Id = 1, rr_Type = ''field'', rr_Domain = ''[\"a\"]'', rr_IP = [], rr_Port = [], rr_Protocol = [],
     rr_Network = [], rr_Source = [], rr_InboundTag = [], rr_OutboundTag = ''proxy'', rr_Enabled = True,
     rr_Remark = [], rr_Sort = 1000, rr_IsSystem = False, rr_CreatedAt = 0, rr_UpdatedAt = 0\<rparr>"

definition ruled_db :: database where
  "ruled_db = proxy_db\<lparr>tbl_rules := [proxy_rule, proxy_rule\<lparr>rr_Id := 2, rr_Domain := ''[\"b\"]''\<rparr>]\<rparr>"

theorem reorder_outcome_witness:
  "\<exists>t. ReorderRules [\<lparr>ri_Id = 2, ri_Sort = 7\<rparr>, \<lparr>ri_Id = 2, ri_Sort = 0\<rparr>] (panel_with ruled_db) = (Inr False, t)
     \<and> reorders [\<lparr>ri_Id = 2, ri_Sort = 7\<rparr>, \<lparr>ri_Id = 2, ri_Sort = 0\<rparr>] ruled_db (pdb t)"
proof -
  let ?i = "[\<lparr>ri_Id = 2, ri_Sort = 7\<rparr>, \<lparr>ri_Id = 2, ri_Sort = 0\<rparr>] :: reorder_item list"
  have "fst (ReorderRules ?i (panel_with ruled_db)) = Inr False" by code_simp
  then obtain t where t: "ReorderRules ?i (panel_with ruled_db) = (Inr False, t)"
    by (cases "ReorderRules ?i (panel_with ruled_db)") auto
  have "pdb (panel_with ruled_db) = ruled_db" by (simp add: panel_with_def)
  with reorder_outcome [of ?i "panel_with ruled_db"] t show ?thesis by simp
qed

section \<open>The template\<close>

lemma fingerprint_defaults: "routingRuleFingerprint (rule_defaults t r) = routingRuleFingerprint r"
  "routingRuleFingerprint (r\<lparr>rr_Id := i\<rparr>) = routingRuleFingerprint r"
  by (simp_all add: routingRuleFingerprint_def rule_defaults_def)

definition prints :: "database \<Rightarrow> string set" where
  "prints d = routingRuleFingerprint ` set (tbl_rules d)"

lemma create_rule_Inr:
  assumes "create_rule t r d = (Inr x, e)"
  shows "prints e = insert (routingRuleFingerprint r) (prints d)" and "length (tbl_rules e) = Suc (length (tbl_rules d))"
    and "e\<lparr>tbl_rules := tbl_rules d\<rparr> = d"
proof -
  from assms obtain rows where i: "insert_row rr_Id (\<lambda>i r. r\<lparr>rr_Id := i\<rparr>) (rule_defaults t r) (tbl_rules d) = Inr (x, rows)"
    and e: "e = d\<lparr>tbl_rules := rows\<rparr>" by (auto simp: create_rule_def split: sum.splits)
  from i have "routingRuleFingerprint x = routingRuleFingerprint r"
    by (auto simp: insert_row_def Let_def fingerprint_defaults split: if_splits)
  with rule_rows.insert_row_set [OF i] show "prints e = insert (routingRuleFingerprint r) (prints d)"
    by (simp add: prints_def e)
  from i show "length (tbl_rules e) = Suc (length (tbl_rules d))"
    by (auto simp: e insert_row_def Let_def split: if_splits)
  show "e\<lparr>tbl_rules := tbl_rules d\<rparr> = d" by (simp add: e)
qed

text \<open>\<open>filled c n cs d\<close>: \<open>d\<close> is \<open>c\<close> with \<open>n\<close> more rules, among which every candidate has its like.\<close>

definition filled :: "database \<Rightarrow> nat \<Rightarrow> string set \<Rightarrow> database \<Rightarrow> bool" where
  "filled c n fs d \<longleftrightarrow> d\<lparr>tbl_rules := tbl_rules c\<rparr> = c \<and> length (tbl_rules d) = length (tbl_rules c) + n \<and> fs \<subseteq> prints d"

definition filling :: "database \<Rightarrow> nat \<Rightarrow> string set \<Rightarrow> panel \<Rightarrow> bool" where
  "filling c n fs s \<longleftrightarrow> (\<exists>d. in_tx c d s \<and> filled c n fs d)"

lemma add_one_valid:
  "valid (filling c n fs) (or_rollback (stmt_now Tx (\<lambda>t. create_rule t r)))
     (\<lambda>_. filling c (Suc n) (insert (routingRuleFingerprint r) fs)) (started c)"
proof (rule validI)
  fix s q t assume pre: "filling c n fs s" and run: "or_rollback (stmt_now Tx (\<lambda>t. create_rule t r)) s = (q, t)"
  then obtain d where d: "ptx s = Some d" "pdb s = c" "filled c n fs d" by (auto simp: filling_def in_tx_def on_db_def)
  obtain q' u where m: "stmt_now Tx (\<lambda>t. create_rule t r) s = (q', u)" by (cases "stmt_now Tx (\<lambda>t. create_rule t r) s")
  have u: "pdb u = c"
    using keepsD_eq [OF keeps_stmt_now_Tx m, of "\<lambda>d. d = c"] d by (simp add: committed_def)
  show "case q of Inl e \<Rightarrow> started c t | Inr x \<Rightarrow> filling c (Suc n) (insert (routingRuleFingerprint r) fs) t"
  proof (cases q')
    case (Inl e)
    with run m u show ?thesis by (auto simp: or_rollback_def started_def)
  next
    case (Inr x)
    from m Inr have "stmt Tx (create_rule (clock_now s) r) s = (Inr x, u)" by (simp add: stmt_now_def andThen_run)
    from stmt_Tx_Inr [OF this d(1)] obtain e where e: "create_rule (clock_now s) r d = (Inr x, e)" "ptx u = Some e"
      by (cases "create_rule (clock_now s) r d") auto
    from create_rule_Inr [OF e(1)] d(3) have "filled c (Suc n) (insert (routingRuleFingerprint r) fs) e"
      by (auto simp: filled_def) (metis database.surjective database.update_convs(4))
    with run m Inr e(2) u show ?thesis by (auto simp: or_rollback_def filling_def in_tx_def on_db_def)
  qed
qed

lemma add_candidates_fill:
  "valid (filling c k (set fps)) (add_candidates cs fps m n)
     (\<lambda>x s. fst x + snd x = m + n + length cs \<and> m \<le> fst x
        \<and> filling c (k + (fst x - m)) (set fps \<union> routingRuleFingerprint ` set cs) s)
     (started c)"
proof (induction cs arbitrary: k fps m n)
  case Nil
  then show ?case by (simp add: valid_def)
next
  case (Cons r cs)
  let ?fp = "routingRuleFingerprint r"
  show ?case
  proof (cases "?fp \<in> set fps")
    case True
    have e: "insert ?fp (set fps \<union> routingRuleFingerprint ` set cs) = set fps \<union> routingRuleFingerprint ` set cs"
      using True by auto
    from Cons.IH [of k fps m "Suc n"] True show ?thesis
      by (simp add: Let_def e)
  next
    case False
    have "valid (filling c (Suc k) (set (?fp # fps))) (add_candidates cs (?fp # fps) (Suc m) n)
     (\<lambda>x s. fst x + snd x = m + n + length (r # cs) \<and> m \<le> fst x
        \<and> filling c (k + (fst x - m)) (set fps \<union> routingRuleFingerprint ` set (r # cs)) s) (started c)"
    proof (rule valid_post [OF Cons.IH])
      fix x s assume "fst x + snd x = Suc m + n + length cs \<and> Suc m \<le> fst x
         \<and> filling c (Suc k + (fst x - Suc m)) (set (?fp # fps) \<union> routingRuleFingerprint ` set cs) s"
      then show "fst x + snd x = m + n + length (r # cs) \<and> m \<le> fst x
         \<and> filling c (k + (fst x - m)) (set fps \<union> routingRuleFingerprint ` set (r # cs)) s"
        by (cases x) (auto simp: Suc_diff_Suc)
    qed
    with False show ?thesis
      by (simp add: Let_def) (rule valid_andThen [OF add_one_valid], simp)
  qed
qed

lemma candidates_tag_only:
  "map routingRuleFingerprint (buildAITemplateCandidates g b p) = map routingRuleFingerprint (buildAITemplateCandidates g 0 [])"
  by (simp add: buildAITemplateCandidates_def Let_def routingRuleFingerprint_def comp_def case_prod_beta)

definition template_prints :: "string \<Rightarrow> string set" where
  "template_prints g = routingRuleFingerprint ` set (buildAITemplateCandidates g 0 [])"

lemma candidate_prints: "routingRuleFingerprint ` set (buildAITemplateCandidates g b p) = template_prints g"
  using candidates_tag_only [of g b p] by (metis list.set_map template_prints_def)

lemma candidate_count: "length (buildAITemplateCandidates g b p) = 9"
  by (simp add: buildAITemplateCandidates_def Let_def ai_specs_def)

text \<open>What a run of the template leaves, and the counts it returns.\<close>

definition templated :: "string \<Rightarrow> database \<Rightarrow> nat \<times> nat \<times> bool \<Rightarrow> database \<Rightarrow> bool" where
  "templated g c x d = (case x of (created, skipped, applied) \<Rightarrow> created + skipped = 9
     \<and> filled c created (template_prints (TrimSpace g)) d
     \<and> (template_prints (TrimSpace g) \<subseteq> prints c \<longrightarrow> created = 0))"

lemma add_candidates_none:
  "routingRuleFingerprint ` set cs \<subseteq> set fps \<Longrightarrow> add_candidates cs fps m n = ret (m, n + length cs)"
  by (induction cs fps m n rule: add_candidates.induct) (simp_all add: Let_def)

lemma prints_ordered: "routingRuleFingerprint ` set (rules_ordered True d) = prints d"
  by (simp add: prints_def rules_ordered_def)

lemma template_loop:
  assumes "prints c = set fps"
  shows "valid (in_tx c c) (add_candidates (buildAITemplateCandidates g b p) fps 0 0)
    (\<lambda>x s. fst x + snd x = 9 \<and> filling c (fst x) (set fps \<union> template_prints g) s
      \<and> (template_prints g \<subseteq> prints c \<longrightarrow> fst x = 0)) (started c)"
proof -
  let ?cs = "buildAITemplateCandidates g b p"
  have "filling c 0 (set fps) s" if "in_tx c c s" for s
    using that assms by (auto simp: filling_def filled_def)
  then have v: "valid (in_tx c c) (add_candidates ?cs fps 0 0)
     (\<lambda>x s. fst x + snd x = 9 \<and> filling c (fst x) (set fps \<union> template_prints g) s) (started c)"
    using valid_pre [OF add_candidates_fill [of c 0 fps ?cs 0 0], of "in_tx c c"] candidate_prints [of g b p]
    by (simp add: candidate_count)
  show ?thesis
  proof (cases "template_prints g \<subseteq> prints c")
    case True
    then have "add_candidates ?cs fps 0 0 = ret (0, 9)"
      using add_candidates_none [of ?cs fps 0 0] assms candidate_prints [of g b p] candidate_count [of g b p] by simp
    with v show ?thesis by (simp add: valid_def)
  next
    case False
    with v show ?thesis by simp
  qed
qed

lemma template_end:
  "valid (\<lambda>s. fst x + snd x = 9 \<and> filling c (fst x) (set fps \<union> template_prints (TrimSpace g)) s
        \<and> (template_prints (TrimSpace g) \<subseteq> prints c \<longrightarrow> fst x = 0))
     (case x of (created, skipped) \<Rightarrow> andThen commitManagedChange (\<lambda>applied. ret (created, skipped, applied)))
     (\<lambda>y s. templated g c y (pdb s)) (\<lambda>_. True)"
proof (rule validI)
  fix s r t
  obtain m n where x: "x = (m, n)" by (cases x)
  assume pre: "fst x + snd x = 9 \<and> filling c (fst x) (set fps \<union> template_prints (TrimSpace g)) s
        \<and> (template_prints (TrimSpace g) \<subseteq> prints c \<longrightarrow> fst x = 0)"
    and run: "(case x of (created, skipped) \<Rightarrow> andThen commitManagedChange (\<lambda>applied. ret (created, skipped, applied))) s = (r, t)"
  then obtain d where d: "in_tx c d s" "filled c m (set fps \<union> template_prints (TrimSpace g)) d"
    by (auto simp: x filling_def)
  show "case r of Inl e \<Rightarrow> True | Inr y \<Rightarrow> templated g c y (pdb t)"
  proof (cases r)
    case (Inr y)
    with run obtain a where a: "commitManagedChange s = (Inr a, t)" "y = (m, n, a)" by (auto simp: x andThen_Inr)
    from validD [OF commit_any d(1) a(1)] have "pdb t = d" by (simp add: settled_def on_db_def)
    with pre d(2) Inr a(2) show ?thesis by (auto simp: x templated_def filled_def)
  qed simp
qed

lemma weak_error: "valid P m Q E \<Longrightarrow> valid P m Q (\<lambda>_. True)"
  by (erule valid_post) simp_all

lemma ApplyAITemplate_valid:
  "valid (started c) (ApplyAITemplate g b p) (\<lambda>y s. templated g c y (pdb s)) (\<lambda>_. True)"
proof -
  have rj: "valid (started c) (reject b e) (\<lambda>_. started c) (started c)" for b e
    by (auto simp: valid_def)
  have k: "valid (\<lambda>s. in_tx c c s \<and> G \<and> Inr (rules_ordered True c) = Inr rs)
     (andThen (add_candidates (buildAITemplateCandidates (TrimSpace g) b p) (map routingRuleFingerprint rs) 0 0)
       (\<lambda>(created, skipped). andThen commitManagedChange (\<lambda>applied. ret (created, skipped, applied))))
     (\<lambda>y s. templated g c y (pdb s)) (\<lambda>_. True)" for G rs b p
  proof (cases "rs = rules_ordered True c")
    case True
    have "prints c = set (map routingRuleFingerprint rs)" using prints_ordered [of c] True by simp
    from valid_andThen [OF weak_error [OF template_loop [OF this, of "TrimSpace g" b p]] template_end]
    show ?thesis by (rule valid_pre) simp
  qed (simp add: valid_def)
  show ?thesis
    unfolding ApplyAITemplate_def Let_def outboundTagExistsByDB_def getRulesByDB_def
    by (rule valid_andThen [OF weak_error [OF rj]], (rule valid_andThen, rule weak_error, rule tx_step)+, rule k)
qed

text \<open>a successful run of the template leaves a like of each of its nine rules, accounts for all
  of them, and touches no rule that was there; a second run for the same outbound, with any other
  order and remark, creates none.\<close>

theorem template_twice:
  assumes "ApplyAITemplate g b p s = (Inr (m, n, a), t)" and "ApplyAITemplate g b' p' t = (Inr (m', n', a'), u)"
  shows "m + n = 9 \<and> length (tbl_rules (pdb t)) = length (tbl_rules (pdb s)) + m \<and> m' = 0 \<and> n' = 9"
proof -
  have "templated g (pdb s) (m, n, a) (pdb t)" "templated g (pdb t) (m', n', a') (pdb u)"
    using validD [OF ApplyAITemplate_valid _ assms(1), of "pdb s"] validD [OF ApplyAITemplate_valid _ assms(2), of "pdb t"]
    by (simp_all add: started_def)
  then show ?thesis by (auto simp: templated_def filled_def)
qed

text \<open>With nothing that fails and the switch off, a managed change is the commit.\<close>

lemma commitManagedChange_calm:
  assumes "faults s = []" and "ptx s = Some d" and "setting_value (tbl_settings (pdb s)) ''managedOutboundsRouting'' = None"
  shows "commitManagedChange s = (Inr False, s\<lparr>pdb := d, ptx := None\<rparr>)"
proof -
  have "ParseBool ''false'' = Inr False" by code_simp
  then have "GetManagedOutboundsRouting s = (Inr False, s)"
    using assms by (simp add: GetManagedOutboundsRouting_def getBool_def andThen_run getString_calm defaultValueMap_def)
  then show ?thesis
    using assms by (simp add: commitManagedChange_run andThen_run or_rollback_def validate_if_def commit_calm)
qed

lemma template_calm:
  assumes "faults s = []" and "setting_value (tbl_settings (pdb s)) ''managedOutboundsRouting'' = None"
    and "TrimSpace g \<noteq> []" and "TrimSpace g \<in> ob_Tag ` set (tbl_outbounds (pdb s))"
    and "template_prints (TrimSpace g) \<subseteq> prints (pdb s)"
  shows "fst (ApplyAITemplate g b p s) = Inr (0, 9, False)"
proof -
  let ?s = "s\<lparr>ptx := Some (pdb s)\<rparr>"
  have c: "commitManagedChange ?s = (Inr False, ?s\<lparr>pdb := pdb s, ptx := None\<rparr>)"
    by (rule commitManagedChange_calm) (simp_all add: assms)
  have l: "add_candidates (buildAITemplateCandidates (TrimSpace g) b p)
      (map routingRuleFingerprint (rules_ordered True (pdb s))) 0 0 = ret (0, 9)" for b p
    using add_candidates_none assms(5) prints_ordered [of "pdb s"] candidate_prints [of "TrimSpace g" b p] candidate_count
    by simp
  have "0 < length (filter (\<lambda>r. ob_Tag r = TrimSpace g) (tbl_outbounds (pdb s)))"
    using assms(4) by (simp only: rule_tag_exists)
  then show ?thesis
    using assms(1,3) c l
    by (simp add: ApplyAITemplate_def Let_def andThen_run outboundTagExistsByDB_def getRulesByDB_def or_rollback_def)
qed

definition proxy_run :: "(nat \<times> nat \<times> bool) res \<times> panel" where
  "proxy_run = ApplyAITemplate '' proxy '' 0 [] (panel_with proxy_db)"

text \<open>Evaluates the nine rules of the template.\<close>

lemma proxy_run_result:
  "(case proxy_run of (r, t) \<Rightarrow> (r, faults t, map ob_Tag (tbl_outbounds (pdb t)), length (tbl_settings (pdb t))))
    = (Inr (9, 0, False), [], [''proxy''], 0)"
  by code_simp

theorem template_twice_witness:
  "\<exists>t u. ApplyAITemplate '' proxy '' 0 [] (panel_with proxy_db) = (Inr (9, 0, False), t)
     \<and> ApplyAITemplate '' proxy '' 5 ''x'' t = (Inr (0, 9, False), u) \<and> length (tbl_rules (pdb t)) = 9"
proof -
  define s where "s = panel_with proxy_db"
  obtain t where t: "ApplyAITemplate '' proxy '' 0 [] s = (Inr (9, 0, False), t)" "faults t = []"
    "map ob_Tag (tbl_outbounds (pdb t)) = [''proxy'']" "tbl_settings (pdb t) = []"
    using proxy_run_result by (cases "ApplyAITemplate '' proxy '' 0 [] s") (auto simp: proxy_run_def s_def)
  have trim: "TrimSpace '' proxy '' = ''proxy''" by code_simp
  have "started (pdb s) s" by (simp add: started_def)
  from validD [OF ApplyAITemplate_valid this t(1)] have "template_prints ''proxy'' \<subseteq> prints (pdb t)"
    by (simp add: templated_def filled_def trim)
  moreover have "''proxy'' \<in> ob_Tag ` set (tbl_outbounds (pdb t))"
    by (simp only: list.set_map [symmetric] t(3)) simp
  ultimately have "fst (ApplyAITemplate '' proxy '' 5 ''x'' t) = Inr (0, 9, False)"
    by (intro template_calm) (simp_all add: trim t setting_value_def)
  then obtain u where u: "ApplyAITemplate '' proxy '' 5 ''x'' t = (Inr (0, 9, False), u)"
    by (cases "ApplyAITemplate '' proxy '' 5 ''x'' t") auto
  from template_twice [OF t(1) u] t(1) u show ?thesis
    by (auto simp: s_def panel_with_def proxy_db_def empty_database_def)
qed

section \<open>A renamed outbound\<close>

text \<open>\<open>UpdateOutbound\<close> does not look at the rules: on tables that are consistent it renames an
  outbound that a rule names, answers without an error, and leaves the rule pointing at a tag that no
  outbound has.\<close>

theorem rename_leaves_dangling_rule:
  "tables_ok ruled_db
   \<and> (\<exists>t. UpdateOutbound (proxy_outbound\<lparr>ob_Tag := ''renamed''\<rparr>) (panel_with ruled_db) = (Inr False, t)
        \<and> \<not> refs_ok (pdb t))"
proof -
  let ?run = "UpdateOutbound (proxy_outbound\<lparr>ob_Tag := ''renamed''\<rparr>) (panel_with ruled_db)"
  have 1: "fst ?run = Inr False" by code_simp
  have 2: "map ob_Tag (tbl_outbounds (pdb (snd ?run))) = [''renamed'']"
    "map rr_OutboundTag (tbl_rules (pdb (snd ?run))) = [''proxy'', ''proxy'']" by code_simp+
  have "ob_Tag ` set (tbl_outbounds (pdb (snd ?run))) = {''renamed''}"
    "rr_OutboundTag ` set (tbl_rules (pdb (snd ?run))) = {''proxy''}"
    by (simp_all only: list.set_map [symmetric] 2) simp_all
  then have "\<not> refs_ok (pdb (snd ?run))" by (simp add: refs_ok_def)
  moreover have "tables_ok ruled_db"
    by (simp add: tables_ok_def refs_ok_def tags_ok_def ids_ok_def ruled_db_def proxy_db_def proxy_outbound_def
        proxy_rule_def empty_database_def system_outbound_def)
  ultimately show ?thesis using 1 by (cases ?run) auto
qed

section \<open>Switching off\<close>

definition switches :: "int \<Rightarrow> bool \<Rightarrow> database \<Rightarrow> database \<Rightarrow> bool" where
  "switches i b c d \<longleftrightarrow> (\<exists>r t. row_by_id ob_Id i (tbl_outbounds c) = Some r
     \<and> (\<not> b \<longrightarrow> \<not> ob_IsSystem r \<and> \<not> isReservedSystemTag (ob_Tag r))
     \<and> d = c\<lparr>tbl_outbounds := update_rows (\<lambda>x. ob_Id x = i) (\<lambda>x. x\<lparr>ob_Enabled := b, ob_UpdatedAt := t\<rparr>) (tbl_outbounds c)\<rparr>)"

lemma ToggleOutbound_valid:
  "valid (started c) (ToggleOutbound i b) (\<lambda>_ s. switches i b c (pdb s)) (done_or_undone c (switches i b c))"
  unfolding ToggleOutbound_def getOutboundByDB_def
proof ((rule valid_andThen, rule tx_error, rule tx_step)+, rule tx_write_now, rule commit_any, goal_cases)
  case (1 x r xa t y e)
  then show ?case
    by (auto simp: update_outbound_def outbound_by_id_Inr switches_def intro!: exI [of _ t])
qed

text \<open>The switch of an outbound changes nothing or one row in its flag and time, and never
  switches off a system outbound or one with a reserved tag.\<close>

theorem toggle_outbound_outcome:
  "case ToggleOutbound i b s of
     (Inl e, t) \<Rightarrow> pdb t = pdb s \<or> switches i b (pdb s) (pdb t)
   | (Inr applied, t) \<Rightarrow> switches i b (pdb s) (pdb t)"
proof (cases "ToggleOutbound i b s")
  case (Pair q t)
  have "started (pdb s) s" by (simp add: started_def)
  from validD [OF ToggleOutbound_valid this Pair] Pair show ?thesis
    by (cases q) (simp_all add: done_or_undone_def)
qed

end
