(* ===== verification/Config_Properties.thy ===== *)
theory Config_Properties
  imports Rule_Properties
begin

text \<open>
  What the computed configuration contains: the routing section through its text
  (a printed section is read back), the order of the rules and of the outbounds,
  the inbounds of the database, and what a restart makes of a configuration.
\<close>

section \<open>The routing section is read back\<close>

named_theorems field_names "members of a JSON object by name"

definition rule_ok :: "routing_rule_config \<Rightarrow> bool" where
  "rule_ok r \<longleftrightarrow> valid_utf8 (rc_Type r) \<and> list_all valid_utf8 (rc_Domain r) \<and> list_all valid_utf8 (rc_InboundTag r)
     \<and> list_all valid_utf8 (rc_IP r) \<and> valid_utf8 (rc_Port r) \<and> list_all valid_utf8 (rc_Protocol r)
     \<and> valid_utf8 (rc_Network r) \<and> list_all valid_utf8 (rc_Source r) \<and> valid_utf8 (rc_OutboundTag r)"

definition routing_ok :: "routing_config \<Rightarrow> bool" where
  "routing_ok c \<longleftrightarrow> valid_utf8 (DomainStrategy c) \<and> list_all rule_ok (Rules c)"

lemma field_vals_append [field_names]: "field_vals n (a @ b) = field_vals n a @ field_vals n b"
  by (simp add: field_vals_def)

lemma field_vals_omit_empty [field_names]:
  "field_vals n (omit_empty k s) = (if EqualFold k n \<and> s \<noteq> [] then [JStr s] else [])"
  by (simp add: field_vals_def omit_empty_def)

lemma field_vals_omit_empties [field_names]:
  "field_vals n (omit_empties k ws) = (if EqualFold k n \<and> ws \<noteq> [] then [JArr (map JStr ws)] else [])"
  by (simp add: field_vals_def omit_empties_def)

lemma string_field_omitted: "string_field [] (if s \<noteq> [] then [JStr s] else []) = Some s"
  by simp

lemma as_strings_JStr: "those (map as_string (map JStr ws)) = Some ws"
  by (induction ws) auto

lemma strings_field_omitted: "last_decoded as_strings [] (if ws \<noteq> [] then [JArr (map JStr ws)] else []) = Some ws"
  using as_strings_JStr [of ws] by simp

lemma rule_fields [field_names]:
  "EqualFold a b \<longleftrightarrow> a = b" if "a \<in> {''type'', ''domain'', ''inboundTag'', ''ip'', ''port'', ''protocol'',
     ''network'', ''source'', ''outboundTag''}" and "b \<in> {''type'', ''domain'', ''inboundTag'', ''ip'', ''port'',
     ''protocol'', ''network'', ''source'', ''outboundTag''}"
  using that by (elim insertE emptyE) (simp_all add: EqualFold_def ToLower_def to_lower_char_def)

lemma decode_rule_json: "decode_rule (rule_json r) = Some r"
  by (simp add: decode_rule_def rule_json_def rule_of_members_def get_string_def get_strings_def field_names
      as_strings_JStr del: map_map)

lemma names_utf8: "list_all valid_utf8 [''type'', ''domain'', ''inboundTag'', ''ip'', ''port'', ''protocol'', ''network'',
    ''source'', ''outboundTag'', ''domainStrategy'', ''rules'']"
  by code_simp

lemma members_ok:
  "valid_utf8 k \<Longrightarrow> valid_utf8 s \<Longrightarrow> list_all (\<lambda>(k, v). valid_utf8 k \<and> json_ok v) (omit_empty k s)"
  "valid_utf8 k \<Longrightarrow> list_all valid_utf8 ws \<Longrightarrow> list_all (\<lambda>(k, v). valid_utf8 k \<and> json_ok v) (omit_empties k ws)"
  by (auto simp: omit_empty_def omit_empties_def list_all_iff)

lemma rule_json_ok: "rule_ok r \<Longrightarrow> json_ok (rule_json r)"
  using names_utf8 by (simp add: rule_json_def rule_ok_def members_ok)

lemma routing_json_ok: "routing_ok c \<Longrightarrow> json_ok (routing_json c)"
proof -
  assume ok: "routing_ok c"
  then have "list_all json_ok (map rule_json (Rules c))"
    by (auto simp: routing_ok_def list_all_iff rule_json_ok)
  with ok names_utf8 show ?thesis by (simp add: routing_json_def routing_ok_def members_ok)
qed

lemma decode_rules_json: "decode_rules (JArr (map rule_json rs)) = Some rs"
  by (induction rs) (auto simp: decode_rules_def decode_rule_json)

lemma routing_fields: "EqualFold ''rules'' ''domainStrategy'' = False" "EqualFold ''domainStrategy'' ''rules'' = False"
  by (simp_all add: EqualFold_def ToLower_def to_lower_char_def)

lemma routing_read_back: "routing_ok c \<Longrightarrow> decode_routing (print_json (routing_json c)) = Some c"
proof -
  assume ok: "routing_ok c"
  define kvs where "kvs = omit_empty ''domainStrategy'' (DomainStrategy c)
     @ (if Rules c = [] then [] else [(''rules'', JArr (map rule_json (Rules c)))])"
  have r: "routing_json c = JObj kvs" by (simp add: routing_json_def kvs_def)
  with struct_members_print [of kvs] routing_json_ok [OF ok]
  have m: "struct_members (print_json (routing_json c)) = Some kvs" by simp
  have d: "field_vals ''domainStrategy'' kvs = (if DomainStrategy c \<noteq> [] then [JStr (DomainStrategy c)] else [])"
    by (simp add: kvs_def field_names routing_fields) (simp add: field_vals_def routing_fields)
  have u: "field_vals ''rules'' kvs = (if Rules c \<noteq> [] then [JArr (map rule_json (Rules c))] else [])"
    by (simp add: kvs_def field_names routing_fields) (simp add: field_vals_def EqualFold_refl)
  show ?thesis by (simp add: decode_routing_def m get_string_def d u decode_rules_json)
qed

lemma routing_json_text: "print_json (routing_json c) \<noteq> [] \<and> TrimSpace (print_json (routing_json c)) = print_json (routing_json c)
    \<and> print_json (routing_json c) \<noteq> ''null''"
proof -
  define kvs where "kvs = omit_empty ''domainStrategy'' (DomainStrategy c)
     @ (if Rules c = [] then [] else [(''rules'', JArr (map rule_json (Rules c)))])"
  have "routing_json c = JObj kvs" by (simp add: routing_json_def kvs_def)
  with TrimSpace_object [of kvs] show ?thesis by auto
qed

section \<open>Reading without failures\<close>

text \<open>Where nothing fails, the computation of a configuration leaves the panel as it is.\<close>

definition calm_at :: "panel \<Rightarrow> panel \<Rightarrow> bool" where
  "calm_at s t \<longleftrightarrow> t = s \<and> faults s = []"

lemma calm_query: "keeps (calm_at s) (query Conn f)"
  by (auto simp: keeps_def calm_at_def)

lemma calm_run: "keeps (calm_at s) m \<Longrightarrow> faults s = [] \<Longrightarrow> m s = (r, t) \<Longrightarrow> t = s"
  using keepsD_eq [of "calm_at s" m s r t] by (simp add: calm_at_def)

lemma getBaseXrayConfig_calm: "keeps (calm_at s) getBaseXrayConfig"
  unfolding getBaseXrayConfig_def GetXrayConfigTemplate_def ApplyAccessLogSetting_def IsAccessLogEnabled_def
    getBoolSetting_def getString_def getSetting_def by (intro keeps_intro calm_query)

lemma GetAllInbounds_calm: "faults s = [] \<Longrightarrow> GetAllInbounds s = (Inr (tbl_inbounds (pdb s)), s)"
  by (simp add: GetAllInbounds_def find_inbounds_def act_simps)

lemma getRulesByDB_calm: "faults s = [] \<Longrightarrow> getRulesByDB Conn b s = (Inr (rules_ordered b (pdb s)), s)"
  by (simp add: getRulesByDB_def)

lemma getOutboundsByDB_calm: "faults s = [] \<Longrightarrow> getOutboundsByDB Conn b s = (Inr (outbounds_ordered b (pdb s)), s)"
  by (simp add: getOutboundsByDB_def)

lemma lift_res_Inr: "lift_res r s = (Inr x, t) \<longleftrightarrow> r = Inr x \<and> t = s"
  by (cases r) auto

section \<open>The rules of the managed routing\<close>

definition rule_row_ok :: "routing_rule \<Rightarrow> bool" where
  "rule_row_ok r \<longleftrightarrow> valid_utf8 (TrimSpace (rr_Type r)) \<and> valid_utf8 (TrimSpace (rr_Port r))
     \<and> valid_utf8 (TrimSpace (rr_Network r)) \<and> valid_utf8 (rr_OutboundTag r)"

lemma as_strings_ok: "as_strings v = Some ws \<Longrightarrow> json_ok v \<Longrightarrow> list_all valid_utf8 ws"
proof (cases v)
  case (JArr vs)
  have one: "as_string x = Some w \<Longrightarrow> json_ok x \<Longrightarrow> valid_utf8 w" for x w
    by (cases x) auto
  assume "as_strings v = Some ws" "json_ok v"
  with JArr have "those (map as_string vs) = Some ws" "list_all json_ok vs" by auto
  then show ?thesis by (induction vs arbitrary: ws) (auto intro: one split: option.splits)
qed auto

lemma decodeJSONArrayStrings_ok: "decodeJSONArrayStrings raw = Inr ws \<Longrightarrow> list_all valid_utf8 ws"
  using parse_json_ok as_strings_ok
  by (fastforce simp: decodeJSONArrayStrings_def Let_def split: if_splits option.splits Option.bind_splits)

lemma field_utf8: "valid_utf8 ''field''" "valid_utf8 ''api''" "valid_utf8 dokodemoFreedomTag"
  by code_simp+

lemma buildRoutingRuleConfig_ok: "buildRoutingRuleConfig r = Inr c \<Longrightarrow> rule_row_ok r \<Longrightarrow> rule_ok c"
  using decodeJSONArrayStrings_ok field_utf8
  by (auto simp: buildRoutingRuleConfig_def rule_row_ok_def rule_ok_def defaultRoutingRuleType_def Let_def
      split: sum.splits)

lemma map_res_all: "map_res f xs = Inr ys \<Longrightarrow> (\<And>x y. x \<in> set xs \<Longrightarrow> f x = Inr y \<Longrightarrow> P x y) \<Longrightarrow> list_all2 P xs ys"
  by (induction xs arbitrary: ys) (fastforce split: sum.splits)+

lemma map_res_set: "map_res f xs = Inr ys \<Longrightarrow> (\<And>x y. x \<in> set xs \<Longrightarrow> f x = Inr y \<Longrightarrow> P y) \<Longrightarrow> list_all P ys"
  by (induction xs arbitrary: ys) (fastforce split: sum.splits)+

lemma tunnel_needed_iff: "tunnel_needed is' \<longleftrightarrow> tunnel_tags is' \<noteq> []"
  by (auto simp: tunnel_needed_def tunnel_tags_def list_ex_iff filter_empty_conv)

lemma api_rule_ok: "rule_ok api_rule"
  by (simp add: rule_ok_def api_rule_def zero_rule_config_def field_utf8)

lemma tunnel_rule_ok: "list_all valid_utf8 tags \<Longrightarrow> rule_ok (tunnel_rule tags)"
  by (simp add: rule_ok_def tunnel_rule_def zero_rule_config_def field_utf8)

lemma get_strings_ok: "get_strings name kvs = Some ws \<Longrightarrow> json_ok (JObj kvs) \<Longrightarrow> list_all valid_utf8 ws"
  unfolding get_strings_def
  by (rule last_decoded_ok [where P = "list_all valid_utf8" and f = as_strings, OF as_strings_ok field_vals_ok]) simp_all

lemma decode_rule_ok: "decode_rule v = Some r \<Longrightarrow> json_ok v \<Longrightarrow> rule_ok r"
  using get_string_ok get_strings_ok
  by (auto simp: decode_rule_def rule_of_members_def rule_ok_def zero_rule_config_def
      simp del: json_ok.simps split: json.splits option.splits)

lemma decode_rules_ok: "decode_rules v = Some rs \<Longrightarrow> json_ok v \<Longrightarrow> list_all rule_ok rs"
proof (cases v)
  case (JArr vs)
  assume "decode_rules v = Some rs" "json_ok v"
  with JArr have "those (map decode_rule vs) = Some rs" "list_all json_ok vs" by (auto simp: decode_rules_def)
  then show ?thesis by (induction vs arbitrary: rs) (auto intro: decode_rule_ok split: option.splits)
qed (auto simp: decode_rules_def)

lemma decode_routing_ok: "decode_routing raw = Some r \<Longrightarrow> routing_ok r"
proof -
  assume "decode_routing raw = Some r"
  then obtain kvs ds rs where k: "struct_members raw = Some kvs" "get_string ''domainStrategy'' kvs = Some ds"
      "last_decoded decode_rules [] (field_vals ''rules'' kvs) = Some rs" "r = \<lparr>DomainStrategy = ds, Rules = rs\<rparr>"
    by (auto simp: decode_routing_def split: option.splits)
  have "list_all rule_ok rs"
    by (rule last_decoded_ok [OF decode_rules_ok field_vals_ok [OF struct_members_ok [OF k(1)]] _ k(3)]) simp_all
  with k get_string_ok struct_members_ok show ?thesis by (simp add: routing_ok_def)
qed

lemma decode_section_ok: "decode_routing_section b raw = Inr base \<Longrightarrow> routing_ok base"
  by (auto simp: decode_routing_section_def Let_def routing_ok_def zero_routing_def
      dest: decode_routing_ok [unfolded routing_ok_def] split: if_splits option.splits)

lemma decode_routing_utf8: "decode_routing_section b raw = Inr base \<Longrightarrow> valid_utf8 (DomainStrategy base)"
  by (drule decode_section_ok) (simp add: routing_ok_def)

lemma managed_routing_ok:
  assumes "managed_routing base rs = Inr r" and "valid_utf8 (DomainStrategy base)" and "\<forall>x \<in> set rs. rule_row_ok x"
  shows "routing_ok r"
  using assms buildRoutingRuleConfig_ok
    map_res_set [of buildRoutingRuleConfig "filter rr_Enabled rs" _ rule_ok]
  by (fastforce simp: managed_routing_def routing_ok_def api_rule_ok split: sum.splits)

lemma decode_printed_section: "routing_ok r \<Longrightarrow> decode_routing_section False (print_json (routing_json r)) = Inr r"
  using routing_json_text [of r] by (simp add: decode_routing_section_def routing_read_back)

definition tunnel_rules :: "inbound list \<Rightarrow> routing_rule_config list" where
  "tunnel_rules is' = (if tunnel_tags is' = [] then [] else [tunnel_rule (tunnel_tags is')])"

lemma ensure_tunnel_routing:
  assumes "ensure_tunnel place c is' = Inr c'" and "decode_routing_section False (RouterConfig c) = Inr r"
    and "routing_ok r" and "tunnel_tags is' \<noteq> []" and "\<forall>i \<in> set is'. valid_utf8 (in_Tag i)"
    and "\<And>x rs. set (place x rs) \<subseteq> insert x (set rs)"
  shows "decode_routing (RouterConfig c') = Some (r\<lparr>Rules := place (tunnel_rule (tunnel_tags is')) (Rules r)\<rparr>)"
proof -
  let ?r = "r\<lparr>Rules := place (tunnel_rule (tunnel_tags is')) (Rules r)\<rparr>"
  have tags: "list_all valid_utf8 (tunnel_tags is')"
    using assms(5) by (auto simp: tunnel_tags_def list_all_iff)
  have "rule_ok x" if "x \<in> set (place (tunnel_rule (tunnel_tags is')) (Rules r))" for x
    using that assms(3,6) tunnel_rule_ok [OF tags] by (fastforce simp: routing_ok_def list_all_iff)
  then have "routing_ok ?r" using assms(3) by (simp add: routing_ok_def list_all_iff)
  then show ?thesis using assms(1,2,4)
    by (auto simp: ensure_tunnel_def Let_def routing_read_back split: sum.splits)
qed

lemma buildManagedRouting_Inr:
  assumes "faults s = []" and "buildManagedRoutingForDB Conn s = (Inr raw, t)"
    and "\<forall>r \<in> set (tbl_rules (pdb s)). rule_row_ok r"
  shows "t = s \<and> (\<exists>r. managed_routing (r\<lparr>Rules := []\<rparr>) (rules_ordered True (pdb s)) = Inr r
    \<and> routing_ok r \<and> raw = print_json (routing_json r))"
proof -
  from assms(1,2) obtain c u base r where
    b: "getBaseXrayConfig s = (Inr c, u)" and
    sect: "decode_routing_section True (RouterConfig c) = Inr base" and
    m: "managed_routing base (rules_ordered True (pdb u)) = Inr r" and
    raw: "raw = print_json (routing_json r)" and t: "t = u"
    using calm_run [OF getBaseXrayConfig_calm]
    by (fastforce simp: buildManagedRoutingForDB_def andThen_Inr lift_res_Inr getRulesByDB_calm)
  have u: "u = s" by (rule calm_run [OF getBaseXrayConfig_calm assms(1) b])
  have "\<forall>x \<in> set (rules_ordered True (pdb s)). rule_row_ok x" using assms(3) by (simp add: rules_ordered_def)
  with managed_routing_ok [OF m decode_routing_utf8 [OF sect]] u have "routing_ok r" by simp
  moreover from m u have "managed_routing (r\<lparr>Rules := []\<rparr>) (rules_ordered True (pdb s)) = Inr r"
    by (auto simp: managed_routing_def split: sum.splits)
  ultimately show ?thesis using raw t u by blast
qed

section \<open>The managed outbounds\<close>

definition usable :: "outbound \<Rightarrow> bool" where
  "usable o' \<longleftrightarrow> ob_Enabled o' \<and> ob_Tag o' \<notin> {''direct'', ''blocked'', [], dokodemoFreedomTag}"

definition outbound_row_ok :: "outbound \<Rightarrow> bool" where
  "outbound_row_ok o' \<longleftrightarrow> valid_utf8 (ob_Tag o') \<and> valid_utf8 (ob_Protocol o')"

definition tag_of :: "json \<Rightarrow> json" where
  "tag_of v = (case v of JObj m \<Rightarrow> obj_index m ''tag'' | _ \<Rightarrow> JNull)"

definition outbound_ok :: "outbound_config \<Rightarrow> bool" where
  "outbound_ok c \<longleftrightarrow> oc_Tag c \<noteq> [] \<and> valid_utf8 (oc_Tag c) \<and> valid_utf8 (oc_Protocol c) \<and> mem_ok (oc_Settings c)
     \<and> (\<forall>v. oc_StreamSettings c = Some v \<longrightarrow> mem_ok v) \<and> (\<forall>v. oc_Mux c = Some v \<longrightarrow> mem_ok v)"

lemma tags_apart: "dokodemoFreedomTag \<noteq> ''direct''" "dokodemoFreedomTag \<noteq> ''blocked''" "dokodemoFreedomTag \<noteq> []"
  by (simp_all add: dokodemoFreedomTag_def)

lemma split_outbounds_run: "split_outbounds os (d, b, us) = (direct, blocked, us') \<Longrightarrow>
    us' = us @ filter usable os
    \<and> (direct = d \<or> (\<exists>x \<in> set os. direct = Some x \<and> ob_Tag x = ''direct''))
    \<and> (blocked = b \<or> (\<exists>x \<in> set os. blocked = Some x \<and> ob_Tag x = ''blocked''))"
proof (induction os arbitrary: d b us)
  case (Cons x os)
  then show ?case by (auto simp: usable_def tags_apart split: if_splits dest!: Cons.IH)
qed simp

lemma decodeJSONObject_ok: "decodeJSONObject raw = Inr v \<Longrightarrow> mem_ok v"
  using parse_json_ok as_map_ok
  by (fastforce simp: decodeJSONObject_def Let_def map_ok_def split: if_splits option.splits Option.bind_splits)

lemma buildOutboundConfig_ok:
  "buildOutboundConfig o' = Inr c \<Longrightarrow> outbound_row_ok o' \<Longrightarrow> ob_Tag o' \<noteq> [] \<Longrightarrow> outbound_ok c \<and> oc_Tag c = ob_Tag o'"
  using decodeJSONObject_ok
  by (auto simp: buildOutboundConfig_def optional_object_def outbound_ok_def outbound_row_ok_def
      split: sum.splits if_splits)

lemma system_outbound_ok: "outbound_row_ok (system_outbound ''direct'' ''freedom'')"
    "outbound_row_ok (system_outbound ''blocked'' ''blackhole'')"
  by code_simp+

lemma managed_outbounds_ok:
  assumes "managed_outbounds os = Inr cs" and "\<forall>x \<in> set os. outbound_row_ok x"
  shows "list_all outbound_ok cs \<and> map oc_Tag cs = ''direct'' # ''blocked'' # map ob_Tag (filter usable os)"
proof -
  obtain direct blocked us where sp: "split_outbounds os (None, None, []) = (direct, blocked, us)"
    by (cases "split_outbounds os (None, None, [])")
  define dr where "dr = (case direct of None \<Rightarrow> system_outbound ''direct'' ''freedom'' | Some d \<Rightarrow> d)"
  define br where "br = (case blocked of None \<Rightarrow> system_outbound ''blocked'' ''blackhole'' | Some b \<Rightarrow> b)"
  from split_outbounds_run [OF sp] have us: "us = filter usable os"
    and dr: "outbound_row_ok dr" "ob_Tag dr = ''direct''" and br: "outbound_row_ok br" "ob_Tag br = ''blocked''"
    using assms(2) system_outbound_ok by (auto simp: dr_def br_def system_outbound_def)
  have "filter (\<lambda>u. ob_Tag u \<noteq> ''direct'' \<and> ob_Tag u \<noteq> ''blocked'') us = filter usable os"
    by (auto simp: us usable_def intro: filter_cong)
  with assms(1) sp obtain d b xs where
    d: "buildOutboundConfig dr = Inr d" and b: "buildOutboundConfig br = Inr b" and
    xs: "map_res buildOutboundConfig (filter usable os) = Inr xs" and cs: "cs = d # b # xs"
    by (auto simp: managed_outbounds_def dr_def br_def split: sum.splits)
  have "list_all2 (\<lambda>o' c. outbound_ok c \<and> oc_Tag c = ob_Tag o') (filter usable os) xs"
    by (rule map_res_all [OF xs]) (use assms(2) buildOutboundConfig_ok in \<open>auto simp: usable_def\<close>)
  then have "list_all outbound_ok xs \<and> map oc_Tag xs = map ob_Tag (filter usable os)"
    by (induction rule: list_all2_induct) auto
  with buildOutboundConfig_ok [OF d dr(1)] buildOutboundConfig_ok [OF b br(1)] dr br cs show ?thesis by simp
qed

lemma outbound_names: "list_all valid_utf8 [''tag'', ''protocol'', ''settings'', ''streamSettings'', ''mux'']"
  by code_simp

lemma outbound_json_ok: "outbound_ok c \<Longrightarrow> json_ok (outbound_json c) \<and> nums_fit (outbound_json c)
    \<and> tag_of (outbound_json c) = JStr (oc_Tag c)"
  using outbound_names
  by (auto simp: outbound_ok_def outbound_json_def omit_empty_def present_def mem_ok_def tag_of_def obj_index_def
      obj_get_def split: option.splits)

lemma as_map_outbound:
  assumes "outbound_ok c"
  shows "\<exists>m. as_map (outbound_json c) = Some (JObj m) \<and> mem_ok (JObj m) \<and> tag_of (JObj m) = JStr (oc_Tag c)"
proof -
  define kvs where "kvs = [(''protocol'', JStr (oc_Protocol c)), (''settings'', oc_Settings c)]
     @ present ''streamSettings'' (oc_StreamSettings c) @ present ''mux'' (oc_Mux c)"
  have kvs: "outbound_json c = JObj ((''tag'', JStr (oc_Tag c)) # kvs)" "''tag'' \<notin> fst ` set kvs"
    using assms by (auto simp: kvs_def outbound_json_def omit_empty_def outbound_ok_def present_def split: option.splits)
  let ?m = "obj_of_members (map (\<lambda>(k, v). (k, canon v)) ((''tag'', JStr (oc_Tag c)) # kvs))"
  from outbound_json_ok [OF assms] kvs have a: "as_map (outbound_json c) = Some (JObj ?m)"
    by (simp add: as_map_def decode_any_def)
  have "''tag'' \<notin> fst ` set (rev (map (\<lambda>(k, v). (k, canon v)) kvs))" using kvs(2) by force
  then have "map_of (rev (map (\<lambda>(k, v). (k, canon v)) kvs)) ''tag'' = None" by (simp add: map_of_eq_None_iff)
  then have "obj_get ?m ''tag'' = Some (JStr (oc_Tag c))"
    by (simp add: obj_get_of_members map_add_def del: map_map)
  moreover from as_map_ok [OF a] outbound_json_ok [OF assms] have "mem_ok (JObj ?m)" by (simp add: map_ok_def)
  ultimately show ?thesis using a by (auto simp: tag_of_def obj_index_def)
qed

text \<open>The tags of an \<open>outbounds\<close> section, in order.\<close>

definition outbound_tags :: "string \<Rightarrow> json list option" where
  "outbound_tags raw = (case parse_json raw of Some (JArr vs) \<Rightarrow> Some (map tag_of vs) | _ \<Rightarrow> None)"

lemma parse_array: "list_all json_ok vs \<Longrightarrow> parse_json (print_json (JArr vs)) = Some (JArr vs)"
  by (rule js.unmarshal_marshal) simp

lemma outbounds_text: "list_all outbound_ok cs \<Longrightarrow>
    outbound_tags (print_json (JArr (map outbound_json cs))) = Some (map (JStr \<circ> oc_Tag) cs)"
proof -
  assume ok: "list_all outbound_ok cs"
  then have "list_all json_ok (map outbound_json cs)" by (auto simp: list_all_iff outbound_json_ok)
  moreover have "map tag_of (map outbound_json cs) = map (JStr \<circ> oc_Tag) cs"
    using ok outbound_json_ok by (auto simp: list_all_iff)
  ultimately show ?thesis by (simp add: outbound_tags_def parse_array del: print_json.simps)
qed

lemma print_array_text: "print_json (JArr vs) \<noteq> [] \<and> print_json (JArr vs) \<noteq> ''null''"
  by simp

lemma freedom_ok: "json_ok freedom_outbound \<and> tag_of freedom_outbound = JStr dokodemoFreedomTag"
  by code_simp

lemma freedom_added:
  assumes "ensureTaggedFreedomOutbound c = Inr c'" and "OutboundConfigs c = print_json (JArr (map outbound_json cs))"
    and "list_all outbound_ok cs" and "dokodemoFreedomTag \<notin> oc_Tag ` set cs"
  shows "outbound_tags (OutboundConfigs c') = Some (map (JStr \<circ> oc_Tag) cs @ [JStr dokodemoFreedomTag])"
proof -
  have "\<exists>ms. those (map as_map (map outbound_json cs)) = Some ms \<and> list_all json_ok ms
      \<and> map tag_of ms = map (JStr \<circ> oc_Tag) cs" if "list_all outbound_ok cs" for cs
    using that
  proof (induction cs)
    case (Cons x cs)
    with as_map_outbound [of x] obtain m ms where
      "as_map (outbound_json x) = Some (JObj m)" "mem_ok (JObj m)" "tag_of (JObj m) = JStr (oc_Tag x)"
      "those (map as_map (map outbound_json cs)) = Some ms" "list_all json_ok ms" "map tag_of ms = map (JStr \<circ> oc_Tag) cs"
      by auto
    then show ?case by (intro exI [of _ "JObj m # ms"]) (simp add: mem_ok_def)
  qed simp
  then obtain ms where ms: "those (map as_map (map outbound_json cs)) = Some ms" "list_all json_ok ms"
      "map tag_of ms = map (JStr \<circ> oc_Tag) cs" using assms(3) by blast
  have "list_all json_ok (map outbound_json cs)" using assms(3) by (auto simp: list_all_iff outbound_json_ok)
  then have "Option.bind (parse_json (OutboundConfigs c)) as_maps = Some (Some ms)"
    using ms(1) by (simp add: assms(2) parse_array as_maps_def del: print_json.simps map_map)
  moreover have "\<not> list_ex (has_tag dokodemoFreedomTag) ms"
  proof
    assume "list_ex (has_tag dokodemoFreedomTag) ms"
    then obtain v where "v \<in> set ms" "tag_of v = JStr dokodemoFreedomTag"
      by (auto simp: list_ex_iff has_tag_def tag_of_def split: json.splits)
    then have "JStr dokodemoFreedomTag \<in> set (map tag_of ms)" by force
    with ms(3) assms(4) show False by auto
  qed
  ultimately have "c' = c\<lparr>OutboundConfigs := print_json (JArr (ms @ [freedom_outbound]))\<rparr>"
    using assms(1,2) print_array_text [of "map outbound_json cs"]
    by (simp add: ensureTaggedFreedomOutbound_def Let_def del: print_json.simps)
  with ms freedom_ok show ?thesis by (simp add: outbound_tags_def parse_array del: print_json.simps)
qed

definition tables_utf8 :: "database \<Rightarrow> bool" where
  "tables_utf8 d \<longleftrightarrow> list_all (\<lambda>i. valid_utf8 (in_Tag i)) (tbl_inbounds d)
     \<and> list_all outbound_row_ok (tbl_outbounds d) \<and> list_all rule_row_ok (tbl_rules d)"

text \<open>The configuration that managed mode has to compute from the tables.\<close>

definition managed_spec :: "xconfig \<Rightarrow> database \<Rightarrow> xconfig \<Rightarrow> bool" where
  "managed_spec base d c \<longleftrightarrow>
     InboundConfigs c = InboundConfigs base @ map GenXrayInboundConfig (filter in_Enable (tbl_inbounds d))
     \<and> outbound_tags (OutboundConfigs c) = Some (map JStr (''direct'' # ''blocked''
          # map ob_Tag (filter usable (outbounds_ordered True d))
          @ (if tunnel_tags (tbl_inbounds d) = [] then [] else [dokodemoFreedomTag])))
     \<and> (\<exists>ds rs. map_res buildRoutingRuleConfig (filter rr_Enabled (rules_ordered True d)) = Inr rs
          \<and> decode_routing (RouterConfig c) = Some \<lparr>DomainStrategy = ds,
               Rules = api_rule # tunnel_rules (tbl_inbounds d) @ rs\<rparr>)
     \<and> c\<lparr>InboundConfigs := [], OutboundConfigs := [], RouterConfig := []\<rparr>
       = base\<lparr>InboundConfigs := [], OutboundConfigs := [], RouterConfig := []\<rparr>"

lemma buildManagedOutbounds_Inr:
  assumes "faults s = []" and "buildManagedOutboundsForDB Conn s = (Inr raw, t)" and "tables_utf8 (pdb s)"
  shows "t = s \<and> (\<exists>cs. raw = print_json (JArr (map outbound_json cs)) \<and> list_all outbound_ok cs
    \<and> map oc_Tag cs = ''direct'' # ''blocked'' # map ob_Tag (filter usable (outbounds_ordered True (pdb s))))"
proof -
  have "\<forall>x \<in> set (outbounds_ordered True (pdb s)). outbound_row_ok x"
    using assms(3) by (simp add: outbounds_ordered_def tables_utf8_def list_all_iff)
  with assms(1,2) managed_outbounds_ok show ?thesis
    by (fastforce simp: buildManagedOutboundsForDB_def andThen_Inr lift_res_Inr getOutboundsByDB_calm)
qed

lemma usable_not_freedom: "dokodemoFreedomTag \<notin> ob_Tag ` set (filter usable os)"
  by (auto simp: usable_def)

lemma ensure_tunnel_frame: "ensure_tunnel place c is' = Inr c' \<Longrightarrow> InboundConfigs c' = InboundConfigs c
    \<and> c'\<lparr>InboundConfigs := [], OutboundConfigs := [], RouterConfig := []\<rparr>
      = c\<lparr>InboundConfigs := [], OutboundConfigs := [], RouterConfig := []\<rparr>"
  by (auto simp: ensure_tunnel_def ensureTaggedFreedomOutbound_def Let_def split: sum.splits option.splits if_splits)

lemma ensure_tunnel_outbounds: "ensure_tunnel place c is' = Inr c' \<Longrightarrow> tunnel_tags is' \<noteq> [] \<Longrightarrow>
    \<exists>c1. ensureTaggedFreedomOutbound c = Inr c1 \<and> OutboundConfigs c' = OutboundConfigs c1"
  by (auto simp: ensure_tunnel_def Let_def split: sum.splits)

lemma after_first_set: "set (after_first x rs) \<subseteq> insert x (set rs)"
  by (auto simp: after_first_def split: list.splits)

lemma managed_spec_plain:
  assumes cs: "list_all outbound_ok cs"
      "map oc_Tag cs = ''direct'' # ''blocked'' # map ob_Tag (filter usable (outbounds_ordered True d))"
    and r: "routing_ok \<lparr>DomainStrategy = ds, Rules = api_rule # rs\<rparr>"
      "map_res buildRoutingRuleConfig (filter rr_Enabled (rules_ordered True d)) = Inr rs"
    and none: "tunnel_tags (tbl_inbounds d) = []"
  shows "managed_spec base d ((add_inbounds base (tbl_inbounds d))
    \<lparr>OutboundConfigs := print_json (JArr (map outbound_json cs)),
     RouterConfig := print_json (routing_json \<lparr>DomainStrategy = ds, Rules = api_rule # rs\<rparr>)\<rparr>)"
proof -
  from outbounds_text [OF cs(1)] cs(2) have "outbound_tags (print_json (JArr (map outbound_json cs)))
      = Some (map JStr (''direct'' # ''blocked'' # map ob_Tag (filter usable (outbounds_ordered True d))))"
    by (metis map_map)
  with routing_read_back [OF r(1)] r(2) none show ?thesis
    by (simp add: managed_spec_def add_inbounds_def tunnel_rules_def del: print_json.simps)
qed

lemma managed_spec_tunnel:
  assumes cs: "list_all outbound_ok cs"
      "map oc_Tag cs = ''direct'' # ''blocked'' # map ob_Tag (filter usable (outbounds_ordered True d))"
    and r: "routing_ok \<lparr>DomainStrategy = ds, Rules = api_rule # rs\<rparr>"
      "map_res buildRoutingRuleConfig (filter rr_Enabled (rules_ordered True d)) = Inr rs"
    and some: "tunnel_tags (tbl_inbounds d) \<noteq> []" and utf8: "tables_utf8 d"
    and e: "ensureManagedDokodemoTunnelRouting ((add_inbounds base (tbl_inbounds d))
    \<lparr>OutboundConfigs := print_json (JArr (map outbound_json cs)),
     RouterConfig := print_json (routing_json \<lparr>DomainStrategy = ds, Rules = api_rule # rs\<rparr>)\<rparr>) (tbl_inbounds d) = Inr c"
  shows "managed_spec base d c"
proof -
  let ?is = "tbl_inbounds d"
  let ?c = "(add_inbounds base ?is)\<lparr>OutboundConfigs := print_json (JArr (map outbound_json cs)),
     RouterConfig := print_json (routing_json \<lparr>DomainStrategy = ds, Rules = api_rule # rs\<rparr>)\<rparr>"
  note e = e [unfolded ensureManagedDokodemoTunnelRouting_def]
  have tags: "\<forall>i \<in> set ?is. valid_utf8 (in_Tag i)" using utf8 by (simp add: tables_utf8_def list_all_iff)
  have rt: "decode_routing_section False (RouterConfig ?c) = Inr \<lparr>DomainStrategy = ds, Rules = api_rule # rs\<rparr>"
    using decode_printed_section [OF r(1)] by simp
  from ensure_tunnel_routing [OF e rt r(1) some tags after_first_set] some
  have routing: "decode_routing (RouterConfig c) = Some \<lparr>DomainStrategy = ds, Rules = api_rule # tunnel_rules ?is @ rs\<rparr>"
    by (simp add: after_first_def tunnel_rules_def)
  from ensure_tunnel_outbounds [OF e some] obtain c1 where
    c1: "ensureTaggedFreedomOutbound ?c = Inr c1" "OutboundConfigs c = OutboundConfigs c1" by blast
  have "oc_Tag ` set cs = set (map oc_Tag cs)" by simp
  with cs(2) usable_not_freedom [of "outbounds_ordered True d"] tags_apart
  have new: "dokodemoFreedomTag \<notin> oc_Tag ` set cs" by (simp del: set_filter)
  have ob: "OutboundConfigs ?c = print_json (JArr (map outbound_json cs))" by simp
  from freedom_added [OF c1(1) ob cs(1) new] c1(2)
  have "outbound_tags (OutboundConfigs c) = Some (map JStr (map oc_Tag cs) @ [JStr dokodemoFreedomTag])"
    by simp
  with routing r(2) some ensure_tunnel_frame [OF e] show ?thesis
    unfolding cs(2) managed_spec_def by (simp add: add_inbounds_def)
qed

lemma managed_config_spec:
  assumes calm: "faults s = []" and run: "getManagedXrayConfig s = (Inr c, t)" and utf8: "tables_utf8 (pdb s)"
  shows "t = s \<and> (\<exists>base. getBaseXrayConfig s = (Inr base, s) \<and> managed_spec base (pdb s) c)"
proof -
  define is' where "is' = tbl_inbounds (pdb s)"
  note inbounds = GetAllInbounds_calm [OF calm, folded is'_def]
  from run obtain base u where "getBaseXrayConfig s = (Inr base, u)"
    by (auto simp: getManagedXrayConfig_def getManagedXrayConfigForDB_def andThen_Inr)
  with calm_run [OF getBaseXrayConfig_calm calm this] have b: "getBaseXrayConfig s = (Inr base, s)" by simp
  with run inbounds obtain oraw s1 rraw s2 where
    o': "buildManagedOutboundsForDB Conn s = (Inr oraw, s1)" and r': "buildManagedRoutingForDB Conn s1 = (Inr rraw, s2)" and
    c: "(if tunnel_needed is' then lift_res (ensureManagedDokodemoTunnelRouting
          ((add_inbounds base is')\<lparr>OutboundConfigs := oraw, RouterConfig := rraw\<rparr>) is')
        else ret ((add_inbounds base is')\<lparr>OutboundConfigs := oraw, RouterConfig := rraw\<rparr>)) s2 = (Inr c, t)"
    by (auto simp: getManagedXrayConfig_def getManagedXrayConfigForDB_def andThen_Inr Let_def)
  from buildManagedOutbounds_Inr [OF calm o' utf8] obtain cs where s1: "s1 = s" and
    cs: "list_all outbound_ok cs"
      "map oc_Tag cs = ''direct'' # ''blocked'' # map ob_Tag (filter usable (outbounds_ordered True (pdb s)))" and
    oraw: "oraw = print_json (JArr (map outbound_json cs))" by (elim conjE exE) (rule that; assumption)
  have rows: "\<forall>r \<in> set (tbl_rules (pdb s)). rule_row_ok r" using utf8 by (simp add: tables_utf8_def list_all_iff)
  from buildManagedRouting_Inr [OF calm r' [unfolded s1] rows] obtain r where s2: "s2 = s" and
    r: "managed_routing (r\<lparr>Rules := []\<rparr>) (rules_ordered True (pdb s)) = Inr r" "routing_ok r"
      "rraw = print_json (routing_json r)" by (elim conjE exE) (rule that; assumption)
  define ds where "ds = DomainStrategy r"
  from r(1) obtain rs where
    rs: "map_res buildRoutingRuleConfig (filter rr_Enabled (rules_ordered True (pdb s))) = Inr rs" and
    req: "r = \<lparr>DomainStrategy = ds, Rules = api_rule # rs\<rparr>"
    by (auto simp: managed_routing_def ds_def split: sum.splits)
  note parts = cs r(2) [unfolded req] rs
  have "t = s \<and> managed_spec base (pdb s) c"
  proof (cases "tunnel_tags is' = []")
    case True
    with c s2 managed_spec_plain [OF parts] show ?thesis
      by (auto simp: tunnel_needed_iff oraw r(3) req is'_def simp del: print_json.simps)
  next
    case False
    with c s2 managed_spec_tunnel [OF parts _ utf8] show ?thesis
      by (auto simp: tunnel_needed_iff lift_res_Inr oraw r(3) req is'_def simp del: print_json.simps)
  qed
  with b show ?thesis by blast
qed

lemma legacy_config_spec:
  assumes calm: "faults s = []" and run: "getLegacyXrayConfig s = (Inr c, t)"
    and utf8: "\<forall>i \<in> set (tbl_inbounds (pdb s)). valid_utf8 (in_Tag i)"
  shows "t = s \<and> (\<exists>base r. getBaseXrayConfig s = (Inr base, s)
    \<and> InboundConfigs c = InboundConfigs base @ map GenXrayInboundConfig (filter in_Enable (tbl_inbounds (pdb s)))
    \<and> (if tunnel_tags (tbl_inbounds (pdb s)) = [] then c = add_inbounds base (tbl_inbounds (pdb s))
       else decode_routing_section False (RouterConfig base) = Inr r
         \<and> decode_routing (RouterConfig c) = Some (r\<lparr>Rules := tunnel_rules (tbl_inbounds (pdb s)) @ Rules r\<rparr>)))"
proof -
  define is' where "is' = tbl_inbounds (pdb s)"
  note inbounds = GetAllInbounds_calm [OF calm, folded is'_def]
  from run obtain base u where "getBaseXrayConfig s = (Inr base, u)"
    by (auto simp: getLegacyXrayConfig_def andThen_Inr)
  with calm_run [OF getBaseXrayConfig_calm calm this] have b: "getBaseXrayConfig s = (Inr base, s)" by simp
  with run inbounds have c: "(if tunnel_needed is' then lift_res (ensureDokodemoTunnelRouting (add_inbounds base is') is')
      else ret (add_inbounds base is')) s = (Inr c, t)"
    by (auto simp: getLegacyXrayConfig_def andThen_Inr Let_def)
  show ?thesis
  proof (cases "tunnel_tags is' = []")
    case True
    with b c show ?thesis by (auto simp: tunnel_needed_iff add_inbounds_def is'_def)
  next
    case False
    with c have e: "ensure_tunnel (\<lambda>r rs. r # rs) (add_inbounds base is') is' = Inr c" and t: "t = s"
      by (auto simp: tunnel_needed_iff lift_res_Inr ensureDokodemoTunnelRouting_def)
    from e obtain r where r: "decode_routing_section False (RouterConfig (add_inbounds base is')) = Inr r"
      by (auto simp: ensure_tunnel_def split: sum.splits)
    from ensure_tunnel_routing [OF e r decode_section_ok [OF r] False] utf8 False
    have "decode_routing (RouterConfig c) = Some (r\<lparr>Rules := tunnel_rules is' @ Rules r\<rparr>)"
      by (auto simp: tunnel_rules_def is'_def)
    with b r t False ensure_tunnel_frame [OF e] show ?thesis by (auto simp: add_inbounds_def is'_def)
  qed
qed

section \<open>Properties\<close>

text \<open>C19: a routing section that the panel prints is read back as it was, rules and order included.\<close>

theorem routing_section_roundtrip:
  assumes "routing_ok r"
  shows "decode_routing (print_json (routing_json r)) = Some r"
  using assms by (rule routing_read_back)

theorem routing_section_roundtrip_witness:
  "decode_routing (print_json (routing_json \<lparr>DomainStrategy = ''AsIs'', Rules = [api_rule, tunnel_rule [''inbound-1080'']]\<rparr>))
     = Some \<lparr>DomainStrategy = ''AsIs'', Rules = [api_rule, tunnel_rule [''inbound-1080'']]\<rparr>"
proof -
  have "routing_ok \<lparr>DomainStrategy = ''AsIs'', Rules = [api_rule, tunnel_rule [''inbound-1080'']]\<rparr>" by code_simp
  then show ?thesis by (rule routing_section_roundtrip)
qed

text \<open>A panel with an empty template, a tunnel inbound, an outbound and a rule.\<close>

definition tunnel_inbound :: inbound where
  "tunnel_inbound = \<lparr>in_Id = 1, in_UserId = 1, in_Up = 0, in_Down = 0, in_Total = 0, in_Remark = [], in_Enable = True,
     in_ExpiryTime = 0, in_IPLimit = 0, in_IPTimeout = 0, in_PortRate = [], in_IPRate = [], in_Listen = [],
     in_Port = 1080, in_Protocol = Tunnel, in_Settings = ''{}'', in_StreamSettings = ''{}'',
     in_Tag = ''inbound-1080'', in_Sniffing = ''{}''\<rparr>"

definition tunnel_db :: database where
  "tunnel_db = proxy_db\<lparr>tbl_inbounds := [tunnel_inbound], tbl_rules := [proxy_rule],
     tbl_settings := [\<lparr>st_Id = 1, st_Key = ''xrayTemplateConfig'', st_Value = ''{}''\<rparr>]\<rparr>"

text \<open>C18: in managed mode, where nothing fails, the computation changes nothing and gives the
  template with the enabled inbounds behind its own, the outbounds direct, blocked and every
  enabled user outbound in order, and as rules the one of the API, the one of the tunnel
  inbounds (with its outbound) when there are any, and the enabled rules of the table in order.\<close>

theorem managed_config_contents:
  assumes "faults s = []" and "getManagedXrayConfig s = (Inr c, t)" and "tables_utf8 (pdb s)"
  shows "t = s \<and> (\<exists>base. getBaseXrayConfig s = (Inr base, s) \<and> managed_spec base (pdb s) c)"
  using assms by (rule managed_config_spec)

theorem managed_config_contents_witness:
  "\<exists>c base. getManagedXrayConfig (panel_with tunnel_db) = (Inr c, panel_with tunnel_db)
     \<and> managed_spec base tunnel_db c \<and> tunnel_tags (tbl_inbounds tunnel_db) = [''inbound-1080'']"
proof -
  have "(case fst (getManagedXrayConfig (panel_with tunnel_db)) of Inl e \<Rightarrow> False | Inr c \<Rightarrow> True)" by code_simp
  then obtain c t where c: "getManagedXrayConfig (panel_with tunnel_db) = (Inr c, t)"
    by (cases "getManagedXrayConfig (panel_with tunnel_db)") (auto split: sum.splits)
  have calm: "faults (panel_with tunnel_db) = []" "pdb (panel_with tunnel_db) = tunnel_db"
    by (simp_all add: panel_with_def fresh_panel_def)
  have "tables_utf8 tunnel_db" "tunnel_tags (tbl_inbounds tunnel_db) = [''inbound-1080'']" by code_simp+
  with managed_config_contents [OF calm(1) c] calm c show ?thesis by auto
qed

text \<open>with the switch off, the configuration is the template with the enabled inbounds behind its
  own; only when a tunnel inbound is enabled does the routing section change, and then only by one
  rule in front.\<close>

theorem legacy_config_contents:
  assumes "faults s = []" and "getLegacyXrayConfig s = (Inr c, t)"
    and "\<forall>i \<in> set (tbl_inbounds (pdb s)). valid_utf8 (in_Tag i)"
  shows "t = s \<and> (\<exists>base r. getBaseXrayConfig s = (Inr base, s)
    \<and> InboundConfigs c = InboundConfigs base @ map GenXrayInboundConfig (filter in_Enable (tbl_inbounds (pdb s)))
    \<and> (if tunnel_tags (tbl_inbounds (pdb s)) = [] then c = add_inbounds base (tbl_inbounds (pdb s))
       else decode_routing_section False (RouterConfig base) = Inr r
         \<and> decode_routing (RouterConfig c) = Some (r\<lparr>Rules := tunnel_rules (tbl_inbounds (pdb s)) @ Rules r\<rparr>)))"
  using assms by (rule legacy_config_spec)

theorem legacy_config_contents_witness:
  "\<exists>c r. getLegacyXrayConfig (panel_with tunnel_db) = (Inr c, panel_with tunnel_db)
     \<and> decode_routing (RouterConfig c) = Some (r\<lparr>Rules := tunnel_rule [''inbound-1080''] # Rules r\<rparr>)"
proof -
  have "(case fst (getLegacyXrayConfig (panel_with tunnel_db)) of Inl e \<Rightarrow> False | Inr c \<Rightarrow> True)" by code_simp
  then obtain c t where c: "getLegacyXrayConfig (panel_with tunnel_db) = (Inr c, t)"
    by (cases "getLegacyXrayConfig (panel_with tunnel_db)") (auto split: sum.splits)
  have calm: "faults (panel_with tunnel_db) = []" "pdb (panel_with tunnel_db) = tunnel_db"
    by (simp_all add: panel_with_def fresh_panel_def)
  have tags: "tunnel_tags (tbl_inbounds tunnel_db) = [''inbound-1080'']"
    "\<forall>i \<in> set (tbl_inbounds tunnel_db). valid_utf8 (in_Tag i)" by code_simp+
  from legacy_config_contents [OF calm(1) c] tags c show ?thesis
    by (auto simp: calm tunnel_rules_def)
qed

end
