(* ===== verification/Process_Properties.thy ===== *)
theory Process_Properties
  imports Config_Properties
begin

text \<open>
  The life of the xray process: what starting, restarting and rolling back leave
  behind, the bound of the log queue under every interleaving of the two
  readers, and the records made of xray's counters.
\<close>

section \<open>Starting\<close>

definition proc_frame :: "panel \<Rightarrow> panel \<Rightarrow> bool" where
  "proc_frame s t \<longleftrightarrow> pdb t = pdb s \<and> ptx t = ptx s \<and> clock_now t = clock_now s \<and> xray_p t = xray_p s
     \<and> orphans t = orphans s \<and> isNeedXrayRestart t = isNeedXrayRestart s \<and> xray_result t = xray_result s
     \<and> world t = world s"

lemma proc_frame_refl: "proc_frame s s"
  by (simp add: proc_frame_def)

lemma proc_frame_trans: "proc_frame s t \<Longrightarrow> proc_frame t u \<Longrightarrow> proc_frame s u"
  by (simp add: proc_frame_def)

lemma frame_outside_proc: "keeps (proc_frame s) outside"
  by (rule keeps_outside_gen) (simp add: proc_frame_def)

lemma frame_query_proc: "keeps (proc_frame s) (query h f)"
  by (cases h) (auto simp: keeps_def query_def stmt_def andThen_run outside_run on_handle_def proc_frame_def
      split: list.split option.split)

lemma frame_log_dirs: "keeps (proc_frame s) (prepareLogDirectories c)"
  unfolding prepareLogDirectories_def make_log_dir_def Let_def by (intro keeps_intro frame_outside_proc)

lemma frame_start_steps: "keeps (proc_frame s) (start_steps c)"
  unfolding start_steps_def marshal_config_def
  by (intro keeps_intro frame_outside_proc frame_log_dirs) (simp add: keeps_def proc_frame_def)

lemma frame_TestConfig: "keeps (proc_frame s) (TestConfig c)"
  unfolding TestConfig_def marshal_config_def by (intro keeps_intro frame_outside_proc frame_log_dirs)

lemma frame_GetXrayConfig: "keeps (proc_frame s) GetXrayConfig"
  unfolding GetXrayConfig_def getManagedXrayConfig_def getLegacyXrayConfig_def getManagedXrayConfigForDB_def
    buildManagedOutboundsForDB_def buildManagedRoutingForDB_def getOutboundsByDB_def getRulesByDB_def
    GetAllInbounds_def find_inbounds_def getBaseXrayConfig_def GetXrayConfigTemplate_def
    ApplyAccessLogSetting_def IsAccessLogEnabled_def getBoolSetting_def GetManagedOutboundsRouting_def getBool_def
    getString_def getSetting_def Let_def
  by (intro keeps_intro frame_query_proc)

lemma run_frame: "keeps (proc_frame s) m \<Longrightarrow> m s = (r, t) \<Longrightarrow> proc_frame s t"
  by (erule (1) keepsD_eq) (rule proc_frame_refl)

lemma start_steps_Inr:
  assumes "start_steps c s = (Inr u, t)"
  shows "\<exists>doc. Config_Marshal c = Some doc \<and> config_file t = Some doc"
proof -
  have out: "outside s' = (r, t') \<Longrightarrow> config_file t' = config_file s'" for s' t' :: panel and r
    using keepsD_eq [of "\<lambda>x. config_file x = config_file s'" outside s' r t'] by (simp add: keeps_outside_gen)
  from assms obtain s1 doc s2 s3 s4 where "prepareLogDirectories c s = (Inr (), s1)"
      "marshal_config c s1 = (Inr doc, s2)" "outside s2 = (Inr (), s3)"
      "outside (s3\<lparr>config_file := Some doc\<rparr>) = (Inr (), s4)" "outside s4 = (Inr u, t)"
    by (auto simp: start_steps_def andThen_Inr)
  then show ?thesis using out [of "s3\<lparr>config_file := Some doc\<rparr>"] out [of s4]
    by (auto simp: marshal_config_def split: option.splits)
qed

text \<open>What \<open>Start\<close> gives: a process about to be spawned with its configuration written, or the error kept.\<close>

definition started_with :: "process \<Rightarrow> process \<Rightarrow> bool" where
  "started_with p p' \<longleftrightarrow> pr_cmd p' = Spawning \<and> pr_config p' = pr_config p \<and> pr_lines p' = pr_lines p
     \<and> pr_exitErr p' = pr_exitErr p"

lemma started_refresh: "started_with p (refreshAPIPort (refreshVersion v (p\<lparr>pr_cmd := Spawning\<rparr>)))"
  by (simp add: started_with_def refreshAPIPort_def refreshVersion_def split: option.split list.split)

lemma Start_run:
  assumes "\<not> IsRunning p" and "Start p s = (r, t)"
  shows "proc_frame s t \<and> (\<exists>p'.
    (r = Inr (None, p') \<and> started_with p p' \<and> (\<exists>doc. Config_Marshal (pr_config p) = Some doc \<and> config_file t = Some doc))
    \<or> (\<exists>e. r = Inr (Some e, p') \<and> p' = p\<lparr>pr_cmd := NoCmd, pr_exitErr := Some e\<rparr>))"
proof -
  obtain q u where q: "start_steps (pr_config p) s = (q, u)" by (cases "start_steps (pr_config p) s")
  have f: "proc_frame s u" by (rule run_frame [OF frame_start_steps q])
  show ?thesis
  proof (cases q)
    case (Inl e)
    with assms q f show ?thesis by (auto simp: Start_def andThen_run attempt_run)
  next
    case (Inr x)
    with start_steps_Inr q have "\<exists>doc. Config_Marshal (pr_config p) = Some doc \<and> config_file u = Some doc" by simp
    with assms q f Inr started_refresh show ?thesis by (auto simp: Start_def andThen_run attempt_run)
  qed
qed

section \<open>Restarting\<close>

lemma TestConfig_Inr:
  assumes "TestConfig c s = (Inr u, t)"
  shows "\<exists>doc. Config_Marshal c = Some doc \<and> w_test (world s) doc = None"
proof -
  from assms obtain s1 doc s2 s3 s4 where steps: "prepareLogDirectories c s = (Inr (), s1)"
      "marshal_config c s1 = (Inr doc, s2)" "outside s2 = (Inr (), s3)" "outside s3 = (Inr (), s4)"
      "(case w_test (world s4) doc of None \<Rightarrow> ret () | Some e \<Rightarrow> throw e) s4 = (Inr u, t)"
    by (auto simp: TestConfig_def andThen_Inr)
  then have m: "Config_Marshal c = Some doc" "s2 = s1" by (auto simp: marshal_config_def split: option.splits)
  have "proc_frame s s4"
    using run_frame [OF frame_log_dirs steps(1)] run_frame [OF frame_outside_proc steps(3)]
      run_frame [OF frame_outside_proc steps(4)] m(2) by (simp add: proc_frame_def)
  with steps(5) m show ?thesis by (auto simp: proc_frame_def split: option.splits)
qed

text \<open>The new process: either spawned with its configuration stored, or kept with its error.\<close>

definition runs_config :: "xconfig \<Rightarrow> process \<Rightarrow> bool" where
  "runs_config c p \<longleftrightarrow> pr_cmd p = Spawning \<and> pr_config p = c \<and> pr_lines p = [] \<and> pr_exitErr p = None"

definition failed_with :: "xconfig \<Rightarrow> err \<Rightarrow> process \<Rightarrow> bool" where
  "failed_with c e p \<longleftrightarrow> pr_cmd p = NoCmd \<and> pr_config p = c \<and> pr_exitErr p = Some e"

lemma newProcess_idle: "\<not> IsRunning (newProcess c)"
  by (simp add: newProcess_def IsRunning_def)

lemma start_new_run:
  assumes "start_new c s = (r, t)"
  shows "pdb t = pdb s \<and> ptx t = ptx s \<and> world t = world s \<and> xray_result t = [] \<and> (\<exists>p. xray_p t = Some p \<and>
    (r = Inr None \<and> runs_config c p \<and> (\<exists>doc. Config_Marshal c = Some doc \<and> config_file t = Some doc)
     \<or> (\<exists>e. r = Inr (Some e) \<and> failed_with c e p)))"
proof -
  let ?s = "(set_process (newProcess c) s)\<lparr>xray_result := []\<rparr>"
  obtain q u where q: "Start (newProcess c) ?s = (q, u)" by (cases "Start (newProcess c) ?s")
  from Start_run [OF newProcess_idle q] q assms show ?thesis
    by (auto simp: start_new_def andThen_run set_process_def proc_frame_def started_with_def runs_config_def
        failed_with_def newProcess_def)
qed

lemma try_rollback_run:
  assumes "try_rollback c s = (r, t)"
  shows "r = Inr () \<and> pdb t = pdb s \<and> ptx t = ptx s \<and> world t = world s \<and> xray_result t = xray_result s
    \<and> (xray_p t = xray_p s \<or> (\<exists>p. xray_p t = Some p \<and> runs_config c p))"
proof -
  obtain q u where q: "Start (newProcess c) s = (q, u)" by (cases "Start (newProcess c) s")
  from Start_run [OF newProcess_idle q] q assms show ?thesis
    by (auto simp: try_rollback_def andThen_run set_process_def proc_frame_def started_with_def runs_config_def
        newProcess_def)
qed

lemma replace_xray_run:
  assumes "replace_xray old c s = (r, t)"
  shows "pdb t = pdb s \<and> ptx t = ptx s \<and> world t = world s \<and> xray_result t = [] \<and> (\<exists>p. xray_p t = Some p \<and>
    (case r of Inr x \<Rightarrow> runs_config c p \<and> (\<exists>doc. Config_Marshal c = Some doc \<and> config_file t = Some doc)
     | Inl e \<Rightarrow> failed_with c e p \<or> (\<exists>oc. old = Some oc \<and> runs_config oc p)))"
proof -
  obtain q u where q: "start_new c s = (q, u)" by (cases "start_new c s")
  note new = start_new_run [OF q]
  then obtain er where er: "q = Inr er" by blast
  show ?thesis
  proof (cases er)
    case None
    with assms q er new show ?thesis by (auto simp: replace_xray_def andThen_run)
  next
    case (Some e)
    show ?thesis
    proof (cases old)
      case None
      with assms q er new Some show ?thesis by (auto simp: replace_xray_def andThen_run)
    next
      case (Some oc)
      obtain q' v where v: "try_rollback oc u = (q', v)" by (cases "try_rollback oc u")
      with try_rollback_run [OF v] assms q er new \<open>er = Some e\<close> Some show ?thesis
        by (auto simp: replace_xray_def andThen_run)
    qed
  qed
qed

lemma stop_current_run: "stop_current p s = (r, t) \<Longrightarrow> IsRunning p \<Longrightarrow> xray_p s = Some p \<Longrightarrow>
    r = Inr () \<and> pdb t = pdb s \<and> ptx t = ptx s \<and> world t = world s"
proof -
  assume h: "stop_current p s = (r, t)" "IsRunning p" "xray_p s = Some p"
  obtain q u where q: "outside s = (q, u)" by (cases "outside s")
  with run_frame [OF frame_outside_proc q] h show ?thesis
    by (cases q) (auto simp: stop_current_def Stop_def andThen_run attempt_run proc_frame_def)
qed

definition kept_running :: "bool \<Rightarrow> panel \<Rightarrow> xconfig \<Rightarrow> bool" where
  "kept_running force s c \<longleftrightarrow> \<not> force \<and> (\<exists>p. xray_p s = Some p \<and> IsRunning p \<and> pr_config p = c)"

text \<open>What a restart may leave behind, with the configuration it has tested.\<close>

definition restart_post :: "bool \<Rightarrow> panel \<Rightarrow> xconfig \<Rightarrow> unit res \<Rightarrow> panel \<Rightarrow> bool" where
  "restart_post force s c r t \<longleftrightarrow> (if kept_running force s c then r = Inr () \<and> xray_p t = xray_p s
     else xray_result t = [] \<and> (\<exists>p. xray_p t = Some p \<and> (case r of
         Inr x \<Rightarrow> runs_config c p \<and> (\<exists>doc. Config_Marshal c = Some doc \<and> config_file t = Some doc)
       | Inl e \<Rightarrow> failed_with c e p
           \<or> (\<exists>q. xray_p s = Some q \<and> IsRunning q \<and> runs_config (pr_config q) p))))"

lemma replace_post:
  assumes "replace_xray old c u = (r, t)" and "\<And>oc. old = Some oc \<Longrightarrow> \<exists>q. xray_p s = Some q \<and> IsRunning q \<and> pr_config q = oc"
    and "\<not> kept_running force s c"
  shows "restart_post force s c r t"
  using replace_xray_run [OF assms(1)] assms(2,3) by (cases r) (fastforce simp: restart_post_def)+

lemma RestartXray_run:
  assumes "GetXrayConfig s = (Inr c, s1)" and "TestConfig c s1 = (Inr (), s2)" and "RestartXray force s = (r, t)"
  shows "restart_post force s c r t"
proof -
  have "proc_frame s s1" by (rule run_frame [OF frame_GetXrayConfig assms(1)])
  moreover have "proc_frame s1 s2" by (rule run_frame [OF frame_TestConfig assms(2)])
  ultimately have f: "proc_frame s s2" by (rule proc_frame_trans)
  then have x: "xray_p s2 = xray_p s" by (simp add: proc_frame_def)
  show ?thesis
  proof (cases "\<exists>p. xray_p s = Some p \<and> IsRunning p")
    case False
    with assms x have "replace_xray None c s2 = (r, t)"
      by (cases "xray_p s") (auto simp: RestartXray_def andThen_run)
    then show ?thesis by (rule replace_post) (use False in \<open>auto simp: kept_running_def\<close>)
  next
    case True
    then obtain p where p: "xray_p s = Some p" "IsRunning p" by blast
    show ?thesis
    proof (cases "kept_running force s c")
      case True
      with assms x p show ?thesis
        by (auto simp: RestartXray_def andThen_run kept_running_def Config_Equals_iff restart_post_def)
    next
      case False
      obtain q u where q: "stop_current p s2 = (q, u)" by (cases "stop_current p s2")
      with stop_current_run [OF q p(2)] x p have "q = Inr ()" by simp
      with assms x p q False have "replace_xray (Some (pr_config p)) c u = (r, t)"
        by (auto simp: RestartXray_def andThen_run kept_running_def Config_Equals_iff)
      then show ?thesis by (rule replace_post) (use p False in auto)
    qed
  qed
qed

lemma restart_cases:
  assumes "RestartXray force s = (r, t)"
  shows "pdb t = pdb s \<and> ptx t = ptx s \<and>
    ((\<exists>e. r = Inl e \<and> proc_frame s t)
     \<or> (\<exists>c doc. fst (GetXrayConfig s) = Inr c \<and> Config_Marshal c = Some doc \<and> w_test (world s) doc = None
          \<and> restart_post force s c r t))"
proof -
  obtain q s1 where g: "GetXrayConfig s = (q, s1)" by (cases "GetXrayConfig s")
  have f1: "proc_frame s s1" by (rule run_frame [OF frame_GetXrayConfig g])
  have db: "pdb t = pdb s \<and> ptx t = ptx s"
    using keepsD_eq [OF RestartXray_frame assms, of "\<lambda>c d. c = pdb s \<and> d = ptx s"] by (simp add: on_db_def)
  show ?thesis
  proof (cases q)
    case (Inl e)
    with g assms f1 db show ?thesis by (auto simp: RestartXray_def andThen_run)
  next
    case (Inr c)
    obtain q' s2 where t': "TestConfig c s1 = (q', s2)" by (cases "TestConfig c s1")
    have f2: "proc_frame s s2" by (rule proc_frame_trans [OF f1 run_frame [OF frame_TestConfig t']])
    show ?thesis
    proof (cases q')
      case (Inl e)
      with g Inr t' assms f2 db show ?thesis by (auto simp: RestartXray_def andThen_run)
    next
      case (Inr u)
      with t' have t'': "TestConfig c s1 = (Inr (), s2)" by simp
      with TestConfig_Inr [OF t''] RestartXray_run [OF g [unfolded \<open>q = Inr c\<close>] t'' assms] f1 db g \<open>q = Inr c\<close>
      show ?thesis by (auto simp: proc_frame_def)
    qed
  qed
qed

section \<open>The log queue\<close>

definition pending :: "process \<Rightarrow> nat" where
  "pending p = (if pr_stdout p = None then 0 else 1) + (if pr_stderr p = None then 0 else 1)"

definition queue_ok :: "process \<Rightarrow> bool" where
  "queue_ok p \<longleftrightarrow> length (pr_lines p) + pending p \<le> max_lines + 1"

lemma queue_ok_started: "runs_config c p \<Longrightarrow> pr_stdout p = None \<Longrightarrow> pr_stderr p = None \<Longrightarrow> queue_ok p"
  by (simp add: queue_ok_def pending_def runs_config_def)

lemma make_room_length: "length (make_room ls) + 1 \<le> max_lines \<or> length (make_room ls) + 1 = length ls \<or> max_lines = 0"
  by (auto simp: make_room_def)

lemma GetResult_lines: "pr_lines (snd (GetResult p)) = [] \<or> snd (GetResult p) = p"
  by (auto simp: GetResult_def split: option.split)

lemma GetResult_pending: "pending (snd (GetResult p)) = pending p"
  by (auto simp: GetResult_def pending_def split: option.split)

lemma proc_step_queue: "proc_step p q \<Longrightarrow> queue_ok p \<Longrightarrow> queue_ok q"
proof (induction rule: proc_step.induct)
  case (out_room p l)
  then show ?case using make_room_length [of "pr_lines p"]
    by (auto simp: queue_ok_def pending_def max_lines_def split: if_splits)
next
  case (err_room p l)
  then show ?case using make_room_length [of "pr_lines p"]
    by (auto simp: queue_ok_def pending_def max_lines_def split: if_splits)
next
  case (taken p)
  then show ?case using GetResult_lines [of p] GetResult_pending [of p]
    by (auto simp: queue_ok_def pending_def max_lines_def)
qed (auto simp: queue_ok_def pending_def)

lemma reach_queue: "proc_step\<^sup>*\<^sup>* p q \<Longrightarrow> queue_ok p \<Longrightarrow> queue_ok q"
  by (induction rule: rtranclp_induct) (auto dest: proc_step_queue)

text \<open>The interleaving that overfills the queue: the second reader makes room while the first one's line is still out.\<close>

definition at_queue :: "string list \<Rightarrow> string option \<Rightarrow> string option \<Rightarrow> process \<Rightarrow> process" where
  "at_queue ls a b p = p\<lparr>pr_cmd := Started False, pr_lines := ls, pr_stdout := a, pr_stderr := b\<rparr>"

lemma at_queue_steps:
  "proc_step (at_queue ls None b p) (at_queue (make_room ls) (Some l) b p)"
  "proc_step (at_queue ls (Some l) b p) (at_queue (ls @ [l]) None b p)"
  "proc_step (at_queue ls a None p) (at_queue (make_room ls) a (Some l) p)"
  "proc_step (at_queue ls a (Some l) p) (at_queue (ls @ [l]) a None p)"
  using out_room [of "at_queue ls None b p" l] out_put [of "at_queue ls (Some l) b p" l]
    err_room [of "at_queue ls a None p" l] err_put [of "at_queue ls a (Some l) p" l]
  by (cases p; simp add: at_queue_def has_run_def)+

abbreviation idle_with :: "string list \<Rightarrow> process \<Rightarrow> process" where
  "idle_with ls \<equiv> at_queue ls None None"

lemma idle_more: "length ls < max_lines \<Longrightarrow> proc_step\<^sup>*\<^sup>* (idle_with ls p) (idle_with (ls @ [l]) p)"
proof -
  assume "length ls < max_lines"
  then have "make_room ls = ls" by (simp add: make_room_def)
  with at_queue_steps(1) [of ls None p l] at_queue_steps(2) [of ls l None p] show ?thesis
    by (auto intro: converse_rtranclp_into_rtranclp)
qed

lemma idle_fill: "n \<le> max_lines \<Longrightarrow> proc_step\<^sup>*\<^sup>* (idle_with [] p) (idle_with (replicate n l) p)"
proof (induction n)
  case (Suc n)
  then have "proc_step\<^sup>*\<^sup>* (idle_with [] p) (idle_with (replicate n l) p)" by simp
  also have "proc_step\<^sup>*\<^sup>* (idle_with (replicate n l) p) (idle_with (replicate n l @ [l]) p)"
    using Suc.prems by (intro idle_more) simp
  also have "replicate n l @ [l] = replicate (Suc n) l" by (simp add: replicate_append_same)
  finally show ?case .
qed simp

lemma idle_overfull:
  assumes "length ls = max_lines" and "0 < max_lines"
  shows "proc_step\<^sup>*\<^sup>* (idle_with ls p) (idle_with (drop 1 ls @ [l, l]) p)"
proof -
  have "make_room ls = drop 1 ls" "make_room (drop 1 ls) = drop 1 ls" using assms by (simp_all add: make_room_def)
  with at_queue_steps(1) [of ls None p l] at_queue_steps(3) [of "drop 1 ls" "Some l" p l]
    at_queue_steps(2) [of "drop 1 ls" l "Some l" p] at_queue_steps(4) [of "drop 1 ls @ [l]" None l p]
  show ?thesis
    by (auto intro: converse_rtranclp_into_rtranclp)
qed

lemma queue_overfull: "\<exists>q. proc_step\<^sup>*\<^sup>* (idle_with [] p) q \<and> length (pr_lines q) = max_lines + 1"
proof -
  have "proc_step\<^sup>*\<^sup>* (idle_with [] p) (idle_with (replicate max_lines []) p)" by (rule idle_fill) simp
  also have "proc_step\<^sup>*\<^sup>* (idle_with (replicate max_lines []) p)
      (idle_with (drop 1 (replicate max_lines []) @ [[], []]) p)"
    by (rule idle_overfull) (simp_all add: max_lines_def)
  finally show ?thesis by (intro exI conjI) (auto simp: max_lines_def at_queue_def)
qed

section \<open>The counters of xray\<close>

definition counts_for :: "string \<Rightarrow> bool \<Rightarrow> string \<Rightarrow> bool" where
  "counts_for tag isDown name \<longleftrightarrow> (case trafficRegex name of None \<Rightarrow> False | Some (i, t, d) \<Rightarrow> t = tag \<and> d = isDown)"

text \<open>The last counter of a tag and a direction, or what was there.\<close>

definition last_stat :: "string \<Rightarrow> bool \<Rightarrow> int \<Rightarrow> (string \<times> int) list \<Rightarrow> int" where
  "last_stat tag isDown = foldl (\<lambda>v (name, x). if counts_for tag isDown name then x else v)"

definition value_in :: "traffic list \<Rightarrow> (traffic \<Rightarrow> int) \<Rightarrow> string \<Rightarrow> int" where
  "value_in ts f tag = (case find (\<lambda>t. t_Tag t = tag) ts of None \<Rightarrow> 0 | Some t \<Rightarrow> f t)"

lemma value_in_member: "distinct (map t_Tag ts) \<Longrightarrow> t \<in> set ts \<Longrightarrow> value_in ts f (t_Tag t) = f t"
  by (induction ts) (auto simp: value_in_def)

lemma value_in_none: "tag \<notin> t_Tag ` set ts \<Longrightarrow> value_in ts f tag = 0"
  by (induction ts) (auto simp: value_in_def)

definition with_tag :: "bool \<Rightarrow> string \<Rightarrow> traffic list \<Rightarrow> traffic list" where
  "with_tag isInbound tag ts = (if tag \<in> t_Tag ` set ts then ts
     else ts @ [\<lparr>t_IsInbound = isInbound, t_Tag = tag, t_Up = 0, t_Down = 0\<rparr>])"

definition set_count :: "string \<Rightarrow> bool \<Rightarrow> int \<Rightarrow> traffic \<Rightarrow> traffic" where
  "set_count tag isDown v t = (if t_Tag t = tag then if isDown then t\<lparr>t_Down := v\<rparr> else t\<lparr>t_Up := v\<rparr> else t)"

lemma put_traffic_alt: "put_traffic i tag d v ts = map (set_count tag d v) (with_tag i tag ts)"
  by (auto simp: put_traffic_def with_tag_def set_count_def Let_def list_ex_iff image_iff)

lemma set_count_tag [simp]: "t_Tag (set_count tag d v t) = t_Tag t"
  by (simp add: set_count_def)

lemma put_traffic_tags: "t_Tag ` set (put_traffic i tag d v ts) = insert tag (t_Tag ` set ts)"
  by (auto simp: put_traffic_alt with_tag_def image_image)

lemma put_traffic_distinct: "distinct (map t_Tag ts) \<Longrightarrow> distinct (map t_Tag (put_traffic i tag d v ts))"
  by (auto simp: put_traffic_alt with_tag_def comp_def)

lemma value_in_with_tag: "value_in (with_tag i tag ts) t_Up tag' = value_in ts t_Up tag'"
    "value_in (with_tag i tag ts) t_Down tag' = value_in ts t_Down tag'"
proof -
  have e: "find (\<lambda>t. t_Tag t = tag') (xs @ ys) = (case find (\<lambda>t. t_Tag t = tag') xs of
      None \<Rightarrow> find (\<lambda>t. t_Tag t = tag') ys | Some t \<Rightarrow> Some t)" for xs ys by (induction xs) auto
  show "value_in (with_tag i tag ts) t_Up tag' = value_in ts t_Up tag'"
    "value_in (with_tag i tag ts) t_Down tag' = value_in ts t_Down tag'"
    by (auto simp: value_in_def with_tag_def e split: option.split)
qed

lemma value_in_set_count:
  "value_in (map (set_count tag d v) ts) t_Up tag' = (if tag' = tag \<and> \<not> d \<and> tag \<in> t_Tag ` set ts then v else value_in ts t_Up tag')"
  "value_in (map (set_count tag d v) ts) t_Down tag' = (if tag' = tag \<and> d \<and> tag \<in> t_Tag ` set ts then v else value_in ts t_Down tag')"
  by (induction ts) (auto simp: value_in_def set_count_def)

lemma put_traffic_value:
  "value_in (put_traffic i tag d v ts) t_Up tag' = (if tag' = tag \<and> \<not> d then v else value_in ts t_Up tag')"
  "value_in (put_traffic i tag d v ts) t_Down tag' = (if tag' = tag \<and> d then v else value_in ts t_Down tag')"
proof -
  have "tag \<in> t_Tag ` set (with_tag i tag ts)" by (auto simp: with_tag_def)
  then show "value_in (put_traffic i tag d v ts) t_Up tag' = (if tag' = tag \<and> \<not> d then v else value_in ts t_Up tag')"
    "value_in (put_traffic i tag d v ts) t_Down tag' = (if tag' = tag \<and> d then v else value_in ts t_Down tag')"
    by (auto simp: put_traffic_alt value_in_set_count value_in_with_tag)
qed

lemma collect_spec:
  assumes "collect_traffic stats ts = Inr ts'" and "distinct (map t_Tag ts)" and "''api'' \<notin> t_Tag ` set ts"
  shows "distinct (map t_Tag ts') \<and> ''api'' \<notin> t_Tag ` set ts' \<and> (\<forall>tag. tag \<noteq> ''api'' \<longrightarrow>
     value_in ts' t_Up tag = last_stat tag False (value_in ts t_Up tag) stats
     \<and> value_in ts' t_Down tag = last_stat tag True (value_in ts t_Down tag) stats)"
  using assms
proof (induction stats ts rule: collect_traffic.induct)
  case (2 name v stats ts)
  then obtain i tag d where m: "trafficRegex name = Some (i, tag, d)" by (auto split: option.splits)
  then have c: "counts_for tag' d' name \<longleftrightarrow> tag = tag' \<and> d = d'" for tag' d' by (simp add: counts_for_def)
  show ?case
  proof (cases "tag = ''api''")
    case True
    with 2 m c show ?thesis by (auto simp: last_stat_def)
  next
    case False
    with 2 m c show ?thesis
      by (auto simp: last_stat_def put_traffic_tags put_traffic_distinct put_traffic_value)
  qed
qed (simp add: last_stat_def)

section \<open>Properties\<close>

text \<open>C12: a restart, under any failures, leaves the databases alone.  Either nothing about xray changed
  and an error is returned, or the configuration was computed and xray accepted it, and then: a
  running xray with the same configuration is kept unless forced; otherwise success means a fresh
  process for that configuration, which is also the file on disk, and an error means that the
  process keeps the error or that the old configuration was started again.\<close>

theorem restart_outcome:
  assumes "RestartXray force s = (r, t)"
  shows "pdb t = pdb s \<and> ptx t = ptx s \<and>
    ((\<exists>e. r = Inl e \<and> proc_frame s t)
     \<or> (\<exists>c doc. fst (GetXrayConfig s) = Inr c \<and> Config_Marshal c = Some doc \<and> w_test (world s) doc = None
          \<and> restart_post force s c r t))"
  using assms by (rule restart_cases)

theorem restart_outcome_witness:
  "\<exists>t c p. RestartXray False (panel_with tunnel_db) = (Inr (), t) \<and> fst (GetXrayConfig (panel_with tunnel_db)) = Inr c
     \<and> xray_p t = Some p \<and> runs_config c p"
proof -
  have "fst (RestartXray False (panel_with tunnel_db)) = Inr ()" by code_simp
  then obtain t where t: "RestartXray False (panel_with tunnel_db) = (Inr (), t)"
    by (cases "RestartXray False (panel_with tunnel_db)") auto
  have "\<not> kept_running False (panel_with tunnel_db) c" for c
    by (simp add: kept_running_def panel_with_def fresh_panel_def)
  with restart_outcome [OF t] t show ?thesis by (auto simp: restart_post_def)
qed

text \<open>C27: from the start of xray on, however the two readers, the exit and the reading of the result
  interleave, the queue of log lines never holds more than 101 lines; the limit of 100 that the
  readers check is exceeded by one in some interleaving.\<close>

theorem log_queue_bound:
  "(\<forall>c p q. runs_config c p \<and> pr_stdout p = None \<and> pr_stderr p = None \<and> proc_step\<^sup>*\<^sup>* p q \<longrightarrow> length (pr_lines q) \<le> 101)
   \<and> (\<exists>q. proc_step\<^sup>*\<^sup>* ((newProcess zero_config)\<lparr>pr_cmd := Spawning\<rparr>) q \<and> length (pr_lines q) = 101)"
proof (rule conjI)
  show "\<forall>c p q. runs_config c p \<and> pr_stdout p = None \<and> pr_stderr p = None \<and> proc_step\<^sup>*\<^sup>* p q \<longrightarrow> length (pr_lines q) \<le> 101"
    using reach_queue queue_ok_started by (fastforce simp: queue_ok_def max_lines_def)
next
  let ?p = "(newProcess zero_config)\<lparr>pr_cmd := Spawning\<rparr>"
  have "proc_step ?p (idle_with [] ?p)"
    using spawned [of ?p] by (simp add: newProcess_def at_queue_def)
  with queue_overfull [of ?p] show "\<exists>q. proc_step\<^sup>*\<^sup>* ?p q \<and> length (pr_lines q) = 101"
    by (auto simp: max_lines_def intro: converse_rtranclp_into_rtranclp)
qed

theorem log_queue_bound_witness:
  "length (pr_lines ((newProcess zero_config)\<lparr>pr_cmd := Spawning\<rparr>)) \<le> 101"
  using conjunct1 [OF log_queue_bound] by (simp add: runs_config_def newProcess_def)

text \<open>the records made of xray's counters have distinct tags, none of them the tag of the API,
  and each carries the last counter of its tag in either direction (0 where there is none).\<close>

theorem traffic_collected:
  assumes "GetTraffic p (Inr stats) = Inr ts"
  shows "distinct (map t_Tag ts) \<and> (\<forall>t \<in> set ts. t_Tag t \<noteq> ''api''
    \<and> t_Up t = last_stat (t_Tag t) False 0 stats \<and> t_Down t = last_stat (t_Tag t) True 0 stats)"
proof -
  from assms have c: "collect_traffic stats [] = Inr ts" by (simp add: GetTraffic_def split: if_splits)
  from collect_spec [OF c] have d: "distinct (map t_Tag ts)" "''api'' \<notin> t_Tag ` set ts"
    and v: "\<And>tag. tag \<noteq> ''api'' \<Longrightarrow> value_in ts t_Up tag = last_stat tag False 0 stats
      \<and> value_in ts t_Down tag = last_stat tag True 0 stats"
    by (simp_all add: value_in_none)
  have "t_Tag t \<noteq> ''api'' \<and> t_Up t = last_stat (t_Tag t) False 0 stats \<and> t_Down t = last_stat (t_Tag t) True 0 stats"
    if "t \<in> set ts" for t
  proof -
    from that d(2) have n: "t_Tag t \<noteq> ''api''" by (metis image_eqI)
    from v [OF n] value_in_member [OF d(1) that] show ?thesis by (simp add: n)
  qed
  with d(1) show ?thesis by blast
qed

definition api_process :: process where
  "api_process = (newProcess zero_config)\<lparr>pr_cmd := Started False, pr_apiPort := 62789\<rparr>"

definition sample_stats :: "(string \<times> int) list" where
  "sample_stats = [(''inbound>>>inbound-80>>>traffic>>>downlink'', 7), (''inbound>>>api>>>traffic>>>uplink'', 1),
     (''inbound>>>inbound-80>>>traffic>>>uplink'', 5)]"

theorem traffic_collected_witness:
  "GetTraffic api_process (Inr sample_stats) = Inr [\<lparr>t_IsInbound = True, t_Tag = ''inbound-80'', t_Up = 5, t_Down = 7\<rparr>]
   \<and> last_stat ''inbound-80'' True 0 sample_stats = 7"
proof -
  have g: "GetTraffic api_process (Inr sample_stats)
      = Inr [\<lparr>t_IsInbound = True, t_Tag = ''inbound-80'', t_Up = 5, t_Down = 7\<rparr>]" by code_simp
  with traffic_collected [OF g] show ?thesis by simp
qed

definition bare_db :: database where
  "bare_db = empty_database\<lparr>tbl_settings := [\<lparr>st_Id = 1, st_Key = ''xrayTemplateConfig'', st_Value = ''{}''\<rparr>]\<rparr>"

text \<open>A second forced restart, before the operating system has spawned the first process, drops
  that process without killing it and starts another: once spawned, both run.\<close>

theorem restart_before_spawn:
  "\<exists>t u p q. RestartXray True (panel_with bare_db) = (Inr (), t) \<and> RestartXray True t = (Inr (), u)
     \<and> xray_p u = Some p \<and> orphans u = [q] \<and> pr_cmd p = Spawning \<and> pr_cmd q = Spawning"
proof -
  let ?s = "panel_with bare_db"
  have "(case RestartXray True ?s of (r, t) \<Rightarrow> r = Inr () \<and> (case RestartXray True t of (r', u) \<Rightarrow> r' = Inr ()
      \<and> (case xray_p u of None \<Rightarrow> False | Some p \<Rightarrow> pr_cmd p = Spawning)
      \<and> (case orphans u of [q] \<Rightarrow> pr_cmd q = Spawning | _ \<Rightarrow> False)))" by code_simp
  then show ?thesis
    by (cases "RestartXray True ?s"; cases "RestartXray True (snd (RestartXray True ?s))")
      (auto split: option.splits list.splits)
qed

end
