(* ===== verification/Access_Line.thy ===== *)
theory Access_Line
  imports Access_Log Go_Net
begin

text \<open>
  The reading of one line of xray's access log (src/web/service/access_ip.go): the
  regular expression of an event, the time in the local zone, the endpoint with its
  optional network prefixes and brackets.  The regular expression is run by hand: a
  match starts at the leftmost position, every repetition in it takes the longest
  run because what follows cannot start inside the run, and the lazy one before
  \<open>[inbound-\<close> stops at the first inbound that is complete.
\<close>

section \<open>Matching an event\<close>

text \<open>\<open>\s\<close> of package regexp.\<close>

definition re_space :: "char \<Rightarrow> bool" where
  "re_space c \<longleftrightarrow> c \<in> set [CHR 0x09, CHR 0x0A, CHR 0x0C, CHR 0x0D, CHR '' '']"

definition date_pattern :: string where
  "date_pattern = ''dddd/dd/dd dd:dd:dd.''"

definition shaped :: "string \<Rightarrow> string \<Rightarrow> bool" where
  "shaped pat s \<longleftrightarrow> list_all2 (\<lambda>p c. if p = CHR ''d'' then is_digit c else c = p) pat (take (length pat) s)"

text \<open>The time of an event and what follows it.\<close>

definition match_time :: "string \<Rightarrow> (string \<times> string) option" where
  "match_time s =
     (if \<not> shaped date_pattern s then None
      else let frac = takeWhile is_digit (drop (length date_pattern) s);
               n = length date_pattern + length frac in
        if frac = [] then None else Some (take n s, drop n s))"

text \<open>\<open>\s+word\<close> and \<open>\s+(\S+)\<close>.\<close>

definition match_word :: "string \<Rightarrow> string \<Rightarrow> string option" where
  "match_word w s = (let r = dropWhile re_space s in
     if r = s \<or> \<not> HasPrefix r w then None else Some (drop (length w) r))"

definition match_text :: "string \<Rightarrow> (string \<times> string) option" where
  "match_text s = (let r = dropWhile re_space s; t = takeWhile (\<lambda>c. \<not> re_space c) r in
     if r = s \<or> t = [] then None else Some (t, drop (length t) r))"

text \<open>\<open>.*?\[inbound-(\d+)\]\<close>\<close>

definition inbound_mark :: "string \<Rightarrow> (string \<times> string) option" where
  "inbound_mark s =
     (if \<not> HasPrefix s ''[inbound-'' then None
      else let ds = takeWhile is_digit (drop 9 s); r = drop (9 + length ds) s in
        if ds = [] \<or> \<not> HasPrefix r '']'' then None else Some (ds, drop 1 r))"

fun find_mark :: "string \<Rightarrow> (string \<times> string) option" where
  "find_mark [] = None"
| "find_mark (c # s) = (case inbound_mark (c # s) of
       Some m \<Rightarrow> Some m
     | None \<Rightarrow> if c = CHR 0x0A then None else find_mark s)"

text \<open>A match at the start of the text: the three groups, and the rest.\<close>

definition match_event :: "string \<Rightarrow> ((string \<times> string \<times> string) \<times> string) option" where
  "match_event s =
     Option.bind (match_time s) (\<lambda>(t, r1).
     Option.bind (match_word ''from'' r1) (\<lambda>r2.
     Option.bind (match_text r2) (\<lambda>(ep, r3).
     Option.bind (match_word ''accepted'' r3) (\<lambda>r4.
     (let r5 = dropWhile re_space r4 in
      if r5 = r4 then None
      else map_option (\<lambda>(ds, r6). ((t, ep, ds), r6)) (find_mark r5))))))"

lemma match_time_shorter: "match_time s = Some (t, r) \<Longrightarrow> length r < length s"
proof -
  assume m: "match_time s = Some (t, r)"
  then have "shaped date_pattern s" by (auto simp: match_time_def split: if_splits)
  then have "length date_pattern = length (take (length date_pattern) s)"
    unfolding shaped_def by (rule list_all2_lengthD)
  then have "0 < length s" by (auto simp: date_pattern_def)
  with m show ?thesis by (auto simp: match_time_def Let_def date_pattern_def split: if_splits)
qed

lemma match_word_shorter: "match_word w s = Some r \<Longrightarrow> length r \<le> length s"
  using length_dropWhile_le [of re_space s] by (auto simp: match_word_def Let_def split: if_splits)

lemma match_text_shorter: "match_text s = Some (t, r) \<Longrightarrow> length r \<le> length s"
  using length_dropWhile_le [of re_space s] by (auto simp: match_text_def Let_def split: if_splits)

lemma find_mark_shorter: "find_mark s = Some (ds, r) \<Longrightarrow> length r \<le> length s"
proof (induction s rule: find_mark.induct)
  case (2 c s)
  then show ?case by (auto simp: inbound_mark_def Let_def split: option.splits if_splits)
qed simp

lemma match_event_shorter: "match_event s = Some (m, r) \<Longrightarrow> length r < length s"
proof -
  assume "match_event s = Some (m, r)"
  then obtain t r1 r2 ep r3 r4 ds where "match_time s = Some (t, r1)" "match_word ''from'' r1 = Some r2"
      "match_text r2 = Some (ep, r3)" "match_word ''accepted'' r3 = Some r4"
      "find_mark (dropWhile re_space r4) = Some (ds, r)"
    by (auto simp: match_event_def Let_def bind_eq_Some_conv split: if_splits)
  then show ?thesis
    using match_time_shorter match_word_shorter [of _ r1] match_text_shorter match_word_shorter [of _ r3]
      find_mark_shorter length_dropWhile_le [of re_space r4] by (meson le_less_trans order_trans)
qed

text \<open>\<open>FindAllStringSubmatch\<close>: the matches from left to right, none overlapping another.\<close>

function all_events :: "string \<Rightarrow> (string \<times> string \<times> string) list" where
  "all_events s = (case s of
       [] \<Rightarrow> []
     | c # cs \<Rightarrow> (case match_event s of
           None \<Rightarrow> all_events cs
         | Some (m, r) \<Rightarrow> m # all_events r))"
  by pat_completeness auto
termination by (relation "measure length") (auto dest: match_event_shorter)

declare all_events.simps [simp del]

section \<open>The time\<close>

definition is_leap :: "int \<Rightarrow> bool" where
  "is_leap y \<longleftrightarrow> y mod 4 = 0 \<and> (y mod 100 \<noteq> 0 \<or> y mod 400 = 0)"

definition month_days :: "int \<Rightarrow> int list" where
  "month_days y = [31, if is_leap y then 29 else 28, 31, 30, 31, 30, 31, 31, 30, 31, 30, 31]"

text \<open>Days from 1970-01-01 to the first of January of a year, and to a date.\<close>

definition year_start :: "int \<Rightarrow> int" where
  "year_start y = 365 * (y - 1970) + (y - 1) div 4 - (y - 1) div 100 + (y - 1) div 400 - 477"

definition day_number :: "int \<Rightarrow> int \<Rightarrow> int \<Rightarrow> int" where
  "day_number y m d = year_start y + sum_list (take (nat (m - 1)) (month_days y)) + d - 1"

text \<open>
  \<open>time.Date\<close> in the local zone: the offset valid at the instant is looked up with
  the clock's reading, and once more where that offset leads out of its validity.
\<close>

definition local_unix :: "(int \<Rightarrow> int \<times> int \<times> int) \<Rightarrow> int \<Rightarrow> int" where
  "local_unix zone reading = (case zone reading of (offset, begin', end') \<Rightarrow>
     if offset = 0 then reading
     else let utc = reading - offset in
       if utc < begin' \<or> end' \<le> utc then reading - fst (zone utc) else reading - offset)"

definition number_at :: "nat \<Rightarrow> nat \<Rightarrow> string \<Rightarrow> int" where
  "number_at k n s = (case read_digits 0 (take n (drop k s)) of None \<Rightarrow> -1 | Some v \<Rightarrow> int v)"

text \<open>
  \<open>time.ParseInLocation(xrayAccessTimeLayout, ...)\<close> on a text that the regular
  expression gave: the layout asks for exactly six digits behind the point.
\<close>

definition parse_access_time :: "(int \<Rightarrow> int \<times> int \<times> int) \<Rightarrow> string \<Rightarrow> int option" where
  "parse_access_time zone s =
     (let y = number_at 0 4 s; mo = number_at 5 2 s; d = number_at 8 2 s;
          h = number_at 11 2 s; mi = number_at 14 2 s; sec = number_at 17 2 s in
      if length s \<noteq> 26 then None
      else if mo \<le> 0 \<or> 12 < mo \<or> h < 0 \<or> 24 \<le> h \<or> mi < 0 \<or> 60 \<le> mi \<or> sec < 0 \<or> 60 \<le> sec then None
      else if d < 1 \<or> month_days y ! nat (mo - 1) < d then None
      else Some (local_unix zone (86400 * day_number y mo d + 3600 * h + 60 * mi + sec)))"

text \<open>\<open>time.Unix(ts, 0).Format("2006-01-02 15:04:05")\<close>; the year of a day by search from an estimate.\<close>

fun year_from :: "nat \<Rightarrow> int \<Rightarrow> int \<Rightarrow> int" where
  "year_from 0 y n = y"
| "year_from (Suc k) y n = (if n < year_start (y + 1) then y else year_from k (y + 1) n)"

fun month_from :: "int list \<Rightarrow> int \<Rightarrow> int \<Rightarrow> int \<times> int" where
  "month_from [] m n = (m, n + 1)"
| "month_from (l # ls) m n = (if n < l then (m, n + 1) else month_from ls (m + 1) (n - l))"

definition pad :: "nat \<Rightarrow> int \<Rightarrow> string" where
  "pad w n = (let t = nat_str (nat n) in replicate (w - length t) (CHR ''0'') @ t)"

definition format_time :: "int \<Rightarrow> string" where
  "format_time reading =
     (let n = reading div 86400; r = reading mod 86400;
          y = year_from 400 (1970 + 400 * (n div 146097)) n;
          md = month_from (month_days y) 1 (n - year_start y)
      in pad 4 y @ ''-'' @ pad 2 (fst md) @ ''-'' @ pad 2 (snd md) @ '' '' @ pad 2 (r div 3600) @ '':''
         @ pad 2 (r mod 3600 div 60) @ '':'' @ pad 2 (r mod 60))"

definition formatUnix :: "(int \<Rightarrow> int \<times> int \<times> int) \<Rightarrow> int \<Rightarrow> string" where
  "formatUnix zone ts = (if ts \<le> 0 then ''-'' else format_time (ts + fst (zone ts)))"

section \<open>The endpoint\<close>

text \<open>The text before and behind the last occurrence of a byte.\<close>

definition split_last :: "char \<Rightarrow> string \<Rightarrow> (string \<times> string) option" where
  "split_last c s = (let t = takeWhile (\<lambda>x. x \<noteq> c) (rev s) in
     if length t = length s then None else Some (take (length s - length t - 1) s, rev t))"

text \<open>\<open>net.SplitHostPort\<close>; \<open>None\<close> is any of its errors.\<close>

definition SplitHostPort :: "string \<Rightarrow> (string \<times> string) option" where
  "SplitHostPort hp = (case split_last (CHR '':'') hp of
       None \<Rightarrow> None
     | Some (front, port) \<Rightarrow>
         if hd hp = CHR ''['' then
           (let host = takeWhile (\<lambda>c. c \<noteq> CHR '']'') (tl hp) in
            if Suc (length host) = length hp then None
            else if length host + 2 \<noteq> length front then None
            else if CHR ''['' \<in> set (tl hp) \<or> CHR '']'' \<in> set (drop (length host + 2) hp) then None
            else Some (host, port))
         else if CHR '':'' \<in> set front then None
         else if CHR ''['' \<in> set hp \<or> CHR '']'' \<in> set hp then None
         else Some (front, port))"

definition network_prefix :: "string \<Rightarrow> bool" where
  "network_prefix w \<longleftrightarrow> w = ''tcp'' \<or> w = ''udp'' \<or> w = ''unix''"

text \<open>The loop that drops \<open>tcp:\<close>, \<open>udp:\<close> and \<open>unix:\<close> in front.\<close>

function drop_networks :: "string \<Rightarrow> string" where
  "drop_networks host = (let w = takeWhile (\<lambda>c. c \<noteq> CHR '':'') host; r = drop (length w) host in
     if r = [] then host
     else if network_prefix (ToLower (TrimSpace w)) then drop_networks (TrimSpace (tl r))
     else host)"
  by pat_completeness auto
termination
proof (relation "measure length")
  fix host w r assume "w = takeWhile (\<lambda>c. c \<noteq> CHR '':'') host" and "r = drop (length w) host" "r \<noteq> []"
  then have "length (tl r) < length host" by (cases r) (auto dest: arg_cong [where f = length])
  with length_TrimSpace_le [of "tl r"] show "(TrimSpace (tl r), host) \<in> measure length" by simp
qed simp

declare drop_networks.simps [simp del]

definition trim_brackets :: "string \<Rightarrow> string" where
  "trim_brackets host = TrimSpace (TrimChars host ''[]'')"

definition normalizeSourceHost :: "string \<Rightarrow> string" where
  "normalizeSourceHost host0 =
     (let host = trim_brackets (drop_networks (trim_brackets host0)) in
      case ParseIP host of Some ip \<Rightarrow> ip_String ip | None \<Rightarrow> host)"

definition isLoopbackAddress :: "string \<Rightarrow> bool" where
  "isLoopbackAddress host0 =
     (let host = normalizeSourceHost host0 in
      if host = [] then True
      else if host = ''localhost'' then True
      else case ParseIP host of None \<Rightarrow> False | Some ip \<Rightarrow> IsLoopback ip)"

definition splitAccessEndpoint :: "string \<Rightarrow> (string \<times> int) res" where
  "splitAccessEndpoint endpoint0 =
     (let endpoint = TrimSpace endpoint0;
          parts = (case SplitHostPort endpoint of
              Some hp \<Rightarrow> Some hp
            | None \<Rightarrow> (case split_last (CHR '':'') endpoint of
                  None \<Rightarrow> None
                | Some (h, p) \<Rightarrow> if h = [] \<or> p = [] then None else Some (h, p)))
      in case parts of
          None \<Rightarrow> Inl (Err ''address'')
        | Some (h, p) \<Rightarrow>
            (let host = normalizeSourceHost h in
             case Atoi p of
               Inl e \<Rightarrow> Inl e
             | Inr port \<Rightarrow> if host = [] then Inl (Err ''empty source ip'') else Inr (host, port)))"

section \<open>The line\<close>

record access_event =
  ev_SourceIP :: string
  ev_Port :: int
  ev_SeenAt :: int

definition parseAccessIPLine :: "(int \<Rightarrow> int \<times> int \<times> int) \<Rightarrow> string \<Rightarrow> access_event option" where
  "parseAccessIPLine zone line0 =
     (let line = TrimSpace line0 in
      if line = [] then None
      else let matches = all_events line in
        if matches = [] then None
        else case last matches of (t, ep, ds) \<Rightarrow>
          (case parse_access_time zone t of
             None \<Rightarrow> None
           | Some seenAt \<Rightarrow> (case splitAccessEndpoint ep of
               Inl e \<Rightarrow> None
             | Inr (sourceIP, _) \<Rightarrow> (case Atoi ds of
                 Inl e \<Rightarrow> None
               | Inr inboundPort \<Rightarrow>
                   if inboundPort \<le> 0 then None
                   else if isLoopbackAddress sourceIP then None
                   else Some \<lparr>ev_SourceIP = sourceIP, ev_Port = inboundPort, ev_SeenAt = seenAt\<rparr>))))"

lemma splitAccessEndpoint_host: "splitAccessEndpoint ep = Inr (h, p) \<Longrightarrow> h \<noteq> []"
  by (auto simp: splitAccessEndpoint_def Let_def split: option.splits sum.splits if_splits prod.splits)

lemma parsed_event:
  "parseAccessIPLine zone line = Some e \<Longrightarrow> ev_SourceIP e \<noteq> [] \<and> 0 < ev_Port e \<and> in_int64 (ev_Port e)
     \<and> \<not> isLoopbackAddress (ev_SourceIP e)"
  using splitAccessEndpoint_host Atoi_in_int64
  by (fastforce simp: parseAccessIPLine_def Let_def split: option.splits sum.splits if_splits prod.splits)

end
