(* ===== verification/Access_IP.thy ===== *)
theory Access_IP
  imports Access_Line Xray_Config
begin

text \<open>
  The aggregation of the access log (src/web/service/access_ip.go): the offset kept
  in a state file, the scanner over the new part of the log, one record per source
  address and inbound port, the summary file.  Files are the panel's \<open>files\<close>; a call
  on the file system fails when the schedule says so, and a file that does not
  exist is no failure.  A read error of the scanner shows behind the last line.
\<close>

section \<open>Files\<close>

definition read_file :: "string \<Rightarrow> (panel, string option) act" where
  "read_file path = andThen outside (\<lambda>_. gets (\<lambda>s. files s path))"

definition write_file :: "string \<Rightarrow> string \<Rightarrow> (panel, unit) act" where
  "write_file path text_data = andThen outside (\<lambda>_. modify (\<lambda>s. s\<lparr>files := (files s)(path \<mapsto> text_data)\<rparr>))"

definition append_file :: "string \<Rightarrow> string \<Rightarrow> (panel, unit) act" where
  "append_file path text_data = andThen outside (\<lambda>_. modify (\<lambda>s. s\<lparr>files := (files s)(path \<mapsto>
     (case files s path of None \<Rightarrow> [] | Some old \<Rightarrow> old) @ text_data)\<rparr>))"

definition rename_file :: "string \<Rightarrow> string \<Rightarrow> (panel, unit) act" where
  "rename_file old new = andThen outside (\<lambda>_. modify (\<lambda>s. s\<lparr>files := (files s)(new := files s old, old := None)\<rparr>))"

definition xrayAccessIPSummary :: string where
  "xrayAccessIPSummary = ''/var/log/xray/access-ip-summary.log''"
definition xrayAccessIPStatePath :: string where
  "xrayAccessIPStatePath = ''/var/lib/x-ui/access-ip-state.json''"

section \<open>The state file\<close>

definition decode_state :: "string \<Rightarrow> int res" where
  "decode_state data = (case raw_object data of
       None \<Rightarrow> Inl json_error
     | Some kws \<Rightarrow> (case int_member 0 (raw_vals ''offset'' kws) of None \<Rightarrow> Inl json_error | Some n \<Rightarrow> Inr n))"

definition state_text :: "int \<Rightarrow> string" where
  "state_text offset = ''{\"offset\":'' @ Itoa offset @ ''}''"

definition loadState :: "(panel, int) act" where
  "loadState = andThen (read_file xrayAccessIPStatePath) (\<lambda>c. case c of
       None \<Rightarrow> ret 0
     | Some data \<Rightarrow> if TrimSpace data = [] then ret 0 else lift_res (decode_state data))"

definition saveState :: "int \<Rightarrow> (panel, unit) act" where
  "saveState offset =
     andThen outside (\<lambda>_.
     andThen (write_file (xrayAccessIPStatePath @ ''.tmp'') (state_text offset)) (\<lambda>_.
     rename_file (xrayAccessIPStatePath @ ''.tmp'') xrayAccessIPStatePath))"

section \<open>The records\<close>

definition record_for :: "string \<Rightarrow> int \<Rightarrow> access_record \<Rightarrow> bool" where
  "record_for ip port r \<longleftrightarrow> ar_SourceIP r = ip \<and> ar_LastPort r = port"

definition first_record :: "string \<Rightarrow> int \<Rightarrow> database \<Rightarrow> access_record res" where
  "first_record ip port d = (case find (record_for ip port) (tbl_access d) of
       None \<Rightarrow> Inl NotFound | Some r \<Rightarrow> Inr r)"

definition new_record :: "access_event \<Rightarrow> access_record" where
  "new_record e = \<lparr>ar_Id = 0, ar_SourceIP = ev_SourceIP e, ar_LastPort = ev_Port e, ar_HitCount = 1,
     ar_FirstSeen = ev_SeenAt e, ar_LastSeen = ev_SeenAt e\<rparr>"

definition bump_record :: "access_event \<Rightarrow> access_record \<Rightarrow> access_record" where
  "bump_record e r = r\<lparr>ar_LastPort := ev_Port e, ar_HitCount := wrap64 (ar_HitCount r + 1),
     ar_FirstSeen := (if ar_FirstSeen r = 0 \<or> ev_SeenAt e < ar_FirstSeen r then ev_SeenAt e else ar_FirstSeen r),
     ar_LastSeen := (if ar_LastSeen r \<le> ev_SeenAt e then ev_SeenAt e else ar_LastSeen r)\<rparr>"

text \<open>The index on address and port is unique.\<close>

definition create_record :: "access_record \<Rightarrow> database \<Rightarrow> unit res \<times> database" where
  "create_record r d =
     (if list_ex (record_for (ar_SourceIP r) (ar_LastPort r)) (tbl_access d)
      then (Inl (DbErr ''UNIQUE constraint failed: access_ip_records''), d)
      else case insert_row ar_Id (\<lambda>i r. r\<lparr>ar_Id := i\<rparr>) r (tbl_access d) of
          Inl e \<Rightarrow> (Inl e, d)
        | Inr (r', rows) \<Rightarrow> (Inr (), d\<lparr>tbl_access := rows\<rparr>))"

definition save_record :: "access_record \<Rightarrow> database \<Rightarrow> unit res \<times> database" where
  "save_record r d = (Inr (), d\<lparr>tbl_access := update_rows (\<lambda>x. ar_Id x = ar_Id r) (\<lambda>_. r) (tbl_access d)\<rparr>)"

definition upsertRecord :: "access_event \<Rightarrow> (panel, unit) act" where
  "upsertRecord e =
     andThen (attempt (query Conn (first_record (ev_SourceIP e) (ev_Port e)))) (\<lambda>q. case q of
       Inl err \<Rightarrow> if err = NotFound then stmt Conn (create_record (new_record e)) else throw err
     | Inr r \<Rightarrow> stmt Conn (save_record (bump_record e r)))"

section \<open>The summary\<close>

definition by_last_seen :: "database \<Rightarrow> access_record list" where
  "by_last_seen d = sort_key (\<lambda>r. - ar_LastSeen r) (tbl_access d)"

definition summary_line :: "(int \<Rightarrow> int \<times> int \<times> int) \<Rightarrow> access_record \<Rightarrow> string" where
  "summary_line zone r = ''count='' @ Itoa (ar_HitCount r) @ '' ip='' @ ar_SourceIP r @ '' inbound_port=''
     @ Itoa (ar_LastPort r) @ '' first_seen='' @ formatUnix zone (ar_FirstSeen r)
     @ '' last_seen='' @ formatUnix zone (ar_LastSeen r) @ [CHR 0x0A]"

definition dumpSummary :: "(panel, unit) act" where
  "dumpSummary =
     andThen (query Conn (\<lambda>d. Inr (by_last_seen d))) (\<lambda>records.
     andThen outside (\<lambda>_.
     andThen (write_file (xrayAccessIPSummary @ ''.tmp'') []) (\<lambda>_.
     andThen (on_world w_zone) (\<lambda>zone.
     andThen (for_each (\<lambda>r. append_file (xrayAccessIPSummary @ ''.tmp'') (summary_line zone r)) records) (\<lambda>_.
     andThen outside (\<lambda>_.
     rename_file (xrayAccessIPSummary @ ''.tmp'') xrayAccessIPSummary))))))"

section \<open>The scanner\<close>

text \<open>
  \<open>bufio.Scanner\<close> with a buffer of one MiB: the lines, without a carriage return at
  the end, up to the first one that does not fit; the flag tells whether there was one.
\<close>

definition max_token :: nat where "max_token = 1048576"

definition drop_cr :: "string \<Rightarrow> string" where
  "drop_cr l = (if l \<noteq> [] \<and> last l = CHR 0x0D then butlast l else l)"

definition head_line :: "string \<Rightarrow> string" where
  "head_line s = takeWhile (\<lambda>c. c \<noteq> CHR 0x0A) s"

function scan_lines :: "string \<Rightarrow> string list \<times> bool" where
  "scan_lines s =
     (if s = [] then ([], False)
      else let l = head_line s in
        if max_token \<le> length l then ([], True)
        else (case scan_lines (drop (Suc (length l)) s) of (ls, e) \<Rightarrow> (drop_cr l # ls, e)))"
  by pat_completeness auto
termination by (relation "measure length") auto

declare scan_lines.simps [simp del]

section \<open>The service\<close>

definition process_line :: "string \<Rightarrow> (panel, unit) act" where
  "process_line line = andThen (on_world w_zone) (\<lambda>zone.
     case parseAccessIPLine zone line of None \<Rightarrow> ret () | Some event \<Rightarrow> upsertRecord event)"

definition read_log :: "string \<Rightarrow> int \<Rightarrow> (panel, unit) act" where
  "read_log log offset0 =
     (let offset = (if int (length log) < offset0 then 0 else offset0) in
      andThen (reject (offset < 0) (ExtErr ''seek: invalid argument'')) (\<lambda>_.
      andThen outside (\<lambda>_.
      (let scanned = scan_lines (drop (nat offset) log) in
       andThen (for_each process_line (fst scanned)) (\<lambda>_.
       andThen (reject (snd scanned) (Err ''bufio.Scanner: token too long'')) (\<lambda>_.
       andThen outside (\<lambda>_. outside)))))))"

definition ProcessAccessLog :: "(panel, unit) act" where
  "ProcessAccessLog =
     andThen IsAggregationEnabled (\<lambda>enabled.
     if \<not> enabled then ret ()
     else
       andThen loadState (\<lambda>offset0.
       andThen (read_file xrayAccessLogPath) (\<lambda>file. case file of
           None \<Rightarrow> dumpSummary
         | Some log \<Rightarrow>
             andThen outside (\<lambda>_.
             andThen (read_log log offset0) (\<lambda>_.
             andThen (saveState (int (length log))) (\<lambda>_. dumpSummary))))))"

definition GetAccessIPRecords :: "(panel, access_record list) act" where
  "GetAccessIPRecords = andThen ProcessAccessLog (\<lambda>_. query Conn (\<lambda>d. Inr (by_last_seen d)))"

text \<open>The offset behind what is in the log now.\<close>

definition current_offset :: "(panel, int) act" where
  "current_offset = andThen (read_file xrayAccessLogPath) (\<lambda>file. ret (case file of
       None \<Rightarrow> 0 | Some log \<Rightarrow> int (length log)))"

definition ClearAccessIPRecords :: "(panel, unit) act" where
  "ClearAccessIPRecords =
     andThen (stmt Conn (\<lambda>d. (Inr (), d\<lparr>tbl_access := delete_rows (\<lambda>r. True) (tbl_access d)\<rparr>))) (\<lambda>_.
     andThen current_offset (\<lambda>offset.
     andThen (saveState offset) (\<lambda>_. dumpSummary)))"

definition skipCurrentAccessLog :: "(panel, unit) act" where
  "skipCurrentAccessLog = andThen current_offset saveState"

definition AccessIP_UpdateConfig :: "access_ip_config \<Rightarrow> (panel, bool) act" where
  "AccessIP_UpdateConfig config =
     andThen AccessIP_GetConfig (\<lambda>current.
     andThen (saveSetting accessLogEnabledKey (FormatBool (AccessLogEnabled config))) (\<lambda>_.
     andThen (saveSetting aggregationEnabledKey (FormatBool (AggregationEnabled config))) (\<lambda>_.
     andThen (if AggregationEnabled current \<and> \<not> AggregationEnabled config then skipCurrentAccessLog else ret ())
       (\<lambda>_. ret (AccessLogEnabled current \<noteq> AccessLogEnabled config)))))"

end
