(* ===== verification/Access_Properties.thy ===== *)
theory Access_Properties
  imports Access_IP Config_Properties
begin

text \<open>
  What the aggregation of the access log promises: under any failures a run applies a
  prefix of the events of the new part of the log, and all of them when it succeeds;
  the records count the events per source and port; reading a growing log in
  pieces that end at a line is reading it at once.
\<close>

section \<open>One event\<close>

definition apply_event :: "access_event \<Rightarrow> access_record list \<Rightarrow> access_record list" where
  "apply_event e t = (case find (record_for (ev_SourceIP e) (ev_Port e)) t of
       None \<Rightarrow> t @ [(new_record e)\<lparr>ar_Id := next_id ar_Id t\<rparr>]
     | Some r \<Rightarrow> update_rows (\<lambda>x. ar_Id x = ar_Id r) (\<lambda>_. bump_record e r) t)"

definition upd_access :: "(access_record list \<Rightarrow> access_record list) \<Rightarrow> panel \<Rightarrow> panel" where
  "upd_access f s = s\<lparr>pdb := (pdb s)\<lparr>tbl_access := f (tbl_access (pdb s))\<rparr>\<rparr>"

lemma upd_access_simps [simp]: "faults (upd_access f s) = faults s" "files (upd_access f s) = files s"
    "world (upd_access f s) = world s" "ptx (upd_access f s) = ptx s"
    "tbl_access (pdb (upd_access f s)) = f (tbl_access (pdb s))"
    "tbl_settings (pdb (upd_access f s)) = tbl_settings (pdb s)"
  by (simp_all add: upd_access_def)

lemma upd_access_comp: "upd_access f (upd_access g s) = upd_access (f \<circ> g) s"
  by (simp add: upd_access_def)

lemma upd_access_id: "upd_access (\<lambda>t. t) s = s"
  by (simp add: upd_access_def)

lemma list_ex_find: "list_ex P xs \<longleftrightarrow> find P xs \<noteq> None"
  by (induction xs) auto

lemma bump_record_id [simp]: "ar_Id (bump_record e r) = ar_Id r"
  by (simp add: bump_record_def)

lemma create_record_event: "create_record (new_record e) d =
    (case find (record_for (ev_SourceIP e) (ev_Port e)) (tbl_access d) of
       None \<Rightarrow> (Inr (), d\<lparr>tbl_access := apply_event e (tbl_access d)\<rparr>)
     | Some r \<Rightarrow> (Inl (DbErr ''UNIQUE constraint failed: access_ip_records''), d))"
  by (simp add: create_record_def new_record_def list_ex_find insert_row_def apply_event_def Let_def split: option.split)

lemma save_record_event: "find (record_for (ev_SourceIP e) (ev_Port e)) (tbl_access d) = Some r \<Longrightarrow>
    save_record (bump_record e r) d = (Inr (), d\<lparr>tbl_access := apply_event e (tbl_access d)\<rparr>)"
  by (simp add: save_record_def apply_event_def)

lemma upsertRecord_calm: "faults s = [] \<Longrightarrow> upsertRecord e s = (Inr (), upd_access (apply_event e) s)"
  by (cases "find (record_for (ev_SourceIP e) (ev_Port e)) (tbl_access (pdb s))")
    (simp_all add: upsertRecord_def andThen_run attempt_run first_record_def stmt_calm_Conn create_record_event
      save_record_event upd_access_def)

text \<open>Under any schedule a failed upsert changed nothing, a successful one applied the event.\<close>

definition only_faults :: "panel \<Rightarrow> panel \<Rightarrow> bool" where
  "only_faults s t \<longleftrightarrow> t\<lparr>faults := []\<rparr> = s\<lparr>faults := []\<rparr>"

lemma only_faultsI: "only_faults s (s\<lparr>faults := fs\<rparr>)"
  by (simp add: only_faults_def)

lemma upsertRecord_run:
  assumes "upsertRecord e s = (r, t)"
  shows "only_faults s t \<and> r \<noteq> Inr () \<or> only_faults (upd_access (apply_event e) s) t \<and> r = Inr ()"
proof -
  let ?f = "first_record (ev_SourceIP e) (ev_Port e)"
  obtain q u where q: "query Conn ?f s = (q, u)" by (cases "query Conn ?f s")
  from query_Conn_cases [OF q] obtain fs where u: "u = s\<lparr>faults := fs\<rparr>" and c: "(\<exists>e. q = Inl e) \<or> q = ?f (pdb s)" by blast
  show ?thesis
  proof (cases q)
    case (Inl err)
    show ?thesis
    proof (cases "err = NotFound")
      case True
      with assms q Inl u have "stmt Conn (create_record (new_record e)) (s\<lparr>faults := fs\<rparr>) = (r, t)"
        by (simp add: upsertRecord_def andThen_run attempt_run)
      from stmt_Conn_cases [OF this] show ?thesis
        by (cases "find (record_for (ev_SourceIP e) (ev_Port e)) (tbl_access (pdb s))")
          (auto simp: only_faults_def upd_access_def create_record_event)
    next
      case False
      with assms q Inl u show ?thesis by (auto simp: upsertRecord_def andThen_run attempt_run only_faults_def)
    qed
  next
    case (Inr x)
    with c have f: "find (record_for (ev_SourceIP e) (ev_Port e)) (tbl_access (pdb s)) = Some x"
      by (auto simp: first_record_def split: option.splits)
    from Inr assms q u have "stmt Conn (save_record (bump_record e x)) (s\<lparr>faults := fs\<rparr>) = (r, t)"
      by (simp add: upsertRecord_def andThen_run attempt_run)
    from stmt_Conn_cases [OF this] f show ?thesis
      by (auto simp: only_faults_def upd_access_def save_record_event)
  qed
qed

section \<open>The lines of the log\<close>

lemma only_faults_iff: "only_faults s t \<longleftrightarrow> t = s\<lparr>faults := faults t\<rparr>"
  by (cases s; cases t) (auto simp: only_faults_def)

lemma only_faults_trans: "only_faults s t \<Longrightarrow> only_faults t u \<Longrightarrow> only_faults s u"
  by (simp add: only_faults_def)

lemma only_faults_upd: "only_faults s t \<Longrightarrow> only_faults (upd_access f s) (upd_access f t)"
  by (cases s; cases t) (simp add: only_faults_def upd_access_def)

lemma only_faults_world: "only_faults s t \<Longrightarrow> world t = world s \<and> pdb t = pdb s \<and> files t = files s \<and> ptx t = ptx s"
  by (cases s; cases t) (simp add: only_faults_def)

lemma outside_only: "outside s = (r, t) \<Longrightarrow> only_faults s t"
  using outside_faults [of s] by (auto simp: only_faults_def)

definition log_events :: "(int \<Rightarrow> int \<times> int \<times> int) \<Rightarrow> string list \<Rightarrow> access_event list" where
  "log_events zone = List.map_filter (parseAccessIPLine zone)"

lemma log_events_simps: "log_events zone [] = []"
    "log_events zone (l # ls) = (case parseAccessIPLine zone l of None \<Rightarrow> [] | Some e \<Rightarrow> [e]) @ log_events zone ls"
  by (simp_all add: log_events_def map_filter_simps split: option.split)

lemma log_events_append: "log_events zone (ls @ ms) = log_events zone ls @ log_events zone ms"
  by (induction ls) (simp_all add: log_events_simps)

definition applied :: "access_event list \<Rightarrow> panel \<Rightarrow> panel \<Rightarrow> bool" where
  "applied es s t \<longleftrightarrow> only_faults (upd_access (fold apply_event es) s) t"

lemma applied_Nil: "applied [] s t \<longleftrightarrow> only_faults s t"
  by (simp add: applied_def upd_access_id id_def)

lemma applied_Cons: "applied [e] s u \<Longrightarrow> applied es u t \<Longrightarrow> applied (e # es) s t"
proof -
  assume "applied [e] s u" and t: "applied es u t"
  then have "only_faults (upd_access (fold apply_event es) (upd_access (apply_event e) s)) (upd_access (fold apply_event es) u)"
    by (intro only_faults_upd) (simp add: applied_def)
  with t show ?thesis by (auto simp: applied_def upd_access_comp comp_def intro: only_faults_trans)
qed

lemma process_lines_Cons: "for_each process_line (l # ls) s = (case parseAccessIPLine (w_zone (world s)) l of
    None \<Rightarrow> for_each process_line ls s | Some e \<Rightarrow> andThen (upsertRecord e) (\<lambda>_. for_each process_line ls) s)"
  by (simp add: process_line_def [of l] andThen_run split: option.split)

lemma process_lines_run:
  assumes "for_each process_line ls s = (r, t)"
  shows "\<exists>es rest. log_events (w_zone (world s)) ls = es @ rest \<and> applied es s t \<and> (r = Inr () \<longrightarrow> rest = [])"
  using assms
proof (induction ls arbitrary: s)
  case Nil
  then show ?case by (simp add: log_events_simps applied_Nil only_faults_def)
next
  case (Cons l ls)
  let ?z = "w_zone (world s)"
  show ?case
  proof (cases "parseAccessIPLine ?z l")
    case None
    with Cons.prems have "for_each process_line ls s = (r, t)" by (simp add: process_lines_Cons andThen_run del: for_each.simps)
    from Cons.IH [OF this] None show ?thesis by (simp add: log_events_simps)
  next
    case (Some e)
    obtain q u where q: "upsertRecord e s = (q, u)" by (cases "upsertRecord e s")
    note up = upsertRecord_run [OF q]
    show ?thesis
    proof (cases q)
      case (Inl x)
      with Cons.prems Some q have "r = Inl x" "t = u" by (simp_all add: process_lines_Cons andThen_run del: for_each.simps)
      with up Inl show ?thesis
        by (intro exI [of _ "[]"] exI [of _ "log_events ?z (l # ls)"]) (simp add: applied_Nil)
    next
      case (Inr x)
      with up have u: "applied [e] s u" by (simp add: applied_def)
      then have w: "world u = world s" by (auto simp: applied_def dest: only_faults_world)
      from Cons.prems Some q Inr have "for_each process_line ls u = (r, t)"
        by (simp add: process_lines_Cons andThen_run del: for_each.simps)
      from Cons.IH [OF this] w obtain es rest where
        es: "log_events ?z ls = es @ rest" "applied es u t" "r = Inr () \<longrightarrow> rest = []" by auto
      from es u Some show ?thesis
        by (intro exI [of _ "e # es"] exI [of _ rest]) (simp add: log_events_simps applied_Cons)
    qed
  qed
qed

text \<open>Where nothing fails every event is applied.\<close>

lemma process_lines_calm: "faults s = [] \<Longrightarrow>
    for_each process_line ls s = (Inr (), upd_access (fold apply_event (log_events (w_zone (world s)) ls)) s)"
proof (induction ls arbitrary: s)
  case Nil
  then show ?case by (simp add: log_events_simps upd_access_id id_def)
next
  case (Cons l ls)
  then show ?case
    by (cases "parseAccessIPLine (w_zone (world s)) l")
      (simp_all add: process_lines_Cons andThen_run log_events_simps upsertRecord_calm upd_access_comp comp_def
        del: for_each.simps)
qed

section \<open>The state file is read back\<close>

lemma read_value_Itoa:
  assumes "value_end r"
  shows "read_value (Itoa n @ r) = Some (mk_num n 0, r)"
proof -
  obtain c t where ct: "Itoa n = c # t" "c = CHR ''-'' \<or> is_digit c" using Itoa_head by blast
  then have "\<not> is_ws c" "c \<notin> set [quote_ch, CHR ''{'', CHR ''['', CHR ''n'', CHR ''t'', CHR ''f'']"
    by (auto simp: is_ws_def is_digit_def)
  then have "read_value ((c # t) @ r) = read_number ((c # t) @ r)"
    by (subst read_value.simps) (simp add: skip_ws_id HasPrefix_def)
  with read_number_Itoa [OF value_end_number_end [OF assms], of n] show ?thesis by (simp add: ct(1))
qed

lemma offset_name: "read_string (''offset\":'' @ r) = Some (''offset'', CHR '':'' # r)"
proof -
  have "valid_utf8 ''offset''" "print_body ''offset'' = ''offset''" by code_simp+
  with read_string_print [of "''offset''" "CHR '':'' # r"] show ?thesis by simp
qed

lemma decode_state_text:
  assumes "in_int64 n"
  shows "decode_state (state_text n) = Inr n"
proof -
  let ?m = "CHR 0x22 # ''offset\":'' @ Itoa n @ ''}''"
  have ws: "\<not> is_ws (CHR ''{'')" "\<not> is_ws (CHR 0x22)" "\<not> is_ws (CHR '':'')" "\<not> is_ws (CHR ''}'')"
    by (simp_all add: is_ws_def)
  have v: "read_value (Itoa n @ ''}'') = Some (mk_num n 0, ''}'')"
    by (rule read_value_Itoa) (simp add: value_end_def)
  obtain c t where ct: "Itoa n = c # t" "c = CHR ''-'' \<or> is_digit c" using Itoa_head by blast
  then have nws: "\<not> is_ws c" by (auto simp: is_ws_def is_digit_def)
  have mem: "read_members ?m = Some ([(''offset'', mk_num n 0)], [])"
    using offset_name [of "Itoa n @ ''}''"] v
    by (subst read_members.simps) (simp add: skip_ws_id ws)
  have "read_value (state_text n) = Some (JObj [(''offset'', mk_num n 0)], [])"
    using mem by (subst read_value.simps) (simp add: state_text_def skip_ws_id ws)
  then have p: "parse_json (state_text n) = Some (JObj [(''offset'', mk_num n 0)])"
    by (simp add: parse_json_def skip_ws_def)
  have rv: "raw_value (Itoa n @ ''}'') = Some (Itoa n, ''}'')"
    using v by (simp add: raw_value_def ct(1) skip_ws_id nws)
  have "raw_members ?m = Some [(''offset'', Itoa n)]"
    using offset_name [of "Itoa n @ ''}''"] rv
    by (subst raw_members.simps) (simp add: skip_ws_id ws)
  with p have r: "raw_object (state_text n) = Some [(''offset'', Itoa n)]"
    by (simp add: raw_object_def state_text_def skip_ws_id ws)
  have "Itoa n \<noteq> ''null''" using ct by (auto simp: is_digit_def)
  with assms r show ?thesis
    by (simp add: decode_state_def raw_vals_def EqualFold_refl ParseInt64_Itoa)
qed

lemma state_text_not_blank: "TrimSpace (state_text n) \<noteq> []"
proof -
  have "TrimSpace (state_text n) = state_text n"
    by (rule TrimSpace_graphic) (auto simp: state_text_def graphic_def)
  then show ?thesis by (simp add: state_text_def)
qed

section \<open>A run in which nothing fails\<close>

definition saved_offset :: "files \<Rightarrow> int res" where
  "saved_offset fs = (case fs xrayAccessIPStatePath of
       None \<Rightarrow> Inr 0
     | Some data \<Rightarrow> if TrimSpace data = [] then Inr 0 else decode_state data)"

definition with_state :: "int \<Rightarrow> files \<Rightarrow> files" where
  "with_state n fs = fs(xrayAccessIPStatePath \<mapsto> state_text n, xrayAccessIPStatePath @ ''.tmp'' := None)"

definition with_summary :: "(int \<Rightarrow> int \<times> int \<times> int) \<Rightarrow> database \<Rightarrow> files \<Rightarrow> files" where
  "with_summary zone d fs = fs(xrayAccessIPSummary \<mapsto> concat (map (summary_line zone) (by_last_seen d)),
     xrayAccessIPSummary @ ''.tmp'' := None)"

lemma paths_apart: "distinct [xrayAccessIPStatePath, xrayAccessIPStatePath @ ''.tmp'', xrayAccessIPSummary,
    xrayAccessIPSummary @ ''.tmp'', xrayAccessLogPath]"
  by code_simp

lemma loadState_calm: "faults s = [] \<Longrightarrow> loadState s = (saved_offset (files s), s)"
  by (auto simp: loadState_def read_file_def andThen_run saved_offset_def split: option.split sum.split)

lemma write_file_calm: "faults s = [] \<Longrightarrow> write_file p c s = (Inr (), s\<lparr>files := (files s)(p \<mapsto> c)\<rparr>)"
  by (simp add: write_file_def andThen_run)

lemma rename_file_calm: "faults s = [] \<Longrightarrow> rename_file p q s = (Inr (), s\<lparr>files := (files s)(q := files s p, p := None)\<rparr>)"
  by (simp add: rename_file_def andThen_run)

lemma saveState_calm: "faults s = [] \<Longrightarrow> saveState n s = (Inr (), s\<lparr>files := with_state n (files s)\<rparr>)"
  using paths_apart
  by (simp add: saveState_def andThen_run write_file_calm rename_file_calm with_state_def fun_eq_iff)

lemma append_all_calm: "faults s = [] \<Longrightarrow> files s p = Some old \<Longrightarrow>
    for_each (\<lambda>r. append_file p (f r)) rs s = (Inr (), s\<lparr>files := (files s)(p \<mapsto> old @ concat (map f rs))\<rparr>)"
proof (induction rs arbitrary: s old)
  case Nil
  then show ?case by (simp add: fun_upd_idem)
next
  case (Cons r rs)
  let ?u = "s\<lparr>files := (files s)(p \<mapsto> old @ f r)\<rparr>"
  from Cons have "append_file p (f r) s = (Inr (), ?u)" by (simp add: append_file_def andThen_run)
  with Cons.IH [of ?u "old @ f r"] Cons.prems show ?case by (simp add: andThen_run fun_upd_def cong: if_cong)
qed

lemma dumpSummary_calm: "faults s = [] \<Longrightarrow>
    dumpSummary s = (Inr (), s\<lparr>files := with_summary (w_zone (world s)) (pdb s) (files s)\<rparr>)"
  using paths_apart
  by (simp add: dumpSummary_def andThen_run write_file_calm append_all_calm rename_file_calm with_summary_def fun_eq_iff)

definition aggregation_on :: "panel \<Rightarrow> bool" where
  "aggregation_on s \<longleftrightarrow> (case setting_value (tbl_settings (pdb s)) aggregationEnabledKey of
       None \<Rightarrow> True | Some v \<Rightarrow> parse_switch v True = Inr True)"

text \<open>The part of a log behind an offset; a log shorter than the offset was truncated and is new.\<close>

definition new_part :: "int \<Rightarrow> string \<Rightarrow> string" where
  "new_part offset log = (if int (length log) < offset then log else drop (nat offset) log)"

definition log_done :: "string \<Rightarrow> int \<Rightarrow> panel \<Rightarrow> panel" where
  "log_done log offset s =
     (let z = w_zone (world s); t = upd_access (fold apply_event (log_events z (fst (scan_lines (new_part offset log))))) s
      in t\<lparr>files := with_summary z (pdb t) (with_state (int (length log)) (files s))\<rparr>)"

lemma read_log_calm:
  assumes "faults s = []" and "0 \<le> offset" and "\<not> snd (scan_lines (new_part offset log))"
  shows "read_log log offset s
    = (Inr (), upd_access (fold apply_event (log_events (w_zone (world s)) (fst (scan_lines (new_part offset log))))) s)"
  using assms
  by (cases "int (length log) < offset") (simp_all add: read_log_def andThen_run process_lines_calm new_part_def)

lemma ProcessAccessLog_calm:
  assumes "faults s = []" and "aggregation_on s" and "saved_offset (files s) = Inr offset" and "0 \<le> offset"
    and "files s xrayAccessLogPath = Some log" and "\<not> snd (scan_lines (new_part offset log))"
  shows "ProcessAccessLog s = (Inr (), log_done log offset s)"
proof -
  have "IsAggregationEnabled s = (Inr True, s)"
    using assms(1,2) by (auto simp: IsAggregationEnabled_def getBoolSetting_calm aggregation_on_def split: option.splits)
  with assms show ?thesis
    by (simp add: ProcessAccessLog_def andThen_run loadState_calm read_file_def read_log_calm saveState_calm
        dumpSummary_calm log_done_def Let_def)
qed

section \<open>Reading in pieces\<close>

definition ends_line :: "string \<Rightarrow> bool" where
  "ends_line s \<longleftrightarrow> s = [] \<or> last s = CHR 0x0A"

lemma takeWhile_shorter: "x \<in> set s \<Longrightarrow> \<not> P x \<Longrightarrow> length (takeWhile P s) < length s"
  by (induction s) auto

lemma scan_append:
  assumes "ends_line a" and "\<not> snd (scan_lines a)"
  shows "scan_lines (a @ b) = (fst (scan_lines a) @ fst (scan_lines b), snd (scan_lines b))"
  using assms
proof (induction a rule: scan_lines.induct)
  case (1 s)
  show ?case
  proof (cases "s = []")
    case True
    then show ?thesis by (simp add: scan_lines.simps [of "[]"])
  next
    case False
    let ?l = "head_line s" and ?r = "drop (Suc (length (head_line s))) s"
    have nl: "CHR 0x0A \<in> set s" using 1(2) False last_in_set [of s] by (auto simp: ends_line_def)
    then have h: "head_line (s @ b) = ?l" by (simp add: head_line_def)
    have "length ?l < length s"
      using nl unfolding head_line_def by (rule takeWhile_shorter) simp
    then have d: "drop (Suc (length ?l)) (s @ b) = ?r @ b" by simp
    have e: "ends_line ?r"
      using 1(2) by (cases "Suc (length ?l) < length s") (auto simp: ends_line_def last_drop)
    have fits: "\<not> max_token \<le> length ?l"
      using 1(3) False by (auto simp: scan_lines.simps [of s] Let_def split: if_splits)
    with 1(3) False have "\<not> snd (scan_lines ?r)"
      by (auto simp: scan_lines.simps [of s] Let_def split: prod.splits)
    from 1(1) [OF False refl fits e this] False fits show ?thesis
      by (simp add: scan_lines.simps [of s] scan_lines.simps [of "s @ b"] h d Let_def case_prod_beta del: drop_append)
  qed
qed

lemma log_pieces:
  assumes calm: "faults s = []" and on: "aggregation_on s" and o': "saved_offset (files s) = Inr offset" "0 \<le> offset"
    and a: "files s xrayAccessLogPath = Some a" "offset \<le> int (length a)" "in_int64 (int (length a))"
    and lines: "ends_line (drop (nat offset) a)" "\<not> snd (scan_lines (drop (nat offset) a))" "\<not> snd (scan_lines b)"
  shows "ProcessAccessLog s = (Inr (), log_done a offset s)
    \<and> ProcessAccessLog ((log_done a offset s)\<lparr>files := (files (log_done a offset s))(xrayAccessLogPath \<mapsto> a @ b)\<rparr>)
      = ProcessAccessLog (s\<lparr>files := (files s)(xrayAccessLogPath \<mapsto> a @ b)\<rparr>)"
proof -
  let ?z = "w_zone (world s)" and ?n = "nat offset"
  let ?s1 = "log_done a offset s"
  let ?s2 = "?s1\<lparr>files := (files ?s1)(xrayAccessLogPath \<mapsto> a @ b)\<rparr>"
  let ?s' = "s\<lparr>files := (files s)(xrayAccessLogPath \<mapsto> a @ b)\<rparr>"
  let ?ea = "log_events ?z (fst (scan_lines (drop ?n a)))" and ?eb = "log_events ?z (fst (scan_lines b))"
  have pa: "new_part offset a = drop ?n a" using a(2) by (simp add: new_part_def)
  have pab: "new_part offset (a @ b) = drop ?n a @ b" using a(2) o'(2) by (simp add: new_part_def)
  have pb: "new_part (int (length a)) (a @ b) = b" by (simp add: new_part_def)
  note sc = scan_append [OF lines(1,2), of b]
  have 1: "ProcessAccessLog s = (Inr (), ?s1)"
    by (rule ProcessAccessLog_calm) (use calm on o' a lines pa in auto)
  have st: "files ?s1 = with_summary ?z (pdb ?s1) (with_state (int (length a)) (files s))"
    "faults ?s1 = []" "world ?s1 = world s" "tbl_settings (pdb ?s1) = tbl_settings (pdb s)"
    using calm by (simp_all add: log_done_def Let_def)
  then have "saved_offset (files ?s2) = Inr (int (length a))"
    using paths_apart a(3)
    by (simp add: saved_offset_def with_summary_def with_state_def decode_state_text state_text_not_blank)
  then have 2: "ProcessAccessLog ?s2 = (Inr (), log_done (a @ b) (int (length a)) ?s2)"
    by (intro ProcessAccessLog_calm) (use st on lines pb in \<open>simp_all add: aggregation_on_def\<close>)
  have "saved_offset (files ?s') = Inr offset"
    using o' paths_apart by (simp add: saved_offset_def)
  then have 3: "ProcessAccessLog ?s' = (Inr (), log_done (a @ b) offset ?s')"
    by (intro ProcessAccessLog_calm) (use calm on o' lines pab sc in \<open>simp_all add: aggregation_on_def\<close>)
  have "log_done (a @ b) (int (length a)) ?s2 = log_done (a @ b) offset ?s'"
    using paths_apart
    by (simp add: log_done_def Let_def pa pb pab sc log_events_append upd_access_def with_summary_def with_state_def
        fun_eq_iff)
  with 1 2 3 show ?thesis by simp
qed

section \<open>A run under failures\<close>

text \<open>The state file and the database, which everything but \<open>saveState\<close> and the upserts leaves.\<close>

definition at_state :: "string option \<Rightarrow> database \<Rightarrow> world \<Rightarrow> panel \<Rightarrow> bool" where
  "at_state v d w s \<longleftrightarrow> files s xrayAccessIPStatePath = v \<and> pdb s = d \<and> world s = w"

named_theorems at_frame "actions that leave the state file and the database"

lemma at_outside [at_frame]: "keeps (at_state v d w) outside"
  by (rule keeps_outside_gen) (simp add: at_state_def)

lemma at_query [at_frame]: "keeps (at_state v d w) (query Conn f)"
  by (auto simp: keeps_def query_def stmt_def andThen_run outside_run on_handle_def at_state_def split: list.split option.split)

lemma at_on_world [at_frame]: "keeps (at_state v d w) (on_world f)"
  by (rule keeps_on_world)

lemma at_read [at_frame]: "keeps (at_state v d w) (read_file p)"
  unfolding read_file_def by (intro keeps_intro at_frame)

lemma at_write [at_frame]: "p \<noteq> xrayAccessIPStatePath \<Longrightarrow> keeps (at_state v d w) (write_file p c)"
  unfolding write_file_def by (intro keeps_intro at_frame) (simp add: keeps_def at_state_def)

lemma at_append [at_frame]: "p \<noteq> xrayAccessIPStatePath \<Longrightarrow> keeps (at_state v d w) (append_file p c)"
  unfolding append_file_def by (intro keeps_intro at_frame) (simp add: keeps_def at_state_def)

lemma at_rename [at_frame]: "p \<noteq> xrayAccessIPStatePath \<Longrightarrow> q \<noteq> xrayAccessIPStatePath \<Longrightarrow>
    keeps (at_state v d w) (rename_file p q)"
  unfolding rename_file_def by (intro keeps_intro at_frame) (simp add: keeps_def at_state_def)

lemma summary_paths: "xrayAccessIPSummary \<noteq> xrayAccessIPStatePath" "xrayAccessIPSummary @ ''.tmp'' \<noteq> xrayAccessIPStatePath"
    "xrayAccessIPStatePath @ ''.tmp'' \<noteq> xrayAccessIPStatePath"
  using paths_apart by auto

lemma at_dumpSummary [at_frame]: "keeps (at_state v d w) dumpSummary"
  unfolding dumpSummary_def by (intro keeps_intro at_frame summary_paths)

lemma at_loadState [at_frame]: "keeps (at_state v d w) loadState"
  unfolding loadState_def by (intro keeps_intro at_frame)

lemma at_enabled [at_frame]: "keeps (at_state v d w) IsAggregationEnabled"
  unfolding IsAggregationEnabled_def getBoolSetting_def getSetting_def by (intro keeps_intro at_frame)

lemma at_keep: "(\<And>v d w. keeps (at_state v d w) m) \<Longrightarrow> m s = (r, t) \<Longrightarrow>
    files t xrayAccessIPStatePath = files s xrayAccessIPStatePath \<and> pdb t = pdb s \<and> world t = world s"
  using keepsD_eq [of "at_state (files s xrayAccessIPStatePath) (pdb s) (world s)" m s r t] by (simp add: at_state_def)

lemma at_applied: "applied es s t \<Longrightarrow> files t = files s \<and> pdb t = pdb (upd_access (fold apply_event es) s) \<and> world t = world s"
  by (drule only_faults_world [of "upd_access (fold apply_event es) s", folded applied_def]) simp

lemma saveState_run:
  assumes "saveState n s = (r, t)"
  shows "pdb t = pdb s \<and> world t = world s \<and> (files t xrayAccessIPStatePath = files s xrayAccessIPStatePath \<and> r \<noteq> Inr ()
    \<or> files t xrayAccessIPStatePath = Some (state_text n) \<and> r = Inr ())"
proof -
  let ?tmp = "xrayAccessIPStatePath @ ''.tmp''"
  obtain q u where q: "outside s = (q, u)" by (cases "outside s")
  note f1 = at_keep [OF at_outside q]
  obtain q2 u2 where q2: "write_file ?tmp (state_text n) u = (q2, u2)" by (cases "write_file ?tmp (state_text n) u")
  note f2 = at_keep [OF at_write [OF summary_paths(3)] q2]
  have c2: "q2 = Inr () \<Longrightarrow> files u2 ?tmp = Some (state_text n)"
    using q2 by (auto simp: write_file_def andThen_Inr)
  obtain q3 u3 where q3: "outside u2 = (q3, u3)" by (cases "outside u2")
  note f3 = at_keep [OF at_outside q3]
  have c3: "files u3 = files u2" using outside_only [OF q3] by (auto dest: only_faults_world)
  from assms q q2 q3 f1 f2 f3 c2 c3 summary_paths(3) show ?thesis
    by (cases q; cases q2; cases q3) (auto simp: saveState_def andThen_run rename_file_def)
qed

lemma only_outside: "keeps (only_faults s) outside"
  by (rule keeps_outside_gen) (simp add: only_faults_def)

lemma only_query: "keeps (only_faults s) (query Conn f)"
  by (auto simp: keeps_def query_def stmt_def andThen_run outside_run on_handle_def only_faults_def split: list.split option.split)

lemma only_reads: "keeps (only_faults s) IsAggregationEnabled" "keeps (only_faults s) loadState"
    "keeps (only_faults s) (read_file p)"
  unfolding IsAggregationEnabled_def getBoolSetting_def getSetting_def loadState_def read_file_def
  by (intro keeps_intro only_outside only_query)+

lemma only_run: "keeps (only_faults s) m \<Longrightarrow> m s = (r, t) \<Longrightarrow> only_faults s t"
  by (erule (1) keepsD_eq) (simp add: only_faults_def)

lemma read_file_Inr: "read_file p s = (Inr c, t) \<Longrightarrow> c = files s p"
  using outside_only by (fastforce simp: read_file_def andThen_Inr dest: only_faults_world)

lemma loadState_Inr: "loadState s = (Inr offset, t) \<Longrightarrow> saved_offset (files s) = Inr offset"
proof -
  assume l: "loadState s = (Inr offset, t)"
  then obtain c u where c: "read_file xrayAccessIPStatePath s = (Inr c, u)" by (auto simp: loadState_def andThen_Inr)
  with l read_file_Inr [OF c] show ?thesis
    by (auto simp: loadState_def andThen_run saved_offset_def lift_res_Inr split: option.splits if_splits)
qed

definition log_post :: "string \<Rightarrow> int \<Rightarrow> panel \<Rightarrow> unit res \<Rightarrow> panel \<Rightarrow> access_event list \<Rightarrow> access_event list \<Rightarrow> bool" where
  "log_post log offset s r t es rest \<longleftrightarrow>
     es @ rest = log_events (w_zone (world s)) (fst (scan_lines (new_part offset log)))
     \<and> pdb t = pdb (upd_access (fold apply_event es) s)
     \<and> (rest = [] \<and> files t xrayAccessIPStatePath = Some (state_text (int (length log)))
        \<or> files t xrayAccessIPStatePath = files s xrayAccessIPStatePath \<and> (r = Inr () \<longrightarrow> es = [] \<and> \<not> aggregation_on s))"

definition read_tail :: "string list \<times> bool \<Rightarrow> (panel, unit) act" where
  "read_tail sc = andThen (for_each process_line (fst sc)) (\<lambda>_.
     andThen (reject (snd sc) (Err ''bufio.Scanner: token too long'')) (\<lambda>_. andThen outside (\<lambda>_. outside)))"

lemma read_log_split: "read_log log offset s = (if offset < 0 then (Inl (ExtErr ''seek: invalid argument''), s)
    else case outside s of (Inl e, u) \<Rightarrow> (Inl e, u) | (Inr x, u) \<Rightarrow> read_tail (scan_lines (new_part offset log)) u)"
  by (cases "int (length log) < offset"; cases "outside s")
    (auto simp: read_log_def read_tail_def new_part_def andThen_run Let_def split: sum.split)

lemma read_tail_run:
  assumes "read_tail sc s = (r, t)"
  shows "\<exists>es rest. es @ rest = log_events (w_zone (world s)) (fst sc) \<and> applied es s t \<and> (r = Inr () \<longrightarrow> rest = [])"
proof -
  obtain q v where q: "for_each process_line (fst sc) s = (q, v)" by (cases "for_each process_line (fst sc) s")
  from process_lines_run [OF q] obtain es rest where
    e: "log_events (w_zone (world s)) (fst sc) = es @ rest" "applied es s v" "q = Inr () \<longrightarrow> rest = []" by blast
  have "only_faults v t \<and> (r = Inr () \<longrightarrow> q = Inr ())"
  proof (cases q)
    case (Inl x)
    with assms q show ?thesis by (auto simp: read_tail_def andThen_run only_faults_def)
  next
    case (Inr x)
    with assms q have "(andThen (reject (snd sc) (Err ''bufio.Scanner: token too long''))
        (\<lambda>_. andThen outside (\<lambda>_. outside))) v = (r, t)" by (simp add: read_tail_def andThen_run)
    moreover have "keeps (only_faults v) (andThen (reject (snd sc) (Err ''bufio.Scanner: token too long''))
        (\<lambda>_. andThen outside (\<lambda>_. outside)))" by (intro keeps_intro only_outside)
    ultimately have "only_faults v t" by (intro only_run)
    with Inr show ?thesis by simp
  qed
  with e show ?thesis by (intro exI [of _ es] exI [of _ rest]) (auto simp: applied_def intro: only_faults_trans)
qed

lemma read_log_run:
  assumes "read_log log offset s = (r, t)"
  shows "\<exists>es rest. es @ rest = log_events (w_zone (world s)) (fst (scan_lines (new_part offset log)))
     \<and> applied es s t \<and> (r = Inr () \<longrightarrow> rest = [])"
proof -
  let ?all = "log_events (w_zone (world s)) (fst (scan_lines (new_part offset log)))"
  obtain q u where q: "outside s = (q, u)" by (cases "outside s")
  note ou = outside_only [OF q]
  show ?thesis
  proof (cases "offset < 0 \<or> (\<exists>e. q = Inl e)")
    case True
    with assms q ou have "only_faults s t \<and> r \<noteq> Inr ()"
      by (auto simp: read_log_split only_faults_def split: if_splits)
    then show ?thesis by (intro exI [of _ "[]"] exI [of _ ?all]) (simp add: applied_Nil)
  next
    case False
    with assms q have "read_tail (scan_lines (new_part offset log)) u = (r, t)"
      by (cases q) (auto simp: read_log_split)
    from read_tail_run [OF this] only_faults_world [OF ou] obtain es rest where
      e: "es @ rest = ?all" "applied es u t" "r = Inr () \<longrightarrow> rest = []" by auto
    have "applied es s t" using e(2) only_faults_upd [OF ou] by (auto simp: applied_def intro: only_faults_trans)
    with e show ?thesis by blast
  qed
qed

lemma disabled_off: "IsAggregationEnabled s = (Inr False, t) \<Longrightarrow> \<not> aggregation_on s"
proof -
  assume e: "IsAggregationEnabled s = (Inr False, t)"
  obtain q u where q: "getSetting aggregationEnabledKey s = (q, u)" by (cases "getSetting aggregationEnabledKey s")
  from query_Conn_cases [of "first_setting aggregationEnabledKey" s q u] q
  have "(\<exists>x. q = Inl x) \<or> q = first_setting aggregationEnabledKey (pdb s)" by (auto simp: getSetting_def)
  with e q show ?thesis
    by (auto simp: IsAggregationEnabled_def getBoolSetting_def andThen_run attempt_run aggregation_on_def
        first_setting_def setting_value_def lift_res_Inr split: option.splits if_splits)
qed

lemma log_tail_run:
  assumes run: "andThen (read_log log offset) (\<lambda>_. andThen (saveState (int (length log))) (\<lambda>_. dumpSummary)) s4 = (r, t)"
    and o4: "only_faults s s4"
  shows "\<exists>es rest. log_post log offset s r t es rest"
proof -
  obtain q5 s5 where q5: "read_log log offset s4 = (q5, s5)" by (cases "read_log log offset s4")
  from read_log_run [OF q5] only_faults_world [OF o4] obtain es rest where
    e: "es @ rest = log_events (w_zone (world s)) (fst (scan_lines (new_part offset log)))"
      "applied es s4 s5" "q5 = Inr () \<longrightarrow> rest = []" by auto
  have "applied es s s5" using e(2) only_faults_upd [OF o4] by (auto simp: applied_def intro: only_faults_trans)
  note at5 = at_applied [OF this]
  show ?thesis
  proof (cases q5)
    case (Inl x)
    with run q5 at5 e show ?thesis
      by (intro exI [of _ es] exI [of _ rest]) (auto simp: andThen_run log_post_def)
  next
    case (Inr x)
    obtain q6 s6 where q6: "saveState (int (length log)) s5 = (q6, s6)" by (cases "saveState (int (length log)) s5")
    have "pdb t = pdb s6 \<and> files t xrayAccessIPStatePath = files s6 xrayAccessIPStatePath \<and> (r = Inr () \<longrightarrow> q6 = Inr ())"
      using run q5 Inr q6 by (cases q6) (auto simp: andThen_run dest: at_keep [OF at_dumpSummary])
    with saveState_run [OF q6] at5 e Inr show ?thesis
      by (intro exI [of _ es] exI [of _ rest]) (auto simp: log_post_def)
  qed
qed

lemma ProcessAccessLog_run:
  assumes run: "ProcessAccessLog s = (r, t)" and log: "files s xrayAccessLogPath = Some log"
    and off: "saved_offset (files s) = Inr offset"
  shows "\<exists>es rest. log_post log offset s r t es rest"
proof -
  let ?all = "log_events (w_zone (world s)) (fst (scan_lines (new_part offset log)))"
  have idle: "\<exists>es rest. log_post log offset s r t es rest" if "only_faults s t" "r = Inr () \<longrightarrow> \<not> aggregation_on s"
    using that only_faults_world [OF that(1)]
    by (intro exI [of _ "[]"] exI [of _ ?all]) (auto simp: log_post_def upd_access_def)
  obtain q1 s1 where q1: "IsAggregationEnabled s = (q1, s1)" by (cases "IsAggregationEnabled s")
  note o1 = only_run [OF only_reads(1) q1]
  show ?thesis
  proof (cases "q1 = Inr True")
    case False
    then have "only_faults s t \<and> (r = Inr () \<longrightarrow> \<not> aggregation_on s)"
      using run q1 o1 disabled_off by (cases q1) (auto simp: ProcessAccessLog_def andThen_run)
    then show ?thesis using idle by blast
  next
    case True
    obtain q2 s2 where q2: "loadState s1 = (q2, s2)" by (cases "loadState s1")
    have o2: "only_faults s s2" by (rule only_faults_trans [OF o1 only_run [OF only_reads(2) q2]])
    show ?thesis
    proof (cases q2)
      case (Inl e)
      with run q1 True q2 o2 have "only_faults s t \<and> r \<noteq> Inr ()" by (auto simp: ProcessAccessLog_def andThen_run)
      then show ?thesis using idle by blast
    next
      case (Inr off')
      with loadState_Inr [of s1] q2 off only_faults_world [OF o1] have off': "off' = offset" by auto
      obtain q3 s3 where q3: "read_file xrayAccessLogPath s2 = (q3, s3)" by (cases "read_file xrayAccessLogPath s2")
      have o3: "only_faults s s3" by (rule only_faults_trans [OF o2 only_run [OF only_reads(3) q3]])
      obtain q4 s4 where q4: "outside s3 = (q4, s4)" by (cases "outside s3")
      have o4: "only_faults s s4" by (rule only_faults_trans [OF o3 outside_only [OF q4]])
      show ?thesis
      proof (cases "(\<exists>e. q3 = Inl e) \<or> (\<exists>e. q4 = Inl e)")
        case True
        with run q1 \<open>q1 = Inr True\<close> q2 Inr q3 q4 o3 o4 log read_file_Inr [of xrayAccessLogPath s2] only_faults_world [OF o2]
        have "only_faults s t \<and> r \<noteq> Inr ()"
          by (cases q3) (auto simp: ProcessAccessLog_def andThen_run split: option.splits)
        then show ?thesis using idle by blast
      next
        case False
        with read_file_Inr [of xrayAccessLogPath s2] q3 log only_faults_world [OF o2] have q3': "q3 = Inr (Some log)"
          by (cases q3) auto
        from False have q4': "q4 = Inr ()" by (cases q4) auto
        from run q1 True q2 Inr q3 q3' q4 q4' off'
        have "andThen (read_log log offset) (\<lambda>_. andThen (saveState (int (length log))) (\<lambda>_. dumpSummary)) s4 = (r, t)"
          by (simp add: ProcessAccessLog_def andThen_run)
        then show ?thesis by (rule log_tail_run [OF _ o4])
      qed
    qed
  qed
qed

section \<open>Records count events\<close>

definition key_of :: "access_record \<Rightarrow> string \<times> int" where
  "key_of r = (ar_SourceIP r, ar_LastPort r)"

definition event_key :: "access_event \<Rightarrow> string \<times> int" where
  "event_key e = (ev_SourceIP e, ev_Port e)"

definition records_ok :: "access_record list \<Rightarrow> bool" where
  "records_ok t \<longleftrightarrow> ids_ok ar_Id t \<and> distinct (map key_of t) \<and> list_all (\<lambda>r. in_int64 (ar_HitCount r)) t"

text \<open>The abstract view: how often a source came through a port.\<close>

definition hits :: "access_record list \<Rightarrow> string \<times> int \<Rightarrow> int" where
  "hits t k = (case find (\<lambda>r. key_of r = k) t of None \<Rightarrow> 0 | Some r \<Rightarrow> ar_HitCount r)"

lemma record_for_key: "record_for ip port = (\<lambda>r. key_of r = (ip, port))"
  by (auto simp: record_for_def key_of_def fun_eq_iff)

definition counted :: "access_event \<Rightarrow> access_record list \<Rightarrow> access_record list" where
  "counted e t = (if event_key e \<in> key_of ` set t then map (\<lambda>r. if key_of r = event_key e then bump_record e r else r) t
     else t @ [(new_record e)\<lparr>ar_Id := next_id ar_Id t\<rparr>])"

lemma apply_event_counted: "records_ok t \<Longrightarrow> apply_event e t = counted e t"
proof -
  assume ok: "records_ok t"
  show ?thesis
  proof (cases "find (\<lambda>r. key_of r = event_key e) t")
    case None
    then have "find (record_for (ev_SourceIP e) (ev_Port e)) t = None" "event_key e \<notin> key_of ` set t"
      by (auto simp: record_for_key event_key_def find_None_iff)
    then show ?thesis by (simp add: apply_event_def counted_def)
  next
    case (Some r)
    then have r: "r \<in> set t" "key_of r = event_key e" by (auto simp: find_Some_iff)
    have inj: "inj_on ar_Id (set t)" "inj_on key_of (set t)"
      using ok by (auto simp: records_ok_def ids_ok_def strict_sorted_iff distinct_map)
    have "ar_Id x = ar_Id r \<longleftrightarrow> x = r" "key_of x = event_key e \<longleftrightarrow> x = r" if "x \<in> set t" for x
      using inj_on_eq_iff [OF inj(1) that r(1)] inj_on_eq_iff [OF inj(2) that r(1)] r(2) by simp_all
    then have "update_rows (\<lambda>x. ar_Id x = ar_Id r) (\<lambda>_. bump_record e r) t
        = map (\<lambda>x. if key_of x = event_key e then bump_record e x else x) t"
      by (simp add: update_rows_def)
    moreover have "event_key e \<in> key_of ` set t" using r by (metis image_eqI)
    ultimately have "update_rows (\<lambda>x. ar_Id x = ar_Id r) (\<lambda>_. bump_record e r) t = counted e t"
      by (simp add: counted_def)
    with Some show ?thesis by (simp add: apply_event_def record_for_key event_key_def)
  qed
qed

lemma bump_hits: "ar_HitCount (bump_record e r) = wrap64 (ar_HitCount r + 1)"
  by (simp add: bump_record_def)

lemma bump_same_key: "key_of r = event_key e \<Longrightarrow> key_of (bump_record e r) = key_of r"
  by (auto simp: key_of_def event_key_def bump_record_def)

lemma counted_keys: "map key_of (counted e t)
    = (if event_key e \<in> key_of ` set t then map key_of t else map key_of t @ [event_key e])"
  by (auto simp: counted_def bump_same_key) (simp add: key_of_def new_record_def event_key_def)

lemma find_map_key: "(\<And>r. key_of (g r) = key_of r) \<Longrightarrow>
    find (\<lambda>r. key_of r = k) (map g t) = map_option g (find (\<lambda>r. key_of r = k) t)"
  by (induction t) auto

lemma counted_hits: "hits (counted e t) k = (if k = event_key e then wrap64 (hits t k + 1) else hits t k)"
proof (cases "event_key e \<in> key_of ` set t")
  case True
  have "hits (map (\<lambda>r. if key_of r = event_key e then bump_record e r else r) t) k
      = (case find (\<lambda>r. key_of r = k) t of None \<Rightarrow> 0
         | Some r \<Rightarrow> if k = event_key e then wrap64 (ar_HitCount r + 1) else ar_HitCount r)"
  proof (cases "find (\<lambda>r. key_of r = k) t")
    case (Some r)
    then have "key_of r = k" by (auto simp: find_Some_iff)
    with Some show ?thesis by (subst hits_def, subst find_map_key) (auto simp: bump_same_key bump_hits)
  qed (subst hits_def, subst find_map_key, auto simp: bump_same_key)
  moreover have "k = event_key e \<Longrightarrow> find (\<lambda>r. key_of r = k) t \<noteq> None" using True by (auto simp: find_None_iff)
  ultimately show ?thesis using True by (auto simp: counted_def hits_def split: option.split)
next
  case False
  have n: "key_of ((new_record e)\<lparr>ar_Id := i\<rparr>) = event_key e" "ar_HitCount ((new_record e)\<lparr>ar_Id := i\<rparr>) = 1" for i
    by (simp_all add: key_of_def new_record_def event_key_def)
  have "find (\<lambda>r. key_of r = k) (t @ [x]) = (case find (\<lambda>r. key_of r = k) t of
      None \<Rightarrow> if key_of x = k then Some x else None | Some r \<Rightarrow> Some r)" for x
    by (induction t) auto
  moreover have "find (\<lambda>r. key_of r = event_key e) t = None" using False by (auto simp: find_None_iff image_iff)
  moreover have "wrap64 1 = 1" by code_simp
  ultimately show ?thesis using False by (auto simp: counted_def hits_def n split: option.split)
qed

lemma in_int64_1: "in_int64 1"
  by code_simp

lemma counted_ok: "records_ok t \<Longrightarrow> records_ok (counted e t)"
proof -
  assume ok: "records_ok t"
  have "ids_ok ar_Id (counted e t)"
  proof (cases "event_key e \<in> key_of ` set t")
    case True
    then have "map ar_Id (counted e t) = map ar_Id t" by (auto simp: counted_def)
    with ok show ?thesis by (simp add: records_ok_def ids_ok_def)
  next
    case False
    with ok access_rows.next_id_fresh show ?thesis
      by (auto simp: counted_def records_ok_def ids_ok_def sorted_wrt_append)
  qed
  moreover have "distinct (map key_of (counted e t))" using ok by (auto simp: counted_keys records_ok_def)
  moreover have "in_int64 (ar_HitCount r)" if "r \<in> set (counted e t)" for r
    using that ok in_int64_wrap64 in_int64_1
    by (auto simp: counted_def records_ok_def list_all_iff bump_record_def new_record_def split: if_splits)
  ultimately show ?thesis by (simp add: records_ok_def list_all_iff)
qed

lemma events_counted:
  assumes "records_ok t"
  shows "records_ok (fold apply_event es t)
    \<and> (\<forall>k. hits (fold apply_event es t) k = wrap64 (hits t k + int (length (filter (\<lambda>e. event_key e = k) es))))"
  using assms
proof (induction es arbitrary: t)
  case Nil
  then have "in_int64 (hits t k)" for k
    by (auto simp: hits_def records_ok_def list_all_iff in_int64_def min_int64_def max_int64_def find_Some_iff
        split: option.split)
  with Nil show ?case by (simp add: wrap64_id)
next
  case (Cons e es)
  have w: "wrap64 (wrap64 (a + 1) + b) = wrap64 (a + (1 + b))" for a b
    by (simp add: wrap64_def mod_simps algebra_simps)
  note ih = Cons.IH [OF counted_ok [OF Cons.prems, of e]]
  have "hits (fold apply_event (e # es) t) k = wrap64 (hits t k + int (length (filter (\<lambda>e. event_key e = k) (e # es))))" for k
    using ih [THEN conjunct2, THEN spec, of k] Cons.prems by (auto simp: apply_event_counted counted_hits w)
  with ih Cons.prems show ?case by (simp add: apply_event_counted)
qed

section \<open>Properties\<close>

text \<open>A line of xray's access log, and a panel in a world on UTC with a log.\<close>

definition sample_line :: string where
  "sample_line = ''2024/02/03 10:11:12.123456 from tcp:1.2.3.4:555 accepted tcp:a.b:443 [inbound-80]'' @ [CHR 0x0A]"

definition logging_panel :: "string \<Rightarrow> err option list \<Rightarrow> panel" where
  "logging_panel log fs = (fresh_panel (quiet_world\<lparr>w_zone := \<lambda>_. (0, 0, 0)\<rparr>))
     \<lparr>files := [xrayAccessLogPath \<mapsto> log], faults := fs\<rparr>"

lemma logging_panel_simps: "faults (logging_panel log fs) = fs" "files (logging_panel log fs) = [xrayAccessLogPath \<mapsto> log]"
    "w_zone (world (logging_panel log fs)) = (\<lambda>_. (0, 0, 0))" "tbl_access (pdb (logging_panel log fs)) = []"
    "aggregation_on (logging_panel log fs)" "saved_offset (files (logging_panel log fs)) = Inr 0"
    "saved_offset [xrayAccessLogPath \<mapsto> log] = Inr 0"
  using paths_apart
  by (simp_all add: logging_panel_def fresh_panel_def quiet_world_def empty_database_def aggregation_on_def
      setting_value_def saved_offset_def)

text \<open>A line that is accepted gives a source that is neither empty nor a loopback address, and a
  positive port that fits an int.\<close>

theorem accepted_event:
  assumes "parseAccessIPLine zone line = Some e"
  shows "ev_SourceIP e \<noteq> [] \<and> \<not> isLoopbackAddress (ev_SourceIP e) \<and> 0 < ev_Port e \<and> in_int64 (ev_Port e)"
  using parsed_event [OF assms] by simp

theorem accepted_event_witness:
  "parseAccessIPLine (\<lambda>_. (0, 0, 0)) sample_line
     = Some \<lparr>ev_SourceIP = ''1.2.3.4'', ev_Port = 80, ev_SeenAt = 1706955072\<rparr>
   \<and> \<not> isLoopbackAddress ''1.2.3.4''"
proof -
  have e: "parseAccessIPLine (\<lambda>_. (0, 0, 0)) sample_line
      = Some \<lparr>ev_SourceIP = ''1.2.3.4'', ev_Port = 80, ev_SeenAt = 1706955072\<rparr>" by code_simp
  with accepted_event [OF e] show ?thesis by simp
qed

text \<open>C21: whatever fails, a run over an existing log applies the first of the new events in order and
  none else; the offset is moved, behind the whole log, only when all of them were applied, and a
  run that succeeds has done so unless the aggregation is switched off.\<close>

theorem access_run_outcome:
  assumes "ProcessAccessLog s = (r, t)" and "files s xrayAccessLogPath = Some log"
    and "saved_offset (files s) = Inr offset"
  shows "\<exists>es rest. log_post log offset s r t es rest"
  using assms by (rule ProcessAccessLog_run)

theorem access_run_outcome_witness:
  "\<exists>r t es rest. ProcessAccessLog (logging_panel sample_line [Some (DbErr ''busy'')]) = (r, t)
     \<and> log_post sample_line 0 (logging_panel sample_line [Some (DbErr ''busy'')]) r t es rest"
proof -
  let ?s = "logging_panel sample_line [Some (DbErr ''busy'')]"
  obtain r t where run: "ProcessAccessLog ?s = (r, t)" by (cases "ProcessAccessLog ?s")
  have "files ?s xrayAccessLogPath = Some sample_line" by (simp add: logging_panel_simps)
  from access_run_outcome [OF run this logging_panel_simps(6)] run show ?thesis by blast
qed

text \<open>C11: a run that succeeds makes the records count the events: the number kept for a source and a
  port grows, modulo the width of an int64, by the events of the new part of the log for them.\<close>

theorem access_counts:
  assumes "ProcessAccessLog s = (Inr (), t)" and "files s xrayAccessLogPath = Some log"
    and "saved_offset (files s) = Inr offset" and "aggregation_on s" and "records_ok (tbl_access (pdb s))"
  shows "records_ok (tbl_access (pdb t)) \<and> (\<forall>k. hits (tbl_access (pdb t)) k = wrap64 (hits (tbl_access (pdb s)) k
    + int (length (filter (\<lambda>e. event_key e = k)
        (log_events (w_zone (world s)) (fst (scan_lines (new_part offset log))))))))"
proof -
  from ProcessAccessLog_run [OF assms(1-3)] obtain es rest where "log_post log offset s (Inr ()) t es rest" by blast
  with assms(4) have "es = log_events (w_zone (world s)) (fst (scan_lines (new_part offset log)))"
    and "tbl_access (pdb t) = fold apply_event es (tbl_access (pdb s))"
    by (auto simp: log_post_def upd_access_def)
  with events_counted [OF assms(5), of es] show ?thesis by simp
qed

theorem access_counts_witness:
  "\<exists>t. ProcessAccessLog (logging_panel (sample_line @ sample_line) []) = (Inr (), t)
     \<and> hits (tbl_access (pdb t)) (''1.2.3.4'', 80) = 2"
proof -
  let ?log = "sample_line @ sample_line"
  let ?s = "logging_panel ?log []"
  have "\<not> snd (scan_lines (new_part 0 ?log))" by code_simp
  then have run: "ProcessAccessLog ?s = (Inr (), log_done ?log 0 ?s)"
    by (intro ProcessAccessLog_calm) (simp_all add: logging_panel_simps)
  have log: "files ?s xrayAccessLogPath = Some ?log" by (simp add: logging_panel_simps)
  have ok: "records_ok (tbl_access (pdb ?s))" by (simp add: logging_panel_simps records_ok_def ids_ok_def)
  have "length (filter (\<lambda>e. event_key e = (''1.2.3.4'', 80)) (log_events (\<lambda>_. (0, 0, 0)) (fst (scan_lines (new_part 0 ?log))))) = 2"
    "wrap64 (hits [] (''1.2.3.4'', 80) + int 2) = 2" by code_simp+
  with access_counts [OF run log logging_panel_simps(6) logging_panel_simps(5) ok] run show ?thesis
    by (simp add: logging_panel_simps del: of_nat_numeral)
qed

text \<open>C20: reading a log as it grows is reading it at once.  Where nothing fails, a run, an appended
  text and another run end in the very state of one run over the whole, provided that the first
  run found the log at the end of a line.\<close>

theorem access_log_in_pieces:
  assumes "faults s = []" and "aggregation_on s" and "saved_offset (files s) = Inr offset" and "0 \<le> offset"
    and "files s xrayAccessLogPath = Some a" and "offset \<le> int (length a)" and "in_int64 (int (length a))"
    and "ends_line (drop (nat offset) a)" and "\<not> snd (scan_lines (drop (nat offset) a))" and "\<not> snd (scan_lines b)"
  shows "\<exists>s1. ProcessAccessLog s = (Inr (), s1)
    \<and> ProcessAccessLog (s1\<lparr>files := (files s1)(xrayAccessLogPath \<mapsto> a @ b)\<rparr>)
      = ProcessAccessLog (s\<lparr>files := (files s)(xrayAccessLogPath \<mapsto> a @ b)\<rparr>)"
  using log_pieces [OF assms] by blast

theorem access_log_in_pieces_witness:
  "\<exists>s1. ProcessAccessLog (logging_panel sample_line []) = (Inr (), s1)
    \<and> ProcessAccessLog (s1\<lparr>files := (files s1)(xrayAccessLogPath \<mapsto> sample_line @ sample_line)\<rparr>)
      = ProcessAccessLog ((logging_panel sample_line [])\<lparr>files := [xrayAccessLogPath \<mapsto> sample_line @ sample_line]\<rparr>)"
proof -
  have "in_int64 (int (length sample_line))" "ends_line (drop (nat 0) sample_line)" "\<not> snd (scan_lines (drop (nat 0) sample_line))"
    "\<not> snd (scan_lines sample_line)" by code_simp+
  with access_log_in_pieces [of "logging_panel sample_line []" 0 sample_line sample_line] show ?thesis
    by (simp add: logging_panel_simps)
qed

text \<open>When storing an event fails, the run stops with an error and the offset stays; the next run
  counts the events before it once more.\<close>

theorem events_counted_twice:
  "\<exists>s1 s2. ProcessAccessLog (logging_panel (sample_line @ sample_line) (replicate 7 None @ [Some (DbErr ''busy'')]))
       = (Inl (DbErr ''busy''), s1)
     \<and> ProcessAccessLog s1 = (Inr (), s2) \<and> hits (tbl_access (pdb s2)) (''1.2.3.4'', 80) = 3"
proof -
  have "(case ProcessAccessLog (logging_panel (sample_line @ sample_line) (replicate 7 None @ [Some (DbErr ''busy'')])) of
      (r, s1) \<Rightarrow> r = Inl (DbErr ''busy'') \<and> (case ProcessAccessLog s1 of (r', s2) \<Rightarrow> r' = Inr ()
        \<and> hits (tbl_access (pdb s2)) (''1.2.3.4'', 80) = 3))" by code_simp
  then show ?thesis by (auto split: prod.splits)
qed

end
