(* ===== verification/Cert.thy ===== *)
theory Cert
  imports Access_IP Xray_Process
    "HOL-Library.List_Lexorder" "HOL-Library.Char_ord"
begin

text \<open>
  The certificate of the panel (src/web/service/cert.go) as \<open>CertService{}\<close>, the zero
  value the controller uses: the fields by which the tests replace the directory, the
  restart or the probes are nil.  Certificates are files; PEM, X.509 and key
  pairs are read through the world, and so are DNS, the programs that are run, and
  the end of the wait for a listener.  Permissions of files are not part of the
  state; a call that sets them may fail.
\<close>

section \<open>Domains and addresses\<close>

definition label_char :: "char \<Rightarrow> bool" where
  "label_char c \<longleftrightarrow> (97 \<le> byte c \<and> byte c \<le> 122) \<or> (65 \<le> byte c \<and> byte c \<le> 90) \<or> is_digit c \<or> c = CHR ''-''"

definition label_ok :: "string \<Rightarrow> bool" where
  "label_ok l \<longleftrightarrow> \<not> (l = [] \<or> 63 < length l) \<and> \<not> (HasPrefix l ''-'' \<or> HasSuffix l ''-'') \<and> list_all label_char l"

definition validateDomain :: "string \<Rightarrow> err option" where
  "validateDomain domain0 =
     (if Contains domain0 ''://'' then Some (Err ''domain must not include scheme'')
      else if Contains domain0 ''/'' \<or> Contains domain0 ''?'' \<or> Contains domain0 ''#''
      then Some (Err ''domain must not include path or query'')
      else if ContainsAny domain0 [CHR '' '', CHR 0x09, CHR 0x0D, CHR 0x0A]
      then Some (Err ''domain must not include spaces'')
      else let domain = TrimSuffix domain0 ''.'' in
        if domain = [] then Some (Err ''domain is required'')
        else let labels = Split domain (CHR ''.'') in
          if length labels < 2 then Some (Err ''domain format is invalid'')
          else if list_all label_ok labels then None
          else Some (Err ''domain format is invalid''))"

definition validateEmail :: "string \<Rightarrow> err option" where
  "validateEmail email0 =
     (let email = TrimSpace email0 in
      if email = [] then Some (Err ''email is required'')
      else if ContainsAny email [CHR '' '', CHR 0x09, CHR 0x0D, CHR 0x0A] \<or> \<not> Contains email ''@''
      then Some (Err ''email format is invalid'')
      else None)"

definition containsString :: "string list \<Rightarrow> string \<Rightarrow> bool" where
  "containsString items target \<longleftrightarrow> list_ex (\<lambda>item. item = target) items"

text \<open>The loop with the set of what was seen.\<close>

fun unique_from :: "string list \<Rightarrow> string list \<Rightarrow> string list" where
  "unique_from seen [] = []"
| "unique_from seen (v # vs) = (let value = TrimSpace v in
     if value = [] \<or> value \<in> set seen then unique_from seen vs
     else value # unique_from (value # seen) vs)"

definition uniqueNonEmptyStrings :: "string list \<Rightarrow> string list" where
  "uniqueNonEmptyStrings values = unique_from [] values"

section \<open>Certificates\<close>

record cert_info =
  ci_issuer :: string
  ci_subject :: string
  ci_dnsNames :: "string list"
  ci_notBefore :: int
  ci_notAfter :: int
  ci_expireAt :: int
  ci_daysLeft :: int
  ci_isExpired :: bool

text \<open>The clock is in milliseconds; \<open>Sub\<close> ends at the largest duration.\<close>

definition cert_info_of :: "int \<Rightarrow> x509 \<Rightarrow> cert_info" where
  "cert_info_of now c =
     (let expired = 1000 * x_NotAfter c < now in
      \<lparr>ci_issuer = (if x_IssuerCN c = [] then x_Issuer c else x_IssuerCN c),
       ci_subject = (if x_SubjectCN c = [] then x_Subject c else x_SubjectCN c),
       ci_dnsNames = (if x_SubjectCN c \<noteq> [] \<and> \<not> containsString (x_DNSNames c) (x_SubjectCN c)
                      then x_SubjectCN c # x_DNSNames c else x_DNSNames c),
       ci_notBefore = x_NotBefore c, ci_notAfter = x_NotAfter c, ci_expireAt = x_NotAfter c,
       ci_daysLeft = (if expired then 0 else min (1000 * x_NotAfter c - now) 9223372036854 div 86400000),
       ci_isExpired = expired\<rparr>)"

definition parseCertificatePEM :: "world \<Rightarrow> int \<Rightarrow> string \<Rightarrow> cert_info res" where
  "parseCertificatePEM w now certPEM = (case w_pem w certPEM of
       None \<Rightarrow> Inl (Err ''failed to parse certificate PEM'')
     | Some (block, rest) \<Rightarrow> (case w_x509 w block of
           None \<Rightarrow> Inl (Err ''failed to parse certificate'')
         | Some cert \<Rightarrow> Inr (cert_info_of now cert)))"

definition readCertificateInfo :: "world \<Rightarrow> int \<Rightarrow> string \<Rightarrow> string \<Rightarrow> cert_info res" where
  "readCertificateInfo w now certPEM keyPEM = (case parseCertificatePEM w now certPEM of
       Inl e \<Rightarrow> Inl e
     | Inr info \<Rightarrow>
         if keyPEM \<noteq> [] \<and> \<not> w_pair w certPEM keyPEM
         then Inl (Err ''certificate and private key do not match'')
         else Inr info)"

definition parseCertificatePair :: "world \<Rightarrow> int \<Rightarrow> string \<Rightarrow> string \<Rightarrow> cert_info res" where
  "parseCertificatePair w now certPEM keyPEM =
     (if certPEM = [] \<or> keyPEM = [] then Inl (Err ''certificate and private key are required'')
      else if \<not> w_pair w certPEM keyPEM then Inl (Err ''certificate and private key do not match'')
      else parseCertificatePEM w now certPEM)"

text \<open>
  The loop of \<open>countPEMBlocks\<close>; \<open>pem.Decode\<close> returns a rest that is shorter, so that
  as many rounds as there are bytes are enough.
\<close>

fun count_blocks :: "(string \<Rightarrow> (string \<times> string) option) \<Rightarrow> nat \<Rightarrow> string \<Rightarrow> nat" where
  "count_blocks pem 0 rest = 0"
| "count_blocks pem (Suc k) rest =
     (if rest = [] then 0
      else case pem rest of None \<Rightarrow> 0 | Some (block, next) \<Rightarrow> Suc (count_blocks pem k next))"

definition countPEMBlocks :: "world \<Rightarrow> string \<Rightarrow> nat" where
  "countPEMBlocks w certPEM = count_blocks (w_pem w) (length certPEM) certPEM"

section \<open>Files\<close>

definition fileExists :: "files \<Rightarrow> string \<Rightarrow> bool" where
  "fileExists fs path \<longleftrightarrow> TrimSpace path \<noteq> [] \<and> fs path \<noteq> None"

definition exists_file :: "string \<Rightarrow> (panel, bool) act" where
  "exists_file path = gets (\<lambda>s. fileExists (files s) path)"

text \<open>\<open>os.ReadFile\<close> with the error replaced.\<close>

definition must_read :: "string \<Rightarrow> err \<Rightarrow> (panel, string) act" where
  "must_read path e = andThen (attempt (read_file path)) (\<lambda>r. case r of
       Inr (Some c) \<Rightarrow> ret c | _ \<Rightarrow> throw e)"

definition readCertificateInfoFromFiles :: "string \<Rightarrow> string \<Rightarrow> (panel, cert_info) act" where
  "readCertificateInfoFromFiles certFile keyFile =
     andThen (must_read certFile (Err ''failed to read certificate file'')) (\<lambda>certPEM.
     andThen (exists_file keyFile) (\<lambda>key.
     andThen (if keyFile \<noteq> [] \<and> key then must_read keyFile (Err ''failed to read key file'') else ret []) (\<lambda>keyPEM.
     andThen (gets clock_now) (\<lambda>now.
     andThen (gets world) (\<lambda>w.
     lift_res (readCertificateInfo w now certPEM keyPEM))))))"

definition countPEMBlocksFromFile :: "string \<Rightarrow> (panel, nat) act" where
  "countPEMBlocksFromFile certFile =
     andThen (must_read certFile (Err ''failed to read certificate file'')) (\<lambda>certPEM.
     on_world (\<lambda>w. countPEMBlocks w certPEM))"

definition ensureACMEFullchain :: "string \<Rightarrow> (panel, unit) act" where
  "ensureACMEFullchain certFile =
     andThen (countPEMBlocksFromFile certFile) (\<lambda>blockCount.
     reject (blockCount < 2) (Err ''ACME_FULLCHAIN_MISSING''))"

definition managedPanelPaths :: "string \<times> string" where
  "managedPanelPaths = (''/usr/local/x-ui/cert/panel.crt'', ''/usr/local/x-ui/cert/panel.key'')"

definition acmePanelPaths :: "string \<times> string" where
  "acmePanelPaths = (''/usr/local/x-ui/cert/acme-panel.crt'', ''/usr/local/x-ui/cert/acme-panel.key'')"

definition resolveStatusPaths :: "string \<Rightarrow> string \<Rightarrow> string \<Rightarrow> string \<times> string" where
  "resolveStatusPaths webCertFile webKeyFile webCertMode =
     (if webCertFile \<noteq> [] \<or> webKeyFile \<noteq> [] then (webCertFile, webKeyFile)
      else if webCertMode = ''manual'' then managedPanelPaths
      else if webCertMode = ''acme_http'' then acmePanelPaths
      else (webCertFile, webKeyFile))"

definition both_exist :: "string \<times> string \<Rightarrow> (panel, bool) act" where
  "both_exist paths = gets (\<lambda>s. fileExists (files s) (fst paths) \<and> fileExists (files s) (snd paths))"

section \<open>The settings of the certificate\<close>

record cert_snapshot =
  sn_domain :: string
  sn_certFile :: string
  sn_keyFile :: string
  sn_status :: string
  sn_expireAt :: int
  sn_issuer :: string
  sn_autoRenew :: bool
  sn_mode :: string
  sn_provider :: string

definition captureSettings :: "(panel, cert_snapshot) act" where
  "captureSettings =
     andThen GetWebDomain (\<lambda>domain.
     andThen GetCertFile (\<lambda>certFile.
     andThen GetKeyFile (\<lambda>keyFile.
     andThen GetWebCertStatus (\<lambda>status.
     andThen GetWebCertExpireAt (\<lambda>expireAt.
     andThen GetWebCertIssuer (\<lambda>issuer.
     andThen GetWebCertAutoRenew (\<lambda>autoRenew.
     andThen GetWebCertMode (\<lambda>mode.
     andThen GetWebCertProvider (\<lambda>provider.
     ret \<lparr>sn_domain = domain, sn_certFile = certFile, sn_keyFile = keyFile, sn_status = status,
          sn_expireAt = expireAt, sn_issuer = issuer, sn_autoRenew = autoRenew, sn_mode = mode,
          sn_provider = provider\<rparr>)))))))))"

text \<open>Every call is made; the errors are combined.\<close>

fun all_attempts :: "(panel, unit) act list \<Rightarrow> (panel, err option list) act" where
  "all_attempts [] = ret []"
| "all_attempts (m # ms) = andThen (attempt m) (\<lambda>r. andThen (all_attempts ms) (\<lambda>es. ret (err_of r # es)))"

definition restoreSettings :: "cert_snapshot \<Rightarrow> (panel, err option) act" where
  "restoreSettings sn =
     andThen (all_attempts
       [SetWebDomain (sn_domain sn), SetCertFile (sn_certFile sn), SetKeyFile (sn_keyFile sn),
        SetWebCertStatus (sn_status sn), SetWebCertExpireAt (sn_expireAt sn), SetWebCertIssuer (sn_issuer sn),
        SetWebCertAutoRenew (sn_autoRenew sn), SetWebCertMode (sn_mode sn), SetWebCertProvider (sn_provider sn)])
     (\<lambda>es. ret (Combine es))"

definition getPanelPort :: "(panel, int) act" where
  "getPanelPort = andThen GetPort (\<lambda>port. andThen (reject (port \<le> 0) (Err ''invalid panel port'')) (\<lambda>_. ret port))"

section \<open>Restarting the panel\<close>

definition RestartPanel :: "(panel, unit) act" where
  "RestartPanel = andThen outside (\<lambda>_. modify (\<lambda>s. s\<lparr>restarts := restarts s + 1\<rparr>))"

definition loopbackAddr :: "int \<Rightarrow> string res" where
  "loopbackAddr port = (if port \<le> 0 then Inl (Err ''invalid panel port'') else Inr (''127.0.0.1:'' @ Itoa port))"

text \<open>
  The loop of \<open>waitForListener\<close>: the rounds that end before the deadline, then the one
  after which it has passed.  Probing stops at the first success.
\<close>

fun probe_loop :: "('a \<Rightarrow> err option) \<Rightarrow> 'a list \<Rightarrow> 'a \<Rightarrow> err option" where
  "probe_loop probe [] final = probe final"
| "probe_loop probe (r # rs) final = (case probe r of None \<Rightarrow> None | Some e \<Rightarrow> probe_loop probe rs final)"

definition waitForListener :: "int \<Rightarrow> ('a \<Rightarrow> err option) \<Rightarrow> 'a rounds \<Rightarrow> err option" where
  "waitForListener timeout probe rounds =
     (if timeout \<le> 0 then Some (Err ''listener wait timeout must be positive'')
      else probe_loop probe (fst rounds) (snd rounds))"

definition isHTTPSRedirectResponse :: "int \<Rightarrow> string \<Rightarrow> bool" where
  "isHTTPSRedirectResponse statusCode location =
     (if statusCode \<notin> {301, 302, 307, 308} then False
      else HasPrefix (ToLower (TrimSpace location)) ''https://'')"

abbreviation defaultListenerWaitTimeout :: int where "defaultListenerWaitTimeout \<equiv> 15000"
abbreviation defaultProbeTimeout :: int where "defaultProbeTimeout \<equiv> 2000"

definition http_probe :: "http_round \<Rightarrow> err option" where
  "http_probe r = (case waitForListener defaultProbeTimeout (\<lambda>dial. dial) (fst r) of
       None \<Rightarrow> Some (Err ''https listener still active'')
     | Some _ \<Rightarrow> (case snd r of
         Inl e \<Rightarrow> Some e
       | Inr (statusCode, location) \<Rightarrow>
           if isHTTPSRedirectResponse statusCode location
           then Some (Err ''http endpoint still redirects to https'') else None))"

definition listener_end :: "world \<Rightarrow> bool \<Rightarrow> int \<Rightarrow> string \<Rightarrow> string \<Rightarrow> err option" where
  "listener_end w https timeout certFile keyFile =
     (if https then waitForListener timeout (\<lambda>dial. dial) (w_tls w certFile keyFile)
      else waitForListener timeout http_probe (w_http w certFile keyFile))"

text \<open>The wait for the listener, HTTPS or HTTP, of a panel restarted with the current settings.\<close>

definition wait_ready :: "bool \<Rightarrow> int \<Rightarrow> int \<Rightarrow> (panel, unit) act" where
  "wait_ready https port timeout =
     andThen (lift_res (loopbackAddr port)) (\<lambda>addr.
     andThen (gets (\<lambda>s. (world s, setting_value (tbl_settings (pdb s)) ''webCertFile'',
                          setting_value (tbl_settings (pdb s)) ''webKeyFile''))) (\<lambda>(w, cf, kf).
     case listener_end w https timeout (case cf of None \<Rightarrow> [] | Some c \<Rightarrow> c) (case kf of None \<Rightarrow> [] | Some k \<Rightarrow> k) of
         None \<Rightarrow> ret () | Some e \<Rightarrow> throw e))"

definition waitForHTTPSReady :: "int \<Rightarrow> int \<Rightarrow> (panel, unit) act" where
  "waitForHTTPSReady port timeout = wait_ready True port timeout"

definition waitForHTTPReady :: "int \<Rightarrow> int \<Rightarrow> (panel, unit) act" where
  "waitForHTTPReady port timeout = wait_ready False port timeout"

definition waitForSnapshotReady :: "cert_snapshot \<Rightarrow> int \<Rightarrow> int \<Rightarrow> (panel, unit) act" where
  "waitForSnapshotReady sn port timeout =
     (if sn_certFile sn \<noteq> [] \<and> sn_keyFile sn \<noteq> [] then waitForHTTPSReady port timeout
      else waitForHTTPReady port timeout)"

text \<open>The combined error of a failed change, after the settings were put back and the panel restarted.\<close>

definition combined :: "err option list \<Rightarrow> (panel, bool) act" where
  "combined es = (case Combine es of None \<Rightarrow> ret False | Some e \<Rightarrow> throw e)"

definition rollbackListenerState :: "cert_snapshot \<Rightarrow> int \<Rightarrow> err \<Rightarrow> err \<Rightarrow> (panel, bool) act" where
  "rollbackListenerState sn port reason cause =
     andThen (restoreSettings sn) (\<lambda>restoreErr.
     andThen (attempt RestartPanel) (\<lambda>restartRestore.
     andThen (if err_of restartRestore = None then attempt (waitForSnapshotReady sn port defaultListenerWaitTimeout) else ret (Inr ())) (\<lambda>waitRestore.
     combined [Some reason, Some cause, restoreErr, err_of restartRestore, err_of waitRestore])))"

text \<open>The end of a change of the settings: restart, wait, or put back.\<close>

definition restart_or_restore :: "cert_snapshot \<Rightarrow> int \<Rightarrow> err \<Rightarrow> (panel, unit) act \<Rightarrow> (panel, bool) act" where
  "restart_or_restore sn port reason wait =
     andThen (attempt RestartPanel) (\<lambda>r. case r of
       Inl e \<Rightarrow>
         andThen (restoreSettings sn) (\<lambda>restoreErr.
         andThen (attempt RestartPanel) (\<lambda>r2.
         combined [Some e, restoreErr, err_of r2]))
     | Inr _ \<Rightarrow> andThen (attempt wait) (\<lambda>w. case w of
         Inl e \<Rightarrow> rollbackListenerState sn port reason e
       | Inr _ \<Rightarrow> ret True))"

definition applyHTTPSCertificate :: "string \<Rightarrow> string \<Rightarrow> string \<Rightarrow> string \<Rightarrow> string \<Rightarrow> bool \<Rightarrow> (panel, bool) act" where
  "applyHTTPSCertificate certFile keyFile mode provider status autoRenew =
     andThen captureSettings (\<lambda>snapshot.
     andThen getPanelPort (\<lambda>port.
     andThen (readCertificateInfoFromFiles certFile keyFile) (\<lambda>info.
     andThen (SetCertFile certFile) (\<lambda>_.
     andThen (SetKeyFile keyFile) (\<lambda>_.
     andThen (SetWebCertStatus status) (\<lambda>_.
     andThen (SetWebCertMode mode) (\<lambda>_.
     andThen (SetWebCertProvider provider) (\<lambda>_.
     andThen (SetWebCertIssuer (ci_issuer info)) (\<lambda>_.
     andThen (SetWebCertExpireAt (ci_expireAt info)) (\<lambda>_.
     andThen (SetWebCertAutoRenew autoRenew) (\<lambda>_.
     restart_or_restore snapshot port (Err ''HTTPS listener not ready after restart'') (waitForHTTPSReady port defaultListenerWaitTimeout))))))))))))"

end
