(* ===== verification/Cert_Service.thy ===== *)
theory Cert_Service
  imports Cert
begin

text \<open>
  The handlers of the certificate service (src/web/service/cert.go): the status, the
  domain, upload, enabling and disabling of HTTPS, and the issue of a certificate
  through acme.sh.
\<close>

section \<open>Status\<close>

record cert_status =
  cs_WebDomain :: string
  cs_HTTPSActive :: bool
  cs_MissingFiles :: bool
  cs_WebCertFile :: string
  cs_WebKeyFile :: string
  cs_CertExists :: bool
  cs_KeyExists :: bool
  cs_WebCertStatus :: string
  cs_WebCertExpireAt :: int
  cs_WebCertIssuer :: string
  cs_WebCertAutoRenew :: bool
  cs_WebCertMode :: string
  cs_WebCertProvider :: string
  cs_Subject :: string
  cs_DNSNames :: "string list"
  cs_NotBefore :: int
  cs_NotAfter :: int
  cs_DaysLeft :: int
  cs_IsExpired :: bool
  cs_Warnings :: "string list"

text \<open>The status before the certificate is read; the snapshot has the nine settings.\<close>

definition base_status :: "files \<Rightarrow> cert_snapshot \<Rightarrow> cert_status" where
  "base_status fs sn =
     (let paths = resolveStatusPaths (sn_certFile sn) (sn_keyFile sn) (sn_mode sn);
          ce = fileExists fs (fst paths); ke = fileExists fs (snd paths);
          active = (sn_certFile sn \<noteq> [] \<and> sn_keyFile sn \<noteq> []);
          missing = (sn_status sn = ''missing'') in
      \<lparr>cs_WebDomain = sn_domain sn, cs_HTTPSActive = active, cs_MissingFiles = missing,
       cs_WebCertFile = fst paths, cs_WebKeyFile = snd paths, cs_CertExists = ce, cs_KeyExists = ke,
       cs_WebCertStatus = (if ce \<noteq> ke then ''unknown'' else sn_status sn),
       cs_WebCertExpireAt = sn_expireAt sn, cs_WebCertIssuer = sn_issuer sn,
       cs_WebCertAutoRenew = sn_autoRenew sn, cs_WebCertMode = sn_mode sn, cs_WebCertProvider = sn_provider sn,
       cs_Subject = [], cs_DNSNames = [], cs_NotBefore = 0, cs_NotAfter = 0, cs_DaysLeft = 0, cs_IsExpired = False,
       cs_Warnings =
         (if missing then [''Configured certificate files are missing.'', ''HTTPS has been disabled automatically.''] else [])
         @ (if \<not> active \<and> ce \<and> ke then [''managed certificate files exist, but HTTPS is currently disabled''] else [])
         @ (if ce \<noteq> ke then [''certificate file and key file are not both present''] else [])\<rparr>)"

definition with_info :: "cert_info \<Rightarrow> cert_status \<Rightarrow> cert_status" where
  "with_info info st = st\<lparr>cs_WebCertIssuer := ci_issuer info, cs_Subject := ci_subject info,
     cs_DNSNames := ci_dnsNames info, cs_NotBefore := ci_notBefore info, cs_NotAfter := ci_notAfter info,
     cs_WebCertExpireAt := ci_expireAt info, cs_DaysLeft := ci_daysLeft info, cs_IsExpired := ci_isExpired info,
     cs_WebCertStatus := (if ci_isExpired info then ''expired''
       else if cs_WebCertStatus st = [] \<or> cs_WebCertStatus st = ''none'' then ''ready''
       else cs_WebCertStatus st)\<rparr>"

definition warn :: "string \<Rightarrow> cert_status \<Rightarrow> cert_status" where
  "warn text_data st = st\<lparr>cs_Warnings := cs_Warnings st @ [text_data]\<rparr>"

definition GetStatus :: "(panel, cert_status) act" where
  "GetStatus =
     andThen captureSettings (\<lambda>sn.
     andThen (gets (\<lambda>s. base_status (files s) sn)) (\<lambda>status.
     if \<not> cs_CertExists status then ret status
     else
       andThen (attempt (countPEMBlocksFromFile (cs_WebCertFile status))) (\<lambda>n.
       let status' = (case n of
             Inr k \<Rightarrow> if 0 < k then warn (''certificate PEM block count: '' @ nat_str k) status else status
           | Inl e \<Rightarrow> status) in
       andThen (attempt (readCertificateInfoFromFiles (cs_WebCertFile status) (cs_WebKeyFile status))) (\<lambda>r.
       ret (case r of
           Inl e \<Rightarrow> warn (err_text e) (status'\<lparr>cs_WebCertStatus := ''unknown''\<rparr>)
         | Inr info \<Rightarrow> with_info info status')))))"

record usable_certificate =
  uc_ID :: string
  uc_Name :: string
  uc_Mode :: string
  uc_Domain :: string
  uc_Issuer :: string
  uc_ExpireAt :: int
  uc_CertFile :: string
  uc_KeyFile :: string
  uc_Active :: bool

definition usable_of :: "cert_status \<Rightarrow> usable_certificate list" where
  "usable_of status =
     (let mode = TrimSpace (cs_WebCertMode status) in
      if mode \<noteq> ''manual'' \<and> mode \<noteq> ''acme_http'' then []
      else if TrimSpace (cs_WebCertFile status) = [] \<or> TrimSpace (cs_WebKeyFile status) = [] then []
      else if \<not> cs_CertExists status \<or> \<not> cs_KeyExists status then []
      else let d1 = TrimSpace (cs_WebDomain status);
               d2 = (if d1 = [] \<and> cs_DNSNames status \<noteq> [] then TrimSpace (hd (cs_DNSNames status)) else d1);
               d3 = (if d2 = [] then TrimSpace (cs_Subject status) else d2) in
        [\<lparr>uc_ID = ''panel'', uc_Name = ''Panel Certificate'', uc_Mode = mode, uc_Domain = d3,
          uc_Issuer = TrimSpace (cs_WebCertIssuer status), uc_ExpireAt = cs_WebCertExpireAt status,
          uc_CertFile = TrimSpace (cs_WebCertFile status), uc_KeyFile = TrimSpace (cs_WebKeyFile status),
          uc_Active = cs_HTTPSActive status\<rparr>])"

definition ListUsable :: "(panel, usable_certificate list) act" where
  "ListUsable = andThen GetStatus (\<lambda>status. ret (usable_of status))"

section \<open>Domain\<close>

definition check_domain :: "string \<Rightarrow> (panel, unit) act" where
  "check_domain domain = (case validateDomain domain of None \<Rightarrow> ret () | Some e \<Rightarrow> throw e)"

definition SetDomain :: "string \<Rightarrow> (panel, unit) act" where
  "SetDomain domain0 =
     (let domain = TrimSpace domain0 in
      if domain = [] then SetWebDomain []
      else andThen (check_domain domain) (\<lambda>_. SetWebDomain domain))"

record domain_check =
  dc_Domain :: string
  dc_Records :: "string list"
  dc_ServerIPs :: "string list"
  dc_Matched :: bool
  dc_Warnings :: "string list"

text \<open>\<open>io.ReadAll\<close> of a body behind a limit: an error behind the limit is not met.\<close>

definition read_limited :: "nat \<Rightarrow> string list \<times> err option \<Rightarrow> string res" where
  "read_limited n body =
     (let text_data = take n (concat (fst body)) in
      case snd body of
        Some e \<Rightarrow> if length text_data < n then Inl e else Inr text_data
      | None \<Rightarrow> Inr text_data)"

definition endpoint_ip :: "world \<Rightarrow> string \<Rightarrow> string option" where
  "endpoint_ip w endpoint = (case w_fetch w endpoint of
       Inl e \<Rightarrow> None
     | Inr body \<Rightarrow> (case read_limited 128 body of
         Inl e \<Rightarrow> None
       | Inr text_data \<Rightarrow> (let v = TrimSpace text_data in
           if v = [] then None else map_option ip_String (ParseIP v))))"

text \<open>\<open>IsGlobalUnicast\<close> of net.IP: neither broadcast, unspecified, loopback, multicast nor link-local.\<close>

fun IsGlobalUnicast :: "ip \<Rightarrow> bool" where
  "IsGlobalUnicast (V4 (a # b # cs)) \<longleftrightarrow> \<not> (a = 255 \<and> b = 255 \<and> cs = [255, 255]) \<and> \<not> (a = 0 \<and> b = 0 \<and> cs = [0, 0])
     \<and> a \<noteq> 127 \<and> \<not> (224 \<le> a \<and> a < 240) \<and> \<not> (a = 169 \<and> b = 254)"
| "IsGlobalUnicast (V6 (g # gs)) \<longleftrightarrow> \<not> (list_all (\<lambda>h. h = 0) (g # butlast gs) \<and> (last gs = 0 \<or> last gs = 1))
     \<and> g div 256 \<noteq> 255 \<and> \<not> (g div 64 = 1018)"
| "IsGlobalUnicast _ \<longleftrightarrow> False"

definition hostname :: "world \<Rightarrow> string" where
  "hostname w = (case w_hostname w of None \<Rightarrow> [] | Some name \<Rightarrow> name)"

definition getPublicServerIPs :: "world \<Rightarrow> string list" where
  "getPublicServerIPs w =
     sort (remdups (List.map_filter (endpoint_ip w) [''https://ifconfig.me/ip'', ''https://api.ip.sb/ip'']
       @ (case w_lookup w (TrimSpace (hostname w)) of
            Inl e \<Rightarrow> []
          | Inr ips \<Rightarrow> filter (\<lambda>a. case ParseIP a of None \<Rightarrow> False | Some ip \<Rightarrow> IsGlobalUnicast ip) ips)))"

definition CheckDomain :: "string \<Rightarrow> (panel, domain_check) act" where
  "CheckDomain domain0 =
     (let domain = TrimSpace domain0 in
      andThen (reject (domain = []) (Err ''domain is required'')) (\<lambda>_.
      andThen (check_domain domain) (\<lambda>_.
      andThen (gets world) (\<lambda>w.
      andThen (lift_res (w_lookup w domain)) (\<lambda>ips.
      let records = sort (remdups ips); serverIPs = getPublicServerIPs w in
      ret \<lparr>dc_Domain = domain, dc_Records = records, dc_ServerIPs = serverIPs,
           dc_Matched = list_ex (\<lambda>r. r \<in> set serverIPs) records,
           dc_Warnings = (if serverIPs = [] then [''failed to detect public server IP''] else [])
             @ (if records = [] then [''no A/AAAA record found''] else [])\<rparr>)))))"

section \<open>Upload\<close>

definition UploadCertificate :: "string \<Rightarrow> string \<Rightarrow> (panel, unit) act" where
  "UploadCertificate certPEM0 keyPEM0 =
     (let certPEM = TrimSpace certPEM0; keyPEM = TrimSpace keyPEM0;
          certFile = fst managedPanelPaths; keyFile = snd managedPanelPaths in
      andThen (reject (certPEM = [] \<or> keyPEM = []) (Err ''certPem and keyPem are required'')) (\<lambda>_.
      andThen (gets (\<lambda>s. parseCertificatePair (world s) (clock_now s) certPEM keyPEM)) (\<lambda>r.
      andThen (lift_res r) (\<lambda>info.
      andThen outside (\<lambda>_.
      andThen (write_file certFile (certPEM @ [CHR 0x0A])) (\<lambda>_.
      andThen outside (\<lambda>_.
      andThen (write_file keyFile (keyPEM @ [CHR 0x0A])) (\<lambda>_.
      andThen outside (\<lambda>_.
      andThen (SetCertFile certFile) (\<lambda>_.
      andThen (SetKeyFile keyFile) (\<lambda>_.
      andThen (SetWebCertStatus ''uploaded'') (\<lambda>_.
      andThen (SetWebCertMode ''manual'') (\<lambda>_.
      andThen (SetWebCertProvider ''manual'') (\<lambda>_.
      andThen (SetWebCertIssuer (ci_issuer info)) (\<lambda>_.
      andThen (SetWebCertExpireAt (ci_expireAt info)) (\<lambda>_.
      SetWebCertAutoRenew False))))))))))))))))"

section \<open>Enabling and disabling\<close>

definition resolveEnablePaths :: "(panel, string \<times> string) act" where
  "resolveEnablePaths =
     andThen GetCertFile (\<lambda>certFile.
     andThen GetKeyFile (\<lambda>keyFile.
     if certFile \<noteq> [] \<and> keyFile \<noteq> [] then
       andThen (both_exist (certFile, keyFile)) (\<lambda>b.
       andThen (reject (\<not> b) (Err ''configured certificate file or key file does not exist'')) (\<lambda>_.
       ret (certFile, keyFile)))
     else
       andThen GetWebCertMode (\<lambda>mode.
       andThen (reject (mode \<noteq> ''manual'' \<and> mode \<noteq> ''acme_http'') (Err ''webCertFile and webKeyFile are not configured'')) (\<lambda>_.
       let paths = (if mode = ''acme_http'' then acmePanelPaths else managedPanelPaths) in
       andThen (both_exist paths) (\<lambda>b.
       andThen (reject (\<not> b) (if mode = ''acme_http'' then Err ''managed acme certificate files do not exist''
           else Err ''managed manual certificate files do not exist'')) (\<lambda>_.
       ret paths))))))"

definition EnableHTTPS :: "(panel, bool) act" where
  "EnableHTTPS =
     andThen resolveEnablePaths (\<lambda>(certFile, keyFile).
     andThen GetWebCertMode (\<lambda>mode0.
     andThen GetWebCertProvider (\<lambda>provider0.
     let mode = (if mode0 = [] \<or> mode0 = ''none'' then ''manual'' else mode0);
         provider = (if provider0 = [] then ''manual'' else provider0) in
     applyHTTPSCertificate certFile keyFile mode provider ''enabled'' False)))"

text \<open>The settings that say which managed certificate is left behind.\<close>

definition disabled_as :: "cert_snapshot \<Rightarrow> (panel, unit) act" where
  "disabled_as snapshot =
     andThen (both_exist acmePanelPaths) (\<lambda>acme.
     andThen (both_exist managedPanelPaths) (\<lambda>managed.
     if sn_mode snapshot = ''acme_http'' \<and> acme then
       andThen (SetWebCertStatus ''issued'') (\<lambda>_.
       andThen (SetWebCertMode ''acme_http'') (\<lambda>_. SetWebCertProvider (sn_provider snapshot)))
     else if managed then
       andThen (SetWebCertStatus ''uploaded'') (\<lambda>_.
       andThen (SetWebCertMode ''manual'') (\<lambda>_. SetWebCertProvider ''manual''))
     else
       andThen (SetWebCertStatus ''none'') (\<lambda>_.
       andThen (SetWebCertMode ''none'') (\<lambda>_. SetWebCertProvider []))))"

definition DisableHTTPS :: "(panel, bool) act" where
  "DisableHTTPS =
     andThen captureSettings (\<lambda>snapshot.
     andThen getPanelPort (\<lambda>port.
     andThen (SetCertFile []) (\<lambda>_.
     andThen (SetKeyFile []) (\<lambda>_.
     andThen (disabled_as snapshot) (\<lambda>_.
     restart_or_restore snapshot port (Err ''HTTP listener not ready after restart'') (waitForHTTPReady port defaultListenerWaitTimeout))))))"

section \<open>acme.sh\<close>

definition filepath_Clean :: "string \<Rightarrow> string" where
  "filepath_Clean path =
     (let rooted = HasPrefix path ''/''; es = clean_elems rooted [] (Split path (CHR ''/'')) in
      if rooted then ''/'' @ Join es ''/'' else if es = [] then ''.'' else Join es ''/'')"

definition filepath_Join :: "string \<Rightarrow> string \<Rightarrow> string" where
  "filepath_Join dir name = filepath_Clean (dir @ ''/'' @ name)"

definition normalizeAcmeHome :: "string \<Rightarrow> string" where
  "normalizeAcmeHome home0 = (let home = TrimSpace home0 in
     if home = [] then []
     else if HasSuffix home ''/acme.sh'' then filepath_Dir home else home)"

definition acmeCandidateHomes :: "world \<Rightarrow> string list" where
  "acmeCandidateHomes w =
     (let env = normalizeAcmeHome (w_env w ''ACMESH_HOME'') in
      uniqueNonEmptyStrings ((if env \<noteq> [] then [env] else [])
        @ [''/root/.acme.sh'', ''/.acme.sh'']
        @ (case w_home w of None \<Rightarrow> []
           | Some home \<Rightarrow> if TrimSpace home = [] then [] else [filepath_Join (TrimSpace home) ''.acme.sh''])))"

definition find_acme :: "world \<Rightarrow> files \<Rightarrow> (string \<times> string) res" where
  "find_acme w fs =
     (case find (\<lambda>home. home \<noteq> [] \<and> fileExists fs (filepath_Join home ''acme.sh'')) (acmeCandidateHomes w) of
        Some home \<Rightarrow> Inr (home, filepath_Join home ''acme.sh'')
      | None \<Rightarrow> (case w_path w fs ''acme.sh'' of
            None \<Rightarrow> Inl (Err ''acme.sh executable not found'')
          | Some bin0 \<Rightarrow> (let bin = TrimSpace bin0 in
              if bin \<noteq> [] then Inr (filepath_Dir bin, bin) else Inl (Err ''acme.sh executable not found''))))"

definition findAcmeSh :: "(panel, string \<times> string) act" where
  "findAcmeSh = andThen (gets (\<lambda>s. find_acme (world s) (files s))) lift_res"

definition run_command :: "string list \<Rightarrow> (panel, string) act" where
  "run_command argv s = (case w_command (world s) argv (files s) of ((out, e), fs) \<Rightarrow>
     (case e of None \<Rightarrow> Inr out | Some cause \<Rightarrow> Inl (ErrArg (TrimSpace out) (err_text cause)), s\<lparr>files := fs\<rparr>))"

text \<open>A command whose error is wrapped.\<close>

definition command_or :: "string list \<Rightarrow> string \<Rightarrow> (panel, unit) act" where
  "command_or argv msg = andThen (attempt (run_command argv)) (\<lambda>r. case r of
       Inl e \<Rightarrow> throw (ErrArg msg (err_text e)) | Inr out \<Rightarrow> ret ())"

definition ensurePortAvailable :: "int \<Rightarrow> (panel, unit) act" where
  "ensurePortAvailable port = andThen (on_world (\<lambda>w. w_port_free w port)) (\<lambda>free.
     reject (\<not> free) (ErrArg ''port is not available'' (Itoa port)))"

definition ensureAcmeInstalled :: "string \<Rightarrow> (panel, unit) act" where
  "ensureAcmeInstalled email =
     andThen (attempt findAcmeSh) (\<lambda>r. case r of
       Inr found \<Rightarrow> ret ()
     | Inl _ \<Rightarrow>
         andThen (exists_file ''/usr/local/x-ui/scripts/acme_install.sh'') (\<lambda>script.
         andThen (reject (\<not> script) (Err ''acme install script not found'')) (\<lambda>_.
         andThen (command_or ([''env'', ''HOME=/root'', ''ACMESH_HOME=/root/.acme.sh'', ''sh'',
             ''/usr/local/x-ui/scripts/acme_install.sh''] @ (if email \<noteq> [] then [''email='' @ email] else [])
             @ [''--home'', ''/root/.acme.sh'']) ''install acme.sh failed'') (\<lambda>_.
         andThen (attempt findAcmeSh) (\<lambda>r2. case r2 of
             Inr found \<Rightarrow> ret ()
           | Inl e \<Rightarrow> throw (ErrArg ''acme.sh installation did not produce executable'' (err_text e)))))))"

definition socat_found :: "(panel, bool) act" where
  "socat_found = gets (\<lambda>s. w_path (world s) (files s) ''socat'' \<noteq> None)"

definition install_socat :: "(panel, unit) act" where
  "install_socat =
     andThen (attempt (read_file ''/etc/os-release'')) (\<lambda>r.
     let content = ToLower (case r of Inr (Some c) \<Rightarrow> c | _ \<Rightarrow> []) in
     if Contains content ''debian'' \<or> Contains content ''ubuntu'' then
       andThen (command_or [''apt-get'', ''update''] ''install socat failed during apt-get update'') (\<lambda>_.
       command_or [''apt-get'', ''install'', ''-y'', ''socat''] ''install socat failed'')
     else if Contains content ''centos'' \<or> Contains content ''rocky'' \<or> Contains content ''alma'' \<or> Contains content ''rhel'' then
       command_or [''sh'', ''-c'',
         ''command -v dnf >/dev/null 2>&1 && dnf install -y socat || yum install -y socat''] ''install socat failed''
     else throw (Err ''socat is required for acme standalone mode; please install socat''))"

definition ensureSocatInstalled :: "(panel, unit) act" where
  "ensureSocatInstalled =
     andThen socat_found (\<lambda>found.
     if found then ret ()
     else andThen install_socat (\<lambda>_.
       andThen socat_found (\<lambda>found2.
       reject (\<not> found2) (Err ''socat install completed but executable not found''))))"

definition issueAcmeCertificate :: "string \<Rightarrow> bool \<Rightarrow> (panel, unit) act" where
  "issueAcmeCertificate domain staging =
     andThen findAcmeSh (\<lambda>(acmeHome, acmePath).
     andThen (if \<not> staging then command_or [acmePath, ''--home'', acmeHome, ''--set-default-ca'', ''--server'', ''letsencrypt'']
         ''set default acme ca failed'' else ret ()) (\<lambda>_.
     command_or ([acmePath, ''--home'', acmeHome, ''--issue'', ''-d'', domain, ''--standalone'', ''--httpport'', ''80'']
         @ (if staging then [''--staging''] else [])) ''issue acme certificate failed''))"

definition installAcmeCertificate :: "string \<Rightarrow> string \<Rightarrow> string \<Rightarrow> (panel, unit) act" where
  "installAcmeCertificate domain certFile keyFile =
     andThen findAcmeSh (\<lambda>(acmeHome, acmePath).
     andThen (command_or [acmePath, ''--home'', acmeHome, ''--install-cert'', ''-d'', domain,
         ''--fullchain-file'', certFile, ''--key-file'', keyFile] ''install acme certificate failed'') (\<lambda>_.
     ensureACMEFullchain certFile))"

section \<open>Issue\<close>

definition resolveIssueDomain :: "string \<Rightarrow> (panel, string) act" where
  "resolveIssueDomain domain0 =
     andThen (if TrimSpace domain0 = [] then andThen GetWebDomain (\<lambda>d. ret (TrimSpace d)) else ret (TrimSpace domain0)) (\<lambda>domain.
     andThen (reject (domain = []) (Err ''domain is required'')) (\<lambda>_.
     andThen (check_domain domain) (\<lambda>_. ret domain)))"

record acme_result =
  ai_Domain :: string
  ai_Staging :: bool
  ai_Applied :: bool
  ai_Status :: cert_status

definition IssueHTTP :: "string \<Rightarrow> string \<Rightarrow> bool \<Rightarrow> (panel, acme_result) act" where
  "IssueHTTP domain email staging =
     (let certFile = fst acmePanelPaths; keyFile = snd acmePanelPaths in
      andThen (resolveIssueDomain domain) (\<lambda>resolved.
      andThen (case validateEmail email of None \<Rightarrow> ret () | Some e \<Rightarrow> throw e) (\<lambda>_.
      andThen (CheckDomain resolved) (\<lambda>check.
      andThen (reject (\<not> dc_Matched check) (Err ''domain does not resolve to current server IP'')) (\<lambda>_.
      andThen (ensurePortAvailable 80) (\<lambda>_.
      andThen (ensureAcmeInstalled email) (\<lambda>_.
      andThen ensureSocatInstalled (\<lambda>_.
      andThen outside (\<lambda>_.
      andThen (issueAcmeCertificate resolved staging) (\<lambda>_.
      andThen (installAcmeCertificate resolved certFile keyFile) (\<lambda>_.
      andThen outside (\<lambda>_.
      andThen outside (\<lambda>_.
      andThen (SetWebDomain resolved) (\<lambda>_.
      andThen (applyHTTPSCertificate certFile keyFile ''acme_http'' ''letsencrypt'' ''enabled'' False) (\<lambda>applied.
      andThen GetStatus (\<lambda>status.
      ret \<lparr>ai_Domain = resolved, ai_Staging = staging, ai_Applied = applied, ai_Status = status\<rparr>))))))))))))))))"

end
