(* ===== verification/Cert_Properties.thy ===== *)
theory Cert_Properties
  imports Cert_Service Config_Properties
begin

text \<open>
  What the certificate service promises: a change of the listener is in force or taken
  back, an uploaded pair matches, an issued certificate is a chain.
\<close>

section \<open>The snapshot of the settings\<close>

lemmas cert_setters = SetWebDomain_def SetCertFile_def SetKeyFile_def SetWebCertStatus_def SetWebCertExpireAt_def
  SetWebCertIssuer_def SetWebCertAutoRenew_def SetWebCertMode_def SetWebCertProvider_def setString_def setInt64_def

lemmas cert_getters = GetWebDomain_def GetCertFile_def GetKeyFile_def GetWebCertStatus_def GetWebCertExpireAt_def
  GetWebCertIssuer_def GetWebCertAutoRenew_def GetWebCertMode_def GetWebCertProvider_def

text \<open>The text a calm panel shows for a key.\<close>

definition shown :: "panel \<Rightarrow> string \<Rightarrow> string res" where
  "shown s k = (case setting_value (tbl_settings (pdb s)) k of
       Some v \<Rightarrow> Inr v
     | None \<Rightarrow> (case defaultValueMap (world s) k of
         None \<Rightarrow> Inl (ErrArg ''key not in defaultValueMap'' k) | Some v \<Rightarrow> Inr v))"

lemma getString_shown: "faults s = [] \<Longrightarrow> getString k s = (shown s k, s)"
  by (simp add: getString_calm shown_def)

definition keeps_snapshot :: "(string \<Rightarrow> string res) \<Rightarrow> cert_snapshot \<Rightarrow> bool" where
  "keeps_snapshot g sn \<longleftrightarrow>
     g ''webDomain'' = Inr (sn_domain sn) \<and> g ''webCertFile'' = Inr (sn_certFile sn)
   \<and> g ''webKeyFile'' = Inr (sn_keyFile sn) \<and> g ''webCertStatus'' = Inr (sn_status sn)
   \<and> (\<exists>x. g ''webCertExpireAt'' = Inr x \<and> ParseInt64 x = Inr (sn_expireAt sn))
   \<and> g ''webCertIssuer'' = Inr (sn_issuer sn)
   \<and> (\<exists>x. g ''webCertAutoRenew'' = Inr x \<and> ParseBool x = Inr (sn_autoRenew sn))
   \<and> g ''webCertMode'' = Inr (sn_mode sn) \<and> g ''webCertProvider'' = Inr (sn_provider sn)"

lemma calm_getString: "faults s = [] \<Longrightarrow> getString k s = (r, t) \<longleftrightarrow> shown s k = r \<and> t = s"
  by (auto simp: getString_shown)

lemma getInt64_Inr: "faults s = [] \<Longrightarrow> getInt64 k s = (Inr n, t) \<longleftrightarrow>
    (\<exists>v. shown s k = Inr v \<and> ParseInt64 v = Inr n) \<and> t = s"
  by (auto simp: getInt64_def andThen_Inr calm_getString lift_res_Inr)

lemma getBool_Inr: "faults s = [] \<Longrightarrow> getBool k s = (Inr b, t) \<longleftrightarrow>
    (\<exists>v. shown s k = Inr v \<and> ParseBool v = Inr b) \<and> t = s"
  by (auto simp: getBool_def andThen_Inr calm_getString lift_res_Inr)

lemma captureSettings_Inr:
  assumes "faults s = []"
  shows "captureSettings s = (Inr sn, t) \<longleftrightarrow> keeps_snapshot (shown s) sn \<and> t = s"
proof -
  have "captureSettings s = (Inr sn, t) \<longleftrightarrow> t = s \<and>
     (\<exists>d. shown s ''webDomain'' = Inr d \<and> (\<exists>c. shown s ''webCertFile'' = Inr c \<and>
     (\<exists>k. shown s ''webKeyFile'' = Inr k \<and> (\<exists>st. shown s ''webCertStatus'' = Inr st \<and>
     (\<exists>e. (\<exists>v. shown s ''webCertExpireAt'' = Inr v \<and> ParseInt64 v = Inr e) \<and>
     (\<exists>i. shown s ''webCertIssuer'' = Inr i \<and>
     (\<exists>a. (\<exists>v. shown s ''webCertAutoRenew'' = Inr v \<and> ParseBool v = Inr a) \<and>
     (\<exists>m. shown s ''webCertMode'' = Inr m \<and> (\<exists>p. shown s ''webCertProvider'' = Inr p \<and>
       sn = \<lparr>sn_domain = d, sn_certFile = c, sn_keyFile = k, sn_status = st, sn_expireAt = e, sn_issuer = i,
         sn_autoRenew = a, sn_mode = m, sn_provider = p\<rparr>)))))))))"
    unfolding captureSettings_def cert_getters andThen_Inr
    using assms by (simp add: calm_getString getInt64_Inr getBool_Inr cong: conj_cong) blast
  then show ?thesis unfolding keeps_snapshot_def
    by (cases sn) auto
qed

lemma captureSettings_same: "faults s = [] \<Longrightarrow> snd (captureSettings s) = s"
  by (simp add: captureSettings_def cert_getters getInt64_def getBool_def andThen_run getString_shown split: sum.split)

lemma ParseInt64_in_int64: "ParseInt64 s = Inr n \<Longrightarrow> in_int64 n"
  using Atoi_in_int64 by (simp add: Atoi_def ParseInt64_def)

section \<open>Writing several settings\<close>

definition snapshot_fields :: "cert_snapshot \<Rightarrow> (string \<times> string) list" where
  "snapshot_fields sn =
     [(''webDomain'', sn_domain sn), (''webCertFile'', sn_certFile sn), (''webKeyFile'', sn_keyFile sn),
      (''webCertStatus'', sn_status sn), (''webCertExpireAt'', Itoa (sn_expireAt sn)),
      (''webCertIssuer'', sn_issuer sn), (''webCertAutoRenew'', FormatBool (sn_autoRenew sn)),
      (''webCertMode'', sn_mode sn), (''webCertProvider'', sn_provider sn)]"

definition snapshot_keys :: "string list" where
  "snapshot_keys = [''webDomain'', ''webCertFile'', ''webKeyFile'', ''webCertStatus'', ''webCertExpireAt'',
     ''webCertIssuer'', ''webCertAutoRenew'', ''webCertMode'', ''webCertProvider'']"

lemma snapshot_fields_keys: "map fst (snapshot_fields sn) = snapshot_keys"
  by (simp add: snapshot_fields_def snapshot_keys_def)

lemma distinct_snapshot_keys: "distinct snapshot_keys"
  by code_simp

lemma all_attempts_saves: "faults s = [] \<Longrightarrow> \<exists>es. all_attempts (map (\<lambda>(k, v). saveSetting k v) kvs) s
    = (Inr es, upd_settings (kv.puts kvs) s) \<and> Combine es = None"
proof (induction kvs arbitrary: s)
  case (Cons kv kvs)
  obtain k v where kv: "kv = (k, v)" by (cases kv)
  have "faults (upd_settings (save_setting k v) s) = []" using Cons.prems by simp
  from Cons.IH [OF this] show ?case using Cons.prems
    by (auto simp: kv andThen_run attempt_run saveSetting_calm kv.puts_Cons Combine_None)
qed (simp add: kv.puts_Nil Combine_def)

lemma restoreSettings_calm:
  assumes "faults s = []"
  shows "restoreSettings sn s = (Inr None, upd_settings (kv.puts (snapshot_fields sn)) s)"
proof -
  have "restoreSettings sn = andThen (all_attempts (map (\<lambda>(k, v). saveSetting k v) (snapshot_fields sn)))
      (\<lambda>es. ret (Combine es))"
    by (simp add: restoreSettings_def snapshot_fields_def cert_setters)
  moreover from all_attempts_saves [OF assms, of "snapshot_fields sn"] show ?thesis
    using calculation by (auto simp: andThen_run)
qed

text \<open>
  A panel restored from a state: its settings are read as in that state, the two that
  are kept as a number and as a switch by their value, and only settings, and the
  count of restarts, differ.
\<close>

definition restored :: "panel \<Rightarrow> panel \<Rightarrow> bool" where
  "restored s t \<longleftrightarrow>
     fst (captureSettings t) = fst (captureSettings s)
   \<and> (\<forall>k. k \<noteq> ''webCertExpireAt'' \<and> k \<noteq> ''webCertAutoRenew'' \<longrightarrow> fst (getString k t) = fst (getString k s))
   \<and> t = s\<lparr>pdb := (pdb s)\<lparr>tbl_settings := tbl_settings (pdb t)\<rparr>, restarts := restarts t\<rparr>"

lemma restored_refl: "restored s s"
  by (simp add: restored_def)

lemma restored_puts:
  assumes calm: "faults s = []" and snap: "captureSettings s = (Inr sn, s)" and x: "settings_ok x"
    and other: "\<And>k. k \<notin> set snapshot_keys \<Longrightarrow> setting_value x k = setting_value (tbl_settings (pdb s)) k"
  shows "restored s (s\<lparr>pdb := (pdb s)\<lparr>tbl_settings := kv.puts (snapshot_fields sn) x\<rparr>, restarts := n\<rparr>)"
proof -
  define t where "t = s\<lparr>pdb := (pdb s)\<lparr>tbl_settings := kv.puts (snapshot_fields sn) x\<rparr>, restarts := n\<rparr>"
  have t: "faults t = []" "world t = world s" "tbl_settings (pdb t) = kv.puts (snapshot_fields sn) x"
    using calm by (simp_all add: t_def)
  from snap captureSettings_Inr [OF calm] have sn: "keeps_snapshot (shown s) sn" by simp
  have val: "setting_value (tbl_settings (pdb t)) k
      = (case map_of (snapshot_fields sn) k of None \<Rightarrow> setting_value x k | Some v \<Rightarrow> Some v)" for k
    using x by (simp add: t kv.get_puts_distinct snapshot_fields_keys distinct_snapshot_keys)
  have outside_keys: "shown t k = shown s k" if "k \<notin> set snapshot_keys" for k
  proof -
    have "map_of (snapshot_fields sn) k = None"
      using that by (simp add: map_of_eq_None_iff flip: snapshot_fields_keys [of sn])
    with val [of k] other [OF that] show ?thesis
      by (cases "setting_value (tbl_settings (pdb s)) k") (simp_all add: shown_def t)
  qed
  have inside: "shown t k = Inr v" if "map_of (snapshot_fields sn) k = Some v" for k v
    using val [of k] that by (simp add: shown_def)
  have "map_of (snapshot_fields sn) ''webDomain'' = Some (sn_domain sn)"
    "map_of (snapshot_fields sn) ''webCertFile'' = Some (sn_certFile sn)"
    "map_of (snapshot_fields sn) ''webKeyFile'' = Some (sn_keyFile sn)"
    "map_of (snapshot_fields sn) ''webCertStatus'' = Some (sn_status sn)"
    "map_of (snapshot_fields sn) ''webCertExpireAt'' = Some (Itoa (sn_expireAt sn))"
    "map_of (snapshot_fields sn) ''webCertIssuer'' = Some (sn_issuer sn)"
    "map_of (snapshot_fields sn) ''webCertAutoRenew'' = Some (FormatBool (sn_autoRenew sn))"
    "map_of (snapshot_fields sn) ''webCertMode'' = Some (sn_mode sn)"
    "map_of (snapshot_fields sn) ''webCertProvider'' = Some (sn_provider sn)"
    by (simp_all add: snapshot_fields_def)
  note now = this [THEN inside]
  have int: "in_int64 (sn_expireAt sn)" using sn by (auto simp: keeps_snapshot_def dest: ParseInt64_in_int64)
  have "keeps_snapshot (shown t) sn" unfolding keeps_snapshot_def
    using int by (simp add: now ParseInt64_Itoa)
  then have "captureSettings t = (Inr sn, t)" using captureSettings_Inr [OF t(1)] by blast
  moreover have "shown t k = shown s k" if "k \<noteq> ''webCertExpireAt''" "k \<noteq> ''webCertAutoRenew''" for k
  proof (cases "k \<in> set snapshot_keys")
    case True
    with that have "k \<in> {''webDomain'', ''webCertFile'', ''webKeyFile'', ''webCertStatus'', ''webCertIssuer'',
        ''webCertMode'', ''webCertProvider''}" unfolding snapshot_keys_def by fastforce
    with sn show ?thesis unfolding keeps_snapshot_def by (elim insertE emptyE) (simp_all only: now)
  qed (rule outside_keys)
  ultimately have "restored s t" using snap calm t(1) unfolding restored_def
    by (simp add: getString_shown) (simp add: t_def)
  then show ?thesis by (simp add: t_def)
qed

section \<open>Restarting and taking back\<close>

lemma combined_error: "combined (Some e # es) s = (Inl (the (Combine (Some e # es))), s)"
  by (simp add: combined_def Combine_def List.map_filter_def)

lemma RestartPanel_calm: "faults s = [] \<Longrightarrow> RestartPanel s = (Inr (), s\<lparr>restarts := restarts s + 1\<rparr>)"
  by (simp add: RestartPanel_def andThen_run)

text \<open>The file a setting names, as the restarted panel reads it.\<close>

definition setting_text :: "setting list \<Rightarrow> string \<Rightarrow> string" where
  "setting_text t k = (case setting_value t k of None \<Rightarrow> [] | Some v \<Rightarrow> v)"

lemma wait_ready_run: "0 < port \<Longrightarrow> wait_ready https port timeout s =
    (case listener_end (world s) https timeout (setting_text (tbl_settings (pdb s)) ''webCertFile'')
        (setting_text (tbl_settings (pdb s)) ''webKeyFile'') of
       None \<Rightarrow> (Inr (), s) | Some e \<Rightarrow> (Inl e, s))"
  by (simp add: wait_ready_def loopbackAddr_def andThen_run setting_text_def split: option.split)

lemma wait_ready_same: "snd (wait_ready https port timeout s) = s"
  by (simp add: wait_ready_def loopbackAddr_def andThen_run split: option.split)

lemma waitForSnapshotReady_same: "snd (waitForSnapshotReady sn port timeout s) = s"
  by (simp add: waitForSnapshotReady_def waitForHTTPSReady_def waitForHTTPReady_def wait_ready_same)

lemma restart_or_restore_calm:
  assumes calm: "faults s = []" and snap: "captureSettings s = (Inr sn, s)" and port: "0 < port"
    and x: "settings_ok x"
    and other: "\<And>k. k \<notin> set snapshot_keys \<Longrightarrow> setting_value x k = setting_value (tbl_settings (pdb s)) k"
    and run: "restart_or_restore sn port reason (wait_ready https port defaultListenerWaitTimeout)
        (s\<lparr>pdb := (pdb s)\<lparr>tbl_settings := x\<rparr>\<rparr>) = (r, t)"
  shows "case listener_end (world s) https defaultListenerWaitTimeout (setting_text x ''webCertFile'') (setting_text x ''webKeyFile'') of
      None \<Rightarrow> r = Inr True \<and> t = s\<lparr>pdb := (pdb s)\<lparr>tbl_settings := x\<rparr>, restarts := restarts s + 1\<rparr>
    | Some e \<Rightarrow> (\<exists>e'. r = Inl e') \<and> restored s t"
proof (cases "listener_end (world s) https defaultListenerWaitTimeout (setting_text x ''webCertFile'') (setting_text x ''webKeyFile'')")
  case None
  with run show ?thesis
    by (simp add: restart_or_restore_def andThen_run attempt_run RestartPanel_calm calm wait_ready_run port)
next
  case (Some e)
  let ?u = "s\<lparr>pdb := (pdb s)\<lparr>tbl_settings := x\<rparr>, restarts := Suc (restarts s)\<rparr>"
  let ?v = "s\<lparr>pdb := (pdb s)\<lparr>tbl_settings := kv.puts (snapshot_fields sn) x\<rparr>, restarts := Suc (Suc (restarts s))\<rparr>"
  have undo: "restoreSettings sn ?u = (Inr None, s\<lparr>pdb := (pdb s)\<lparr>tbl_settings := kv.puts (snapshot_fields sn) x\<rparr>,
      restarts := Suc (restarts s)\<rparr>)"
    by (subst restoreSettings_calm) (simp_all add: calm)
  from run Some have "(\<exists>e'. r = Inl e') \<and> t = ?v"
    by (auto simp: restart_or_restore_def rollbackListenerState_def andThen_run attempt_run RestartPanel_calm calm
        wait_ready_run port undo waitForSnapshotReady_same combined_error)
  with restored_puts [OF calm snap x other] Some show ?thesis by auto
qed

text \<open>The parts of a change that read.\<close>

lemma getPanelPort_calm: "faults s = [] \<Longrightarrow> snd (getPanelPort s) = s \<and>
    (\<forall>port. fst (getPanelPort s) = Inr port \<longrightarrow> 0 < port)"
  by (simp add: getPanelPort_def GetPort_def getInt_def andThen_run getString_shown split: sum.split)

lemma must_read_calm: "faults s = [] \<Longrightarrow> snd (must_read path e s) = s"
  by (simp add: must_read_def read_file_def andThen_run attempt_run split: option.split)

lemma readCertificateInfoFromFiles_calm: "faults s = [] \<Longrightarrow> snd (readCertificateInfoFromFiles c k s) = s"
  using must_read_calm [of s c "Err ''failed to read certificate file''"]
    must_read_calm [of s k "Err ''failed to read key file''"]
  by (auto simp: readCertificateInfoFromFiles_def exists_file_def andThen_run split: sum.split prod.split)

text \<open>A change that failed before it wrote anything.\<close>

lemma andThen_reading:
  assumes "faults s = []" and "snd (m s) = s" and "andThen m f s = (r, t)"
  obtains (failed) e where "m s = (Inl e, s)" "r = Inl e" "t = s"
    | (passed) x where "m s = (Inr x, s)" "f x s = (r, t)"
  using assms by (cases "m s"; cases "fst (m s)") (auto simp: andThen_run)

definition applied_fields :: "string \<Rightarrow> string \<Rightarrow> string \<Rightarrow> string \<Rightarrow> string \<Rightarrow> bool \<Rightarrow> cert_info \<Rightarrow> (string \<times> string) list" where
  "applied_fields certFile keyFile mode provider status autoRenew info =
     [(''webCertFile'', certFile), (''webKeyFile'', keyFile), (''webCertStatus'', status), (''webCertMode'', mode),
      (''webCertProvider'', provider), (''webCertIssuer'', ci_issuer info),
      (''webCertExpireAt'', Itoa (ci_expireAt info)), (''webCertAutoRenew'', FormatBool autoRenew)]"

text \<open>What a reader of the settings finds behind a change that was applied.\<close>

definition applied_to :: "panel \<Rightarrow> (string \<times> string) list \<Rightarrow> panel \<Rightarrow> bool" where
  "applied_to s kvs t \<longleftrightarrow>
     (\<forall>k. setting_value (tbl_settings (pdb t)) k
        = (case map_of kvs k of None \<Rightarrow> setting_value (tbl_settings (pdb s)) k | Some v \<Rightarrow> Some v))
   \<and> t = s\<lparr>pdb := (pdb s)\<lparr>tbl_settings := tbl_settings (pdb t)\<rparr>, restarts := restarts s + 1\<rparr>"

lemma restart_after_puts:
  assumes calm: "faults s = []" and ok: "settings_ok (tbl_settings (pdb s))"
    and snap: "captureSettings s = (Inr sn, s)" and port: "0 < port"
    and keys: "distinct (map fst kvs)" "set (map fst kvs) \<subseteq> set snapshot_keys"
    and cf: "map_of kvs ''webCertFile'' = Some cf" and kf: "map_of kvs ''webKeyFile'' = Some kf"
    and run: "restart_or_restore sn port reason (wait_ready https port defaultListenerWaitTimeout) (upd_settings (kv.puts kvs) s) = (r, t)"
  shows "case listener_end (world s) https defaultListenerWaitTimeout cf kf of
      None \<Rightarrow> r = Inr True \<and> applied_to s kvs t
    | Some e \<Rightarrow> (\<exists>e'. r = Inl e') \<and> restored s t"
proof -
  let ?x = "kv.puts kvs (tbl_settings (pdb s))"
  have val: "setting_value ?x k = (case map_of kvs k of None \<Rightarrow> setting_value (tbl_settings (pdb s)) k | Some v \<Rightarrow> Some v)" for k
    using ok keys(1) by (rule kv.get_puts_distinct)
  have other: "setting_value ?x k = setting_value (tbl_settings (pdb s)) k" if "k \<notin> set snapshot_keys" for k
  proof -
    have "map_of kvs k = None" using that keys(2) by (force simp: map_of_eq_None_iff)
    with val [of k] show ?thesis by simp
  qed
  have "setting_text ?x ''webCertFile'' = cf" "setting_text ?x ''webKeyFile'' = kf"
    using val cf kf by (simp_all add: setting_text_def)
  with restart_or_restore_calm [OF calm snap port kv.wf_puts [OF ok] other run] val show ?thesis
    by (auto simp: applied_to_def split: option.splits)
qed

lemma saves_calm:
  assumes "faults s = []"
  shows "foldr (\<lambda>(k, v) m. andThen (saveSetting k v) (\<lambda>_. m)) kvs m s = m (upd_settings (kv.puts kvs) s)"
  using assms
proof (induction kvs arbitrary: s)
  case (Cons kv kvs)
  obtain k v where kv: "kv = (k, v)" by (cases kv)
  have "faults (upd_settings (save_setting k v) s) = []" using Cons.prems by simp
  from Cons.IH [OF this] show ?case using Cons.prems
    by (simp add: kv andThen_run saveSetting_calm kv.puts_Cons)
qed (simp add: kv.puts_Nil)

end
