(* ===== verification/Cert_Failures.thy ===== *)
theory Cert_Failures
  imports Cert_Properties
begin

text \<open>
  A change of the HTTPS certificate (\<open>applyHTTPSCertificate\<close>, src/web/service/cert.go) under any schedule of failing
  statements, files and restarts: actions that only read, writes that fail, and what is put back.
\<close>

section \<open>Reading and writing under a schedule of failures\<close>

text \<open>
  Any statement, file or restart may fail, with any error but \<open>gorm.ErrRecordNotFound\<close>, which stands for an empty answer only.
\<close>

definition real_faults :: "panel \<Rightarrow> bool" where
  "real_faults s \<longleftrightarrow> Some NotFound \<notin> set (faults s)"

abbreviation unfailing :: "panel \<Rightarrow> panel" where
  "unfailing s \<equiv> s\<lparr>faults := []\<rparr>"

definition rest_of :: "panel \<Rightarrow> err option list \<Rightarrow> bool" where
  "rest_of s fs \<longleftrightarrow> set fs \<subseteq> set (faults s)"

lemma rest_of_real: "rest_of s fs \<Longrightarrow> real_faults s \<Longrightarrow> real_faults (s\<lparr>faults := fs\<rparr>)"
  by (auto simp: rest_of_def real_faults_def)

lemma rest_of_self: "rest_of s (faults s)"
  by (simp add: rest_of_def)

lemma rest_of_trans: "rest_of s fs \<Longrightarrow> rest_of (s\<lparr>faults := fs\<rparr>) gs \<Longrightarrow> rest_of s gs"
  by (auto simp: rest_of_def)

lemma outside_rest: "\<exists>fs. rest_of s fs \<and> snd (outside s) = s\<lparr>faults := fs\<rparr> \<and> (\<forall>e. fst (outside s) = Inl e \<longrightarrow> Some e \<in> set (faults s))"
proof (cases "faults s")
  case Nil
  then show ?thesis by (intro exI [of _ "[]"]) (simp add: rest_of_def)
next
  case (Cons f fs)
  then show ?thesis by (intro exI [of _ fs]) (auto simp: rest_of_def outside_run split: option.split)
qed

text \<open>An action that reads: it changes nothing but the schedule, and what it returns it returns without failures too.\<close>

definition reading :: "(panel, 'a) act \<Rightarrow> bool" where
  "reading m \<longleftrightarrow> (\<forall>s. real_faults s \<longrightarrow>
     (\<exists>fs. rest_of s fs \<and> snd (m s) = s\<lparr>faults := fs\<rparr>)
     \<and> (\<forall>x. fst (m s) = Inr x \<longrightarrow> fst (m (unfailing s)) = Inr x))"

lemma readingD: "reading m \<Longrightarrow> real_faults s \<Longrightarrow> m s = (r, t) \<Longrightarrow> (\<exists>fs. rest_of s fs \<and> t = s\<lparr>faults := fs\<rparr>)
    \<and> (\<forall>x. r = Inr x \<longrightarrow> m (unfailing s) = (Inr x, unfailing s))"
proof -
  assume m: "reading m" "real_faults s" "m s = (r, t)"
  have "real_faults (unfailing s)" by (simp add: real_faults_def)
  with m(1) obtain fs where "rest_of (unfailing s) fs" "snd (m (unfailing s)) = unfailing s\<lparr>faults := fs\<rparr>"
    unfolding reading_def by metis
  then have "snd (m (unfailing s)) = unfailing s" by (simp add: rest_of_def)
  with m show ?thesis unfolding reading_def by (metis fst_conv snd_conv prod.collapse)
qed

lemma reading_andThen:
  assumes "reading m" "\<And>x. reading (f x)"
  shows "reading (andThen m f)"
  unfolding reading_def
proof (intro allI impI)
  fix s assume s: "real_faults s"
  obtain r u where m: "m s = (r, u)" by (cases "m s")
  from readingD [OF assms(1) s m] obtain fs where u: "rest_of s fs" "u = s\<lparr>faults := fs\<rparr>" by blast
  show "(\<exists>fs. rest_of s fs \<and> snd (andThen m f s) = s\<lparr>faults := fs\<rparr>)
    \<and> (\<forall>x. fst (andThen m f s) = Inr x \<longrightarrow> fst (andThen m f (unfailing s)) = Inr x)"
  proof (cases r)
    case (Inl e)
    with m u show ?thesis by (auto simp: andThen_run)
  next
    case (Inr x)
    obtain r' v where f: "f x u = (r', v)" by (cases "f x u")
    from readingD [OF assms(2) rest_of_real [OF u(1) s], of x r' v] f u
    obtain gs where v: "rest_of u gs" "v = u\<lparr>faults := gs\<rparr>" "\<forall>y. r' = Inr y \<longrightarrow> f x (unfailing s) = (Inr y, unfailing s)"
      by auto
    have "m (unfailing s) = (Inr x, unfailing s)" using readingD [OF assms(1) s m] Inr by blast
    with m Inr f u v rest_of_trans [OF u(1), of gs] show ?thesis by (auto simp: andThen_run)
  qed
qed

lemma reading_pure: "(\<And>s. snd (m s) = s) \<Longrightarrow> (\<And>s. fst (m (unfailing s)) = fst (m s)) \<Longrightarrow> reading m"
  unfolding reading_def by (metis rest_of_self panel.surjective panel.update_convs(3) old.unit.exhaust)

lemma reading_ret: "reading (ret x)"
  by (rule reading_pure) simp_all

lemma reading_throw: "reading (throw e)"
  by (rule reading_pure) simp_all

lemma reading_lift: "reading (lift_res r)"
  by (rule reading_pure) (cases r; simp)+

lemma reading_reject: "reading (reject b e)"
  by (cases b) (simp_all add: reject_def reading_ret reading_throw)

lemma reading_gets: "(\<And>s. f (unfailing s) = f s) \<Longrightarrow> reading (gets f)"
  by (rule reading_pure) simp_all

lemma outside_calls:
  assumes "real_faults s" "outside s = (r, t)"
  obtains (passed) fs where "r = Inr ()" "rest_of s fs" "t = s\<lparr>faults := fs\<rparr>"
    | (failed) e fs where "r = Inl e" "e \<noteq> NotFound" "Some e \<in> set (faults s)" "rest_of s fs" "t = s\<lparr>faults := fs\<rparr>"
  using outside_rest [of s] assms by (cases r) (auto simp: real_faults_def)

lemma shown_faults: "shown (s\<lparr>faults := fs\<rparr>) k = shown s k"
  by (simp add: shown_def split: option.split)

lemma getString_reading: "reading (getString k)"
  unfolding reading_def
proof (intro allI impI)
  fix s assume s: "real_faults s"
  obtain r t where o: "outside s = (r, t)" by (cases "outside s")
  from s o show "(\<exists>fs. rest_of s fs \<and> snd (getString k s) = s\<lparr>faults := fs\<rparr>)
    \<and> (\<forall>x. fst (getString k s) = Inr x \<longrightarrow> fst (getString k (unfailing s)) = Inr x)"
  proof (cases rule: outside_calls)
    case (passed fs)
    have "getString k s = (shown s k, s\<lparr>faults := fs\<rparr>)"
      using o passed by (auto simp: getString_def getSetting_def query_def stmt_def on_handle_def andThen_run attempt_run first_setting_def
        shown_def setting_value_def split: option.split)
    with passed(2) show ?thesis by (auto simp: getString_shown shown_faults)
  next
    case (failed e fs)
    then have "getString k s = (Inl e, s\<lparr>faults := fs\<rparr>)"
      using o by (simp add: getString_def getSetting_def query_def stmt_def andThen_run attempt_run)
    with failed show ?thesis by auto
  qed
qed

lemma must_read_reading: "reading (must_read path e)"
  unfolding reading_def
proof (intro allI impI)
  fix s assume s: "real_faults s"
  obtain r t where o: "outside s = (r, t)" by (cases "outside s")
  from s o show "(\<exists>fs. rest_of s fs \<and> snd (must_read path e s) = s\<lparr>faults := fs\<rparr>)
    \<and> (\<forall>x. fst (must_read path e s) = Inr x \<longrightarrow> fst (must_read path e (unfailing s)) = Inr x)"
    by (cases rule: outside_calls) (use o in \<open>auto simp: must_read_def read_file_def andThen_run attempt_run split: option.split\<close>)
qed

lemmas reading_intro = reading_andThen reading_ret reading_throw reading_lift reading_reject reading_gets getString_reading
  must_read_reading

lemma captureSettings_reading: "reading captureSettings"
  unfolding captureSettings_def cert_getters getInt64_def getBool_def by (intro reading_intro)

lemma getPanelPort_reading: "reading getPanelPort"
  unfolding getPanelPort_def GetPort_def getInt_def by (intro reading_intro)

lemma readCertificateInfoFromFiles_reading: "reading (readCertificateInfoFromFiles c k)"
  unfolding readCertificateInfoFromFiles_def exists_file_def
  by (intro reading_intro) (auto intro: reading_intro)

text \<open>A write of a setting: done, or failed and nothing written.\<close>

lemma saveSetting_calls:
  assumes s: "real_faults s" and run: "saveSetting k v s = (r, t)"
  obtains (saved) fs where "r = Inr ()" "rest_of s fs" "t = upd_settings (save_setting k v) (s\<lparr>faults := fs\<rparr>)"
    | (failed) e fs where "r = Inl e" "Some e \<in> set (faults s)" "rest_of s fs" "t = s\<lparr>faults := fs\<rparr>"
proof -
  obtain q u where o: "outside s = (q, u)" by (cases "outside s")
  from s o show ?thesis
  proof (cases rule: outside_calls)
    case (failed e fs)
    then have "r = Inl e \<and> t = s\<lparr>faults := fs\<rparr>" using o run
      by (auto simp: saveSetting_def getSetting_def query_def stmt_def andThen_run attempt_run)
    with that(2) failed show ?thesis by blast
  next
    case (passed fs)
    obtain q2 v2 where o2: "outside u = (q2, v2)" by (cases "outside u")
    have u: "real_faults u" "rest_of u gs \<Longrightarrow> rest_of s gs" for gs
      using passed(2,3) rest_of_real [OF _ s] rest_of_trans by auto
    from u(1) o2 show ?thesis
    proof (cases rule: outside_calls)
      case (passed gs)
      note p2 = passed
      from \<open>q = Inr ()\<close> \<open>u = s\<lparr>faults := fs\<rparr>\<close> o o2 p2 run
      have "r = Inr () \<and> t = upd_settings (save_setting k v) (s\<lparr>faults := gs\<rparr>)"
        by (auto simp: saveSetting_def getSetting_def query_def stmt_def on_handle_def andThen_run attempt_run first_setting_def
          create_setting_def store_setting_def save_setting_def insert_row_def Let_def split: option.splits)
      with that(1) u(2) p2 show ?thesis by blast
    next
      case (failed e gs)
      note f2 = failed
      from \<open>q = Inr ()\<close> \<open>u = s\<lparr>faults := fs\<rparr>\<close> o o2 f2 run
      have "r = Inl e \<and> t = s\<lparr>faults := gs\<rparr>"
        by (auto simp: saveSetting_def getSetting_def query_def stmt_def on_handle_def andThen_run attempt_run first_setting_def split: option.splits)
      moreover have "Some e \<in> set (faults s)" using f2 passed by (auto simp: rest_of_def)
      ultimately show ?thesis using that(2) u(2) f2 by blast
    qed
  qed
qed

lemma saves_run:
  assumes "real_faults s" "foldr (\<lambda>(k, v) m. andThen (saveSetting k v) (\<lambda>_. m)) kvs m s = (r, t)"
  shows "(\<exists>fs. rest_of s fs \<and> m (upd_settings (kv.puts kvs) (s\<lparr>faults := fs\<rparr>)) = (r, t))
    \<or> (\<exists>j e fs. j < length kvs \<and> rest_of s fs \<and> r = Inl e \<and> t = upd_settings (kv.puts (take j kvs)) (s\<lparr>faults := fs\<rparr>))"
  using assms
proof (induction kvs arbitrary: s)
  case Nil
  then show ?case by (intro disjI1 exI [of _ "faults s"]) (simp add: kv.puts_Nil rest_of_self)
next
  case (Cons kv kvs)
  obtain k v where kv: "kv = (k, v)" by (cases kv)
  obtain r1 t1 where sv: "saveSetting k v s = (r1, t1)" by (cases "saveSetting k v s")
  from Cons.prems(1) sv show ?case
  proof (cases rule: saveSetting_calls)
    case (failed e fs)
    with Cons.prems(2) sv show ?thesis
      by (intro disjI2 exI [of _ 0] exI [of _ e] exI [of _ fs]) (simp add: kv andThen_run kv.puts_Nil)
  next
    case (saved fs)
    have real: "real_faults t1" using saved rest_of_real [OF saved(2) Cons.prems(1)] by (simp add: real_faults_def)
    have rest: "rest_of s gs" if "rest_of t1 gs" for gs using that saved by (auto simp: rest_of_def)
    let ?F = "foldr (\<lambda>(k, v) m. andThen (saveSetting k v) (\<lambda>_. m)) kvs m"
    have "andThen (saveSetting k v) (\<lambda>_. ?F) s = (r, t)" using Cons.prems(2) by (simp add: kv)
    then have "?F t1 = (r, t)"
      using andThen_run [of "saveSetting k v" "\<lambda>_. ?F" s] sv saved(1) by simp
    from Cons.IH [OF real this] show ?thesis
    proof (elim disjE exE conjE)
      fix gs assume "rest_of t1 gs" "m (upd_settings (kv.puts kvs) (t1\<lparr>faults := gs\<rparr>)) = (r, t)"
      then show ?thesis
        using rest saved(3) by (intro disjI1 exI [of _ gs]) (simp add: kv kv.puts_Cons)
    next
      fix j e gs assume "j < length kvs" "rest_of t1 gs" "r = Inl e"
        "t = upd_settings (kv.puts (take j kvs)) (t1\<lparr>faults := gs\<rparr>)"
      then show ?thesis
        using rest saved(3) by (intro disjI2 exI [of _ "Suc j"] exI [of _ e] exI [of _ gs]) (simp add: kv kv.puts_Cons)
    qed
  qed
qed

text \<open>The writes whose errors are \<open>es\<close>: those that were done.\<close>

definition written :: "(string \<times> string) list \<Rightarrow> err option list \<Rightarrow> (string \<times> string) list" where
  "written kvs es = map fst (filter (\<lambda>(kv, e). e = None) (zip kvs es))"

lemma written_all: "length es = length kvs \<Longrightarrow> \<forall>e \<in> set es. e = None \<Longrightarrow> written kvs es = kvs"
  unfolding written_def by (induction es kvs rule: list_induct2) auto

lemma attempts_run:
  assumes "real_faults s"
  shows "\<exists>es fs. all_attempts (map (\<lambda>(k, v). saveSetting k v) kvs) s
      = (Inr es, upd_settings (kv.puts (written kvs es)) (s\<lparr>faults := fs\<rparr>))
    \<and> length es = length kvs \<and> set es \<subseteq> insert None (set (faults s)) \<and> rest_of s fs"
  using assms
proof (induction kvs arbitrary: s)
  case Nil
  then show ?case by (intro exI [of _ "[]"] exI [of _ "faults s"]) (simp add: written_def kv.puts_Nil rest_of_self)
next
  case (Cons kv kvs)
  obtain k v where kv: "kv = (k, v)" by (cases kv)
  obtain r1 t1 where sv: "saveSetting k v s = (r1, t1)" by (cases "saveSetting k v s")
  from Cons.prems sv show ?case
  proof (cases rule: saveSetting_calls)
    case (saved fs)
    have real: "real_faults t1" using saved rest_of_real [OF saved(2) Cons.prems] by (simp add: real_faults_def)
    have rest: "set (faults t1) \<subseteq> set (faults s)" using saved by (simp add: rest_of_def)
    from Cons.IH [OF real] obtain es gs where es: "all_attempts (map (\<lambda>(k, v). saveSetting k v) kvs) t1
        = (Inr es, upd_settings (kv.puts (written kvs es)) (t1\<lparr>faults := gs\<rparr>))"
      "length es = length kvs" "set es \<subseteq> insert None (set (faults t1))" "rest_of t1 gs" by blast
    with saved sv rest show ?thesis
      by (intro exI [of _ "None # es"] exI [of _ gs])
        (auto simp: kv andThen_run attempt_run written_def kv.puts_Cons rest_of_def)
  next
    case (failed e fs)
    have real: "real_faults t1" using failed rest_of_real [OF failed(3) Cons.prems] by simp
    have rest: "set (faults t1) \<subseteq> set (faults s)" using failed by (simp add: rest_of_def)
    from Cons.IH [OF real] obtain es gs where es: "all_attempts (map (\<lambda>(k, v). saveSetting k v) kvs) t1
        = (Inr es, upd_settings (kv.puts (written kvs es)) (t1\<lparr>faults := gs\<rparr>))"
      "length es = length kvs" "set es \<subseteq> insert None (set (faults t1))" "rest_of t1 gs" by blast
    with failed sv rest show ?thesis
      by (intro exI [of _ "Some e # es"] exI [of _ gs])
        (auto simp: kv andThen_run attempt_run written_def rest_of_def)
  qed
qed

section \<open>A change of the certificate under a schedule of failures\<close>

lemma RestartPanel_calls:
  assumes s: "real_faults s" and run: "RestartPanel s = (r, t)"
  obtains (restarted) fs where "r = Inr ()" "rest_of s fs" "t = s\<lparr>faults := fs, restarts := restarts s + 1\<rparr>"
    | (failed) e fs where "r = Inl e" "rest_of s fs" "t = s\<lparr>faults := fs\<rparr>"
proof -
  obtain q u where o: "outside s = (q, u)" by (cases "outside s")
  from s o show ?thesis
    by (cases rule: outside_calls) (use o run that in \<open>auto simp: RestartPanel_def andThen_run\<close>)
qed

lemma restoreSettings_run:
  assumes "real_faults s"
  shows "\<exists>es fs. restoreSettings sn s = (Inr (Combine es), upd_settings (kv.puts (written (snapshot_fields sn) es)) (s\<lparr>faults := fs\<rparr>))
    \<and> length es = length (snapshot_fields sn) \<and> set es \<subseteq> insert None (set (faults s)) \<and> rest_of s fs"
proof -
  have "restoreSettings sn = andThen (all_attempts (map (\<lambda>(k, v). saveSetting k v) (snapshot_fields sn)))
      (\<lambda>es. ret (Combine es))"
    by (simp add: restoreSettings_def snapshot_fields_def cert_setters)
  moreover from attempts_run [OF assms, of "snapshot_fields sn"] obtain es fs where
    "all_attempts (map (\<lambda>(k, v). saveSetting k v) (snapshot_fields sn)) s
      = (Inr es, upd_settings (kv.puts (written (snapshot_fields sn) es)) (s\<lparr>faults := fs\<rparr>))"
    "length es = length (snapshot_fields sn)" "set es \<subseteq> insert None (set (faults s))" "rest_of s fs" by blast
  ultimately show ?thesis by (intro exI [of _ es] exI [of _ fs]) (simp add: andThen_run)
qed

text \<open>
  The end of a change that was not in force: the settings are put back, one by one, and the errors are part of the answer.
\<close>

definition put_back :: "panel \<Rightarrow> cert_snapshot \<Rightarrow> setting list \<Rightarrow> err \<Rightarrow> panel \<Rightarrow> bool" where
  "put_back s sn x e t \<longleftrightarrow> (\<exists>es cs. length es = length (snapshot_fields sn) \<and> set es \<subseteq> insert None (set (faults s))
     \<and> tbl_settings (pdb t) = kv.puts (written (snapshot_fields sn) es) x
     \<and> e = Multi cs \<and> (\<forall>r. Combine es = Some r \<longrightarrow> r \<in> set cs))"

text \<open>Only settings, the count of restarts and the schedule differ.\<close>

definition only_settings :: "panel \<Rightarrow> panel \<Rightarrow> bool" where
  "only_settings s t \<longleftrightarrow> t = s\<lparr>pdb := (pdb s)\<lparr>tbl_settings := tbl_settings (pdb t)\<rparr>, faults := faults t, restarts := restarts t\<rparr>
     \<and> rest_of s (faults t)"

lemma combined_run: "Some e \<in> set es \<Longrightarrow> combined es s = (Inl (Multi (List.map_filter (\<lambda>e. e) es)), s)"
  by (auto simp: combined_def Combine_def Let_def List.map_filter_def filter_empty_conv)

lemma in_map_filter: "Some r \<in> set es \<Longrightarrow> r \<in> set (List.map_filter (\<lambda>e. e) es)"
  by (force simp: List.map_filter_def)

lemma rollback_run:
  assumes s: "real_faults s" and run: "rollbackListenerState sn port reason cause s = (r, t)"
  shows "\<exists>e. r = Inl e \<and> put_back s sn (tbl_settings (pdb s)) e t \<and> only_settings s t"
proof -
  from restoreSettings_run [OF s, of sn] obtain es fs where es: "restoreSettings sn s
      = (Inr (Combine es), upd_settings (kv.puts (written (snapshot_fields sn) es)) (s\<lparr>faults := fs\<rparr>))"
    "length es = length (snapshot_fields sn)" "set es \<subseteq> insert None (set (faults s))" "rest_of s fs" by blast
  let ?u = "upd_settings (kv.puts (written (snapshot_fields sn) es)) (s\<lparr>faults := fs\<rparr>)"
  have u: "real_faults ?u" using rest_of_real [OF es(4) s] by (simp add: real_faults_def)
  obtain r2 v where rp: "RestartPanel ?u = (r2, v)" by (cases "RestartPanel ?u")
  have v: "\<exists>gs n. rest_of s gs \<and> v = ?u\<lparr>faults := gs, restarts := n\<rparr>"
    using u rp
  proof (cases rule: RestartPanel_calls)
    case (restarted gs)
    with es(4) show ?thesis by (intro exI [of _ gs] exI [of _ "restarts s + 1"]) (auto simp: rest_of_def)
  next
    case (failed e gs)
    with es(4) show ?thesis by (intro exI [of _ gs] exI [of _ "restarts s"]) (auto simp: rest_of_def)
  qed
  obtain w where t: "t = v" and w: "r = Inl (Multi (List.map_filter (\<lambda>e. e) [Some reason, Some cause, Combine es, err_of r2, w]))"
  proof -
    have "Some reason \<in> set [Some reason, Some cause, Combine es, err_of r2, w]" for w by simp
    note c = combined_run [OF this]
    from run es(1) rp have "(r, t) = combined [Some reason, Some cause, Combine es, err_of r2,
        if err_of r2 = None then err_of (fst (waitForSnapshotReady sn port defaultListenerWaitTimeout v)) else None] v"
      by (cases "err_of r2 = None") (auto simp: rollbackListenerState_def andThen_run attempt_run waitForSnapshotReady_same)
    then show ?thesis using that c by simp
  qed
  have "\<forall>e. Combine es = Some e \<longrightarrow> e \<in> set (List.map_filter (\<lambda>e. e) [Some reason, Some cause, Combine es, err_of r2, w])"
    by (auto intro: in_map_filter)
  then show ?thesis using v es(2,3) t w unfolding put_back_def only_settings_def by auto
qed

lemma rest_settings: "rest_of s fs \<Longrightarrow> only_settings s (s\<lparr>faults := fs\<rparr>)"
  "rest_of s fs \<Longrightarrow> only_settings s (upd_settings f (s\<lparr>faults := fs\<rparr>))"
  by (simp_all add: only_settings_def)

lemma only_settings_iff: "only_settings s t \<longleftrightarrow>
    (\<exists>x fs n. t = s\<lparr>pdb := (pdb s)\<lparr>tbl_settings := x\<rparr>, faults := fs, restarts := n\<rparr> \<and> rest_of s fs)"
proof
  assume "\<exists>x fs n. t = s\<lparr>pdb := (pdb s)\<lparr>tbl_settings := x\<rparr>, faults := fs, restarts := n\<rparr> \<and> rest_of s fs"
  then show "only_settings s t" by (elim exE conjE) (simp add: only_settings_def)
qed (auto simp: only_settings_def)

lemma only_settings_trans: "only_settings s u \<Longrightarrow> only_settings u t \<Longrightarrow> only_settings s t"
  unfolding only_settings_iff
proof (elim exE conjE)
  fix x fs n y gs m
  assume u: "u = s\<lparr>pdb := (pdb s)\<lparr>tbl_settings := x\<rparr>, faults := fs, restarts := n\<rparr>" "rest_of s fs"
    and t: "t = u\<lparr>pdb := (pdb u)\<lparr>tbl_settings := y\<rparr>, faults := gs, restarts := m\<rparr>" "rest_of u gs"
  have "t = s\<lparr>pdb := (pdb s)\<lparr>tbl_settings := y\<rparr>, faults := gs, restarts := m\<rparr>" "rest_of s gs"
    using u t by (auto simp: rest_of_def)
  then show "\<exists>x fs n. t = s\<lparr>pdb := (pdb s)\<lparr>tbl_settings := x\<rparr>, faults := fs, restarts := n\<rparr> \<and> rest_of s fs" by blast
qed

lemma put_back_from: "put_back v sn x e t \<Longrightarrow> set (faults v) \<subseteq> set (faults u) \<Longrightarrow> put_back u sn x e t"
  unfolding put_back_def by blast

lemma restart_or_restore_run:
  assumes s: "real_faults u" and port: "0 < port"
    and run: "restart_or_restore sn port reason (wait_ready https port defaultListenerWaitTimeout) u = (r, t)"
  shows "only_settings u t \<and> (case r of
      Inr b \<Rightarrow> b \<and> tbl_settings (pdb t) = tbl_settings (pdb u) \<and> restarts t = restarts u + 1
        \<and> listener_end (world u) https defaultListenerWaitTimeout (setting_text (tbl_settings (pdb u)) ''webCertFile'')
            (setting_text (tbl_settings (pdb u)) ''webKeyFile'') = None
    | Inl e \<Rightarrow> put_back u sn (tbl_settings (pdb u)) e t)"
proof -
  obtain r1 v where rp: "RestartPanel u = (r1, v)" by (cases "RestartPanel u")
  from s rp show ?thesis
  proof (cases rule: RestartPanel_calls)
    case (restarted fs)
    have v: "real_faults v" using restarted rest_of_real [OF restarted(2) s] by (simp add: real_faults_def)
    have ov: "only_settings u v" using restarted by (simp add: only_settings_def)
    show ?thesis
    proof (cases "fst (wait_ready https port defaultListenerWaitTimeout v)")
      case (Inr x)
      then show ?thesis using run rp restarted ov
        by (auto simp: restart_or_restore_def andThen_run attempt_run wait_ready_run port split: option.splits)
    next
      case (Inl e)
      then have "rollbackListenerState sn port reason e v = (r, t)" using run rp restarted
        by (auto simp: restart_or_restore_def andThen_run attempt_run wait_ready_same)
      from rollback_run [OF v this] obtain e' where e': "r = Inl e'" "put_back v sn (tbl_settings (pdb v)) e' t" "only_settings v t" by blast
      have "set (faults v) \<subseteq> set (faults u)" "tbl_settings (pdb v) = tbl_settings (pdb u)" using restarted by (simp_all add: rest_of_def)
      with e' only_settings_trans [OF ov] put_back_from show ?thesis by auto
    qed
  next
    case (failed e fs)
    have v: "real_faults v" using failed rest_of_real [OF failed(2) s] by simp
    from restoreSettings_run [OF v, of sn] obtain es gs where es: "restoreSettings sn v
        = (Inr (Combine es), upd_settings (kv.puts (written (snapshot_fields sn) es)) (v\<lparr>faults := gs\<rparr>))"
      "length es = length (snapshot_fields sn)" "set es \<subseteq> insert None (set (faults v))" "rest_of v gs" by blast
    let ?w = "upd_settings (kv.puts (written (snapshot_fields sn) es)) (v\<lparr>faults := gs\<rparr>)"
    have w: "real_faults ?w" using rest_of_real [OF es(4) v] by (simp add: real_faults_def)
    obtain r2 z where rp2: "RestartPanel ?w = (r2, z)" by (cases "RestartPanel ?w")
    have "Some e \<in> set [Some e, Combine es, err_of r2]" by simp
    from combined_run [OF this] have rt: "r = Inl (Multi (List.map_filter (\<lambda>e. e) [Some e, Combine es, err_of r2]))" "t = z"
      using run rp failed(1) es(1) rp2 by (auto simp: restart_or_restore_def andThen_run attempt_run)
    have z: "\<exists>hs n. rest_of u hs \<and> z = ?w\<lparr>faults := hs, restarts := n\<rparr>"
      using w rp2
    proof (cases rule: RestartPanel_calls)
      case (restarted hs)
      with es(4) failed show ?thesis by (intro exI [of _ hs] exI [of _ "restarts u + 1"]) (auto simp: rest_of_def)
    next
      case (failed e' hs)
      with es(4) \<open>rest_of u fs\<close> \<open>v = u\<lparr>faults := fs\<rparr>\<close> show ?thesis
        by (intro exI [of _ hs] exI [of _ "restarts u"]) (auto simp: rest_of_def)
    qed
    have "\<forall>c. Combine es = Some c \<longrightarrow> c \<in> set (List.map_filter (\<lambda>e. e) [Some e, Combine es, err_of r2])"
      by (auto intro: in_map_filter)
    moreover have "set es \<subseteq> insert None (set (faults u))" using es(3) failed by (auto simp: rest_of_def)
    ultimately show ?thesis using z es(2) rt failed unfolding put_back_def only_settings_def by auto
  qed
qed

text \<open>A change that fails before it restarts: nothing was read, or some of the settings were written.\<close>

lemma apply_phases:
  assumes s: "real_faults s" and run: "applyHTTPSCertificate cf kf mode provider status renew s = (r, t)"
  obtains (read_failed) e fs where "r = Inl e" "rest_of s fs" "t = s\<lparr>faults := fs\<rparr>"
    | (write_failed) e fs info j where "r = Inl e" "rest_of s fs" "readCertificateInfoFromFiles cf kf (unfailing s) = (Inr info, unfailing s)"
        "j < 8" "t = upd_settings (kv.puts (take j (applied_fields cf kf mode provider status renew info))) (s\<lparr>faults := fs\<rparr>)"
    | (restart) fs info sn port where "rest_of s fs" "readCertificateInfoFromFiles cf kf (unfailing s) = (Inr info, unfailing s)"
        "captureSettings (unfailing s) = (Inr sn, unfailing s)" "0 < port"
        "restart_or_restore sn port (Err ''HTTPS listener not ready after restart'') (wait_ready True port defaultListenerWaitTimeout)
           (upd_settings (kv.puts (applied_fields cf kf mode provider status renew info)) (s\<lparr>faults := fs\<rparr>)) = (r, t)"
proof -
  obtain r1 s1 where c1: "captureSettings s = (r1, s1)" by (cases "captureSettings s")
  from readingD [OF captureSettings_reading s c1] obtain f1 where s1: "rest_of s f1" "s1 = s\<lparr>faults := f1\<rparr>"
    "\<And>x. r1 = Inr x \<Longrightarrow> captureSettings (unfailing s) = (Inr x, unfailing s)" by blast
  obtain r2 s2 where c2: "getPanelPort s1 = (r2, s2)" by (cases "getPanelPort s1")
  have real1: "real_faults s1" using rest_of_real [OF s1(1) s] s1(2) by simp
  from readingD [OF getPanelPort_reading real1 c2] obtain f2 where s2: "rest_of s1 f2" "s2 = s1\<lparr>faults := f2\<rparr>"
    "\<And>x. r2 = Inr x \<Longrightarrow> getPanelPort (unfailing s1) = (Inr x, unfailing s1)" by blast
  obtain r3 s3 where c3: "readCertificateInfoFromFiles cf kf s2 = (r3, s3)" by (cases "readCertificateInfoFromFiles cf kf s2")
  have real2: "real_faults s2" using rest_of_real [OF s2(1) real1] s2(2) by simp
  from readingD [OF readCertificateInfoFromFiles_reading real2 c3] obtain f3 where s3: "rest_of s2 f3" "s3 = s2\<lparr>faults := f3\<rparr>"
    "\<And>x. r3 = Inr x \<Longrightarrow> readCertificateInfoFromFiles cf kf (unfailing s2) = (Inr x, unfailing s2)" by blast
  have rests: "rest_of s f2" "rest_of s f3" using s1 s2 s3 by (auto simp: rest_of_def)
  show ?thesis
  proof (cases r1)
    case (Inl e)
    with run c1 have "r = Inl e" "t = s1" by (simp_all add: applyHTTPSCertificate_def andThen_run)
    with s1 that(1) show ?thesis by blast
  next
    case sn: (Inr sn)
    show ?thesis
    proof (cases r2)
      case (Inl e)
      with run c1 sn c2 have "r = Inl e" "t = s2" by (simp_all add: applyHTTPSCertificate_def andThen_run)
      moreover have "s2 = s\<lparr>faults := f2\<rparr>" using s1 s2 by simp
      ultimately show ?thesis using rests(1) that(1) by blast
    next
      case port: (Inr port)
      have pos: "0 < port" using s2(3) [OF port] getPanelPort_calm [of "unfailing s1"] by simp
      show ?thesis
      proof (cases r3)
        case (Inl e)
        with run c1 sn c2 port c3 have "r = Inl e" "t = s3" by (simp_all add: applyHTTPSCertificate_def andThen_run)
        moreover have "s3 = s\<lparr>faults := f3\<rparr>" using s1 s2 s3 by simp
        ultimately show ?thesis using rests(2) that(1) by blast
      next
        case info: (Inr info)
        let ?kvs = "applied_fields cf kf mode provider status renew info"
        let ?m = "restart_or_restore sn port (Err ''HTTPS listener not ready after restart'') (wait_ready True port defaultListenerWaitTimeout)"
        have un: "unfailing s2 = unfailing s" "s3 = s\<lparr>faults := f3\<rparr>" using s1 s2 s3 by simp_all
        have real3: "real_faults s3" using rest_of_real [OF rests(2) s] un(2) by simp
        have "foldr (\<lambda>(k, v) m. andThen (saveSetting k v) (\<lambda>_. m)) ?kvs ?m
            = andThen (SetCertFile cf) (\<lambda>_. andThen (SetKeyFile kf) (\<lambda>_. andThen (SetWebCertStatus status) (\<lambda>_. andThen (SetWebCertMode mode)
               (\<lambda>_. andThen (SetWebCertProvider provider) (\<lambda>_. andThen (SetWebCertIssuer (ci_issuer info)) (\<lambda>_.
               andThen (SetWebCertExpireAt (ci_expireAt info)) (\<lambda>_. andThen (SetWebCertAutoRenew renew) (\<lambda>_. ?m))))))))"
          by (simp add: applied_fields_def cert_setters)
        moreover have "andThen (SetCertFile cf) (\<lambda>_. andThen (SetKeyFile kf) (\<lambda>_. andThen (SetWebCertStatus status) (\<lambda>_. andThen (SetWebCertMode mode)
               (\<lambda>_. andThen (SetWebCertProvider provider) (\<lambda>_. andThen (SetWebCertIssuer (ci_issuer info)) (\<lambda>_.
               andThen (SetWebCertExpireAt (ci_expireAt info)) (\<lambda>_. andThen (SetWebCertAutoRenew renew) (\<lambda>_. ?m)))))))) s3 = (r, t)"
          using run unfolding applyHTTPSCertificate_def waitForHTTPSReady_def
          by (subst (asm) andThen_run) (simp add: c1 sn andThen_run [of getPanelPort] c2 port andThen_run [of "readCertificateInfoFromFiles cf kf"] c3 info)
        ultimately have "foldr (\<lambda>(k, v) m. andThen (saveSetting k v) (\<lambda>_. m)) ?kvs ?m s3 = (r, t)" by simp
        from saves_run [OF real3 this] show ?thesis
        proof (elim disjE exE conjE)
          fix fs assume fs: "rest_of s3 fs" "?m (upd_settings (kv.puts ?kvs) (s3\<lparr>faults := fs\<rparr>)) = (r, t)"
          have "rest_of s fs" using fs(1) un rests(2) by (auto simp: rest_of_def)
          then show ?thesis using that(3) [of fs info sn port] s3(3) [OF info] s1(3) [OF sn] fs(2) pos un by simp
        next
          fix j e fs assume j: "j < length ?kvs" "rest_of s3 fs" "r = Inl e" "t = upd_settings (kv.puts (take j ?kvs)) (s3\<lparr>faults := fs\<rparr>)"
          have "rest_of s fs" using j(2) un rests(2) by (auto simp: rest_of_def)
          moreover have "length ?kvs = 8" by (simp add: applied_fields_def)
          ultimately show ?thesis using that(2) [of e fs info j] s3(3) [OF info] j un by simp
        qed
      qed
    qed
  qed
qed

text \<open>C13: C13:
  A change of the HTTPS certificate, whatever fails.  It succeeds with the listener up and exactly the eight settings written.  It fails
  before the restart with the first of the eight settings written and the others not, and nothing is put back.
  It fails at the restart or with the listener not up: then each of the nine settings is put back, but one whose
  write fails, an error that the answer contains; with none such every setting reads as before.  Nothing else is touched.
\<close>

theorem https_applied_or_restored:
  assumes "real_faults s" and "settings_ok (tbl_settings (pdb s))"
    and "applyHTTPSCertificate cf kf mode provider status renew s = (r, t)"
  shows "only_settings s t \<and> (case r of
      Inr applied \<Rightarrow> applied \<and> listener_end (world s) True defaultListenerWaitTimeout cf kf = None
        \<and> (\<exists>info. fst (readCertificateInfoFromFiles cf kf (unfailing s)) = Inr info
             \<and> applied_to (unfailing s) (applied_fields cf kf mode provider status renew info) (unfailing t))
    | Inl e \<Rightarrow>
        (restarts t = restarts s \<and> (\<exists>j info. j < 8 \<and> (0 < j \<longrightarrow> fst (readCertificateInfoFromFiles cf kf (unfailing s)) = Inr info)
           \<and> tbl_settings (pdb t) = kv.puts (take j (applied_fields cf kf mode provider status renew info)) (tbl_settings (pdb s))))
      \<or> (\<exists>info sn es cs. fst (readCertificateInfoFromFiles cf kf (unfailing s)) = Inr info \<and> fst (captureSettings (unfailing s)) = Inr sn
           \<and> length es = 9 \<and> set es \<subseteq> insert None (set (faults s))
           \<and> tbl_settings (pdb t) = kv.puts (written (snapshot_fields sn) es)
               (kv.puts (applied_fields cf kf mode provider status renew info) (tbl_settings (pdb s)))
           \<and> e = Multi cs \<and> (\<forall>r. Combine es = Some r \<longrightarrow> r \<in> set cs)
           \<and> (Combine es = None \<longrightarrow> restored (unfailing s) (unfailing t))))"
  using assms(1,3)
proof (cases rule: apply_phases)
  case (read_failed e fs)
  have "\<exists>j info. j < 8 \<and> (0 < j \<longrightarrow> fst (readCertificateInfoFromFiles cf kf (unfailing s)) = Inr info)
      \<and> tbl_settings (pdb t) = kv.puts (take j (applied_fields cf kf mode provider status renew info)) (tbl_settings (pdb s))"
    by (rule exI [of _ 0]) (simp add: read_failed kv.puts_Nil)
  with read_failed rest_settings(1) [of s fs] show ?thesis by simp
next
  case (write_failed e fs info j)
  with rest_settings(2) [of s fs] show ?thesis by auto
next
  case (restart fs info sn port)
  let ?kvs = "applied_fields cf kf mode provider status renew info" and ?S = "tbl_settings (pdb s)"
  let ?u = "upd_settings (kv.puts ?kvs) (s\<lparr>faults := fs\<rparr>)"
  have keys: "distinct (map fst ?kvs)" by (simp add: applied_fields_def)
  have val: "setting_value (kv.puts ?kvs ?S) k = (case map_of ?kvs k of None \<Rightarrow> setting_value ?S k | Some v \<Rightarrow> Some v)" for k
    by (rule kv.get_puts_distinct [OF assms(2) keys])
  have u: "real_faults ?u" using rest_of_real [OF restart(1) assms(1)] by (simp add: real_faults_def)
  have ou: "only_settings s ?u" by (rule rest_settings(2) [OF restart(1)])
  from restart_or_restore_run [OF u restart(4,5)] have run: "only_settings ?u t" "case r of
      Inr b \<Rightarrow> b \<and> tbl_settings (pdb t) = kv.puts ?kvs ?S \<and> restarts t = restarts s + 1
        \<and> listener_end (world s) True defaultListenerWaitTimeout (setting_text (kv.puts ?kvs ?S) ''webCertFile'')
            (setting_text (kv.puts ?kvs ?S) ''webKeyFile'') = None
    | Inl e \<Rightarrow> put_back ?u sn (kv.puts ?kvs ?S) e t" by (cases r; simp)+
  have frame: "only_settings s t" by (rule only_settings_trans [OF ou run(1)])
  have texts: "setting_text (kv.puts ?kvs ?S) ''webCertFile'' = cf" "setting_text (kv.puts ?kvs ?S) ''webKeyFile'' = kf"
    using val by (simp_all add: setting_text_def applied_fields_def)
  show ?thesis
  proof (cases r)
    case (Inr b)
    have "applied_to (unfailing s) ?kvs (unfailing t)"
      using run(2) Inr val frame unfolding applied_to_def only_settings_iff by (auto split: option.split)
    with Inr run(2) texts frame restart(2) show ?thesis by auto
  next
    case (Inl e)
    with run(2) obtain es cs where es: "length es = length (snapshot_fields sn)" "set es \<subseteq> insert None (set (faults ?u))"
      "tbl_settings (pdb t) = kv.puts (written (snapshot_fields sn) es) (kv.puts ?kvs ?S)"
      "e = Multi cs" "\<forall>r. Combine es = Some r \<longrightarrow> r \<in> set cs" by (auto simp: put_back_def)
    have nine: "length es = 9" "set es \<subseteq> insert None (set (faults s))"
      using es(1,2) restart(1) by (auto simp: snapshot_fields_def rest_of_def)
    have other: "setting_value (kv.puts ?kvs ?S) k = setting_value ?S k" if "k \<notin> set snapshot_keys" for k
    proof -
      have "map_of ?kvs k = None" using that by (auto simp: applied_fields_def snapshot_keys_def)
      with val [of k] show ?thesis by simp
    qed
    have "restored (unfailing s) (unfailing t)" if "Combine es = None"
    proof -
      have "tbl_settings (pdb t) = kv.puts (snapshot_fields sn) (kv.puts ?kvs ?S)"
        using es(3) written_all [OF es(1)] that by (simp add: Combine_None)
      moreover have "restored (unfailing s) ((unfailing s)\<lparr>pdb := (pdb (unfailing s))\<lparr>tbl_settings := kv.puts (snapshot_fields sn) (kv.puts ?kvs ?S)\<rparr>,
          restarts := restarts t\<rparr>)"
        by (rule restored_puts [OF _ restart(3)]) (use kv.wf_puts [OF assms(2)] other in simp_all)
      moreover have "unfailing t = (unfailing s)\<lparr>pdb := (pdb (unfailing s))\<lparr>tbl_settings := tbl_settings (pdb t)\<rparr>, restarts := restarts t\<rparr>"
        using frame unfolding only_settings_iff by auto
      ultimately show ?thesis by simp
    qed
    with Inl es nine frame restart(2,3) show ?thesis by auto
  qed
qed

end
