(* ===== verification/Cert_Issue.thy ===== *)
theory Cert_Issue
  imports Cert_Failures
begin

text \<open>What is known behind an upload, a disabled listener and an issued certificate.\<close>

section \<open>Disabling\<close>

definition disabled_fields :: "cert_snapshot \<Rightarrow> files \<Rightarrow> (string \<times> string) list" where
  "disabled_fields sn fs =
     (if sn_mode sn = ''acme_http'' \<and> fileExists fs (fst acmePanelPaths) \<and> fileExists fs (snd acmePanelPaths)
      then [(''webCertStatus'', ''issued''), (''webCertMode'', ''acme_http''), (''webCertProvider'', sn_provider sn)]
      else if fileExists fs (fst managedPanelPaths) \<and> fileExists fs (snd managedPanelPaths)
      then [(''webCertStatus'', ''uploaded''), (''webCertMode'', ''manual''), (''webCertProvider'', ''manual'')]
      else [(''webCertStatus'', ''none''), (''webCertMode'', ''none''), (''webCertProvider'', '''')])"

lemma disabled_fields_keys: "map fst (disabled_fields sn fs) = [''webCertStatus'', ''webCertMode'', ''webCertProvider'']"
  by (simp add: disabled_fields_def)

lemma disabled_as_calm: "faults s = [] \<Longrightarrow>
    disabled_as sn s = (Inr (), upd_settings (kv.puts (disabled_fields sn (files s))) s)"
  by (simp add: disabled_as_def both_exist_def andThen_run cert_setters saveSetting_calm disabled_fields_def
      kv.puts_Cons kv.puts_Nil)

lemma puts_append: "kv.puts (xs @ ys) t = kv.puts ys (kv.puts xs t)"
  by (simp add: kv.puts_def)

text \<open>where nothing fails, \<open>DisableHTTPS\<close> clears the two files and marks what is left behind when
  the plain listener comes up; otherwise every setting reads as before.\<close>

theorem disabled_or_restored:
  assumes "faults s = []" and "settings_ok (tbl_settings (pdb s))" and "DisableHTTPS s = (r, t)"
  shows "case r of
      Inr applied \<Rightarrow> applied \<and> listener_end (world s) False defaultListenerWaitTimeout '''' '''' = None
        \<and> (\<exists>sn. fst (captureSettings s) = Inr sn
             \<and> applied_to s ([(''webCertFile'', ''''), (''webKeyFile'', '''')] @ disabled_fields sn (files s)) t)
    | Inl e \<Rightarrow> restored s t"
  using assms(1) captureSettings_same [OF assms(1)] assms(3) [unfolded DisableHTTPS_def]
proof (cases rule: andThen_reading)
  case (passed sn)
  note snap = passed(1)
  from assms(1) conjunct1 [OF getPanelPort_calm [OF assms(1)]] passed(2) show ?thesis
  proof (cases rule: andThen_reading)
    case (passed port)
    then have port: "0 < port" using getPanelPort_calm [OF assms(1)] by simp
    let ?kvs = "[(''webCertFile'', ''''), (''webKeyFile'', '''')] @ disabled_fields sn (files s)"
    have calm: "faults (upd_settings (kv.puts [(''webCertFile'', ''''), (''webKeyFile'', '''')]) s) = []"
      using assms(1) by simp
    have run: "restart_or_restore sn port (Err ''HTTP listener not ready after restart'') (wait_ready False port defaultListenerWaitTimeout)
        (upd_settings (kv.puts ?kvs) s) = (r, t)"
      using passed(2) assms(1) disabled_as_calm [OF calm, of sn] unfolding puts_append
      by (simp add: cert_setters andThen_run saveSetting_calm kv.puts_Cons kv.puts_Nil waitForHTTPReady_def)
    have keys: "map fst ?kvs = [''webCertFile'', ''webKeyFile'', ''webCertStatus'', ''webCertMode'', ''webCertProvider'']"
      by (simp add: disabled_fields_keys)
    then have "distinct (map fst ?kvs)" "set (map fst ?kvs) \<subseteq> set snapshot_keys"
      unfolding keys snapshot_keys_def by (code_simp, simp)
    from restart_after_puts [OF assms(1,2) snap port this _ _ run, of "''''" "''''"] snap show ?thesis
      by (simp split: option.splits) auto
  qed (simp add: restored_refl)
qed (simp add: restored_refl)

section \<open>Upload\<close>

definition uploaded_fields :: "cert_info \<Rightarrow> (string \<times> string) list" where
  "uploaded_fields info =
     [(''webCertFile'', fst managedPanelPaths), (''webKeyFile'', snd managedPanelPaths), (''webCertStatus'', ''uploaded''),
      (''webCertMode'', ''manual''), (''webCertProvider'', ''manual''), (''webCertIssuer'', ci_issuer info),
      (''webCertExpireAt'', Itoa (ci_expireAt info)), (''webCertAutoRenew'', ''false'')]"

text \<open>where nothing fails, an upload is refused and changes nothing, or its pair matches, the two
  files hold it and the eight settings describe it.\<close>

theorem uploaded_pair:
  assumes "faults s = []" and "settings_ok (tbl_settings (pdb s))" and "UploadCertificate cert key s = (r, t)"
  shows "case r of
      Inl e \<Rightarrow> t = s
    | Inr _ \<Rightarrow> w_pair (world s) (TrimSpace cert) (TrimSpace key)
        \<and> files t = (files s)(''/usr/local/x-ui/cert/panel.crt'' \<mapsto> TrimSpace cert @ [CHR 0x0A],
                              ''/usr/local/x-ui/cert/panel.key'' \<mapsto> TrimSpace key @ [CHR 0x0A])
        \<and> (\<exists>info. parseCertificatePEM (world s) (clock_now s) (TrimSpace cert) = Inr info
             \<and> (\<forall>k. setting_value (tbl_settings (pdb t)) k = (case map_of (uploaded_fields info) k of
                    None \<Rightarrow> setting_value (tbl_settings (pdb s)) k | Some v \<Rightarrow> Some v)))"
proof (cases "TrimSpace cert = [] \<or> TrimSpace key = []")
  case True
  with assms(3) show ?thesis by (auto simp: UploadCertificate_def andThen_run Let_def)
next
  case False
  show ?thesis
  proof (cases "parseCertificatePair (world s) (clock_now s) (TrimSpace cert) (TrimSpace key)")
    case (Inl e)
    with False assms(3) show ?thesis by (auto simp: UploadCertificate_def andThen_run Let_def)
  next
    case (Inr info)
    let ?s = "s\<lparr>files := (files s)(''/usr/local/x-ui/cert/panel.crt'' \<mapsto> TrimSpace cert @ [CHR 0x0A],
                              ''/usr/local/x-ui/cert/panel.key'' \<mapsto> TrimSpace key @ [CHR 0x0A])\<rparr>"
    from Inr False assms(1,3) have "r = Inr () \<and> t = upd_settings (kv.puts (uploaded_fields info)) ?s"
      by (simp add: UploadCertificate_def write_file_def andThen_run Let_def cert_setters saveSetting_calm
          uploaded_fields_def kv.puts_Cons kv.puts_Nil managedPanelPaths_def FormatBool_def)
    moreover have "distinct (map fst (uploaded_fields info))" by (simp add: uploaded_fields_def)
    ultimately show ?thesis using Inr False assms(2)
      by (auto simp: parseCertificatePair_def kv.get_puts_distinct split: if_splits)
  qed
qed

section \<open>Issue\<close>

definition at_files :: "files \<Rightarrow> world \<Rightarrow> panel \<Rightarrow> bool" where
  "at_files fs w s \<longleftrightarrow> files s = fs \<and> world s = w"

named_theorems file_frame "actions that write no file"

lemma files_outside [file_frame]: "keeps (at_files fs w) outside"
  by (rule keeps_outside_gen) (simp add: at_files_def)

lemma files_stmt [file_frame]: "keeps (at_files fs w) (stmt h f)"
  unfolding stmt_def
  by (intro keeps_intro file_frame)
    (auto simp: keeps_def on_handle_def at_files_def split: handle.split prod.split option.split)

lemma files_query [file_frame]: "keeps (at_files fs w) (query h f)"
  unfolding query_def by (rule file_frame)

lemma files_on_world [file_frame]: "keeps (at_files fs w) (on_world f)"
  by (simp add: keeps_def)

lemma files_saveSetting [file_frame]: "keeps (at_files fs w) (saveSetting k v)"
  unfolding saveSetting_def getSetting_def by (intro keeps_intro file_frame)

lemma files_getString [file_frame]: "keeps (at_files fs w) (getString k)"
  unfolding getString_def getSetting_def by (intro keeps_intro file_frame)

lemma files_read [file_frame]: "keeps (at_files fs w) (must_read p e)"
  unfolding must_read_def read_file_def by (intro keeps_intro file_frame)

lemma files_info [file_frame]: "keeps (at_files fs w) (readCertificateInfoFromFiles c k)"
  unfolding readCertificateInfoFromFiles_def exists_file_def by (intro keeps_intro file_frame)

lemma files_capture [file_frame]: "keeps (at_files fs w) captureSettings"
  unfolding captureSettings_def cert_getters getInt64_def getBool_def by (intro keeps_intro file_frame)

lemma files_restart [file_frame]: "keeps (at_files fs w) RestartPanel"
  unfolding RestartPanel_def by (intro keeps_intro file_frame keeps_modify) (simp add: at_files_def)

lemma files_all_attempts [file_frame]:
  "(\<And>m. m \<in> set ms \<Longrightarrow> keeps (at_files fs w) m) \<Longrightarrow> keeps (at_files fs w) (all_attempts ms)"
  by (induction ms) (simp_all, (intro keeps_intro | simp)+)

lemma files_restore [file_frame]: "keeps (at_files fs w) (restoreSettings sn)"
  unfolding restoreSettings_def cert_setters
  by (intro keeps_intro files_all_attempts) (auto intro: file_frame)

lemma files_wait [file_frame]: "keeps (at_files fs w) (wait_ready h p timeout)"
  by (simp add: keeps_def wait_ready_same)

lemma files_restart_or_restore [file_frame]:
  "keeps (at_files fs w) m \<Longrightarrow> keeps (at_files fs w) (restart_or_restore sn p reason m)"
  unfolding restart_or_restore_def rollbackListenerState_def combined_def waitForSnapshotReady_def
    waitForHTTPSReady_def waitForHTTPReady_def
  by (intro keeps_intro file_frame)

lemma files_apply [file_frame]: "keeps (at_files fs w) (applyHTTPSCertificate c k m p st r)"
  unfolding applyHTTPSCertificate_def cert_setters getPanelPort_def GetPort_def getInt_def waitForHTTPSReady_def
  by (intro keeps_intro file_frame)

lemma files_GetStatus [file_frame]: "keeps (at_files fs w) GetStatus"
  unfolding GetStatus_def countPEMBlocksFromFile_def Let_def by (intro keeps_intro file_frame)

lemma must_read_Inr: "must_read p e s = (Inr c, t) \<Longrightarrow> files s p = Some c"
  by (auto simp: must_read_def read_file_def andThen_run attempt_run outside_run split: option.splits list.splits)

lemma fullchain_known:
  assumes "ensureACMEFullchain p s = (Inr u, t)"
  shows "\<exists>c. files t p = Some c \<and> 2 \<le> countPEMBlocks (world t) c"
proof -
  from assms obtain c s1 where c: "must_read p (Err ''failed to read certificate file'') s = (Inr c, s1)"
    and n: "t = s1" "2 \<le> countPEMBlocks (world s1) c"
    by (auto simp: ensureACMEFullchain_def countPEMBlocksFromFile_def andThen_Inr split: if_splits)
  have "at_files (files s) (world s) s1"
    by (rule keepsD_eq [OF files_read c]) (simp add: at_files_def)
  with must_read_Inr [OF c] n show ?thesis by (auto simp: at_files_def)
qed

lemma combined_never: "fst (combined (Some e # es) s) \<noteq> Inr b"
  by (simp add: combined_error)

lemma rollback_never: "rollbackListenerState sn p reason e s \<noteq> (Inr b, t)"
  by (auto simp: rollbackListenerState_def andThen_Inr combined_error)

lemma restart_or_restore_Inr: "restart_or_restore sn p reason m s = (Inr b, t) \<Longrightarrow> b"
  using rollback_never
  by (cases "RestartPanel s"; cases "fst (RestartPanel s)"; cases "m (snd (RestartPanel s))"; cases "fst (m (snd (RestartPanel s)))")
    (auto simp: restart_or_restore_def attempt_run andThen_Inr combined_error)

lemma apply_Inr_True: "applyHTTPSCertificate c k m p st r s = (Inr b, t) \<Longrightarrow> b"
  unfolding applyHTTPSCertificate_def andThen_Inr by (elim exE conjE) (rule restart_or_restore_Inr)

lemma IssueHTTP_Inr:
  assumes "IssueHTTP domain email staging s = (Inr result, t)"
  shows "validateDomain (ai_Domain result) = None \<and> validateEmail email = None \<and> ai_Applied result
    \<and> (\<exists>c. files t ''/usr/local/x-ui/cert/acme-panel.crt'' = Some c \<and> 2 \<le> countPEMBlocks (world t) c)"
proof -
  let ?crt = "fst acmePanelPaths"
  from assms obtain resolved s1 u2 s2 check s3 u4 s4 u5 s5 u6 s6 u7 s7 u8 s8 u9 s9 u10 s10 u11 s11 u12 s12 u13 s13
      applied s14 status s15 where
    d: "resolveIssueDomain domain s = (Inr resolved, s1)"
    and e: "(case validateEmail email of None \<Rightarrow> ret () | Some e \<Rightarrow> throw e) s1 = (Inr u2, s2)"
    and i: "installAcmeCertificate resolved ?crt (snd acmePanelPaths) s9 = (Inr u10, s10)"
    and f: "outside s10 = (Inr u11, s11)" "outside s11 = (Inr u12, s12)" "SetWebDomain resolved s12 = (Inr u13, s13)"
    and a: "applyHTTPSCertificate ?crt (snd acmePanelPaths) ''acme_http'' ''letsencrypt'' ''enabled'' False s13
        = (Inr applied, s14)"
    and g0: "GetStatus s14 = (Inr status, s15)"
    and r0: "ret \<lparr>ai_Domain = resolved, ai_Staging = staging, ai_Applied = applied, ai_Status = status\<rparr> s15 = (Inr result, t)"
    unfolding IssueHTTP_def Let_def andThen_Inr by (elim exE conjE) (rule that; assumption)
  from r0 g0 have r: "result = \<lparr>ai_Domain = resolved, ai_Staging = staging, ai_Applied = applied, ai_Status = status\<rparr>"
    and g: "GetStatus s14 = (Inr status, t)" by simp_all
  have dom: "validateDomain resolved = None" using d
    by (auto simp: resolveIssueDomain_def check_domain_def andThen_Inr split: option.splits)
  have em: "validateEmail email = None" using e by (auto split: option.splits)
  from i obtain s' where "ensureACMEFullchain ?crt s' = (Inr u10, s10)"
    by (auto simp: installAcmeCertificate_def andThen_Inr)
  then obtain c where c: "files s10 ?crt = Some c" "2 \<le> countPEMBlocks (world s10) c"
    using fullchain_known by blast
  have at: "at_files (files s10) (world s10) s10" by (simp add: at_files_def)
  note at = keepsD_eq [OF files_outside f(1) at]
  note at = keepsD_eq [OF files_outside f(2) at]
  have "keeps (at_files (files s10) (world s10)) (SetWebDomain resolved)"
    unfolding cert_setters by (rule files_saveSetting)
  note at = keepsD_eq [OF this f(3) at]
  note at = keepsD_eq [OF files_apply a at]
  note at = keepsD_eq [OF files_GetStatus g at]
  from at c apply_Inr_True [OF a] dom em show ?thesis
    by (simp add: r at_files_def acmePanelPaths_def)
qed

text \<open>C26: a certificate that \<open>IssueHTTP\<close> reports as issued, whatever failed on the way, was asked for
  a valid domain with a valid address, is applied, and its file holds a chain of two blocks or more.\<close>

theorem issued_certificate_checked:
  "case IssueHTTP domain email staging s of
      (Inl e, t) \<Rightarrow> True
    | (Inr result, t) \<Rightarrow>
        validateDomain (ai_Domain result) = None \<and> validateEmail email = None \<and> ai_Applied result
        \<and> (\<exists>c. files t ''/usr/local/x-ui/cert/acme-panel.crt'' = Some c \<and> 2 \<le> countPEMBlocks (world t) c)"
  using IssueHTTP_Inr [of domain email staging s] by (auto split: prod.split sum.split)

section \<open>The number of blocks\<close>

text \<open>Where the decoder returns a rest that is shorter, the rounds of the model are enough.\<close>

lemma count_blocks_fuel:
  assumes shrinks: "\<And>x b y. pem x = Some (b, y) \<Longrightarrow> length y < length x"
  shows "length rest \<le> k \<Longrightarrow> length rest \<le> m \<Longrightarrow> count_blocks pem k rest = count_blocks pem m rest"
proof (induction k arbitrary: m rest)
  case 0
  then show ?case by (cases m) simp_all
next
  case (Suc k)
  show ?case
  proof (cases m)
    case 0
    with Suc.prems show ?thesis by simp
  next
    case m: (Suc m')
    show ?thesis
    proof (cases "pem rest")
      case None
      then show ?thesis by (simp add: m)
    next
      case (Some found)
      obtain b y where found: "found = (b, y)" by (cases found)
      from shrinks [OF Some [unfolded found]] have "length y < length rest" .
      with Suc.prems m have "length y \<le> k" "length y \<le> m'" by simp_all
      from Suc.IH [OF this] show ?thesis by (simp add: m Some found)
    qed
  qed
qed

text \<open>C38: where the decoder shortens the text, counting goes on to the end: as many rounds as there
  are bytes suffice, and the count is the one of the unbounded loop.\<close>

theorem blocks_counted_to_the_end:
  assumes "\<And>x b y. w_pem w x = Some (b, y) \<Longrightarrow> length y < length x"
  shows "countPEMBlocks w cert = (if cert = '''' then 0 else case w_pem w cert of
      None \<Rightarrow> 0 | Some (b, rest) \<Rightarrow> Suc (countPEMBlocks w rest))"
proof (cases cert)
  case (Cons c cs)
  show ?thesis
  proof (cases "w_pem w cert")
    case (Some found)
    obtain b y where found: "found = (b, y)" by (cases found)
    from assms [OF Some [unfolded found]] have "length y \<le> length cs" by (simp add: Cons)
    then have "count_blocks (w_pem w) (length cs) y = count_blocks (w_pem w) (length y) y"
      by (intro count_blocks_fuel assms) simp_all
    then show ?thesis using Some by (simp add: countPEMBlocks_def Cons found)
  qed (simp add: countPEMBlocks_def Cons)
qed (simp add: countPEMBlocks_def)


section \<open>Panels on which the properties apply\<close>

definition sample_x509 :: x509 where
  "sample_x509 = \<lparr>x_IssuerCN = ''R3'', x_Issuer = ''CN=R3'', x_SubjectCN = ''a.example'', x_Subject = ''CN=a.example'',
     x_DNSNames = [''a.example''], x_NotBefore = 10, x_NotAfter = 20\<rparr>"

text \<open>A machine on which every text of two bytes is a block, every block a certificate and every
  pair one, with a listener that comes up or not.\<close>

definition cert_world :: "err option \<Rightarrow> world" where
  "cert_world e = quiet_world\<lparr>w_pem := (\<lambda>x. if x = [] then None else Some (take 2 x, drop 2 x)),
     w_x509 := (\<lambda>_. Some sample_x509), w_pair := (\<lambda>_ _. True), w_tls := (\<lambda>_ _. ([Some NotFound], e)),
     w_lookup := (\<lambda>_. Inr [''9.9.9.9'']), w_fetch := (\<lambda>_. Inr ([''9.9.9.9''], None)),
     w_path := (\<lambda>_ name. Some (''/usr/bin/'' @ name)),
     w_command := (\<lambda>_ fs. (([], None), fs))\<rparr>"

definition cert_panel :: "err option \<Rightarrow> panel" where
  "cert_panel e = (fresh_panel (cert_world e))\<lparr>files := [''/c'' \<mapsto> ''cc'', ''/k'' \<mapsto> ''kk'',
       ''/usr/local/x-ui/cert/acme-panel.crt'' \<mapsto> ''aabb'', ''/usr/local/x-ui/cert/acme-panel.key'' \<mapsto> ''kk''],
     pdb := empty_database\<lparr>tbl_settings :=
       [\<lparr>st_Id = 1, st_Key = ''webDomain'', st_Value = []\<rparr>, \<lparr>st_Id = 2, st_Key = ''webCertFile'', st_Value = []\<rparr>,
        \<lparr>st_Id = 3, st_Key = ''webKeyFile'', st_Value = []\<rparr>, \<lparr>st_Id = 4, st_Key = ''webCertStatus'', st_Value = ''none''\<rparr>,
        \<lparr>st_Id = 5, st_Key = ''webCertExpireAt'', st_Value = ''+7''\<rparr>, \<lparr>st_Id = 6, st_Key = ''webCertIssuer'', st_Value = []\<rparr>,
        \<lparr>st_Id = 7, st_Key = ''webCertAutoRenew'', st_Value = ''F''\<rparr>, \<lparr>st_Id = 8, st_Key = ''webCertMode'', st_Value = ''none''\<rparr>,
        \<lparr>st_Id = 9, st_Key = ''webCertProvider'', st_Value = []\<rparr>, \<lparr>st_Id = 10, st_Key = ''webPort'', st_Value = ''54321''\<rparr>]\<rparr>\<rparr>"

lemma cert_panel_ok: "faults (cert_panel e) = []" "settings_ok (tbl_settings (pdb (cert_panel e)))"
  by (simp add: cert_panel_def fresh_panel_def) code_simp

text \<open>The first \<open>n\<close> calls succeed and the next one fails: the first restart is call 29, the write of the key file calls 15 and 16.\<close>

definition failing_panel :: "nat \<Rightarrow> panel" where
  "failing_panel n = (cert_panel None)\<lparr>faults := replicate n None @ [Some (Err ''down'')]\<rparr>"

definition changed_https :: "nat \<Rightarrow> bool res \<times> panel" where
  "changed_https n = applyHTTPSCertificate ''/c'' ''/k'' ''manual'' ''manual'' ''enabled'' False (failing_panel n)"

lemma failing_panel_ok: "real_faults (failing_panel n)" "settings_ok (tbl_settings (pdb (failing_panel n)))"
  using cert_panel_ok(2) by (simp_all add: failing_panel_def real_faults_def)

text \<open>A restart that fails: every setting is put back, the number and the switch in their own spelling.\<close>

lemma restart_fails: "case changed_https 28 of (r, t) \<Rightarrow> r = Inl (Multi [Err ''down'']) \<and> restarts t = 1
    \<and> map st_Value (tbl_settings (pdb t)) = [[], [], [], ''none'', ''7'', [], ''false'', ''none'', [], ''54321'']"
  by code_simp

text \<open>A write that fails behind the first one: the panel keeps the new certificate file with the old key file.\<close>

lemma half_changed: "case changed_https 14 of (r, t) \<Rightarrow> r = Inl (Err ''down'') \<and> restarts t = 0
    \<and> setting_value (tbl_settings (pdb t)) ''webCertFile'' = Some ''/c'' \<and> setting_value (tbl_settings (pdb t)) ''webKeyFile'' = Some []"
  by code_simp

theorem https_applied_or_restored_witness:
  "\<exists>e t info sn es. changed_https 28 = (Inl e, t) \<and> only_settings (failing_panel 28) t \<and> length es = 9
     \<and> tbl_settings (pdb t) = kv.puts (written (snapshot_fields sn) es)
         (kv.puts (applied_fields ''/c'' ''/k'' ''manual'' ''manual'' ''enabled'' False info) (tbl_settings (pdb (failing_panel 28))))"
proof -
  obtain r t where run: "changed_https 28 = (r, t)" by (cases "changed_https 28")
  with restart_fails obtain e where r: "r = Inl e" and t: "restarts t = 1" by auto
  have "restarts (failing_panel 28) = 0" by (simp add: failing_panel_def cert_panel_def fresh_panel_def)
  with https_applied_or_restored [OF failing_panel_ok run [unfolded changed_https_def]] r t run show ?thesis by auto
qed

theorem disabled_or_restored_witness:
  "\<exists>t sn. DisableHTTPS (cert_panel None) = (Inr True, t)
     \<and> applied_to (cert_panel None) ([(''webCertFile'', []), (''webKeyFile'', [])]
         @ disabled_fields sn (files (cert_panel None))) t"
proof -
  have "fst (DisableHTTPS (cert_panel None)) = Inr True" by code_simp
  then obtain t where "DisableHTTPS (cert_panel None) = (Inr True, t)"
    by (cases "DisableHTTPS (cert_panel None)") simp
  with disabled_or_restored [OF cert_panel_ok this] show ?thesis by auto
qed

theorem uploaded_pair_witness:
  "\<exists>t. UploadCertificate '' cc'' ''kk'' (cert_panel None) = (Inr (), t)
     \<and> files t ''/usr/local/x-ui/cert/panel.key'' = Some (''kk'' @ [CHR 0x0A])"
proof -
  have "fst (UploadCertificate '' cc'' ''kk'' (cert_panel None)) = Inr ()" by code_simp
  then obtain t where t: "UploadCertificate '' cc'' ''kk'' (cert_panel None) = (Inr (), t)"
    by (cases "UploadCertificate '' cc'' ''kk'' (cert_panel None)") simp
  have "TrimSpace ''kk'' = ''kk''" by code_simp
  with uploaded_pair [OF cert_panel_ok t] t show ?thesis by simp
qed

theorem blocks_counted_to_the_end_witness:
  "countPEMBlocks (cert_world None) ''abc'' = Suc (countPEMBlocks (cert_world None) ''c'')"
  by (subst blocks_counted_to_the_end) (auto simp: cert_world_def split: if_splits)

end
