(* ===== verification/Users.thy ===== *)
theory Users
  imports Database
begin

text \<open>
  The users of the panel: src/web/service/user.go and \<open>initUser\<close> of
  src/database/db.go.  gorm sends the two \<open>Update\<close> calls of \<open>UpdateUser\<close> as two
  statements, the second only when the first succeeded.
\<close>

section \<open>Statements\<close>

definition first_user :: "database \<Rightarrow> user res" where
  "first_user d = (case tbl_users d of [] \<Rightarrow> Inl NotFound | u # _ \<Rightarrow> Inr u)"

definition user_named :: "string \<Rightarrow> string \<Rightarrow> database \<Rightarrow> user res" where
  "user_named username password d =
     (case find (\<lambda>u. u_Username u = username \<and> u_Password u = password) (tbl_users d) of
        None \<Rightarrow> Inl NotFound | Some u \<Rightarrow> Inr u)"

definition update_users :: "(user \<Rightarrow> bool) \<Rightarrow> (user \<Rightarrow> user) \<Rightarrow> database \<Rightarrow> unit res \<times> database" where
  "update_users P f d = (Inr (), d\<lparr>tbl_users := update_rows P f (tbl_users d)\<rparr>)"

definition create_user :: "user \<Rightarrow> database \<Rightarrow> unit res \<times> database" where
  "create_user u d = (case insert_row u_Id (\<lambda>i r. r\<lparr>u_Id := i\<rparr>) u (tbl_users d) of
       Inl e \<Rightarrow> (Inl e, d) | Inr (u', t) \<Rightarrow> (Inr (), d\<lparr>tbl_users := t\<rparr>))"

section \<open>Operations\<close>

definition GetFirstUser :: "(panel, user) act" where
  "GetFirstUser = query Conn first_user"

definition CheckUser :: "string \<Rightarrow> string \<Rightarrow> (panel, user option) act" where
  "CheckUser username password =
     andThen (attempt (query Conn (user_named username password))) (\<lambda>r.
     ret (case r of Inl e \<Rightarrow> None | Inr u \<Rightarrow> Some u))"

definition UpdateUser :: "int \<Rightarrow> string \<Rightarrow> string \<Rightarrow> (panel, unit) act" where
  "UpdateUser i username password =
     andThen (stmt Conn (update_users (\<lambda>u. u_Id u = i) (\<lambda>u. u\<lparr>u_Username := username\<rparr>))) (\<lambda>_.
     stmt Conn (update_users (\<lambda>u. u_Id u = i) (\<lambda>u. u\<lparr>u_Password := password\<rparr>)))"

definition UpdateFirstUser :: "string \<Rightarrow> string \<Rightarrow> (panel, unit) act" where
  "UpdateFirstUser username password =
     andThen (reject (username = []) (Err ''username can not be empty'')) (\<lambda>_.
     andThen (reject (password = []) (Err ''password can not be empty'')) (\<lambda>_.
     andThen (attempt (query Conn first_user)) (\<lambda>r. case r of
       Inl e \<Rightarrow>
         if e = NotFound
         then stmt Conn (create_user \<lparr>u_Id = 0, u_Username = username, u_Password = password\<rparr>)
         else throw e
     | Inr u \<Rightarrow> stmt Conn (update_users (\<lambda>x. u_Id x = u_Id u)
         (\<lambda>_. u\<lparr>u_Username := username, u_Password := password\<rparr>)))))"

text \<open>\<open>AutoMigrate\<close> is a call that may fail.\<close>

definition initUser :: "(panel, unit) act" where
  "initUser =
     andThen outside (\<lambda>_.
     andThen (query Conn (\<lambda>d. Inr (length (tbl_users d)))) (\<lambda>n.
     if n = 0 then stmt Conn (create_user \<lparr>u_Id = 0, u_Username = ''admin'', u_Password = ''admin''\<rparr>)
     else ret ()))"

section \<open>Lemmas\<close>

lemma CheckUser_row:
  assumes "CheckUser a b s = (Inr (Some u), t)"
  shows "u \<in> set (tbl_users (pdb s)) \<and> u_Username u = a \<and> u_Password u = b"
proof -
  obtain q v where q: "query Conn (user_named a b) s = (q, v)" by (cases "query Conn (user_named a b) s")
  from query_Conn_cases [OF q] have "(\<exists>e. q = Inl e) \<or> q = user_named a b (pdb s)" by blast
  with assms q show ?thesis
    by (auto simp: CheckUser_def andThen_run attempt_run user_named_def find_Some_iff split: sum.splits option.splits)
qed

text \<open>A row with another name or password.\<close>

definition renamed :: "int \<Rightarrow> (user \<Rightarrow> user) \<Rightarrow> database \<Rightarrow> database" where
  "renamed i f d = d\<lparr>tbl_users := map (\<lambda>u. if u_Id u = i then f u else u) (tbl_users d)\<rparr>"

lemma update_users_run: "stmt Conn (update_users (\<lambda>u. u_Id u = i) f) s = (case outside s of
    (Inl e, t) \<Rightarrow> (Inl e, t) | (Inr _, t) \<Rightarrow> (Inr (), t\<lparr>pdb := renamed i f (pdb t)\<rparr>))"
  by (simp add: stmt_def andThen_run on_handle_def update_users_def update_rows_def renamed_def
      split: prod.split sum.split)

lemma renamed_twice: "renamed i f (renamed i g d) = renamed i (f \<circ> g) d" if "\<And>u. u_Id (g u) = u_Id u"
  using that by (simp add: renamed_def)

lemma outside_pdb: "outside s = (r, t) \<Longrightarrow> pdb t = pdb s"
  by (auto simp: outside_run split: list.splits option.splits)

section \<open>Properties\<close>

text \<open>A user that \<open>CheckUser\<close> accepts is in the table with this name and this password; where
  nothing fails, every such pair is accepted.\<close>

theorem login_checked:
  "(case CheckUser username password s of
      (Inr (Some u), t) \<Rightarrow> u \<in> set (tbl_users (pdb s)) \<and> u_Username u = username \<and> u_Password u = password
    | (Inr None, t) \<Rightarrow> faults s = [] \<longrightarrow>
        (\<forall>u \<in> set (tbl_users (pdb s)). u_Username u \<noteq> username \<or> u_Password u \<noteq> password)
    | (Inl e, t) \<Rightarrow> False)
   \<and> pdb (snd (CheckUser username password s)) = pdb s"
proof -
  obtain q t where o: "outside s = (q, t)" by (cases "outside s")
  note p = outside_pdb [OF o]
  show ?thesis
  proof (cases "find (\<lambda>u. u_Username u = username \<and> u_Password u = password) (tbl_users (pdb s))")
    case None
    then have "\<forall>u \<in> set (tbl_users (pdb s)). u_Username u \<noteq> username \<or> u_Password u \<noteq> password"
      by (auto simp: find_None_iff)
    with None o p show ?thesis
      by (cases q) (auto simp: CheckUser_def andThen_run attempt_run query_def stmt_def on_handle_def user_named_def)
  next
    case (Some u)
    then have u: "u \<in> set (tbl_users (pdb s))" "u_Username u = username" "u_Password u = password"
      by (auto simp: find_Some_iff)
    with Some o p show ?thesis
      by (cases q) (auto simp: CheckUser_def andThen_run attempt_run query_def stmt_def on_handle_def user_named_def)
  qed
qed

theorem login_checked_witness:
  "let s = (fresh_panel quiet_world)\<lparr>pdb := empty_database\<lparr>tbl_users := [\<lparr>u_Id = 1, u_Username = ''a'', u_Password = ''b''\<rparr>]\<rparr>\<rparr> in
   CheckUser ''a'' ''c'' s = (Inr None, s) \<and> (\<forall>u \<in> set (tbl_users (pdb s)). u_Username u \<noteq> ''a'' \<or> u_Password u \<noteq> ''c'')"
proof -
  let ?s = "(fresh_panel quiet_world)\<lparr>pdb := empty_database\<lparr>tbl_users := [\<lparr>u_Id = 1, u_Username = ''a'', u_Password = ''b''\<rparr>]\<rparr>\<rparr>"
  have calm: "faults ?s = []" by (simp add: fresh_panel_def)
  then have "CheckUser ''a'' ''c'' ?s = (Inr None, ?s)" by (simp add: CheckUser_def andThen_run attempt_run user_named_def)
  with login_checked [where username = "''a''" and password = "''c''" and s = ?s] calm show ?thesis by (simp add: Let_def)
qed

text \<open>C40: \<open>UpdateUser\<close> ends with both fields of the user changed; when it fails, nothing was changed or
  the name alone, which a failure of the second statement does leave behind.\<close>

theorem update_user_outcome:
  "(case UpdateUser i username password s of
      (Inr _, t) \<Rightarrow> pdb t = renamed i (\<lambda>u. u\<lparr>u_Username := username, u_Password := password\<rparr>) (pdb s)
    | (Inl e, t) \<Rightarrow> pdb t = pdb s \<or> pdb t = renamed i (\<lambda>u. u\<lparr>u_Username := username\<rparr>) (pdb s))
   \<and> pdb (snd (UpdateUser i username password (s\<lparr>faults := [None, Some e]\<rparr>)))
       = renamed i (\<lambda>u. u\<lparr>u_Username := username\<rparr>) (pdb s)"
proof -
  obtain q t where o: "outside s = (q, t)" by (cases "outside s")
  note p = outside_pdb [OF o]
  let ?d = "renamed i (\<lambda>u. u\<lparr>u_Username := username\<rparr>) (pdb s)"
  obtain q' t' where o': "outside (t\<lparr>pdb := ?d\<rparr>) = (q', t')" by (cases "outside (t\<lparr>pdb := ?d\<rparr>)")
  note p' = outside_pdb [OF o']
  have two: "renamed i (\<lambda>u. u\<lparr>u_Password := password\<rparr>) ?d
      = renamed i (\<lambda>u. u\<lparr>u_Username := username, u_Password := password\<rparr>) (pdb s)"
    by (simp add: renamed_twice comp_def)
  show ?thesis
    using o o' p p' two
    by (cases q; cases q') (auto simp: UpdateUser_def andThen_run update_users_run outside_run)
qed

end
