(* ===== verification/Startup.thy ===== *)
theory Startup
  imports Users Outbounds Inbounds Access_IP
begin

text \<open>
  The opening of the database (src/database/db.go), the command line
  (src/main.go) and the migration from v2-ui (src/v2ui).  \<open>AutoMigrate\<close> is a call
  that may fail; of what it does to the schema only the indexes of the access
  records matter, and they come from the world.
\<close>

section \<open>Inbounds\<close>

text \<open>
  A column that is not null cannot match \<open>IS NULL\<close>: of the four repairs only the one of
  the timeout has rows to change in the model, the others are statements that may fail.
\<close>

definition initInbound :: "(panel, unit) act" where
  "initInbound =
     andThen outside (\<lambda>_.
     andThen (stmt Conn (update_inbounds (\<lambda>i. False) (\<lambda>i. i\<lparr>in_IPLimit := 0\<rparr>))) (\<lambda>_.
     andThen (stmt Conn (update_inbounds (\<lambda>i. in_IPTimeout i \<le> 0) (\<lambda>i. i\<lparr>in_IPTimeout := 5\<rparr>))) (\<lambda>_.
     andThen (stmt Conn (update_inbounds (\<lambda>i. False) (\<lambda>i. i\<lparr>in_PortRate := []\<rparr>))) (\<lambda>_.
     andThen (stmt Conn (update_inbounds (\<lambda>i. False) (\<lambda>i. i\<lparr>in_IPRate := []\<rparr>))) (\<lambda>_.
     andThen cleanupLegacyTrojanSettings (\<lambda>_.
     andThen cleanupLegacyVlessSettings (\<lambda>_.
     cleanupLegacySocksSettings)))))))"

definition initSetting :: "(panel, unit) act" where
  "initSetting = outside"

definition initRoutingRule :: "(panel, unit) act" where
  "initRoutingRule = outside"

section \<open>The indexes of the access records\<close>

abbreviation composite_index :: string where
  "composite_index \<equiv> ''idx_access_ip_port''"

text \<open>The loop over the indexes: whether the composite one is there, and the legacy ones.\<close>

fun scan_indexes :: "access_index list \<Rightarrow> (panel, bool \<times> string list) act" where
  "scan_indexes [] = ret (False, [])"
| "scan_indexes (idx # rest) =
     andThen (if ix_Unique idx \<noteq> 1 \<or> ix_Name idx = composite_index then ret []
              else andThen outside (\<lambda>_. ret (if ix_Columns idx = [''source_ip''] then [ix_Name idx] else []))) (\<lambda>names.
     andThen (scan_indexes rest) (\<lambda>(found, more).
     ret ((ix_Name idx = composite_index \<and> ix_Unique idx = 1) \<or> found, names @ more)))"

text \<open>\<open>DROP INDEX IF EXISTS\<close>; SQLite refuses the index of a UNIQUE constraint.\<close>

definition drop_index :: "string \<Rightarrow> (panel, unit) act" where
  "drop_index name =
     andThen outside (\<lambda>_.
     andThen (gets indexes) (\<lambda>ixs.
     if name \<notin> ix_Name ` set ixs then ret ()
     else if HasPrefix name ''sqlite_autoindex_''
     then throw (DbErr ''index associated with UNIQUE or PRIMARY KEY constraint cannot be dropped'')
     else modify (\<lambda>s. s\<lparr>indexes := filter (\<lambda>x. ix_Name x \<noteq> name) (indexes s)\<rparr>)))"

text \<open>\<open>CREATE UNIQUE INDEX IF NOT EXISTS\<close>; a name that is taken makes it do nothing.\<close>

definition create_composite_index :: "(panel, unit) act" where
  "create_composite_index =
     andThen outside (\<lambda>_.
     andThen (gets (\<lambda>s. (indexes s, map (\<lambda>r. (ar_SourceIP r, ar_LastPort r)) (tbl_access (pdb s))))) (\<lambda>(ixs, keys).
     if composite_index \<in> ix_Name ` set ixs then ret ()
     else if \<not> distinct keys then throw (DbErr ''UNIQUE constraint failed: access_ip_records'')
     else modify (\<lambda>s. s\<lparr>indexes := \<lparr>ix_Name = composite_index, ix_Unique = 1,
       ix_Columns = [''source_ip'', ''last_port'']\<rparr> # indexes s\<rparr>)))"

definition wrapped :: "string \<Rightarrow> (panel, 'a) act \<Rightarrow> (panel, 'a) act" where
  "wrapped msg m = andThen (attempt m) (\<lambda>r. case r of Inl e \<Rightarrow> throw (ErrArg msg (err_text e)) | Inr x \<Rightarrow> ret x)"

definition migrateAccessIPRecordIndexes :: "(panel, unit) act" where
  "migrateAccessIPRecordIndexes =
     andThen outside (\<lambda>_.
     andThen (gets indexes) (\<lambda>ixs.
     andThen (scan_indexes ixs) (\<lambda>(hasCompositeUnique, legacy).
     if hasCompositeUnique \<and> legacy = [] then ret ()
     else
       andThen (for_each (\<lambda>name. wrapped ''drop legacy access_ip_records source_ip index failed:'' (drop_index name)) legacy) (\<lambda>_.
       if \<not> hasCompositeUnique
       then wrapped ''create access_ip_records composite index failed:'' create_composite_index
       else ret ()))))"

definition initAccessIPRecord :: "(panel, unit) act" where
  "initAccessIPRecord =
     andThen outside (\<lambda>_.
     andThen (modify (\<lambda>s. s\<lparr>indexes := w_migrate (world s) (indexes s)\<rparr>)) (\<lambda>_.
     migrateAccessIPRecordIndexes))"

section \<open>Opening\<close>

definition InitDB :: "(panel, unit) act" where
  "InitDB =
     andThen outside (\<lambda>_.
     andThen outside (\<lambda>_.
     andThen initUser (\<lambda>_.
     andThen initInbound (\<lambda>_.
     andThen initOutbound (\<lambda>_.
     andThen initRoutingRule (\<lambda>_.
     andThen initSetting (\<lambda>_.
     initAccessIPRecord)))))))"

section \<open>The command line\<close>

text \<open>The commands print; what they print is their result.\<close>

definition println :: "string list \<Rightarrow> string" where
  "println words = Join words '' '' @ [CHR 0x0A]"

definition with_db :: "(panel, string) act \<Rightarrow> (panel, string) act" where
  "with_db m = andThen (attempt InitDB) (\<lambda>r. case r of Inl e \<Rightarrow> ret (println [err_text e]) | Inr _ \<Rightarrow> m)"

definition resetSetting :: "(panel, string) act" where
  "resetSetting = with_db (andThen (attempt ResetSettings) (\<lambda>r. ret (case r of
       Inl e \<Rightarrow> println [''reset setting failed:'', err_text e]
     | Inr _ \<Rightarrow> println [''reset setting success'']))) "

definition updateSetting :: "int \<Rightarrow> string \<Rightarrow> string \<Rightarrow> (panel, string) act" where
  "updateSetting port username password = with_db (
     andThen (if 0 < port
       then andThen (attempt (SetPort port)) (\<lambda>r. ret (case r of
           Inl e \<Rightarrow> println [''set port failed:'', err_text e]
         | Inr _ \<Rightarrow> ''set port '' @ Itoa port @ '' success''))
       else ret []) (\<lambda>out.
     andThen (if username \<noteq> [] \<or> password \<noteq> []
       then andThen (attempt (UpdateFirstUser username password)) (\<lambda>r. ret (case r of
           Inl e \<Rightarrow> println [''set username and password failed:'', err_text e]
         | Inr _ \<Rightarrow> println [''set username and password success'']))
       else ret []) (\<lambda>out2.
     ret (out @ out2))))"

definition shown_value :: "string \<Rightarrow> string \<Rightarrow> ('a \<Rightarrow> string) \<Rightarrow> 'a res \<Rightarrow> string" where
  "shown_value failed name show r = (case r of
       Inl e \<Rightarrow> println [failed, err_text e] | Inr x \<Rightarrow> println [name, show x])"

definition showSetting :: "(panel, string) act" where
  "showSetting = with_db (
     andThen (attempt GetFirstUser) (\<lambda>user.
     andThen (attempt GetPort) (\<lambda>port.
     andThen (attempt GetListen) (\<lambda>listen.
     andThen (attempt GetBasePath) (\<lambda>basePath.
     andThen (attempt GetCertFile) (\<lambda>certFile.
     andThen (attempt GetKeyFile) (\<lambda>keyFile.
     andThen (attempt GetTimeLocation) (\<lambda>location.
     ret ((case user of
             Inl e \<Rightarrow> println [''get username/password failed:'', err_text e]
           | Inr u \<Rightarrow> println [''username:'', u_Username u] @ println [''password:'', u_Password u])
       @ shown_value ''get panel port failed:'' ''port:'' Itoa port
       @ shown_value ''get web listen failed:'' ''webListen:'' (\<lambda>v. v) listen
       @ shown_value ''get web base path failed:'' ''webBasePath:'' (\<lambda>v. v) basePath
       @ shown_value ''get cert file failed:'' ''webCertFile:'' (\<lambda>v. v) certFile
       @ shown_value ''get key file failed:'' ''webKeyFile:'' (\<lambda>v. v) keyFile
       @ shown_value ''get time location failed:'' ''timeLocation:'' (\<lambda>v. v) location)))))))))"

section \<open>The migration from v2-ui\<close>

record v2_inbound =
  v2_Id :: int
  v2_Port :: int
  v2_Listen :: string
  v2_Protocol :: string
  v2_Settings :: string
  v2_StreamSettings :: string
  v2_Tag :: string
  v2_Sniffing :: string
  v2_Remark :: string
  v2_Up :: int
  v2_Down :: int
  v2_Enable :: bool

definition ToInbound :: "int \<Rightarrow> v2_inbound \<Rightarrow> inbound" where
  "ToInbound userId i = zero_inbound\<lparr>in_UserId := userId, in_Up := v2_Up i, in_Down := v2_Down i, in_Total := 0,
     in_Remark := v2_Remark i, in_Enable := v2_Enable i, in_ExpiryTime := 0, in_Listen := v2_Listen i,
     in_Port := v2_Port i, in_Protocol := v2_Protocol i, in_Settings := v2_Settings i,
     in_StreamSettings := v2_StreamSettings i, in_Tag := v2_Tag i, in_Sniffing := v2_Sniffing i\<rparr>"

text \<open>The rows are those of the database of v2-ui; opening and reading it may fail.\<close>

definition MigrateFromV2UI :: "v2_inbound list \<Rightarrow> (panel, string) act" where
  "MigrateFromV2UI rows =
     andThen (wrapped ''init v2-ui database failed:'' outside) (\<lambda>_.
     andThen (wrapped ''init x-ui database failed:'' InitDB) (\<lambda>_.
     andThen (wrapped ''get v2-ui inbounds failed:'' outside) (\<lambda>_.
     if rows = [] then ret (println [''migrate v2-ui inbounds success: 0''])
     else
       andThen (wrapped ''get x-ui user failed:'' GetFirstUser) (\<lambda>user.
       andThen (wrapped ''add x-ui inbounds failed:'' (AddInbounds (map (ToInbound (u_Id user)) rows))) (\<lambda>_.
       ret (println [''migrate v2-ui inbounds success:'', Itoa (int (length rows))]))))))"

end
