(* ===== verification/Startup_Properties.thy ===== *)
theory Startup_Properties
  imports Startup Managed_Invariants Access_Properties
begin

text \<open>What holds when the database was opened, and what the migration of the indexes leaves.\<close>

section \<open>The indexes\<close>

definition legacy_index :: "access_index \<Rightarrow> bool" where
  "legacy_index ix \<longleftrightarrow> ix_Unique ix = 1 \<and> ix_Name ix \<noteq> composite_index \<and> ix_Columns ix = [''source_ip'']"

definition index_frame :: "panel \<Rightarrow> panel \<Rightarrow> bool" where
  "index_frame s t \<longleftrightarrow> t = s\<lparr>faults := faults t, indexes := indexes t\<rparr>"

lemma index_frame_refl: "index_frame s s" by (simp add: index_frame_def)

lemma index_frame_trans: "index_frame s t \<Longrightarrow> index_frame t u \<Longrightarrow> index_frame s u"
  unfolding index_frame_def by (cases s; cases t; cases u) simp

lemma index_frame_pdb: "index_frame s t \<Longrightarrow> pdb t = pdb s"
  unfolding index_frame_def by (cases s; cases t) simp

lemma index_outside: "outside s = (r, t) \<Longrightarrow> index_frame s t \<and> indexes t = indexes s"
  by (auto simp: outside_run index_frame_def split: list.splits option.splits)

lemma scan_indexes_run:
  "scan_indexes ixs s = (r, t) \<Longrightarrow> index_frame s t \<and> indexes t = indexes s
     \<and> (\<forall>q. r = Inr q \<longrightarrow> q = (\<exists>x \<in> set ixs. ix_Name x = composite_index \<and> ix_Unique x = 1,
          map ix_Name (filter legacy_index ixs)))"
proof (induction ixs arbitrary: s r t)
  case Nil
  then show ?case by (auto simp: index_frame_refl)
next
  case (Cons idx rest)
  let ?m = "if ix_Unique idx \<noteq> 1 \<or> ix_Name idx = composite_index then ret []
      else andThen outside (\<lambda>_. ret (if ix_Columns idx = [''source_ip''] then [ix_Name idx] else []))"
  obtain q s1 where m: "?m s = (q, s1)" by (cases "?m s")
  have f1: "index_frame s s1 \<and> indexes s1 = indexes s
      \<and> (\<forall>ns. q = Inr ns \<longrightarrow> ns = (if legacy_index idx then [ix_Name idx] else []))"
  proof (cases "ix_Unique idx \<noteq> 1 \<or> ix_Name idx = composite_index")
    case True
    with m show ?thesis by (auto simp: index_frame_refl legacy_index_def)
  next
    case False
    obtain o1 s' where o: "outside s = (o1, s')" by (cases "outside s")
    from index_outside [OF o] m False o show ?thesis
      by (cases o1) (auto simp: andThen_run legacy_index_def split: if_splits)
  qed
  show ?case
  proof (cases q)
    case (Inl e)
    with m Cons.prems f1 show ?thesis by (auto simp: andThen_run)
  next
    case (Inr names)
    obtain q2 s2 where n: "scan_indexes rest s1 = (q2, s2)" by (cases "scan_indexes rest s1")
    have s2: "index_frame s s2" "indexes s2 = indexes s"
      using Cons.IH [OF n] f1 index_frame_trans by auto
    show ?thesis
    proof (cases q2)
      case (Inl e)
      with Cons.prems m n \<open>q = Inr names\<close> have "r = Inl e \<and> t = s2" by (auto simp: andThen_run)
      with s2 show ?thesis by simp
    next
      case q2: (Inr p)
      obtain b more where p: "p = (b, more)" by (cases p)
      have "r = Inr ((ix_Name idx = composite_index \<and> ix_Unique idx = 1) \<or> b, names @ more) \<and> t = s2"
        using Cons.prems m n Inr q2 p by (auto simp: andThen_run)
      with s2 Cons.IH [OF n] f1 Inr q2 p show ?thesis by auto
    qed
  qed
qed

lemma wrapped_run: "wrapped msg m s = (case m s of (Inl e, t) \<Rightarrow> (Inl (ErrArg msg (err_text e)), t) | (Inr x, t) \<Rightarrow> (Inr x, t))"
  by (simp add: wrapped_def andThen_run attempt_run split: prod.split sum.split)

lemma drop_index_run:
  "drop_index name s = (r, t) \<Longrightarrow> index_frame s t
     \<and> (\<forall>u. r = Inr u \<longrightarrow> indexes t = filter (\<lambda>x. ix_Name x \<noteq> name) (indexes s))"
proof -
  assume run: "drop_index name s = (r, t)"
  obtain q s1 where o: "outside s = (q, s1)" by (cases "outside s")
  note f = index_outside [OF o]
  have none: "filter (\<lambda>x. ix_Name x \<noteq> name) ixs = ixs" if "name \<notin> ix_Name ` set ixs" for ixs
    using that by (auto simp: filter_id_conv)
  show ?thesis
  proof (cases q)
    case (Inr u)
    have "index_frame s (s1\<lparr>indexes := ixs\<rparr>)" for ixs
      using f by (cases s; cases s1) (simp add: index_frame_def)
    with run o Inr f none [of "indexes s"] show ?thesis by (auto simp: drop_index_def andThen_run split: if_splits)
  qed (use run o f in \<open>auto simp: drop_index_def andThen_run\<close>)
qed

lemma drop_all_run:
  "for_each (\<lambda>name. wrapped msg (drop_index name)) names s = (r, t) \<Longrightarrow> index_frame s t
     \<and> (\<forall>u. r = Inr u \<longrightarrow> indexes t = filter (\<lambda>x. ix_Name x \<notin> set names) (indexes s))"
proof (induction names arbitrary: s)
  case (Cons name names)
  obtain q s1 where d: "drop_index name s = (q, s1)" by (cases "drop_index name s")
  note f = drop_index_run [OF d]
  show ?case
  proof (cases q)
    case (Inr u)
    with Cons.prems d have "for_each (\<lambda>name. wrapped msg (drop_index name)) names s1 = (r, t)"
      by (simp add: andThen_run wrapped_run [of msg "drop_index name" s])
    from Cons.IH [OF this] f Inr show ?thesis
      by (auto intro: index_frame_trans simp: filter_filter intro!: filter_cong)
  qed (use Cons.prems d f in \<open>auto simp: andThen_run wrapped_run [of msg "drop_index name" s]\<close>)
qed (simp add: index_frame_refl)

lemma create_composite_run:
  "create_composite_index s = (r, t) \<Longrightarrow> index_frame s t
     \<and> (\<forall>u. r = Inr u \<longrightarrow> composite_index \<in> ix_Name ` set (indexes t)
          \<and> (\<forall>ix \<in> set (indexes t). legacy_index ix \<longrightarrow> ix \<in> set (indexes s)))"
proof -
  assume run: "create_composite_index s = (r, t)"
  obtain q s1 where o: "outside s = (q, s1)" by (cases "outside s")
  note f = index_outside [OF o]
  have "index_frame s (s1\<lparr>indexes := ixs\<rparr>)" for ixs
    using f by (cases s; cases s1) (simp add: index_frame_def)
  with run o f show ?thesis
    by (cases q) (auto simp: create_composite_index_def andThen_run legacy_index_def split: if_splits)
qed

text \<open>when the migration of the indexes succeeds there is an index with the composite name and no
  unique index on the address alone; no row was touched, and a second run changes nothing.\<close>

theorem indexes_migrated:
  "case migrateAccessIPRecordIndexes s of
      (Inl e, t) \<Rightarrow> pdb t = pdb s
    | (Inr _, t) \<Rightarrow> pdb t = pdb s \<and> composite_index \<in> ix_Name ` set (indexes t)
        \<and> (\<forall>ix \<in> set (indexes t). ix_Unique ix = 1 \<and> ix_Columns ix = [''source_ip''] \<longrightarrow> ix_Name ix = composite_index)
        \<and> (faults t = [] \<longrightarrow> migrateAccessIPRecordIndexes t = (Inr (), t))"
proof -
  have again: "faults t = [] \<longrightarrow> migrateAccessIPRecordIndexes t = (Inr (), t)"
    if present: "composite_index \<in> ix_Name ` set (indexes t)" and nolegacy: "\<forall>ix \<in> set (indexes t). \<not> legacy_index ix" for t
  proof
    assume calm: "faults t = []"
    obtain q u where n: "scan_indexes (indexes t) t = (q, u)" by (cases "scan_indexes (indexes t) t")
    have q: "\<exists>b names. q = Inr (b, names)" "u = t" using n calm
    proof -
      have "\<exists>p. scan_indexes ixs t = (Inr p, t)" for ixs
        using calm by (induction ixs) (auto simp: andThen_run split: prod.split)
      with n show "\<exists>b names. q = Inr (b, names)" "u = t" by (metis Pair_inject surj_pair)+
    qed
    then obtain b where q: "q = Inr (b, [])" "u = t"
      using scan_indexes_run [OF n] nolegacy by (auto simp: filter_empty_conv)
    show "migrateAccessIPRecordIndexes t = (Inr (), t)"
      using q n calm present
      by (simp add: migrateAccessIPRecordIndexes_def andThen_run wrapped_run create_composite_index_def)
  qed
  obtain r t where run: "migrateAccessIPRecordIndexes s = (r, t)" by (cases "migrateAccessIPRecordIndexes s")
  obtain q s1 where o: "outside s = (q, s1)" by (cases "outside s")
  obtain q2 s2 where n: "scan_indexes (indexes s1) s1 = (q2, s2)" by (cases "scan_indexes (indexes s1) s1")
  note f1 = index_outside [OF o] and f2 = scan_indexes_run [OF n]
  have legacy: "legacy_index ix \<longleftrightarrow> ix_Unique ix = 1 \<and> ix_Columns ix = [''source_ip''] \<and> ix_Name ix \<noteq> composite_index" for ix
    by (auto simp: legacy_index_def)
  have "index_frame s t \<and> (\<forall>u. r = Inr u \<longrightarrow> composite_index \<in> ix_Name ` set (indexes t)
      \<and> (\<forall>ix \<in> set (indexes t). \<not> legacy_index ix))"
  proof (cases "q = Inr () \<and> (\<exists>p. q2 = Inr p)")
    case False
    with run o n f1 f2 show ?thesis
      by (cases q; cases q2) (auto simp: migrateAccessIPRecordIndexes_def andThen_run intro: index_frame_trans)
  next
    case True
    then obtain b names where q2: "q = Inr ()" "q2 = Inr (b, names)" by auto
    with f2 have b: "b \<longleftrightarrow> (\<exists>x \<in> set (indexes s1). ix_Name x = composite_index \<and> ix_Unique x = 1)"
      and names: "names = map ix_Name (filter legacy_index (indexes s1))" by auto
    show ?thesis
    proof (cases "b \<and> names = []")
      case True
      with run o n q2 have "r = Inr () \<and> t = s2" by (simp add: migrateAccessIPRecordIndexes_def andThen_run)
      with True b names f1 f2 show ?thesis by (force simp: filter_empty_conv intro: index_frame_trans)
    next
      case False
      let ?d = "for_each (\<lambda>name. wrapped ''drop legacy access_ip_records source_ip index failed:'' (drop_index name)) names"
      obtain q3 s3 where d: "?d s2 = (q3, s3)" by (cases "?d s2")
      note f3 = drop_all_run [OF d]
      have rest: "andThen ?d (\<lambda>_. if \<not> b
          then wrapped ''create access_ip_records composite index failed:'' create_composite_index else ret ()) s2 = (r, t)"
        using run o n q2 False by (simp add: migrateAccessIPRecordIndexes_def andThen_run [of outside]
            andThen_run [of "gets indexes"] andThen_run [of "scan_indexes (indexes s1)"] split: if_splits)
      have fr: "index_frame s s3" using f1 f2 f3 by (blast intro: index_frame_trans)
      show ?thesis
      proof (cases q3)
        case (Inl e)
        with rest d have "r = Inl e \<and> t = s3" by (simp add: andThen_run)
        with fr show ?thesis by simp
      next
        case (Inr u)
        with f3 f2 names have ixs: "indexes s3 = filter (\<lambda>x. ix_Name x \<notin> ix_Name ` set (filter legacy_index (indexes s1))) (indexes s1)"
          by simp
        then have gone: "\<not> legacy_index ix" if "ix \<in> set (indexes s3)" for ix using that by auto
        show ?thesis
        proof (cases b)
          case True
          with rest d Inr have "r = Inr () \<and> t = s3" by (simp add: andThen_run)
          moreover from True b obtain x where "x \<in> set (indexes s1)" "ix_Name x = composite_index" by blast
          then have "x \<in> set (indexes s3)" by (auto simp: ixs legacy_index_def)
          ultimately show ?thesis using fr gone \<open>ix_Name x = composite_index\<close> by force
        next
          case nb: False
          obtain q4 s4 where c: "create_composite_index s3 = (q4, s4)" by (cases "create_composite_index s3")
          from nb rest d Inr c have "t = s4 \<and> (\<forall>u. r = Inr u \<longrightarrow> q4 = Inr ())"
            by (cases q4) (auto simp: andThen_run wrapped_run)
          with create_composite_run [OF c] fr gone show ?thesis by (blast intro: index_frame_trans)
        qed
      qed
    qed
  qed
  with run again [of t] show ?thesis
    by (cases r) (auto simp: legacy dest: index_frame_pdb)
qed

definition legacy_panel :: panel where
  "legacy_panel = (fresh_panel quiet_world)\<lparr>indexes :=
     [\<lparr>ix_Name = ''idx_source_ip'', ix_Unique = 1, ix_Columns = [''source_ip'']\<rparr>]\<rparr>"

theorem indexes_migrated_witness:
  "\<exists>t. migrateAccessIPRecordIndexes legacy_panel = (Inr (), t) \<and> migrateAccessIPRecordIndexes t = (Inr (), t)
     \<and> map ix_Name (indexes t) = [''idx_access_ip_port'']"
proof -
  have run: "fst (migrateAccessIPRecordIndexes legacy_panel) = Inr ()"
    "faults (snd (migrateAccessIPRecordIndexes legacy_panel)) = []"
    "map ix_Name (indexes (snd (migrateAccessIPRecordIndexes legacy_panel))) = [''idx_access_ip_port'']" by code_simp+
  then obtain t where t: "migrateAccessIPRecordIndexes legacy_panel = (Inr (), t)"
    by (cases "migrateAccessIPRecordIndexes legacy_panel") simp
  with indexes_migrated [of legacy_panel] run show ?thesis by simp
qed

end
