(* ===== verification/Server_Service.thy ===== *)
theory Server_Service
  imports Cert_Service
begin

text \<open>
  The server service (src/web/service/server.go) and the counters of connections
  (src/util/sys/sys_linux.go).  CPU, memory and load come from gopsutil; of the status
  the part that the code computes is modelled: the connections, the state of xray
  and the counters of traffic (the traffic per second is a division of floats and left out).
\<close>

section \<open>Counting lines\<close>

text \<open>
  \<open>getLinesNum\<close> reads into one buffer of 8192 bytes and never clears it: behind the
  \<open>n\<close> bytes of a read the buffer holds what earlier reads left there.
\<close>

definition fill_buf :: "string \<Rightarrow> string \<Rightarrow> string" where
  "fill_buf buf chunk = chunk @ drop (length chunk) buf"

text \<open>The inner loop over the buffer from \<open>buffPosition\<close>; it ends because the position grows.\<close>

function count_from :: "nat \<Rightarrow> string \<Rightarrow> nat \<Rightarrow> nat" where
  "count_from n buf pos =
     (case find (\<lambda>i. buf ! i = CHR 0x0A) [pos..<length buf] of
        None \<Rightarrow> 0
      | Some i \<Rightarrow> if n = pos then 0 else Suc (count_from n buf (Suc i)))"
  by pat_completeness auto

termination
proof (relation "measure (\<lambda>(n, buf, pos). length buf - pos)")
  fix n :: nat and buf :: string and pos i
  assume "find (\<lambda>i. buf ! i = CHR 0x0A) [pos..<length buf] = Some i"
  then have "i \<in> set [pos..<length buf]" by (auto simp: find_Some_iff in_set_conv_nth)
  then show "((n, buf, Suc i), (n, buf, pos)) \<in> measure (\<lambda>(n, buf, pos). length buf - pos)" by auto
qed simp

declare count_from.simps [simp del]

text \<open>The reads of the file: the chunks it gives, then the end of the file or an error.\<close>

fun count_reads :: "string \<Rightarrow> string list \<Rightarrow> nat" where
  "count_reads buf [] = count_from 0 buf 0"
| "count_reads buf (chunk # chunks) =
     (let buf' = fill_buf buf chunk in count_from (length chunk) buf' 0 + count_reads buf' chunks)"

definition buffer_size :: nat where "buffer_size = 8192"

text \<open>A file as the kernel gives it: absent, or chunks of at most the size of the buffer and an end.\<close>

type_synonym proc_file = "(string list \<times> err option) res"

definition getLinesNum :: "proc_file \<Rightarrow> nat \<times> err option" where
  "getLinesNum file = (case file of
       Inl e \<Rightarrow> (0, Some e)
     | Inr (chunks, end_error) \<Rightarrow> (count_reads (replicate buffer_size (CHR 0x00)) chunks, end_error))"

text \<open>\<open>GetTCPCount\<close> and \<open>GetUDPCount\<close> are the same function of two files.\<close>

definition connection_count :: "proc_file \<Rightarrow> proc_file \<Rightarrow> nat \<times> err option" where
  "connection_count v4 v6 = (case getLinesNum v4 of
       (n4, Some e) \<Rightarrow> (n4, Some e)
     | (n4, None) \<Rightarrow> (n4 + fst (getLinesNum v6), None))"

section \<open>The status\<close>

record net_status =
  ns_Time :: int
  ns_Sent :: nat
  ns_Recv :: nat
  ns_State :: string
  ns_ErrorMsg :: string
  ns_Version :: string
  ns_Tcp :: nat
  ns_Udp :: nat

definition GetServerStatus :: "nat \<Rightarrow> nat \<Rightarrow> proc_file \<times> proc_file \<Rightarrow> proc_file \<times> proc_file \<Rightarrow> (panel, net_status) act" where
  "GetServerStatus sent recv tcp udp =
     andThen (gets clock_now) (\<lambda>now.
     andThen IsXrayRunning (\<lambda>running.
     andThen (if running then ret (''running'', [])
              else andThen GetXrayErr (\<lambda>e.
                   andThen GetXrayResult (\<lambda>text_data.
                   ret (if e \<noteq> None then ''error'' else ''stop'', text_data)))) (\<lambda>(state, msg).
     andThen GetXrayVersion (\<lambda>version.
     ret \<lparr>ns_Time = now, ns_Sent = sent, ns_Recv = recv, ns_State = state, ns_ErrorMsg = msg, ns_Version = version,
          ns_Tcp = fst (connection_count (fst tcp) (snd tcp)),
          ns_Udp = fst (connection_count (fst udp) (snd udp))\<rparr>))))"

section \<open>Versions and updates\<close>

definition GetXrayVersions :: "string list" where
  "GetXrayVersions = [''v-ui-local'']"

definition TrimRightSlash :: "string \<Rightarrow> string" where
  "TrimRightSlash s = rev (dropWhile (\<lambda>c. c = CHR ''/'') (rev s))"

definition zip_name :: "world \<Rightarrow> string" where
  "zip_name w = (if w_arch w = ''arm64'' then ''xray-linux-arm64.zip'' else ''xray-linux-amd64.zip'')"

definition download_url :: "world \<Rightarrow> string" where
  "download_url w =
     (let baseURL = TrimRightSlash (w_env w ''XUI_RELEASES_BASE'') in
      (if baseURL = [] then ''https://github.com/torr9522/v-ui/releases/download/v-ui-assets'' else baseURL)
      @ ''/'' @ zip_name w)"

text \<open>A read of a file that \<open>os.Stat\<close> has seen.\<close>

definition read_seen :: "string \<Rightarrow> (panel, string) act" where
  "read_seen path = andThen (read_file path) (\<lambda>c. case c of None \<Rightarrow> throw (ExtErr ''no such file'') | Some x \<Rightarrow> ret x)"

definition remove_file :: "string \<Rightarrow> (panel, unit) act" where
  "remove_file path = modify (\<lambda>s. s\<lparr>files := (files s)(path := None)\<rparr>)"

text \<open>\<open>io.Copy\<close> into a file that was created: what was read before an error stays.\<close>

definition copy_into :: "string \<Rightarrow> string list \<times> err option \<Rightarrow> (panel, unit) act" where
  "copy_into path body =
     andThen (modify (\<lambda>s. s\<lparr>files := (files s)(path \<mapsto> concat (fst body))\<rparr>)) (\<lambda>_.
     case snd body of None \<Rightarrow> ret () | Some e \<Rightarrow> throw e)"

definition fetch_xray :: "string \<Rightarrow> (panel, string) act" where
  "fetch_xray zipName =
     andThen (on_world (\<lambda>w. w_fetch w (download_url w))) (\<lambda>resp.
     andThen (lift_res resp) (\<lambda>body.
     andThen (remove_file zipName) (\<lambda>_.
     andThen outside (\<lambda>_.
     andThen (copy_into zipName body) (\<lambda>_. ret zipName)))))"

definition downloadXRay :: "string \<Rightarrow> (panel, string) act" where
  "downloadXRay version =
     andThen (on_world zip_name) (\<lambda>zipName.
     andThen (gets files) (\<lambda>fs.
     case find (\<lambda>candidate. fs candidate \<noteq> None) [''releases/'' @ zipName, ''/usr/local/x-ui/releases/'' @ zipName] of
       Some candidate \<Rightarrow>
         andThen (read_seen candidate) (\<lambda>data.
         andThen (write_file zipName data) (\<lambda>_. ret zipName))
     | None \<Rightarrow> fetch_xray zipName))"

text \<open>\<open>copyZipFile\<close>: an entry of the archive replaces a file.\<close>

definition copyZipFile :: "(string \<rightharpoonup> string) \<Rightarrow> string \<Rightarrow> string \<Rightarrow> (panel, unit) act" where
  "copyZipFile reader zipName fileName = (case reader zipName of
       None \<Rightarrow> throw (ExtErr ''file does not exist'')
     | Some content \<Rightarrow>
         andThen (remove_file fileName) (\<lambda>_.
         andThen outside (\<lambda>_.
         andThen (modify (\<lambda>s. s\<lparr>files := (files s)(fileName \<mapsto> [])\<rparr>)) (\<lambda>_.
         andThen outside (\<lambda>_.
         modify (\<lambda>s. s\<lparr>files := (files s)(fileName \<mapsto> content)\<rparr>))))))"

text \<open>The deferred calls: what runs behind an action, whatever it returned.\<close>

definition deferred :: "(panel, 'a) act \<Rightarrow> (panel, unit) act \<Rightarrow> (panel, 'a) act" where
  "deferred m d = andThen (attempt m) (\<lambda>r. andThen (attempt d) (\<lambda>_. lift_res r))"

text \<open>\<open>GOOS\<close> is linux.\<close>

definition binary_path :: "world \<Rightarrow> string" where
  "binary_path w = ''bin/xray-linux-'' @ w_arch w"

definition copy_release :: "(string \<rightharpoonup> string) \<Rightarrow> (panel, unit) act" where
  "copy_release reader =
     andThen (on_world binary_path) (\<lambda>path.
     andThen (copyZipFile reader ''xray'' path) (\<lambda>_.
     andThen (copyZipFile reader ''geosite.dat'' ''bin/geosite.dat'') (\<lambda>_.
     copyZipFile reader ''geoip.dat'' ''bin/geoip.dat'')))"

definition UpdateXray :: "string \<Rightarrow> (panel, unit) act" where
  "UpdateXray version =
     andThen (downloadXRay version) (\<lambda>zipFileName.
     andThen (read_seen zipFileName) (\<lambda>zipFile.
     deferred
       (andThen outside (\<lambda>_.
        andThen (on_world (\<lambda>w. w_zip w zipFile)) (\<lambda>zr. case zr of
          None \<Rightarrow> throw (ExtErr ''zip: not a valid zip file'')
        | Some reader \<Rightarrow>
            andThen (attempt StopXray) (\<lambda>_.
            deferred (copy_release reader) (RestartXray True)))))
       (remove_file zipFileName)))"

end
