(* ===== verification/Server_Properties.thy ===== *)
theory Server_Properties
  imports Server_Service
begin

text \<open>When the number of connections is the number of lines, and when it is not.\<close>

definition newlines :: "string \<Rightarrow> nat" where
  "newlines s = length (filter (\<lambda>c. c = CHR 0x0A) s)"

lemma newlines_append: "newlines (a @ b) = newlines a + newlines b"
  by (simp add: newlines_def)

lemma first_newline:
  assumes "find (\<lambda>i. buf ! i = CHR 0x0A) [pos..<length buf] = Some i"
  shows "pos \<le> i \<and> i < length buf \<and> buf ! i = CHR 0x0A \<and> (\<forall>j. pos \<le> j \<and> j < i \<longrightarrow> buf ! j \<noteq> CHR 0x0A)"
proof -
  from assms obtain k where k: "k < length buf - pos" "i = pos + k" "buf ! (pos + k) = CHR 0x0A"
    "\<forall>j<k. buf ! (pos + j) \<noteq> CHR 0x0A" by (auto simp: find_Some_iff)
  have "buf ! j \<noteq> CHR 0x0A" if "pos \<le> j" "j < i" for j
    using k(4) [rule_format, of "j - pos"] that k(2) by simp
  with k show ?thesis by auto
qed

lemma no_newlines: "(\<And>j. pos \<le> j \<Longrightarrow> j < n \<Longrightarrow> buf ! j \<noteq> CHR 0x0A) \<Longrightarrow> n \<le> length buf \<Longrightarrow>
    newlines (drop pos (take n buf)) = 0"
  by (auto simp: newlines_def filter_empty_conv in_set_conv_nth)

lemma count_from_newlines:
  assumes "pos \<le> n" and "n \<le> length buf" and "n = length buf \<or> (0 < n \<and> buf ! (n - 1) = CHR 0x0A)"
  shows "count_from n buf pos = newlines (drop pos (take n buf))"
  using assms
proof (induction n buf pos rule: count_from.induct)
  case (1 n buf pos)
  show ?case
  proof (cases "find (\<lambda>i. buf ! i = CHR 0x0A) [pos..<length buf]")
    case None
    then have "\<And>j. pos \<le> j \<Longrightarrow> j < n \<Longrightarrow> buf ! j \<noteq> CHR 0x0A" using 1(3) by (auto simp: find_None_iff)
    from no_newlines [OF this 1(3)] show ?thesis by (simp add: count_from.simps [of n buf pos] None)
  next
    case (Some i)
    note i = first_newline [OF Some]
    show ?thesis
    proof (cases "n = pos")
      case True
      with Some show ?thesis by (simp add: count_from.simps [of pos buf pos] newlines_def)
    next
      case False
      have "i < n"
      proof (rule ccontr)
        assume "\<not> i < n"
        with i 1(2,4) False have "0 < n" "buf ! (n - 1) = CHR 0x0A" "pos \<le> n - 1" "n - 1 < i" by auto
        with i show False by blast
      qed
      then have "Suc i \<le> n" by simp
      from 1(1) [OF Some False this 1(3,4)] have IH: "count_from n buf (Suc i) = newlines (drop (Suc i) (take n buf))" .
      have "drop pos (take n buf) = drop pos (take i buf) @ buf ! i # drop (Suc i) (take n buf)"
      proof -
        have "take n buf = take i buf @ buf ! i # drop (Suc i) (take n buf)"
          using id_take_nth_drop [of i "take n buf"] \<open>i < n\<close> i by (simp add: min_def)
        then show ?thesis using i by (metis drop_append length_take min.absorb2 diff_is_0_eq drop0 less_imp_le_nat)
      qed
      moreover have "newlines (drop pos (take i buf)) = 0" by (rule no_newlines) (use i in auto)
      ultimately have "newlines (drop pos (take n buf)) = Suc (newlines (drop (Suc i) (take n buf)))"
        using i by (simp add: newlines_append) (simp add: newlines_def)
      then show ?thesis using False by (simp add: count_from.simps [of n buf pos] Some IH)
    qed
  qed
qed

definition whole_lines :: "nat \<Rightarrow> string \<Rightarrow> bool" where
  "whole_lines cap chunk \<longleftrightarrow> length chunk \<le> cap \<and> (length chunk = cap \<or> (chunk \<noteq> [] \<and> last chunk = CHR 0x0A))"

lemma count_end: "count_from 0 buf 0 = 0"
  by (simp add: count_from.simps split: option.split)

lemma count_reads_lines:
  assumes "list_all (whole_lines (length buf)) chunks"
  shows "count_reads buf chunks = newlines (concat chunks)"
  using assms
proof (induction chunks arbitrary: buf)
  case (Cons chunk chunks)
  let ?b = "fill_buf buf chunk"
  have c: "whole_lines (length buf) chunk" and cs: "list_all (whole_lines (length buf)) chunks" using Cons.prems by auto
  have b: "length ?b = length buf" "take (length chunk) ?b = chunk"
    using c by (auto simp: fill_buf_def whole_lines_def)
  have "?b ! (length chunk - 1) = last chunk" if "chunk \<noteq> []"
    using that by (simp add: fill_buf_def nth_append last_conv_nth)
  with c b have "count_from (length chunk) ?b 0 = newlines chunk"
    using count_from_newlines [of 0 "length chunk" ?b] by (auto simp: whole_lines_def)
  with Cons.IH [of ?b] cs b show ?case by (simp add: Let_def newlines_append)
qed (simp add: count_end newlines_def)

text \<open>where every read fills the buffer or ends at a line, the count is the number of newlines of
  the file; a shorter read that ends inside a line counts newlines of earlier reads again.\<close>

theorem lines_counted:
  assumes "list_all (whole_lines buffer_size) chunks"
  shows "getLinesNum (Inr (chunks, e)) = (newlines (concat chunks), e)"
  using count_reads_lines [of "replicate buffer_size (CHR 0x00)" chunks] assms
  by (simp add: getLinesNum_def)

theorem lines_counted_witness:
  "getLinesNum (Inr ([''a'' @ [CHR 0x0A], ''b'' @ [CHR 0x0A]], None)) = (2, None)"
  by (subst lines_counted) (auto simp: whole_lines_def buffer_size_def newlines_def)


text \<open>Two lines and the beginning of a third, read in two pieces, are counted as four: here with a
  buffer of six bytes.\<close>

lemma stale_newlines_counted:
  "count_reads (replicate 6 (CHR 0x00)) [''a'' @ [CHR 0x0A] @ ''b'' @ [CHR 0x0A], ''c''] = 4"
  by code_simp

end
