(* ===== verification/Web_Conn.thy ===== *)
theory Web_Conn
  imports Go_Strings
begin

text \<open>
  The connection that answers plain HTTP on the HTTPS port with a redirect
  (src/web/network).  \<open>http.ReadRequest\<close> is a parameter: the host and the URI of the
  request in a text, if there is one.
\<close>

section \<open>The connection\<close>

text \<open>
  What the peer sends, in the pieces in which it arrives, the error at the end, the
  responses written; then the fields of \<open>AutoHttpsConn\<close>: the buffer (nil is \<open>None\<close>), its
  start, and whether the first request was looked for.
\<close>

record conn =
  cn_in :: "string list"
  cn_end :: err
  cn_out :: "(int \<times> string) list"
  cn_closed :: bool
  cn_firstBuf :: "string option"
  cn_bufStart :: nat
  cn_once :: bool

definition NewAutoHttpsConn :: "string list \<Rightarrow> err \<Rightarrow> conn" where
  "NewAutoHttpsConn pieces e = \<lparr>cn_in = pieces, cn_end = e, cn_out = [], cn_closed = False,
     cn_firstBuf = None, cn_bufStart = 0, cn_once = False\<rparr>"

text \<open>\<open>Read\<close> of the connection below with a buffer of \<open>k\<close> bytes.\<close>

definition raw_read :: "nat \<Rightarrow> conn \<Rightarrow> (string \<times> err option) \<times> conn" where
  "raw_read k c =
     (if cn_closed c then (([], Some (ExtErr ''use of closed network connection'')), c)
      else case cn_in c of
          [] \<Rightarrow> (([], Some (cn_end c)), c)
        | p # ps \<Rightarrow> ((take k p, None), c\<lparr>cn_in := (if length p \<le> k then ps else drop k p # ps)\<rparr>))"

definition readRequest :: "(string \<Rightarrow> (string \<times> string) option) \<Rightarrow> conn \<Rightarrow> bool \<times> conn" where
  "readRequest parse c0 = (case raw_read 2048 c0 of
       ((got, err), c) \<Rightarrow>
         let c1 = c\<lparr>cn_firstBuf := Some got\<rparr> in
         if err \<noteq> None then (False, c1)
         else case parse got of
             None \<Rightarrow> (False, c1)
           | Some (host, uri) \<Rightarrow>
               (True, c1\<lparr>cn_out := cn_out c1 @ [(307, ''https://'' @ host @ uri)], cn_closed := True, cn_firstBuf := None\<rparr>))"

definition conn_Read :: "(string \<Rightarrow> (string \<times> string) option) \<Rightarrow> nat \<Rightarrow> conn \<Rightarrow> (string \<times> err option) \<times> conn" where
  "conn_Read parse k c0 =
     (let c = (if cn_once c0 then c0 else (snd (readRequest parse c0))\<lparr>cn_once := True\<rparr>) in
      case cn_firstBuf c of
        None \<Rightarrow> raw_read k c
      | Some buf \<Rightarrow>
          let out = take k (drop (cn_bufStart c) buf); start = cn_bufStart c + length out in
          ((out, None), c\<lparr>cn_bufStart := start, cn_firstBuf := (if length buf \<le> start then None else Some buf)\<rparr>))"

fun conn_reads :: "(string \<Rightarrow> (string \<times> string) option) \<Rightarrow> nat list \<Rightarrow> conn \<Rightarrow> string \<times> conn" where
  "conn_reads parse [] c = ([], c)"
| "conn_reads parse (k # ks) c = (case conn_Read parse k c of ((out, err), c') \<Rightarrow>
     (case conn_reads parse ks c' of (later, c'') \<Rightarrow> (out @ later, c'')))"

section \<open>The stream\<close>

text \<open>The abstract view: the bytes the reader has not been given yet.\<close>

definition unread :: "conn \<Rightarrow> string" where
  "unread c = (case cn_firstBuf c of None \<Rightarrow> [] | Some buf \<Rightarrow> drop (cn_bufStart c) buf) @ concat (cn_in c)"

definition plain :: "conn \<Rightarrow> bool" where
  "plain c \<longleftrightarrow> cn_once c \<and> \<not> cn_closed c \<and> cn_out c = []"

lemma raw_read_unread:
  "\<not> cn_closed c \<Longrightarrow> cn_firstBuf c = None \<Longrightarrow> raw_read k c = ((out, e), c') \<Longrightarrow>
     out @ unread c' = unread c \<and> cn_closed c' = cn_closed c \<and> cn_out c' = cn_out c \<and> cn_once c' = cn_once c"
  by (auto simp: raw_read_def unread_def split: list.splits if_splits)

lemma conn_Read_plain:
  assumes "plain c" and "conn_Read parse k c = ((out, e), c')"
  shows "out @ unread c' = unread c \<and> plain c'"
proof (cases "cn_firstBuf c")
  case None
  with assms raw_read_unread [of c k out e c'] show ?thesis by (auto simp: conn_Read_def plain_def)
next
  case (Some buf)
  have "drop (cn_bufStart c) buf = take k (drop (cn_bufStart c) buf) @ drop (cn_bufStart c + min k (length buf - cn_bufStart c)) buf"
    by (cases "k \<le> length buf - cn_bufStart c") (simp_all add: min_def add.commute flip: drop_drop)
  with assms Some show ?thesis
    by (auto simp: conn_Read_def plain_def unread_def Let_def min.commute split: if_splits)
qed

lemma conn_reads_plain: "plain c \<Longrightarrow> conn_reads parse ks c = (out, c') \<Longrightarrow> out @ unread c' = unread c \<and> plain c'"
proof (induction ks arbitrary: c out c')
  case (Cons k ks)
  obtain o1 e c1 where r: "conn_Read parse k c = ((o1, e), c1)" by (metis surj_pair)
  obtain o2 c2 where rs: "conn_reads parse ks c1 = (o2, c2)" by (metis surj_pair)
  from conn_Read_plain [OF Cons.prems(1) r] Cons.IH [OF _ rs] Cons.prems(2) r rs show ?case by auto
qed (simp add: plain_def)

text \<open>The bytes in which a request is looked for.\<close>

definition first_bytes :: "string list \<Rightarrow> string" where
  "first_bytes pieces = (case pieces of [] \<Rightarrow> [] | p # _ \<Rightarrow> take 2048 p)"

text \<open>The connection right behind the look for a request.\<close>

definition looked :: "(string \<Rightarrow> (string \<times> string) option) \<Rightarrow> conn \<Rightarrow> conn" where
  "looked parse c = (if cn_once c then c else (snd (readRequest parse c))\<lparr>cn_once := True\<rparr>)"

lemma conn_Read_looked: "conn_Read parse k (looked parse c) = conn_Read parse k c"
  by (simp add: conn_Read_def looked_def Let_def)

lemma looked_plain:
  assumes "pieces = [] \<or> parse (first_bytes pieces) = None"
  shows "plain (looked parse (NewAutoHttpsConn pieces e)) \<and> unread (looked parse (NewAutoHttpsConn pieces e)) = concat pieces"
  using assms by (auto simp: looked_def readRequest_def raw_read_def NewAutoHttpsConn_def plain_def unread_def
      first_bytes_def split: list.split)

text \<open>C25: a peer that does not begin with a plain HTTP request sees no difference: whatever the sizes of
  the buffers, the bytes read and the bytes still to be read are those that were sent, and nothing
  is written.  A plain request is answered by one redirect to the same place and reads nothing.\<close>

theorem redirect_or_transparent:
  assumes "ks \<noteq> []"
  shows "case conn_reads parse ks (NewAutoHttpsConn pieces e) of (out, c) \<Rightarrow>
     (if pieces = [] \<or> parse (first_bytes pieces) = None
      then out @ unread c = concat pieces \<and> cn_out c = [] \<and> \<not> cn_closed c
      else out = [] \<and> cn_closed c \<and> (\<exists>host uri. parse (first_bytes pieces) = Some (host, uri)
             \<and> cn_out c = [(307, ''https://'' @ host @ uri)]))"
proof -
  let ?c = "NewAutoHttpsConn pieces e"
  have once: "conn_reads parse ks ?c = conn_reads parse ks (looked parse ?c)"
    using assms by (cases ks) (simp_all add: conn_Read_looked)
  obtain out c where run: "conn_reads parse ks (looked parse ?c) = (out, c)" by (metis surj_pair)
  show ?thesis
  proof (cases "pieces = [] \<or> parse (first_bytes pieces) = None")
    case True
    from looked_plain [of pieces parse e, OF True] conn_reads_plain [OF _ run] once run True show ?thesis
      by (auto simp: plain_def)
  next
    case False
    then obtain host uri where p: "pieces \<noteq> []" "parse (first_bytes pieces) = Some (host, uri)" by auto
    define d where "d = looked parse ?c"
    have d: "cn_closed d" "cn_firstBuf d = None" "cn_once d" "cn_out d = [(307, ''https://'' @ host @ uri)]"
      using p by (auto simp: d_def looked_def readRequest_def raw_read_def NewAutoHttpsConn_def first_bytes_def
          split: list.splits)
    have "conn_Read parse k d = (([], Some (ExtErr ''use of closed network connection'')), d)" for k
      using d by (simp add: conn_Read_def raw_read_def Let_def)
    then have "conn_reads parse ks d = ([], d)" for ks by (induction ks) simp_all
    with once run False p d show ?thesis by (auto simp: d_def)
  qed
qed

theorem redirect_or_transparent_witness:
  "conn_reads (\<lambda>t. if t = ''GET'' then Some (''host'', ''/uri'') else None) [10, 10] (NewAutoHttpsConn [''GET'', ''x''] NotFound)
     = ([], (NewAutoHttpsConn [''x''] NotFound)\<lparr>cn_out := [(307, ''https://host/uri'')], cn_closed := True, cn_once := True\<rparr>)
   \<and> cn_closed (snd (conn_reads (\<lambda>t. if t = ''GET'' then Some (''host'', ''/uri'') else None) [10, 10]
       (NewAutoHttpsConn [''GET'', ''x''] NotFound)))"
  using redirect_or_transparent [of "[10, 10]" "[''GET'', ''x'']" "\<lambda>t. if t = ''GET'' then Some (''host'', ''/uri'') else None" NotFound]
  by (auto simp: first_bytes_def NewAutoHttpsConn_def conn_Read_def readRequest_def raw_read_def)

end
