(* ===== verification/Tx_Discipline.thy ===== *)
theory Tx_Discipline
  imports Managed_Properties
begin

text \<open>
  The discipline of transactions.  A handler runs on the panel while no transaction
  is open (\<open>idle\<close>); it may open one (\<open>busy\<close>), and must leave none behind, whatever fails.
  \<open>tx_keeps\<close> is a step inside a transaction that undoes it when it fails, \<open>tx_ends\<close> a
  rest of a handler that closes it.  In both states an invariant of the databases holds.
\<close>

definition idle :: "(database \<Rightarrow> bool) \<Rightarrow> panel \<Rightarrow> bool" where
  "idle I = on_db (\<lambda>c t. I c \<and> t = None)"

definition busy :: "(database \<Rightarrow> bool) \<Rightarrow> panel \<Rightarrow> bool" where
  "busy I = on_db (\<lambda>c t. I c \<and> (\<exists>d. t = Some d \<and> I d))"

definition tx_keeps :: "(database \<Rightarrow> bool) \<Rightarrow> (panel, 'a) act \<Rightarrow> bool" where
  "tx_keeps I m \<longleftrightarrow> valid (busy I) m (\<lambda>_. busy I) (idle I)"

definition tx_ends :: "(database \<Rightarrow> bool) \<Rightarrow> (panel, 'a) act \<Rightarrow> bool" where
  "tx_ends I m \<longleftrightarrow> valid (busy I) m (\<lambda>_. idle I) (idle I)"

lemma idle_iff: "idle I s \<longleftrightarrow> I (pdb s) \<and> ptx s = None"
  by (simp add: idle_def on_db_def)

lemma busy_iff: "busy I s \<longleftrightarrow> I (pdb s) \<and> (\<exists>d. ptx s = Some d \<and> I d)"
  by (simp add: busy_def on_db_def)

section \<open>Frames\<close>

lemma idle_frame: "(\<And>P. keeps (on_db P) m) \<Longrightarrow> keeps (idle I) m"
  by (simp add: idle_def)

lemma busy_frame: "(\<And>P. keeps (on_db P) m) \<Longrightarrow> keeps (busy I) m"
  by (simp add: busy_def)

lemma idle_modify: "(\<And>s. pdb (f s) = pdb s) \<Longrightarrow> (\<And>s. ptx (f s) = ptx s) \<Longrightarrow> keeps (idle I) (modify f)"
  by (intro idle_frame frame_modify)

lemma idle_outside [keeps_intro]: "keeps (idle I) outside" "keeps (busy I) outside"
  by (rule idle_frame busy_frame, rule db_frame)+

lemma idle_query [keeps_intro]: "keeps (idle I) (query h f)" "keeps (busy I) (query h f)"
  by (rule idle_frame busy_frame, rule db_frame)+

section \<open>Statements\<close>

lemma stmt_run: "stmt h f s = (case outside s of (Inl e, t) \<Rightarrow> (Inl e, t) | (Inr _, t) \<Rightarrow> on_handle h f t)"
  by (simp add: stmt_def andThen_run split: prod.split sum.split)

lemma idle_stmt: "(\<And>d. I d \<Longrightarrow> I (snd (f d))) \<Longrightarrow> keeps (idle I) (stmt Conn f)"
  unfolding stmt_def
  by (intro keeps_intro) (auto simp: keeps_def idle_iff on_handle_def case_prod_beta)

lemma busy_stmt: "(\<And>d. I d \<Longrightarrow> I (snd (f d))) \<Longrightarrow> keeps (busy I) (stmt Tx f)"
  unfolding stmt_def
  by (intro keeps_intro) (auto simp: keeps_def busy_iff on_handle_def case_prod_beta)

lemma idle_stmt_now: "(\<And>t d. I d \<Longrightarrow> I (snd (f t d))) \<Longrightarrow> keeps (idle I) (stmt_now Conn f)"
  unfolding stmt_now_def by (intro keeps_intro idle_stmt)

lemma busy_stmt_now: "(\<And>t d. I d \<Longrightarrow> I (snd (f t d))) \<Longrightarrow> keeps (busy I) (stmt_now Tx f)"
  unfolding stmt_now_def by (intro keeps_intro busy_stmt)

lemmas writes = idle_stmt busy_stmt idle_stmt_now busy_stmt_now

section \<open>Transactions\<close>

lemma tx_or_rollback: "keeps (busy I) m \<Longrightarrow> tx_keeps I (or_rollback m)"
  unfolding tx_keeps_def
proof (rule validI)
  fix s r t assume m: "keeps (busy I) m" and "busy I s" and run: "or_rollback m s = (r, t)"
  moreover obtain q u where "m s = (q, u)" by (cases "m s")
  ultimately show "case r of Inl e \<Rightarrow> idle I t | Inr x \<Rightarrow> busy I t"
    using keepsD_eq [OF m] by (cases q) (auto simp: or_rollback_def idle_iff busy_iff)
qed

lemma tx_abort_if: "tx_keeps I (abort_if b e)"
  by (auto simp: tx_keeps_def valid_def idle_iff busy_iff)

lemma tx_for_each: "(\<And>x. tx_keeps I (f x)) \<Longrightarrow> tx_keeps I (for_each f xs)"
  by (induction xs) (auto simp: tx_keeps_def valid_ret intro: valid_andThen valid_ret)

lemma tx_keeps_bind: "tx_keeps I m \<Longrightarrow> (\<And>x. tx_keeps I (f x)) \<Longrightarrow> tx_keeps I (andThen m f)"
  unfolding tx_keeps_def by (rule valid_andThen)

lemma tx_opens: "(\<And>x. tx_ends I (f x)) \<Longrightarrow> keeps (idle I) (andThen begin_tx f)"
  unfolding tx_ends_def valid_keeps
  by (rule valid_andThen) (auto simp: valid_def idle_iff busy_iff)

lemma tx_bind: "tx_keeps I m \<Longrightarrow> (\<And>x. tx_ends I (f x)) \<Longrightarrow> tx_ends I (andThen m f)"
  unfolding tx_ends_def tx_keeps_def by (rule valid_andThen)

lemma tx_end_bind: "tx_ends I m \<Longrightarrow> (\<And>x. keeps (idle I) (f x)) \<Longrightarrow> tx_ends I (andThen m f)"
  unfolding tx_ends_def valid_keeps by (rule valid_andThen)

lemma tx_if: "(b \<Longrightarrow> tx_ends I m) \<Longrightarrow> (\<not> b \<Longrightarrow> tx_ends I n) \<Longrightarrow> tx_ends I (if b then m else n)"
  by simp

lemma tx_commit: "tx_ends I (attempt commit_tx)"
proof -
  have "valid (busy I) (attempt commit_tx) (\<lambda>_. idle I) (idle I)"
  proof (rule validI)
    fix s r t assume "busy I s" and run: "attempt commit_tx s = (r, t)"
    then obtain d where d: "ptx s = Some d" "I d" "I (pdb s)" by (auto simp: busy_iff)
    with commit_cases [of s d] run show "case r of Inl e \<Rightarrow> idle I t | Inr x \<Rightarrow> idle I t"
      by (auto simp: attempt_run idle_iff split: prod.splits)
  qed
  then show ?thesis by (simp add: tx_ends_def)
qed

lemma tx_managed: "tx_ends I commitManagedChange"
  unfolding tx_ends_def
proof (rule validI)
  fix s r t assume "busy I s" and run: "commitManagedChange s = (r, t)"
  then obtain d where d: "ptx s = Some d" "I d" "I (pdb s)" by (auto simp: busy_iff)
  from managed_outcome_raw [OF d(1) run] d show "case r of Inl e \<Rightarrow> idle I t | Inr x \<Rightarrow> idle I t"
    by (cases r) (auto simp: idle_iff)
qed

lemma tx_managed_bind: "(\<And>x. keeps (idle I) (f x)) \<Longrightarrow> tx_ends I (andThen commitManagedChange f)"
  by (rule tx_end_bind [OF tx_managed])

lemma tx_commit_bind: "(\<And>x. keeps (idle I) (f x)) \<Longrightarrow> tx_ends I (andThen (attempt commit_tx) f)"
  by (rule tx_end_bind [OF tx_commit])

lemma tx_case_prod: "(\<And>x y. z = (x, y) \<Longrightarrow> tx_ends I (f x y)) \<Longrightarrow> tx_ends I (case z of (x, y) \<Rightarrow> f x y)"
  by (cases z) simp

text \<open>In this order: the first rule that applies is the one to use.\<close>

lemmas tx_rules = tx_opens tx_managed_bind tx_commit_bind tx_managed tx_if tx_case_prod tx_bind
  tx_for_each tx_keeps_bind tx_or_rollback tx_abort_if

end
