(* ===== verification/Table_Writes.thy ===== *)
theory Table_Writes
  imports Tx_Discipline Access_Properties Startup Cert_Properties
begin

text \<open>
  What the services rely on about the tables: an invariant \<open>I\<close> of the database that every
  statement of a group of services preserves.  One locale per table; the lemmas inside say
  that every operation of the services, under every schedule of failures, keeps \<open>I\<close> and
  leaves no transaction open.  The interpretation is at the end of the theory of the
  panel's invariant.
\<close>

section \<open>Inbounds\<close>

locale inbound_writes =
  fixes I :: "database \<Rightarrow> bool"
  assumes inbound_saved: "I d \<Longrightarrow> limits_ok i \<Longrightarrow> I (snd (save_inbound i d))"
    and inbounds_updated: "I d \<Longrightarrow> (\<And>r. in_Id (f r) = in_Id r) \<Longrightarrow> (\<And>r. in_Port (f r) = in_Port r) \<Longrightarrow>
          (\<And>r. in_Tag (f r) = in_Tag r) \<Longrightarrow> (\<And>r. limits_ok r \<Longrightarrow> limits_ok (f r)) \<Longrightarrow>
          I (snd (update_inbounds P f d))"
    and inbound_deleted: "I d \<Longrightarrow> I (d\<lparr>tbl_inbounds := delete_rows P (tbl_inbounds d)\<rparr>)"
begin

lemma inbounds_found: "keeps (idle I) (find_inbounds P)"
  unfolding find_inbounds_def by (intro keeps_intro)

lemma AddInbound_keeps: "keeps (idle I) (AddInbound i)"
  unfolding AddInbound_def checkPortExist_def
  by (rule keeps_lift_res_bind) (intro keeps_intro writes inbound_saved normal_inbound_limits)

lemma UpdateInbound_keeps: "keeps (idle I) (UpdateInbound i)"
  unfolding UpdateInbound_def checkPortExist_def GetInbound_def
proof (rule keeps_lift_res_bind, intro keeps_intro writes inbound_saved)
  fix i' old assume "normal_inbound i = Inr i'"
  from normal_inbound_limits [OF this] show "limits_ok (merge_inbound old i')"
    by (simp add: limits_ok_def merge_inbound_def)
qed

lemma DelInbound_keeps: "keeps (idle I) (DelInbound i)"
  unfolding DelInbound_def by (intro writes) (simp add: inbound_deleted)

lemma inserts_keep: "list_all limits_ok js \<Longrightarrow> keeps (busy I) (for_each (\<lambda>i. stmt Tx (save_inbound i)) js)"
  by (intro keeps_for_each_list writes inbound_saved) (auto simp: list_all_iff)

lemma check_inbounds_keeps: "keeps (idle I) (check_inbounds is')"
  by (induction is') (simp_all only: check_inbounds.simps checkPortExist_def, intro keeps_intro, intro keeps_intro)

lemma AddInbounds_keeps: "keeps (idle I) (AddInbounds is')"
  unfolding keeps_def
proof (intro allI impI)
  fix s assume s: "idle I s"
  obtain q t where q: "check_inbounds is' s = (q, t)" by (cases "check_inbounds is' s")
  from keepsD_eq [OF check_inbounds_keeps q s] have t: "idle I t" .
  show "idle I (snd (AddInbounds is' s))"
  proof (cases q)
    case (Inr js)
    with q have "list_all limits_ok js" by (auto dest: check_inbounds_limits)
    then have "keeps (idle I) (andThen begin_tx (\<lambda>_. andThen (or_rollback (for_each (\<lambda>i. stmt Tx (save_inbound i)) js))
        (\<lambda>_. andThen (attempt commit_tx) (\<lambda>_. ret ()))))"
      by (intro tx_rules inserts_keep keeps_intro)
    from keepsD [OF this t] q Inr show ?thesis by (simp add: AddInbounds_def andThen_run [of "check_inbounds is'"])
  qed (use q t in \<open>simp add: AddInbounds_def andThen_run\<close>)
qed

lemma AddTraffic_keeps: "keeps (idle I) (AddTraffic ts)"
  unfolding AddTraffic_def
proof (intro tx_rules keeps_intro)
  show "keeps (busy I) (add_one_traffic t)" for t
    unfolding add_one_traffic_def add_up_def add_down_def
    by (intro keeps_intro writes inbounds_updated) (simp_all add: limits_ok_frame)
qed

lemma DisableInvalidInbounds_keeps: "keeps (idle I) DisableInvalidInbounds"
  unfolding DisableInvalidInbounds_def
  by (intro keeps_intro writes inbounds_updated) (simp_all add: limits_ok_frame)

lemma cleanups_keep: "keeps (idle I) (cleanup_service ps)" "keeps (idle I) (cleanup_rows ps f)"
  unfolding cleanup_service_def cleanup_rows_def set_settings_def
  by (intro keeps_intro inbounds_found writes inbounds_updated; simp add: limits_ok_frame)+

lemma initInbound_keeps: "keeps (idle I) initInbound"
  unfolding initInbound_def cleanupLegacyTrojanSettings_def cleanupLegacyVlessSettings_def cleanupLegacySocksSettings_def
  by (intro keeps_intro cleanups_keep writes inbounds_updated) (auto simp: limits_ok_def normal_rate_def)

lemma GetInbounds_keeps: "keeps (idle I) (GetInbounds u)"
  unfolding GetInbounds_def find_inbounds_def by (intro keeps_intro)

end

section \<open>Outbounds and routing rules\<close>

locale managed_writes =
  fixes I :: "database \<Rightarrow> bool"
  assumes outbound_created: "I d \<Longrightarrow> I (snd (create_outbound t r d))"
    and outbound_saved: "I d \<Longrightarrow> I (snd (save_outbound t r d))"
    and outbound_updated: "I d \<Longrightarrow> (\<And>x. ob_Id (f x) = ob_Id x) \<Longrightarrow> (\<And>x. ob_Tag (f x) = ob_Tag x) \<Longrightarrow>
          I (snd (update_outbound t i f d))"
    and outbound_deleted: "I d \<Longrightarrow> I (snd (delete_outbound i d))"
    and rule_created: "I d \<Longrightarrow> I (snd (create_rule t c d))"
    and rule_updated: "I d \<Longrightarrow> (\<And>x. rr_Id (g x) = rr_Id x) \<Longrightarrow> I (snd (update_rule t i g d))"
    and rule_deleted: "I d \<Longrightarrow> I (snd (delete_rule i d))"
begin

lemmas laws = outbound_created outbound_saved outbound_updated outbound_deleted rule_created rule_updated rule_deleted

lemma outbound_handlers_keep: "keeps (idle I) (AddOutbound ob)" "keeps (idle I) (DeleteOutbound i)"
    "keeps (idle I) (ToggleOutbound i b)" "keeps (idle I) (UpdateOutbound ob)"
  unfolding AddOutbound_def DeleteOutbound_def ToggleOutbound_def UpdateOutbound_def update_system_outbound_def
    update_user_outbound_def Let_def handler_defs
  by (intro tx_rules keeps_intro writes laws; simp)+

lemma ValidateRule_keeps: "keeps (idle I) (ValidateRule r)" "keeps (busy I) (ValidateRule r)"
  unfolding ValidateRule_def Let_def handler_defs by (intro keeps_intro)+

lemma rule_handlers_keep: "keeps (idle I) (AddRule r)" "keeps (idle I) (DeleteRule i)"
    "keeps (idle I) (ToggleRule i b)" "keeps (idle I) (UpdateRule r)" "keeps (idle I) (ReorderRules items)"
  unfolding AddRule_def DeleteRule_def ToggleRule_def UpdateRule_def update_system_rule_def update_user_rule_def
    ReorderRules_def reorder_one_def Let_def handler_defs
  by (intro tx_rules keeps_intro ValidateRule_keeps writes laws; simp add: merge_rule_def)+

lemma add_candidates_keep: "tx_keeps I (add_candidates cs fps m n)"
proof (induction cs arbitrary: fps m n)
  case (Cons c cs)
  then show ?case by (auto simp: Let_def intro!: tx_rules keeps_intro writes laws)
qed (simp add: tx_keeps_def valid_def)

lemma template_keeps: "keeps (idle I) (ApplyAITemplate tag base prefix)"
  unfolding ApplyAITemplate_def Let_def handler_defs
  by (intro tx_rules add_candidates_keep keeps_intro)

lemma system_outbounds_keep: "keeps (idle I) initOutbound"
  unfolding initOutbound_def ensure_system_outbound_def
  by (intro keeps_intro writes laws) simp_all

lemma lists_keep: "keeps (idle I) (GetOutbounds b)" "keeps (idle I) (GetOutbound i)"
    "keeps (idle I) (GetRules b)" "keeps (idle I) (GetRule i)"
  unfolding GetOutbounds_def GetOutbound_def getOutboundsByDB_def getOutboundByDB_def GetRules_def GetRule_def
    getRuleByDB_def getRulesByDB_def
  by (intro keeps_intro)+

end

section \<open>Settings and certificates\<close>

lemma reading_settings [keeps_intro]: "keeps (idle I) (getString k)" "keeps (idle I) (getBoolSetting k' b)"
  unfolding getString_def getBoolSetting_def getSetting_def by (intro keeps_intro)+

lemmas accessor_defs = cert_getters cert_setters getInt_def getInt64_def getBool_def setString_def setInt_def setInt64_def
  GetPort_def SetPort_def GetListen_def GetBasePath_def GetXrayConfigTemplate_def GetManagedOutboundsRouting_def

lemma on_files [keeps_intro]: "keeps (idle I) (read_file p)" "keeps (idle I) (write_file p c)"
    "keeps (idle I) (append_file p c)" "keeps (idle I) (rename_file p q)"
  unfolding read_file_def write_file_def append_file_def rename_file_def by (intro keeps_intro idle_modify; simp)+

lemma commands_keep [keeps_intro]: "keeps (idle I) (run_command argv)"
  by (auto simp: keeps_def run_command_def idle_iff split: prod.split)

locale setting_writes =
  fixes I :: "database \<Rightarrow> bool"
  assumes setting_created: "I d \<Longrightarrow> I (snd (create_setting \<lparr>st_Id = 0, st_Key = k, st_Value = v\<rparr> d))"
    and setting_stored: "I d \<Longrightarrow> I (snd (store_setting r d))"
    and settings_cleared: "I d \<Longrightarrow> I (d\<lparr>tbl_settings := delete_rows P (tbl_settings d)\<rparr>)"
begin

lemma saveSetting_keeps: "keeps (idle I) (saveSetting k v)"
  unfolding saveSetting_def getSetting_def
  by (intro keeps_intro writes setting_created setting_stored)

lemma ResetSettings_keeps: "keeps (idle I) ResetSettings"
  unfolding ResetSettings_def by (intro writes) (simp add: settings_cleared)

lemma save_fields_keep: "keeps (idle I) (save_fields kvs)"
  by (induction kvs rule: save_fields.induct)
    (simp_all only: save_fields.simps, (intro keeps_intro saveSetting_keeps | assumption)+)

lemma UpdateAllSetting_keeps: "keeps (idle I) (UpdateAllSetting a)"
  unfolding UpdateAllSetting_def by (intro keeps_intro save_fields_keep)

lemma GetAllSetting_keeps: "keeps (idle I) GetAllSetting"
  unfolding GetAllSetting_def Let_def by (intro keeps_intro)

lemma start_settings_keep: "keeps (idle I) GetSecret" "keeps (idle I) GetTimeLocation"
  unfolding GetSecret_def GetTimeLocation_def LoadLocation_def Let_def
  by (intro keeps_intro saveSetting_keeps)+

lemma all_attempts_keep: "(\<And>m. m \<in> set ms \<Longrightarrow> keeps (idle I) m) \<Longrightarrow> keeps (idle I) (all_attempts ms)"
  by (induction ms) (simp_all, (intro keeps_intro | simp)+)

lemma RestartPanel_keeps: "keeps (idle I) RestartPanel"
  unfolding RestartPanel_def by (intro keeps_intro idle_modify) simp_all

lemma restoreSettings_keeps: "keeps (idle I) (restoreSettings sn)"
  unfolding restoreSettings_def accessor_defs
  by (intro keeps_intro all_attempts_keep) (auto intro: saveSetting_keeps)

lemma captureSettings_keeps: "keeps (idle I) captureSettings"
  unfolding captureSettings_def accessor_defs by (intro keeps_intro)

lemma wait_ready_keeps: "keeps (idle I) (wait_ready h p timeout)"
  by (simp add: keeps_def wait_ready_same)

lemma restart_or_restore_keeps: "keeps (idle I) m \<Longrightarrow> keeps (idle I) (restart_or_restore sn p reason m)"
  unfolding restart_or_restore_def rollbackListenerState_def combined_def waitForSnapshotReady_def
    waitForHTTPSReady_def waitForHTTPReady_def
  by (intro keeps_intro RestartPanel_keeps restoreSettings_keeps wait_ready_keeps)

lemma cert_reads_keep: "keeps (idle I) (must_read p e)" "keeps (idle I) (readCertificateInfoFromFiles c k)"
    "keeps (idle I) (both_exist ps)" "keeps (idle I) getPanelPort" "keeps (idle I) (exists_file p)"
    "keeps (idle I) (countPEMBlocksFromFile c)"
  unfolding readCertificateInfoFromFiles_def both_exist_def exists_file_def must_read_def getPanelPort_def
    accessor_defs countPEMBlocksFromFile_def
  by (intro keeps_intro)+

lemma applyHTTPSCertificate_keeps: "keeps (idle I) (applyHTTPSCertificate c k m p st r)"
  unfolding applyHTTPSCertificate_def accessor_defs waitForHTTPSReady_def
  by (intro keeps_intro saveSetting_keeps restart_or_restore_keeps wait_ready_keeps captureSettings_keeps
      cert_reads_keep [unfolded accessor_defs])

lemma GetStatus_keeps: "keeps (idle I) GetStatus"
  unfolding GetStatus_def Let_def
  by (intro keeps_intro captureSettings_keeps cert_reads_keep)

lemma ListUsable_keeps: "keeps (idle I) ListUsable"
  unfolding ListUsable_def by (intro keeps_intro GetStatus_keeps)

lemma domain_keeps: "keeps (idle I) (SetDomain domain)" "keeps (idle I) (CheckDomain domain)"
    "keeps (idle I) (check_domain domain)"
  unfolding SetDomain_def CheckDomain_def check_domain_def accessor_defs Let_def
  by (intro keeps_intro saveSetting_keeps)+

lemma UploadCertificate_keeps: "keeps (idle I) (UploadCertificate cert key)"
  unfolding UploadCertificate_def accessor_defs Let_def
  by (intro keeps_intro saveSetting_keeps)

lemma EnableHTTPS_keeps: "keeps (idle I) EnableHTTPS"
  unfolding EnableHTTPS_def resolveEnablePaths_def GetCertFile_def GetKeyFile_def GetWebCertMode_def GetWebCertProvider_def Let_def
  by (intro keeps_intro applyHTTPSCertificate_keeps cert_reads_keep)

lemma DisableHTTPS_keeps: "keeps (idle I) DisableHTTPS"
  unfolding DisableHTTPS_def disabled_as_def cert_setters setString_def waitForHTTPReady_def
  by (intro keeps_intro saveSetting_keeps restart_or_restore_keeps wait_ready_keeps captureSettings_keeps cert_reads_keep)

lemma acme_keeps: "keeps (idle I) (ensureAcmeInstalled email)" "keeps (idle I) ensureSocatInstalled"
    "keeps (idle I) (issueAcmeCertificate domain staging)" "keeps (idle I) (installAcmeCertificate domain c k)"
  unfolding ensureAcmeInstalled_def ensureSocatInstalled_def install_socat_def socat_found_def issueAcmeCertificate_def
    installAcmeCertificate_def ensureACMEFullchain_def command_or_def findAcmeSh_def Let_def
  by (intro keeps_intro cert_reads_keep)+

lemma IssueHTTP_keeps: "keeps (idle I) (IssueHTTP domain email staging)"
  unfolding IssueHTTP_def resolveIssueDomain_def ensurePortAvailable_def GetWebDomain_def SetWebDomain_def setString_def Let_def
  by (intro keeps_intro saveSetting_keeps applyHTTPSCertificate_keeps GetStatus_keeps domain_keeps acme_keeps)

end

section \<open>Users\<close>

locale user_writes =
  fixes I :: "database \<Rightarrow> bool"
  assumes user_created: "I d \<Longrightarrow> I (snd (create_user u d))"
    and users_updated: "I d \<Longrightarrow> (\<And>u. P u \<Longrightarrow> u_Id (f u) = u_Id u) \<Longrightarrow> I (snd (update_users P f d))"
begin

lemma user_handlers_keep: "keeps (idle I) (UpdateUser i a b)" "keeps (idle I) (UpdateFirstUser a b)"
    "keeps (idle I) initUser" "keeps (idle I) GetFirstUser" "keeps (idle I) (CheckUser a b)"
  unfolding UpdateUser_def UpdateFirstUser_def initUser_def GetFirstUser_def CheckUser_def
  by (intro keeps_intro writes user_created users_updated; simp)+

end

section \<open>Access records\<close>

locale access_writes =
  fixes I :: "database \<Rightarrow> bool"
  assumes event_applied: "I d \<Longrightarrow> I (d\<lparr>tbl_access := apply_event e (tbl_access d)\<rparr>)"
    and records_cleared: "I d \<Longrightarrow> I (d\<lparr>tbl_access := delete_rows P (tbl_access d)\<rparr>)"
begin

lemma upsertRecord_keeps: "keeps (idle I) (upsertRecord e)"
  unfolding keeps_def
proof (intro allI impI)
  fix s assume s: "idle I s"
  obtain r t where run: "upsertRecord e s = (r, t)" by (cases "upsertRecord e s")
  from upsertRecord_run [OF run] have "pdb t = pdb s \<and> ptx t = ptx s
      \<or> pdb t = (pdb s)\<lparr>tbl_access := apply_event e (tbl_access (pdb s))\<rparr> \<and> ptx t = ptx s"
    by (auto dest!: only_faults_world simp: upd_access_def)
  with s run event_applied show "idle I (snd (upsertRecord e s))" by (auto simp: idle_iff)
qed

lemma access_files_keep: "keeps (idle I) dumpSummary" "keeps (idle I) (saveState n)" "keeps (idle I) loadState"
    "keeps (idle I) current_offset" "keeps (idle I) IsAggregationEnabled" "keeps (idle I) AccessIP_GetConfig"
  unfolding dumpSummary_def saveState_def loadState_def current_offset_def IsAggregationEnabled_def
    AccessIP_GetConfig_def IsAccessLogEnabled_def
  by (intro keeps_intro)+

lemma ProcessAccessLog_keeps: "keeps (idle I) ProcessAccessLog"
  unfolding ProcessAccessLog_def read_log_def process_line_def Let_def
  by (intro keeps_intro access_files_keep upsertRecord_keeps)

lemma access_requests_keep: "keeps (idle I) GetAccessIPRecords" "keeps (idle I) ClearAccessIPRecords"
  unfolding GetAccessIPRecords_def ClearAccessIPRecords_def
  by (intro keeps_intro access_files_keep ProcessAccessLog_keeps writes; simp add: records_cleared)+

end

section \<open>The whole panel\<close>

locale panel_writes = inbound_writes I + managed_writes I + setting_writes I + user_writes I + access_writes I
  for I :: "database \<Rightarrow> bool"
begin

lemma AccessIP_UpdateConfig_keeps: "keeps (idle I) (AccessIP_UpdateConfig c)"
  unfolding AccessIP_UpdateConfig_def skipCurrentAccessLog_def
  by (intro keeps_intro saveSetting_keeps access_files_keep)

lemma scan_indexes_keeps: "keeps (idle I) (scan_indexes ixs)"
  by (induction ixs) (simp_all only: scan_indexes.simps, (intro keeps_intro | assumption)+)

lemma initAccessIPRecord_keeps: "keeps (idle I) initAccessIPRecord"
  unfolding initAccessIPRecord_def migrateAccessIPRecordIndexes_def wrapped_def drop_index_def create_composite_index_def
  by (intro keeps_intro scan_indexes_keeps idle_modify; simp)

lemma InitDB_keeps: "keeps (idle I) InitDB"
  unfolding InitDB_def initRoutingRule_def initSetting_def
  by (intro keeps_intro user_handlers_keep initInbound_keeps system_outbounds_keep initAccessIPRecord_keeps)

lemma with_db_keeps: "keeps (idle I) m \<Longrightarrow> keeps (idle I) (with_db m)"
  unfolding with_db_def by (intro keeps_intro InitDB_keeps)

lemma commands_line_keep: "keeps (idle I) resetSetting" "keeps (idle I) (updateSetting port a b)"
    "keeps (idle I) showSetting" "keeps (idle I) (MigrateFromV2UI rows)"
  unfolding resetSetting_def updateSetting_def showSetting_def MigrateFromV2UI_def wrapped_def accessor_defs
  by (intro with_db_keeps keeps_intro InitDB_keeps ResetSettings_keeps saveSetting_keeps user_handlers_keep
      start_settings_keep AddInbounds_keeps)+

end

end
