(* ===== verification/Port_Limit.thy ===== *)
theory Port_Limit
  imports Cert_Service
begin

text \<open>
  The port limits (src/web/service/portlimit.go): a script, a service and an nftables
  table outside the panel, reached by running commands.  A command gives its
  output and its error; the contexts with a deadline are part of the command.
\<close>

abbreviation portLimitSyncScript :: string where
  "portLimitSyncScript \<equiv> ''/usr/local/bin/xui-portlimit-sync.sh''"

abbreviation portLimitSyncService :: string where
  "portLimitSyncService \<equiv> ''xui-portlimit-sync.service''"

abbreviation portLimitTable :: string where
  "portLimitTable \<equiv> ''xui_auto_portlimit''"

text \<open>Running a command: it changes files only.\<close>

definition exec_run :: "string list \<Rightarrow> (panel, string \<times> err option) act" where
  "exec_run argv s = (case w_command (world s) argv (files s) of (out, fs) \<Rightarrow> (Inr out, s\<lparr>files := fs\<rparr>))"

text \<open>The text \<open>%v\<close> prints for the arguments.\<close>

definition shown_args :: "string list \<Rightarrow> string" where
  "shown_args args = ''['' @ Join args '' '' @ '']''"

definition runCmd :: "string \<Rightarrow> string list \<Rightarrow> (panel, string \<times> err option) act" where
  "runCmd cmdName args = andThen (exec_run (cmdName # args)) (\<lambda>(out, e).
     ret (out, map_option (\<lambda>cause. ErrArg (cmdName @ '' '' @ shown_args args @ '' failed:'') (err_text cause)) e))"

definition syncWithOutput :: "(panel, string \<times> err option) act" where
  "syncWithOutput = runCmd portLimitSyncScript []"

text \<open>\<open>SyncNow\<close> runs the script in a goroutine and only logs what comes of it.\<close>

definition SyncNow :: "(panel, unit) act" where
  "SyncNow = andThen syncWithOutput (\<lambda>_. ret ())"

text \<open>An output with its error, as the Go functions that return both.\<close>

definition or_throw :: "string \<times> err option \<Rightarrow> (panel, string) act" where
  "or_throw r = (case snd r of None \<Rightarrow> ret (fst r) | Some e \<Rightarrow> throw e)"

definition SyncNowBlocking :: "(panel, string \<times> err option) act" where
  "SyncNowBlocking = syncWithOutput"

definition GetRecentLogs :: "int \<Rightarrow> (panel, string \<times> err option) act" where
  "GetRecentLogs lines0 =
     (let lines = (if lines0 \<le> 0 then 80 else lines0) in
      exec_run [''journalctl'', ''-u'', portLimitSyncService, ''-n'', Itoa lines, ''--no-pager'', ''-o'', ''short-iso''])"

definition GetRuleStatus :: "(panel, string \<times> err option) act" where
  "GetRuleStatus = exec_run [''nft'', ''list'', ''table'', ''inet'', portLimitTable]"

definition diag_section :: "string \<Rightarrow> string \<Rightarrow> string \<times> err option \<Rightarrow> string" where
  "diag_section title failed r =
     title @ [CHR 0x0A] @ fst r @ [CHR 0x0A]
     @ (case snd r of None \<Rightarrow> [] | Some e \<Rightarrow> failed @ err_text e @ [CHR 0x0A])"

text \<open>\<open>now\<close> is the time in the format RFC 3339.\<close>

definition BuildDiagnostics :: "string \<Rightarrow> (panel, string) act" where
  "BuildDiagnostics now =
     andThen syncWithOutput (\<lambda>sync.
     andThen GetRuleStatus (\<lambda>rules.
     andThen (GetRecentLogs 120) (\<lambda>logs.
     andThen (runCmd ''systemctl'' [''status'', portLimitSyncService, ''--no-pager'']) (\<lambda>service.
     ret (''== xui-portlimit diagnostics =='' @ [CHR 0x0A]
       @ ''time: '' @ now @ [CHR 0x0A, CHR 0x0A]
       @ diag_section ''[sync]'' ''sync_error: '' sync @ [CHR 0x0A]
       @ diag_section ''[nft table]'' ''nft_error: '' rules @ [CHR 0x0A]
       @ diag_section ''[recent logs]'' ''log_error: '' logs @ [CHR 0x0A]
       @ diag_section ''[service status]'' ''service_error: '' service)))))"

text \<open>No command reaches the database.\<close>

lemma exec_run_frame: "keeps P (exec_run argv)" if "\<And>s fs. P s \<Longrightarrow> P (s\<lparr>files := fs\<rparr>)"
  using that by (auto simp: keeps_def exec_run_def split: prod.split)

lemma SyncNow_frame: "keeps P SyncNow" if "\<And>s fs. P s \<Longrightarrow> P (s\<lparr>files := fs\<rparr>)"
proof -
  have "keeps P (exec_run argv)" for argv using that by (rule exec_run_frame)
  then show ?thesis
    unfolding SyncNow_def syncWithOutput_def runCmd_def
    by (simp add: keeps_def andThen_run split: sum.split prod.split) (metis snd_conv)
qed

end
