(* ===== verification/Web_Server.thy ===== *)
theory Web_Server
  imports Startup Server_Service Port_Limit
begin

text \<open>
  The web server of the panel (src/web/web.go), its jobs (src/web/job, the task of
  src/web/controller/inbound.go) and the loop of src/main.go around it.
\<close>

section \<open>The state\<close>

text \<open>
  A listener is its address and the certificate it serves, if it is HTTPS.  The process has the listening sockets that are
  open, by their addresses; the server has its listener, which it keeps when it is stopped, its HTTP server, and
  whether \<open>Serve\<close> of that has begun.  The
  sessions are the cookies of the clients: the user a client is logged in as.
  \<open>wb_checkTime\<close> is the counter of the job that watches xray, the last three fields
  the state of the server controller.
\<close>

datatype listener = Listener string "(string \<times> string) option"

record web =
  wb_panel :: panel
  wb_sockets :: "string list"
  wb_listener :: "listener option"
  wb_httpServer :: bool
  wb_serving :: bool
  wb_cron :: bool
  wb_basePath :: string
  wb_checkTime :: int
  wb_sessions :: "nat \<Rightarrow> user option"
  wb_lastVersions :: "(string list \<times> int) option"
  wb_lastStatus :: "net_status option"
  wb_lastGetStatusTime :: int

text \<open>An action of the panel as one of the web server.\<close>

definition on_panel :: "(panel, 'a) act \<Rightarrow> (web, 'a) act" where
  "on_panel m w = (case m (wb_panel w) of (r, s) \<Rightarrow> (r, w\<lparr>wb_panel := s\<rparr>))"

section \<open>HTTPS or HTTP\<close>

definition stat_ok :: "files \<Rightarrow> string \<Rightarrow> bool" where
  "stat_ok fs path \<longleftrightarrow> path \<noteq> [] \<and> fs path \<noteq> None"

definition disableHTTPSForMissingFiles :: "(panel, unit) act" where
  "disableHTTPSForMissingFiles =
     andThen (all_attempts [SetCertFile [], SetKeyFile [], SetWebCertStatus ''missing'', SetWebCertMode ''none'']) (\<lambda>es.
     case Combine es of None \<Rightarrow> ret () | Some e \<Rightarrow> throw e)"

definition resolveHTTPSConfig :: "(panel, string \<times> string) act" where
  "resolveHTTPSConfig =
     andThen GetCertFile (\<lambda>certFile.
     andThen GetKeyFile (\<lambda>keyFile.
     if certFile = [] \<or> keyFile = [] then ret ([], [])
     else
       andThen (gets files) (\<lambda>fs.
       if stat_ok fs certFile \<and> stat_ok fs keyFile then ret (certFile, keyFile)
       else andThen disableHTTPSForMissingFiles (\<lambda>_. ret ([], [])))))"

section \<open>Start and stop\<close>

text \<open>\<open>initRouter\<close>: the secret and the base path; the templates and translations may fail to load.\<close>

definition initRouter :: "(panel, string) act" where
  "initRouter =
     andThen GetSecret (\<lambda>secret.
     andThen GetBasePath (\<lambda>basePath.
     andThen outside (\<lambda>_. ret basePath)))"

text \<open>
  \<open>net.Listen\<close> fails as the schedule says, and on an address that is open already.  Closing a socket
  releases it, also when it reports an error, as close(2) does; a second time it is an error.
\<close>

definition net_Listen :: "string \<Rightarrow> (web, unit) act" where
  "net_Listen listenAddr =
     andThen (on_panel outside) (\<lambda>_.
     andThen (gets wb_sockets) (\<lambda>open_ones.
     andThen (reject (listenAddr \<in> set open_ones) (Err ''bind: address already in use'')) (\<lambda>_.
     modify (\<lambda>w. w\<lparr>wb_sockets := listenAddr # wb_sockets w\<rparr>))))"

definition release :: "string \<Rightarrow> web \<Rightarrow> web" where
  "release addr w = w\<lparr>wb_sockets := filter (\<lambda>a. a \<noteq> addr) (wb_sockets w)\<rparr>"

definition close_socket :: "string \<Rightarrow> (web, unit) act" where
  "close_socket addr =
     andThen (gets wb_sockets) (\<lambda>open_ones.
     andThen (reject (addr \<notin> set open_ones) (Err ''use of closed network connection'')) (\<lambda>_.
     andThen (modify (release addr)) (\<lambda>_. on_panel outside)))"

definition open_listener :: "string \<Rightarrow> string \<Rightarrow> string \<Rightarrow> (web, listener) act" where
  "open_listener listenAddr certFile keyFile =
     andThen (net_Listen listenAddr) (\<lambda>_.
     if certFile \<noteq> [] \<or> keyFile \<noteq> [] then
       andThen (on_panel (on_world (\<lambda>w. w_keypair w certFile keyFile))) (\<lambda>e. case e of
           Some err \<Rightarrow> andThen (attempt (close_socket listenAddr)) (\<lambda>_. throw err)
         | None \<Rightarrow> ret (Listener listenAddr (Some (certFile, keyFile))))
     else ret (Listener listenAddr None))"

definition prepare_listener :: "(web, listener) act" where
  "prepare_listener =
     andThen (on_panel resolveHTTPSConfig) (\<lambda>(certFile, keyFile).
     andThen (on_panel GetListen) (\<lambda>listen.
     andThen (on_panel GetPort) (\<lambda>port.
     open_listener (JoinHostPort listen (Itoa port)) certFile keyFile)))"

text \<open>\<open>startTask\<close>: xray is restarted, whatever comes of it, and the jobs are new.\<close>

definition startTask :: "(web, unit) act" where
  "startTask =
     andThen (on_panel (attempt (RestartXray True))) (\<lambda>_.
     modify (\<lambda>w. w\<lparr>wb_checkTime := 0\<rparr>))"

definition start_steps_web :: "(web, unit) act" where
  "start_steps_web =
     andThen (on_panel GetTimeLocation) (\<lambda>loc.
     andThen (modify (\<lambda>w. w\<lparr>wb_cron := True\<rparr>)) (\<lambda>_.
     andThen (on_panel initRouter) (\<lambda>basePath.
     andThen (modify (\<lambda>w. w\<lparr>wb_basePath := basePath, wb_lastVersions := None, wb_lastStatus := None,
       wb_lastGetStatusTime := clock_now (wb_panel w)\<rparr>)) (\<lambda>_.
     andThen prepare_listener (\<lambda>l.
     andThen (modify (\<lambda>w. w\<lparr>wb_listener := Some l\<rparr>)) (\<lambda>_.
     andThen startTask (\<lambda>_.
     modify (\<lambda>w. w\<lparr>wb_httpServer := True\<rparr>))))))))"

text \<open>
  \<open>Shutdown\<close> closes the listener that \<open>Serve\<close> has taken and does not wait for connections, as its context
  is cancelled before; then the listener is closed, once more if it was served.
\<close>

definition listener_addr :: "listener \<Rightarrow> string" where
  "listener_addr l = (case l of Listener addr cert \<Rightarrow> addr)"

definition http_Shutdown :: "(web, unit) act" where
  "http_Shutdown =
     andThen (modify (\<lambda>w. case wb_listener w of Some l \<Rightarrow> if wb_serving w then release (listener_addr l) w else w | None \<Rightarrow> w)) (\<lambda>_.
     on_panel outside)"

definition Server_Stop :: "(web, unit) act" where
  "Server_Stop =
     andThen (on_panel (attempt StopXray)) (\<lambda>_.
     andThen (modify (\<lambda>w. w\<lparr>wb_cron := False\<rparr>)) (\<lambda>_.
     andThen (gets wb_httpServer) (\<lambda>hs.
     andThen (if hs then attempt http_Shutdown else ret (Inr ())) (\<lambda>err1.
     andThen (gets wb_listener) (\<lambda>l.
     andThen (case l of Some l \<Rightarrow> attempt (close_socket (listener_addr l)) | None \<Rightarrow> ret (Inr ())) (\<lambda>err2.
     case Combine [err_of err1, err_of err2] of None \<Rightarrow> ret () | Some e \<Rightarrow> throw e))))))"

definition Server_Start :: "(web, unit) act" where
  "Server_Start = andThen (attempt start_steps_web) (\<lambda>r. case r of
       Inr u \<Rightarrow> ret u
     | Inl e \<Rightarrow> andThen (attempt Server_Stop) (\<lambda>_. throw e))"

definition NewServer :: "web \<Rightarrow> web" where
  "NewServer w = w\<lparr>wb_listener := None, wb_httpServer := False, wb_serving := False, wb_cron := False\<rparr>"

section \<open>The loop of main.go\<close>

datatype signal = SIGHUP | SIGTERM

text \<open>Whether the process goes on.\<close>

definition on_signal :: "signal \<Rightarrow> (web, bool) act" where
  "on_signal sig = (case sig of
       SIGHUP \<Rightarrow>
         andThen (attempt Server_Stop) (\<lambda>_.
         andThen (modify NewServer) (\<lambda>_.
         andThen (attempt Server_Start) (\<lambda>r. ret (case r of Inl e \<Rightarrow> False | Inr _ \<Rightarrow> True))))
     | SIGTERM \<Rightarrow> andThen (attempt Server_Stop) (\<lambda>_. ret False))"

fun serve :: "signal list \<Rightarrow> (web, bool) act" where
  "serve [] = ret True"
| "serve (sig # sigs) = andThen (on_signal sig) (\<lambda>go. if go then serve sigs else ret False)"

definition GetLogLevel :: "world \<Rightarrow> string" where
  "GetLogLevel w =
     (if w_env w ''XUI_DEBUG'' = ''true'' then ''debug''
      else let logLevel = w_env w ''XUI_LOG_LEVEL'' in if logLevel = [] then ''info'' else logLevel)"

text \<open>A process begins without an open socket.\<close>

definition runWebServer :: "signal list \<Rightarrow> (web, bool) act" where
  "runWebServer sigs =
     andThen (on_panel (on_world GetLogLevel)) (\<lambda>level.
     andThen (reject (level \<notin> {''debug'', ''info'', ''warn'', ''error''}) (ErrArg ''unknown log level:'' level)) (\<lambda>_.
     andThen (on_panel InitDB) (\<lambda>_.
     andThen (modify (\<lambda>w. NewServer (w\<lparr>wb_sockets := []\<rparr>))) (\<lambda>_.
     andThen (attempt Server_Start) (\<lambda>r. case r of Inl e \<Rightarrow> ret False | Inr _ \<Rightarrow> serve sigs)))))"

section \<open>The jobs\<close>

text \<open>The reply of the xray API to the query of the counters is a parameter.\<close>

definition CheckInboundJob_Run :: "(panel, unit) act" where
  "CheckInboundJob_Run =
     andThen (attempt DisableInvalidInbounds) (\<lambda>r. case r of
       Inl e \<Rightarrow> ret ()
     | Inr count \<Rightarrow> if 0 < count then SetToNeedRestart else ret ())"

definition CheckXrayRunningJob_Run :: "(web, unit) act" where
  "CheckXrayRunningJob_Run =
     andThen (on_panel IsXrayRunning) (\<lambda>running.
     if running then modify (\<lambda>w. w\<lparr>wb_checkTime := 0\<rparr>)
     else
       andThen (modify (\<lambda>w. w\<lparr>wb_checkTime := wrap64 (wb_checkTime w + 1)\<rparr>)) (\<lambda>_.
       andThen (gets wb_checkTime) (\<lambda>n.
       if n < 2 then ret () else on_panel SetToNeedRestart)))"

definition XrayTrafficJob_Run :: "(string \<times> int) list res \<Rightarrow> (panel, unit) act" where
  "XrayTrafficJob_Run stats =
     andThen IsXrayRunning (\<lambda>running.
     if \<not> running then ret ()
     else andThen (attempt (GetXrayTraffic stats)) (\<lambda>r. case r of
         Inl (Panic msg) \<Rightarrow> throw (Panic msg)
       | Inl e \<Rightarrow> ret ()
       | Inr traffics \<Rightarrow> andThen (attempt (AddTraffic traffics)) (\<lambda>_. ret ())))"

definition AccessIPJob_Run :: "(panel, unit) act" where
  "AccessIPJob_Run = andThen (attempt ProcessAccessLog) (\<lambda>_. ret ())"

text \<open>The task of the server controller; the readings of the machine are parameters.\<close>

definition status_task :: "nat \<Rightarrow> nat \<Rightarrow> proc_file \<times> proc_file \<Rightarrow> proc_file \<times> proc_file \<Rightarrow> (web, unit) act" where
  "status_task sent recv tcp udp =
     andThen (on_panel (gets clock_now)) (\<lambda>now.
     andThen (gets wb_lastGetStatusTime) (\<lambda>time.
     if 180000 < now - time then ret ()
     else andThen (on_panel (GetServerStatus sent recv tcp udp)) (\<lambda>status.
       modify (\<lambda>w. w\<lparr>wb_lastStatus := Some status\<rparr>))))"

definition restart_task :: "(panel, unit) act" where
  "restart_task = andThen IsNeedRestartAndSetFalse (\<lambda>need.
     if need then andThen (attempt (RestartXray False)) (\<lambda>_. ret ()) else ret ())"

end
