(* ===== verification/Requests.thy ===== *)
theory Requests
  imports Web_Server Routing
begin

text \<open>
  The requests of the panel (src/web/controller) and the session (src/web/session).
  What gin does with the body of a request is a parameter of the request: a function
  that binds it into a value, or fails; the id of a path is its text.  A client is
  known by its number, its cookie by the user in it.
\<close>

section \<open>Texts\<close>

text \<open>The Chinese texts of the controllers, as UTF-8.\<close>

definition text_ok :: string where
  "text_ok = [CHR 0xE6, CHR 0x88, CHR 0x90, CHR 0xE5, CHR 0x8A, CHR 0x9F]"

definition text_failed :: string where
  "text_failed = [CHR 0xE5, CHR 0xA4, CHR 0xB1, CHR 0xE8, CHR 0xB4, CHR 0xA5] @ '': ''"

definition text_login :: string where
  "text_login = [CHR 0xE7, CHR 0x99, CHR 0xBB, CHR 0xE5, CHR 0xBD, CHR 0x95]"

definition text_bad_form :: string where
  "text_bad_form = [CHR 0xE6, CHR 0x95, CHR 0xB0, CHR 0xE6, CHR 0x8D, CHR 0xAE, CHR 0xE6, CHR 0xA0, CHR 0xBC, CHR 0xE5,
     CHR 0xBC, CHR 0x8F, CHR 0xE9, CHR 0x94, CHR 0x99, CHR 0xE8, CHR 0xAF, CHR 0xAF]"

definition text_no_username :: string where
  "text_no_username = [CHR 0xE8, CHR 0xAF, CHR 0xB7, CHR 0xE8, CHR 0xBE, CHR 0x93, CHR 0xE5, CHR 0x85, CHR 0xA5, CHR 0xE7,
     CHR 0x94, CHR 0xA8, CHR 0xE6, CHR 0x88, CHR 0xB7, CHR 0xE5, CHR 0x90, CHR 0x8D]"

definition text_no_password :: string where
  "text_no_password = [CHR 0xE8, CHR 0xAF, CHR 0xB7, CHR 0xE8, CHR 0xBE, CHR 0x93, CHR 0xE5, CHR 0x85, CHR 0xA5, CHR 0xE5,
     CHR 0xAF, CHR 0x86, CHR 0xE7, CHR 0xA0, CHR 0x81]"

definition text_wrong_user :: string where
  "text_wrong_user = [CHR 0xE7, CHR 0x94, CHR 0xA8, CHR 0xE6, CHR 0x88, CHR 0xB7, CHR 0xE5, CHR 0x90, CHR 0x8D, CHR 0xE6,
     CHR 0x88, CHR 0x96, CHR 0xE5, CHR 0xAF, CHR 0x86, CHR 0xE7, CHR 0xA0, CHR 0x81, CHR 0xE9, CHR 0x94,
     CHR 0x99, CHR 0xE8, CHR 0xAF, CHR 0xAF]"

definition text_expired :: string where
  "text_expired = [CHR 0xE7, CHR 0x99, CHR 0xBB, CHR 0xE5, CHR 0xBD, CHR 0x95, CHR 0xE6, CHR 0x97, CHR 0xB6, CHR 0xE6,
     CHR 0x95, CHR 0x88, CHR 0xE5, CHR 0xB7, CHR 0xB2, CHR 0xE8, CHR 0xBF, CHR 0x87, CHR 0xEF, CHR 0xBC,
     CHR 0x8C, CHR 0xE8, CHR 0xAF, CHR 0xB7, CHR 0xE9, CHR 0x87, CHR 0x8D, CHR 0xE6, CHR 0x96, CHR 0xB0,
     CHR 0xE7, CHR 0x99, CHR 0xBB, CHR 0xE5, CHR 0xBD, CHR 0x95]"

definition text_get_setting :: string where
  "text_get_setting = [CHR 0xE8, CHR 0x8E, CHR 0xB7, CHR 0xE5, CHR 0x8F, CHR 0x96, CHR 0xE8, CHR 0xAE, CHR 0xBE, CHR 0xE7,
     CHR 0xBD, CHR 0xAE]"

definition text_set_setting :: string where
  "text_set_setting = [CHR 0xE4, CHR 0xBF, CHR 0xAE, CHR 0xE6, CHR 0x94, CHR 0xB9, CHR 0xE8, CHR 0xAE, CHR 0xBE, CHR 0xE7,
     CHR 0xBD, CHR 0xAE]"

definition text_set_user :: string where
  "text_set_user = [CHR 0xE4, CHR 0xBF, CHR 0xAE, CHR 0xE6, CHR 0x94, CHR 0xB9, CHR 0xE7, CHR 0x94, CHR 0xA8, CHR 0xE6,
     CHR 0x88, CHR 0xB7]"

definition text_wrong_old :: string where
  "text_wrong_old = [CHR 0xE5, CHR 0x8E, CHR 0x9F, CHR 0xE7, CHR 0x94, CHR 0xA8, CHR 0xE6, CHR 0x88, CHR 0xB7, CHR 0xE5,
     CHR 0x90, CHR 0x8D, CHR 0xE6, CHR 0x88, CHR 0x96, CHR 0xE5, CHR 0x8E, CHR 0x9F, CHR 0xE5, CHR 0xAF,
     CHR 0x86, CHR 0xE7, CHR 0xA0, CHR 0x81, CHR 0xE9, CHR 0x94, CHR 0x99, CHR 0xE8, CHR 0xAF, CHR 0xAF]"

definition text_empty_new :: string where
  "text_empty_new = [CHR 0xE6, CHR 0x96, CHR 0xB0, CHR 0xE7, CHR 0x94, CHR 0xA8, CHR 0xE6, CHR 0x88, CHR 0xB7, CHR 0xE5,
     CHR 0x90, CHR 0x8D, CHR 0xE5, CHR 0x92, CHR 0x8C, CHR 0xE6, CHR 0x96, CHR 0xB0, CHR 0xE5, CHR 0xAF,
     CHR 0x86, CHR 0xE7, CHR 0xA0, CHR 0x81, CHR 0xE4, CHR 0xB8, CHR 0x8D, CHR 0xE8, CHR 0x83, CHR 0xBD,
     CHR 0xE4, CHR 0xB8, CHR 0xBA, CHR 0xE7, CHR 0xA9, CHR 0xBA]"

definition text_restart :: string where
  "text_restart = [CHR 0xE9, CHR 0x87, CHR 0x8D, CHR 0xE5, CHR 0x90, CHR 0xAF, CHR 0xE9, CHR 0x9D, CHR 0xA2, CHR 0xE6,
     CHR 0x9D, CHR 0xBF]"

definition text_versions :: string where
  "text_versions = [CHR 0xE8, CHR 0x8E, CHR 0xB7, CHR 0xE5, CHR 0x8F, CHR 0x96, CHR 0xE7, CHR 0x89, CHR 0x88, CHR 0xE6,
     CHR 0x9C, CHR 0xAC]"

definition text_install :: string where
  "text_install = [CHR 0xE5, CHR 0xAE, CHR 0x89, CHR 0xE8, CHR 0xA3, CHR 0x85] @ '' xray''"

section \<open>Requests\<close>

type_synonym 'a bind = "'a \<Rightarrow> 'a res"

record login_form =
  lf_Username :: string
  lf_Password :: string

record updateUserForm =
  uf_OldUsername :: string
  uf_OldPassword :: string
  uf_NewUsername :: string
  uf_NewPassword :: string

record routingRuleUpsertRequest =
  rq_Type :: string
  rq_Domain :: string
  rq_IP :: string
  rq_Port :: string
  rq_Protocol :: string
  rq_Network :: string
  rq_Source :: string
  rq_InboundTag :: string
  rq_OutboundTag :: string
  rq_Enabled :: "bool option"
  rq_Remark :: string
  rq_Sort :: int

datatype request =
    Get_index | Post_login "login_form bind" | Get_logout
  | Post_status | Post_getXrayVersion | Post_installXray string
  | Get_page string
  | Inbound_list | Inbound_add "inbound bind" | Inbound_del string | Inbound_update string "inbound bind"
  | Portlimit_sync | Portlimit_logs | Portlimit_status | Portlimit_diag string
  | Outbound_list "bool bind" | Outbound_add "outbound bind" | Outbound_update string "outbound bind"
  | Outbound_del string | Outbound_toggle string "bool bind"
  | Routing_list "bool bind" | Routing_add "routingRuleUpsertRequest bind"
  | Routing_update string "routingRuleUpsertRequest bind" | Routing_del string
  | Routing_toggle string "bool option bind" | Routing_reorder "reorder_item list bind"
  | Routing_template "(string \<times> int \<times> string) bind"
  | Setting_all | Setting_update "all_setting bind" | Setting_updateUser "updateUserForm bind" | Setting_restart
  | Cert_status_req | Cert_listUsable | Cert_setDomain "string bind" | Cert_checkDomain "string bind"
  | Cert_upload "(string \<times> string) bind" | Cert_issue "(string \<times> string \<times> bool) bind"
  | Cert_enable | Cert_disable
  | AccessIP_config | AccessIP_update "access_ip_config bind" | AccessIP_list | AccessIP_clear

text \<open>What is sent back: a message with an object, a page or a redirect.\<close>

datatype payload =
    NoObj | TextObj string | TextsObj "string list" | InboundsObj "inbound list" | OutboundsObj "outbound list"
  | OutboundObj outbound bool | IdObj int bool | RulesObj "routing_rule list" | RuleObj routing_rule bool
  | ItemsObj "reorder_item list" bool | TemplateObj nat nat string bool | SettingObj all_setting
  | CertObj cert_status | CertAppliedObj cert_status bool | UsableObj "usable_certificate list"
  | DomainObj domain_check | AcmeObj acme_result | AccessConfigObj access_ip_config
  | RecordsObj "access_record list" | StatusObj "net_status option"

datatype reply = Msg bool string payload | Html string | Redirect string

definition jsonMsgObj :: "string \<Rightarrow> payload \<Rightarrow> err option \<Rightarrow> reply" where
  "jsonMsgObj msg obj e = (case e of
       None \<Rightarrow> Msg True (if msg \<noteq> [] then msg @ text_ok else []) obj
     | Some x \<Rightarrow> Msg False (msg @ text_failed @ err_text x) obj)"

definition jsonMsg :: "string \<Rightarrow> err option \<Rightarrow> reply" where
  "jsonMsg msg e = jsonMsgObj msg NoObj e"

definition jsonObj :: "payload \<Rightarrow> reply" where
  "jsonObj obj = jsonMsgObj [] obj None"

text \<open>A failure that is reported with its own text.\<close>

definition failure :: "err \<Rightarrow> reply" where
  "failure e = Msg False (err_text e) NoObj"

text \<open>
  \<open>if err != nil { report; return }\<close>: the rest of a handler runs on what a step gave, the
  reports of its errors differ.
\<close>

definition answered :: "(err \<Rightarrow> reply) \<Rightarrow> ('s, 'a) act \<Rightarrow> ('a \<Rightarrow> ('s, reply) act) \<Rightarrow> ('s, reply) act" where
  "answered report m f = andThen (attempt m) (\<lambda>r. case r of Inl e \<Rightarrow> ret (report e) | Inr x \<Rightarrow> f x)"

abbreviation or_msg :: "string \<Rightarrow> ('s, 'a) act \<Rightarrow> ('a \<Rightarrow> ('s, reply) act) \<Rightarrow> ('s, reply) act" where
  "or_msg msg \<equiv> answered (\<lambda>e. jsonMsg msg (Some e))"

abbreviation or_failure :: "('s, 'a) act \<Rightarrow> ('a \<Rightarrow> ('s, reply) act) \<Rightarrow> ('s, reply) act" where
  "or_failure \<equiv> answered failure"

section \<open>The session\<close>

definition SetLoginUser :: "nat \<Rightarrow> user \<Rightarrow> (web, unit) act" where
  "SetLoginUser client u = andThen (on_panel outside) (\<lambda>_.
     modify (\<lambda>w. w\<lparr>wb_sessions := (wb_sessions w)(client := Some u)\<rparr>))"

definition GetLoginUser :: "nat \<Rightarrow> (web, user option) act" where
  "GetLoginUser client = gets (\<lambda>w. wb_sessions w client)"

definition ClearSession :: "nat \<Rightarrow> (web, unit) act" where
  "ClearSession client = modify (\<lambda>w. w\<lparr>wb_sessions := (wb_sessions w)(client := None)\<rparr>)"

section \<open>The index controller\<close>

definition index_page :: "nat \<Rightarrow> (web, reply) act" where
  "index_page client = andThen (GetLoginUser client) (\<lambda>u.
     ret (if u \<noteq> None then Redirect ''xui/'' else Html ''login.html''))"

definition login :: "nat \<Rightarrow> login_form bind \<Rightarrow> (web, reply) act" where
  "login client bind = answered (\<lambda>_. Msg False text_bad_form NoObj)
     (lift_res (bind \<lparr>lf_Username = [], lf_Password = []\<rparr>)) (\<lambda>form.
     if lf_Username form = [] then ret (Msg False text_no_username NoObj)
     else if lf_Password form = [] then ret (Msg False text_no_password NoObj)
     else andThen (on_panel (CheckUser (lf_Username form) (lf_Password form))) (\<lambda>u. case u of
         None \<Rightarrow> ret (Msg False text_wrong_user NoObj)
       | Some user \<Rightarrow> andThen (attempt (SetLoginUser client user)) (\<lambda>r. ret (jsonMsg text_login (err_of r)))))"

definition logout :: "nat \<Rightarrow> (web, reply) act" where
  "logout client = andThen (ClearSession client) (\<lambda>_. gets (\<lambda>w. Redirect (wb_basePath w)))"

section \<open>The server controller\<close>

definition server_status :: "(web, reply) act" where
  "server_status =
     andThen (modify (\<lambda>w. w\<lparr>wb_lastGetStatusTime := clock_now (wb_panel w)\<rparr>)) (\<lambda>_.
     gets (\<lambda>w. jsonObj (StatusObj (wb_lastStatus w))))"

text \<open>A minute in milliseconds; before the first query the time of the last one is the year 1.\<close>

definition getXrayVersion :: "(web, reply) act" where
  "getXrayVersion =
     andThen (on_panel (gets clock_now)) (\<lambda>now.
     andThen (gets wb_lastVersions) (\<lambda>last_versions.
     case last_versions of
       Some (versions, time) \<Rightarrow>
         if now - time \<le> 60000 then ret (jsonObj (TextsObj versions))
         else andThen (modify (\<lambda>w. w\<lparr>wb_lastVersions := Some (GetXrayVersions, now)\<rparr>)) (\<lambda>_.
           ret (jsonObj (TextsObj GetXrayVersions)))
     | None \<Rightarrow> andThen (modify (\<lambda>w. w\<lparr>wb_lastVersions := Some (GetXrayVersions, now)\<rparr>)) (\<lambda>_.
           ret (jsonObj (TextsObj GetXrayVersions)))))"

definition installXray :: "string \<Rightarrow> (panel, reply) act" where
  "installXray version = andThen (attempt (UpdateXray version)) (\<lambda>r. ret (jsonMsg text_install (err_of r)))"

section \<open>The inbound controller\<close>

definition getInbounds :: "user \<Rightarrow> (panel, reply) act" where
  "getInbounds u = or_msg ''get'' (GetInbounds (u_Id u)) (\<lambda>is'. ret (jsonObj (InboundsObj is')))"

text \<open>Behind a change that succeeded: restart, and synchronise the port limits.\<close>

definition changed :: "err option \<Rightarrow> (panel, unit) act" where
  "changed e = (if e = None then andThen SetToNeedRestart (\<lambda>_. SyncNow) else ret ())"

definition after_change :: "string \<Rightarrow> (panel, unit) act \<Rightarrow> (panel, reply) act" where
  "after_change msg m = andThen (attempt m) (\<lambda>r. andThen (changed (err_of r)) (\<lambda>_. ret (jsonMsg msg (err_of r))))"

definition addInbound :: "user \<Rightarrow> inbound bind \<Rightarrow> (panel, reply) act" where
  "addInbound u bind = or_msg ''add'' (lift_res (bind zero_inbound)) (\<lambda>i.
     after_change ''add'' (AddInbound (i\<lparr>in_UserId := u_Id u, in_Enable := True, in_Tag := inbound_tag (in_Port i)\<rparr>)))"

definition delInbound :: "string \<Rightarrow> (panel, reply) act" where
  "delInbound id_text = or_msg ''delete'' (lift_res (Atoi id_text)) (\<lambda>i. after_change ''delete'' (DelInbound i))"

definition updateInbound :: "string \<Rightarrow> inbound bind \<Rightarrow> (panel, reply) act" where
  "updateInbound id_text bind = or_msg ''update'' (lift_res (Atoi id_text)) (\<lambda>i.
     or_msg ''update'' (lift_res (bind (zero_inbound\<lparr>in_Id := i\<rparr>))) (\<lambda>inbound.
     after_change ''update'' (UpdateInbound inbound)))"

definition text_or_msg :: "string \<Rightarrow> (panel, string \<times> err option) act \<Rightarrow> (panel, reply) act" where
  "text_or_msg msg m = or_msg msg (andThen m or_throw) (\<lambda>out. ret (jsonObj (TextObj out)))"

definition getPortLimitDiag :: "string \<Rightarrow> (panel, reply) act" where
  "getPortLimitDiag now = or_msg ''build port-limit diagnostics'' (BuildDiagnostics now) (\<lambda>diag. ret (jsonObj (TextObj diag)))"

section \<open>The outbound controller\<close>

definition getOutbounds :: "bool bind \<Rightarrow> (panel, reply) act" where
  "getOutbounds bind = or_msg ''get outbound list'' (lift_res (bind True)) (\<lambda>includeSystem.
     or_msg ''get outbound list'' (GetOutbounds includeSystem) (\<lambda>os. ret (jsonObj (OutboundsObj os))))"

definition zero_outbound :: outbound where
  "zero_outbound = \<lparr>ob_Id = 0, ob_Tag = [], ob_Protocol = [], ob_Settings = [], ob_StreamSettings = [], ob_Mux = [],
     ob_Enabled = False, ob_Remark = [], ob_Sort = 0, ob_IsSystem = False, ob_CreatedAt = 0, ob_UpdatedAt = 0\<rparr>"

definition addOutbound :: "outbound bind \<Rightarrow> (panel, reply) act" where
  "addOutbound bind = or_msg ''add outbound'' (lift_res (bind zero_outbound)) (\<lambda>ob.
     or_failure (AddOutbound ob) (\<lambda>(applied, item). ret (Msg True [] (OutboundObj item applied))))"

definition with_outbound :: "int \<Rightarrow> bool \<Rightarrow> (panel, reply) act" where
  "with_outbound i applied = or_failure (GetOutbound i) (\<lambda>current. ret (Msg True [] (OutboundObj current applied)))"

definition updateOutbound :: "string \<Rightarrow> outbound bind \<Rightarrow> (panel, reply) act" where
  "updateOutbound id_text bind = or_msg ''update outbound'' (lift_res (Atoi id_text)) (\<lambda>i.
     or_msg ''update outbound'' (lift_res (bind (zero_outbound\<lparr>ob_Id := i\<rparr>))) (\<lambda>ob.
     or_failure (UpdateOutbound ob) (with_outbound i)))"

definition delOutbound :: "string \<Rightarrow> (panel, reply) act" where
  "delOutbound id_text = or_msg ''delete outbound'' (lift_res (Atoi id_text)) (\<lambda>i.
     or_failure (DeleteOutbound i) (\<lambda>applied. ret (Msg True [] (IdObj i applied))))"

definition toggleOutbound :: "string \<Rightarrow> bool bind \<Rightarrow> (panel, reply) act" where
  "toggleOutbound id_text bind = or_msg ''toggle outbound'' (lift_res (Atoi id_text)) (\<lambda>i.
     or_msg ''toggle outbound'' (lift_res (bind False)) (\<lambda>enabled.
     or_failure (ToggleOutbound i enabled) (with_outbound i)))"

section \<open>The routing controller\<close>

definition getRules :: "bool bind \<Rightarrow> (panel, reply) act" where
  "getRules bind = or_msg ''get routing list'' (lift_res (bind True)) (\<lambda>includeSystem.
     or_msg ''get routing list'' (GetRules includeSystem) (\<lambda>rs. ret (jsonObj (RulesObj rs))))"

definition zero_upsert :: routingRuleUpsertRequest where
  "zero_upsert = \<lparr>rq_Type = [], rq_Domain = [], rq_IP = [], rq_Port = [], rq_Protocol = [], rq_Network = [],
     rq_Source = [], rq_InboundTag = [], rq_OutboundTag = [], rq_Enabled = None, rq_Remark = [], rq_Sort = 0\<rparr>"

definition toModel :: "int \<Rightarrow> bool \<Rightarrow> routingRuleUpsertRequest \<Rightarrow> routing_rule" where
  "toModel i defaultEnabled r = \<lparr>rr_Id = i, rr_Type = rq_Type r, rr_Domain = rq_Domain r, rr_IP = rq_IP r,
     rr_Port = rq_Port r, rr_Protocol = rq_Protocol r, rr_Network = rq_Network r, rr_Source = rq_Source r,
     rr_InboundTag = rq_InboundTag r, rr_OutboundTag = rq_OutboundTag r,
     rr_Enabled = (case rq_Enabled r of None \<Rightarrow> defaultEnabled | Some b \<Rightarrow> b), rr_Remark = rq_Remark r,
     rr_Sort = rq_Sort r, rr_IsSystem = False, rr_CreatedAt = 0, rr_UpdatedAt = 0\<rparr>"

definition addRule :: "routingRuleUpsertRequest bind \<Rightarrow> (panel, reply) act" where
  "addRule bind = or_msg ''add routing rule'' (lift_res (bind zero_upsert)) (\<lambda>req.
     or_failure (AddRule (toModel 0 True req)) (\<lambda>(applied, item). ret (Msg True [] (RuleObj item applied))))"

definition with_rule :: "int \<Rightarrow> bool \<Rightarrow> (panel, reply) act" where
  "with_rule i applied = or_failure (GetRule i) (\<lambda>current. ret (Msg True [] (RuleObj current applied)))"

definition updateRule :: "string \<Rightarrow> routingRuleUpsertRequest bind \<Rightarrow> (panel, reply) act" where
  "updateRule id_text bind = or_msg ''update routing rule'' (lift_res (Atoi id_text)) (\<lambda>i.
     or_msg ''update routing rule'' (lift_res (bind zero_upsert)) (\<lambda>req.
     or_failure (GetRule i) (\<lambda>current.
     or_failure (UpdateRule (toModel i (rr_Enabled current) req)) (with_rule i))))"

definition delRule :: "string \<Rightarrow> (panel, reply) act" where
  "delRule id_text = or_msg ''delete routing rule'' (lift_res (Atoi id_text)) (\<lambda>i.
     or_failure (DeleteRule i) (\<lambda>applied. ret (Msg True [] (IdObj i applied))))"

definition toggleRule :: "string \<Rightarrow> bool option bind \<Rightarrow> (panel, reply) act" where
  "toggleRule id_text bind = or_msg ''toggle routing rule'' (lift_res (Atoi id_text)) (\<lambda>i.
     or_msg ''toggle routing rule'' (lift_res (bind None)) (\<lambda>enabled. case enabled of
       None \<Rightarrow> ret (Msg False ''ROUTING_RULE_ENABLED_REQUIRED: enabled is required'' NoObj)
     | Some b \<Rightarrow> or_failure (ToggleRule i b) (with_rule i)))"

definition reorderRules :: "reorder_item list bind \<Rightarrow> (panel, reply) act" where
  "reorderRules bind = or_msg ''reorder routing rules'' (lift_res (bind [])) (\<lambda>items.
     or_failure (ReorderRules items) (\<lambda>applied. ret (Msg True [] (ItemsObj items applied))))"

definition applyAITemplate :: "(string \<times> int \<times> string) bind \<Rightarrow> (panel, reply) act" where
  "applyAITemplate bind = or_msg ''apply ai template'' (lift_res (bind ([], 0, []))) (\<lambda>(outboundTag, sortBase, remarkPrefix).
     or_failure (ApplyAITemplate outboundTag sortBase remarkPrefix) (\<lambda>(created, skipped, applied).
     ret (Msg True ''apply ai template success'' (TemplateObj created skipped outboundTag applied))))"

section \<open>The setting controller\<close>

definition getAllSetting :: "(panel, reply) act" where
  "getAllSetting = or_msg text_get_setting GetAllSetting (\<lambda>a. ret (jsonObj (SettingObj a)))"

definition updateSettingReq :: "all_setting bind \<Rightarrow> (panel, reply) act" where
  "updateSettingReq bind = or_msg text_set_setting (lift_res (bind zero_setting)) (\<lambda>a.
     andThen (attempt (UpdateAllSetting a)) (\<lambda>r. ret (jsonMsg text_set_setting (err_of r))))"

definition updateUser :: "nat \<Rightarrow> user \<Rightarrow> updateUserForm bind \<Rightarrow> (web, reply) act" where
  "updateUser client u bind = or_msg text_set_user
     (lift_res (bind \<lparr>uf_OldUsername = [], uf_OldPassword = [], uf_NewUsername = [], uf_NewPassword = []\<rparr>)) (\<lambda>form.
     if u_Username u \<noteq> uf_OldUsername form \<or> u_Password u \<noteq> uf_OldPassword form
     then ret (jsonMsg text_set_user (Some (Err text_wrong_old)))
     else if uf_NewUsername form = [] \<or> uf_NewPassword form = []
     then ret (jsonMsg text_set_user (Some (Err text_empty_new)))
     else
       andThen (on_panel (attempt (UpdateUser (u_Id u) (uf_NewUsername form) (uf_NewPassword form)))) (\<lambda>r.
       andThen (if err_of r = None
         then attempt (SetLoginUser client (u\<lparr>u_Username := uf_NewUsername form, u_Password := uf_NewPassword form\<rparr>))
         else ret (Inr ())) (\<lambda>_.
       ret (jsonMsg text_set_user (err_of r)))))"

definition restartPanel :: "(panel, reply) act" where
  "restartPanel = andThen (attempt RestartPanel) (\<lambda>r. ret (jsonMsg text_restart (err_of r)))"

section \<open>The certificate controller\<close>

definition getCertStatus :: "(panel, reply) act" where
  "getCertStatus = or_msg ''get cert status'' GetStatus (\<lambda>status. ret (jsonObj (CertObj status)))"

definition listUsable :: "(panel, reply) act" where
  "listUsable = or_msg ''list usable certificates'' ListUsable (\<lambda>cs. ret (Msg True [] (UsableObj cs)))"

definition setDomain :: "string bind \<Rightarrow> (panel, reply) act" where
  "setDomain bind = or_msg ''set cert domain'' (lift_res (bind [])) (\<lambda>domain.
     or_msg ''set cert domain'' (SetDomain domain) (\<lambda>_. getCertStatus))"

definition checkDomain :: "string bind \<Rightarrow> (panel, reply) act" where
  "checkDomain bind = or_msg ''check cert domain'' (lift_res (bind [])) (\<lambda>domain.
     or_msg ''check cert domain'' (CheckDomain domain) (\<lambda>result. ret (jsonObj (DomainObj result))))"

text \<open>The status behind a change of the certificate.\<close>

definition with_status :: "string \<Rightarrow> bool \<Rightarrow> (panel, reply) act" where
  "with_status msg applied = or_msg ''get cert status'' GetStatus (\<lambda>status. ret (Msg True msg (CertAppliedObj status applied)))"

definition upload :: "(string \<times> string) bind \<Rightarrow> (panel, reply) act" where
  "upload bind = or_msg ''upload certificate'' (lift_res (bind ([], []))) (\<lambda>(certPEM, keyPEM).
     or_failure (UploadCertificate certPEM keyPEM) (\<lambda>_. with_status ''upload certificate success'' False))"

definition issueHTTP :: "(string \<times> string \<times> bool) bind \<Rightarrow> (panel, reply) act" where
  "issueHTTP bind = or_msg ''issue http certificate'' (lift_res (bind ([], [], False))) (\<lambda>(domain, email, staging).
     or_failure (IssueHTTP domain email staging) (\<lambda>result.
     ret (Msg True ''issue http certificate success'' (AcmeObj result))))"

definition enableHTTPS :: "(panel, reply) act" where
  "enableHTTPS = or_failure EnableHTTPS (with_status ''enable https success'')"

definition disableHTTPS :: "(panel, reply) act" where
  "disableHTTPS = or_failure DisableHTTPS (with_status ''disable https success'')"

section \<open>The access controller\<close>

definition getConfig :: "(panel, reply) act" where
  "getConfig = or_msg ''get access ip config'' AccessIP_GetConfig (\<lambda>c. ret (jsonObj (AccessConfigObj c)))"

definition updateConfig :: "access_ip_config bind \<Rightarrow> (panel, reply) act" where
  "updateConfig bind = or_msg ''update access ip config''
     (lift_res (bind \<lparr>AccessLogEnabled = False, AggregationEnabled = False\<rparr>)) (\<lambda>c.
     andThen (attempt (andThen (AccessIP_UpdateConfig c) (\<lambda>needRestart.
       if needRestart then RestartXray True else ret ()))) (\<lambda>r.
     ret (jsonMsg ''update access ip config'' (err_of r))))"

definition listRecords :: "(panel, reply) act" where
  "listRecords = or_msg ''get access ip records'' GetAccessIPRecords (\<lambda>rs. ret (jsonObj (RecordsObj rs)))"

definition clearRecords :: "(panel, reply) act" where
  "clearRecords = andThen (attempt ClearAccessIPRecords) (\<lambda>r. ret (jsonMsg ''clear access ip records'' (err_of r)))"

section \<open>The routes\<close>

text \<open>The requests that reach only the panel, for a user.\<close>

fun panel_request :: "user \<Rightarrow> request \<Rightarrow> (panel, reply) act option" where
  "panel_request u Inbound_list = Some (getInbounds u)"
| "panel_request u (Inbound_add b) = Some (addInbound u b)"
| "panel_request u (Inbound_del i) = Some (delInbound i)"
| "panel_request u (Inbound_update i b) = Some (updateInbound i b)"
| "panel_request u Portlimit_sync = Some (text_or_msg ''sync port-limit'' SyncNowBlocking)"
| "panel_request u Portlimit_logs = Some (text_or_msg ''get port-limit logs'' (GetRecentLogs 120))"
| "panel_request u Portlimit_status = Some (text_or_msg ''get port-limit status'' GetRuleStatus)"
| "panel_request u (Portlimit_diag now) = Some (getPortLimitDiag now)"
| "panel_request u (Outbound_list b) = Some (getOutbounds b)"
| "panel_request u (Outbound_add b) = Some (addOutbound b)"
| "panel_request u (Outbound_update i b) = Some (updateOutbound i b)"
| "panel_request u (Outbound_del i) = Some (delOutbound i)"
| "panel_request u (Outbound_toggle i b) = Some (toggleOutbound i b)"
| "panel_request u (Routing_list b) = Some (getRules b)"
| "panel_request u (Routing_add b) = Some (addRule b)"
| "panel_request u (Routing_update i b) = Some (updateRule i b)"
| "panel_request u (Routing_del i) = Some (delRule i)"
| "panel_request u (Routing_toggle i b) = Some (toggleRule i b)"
| "panel_request u (Routing_reorder b) = Some (reorderRules b)"
| "panel_request u (Routing_template b) = Some (applyAITemplate b)"
| "panel_request u Setting_all = Some getAllSetting"
| "panel_request u (Setting_update b) = Some (updateSettingReq b)"
| "panel_request u Setting_restart = Some restartPanel"
| "panel_request u Cert_status_req = Some getCertStatus"
| "panel_request u Cert_listUsable = Some listUsable"
| "panel_request u (Cert_setDomain b) = Some (setDomain b)"
| "panel_request u (Cert_checkDomain b) = Some (checkDomain b)"
| "panel_request u (Cert_upload b) = Some (upload b)"
| "panel_request u (Cert_issue b) = Some (issueHTTP b)"
| "panel_request u Cert_enable = Some enableHTTPS"
| "panel_request u Cert_disable = Some disableHTTPS"
| "panel_request u AccessIP_config = Some getConfig"
| "panel_request u (AccessIP_update b) = Some (updateConfig b)"
| "panel_request u AccessIP_list = Some listRecords"
| "panel_request u AccessIP_clear = Some clearRecords"
| "panel_request u (Post_installXray version) = Some (installXray version)"
| "panel_request u _ = None"

text \<open>A request of a client that is logged in as \<open>u\<close>, behind \<open>checkLogin\<close>.\<close>

definition user_request :: "nat \<Rightarrow> user \<Rightarrow> request \<Rightarrow> (web, reply) act" where
  "user_request client u q = (case panel_request u q of
       Some m \<Rightarrow> on_panel m
     | None \<Rightarrow> (case q of
         Setting_updateUser b \<Rightarrow> updateUser client u b
       | Post_getXrayVersion \<Rightarrow> getXrayVersion
       | Post_status \<Rightarrow> server_status
       | Get_page name \<Rightarrow> ret (Html name)
       | _ \<Rightarrow> throw (Err ''not a request behind the login'')))"

definition checkLogin :: "nat \<Rightarrow> bool \<Rightarrow> (user \<Rightarrow> (web, reply) act) \<Rightarrow> (web, reply) act" where
  "checkLogin client isAjax next_handler = andThen (GetLoginUser client) (\<lambda>u. case u of
       Some user \<Rightarrow> next_handler user
     | None \<Rightarrow> if isAjax then ret (Msg False text_expired NoObj) else gets (\<lambda>w. Redirect (wb_basePath w)))"

definition handle_request :: "nat \<Rightarrow> bool \<Rightarrow> request \<Rightarrow> (web, reply) act" where
  "handle_request client isAjax q = (case q of
       Get_index \<Rightarrow> index_page client
     | Post_login bind \<Rightarrow> login client bind
     | Get_logout \<Rightarrow> logout client
     | _ \<Rightarrow> checkLogin client isAjax (\<lambda>u. user_request client u q))"

end
