(* ===== verification/Panel_Steps.thy ===== *)
theory Panel_Steps
  imports Table_Writes Requests
begin

text \<open>
  The panel as a state machine: the requests of the clients, the jobs, the signals, the
  command line and what happens outside, in any order and any number, under any schedule
  of failures; and the invariant of every state that can be reached.
\<close>

section \<open>What reads only\<close>

lemma idle_files: "idle I s \<Longrightarrow> idle I (s\<lparr>files := fs\<rparr>)"
  by (simp add: idle_iff)

lemma portlimit_keeps [keeps_intro]: "keeps (idle I) (exec_run argv)" "keeps (idle I) SyncNow"
  by (rule exec_run_frame, erule idle_files) (rule SyncNow_frame, erule idle_files)

lemma xray_keeps [keeps_intro]: "keeps (idle I) (RestartXray b)" "keeps (idle I) StopXray"
    "keeps (idle I) SetToNeedRestart" "keeps (idle I) IsNeedRestartAndSetFalse" "keeps (idle I) IsXrayRunning"
    "keeps (idle I) GetXrayErr" "keeps (idle I) GetXrayVersion" "keeps (idle I) GetXrayResult"
    "keeps (idle I) (GetXrayTraffic stats)"
proof -
  show "keeps (idle I) (RestartXray b)" by (intro idle_frame db_frame)
  show "keeps (idle I) StopXray"
    unfolding StopXray_def by (intro keeps_intro idle_frame [OF Stop_frame] idle_modify) simp_all
  show "keeps (idle I) SetToNeedRestart" unfolding SetToNeedRestart_def by (intro idle_modify) simp_all
  show "keeps (idle I) IsNeedRestartAndSetFalse" by (simp add: keeps_def IsNeedRestartAndSetFalse_def idle_iff)
  show "keeps (idle I) IsXrayRunning" "keeps (idle I) GetXrayErr" "keeps (idle I) GetXrayVersion"
    unfolding IsXrayRunning_def GetXrayErr_def GetXrayVersion_def by (intro keeps_intro)+
  show "keeps (idle I) GetXrayResult"
    by (auto simp: keeps_def GetXrayResult_def idle_iff split: option.split prod.split)
  show "keeps (idle I) (GetXrayTraffic stats)" unfolding GetXrayTraffic_def by (intro keeps_intro)
qed

lemma portlimit_reads_keep [keeps_intro]: "keeps (idle I) SyncNowBlocking" "keeps (idle I) (GetRecentLogs n)"
    "keeps (idle I) GetRuleStatus" "keeps (idle I) (BuildDiagnostics now)" "keeps (idle I) (or_throw r)"
  unfolding SyncNowBlocking_def syncWithOutput_def runCmd_def GetRecentLogs_def GetRuleStatus_def BuildDiagnostics_def
    or_throw_def Let_def
  by (intro keeps_intro)+

lemma UpdateXray_keeps [keeps_intro]: "keeps (idle I) (UpdateXray version)"
  unfolding UpdateXray_def downloadXRay_def fetch_xray_def deferred_def copy_release_def copyZipFile_def
    remove_file_def copy_into_def read_seen_def
  by (intro keeps_intro idle_modify; simp)

lemma answered_keeps [keeps_intro]: "keeps P m \<Longrightarrow> (\<And>x. keeps P (f x)) \<Longrightarrow> keeps P (answered report m f)"
  unfolding answered_def by (intro keeps_intro)

section \<open>The jobs and the requests of the panel\<close>

context panel_writes begin

lemma jobs_keep: "keeps (idle I) CheckInboundJob_Run" "keeps (idle I) (XrayTrafficJob_Run stats)"
    "keeps (idle I) AccessIPJob_Run" "keeps (idle I) restart_task" "keeps (idle I) (GetServerStatus n m tcp udp)"
proof -
  show "keeps (idle I) CheckInboundJob_Run"
    unfolding CheckInboundJob_Run_def by (intro keeps_intro DisableInvalidInbounds_keeps)
  show "keeps (idle I) (XrayTrafficJob_Run stats)"
    unfolding XrayTrafficJob_Run_def by (intro keeps_intro AddTraffic_keeps) (simp split: err.split add: keeps_intro)
  show "keeps (idle I) AccessIPJob_Run" "keeps (idle I) restart_task" "keeps (idle I) (GetServerStatus n m tcp udp)"
    unfolding AccessIPJob_Run_def restart_task_def GetServerStatus_def by (intro keeps_intro ProcessAccessLog_keeps)+
qed

lemma changes_keep: "keeps (idle I) m \<Longrightarrow> keeps (idle I) (after_change msg m)"
  unfolding after_change_def changed_def by (intro keeps_intro)

lemma inbound_requests_keep: "keeps (idle I) (getInbounds u)" "keeps (idle I) (addInbound u b)"
    "keeps (idle I) (delInbound i)" "keeps (idle I) (updateInbound i b)" "keeps (idle I) (getPortLimitDiag now)"
    "\<And>m. keeps (idle I) m \<Longrightarrow> keeps (idle I) (text_or_msg msg m)"
  unfolding getInbounds_def addInbound_def delInbound_def updateInbound_def getPortLimitDiag_def text_or_msg_def
  by (intro keeps_intro changes_keep GetInbounds_keeps AddInbound_keeps DelInbound_keeps UpdateInbound_keeps | assumption)+

lemma managed_requests_keep: "keeps (idle I) (getOutbounds b)" "keeps (idle I) (addOutbound b1)"
    "keeps (idle I) (updateOutbound i b1)" "keeps (idle I) (delOutbound i)" "keeps (idle I) (toggleOutbound i b)"
    "keeps (idle I) (getRules b)" "keeps (idle I) (addRule b2)" "keeps (idle I) (updateRule i b2)"
    "keeps (idle I) (delRule i)" "keeps (idle I) (toggleRule i b3)" "keeps (idle I) (reorderRules b4)"
    "keeps (idle I) (applyAITemplate b5)"
  unfolding getOutbounds_def addOutbound_def updateOutbound_def delOutbound_def toggleOutbound_def with_outbound_def
    getRules_def addRule_def updateRule_def delRule_def toggleRule_def with_rule_def reorderRules_def applyAITemplate_def
  by (intro keeps_intro lists_keep outbound_handlers_keep rule_handlers_keep template_keeps)+

lemma setting_requests_keep: "keeps (idle I) getAllSetting" "keeps (idle I) (updateSettingReq b)"
    "keeps (idle I) restartPanel" "keeps (idle I) getCertStatus" "keeps (idle I) listUsable"
    "keeps (idle I) (setDomain b1)" "keeps (idle I) (checkDomain b1)" "keeps (idle I) (upload b2)"
    "keeps (idle I) (issueHTTP b3)" "keeps (idle I) enableHTTPS" "keeps (idle I) disableHTTPS"
  unfolding getAllSetting_def updateSettingReq_def restartPanel_def getCertStatus_def listUsable_def setDomain_def
    checkDomain_def upload_def issueHTTP_def enableHTTPS_def disableHTTPS_def with_status_def
  by (intro keeps_intro GetAllSetting_keeps UpdateAllSetting_keeps RestartPanel_keeps GetStatus_keeps ListUsable_keeps
      domain_keeps UploadCertificate_keeps IssueHTTP_keeps EnableHTTPS_keeps DisableHTTPS_keeps)+

lemma access_requests_reply_keep: "keeps (idle I) getConfig" "keeps (idle I) (updateConfig b)"
    "keeps (idle I) listRecords" "keeps (idle I) clearRecords" "keeps (idle I) (installXray version)"
  unfolding getConfig_def updateConfig_def listRecords_def clearRecords_def installXray_def
  by (intro keeps_intro access_files_keep AccessIP_UpdateConfig_keeps access_requests_keep)+

lemma panel_request_keeps: "panel_request u q = Some m \<Longrightarrow> keeps (idle I) m"
  by (cases q) (auto intro!: inbound_requests_keep managed_requests_keep setting_requests_keep
      access_requests_reply_keep keeps_intro)

end

section \<open>The web server\<close>

text \<open>Nobody is logged in without a name and a password.\<close>

definition sessions_ok :: "web \<Rightarrow> bool" where
  "sessions_ok w \<longleftrightarrow> (\<forall>client u. wb_sessions w client = Some u \<longrightarrow> u_Username u \<noteq> [] \<and> u_Password u \<noteq> [])"

definition web_ok :: "(database \<Rightarrow> bool) \<Rightarrow> web \<Rightarrow> bool" where
  "web_ok I w \<longleftrightarrow> idle I (wb_panel w) \<and> sessions_ok w"

lemma on_panel_keeps [keeps_intro]: "keeps (idle I) m \<Longrightarrow> keeps (web_ok I) (on_panel m)"
  by (auto simp: keeps_def on_panel_def web_ok_def sessions_ok_def case_prod_beta)

lemma web_modify: "(\<And>w. wb_panel (f w) = wb_panel w) \<Longrightarrow> (\<And>w. wb_sessions (f w) = wb_sessions w) \<Longrightarrow>
    keeps (web_ok I) (modify f)"
  by (simp add: keeps_def web_ok_def sessions_ok_def)

lemma keeps_andThen_result:
  assumes "keeps P m" and "\<And>s x t. m s = (Inr x, t) \<Longrightarrow> keeps P (f x)"
  shows "keeps P (andThen m f)"
  unfolding keeps_def
proof (intro allI impI)
  fix s assume s: "P s"
  obtain q t where q: "m s = (q, t)" by (cases "m s")
  from keepsD_eq [OF assms(1) q s] q show "P (snd (andThen m f s))"
    using assms(2) keepsD [of P "f x" t for x] by (cases q) (auto simp: andThen_run)
qed

lemma session_keeps: "keeps (web_ok I) (GetLoginUser client)" "keeps (web_ok I) (ClearSession client)"
    "u_Username u \<noteq> [] \<Longrightarrow> u_Password u \<noteq> [] \<Longrightarrow> keeps (web_ok I) (SetLoginUser client u)"
  unfolding GetLoginUser_def ClearSession_def SetLoginUser_def
  by (intro keeps_intro keeps_modify; simp add: web_ok_def sessions_ok_def)+

context panel_writes begin

lemma checked_login_keeps:
  assumes "a \<noteq> []" "b \<noteq> []" and rest: "\<And>r. keeps (web_ok I) (f r)"
  shows "keeps (web_ok I) (andThen (on_panel (CheckUser a b)) (\<lambda>u. case u of None \<Rightarrow> ret x
    | Some user \<Rightarrow> andThen (attempt (SetLoginUser client user)) f))"
proof (rule keeps_andThen_result)
  show "keeps (web_ok I) (on_panel (CheckUser a b))" by (intro keeps_intro user_handlers_keep)
  fix s u t assume "on_panel (CheckUser a b) s = (Inr u, t)"
  then obtain v where "CheckUser a b (wb_panel s) = (Inr u, v)" by (auto simp: on_panel_def split: prod.splits)
  then have "u_Username v = a \<and> u_Password v = b" if "u = Some v" for v using that CheckUser_row by blast
  with assms show "keeps (web_ok I) (case u of None \<Rightarrow> ret x
      | Some user \<Rightarrow> andThen (attempt (SetLoginUser client user)) f)"
    by (auto split: option.split intro!: keeps_intro session_keeps)
qed

lemma login_keeps: "keeps (web_ok I) (login client b)"
  unfolding login_def by (intro answered_keeps keeps_if checked_login_keeps keeps_intro)

lemma updateUser_keeps: "keeps (web_ok I) (updateUser client u b)"
  unfolding updateUser_def
  by (intro answered_keeps keeps_intro user_handlers_keep session_keeps) simp_all

lemma server_requests_keep: "keeps (web_ok I) getXrayVersion" "keeps (web_ok I) server_status"
    "keeps (web_ok I) (status_task n m tcp udp)" "keeps (web_ok I) CheckXrayRunningJob_Run"
  unfolding getXrayVersion_def server_status_def status_task_def CheckXrayRunningJob_Run_def
  by (intro keeps_intro web_modify jobs_keep; simp)+

lemma user_request_keeps: "keeps (web_ok I) (user_request client u q)"
proof (cases "panel_request u q")
  case None
  then show ?thesis
    by (cases q) (auto simp: user_request_def intro!: keeps_intro updateUser_keeps server_requests_keep)
next
  case (Some m)
  then show ?thesis by (auto simp: user_request_def intro: keeps_intro panel_request_keeps)
qed

lemma handle_request_keeps: "keeps (web_ok I) (handle_request client isAjax q)"
proof -
  have "keeps (web_ok I) (checkLogin client isAjax (\<lambda>u. user_request client u q))"
    unfolding checkLogin_def by (intro keeps_intro session_keeps user_request_keeps)
  then show ?thesis
    unfolding handle_request_def index_page_def logout_def
    by (auto split: request.split intro!: keeps_intro session_keeps login_keeps)
qed

lemma outside_web_keeps: "keeps (web_ok I) (on_panel outside)"
  by (intro keeps_intro)

lemma socket_keeps: "keeps (web_ok I) (close_socket addr)" "keeps (web_ok I) (net_Listen addr)" "keeps (web_ok I) http_Shutdown"
  unfolding close_socket_def net_Listen_def http_Shutdown_def
  by (intro keeps_intro web_modify outside_web_keeps; simp add: release_def split: option.split)+

lemma Server_Stop_keeps: "keeps (web_ok I) Server_Stop"
  unfolding Server_Stop_def
  by (intro keeps_intro web_modify socket_keeps) (auto intro: keeps_intro socket_keeps split: option.split)

lemma resolveHTTPSConfig_keeps: "keeps (idle I) resolveHTTPSConfig"
  unfolding resolveHTTPSConfig_def disableHTTPSForMissingFiles_def accessor_defs
  by (intro keeps_intro all_attempts_keep) (auto intro: saveSetting_keeps)

lemma prepare_listener_keeps: "keeps (web_ok I) prepare_listener"
  unfolding prepare_listener_def open_listener_def accessor_defs
  by (intro keeps_intro resolveHTTPSConfig_keeps socket_keeps)

lemma GetBasePath_keeps: "keeps (idle I) GetBasePath"
  unfolding GetBasePath_def by (intro keeps_intro)

lemma Server_Start_keeps: "keeps (web_ok I) Server_Start"
  unfolding Server_Start_def start_steps_web_def startTask_def initRouter_def
  by (intro keeps_intro web_modify start_settings_keep GetBasePath_keeps prepare_listener_keeps Server_Stop_keeps; simp)

lemma on_signal_keeps: "keeps (web_ok I) (on_signal sig)"
  by (cases sig) (auto simp: on_signal_def NewServer_def intro!: keeps_intro web_modify Server_Stop_keeps Server_Start_keeps)

lemma runWebServer_keeps: "keeps (web_ok I) (runWebServer [])"
  unfolding runWebServer_def serve.simps
  by (intro keeps_intro web_modify Server_Start_keeps InitDB_keeps; simp add: NewServer_def)

end

end
