(* ===== verification/Panel_Invariant.thy ===== *)
theory Panel_Invariant
  imports Panel_Steps
begin

text \<open>
  The invariant of the database and of the sessions, over every sequence of what can
  happen to the panel.  References from rules to outbounds are not part of it: the
  change of an outbound's tag can break them.
\<close>

section \<open>The invariant of the database\<close>

definition db_inv :: "database \<Rightarrow> bool" where
  "db_inv d \<longleftrightarrow> inbounds_ok (tbl_inbounds d) \<and> tags_ok (tbl_outbounds d) \<and> ids_ok rr_Id (tbl_rules d)
     \<and> ids_ok st_Id (tbl_settings d) \<and> ids_ok u_Id (tbl_users d) \<and> records_ok (tbl_access d)"

lemma inbound_frames:
  "\<exists>t. snd (save_inbound i d) = d\<lparr>tbl_inbounds := t\<rparr>" "\<exists>t. snd (update_inbounds P f d) = d\<lparr>tbl_inbounds := t\<rparr>"
proof -
  have same: "\<exists>t. d = d\<lparr>tbl_inbounds := t\<rparr>" for d by (rule exI [of _ "tbl_inbounds d"]) simp
  show "\<exists>t. snd (save_inbound i d) = d\<lparr>tbl_inbounds := t\<rparr>"
    using same by (auto simp: save_inbound_def insert_inbound_def overwrite_inbound_def split: sum.split)
  show "\<exists>t. snd (update_inbounds P f d) = d\<lparr>tbl_inbounds := t\<rparr>"
    by (auto simp: update_inbounds_def)
qed

lemma db_inv_inbounds: "db_inv d \<Longrightarrow> \<exists>t. d' = d\<lparr>tbl_inbounds := t\<rparr> \<Longrightarrow> inbounds_inv d' \<Longrightarrow> db_inv d'"
  by (auto simp: db_inv_def)

interpretation inb: inbound_writes db_inv
proof
  show "db_inv (snd (save_inbound i d))" if "db_inv d" "limits_ok i" for d i
    by (rule db_inv_inbounds [OF that(1) inbound_frames(1)], rule save_inbound_ok) (use that in \<open>simp_all add: db_inv_def\<close>)
  show "db_inv (snd (update_inbounds P f d))" if "db_inv d" "\<And>r. in_Id (f r) = in_Id r" "\<And>r. in_Port (f r) = in_Port r"
    "\<And>r. in_Tag (f r) = in_Tag r" "\<And>r. limits_ok r \<Longrightarrow> limits_ok (f r)" for d f P
    using that by (auto simp: db_inv_def update_inbounds_def intro: inbounds_ok_update)
  show "db_inv (d\<lparr>tbl_inbounds := delete_rows P (tbl_inbounds d)\<rparr>)" if "db_inv d" for d P
    using that by (simp add: db_inv_def inbounds_ok_delete)
qed

lemma tags_ok_save: "tags_ok (tbl_outbounds d) \<Longrightarrow> tags_ok (tbl_outbounds (snd (save_outbound t r d)))"
proof (cases "list_ex (\<lambda>x. ob_Tag x = ob_Tag r \<and> ob_Id x \<noteq> ob_Id r) (tbl_outbounds d)")
  case False
  let ?r = "r\<lparr>ob_UpdatedAt := t\<rparr>" and ?l = "tbl_outbounds d"
  let ?t = "update_rows (\<lambda>x. ob_Id x = ob_Id ?r) (\<lambda>_. ?r) ?l"
  assume ok: "tags_ok ?l"
  then have di: "distinct (map ob_Id ?l)" "distinct (map ob_Tag ?l)"
    by (simp_all add: tags_ok_def ids_ok_def strict_sorted_iff)
  have "map ob_Id ?t = map ob_Id ?l" by (auto simp: update_rows_def)
  then have "ids_ok ob_Id ?t" using ok by (simp add: tags_ok_def ids_ok_def)
  moreover have "distinct (map ob_Tag ?t)"
    by (rule distinct_overwrite) (use di False in \<open>auto simp: list_ex_iff\<close>)
  ultimately show ?thesis using False by (simp add: save_outbound_def tags_ok_def)
qed (simp add: save_outbound_def)

interpretation managed: managed_writes db_inv
proof
  fix d assume ok: "db_inv d"
  then have tags: "tags_ok (tbl_outbounds d)" and rules: "ids_ok rr_Id (tbl_rules d)" by (simp_all add: db_inv_def)
  show "db_inv (snd (create_outbound t r d))" for t r
  proof (cases "ob_Tag r \<in> ob_Tag ` set (tbl_outbounds d)")
    case False
    have t: "ob_Tag (outbound_defaults t r) \<notin> ob_Tag ` set (tbl_outbounds d)"
      using False by (simp add: outbound_defaults_def)
    from ok False tags_ok_insert [OF _ tags t] show ?thesis
      by (auto simp: create_outbound_def db_inv_def split: sum.split)
  qed (use ok in \<open>simp add: create_outbound_def\<close>)
  show "db_inv (snd (save_outbound t r d))" for t r
    using ok tags_ok_save [OF tags] by (auto simp: db_inv_def save_outbound_def)
  show "db_inv (snd (update_outbound t i f d))" if "\<And>x. ob_Id (f x) = ob_Id x" "\<And>x. ob_Tag (f x) = ob_Tag x" for t i f
    using ok that by (simp add: db_inv_def update_outbound_def tags_ok_update)
  show "db_inv (snd (delete_outbound i d))" for i
    using ok by (simp add: db_inv_def delete_outbound_def tags_ok_def outbound_rows.delete_rows_ids distinct_delete_rows)
  show "db_inv (snd (create_rule t c d))" for t c
    using ok by (auto simp: create_rule_def db_inv_def split: sum.split dest: rule_rows.insert_row_ids)
  show "db_inv (snd (update_rule t i g d))" if "\<And>x. rr_Id (g x) = rr_Id x" for t i g
    using ok that by (simp add: db_inv_def update_rule_def rule_rows.update_rows_ids)
  show "db_inv (snd (delete_rule i d))" for i
    using ok by (simp add: db_inv_def delete_rule_def rule_rows.delete_rows_ids)
qed

interpretation settings: setting_writes db_inv
proof
  fix d assume ok: "db_inv d"
  show "db_inv (snd (create_setting \<lparr>st_Id = 0, st_Key = k, st_Value = v\<rparr> d))" for k v
    using ok by (auto simp: create_setting_def db_inv_def split: sum.split dest: setting_rows.insert_row_ids)
  show "db_inv (snd (store_setting r d))" for r
  proof -
    have "map st_Id (update_rows (\<lambda>x. st_Id x = st_Id r) (\<lambda>_. r) t) = map st_Id t" for t by (auto simp: update_rows_def)
    with ok show ?thesis by (simp add: store_setting_def db_inv_def ids_ok_def)
  qed
  show "db_inv (d\<lparr>tbl_settings := delete_rows P (tbl_settings d)\<rparr>)" for P
    using ok by (simp add: db_inv_def setting_rows.delete_rows_ids)
qed

interpretation users: user_writes db_inv
proof
  fix d assume ok: "db_inv d"
  show "db_inv (snd (create_user u d))" for u
    using ok by (auto simp: create_user_def db_inv_def split: sum.split dest: user_rows.insert_row_ids)
  show "db_inv (snd (update_users P f d))" if "\<And>u. P u \<Longrightarrow> u_Id (f u) = u_Id u" for P f
  proof -
    have "map u_Id (update_rows P f t) = map u_Id t" for t using that by (simp add: update_rows_def)
    with ok show ?thesis by (simp add: update_users_def db_inv_def ids_ok_def)
  qed
qed

interpretation access: access_writes db_inv
proof
  fix d assume ok: "db_inv d"
  show "db_inv (d\<lparr>tbl_access := apply_event e (tbl_access d)\<rparr>)" for e
    using ok counted_ok [of "tbl_access d" e] by (simp add: db_inv_def apply_event_counted)
  show "db_inv (d\<lparr>tbl_access := delete_rows P (tbl_access d)\<rparr>)" for P
  proof -
    have "list_all (\<lambda>r. in_int64 (ar_HitCount r)) (delete_rows P t)" if "list_all (\<lambda>r. in_int64 (ar_HitCount r)) t" for t
      using that by (auto simp: delete_rows_def list_all_iff)
    with ok show ?thesis
      by (simp add: db_inv_def records_ok_def access_rows.delete_rows_ids distinct_delete_rows)
  qed
qed

interpretation panel_inv: panel_writes db_inv
  by unfold_locales

section \<open>The steps\<close>

text \<open>The operations of the jobs and of the command line, which runs on the same database.\<close>

inductive panel_job :: "(panel, unit) act \<Rightarrow> bool" where
  "panel_job CheckInboundJob_Run"
| "panel_job (XrayTrafficJob_Run stats)"
| "panel_job AccessIPJob_Run"
| "panel_job restart_task"

inductive command_line :: "(panel, string) act \<Rightarrow> bool" where
  "command_line resetSetting"
| "command_line (updateSetting port username password)"
| "command_line showSetting"
| "command_line (MigrateFromV2UI rows)"

inductive web_step :: "web \<Rightarrow> web \<Rightarrow> bool" where
  started: "runWebServer [] w = (r, w') \<Longrightarrow> web_step w w'"
| requested: "handle_request client isAjax q w = (r, w') \<Longrightarrow> web_step w w'"
| signalled: "on_signal sig w = (r, w') \<Longrightarrow> web_step w w'"
| job: "panel_job m \<Longrightarrow> on_panel m w = (r, w') \<Longrightarrow> web_step w w'"
| watched: "CheckXrayRunningJob_Run w = (r, w') \<Longrightarrow> web_step w w'"
| refreshed: "status_task sent recv tcp udp w = (r, w') \<Longrightarrow> web_step w w'"
| command: "command_line m \<Longrightarrow> on_panel m w = (r, w') \<Longrightarrow> web_step w w'"
| serving: "web_step w (w\<lparr>wb_serving := wb_httpServer w\<rparr>)"
| xray_moved: "xray_p (wb_panel w) = Some p \<Longrightarrow> proc_step p q \<Longrightarrow>
    web_step w (w\<lparr>wb_panel := (wb_panel w)\<lparr>xray_p := Some q\<rparr>\<rparr>)"
| orphan_moved: "orphans (wb_panel w) = ps @ p # qs \<Longrightarrow> proc_step p q \<Longrightarrow>
    web_step w (w\<lparr>wb_panel := (wb_panel w)\<lparr>orphans := ps @ q # qs\<rparr>\<rparr>)"
| elsewhere: "web_step w (w\<lparr>wb_panel := (wb_panel w)\<lparr>world := v, files := fs, faults := es, clock_now := t\<rparr>\<rparr>)"

text \<open>The panel before its first start.\<close>

definition first_web :: "world \<Rightarrow> web" where
  "first_web v = \<lparr>wb_panel = fresh_panel v, wb_sockets = [], wb_listener = None, wb_httpServer = False, wb_serving = False, wb_cron = False, wb_basePath = [], wb_checkTime = 0,
     wb_sessions = (\<lambda>_. None), wb_lastVersions = None, wb_lastStatus = None, wb_lastGetStatusTime = 0\<rparr>"

definition reachable :: "web \<Rightarrow> bool" where
  "reachable w \<longleftrightarrow> (\<exists>v. web_step\<^sup>*\<^sup>* (first_web v) w)"

inductive_cases job_cases: "panel_job m"
inductive_cases command_cases: "command_line m"

lemma job_keeps: "panel_job m \<Longrightarrow> keeps (idle db_inv) m"
  by (elim job_cases) (simp_all add: panel_inv.jobs_keep)

lemma command_keeps: "command_line m \<Longrightarrow> keeps (idle db_inv) m"
  by (elim command_cases) (simp_all add: panel_inv.commands_line_keep)

lemma web_ok_panel: "web_ok I w \<Longrightarrow> pdb s = pdb (wb_panel w) \<Longrightarrow> ptx s = ptx (wb_panel w) \<Longrightarrow> web_ok I (w\<lparr>wb_panel := s\<rparr>)"
  by (simp add: web_ok_def sessions_ok_def idle_iff)

lemma web_step_keeps: "web_step w w' \<Longrightarrow> web_ok db_inv w \<Longrightarrow> web_ok db_inv w'"
proof (induction rule: web_step.induct)
  case (started w r w')
  then show ?case by (rule keepsD_eq [OF panel_inv.runWebServer_keeps])
next
  case (requested client isAjax q w r w')
  then show ?case by (rule keepsD_eq [OF panel_inv.handle_request_keeps])
next
  case (signalled sig w r w')
  then show ?case by (rule keepsD_eq [OF panel_inv.on_signal_keeps])
next
  case (job m w r w')
  show ?case by (rule keepsD_eq [OF on_panel_keeps [OF job_keeps [OF job(1)]] job(2,3)])
next
  case (watched w r w')
  then show ?case by (rule keepsD_eq [OF panel_inv.server_requests_keep(4)])
next
  case (refreshed sent recv tcp udp w r w')
  then show ?case by (rule keepsD_eq [OF panel_inv.server_requests_keep(3)])
next
  case (command m w r w')
  show ?case by (rule keepsD_eq [OF on_panel_keeps [OF command_keeps [OF command(1)]] command(2,3)])
next
  case (serving w)
  then show ?case by (simp add: web_ok_def sessions_ok_def)
next
  case (xray_moved w p q)
  then show ?case by (intro web_ok_panel) simp_all
next
  case (orphan_moved w ps p qs q)
  then show ?case by (intro web_ok_panel) simp_all
next
  case (elsewhere w v fs es t)
  then show ?case by (intro web_ok_panel) simp_all
qed

lemma reachable_ok: "reachable w \<Longrightarrow> web_ok db_inv w"
proof -
  have start: "web_ok db_inv (first_web v)" for v
    by (simp add: web_ok_def sessions_ok_def idle_iff first_web_def fresh_panel_def empty_database_def db_inv_def
        inbounds_ok_def tags_ok_def ids_ok_def records_ok_def)
  have "web_ok db_inv w" if "web_step\<^sup>*\<^sup>* (first_web v) w" for v
    using that by (induction rule: rtranclp_induct) (auto intro: start web_step_keeps)
  then show "reachable w \<Longrightarrow> web_ok db_inv w" by (auto simp: reachable_def)
qed

text \<open>C1: in every state that requests, jobs, signals, the command line, xray and the machine can lead
  to, in any order and whatever fails: no transaction is open; the ids, ports and tags of the
  inbounds are distinct and their limits in normal form; the ids and tags of the outbounds and
  the ids of rules, settings and users are distinct; one record per address and port counts in
  64 bits; and nobody is logged in without a name and a password.\<close>

theorem panel_invariant:
  assumes "reachable w"
  shows "ptx (wb_panel w) = None \<and> db_inv (pdb (wb_panel w)) \<and> sessions_ok w"
  using reachable_ok [OF assms] by (simp add: web_ok_def idle_iff)

text \<open>The first start of the command line, then a login with the first user.\<close>

lemma first_login:
  "\<exists>w w' r r'. on_panel resetSetting (first_web quiet_world) = (r, w)
     \<and> handle_request 7 True (Post_login (\<lambda>_. Inr \<lparr>lf_Username = ''admin'', lf_Password = ''admin''\<rparr>)) w = (r', w')
     \<and> map_option u_Username (wb_sessions w' 7) = Some ''admin'' \<and> map ob_Tag (tbl_outbounds (pdb (wb_panel w'))) = [''direct'', ''blocked'']"
proof -
  obtain r w where 1: "on_panel resetSetting (first_web quiet_world) = (r, w)" by (metis surj_pair)
  obtain r' w' where 2: "handle_request 7 True (Post_login (\<lambda>_. Inr \<lparr>lf_Username = ''admin'', lf_Password = ''admin''\<rparr>)) w = (r', w')"
    by (metis surj_pair)
  have "case on_panel resetSetting (first_web quiet_world) of (_, w) \<Rightarrow>
      (case handle_request 7 True (Post_login (\<lambda>_. Inr \<lparr>lf_Username = ''admin'', lf_Password = ''admin''\<rparr>)) w of
        (_, w') \<Rightarrow> map_option u_Username (wb_sessions w' 7) = Some ''admin''
          \<and> map ob_Tag (tbl_outbounds (pdb (wb_panel w'))) = [''direct'', ''blocked''])"
    by code_simp
  with 1 2 show ?thesis by auto
qed

theorem panel_invariant_witness:
  "\<exists>w. reachable w \<and> wb_sessions w 7 \<noteq> None \<and> map ob_Tag (tbl_outbounds (pdb (wb_panel w))) = [''direct'', ''blocked'']
     \<and> ptx (wb_panel w) = None \<and> db_inv (pdb (wb_panel w)) \<and> sessions_ok w"
proof -
  obtain w w' r r' where 1: "on_panel resetSetting (first_web quiet_world) = (r, w)"
    and 2: "handle_request 7 True (Post_login (\<lambda>_. Inr \<lparr>lf_Username = ''admin'', lf_Password = ''admin''\<rparr>)) w = (r', w')"
    and 3: "map_option u_Username (wb_sessions w' 7) = Some ''admin''" "map ob_Tag (tbl_outbounds (pdb (wb_panel w'))) = [''direct'', ''blocked'']"
    using first_login by (elim exE conjE)
  have "web_step (first_web quiet_world) w" by (rule web_step.command [OF command_line.intros(1) 1])
  moreover have "web_step w w'" by (rule requested [OF 2])
  ultimately have r: "reachable w'" unfolding reachable_def by (blast intro: rtranclp.intros)
  from r panel_invariant [OF r] 3 show ?thesis by (intro exI [of _ w']) auto
qed

end
