(* ===== verification/Web_Properties.thy ===== *)
theory Web_Properties
  imports Requests Cert_Issue Process_Properties
begin

text \<open>
  What the web server promises: who may reach what is behind the login, how a session
  comes about, what the server listens on, and that xray is started again.
\<close>

section \<open>The guard\<close>

lemma on_panel_sessions: "on_panel m w = (r, w') \<Longrightarrow> wb_sessions w' = wb_sessions w"
  by (auto simp: on_panel_def split: prod.splits)

text \<open>Who holds a session after a request that a client made.\<close>

definition same_sessions :: "(nat \<Rightarrow> user option) \<Rightarrow> web \<Rightarrow> bool" where
  "same_sessions f w \<longleftrightarrow> wb_sessions w = f"

lemma same_on_panel [keeps_intro]: "keeps (same_sessions f) (on_panel m)"
  by (auto simp: keeps_def same_sessions_def on_panel_def split: prod.split)

lemma same_requests: "keeps (same_sessions f) getXrayVersion" "keeps (same_sessions f) server_status"
  unfolding getXrayVersion_def server_status_def
  by (intro keeps_intro keeps_modify; simp add: same_sessions_def)+

text \<open>How the sessions of \<open>updateUser\<close> and of \<open>login\<close> come out.\<close>

definition user_after :: "user \<Rightarrow> updateUserForm bind \<Rightarrow> user \<Rightarrow> bool" where
  "user_after u bind u' \<longleftrightarrow> (\<exists>form.
     bind \<lparr>uf_OldUsername = [], uf_OldPassword = [], uf_NewUsername = [], uf_NewPassword = []\<rparr> = Inr form
   \<and> uf_OldUsername form = u_Username u \<and> uf_OldPassword form = u_Password u
   \<and> u' = u\<lparr>u_Username := uf_NewUsername form, u_Password := uf_NewPassword form\<rparr>)"

definition logged_in :: "database \<Rightarrow> login_form bind \<Rightarrow> user \<Rightarrow> bool" where
  "logged_in d bind u \<longleftrightarrow> (\<exists>form. bind \<lparr>lf_Username = [], lf_Password = []\<rparr> = Inr form
     \<and> u \<in> set (tbl_users d) \<and> u_Username u = lf_Username form \<and> u_Password u = lf_Password form)"

lemma SetLoginUser_run: "SetLoginUser client u w = (r, w') \<Longrightarrow>
    wb_sessions w' = wb_sessions w \<or> wb_sessions w' = (wb_sessions w)(client := Some u)"
  by (auto simp: SetLoginUser_def andThen_run on_panel_def split: prod.splits sum.splits)

lemma login_sessions:
  assumes "login client bind w = (r, w')"
  shows "wb_sessions w' = wb_sessions w \<or> (\<exists>u. wb_sessions w' = (wb_sessions w)(client := Some u) \<and> logged_in (pdb (wb_panel w)) bind u)"
proof (cases "bind \<lparr>lf_Username = [], lf_Password = []\<rparr>")
  case (Inl e)
  with assms show ?thesis by (auto simp: login_def answered_def andThen_run attempt_run)
next
  case (Inr form)
  obtain q s where c: "CheckUser (lf_Username form) (lf_Password form) (wb_panel w) = (q, s)"
    by (cases "CheckUser (lf_Username form) (lf_Password form) (wb_panel w)")
  let ?w = "w\<lparr>wb_panel := s\<rparr>"
  show ?thesis
  proof (cases "\<exists>u. q = Inr (Some u)")
    case True
    then obtain u where u: "q = Inr (Some u)" by blast
    obtain r1 w1 where s1: "SetLoginUser client u ?w = (r1, w1)" by (cases "SetLoginUser client u ?w")
    have "logged_in (pdb (wb_panel w)) bind u" using CheckUser_row c Inr u by (auto simp: logged_in_def)
    with SetLoginUser_run [OF s1] assms Inr c u s1 show ?thesis
      by (auto simp: login_def answered_def andThen_run attempt_run on_panel_def split: if_splits)
  next
    case False
    then have "q = Inr None \<or> (\<exists>e. q = Inl e)" by (cases q) (auto simp: option.exhaust)
    with assms Inr c show ?thesis
      by (auto simp: login_def answered_def andThen_run attempt_run on_panel_def split: if_splits)
  qed
qed

lemma updateUser_sessions:
  assumes "updateUser client u bind w = (r, w')"
  shows "wb_sessions w' = wb_sessions w \<or> (\<exists>u'. wb_sessions w' = (wb_sessions w)(client := Some u') \<and> user_after u bind u')"
proof (cases "bind \<lparr>uf_OldUsername = [], uf_OldPassword = [], uf_NewUsername = [], uf_NewPassword = []\<rparr>")
  case (Inl e)
  with assms show ?thesis by (auto simp: updateUser_def answered_def andThen_run attempt_run)
next
  case (Inr form)
  obtain q s where c: "UpdateUser (u_Id u) (uf_NewUsername form) (uf_NewPassword form) (wb_panel w) = (q, s)"
    by (cases "UpdateUser (u_Id u) (uf_NewUsername form) (uf_NewPassword form) (wb_panel w)")
  let ?w = "w\<lparr>wb_panel := s\<rparr>" and ?u = "u\<lparr>u_Username := uf_NewUsername form, u_Password := uf_NewPassword form\<rparr>"
  obtain r1 w1 where s1: "SetLoginUser client ?u ?w = (r1, w1)" by (cases "SetLoginUser client ?u ?w")
  show ?thesis
  proof (cases "u_Username u = uf_OldUsername form \<and> u_Password u = uf_OldPassword form")
    case True
    then have "user_after u bind ?u" using Inr by (simp add: user_after_def)
    with SetLoginUser_run [OF s1] assms Inr c s1 True show ?thesis
      by (cases q) (auto simp: updateUser_def answered_def andThen_run attempt_run on_panel_def split: if_splits)
  qed (use assms Inr in \<open>auto simp: updateUser_def answered_def andThen_run attempt_run\<close>)
qed

lemma user_request_sessions:
  assumes "user_request client u q w = (r, w')"
  shows "wb_sessions w' = wb_sessions w \<or> (\<exists>bind u'. q = Setting_updateUser bind
     \<and> wb_sessions w' = (wb_sessions w)(client := Some u') \<and> user_after u bind u')"
proof (cases "panel_request u q")
  case (Some m)
  with assms show ?thesis by (auto simp: user_request_def dest: on_panel_sessions)
next
  case None
  have same: "m w = (r, w') \<Longrightarrow> keeps (same_sessions (wb_sessions w)) m \<Longrightarrow> wb_sessions w' = wb_sessions w" for m
    using keepsD_eq [of "same_sessions (wb_sessions w)" m w r w'] by (simp add: same_sessions_def)
  from None assms show ?thesis
    by (cases q) (auto simp: user_request_def dest: updateUser_sessions same [OF _ same_requests(1)] same [OF _ same_requests(2)])
qed

text \<open>C2: without a session, nothing but the index page, the login and the logout does anything: the
  reply is the same for every request and no state changes.\<close>

theorem nothing_without_login:
  assumes "wb_sessions w client = None" and "q \<noteq> Get_index" and "\<nexists>bind. q = Post_login bind" and "q \<noteq> Get_logout"
  shows "handle_request client isAjax q w = (Inr (if isAjax then Msg False text_expired NoObj else Redirect (wb_basePath w)), w)"
  using assms by (cases q) (simp_all add: handle_request_def checkLogin_def GetLoginUser_def andThen_run)

text \<open>C3: a request changes the session of no client but its own; that one it removes, or puts a user
  of the table into it whose name and password the client has sent, or renames the user in it, who
  has sent the name and the password that the session holds.\<close>

theorem session_changed:
  assumes "handle_request client isAjax q w = (r, w')"
  shows "wb_sessions w' = wb_sessions w
     \<or> (q = Get_logout \<and> wb_sessions w' = (wb_sessions w)(client := None))
     \<or> (\<exists>bind u. q = Post_login bind \<and> wb_sessions w' = (wb_sessions w)(client := Some u) \<and> logged_in (pdb (wb_panel w)) bind u)
     \<or> (\<exists>bind u u'. q = Setting_updateUser bind \<and> wb_sessions w client = Some u
          \<and> wb_sessions w' = (wb_sessions w)(client := Some u') \<and> user_after u bind u')"
proof (cases "(\<exists>bind. q = Post_login bind) \<or> q = Get_index \<or> q = Get_logout")
  case True
  then show ?thesis
  proof (elim disjE exE)
    fix bind assume "q = Post_login bind"
    with assms login_sessions [of client bind w r w'] show ?thesis by (auto simp: handle_request_def)
  qed (use assms in \<open>auto simp: handle_request_def index_page_def logout_def GetLoginUser_def ClearSession_def andThen_run\<close>)
next
  case False
  then have h: "handle_request client isAjax q = checkLogin client isAjax (\<lambda>u. user_request client u q)"
    by (cases q) (simp_all add: handle_request_def)
  show ?thesis
  proof (cases "wb_sessions w client")
    case None
    with assms h show ?thesis by (auto simp: checkLogin_def GetLoginUser_def andThen_run split: if_splits)
  next
    case (Some u)
    with assms h have "user_request client u q w = (r, w')" by (simp add: checkLogin_def GetLoginUser_def andThen_run)
    from user_request_sessions [OF this] Some show ?thesis by auto
  qed
qed

section \<open>The listener\<close>

definition missing_fields :: "(string \<times> string) list" where
  "missing_fields = [(''webCertFile'', []), (''webKeyFile'', []), (''webCertStatus'', ''missing''), (''webCertMode'', ''none'')]"

lemma missing_run: "faults s = [] \<Longrightarrow>
    disableHTTPSForMissingFiles s = (Inr (), upd_settings (kv.puts missing_fields) s)"
proof -
  assume calm: "faults s = []"
  have d: "disableHTTPSForMissingFiles = andThen (all_attempts (map (\<lambda>(k, v). saveSetting k v) missing_fields))
      (\<lambda>es. case Combine es of None \<Rightarrow> ret () | Some e \<Rightarrow> throw e)"
    by (simp add: disableHTTPSForMissingFiles_def missing_fields_def cert_setters)
  from all_attempts_saves [OF calm, of missing_fields] obtain es where
    "all_attempts (map (\<lambda>(k, v). saveSetting k v) missing_fields) s = (Inr es, upd_settings (kv.puts missing_fields) s)"
    "Combine es = None" by blast
  then show ?thesis by (simp add: d andThen_run)
qed

lemma file_setting: "faults s = [] \<Longrightarrow> k = ''webCertFile'' \<or> k = ''webKeyFile'' \<Longrightarrow>
    getString k s = (Inr (setting_text (tbl_settings (pdb s)) k), s)"
  by (auto simp: getString_calm setting_text_def defaultValueMap_def split: option.split)

text \<open>C23: a configured certificate is served when both its files exist.  When one is missing the panel
  falls back to HTTP and says so in its settings, so that the next start reads no certificate.\<close>

theorem https_fallback:
  assumes "faults s = []" and "settings_ok (tbl_settings (pdb s))" and "resolveHTTPSConfig s = (r, t)"
  shows "let c = setting_text (tbl_settings (pdb s)) ''webCertFile''; k = setting_text (tbl_settings (pdb s)) ''webKeyFile'' in
    if c = [] \<or> k = [] then r = Inr ([], []) \<and> t = s
    else if files s c \<noteq> None \<and> files s k \<noteq> None then r = Inr (c, k) \<and> t = s
    else r = Inr ([], []) \<and> resolveHTTPSConfig t = (Inr ([], []), t)
      \<and> t = upd_settings (\<lambda>_. tbl_settings (pdb t)) s
      \<and> (\<forall>key. setting_value (tbl_settings (pdb t)) key = (case map_of missing_fields key of
           Some v \<Rightarrow> Some v | None \<Rightarrow> setting_value (tbl_settings (pdb s)) key))"
proof -
  let ?c = "setting_text (tbl_settings (pdb s)) ''webCertFile''" and ?k = "setting_text (tbl_settings (pdb s)) ''webKeyFile''"
  have run: "resolveHTTPSConfig s = (if ?c = [] \<or> ?k = [] then (Inr ([], []), s)
      else if files s ?c \<noteq> None \<and> files s ?k \<noteq> None then (Inr (?c, ?k), s)
      else (Inr ([], []), upd_settings (kv.puts missing_fields) s))"
    using assms(1) by (auto simp: resolveHTTPSConfig_def andThen_run GetCertFile_def GetKeyFile_def file_setting
        missing_run stat_ok_def)
  define u where "u = upd_settings (kv.puts missing_fields) s"
  have val: "setting_value (tbl_settings (pdb u)) key = (case map_of missing_fields key of
      Some v \<Rightarrow> Some v | None \<Rightarrow> setting_value (tbl_settings (pdb s)) key)" for key
    using assms(2) by (simp add: u_def kv.get_puts_distinct missing_fields_def split: option.split)
  have "faults u = []" using assms(1) by (simp add: u_def)
  moreover have "setting_text (tbl_settings (pdb u)) ''webCertFile'' = []"
    by (simp add: setting_text_def val) (simp add: missing_fields_def)
  ultimately have "resolveHTTPSConfig u = (Inr ([], []), u)"
    by (simp add: resolveHTTPSConfig_def andThen_run GetCertFile_def GetKeyFile_def file_setting)
  moreover have "u = upd_settings (\<lambda>_. tbl_settings (pdb u)) s" by (simp add: u_def)
  moreover have "upd_settings (kv.puts missing_fields) s = u" by (simp add: u_def)
  ultimately show ?thesis using run val assms(3) by (auto simp: Let_def simp del: split_paired_All)
qed

text \<open>
  A panel behind steps that may have changed the settings of the given keys only.
\<close>

definition moved :: "string set \<Rightarrow> panel \<Rightarrow> panel \<Rightarrow> bool" where
  "moved K s t \<longleftrightarrow> world t = world s \<and> files t = files s \<and> real_faults t \<and> settings_ok (tbl_settings (pdb t))
     \<and> (\<forall>k. k \<notin> K \<longrightarrow> setting_value (tbl_settings (pdb t)) k = setting_value (tbl_settings (pdb s)) k)"

definition clean :: "panel \<Rightarrow> bool" where
  "clean s \<longleftrightarrow> real_faults s \<and> settings_ok (tbl_settings (pdb s))"

definition moves :: "string set \<Rightarrow> (panel, 'a) act \<Rightarrow> bool" where
  "moves K m \<longleftrightarrow> (\<forall>s r t. clean s \<longrightarrow> m s = (r, t) \<longrightarrow> moved K s t)"

lemma movesD: "moves K m \<Longrightarrow> clean s \<Longrightarrow> m s = (r, t) \<Longrightarrow> moved K s t"
  by (simp add: moves_def)

lemma moved_clean: "moved K s t \<Longrightarrow> clean t"
  by (simp add: moved_def clean_def)

lemma moved_refl: "clean s \<Longrightarrow> moved K s s"
  by (simp add: moved_def clean_def)

lemma moved_trans: "moved K s t \<Longrightarrow> moved L t u \<Longrightarrow> moved (K \<union> L) s u"
  by (simp add: moved_def)

lemma moved_text: "moved K s t \<Longrightarrow> k \<notin> K \<Longrightarrow> setting_text (tbl_settings (pdb t)) k = setting_text (tbl_settings (pdb s)) k"
  by (simp add: moved_def setting_text_def)

lemma moved_shown: "moved K s t \<Longrightarrow> k \<notin> K \<Longrightarrow> shown t k = shown s k"
  by (simp add: moved_def shown_def split: option.split)

lemma moves_andThen:
  assumes "moves K m" "\<And>x. moves K (f x)"
  shows "moves K (andThen m f)"
  unfolding moves_def
proof (intro allI impI)
  fix s r t assume s: "clean s" and run: "andThen m f s = (r, t)"
  obtain q u where q: "m s = (q, u)" by (cases "m s")
  have u: "moved K s u" by (rule movesD [OF assms(1) s q])
  show "moved K s t"
  proof (cases q)
    case (Inr x)
    with run q have "f x u = (r, t)" by (simp add: andThen_run)
    from moved_trans [OF u movesD [OF assms(2) moved_clean [OF u] this]] show ?thesis by simp
  qed (use run q u in \<open>simp add: andThen_run\<close>)
qed

lemma moves_attempt: "moves K m \<Longrightarrow> moves K (attempt m)"
  unfolding moves_def by (auto simp: attempt_run intro: prod.collapse [symmetric])

lemma moves_reading: "reading m \<Longrightarrow> moves K m"
  unfolding moves_def
proof (intro allI impI)
  fix s r t assume m: "reading m" and s: "clean s" and run: "m s = (r, t)"
  from s have real: "real_faults s" by (simp add: clean_def)
  from readingD [OF m real run] obtain fs where t: "rest_of s fs" "t = s\<lparr>faults := fs\<rparr>" by blast
  with rest_of_real [OF t(1) real] s show "moved K s t" by (simp add: moved_def clean_def)
qed

lemma moves_save: "k \<in> K \<Longrightarrow> moves K (saveSetting k v)"
  unfolding moves_def
proof (intro allI impI)
  fix s r t assume k: "k \<in> K" and s: "clean s" and run: "saveSetting k v s = (r, t)"
  from s have real: "real_faults s" and ok: "settings_ok (tbl_settings (pdb s))" by (simp_all add: clean_def)
  from real run show "moved K s t"
  proof (cases rule: saveSetting_calls)
    case (saved fs)
    with rest_of_real [OF saved(2) real] ok k show ?thesis by (auto simp: moved_def kv.get_put kv.wf_put real_faults_def)
  next
    case (failed e fs)
    with rest_of_real [OF failed(3) real] ok show ?thesis by (simp add: moved_def)
  qed
qed

lemma moves_attempts: "(\<And>m. m \<in> set ms \<Longrightarrow> moves K m) \<Longrightarrow> moves K (all_attempts ms)"
  by (induction ms) (auto intro!: moves_andThen moves_attempt intro: moves_reading reading_ret)

lemma moves_outside: "moves K outside"
  unfolding moves_def
proof (intro allI impI)
  fix s r t assume s: "clean s" and run: "outside s = (r, t)"
  from s have real: "real_faults s" by (simp add: clean_def)
  from real run show "moved K s t"
    by (cases rule: outside_calls) (use s rest_of_real [OF _ real] in \<open>simp_all add: moved_def clean_def\<close>)
qed

lemmas moves_intro = moves_andThen moves_attempt moves_save moves_outside moves_attempts

lemma reading_world: "reading (on_world f)"
  unfolding on_world_def by (rule reading_gets) simp

lemma reading_location: "reading (LoadLocation l)" "reading (attempt (LoadLocation l))"
  unfolding LoadLocation_def
  by (rule reading_pure; simp add: andThen_run attempt_run)+

lemma reading_cases:
  "(\<And>e. reading (f e)) \<Longrightarrow> (\<And>x. reading (g x)) \<Longrightarrow> reading (case r of Inl e \<Rightarrow> f e | Inr x \<Rightarrow> g x)"
  by (simp split: sum.split)

lemma moves_if: "moves K m \<Longrightarrow> moves K m' \<Longrightarrow> moves K (if b then m else m')"
  by simp

lemma start_readings: "reading GetTimeLocation" "reading GetBasePath" "reading GetListen" "reading GetPort" "reading GetCertFile" "reading GetKeyFile"
  unfolding GetTimeLocation_def GetBasePath_def GetListen_def GetPort_def getInt_def GetCertFile_def GetKeyFile_def
  by (intro reading_intro reading_world reading_location reading_cases)+

lemma router_moves: "moves {''secret''} initRouter"
  unfolding initRouter_def GetSecret_def Let_def
  by (intro moves_intro moves_if moves_reading [OF getString_reading] moves_reading [OF reading_world] moves_reading [OF reading_lift]
      moves_reading [OF start_readings(2)] moves_reading [OF reading_ret] insertI1)

lemma missing_moves: "moves (fst ` set missing_fields) disableHTTPSForMissingFiles"
  unfolding disableHTTPSForMissingFiles_def cert_setters
  by (rule moves_andThen, rule moves_attempts)
    (auto simp: missing_fields_def intro: moves_save moves_reading reading_ret reading_throw split: option.split)

lemma reading_getString_Inr:
  assumes "clean s" "getString k s = (Inr v, t)"
  shows "shown s k = Inr v" "moved {} s t"
proof -
  have "getString k (unfailing s) = (Inr v, unfailing s)"
    using readingD [OF getString_reading _ assms(2)] assms(1) by (simp add: clean_def)
  then show "shown s k = Inr v" by (simp add: getString_shown shown_faults)
  show "moved {} s t" by (rule movesD [OF moves_reading [OF getString_reading] assms])
qed

lemma file_shown: "shown s k = Inr v \<Longrightarrow> k = ''webCertFile'' \<or> k = ''webKeyFile'' \<Longrightarrow> v = setting_text (tbl_settings (pdb s)) k"
  by (auto simp: shown_def setting_text_def defaultValueMap_def split: option.splits)

text \<open>The certificate that is configured and there.\<close>

definition configured_pair :: "panel \<Rightarrow> (string \<times> string) option" where
  "configured_pair s =
     (let c = setting_text (tbl_settings (pdb s)) ''webCertFile''; k = setting_text (tbl_settings (pdb s)) ''webKeyFile'' in
      if c \<noteq> [] \<and> k \<noteq> [] \<and> files s c \<noteq> None \<and> files s k \<noteq> None then Some (c, k) else None)"

lemma resolved_pair:
  assumes "clean s" "resolveHTTPSConfig s = (Inr ck, t)"
  shows "ck = (case configured_pair s of Some ck \<Rightarrow> ck | None \<Rightarrow> ([], []))" "moved (fst ` set missing_fields) s t"
proof -
  from assms(2) obtain c s1 k s2 where st: "GetCertFile s = (Inr c, s1)" "GetKeyFile s1 = (Inr k, s2)"
    and rest: "(if c = [] \<or> k = [] then ret ([], []) else andThen (gets files) (\<lambda>fs.
       if stat_ok fs c \<and> stat_ok fs k then ret (c, k)
       else andThen disableHTTPSForMissingFiles (\<lambda>_. ret ([], [])))) s2 = (Inr ck, t)"
    by (auto simp: resolveHTTPSConfig_def andThen_Inr)
  note r1 = reading_getString_Inr [OF assms(1) st(1) [unfolded GetCertFile_def]]
  note r2 = reading_getString_Inr [OF moved_clean [OF r1(2)] st(2) [unfolded GetKeyFile_def]]
  have m: "moved {} s s2" using moved_trans [OF r1(2) r2(2)] by simp
  have ck: "c = setting_text (tbl_settings (pdb s)) ''webCertFile''" "k = setting_text (tbl_settings (pdb s)) ''webKeyFile''"
    using file_shown [OF r1(1)] file_shown [OF r2(1)] moved_text [OF r1(2)] by simp_all
  have "files s2 = files s" using m by (simp add: moved_def)
  with rest ck show "ck = (case configured_pair s of Some ck \<Rightarrow> ck | None \<Rightarrow> ([], []))"
    by (auto simp: configured_pair_def Let_def andThen_run stat_ok_def split: if_splits sum.splits prod.splits)
  have "moves (fst ` set missing_fields) (if c = [] \<or> k = [] then ret ([], []) else andThen (gets files) (\<lambda>fs.
       if stat_ok fs c \<and> stat_ok fs k then ret (c, k) else andThen disableHTTPSForMissingFiles (\<lambda>_. ret ([], []))))"
    by (intro moves_if moves_intro moves_reading [OF reading_ret] moves_reading [OF reading_gets] missing_moves) simp
  from moved_trans [OF m movesD [OF this moved_clean [OF m] rest]] show "moved (fst ` set missing_fields) s t" by simp
qed

text \<open>The sockets, the listener and the HTTP server, which the steps on the panel do not touch.\<close>

definition net_is :: "string list \<times> listener option \<times> bool \<Rightarrow> web \<Rightarrow> bool" where
  "net_is x w \<longleftrightarrow> (wb_sockets w, wb_listener w, wb_httpServer w) = x"

lemma on_panel_net: "on_panel m w = (r, w') \<Longrightarrow> m (wb_panel w) = (r, wb_panel w') \<and> net_is x w' = net_is x w \<and> wb_cron w' = wb_cron w"
  by (auto simp: on_panel_def net_is_def split: prod.splits)

lemma filter_absent: "addr \<notin> set xs \<Longrightarrow> filter (\<lambda>a. a \<noteq> addr) xs = xs"
  by (auto simp: filter_id_conv)

lemma open_listener_run:
  assumes "open_listener addr c k w = (r, w')"
  shows "case r of
      Inr l \<Rightarrow> l = Listener addr (if c \<noteq> [] \<or> k \<noteq> [] then Some (c, k) else None) \<and> addr \<notin> set (wb_sockets w)
        \<and> (c \<noteq> [] \<or> k \<noteq> [] \<longrightarrow> w_keypair (world (wb_panel w)) c k = None)
        \<and> (net_is x w \<longrightarrow> net_is (addr # fst x, snd x) w') \<and> wb_cron w' = wb_cron w
    | Inl e \<Rightarrow> net_is x w' = net_is x w"
proof -
  obtain q w1 where o: "on_panel outside w = (q, w1)" by (cases "on_panel outside w")
  note n = on_panel_net [OF o, of x]
  have world: "world (wb_panel w1) = world (wb_panel w)"
    using outside_faults [of "wb_panel w"] n by auto
  show ?thesis
  proof (cases q)
    case (Inl e)
    with assms o n show ?thesis by (auto simp: open_listener_def net_Listen_def andThen_run)
  next
    case (Inr u)
    show ?thesis
    proof (cases "addr \<in> set (wb_sockets w1)")
      case True
      with assms o n Inr show ?thesis by (auto simp: open_listener_def net_Listen_def andThen_run)
    next
      case False
      let ?w2 = "w1\<lparr>wb_sockets := addr # wb_sockets w1\<rparr>"
      have "fst (net_Listen addr w) = Inr () \<and> snd (net_Listen addr w) = ?w2" using o Inr False by (simp add: net_Listen_def andThen_run)
      then have l: "net_Listen addr w = (Inr (), ?w2)" by (simp add: prod_eq_iff)
      have same: "wb_sockets w1 = wb_sockets w" "wb_listener w1 = wb_listener w" "wb_httpServer w1 = wb_httpServer w" "wb_cron w1 = wb_cron w"
        using o by (auto simp: on_panel_def split: prod.splits)
      show ?thesis
      proof (cases "(c \<noteq> [] \<or> k \<noteq> []) \<and> w_keypair (world (wb_panel w)) c k \<noteq> None")
        case True
        then obtain err where err: "w_keypair (world (wb_panel w)) c k = Some err" by blast
        obtain q2 w3 where cl: "close_socket addr ?w2 = (q2, w3)" by (cases "close_socket addr ?w2")
        then have "wb_sockets w3 = wb_sockets w1" "wb_listener w3 = wb_listener w1" "wb_httpServer w3 = wb_httpServer w1"
          using filter_absent [OF False] by (auto simp: close_socket_def andThen_run release_def on_panel_def split: prod.splits)
        with assms l cl True err same world show ?thesis
          by (auto simp: open_listener_def andThen_run attempt_run on_panel_def net_is_def)
      next
        case kp: False
        with assms l same world False show ?thesis
          by (auto simp: open_listener_def andThen_run on_panel_def net_is_def)
      qed
    qed
  qed
qed

lemma GetPort_shown: "clean s \<Longrightarrow> GetPort s = (Inr port, t) \<Longrightarrow> fst (GetPort (unfailing s)) = Inr port"
  using readingD [OF start_readings(4), of s "Inr port" t] by (simp add: clean_def)

lemma prepared_run:
  assumes "clean (wb_panel w)" "prepare_listener w = (Inr l, w')"
  shows "\<exists>listen port. shown (wb_panel w) ''webListen'' = Inr listen \<and> fst (GetPort (unfailing (wb_panel w))) = Inr port
    \<and> l = Listener (JoinHostPort listen (Itoa port)) (configured_pair (wb_panel w))
    \<and> JoinHostPort listen (Itoa port) \<notin> set (wb_sockets w)
    \<and> (\<forall>c k. configured_pair (wb_panel w) = Some (c, k) \<longrightarrow> w_keypair (world (wb_panel w)) c k = None)
    \<and> (net_is x w \<longrightarrow> net_is (JoinHostPort listen (Itoa port) # fst x, snd x) w') \<and> wb_cron w' = wb_cron w"
proof -
  from assms(2) obtain ck w1 listen w2 port w3 where st: "on_panel resolveHTTPSConfig w = (Inr ck, w1)"
      "on_panel GetListen w1 = (Inr listen, w2)" "on_panel GetPort w2 = (Inr port, w3)"
    and op: "open_listener (JoinHostPort listen (Itoa port)) (fst ck) (snd ck) w3 = (Inr l, w')"
    by (auto simp: prepare_listener_def andThen_Inr split: prod.splits)
  note n1 = on_panel_net [OF st(1), of x] and n2 = on_panel_net [OF st(2), of x] and n3 = on_panel_net [OF st(3), of x]
  note r1 = resolved_pair [OF assms(1) conjunct1 [OF n1]]
  note r2 = reading_getString_Inr [OF moved_clean [OF r1(2)] conjunct1 [OF n2, unfolded GetListen_def]]
  have m2: "moved (fst ` set missing_fields) (wb_panel w) (wb_panel w2)" using moved_trans [OF r1(2) r2(2)] by simp
  have m3: "moved (fst ` set missing_fields) (wb_panel w) (wb_panel w3)"
    using moved_trans [OF m2 movesD [OF moves_reading [OF start_readings(4)] moved_clean [OF m2] conjunct1 [OF n3]], of "{}"] by simp
  have listen: "shown (wb_panel w) ''webListen'' = Inr listen"
    using r2(1) moved_shown [OF r1(2), of "''webListen''"] by (simp add: missing_fields_def)
  have "shown (wb_panel w2) ''webPort'' = shown (wb_panel w) ''webPort''"
    using moved_shown [OF m2, of "''webPort''"] by (simp add: missing_fields_def)
  then have port: "fst (GetPort (unfailing (wb_panel w))) = Inr port"
    using GetPort_shown [OF moved_clean [OF m2] conjunct1 [OF n3]]
    by (auto simp: GetPort_def getInt_def andThen_run getString_shown shown_faults lift_res_def split: sum.splits)
  have "wb_sockets w3 = wb_sockets w" "wb_cron w3 = wb_cron w"
    using st by (auto simp: on_panel_def split: prod.splits)
  moreover have "world (wb_panel w3) = world (wb_panel w)" using m3 by (simp add: moved_def)
  moreover have "configured_pair (wb_panel w) = (if fst ck \<noteq> [] \<or> snd ck \<noteq> [] then Some ck else None)"
    using r1(1) by (auto simp: configured_pair_def Let_def split: if_splits)
  ultimately show ?thesis using open_listener_run [OF op, of x] listen port n1 n2 n3
    by (intro exI [of _ listen] exI [of _ port]) auto
qed

lemma prepare_failed: "prepare_listener w = (Inl e, w') \<Longrightarrow> net_is x w' = net_is x w"
  by (auto simp: prepare_listener_def andThen_Inl split: prod.splits dest!: on_panel_net [of _ _ _ _ x] open_listener_run [of _ _ _ _ _ _ x])

lemma startTask_run: "startTask w = (r, w') \<Longrightarrow> r = Inr () \<and> net_is x w' = net_is x w \<and> wb_cron w' = wb_cron w"
  by (auto simp: startTask_def andThen_run attempt_run on_panel_def net_is_def split: prod.splits)

lemma net_router [simp]:
  "net_is x (w\<lparr>wb_cron := b\<rparr>) = net_is x w"
  "net_is x (w\<lparr>wb_basePath := p, wb_lastVersions := v, wb_lastStatus := st, wb_lastGetStatusTime := t\<rparr>) = net_is x w"
  by (simp_all add: net_is_def)

lemma start_failed: "start_steps_web w = (Inl e, w') \<Longrightarrow> net_is x w' = net_is x w"
  by (auto simp: start_steps_web_def andThen_Inl split: prod.splits
    dest!: on_panel_net [of _ _ _ _ x] prepare_failed [of _ _ _ x] startTask_run [of _ _ _ x])

lemma stop_idle:
  assumes "net_is (ss, None, False) w" "Server_Stop w = (r, w')"
  shows "net_is (ss, None, False) w' \<and> \<not> wb_cron w'"
  using assms by (auto simp: Server_Stop_def net_is_def andThen_run attempt_run on_panel_def split: prod.splits option.splits)

text \<open>C22: C22:
  A start that succeeds has opened one socket, on the address of the settings, which was not open, and runs the jobs.  It serves
  HTTPS with the configured certificate when both its files are there, and then they hold a key pair; it serves plain HTTP
  when no certificate is configured or a file of it is missing.  A start that fails, at whatever step, has closed what it opened,
  also where the key pair could not be loaded: the open sockets are those of before, with no listener and no jobs.
\<close>

theorem server_started:
  assumes "real_faults (wb_panel w)" and "settings_ok (tbl_settings (pdb (wb_panel w)))"
  shows "case Server_Start (NewServer w) of
      (Inr _, w') \<Rightarrow> \<exists>listen port addr.
        fst (getString ''webListen'' (unfailing (wb_panel w))) = Inr listen \<and> fst (GetPort (unfailing (wb_panel w))) = Inr port
        \<and> addr = JoinHostPort listen (Itoa port) \<and> addr \<notin> set (wb_sockets w) \<and> wb_sockets w' = addr # wb_sockets w
        \<and> wb_listener w' = Some (Listener addr (configured_pair (wb_panel w))) \<and> wb_cron w' \<and> wb_httpServer w'
        \<and> (\<forall>c k. configured_pair (wb_panel w) = Some (c, k) \<longrightarrow> w_keypair (world (wb_panel w)) c k = None)
    | (Inl e, w') \<Rightarrow> wb_sockets w' = wb_sockets w \<and> wb_listener w' = None \<and> \<not> wb_cron w' \<and> \<not> wb_httpServer w'"
proof -
  let ?x = "(wb_sockets w, None :: listener option, False)"
  have net: "net_is ?x (NewServer w)" and panel: "wb_panel (NewServer w) = wb_panel w" and socks: "wb_sockets (NewServer w) = wb_sockets w"
    by (simp_all add: net_is_def NewServer_def)
  have clean: "clean (wb_panel w)" using assms by (simp add: clean_def)
  obtain q w1 where q: "start_steps_web (NewServer w) = (q, w1)" by (cases "start_steps_web (NewServer w)")
  show ?thesis
  proof (cases q)
    case (Inl e)
    obtain q' w2 where s: "Server_Stop w1 = (q', w2)" by (cases "Server_Stop w1")
    have "net_is ?x w1" using start_failed [OF q [unfolded Inl], of ?x] net by simp
    from stop_idle [OF this s] q Inl s show ?thesis by (simp add: Server_Start_def andThen_run attempt_run net_is_def)
  next
    case (Inr u)
    from q [unfolded Inr] obtain loc v1 base v2 l v3 v4 where st: "on_panel GetTimeLocation (NewServer w) = (Inr loc, v1)"
        "on_panel initRouter (v1\<lparr>wb_cron := True\<rparr>) = (Inr base, v2)"
        "prepare_listener (v2\<lparr>wb_basePath := base, wb_lastVersions := None, wb_lastStatus := None,
           wb_lastGetStatusTime := clock_now (wb_panel v2)\<rparr>) = (Inr l, v3)"
        "startTask (v3\<lparr>wb_listener := Some l\<rparr>) = (Inr (), v4)" "w1 = v4\<lparr>wb_httpServer := True\<rparr>"
      by (auto simp: start_steps_web_def andThen_Inr)
    let ?v = "v2\<lparr>wb_basePath := base, wb_lastVersions := None, wb_lastStatus := None, wb_lastGetStatusTime := clock_now (wb_panel v2)\<rparr>"
    note n1 = on_panel_net [OF st(1), of ?x] and n2 = on_panel_net [OF st(2), of ?x]
    have m1: "moved {} (wb_panel w) (wb_panel v1)"
      using movesD [OF moves_reading [OF start_readings(1)] _ conjunct1 [OF n1], of "{}"] clean panel by simp
    have i: "initRouter (wb_panel v1) = (Inr base, wb_panel v2)" using n2 by simp
    have m2: "moved {''secret''} (wb_panel w) (wb_panel v2)"
      using moved_trans [OF m1 movesD [OF router_moves moved_clean [OF m1] i]] by simp
    have v: "net_is ?x ?v" "wb_cron ?v" "wb_panel ?v = wb_panel v2" using net n1 n2 by simp_all
    have same: "configured_pair (wb_panel v2) = configured_pair (wb_panel w)" "world (wb_panel v2) = world (wb_panel w)"
      using m2 moved_text [OF m2, of "''webCertFile''"] moved_text [OF m2, of "''webKeyFile''"]
      by (simp_all add: configured_pair_def moved_def)
    have shown: "shown (wb_panel v2) k = shown (wb_panel w) k" if "k \<noteq> ''secret''" for k using moved_shown [OF m2] that by simp
    have port: "fst (GetPort (unfailing (wb_panel v2))) = fst (GetPort (unfailing (wb_panel w)))"
      by (auto simp: GetPort_def getInt_def andThen_run getString_shown shown_faults shown lift_res_def split: sum.splits)
    have cl: "clean (wb_panel ?v)" using moved_clean [OF m2] by simp
    from prepared_run [OF cl st(3), of ?x] obtain listen port where p: "shown (wb_panel v2) ''webListen'' = Inr listen"
        "fst (GetPort (unfailing (wb_panel v2))) = Inr port" "l = Listener (JoinHostPort listen (Itoa port)) (configured_pair (wb_panel v2))"
        "JoinHostPort listen (Itoa port) \<notin> set (wb_sockets v2)"
        "\<forall>c k. configured_pair (wb_panel v2) = Some (c, k) \<longrightarrow> w_keypair (world (wb_panel v2)) c k = None"
        "net_is (JoinHostPort listen (Itoa port) # fst ?x, snd ?x) v3" "wb_cron v3" using v by auto
    have "net_is (JoinHostPort listen (Itoa port) # wb_sockets w, Some l, False) (v3\<lparr>wb_listener := Some l\<rparr>)"
      using p(6) by (simp add: net_is_def)
    with startTask_run [OF st(4), of "(JoinHostPort listen (Itoa port) # wb_sockets w, Some l, False)"]
    have "wb_sockets w1 = JoinHostPort listen (Itoa port) # wb_sockets w" "wb_listener w1 = Some l" "wb_httpServer w1" "wb_cron w1"
      using p(7) st(5) by (simp_all add: net_is_def)
    moreover have "wb_sockets v2 = wb_sockets w" using v(1) by (simp add: net_is_def)
    ultimately show ?thesis using q Inr p same port shown [of "''webListen''"]
      by (simp add: Server_Start_def andThen_run attempt_run getString_shown shown_faults)
  qed
qed

text \<open>A stop releases the socket of the listener and no other, whatever it reports, so that the next start can open it again.\<close>

lemma close_socket_run:
  assumes "close_socket addr w = (r, w')"
  shows "wb_sockets w' = filter (\<lambda>a. a \<noteq> addr) (wb_sockets w) \<and> wb_cron w' = wb_cron w \<and> (addr \<notin> set (wb_sockets w) \<longrightarrow> (\<exists>e. r = Inl e))"
proof (cases "addr \<in> set (wb_sockets w)")
  case True
  with assms show ?thesis by (auto simp: close_socket_def andThen_run release_def on_panel_def split: prod.splits)
next
  case False
  with assms filter_absent [OF False] show ?thesis by (auto simp: close_socket_def andThen_run)
qed

lemma http_Shutdown_run:
  assumes "http_Shutdown w = (r, w')"
  shows "wb_listener w' = wb_listener w \<and> wb_cron w' = wb_cron w \<and> wb_sockets w' = (case wb_listener w of
      Some l \<Rightarrow> if wb_serving w then filter (\<lambda>a. a \<noteq> listener_addr l) (wb_sockets w) else wb_sockets w | None \<Rightarrow> wb_sockets w)"
  using assms by (auto simp: http_Shutdown_def andThen_run release_def on_panel_def split: prod.splits option.splits if_splits)

lemma Server_Stop_steps:
  assumes "Server_Stop w = (r, w')"
  obtains v1 v2 e1 e2 where "wb_listener v1 = wb_listener w" "wb_serving v1 = wb_serving w" "wb_sockets v1 = wb_sockets w" "\<not> wb_cron v1"
    "(if wb_httpServer w then http_Shutdown v1 else (Inr (), v1)) = (e1, v2)"
    "(case wb_listener v2 of Some l \<Rightarrow> close_socket (listener_addr l) v2 | None \<Rightarrow> (Inr (), v2)) = (e2, w')"
    "r = (case Combine [err_of e1, err_of e2] of None \<Rightarrow> Inr () | Some e \<Rightarrow> Inl e)"
proof -
  obtain q s where st: "StopXray (wb_panel w) = (q, s)" by (cases "StopXray (wb_panel w)")
  let ?v1 = "w\<lparr>wb_panel := s, wb_cron := False\<rparr>"
  obtain e1 v2 where e1: "(if wb_httpServer w then http_Shutdown ?v1 else (Inr (), ?v1)) = (e1, v2)"
    by (cases "if wb_httpServer w then http_Shutdown ?v1 else (Inr (), ?v1)")
  obtain e2 v3 where e2: "(case wb_listener v2 of Some l \<Rightarrow> close_socket (listener_addr l) v2 | None \<Rightarrow> (Inr (), v2)) = (e2, v3)"
    by (cases "case wb_listener v2 of Some l \<Rightarrow> close_socket (listener_addr l) v2 | None \<Rightarrow> (Inr (), v2)")
  have sd: "(if wb_httpServer w then attempt http_Shutdown else ret (Inr ())) ?v1 = (Inr e1, v2)"
    using e1 by (simp add: attempt_run split: if_splits)
  have cl: "(case wb_listener v2 of Some l \<Rightarrow> attempt (close_socket (listener_addr l)) | None \<Rightarrow> ret (Inr ())) v2 = (Inr e2, v3)"
    using e2 by (simp add: attempt_run split: option.splits)
  have "Server_Stop w = (case Combine [err_of e1, err_of e2] of None \<Rightarrow> ret () | Some e \<Rightarrow> throw e) v3"
    unfolding Server_Stop_def using st sd cl by (simp add: andThen_run attempt_run on_panel_def)
  then have "w' = v3" "r = (case Combine [err_of e1, err_of e2] of None \<Rightarrow> Inr () | Some e \<Rightarrow> Inl e)"
    using assms by (auto split: option.splits)
  with e1 e2 show ?thesis by (intro that [of ?v1 e1 v2 e2]) simp_all
qed

lemma stop_releases:
  assumes "Server_Stop w = (r, w')"
  shows "wb_sockets w' = (case wb_listener w of None \<Rightarrow> wb_sockets w | Some l \<Rightarrow> filter (\<lambda>a. a \<noteq> listener_addr l) (wb_sockets w)) \<and> \<not> wb_cron w'"
  using assms
proof (rule Server_Stop_steps)
  fix v1 v2 e1 e2
  assume v1: "wb_listener v1 = wb_listener w" "wb_serving v1 = wb_serving w" "wb_sockets v1 = wb_sockets w" "\<not> wb_cron v1"
    and 1: "(if wb_httpServer w then http_Shutdown v1 else (Inr (), v1)) = (e1, v2)"
    and 2: "(case wb_listener v2 of Some l \<Rightarrow> close_socket (listener_addr l) v2 | None \<Rightarrow> (Inr (), v2)) = (e2, w')"
  show ?thesis
  proof (cases "wb_listener w")
    case None
    with 1 2 v1 http_Shutdown_run [of v1 e1 v2] show ?thesis by (auto split: if_splits)
  next
    case (Some l)
    with 1 v1 http_Shutdown_run [of v1 e1 v2] have v2: "wb_listener v2 = Some l" "\<not> wb_cron v2"
      "filter (\<lambda>a. a \<noteq> listener_addr l) (wb_sockets v2) = filter (\<lambda>a. a \<noteq> listener_addr l) (wb_sockets w)"
      by (auto split: if_splits)
    with 2 Some close_socket_run [of "listener_addr l" v2 e2 w'] show ?thesis by simp
  qed
qed

text \<open>A server that serves is never stopped without an error: \<open>Shutdown\<close> has closed the listener that is then closed again.\<close>

lemma stop_closes_twice:
  assumes "wb_listener w = Some l" "wb_httpServer w" "wb_serving w" "Server_Stop w = (r, w')"
  shows "\<exists>e. r = Inl e"
  using assms(4)
proof (rule Server_Stop_steps)
  fix v1 v2 e1 e2
  assume v1: "wb_listener v1 = wb_listener w" "wb_serving v1 = wb_serving w" "wb_sockets v1 = wb_sockets w"
    and 1: "(if wb_httpServer w then http_Shutdown v1 else (Inr (), v1)) = (e1, v2)"
    and 2: "(case wb_listener v2 of Some l \<Rightarrow> close_socket (listener_addr l) v2 | None \<Rightarrow> (Inr (), v2)) = (e2, w')"
    and r: "r = (case Combine [err_of e1, err_of e2] of None \<Rightarrow> Inr () | Some e \<Rightarrow> Inl e)"
  have v2: "wb_listener v2 = Some l" "listener_addr l \<notin> set (wb_sockets v2)"
    using 1 v1 assms(1-3) http_Shutdown_run [of v1 e1 v2] by auto
  with 2 close_socket_run [of "listener_addr l" v2 e2 w'] obtain e where "e2 = Inl e" by auto
  with r show ?thesis by (auto simp: Combine_def Let_def List.map_filter_simps split: option.splits)
qed

section \<open>The watch over xray\<close>

definition xray_down :: "panel \<Rightarrow> bool" where
  "xray_down s \<longleftrightarrow> (case xray_p s of None \<Rightarrow> True | Some p \<Rightarrow> \<not> IsRunning p)"

lemma watch_down: "xray_down (wb_panel w) \<Longrightarrow> CheckXrayRunningJob_Run w =
    (let n = wrap64 (wb_checkTime w + 1) in
     if n < 2 then (Inr (), w\<lparr>wb_checkTime := n\<rparr>)
     else (Inr (), w\<lparr>wb_checkTime := n, wb_panel := (wb_panel w)\<lparr>isNeedXrayRestart := True\<rparr>\<rparr>))"
  by (auto simp: CheckXrayRunningJob_Run_def andThen_run on_panel_def IsXrayRunning_def xray_down_def
      SetToNeedRestart_def Let_def split: option.splits)

text \<open>C24: xray that is down at two checks is started again by the next restart task, whatever
  happened between them, as long as it left the counter of the checks and then the flag: when the
  restart succeeds there is a new process for the configuration that the panel computes then.\<close>

theorem watchdog_restarts:
  assumes "xray_down (wb_panel w)" and "wb_checkTime w = 0" and "CheckXrayRunningJob_Run w = (r1, w1)"
    and "xray_down (wb_panel v)" and "wb_checkTime v = wb_checkTime w1" and "CheckXrayRunningJob_Run v = (r2, v1)"
    and "isNeedXrayRestart s = isNeedXrayRestart (wb_panel v1)" and "xray_down s" and "restart_task s = (r3, t)"
  shows "\<exists>q. RestartXray False (s\<lparr>isNeedXrayRestart := False\<rparr>) = (q, t)
     \<and> (case q of Inl e \<Rightarrow> True
        | Inr _ \<Rightarrow> \<exists>p c. xray_p t = Some p \<and> runs_config c p \<and> fst (GetXrayConfig (s\<lparr>isNeedXrayRestart := False\<rparr>)) = Inr c)"
proof -
  let ?s = "s\<lparr>isNeedXrayRestart := False\<rparr>"
  have "wb_checkTime w1 = 1" using assms(1-3) by (auto simp: watch_down wrap64_def)
  then have "isNeedXrayRestart (wb_panel v1)" using assms(4-6) by (auto simp: watch_down wrap64_def)
  with assms(7,9) obtain q u where q: "RestartXray False ?s = (q, t)"
    by (cases "RestartXray False ?s") (auto simp: restart_task_def andThen_run attempt_run IsNeedRestartAndSetFalse_def)
  have "\<not> kept_running False ?s c" for c using assms(8) by (auto simp: kept_running_def xray_down_def)
  with restart_cases [OF q] have "case q of Inl e \<Rightarrow> True | Inr _ \<Rightarrow>
      \<exists>p c. xray_p t = Some p \<and> runs_config c p \<and> fst (GetXrayConfig ?s) = Inr c"
    by (auto simp: restart_post_def split: sum.split)
  with q show ?thesis by blast
qed

section \<open>Witnesses\<close>

definition logged_web :: "panel \<Rightarrow> web" where
  "logged_web s = \<lparr>wb_panel = s, wb_sockets = [], wb_listener = None, wb_httpServer = False, wb_serving = False, wb_cron = False, wb_basePath = ''/'', wb_checkTime = 0,
     wb_sessions = [1 \<mapsto> \<lparr>u_Id = 1, u_Username = ''admin'', u_Password = ''admin''\<rparr>],
     wb_lastVersions = None, wb_lastStatus = None, wb_lastGetStatusTime = 0\<rparr>"

definition user_panel :: panel where
  "user_panel = panel_with (empty_database\<lparr>tbl_users := [\<lparr>u_Id = 1, u_Username = ''admin'', u_Password = ''admin''\<rparr>]\<rparr>)"

theorem nothing_without_login_witness:
  "handle_request 2 False Setting_restart (logged_web user_panel) = (Inr (Redirect ''/''), logged_web user_panel)"
  by (subst nothing_without_login) (simp_all add: logged_web_def)

theorem session_changed_witness:
  "\<exists>(w' :: web) u. wb_sessions w' = (wb_sessions (logged_web user_panel))(2 \<mapsto> u)
     \<and> logged_in (pdb user_panel) (\<lambda>_. Inr \<lparr>lf_Username = ''admin'', lf_Password = ''admin''\<rparr>) u"
proof -
  let ?bind = "\<lambda>_. Inr \<lparr>lf_Username = ''admin'', lf_Password = ''admin''\<rparr>"
  obtain r w' where run: "handle_request 2 True (Post_login ?bind) (logged_web user_panel) = (r, w')" by (metis surj_pair)
  have "wb_sessions (snd (handle_request 2 True (Post_login ?bind) (logged_web user_panel))) 2 \<noteq> None" by code_simp
  with run have "wb_sessions w' 2 \<noteq> None" by simp
  moreover have "wb_sessions (logged_web user_panel) 2 = None" by (simp add: logged_web_def)
  ultimately obtain u where "wb_sessions w' = (wb_sessions (logged_web user_panel))(2 \<mapsto> u)"
      "logged_in (pdb user_panel) ?bind u"
    using session_changed [OF run] by (auto simp: logged_web_def)
  then show ?thesis by blast
qed

definition missing_panel :: panel where
  "missing_panel = panel_with (empty_database\<lparr>tbl_settings :=
     [\<lparr>st_Id = 1, st_Key = ''webCertFile'', st_Value = ''c''\<rparr>, \<lparr>st_Id = 2, st_Key = ''webKeyFile'', st_Value = ''k''\<rparr>]\<rparr>)"

theorem https_fallback_witness:
  "\<exists>t. resolveHTTPSConfig missing_panel = (Inr ([], []), t)
     \<and> setting_value (tbl_settings (pdb t)) ''webCertStatus'' = Some ''missing''"
proof -
  obtain r t where run: "resolveHTTPSConfig missing_panel = (r, t)" by (metis surj_pair)
  have s: "faults missing_panel = []" "settings_ok (tbl_settings (pdb missing_panel))"
    "setting_text (tbl_settings (pdb missing_panel)) ''webCertFile'' = ''c''"
    "setting_text (tbl_settings (pdb missing_panel)) ''webKeyFile'' = ''k''" "files missing_panel ''c'' = None"
    by (simp_all add: missing_panel_def panel_with_def fresh_panel_def empty_database_def settings_ok_def ids_ok_def
        setting_text_def setting_value_def)
  have "map_of missing_fields ''webCertStatus'' = Some ''missing''" by (simp add: missing_fields_def)
  with https_fallback [OF s(1,2) run] s(3-5) run show ?thesis by (auto simp: Let_def)
qed

definition https_panel :: panel where
  "https_panel = missing_panel\<lparr>files := [''c'' \<mapsto> ''cc'', ''k'' \<mapsto> ''kk'']\<rparr>"

lemma https_panel_ok: "real_faults https_panel" "settings_ok (tbl_settings (pdb https_panel))"
  "configured_pair https_panel = Some (''c'', ''k'')"
  by (simp_all add: https_panel_def missing_panel_def panel_with_def fresh_panel_def empty_database_def settings_ok_def ids_ok_def
      real_faults_def configured_pair_def setting_text_def setting_value_def)

text \<open>The steps of a start that can fail, to the listener.\<close>

definition up_to_listener :: "(web, listener) act" where
  "up_to_listener =
     andThen (on_panel GetTimeLocation) (\<lambda>loc.
     andThen (modify (\<lambda>w. w\<lparr>wb_cron := True\<rparr>)) (\<lambda>_.
     andThen (on_panel initRouter) (\<lambda>basePath.
     andThen (modify (\<lambda>w. w\<lparr>wb_basePath := basePath, wb_lastVersions := None, wb_lastStatus := None,
       wb_lastGetStatusTime := clock_now (wb_panel w)\<rparr>)) (\<lambda>_. prepare_listener))))"

lemma start_succeeds:
  assumes "fst (up_to_listener w) = Inr l"
  shows "fst (Server_Start w) = Inr ()"
proof -
  obtain v where v: "up_to_listener w = (Inr l, v)" using assms by (cases "up_to_listener w") auto
  obtain v2 where v2: "startTask (v\<lparr>wb_listener := Some l\<rparr>) = (Inr (), v2)"
    using startTask_run by (cases "startTask (v\<lparr>wb_listener := Some l\<rparr>)") blast
  from v have "start_steps_web w = (Inr (), v2\<lparr>wb_httpServer := True\<rparr>)"
    unfolding start_steps_web_def up_to_listener_def andThen_Inr using v2 by (force simp: andThen_run)
  then show ?thesis by (simp add: Server_Start_def andThen_run attempt_run)
qed

theorem server_started_witness:
  "\<exists>w'. Server_Start (NewServer (logged_web https_panel)) = (Inr (), w') \<and> wb_sockets w' = ['':54321'']
     \<and> wb_listener w' = Some (Listener '':54321'' (Some (''c'', ''k'')))"
proof -
  let ?w = "logged_web https_panel"
  have ok: "real_faults (wb_panel ?w)" "settings_ok (tbl_settings (pdb (wb_panel ?w)))" "wb_panel ?w = https_panel" "wb_sockets ?w = []"
    using https_panel_ok by (simp_all add: logged_web_def)
  have "case fst (up_to_listener (NewServer ?w)) of Inr l \<Rightarrow> True | Inl e \<Rightarrow> False" by code_simp
  then have "fst (Server_Start (NewServer ?w)) = Inr ()"
    using start_succeeds [of "NewServer ?w"] by (cases "fst (up_to_listener (NewServer ?w))") auto
  then obtain w' where run: "Server_Start (NewServer ?w) = (Inr (), w')" by (cases "Server_Start (NewServer ?w)") auto
  from server_started [OF ok(1,2)] run ok(3,4) https_panel_ok(3) obtain listen port where st:
      "fst (getString ''webListen'' (unfailing https_panel)) = Inr listen" "fst (GetPort (unfailing https_panel)) = Inr port"
      "wb_sockets w' = [JoinHostPort listen (Itoa port)]" "wb_listener w' = Some (Listener (JoinHostPort listen (Itoa port)) (Some (''c'', ''k'')))"
    by auto
  have "fst (getString ''webListen'' (unfailing https_panel)) = Inr []" "fst (GetPort (unfailing https_panel)) = Inr 54321" by code_simp+
  with st(1,2) have "listen = []" "port = 54321" by simp_all
  moreover have "JoinHostPort [] (Itoa 54321) = '':54321''" by code_simp
  ultimately show ?thesis using run st(3,4) by simp
qed

text \<open>Xray is down, and then is restarted with the routing of one tunnel.\<close>

theorem watchdog_restarts_witness:
  "\<exists>r t p c. restart_task ((panel_with tunnel_db)\<lparr>isNeedXrayRestart := True\<rparr>) = (r, t)
     \<and> xray_p t = Some p \<and> runs_config c p"
proof -
  let ?w = "logged_web (panel_with tunnel_db)" and ?s = "(panel_with tunnel_db)\<lparr>isNeedXrayRestart := True\<rparr>"
  have down: "xray_down (wb_panel ?w)" "xray_down ?s" "wb_checkTime ?w = 0"
    by (simp_all add: xray_down_def logged_web_def panel_with_def fresh_panel_def)
  obtain r1 w1 where 1: "CheckXrayRunningJob_Run ?w = (r1, w1)" by (metis surj_pair)
  then have w1: "wb_panel w1 = wb_panel ?w" "wb_checkTime w1 = 1" using down by (auto simp: watch_down wrap64_def)
  obtain r2 v1 where 2: "CheckXrayRunningJob_Run w1 = (r2, v1)" by (metis surj_pair)
  then have "isNeedXrayRestart (wb_panel v1)" using down w1 by (auto simp: watch_down wrap64_def)
  then have flag: "isNeedXrayRestart ?s = isNeedXrayRestart (wb_panel v1)" by simp
  obtain r t where 3: "restart_task ?s = (r, t)" by (metis surj_pair)
  have up: "xray_down (wb_panel w1)" using down w1 by simp
  have same: "?s\<lparr>isNeedXrayRestart := False\<rparr> = panel_with tunnel_db"
    by (simp add: panel_with_def fresh_panel_def)
  have "fst (RestartXray False (panel_with tunnel_db)) = Inr ()" by code_simp
  moreover from watchdog_restarts [OF down(1,3) 1 up refl 2 flag down(2) 3, unfolded same] obtain q where
    "RestartXray False (panel_with tunnel_db) = (q, t)" "case q of Inl e \<Rightarrow> True | Inr _ \<Rightarrow> \<exists>p c. xray_p t = Some p
      \<and> runs_config c p \<and> fst (GetXrayConfig (panel_with tunnel_db)) = Inr c" by blast
  ultimately show ?thesis using 3 by auto
qed

end
