(* ===== verification/Xray_Net.thy ===== *)
theory Xray_Net
  imports Access_Line "HOL-Library.Word"
begin

text \<open>
  The network values of xray-core (src/xray-core/common/net): ports and port ranges
  (port.go), networks (network.go), addresses (address.go) and destinations
  (destination.go).  A \<open>Port\<close> is a 16-bit word and the \<open>uint32\<close> fields of the
  configuration messages are 32-bit words, so the conversion \<open>Port(x)\<close> of the code is
  \<open>ucast\<close>.  An \<open>Address\<close> is an IP address, as \<open>IPAddress\<close> normalises it, or a domain.
\<close>

section \<open>Ports\<close>

type_synonym port = "16 word"

definition PortFromBytes :: "8 word list \<Rightarrow> port" where
  "PortFromBytes bs = word_rcat (take 2 bs)"

definition PortFromInt :: "32 word \<Rightarrow> port res" where
  "PortFromInt v = (if 65535 < v then Inl (Err ''invalid port range'') else Inr (ucast v))"

text \<open>\<open>strconv.ParseUint(s, 10, 32)\<close>\<close>

definition ParseUint32 :: "string \<Rightarrow> 32 word res" where
  "ParseUint32 s = (if s = [] then Inl (Err ''syntax'') else case read_digits 0 s of
       None \<Rightarrow> Inl (Err ''syntax'')
     | Some n \<Rightarrow> if n < 2 ^ 32 then Inr (of_nat n) else Inl (Err ''range''))"

definition PortFromString :: "string \<Rightarrow> port res" where
  "PortFromString s = (case ParseUint32 s of
       Inl e \<Rightarrow> Inl (Err ''invalid port range'')
     | Inr v \<Rightarrow> PortFromInt v)"

definition port_String :: "port \<Rightarrow> string" where
  "port_String p = nat_str (unat p)"

text \<open>\<open>PortRange\<close> is the message of the configuration, \<open>MemoryPortRange\<close> what the matchers use.\<close>

record port_range =
  pr_From :: "32 word"
  pr_To :: "32 word"

record memory_port_range =
  mr_From :: port
  mr_To :: port

definition SinglePortRange :: "port \<Rightarrow> port_range" where
  "SinglePortRange p = \<lparr>pr_From = ucast p, pr_To = ucast p\<rparr>"

definition PortRange_Contains :: "port_range \<Rightarrow> port \<Rightarrow> bool" where
  "PortRange_Contains r p \<longleftrightarrow> ucast (pr_From r) \<le> p \<and> p \<le> ucast (pr_To r)"

definition MemoryPortRange_Contains :: "memory_port_range \<Rightarrow> port \<Rightarrow> bool" where
  "MemoryPortRange_Contains r p \<longleftrightarrow> mr_From r \<le> p \<and> p \<le> mr_To r"

definition PortListFromProto :: "port_range list \<Rightarrow> memory_port_range list" where
  "PortListFromProto l = map (\<lambda>r. \<lparr>mr_From = ucast (pr_From r), mr_To = ucast (pr_To r)\<rparr>) l"

definition MemoryPortList_Contains :: "memory_port_range list \<Rightarrow> port \<Rightarrow> bool" where
  "MemoryPortList_Contains l p \<longleftrightarrow> list_ex (\<lambda>r. MemoryPortRange_Contains r p) l"

lemma port_list_contains:
  "MemoryPortList_Contains (PortListFromProto l) p \<longleftrightarrow> (\<exists>r \<in> set l. PortRange_Contains r p)"
  by (auto simp: MemoryPortList_Contains_def PortListFromProto_def MemoryPortRange_Contains_def
      PortRange_Contains_def list_ex_iff)

lemma unat_port: "unat (p :: port) < 65536"
  using unsigned_less [of p, where 'a = nat] by simp

lemma ucast_port [simp]: "unat (ucast (p :: port) :: 32 word) = unat p" "ucast (ucast p :: 32 word) = p"
proof -
  show u: "unat (ucast p :: 32 word) = unat p"
    using unat_port [of p] by (simp add: unsigned_ucast_eq take_bit_nat_eq_self)
  show "ucast (ucast p :: 32 word) = p" by transfer simp
qed

lemma PortFromInt_bound: "PortFromInt v = Inr p \<Longrightarrow> ucast p = v \<and> unat p = unat v"
proof -
  assume "PortFromInt v = Inr p"
  then have le: "unat v < 65536" and p: "p = ucast v"
    by (auto simp: PortFromInt_def word_less_nat_alt split: if_splits)
  have "unat p = unat v"
    using le by (simp add: p unsigned_ucast_eq take_bit_nat_eq_self)
  then show ?thesis using ucast_port(1) [of p] by (simp add: word_unat_eq_iff)
qed

lemma PortFromString_port_String [go_str]: "PortFromString (port_String p) = Inr p"
proof -
  have b: "unat p < 65536" by (rule unat_port)
  have c: "(word_of_nat (unat p) :: 32 word) = ucast p"
    using b by (simp add: word_unat_eq_iff unsigned_of_nat take_bit_nat_eq_self)
  have "\<not> 65535 < (ucast p :: 32 word)" using b by (simp add: word_less_nat_alt)
  with b c show ?thesis
    by (simp add: PortFromString_def ParseUint32_def port_String_def read_digits_nat_str PortFromInt_def)
qed

section \<open>Networks\<close>

text \<open>The values of the protocol enumeration are 0, 2, 3 and 4.\<close>

datatype network = Network_Unknown | Network_TCP | Network_UDP | Network_UNIX

definition SystemString :: "network \<Rightarrow> string" where
  "SystemString n = (case n of Network_TCP \<Rightarrow> ''tcp'' | Network_UDP \<Rightarrow> ''udp''
     | Network_UNIX \<Rightarrow> ''unix'' | Network_Unknown \<Rightarrow> ''unknown'')"

definition HasNetwork :: "network list \<Rightarrow> network \<Rightarrow> bool" where
  "HasNetwork l n \<longleftrightarrow> List.member l n"

section \<open>Addresses\<close>

datatype address = IPAddr ip | DomainAddr string

definition isAlphaNum :: "char \<Rightarrow> bool" where
  "isAlphaNum c \<longleftrightarrow> (48 \<le> byte c \<and> byte c \<le> 57) \<or> (97 \<le> byte c \<and> byte c \<le> 122) \<or> (65 \<le> byte c \<and> byte c \<le> 90)"

definition ParseAddress :: "string \<Rightarrow> address" where
  "ParseAddress addr0 =
     (let addr1 = (if addr0 \<noteq> [] \<and> hd addr0 = CHR ''['' \<and> last addr0 = CHR '']''
                   then butlast (tl addr0) else addr0);
          addr = (if addr1 \<noteq> [] \<and> (\<not> isAlphaNum (hd addr1) \<or> \<not> isAlphaNum (last addr1))
                  then TrimSpace addr1 else addr1)
      in case ParseIP addr of Some i \<Rightarrow> IPAddr i | None \<Rightarrow> DomainAddr addr)"

text \<open>
  \<open>IPAddress\<close> on a byte slice: four bytes, or sixteen whose IPv4-mapped form becomes
  IPv4; any other length is logged and gives \<open>nil\<close>.
\<close>

fun groups_of :: "nat list \<Rightarrow> nat list" where
  "groups_of (a # b # bs) = (256 * a + b) # groups_of bs"
| "groups_of bs = []"

definition IPAddress :: "8 word list \<Rightarrow> address option" where
  "IPAddress bs =
     (if length bs = 4 then Some (IPAddr (V4 (map unat bs)))
      else if length bs = 16 then Some (IPAddr (mk_ip (groups_of (map unat bs))))
      else None)"

definition ip_bytes :: "ip \<Rightarrow> 8 word list" where
  "ip_bytes i = (case i of
       V4 bs \<Rightarrow> map word_of_nat bs
     | V6 gs \<Rightarrow> concat (map (\<lambda>g. [word_of_nat (g div 256), word_of_nat (g mod 256)]) gs))"

definition address_String :: "address \<Rightarrow> string" where
  "address_String a = (case a of
       IPAddr (V4 bs) \<Rightarrow> ip_String (V4 bs)
     | IPAddr (V6 gs) \<Rightarrow> ''['' @ ip_String (V6 gs) @ '']''
     | DomainAddr d \<Rightarrow> d)"

definition Family_IsIP :: "address \<Rightarrow> bool" where
  "Family_IsIP a = (case a of IPAddr i \<Rightarrow> True | DomainAddr d \<Rightarrow> False)"

section \<open>Destinations\<close>

record destination =
  d_Network :: network
  d_Address :: address
  d_Port :: port

definition AnyIP :: address where
  "AnyIP = IPAddr (V4 [0, 0, 0, 0])"

definition TCPDestination :: "address \<Rightarrow> port \<Rightarrow> destination" where
  "TCPDestination a p = \<lparr>d_Network = Network_TCP, d_Address = a, d_Port = p\<rparr>"

definition UDPDestination :: "address \<Rightarrow> port \<Rightarrow> destination" where
  "UDPDestination a p = \<lparr>d_Network = Network_UDP, d_Address = a, d_Port = p\<rparr>"

definition UnixDestination :: "address \<Rightarrow> destination" where
  "UnixDestination a = \<lparr>d_Network = Network_UNIX, d_Address = a, d_Port = 0\<rparr>"

definition ParseDestination :: "string \<Rightarrow> destination res" where
  "ParseDestination dest =
     (if HasPrefix dest ''unix:'' then Inr (UnixDestination (DomainAddr (drop 5 dest)))
      else let n = (if HasPrefix dest ''tcp:'' then Network_TCP
                    else if HasPrefix dest ''udp:'' then Network_UDP else Network_Unknown);
               rest = (if n = Network_Unknown then dest else drop 4 dest)
        in case SplitHostPort rest of
            None \<Rightarrow> Inl (Err ''address'')
          | Some (hstr, pstr) \<Rightarrow>
              (let a = (if hstr \<noteq> [] then ParseAddress hstr else AnyIP) in
               if pstr = [] then Inr \<lparr>d_Network = n, d_Address = a, d_Port = 0\<rparr>
               else map_sum id (\<lambda>p. \<lparr>d_Network = n, d_Address = a, d_Port = p\<rparr>) (PortFromString pstr)))"

definition NetAddr :: "destination \<Rightarrow> string" where
  "NetAddr d = (case d_Network d of
       Network_TCP \<Rightarrow> address_String (d_Address d) @ '':'' @ port_String (d_Port d)
     | Network_UDP \<Rightarrow> address_String (d_Address d) @ '':'' @ port_String (d_Port d)
     | Network_UNIX \<Rightarrow> address_String (d_Address d)
     | Network_Unknown \<Rightarrow> [])"

definition destination_String :: "destination \<Rightarrow> string" where
  "destination_String d = (case d_Network d of
       Network_TCP \<Rightarrow> ''tcp:'' | Network_UDP \<Rightarrow> ''udp:'' | Network_UNIX \<Rightarrow> ''unix:''
     | Network_Unknown \<Rightarrow> ''unknown:'') @ NetAddr d"

definition IsValid :: "destination \<Rightarrow> bool" where
  "IsValid d \<longleftrightarrow> d_Network d \<noteq> Network_Unknown"

end
