(* ===== verification/Xray_IP_Set.thy ===== *)
theory Xray_IP_Set
  imports Xray_Net
begin

text \<open>
  The sets of IP prefixes behind xray's IP rules (src/xray-core/common/geodata/ip_matcher.go,
  \<open>IPSetFactory\<close> and \<open>HeuristicIPMatcher\<close>).  A \<open>net.IP\<close> is any byte slice; a
  \<open>netip.Addr\<close> is its four or sixteen bytes.  The package netipx, which holds the sets, is not part
  of the repository: it is the parameter \<open>netipx\<close>, and \<open>netipx_ok\<close> states what
  its documentation promises.
\<close>

section \<open>Addresses and prefixes\<close>

type_synonym net_ip = "8 word list"
type_synonym addr = "8 word list"

definition Is4 :: "addr \<Rightarrow> bool" where
  "Is4 a \<longleftrightarrow> length a = 4"

definition Is6 :: "addr \<Rightarrow> bool" where
  "Is6 a \<longleftrightarrow> length a = 16"

definition v4_in_v6 :: "8 word list" where
  "v4_in_v6 = replicate 10 0 @ [255, 255]"

definition To4 :: "net_ip \<Rightarrow> net_ip option" where
  "To4 ip = (if length ip = 4 then Some ip
     else if length ip = 16 \<and> take 12 ip = v4_in_v6 then Some (drop 12 ip) else None)"

definition To16 :: "net_ip \<Rightarrow> net_ip option" where
  "To16 ip = (if length ip = 4 then Some (v4_in_v6 @ ip)
     else if length ip = 16 then Some ip else None)"

record prefix =
  px_Addr :: addr
  px_Bits :: nat

definition addr_bits :: "addr \<Rightarrow> bool list" where
  "addr_bits a = concat (map (\<lambda>b. map (bit b) [7, 6, 5, 4, 3, 2, 1, 0]) a)"

definition prefix_valid :: "prefix \<Rightarrow> bool" where
  "prefix_valid p \<longleftrightarrow> (Is4 (px_Addr p) \<or> Is6 (px_Addr p)) \<and> px_Bits p \<le> 8 * length (px_Addr p)"

definition prefix_Contains :: "prefix \<Rightarrow> addr \<Rightarrow> bool" where
  "prefix_Contains p a \<longleftrightarrow> length a = length (px_Addr p)
     \<and> take (px_Bits p) (addr_bits a) = take (px_Bits p) (addr_bits (px_Addr p))"

section \<open>The package netipx\<close>

text \<open>\<open>FromStdIP\<close>, the set built from added prefixes, \<open>IPSet.Contains\<close> and \<open>IPSet.Prefixes\<close>.\<close>

record 's netipx =
  nx_FromStdIP :: "net_ip \<Rightarrow> addr option"
  nx_IPSet :: "prefix list \<Rightarrow> 's"
  nx_Contains :: "'s \<Rightarrow> addr \<Rightarrow> bool"
  nx_Prefixes :: "'s \<Rightarrow> prefix list"

text \<open>
  What its documentation says: \<open>FromStdIP\<close> reads a slice of four or sixteen bytes and
  unmaps an IPv4-mapped address, a set has the addresses of the prefixes added to it, and
  \<open>Prefixes\<close> lists valid prefixes that cover exactly the set.
\<close>

definition netipx_ok :: "'s netipx \<Rightarrow> bool" where
  "netipx_ok nx \<longleftrightarrow>
     (\<forall>ip. nx_FromStdIP nx ip = (case To4 ip of Some a \<Rightarrow> Some a | None \<Rightarrow> To16 ip))
     \<and> (\<forall>ps a. list_all prefix_valid ps \<longrightarrow>
           nx_Contains nx (nx_IPSet nx ps) a = list_ex (\<lambda>p. prefix_Contains p a) ps)
     \<and> (\<forall>ps a. list_all prefix_valid ps \<longrightarrow>
           list_ex (\<lambda>p. prefix_Contains p a) (nx_Prefixes nx (nx_IPSet nx ps))
             = list_ex (\<lambda>p. prefix_Contains p a) ps)
     \<and> (\<forall>ps. list_all prefix_valid ps \<longrightarrow> list_all prefix_valid (nx_Prefixes nx (nx_IPSet nx ps)))"

section \<open>IPSetFactory\<close>

record 's ipset =
  is_ipv4 :: 's
  is_ipv6 :: 's
  is_max4 :: nat
  is_max6 :: nat

record cidr =
  cd_Ip :: "8 word list"
  cd_Prefix :: "32 word"

text \<open>A CIDR whose address or length is invalid is logged and ignored.\<close>

definition cidr_prefix :: "cidr \<Rightarrow> prefix option" where
  "cidr_prefix c = (let p = \<lparr>px_Addr = cd_Ip c, px_Bits = unat (cd_Prefix c)\<rparr> in
     if prefix_valid p then Some p else None)"

text \<open>The greatest length of a prefix, 0xff for an empty set, 0xfe where only the length 0 occurs.\<close>

definition max_bits :: "prefix list \<Rightarrow> nat" where
  "max_bits ps = (if ps = [] then 255
     else let m = fold (\<lambda>p m. if m < px_Bits p then px_Bits p else m) ps 0 in
       if m = 0 then 254 else m)"

definition CreateFromCIDRs :: "'s netipx \<Rightarrow> cidr list \<Rightarrow> 's ipset" where
  "CreateFromCIDRs nx cs =
     (let ps = List.map_filter cidr_prefix cs;
          s4 = nx_IPSet nx (filter (Is4 \<circ> px_Addr) ps);
          s6 = nx_IPSet nx (filter (Is6 \<circ> px_Addr) ps)
      in \<lparr>is_ipv4 = s4, is_ipv6 = s6, is_max4 = max_bits (nx_Prefixes nx s4),
          is_max6 = max_bits (nx_Prefixes nx s6)\<rparr>)"

section \<open>HeuristicIPMatcher\<close>

record 's heur =
  h_ipset :: "'s ipset"
  h_reverse :: bool

definition matchAddr :: "'s netipx \<Rightarrow> 's heur \<Rightarrow> addr \<Rightarrow> bool" where
  "matchAddr nx m a =
     (if Is4 a then (if is_max4 (h_ipset m) = 255 then False
                     else nx_Contains nx (is_ipv4 (h_ipset m)) a \<noteq> h_reverse m)
      else if Is6 a then (if is_max6 (h_ipset m) = 255 then False
                     else nx_Contains nx (is_ipv6 (h_ipset m)) a \<noteq> h_reverse m)
      else False)"

definition heur_Match :: "'s netipx \<Rightarrow> 's heur \<Rightarrow> net_ip \<Rightarrow> bool" where
  "heur_Match nx m ip = (case nx_FromStdIP nx ip of None \<Rightarrow> False | Some a \<Rightarrow> matchAddr nx m a)"

text \<open>The key of a bucket: the family and the first three, or eight, bytes.\<close>

type_synonym ip_key = "8 word list"

definition prefixKeyFromIP :: "net_ip \<Rightarrow> ip_key option" where
  "prefixKeyFromIP ip = (case To4 ip of
       Some a \<Rightarrow> Some (4 # take 3 a @ replicate 5 0)
     | None \<Rightarrow> map_option (\<lambda>a. 6 # take 8 a) (To16 ip))"

definition heur4 :: "'s heur \<Rightarrow> bool" where
  "heur4 m \<longleftrightarrow> is_max4 (h_ipset m) \<le> 24"

definition heur6 :: "'s heur \<Rightarrow> bool" where
  "heur6 m \<longleftrightarrow> is_max6 (h_ipset m) \<le> 64"

text \<open>Whether the addresses of a bucket are decided together.\<close>

definition key_heur :: "'s heur \<Rightarrow> ip_key \<Rightarrow> bool" where
  "key_heur m key \<longleftrightarrow> (hd key = 4 \<and> heur4 m) \<or> (hd key = 6 \<and> heur6 m)"

fun any_precise :: "'s netipx \<Rightarrow> 's heur \<Rightarrow> net_ip list \<Rightarrow> bool" where
  "any_precise nx m [] = False"
| "any_precise nx m (ip # ips) = (case nx_FromStdIP nx ip of
       None \<Rightarrow> any_precise nx m ips
     | Some a \<Rightarrow> if matchAddr nx m a then True else any_precise nx m ips)"

fun any_buckets :: "'s netipx \<Rightarrow> 's heur \<Rightarrow> ip_key list \<Rightarrow> net_ip list \<Rightarrow> bool" where
  "any_buckets nx m buckets [] = False"
| "any_buckets nx m buckets (ip # ips) = (case prefixKeyFromIP ip of
       None \<Rightarrow> any_buckets nx m buckets ips
     | Some key \<Rightarrow>
         if key_heur m key \<and> key \<in> set buckets then any_buckets nx m buckets ips
         else (case nx_FromStdIP nx ip of
             None \<Rightarrow> any_buckets nx m buckets ips
           | Some a \<Rightarrow> if matchAddr nx m a then True
               else any_buckets nx m (if key_heur m key then key # buckets else buckets) ips))"

definition heur_AnyMatch :: "'s netipx \<Rightarrow> 's heur \<Rightarrow> net_ip list \<Rightarrow> bool" where
  "heur_AnyMatch nx m ips =
     (if ips = [] then False
      else if length ips = 1 then heur_Match nx m (hd ips)
      else if \<not> heur4 m \<and> \<not> heur6 m then any_precise nx m ips
      else any_buckets nx m [] ips)"

fun all_precise :: "'s netipx \<Rightarrow> 's heur \<Rightarrow> net_ip list \<Rightarrow> bool" where
  "all_precise nx m [] = True"
| "all_precise nx m (ip # ips) = (case nx_FromStdIP nx ip of
       None \<Rightarrow> False
     | Some a \<Rightarrow> if \<not> matchAddr nx m a then False else all_precise nx m ips)"

text \<open>The first loop of \<open>Matches\<close>: one address for each bucket, and the addresses decided alone.\<close>

fun split_buckets ::
  "'s netipx \<Rightarrow> 's heur \<Rightarrow> (ip_key \<times> addr) list \<Rightarrow> addr list \<Rightarrow> net_ip list \<Rightarrow> ((ip_key \<times> addr) list \<times> addr list) option"
where
  "split_buckets nx m bs ps [] = Some (bs, ps)"
| "split_buckets nx m bs ps (ip # ips) = (case prefixKeyFromIP ip of
       None \<Rightarrow> None
     | Some key \<Rightarrow>
         if key_heur m key \<and> key \<in> set (map fst bs) then split_buckets nx m bs ps ips
         else (case nx_FromStdIP nx ip of
             None \<Rightarrow> None
           | Some a \<Rightarrow> if key_heur m key then split_buckets nx m (bs @ [(key, a)]) ps ips
               else split_buckets nx m bs (ps @ [a]) ips))"

definition heur_Matches :: "'s netipx \<Rightarrow> 's heur \<Rightarrow> net_ip list \<Rightarrow> bool" where
  "heur_Matches nx m ips =
     (if ips = [] then False
      else if length ips = 1 then heur_Match nx m (hd ips)
      else if \<not> heur4 m \<and> \<not> heur6 m then all_precise nx m ips
      else (case split_buckets nx m [] [] ips of
          None \<Rightarrow> False
        | Some (bs, ps) \<Rightarrow> list_all (\<lambda>(key, a). matchAddr nx m a) bs \<and> list_all (matchAddr nx m) ps))"

text \<open>\<open>FilterIPs\<close>; the map of buckets is walked in some order, here the order of insertion.\<close>

record bucket =
  b_rep :: addr
  b_ips :: "net_ip list"

fun add_to_bucket :: "ip_key \<Rightarrow> net_ip \<Rightarrow> (ip_key \<times> bucket) list \<Rightarrow> (ip_key \<times> bucket) list" where
  "add_to_bucket key ip [] = []"
| "add_to_bucket key ip ((k, b) # bs) =
     (if k = key then (k, b\<lparr>b_ips := b_ips b @ [ip]\<rparr>) # bs else (k, b) # add_to_bucket key ip bs)"

fun fill_buckets ::
  "'s netipx \<Rightarrow> 's heur \<Rightarrow> (ip_key \<times> bucket) list \<Rightarrow> net_ip list \<Rightarrow> net_ip list \<Rightarrow> (ip_key \<times> bucket) list \<times> net_ip list"
where
  "fill_buckets nx m bs ps [] = (bs, ps)"
| "fill_buckets nx m bs ps (ip # ips) = (case prefixKeyFromIP ip of
       None \<Rightarrow> fill_buckets nx m bs ps ips
     | Some key \<Rightarrow>
         if \<not> key_heur m key then fill_buckets nx m bs (ps @ [ip]) ips
         else if key \<in> set (map fst bs) then fill_buckets nx m (add_to_bucket key ip bs) ps ips
         else (case nx_FromStdIP nx ip of
             None \<Rightarrow> fill_buckets nx m bs ps ips
           | Some a \<Rightarrow> fill_buckets nx m (bs @ [(key, \<lparr>b_rep = a, b_ips = [ip]\<rparr>)]) ps ips))"

fun filter_precise :: "'s netipx \<Rightarrow> 's heur \<Rightarrow> net_ip list \<Rightarrow> net_ip list \<times> net_ip list" where
  "filter_precise nx m [] = ([], [])"
| "filter_precise nx m (ip # ips) = (case filter_precise nx m ips of (yes, no) \<Rightarrow>
     (case nx_FromStdIP nx ip of
         None \<Rightarrow> (yes, no)
       | Some a \<Rightarrow> if matchAddr nx m a then (ip # yes, no) else (yes, ip # no)))"

definition heur_FilterIPs :: "'s netipx \<Rightarrow> 's heur \<Rightarrow> net_ip list \<Rightarrow> net_ip list \<times> net_ip list" where
  "heur_FilterIPs nx m ips =
     (if ips = [] then ([], [])
      else if length ips = 1 then (case nx_FromStdIP nx (hd ips) of
          None \<Rightarrow> ([], [])
        | Some a \<Rightarrow> if matchAddr nx m a then (ips, []) else ([], ips))
      else if \<not> heur4 m \<and> \<not> heur6 m then filter_precise nx m ips
      else (case fill_buckets nx m [] [] ips of (bs, ps) \<Rightarrow>
        (case filter_precise nx m ps of (yes, no) \<Rightarrow>
          (concat (map (\<lambda>(key, b). if matchAddr nx m (b_rep b) then b_ips b else []) bs) @ yes,
           concat (map (\<lambda>(key, b). if matchAddr nx m (b_rep b) then [] else b_ips b) bs) @ no))))"

end
