(* ===== verification/Xray_Geodata.thy ===== *)
theory Xray_Geodata
  imports Xray_IP_Set
begin

text \<open>
  The rule texts and the data files behind xray's IP and domain rules
  (src/xray-core/common/geodata/rule_parser.go, geodat_loader.go).  The content of an asset and
  \<open>proto.Unmarshal\<close> are parameters, collected in \<open>geo_env\<close>; the search for an entry in the
  bytes of a file is the code's.
\<close>

section \<open>Strings\<close>

text \<open>\<open>strings.Cut\<close> at a byte, and \<open>strings.ToUpper\<close> on the ASCII letters.\<close>

definition Cut :: "string \<Rightarrow> char \<Rightarrow> string \<times> string \<times> bool" where
  "Cut s c = (let w = takeWhile (\<lambda>x. x \<noteq> c) s; r = drop (length w) s in (w, tl r, r \<noteq> []))"

definition ToUpper :: "string \<Rightarrow> string" where
  "ToUpper s = map (\<lambda>c. if 97 \<le> byte c \<and> byte c \<le> 122 then char_of (byte c - 32) else c) s"

section \<open>The entries of a data file\<close>

text \<open>
  \<open>decodeVarint\<close>: the value and the rest.  A shift of 63 keeps only the lowest bit of the byte;
  ten bytes that all continue are an overflow.
\<close>

fun varint_from :: "nat \<Rightarrow> nat \<Rightarrow> 64 word \<Rightarrow> 8 word list \<Rightarrow> (64 word \<times> 8 word list) res" where
  "varint_from 0 shift x bs = Inl (Err ''varint overflow'')"
| "varint_from (Suc k) shift x [] = Inl (ExtErr ''EOF'')"
| "varint_from (Suc k) shift x (b # bs) =
     (let y = or x (push_bit shift (ucast (and b 127))) in
      if and b 128 = 0 then Inr (y, bs) else varint_from k (shift + 7) y bs)"

definition decodeVarint :: "8 word list \<Rightarrow> (64 word \<times> 8 word list) res" where
  "decodeVarint bs = varint_from 10 0 0 bs"

lemma varint_from_code [code]:
  "varint_from k shift x bs = (if k = 0 then Inl (Err ''varint overflow'') else case bs of
       [] \<Rightarrow> Inl (ExtErr ''EOF'')
     | b # r \<Rightarrow> let y = or x (push_bit shift (ucast (and b 127))) in
         if and b 128 = 0 then Inr (y, r) else varint_from (k - 1) (shift + 7) y r)"
  by (cases k; cases bs) (simp_all add: Let_def)

lemma varint_from_shorter: "varint_from k sh x bs = Inr (y, r) \<Longrightarrow> length r < length bs"
  by (induction k sh x bs rule: varint_from.induct) (auto simp: Let_def split: if_splits)

text \<open>
  \<open>find\<close>: the body of the first entry whose second byte is the length of the code and whose
  next bytes are the code.  \<open>int(x)\<close> makes a length of 63 bits and more negative.
\<close>

function find_entry :: "8 word list \<Rightarrow> 8 word list \<Rightarrow> 8 word list res" where
  "find_entry code bs = (case bs of
       [] \<Rightarrow> Inl (ExtErr ''EOF'')
     | b # r \<Rightarrow> (case decodeVarint r of
         Inl e \<Rightarrow> Inl e
       | Inr (x, r') \<Rightarrow>
           let bodyL = sint x in
           if bodyL \<le> 0 then Inl (Err ''invalid body length'')
           else let n = nat bodyL; body = take n r'; need = 2 + length code in
             if length r' < min n need then Inl (ExtErr ''EOF'')
             else if need \<le> n \<and> unat (body ! 1) = length code \<and> take (length code) (drop 2 body) = code
             then (if length r' < n then Inl (ExtErr ''EOF'') else Inr body)
             else if length r' < n then Inl (ExtErr ''EOF'')
             else find_entry code (drop n r')))"
  by pat_completeness auto
termination
  by (relation "measure (\<lambda>(code, bs). length bs)")
    (auto simp: decodeVarint_def dest!: varint_from_shorter)

declare find_entry.simps [simp del]

text \<open>
  With \<open>readBody = false\<close> the search ends at the header of the entry and does not read the rest
  of the body.
\<close>

function check_entry :: "8 word list \<Rightarrow> 8 word list \<Rightarrow> unit res" where
  "check_entry code bs = (case bs of
       [] \<Rightarrow> Inl (ExtErr ''EOF'')
     | b # r \<Rightarrow> (case decodeVarint r of
         Inl e \<Rightarrow> Inl e
       | Inr (x, r') \<Rightarrow>
           let bodyL = sint x in
           if bodyL \<le> 0 then Inl (Err ''invalid body length'')
           else let n = nat bodyL; body = take n r'; need = 2 + length code in
             if length r' < min n need then Inl (ExtErr ''EOF'')
             else if need \<le> n \<and> unat (body ! 1) = length code \<and> take (length code) (drop 2 body) = code
             then Inr ()
             else if length r' < n then Inl (ExtErr ''EOF'')
             else check_entry code (drop n r')))"
  by pat_completeness auto
termination
  by (relation "measure (\<lambda>(code, bs). length bs)")
    (auto simp: decodeVarint_def dest!: varint_from_shorter)

declare check_entry.simps [simp del]

definition string_bytes :: "string \<Rightarrow> 8 word list" where
  "string_bytes s = map (\<lambda>c. word_of_nat (byte c)) s"

definition find_code :: "string \<Rightarrow> 8 word list \<Rightarrow> 8 word list res" where
  "find_code code bs = (if code = [] then Inl (Err ''empty code'') else find_entry (string_bytes code) bs)"

definition find_header :: "string \<Rightarrow> 8 word list \<Rightarrow> unit res" where
  "find_header code bs = (if code = [] then Inl (Err ''empty code'') else check_entry (string_bytes code) bs)"

section \<open>Loading\<close>

text \<open>The messages \<open>Domain\<close> and its attributes of the geosite files.\<close>

datatype domain_type = Domain_Substr | Domain_Regex | Domain_Domain | Domain_Full

record domain =
  do_Type :: domain_type
  do_Value :: string
  do_Attribute :: "string list"

record geo_env =
  ge_asset :: "string \<Rightarrow> 8 word list res"
  ge_GeoIP :: "8 word list \<Rightarrow> cidr list res"
  ge_GeoSite :: "8 word list \<Rightarrow> domain list res"

definition checkFile :: "geo_env \<Rightarrow> string \<Rightarrow> string \<Rightarrow> unit res" where
  "checkFile env file code = bind_res (ge_asset env file) (find_header code)"

definition loadFile :: "geo_env \<Rightarrow> string \<Rightarrow> string \<Rightarrow> 8 word list res" where
  "loadFile env file code = bind_res (ge_asset env file) (find_code code)"

definition loadIP :: "geo_env \<Rightarrow> string \<Rightarrow> string \<Rightarrow> cidr list res" where
  "loadIP env file code = bind_res (loadFile env file code) (ge_GeoIP env)"

definition loadSite :: "geo_env \<Rightarrow> string \<Rightarrow> string \<Rightarrow> domain list res" where
  "loadSite env file code = bind_res (loadFile env file code) (ge_GeoSite env)"

definition HasAttr :: "string \<Rightarrow> domain \<Rightarrow> bool" where
  "HasAttr a d \<longleftrightarrow> List.member (do_Attribute d) a"

definition AllAttrs :: "string \<Rightarrow> domain \<Rightarrow> bool" where
  "AllAttrs attrs d \<longleftrightarrow> list_all (\<lambda>a. HasAttr a d) (Split attrs (CHR ''@''))"

definition loadSiteWithAttrs :: "geo_env \<Rightarrow> string \<Rightarrow> string \<Rightarrow> string \<Rightarrow> domain list res" where
  "loadSiteWithAttrs env file code attrs =
     bind_res (loadSite env file code) (\<lambda>ds. Inr (if attrs = [] then ds else filter (AllAttrs attrs) ds))"

section \<open>Rule texts\<close>

record geoip_rule =
  gi_File :: string
  gi_Code :: string
  gi_Reverse :: bool

datatype ip_rule = Ip_Geoip geoip_rule | Ip_Custom cidr bool

record geosite_rule =
  gs_File :: string
  gs_Code :: string
  gs_Attrs :: string

datatype domain_rule = Dom_Geosite geosite_rule | Dom_Custom domain

fun cutReversePrefix :: "string \<Rightarrow> string \<times> bool" where
  "cutReversePrefix [] = ([], False)"
| "cutReversePrefix (c # s) = (if c = CHR 0x21 then map_prod id Not (cutReversePrefix s) else (c # s, False))"

definition parseGeoIPRule :: "geo_env \<Rightarrow> string \<Rightarrow> bool \<Rightarrow> ip_rule res" where
  "parseGeoIPRule env rule reverse = (case Cut rule (CHR '':'') of (file, code0, ok) \<Rightarrow>
     if \<not> ok then Inl (Err ''syntax error'')
     else if file = [] then Inl (Err ''empty file'')
     else (case cutReversePrefix code0 of (code1, codeReverse) \<Rightarrow>
       if code1 = [] then Inl (Err ''empty code'')
       else let code = ToUpper code1 in
         bind_res (checkFile env file code) (\<lambda>_.
           Inr (Ip_Geoip \<lparr>gi_File = file, gi_Code = code, gi_Reverse = (reverse \<noteq> codeReverse)\<rparr>))))"

definition parseCIDR :: "string \<Rightarrow> cidr res" where
  "parseCIDR s = (case Cut s (CHR ''/'') of (ipStr, prefixStr, _) \<Rightarrow>
     (case ParseAddress ipStr of
        DomainAddr d \<Rightarrow> Inl (Err ''unsupported address family'')
      | IPAddr i \<Rightarrow>
          let maxPrefix = (case i of V4 _ \<Rightarrow> 32 | V6 _ \<Rightarrow> 128) :: 32 word in
          bind_res (if prefixStr = [] then Inr maxPrefix else ParseUint32 prefixStr) (\<lambda>n.
            if maxPrefix < n then Inl (Err ''CIDR prefix length exceeds max'')
            else Inr \<lparr>cd_Ip = ip_bytes i, cd_Prefix = n\<rparr>)))"

definition parseCustomIPRule :: "string \<Rightarrow> bool \<Rightarrow> ip_rule res" where
  "parseCustomIPRule rule reverse = bind_res (parseCIDR rule) (\<lambda>c. Inr (Ip_Custom c reverse))"

definition replace_prefix :: "string \<Rightarrow> string \<Rightarrow> string \<Rightarrow> string" where
  "replace_prefix old new r = (if HasPrefix r old then new @ drop (length old) r else r)"

definition ext_prefix :: "string \<Rightarrow> string \<Rightarrow> nat" where
  "ext_prefix second r = (if HasPrefix r ''ext:'' then 4 else if HasPrefix r second then length second else 0)"

definition ParseIPRule :: "geo_env \<Rightarrow> string \<Rightarrow> ip_rule res" where
  "ParseIPRule env rule = (case cutReversePrefix rule of (r0, reverse) \<Rightarrow>
     let r = replace_prefix ''geoip:'' ''ext:geoip.dat:'' r0; n = ext_prefix ''ext-ip:'' r in
     case (if 0 < n then parseGeoIPRule env (drop n r) reverse else parseCustomIPRule r reverse) of
       Inl e \<Rightarrow> Inl (ErrArg ''illegal ip rule'' rule)
     | Inr x \<Rightarrow> Inr x)"

definition ParseIPRules :: "geo_env \<Rightarrow> string list \<Rightarrow> ip_rule list res" where
  "ParseIPRules env rules = map_res (ParseIPRule env) rules"

definition parseGeoSiteRule :: "geo_env \<Rightarrow> string \<Rightarrow> domain_rule res" where
  "parseGeoSiteRule env rule = (case Cut rule (CHR '':'') of (file, codeWithAttrs, ok) \<Rightarrow>
     if \<not> ok then Inl (Err ''syntax error'')
     else if file = [] then Inl (Err ''empty file'')
     else if HasSuffix codeWithAttrs ''@'' \<or> Contains codeWithAttrs ''@@'' then Inl (Err ''empty attr'')
     else (case Cut codeWithAttrs (CHR ''@'') of (code0, attrs, _) \<Rightarrow>
       if code0 = [] then Inl (Err ''empty code'')
       else let code = ToUpper code0 in
         bind_res (checkFile env file code) (\<lambda>_.
           Inr (Dom_Geosite \<lparr>gs_File = file, gs_Code = code, gs_Attrs = ToLower attrs\<rparr>))))"

definition parseCustomDomainRule :: "string \<Rightarrow> domain_type \<Rightarrow> domain_rule res" where
  "parseCustomDomainRule rule defaultType =
     (let mk = (\<lambda>t v. Inr (Dom_Custom \<lparr>do_Type = t, do_Value = v, do_Attribute = []\<rparr>)) in
      if HasPrefix rule ''regexp:'' then mk Domain_Regex (drop 7 rule)
      else if HasPrefix rule ''domain:'' then mk Domain_Domain (drop 7 rule)
      else if HasPrefix rule ''full:'' then mk Domain_Full (drop 5 rule)
      else if HasPrefix rule ''keyword:'' then mk Domain_Substr (drop 8 rule)
      else if HasPrefix rule ''dotless:'' then
        (let substr = drop 8 rule in
         if substr = [] then mk Domain_Regex ''^[^.]*$''
         else if \<not> Contains substr ''.'' then mk Domain_Regex (''^[^.]*'' @ substr @ ''[^.]*$'')
         else Inl (Err ''substr in dotless rule should not contain a dot''))
      else mk defaultType rule)"

definition ParseDomainRule :: "geo_env \<Rightarrow> domain_type \<Rightarrow> string \<Rightarrow> domain_rule res" where
  "ParseDomainRule env defaultType rule =
     (let r = replace_prefix ''geosite:'' ''ext:geosite.dat:'' rule; n = ext_prefix ''ext-domain:'' r in
      case (if 0 < n then parseGeoSiteRule env (drop n r) else parseCustomDomainRule r defaultType) of
        Inl e \<Rightarrow> Inl (ErrArg ''illegal domain rule'' rule)
      | Inr x \<Rightarrow> Inr x)"

definition ParseDomainRules :: "geo_env \<Rightarrow> domain_type \<Rightarrow> string list \<Rightarrow> domain_rule list res" where
  "ParseDomainRules env defaultType rules = map_res (ParseDomainRule env defaultType) rules"

end
