(* ===== verification/Xray_Str_Matchers.thy ===== *)
theory Xray_Str_Matchers
  imports Xray_Geodata "HOL-Library.AList" "HOL-Library.Sublist"
begin

text \<open>
  The string matchers of xray's domain rules (src/xray-core/common/geodata/strmatcher): the four
  kinds of matcher, the groups that hold one kind each, and the linear matchers made of
  them.  \<open>regexp.Compile\<close> and \<open>MatchString\<close> are the parameter \<open>rx\<close>: a pattern gives the test it
  compiles to, or no test.
\<close>

section \<open>Matchers\<close>

type_synonym regexp_lib = "string \<Rightarrow> (string \<Rightarrow> bool) option"

datatype str_matcher = FullMatcher string | DomainMatcher string | SubstrMatcher string | RegexMatcher string

definition DomainMatcher_Match :: "string \<Rightarrow> string \<Rightarrow> bool" where
  "DomainMatcher_Match pattern s =
     (if \<not> HasSuffix s pattern then False
      else length s = length pattern \<or> s ! (length s - length pattern - 1) = CHR ''.'')"

definition matcher_Match :: "regexp_lib \<Rightarrow> str_matcher \<Rightarrow> string \<Rightarrow> bool" where
  "matcher_Match rx m s = (case m of
       FullMatcher p \<Rightarrow> p = s
     | DomainMatcher p \<Rightarrow> DomainMatcher_Match p s
     | SubstrMatcher p \<Rightarrow> Contains s p
     | RegexMatcher p \<Rightarrow> (case rx p of None \<Rightarrow> False | Some f \<Rightarrow> f s))"

section \<open>Groups of one kind\<close>

type_synonym 'v full_group = "(string \<times> 'v list) list"

definition AddFullMatcher :: "string \<Rightarrow> 'v \<Rightarrow> 'v full_group \<Rightarrow> 'v full_group" where
  "AddFullMatcher p v g = AList.update p ((case map_of g p of None \<Rightarrow> [] | Some vs \<Rightarrow> vs) @ [v]) g"

definition FullGroup_Match :: "'v full_group \<Rightarrow> string \<Rightarrow> 'v list" where
  "FullGroup_Match g s = (case map_of g s of None \<Rightarrow> [] | Some vs \<Rightarrow> vs)"

definition FullGroup_MatchAny :: "'v full_group \<Rightarrow> string \<Rightarrow> bool" where
  "FullGroup_MatchAny g s \<longleftrightarrow> map_of g s \<noteq> None"

text \<open>\<open>SimpleMatcherGroup\<close>, and the patterns of a \<open>SubstrMatcherGroup\<close>.\<close>

type_synonym 'v simple_group = "(str_matcher \<times> 'v) list"

definition SimpleGroup_Match :: "regexp_lib \<Rightarrow> 'v simple_group \<Rightarrow> string \<Rightarrow> 'v list" where
  "SimpleGroup_Match rx g s = map snd (filter (\<lambda>(m, v). matcher_Match rx m s) g)"

definition SimpleGroup_MatchAny :: "regexp_lib \<Rightarrow> 'v simple_group \<Rightarrow> string \<Rightarrow> bool" where
  "SimpleGroup_MatchAny rx g s \<longleftrightarrow> list_ex (\<lambda>(m, v). matcher_Match rx m s) g"

definition SubstrGroup_MatchAny :: "(string \<times> 'v) list \<Rightarrow> string \<Rightarrow> bool" where
  "SubstrGroup_MatchAny g s \<longleftrightarrow> list_ex (\<lambda>(p, v). Contains s p) g"

section \<open>The label trie\<close>

text \<open>
  The labels of a domain from the right, as the two nested loops cut them: the scan ends a label at
  a dot or at the start of the text, so an empty label in front of a leading dot is not seen.  The
  argument is the reversed text.
\<close>

function labels_back :: "string \<Rightarrow> string list" where
  "labels_back r = (if r = [] then []
     else let w = takeWhile (\<lambda>c. c \<noteq> CHR ''.'') r in w # labels_back (tl (drop (length w) r)))"
  by pat_completeness auto
termination
proof (relation "measure length")
  fix r :: string and w assume "r \<noteq> []" "w = takeWhile (\<lambda>c. c \<noteq> CHR ''.'') r"
  then have "length w \<le> length r" "0 < length r" by (simp_all add: length_takeWhile_le)
  then show "(tl (drop (length w) r), r) \<in> measure length" by auto
qed simp

declare labels_back.simps [simp del]

definition labels :: "string \<Rightarrow> string list" where
  "labels s = map rev (labels_back (rev s))"

text \<open>
  A node holds the values registered on it (\<open>trieNode\<close>), or whether one was registered
  (\<open>trieNode2\<close>), and its children.
\<close>

datatype 'a trie = Trie (payload: 'a) (children: "(string \<times> 'a trie) list")

fun trie_add :: "('a \<Rightarrow> 'a) \<Rightarrow> 'a \<Rightarrow> string list \<Rightarrow> 'a trie \<Rightarrow> 'a trie" where
  "trie_add upd new [] (Trie x cs) = Trie (upd x) cs"
| "trie_add upd new (l # ls) (Trie x cs) =
     (let next = (case map_of cs l of None \<Rightarrow> Trie new [] | Some t \<Rightarrow> t) in
      Trie x (AList.update l (trie_add upd new ls next) cs))"

text \<open>The payloads met below the root, until a label is missing or a leaf is reached.\<close>

fun trie_walk :: "string list \<Rightarrow> 'a trie \<Rightarrow> 'a list" where
  "trie_walk [] t = []"
| "trie_walk (l # ls) t = (case map_of (children t) l of
       None \<Rightarrow> []
     | Some u \<Rightarrow> payload u # (if children u = [] then [] else trie_walk ls u))"

definition AddDomainMatcher :: "string \<Rightarrow> 'v \<Rightarrow> 'v list trie \<Rightarrow> 'v list trie" where
  "AddDomainMatcher p v t = trie_add (\<lambda>vs. vs @ [v]) [] (labels p) t"

definition DomainGroup_Match :: "'v list trie \<Rightarrow> string \<Rightarrow> 'v list" where
  "DomainGroup_Match t s = concat (rev (filter (\<lambda>vs. vs \<noteq> []) (trie_walk (labels s) t)))"

definition DomainGroup_MatchAny :: "'v list trie \<Rightarrow> string \<Rightarrow> bool" where
  "DomainGroup_MatchAny t s \<longleftrightarrow> list_ex (\<lambda>vs. vs \<noteq> []) (trie_walk (labels s) t)"

definition AddDomainMatcher_set :: "string \<Rightarrow> bool trie \<Rightarrow> bool trie" where
  "AddDomainMatcher_set p t = trie_add (\<lambda>_. True) False (labels p) t"

definition DomainSet_MatchAny :: "bool trie \<Rightarrow> string \<Rightarrow> bool" where
  "DomainSet_MatchAny t s \<longleftrightarrow> list_ex id (trie_walk (labels s) t)"

section \<open>The linear matchers\<close>

text \<open>\<open>LinearValueMatcher\<close>; a part that was never added to is \<open>nil\<close> and matches nothing, as its empty group does.\<close>

record 'v linear_matcher =
  lm_full :: "'v full_group"
  lm_domain :: "'v list trie"
  lm_substr :: "(string \<times> 'v) list"
  lm_regex :: "'v simple_group"

definition NewLinear :: "'v linear_matcher" where
  "NewLinear = \<lparr>lm_full = [], lm_domain = Trie [] [], lm_substr = [], lm_regex = []\<rparr>"

definition Linear_Add :: "str_matcher \<Rightarrow> 'v \<Rightarrow> 'v linear_matcher \<Rightarrow> 'v linear_matcher" where
  "Linear_Add m v g = (case m of
       FullMatcher p \<Rightarrow> g\<lparr>lm_full := AddFullMatcher p v (lm_full g)\<rparr>
     | DomainMatcher p \<Rightarrow> g\<lparr>lm_domain := AddDomainMatcher p v (lm_domain g)\<rparr>
     | SubstrMatcher p \<Rightarrow> g\<lparr>lm_substr := lm_substr g @ [(p, v)]\<rparr>
     | RegexMatcher p \<Rightarrow> g\<lparr>lm_regex := lm_regex g @ [(RegexMatcher p, v)]\<rparr>)"

definition Linear_MatchAny :: "regexp_lib \<Rightarrow> 'v linear_matcher \<Rightarrow> string \<Rightarrow> bool" where
  "Linear_MatchAny rx g s \<longleftrightarrow>
     (if FullGroup_MatchAny (lm_full g) s then True
      else if DomainGroup_MatchAny (lm_domain g) s then True
      else if SubstrGroup_MatchAny (lm_substr g) s then True
      else SimpleGroup_MatchAny rx (lm_regex g) s)"

text \<open>\<open>LinearAnyMatcher\<close>, whose groups remember no values.\<close>

record any_matcher =
  am_full :: "string list"
  am_domain :: "bool trie"
  am_substr :: "string list"
  am_regex :: "str_matcher list"

definition NewAny :: any_matcher where
  "NewAny = \<lparr>am_full = [], am_domain = Trie False [], am_substr = [], am_regex = []\<rparr>"

definition Any_Add :: "str_matcher \<Rightarrow> any_matcher \<Rightarrow> any_matcher" where
  "Any_Add m g = (case m of
       FullMatcher p \<Rightarrow> g\<lparr>am_full := List.insert p (am_full g)\<rparr>
     | DomainMatcher p \<Rightarrow> g\<lparr>am_domain := AddDomainMatcher_set p (am_domain g)\<rparr>
     | SubstrMatcher p \<Rightarrow> g\<lparr>am_substr := am_substr g @ [p]\<rparr>
     | RegexMatcher p \<Rightarrow> g\<lparr>am_regex := am_regex g @ [m]\<rparr>)"

definition Any_MatchAny :: "regexp_lib \<Rightarrow> any_matcher \<Rightarrow> string \<Rightarrow> bool" where
  "Any_MatchAny rx g s \<longleftrightarrow>
     (if List.member (am_full g) s then True
      else if DomainSet_MatchAny (am_domain g) s then True
      else if list_ex (Contains s) (am_substr g) then True
      else list_ex (\<lambda>m. matcher_Match rx m s) (am_regex g))"

section \<open>Labels and suffixes\<close>

lemma labels_back_Nil [simp]: "labels_back [] = []"
  by (simp add: labels_back.simps [of "[]"])

lemma takeWhile_no: "c \<notin> set w \<Longrightarrow> takeWhile (\<lambda>x. x \<noteq> c) (w @ c # t) = w"
  by (induction w) auto

lemma labels_back_dot: "CHR ''.'' \<notin> set w \<Longrightarrow> labels_back (w @ CHR ''.'' # t) = w # labels_back t"
  by (subst labels_back.simps) (simp add: takeWhile_no Let_def)

lemma takeWhile_all: "c \<notin> set w \<Longrightarrow> takeWhile (\<lambda>x. x \<noteq> c) w = w"
  by (induction w) auto

lemma labels_back_last: "CHR ''.'' \<notin> set w \<Longrightarrow> w \<noteq> [] \<Longrightarrow> labels_back w = [w]"
  by (subst labels_back.simps) (simp add: takeWhile_all Let_def)

lemma dot_cases:
  obtains w t where "r = w @ CHR ''.'' # t" "CHR ''.'' \<notin> set w" | "CHR ''.'' \<notin> set r"
  using split_list_first [of "CHR ''.''" r] by blast

text \<open>
  A reversed pattern that does not end in a dot is a label prefix of a reversed text exactly
  where it is a prefix of it that ends at a dot or at the end of the text.
\<close>

lemma labels_prefix:
  "r \<noteq> [] \<Longrightarrow> last r \<noteq> CHR ''.'' \<Longrightarrow>
     Sublist.prefix (labels_back r) (labels_back q) \<longleftrightarrow> q = r \<or> (\<exists>t. q = r @ CHR ''.'' # t)"
proof (induction r arbitrary: q rule: labels_back.induct)
  case (1 r)
  show ?case
  proof (cases r rule: dot_cases)
    case (1 w t)
    then have t: "t \<noteq> []" "last t \<noteq> CHR ''.''" using "1.prems" by (auto split: if_splits)
    have wt: "takeWhile (\<lambda>c. c \<noteq> CHR ''.'') r = w" "tl (drop (length w) r) = t"
      using 1 by (simp_all add: takeWhile_no)
    have IH: "Sublist.prefix (labels_back t) (labels_back q') \<longleftrightarrow> q' = t \<or> (\<exists>u. q' = t @ CHR ''.'' # u)" for q'
      using "1.IH" [OF "1.prems"(1) refl, unfolded wt, OF t] .
    have lt: "labels_back t \<noteq> []" using t(1) by (subst labels_back.simps) (simp add: Let_def)
    show ?thesis
    proof (cases q rule: dot_cases)
      case q: (1 v u)
      show ?thesis
      proof (cases "v = w")
        case True
        with 1 q IH [of u] show ?thesis by (simp add: labels_back_dot)
      next
        case False
        have "v @ CHR ''.'' # u \<noteq> w @ CHR ''.'' # x" for x
          using q(2) 1(2) False takeWhile_no [of "CHR ''.''" v u] takeWhile_no [of "CHR ''.''" w x] by metis
        with 1 q False show ?thesis by (auto simp: labels_back_dot)
      qed
    next
      case 2
      then have "labels_back q = (if q = [] then [] else [q])" by (simp add: labels_back_last)
      with 1 2 lt show ?thesis by (auto simp: labels_back_dot)
    qed
  next
    case 2
    with "1.prems" have r: "labels_back r = [r]" by (simp add: labels_back_last)
    show ?thesis
    proof (cases q rule: dot_cases)
      case q: (1 v u)
      have "v @ CHR ''.'' # u \<noteq> r" using 2 by auto
      moreover have "v = r \<longleftrightarrow> (\<exists>t. v @ CHR ''.'' # u = r @ CHR ''.'' # t)"
        using q(2) 2 takeWhile_no [of "CHR ''.''" v u] takeWhile_no [of "CHR ''.''" r] by metis
      ultimately show ?thesis using r q by (auto simp: labels_back_dot)
    next
      case q: 2
      then have "labels_back q = (if q = [] then [] else [q])" by (simp add: labels_back_last)
      with r q "1.prems" show ?thesis by auto
    qed
  qed
qed

lemma DomainMatcher_iff: "DomainMatcher_Match p s \<longleftrightarrow> s = p \<or> (\<exists>t. s = t @ CHR ''.'' # p)"
proof (cases "HasSuffix s p")
  case True
  then obtain t where t: "s = t @ p" by (auto simp: HasSuffix_iff)
  show ?thesis
  proof (cases t rule: rev_cases)
    case (snoc u c)
    with t True show ?thesis by (auto simp: DomainMatcher_Match_def nth_append)
  qed (use t True in \<open>simp add: DomainMatcher_Match_def\<close>)
next
  case False
  then have "s \<noteq> p" "s \<noteq> t @ CHR ''.'' # p" for t
    using HasSuffix_append [of "[]" p] HasSuffix_append [of "t @ ''.''" p] by auto
  with False show ?thesis by (auto simp: DomainMatcher_Match_def)
qed

lemma map_rev_prefix: "Sublist.prefix (map rev xs) (map rev ys) = Sublist.prefix xs ys"
  by (metis map_mono_prefix map_map rev_involution list.map_id)

lemma labels_domain:
  assumes "p \<noteq> []" "hd p \<noteq> CHR ''.''"
  shows "Sublist.prefix (labels p) (labels s) \<longleftrightarrow> DomainMatcher_Match p s"
proof -
  have "Sublist.prefix (labels p) (labels s) \<longleftrightarrow> rev s = rev p \<or> (\<exists>t. rev s = rev p @ CHR ''.'' # t)"
    using labels_prefix [of "rev p" "rev s"] assms by (simp add: labels_def map_rev_prefix last_rev)
  also have "\<dots> \<longleftrightarrow> DomainMatcher_Match p s"
    unfolding DomainMatcher_iff by (metis rev_append rev_rev_ident append_assoc append_Cons append_Nil rev.simps(2))
  finally show ?thesis .
qed

lemma labels_Nil_iff: "labels p = [] \<longleftrightarrow> p = []"
  unfolding labels_def by (subst labels_back.simps) (simp add: Let_def)

section \<open>The trie finds a registered pattern\<close>

fun trie_at :: "string list \<Rightarrow> 'a trie \<Rightarrow> 'a option" where
  "trie_at [] t = Some (payload t)"
| "trie_at (l # ls) t = (case map_of (children t) l of None \<Rightarrow> None | Some u \<Rightarrow> trie_at ls u)"

lemma trie_at_leaf: "trie_at ks (Trie x []) = (if ks = [] then Some x else None)"
  by (cases ks) auto

lemma trie_walk_hits:
  "list_ex P (trie_walk ls t) \<longleftrightarrow> (\<exists>ks x. ks \<noteq> [] \<and> Sublist.prefix ks ls \<and> trie_at ks t = Some x \<and> P x)"
proof (induction ls t rule: trie_walk.induct)
  case (2 l ls t)
  show ?case
  proof (cases "map_of (children t) l")
    case None
    then have "trie_at ks t = None" if "ks \<noteq> []" "Sublist.prefix ks (l # ls)" for ks
      using that by (cases ks) auto
    with None show ?thesis by fastforce
  next
    case (Some u)
    have walk: "list_ex P (if children u = [] then [] else trie_walk ls u) = list_ex P (trie_walk ls u)"
      by (cases ls) auto
    have "(\<exists>ks x. ks \<noteq> [] \<and> Sublist.prefix ks (l # ls) \<and> trie_at ks t = Some x \<and> P x)
      \<longleftrightarrow> (\<exists>ks x. Sublist.prefix ks ls \<and> trie_at ks u = Some x \<and> P x)"
      using Some by (auto simp: Sublist.prefix_Cons)
    also have "\<dots> \<longleftrightarrow> P (payload u) \<or> (\<exists>ks x. ks \<noteq> [] \<and> Sublist.prefix ks ls \<and> trie_at ks u = Some x \<and> P x)"
      by (metis Sublist.Nil_prefix option.inject trie_at.simps(1))
    also have "(\<exists>ks x. ks \<noteq> [] \<and> Sublist.prefix ks ls \<and> trie_at ks u = Some x \<and> P x) \<longleftrightarrow> list_ex P (trie_walk ls u)"
    proof (cases "children u = []")
      case True
      then have "u = Trie (payload u) []" by (cases u) simp
      then have "trie_at ks u = None" if "ks \<noteq> []" for ks using that trie_at_leaf by metis
      moreover have "trie_walk ls u = []" using True by (cases ls) auto
      ultimately show ?thesis by auto
    qed (use "2.IH" [OF Some] in simp)
    finally show ?thesis using Some walk by auto
  qed
qed (auto simp: Sublist.prefix_Nil)

lemma trie_at_add:
  "trie_at ks (trie_add upd new ls t) =
     (if ks = ls then Some (upd (case trie_at ls t of None \<Rightarrow> new | Some x \<Rightarrow> x))
      else if Sublist.prefix ks ls \<and> trie_at ks t = None then Some new else trie_at ks t)"
proof (induction upd new ls t arbitrary: ks rule: trie_add.induct)
  case (1 upd new x cs)
  then show ?case by (cases ks) auto
next
  case (2 upd new l ls x cs)
  show ?case
  proof (cases ks)
    case (Cons k ks')
    show ?thesis
    proof (cases "k = l")
      case True
      with Cons "2.IH" [of _ ks'] show ?thesis
        by (cases "map_of cs l") (auto simp: Let_def update_conv' trie_at_leaf split: if_splits)
    next
      case False
      with Cons show ?thesis by (simp add: Let_def update_conv')
    qed
  qed (simp add: Let_def)
qed

lemma trie_add_hits:
  assumes "\<not> P new" "\<And>x. P (upd x)"
  shows "list_ex P (trie_walk q (trie_add upd new ls t)) \<longleftrightarrow>
     list_ex P (trie_walk q t) \<or> ls \<noteq> [] \<and> Sublist.prefix ls q"
proof
  assume "list_ex P (trie_walk q (trie_add upd new ls t))"
  then obtain ks x where "ks \<noteq> []" "Sublist.prefix ks q" "trie_at ks (trie_add upd new ls t) = Some x" "P x"
    by (auto simp: trie_walk_hits)
  with assms show "list_ex P (trie_walk q t) \<or> ls \<noteq> [] \<and> Sublist.prefix ls q"
    by (auto simp: trie_walk_hits trie_at_add split: if_splits)
next
  have hit: "\<exists>y. trie_at ks (trie_add upd new ls t) = Some y \<and> P y" if "trie_at ks t = Some x" "P x" for ks x
    using that assms(2) by (simp add: trie_at_add)
  assume "list_ex P (trie_walk q t) \<or> ls \<noteq> [] \<and> Sublist.prefix ls q"
  then show "list_ex P (trie_walk q (trie_add upd new ls t))"
  proof
    assume "list_ex P (trie_walk q t)"
    then show ?thesis unfolding trie_walk_hits using hit by metis
  next
    assume "ls \<noteq> [] \<and> Sublist.prefix ls q"
    with assms(2) show ?thesis unfolding trie_walk_hits by (metis trie_at_add)
  qed
qed

section \<open>The linear matchers match what one of their matchers matches\<close>

text \<open>A domain pattern with labels: not empty and without a dot in front.\<close>

definition pattern_ok :: "str_matcher \<Rightarrow> bool" where
  "pattern_ok m \<longleftrightarrow> (case m of DomainMatcher p \<Rightarrow> p \<noteq> [] \<and> hd p \<noteq> CHR ''.'' | _ \<Rightarrow> True)"

lemma FullGroup_add: "FullGroup_MatchAny (AddFullMatcher p v g) s \<longleftrightarrow> FullGroup_MatchAny g s \<or> p = s"
  by (auto simp: FullGroup_MatchAny_def AddFullMatcher_def update_conv')

lemma DomainGroup_add:
  "p \<noteq> [] \<Longrightarrow> hd p \<noteq> CHR ''.'' \<Longrightarrow>
     DomainGroup_MatchAny (AddDomainMatcher p v t) s \<longleftrightarrow> DomainGroup_MatchAny t s \<or> DomainMatcher_Match p s"
  by (simp add: DomainGroup_MatchAny_def AddDomainMatcher_def trie_add_hits labels_Nil_iff labels_domain)

lemma DomainSet_add:
  "p \<noteq> [] \<Longrightarrow> hd p \<noteq> CHR ''.'' \<Longrightarrow>
     DomainSet_MatchAny (AddDomainMatcher_set p t) s \<longleftrightarrow> DomainSet_MatchAny t s \<or> DomainMatcher_Match p s"
  by (simp add: DomainSet_MatchAny_def AddDomainMatcher_set_def trie_add_hits labels_Nil_iff labels_domain)

lemma Linear_add:
  "pattern_ok m \<Longrightarrow> Linear_MatchAny rx (Linear_Add m v g) s \<longleftrightarrow> Linear_MatchAny rx g s \<or> matcher_Match rx m s"
  by (cases m) (auto simp: pattern_ok_def Linear_Add_def Linear_MatchAny_def FullGroup_add DomainGroup_add
      SubstrGroup_MatchAny_def SimpleGroup_MatchAny_def matcher_Match_def)

lemma Any_add:
  "pattern_ok m \<Longrightarrow> Any_MatchAny rx (Any_Add m g) s \<longleftrightarrow> Any_MatchAny rx g s \<or> matcher_Match rx m s"
  by (cases m) (auto simp: pattern_ok_def Any_Add_def Any_MatchAny_def DomainSet_add matcher_Match_def)

lemma Linear_matches:
  "list_all (\<lambda>(m, v). pattern_ok m) ms \<Longrightarrow>
     Linear_MatchAny rx (fold (\<lambda>(m, v). Linear_Add m v) ms g) s
       \<longleftrightarrow> Linear_MatchAny rx g s \<or> list_ex (\<lambda>(m, v). matcher_Match rx m s) ms"
proof (induction ms arbitrary: g)
  case (Cons mv ms)
  obtain m v where "mv = (m, v)" by fastforce
  with Cons Linear_add [of m rx v g s] show ?case by simp
qed simp

lemma Any_matches:
  "list_all pattern_ok ms \<Longrightarrow>
     Any_MatchAny rx (fold Any_Add ms g) s \<longleftrightarrow> Any_MatchAny rx g s \<or> list_ex (\<lambda>m. matcher_Match rx m s) ms"
proof (induction ms arbitrary: g)
  case (Cons m ms)
  with Any_add [of m rx g s] show ?case by simp
qed simp

lemma Linear_new [simp]: "\<not> Linear_MatchAny rx NewLinear s"
proof -
  have "trie_walk ls (Trie x []) = []" for ls :: "string list" and x :: "'a list" by (cases ls) simp_all
  then show ?thesis
    by (simp add: Linear_MatchAny_def NewLinear_def FullGroup_MatchAny_def DomainGroup_MatchAny_def
        SubstrGroup_MatchAny_def SimpleGroup_MatchAny_def)
qed

lemma Any_new [simp]: "\<not> Any_MatchAny rx NewAny s"
proof -
  have "trie_walk ls (Trie x []) = []" for ls :: "string list" and x :: bool by (cases ls) simp_all
  then show ?thesis by (simp add: Any_MatchAny_def NewAny_def DomainSet_MatchAny_def)
qed

end
