(* ===== verification/Xray_Automaton.thy ===== *)
theory Xray_Automaton
  imports Xray_Str_Matchers
begin

text \<open>
  The Aho-Corasick automaton for substring patterns
  (src/xray-core/common/geodata/strmatcher/matchergroup_ac_automation.go): nodes and match entries in
  arrays, the insertion of a pattern from its last byte on, the breadth-first completion of the edges
  with the compressed fail links, and matching.  Node 0 is the root; a next index of 0 is a missing
  edge before the completion and the root after it.
\<close>

section \<open>Nodes and patterns\<close>

definition acValidCharCount :: nat where
  "acValidCharCount = 39"

text \<open>\<open>acCharset\<close>: letters without case, the hyphen, the dot, digits; 0 for every other byte.\<close>

definition acCharset :: "char \<Rightarrow> nat" where
  "acCharset c = (let b = byte c in
     if 65 \<le> b \<and> b \<le> 90 then b - 64
     else if 97 \<le> b \<and> b \<le> 122 then b - 96
     else if b = 45 then 27
     else if b = 46 then 28
     else if 48 \<le> b \<and> b \<le> 57 then b - 19
     else 0)"

record ac_node =
  an_next :: "nat list"
  an_edge :: "bool list"
  an_fail :: nat
  an_match :: nat

record 'v ac_value =
  av_Full :: "'v list"
  av_Domain :: "'v list"
  av_Substr :: "'v list"

record 'v ac =
  ac_nodes :: "ac_node list"
  ac_values :: "'v ac_value list"

definition empty_node :: ac_node where
  "empty_node = \<lparr>an_next = replicate acValidCharCount 0, an_edge = replicate acValidCharCount False, an_fail = 0, an_match = 0\<rparr>"

definition ac_addNode :: "'v ac \<Rightarrow> nat \<times> 'v ac" where
  "ac_addNode a = (length (ac_nodes a), a\<lparr>ac_nodes := ac_nodes a @ [empty_node]\<rparr>)"

definition ac_addMatchEntry :: "'v ac \<Rightarrow> nat \<times> 'v ac" where
  "ac_addMatchEntry a = (length (ac_values a), a\<lparr>ac_values := ac_values a @ [\<lparr>av_Full = [], av_Domain = [], av_Substr = []\<rparr>]\<rparr>)"

definition NewAC :: "'v ac" where
  "NewAC = snd (ac_addMatchEntry (snd (ac_addNode \<lparr>ac_nodes = [], ac_values = []\<rparr>)))"

definition upd_node :: "nat \<Rightarrow> (ac_node \<Rightarrow> ac_node) \<Rightarrow> ac_node list \<Rightarrow> ac_node list" where
  "upd_node u f ns = ns[u := f (ns ! u)]"

text \<open>The walk of \<open>addPattern\<close> along the edges of the pattern, the last byte first.\<close>

fun ac_walk :: "nat \<Rightarrow> nat list \<Rightarrow> 'v ac \<Rightarrow> nat \<times> 'v ac" where
  "ac_walk u [] a = (u, a)"
| "ac_walk u (e # es) a =
     (let nextIdx = an_next (ac_nodes a ! u) ! e in
      if nextIdx = 0 then
        let (n, a1) = ac_addNode a
        in ac_walk n es (a1\<lparr>ac_nodes := upd_node u (\<lambda>x. x\<lparr>an_next := (an_next x)[e := n], an_edge := (an_edge x)[e := True]\<rparr>) (ac_nodes a1)\<rparr>)
      else ac_walk nextIdx es a)"

datatype ac_type = AC_Full | AC_Domain | AC_Substr

definition add_value :: "ac_type \<Rightarrow> 'v \<Rightarrow> 'v ac_value \<Rightarrow> 'v ac_value" where
  "add_value t v x = (case t of
       AC_Full \<Rightarrow> x\<lparr>av_Full := av_Full x @ [v]\<rparr>
     | AC_Domain \<Rightarrow> x\<lparr>av_Domain := av_Domain x @ [v]\<rparr>
     | AC_Substr \<Rightarrow> x\<lparr>av_Substr := av_Substr x @ [v]\<rparr>)"

definition ac_addPattern :: "nat \<Rightarrow> string \<Rightarrow> ac_type \<Rightarrow> 'v \<Rightarrow> 'v ac \<Rightarrow> nat \<times> 'v ac" where
  "ac_addPattern start pattern t v a0 =
     (let (u, a1) = ac_walk start (map acCharset (rev pattern)) a0;
          a2 = (if an_match (ac_nodes a1 ! u) = 0
                then let (m, a') = ac_addMatchEntry a1
                     in a'\<lparr>ac_nodes := upd_node u (\<lambda>x. x\<lparr>an_match := m\<rparr>) (ac_nodes a')\<rparr>
                else a1);
          m = an_match (ac_nodes a2 ! u)
      in (u, a2\<lparr>ac_values := (ac_values a2)[m := add_value t v (ac_values a2 ! m)]\<rparr>))"

definition AC_AddFull :: "string \<Rightarrow> 'v \<Rightarrow> 'v ac \<Rightarrow> 'v ac" where
  "AC_AddFull p v a = snd (ac_addPattern 0 p AC_Full v a)"

definition AC_AddDomain :: "string \<Rightarrow> 'v \<Rightarrow> 'v ac \<Rightarrow> 'v ac" where
  "AC_AddDomain p v a = (let (u, a') = ac_addPattern 0 p AC_Domain v a in snd (ac_addPattern u ''.'' AC_Domain v a'))"

definition AC_AddSubstr :: "string \<Rightarrow> 'v \<Rightarrow> 'v ac \<Rightarrow> 'v ac" where
  "AC_AddSubstr p v a = snd (ac_addPattern 0 p AC_Substr v a)"

section \<open>Completion\<close>

text \<open>
  The variables of the loop: the nodes, the array \<open>fail\<close> and the queue.  The step is the body of the
  loop over the edges of one node.
\<close>

record ac_work =
  aw_nodes :: "ac_node list"
  aw_fail :: "nat list"
  aw_queue :: "nat list"

definition ac_edge_step :: "'v ac_value list \<Rightarrow> nat \<Rightarrow> nat \<Rightarrow> ac_work \<Rightarrow> ac_work" where
  "ac_edge_step vals u e w =
     (let ns = aw_nodes w;
          nodeIdx = an_next (ns ! u) ! e;
          failIdx = an_next (ns ! (aw_fail w ! u)) ! e
      in if nodeIdx \<noteq> 0 then
           let m = an_match (ns ! failIdx);
               f = (if m \<noteq> 0 \<and> 0 < length (av_Substr (vals ! m)) then failIdx else an_fail (ns ! failIdx))
           in w\<lparr>aw_queue := aw_queue w @ [nodeIdx], aw_fail := (aw_fail w)[nodeIdx := failIdx],
                aw_nodes := upd_node nodeIdx (\<lambda>x. x\<lparr>an_fail := f\<rparr>) ns\<rparr>
         else w\<lparr>aw_nodes := upd_node u (\<lambda>x. x\<lparr>an_next := (an_next x)[e := failIdx], an_edge := (an_edge x)[e := False]\<rparr>) ns\<rparr>)"

definition ac_visit :: "'v ac_value list \<Rightarrow> nat \<Rightarrow> ac_work \<Rightarrow> ac_work" where
  "ac_visit vals u w = fold (ac_edge_step vals u) [0 ..< acValidCharCount] w"

text \<open>The loop over the queue; it enters every node at most once, so the number of nodes bounds its rounds.\<close>

fun ac_loop :: "nat \<Rightarrow> 'v ac_value list \<Rightarrow> ac_work \<Rightarrow> ac_node list option" where
  "ac_loop k vals w = (case aw_queue w of
       [] \<Rightarrow> Some (aw_nodes w)
     | u # q \<Rightarrow> (case k of 0 \<Rightarrow> None | Suc k' \<Rightarrow> ac_loop k' vals (ac_visit vals u (w\<lparr>aw_queue := q\<rparr>))))"

declare ac_loop.simps [simp del]

definition AC_Build :: "'v ac \<Rightarrow> 'v ac option" where
  "AC_Build a = map_option (\<lambda>ns. a\<lparr>ac_nodes := ns\<rparr>)
     (ac_loop (length (ac_nodes a)) (ac_values a)
       \<lparr>aw_nodes = ac_nodes a, aw_fail = replicate (length (ac_nodes a)) 0,
        aw_queue = filter (\<lambda>n. n \<noteq> 0) (an_next (ac_nodes a ! 0))\<rparr>)"

section \<open>Matching\<close>

text \<open>\<open>MatchAny\<close> on the reversed input, from a node, with the flag that no fail edge was taken.\<close>

fun ac_any :: "'v ac \<Rightarrow> nat \<Rightarrow> bool \<Rightarrow> string \<Rightarrow> bool" where
  "ac_any a u full [] = (full \<and> an_match (ac_nodes a ! u) \<noteq> 0)"
| "ac_any a u full (c # cs) =
     (let edge = acCharset c;
          full' = (full \<and> an_edge (ac_nodes a ! u) ! edge);
          u' = an_next (ac_nodes a ! u) ! edge;
          node = ac_nodes a ! u'
      in if an_fail node \<noteq> 0 then True
         else if an_match node \<noteq> 0 \<and> 0 < length (av_Substr (ac_values a ! an_match node)) then True
         else if an_match node \<noteq> 0 \<and> full' \<and> c = CHR ''.'' \<and> 0 < length (av_Domain (ac_values a ! an_match node)) then True
         else ac_any a u' full' cs)"

definition AC_MatchAny :: "'v ac \<Rightarrow> string \<Rightarrow> bool" where
  "AC_MatchAny a s \<longleftrightarrow> ac_any a 0 True (rev s)"

section \<open>The longest suffix in a set\<close>

fun longest :: "'a list set \<Rightarrow> 'a list \<Rightarrow> 'a list" where
  "longest W [] = []"
| "longest W (c # w) = (if c # w \<in> W then c # w else longest W w)"

lemma longest_suffix: "suffix (longest W w) w"
  by (induction w) (auto simp: suffix_Cons)

lemma longest_in: "[] \<in> W \<Longrightarrow> longest W w \<in> W"
  by (induction w) auto

lemma longest_max: "v \<in> W \<Longrightarrow> suffix v w \<Longrightarrow> suffix v (longest W w)"
  by (induction w) (auto simp: suffix_Cons)

lemma longest_unique:
  assumes "[] \<in> W" "x \<in> W" "suffix x w" "\<And>v. v \<in> W \<Longrightarrow> suffix v w \<Longrightarrow> suffix v x"
  shows "x = longest W w"
  using assms longest_in longest_suffix longest_max by (metis suffix_order.antisym)

lemma longest_id: "w \<in> W \<Longrightarrow> longest W w = w"
  by (cases w) auto

lemma longest_tl: "w \<notin> W \<Longrightarrow> longest W w = longest W (tl w)"
  by (cases w) auto

lemma longest_snoc:
  assumes e: "[] \<in> W" and closed: "\<And>v c. v @ [c] \<in> W \<Longrightarrow> v \<in> W"
  shows "longest W (longest W w @ [c]) = longest W (w @ [c])"
proof (rule longest_unique [OF e longest_in [OF e]])
  have "suffix (longest W w @ [c]) (w @ [c])" by (simp add: longest_suffix)
  then show "suffix (longest W (longest W w @ [c])) (w @ [c])"
    using longest_suffix suffix_order.trans by blast
next
  fix v assume v: "v \<in> W" "suffix v (w @ [c])"
  show "suffix v (longest W (longest W w @ [c]))"
  proof (cases v rule: rev_cases)
    case (snoc v' x)
    with v have "x = c" "suffix v' w" "v' \<in> W" using closed by auto
    with snoc have "suffix v (longest W w @ [c])" by (simp add: longest_max)
    with v(1) show ?thesis by (rule longest_max)
  qed simp
qed

section \<open>The trie\<close>

text \<open>\<open>wd\<close> gives the word that leads from the root to a node.\<close>

definition trie_ok :: "ac_node list \<Rightarrow> (nat \<Rightarrow> nat list) \<Rightarrow> bool" where
  "trie_ok ns wd \<longleftrightarrow> ns \<noteq> [] \<and> wd 0 = [] \<and> inj_on wd {..<length ns}
     \<and> (\<forall>u < length ns. length (an_next (ns ! u)) = acValidCharCount \<and> length (an_edge (ns ! u)) = acValidCharCount
          \<and> an_fail (ns ! u) = 0)
     \<and> (\<forall>u < length ns. \<forall>e < acValidCharCount. an_next (ns ! u) ! e \<noteq> 0 \<longrightarrow>
          an_next (ns ! u) ! e < length ns \<and> wd (an_next (ns ! u) ! e) = wd u @ [e])
     \<and> (\<forall>v < length ns. v \<noteq> 0 \<longrightarrow> (\<exists>u < length ns. \<exists>e < acValidCharCount. an_next (ns ! u) ! e = v))"

lemma trie_okD:
  assumes "trie_ok ns wd"
  shows "0 < length ns" "wd 0 = []" "inj_on wd {..<length ns}"
    "u < length ns \<Longrightarrow> length (an_next (ns ! u)) = acValidCharCount"
    "u < length ns \<Longrightarrow> length (an_edge (ns ! u)) = acValidCharCount"
    "u < length ns \<Longrightarrow> an_fail (ns ! u) = 0"
    "u < length ns \<Longrightarrow> e < acValidCharCount \<Longrightarrow> an_next (ns ! u) ! e \<noteq> 0 \<Longrightarrow>
        an_next (ns ! u) ! e < length ns \<and> wd (an_next (ns ! u) ! e) = wd u @ [e]"
    "v < length ns \<Longrightarrow> v \<noteq> 0 \<Longrightarrow> \<exists>u < length ns. \<exists>e < acValidCharCount. an_next (ns ! u) ! e = v"
  using assms by (simp_all add: trie_ok_def)

text \<open>A new node below \<open>u\<close>.\<close>

definition grow :: "nat \<Rightarrow> nat \<Rightarrow> ac_node list \<Rightarrow> ac_node list" where
  "grow u e ns = upd_node u (\<lambda>x. x\<lparr>an_next := (an_next x)[e := length ns], an_edge := (an_edge x)[e := True]\<rparr>) (ns @ [empty_node])"

lemma grow_nth:
  assumes "u < length ns"
  shows "length (grow u e ns) = Suc (length ns)"
    "x < length ns \<Longrightarrow> x \<noteq> u \<Longrightarrow> grow u e ns ! x = ns ! x"
    "grow u e ns ! length ns = empty_node"
    "grow u e ns ! u = (ns ! u)\<lparr>an_next := (an_next (ns ! u))[e := length ns], an_edge := (an_edge (ns ! u))[e := True]\<rparr>"
  using assms by (simp_all add: grow_def upd_node_def nth_append nth_list_update)

lemma grow_next:
  assumes "trie_ok ns wd" "u < length ns" "e < acValidCharCount" "x < Suc (length ns)" "e' < acValidCharCount"
  shows "an_next (grow u e ns ! x) ! e' = (if x = length ns then 0 else if x = u \<and> e' = e then length ns else an_next (ns ! x) ! e')"
proof -
  consider "x = length ns" | "x < length ns" "x = u" | "x < length ns" "x \<noteq> u" using assms(4) by linarith
  then show ?thesis
    using assms by cases (simp_all add: grow_nth empty_node_def trie_okD(4) [OF assms(1)] nth_list_update)
qed

lemma grow_fields:
  assumes "u < length ns" "x < Suc (length ns)"
  shows "an_match (grow u e ns ! x) = (if x = length ns then 0 else an_match (ns ! x))"
    "an_fail (grow u e ns ! x) = (if x = length ns then 0 else an_fail (ns ! x))"
    "length (an_next (grow u e ns ! x)) = (if x = length ns then acValidCharCount else length (an_next (ns ! x)))"
    "length (an_edge (grow u e ns ! x)) = (if x = length ns then acValidCharCount else length (an_edge (ns ! x)))"
proof -
  consider "x = length ns" | "x < length ns" "x = u" | "x < length ns" "x \<noteq> u" using assms(2) by linarith
  then have "an_match (grow u e ns ! x) = (if x = length ns then 0 else an_match (ns ! x))
    \<and> an_fail (grow u e ns ! x) = (if x = length ns then 0 else an_fail (ns ! x))
    \<and> length (an_next (grow u e ns ! x)) = (if x = length ns then acValidCharCount else length (an_next (ns ! x)))
    \<and> length (an_edge (grow u e ns ! x)) = (if x = length ns then acValidCharCount else length (an_edge (ns ! x)))"
    using assms by cases (simp_all add: grow_nth empty_node_def)
  then show "an_match (grow u e ns ! x) = (if x = length ns then 0 else an_match (ns ! x))"
    "an_fail (grow u e ns ! x) = (if x = length ns then 0 else an_fail (ns ! x))"
    "length (an_next (grow u e ns ! x)) = (if x = length ns then acValidCharCount else length (an_next (ns ! x)))"
    "length (an_edge (grow u e ns ! x)) = (if x = length ns then acValidCharCount else length (an_edge (ns ! x)))"
    by simp_all
qed

lemma edge_unique:
  assumes t: "trie_ok ns wd" and "u < length ns" "e < acValidCharCount" "an_next (ns ! u) ! e = 0" "v < length ns"
  shows "wd v \<noteq> wd u @ [e]"
proof
  assume v: "wd v = wd u @ [e]"
  with trie_okD(2) [OF t] have "v \<noteq> 0" by (cases "v = 0") simp_all
  then obtain p c where p: "p < length ns" "c < acValidCharCount" "an_next (ns ! p) ! c = v"
    using trie_okD(8) [OF t assms(5)] by blast
  with trie_okD(7) [OF t p(1,2)] \<open>v \<noteq> 0\<close> v have "wd p = wd u" "c = e" by auto
  with inj_onD [OF trie_okD(3) [OF t]] p assms have "p = u" by simp
  with p \<open>c = e\<close> assms \<open>v \<noteq> 0\<close> show False by simp
qed

lemma trie_grow:
  assumes t: "trie_ok ns wd" and u: "u < length ns" and e: "e < acValidCharCount" and free: "an_next (ns ! u) ! e = 0"
  shows "trie_ok (grow u e ns) (wd(length ns := wd u @ [e]))"
proof -
  let ?wd = "wd(length ns := wd u @ [e])"
  note nxt = grow_next [OF t u e] and D = trie_okD [OF t]
  have "inj_on ?wd {..<length ns}" using D(3) by (simp add: inj_on_def)
  moreover have "wd u @ [e] \<notin> wd ` {..<length ns}" using edge_unique [OF t u e free] by fastforce
  ultimately have inj: "inj_on ?wd {..<Suc (length ns)}" by (auto simp: lessThan_Suc)
  have step: "an_next (grow u e ns ! x) ! c < Suc (length ns) \<and> ?wd (an_next (grow u e ns ! x) ! c) = ?wd x @ [c]"
    if "x < Suc (length ns)" "c < acValidCharCount" "an_next (grow u e ns ! x) ! c \<noteq> 0" for x c
    using that D(7) [of x c] u by (auto simp: nxt split: if_splits)
  have par: "\<exists>x < Suc (length ns). \<exists>c < acValidCharCount. an_next (grow u e ns ! x) ! c = v"
    if v: "v < Suc (length ns)" "v \<noteq> 0" for v
  proof (cases "v = length ns")
    case True
    then show ?thesis using u e by (intro exI [of _ u] conjI exI [of _ e]) (simp_all add: nxt)
  next
    case False
    with v obtain x c where "x < length ns" "c < acValidCharCount" "an_next (ns ! x) ! c = v"
      using D(8) [of v] by auto
    moreover from this have "\<not> (x = u \<and> c = e)" using free v by auto
    ultimately show ?thesis by (intro exI [of _ x] conjI exI [of _ c]) (auto simp: nxt)
  qed
  show ?thesis
    unfolding trie_ok_def using D inj step par grow_nth(1) [OF u, of e] grow_fields [OF u, of _ e]
    by (auto simp: less_Suc_eq)
qed

lemma walk_ok:
  assumes "trie_ok (ac_nodes a) wd" "u < length (ac_nodes a)" "list_all (\<lambda>e. e < acValidCharCount) es" "ac_walk u es a = (u', a')"
  shows "\<exists>wd'. trie_ok (ac_nodes a') wd' \<and> u' < length (ac_nodes a') \<and> wd' u' = wd u @ es \<and> ac_values a' = ac_values a
    \<and> length (ac_nodes a) \<le> length (ac_nodes a') \<and> (\<forall>x < length (ac_nodes a). wd' x = wd x)
    \<and> (\<forall>x < length (ac_nodes a'). an_match (ac_nodes a' ! x) = (if x < length (ac_nodes a) then an_match (ac_nodes a ! x) else 0))"
  using assms
proof (induction es arbitrary: u a wd)
  case Nil
  then show ?case by (intro exI [of _ wd]) auto
next
  case (Cons e es)
  let ?ns = "ac_nodes a"
  let ?n = "an_next (?ns ! u) ! e"
  have e: "e < acValidCharCount" "list_all (\<lambda>e. e < acValidCharCount) es" using Cons.prems(3) by simp_all
  show ?case
  proof (cases "?n = 0")
    case False
    with trie_okD(7) [OF Cons.prems(1,2) e(1)] have n: "?n < length ?ns" "wd ?n = wd u @ [e]" by simp_all
    from False Cons.prems(4) have "ac_walk ?n es a = (u', a')" by (simp add: Let_def)
    from Cons.IH [OF Cons.prems(1) n(1) e(2) this] n(2) show ?thesis by auto
  next
    case True
    let ?b = "a\<lparr>ac_nodes := grow u e ?ns\<rparr>" and ?wd = "wd(length ?ns := wd u @ [e])"
    have w: "ac_walk (length ?ns) es ?b = (u', a')"
      using True Cons.prems(4) by (simp add: Let_def ac_addNode_def grow_def)
    have t: "trie_ok (ac_nodes ?b) ?wd" using trie_grow [OF Cons.prems(1,2) e(1) True] by simp
    have len: "length (grow u e ?ns) = Suc (length ?ns)" by (rule grow_nth(1) [OF Cons.prems(2)])
    then have n: "length ?ns < length (ac_nodes ?b)" by simp
    from Cons.IH [OF t n e(2) w] obtain wd' where wd': "trie_ok (ac_nodes a') wd'" "u' < length (ac_nodes a')"
        "wd' u' = wd u @ e # es" "ac_values a' = ac_values a" "Suc (length ?ns) \<le> length (ac_nodes a')"
        "\<forall>x < Suc (length ?ns). wd' x = ?wd x"
        "\<forall>x < length (ac_nodes a'). an_match (ac_nodes a' ! x) = (if x < Suc (length ?ns) then an_match (grow u e ?ns ! x) else 0)"
      by (auto simp: len)
    then show ?thesis using grow_fields(1) [OF Cons.prems(2), of _ e] by (intro exI [of _ wd']) auto
  qed
qed

text \<open>\<open>P\<close> are the words of the patterns, which are substring patterns that are not empty.\<close>

definition ac_ok :: "'v ac \<Rightarrow> (nat \<Rightarrow> nat list) \<Rightarrow> nat list set \<Rightarrow> bool" where
  "ac_ok a wd P \<longleftrightarrow> trie_ok (ac_nodes a) wd \<and> P \<subseteq> wd ` {..<length (ac_nodes a)} \<and> ac_values a \<noteq> []
     \<and> (\<forall>u < length (ac_nodes a). an_match (ac_nodes a ! u) < length (ac_values a)
          \<and> (an_match (ac_nodes a ! u) \<noteq> 0 \<longleftrightarrow> wd u \<in> P)
          \<and> (an_match (ac_nodes a ! u) \<noteq> 0 \<longrightarrow> av_Substr (ac_values a ! an_match (ac_nodes a ! u)) \<noteq> []))"

lemma acCharset_bound: "acCharset c < acValidCharCount"
  by (auto simp: acCharset_def acValidCharCount_def Let_def)

lemma NewAC_ok: "ac_ok NewAC (\<lambda>_. []) {}"
  by (simp add: ac_ok_def NewAC_def ac_addNode_def ac_addMatchEntry_def trie_ok_def empty_node_def inj_on_def)

lemma trie_match: "u < length ns \<Longrightarrow> trie_ok (upd_node u (\<lambda>x. x\<lparr>an_match := m\<rparr>) ns) wd = trie_ok ns wd"
proof -
  assume u: "u < length ns"
  have f: "an_next (upd_node u (\<lambda>x. x\<lparr>an_match := m\<rparr>) ns ! x) = an_next (ns ! x)"
    "an_edge (upd_node u (\<lambda>x. x\<lparr>an_match := m\<rparr>) ns ! x) = an_edge (ns ! x)"
    "an_fail (upd_node u (\<lambda>x. x\<lparr>an_match := m\<rparr>) ns ! x) = an_fail (ns ! x)" for x
    using u by (cases "x = u"; simp add: upd_node_def)+
  have l: "length (upd_node u (\<lambda>x. x\<lparr>an_match := m\<rparr>) ns) = length ns" by (simp add: upd_node_def)
  have n: "upd_node u (\<lambda>x. x\<lparr>an_match := m\<rparr>) ns \<noteq> [] \<longleftrightarrow> ns \<noteq> []" by (simp add: upd_node_def)
  show ?thesis unfolding trie_ok_def by (simp only: f l n)
qed

lemma AC_AddSubstr_ok:
  assumes ok: "ac_ok a wd P"
  shows "\<exists>wd'. ac_ok (AC_AddSubstr p v a) wd' (insert (map acCharset (rev p)) P)"
proof -
  let ?w = "map acCharset (rev p)"
  obtain u b where walk: "ac_walk 0 ?w a = (u, b)" by fastforce
  have "list_all (\<lambda>e. e < acValidCharCount) ?w" by (simp add: list_all_iff acCharset_bound)
  moreover have t: "trie_ok (ac_nodes a) wd" using ok by (simp add: ac_ok_def)
  ultimately obtain wd' where b: "trie_ok (ac_nodes b) wd'" "u < length (ac_nodes b)" "wd' u = ?w"
      "ac_values b = ac_values a" "length (ac_nodes a) \<le> length (ac_nodes b)" "\<forall>x < length (ac_nodes a). wd' x = wd x"
      "\<forall>x < length (ac_nodes b). an_match (ac_nodes b ! x) = (if x < length (ac_nodes a) then an_match (ac_nodes a ! x) else 0)"
    using walk_ok [OF t trie_okD(1) [OF t] _ walk] trie_okD(2) [OF t] by auto
  have in_P: "an_match (ac_nodes b ! x) \<noteq> 0 \<longleftrightarrow> wd' x \<in> P" if x: "x < length (ac_nodes b)" for x
  proof (cases "x < length (ac_nodes a)")
    case True
    with b x ok show ?thesis by (simp add: ac_ok_def)
  next
    case False
    have "wd' x \<notin> P"
    proof
      assume "wd' x \<in> P"
      with ok obtain y where "y < length (ac_nodes a)" "wd y = wd' x" by (auto simp: ac_ok_def)
      with b(5,6) x False inj_onD [OF trie_okD(3) [OF b(1)], of x y] show False by auto
    qed
    with False b(7) x show ?thesis by simp
  qed
  define a2 where "a2 = (if an_match (ac_nodes b ! u) = 0
      then let (m, a') = ac_addMatchEntry b in a'\<lparr>ac_nodes := upd_node u (\<lambda>x. x\<lparr>an_match := m\<rparr>) (ac_nodes a')\<rparr> else b)"
  define m where "m = an_match (ac_nodes a2 ! u)"
  have res: "AC_AddSubstr p v a = a2\<lparr>ac_values := (ac_values a2)[m := add_value AC_Substr v (ac_values a2 ! m)]\<rparr>"
    by (simp add: AC_AddSubstr_def ac_addPattern_def walk a2_def m_def Let_def split: prod.split)
  have bound: "an_match (ac_nodes b ! x) < length (ac_values b)" if "x < length (ac_nodes b)" for x
    using b(4,7) ok that by (auto simp: ac_ok_def)
  have kept: "av_Substr (ac_values b ! an_match (ac_nodes b ! x)) \<noteq> []" if "x < length (ac_nodes b)" "an_match (ac_nodes b ! x) \<noteq> 0" for x
    using b(4,7) ok that by (auto simp: ac_ok_def split: if_splits)
  have P: "P \<subseteq> wd' ` {..<length (ac_nodes b)}"
  proof
    fix w assume "w \<in> P"
    with ok obtain y where "y < length (ac_nodes a)" "wd y = w" by (auto simp: ac_ok_def)
    with b(5,6) have "y < length (ac_nodes b)" "wd' y = w" by auto
    then show "w \<in> wd' ` {..<length (ac_nodes b)}" by auto
  qed
  have vals: "0 < length (ac_values b)" using ok b(4) by (simp add: ac_ok_def)
  show ?thesis
  proof (cases "an_match (ac_nodes b ! u) = 0")
    case False
    then have a2: "a2 = b" "m = an_match (ac_nodes b ! u)" by (simp_all add: a2_def m_def)
    have w: "?w \<in> P" using in_P [OF b(2)] False b(3) by simp
    have each: "av_Substr ((ac_values b)[m := add_value AC_Substr v (ac_values b ! m)] ! an_match (ac_nodes b ! x)) \<noteq> []"
      if "x < length (ac_nodes b)" "an_match (ac_nodes b ! x) \<noteq> 0" for x
      using kept [OF that] bound [OF that(1)] by (cases "an_match (ac_nodes b ! x) = m") (simp_all add: add_value_def)
    have "ac_ok (AC_AddSubstr p v a) wd' P"
      unfolding ac_ok_def res a2 using b(1) P bound in_P each vals
      by (simp add: a2(2))
    with w show ?thesis by (auto simp: insert_absorb)
  next
    case True
    let ?m = "length (ac_values b)"
    have a2: "a2 = b\<lparr>ac_values := ac_values b @ [\<lparr>av_Full = [], av_Domain = [], av_Substr = []\<rparr>],
        ac_nodes := upd_node u (\<lambda>x. x\<lparr>an_match := ?m\<rparr>) (ac_nodes b)\<rparr>"
      using True by (simp add: a2_def ac_addMatchEntry_def)
    have m: "m = ?m" using b(2) by (simp add: m_def a2 upd_node_def)
    have mt: "an_match (upd_node u (\<lambda>x. x\<lparr>an_match := ?m\<rparr>) (ac_nodes b) ! x) = (if x = u then ?m else an_match (ac_nodes b ! x))"
      for x using b(2) by (cases "x = u") (simp_all add: upd_node_def)
    have l: "length (upd_node u (\<lambda>x. x\<lparr>an_match := ?m\<rparr>) (ac_nodes b)) = length (ac_nodes b)" by (simp add: upd_node_def)
    have other: "wd' x \<noteq> ?w" if "x < length (ac_nodes b)" "x \<noteq> u" for x
      using inj_onD [OF trie_okD(3) [OF b(1)], of x u] b(2,3) that by auto
    have each: "an_match (upd_node u (\<lambda>x. x\<lparr>an_match := ?m\<rparr>) (ac_nodes b) ! x) < Suc ?m
      \<and> (an_match (upd_node u (\<lambda>x. x\<lparr>an_match := ?m\<rparr>) (ac_nodes b) ! x) \<noteq> 0 \<longleftrightarrow> wd' x \<in> insert ?w P)
      \<and> (an_match (upd_node u (\<lambda>x. x\<lparr>an_match := ?m\<rparr>) (ac_nodes b) ! x) \<noteq> 0 \<longrightarrow>
          av_Substr ((ac_values a2)[m := add_value AC_Substr v (ac_values a2 ! m)] ! an_match (upd_node u (\<lambda>x. x\<lparr>an_match := ?m\<rparr>) (ac_nodes b) ! x)) \<noteq> [])"
      if x: "x < length (ac_nodes b)" for x
    proof (cases "x = u")
      case True
      then show ?thesis using vals b(3) by (simp add: mt m a2 nth_append add_value_def)
    next
      case False
      then show ?thesis using bound [OF x] in_P [OF x] kept [OF x] other [OF x]
        by (auto simp: mt m a2 nth_append)
    qed
    have "?w \<in> wd' ` {..<length (ac_nodes b)}" using b(2,3) by (metis imageI lessThan_iff)
    then have "ac_ok (AC_AddSubstr p v a) wd' (insert ?w P)"
      unfolding ac_ok_def using P each trie_match [OF b(2)] b(1)
      by (simp add: res a2 l m)
    then show ?thesis by blast
  qed
qed

section \<open>The automaton of a trie\<close>

definition words :: "ac_node list \<Rightarrow> (nat \<Rightarrow> nat list) \<Rightarrow> nat list set" where
  "words ns wd = wd ` {..<length ns}"

definition node_of :: "ac_node list \<Rightarrow> (nat \<Rightarrow> nat list) \<Rightarrow> nat list \<Rightarrow> nat" where
  "node_of ns wd w = inv_into {..<length ns} wd w"

text \<open>The state after reading \<open>w\<close>: the node of the longest suffix of \<open>w\<close> that is a word.\<close>

definition goto :: "ac_node list \<Rightarrow> (nat \<Rightarrow> nat list) \<Rightarrow> nat list \<Rightarrow> nat" where
  "goto ns wd w = node_of ns wd (longest (words ns wd) w)"

lemma words_Nil: "trie_ok ns wd \<Longrightarrow> [] \<in> words ns wd"
  using trie_okD(1,2) [of ns wd] by (auto simp: words_def image_iff intro!: bexI [of _ 0])

lemma words_closed: assumes t: "trie_ok ns wd" and "v @ [c] \<in> words ns wd" shows "v \<in> words ns wd"
proof -
  obtain x where x: "x < length ns" "wd x = v @ [c]" using assms(2) by (auto simp: words_def)
  then have "x \<noteq> 0" using trie_okD(2) [OF t] by (cases "x = 0") simp_all
  then obtain u e where "u < length ns" "e < acValidCharCount" "an_next (ns ! u) ! e = x"
    using trie_okD(8) [OF t x(1)] by blast
  with trie_okD(7) [OF t this(1,2)] x \<open>x \<noteq> 0\<close> show ?thesis by (auto simp: words_def)
qed

lemma node_of_word: "w \<in> words ns wd \<Longrightarrow> node_of ns wd w < length ns \<and> wd (node_of ns wd w) = w"
  unfolding words_def node_of_def using f_inv_into_f [of w wd "{..<length ns}"] inv_into_into [of w wd "{..<length ns}"]
  by blast

lemma node_of_wd: "trie_ok ns wd \<Longrightarrow> u < length ns \<Longrightarrow> node_of ns wd (wd u) = u"
  unfolding node_of_def by (simp add: inv_into_f_f trie_okD(3))

lemma goto_word:
  assumes "trie_ok ns wd"
  shows "goto ns wd w < length ns" "wd (goto ns wd w) = longest (words ns wd) w"
  using node_of_word [OF longest_in [OF words_Nil [OF assms]]] by (simp_all add: goto_def)

lemma goto_wd: "trie_ok ns wd \<Longrightarrow> u < length ns \<Longrightarrow> goto ns wd (wd u) = u"
  by (simp add: goto_def longest_id node_of_wd words_def)

lemma goto_step: "trie_ok ns wd \<Longrightarrow> goto ns wd (wd (goto ns wd w) @ [c]) = goto ns wd (w @ [c])"
  unfolding goto_word goto_def [of ns wd "_ @ _"] by (simp add: longest_snoc words_Nil words_closed)

lemma trie_next:
  assumes t: "trie_ok ns wd" and u: "u < length ns" and e: "e < acValidCharCount"
  shows "wd u @ [e] \<in> words ns wd \<Longrightarrow> an_next (ns ! u) ! e \<noteq> 0 \<and> an_next (ns ! u) ! e = goto ns wd (wd u @ [e])"
    and "wd u @ [e] \<notin> words ns wd \<Longrightarrow> an_next (ns ! u) ! e = 0"
proof -
  assume "wd u @ [e] \<in> words ns wd"
  then obtain v where v: "v < length ns" "wd v = wd u @ [e]" by (auto simp: words_def)
  then have n: "an_next (ns ! u) ! e \<noteq> 0" using edge_unique [OF t u e] by auto
  moreover have "an_next (ns ! u) ! e < length ns" "wd (an_next (ns ! u) ! e) = wd u @ [e]"
    using trie_okD(7) [OF t u e n] by simp_all
  ultimately show "an_next (ns ! u) ! e \<noteq> 0 \<and> an_next (ns ! u) ! e = goto ns wd (wd u @ [e])"
    using goto_wd [OF t, of "an_next (ns ! u) ! e"] by simp
next
  assume "wd u @ [e] \<notin> words ns wd"
  then show "an_next (ns ! u) ! e = 0"
    using trie_okD(7) [OF t u e] unfolding words_def by (metis imageI lessThan_iff)
qed

text \<open>Some pattern is a proper suffix of the word.\<close>

definition inner_match :: "nat list set \<Rightarrow> nat list \<Rightarrow> bool" where
  "inner_match P w \<longleftrightarrow> (\<exists>x \<in> P. x \<noteq> w \<and> suffix x w)"

lemma inner_match_longest:
  assumes "P \<subseteq> words ns wd" "trie_ok ns wd" "w \<noteq> []"
  shows "inner_match P w \<longleftrightarrow> longest (words ns wd) (tl w) \<in> P \<or> inner_match P (longest (words ns wd) (tl w))"
proof -
  obtain c v where w: "w = c # v" using assms(3) by (cases w) auto
  have "x \<noteq> c # v \<and> suffix x (c # v) \<longleftrightarrow> suffix x v" for x
    using suffix_length_le [of "c # v" v] by (auto simp: suffix_Cons)
  then have "inner_match P w \<longleftrightarrow> (\<exists>x \<in> P. suffix x v)" unfolding inner_match_def w by simp
  also have "\<dots> \<longleftrightarrow> (\<exists>x \<in> P. suffix x (longest (words ns wd) v))"
    using assms(1) longest_max longest_suffix suffix_order.trans by (metis subsetD)
  also have "\<dots> \<longleftrightarrow> longest (words ns wd) v \<in> P \<or> inner_match P (longest (words ns wd) v)"
    by (auto simp: inner_match_def)
  finally show ?thesis by (simp add: w)
qed

section \<open>The completion\<close>

definition depth :: "(nat \<Rightarrow> nat list) \<Rightarrow> nat \<Rightarrow> nat" where
  "depth wd u = length (wd u)"

text \<open>
  The facts about single nodes that the completion establishes: what a node with final edges, an untouched
  node and a node with final fail links look like.
\<close>

definition final_edges :: "ac_node list \<Rightarrow> (nat \<Rightarrow> nat list) \<Rightarrow> ac_work \<Rightarrow> nat \<Rightarrow> bool" where
  "final_edges ns wd w u \<longleftrightarrow> (\<forall>e < acValidCharCount. an_next (aw_nodes w ! u) ! e = goto ns wd (wd u @ [e]))"

definition final_fail :: "ac_node list \<Rightarrow> (nat \<Rightarrow> nat list) \<Rightarrow> nat list set \<Rightarrow> ac_work \<Rightarrow> nat \<Rightarrow> bool" where
  "final_fail ns wd P w u \<longleftrightarrow> aw_fail w ! u = goto ns wd (tl (wd u))
     \<and> (an_fail (aw_nodes w ! u) \<noteq> 0 \<longleftrightarrow> inner_match P (wd u))"

text \<open>What no step changes.\<close>

definition work_frame :: "ac_node list \<Rightarrow> ac_work \<Rightarrow> bool" where
  "work_frame ns w \<longleftrightarrow> length (aw_nodes w) = length ns \<and> length (aw_fail w) = length ns
     \<and> (\<forall>u < length ns. an_match (aw_nodes w ! u) = an_match (ns ! u)
          \<and> length (an_next (aw_nodes w ! u)) = acValidCharCount)"

definition bfs_inv :: "ac_node list \<Rightarrow> (nat \<Rightarrow> nat list) \<Rightarrow> nat list set \<Rightarrow> nat set \<Rightarrow> ac_work \<Rightarrow> bool" where
  "bfs_inv ns wd P D w \<longleftrightarrow> work_frame ns w
     \<and> 0 \<in> D \<and> D \<subseteq> {..<length ns} \<and> set (aw_queue w) \<subseteq> {..<length ns} \<and> distinct (aw_queue w) \<and> D \<inter> set (aw_queue w) = {}
     \<and> (\<forall>u \<in> D. final_edges ns wd w u)
     \<and> (\<forall>u < length ns. u \<notin> D \<longrightarrow> an_next (aw_nodes w ! u) = an_next (ns ! u))
     \<and> (\<forall>u \<in> D \<union> set (aw_queue w). final_fail ns wd P w u)
     \<and> (\<forall>u \<in> D. \<forall>e < acValidCharCount. wd u @ [e] \<in> words ns wd \<longrightarrow> goto ns wd (wd u @ [e]) \<in> D \<union> set (aw_queue w))
     \<and> (\<forall>x \<in> D \<union> set (aw_queue w). x \<noteq> 0 \<longrightarrow> butlast (wd x) \<in> wd ` D)
     \<and> sorted (map (depth wd) (aw_queue w))
     \<and> (aw_queue w \<noteq> [] \<longrightarrow> (\<forall>q \<in> set (aw_queue w). depth wd q \<le> Suc (depth wd (hd (aw_queue w))))
          \<and> (\<forall>u < length ns. depth wd u \<le> depth wd (hd (aw_queue w)) \<longrightarrow> u \<in> D \<union> set (aw_queue w)))"

text \<open>The children of \<open>u\<close> along the first edges.\<close>

definition kids :: "ac_node list \<Rightarrow> nat \<Rightarrow> nat \<Rightarrow> nat list" where
  "kids ns u k = filter (\<lambda>n. n \<noteq> 0) (map (\<lambda>e. an_next (ns ! u) ! e) [0 ..< k])"

text \<open>The body of the loop over the edges of \<open>u\<close>, after \<open>k\<close> edges.\<close>

definition visit_inv :: "ac_node list \<Rightarrow> (nat \<Rightarrow> nat list) \<Rightarrow> nat list set \<Rightarrow> nat \<Rightarrow> nat \<Rightarrow> ac_work \<Rightarrow> ac_work \<Rightarrow> bool" where
  "visit_inv ns wd P u k w0 w \<longleftrightarrow> work_frame ns w
     \<and> aw_queue w = aw_queue w0 @ kids ns u k
     \<and> (\<forall>e < acValidCharCount. an_next (aw_nodes w ! u) ! e = (if e < k then goto ns wd (wd u @ [e]) else an_next (ns ! u) ! e))
     \<and> (\<forall>x < length ns. x \<noteq> u \<longrightarrow> an_next (aw_nodes w ! x) = an_next (aw_nodes w0 ! x))
     \<and> (\<forall>x < length ns. x \<notin> set (kids ns u k) \<longrightarrow> aw_fail w ! x = aw_fail w0 ! x \<and> an_fail (aw_nodes w ! x) = an_fail (aw_nodes w0 ! x))
     \<and> (\<forall>x \<in> set (kids ns u k). final_fail ns wd P w x)"

lemma kids_Suc: "kids ns u (Suc k) = kids ns u k @ (if an_next (ns ! u) ! k = 0 then [] else [an_next (ns ! u) ! k])"
  by (simp add: kids_def)

lemma kids_word:
  assumes t: "trie_ok ns wd" and u: "u < length ns" and k: "k \<le> acValidCharCount" and v: "v \<in> set (kids ns u k)"
  shows "v < length ns \<and> v \<noteq> 0 \<and> (\<exists>e < k. wd v = wd u @ [e] \<and> v = an_next (ns ! u) ! e)"
proof -
  from v obtain e where e: "e < k" "v = an_next (ns ! u) ! e" "v \<noteq> 0" by (auto simp: kids_def)
  with k trie_okD(7) [OF t u, of e] show ?thesis by auto
qed

lemma upd_nth: "u < length ns \<Longrightarrow> upd_node u f ns ! x = (if x = u then f (ns ! u) else ns ! x)"
  by (simp add: upd_node_def)

lemma frame_upd:
  assumes "work_frame ns w" "u < length ns" "\<And>x. an_match (f x) = an_match x" "\<And>x. length (an_next (f x)) = length (an_next x)"
  shows "work_frame ns (w\<lparr>aw_nodes := upd_node u f (aw_nodes w)\<rparr>)"
  using assms by (simp add: work_frame_def upd_nth) (simp add: upd_node_def)

lemma frame_fail [simp]: "work_frame ns (w\<lparr>aw_queue := q\<rparr>) = work_frame ns w"
  "work_frame ns (w\<lparr>aw_fail := (aw_fail w)[i := v]\<rparr>) = work_frame ns w"
  by (simp_all add: work_frame_def)

definition patterns_ok :: "'v ac_value list \<Rightarrow> ac_node list \<Rightarrow> (nat \<Rightarrow> nat list) \<Rightarrow> nat list set \<Rightarrow> bool" where
  "patterns_ok vals ns wd P \<longleftrightarrow> trie_ok ns wd \<and> P \<subseteq> words ns wd \<and> [] \<notin> P
     \<and> (\<forall>x < length ns. (an_match (ns ! x) \<noteq> 0 \<longleftrightarrow> wd x \<in> P)
          \<and> (an_match (ns ! x) \<noteq> 0 \<longrightarrow> av_Substr (vals ! an_match (ns ! x)) \<noteq> []))"

definition visit_pre :: "ac_node list \<Rightarrow> (nat \<Rightarrow> nat list) \<Rightarrow> nat list set \<Rightarrow> nat \<Rightarrow> ac_work \<Rightarrow> bool" where
  "visit_pre ns wd P u w0 \<longleftrightarrow> u < length ns \<and> wd u \<noteq> [] \<and> final_edges ns wd w0 (goto ns wd (tl (wd u)))
     \<and> (\<forall>x < length ns. depth wd x \<le> depth wd u \<longrightarrow> final_fail ns wd P w0 x)"

lemma shallow_not_kid:
  assumes "trie_ok ns wd" "u < length ns" "k \<le> acValidCharCount" "depth wd x \<le> depth wd u"
  shows "x \<notin> set (kids ns u k)"
  using kids_word [OF assms(1-3), of x] assms(4) by (auto simp: depth_def)

lemma depth_goto: "trie_ok ns wd \<Longrightarrow> depth wd (goto ns wd w) \<le> length w"
  using suffix_length_le [OF longest_suffix] by (simp add: depth_def goto_word)

lemma shorter_tl: "w \<noteq> [] \<Longrightarrow> length (tl w) < length w"
  by (cases w) auto

lemma visit_step:
  assumes ok: "patterns_ok vals ns wd P" and pre: "visit_pre ns wd P u w0" and inv: "visit_inv ns wd P u k w0 w"
    and k: "k < acValidCharCount"
  shows "visit_inv ns wd P u (Suc k) w0 (ac_edge_step vals u k w)"
proof -
  have t: "trie_ok ns wd" using ok by (simp add: patterns_ok_def)
  have u: "u < length ns" "wd u \<noteq> []" using pre by (simp_all add: visit_pre_def)
  have fr: "work_frame ns w" using inv by (simp add: visit_inv_def)
  then have len: "length (aw_nodes w) = length ns" "length (aw_fail w) = length ns" by (simp_all add: work_frame_def)
  define f where "f = goto ns wd (tl (wd u))"
  define g where "g = goto ns wd (tl (wd u) @ [k])"
  have f: "f < length ns" "depth wd f < depth wd u"
    using goto_word(1) [OF t] le_less_trans [OF depth_goto [OF t] shorter_tl [OF u(2)]] by (simp_all add: f_def depth_def)
  then have fu: "f \<noteq> u" by auto
  have u_fail: "aw_fail w ! u = f"
    using pre inv u shallow_not_kid [OF t u(1) less_imp_le [OF k], of u]
    by (simp add: visit_inv_def visit_pre_def final_fail_def f_def)
  have failIdx: "an_next (aw_nodes w ! f) ! k = g"
  proof -
    have "an_next (aw_nodes w ! f) ! k = an_next (aw_nodes w0 ! f) ! k" using inv f(1) fu by (simp add: visit_inv_def)
    also have "\<dots> = goto ns wd (wd f @ [k])" using pre k by (simp add: visit_pre_def final_edges_def f_def)
    also have "\<dots> = g" by (simp add: f_def g_def goto_step [OF t])
    finally show ?thesis .
  qed
  have here: "an_next (aw_nodes w ! u) ! k = an_next (ns ! u) ! k" using inv k by (simp add: visit_inv_def)
  show ?thesis
  proof (cases "an_next (ns ! u) ! k = 0")
    case True
    have step: "ac_edge_step vals u k w = w\<lparr>aw_nodes := upd_node u (\<lambda>x. x\<lparr>an_next := (an_next x)[k := g], an_edge := (an_edge x)[k := False]\<rparr>) (aw_nodes w)\<rparr>"
      by (simp add: ac_edge_step_def Let_def here True u_fail failIdx)
    have "wd u @ [k] \<notin> words ns wd" using trie_next(1) [OF t u(1) k] True by auto
    then have g: "g = goto ns wd (wd u @ [k])"
      using u(2) by (simp add: g_def goto_def longest_tl)
    have "length (an_next (aw_nodes w ! u)) = acValidCharCount" using fr u(1) by (simp add: work_frame_def)
    then have nexts: "an_next (aw_nodes (ac_edge_step vals u k w) ! u) ! e = (if e < Suc k then goto ns wd (wd u @ [e]) else an_next (ns ! u) ! e)"
      if "e < acValidCharCount" for e
      using inv that k u(1) by (auto simp: step upd_nth len nth_list_update visit_inv_def g less_Suc_eq)
    have "work_frame ns (ac_edge_step vals u k w)"
      unfolding step by (rule frame_upd [OF fr u(1)]) simp_all
    then show ?thesis using inv nexts u(1)
      unfolding visit_inv_def kids_Suc True by (simp add: step upd_nth len final_fail_def)
  next
    case False
    define v where "v = an_next (ns ! u) ! k"
    have v: "v < length ns" "wd v = wd u @ [k]" "v \<noteq> 0" using False trie_okD(7) [OF t u(1) k] by (simp_all add: v_def)
    then have vu: "v \<noteq> u" "goto ns wd (wd u @ [k]) = v" using goto_wd [OF t v(1)] by auto
    have tlv: "tl (wd v) = tl (wd u) @ [k]" "wd v \<noteq> []" using v(2) u(2) by simp_all
    have g: "g < length ns" "wd g = longest (words ns wd) (tl (wd v))" "depth wd g \<le> depth wd u"
      using goto_word [OF t] depth_goto [OF t, of "tl (wd u) @ [k]"] u(2) by (auto simp: g_def tlv depth_def)
    have g_not: "g \<notin> set (kids ns u k)" by (rule shallow_not_kid [OF t u(1) less_imp_le [OF k] g(3)])
    define h where "h = (if an_match (ns ! g) \<noteq> 0 \<and> 0 < length (av_Substr (vals ! an_match (ns ! g))) then g else an_fail (aw_nodes w ! g))"
    have step: "ac_edge_step vals u k w = w\<lparr>aw_queue := aw_queue w @ [v], aw_fail := (aw_fail w)[v := g],
        aw_nodes := upd_node v (\<lambda>x. x\<lparr>an_fail := h\<rparr>) (aw_nodes w)\<rparr>"
      using fr g(1) v(3) by (simp add: ac_edge_step_def Let_def here u_fail failIdx work_frame_def h_def flip: v_def)
    have "an_fail (aw_nodes w ! g) = an_fail (aw_nodes w0 ! g)" using inv g(1) g_not by (simp add: visit_inv_def)
    moreover have "final_fail ns wd P w0 g" using pre g(1,3) by (simp add: visit_pre_def)
    ultimately have gf: "an_fail (aw_nodes w ! g) \<noteq> 0 \<longleftrightarrow> inner_match P (wd g)" by (simp add: final_fail_def)
    have "h \<noteq> 0 \<longleftrightarrow> wd g \<in> P \<or> inner_match P (wd g)"
    proof (cases "wd g \<in> P")
      case True
      with ok g(1) have "an_match (ns ! g) \<noteq> 0 \<and> av_Substr (vals ! an_match (ns ! g)) \<noteq> []" by (simp add: patterns_ok_def)
      moreover have "g \<noteq> 0" using True ok trie_okD(2) [OF t] by (cases "g = 0") (auto simp: patterns_ok_def)
      ultimately show ?thesis using True by (simp add: h_def)
    next
      case False
      with ok g(1) have "\<not> an_match (ns ! g) \<noteq> 0" unfolding patterns_ok_def by blast
      with False gf show ?thesis by (simp add: h_def)
    qed
    also have "\<dots> \<longleftrightarrow> inner_match P (wd v)"
      using inner_match_longest [OF _ t tlv(2), of P] ok by (simp add: g(2) patterns_ok_def)
    finally have vf: "final_fail ns wd P (ac_edge_step vals u k w) v"
      using v(1) by (simp add: final_fail_def step upd_nth len g_def tlv)
    have "work_frame ns (ac_edge_step vals u k w)"
      using frame_upd [OF fr v(1), of "\<lambda>x. x\<lparr>an_fail := h\<rparr>"] by (simp add: step work_frame_def)
    moreover have "kids ns u (Suc k) = kids ns u k @ [v]" using False by (simp add: kids_Suc v_def)
    moreover have "final_fail ns wd P (ac_edge_step vals u k w) x" if "x \<in> set (kids ns u k)" for x
      using that inv vf v(1) by (cases "x = v") (simp_all add: visit_inv_def final_fail_def step upd_nth len)
    ultimately show ?thesis using inv vf v(1) vu u(1)
      unfolding visit_inv_def by (auto simp: step upd_nth len less_Suc_eq v_def)
  qed
qed

lemma fold_upt_inv:
  assumes "I 0 w" "\<And>k w. k < n \<Longrightarrow> I k w \<Longrightarrow> I (Suc k) (f k w)"
  shows "I n (fold f [0 ..< n] w)"
  using assms(2) by (induction n) (use assms(1) in auto)

lemma visit_ok:
  assumes ok: "patterns_ok vals ns wd P" and pre: "visit_pre ns wd P u w0" and fr: "work_frame ns w0"
    and u: "an_next (aw_nodes w0 ! u) = an_next (ns ! u)"
  shows "visit_inv ns wd P u acValidCharCount w0 (ac_visit vals u w0)"
  unfolding ac_visit_def
proof (rule fold_upt_inv)
  show "visit_inv ns wd P u 0 w0 w0"
    using fr u by (simp add: visit_inv_def kids_def)
qed (rule visit_step [OF ok pre])

lemma distinct_kids:
  assumes t: "trie_ok ns wd" and u: "u < length ns" and "k \<le> acValidCharCount"
  shows "distinct (kids ns u k)"
  using assms(3)
proof (induction k)
  case (Suc k)
  have "an_next (ns ! u) ! k \<notin> set (kids ns u k)" if "an_next (ns ! u) ! k \<noteq> 0"
  proof
    assume "an_next (ns ! u) ! k \<in> set (kids ns u k)"
    from kids_word [OF t u _ this] Suc.prems obtain e where "e < k" "wd (an_next (ns ! u) ! k) = wd u @ [e]" by auto
    with trie_okD(7) [OF t u _ that] Suc.prems show False by simp
  qed
  with Suc show ?case by (simp add: kids_Suc)
qed (simp add: kids_def)

lemma kid_of_word:
  assumes t: "trie_ok ns wd" and u: "u < length ns" and e: "e < acValidCharCount" "wd u @ [e] \<in> words ns wd"
  shows "goto ns wd (wd u @ [e]) \<in> set (kids ns u acValidCharCount)"
  using trie_next(1) [OF t u e] e(1) by (force simp: kids_def)

lemma visit_keeps:
  assumes ok: "patterns_ok vals ns wd P" and inv: "bfs_inv ns wd P D w" and q: "aw_queue w = u # q"
  shows "bfs_inv ns wd P (insert u D) (ac_visit vals u (w\<lparr>aw_queue := q\<rparr>))"
proof -
  let ?old = "w\<lparr>aw_queue := q\<rparr>"
  let ?w = "ac_visit vals u ?old"
  let ?K = "kids ns u acValidCharCount"
  have t: "trie_ok ns wd" using ok by (simp add: patterns_ok_def)
  have B: "work_frame ns w" "0 \<in> D" "D \<subseteq> {..<length ns}" "u < length ns" "set q \<subseteq> {..<length ns}" "distinct q" "u \<notin> set q"
      "u \<notin> D" "D \<inter> set q = {}" "sorted (map (depth wd) q)"
    and edges: "\<And>x. x \<in> D \<Longrightarrow> final_edges ns wd w x"
    and same: "\<And>x. x < length ns \<Longrightarrow> x \<notin> D \<Longrightarrow> an_next (aw_nodes w ! x) = an_next (ns ! x)"
    and fails: "\<And>x. x \<in> D \<or> x = u \<or> x \<in> set q \<Longrightarrow> final_fail ns wd P w x"
    and closed: "\<And>x e. x \<in> D \<Longrightarrow> e < acValidCharCount \<Longrightarrow> wd x @ [e] \<in> words ns wd \<Longrightarrow> goto ns wd (wd x @ [e]) \<in> D \<union> insert u (set q)"
    and parents: "\<And>x. x \<in> D \<or> x = u \<or> x \<in> set q \<Longrightarrow> x \<noteq> 0 \<Longrightarrow> butlast (wd x) \<in> wd ` D"
    and near: "\<And>x. x \<in> set q \<Longrightarrow> depth wd u \<le> depth wd x \<and> depth wd x \<le> Suc (depth wd u)"
    and all: "\<And>x. x < length ns \<Longrightarrow> depth wd x \<le> depth wd u \<Longrightarrow> x \<in> D \<or> x = u \<or> x \<in> set q"
    using inv by (auto simp: bfs_inv_def q)
  have wu: "wd u \<noteq> []"
  proof
    assume "wd u = []"
    then have "u = 0" using inj_onD [OF trie_okD(3) [OF t], of u 0] trie_okD(1,2) [OF t] B(4) by simp
    with B(2,8) show False by simp
  qed
  have "depth wd (goto ns wd (tl (wd u))) < depth wd u"
    using le_less_trans [OF depth_goto [OF t] shorter_tl [OF wu]] by (simp add: depth_def)
  then have "goto ns wd (tl (wd u)) \<in> D"
    using all [OF goto_word(1) [OF t], of "tl (wd u)"] near by fastforce
  then have pre: "visit_pre ns wd P u ?old"
    using B(4) wu edges all fails by (simp add: visit_pre_def final_edges_def final_fail_def)
  have V: "visit_inv ns wd P u acValidCharCount ?old ?w"
    using B(1) same [OF B(4,8)] by (intro visit_ok [OF ok pre]) simp_all
  have kid: "x < length ns \<and> depth wd x = Suc (depth wd u)" if "x \<in> set ?K" for x
    using kids_word [OF t B(4) _ that] by (auto simp: depth_def)
  have queue: "aw_queue ?w = q @ ?K" using V by (simp add: visit_inv_def)
  have kid_parent: "butlast (wd x) = wd u" "x \<noteq> 0" if "x \<in> set ?K" for x
    using kids_word [OF t B(4) _ that] by auto
  have u_only: "x = u" if "x \<in> D \<or> x = u" "wd x = wd u" for x
    using inj_onD [OF trie_okD(3) [OF t], of x u] that B(3,4) by auto
  have kid_new: "x \<notin> D \<and> x \<noteq> u \<and> x \<notin> set q" if x: "x \<in> set ?K" for x
  proof (rule ccontr)
    assume "\<not> (x \<notin> D \<and> x \<noteq> u \<and> x \<notin> set q)"
    then have "butlast (wd x) \<in> wd ` D" using parents kid_parent [OF x] by blast
    then obtain p where "p \<in> D" "wd p = wd u" using kid_parent [OF x] by auto
    with u_only B(8) show False by blast
  qed
  have old_edges: "final_edges ns wd ?w x" if "x \<in> D" for x
    using edges [OF that] that V B(3,8) by (auto simp: final_edges_def visit_inv_def)
  have u_edges: "final_edges ns wd ?w u" using V by (simp add: final_edges_def visit_inv_def)
  have untouched: "an_next (aw_nodes ?w ! x) = an_next (ns ! x)" if "x < length ns" "x \<notin> insert u D" for x
    using same [OF that(1)] that V by (simp add: visit_inv_def)
  have old_fail: "final_fail ns wd P ?w x" if "x \<in> D \<or> x = u \<or> x \<in> set q" for x
  proof -
    have "x < length ns" "x \<notin> set ?K" using that B(3-5) kid_new by auto
    with V fails [OF that] show ?thesis by (simp add: visit_inv_def final_fail_def)
  qed
  have kid_fail: "final_fail ns wd P ?w x" if "x \<in> set ?K" for x using that V by (simp add: visit_inv_def)
  have closed': "goto ns wd (wd x @ [e]) \<in> insert u D \<union> set (q @ ?K)"
    if "x \<in> insert u D" "e < acValidCharCount" "wd x @ [e] \<in> words ns wd" for x e
    using that closed [of x e] kid_of_word [OF t B(4) that(2)] by (cases "x = u") auto
  have parents': "butlast (wd x) \<in> wd ` insert u D" if "x \<in> insert u D \<union> set (q @ ?K)" "x \<noteq> 0" for x
    using that parents [of x] kid_parent(1) [of x] by auto
  have "map (depth wd) ?K = map (\<lambda>_. Suc (depth wd u)) ?K" using kid by (intro map_cong) auto
  then have "sorted (map (depth wd) ?K)" by (simp add: map_replicate_const)
  then have d_sorted: "sorted (map (depth wd) (q @ ?K))"
    using B(10) near kid by (auto simp: sorted_append)
  have frame: "work_frame ns ?w" using V by (simp add: visit_inv_def)
  have head: "(\<forall>x \<in> set (q @ ?K). depth wd x \<le> Suc (depth wd (hd (q @ ?K))))
      \<and> (\<forall>x < length ns. depth wd x \<le> depth wd (hd (q @ ?K)) \<longrightarrow> x \<in> insert u D \<union> set (q @ ?K))" if ne: "q @ ?K \<noteq> []"
  proof -
    let ?h = "hd (q @ ?K)"
    have h: "depth wd u \<le> depth wd ?h \<and> depth wd ?h \<le> Suc (depth wd u)"
      using near kid ne hd_in_set [OF ne] by fastforce
    have "depth wd x \<le> Suc (depth wd ?h)" if "x \<in> set (q @ ?K)" for x
      using that near kid h by fastforce
    moreover have "x \<in> insert u D \<union> set (q @ ?K)" if x: "x < length ns" "depth wd x \<le> depth wd ?h" for x
    proof (cases "depth wd x \<le> depth wd u")
      case True
      with all x(1) show ?thesis by auto
    next
      case False
      with h x have dx: "depth wd x = Suc (depth wd u)" and dh: "depth wd ?h = Suc (depth wd u)" by auto
      then have "x \<noteq> 0" using trie_okD(2) [OF t] by (cases "x = 0") (simp_all add: depth_def)
      then obtain p e where p: "p < length ns" "e < acValidCharCount" "an_next (ns ! p) ! e = x"
        using trie_okD(8) [OF t x(1)] by blast
      then have wx: "wd x = wd p @ [e]" using trie_okD(7) [OF t p(1,2)] \<open>x \<noteq> 0\<close> by simp
      then have dp: "depth wd p = depth wd u" using dx by (simp add: depth_def)
      have "p \<notin> set q"
      proof
        assume "p \<in> set q"
        then have "q \<noteq> []" by auto
        then have "?h = hd q" "depth wd (hd q) \<le> depth wd p"
          using B(10) \<open>p \<in> set q\<close> by (auto simp: neq_Nil_conv)
        with dh dp show False by simp
      qed
      with all [OF p(1)] dp have "p \<in> insert u D" by auto
      moreover have "wd p @ [e] \<in> words ns wd" using x(1) by (simp add: words_def flip: wx)
      ultimately have "goto ns wd (wd p @ [e]) \<in> insert u D \<union> set (q @ ?K)" using closed' p(2) by blast
      then show ?thesis using goto_wd [OF t x(1)] by (simp add: wx)
    qed
    ultimately show ?thesis by blast
  qed
  have u_new: "u \<notin> set ?K" using kid_new by blast
  have sub: "insert u D \<subseteq> {..<length ns}" "set (q @ ?K) \<subseteq> {..<length ns}" "distinct (q @ ?K)" "insert u D \<inter> set (q @ ?K) = {}"
    using B kid kid_new u_new distinct_kids [OF t B(4), of acValidCharCount] by auto
  have ef: "\<forall>x \<in> insert u D. final_edges ns wd ?w x" using old_edges u_edges by blast
  have ff: "\<forall>x \<in> insert u D \<union> set (q @ ?K). final_fail ns wd P ?w x" using old_fail kid_fail by auto
  have root: "0 \<in> insert u D" using B(2) by simp
  have untouched': "\<forall>x < length ns. x \<notin> insert u D \<longrightarrow> an_next (aw_nodes ?w ! x) = an_next (ns ! x)" using untouched by blast
  have closed2: "\<forall>x \<in> insert u D. \<forall>e < acValidCharCount. wd x @ [e] \<in> words ns wd \<longrightarrow>
      goto ns wd (wd x @ [e]) \<in> insert u D \<union> set (q @ ?K)" using closed' by blast
  have parents2: "\<forall>x \<in> insert u D \<union> set (q @ ?K). x \<noteq> 0 \<longrightarrow> butlast (wd x) \<in> wd ` insert u D" using parents' by blast
  note head2 = impI [OF head]
  show ?thesis
    unfolding bfs_inv_def queue by (intro conjI frame root sub ef untouched' ff closed2 parents2 d_sorted head2)
qed

lemma bfs_sets:
  "bfs_inv ns wd P D w \<Longrightarrow> D \<subseteq> {..<length ns} \<and> set (aw_queue w) \<subseteq> {..<length ns} \<and> D \<inter> set (aw_queue w) = {}"
  unfolding bfs_inv_def by (elim conjE) (intro conjI, assumption+)

text \<open>The rounds are enough, and at the end every node is final.\<close>

lemma loop_ok:
  "patterns_ok vals ns wd P \<Longrightarrow> bfs_inv ns wd P D w \<Longrightarrow> length ns \<le> k + card D \<Longrightarrow>
     \<exists>D' w'. ac_loop k vals w = Some (aw_nodes w') \<and> aw_queue w' = [] \<and> bfs_inv ns wd P D' w'"
proof (induction k arbitrary: D w)
  case 0
  have D: "D \<subseteq> {..<length ns}" "set (aw_queue w) \<subseteq> {..<length ns}" "D \<inter> set (aw_queue w) = {}"
    using bfs_sets [OF 0(2)] by simp_all
  have "length ns \<le> card D" using 0(3) by simp
  then have "D = {..<length ns}" using card_seteq [OF finite_lessThan D(1)] by simp
  then have "set (aw_queue w) \<subseteq> D" using D(2) by simp
  then have "set (aw_queue w) = {}" using D(3) by (metis Int_absorb1)
  then have "aw_queue w = []" by simp
  then have "ac_loop 0 vals w = Some (aw_nodes w)" by (subst ac_loop.simps) simp
  with 0(2) \<open>aw_queue w = []\<close> show ?case by (intro exI [of _ D] exI [of _ w] conjI)
next
  case (Suc k)
  show ?case
  proof (cases "aw_queue w")
    case Nil
    then have "ac_loop (Suc k) vals w = Some (aw_nodes w)" by (subst ac_loop.simps) simp
    with Suc.prems(2) Nil show ?thesis by (intro exI [of _ D] exI [of _ w] conjI)
  next
    case (Cons u q)
    note keep = visit_keeps [OF Suc.prems(1,2) Cons]
    have "u \<in> set (aw_queue w)" by (simp add: Cons)
    with bfs_sets [OF Suc.prems(2)] have "u \<notin> D" by blast
    moreover have "finite D" using bfs_sets [OF Suc.prems(2)] finite_subset [OF _ finite_lessThan] by blast
    ultimately have "length ns \<le> k + card (insert u D)" using Suc.prems(3) by simp
    note IH = Suc.IH [OF Suc.prems(1) keep this]
    have "ac_loop (Suc k) vals w = ac_loop k vals (ac_visit vals u (w\<lparr>aw_queue := q\<rparr>))"
      by (subst ac_loop.simps) (simp add: Cons)
    with IH show ?thesis by simp
  qed
qed

lemma start_ok:
  assumes ok: "patterns_ok vals ns wd P"
  shows "bfs_inv ns wd P {0} \<lparr>aw_nodes = ns, aw_fail = replicate (length ns) 0, aw_queue = filter (\<lambda>n. n \<noteq> 0) (an_next (ns ! 0))\<rparr>"
proof -
  let ?w = "\<lparr>aw_nodes = ns, aw_fail = replicate (length ns) 0, aw_queue = kids ns 0 acValidCharCount\<rparr>"
  have t: "trie_ok ns wd" and P: "P \<subseteq> words ns wd" "[] \<notin> P" using ok by (simp_all add: patterns_ok_def)
  note T = trie_okD [OF t]
  have q: "filter (\<lambda>n. n \<noteq> 0) (an_next (ns ! 0)) = kids ns 0 acValidCharCount"
    using T(4) [OF T(1)] map_nth [of "an_next (ns ! 0)"] by (simp add: kids_def)
  have root: "goto ns wd [] = 0" using goto_wd [OF t T(1)] T(2) by simp
  have kid: "x < length ns \<and> x \<noteq> 0 \<and> depth wd x = 1 \<and> tl (wd x) = [] \<and> butlast (wd x) = []" if "x \<in> set (kids ns 0 acValidCharCount)" for x
    using kids_word [OF t T(1) _ that] T(2) by (auto simp: depth_def)
  have no_inner: "\<not> inner_match P w" if "length w \<le> 1" for w
    using that P(2) by (cases w) (auto simp: inner_match_def suffix_Cons)
  have edges0: "an_next (ns ! 0) ! e = goto ns wd [e]" if "e < acValidCharCount" for e
  proof (cases "[e] \<in> words ns wd")
    case True
    with trie_next(1) [OF t T(1) that] T(2) show ?thesis by simp
  next
    case False
    with trie_next(2) [OF t T(1) that] T(2) root show ?thesis by (simp add: goto_def)
  qed
  have fails: "final_fail ns wd P ?w x" if "x = 0 \<or> x \<in> set (kids ns 0 acValidCharCount)" for x
  proof -
    have "x < length ns" "tl (wd x) = []" "length (wd x) \<le> 1" using that kid T(1,2) by (auto simp: depth_def)
    then show ?thesis using T(6) no_inner by (simp add: final_fail_def root)
  qed
  have one: "u = 0 \<or> u \<in> set (kids ns 0 acValidCharCount)" if u: "u < length ns" "depth wd u \<le> 1" for u
  proof (cases "u = 0")
    case False
    then obtain p e where p: "p < length ns" "e < acValidCharCount" "an_next (ns ! p) ! e = u" using T(8) [OF u(1)] by blast
    then have wu: "wd u = wd p @ [e]" using T(7) [OF p(1,2)] False by simp
    with u(2) have "wd p = []" by (simp add: depth_def)
    with inj_onD [OF T(3), of p 0] T(1,2) p(1) have "p = 0" by simp
    with wu have "wd 0 @ [e] = wd u" by simp
    moreover have "wd u \<in> words ns wd" using u(1) by (simp add: words_def)
    ultimately have "wd 0 @ [e] \<in> words ns wd" by simp
    from kid_of_word [OF t T(1) p(2) this] goto_wd [OF t u(1)] \<open>p = 0\<close> wu show ?thesis by simp
  qed simp
  have "map (depth wd) (kids ns 0 acValidCharCount) = map (\<lambda>_. 1) (kids ns 0 acValidCharCount)" using kid by (intro map_cong) auto
  then have srt: "sorted (map (depth wd) (kids ns 0 acValidCharCount))" by (simp add: map_replicate_const)
  have head: "depth wd (hd (kids ns 0 acValidCharCount)) = 1" if "kids ns 0 acValidCharCount \<noteq> []" using kid that by simp
  have "work_frame ns ?w" using T(4) by (simp add: work_frame_def)
  then show ?thesis
    unfolding bfs_inv_def q using T(1,2) kid distinct_kids [OF t T(1), of acValidCharCount] edges0 fails
      kid_of_word [OF t T(1)] srt head one
    by (auto simp: final_edges_def)
qed

lemma reached:
  assumes t: "trie_ok ns wd" and inv: "bfs_inv ns wd P D w" and q: "aw_queue w = []"
  shows "u < length ns \<Longrightarrow> u \<in> D"
proof (induction "depth wd u" arbitrary: u rule: less_induct)
  case less
  show ?case
  proof (cases "u = 0")
    case True
    with inv show ?thesis by (simp add: bfs_inv_def)
  next
    case False
    then obtain p e where p: "p < length ns" "e < acValidCharCount" "an_next (ns ! p) ! e = u"
      using trie_okD(8) [OF t less.prems] by blast
    then have wu: "wd u = wd p @ [e]" using trie_okD(7) [OF t p(1,2)] False by simp
    then have "p \<in> D" using less.hyps [OF _ p(1)] by (simp add: depth_def)
    moreover have "wd p @ [e] \<in> words ns wd" using less.prems by (simp add: words_def flip: wu)
    ultimately have "goto ns wd (wd p @ [e]) \<in> D" using inv p(2) q by (auto simp: bfs_inv_def)
    then show ?thesis using goto_wd [OF t less.prems] by (simp add: wu)
  qed
qed

definition automaton_ok :: "ac_node list \<Rightarrow> (nat \<Rightarrow> nat list) \<Rightarrow> nat list set \<Rightarrow> 'v ac \<Rightarrow> bool" where
  "automaton_ok ns wd P a \<longleftrightarrow> (\<forall>u < length ns. final_edges ns wd \<lparr>aw_nodes = ac_nodes a, aw_fail = [], aw_queue = []\<rparr> u
     \<and> (an_match (ac_nodes a ! u) \<noteq> 0 \<longleftrightarrow> wd u \<in> P)
     \<and> (an_match (ac_nodes a ! u) \<noteq> 0 \<longrightarrow> av_Substr (ac_values a ! an_match (ac_nodes a ! u)) \<noteq> [])
     \<and> (an_fail (ac_nodes a ! u) \<noteq> 0 \<longleftrightarrow> inner_match P (wd u)))"

lemma AC_Build_ok:
  assumes ok: "ac_ok a wd P" and P: "[] \<notin> P"
  shows "\<exists>b. AC_Build a = Some b \<and> automaton_ok (ac_nodes a) wd P b"
proof -
  let ?ns = "ac_nodes a"
  have t: "trie_ok ?ns wd" using ok by (simp add: ac_ok_def)
  have pats: "patterns_ok (ac_values a) ?ns wd P" using ok P by (auto simp: ac_ok_def patterns_ok_def words_def)
  have "length ?ns \<le> length ?ns + card {0 :: nat}" by simp
  from loop_ok [OF pats start_ok [OF pats] this] obtain D w where
    run: "ac_loop (length ?ns) (ac_values a) \<lparr>aw_nodes = ?ns, aw_fail = replicate (length ?ns) 0,
        aw_queue = filter (\<lambda>n. n \<noteq> 0) (an_next (?ns ! 0))\<rparr> = Some (aw_nodes w)"
    and w: "aw_queue w = []" "bfs_inv ?ns wd P D w" by blast
  let ?b = "a\<lparr>ac_nodes := aw_nodes w\<rparr>"
  have "AC_Build a = Some ?b" unfolding AC_Build_def run by simp
  moreover have "automaton_ok ?ns wd P ?b"
    unfolding automaton_ok_def
  proof (intro allI impI)
    fix u assume u: "u < length ?ns"
    have "u \<in> D" by (rule reached [OF t w(2,1) u])
    then have "final_edges ?ns wd w u" "final_fail ?ns wd P w u" using w(2) by (simp_all add: bfs_inv_def)
    moreover have "an_match (aw_nodes w ! u) = an_match (?ns ! u)" using w(2) u by (simp add: bfs_inv_def work_frame_def)
    ultimately show "final_edges ?ns wd \<lparr>aw_nodes = ac_nodes ?b, aw_fail = [], aw_queue = []\<rparr> u
        \<and> (an_match (ac_nodes ?b ! u) \<noteq> 0 \<longleftrightarrow> wd u \<in> P)
        \<and> (an_match (ac_nodes ?b ! u) \<noteq> 0 \<longrightarrow> av_Substr (ac_values ?b ! an_match (ac_nodes ?b ! u)) \<noteq> [])
        \<and> (an_fail (ac_nodes ?b ! u) \<noteq> 0 \<longleftrightarrow> inner_match P (wd u))"
      using pats u by (simp add: final_edges_def final_fail_def patterns_ok_def)
  qed
  ultimately show ?thesis by blast
qed

section \<open>Matching finds the patterns\<close>

text \<open>After reading \<open>x\<close> the automaton says yes at the first position where a pattern ends.\<close>

lemma any_from:
  assumes t: "trie_ok ns wd" and P: "P \<subseteq> words ns wd" "[] \<notin> P" and a: "automaton_ok ns wd P a"
  shows "\<not> (\<exists>p \<in> P. sublist p x) \<Longrightarrow> ac_any a (goto ns wd x) full cs \<longleftrightarrow> (\<exists>p \<in> P. sublist p (x @ map acCharset cs))"
proof (induction cs arbitrary: x full)
  case Nil
  let ?u = "goto ns wd x"
  have "wd ?u \<notin> P"
    using Nil longest_suffix [of "words ns wd" x] by (auto simp: goto_word [OF t] dest: suffix_imp_sublist)
  with a goto_word(1) [OF t] have "\<not> an_match (ac_nodes a ! ?u) \<noteq> 0" unfolding automaton_ok_def by blast
  with Nil show ?case by simp
next
  case (Cons c cs)
  let ?e = "acCharset c"
  let ?u = "goto ns wd x" and ?v = "goto ns wd (x @ [?e])"
  have v: "?v < length ns" "wd ?v = longest (words ns wd) (x @ [?e])" by (simp_all add: goto_word [OF t])
  have next_v: "an_next (ac_nodes a ! ?u) ! ?e = ?v"
    using a goto_word(1) [OF t] acCharset_bound [of c] goto_step [OF t] by (simp add: automaton_ok_def final_edges_def)
  have hit: "an_fail (ac_nodes a ! ?v) \<noteq> 0 \<or> an_match (ac_nodes a ! ?v) \<noteq> 0 \<longleftrightarrow> (\<exists>p \<in> P. suffix p (x @ [?e]))"
  proof -
    have "an_fail (ac_nodes a ! ?v) \<noteq> 0 \<or> an_match (ac_nodes a ! ?v) \<noteq> 0 \<longleftrightarrow> (\<exists>p \<in> P. suffix p (wd ?v))"
      using a v(1) unfolding automaton_ok_def inner_match_def by (metis suffix_order.refl)
    also have "\<dots> \<longleftrightarrow> (\<exists>p \<in> P. suffix p (x @ [?e]))"
      unfolding v(2) using P(1) longest_max longest_suffix suffix_order.trans by (metis subsetD)
    finally show ?thesis .
  qed
  have subst: "an_match (ac_nodes a ! ?v) \<noteq> 0 \<Longrightarrow> 0 < length (av_Substr (ac_values a ! an_match (ac_nodes a ! ?v)))"
    using a v(1) by (simp add: automaton_ok_def)
  have app: "x @ map acCharset (c # cs) = (x @ [?e]) @ map acCharset cs" by simp
  show ?case
  proof (cases "\<exists>p \<in> P. suffix p (x @ [?e])")
    case True
    then obtain p zs where p: "p \<in> P" "x @ [?e] = zs @ p" by (auto elim: suffixE)
    have "x @ map acCharset (c # cs) = zs @ p @ map acCharset cs" unfolding app p(2) by simp
    with p(1) have "\<exists>p \<in> P. sublist p (x @ map acCharset (c # cs))" by (metis sublist_appendI)
    moreover have "ac_any a ?u full (c # cs)" using True hit subst by (auto simp: Let_def next_v)
    ultimately show ?thesis by simp
  next
    case False
    then have none: "\<not> (\<exists>p \<in> P. sublist p (x @ [?e]))"
      using Cons.prems by (auto simp: sublist_snoc)
    have "an_fail (ac_nodes a ! ?v) = 0" "an_match (ac_nodes a ! ?v) = 0" using False hit by auto
    then show ?thesis using Cons.IH [OF none] unfolding app by (simp add: Let_def next_v)
  qed
qed

lemma AC_Adds_ok:
  "ac_ok a wd P \<Longrightarrow> \<exists>wd'. ac_ok (fold (\<lambda>(p, v). AC_AddSubstr p v) ps a) wd' ((\<lambda>(p, v). map acCharset (rev p)) ` set ps \<union> P)"
proof (induction ps arbitrary: a wd P)
  case (Cons pv ps)
  obtain p v where pv: "pv = (p, v)" by fastforce
  from AC_AddSubstr_ok [OF Cons.prems, of p v] obtain wd' where
    "ac_ok (AC_AddSubstr p v a) wd' (insert (map acCharset (rev p)) P)" by blast
  from Cons.IH [OF this] show ?case by (simp add: pv)
qed auto

text \<open>
  The completion ends, and the automaton of substring patterns that are not empty says yes exactly where a
  pattern occurs, up to the classes of \<open>acCharset\<close>.
\<close>

lemma AC_matches:
  assumes "list_all (\<lambda>(p, v). p \<noteq> []) ps"
  shows "\<exists>b. AC_Build (fold (\<lambda>(p, v). AC_AddSubstr p v) ps NewAC) = Some b
    \<and> (\<forall>s. AC_MatchAny b s \<longleftrightarrow> list_ex (\<lambda>(p, v). sublist (map acCharset p) (map acCharset s)) ps)"
proof -
  let ?a = "fold (\<lambda>(p, v). AC_AddSubstr p v) ps NewAC"
  let ?P = "(\<lambda>(p, v). map acCharset (rev p)) ` set ps"
  obtain wd where ok: "ac_ok ?a wd ?P" using AC_Adds_ok [OF NewAC_ok, of ps] by auto
  have P: "[] \<notin> ?P" using assms by (auto simp: list_all_iff)
  obtain b where b: "AC_Build ?a = Some b" "automaton_ok (ac_nodes ?a) wd ?P b" using AC_Build_ok [OF ok P] by blast
  have t: "trie_ok (ac_nodes ?a) wd" and sub: "?P \<subseteq> words (ac_nodes ?a) wd"
    using ok by (simp_all add: ac_ok_def words_def)
  have root: "goto (ac_nodes ?a) wd [] = 0"
    using goto_wd [OF t trie_okD(1) [OF t]] trie_okD(2) [OF t] by simp
  have "AC_MatchAny b s \<longleftrightarrow> list_ex (\<lambda>(p, v). sublist (map acCharset p) (map acCharset s)) ps" for s
  proof -
    have none: "\<not> (\<exists>p \<in> ?P. sublist p [])" using P by auto
    have "AC_MatchAny b s \<longleftrightarrow> (\<exists>p \<in> ?P. sublist p (map acCharset (rev s)))"
      using any_from [OF t sub P b(2) none, of True "rev s"] by (simp add: AC_MatchAny_def root)
    also have "\<dots> \<longleftrightarrow> (\<exists>(p, v) \<in> set ps. sublist (rev (map acCharset p)) (rev (map acCharset s)))"
      by (simp add: rev_map case_prod_beta)
    finally show ?thesis by (simp add: list_ex_iff)
  qed
  with b(1) show ?thesis by blast
qed

end
