(* ===== verification/Xray_Mph.thy ===== *)
theory Xray_Mph
  imports Xray_Str_Matchers "HOL-Library.Word" "HOL-Library.Multiset"
begin

text \<open>
  The minimal perfect hash table for full and domain patterns
  (src/xray-core/common/geodata/strmatcher/matchergroup_mph.go): the rolling hash of the
  suffixes, the builder, hash-displace-compress, and the lookup.  The runtime's string hash is the
  parameter \<open>memhash\<close>.  The search for a seed ends where some seed places a bucket without a
  collision; that is a partial function here, whose value is \<open>None\<close> where it does not end.
\<close>

section \<open>Building\<close>

definition PrimeRK :: "32 word" where
  "PrimeRK = 16777619"

definition RollingHash :: "32 word \<Rightarrow> string \<Rightarrow> 32 word" where
  "RollingHash h s = foldr (\<lambda>c h. h * PrimeRK + word_of_nat (byte c)) s h"

record 'v rule_info =
  ri_hash :: "32 word"
  ri_full :: "'v list"
  ri_domain :: "'v list"

record 'v mph_builder =
  mb_rules :: "string list"
  mb_infos :: "(string \<times> 'v rule_info) list"

definition NewMphMatcherGroup :: "'v mph_builder" where
  "NewMphMatcherGroup = \<lparr>mb_rules = [[]], mb_infos = []\<rparr>"

datatype match_type = TFull | TDomain

text \<open>\<open>addPattern\<close> returns the rolling hash of the whole pattern.\<close>

definition addPattern :: "32 word \<Rightarrow> string \<Rightarrow> string \<Rightarrow> match_type \<Rightarrow> 'v \<Rightarrow> 'v mph_builder \<Rightarrow> 32 word \<times> 'v mph_builder" where
  "addPattern suffixHash suffixPattern pattern t v g =
     (let fullPattern = pattern @ suffixPattern;
          (info, g') = (case map_of (mb_infos g) fullPattern of
              Some i \<Rightarrow> (i, g)
            | None \<Rightarrow> (\<lparr>ri_hash = RollingHash suffixHash pattern, ri_full = [], ri_domain = []\<rparr>,
                       g\<lparr>mb_rules := mb_rules g @ [fullPattern]\<rparr>));
          info' = (case t of TFull \<Rightarrow> info\<lparr>ri_full := ri_full info @ [v]\<rparr>
                   | TDomain \<Rightarrow> info\<lparr>ri_domain := ri_domain info @ [v]\<rparr>)
      in (ri_hash info', g'\<lparr>mb_infos := AList.update fullPattern info' (mb_infos g')\<rparr>))"

definition Mph_AddFull :: "string \<Rightarrow> 'v \<Rightarrow> 'v mph_builder \<Rightarrow> 'v mph_builder" where
  "Mph_AddFull p v g = snd (addPattern 0 [] (ToLower p) TFull v g)"

definition Mph_AddDomain :: "string \<Rightarrow> 'v \<Rightarrow> 'v mph_builder \<Rightarrow> 'v mph_builder" where
  "Mph_AddDomain p v g =
     (let pattern = ToLower p; (hash, g') = addPattern 0 [] pattern TDomain v g
      in snd (addPattern hash pattern ''.'' TDomain v g'))"

fun bit_len :: "nat \<Rightarrow> nat" where
  "bit_len n = (if n = 0 then 0 else Suc (bit_len (n div 2)))"

declare bit_len.simps [simp del]

definition nextPow2 :: "nat \<Rightarrow> nat" where
  "nextPow2 v = (if v \<le> 1 then 1 else 2 ^ bit_len v)"

text \<open>One attempt with a seed: the slot of every rule of the bucket must be free.\<close>

definition slot :: "(32 word \<Rightarrow> string \<Rightarrow> 32 word) \<Rightarrow> nat \<Rightarrow> 32 word \<Rightarrow> string \<Rightarrow> nat" where
  "slot memhash n1 seed s = unat (and (memhash seed s) (word_of_nat (n1 - 1)))"

text \<open>The second table; a slot that is occupied holds the index of its rule.\<close>

fun place_bucket ::
  "(32 word \<Rightarrow> string \<Rightarrow> 32 word) \<Rightarrow> string list \<Rightarrow> 32 word \<Rightarrow> nat list \<Rightarrow> bool list \<times> nat list \<Rightarrow> (bool list \<times> nat list) option"
where
  "place_bucket memhash rules seed [] t = Some t"
| "place_bucket memhash rules seed (r # rs) (occupied, level1) =
     (let h = slot memhash (length level1) seed (rules ! r) in
      if occupied ! h then None
      else place_bucket memhash rules seed rs (occupied[h := True], level1[h := r]))"

text \<open>A collision frees the slots of the bucket again, so the next seed starts from the same table.\<close>

partial_function (option) find_seed :: "(32 word \<Rightarrow> 'a option) \<Rightarrow> 32 word \<Rightarrow> (32 word \<times> 'a) option" where
  "find_seed trial seed = (case trial seed of Some r \<Rightarrow> Some (seed, r) | None \<Rightarrow> find_seed trial (seed + 1))"

declare find_seed.simps [code]

fun place_all ::
  "(32 word \<Rightarrow> string \<Rightarrow> 32 word) \<Rightarrow> string list \<Rightarrow> (nat \<times> nat list) list \<Rightarrow> 32 word list \<Rightarrow> bool list \<times> nat list
     \<Rightarrow> (32 word list \<times> nat list) option"
where
  "place_all memhash rules [] level0 t = Some (level0, snd t)"
| "place_all memhash rules ((b, bucket) # bs) level0 t =
     (case find_seed (\<lambda>seed. place_bucket memhash rules seed bucket t) 0 of
        None \<Rightarrow> None
      | Some (seed, t') \<Rightarrow> place_all memhash rules bs (level0[b := seed]) t')"

record 'v mph_group =
  mp_rules :: "string list"
  mp_values :: "'v list list"
  mp_level0 :: "32 word list"
  mp_level1 :: "nat list"

definition bucket_of :: "nat \<Rightarrow> 32 word \<Rightarrow> nat" where
  "bucket_of n0 hash = unat (and hash (word_of_nat (n0 - 1)))"

definition rule_hash :: "'v mph_builder \<Rightarrow> nat \<Rightarrow> 32 word" where
  "rule_hash g r = ri_hash (the (map_of (mb_infos g) (mb_rules g ! r)))"

definition buckets :: "'v mph_builder \<Rightarrow> nat \<Rightarrow> (nat \<times> nat list) list" where
  "buckets g n0 = map (\<lambda>b. (b, filter (\<lambda>r. bucket_of n0 (rule_hash g r) = b) [1 ..< length (mb_rules g)])) [0 ..< n0]"

definition Mph_Build :: "(32 word \<Rightarrow> string \<Rightarrow> 32 word) \<Rightarrow> 'v mph_builder \<Rightarrow> 'v mph_group option" where
  "Mph_Build memhash g =
     (let ruleCount = length (mb_infos g); n0 = nextPow2 (ruleCount div 4); n1 = nextPow2 ruleCount;
          values = map (\<lambda>r. if r = 0 then [] else let i = the (map_of (mb_infos g) (mb_rules g ! r)) in ri_full i @ ri_domain i)
            [0 ..< length (mb_rules g)]
      in map_option (\<lambda>(level0, level1).
             \<lparr>mp_rules = mb_rules g, mp_values = values, mp_level0 = level0, mp_level1 = level1\<rparr>)
           (place_all memhash (mb_rules g) (rev (sort_key (\<lambda>(b, rs). length rs) (buckets g n0)))
             (replicate n0 0) (replicate n1 False, replicate n1 0)))"

section \<open>Matching\<close>

definition Mph_Lookup :: "(32 word \<Rightarrow> string \<Rightarrow> 32 word) \<Rightarrow> 'v mph_group \<Rightarrow> 32 word \<Rightarrow> string \<Rightarrow> nat" where
  "Mph_Lookup memhash g hash input =
     (let seed = mp_level0 g ! bucket_of (length (mp_level0 g)) hash;
          n = mp_level1 g ! slot memhash (length (mp_level1 g)) seed input
      in if mp_rules g ! n = input then n else 0)"

text \<open>The loop from the last byte to the first: the hash and the suffix so far.\<close>

fun mph_scan :: "(32 word \<Rightarrow> string \<Rightarrow> 32 word) \<Rightarrow> 'v mph_group \<Rightarrow> 32 word \<Rightarrow> string \<Rightarrow> string \<Rightarrow> nat list" where
  "mph_scan memhash g hash suf [] = [Mph_Lookup memhash g hash suf]"
| "mph_scan memhash g hash suf (c # front) =
     (let hash' = hash * PrimeRK + word_of_nat (byte c); suf' = c # suf in
      if c = CHR ''.'' then Mph_Lookup memhash g hash' suf' # mph_scan memhash g hash' suf' front
      else mph_scan memhash g hash' suf' front)"

definition Mph_Match :: "(32 word \<Rightarrow> string \<Rightarrow> 32 word) \<Rightarrow> 'v mph_group \<Rightarrow> string \<Rightarrow> 'v list" where
  "Mph_Match memhash g input = concat (map (\<lambda>n. mp_values g ! n)
     (rev (filter (\<lambda>n. n \<noteq> 0) (mph_scan memhash g 0 [] (rev input)))))"

definition Mph_MatchAny :: "(32 word \<Rightarrow> string \<Rightarrow> 32 word) \<Rightarrow> 'v mph_group \<Rightarrow> string \<Rightarrow> bool" where
  "Mph_MatchAny memhash g input \<longleftrightarrow> list_ex (\<lambda>n. n \<noteq> 0) (mph_scan memhash g 0 [] (rev input))"

section \<open>The rules and their hashes\<close>

definition builder_ok :: "'v mph_builder \<Rightarrow> bool" where
  "builder_ok g \<longleftrightarrow> (\<exists>ps. mb_rules g = [] # ps \<and> distinct ps \<and> set ps = fst ` set (mb_infos g))
     \<and> distinct (map fst (mb_infos g)) \<and> (\<forall>(k, i) \<in> set (mb_infos g). ri_hash i = RollingHash 0 k)"

lemma RollingHash_append: "RollingHash h (p @ s) = RollingHash (RollingHash h s) p"
  by (simp add: RollingHash_def)

lemma new_builder_ok: "builder_ok NewMphMatcherGroup"
  by (simp add: builder_ok_def NewMphMatcherGroup_def)

lemma addPattern_ok:
  fixes g :: "'v mph_builder"
  assumes ok: "builder_ok g" and h: "sh = RollingHash 0 sp" and a: "addPattern sh sp p t v g = (h', g')"
  shows "builder_ok g' \<and> h' = RollingHash 0 (p @ sp) \<and> set (tl (mb_rules g')) = insert (p @ sp) (set (tl (mb_rules g)))"
proof -
  obtain ps where ps: "mb_rules g = [] # ps" "distinct ps" "set ps = fst ` set (mb_infos g)"
    using ok by (auto simp: builder_ok_def)
  define upd :: "'v rule_info \<Rightarrow> 'v rule_info" where "upd = (\<lambda>i. case t of TFull \<Rightarrow> i\<lparr>ri_full := ri_full i @ [v]\<rparr> | TDomain \<Rightarrow> i\<lparr>ri_domain := ri_domain i @ [v]\<rparr>)"
  have upd_hash: "ri_hash (upd i) = ri_hash i" for i by (simp add: upd_def split: match_type.split)
  have dist: "distinct (map fst (AList.update k i xs))" if "distinct (map fst xs)" for k and i :: "'v rule_info" and xs
    using that by (rule distinct_update)
  have keys: "fst ` set (AList.update k i xs) = insert k (fst ` set xs)" for k and i :: "'v rule_info" and xs
    by (metis dom_map_of_conv_image_fst dom_fun_upd option.distinct(1) update_conv')
  have hashes: "\<forall>(k, i) \<in> set (AList.update (p @ sp) i xs). ri_hash i = RollingHash 0 k"
    if "\<forall>(k, i) \<in> set xs. ri_hash i = RollingHash 0 k" "ri_hash i = RollingHash 0 (p @ sp)" "distinct (map fst xs)"
    for i :: "'v rule_info" and xs
  proof -
    have "ri_hash j = RollingHash 0 k" if "(k, j) \<in> set (AList.update (p @ sp) i xs)" for k j
    proof -
      have "map_of (AList.update (p @ sp) i xs) k = Some j"
        using that dist [OF \<open>distinct (map fst xs)\<close>] by simp
      then show ?thesis
        using \<open>\<forall>(k, i) \<in> set xs. ri_hash i = RollingHash 0 k\<close> \<open>ri_hash i = _\<close>
        by (auto simp: update_conv' split: if_splits dest!: map_of_SomeD)
    qed
    then show ?thesis by auto
  qed
  show ?thesis
  proof (cases "map_of (mb_infos g) (p @ sp)")
    case None
    then have new: "p @ sp \<notin> set ps" using ps(3) by (simp add: map_of_eq_None_iff)
    let ?i = "upd \<lparr>ri_hash = RollingHash sh p, ri_full = [], ri_domain = []\<rparr>"
    have "h' = ri_hash ?i" and g': "g' = g\<lparr>mb_rules := mb_rules g @ [p @ sp], mb_infos := AList.update (p @ sp) ?i (mb_infos g)\<rparr>"
      using a None by (auto simp: addPattern_def upd_def Let_def)
    moreover have "ri_hash ?i = RollingHash 0 (p @ sp)" by (simp add: upd_hash h RollingHash_append)
    ultimately show ?thesis using ok ps new hashes [of "mb_infos g" ?i] by (simp add: builder_ok_def dist keys)
  next
    case (Some i)
    then have "(p @ sp, i) \<in> set (mb_infos g)" by (rule map_of_SomeD)
    then have i: "ri_hash i = RollingHash 0 (p @ sp)" and old: "p @ sp \<in> set ps"
      using ok ps(3) by (auto simp: builder_ok_def image_iff intro!: bexI [where x = "(p @ sp, i)"])
    have "h' = ri_hash (upd i)" and g': "g' = g\<lparr>mb_infos := AList.update (p @ sp) (upd i) (mb_infos g)\<rparr>"
      using a Some by (auto simp: addPattern_def upd_def Let_def)
    then show ?thesis using ok ps old i hashes [of "mb_infos g" "upd i"]
      by (auto simp: builder_ok_def dist keys upd_hash insert_absorb)
  qed
qed

definition rule_set :: "'v mph_builder \<Rightarrow> string set" where
  "rule_set g = set (tl (mb_rules g))"

lemma Mph_AddFull_ok: "builder_ok g \<Longrightarrow> builder_ok (Mph_AddFull p v g) \<and> rule_set (Mph_AddFull p v g) = insert (ToLower p) (rule_set g)"
  unfolding Mph_AddFull_def rule_set_def
  using addPattern_ok [of g 0 "[]" "ToLower p" TFull v] by (cases "addPattern 0 [] (ToLower p) TFull v g") (simp add: RollingHash_def)

lemma Mph_AddDomain_ok:
  assumes "builder_ok g"
  shows "builder_ok (Mph_AddDomain p v g) \<and>
     rule_set (Mph_AddDomain p v g) = insert (CHR ''.'' # ToLower p) (insert (ToLower p) (rule_set g))"
proof -
  obtain h g' where 1: "addPattern 0 [] (ToLower p) TDomain v g = (h, g')" by fastforce
  obtain h2 g2 where 2: "addPattern h (ToLower p) ''.'' TDomain v g' = (h2, g2)" by fastforce
  from addPattern_ok [OF assms _ 1] have g': "builder_ok g'" "h = RollingHash 0 (ToLower p)"
      "set (tl (mb_rules g')) = insert (ToLower p) (set (tl (mb_rules g)))" by (simp_all add: RollingHash_def)
  from addPattern_ok [OF g'(1,2) 2] g'(3) show ?thesis
    by (simp add: Mph_AddDomain_def Let_def 1 2 rule_set_def)
qed

section \<open>The tables\<close>

lemma mask_bound: "0 < n \<Longrightarrow> unat (and (h :: 32 word) (word_of_nat (n - 1))) < n"
proof -
  assume n: "0 < n"
  have "unat (and h (word_of_nat (n - 1))) \<le> unat (word_of_nat (n - 1) :: 32 word)"
    by (simp add: word_le_nat_alt [symmetric] and.commute word_and_le1)
  also have "\<dots> \<le> n - 1" by (simp add: unsigned_of_nat take_bit_nat_less_eq_self)
  finally show ?thesis using n by linarith
qed

lemma slot_bound: "0 < n \<Longrightarrow> slot memhash n seed s < n"
  unfolding slot_def by (rule mask_bound)

lemma place_bucket_slots:
  assumes "place_bucket mh rules seed rs (occ, l1) = Some (occ', l1')" "l1 \<noteq> []" "length occ = length l1"
  shows "(length occ' = length l1' \<and> length l1' = length l1)
    \<and> (\<forall>h. h < length l1 \<longrightarrow> occ ! h \<longrightarrow> occ' ! h \<and> l1' ! h = l1 ! h)
    \<and> (\<forall>r. r \<in> set rs \<longrightarrow> occ' ! slot mh (length l1) seed (rules ! r) \<and> l1' ! slot mh (length l1) seed (rules ! r) = r)"
  using assms
proof (induction rs arbitrary: occ l1)
  case (Cons a rs)
  let ?h = "slot mh (length l1) seed (rules ! a)"
  have h: "?h < length l1" using Cons.prems(2) by (intro slot_bound) simp
  have free: "\<not> occ ! ?h" and rest: "place_bucket mh rules seed rs (occ[?h := True], l1[?h := a]) = Some (occ', l1')"
    using Cons.prems(1) by (auto simp: Let_def split: if_splits)
  have l: "l1[?h := a] \<noteq> []" "length (occ[?h := True]) = length (l1[?h := a])" using Cons.prems by simp_all
  note IH = Cons.IH [OF rest l]
  have keep: "occ' ! k \<and> l1' ! k = (l1[?h := a]) ! k" if "k < length l1" "(occ[?h := True]) ! k" for k
    using IH that by simp
  have "length occ' = length l1' \<and> length l1' = length l1" using IH by simp
  moreover have old: "occ' ! k \<and> l1' ! k = l1 ! k" if "k < length l1" "occ ! k" for k
  proof -
    from that(2) free have "k \<noteq> ?h" by auto
    with keep [of k] that show ?thesis by simp
  qed
  moreover have "occ' ! slot mh (length l1) seed (rules ! r) \<and> l1' ! slot mh (length l1) seed (rules ! r) = r"
    if "r \<in> set (a # rs)" for r
  proof (cases "r = a")
    case True
    with keep [of ?h] h Cons.prems(3) show ?thesis by simp
  next
    case False
    with that IH show ?thesis by simp
  qed
  ultimately show ?case by blast
qed simp_all

lemma find_seed_Some: "find_seed trial seed = Some (seed', r) \<Longrightarrow> trial seed' = Some r"
proof -
  assume "find_seed trial seed = Some (seed', r)"
  then have "case (seed', r) of (s, r) \<Rightarrow> trial s = Some r"
    by (rule find_seed.raw_induct [rotated]) (auto split: option.splits)
  then show ?thesis by simp
qed

lemma place_all_slots:
  assumes "place_all mh rules bs l0 (occ, l1) = Some (l0', l1')" "l1 \<noteq> []" "length occ = length l1"
     "distinct (map fst bs)" "\<forall>(b, rs) \<in> set bs. b < length l0"
  shows "(length l0' = length l0 \<and> length l1' = length l1)
    \<and> (\<forall>k. k < length l0 \<longrightarrow> k \<notin> fst ` set bs \<longrightarrow> l0' ! k = l0 ! k)
    \<and> (\<forall>b rs r. (b, rs) \<in> set bs \<longrightarrow> r \<in> set rs \<longrightarrow> l1' ! slot mh (length l1) (l0' ! b) (rules ! r) = r)
    \<and> (\<forall>h. h < length l1 \<longrightarrow> occ ! h \<longrightarrow> l1' ! h = l1 ! h)"
  using assms
proof (induction bs arbitrary: l0 occ l1)
  case (Cons c bs)
  note prems = Cons.prems
  obtain d ds where c: "c = (d, ds)" by fastforce
  obtain seed occ2 l2 where seed: "find_seed (\<lambda>seed. place_bucket mh rules seed ds (occ, l1)) 0 = Some (seed, (occ2, l2))"
    and rest: "place_all mh rules bs (l0[d := seed]) (occ2, l2) = Some (l0', l1')"
    using prems(1) by (auto simp: c split: option.splits)
  have placed: "place_bucket mh rules seed ds (occ, l1) = Some (occ2, l2)" by (rule find_seed_Some [OF seed])
  note P = place_bucket_slots [OF placed prems(2,3)]
  have l: "l2 \<noteq> []" "length occ2 = length l2" "length l2 = length l1" using P prems(2) by auto
  have d: "d < length l0" "d \<notin> fst ` set bs" "distinct (map fst bs)" using prems(4,5) by (auto simp: c)
  have bs: "\<forall>(b, rs) \<in> set bs. b < length (l0[d := seed])" using prems(5) by auto
  note IH = Cons.IH [OF rest l(1,2) d(3) bs]
  have l0d: "l0' ! d = seed" using IH d by simp
  have "length l0' = length l0 \<and> length l1' = length l1" using IH l by simp
  moreover have "l0' ! k = l0 ! k" if "k < length l0" "k \<notin> fst ` set (c # bs)" for k
  proof -
    have "k \<noteq> d" "k \<notin> fst ` set bs" using that(2) by (auto simp: c)
    with IH that(1) show ?thesis by simp
  qed
  moreover have keep: "l1' ! h = l2 ! h" if "h < length l1" "occ2 ! h" for h
    using IH that l(3) by simp
  moreover have "l1' ! h = l1 ! h" if "h < length l1" "occ ! h" for h
  proof -
    have "occ2 ! h \<and> l2 ! h = l1 ! h" using P that by blast
    with keep [of h] that(1) show ?thesis by simp
  qed
  moreover have "l1' ! slot mh (length l1) (l0' ! b) (rules ! r) = r" if "(b, rs) \<in> set (c # bs)" "r \<in> set rs" for b rs r
  proof (cases "(b, rs) = c")
    case True
    then have b: "b = d" "rs = ds" by (simp_all add: c)
    have "slot mh (length l1) seed (rules ! r) < length l1" using prems(2) by (intro slot_bound) simp
    moreover have "occ2 ! slot mh (length l1) seed (rules ! r) \<and> l2 ! slot mh (length l1) seed (rules ! r) = r"
      using P that(2) by (simp add: b)
    ultimately show ?thesis using keep by (simp add: b l0d)
  next
    case False
    with that(1) have "(b, rs) \<in> set bs" by simp
    with IH that(2) show ?thesis by (simp only: l(3))
  qed
  ultimately show ?case by blast
qed simp_all

section \<open>A group that was built\<close>

lemma nextPow2_pos: "0 < nextPow2 v"
  by (simp add: nextPow2_def)

lemma map_fst_buckets: "map fst (buckets g n0) = [0 ..< n0]"
  by (simp add: buckets_def comp_def)

lemma place_bucket_entries:
  "place_bucket mh rules seed rs (occ, l1) = Some (occ', l1') \<Longrightarrow> set l1' \<subseteq> set l1 \<union> set rs"
proof (induction rs arbitrary: occ l1)
  case (Cons a rs)
  let ?h = "slot mh (length l1) seed (rules ! a)"
  have "place_bucket mh rules seed rs (occ[?h := True], l1[?h := a]) = Some (occ', l1')"
    using Cons.prems by (auto simp: Let_def split: if_splits)
  with Cons.IH set_update_subset_insert [of l1 ?h a] show ?case by fastforce
qed simp

lemma place_all_entries:
  "place_all mh rules bs l0 (occ, l1) = Some (l0', l1') \<Longrightarrow> set l1' \<subseteq> set l1 \<union> (\<Union>(b, rs) \<in> set bs. set rs)"
proof (induction bs arbitrary: l0 occ l1)
  case (Cons c bs)
  obtain d ds where c: "c = (d, ds)" by fastforce
  obtain seed occ2 l2 where seed: "find_seed (\<lambda>seed. place_bucket mh rules seed ds (occ, l1)) 0 = Some (seed, (occ2, l2))"
    and rest: "place_all mh rules bs (l0[d := seed]) (occ2, l2) = Some (l0', l1')"
    using Cons.prems by (auto simp: c split: option.splits)
  have "set l2 \<subseteq> set l1 \<union> set ds" by (rule place_bucket_entries [OF find_seed_Some [OF seed]])
  with Cons.IH [OF rest] show ?case by (auto simp: c)
qed simp

definition mph_built :: "(32 word \<Rightarrow> string \<Rightarrow> 32 word) \<Rightarrow> 'v mph_builder \<Rightarrow> 'v mph_group \<Rightarrow> bool" where
  "mph_built mh g m \<longleftrightarrow> mp_rules m = mb_rules g \<and> mp_level1 m \<noteq> [] \<and>
     (\<forall>r. 0 < r \<longrightarrow> r < length (mb_rules g) \<longrightarrow>
        mp_level1 m ! slot mh (length (mp_level1 m)) (mp_level0 m ! bucket_of (length (mp_level0 m)) (rule_hash g r)) (mb_rules g ! r) = r)
     \<and> (\<forall>r \<in> set (mp_level1 m). r < length (mb_rules g))"

lemma Mph_Build_built:
  assumes ok: "builder_ok g" and "Mph_Build mh g = Some m"
  shows "mph_built mh g m"
proof -
  define n0 where "n0 = nextPow2 (length (mb_infos g) div 4)"
  define n1 where "n1 = nextPow2 (length (mb_infos g))"
  define bs where "bs = rev (sort_key (\<lambda>(b, rs). length rs) (buckets g n0))"
  have n: "0 < n0" "0 < n1" by (simp_all add: n0_def n1_def nextPow2_pos)
  obtain l0 l1 where p: "place_all mh (mb_rules g) bs (replicate n0 0) (replicate n1 False, replicate n1 0) = Some (l0, l1)"
    and m: "mp_rules m = mb_rules g" "mp_level0 m = l0" "mp_level1 m = l1"
    using assms by (auto simp: Mph_Build_def Let_def n0_def n1_def bs_def)
  have ne_rules: "0 < length (mb_rules g)" using ok by (auto simp: builder_ok_def)
  have set_bs: "set bs = set (buckets g n0)" by (simp add: bs_def)
  have "distinct (map fst (buckets g n0))" by (simp add: map_fst_buckets)
  moreover have "mset (map fst bs) = mset (map fst (buckets g n0))" by (simp add: bs_def)
  ultimately have d: "distinct (map fst bs)" by (metis mset_eq_imp_distinct_iff)
  have b: "\<forall>(b, rs) \<in> set bs. b < length (replicate n0 (0 :: 32 word))"
    by (auto simp: set_bs buckets_def)
  from n(2) have ne: "replicate n1 (0 :: nat) \<noteq> []" by simp
  note slots = place_all_slots [OF p ne _ d b]
  have len: "length l0 = n0" "length l1 = n1" using slots by simp_all
  have "l1 ! slot mh n1 (l0 ! bucket_of n0 (rule_hash g r)) (mb_rules g ! r) = r"
    if r: "0 < r" "r < length (mb_rules g)" for r
  proof -
    let ?b = "bucket_of n0 (rule_hash g r)"
    have "?b < n0" unfolding bucket_of_def by (rule mask_bound [OF n(1)])
    then have "(?b, filter (\<lambda>r. bucket_of n0 (rule_hash g r) = ?b) [1 ..< length (mb_rules g)]) \<in> set bs"
      by (auto simp: set_bs buckets_def)
    moreover have "r \<in> set (filter (\<lambda>r. bucket_of n0 (rule_hash g r) = ?b) [1 ..< length (mb_rules g)])"
      using r by simp
    ultimately show ?thesis using slots by (simp add: len)
  qed
  moreover have "r < length (mb_rules g)" if "r \<in> set l1" for r
    using that subsetD [OF place_all_entries [OF p], of r] ne_rules by (auto simp: set_bs buckets_def)
  ultimately show ?thesis using len n by (auto simp: mph_built_def m)
qed

lemma rule_hash_ok:
  assumes "builder_ok g" "0 < r" "r < length (mb_rules g)"
  shows "rule_hash g r = RollingHash 0 (mb_rules g ! r) \<and> mb_rules g ! r \<in> rule_set g"
proof -
  from assms(1) obtain ps where ps: "mb_rules g = [] # ps" "set ps = fst ` set (mb_infos g)"
    by (auto simp: builder_ok_def)
  have "mb_rules g ! r \<in> set ps" using assms(2,3) ps(1) by (cases r) auto
  moreover from this obtain i where "map_of (mb_infos g) (mb_rules g ! r) = Some i"
    using ps(2) by (metis map_of_eq_None_iff not_None_eq)
  moreover from this have "ri_hash i = RollingHash 0 (mb_rules g ! r)"
    using assms(1) by (auto simp: builder_ok_def dest: map_of_SomeD)
  ultimately show ?thesis by (simp add: rule_hash_def rule_set_def ps(1))
qed

lemma Lookup_rule:
  assumes ok: "builder_ok g" and b: "mph_built mh g m"
  shows "Mph_Lookup mh m (RollingHash 0 s) s \<noteq> 0 \<longleftrightarrow> s \<in> rule_set g"
proof
  define n where "n = mp_level1 m ! slot mh (length (mp_level1 m)) (mp_level0 m ! bucket_of (length (mp_level0 m)) (RollingHash 0 s)) s"
  have m: "mp_rules m = mb_rules g" "mp_level1 m \<noteq> []" using b by (simp_all add: mph_built_def)
  then have "slot mh (length (mp_level1 m)) (mp_level0 m ! bucket_of (length (mp_level0 m)) (RollingHash 0 s)) s < length (mp_level1 m)"
    by (intro slot_bound) simp
  then have "n \<in> set (mp_level1 m)" unfolding n_def by (rule nth_mem)
  then have n: "n < length (mb_rules g)" using b by (simp add: mph_built_def)
  assume l: "Mph_Lookup mh m (RollingHash 0 s) s \<noteq> 0"
  then have "n \<noteq> 0" "mb_rules g ! n = s"
    by (auto simp: Mph_Lookup_def Let_def n_def m split: if_splits)
  with rule_hash_ok [OF ok _ n] show "s \<in> rule_set g" by simp
next
  have m: "mp_rules m = mb_rules g" using b by (simp add: mph_built_def)
  assume "s \<in> rule_set g"
  moreover obtain ps where ps: "mb_rules g = [] # ps" using ok by (auto simp: builder_ok_def)
  ultimately obtain r where r: "0 < r" "r < length (mb_rules g)" "mb_rules g ! r = s"
    by (force simp: rule_set_def in_set_conv_nth)
  then have "rule_hash g r = RollingHash 0 s" using rule_hash_ok [OF ok] by simp
  with b r have "mp_level1 m ! slot mh (length (mp_level1 m)) (mp_level0 m ! bucket_of (length (mp_level0 m)) (RollingHash 0 s)) s = r"
    by (metis mph_built_def)
  with r show "Mph_Lookup mh m (RollingHash 0 s) s \<noteq> 0" by (simp add: Mph_Lookup_def Let_def m)
qed

lemma scan_hits:
  assumes ok: "builder_ok g" and b: "mph_built mh g m"
  shows "list_ex (\<lambda>n. n \<noteq> 0) (mph_scan mh m (RollingHash 0 suf) suf front) \<longleftrightarrow>
     rev front @ suf \<in> rule_set g \<or> (\<exists>a b. front = a @ CHR ''.'' # b \<and> CHR ''.'' # rev a @ suf \<in> rule_set g)"
proof (induction front arbitrary: suf)
  case Nil
  with Lookup_rule [OF ok b, of suf] show ?case by simp
next
  case (Cons c front)
  have h: "RollingHash 0 suf * PrimeRK + word_of_nat (byte c) = RollingHash 0 (c # suf)"
    by (simp add: RollingHash_def)
  have split: "(\<exists>a b. c # front = a @ CHR ''.'' # b \<and> CHR ''.'' # rev a @ suf \<in> rule_set g) \<longleftrightarrow>
      (c = CHR ''.'' \<and> c # suf \<in> rule_set g) \<or> (\<exists>a b. front = a @ CHR ''.'' # b \<and> CHR ''.'' # rev a @ c # suf \<in> rule_set g)"
    (is "?l = ?r")
  proof
    assume ?l
    then obtain a b where a: "c # front = a @ CHR ''.'' # b" "CHR ''.'' # rev a @ suf \<in> rule_set g" by blast
    then show ?r by (cases a) auto
  next
    assume ?r
    then show ?l
    proof
      assume "c = CHR ''.'' \<and> c # suf \<in> rule_set g"
      then have "c # front = [] @ CHR ''.'' # front \<and> CHR ''.'' # rev [] @ suf \<in> rule_set g" by auto
      then show ?l by blast
    next
      assume "\<exists>a b. front = a @ CHR ''.'' # b \<and> CHR ''.'' # rev a @ c # suf \<in> rule_set g"
      then obtain a b where "front = a @ CHR ''.'' # b" "CHR ''.'' # rev a @ c # suf \<in> rule_set g" by blast
      then have "c # front = (c # a) @ CHR ''.'' # b \<and> CHR ''.'' # rev (c # a) @ suf \<in> rule_set g" by simp
      then show ?l by blast
    qed
  qed
  have whole: "rev (c # front) @ suf = rev front @ c # suf" by simp
  show ?case
  proof (cases "c = CHR ''.''")
    case True
    have "list_ex (\<lambda>n. n \<noteq> 0) (mph_scan mh m (RollingHash 0 suf) suf (c # front)) \<longleftrightarrow>
        c # suf \<in> rule_set g \<or> list_ex (\<lambda>n. n \<noteq> 0) (mph_scan mh m (RollingHash 0 (c # suf)) (c # suf) front)"
      unfolding mph_scan.simps Let_def h using True Lookup_rule [OF ok b, of "c # suf"] by simp
    with Cons.IH [of "c # suf"] True show ?thesis unfolding split whole by blast
  next
    case False
    then show ?thesis using Cons.IH [of "c # suf"]
      unfolding mph_scan.simps Let_def h split whole by simp
  qed
qed

lemma suffix_at_dot:
  "(\<exists>a b. rev s = a @ CHR ''.'' # b \<and> CHR ''.'' # rev a \<in> R) \<longleftrightarrow> (\<exists>t p. s = t @ CHR ''.'' # p \<and> CHR ''.'' # p \<in> R)"
proof
  assume "\<exists>a b. rev s = a @ CHR ''.'' # b \<and> CHR ''.'' # rev a \<in> R"
  then obtain a b where "rev s = a @ CHR ''.'' # b" "CHR ''.'' # rev a \<in> R" by blast
  moreover from this(1) have "s = rev b @ CHR ''.'' # rev a" by (simp add: rev_swap)
  ultimately show "\<exists>t p. s = t @ CHR ''.'' # p \<and> CHR ''.'' # p \<in> R" by blast
next
  assume "\<exists>t p. s = t @ CHR ''.'' # p \<and> CHR ''.'' # p \<in> R"
  then obtain t p where "s = t @ CHR ''.'' # p" "CHR ''.'' # p \<in> R" by blast
  then show "\<exists>a b. rev s = a @ CHR ''.'' # b \<and> CHR ''.'' # rev a \<in> R"
    by (intro exI [of _ "rev p"] exI [of _ "rev t"]) simp
qed

lemma MatchAny_rule:
  assumes "builder_ok g" "Mph_Build mh g = Some m"
  shows "Mph_MatchAny mh m s \<longleftrightarrow> s \<in> rule_set g \<or> (\<exists>t p. s = t @ CHR ''.'' # p \<and> CHR ''.'' # p \<in> rule_set g)"
  using scan_hits [OF assms(1) Mph_Build_built [OF assms], of "[]" "rev s", unfolded append_Nil2 rev_rev_ident suffix_at_dot]
  by (simp add: Mph_MatchAny_def RollingHash_def)

section \<open>The patterns that were added\<close>

fun Mph_Add :: "str_matcher \<times> 'v \<Rightarrow> 'v mph_builder \<Rightarrow> 'v mph_builder" where
  "Mph_Add (FullMatcher p, v) g = Mph_AddFull p v g"
| "Mph_Add (DomainMatcher p, v) g = Mph_AddDomain p v g"
| "Mph_Add (m, v) g = g"

fun lower_pattern :: "str_matcher \<Rightarrow> str_matcher" where
  "lower_pattern (FullMatcher p) = FullMatcher (ToLower p)"
| "lower_pattern (DomainMatcher p) = DomainMatcher (ToLower p)"
| "lower_pattern m = m"

fun hash_rules :: "str_matcher \<Rightarrow> string set" where
  "hash_rules (FullMatcher p) = {ToLower p}"
| "hash_rules (DomainMatcher p) = {ToLower p, CHR ''.'' # ToLower p}"
| "hash_rules m = {}"

lemma Mph_Add_ok: "builder_ok g \<Longrightarrow> builder_ok (Mph_Add (m, v) g) \<and> rule_set (Mph_Add (m, v) g) = hash_rules m \<union> rule_set g"
  using Mph_AddFull_ok [of g _ v] Mph_AddDomain_ok [of g _ v] by (cases m) auto

lemma Mph_Adds_ok:
  "builder_ok g \<Longrightarrow> builder_ok (fold Mph_Add ms g) \<and> rule_set (fold Mph_Add ms g) = (\<Union>(m, v) \<in> set ms. hash_rules m) \<union> rule_set g"
proof (induction ms arbitrary: g)
  case (Cons mv ms)
  obtain m v where mv: "mv = (m, v)" by fastforce
  with Cons.IH [of "Mph_Add mv g"] Mph_Add_ok [OF Cons.prems, of m v] show ?case by auto
qed simp

definition undotted :: "str_matcher \<Rightarrow> bool" where
  "undotted m \<longleftrightarrow> (case m of FullMatcher p \<Rightarrow> take 1 (ToLower p) \<noteq> ''.'' | DomainMatcher p \<Rightarrow> take 1 (ToLower p) \<noteq> ''.'' | _ \<Rightarrow> False)"

lemma hash_rules_match:
  assumes "undotted m"
  shows "(s \<in> hash_rules m \<or> (\<exists>t p. s = t @ CHR ''.'' # p \<and> CHR ''.'' # p \<in> hash_rules m)) \<longleftrightarrow> matcher_Match rx (lower_pattern m) s"
proof (cases m)
  case (FullMatcher p)
  with assms have "CHR ''.'' # q \<noteq> ToLower p" for q by (cases "ToLower p") (auto simp: undotted_def)
  then show ?thesis by (auto simp: matcher_Match_def FullMatcher)
next
  case (DomainMatcher p)
  with assms have "CHR ''.'' # q \<noteq> ToLower p" for q by (cases "ToLower p") (auto simp: undotted_def)
  then show ?thesis by (auto simp: matcher_Match_def DomainMatcher_iff DomainMatcher)
qed (use assms in \<open>simp_all add: undotted_def\<close>)

text \<open>Where no pattern begins with a dot, the table decides as matching each pattern alone.\<close>

lemma Mph_matches:
  assumes "list_all (\<lambda>(m, v). undotted m) ms" "Mph_Build mh (fold Mph_Add ms NewMphMatcherGroup) = Some g"
  shows "Mph_MatchAny mh g s \<longleftrightarrow> list_ex (\<lambda>(m, v). matcher_Match rx (lower_pattern m) s) ms"
proof -
  have R: "builder_ok (fold Mph_Add ms NewMphMatcherGroup)"
      "rule_set (fold Mph_Add ms (NewMphMatcherGroup :: 'a mph_builder)) = (\<Union>(m, v) \<in> set ms. hash_rules m)"
    using Mph_Adds_ok [OF new_builder_ok, of ms] by (auto simp: rule_set_def NewMphMatcherGroup_def)
  have "Mph_MatchAny mh g s \<longleftrightarrow> (\<exists>(m, v) \<in> set ms. s \<in> hash_rules m \<or> (\<exists>t p. s = t @ CHR ''.'' # p \<and> CHR ''.'' # p \<in> hash_rules m))"
    unfolding MatchAny_rule [OF R(1) assms(2)] R(2) by blast
  also have "\<dots> \<longleftrightarrow> (\<exists>(m, v) \<in> set ms. matcher_Match rx (lower_pattern m) s)"
  proof (intro bex_cong refl)
    fix x assume x: "x \<in> set ms"
    obtain m v where mv: "x = (m, v)" by fastforce
    with assms(1) x have "undotted m" by (auto simp: list_all_iff)
    from hash_rules_match [OF this, of s rx]
    show "(case x of (m, v) \<Rightarrow> s \<in> hash_rules m \<or> (\<exists>t p. s = t @ CHR ''.'' # p \<and> CHR ''.'' # p \<in> hash_rules m))
        \<longleftrightarrow> (case x of (m, v) \<Rightarrow> matcher_Match rx (lower_pattern m) s)"
      by (simp only: mv prod.case)
  qed
  finally show ?thesis by (simp add: list_ex_iff)
qed

section \<open>The search for seeds ends\<close>

text \<open>
  A bucket is placed by any seed that sends its rules to different free slots.  The builder ends where
  there is such a seed for every bucket, whatever the buckets before it have taken.
\<close>

lemma place_bucket_total:
  "distinct (map (\<lambda>r. slot mh (length l1) seed (rules ! r)) rs) \<Longrightarrow>
     \<forall>r \<in> set rs. \<not> occ ! slot mh (length l1) seed (rules ! r) \<Longrightarrow>
     \<forall>r \<in> set rs. slot mh (length l1) seed (rules ! r) < length occ \<Longrightarrow>
     \<exists>t. place_bucket mh rules seed rs (occ, l1) = Some t"
proof (induction rs arbitrary: occ l1)
  case (Cons a rs)
  let ?h = "slot mh (length l1) seed (rules ! a)"
  have "\<exists>t. place_bucket mh rules seed rs (occ[?h := True], l1[?h := a]) = Some t"
    using Cons.prems by (intro Cons.IH) (auto simp: nth_list_update)
  with Cons.prems show ?case by (simp add: Let_def)
qed simp

lemma find_seed_ends: "trial (seed + word_of_nat k) = Some r \<Longrightarrow> \<exists>t. find_seed trial seed = Some t"
proof (induction k arbitrary: seed)
  case 0
  then show ?case by (subst find_seed.simps) simp
next
  case (Suc k)
  show ?case
  proof (cases "trial seed")
    case None
    from Suc have "\<exists>t. find_seed trial (seed + 1) = Some t" by (simp add: add.assoc)
    with None show ?thesis by (subst find_seed.simps) simp
  next
    case Some
    then show ?thesis by (subst find_seed.simps) simp
  qed
qed

lemma find_seed_total: "trial w = Some r \<Longrightarrow> \<exists>t. find_seed trial 0 = Some t"
  using find_seed_ends [of "trial" 0 "unat w" r] by simp

definition seeds_suffice :: "(32 word \<Rightarrow> string \<Rightarrow> 32 word) \<Rightarrow> string list \<Rightarrow> nat \<Rightarrow> nat list \<Rightarrow> bool" where
  "seeds_suffice mh rules n rs \<longleftrightarrow> (\<forall>occ. length occ = n \<longrightarrow> count_list occ True + length rs \<le> n \<longrightarrow>
     (\<exists>seed. distinct (map (\<lambda>r. slot mh n seed (rules ! r)) rs)
        \<and> (\<forall>r \<in> set rs. \<not> occ ! slot mh n seed (rules ! r))))"

lemma count_list_update: "h < length occ \<Longrightarrow> \<not> occ ! h \<Longrightarrow> count_list (occ[h := True]) True = Suc (count_list occ True)"
  by (induction occ arbitrary: h) (auto split: nat.split)

lemma place_bucket_count:
  "place_bucket mh rules seed rs (occ, l1) = Some (occ', l1') \<Longrightarrow> l1 \<noteq> [] \<Longrightarrow> length occ = length l1 \<Longrightarrow>
     count_list occ' True = count_list occ True + length rs"
proof (induction rs arbitrary: occ l1)
  case (Cons a rs)
  let ?h = "slot mh (length l1) seed (rules ! a)"
  have h: "?h < length occ" using Cons.prems(2,3) by (simp add: slot_bound)
  have free: "\<not> occ ! ?h" and rest: "place_bucket mh rules seed rs (occ[?h := True], l1[?h := a]) = Some (occ', l1')"
    using Cons.prems(1) by (auto simp: Let_def split: if_splits)
  from Cons.IH [OF rest] Cons.prems count_list_update [OF h free] show ?case by simp
qed simp

lemma place_all_ends:
  "l1 \<noteq> [] \<Longrightarrow> length occ = length l1 \<Longrightarrow> \<forall>(b, rs) \<in> set bs. seeds_suffice mh rules (length l1) rs \<Longrightarrow>
     count_list occ True + sum_list (map (length \<circ> snd) bs) \<le> length l1 \<Longrightarrow>
     \<exists>t. place_all mh rules bs l0 (occ, l1) = Some t"
proof (induction bs arbitrary: l0 occ l1)
  case (Cons c bs)
  obtain d ds where c: "c = (d, ds)" by fastforce
  have "\<exists>seed. distinct (map (\<lambda>r. slot mh (length l1) seed (rules ! r)) ds)
        \<and> (\<forall>r \<in> set ds. \<not> occ ! slot mh (length l1) seed (rules ! r))"
    using Cons.prems by (auto simp: c seeds_suffice_def)
  then obtain seed where seed: "distinct (map (\<lambda>r. slot mh (length l1) seed (rules ! r)) ds)"
      "\<forall>r \<in> set ds. \<not> occ ! slot mh (length l1) seed (rules ! r)" by blast
  have "\<forall>r \<in> set ds. slot mh (length l1) seed (rules ! r) < length occ"
    using Cons.prems(1,2) by (auto intro: slot_bound)
  from place_bucket_total [OF seed this] obtain t where
    "place_bucket mh rules seed ds (occ, l1) = Some t" by blast
  from find_seed_total [where ?trial = "\<lambda>seed. place_bucket mh rules seed ds (occ, l1)", OF this]
  obtain s' occ2 l2 where f: "find_seed (\<lambda>seed. place_bucket mh rules seed ds (occ, l1)) 0 = Some (s', (occ2, l2))"
    by auto
  note p = find_seed_Some [OF f]
  note P = place_bucket_slots [OF p Cons.prems(1,2)] and n = place_bucket_count [OF p Cons.prems(1,2)]
  have "\<exists>t. place_all mh rules bs (l0[d := s']) (occ2, l2) = Some t"
    using P n Cons.prems by (intro Cons.IH) (auto simp: c)
  then show ?case by (simp add: c f)
qed simp

lemma less_bit_len: "n < 2 ^ bit_len n"
proof (induction n rule: bit_len.induct)
  case (1 n)
  show ?case
  proof (cases "n = 0")
    case False
    with 1 have "n div 2 < 2 ^ bit_len (n div 2)" by simp
    with False show ?thesis by (subst bit_len.simps) simp
  qed (simp add: bit_len.simps)
qed

lemma le_nextPow2: "n \<le> nextPow2 n"
  using less_bit_len [of n] by (simp add: nextPow2_def less_imp_le)

lemma sum_filter_lengths:
  "\<forall>r \<in> set rs. f r < n \<Longrightarrow> (\<Sum>b \<leftarrow> [0 ..< n]. length (filter (\<lambda>r. f r = b) rs)) = length rs"
proof (induction rs)
  case (Cons a rs)
  have "(\<Sum>b \<leftarrow> [0 ..< n]. length (filter (\<lambda>r. f r = b) (a # rs))) =
      (\<Sum>b \<leftarrow> [0 ..< n]. (if f a = b then 1 else 0) + length (filter (\<lambda>r. f r = b) rs))"
    by (rule arg_cong [of _ _ sum_list]) simp
  also have "\<dots> = (\<Sum>b \<leftarrow> [0 ..< n]. if f a = b then 1 else 0) + length rs"
    using Cons by (simp add: sum_list_addf)
  also have "(\<Sum>b \<leftarrow> [0 ..< n]. if f a = b then 1 else (0 :: nat)) = 1"
    using Cons.prems by (simp add: sum_list_distinct_conv_sum_set)
  finally show ?case by simp
qed (simp add: sum_list_0)

lemma builder_length: "builder_ok g \<Longrightarrow> length (mb_rules g) = Suc (length (mb_infos g))"
proof -
  assume "builder_ok g"
  then obtain ps where ps: "mb_rules g = [] # ps" "distinct ps" "set ps = fst ` set (mb_infos g)"
      "distinct (map fst (mb_infos g))" by (auto simp: builder_ok_def)
  have "length ps = card (set (map fst (mb_infos g)))" using ps(2,3) by (simp flip: distinct_card)
  also have "\<dots> = length (map fst (mb_infos g))" using ps(4) by (rule distinct_card)
  finally show ?thesis by (simp add: ps(1))
qed

lemma Mph_Build_ends:
  assumes ok: "builder_ok g"
    and seeds: "\<forall>rs. set rs \<subseteq> {1 ..< length (mb_rules g)} \<longrightarrow> distinct rs \<longrightarrow>
       seeds_suffice mh (mb_rules g) (nextPow2 (length (mb_infos g))) rs"
  shows "\<exists>m. Mph_Build mh g = Some m"
proof -
  define n0 where "n0 = nextPow2 (length (mb_infos g) div 4)"
  define n1 where "n1 = nextPow2 (length (mb_infos g))"
  define bs where "bs = rev (sort_key (\<lambda>(b, rs). length rs) (buckets g n0))"
  have n: "0 < n0" "0 < n1" by (simp_all add: n0_def n1_def nextPow2_pos)
  have "mset (map (length \<circ> snd) bs) = mset (map (length \<circ> snd) (buckets g n0))" by (simp add: bs_def)
  then have "sum_list (map (length \<circ> snd) bs) = sum_list (map (length \<circ> snd) (buckets g n0))"
    by (metis sum_mset_sum_list)
  also have "\<dots> = (\<Sum>b \<leftarrow> [0 ..< n0]. length (filter (\<lambda>r. bucket_of n0 (rule_hash g r) = b) [1 ..< length (mb_rules g)]))"
    by (simp add: buckets_def comp_def)
  also have "\<dots> = length [1 ..< length (mb_rules g)]"
    unfolding bucket_of_def by (intro sum_filter_lengths ballI mask_bound n)
  also have "\<dots> = length (mb_infos g)" by (simp only: length_upt builder_length [OF ok] diff_Suc_1)
  also have "\<dots> \<le> n1" unfolding n1_def by (rule le_nextPow2)
  finally have len: "count_list (replicate n1 False) True + sum_list (map (length \<circ> snd) bs) \<le> length (replicate n1 (0 :: nat))"
    by (simp add: count_list_0_iff)
  have "\<forall>(b, rs) \<in> set bs. seeds_suffice mh (mb_rules g) (length (replicate n1 (0 :: nat))) rs"
  proof clarify
    fix b rs assume "(b, rs) \<in> set bs"
    then have "set rs \<subseteq> {1 ..< length (mb_rules g)}" "distinct rs" by (auto simp: bs_def buckets_def)
    with seeds show "seeds_suffice mh (mb_rules g) (length (replicate n1 (0 :: nat))) rs" by (simp add: n1_def)
  qed
  from place_all_ends [OF _ _ this len, of "replicate n0 0"] n obtain t where
    "place_all mh (mb_rules g) bs (replicate n0 0) (replicate n1 False, replicate n1 0) = Some t" by auto
  then show ?thesis by (auto simp: Mph_Build_def Let_def bs_def n0_def n1_def split: prod.splits)
qed

end
