(* ===== verification/Xray_Domain_Rules.thy ===== *)
theory Xray_Domain_Rules
  imports Xray_Automaton Xray_Mph
begin

text \<open>
  The domain matchers of xray's routing rules: the value matcher made of the hash table, the automaton and the
  regular expressions (src/xray-core/common/geodata/strmatcher/valuematcher_mph.go), the two factories that build a
  matcher from rules (domain_matcher.go) and the registry whose matchers a reload replaces
  (domain_registry.go).  Values are the numbers of the rules.  A build that does not end, because no seed
  places a bucket of the hash table, is the error \<open>no_end\<close>.
\<close>

section \<open>The value matcher\<close>

type_synonym mem_hash = "32 word \<Rightarrow> string \<Rightarrow> 32 word"

record domain_libs =
  dl_regexp :: regexp_lib
  dl_memhash :: mem_hash

record mph_value =
  mv_mph :: "nat mph_builder option"
  mv_ac :: "nat ac option"
  mv_regex :: "nat simple_group"

definition NewMphValue :: mph_value where
  "NewMphValue = \<lparr>mv_mph = None, mv_ac = None, mv_regex = []\<rparr>"

definition or_new :: "'a option \<Rightarrow> 'a \<Rightarrow> 'a" where
  "or_new x new = (case x of None \<Rightarrow> new | Some y \<Rightarrow> y)"

definition MphValue_Add :: "str_matcher \<Rightarrow> nat \<Rightarrow> mph_value \<Rightarrow> mph_value" where
  "MphValue_Add m v g = (case m of
       FullMatcher p \<Rightarrow> g\<lparr>mv_mph := Some (Mph_AddFull p v (or_new (mv_mph g) NewMphMatcherGroup))\<rparr>
     | DomainMatcher p \<Rightarrow> g\<lparr>mv_mph := Some (Mph_AddDomain p v (or_new (mv_mph g) NewMphMatcherGroup))\<rparr>
     | SubstrMatcher p \<Rightarrow> g\<lparr>mv_ac := Some (AC_AddSubstr p v (or_new (mv_ac g) NewAC))\<rparr>
     | RegexMatcher p \<Rightarrow> g\<lparr>mv_regex := mv_regex g @ [(RegexMatcher p, v)]\<rparr>)"

record mph_matcher =
  mm_mph :: "nat mph_group option"
  mm_ac :: "nat ac option"
  mm_regex :: "nat simple_group"

definition build_part :: "('a \<Rightarrow> 'b option) \<Rightarrow> 'a option \<Rightarrow> 'b option option" where
  "build_part f x = (case x of None \<Rightarrow> Some None | Some y \<Rightarrow> map_option Some (f y))"

definition no_end :: err where
  "no_end = Panic ''the search for a seed does not end''"

definition MphValue_Build :: "mem_hash \<Rightarrow> mph_value \<Rightarrow> mph_matcher res" where
  "MphValue_Build mh g = (case (build_part (Mph_Build mh) (mv_mph g), build_part AC_Build (mv_ac g)) of
       (Some m, Some a) \<Rightarrow> Inr \<lparr>mm_mph = m, mm_ac = a, mm_regex = mv_regex g\<rparr>
     | _ \<Rightarrow> Inl no_end)"

definition MphValue_MatchAny :: "domain_libs \<Rightarrow> mph_matcher \<Rightarrow> string \<Rightarrow> bool" where
  "MphValue_MatchAny dl m s \<longleftrightarrow>
     (case mm_mph m of None \<Rightarrow> False | Some g \<Rightarrow> Mph_MatchAny (dl_memhash dl) g s)
     \<or> (case mm_ac m of None \<Rightarrow> False | Some a \<Rightarrow> AC_MatchAny a s)
     \<or> SimpleGroup_MatchAny (dl_regexp dl) (mm_regex m) s"

section \<open>From rules to matchers\<close>

definition parseDomain :: "regexp_lib \<Rightarrow> domain \<Rightarrow> str_matcher res" where
  "parseDomain rx d = (case do_Type d of
       Domain_Substr \<Rightarrow> Inr (SubstrMatcher (ToLower (do_Value d)))
     | Domain_Regex \<Rightarrow> (if rx (do_Value d) = None then Inl (Err ''error parsing regexp'') else Inr (RegexMatcher (do_Value d)))
     | Domain_Domain \<Rightarrow> Inr (DomainMatcher (do_Value d))
     | Domain_Full \<Rightarrow> Inr (FullMatcher (ToLower (do_Value d))))"

definition type_name :: "domain_type \<Rightarrow> string" where
  "type_name t = (case t of Domain_Substr \<Rightarrow> ''Substr'' | Domain_Regex \<Rightarrow> ''Regex'' | Domain_Domain \<Rightarrow> ''Domain'' | Domain_Full \<Rightarrow> ''Full'')"

definition rule_key :: "domain_rule \<Rightarrow> string" where
  "rule_key r = (case r of
       Dom_Custom d \<Rightarrow> type_name (do_Type d) @ '':'' @ do_Value d @ '',''
     | Dom_Geosite g \<Rightarrow> gs_File g @ '':'' @ gs_Code g @ ''@'' @ gs_Attrs g @ '','')"

definition is_geosite :: "domain_rule \<Rightarrow> bool" where
  "is_geosite r \<longleftrightarrow> (case r of Dom_Geosite _ \<Rightarrow> True | Dom_Custom _ \<Rightarrow> False)"

definition buildDomainRulesKey :: "domain_rule list \<Rightarrow> string" where
  "buildDomainRulesKey rules = (if list_ex is_geosite rules then concat (map rule_key rules) else [])"

text \<open>An entry of a data file that cannot be compiled is logged and left out.\<close>

definition valid_matchers :: "regexp_lib \<Rightarrow> domain list \<Rightarrow> str_matcher list" where
  "valid_matchers rx ds = concat (map (\<lambda>d. case parseDomain rx d of Inl e \<Rightarrow> [] | Inr m \<Rightarrow> [m]) ds)"

definition rule_matchers :: "regexp_lib \<Rightarrow> geo_env \<Rightarrow> domain_rule \<Rightarrow> str_matcher list res" where
  "rule_matchers rx env r = (case r of
       Dom_Custom d \<Rightarrow> bind_res (parseDomain rx d) (\<lambda>m. Inr [m])
     | Dom_Geosite g \<Rightarrow> bind_res (loadSiteWithAttrs env (gs_File g) (gs_Code g) (gs_Attrs g)) (\<lambda>ds. Inr (valid_matchers rx ds)))"

fun add_rules :: "regexp_lib \<Rightarrow> geo_env \<Rightarrow> nat \<Rightarrow> domain_rule list \<Rightarrow> mph_value \<Rightarrow> mph_value res" where
  "add_rules rx env i [] g = Inr g"
| "add_rules rx env i (r # rs) g = bind_res (rule_matchers rx env r) (\<lambda>ms.
     add_rules rx env (Suc i) rs (fold (\<lambda>m. MphValue_Add m i) ms g))"

type_synonym mph_factory = "string \<Rightarrow> mph_matcher option"

definition MphFactory_BuildMatcher ::
  "domain_libs \<Rightarrow> geo_env \<Rightarrow> domain_rule list \<Rightarrow> mph_factory \<Rightarrow> mph_matcher res \<times> mph_factory"
where
  "MphFactory_BuildMatcher dl env rules f =
     (if rules = [] then (Inl (Err ''empty domain rule list''), f)
      else let key = buildDomainRulesKey rules in
        case (if key = [] then None else f key) of
          Some m \<Rightarrow> (Inr m, f)
        | None \<Rightarrow> (case bind_res (add_rules (dl_regexp dl) env 0 rules NewMphValue) (MphValue_Build (dl_memhash dl)) of
            Inl e \<Rightarrow> (Inl e, f)
          | Inr m \<Rightarrow> (Inr m, if key = [] then f else f(key \<mapsto> m))))"

section \<open>The compact matcher\<close>

record compact_matcher =
  cm_custom :: "nat linear_matcher"
  cm_matchers :: "any_matcher list"
  cm_values :: "nat list"

type_synonym compact_factory = "string \<Rightarrow> any_matcher option"

definition getOrCreateFrom :: "regexp_lib \<Rightarrow> geo_env \<Rightarrow> geosite_rule \<Rightarrow> compact_factory \<Rightarrow> any_matcher res \<times> compact_factory" where
  "getOrCreateFrom rx env g f =
     (let key = gs_File g @ '':'' @ gs_Code g @ ''@'' @ gs_Attrs g in
      case f key of
        Some s \<Rightarrow> (Inr s, f)
      | None \<Rightarrow> (case loadSiteWithAttrs env (gs_File g) (gs_Code g) (gs_Attrs g) of
          Inl e \<Rightarrow> (Inl e, f)
        | Inr ds \<Rightarrow> let s = fold Any_Add (valid_matchers rx ds) NewAny in (Inr s, f(key \<mapsto> s))))"

fun compact_rules ::
  "regexp_lib \<Rightarrow> geo_env \<Rightarrow> nat \<Rightarrow> domain_rule list \<Rightarrow> compact_matcher \<Rightarrow> compact_factory \<Rightarrow> compact_matcher res \<times> compact_factory"
where
  "compact_rules rx env i [] c f = (Inr c, f)"
| "compact_rules rx env i (Dom_Custom d # rs) c f = (case parseDomain rx d of
       Inl e \<Rightarrow> (Inl e, f)
     | Inr m \<Rightarrow> compact_rules rx env (Suc i) rs (c\<lparr>cm_custom := Linear_Add m i (cm_custom c)\<rparr>) f)"
| "compact_rules rx env i (Dom_Geosite g # rs) c f = (case getOrCreateFrom rx env g f of
       (Inl e, f') \<Rightarrow> (Inl e, f')
     | (Inr s, f') \<Rightarrow> compact_rules rx env (Suc i) rs
         (c\<lparr>cm_matchers := cm_matchers c @ [s], cm_values := cm_values c @ [i]\<rparr>) f')"

definition CompactFactory_BuildMatcher ::
  "regexp_lib \<Rightarrow> geo_env \<Rightarrow> domain_rule list \<Rightarrow> compact_factory \<Rightarrow> compact_matcher res \<times> compact_factory"
where
  "CompactFactory_BuildMatcher rx env rules f =
     (if rules = [] then (Inl (Err ''empty domain rule list''), f)
      else compact_rules rx env 0 rules \<lparr>cm_custom = NewLinear, cm_matchers = [], cm_values = []\<rparr> f)"

definition Compact_MatchAny :: "regexp_lib \<Rightarrow> compact_matcher \<Rightarrow> string \<Rightarrow> bool" where
  "Compact_MatchAny rx c s \<longleftrightarrow> Linear_MatchAny rx (cm_custom c) s \<or> list_ex (\<lambda>m. Any_MatchAny rx m s) (cm_matchers c)"

section \<open>The registry\<close>

record dyn_domain_matcher =
  dd_rules :: "domain_rule list"
  dd_state :: mph_matcher

definition Dyn_MatchAny :: "domain_libs \<Rightarrow> dyn_domain_matcher \<Rightarrow> string \<Rightarrow> bool" where
  "Dyn_MatchAny dl d s \<longleftrightarrow> MphValue_MatchAny dl (dd_state d) s"

definition DynDomain_Reload :: "mph_matcher \<Rightarrow> dyn_domain_matcher \<Rightarrow> dyn_domain_matcher" where
  "DynDomain_Reload m d = d\<lparr>dd_state := m\<rparr>"

definition NewDynamicDomainMatcher :: "domain_rule list \<Rightarrow> mph_matcher \<Rightarrow> dyn_domain_matcher" where
  "NewDynamicDomainMatcher rules m = DynDomain_Reload m \<lparr>dd_rules = rules, dd_state = m\<rparr>"

record domain_registry =
  dr_factory :: mph_factory
  dr_matchers :: "dyn_domain_matcher list"

definition BuildDomainMatcher ::
  "domain_libs \<Rightarrow> geo_env \<Rightarrow> domain_rule list \<Rightarrow> domain_registry \<Rightarrow> dyn_domain_matcher res \<times> domain_registry"
where
  "BuildDomainMatcher dl env rules r = (case MphFactory_BuildMatcher dl env rules (dr_factory r) of
       (Inl e, f) \<Rightarrow> (Inl e, r\<lparr>dr_factory := f\<rparr>)
     | (Inr m, f) \<Rightarrow> let d = NewDynamicDomainMatcher rules m in
         (Inr d, r\<lparr>dr_factory := f, dr_matchers := dr_matchers r @ [d]\<rparr>))"

fun rebuild_domains ::
  "domain_libs \<Rightarrow> geo_env \<Rightarrow> mph_factory \<Rightarrow> dyn_domain_matcher list \<Rightarrow> dyn_domain_matcher list res \<times> mph_factory"
where
  "rebuild_domains dl env f [] = (Inr [], f)"
| "rebuild_domains dl env f (d # ds) = (case MphFactory_BuildMatcher dl env (dd_rules d) f of
       (Inl e, f') \<Rightarrow> (Inl e, f')
     | (Inr m, f') \<Rightarrow> (case rebuild_domains dl env f' ds of
           (Inl e, f'') \<Rightarrow> (Inl e, f'')
         | (Inr ds', f'') \<Rightarrow> (Inr (DynDomain_Reload m d # ds'), f'')))"

definition DomainRegistry_Reload :: "domain_libs \<Rightarrow> geo_env \<Rightarrow> domain_registry \<Rightarrow> unit res \<times> domain_registry" where
  "DomainRegistry_Reload dl env r = (case rebuild_domains dl env Map.empty (dr_matchers r) of
       (Inl e, _) \<Rightarrow> (Inl e, r)
     | (Inr ds, f) \<Rightarrow> (Inr (), \<lparr>dr_factory = f, dr_matchers = ds\<rparr>))"

section \<open>What a built matcher matches\<close>

text \<open>A domain of lower-case letters, digits, hyphens and dots.\<close>

definition ldh :: "string \<Rightarrow> bool" where
  "ldh s \<longleftrightarrow> list_all (\<lambda>c. acCharset c \<noteq> 0) s \<and> ToLower s = s"

lemma lower_letters: "to_lower_char c = c \<Longrightarrow> \<not> (65 \<le> byte c \<and> byte c \<le> 90)"
proof
  assume "to_lower_char c = c" and b: "65 \<le> byte c \<and> byte c \<le> 90"
  then have "byte c = byte (char_of (byte c + 32))" by (simp add: to_lower_char_def)
  with b show False by simp
qed

lemma acCharset_inj:
  assumes "acCharset c = acCharset d" "acCharset d \<noteq> 0" "to_lower_char c = c" "to_lower_char d = d"
  shows "c = d"
proof -
  have "byte c = byte d"
    using assms(1,2) lower_letters [OF assms(3)] lower_letters [OF assms(4)]
    by (auto simp: acCharset_def Let_def simp del: of_char_eq_iff split: if_splits)
  then show ?thesis by simp
qed

lemma map_charset_inj:
  "map acCharset p = map acCharset q \<Longrightarrow> ToLower p = p \<Longrightarrow> ldh q \<Longrightarrow> p = q"
proof (induction p arbitrary: q)
  case (Cons c p)
  then obtain d q' where q: "q = d # q'" by (cases q) auto
  with Cons acCharset_inj [of c d] show ?case by (auto simp: ldh_def ToLower_def)
qed simp

lemma ldh_append: "ldh (a @ b) \<longleftrightarrow> ldh a \<and> ldh b"
  by (auto simp: ldh_def ToLower_def append_eq_append_conv)

lemma substr_classes:
  assumes "ToLower p = p" "ldh s"
  shows "sublist (map acCharset p) (map acCharset s) \<longleftrightarrow> Contains s p"
proof
  assume "sublist (map acCharset p) (map acCharset s)"
  then obtain as bs where "map acCharset s = as @ map acCharset p @ bs" by (auto simp: sublist_def)
  then obtain a p' b where s: "s = a @ p' @ b" and p': "map acCharset p = map acCharset p'"
    by (auto simp: map_eq_append_conv append_eq_map_conv)
  from assms(2) s have "ldh p'" by (simp add: ldh_append)
  with map_charset_inj [OF p' assms(1)] s show "Contains s p" by (auto simp: Contains_iff)
next
  assume "Contains s p"
  then obtain a b where "s = a @ p @ b" by (auto simp: Contains_iff)
  then show "sublist (map acCharset p) (map acCharset s)" by simp
qed

text \<open>The parts of a value matcher to which matchers were added one after the other.\<close>

definition hashed :: "str_matcher \<Rightarrow> bool" where
  "hashed m \<longleftrightarrow> (case m of FullMatcher _ \<Rightarrow> True | DomainMatcher _ \<Rightarrow> True | _ \<Rightarrow> False)"

fun substr_of :: "str_matcher \<times> nat \<Rightarrow> (string \<times> nat) list" where
  "substr_of (SubstrMatcher p, v) = [(p, v)]"
| "substr_of (m, v) = []"

fun regex_of :: "str_matcher \<times> nat \<Rightarrow> nat simple_group" where
  "regex_of (RegexMatcher p, v) = [(RegexMatcher p, v)]"
| "regex_of (m, v) = []"

definition adds :: "(str_matcher \<times> nat) list \<Rightarrow> mph_value" where
  "adds ms = fold (\<lambda>(m, v). MphValue_Add m v) ms NewMphValue"

lemma or_new_simps [simp]: "or_new None y = y" "or_new (Some x) y = x"
  by (simp_all add: or_new_def)

lemma adds_parts:
  "mv_mph (adds ms) = (let hs = filter (hashed \<circ> fst) ms in if hs = [] then None else Some (fold Mph_Add hs NewMphMatcherGroup))
   \<and> mv_ac (adds ms) = (let ss = concat (map substr_of ms) in if ss = [] then None else Some (fold (\<lambda>(p, v). AC_AddSubstr p v) ss NewAC))
   \<and> mv_regex (adds ms) = concat (map regex_of ms)"
proof (induction ms rule: rev_induct)
  case Nil
  then show ?case by (simp add: adds_def NewMphValue_def)
next
  case (snoc mv ms)
  obtain m v where mv: "mv = (m, v)" by fastforce
  have "adds (ms @ [mv]) = MphValue_Add m v (adds ms)" by (simp add: adds_def mv)
  with snoc show ?case by (cases m) (auto simp: mv MphValue_Add_def hashed_def Let_def simp del: concat_eq_Nil_conv filter_empty_conv)
qed

definition plain_matcher :: "str_matcher \<Rightarrow> bool" where
  "plain_matcher m \<longleftrightarrow> (case m of SubstrMatcher p \<Rightarrow> p \<noteq> [] \<and> ToLower p = p | RegexMatcher p \<Rightarrow> True | _ \<Rightarrow> undotted m)"

lemma value_matcher_decides:
  assumes plain: "list_all (\<lambda>(m, v). plain_matcher m) ms" and s: "ldh s"
    and built: "MphValue_Build (dl_memhash dl) (adds ms) = Inr g"
  shows "MphValue_MatchAny dl g s \<longleftrightarrow> list_ex (\<lambda>(m, v). matcher_Match (dl_regexp dl) (lower_pattern m) s) ms"
proof -
  let ?hs = "filter (hashed \<circ> fst) ms" and ?ss = "concat (map substr_of ms)"
  let ?is = "\<lambda>(m, v). matcher_Match (dl_regexp dl) (lower_pattern m) s"
  have mph: "(case mm_mph g of None \<Rightarrow> False | Some h \<Rightarrow> Mph_MatchAny (dl_memhash dl) h s) \<longleftrightarrow> list_ex ?is ?hs"
  proof (cases "?hs = []")
    case True
    with built adds_parts [of ms] show ?thesis
      by (auto simp: MphValue_Build_def build_part_def split: option.splits)
  next
    case False
    with built adds_parts [of ms] obtain h where h: "mm_mph g = Some h" "Mph_Build (dl_memhash dl) (fold Mph_Add ?hs NewMphMatcherGroup) = Some h"
      by (auto simp: MphValue_Build_def build_part_def Let_def split: option.splits)
    have "list_all (\<lambda>(m, v). undotted m) ?hs"
      using plain by (auto simp: list_all_iff plain_matcher_def hashed_def split: str_matcher.splits)
    from Mph_matches [OF this h(2)] h(1) show ?thesis by simp
  qed
  have ac: "(case mm_ac g of None \<Rightarrow> False | Some a \<Rightarrow> AC_MatchAny a s) \<longleftrightarrow> list_ex (\<lambda>(p, v). Contains s p) ?ss"
  proof (cases "?ss = []")
    case True
    with built adds_parts [of ms] have "mm_ac g = None"
      by (auto simp: MphValue_Build_def build_part_def split: option.splits)
    then show ?thesis unfolding True by simp
  next
    case False
    with built adds_parts [of ms] obtain a where a: "mm_ac g = Some a" "AC_Build (fold (\<lambda>(p, v). AC_AddSubstr p v) ?ss NewAC) = Some a"
      by (auto simp: MphValue_Build_def build_part_def Let_def simp del: concat_eq_Nil_conv split: option.splits)
    have p: "p \<noteq> [] \<and> ToLower p = p" if "(p, v) \<in> set ?ss" for p v
    proof -
      from that obtain mv where "mv \<in> set ms" "(p, v) \<in> set (substr_of mv)" by auto
      then have "mv = (SubstrMatcher p, v)" by (cases mv rule: substr_of.cases) auto
      with \<open>mv \<in> set ms\<close> plain show ?thesis by (auto simp: list_all_iff plain_matcher_def)
    qed
    then have "list_all (\<lambda>(p, v). p \<noteq> []) ?ss" by (auto simp: list_all_iff)
    from AC_matches [OF this] a have "AC_MatchAny a s \<longleftrightarrow> list_ex (\<lambda>(p, v). sublist (map acCharset p) (map acCharset s)) ?ss" by auto
    also have "\<dots> \<longleftrightarrow> list_ex (\<lambda>(p, v). Contains s p) ?ss"
      unfolding list_ex_iff
    proof (intro bex_cong refl)
      fix x assume "x \<in> set ?ss"
      then have "ToLower (fst x) = fst x" using p [of "fst x" "snd x"] by simp
      from substr_classes [OF this s]
      show "(case x of (p, v) \<Rightarrow> sublist (map acCharset p) (map acCharset s)) \<longleftrightarrow> (case x of (p, v) \<Rightarrow> Contains s p)"
        by (simp add: case_prod_beta)
    qed
    finally show ?thesis by (simp add: a(1))
  qed
  have re: "mm_regex g = concat (map regex_of ms)"
    using built adds_parts [of ms] by (auto simp: MphValue_Build_def split: option.splits)
  have "list_ex ?is ms \<longleftrightarrow> list_ex ?is ?hs \<or> list_ex (\<lambda>(p, v). Contains s p) ?ss
      \<or> SimpleGroup_MatchAny (dl_regexp dl) (concat (map regex_of ms)) s"
  proof (induction ms)
    case (Cons mv ms)
    obtain m v where "mv = (m, v)" by fastforce
    with Cons show ?case by (cases m) (auto simp: hashed_def SimpleGroup_MatchAny_def matcher_Match_def)
  qed (simp add: SimpleGroup_MatchAny_def)
  with mph ac re show ?thesis by (simp add: MphValue_MatchAny_def)
qed

lemma fold_rule_adds:
  "fold (\<lambda>m. MphValue_Add m i) ms (adds as) = adds (as @ map (\<lambda>m. (m, i)) ms)"
  by (simp add: adds_def fold_map comp_def)

lemma add_rules_adds:
  "add_rules rx env i rs (adds as) = Inr g \<Longrightarrow>
     \<exists>mss bs. map_res (rule_matchers rx env) rs = Inr mss \<and> g = adds (as @ bs) \<and> map fst bs = concat mss"
proof (induction rs arbitrary: i as)
  case Nil
  then show ?case by auto
next
  case (Cons r rs)
  then obtain ms where ms: "rule_matchers rx env r = Inr ms"
      "add_rules rx env (Suc i) rs (adds (as @ map (\<lambda>m. (m, i)) ms)) = Inr g"
    by (auto simp: bind_res_Inr fold_rule_adds)
  from Cons.IH [OF ms(2)] obtain mss bs where
    "map_res (rule_matchers rx env) rs = Inr mss" "g = adds ((as @ map (\<lambda>m. (m, i)) ms) @ bs)" "map fst bs = concat mss" by blast
  with ms(1) show ?case by (intro exI [of _ "ms # mss"] exI [of _ "map (\<lambda>m. (m, i)) ms @ bs"]) (simp add: comp_def)
qed

text \<open>C7: 
  A matcher built from rules, not taken from the cache, matches a domain exactly where one of the matchers of
  one of the rules does: the hash table, the automaton and their construction decide as matching each pattern
  alone, for patterns that do not begin with a dot and keywords that are not empty.
\<close>

theorem domain_rules_decide:
  assumes built: "MphFactory_BuildMatcher dl env rules f = (Inr g, f')" and miss: "f (buildDomainRulesKey rules) = None"
    and ms: "map_res (rule_matchers (dl_regexp dl) env) rules = Inr mss"
    and plain: "list_all plain_matcher (concat mss)" and s: "ldh s"
  shows "MphValue_MatchAny dl g s \<longleftrightarrow> (\<exists>ms \<in> set mss. \<exists>m \<in> set ms. matcher_Match (dl_regexp dl) (lower_pattern m) s)"
proof -
  from built miss obtain v where v: "add_rules (dl_regexp dl) env 0 rules (adds []) = Inr v" "MphValue_Build (dl_memhash dl) v = Inr g"
    by (auto simp: MphFactory_BuildMatcher_def Let_def adds_def bind_res_Inr split: if_splits sum.splits option.splits)
  from add_rules_adds [OF v(1)] ms obtain bs where bs: "v = adds bs" "map fst bs = concat mss" by auto
  have all: "list_ex (\<lambda>(m, v). Q m) bs \<longleftrightarrow> list_ex Q (map fst bs)" "list_all (\<lambda>(m, v). Q m) bs \<longleftrightarrow> list_all Q (map fst bs)" for Q
    by (induction bs) auto
  from plain have "list_all (\<lambda>(m, v). plain_matcher m) bs" by (simp only: all bs)
  from value_matcher_decides [OF this s v(2) [unfolded bs(1)]] show ?thesis
    unfolding all bs(2) by (auto simp: list_ex_iff)
qed

text \<open>
  The key under which a matcher is remembered does not separate the rules: a comma in a regular expression
  makes two different lists of rules alike, and the second is answered with the matcher of the first.
\<close>

lemma keys_collide:
  fixes g :: geosite_rule
  defines "one \<equiv> [Dom_Custom \<lparr>do_Type = Domain_Regex, do_Value = ''a,Full:b'', do_Attribute = []\<rparr>, Dom_Geosite g]"
    and "two \<equiv> [Dom_Custom \<lparr>do_Type = Domain_Regex, do_Value = ''a'', do_Attribute = []\<rparr>,
                Dom_Custom \<lparr>do_Type = Domain_Full, do_Value = ''b'', do_Attribute = []\<rparr>, Dom_Geosite g]"
  shows "MphFactory_BuildMatcher dl env one f = (Inr m, f') \<Longrightarrow> MphFactory_BuildMatcher dl env two f' = (Inr m, f')"
proof -
  have key: "buildDomainRulesKey one = buildDomainRulesKey two" "buildDomainRulesKey two \<noteq> []"
    by (simp_all add: buildDomainRulesKey_def one_def two_def is_geosite_def rule_key_def type_name_def)
  have ne: "one \<noteq> []" "two \<noteq> []" by (simp_all add: one_def two_def)
  assume "MphFactory_BuildMatcher dl env one f = (Inr m, f')"
  then have "f' (buildDomainRulesKey one) = Some m"
    using key ne by (auto simp: MphFactory_BuildMatcher_def Let_def split: option.splits sum.splits)
  with key ne show ?thesis by (simp add: MphFactory_BuildMatcher_def)
qed

text \<open>A keyword that is empty is contained in every domain; the automaton loses it next to another keyword.\<close>

lemma empty_keyword_lost:
  "\<exists>b. AC_Build (AC_AddSubstr ''xy'' (1 :: nat) (AC_AddSubstr [] 0 NewAC)) = Some b \<and> \<not> AC_MatchAny b ''y''"
proof -
  have "(case AC_Build (AC_AddSubstr ''xy'' (1 :: nat) (AC_AddSubstr [] 0 NewAC)) of None \<Rightarrow> False | Some b \<Rightarrow> \<not> AC_MatchAny b ''y'')"
    by code_simp
  then show ?thesis by (auto split: option.splits)
qed

section \<open>Reloading\<close>

text \<open>All matchers are rebuilt before one is replaced: a reload that fails changes nothing.\<close>

lemma rebuild_rules: "rebuild_domains dl env f ds = (Inr ds', f') \<Longrightarrow> map dd_rules ds' = map dd_rules ds"
  by (induction ds arbitrary: f ds') (auto simp: DynDomain_Reload_def split: prod.splits sum.splits)

lemma domain_reload:
  "DomainRegistry_Reload dl env r = (x, r') \<Longrightarrow> (case x of Inl e \<Rightarrow> r' = r | Inr _ \<Rightarrow> map dd_rules (dr_matchers r') = map dd_rules (dr_matchers r))"
  by (auto simp: DomainRegistry_Reload_def rebuild_rules split: prod.splits sum.splits)

section \<open>Samples\<close>

definition sample_libs :: domain_libs where
  "sample_libs = \<lparr>dl_regexp = (\<lambda>_. None), dl_memhash = (\<lambda>_ s. word_of_nat (length s))\<rparr>"

definition no_files :: geo_env where
  "no_files = \<lparr>ge_asset = (\<lambda>_. Inl NotFound), ge_GeoIP = (\<lambda>_. Inl NotFound), ge_GeoSite = (\<lambda>_. Inl NotFound)\<rparr>"

definition sample_domains :: "domain_rule list" where
  "sample_domains = [Dom_Custom \<lparr>do_Type = Domain_Domain, do_Value = ''B.a'', do_Attribute = []\<rparr>,
     Dom_Custom \<lparr>do_Type = Domain_Substr, do_Value = ''Ads'', do_Attribute = []\<rparr>]"

definition sample_matchers :: "str_matcher list list" where
  "sample_matchers = [[DomainMatcher ''B.a''], [SubstrMatcher ''ads'']]"

lemma sample_domains_parsed: "map_res (rule_matchers (dl_regexp sample_libs) no_files) sample_domains = Inr sample_matchers"
proof -
  have "ToLower ''Ads'' = ''ads''" by code_simp
  then show ?thesis by (simp add: sample_domains_def sample_matchers_def rule_matchers_def parseDomain_def)
qed

lemma sample_domains_built: "\<exists>g f. MphFactory_BuildMatcher sample_libs no_files sample_domains Map.empty = (Inr g, f)"
proof -
  have "(case fst (MphFactory_BuildMatcher sample_libs no_files sample_domains Map.empty) of Inl e \<Rightarrow> False | Inr g \<Rightarrow> True)"
    by code_simp
  then show ?thesis by (auto split: sum.splits prod.splits simp: prod_eq_iff)
qed

theorem domain_rules_decide_witness:
  "\<exists>g f. MphFactory_BuildMatcher sample_libs no_files sample_domains Map.empty = (Inr g, f)
     \<and> MphValue_MatchAny sample_libs g ''www.b.a'' \<and> MphValue_MatchAny sample_libs g ''loads.c'' \<and> \<not> MphValue_MatchAny sample_libs g ''a.b''"
proof -
  obtain g f where b: "MphFactory_BuildMatcher sample_libs no_files sample_domains Map.empty = (Inr g, f)"
    using sample_domains_built by blast
  have plain: "list_all plain_matcher (concat sample_matchers)" by code_simp
  have ldh: "ldh ''www.b.a''" "ldh ''loads.c''" "ldh ''a.b''" by code_simp+
  have "MphValue_MatchAny sample_libs g ''www.b.a''" "MphValue_MatchAny sample_libs g ''loads.c''"
      "\<not> MphValue_MatchAny sample_libs g ''a.b''"
    unfolding domain_rules_decide [OF b _ sample_domains_parsed plain ldh(1), simplified]
      domain_rules_decide [OF b _ sample_domains_parsed plain ldh(2), simplified]
      domain_rules_decide [OF b _ sample_domains_parsed plain ldh(3), simplified]
    by code_simp+
  with b show ?thesis by blast
qed

end
