(* ===== verification/Xray_IP_Match.thy ===== *)
theory Xray_IP_Match
  imports Xray_IP_Set "HOL-Library.Multiset"
begin

text \<open>
  The shortcuts of \<open>HeuristicIPMatcher\<close> are sound: where all prefixes of a set have at most
  24 (IPv6: 64) bits, one address of a bucket decides for the whole bucket, so
  \<open>AnyMatch\<close>, \<open>Matches\<close> and \<open>FilterIPs\<close> answer as if every address were matched alone.
\<close>

section \<open>Keys and addresses\<close>

definition addr_key :: "addr \<Rightarrow> ip_key" where
  "addr_key a = (if Is4 a then 4 # take 3 a @ replicate 5 0 else 6 # take 8 a)"

lemma from_std_length:
  "netipx_ok nx \<Longrightarrow> nx_FromStdIP nx ip = Some a \<Longrightarrow> Is4 a \<or> Is6 a"
  unfolding netipx_ok_def by (auto simp: To4_def To16_def Is4_def Is6_def split: option.splits if_splits)

lemma prefix_key:
  assumes "netipx_ok nx"
  shows "prefixKeyFromIP ip = map_option addr_key (nx_FromStdIP nx ip)"
proof -
  have f: "nx_FromStdIP nx ip = (case To4 ip of Some a \<Rightarrow> Some a | None \<Rightarrow> To16 ip)"
    using assms by (simp add: netipx_ok_def)
  show ?thesis
  proof (cases "To4 ip")
    case (Some a)
    then have "Is4 a" by (auto simp: To4_def Is4_def split: if_splits)
    with Some f show ?thesis by (simp add: prefixKeyFromIP_def addr_key_def)
  next
    case None
    then have "\<not> Is4 ip" by (auto simp: To4_def Is4_def split: if_splits)
    with None f show ?thesis
      by (auto simp: prefixKeyFromIP_def addr_key_def To16_def Is4_def split: if_splits)
  qed
qed

lemma addr_bits_take: "addr_bits (take k a) = take (8 * k) (addr_bits a)"
proof (induction a arbitrary: k)
  case (Cons b a)
  then show ?case by (cases k) (simp_all add: addr_bits_def take_Cons')
qed (simp add: addr_bits_def)

lemma same_prefix:
  assumes "take k a = take k b" "n \<le> 8 * k"
  shows "take n (addr_bits a) = take n (addr_bits b)"
proof -
  have "take n (addr_bits c) = take n (addr_bits (take k c))" for c
    using assms(2) by (simp add: addr_bits_take min_absorb1)
  with assms(1) show ?thesis by metis
qed

lemma fold_max: "fold (\<lambda>p m. if m < px_Bits p then px_Bits p else m) ps m0 = foldl max m0 (map px_Bits ps)"
  by (induction ps arbitrary: m0) (auto simp: max_def)

lemma foldl_max_ge: "(m :: nat) \<le> foldl max m ns \<and> (\<forall>n \<in> set ns. n \<le> foldl max m ns)"
proof (induction ns arbitrary: m)
  case (Cons n ns)
  from Cons [of "max m n"] show ?case by auto
qed simp

lemma max_bits_le: "max_bits ps \<le> k \<Longrightarrow> k < 254 \<Longrightarrow> p \<in> set ps \<Longrightarrow> px_Bits p \<le> k"
  using foldl_max_ge [of 0 "map px_Bits ps"]
  by (force simp: max_bits_def fold_max Let_def split: if_splits)

section \<open>Matchers over a consistent set\<close>

definition heur_ok :: "'s netipx \<Rightarrow> 's heur \<Rightarrow> bool" where
  "heur_ok nx m \<longleftrightarrow>
     is_max4 (h_ipset m) = max_bits (nx_Prefixes nx (is_ipv4 (h_ipset m)))
     \<and> is_max6 (h_ipset m) = max_bits (nx_Prefixes nx (is_ipv6 (h_ipset m)))
     \<and> (\<forall>a. nx_Contains nx (is_ipv4 (h_ipset m)) a
           = list_ex (\<lambda>p. prefix_Contains p a) (nx_Prefixes nx (is_ipv4 (h_ipset m))))
     \<and> (\<forall>a. nx_Contains nx (is_ipv6 (h_ipset m)) a
           = list_ex (\<lambda>p. prefix_Contains p a) (nx_Prefixes nx (is_ipv6 (h_ipset m))))"

lemma cidr_prefix_valid: "cidr_prefix c = Some p \<Longrightarrow> prefix_valid p"
  by (auto simp: cidr_prefix_def Let_def split: if_splits)

lemma created_ok:
  assumes "netipx_ok nx" shows "heur_ok nx \<lparr>h_ipset = CreateFromCIDRs nx cs, h_reverse = r\<rparr>"
proof -
  have "list_all prefix_valid (filter P (List.map_filter cidr_prefix cs))" for P
    using cidr_prefix_valid by (fastforce simp: list_all_iff List.map_filter_def)
  then show ?thesis
    using assms by (simp add: heur_ok_def CreateFromCIDRs_def Let_def netipx_ok_def)
qed

lemma contained_alike:
  assumes "list_all (\<lambda>p. px_Bits p \<le> 8 * k) ps" "take k a = take k b" "length a = length b"
  shows "list_ex (\<lambda>p. prefix_Contains p a) ps = list_ex (\<lambda>p. prefix_Contains p b) ps"
  using assms same_prefix [of k a b] by (auto simp: list_ex_iff list_all_iff prefix_Contains_def)

lemma bucket_decides:
  assumes ok: "heur_ok nx m" and key: "addr_key a = addr_key b" "key_heur m (addr_key a)"
    and len: "Is4 a \<or> Is6 a" "Is4 b \<or> Is6 b"
  shows "matchAddr nx m a = matchAddr nx m b"
proof (cases "Is4 a")
  case True
  with key len have b: "Is4 b" and t: "take 3 a = take 3 b"
    by (auto simp: addr_key_def Is4_def Is6_def split: if_splits)
  have "heur4 m" using key(2) True by (simp add: key_heur_def addr_key_def)
  then have "list_all (\<lambda>p. px_Bits p \<le> 8 * 3) (nx_Prefixes nx (is_ipv4 (h_ipset m)))"
    using ok max_bits_le [where k = 24] by (auto simp: heur_ok_def heur4_def list_all_iff)
  from contained_alike [OF this t] True b ok show ?thesis
    by (simp add: matchAddr_def heur_ok_def Is4_def)
next
  case False
  with key len have a: "Is6 a" and b: "Is6 b" "\<not> Is4 b" and t: "take 8 a = take 8 b"
    by (auto simp: addr_key_def Is4_def Is6_def split: if_splits)
  have "heur6 m" using key(2) False by (simp add: key_heur_def addr_key_def)
  then have "list_all (\<lambda>p. px_Bits p \<le> 8 * 8) (nx_Prefixes nx (is_ipv6 (h_ipset m)))"
    using ok max_bits_le [where k = 64] by (auto simp: heur_ok_def heur6_def list_all_iff)
  from contained_alike [OF this t] False a b ok show ?thesis
    by (simp add: matchAddr_def heur_ok_def Is6_def)
qed

section \<open>AnyMatch, Matches, FilterIPs\<close>

lemma any_precise_iff: "any_precise nx m ips = list_ex (heur_Match nx m) ips"
  by (induction ips) (auto simp: heur_Match_def split: option.splits)

text \<open>What the buckets know: an address with the same key does not match.\<close>

definition keys_refused :: "'s netipx \<Rightarrow> 's heur \<Rightarrow> ip_key list \<Rightarrow> bool" where
  "keys_refused nx m ks \<longleftrightarrow> (\<forall>a. (Is4 a \<or> Is6 a) \<longrightarrow> key_heur m (addr_key a) \<longrightarrow> addr_key a \<in> set ks \<longrightarrow> \<not> matchAddr nx m a)"

lemma keys_refused_Cons:
  "heur_ok nx m \<Longrightarrow> keys_refused nx m ks \<Longrightarrow> Is4 a \<or> Is6 a \<Longrightarrow> \<not> matchAddr nx m a \<Longrightarrow> keys_refused nx m (addr_key a # ks)"
  unfolding keys_refused_def using bucket_decides [of nx m _ a] by (metis set_ConsD)

lemma any_buckets_iff:
  assumes "netipx_ok nx" "heur_ok nx m"
  shows "keys_refused nx m ks \<Longrightarrow> any_buckets nx m ks ips = list_ex (heur_Match nx m) ips"
proof (induction ips arbitrary: ks)
  case (Cons ip ips)
  show ?case
  proof (cases "nx_FromStdIP nx ip")
    case None
    with Cons show ?thesis by (simp add: prefix_key [OF assms(1)] heur_Match_def)
  next
    case (Some a)
    have len: "Is4 a \<or> Is6 a" by (rule from_std_length [OF assms(1) Some])
    consider "key_heur m (addr_key a)" "addr_key a \<in> set ks" | "matchAddr nx m a" "\<not> (key_heur m (addr_key a) \<and> addr_key a \<in> set ks)"
      | "\<not> matchAddr nx m a" "\<not> (key_heur m (addr_key a) \<and> addr_key a \<in> set ks)" by blast
    then show ?thesis
    proof cases
      case 1
      with Cons.prems len have "\<not> matchAddr nx m a" by (auto simp: keys_refused_def)
      with 1 Some Cons show ?thesis by (simp add: prefix_key [OF assms(1)] heur_Match_def)
    next
      case 2
      with Some show ?thesis by (auto simp: prefix_key [OF assms(1)] heur_Match_def)
    next
      case 3
      with Some Cons.IH Cons.prems keys_refused_Cons [OF assms(2) Cons.prems len] show ?thesis
        by (simp add: prefix_key [OF assms(1)] heur_Match_def)
    qed
  qed
qed simp

lemma heur_any_match:
  "netipx_ok nx \<Longrightarrow> heur_ok nx m \<Longrightarrow> heur_AnyMatch nx m ips = list_ex (heur_Match nx m) ips"
  using any_buckets_iff [of nx m "[]" ips]
  by (cases ips) (auto simp: heur_AnyMatch_def any_precise_iff keys_refused_def)

lemma all_precise_iff: "all_precise nx m ips = list_all (heur_Match nx m) ips"
  by (induction ips) (auto simp: heur_Match_def split: option.splits)

text \<open>The bucket's address stands for every address with the bucket's key.\<close>

definition reps_ok :: "'s heur \<Rightarrow> (ip_key \<times> addr) list \<Rightarrow> bool" where
  "reps_ok m bs \<longleftrightarrow> (\<forall>(k, a) \<in> set bs. k = addr_key a \<and> key_heur m k \<and> (Is4 a \<or> Is6 a))"

definition reps_match :: "'s netipx \<Rightarrow> 's heur \<Rightarrow> (ip_key \<times> addr) list \<times> addr list \<Rightarrow> bool" where
  "reps_match nx m = (\<lambda>(bs, ps). list_all (\<lambda>(key, a). matchAddr nx m a) bs \<and> list_all (matchAddr nx m) ps)"

lemma reps_match_member:
  assumes "heur_ok nx m" "reps_ok m bs" "addr_key a \<in> set (map fst bs)" "Is4 a \<or> Is6 a"
    and "reps_match nx m (bs, ps)"
  shows "matchAddr nx m a"
proof -
  from assms(3) obtain b where b: "(addr_key a, b) \<in> set bs" by auto
  with assms(2) have "addr_key a = addr_key b" "key_heur m (addr_key a)" "Is4 b \<or> Is6 b"
    by (auto simp: reps_ok_def)
  moreover from b assms(5) have "matchAddr nx m b" by (auto simp: reps_match_def list_all_iff)
  ultimately show ?thesis using bucket_decides [OF assms(1)] assms(4) by blast
qed

lemma split_buckets_iff:
  assumes "netipx_ok nx" "heur_ok nx m"
  shows "reps_ok m bs \<Longrightarrow>
     (case split_buckets nx m bs ps ips of None \<Rightarrow> False | Some r \<Rightarrow> reps_match nx m r)
       \<longleftrightarrow> reps_match nx m (bs, ps) \<and> list_all (heur_Match nx m) ips"
proof (induction ips arbitrary: bs ps)
  case (Cons ip ips)
  show ?case
  proof (cases "nx_FromStdIP nx ip")
    case None
    then show ?thesis by (simp add: prefix_key [OF assms(1)] heur_Match_def)
  next
    case (Some a)
    have len: "Is4 a \<or> Is6 a" by (rule from_std_length [OF assms(1) Some])
    have m: "heur_Match nx m ip = matchAddr nx m a" using Some by (simp add: heur_Match_def)
    consider "key_heur m (addr_key a)" "addr_key a \<in> set (map fst bs)" | "\<not> key_heur m (addr_key a)"
      | "key_heur m (addr_key a)" "addr_key a \<notin> set (map fst bs)" by blast
    then show ?thesis
    proof cases
      case 1
      have "split_buckets nx m bs ps (ip # ips) = split_buckets nx m bs ps ips"
        using 1 Some by (simp add: prefix_key [OF assms(1)])
      with Cons.IH [OF Cons.prems, of ps] reps_match_member [OF assms(2) Cons.prems 1(2) len] show ?thesis
        by (auto simp: m)
    next
      case 2
      have "split_buckets nx m bs ps (ip # ips) = split_buckets nx m bs (ps @ [a]) ips"
        using 2 Some by (simp add: prefix_key [OF assms(1)])
      with Cons.IH [OF Cons.prems, of "ps @ [a]"] show ?thesis by (auto simp: m reps_match_def)
    next
      case 3
      have "split_buckets nx m bs ps (ip # ips) = split_buckets nx m (bs @ [(addr_key a, a)]) ps ips"
        using 3 Some by (simp add: prefix_key [OF assms(1)])
      moreover have "reps_ok m (bs @ [(addr_key a, a)])" using Cons.prems 3 len by (auto simp: reps_ok_def)
      ultimately show ?thesis using Cons.IH [of "bs @ [(addr_key a, a)]" ps] by (auto simp: m reps_match_def)
    qed
  qed
qed simp

lemma heur_matches:
  assumes "netipx_ok nx" "heur_ok nx m"
  shows "heur_Matches nx m ips \<longleftrightarrow> ips \<noteq> [] \<and> list_all (heur_Match nx m) ips"
proof -
  have "(case split_buckets nx m [] [] ips of None \<Rightarrow> False
          | Some (bs, ps) \<Rightarrow> list_all (\<lambda>(key, a). matchAddr nx m a) bs \<and> list_all (matchAddr nx m) ps)
      = list_all (heur_Match nx m) ips"
    using split_buckets_iff [OF assms, of "[]" "[]" ips]
    by (simp add: reps_ok_def reps_match_def split: option.splits prod.splits)
  then show ?thesis by (cases ips) (auto simp: heur_Matches_def all_precise_iff)
qed

subsection \<open>Filtering\<close>

definition not_matched :: "'s netipx \<Rightarrow> 's heur \<Rightarrow> net_ip \<Rightarrow> bool" where
  "not_matched nx m ip \<longleftrightarrow> nx_FromStdIP nx ip \<noteq> None \<and> \<not> heur_Match nx m ip"

lemma filter_precise_eq: "filter_precise nx m ips = (filter (heur_Match nx m) ips, filter (not_matched nx m) ips)"
  by (induction ips) (auto simp: heur_Match_def not_matched_def split: option.splits)

definition bucket_part :: "'s netipx \<Rightarrow> 's heur \<Rightarrow> bool \<Rightarrow> (ip_key \<times> bucket) list \<Rightarrow> net_ip multiset" where
  "bucket_part nx m v bs = mset (concat (map (\<lambda>(key, b). if matchAddr nx m (b_rep b) = v then b_ips b else []) bs))"

definition buckets_ok :: "'s heur \<Rightarrow> (ip_key \<times> bucket) list \<Rightarrow> bool" where
  "buckets_ok m bs \<longleftrightarrow> (\<forall>(k, b) \<in> set bs. k = addr_key (b_rep b) \<and> key_heur m k \<and> (Is4 (b_rep b) \<or> Is6 (b_rep b)))
     \<and> distinct (map fst bs)"

lemma fst_add_to_bucket [simp]: "map fst (add_to_bucket k ip bs) = map fst bs"
  by (induction k ip bs rule: add_to_bucket.induct) auto

lemma add_to_bucket_ok: "buckets_ok m bs \<Longrightarrow> buckets_ok m (add_to_bucket k ip bs)"
proof -
  assume a: "buckets_ok m bs"
  have "\<exists>b'. (k', b') \<in> set bs \<and> b_rep b' = b_rep b" if "(k', b) \<in> set (add_to_bucket k ip bs)" for k' b
    using that by (induction k ip bs rule: add_to_bucket.induct) (auto split: if_splits)
  with a show ?thesis unfolding buckets_ok_def by (fastforce split: prod.splits)
qed

lemma add_to_bucket_part:
  assumes "heur_ok nx m" "Is4 a \<or> Is6 a"
  shows "buckets_ok m bs \<Longrightarrow> addr_key a \<in> set (map fst bs) \<Longrightarrow>
     bucket_part nx m v (add_to_bucket (addr_key a) ip bs)
       = bucket_part nx m v bs + (if matchAddr nx m a = v then {#ip#} else {#})"
proof (induction bs)
  case (Cons kb bs)
  obtain k b where kb: "kb = (k, b)" by fastforce
  show ?case
  proof (cases "k = addr_key a")
    case True
    with Cons.prems kb have "addr_key (b_rep b) = addr_key a" "key_heur m (addr_key (b_rep b))" "Is4 (b_rep b) \<or> Is6 (b_rep b)"
      by (auto simp: buckets_ok_def)
    then have "matchAddr nx m (b_rep b) = matchAddr nx m a" using bucket_decides [OF assms(1)] assms(2) by metis
    with True show ?thesis by (simp add: kb bucket_part_def)
  next
    case False
    with Cons show ?thesis by (simp add: kb bucket_part_def buckets_ok_def)
  qed
qed simp

lemma fill_buckets_part:
  assumes "netipx_ok nx" "heur_ok nx m" and P: "P = (if v then heur_Match nx m else not_matched nx m)"
  shows "buckets_ok m bs \<Longrightarrow> fill_buckets nx m bs ps ips = (bs', ps') \<Longrightarrow>
     bucket_part nx m v bs' + mset (filter P ps') = bucket_part nx m v bs + mset (filter P ps) + mset (filter P ips)"
proof (induction ips arbitrary: bs ps)
  case (Cons ip ips)
  show ?case
  proof (cases "nx_FromStdIP nx ip")
    case None
    then have "\<not> P ip" by (simp add: P heur_Match_def not_matched_def)
    with None Cons show ?thesis by (simp add: prefix_key [OF assms(1)])
  next
    case (Some a)
    have len: "Is4 a \<or> Is6 a" by (rule from_std_length [OF assms(1) Some])
    have m: "P ip = (matchAddr nx m a = v)" using Some by (simp add: P heur_Match_def not_matched_def)
    consider "key_heur m (addr_key a)" "addr_key a \<in> set (map fst bs)" | "\<not> key_heur m (addr_key a)"
      | "key_heur m (addr_key a)" "addr_key a \<notin> set (map fst bs)" by blast
    then show ?thesis
    proof cases
      case 1
      have "fill_buckets nx m (add_to_bucket (addr_key a) ip bs) ps ips = (bs', ps')"
        using 1 Some Cons.prems(2) by (simp add: prefix_key [OF assms(1)])
      from Cons.IH [OF add_to_bucket_ok [OF Cons.prems(1)] this]
      show ?thesis by (simp add: add_to_bucket_part [OF assms(2) len Cons.prems(1) 1(2)] m)
    next
      case 2
      have "fill_buckets nx m bs (ps @ [ip]) ips = (bs', ps')"
        using 2 Some Cons.prems(2) by (simp add: prefix_key [OF assms(1)])
      from Cons.IH [OF Cons.prems(1) this] show ?thesis by simp
    next
      case 3
      let ?b = "(addr_key a, \<lparr>b_rep = a, b_ips = [ip]\<rparr>)"
      have "fill_buckets nx m (bs @ [?b]) ps ips = (bs', ps')"
        using 3 Some Cons.prems(2) by (simp add: prefix_key [OF assms(1)])
      moreover have "buckets_ok m (bs @ [?b])" using Cons.prems(1) 3 len by (auto simp: buckets_ok_def)
      ultimately show ?thesis using Cons.IH [of "bs @ [?b]" ps] by (simp add: m bucket_part_def)
    qed
  qed
qed simp

lemma bucket_part_True: "mset (concat (map (\<lambda>(key, b). if matchAddr nx m (b_rep b) then b_ips b else []) bs)) = bucket_part nx m True bs"
  by (simp add: bucket_part_def)

lemma bucket_part_False: "mset (concat (map (\<lambda>(key, b). if matchAddr nx m (b_rep b) then [] else b_ips b) bs)) = bucket_part nx m False bs"
  unfolding bucket_part_def by (rule arg_cong [where f = "\<lambda>f. mset (concat (map f bs))"]) auto

lemma heur_filter:
  assumes "netipx_ok nx" "heur_ok nx m" "heur_FilterIPs nx m ips = (yes, no)"
  shows "mset yes = mset (filter (heur_Match nx m) ips) \<and> mset no = mset (filter (not_matched nx m) ips)"
proof -
  consider "ips = []" | ip where "ips = [ip]" | "1 < length ips" "\<not> heur4 m \<and> \<not> heur6 m"
    | "1 < length ips" "\<not> (\<not> heur4 m \<and> \<not> heur6 m)" by (cases ips; cases "tl ips") auto
  then show ?thesis
  proof cases
    case 4
    obtain bs ps where f: "fill_buckets nx m [] [] ips = (bs, ps)" by fastforce
    from 4(1) have l: "ips \<noteq> []" "length ips \<noteq> 1" by auto
    from assms(3) have "yes = concat (map (\<lambda>(key, b). if matchAddr nx m (b_rep b) then b_ips b else []) bs) @ filter (heur_Match nx m) ps"
      and "no = concat (map (\<lambda>(key, b). if matchAddr nx m (b_rep b) then [] else b_ips b) bs) @ filter (not_matched nx m) ps"
      unfolding heur_FilterIPs_def if_not_P [OF l(1)] if_not_P [OF l(2)] if_not_P [OF 4(2)] f prod.case filter_precise_eq
      by simp_all
    then have "mset yes = bucket_part nx m True bs + mset (filter (heur_Match nx m) ps)"
      and "mset no = bucket_part nx m False bs + mset (filter (not_matched nx m) ps)"
      by (simp_all only: mset_append bucket_part_True bucket_part_False)
    then show ?thesis
      using fill_buckets_part [OF assms(1,2) refl _ f, of True] fill_buckets_part [OF assms(1,2) refl _ f, of False]
      by (simp add: buckets_ok_def bucket_part_def)
  next
    case 2
    with assms(3) show ?thesis
      by (auto simp: heur_FilterIPs_def heur_Match_def not_matched_def split: option.splits if_splits)
  next
    case 3
    from 3(1) have l: "ips \<noteq> []" "length ips \<noteq> 1" by auto
    from assms(3) show ?thesis
      unfolding heur_FilterIPs_def if_not_P [OF l(1)] if_not_P [OF l(2)] if_P [OF 3(2)] filter_precise_eq
      by auto
  qed (use assms(3) in \<open>auto simp: heur_FilterIPs_def\<close>)
qed

end
