(* ===== verification/Xray_IP_Matcher.thy ===== *)
theory Xray_IP_Matcher
  imports Xray_IP_Match "HOL-Library.AList"
begin

text \<open>
  The matchers of xray's IP rules (src/xray-core/common/geodata/ip_matcher.go,
  ip_registry.go): several heuristic matchers tried together, their construction from the
  rules of the configuration, the cache of the GeoIP sets, and the matchers that a reload of the
  GeoIP files replaces.
\<close>

section \<open>HeuristicMultiIPMatcher\<close>

definition multi_Match :: "'s netipx \<Rightarrow> 's heur list \<Rightarrow> net_ip \<Rightarrow> bool" where
  "multi_Match nx ms ip = (case nx_FromStdIP nx ip of
       None \<Rightarrow> False | Some a \<Rightarrow> list_ex (\<lambda>m. matchAddr nx m a) ms)"

text \<open>
  The inner loop of \<open>AnyMatch\<close>.  The state is 0 before a key is needed, 1 when the bucket is
  new, and 4 or 6 when the family's heuristic matchers have refused the bucket before; \<open>ipx\<close> is
  the address once it is converted.  The result says whether a matcher matched, and the buckets.
\<close>

fun any_inner ::
  "'s netipx \<Rightarrow> net_ip \<Rightarrow> ip_key list \<Rightarrow> 8 word \<Rightarrow> addr option \<Rightarrow> 's heur list \<Rightarrow> bool \<times> ip_key list"
where
  "any_inner nx ip ks st ipx [] = (False, ks)"
| "any_inner nx ip ks st ipx (m # ms) =
     (case (if st = 0 \<and> (heur4 m \<or> heur6 m)
            then (case prefixKeyFromIP ip of
                None \<Rightarrow> None
              | Some key \<Rightarrow> if key \<in> set ks then Some (hd key, ks) else Some (1, key # ks))
            else Some (st, ks)) of
        None \<Rightarrow> (False, ks)
      | Some (st', ks') \<Rightarrow>
          if (heur4 m \<and> st' = 4) \<or> (heur6 m \<and> st' = 6) then any_inner nx ip ks' st' ipx ms
          else (case (case ipx of None \<Rightarrow> nx_FromStdIP nx ip | Some a \<Rightarrow> Some a) of
              None \<Rightarrow> (False, ks')
            | Some a \<Rightarrow> if matchAddr nx m a then (True, ks') else any_inner nx ip ks' st' (Some a) ms))"

fun any_outer :: "'s netipx \<Rightarrow> 's heur list \<Rightarrow> ip_key list \<Rightarrow> net_ip list \<Rightarrow> bool" where
  "any_outer nx ms ks [] = False"
| "any_outer nx ms ks (ip # ips) = (case any_inner nx ip ks 0 None ms of
       (True, _) \<Rightarrow> True
     | (False, ks') \<Rightarrow> any_outer nx ms ks' ips)"

definition multi_AnyMatch :: "'s netipx \<Rightarrow> 's heur list \<Rightarrow> net_ip list \<Rightarrow> bool" where
  "multi_AnyMatch nx ms ips =
     (if ips = [] then False
      else if length ips = 1 then multi_Match nx ms (hd ips)
      else any_outer nx ms [] ips)"

text \<open>The views of \<open>Matches\<close>, each built when the first matcher needs it; \<open>None\<close> is \<open>nil\<close>.\<close>

record ip_views =
  v_buckets4 :: "(ip_key \<times> addr) list option"
  v_buckets6 :: "(ip_key \<times> addr) list option"
  v_precise4 :: "addr list option"
  v_precise6 :: "addr list option"

definition no_views :: ip_views where
  "no_views = \<lparr>v_buckets4 = None, v_buckets6 = None, v_precise4 = None, v_precise6 = None\<rparr>"

definition add_rep :: "'s netipx \<Rightarrow> ip_key \<Rightarrow> net_ip \<Rightarrow> (ip_key \<times> addr) list \<Rightarrow> (ip_key \<times> addr) list option" where
  "add_rep nx key ip bs =
     (if key \<in> set (map fst bs) then Some bs else map_option (\<lambda>a. bs @ [(key, a)]) (nx_FromStdIP nx ip))"

definition add_addr :: "'s netipx \<Rightarrow> net_ip \<Rightarrow> addr list \<Rightarrow> addr list option" where
  "add_addr nx ip ps = map_option (\<lambda>a. ps @ [a]) (nx_FromStdIP nx ip)"

text \<open>The bucket view and the precise view of one family, where they are needed.\<close>

definition extend_views ::
  "'s netipx \<Rightarrow> ip_key \<Rightarrow> net_ip \<Rightarrow> bool \<times> bool \<Rightarrow> (ip_key \<times> addr) list \<times> addr list \<Rightarrow> ((ip_key \<times> addr) list \<times> addr list) option"
where
  "extend_views nx key ip need v = (case need of (nb, np) \<Rightarrow> case v of (bs, ps) \<Rightarrow>
     Option.bind (if nb then add_rep nx key ip bs else Some bs) (\<lambda>bs'.
     Option.bind (if np then add_addr nx ip ps else Some ps) (\<lambda>ps'. Some (bs', ps'))))"

fun build_views ::
  "'s netipx \<Rightarrow> bool \<times> bool \<Rightarrow> bool \<times> bool \<Rightarrow> (ip_key \<times> addr) list \<times> addr list \<Rightarrow> (ip_key \<times> addr) list \<times> addr list
     \<Rightarrow> net_ip list \<Rightarrow> (((ip_key \<times> addr) list \<times> addr list) \<times> ((ip_key \<times> addr) list \<times> addr list)) option"
where
  "build_views nx need4 need6 v4 v6 [] = Some (v4, v6)"
| "build_views nx need4 need6 v4 v6 (ip # ips) = (case prefixKeyFromIP ip of
       None \<Rightarrow> None
     | Some key \<Rightarrow>
         if hd key = 4 then Option.bind (extend_views nx key ip need4 v4) (\<lambda>v. build_views nx need4 need6 v v6 ips)
         else if hd key = 6 then Option.bind (extend_views nx key ip need6 v6) (\<lambda>v. build_views nx need4 need6 v4 v ips)
         else None)"

definition ensure_views :: "'s netipx \<Rightarrow> 's heur \<Rightarrow> net_ip list \<Rightarrow> ip_views \<Rightarrow> ip_views option" where
  "ensure_views nx m ips v =
     (let nb4 = (heur4 m \<and> v_buckets4 v = None); nb6 = (heur6 m \<and> v_buckets6 v = None);
          np4 = (\<not> heur4 m \<and> v_precise4 v = None); np6 = (\<not> heur6 m \<and> v_precise6 v = None) in
      if \<not> nb4 \<and> \<not> nb6 \<and> \<not> np4 \<and> \<not> np6 then Some v
      else (case build_views nx (nb4, np4) (nb6, np6) ([], []) ([], []) ips of
          None \<Rightarrow> None
        | Some ((b4, p4), (b6, p6)) \<Rightarrow> Some
            \<lparr>v_buckets4 = if nb4 then Some b4 else v_buckets4 v, v_buckets6 = if nb6 then Some b6 else v_buckets6 v,
             v_precise4 = if np4 then Some p4 else v_precise4 v, v_precise6 = if np6 then Some p6 else v_precise6 v\<rparr>))"

definition views_match :: "'s netipx \<Rightarrow> 's heur \<Rightarrow> ip_views \<Rightarrow> bool" where
  "views_match nx m v \<longleftrightarrow>
     (if heur4 m then list_all (\<lambda>(k, a). matchAddr nx m a) (the (v_buckets4 v))
      else list_all (matchAddr nx m) (the (v_precise4 v)))
     \<and> (if heur6 m then list_all (\<lambda>(k, a). matchAddr nx m a) (the (v_buckets6 v))
        else list_all (matchAddr nx m) (the (v_precise6 v)))"

fun matches_loop :: "'s netipx \<Rightarrow> net_ip list \<Rightarrow> ip_views \<Rightarrow> 's heur list \<Rightarrow> bool" where
  "matches_loop nx ips v [] = False"
| "matches_loop nx ips v (m # ms) = (case ensure_views nx m ips v of
       None \<Rightarrow> False
     | Some v' \<Rightarrow> if views_match nx m v' then True else matches_loop nx ips v' ms)"

definition multi_Matches :: "'s netipx \<Rightarrow> 's heur list \<Rightarrow> net_ip list \<Rightarrow> bool" where
  "multi_Matches nx ms ips =
     (if ips = [] then False
      else if length ips = 1 then multi_Match nx ms (hd ips)
      else matches_loop nx ips no_views ms)"

subsection \<open>Filtering\<close>

text \<open>A bucket or an address that a matcher has taken is \<open>None\<close>.\<close>

record bucket_views =
  f_buckets4 :: "(ip_key \<times> bucket option) list option"
  f_buckets6 :: "(ip_key \<times> bucket option) list option"
  f_precise4 :: "(addr \<times> net_ip option) list option"
  f_precise6 :: "(addr \<times> net_ip option) list option"

definition no_bucket_views :: bucket_views where
  "no_bucket_views = \<lparr>f_buckets4 = None, f_buckets6 = None, f_precise4 = None, f_precise6 = None\<rparr>"

definition extend_filter ::
  "'s netipx \<Rightarrow> ip_key \<Rightarrow> net_ip \<Rightarrow> bool \<times> bool \<Rightarrow> (ip_key \<times> bucket) list \<times> (addr \<times> net_ip) list
     \<Rightarrow> (ip_key \<times> bucket) list \<times> (addr \<times> net_ip) list"
where
  "extend_filter nx key ip need v = (case need of (nb, np) \<Rightarrow> case v of (bs, ps) \<Rightarrow>
     if nb \<and> key \<notin> set (map fst bs) then
       (case nx_FromStdIP nx ip of
          None \<Rightarrow> (bs, ps)
        | Some a \<Rightarrow> (bs @ [(key, \<lparr>b_rep = a, b_ips = [ip]\<rparr>)], if np then AList.update a ip ps else ps))
     else let bs' = (if nb then add_to_bucket key ip bs else bs) in
       (if np then (case nx_FromStdIP nx ip of None \<Rightarrow> (bs', ps) | Some a \<Rightarrow> (bs', AList.update a ip ps))
        else (bs', ps)))"

fun build_filter ::
  "'s netipx \<Rightarrow> bool \<times> bool \<Rightarrow> bool \<times> bool \<Rightarrow> (ip_key \<times> bucket) list \<times> (addr \<times> net_ip) list
     \<Rightarrow> (ip_key \<times> bucket) list \<times> (addr \<times> net_ip) list \<Rightarrow> net_ip list
     \<Rightarrow> ((ip_key \<times> bucket) list \<times> (addr \<times> net_ip) list) \<times> ((ip_key \<times> bucket) list \<times> (addr \<times> net_ip) list)"
where
  "build_filter nx need4 need6 v4 v6 [] = (v4, v6)"
| "build_filter nx need4 need6 v4 v6 (ip # ips) = (case prefixKeyFromIP ip of
       None \<Rightarrow> build_filter nx need4 need6 v4 v6 ips
     | Some key \<Rightarrow>
         if hd key = 4 then build_filter nx need4 need6 (extend_filter nx key ip need4 v4) v6 ips
         else if hd key = 6 then build_filter nx need4 need6 v4 (extend_filter nx key ip need6 v6) ips
         else build_filter nx need4 need6 v4 v6 ips)"

definition ensure_filter :: "'s netipx \<Rightarrow> 's heur \<Rightarrow> net_ip list \<Rightarrow> bucket_views \<Rightarrow> bucket_views" where
  "ensure_filter nx m ips v =
     (let nb4 = (heur4 m \<and> f_buckets4 v = None); nb6 = (heur6 m \<and> f_buckets6 v = None);
          np4 = (\<not> heur4 m \<and> f_precise4 v = None); np6 = (\<not> heur6 m \<and> f_precise6 v = None) in
      if \<not> nb4 \<and> \<not> nb6 \<and> \<not> np4 \<and> \<not> np6 then v
      else (case build_filter nx (nb4, np4) (nb6, np6) ([], []) ([], []) ips of ((b4, p4), (b6, p6)) \<Rightarrow>
        \<lparr>f_buckets4 = if nb4 then Some (map (map_prod id Some) b4) else f_buckets4 v,
         f_buckets6 = if nb6 then Some (map (map_prod id Some) b6) else f_buckets6 v,
         f_precise4 = if np4 then Some (map (map_prod id Some) p4) else f_precise4 v,
         f_precise6 = if np6 then Some (map (map_prod id Some) p6) else f_precise6 v\<rparr>))"

text \<open>What a matcher takes from a view, and what it leaves.\<close>

fun take_buckets :: "'s netipx \<Rightarrow> 's heur \<Rightarrow> (ip_key \<times> bucket option) list \<Rightarrow> net_ip list \<times> (ip_key \<times> bucket option) list" where
  "take_buckets nx m [] = ([], [])"
| "take_buckets nx m ((k, b) # bs) = (case take_buckets nx m bs of (yes, rest) \<Rightarrow>
     (case b of
        None \<Rightarrow> (yes, (k, None) # rest)
      | Some b' \<Rightarrow> if matchAddr nx m (b_rep b') then (b_ips b' @ yes, (k, None) # rest) else (yes, (k, b) # rest)))"

fun take_precise :: "'s netipx \<Rightarrow> 's heur \<Rightarrow> (addr \<times> net_ip option) list \<Rightarrow> net_ip list \<times> (addr \<times> net_ip option) list" where
  "take_precise nx m [] = ([], [])"
| "take_precise nx m ((a, i) # ps) = (case take_precise nx m ps of (yes, rest) \<Rightarrow>
     (case i of
        None \<Rightarrow> (yes, (a, None) # rest)
      | Some ip \<Rightarrow> if matchAddr nx m a then (ip # yes, (a, None) # rest) else (yes, (a, i) # rest)))"

definition take4 :: "'s netipx \<Rightarrow> 's heur \<Rightarrow> bucket_views \<Rightarrow> net_ip list \<times> bucket_views" where
  "take4 nx m v =
     (if heur4 m then case take_buckets nx m (the (f_buckets4 v)) of (yes, r) \<Rightarrow> (yes, v\<lparr>f_buckets4 := Some r\<rparr>)
      else case take_precise nx m (the (f_precise4 v)) of (yes, r) \<Rightarrow> (yes, v\<lparr>f_precise4 := Some r\<rparr>))"

definition take6 :: "'s netipx \<Rightarrow> 's heur \<Rightarrow> bucket_views \<Rightarrow> net_ip list \<times> bucket_views" where
  "take6 nx m v =
     (if heur6 m then case take_buckets nx m (the (f_buckets6 v)) of (yes, r) \<Rightarrow> (yes, v\<lparr>f_buckets6 := Some r\<rparr>)
      else case take_precise nx m (the (f_precise6 v)) of (yes, r) \<Rightarrow> (yes, v\<lparr>f_precise6 := Some r\<rparr>))"

fun filter_loop :: "'s netipx \<Rightarrow> net_ip list \<Rightarrow> bucket_views \<Rightarrow> net_ip list \<Rightarrow> 's heur list \<Rightarrow> net_ip list \<times> bucket_views" where
  "filter_loop nx ips v yes [] = (yes, v)"
| "filter_loop nx ips v yes (m # ms) =
     (case take4 nx m (ensure_filter nx m ips v) of (y4, v4) \<Rightarrow>
      case take6 nx m v4 of (y6, v6) \<Rightarrow> filter_loop nx ips v6 (yes @ y4 @ y6) ms)"

definition left_buckets :: "(ip_key \<times> bucket option) list option \<Rightarrow> net_ip list" where
  "left_buckets v = (case v of None \<Rightarrow> []
     | Some bs \<Rightarrow> concat (map (\<lambda>(k, b). case b of None \<Rightarrow> [] | Some b' \<Rightarrow> b_ips b') bs))"

definition left_precise :: "(addr \<times> net_ip option) list option \<Rightarrow> net_ip list" where
  "left_precise v = (case v of None \<Rightarrow> [] | Some ps \<Rightarrow> List.map_filter snd ps)"

definition multi_FilterIPs :: "'s netipx \<Rightarrow> 's heur list \<Rightarrow> net_ip list \<Rightarrow> net_ip list \<times> net_ip list" where
  "multi_FilterIPs nx ms ips =
     (if ips = [] then ([], [])
      else if length ips = 1 then (case nx_FromStdIP nx (hd ips) of
          None \<Rightarrow> ([], [])
        | Some a \<Rightarrow> if list_ex (\<lambda>m. matchAddr nx m a) ms then (ips, []) else ([], ips))
      else (case filter_loop nx ips no_bucket_views [] ms of (yes, v) \<Rightarrow>
        (yes, left_buckets (f_buckets4 v) @ left_precise (f_precise4 v)
              @ left_buckets (f_buckets6 v) @ left_precise (f_precise6 v))))"

section \<open>The multi matcher matches what one of its matchers matches\<close>

lemma multi_Match_iff: "multi_Match nx ms ip = list_ex (\<lambda>m. heur_Match nx m ip) ms"
  by (auto simp: multi_Match_def heur_Match_def list_ex_iff split: option.splits)

lemma key_family:
  assumes "Is4 a \<or> Is6 a"
  shows "hd (addr_key a) = 4 \<or> hd (addr_key a) = 6" "key_heur m (addr_key a) \<longleftrightarrow>
     (heur4 m \<and> hd (addr_key a) = 4) \<or> (heur6 m \<and> hd (addr_key a) = 6)"
  by (auto simp: addr_key_def key_heur_def)

lemma any_inner_None: "netipx_ok nx \<Longrightarrow> nx_FromStdIP nx ip = None \<Longrightarrow> any_inner nx ip ks 0 None ms = (False, ks)"
  by (cases ms) (simp_all add: prefix_key)

text \<open>Once the bucket is looked up, the matchers that are skipped would refuse the address.\<close>

lemma any_inner_known:
  assumes ok: "netipx_ok nx" and from_a: "nx_FromStdIP nx ip = Some a" and ipx: "ipx = None \<or> ipx = Some a"
    and st: "st = 1 \<or> (st = hd (addr_key a) \<and> addr_key a \<in> set ks \<and> (\<forall>m \<in> set ms. keys_refused nx m ks))"
  shows "any_inner nx ip ks st ipx ms = (list_ex (\<lambda>m. matchAddr nx m a) ms, ks)"
  using ipx st
proof (induction ms arbitrary: ipx)
  case (Cons m ms)
  have len: "Is4 a \<or> Is6 a" by (rule from_std_length [OF ok from_a])
  have st0: "st \<noteq> 0" using Cons.prems(2) key_family(1) [OF len] by auto
  have rest: "any_inner nx ip ks st i ms = (list_ex (\<lambda>m. matchAddr nx m a) ms, ks)" if "i = None \<or> i = Some a" for i
    using Cons.IH [OF that] Cons.prems(2) by auto
  show ?case
  proof (cases "(heur4 m \<and> st = 4) \<or> (heur6 m \<and> st = 6)")
    case True
    with Cons.prems(2) have r: "keys_refused nx m ks" "addr_key a \<in> set ks" "st = hd (addr_key a)" by auto
    with True key_family(2) [OF len, of m] have "key_heur m (addr_key a)" by auto
    with r(1,2) len have "\<not> matchAddr nx m a" by (auto simp: keys_refused_def)
    with True st0 rest [OF Cons.prems(1)] show ?thesis by simp
  next
    case False
    have "(case ipx of None \<Rightarrow> nx_FromStdIP nx ip | Some a \<Rightarrow> Some a) = Some a"
      using Cons.prems(1) from_a by auto
    with False st0 rest [of "Some a"] show ?thesis by auto
  qed
qed simp

lemma any_inner_new:
  assumes ok: "netipx_ok nx" and from_a: "nx_FromStdIP nx ip = Some a" and ipx: "ipx = None \<or> ipx = Some a"
    and r: "\<forall>m \<in> set ms. keys_refused nx m ks"
  shows "\<exists>ks'. any_inner nx ip ks 0 ipx ms = (list_ex (\<lambda>m. matchAddr nx m a) ms, ks') \<and> (ks' = ks \<or> ks' = addr_key a # ks)"
  using ipx r
proof (induction ms arbitrary: ipx)
  case (Cons m ms)
  have len: "Is4 a \<or> Is6 a" by (rule from_std_length [OF ok from_a])
  have conv: "(case ipx of None \<Rightarrow> nx_FromStdIP nx ip | Some a \<Rightarrow> Some a) = Some a"
    using Cons.prems(1) from_a by auto
  consider "\<not> (heur4 m \<or> heur6 m)" | "heur4 m \<or> heur6 m" "addr_key a \<in> set ks" | "heur4 m \<or> heur6 m" "addr_key a \<notin> set ks"
    by blast
  then show ?case
  proof cases
    case 1
    with conv Cons.IH [of "Some a"] Cons.prems(2) show ?thesis by simp
  next
    case 2
    have "any_inner nx ip ks (hd (addr_key a)) ipx (m # ms) = (list_ex (\<lambda>m. matchAddr nx m a) (m # ms), ks)"
      using 2 Cons.prems by (intro any_inner_known [OF ok from_a]) auto
    moreover have "any_inner nx ip ks 0 ipx (m # ms) = any_inner nx ip ks (hd (addr_key a)) ipx (m # ms)"
      using 2 key_family(1) [OF len] from_a by (auto simp: prefix_key [OF ok])
    ultimately show ?thesis by metis
  next
    case 3
    have "any_inner nx ip (addr_key a # ks) 1 ipx (m # ms) = (list_ex (\<lambda>m. matchAddr nx m a) (m # ms), addr_key a # ks)"
      using Cons.prems by (intro any_inner_known [OF ok from_a]) auto
    moreover have "any_inner nx ip ks 0 ipx (m # ms) = any_inner nx ip (addr_key a # ks) 1 ipx (m # ms)"
      using 3 from_a by (simp add: prefix_key [OF ok])
    ultimately show ?thesis by metis
  qed
qed simp

lemma any_outer_iff:
  assumes ok: "netipx_ok nx" and hs: "\<forall>m \<in> set ms. heur_ok nx m"
  shows "\<forall>m \<in> set ms. keys_refused nx m ks \<Longrightarrow> any_outer nx ms ks ips = list_ex (multi_Match nx ms) ips"
proof (induction ips arbitrary: ks)
  case (Cons ip ips)
  show ?case
  proof (cases "nx_FromStdIP nx ip")
    case None
    with Cons show ?thesis by (simp add: any_inner_None [OF ok] multi_Match_def)
  next
    case (Some a)
    have len: "Is4 a \<or> Is6 a" by (rule from_std_length [OF ok Some])
    obtain ks' where i: "any_inner nx ip ks 0 None ms = (list_ex (\<lambda>m. matchAddr nx m a) ms, ks')"
      and ks': "ks' = ks \<or> ks' = addr_key a # ks"
      using any_inner_new [OF ok Some _ Cons.prems, of None] by auto
    show ?thesis
    proof (cases "list_ex (\<lambda>m. matchAddr nx m a) ms")
      case True
      with i Some show ?thesis by (simp add: multi_Match_def)
    next
      case False
      have "\<forall>m \<in> set ms. keys_refused nx m ks'"
      proof
        fix m assume m: "m \<in> set ms"
        with hs False have "heur_ok nx m" "\<not> matchAddr nx m a" by (auto simp: list_ex_iff)
        with ks' m Cons.prems keys_refused_Cons [OF _ _ len] show "keys_refused nx m ks'" by auto
      qed
      with False i Some Cons.IH show ?thesis by (simp add: multi_Match_def)
    qed
  qed
qed simp

lemma multi_any_match:
  "netipx_ok nx \<Longrightarrow> \<forall>m \<in> set ms. heur_ok nx m \<Longrightarrow> multi_AnyMatch nx ms ips = list_ex (multi_Match nx ms) ips"
  using any_outer_iff [of nx ms "[]" ips]
  by (cases ips) (auto simp: multi_AnyMatch_def keys_refused_def)

text \<open>A view built from some addresses holds those of its family.\<close>

definition reps_for :: "(addr \<Rightarrow> bool) \<Rightarrow> addr list \<Rightarrow> (ip_key \<times> addr) list \<Rightarrow> bool" where
  "reps_for fam as bs \<longleftrightarrow> (\<forall>(k, a) \<in> set bs. k = addr_key a \<and> fam a \<and> a \<in> set as)
     \<and> (\<forall>a \<in> set as. fam a \<longrightarrow> addr_key a \<in> set (map fst bs))"

definition built :: "(addr \<Rightarrow> bool) \<Rightarrow> bool \<times> bool \<Rightarrow> addr list \<Rightarrow> (ip_key \<times> addr) list \<times> addr list \<Rightarrow> bool" where
  "built fam need as v \<longleftrightarrow> (fst need \<longrightarrow> reps_for fam as (fst v)) \<and> (snd need \<longrightarrow> snd v = filter fam as)"

lemma reps_for_skip: "reps_for fam as bs \<Longrightarrow> \<not> fam a \<or> addr_key a \<in> set (map fst bs) \<Longrightarrow> reps_for fam (as @ [a]) bs"
  unfolding reps_for_def by fastforce

lemma reps_for_new: "reps_for fam as bs \<Longrightarrow> fam a \<Longrightarrow> reps_for fam (as @ [a]) (bs @ [(addr_key a, a)])"
  unfolding reps_for_def by fastforce

lemma extend_views_built:
  assumes "built fam need as v" "fam a" "nx_FromStdIP nx ip = Some a"
  shows "\<exists>v'. extend_views nx (addr_key a) ip need v = Some v' \<and> built fam need (as @ [a]) v'"
proof -
  obtain nb np bs ps where n: "need = (nb, np)" "v = (bs, ps)" by (cases need; cases v)
  have "\<exists>bs'. (if nb then add_rep nx (addr_key a) ip bs else Some bs) = Some bs' \<and> (nb \<longrightarrow> reps_for fam (as @ [a]) bs')"
    using assms n reps_for_skip [of fam as bs a] reps_for_new [of fam as bs a] by (auto simp: built_def add_rep_def)
  moreover have "\<exists>ps'. (if np then add_addr nx ip ps else Some ps) = Some ps' \<and> (np \<longrightarrow> ps' = filter fam (as @ [a]))"
    using assms n by (auto simp: built_def add_addr_def)
  ultimately show ?thesis using n by (auto simp: extend_views_def built_def)
qed

lemma built_skip: "built fam need as v \<Longrightarrow> \<not> fam a \<Longrightarrow> built fam need (as @ [a]) v"
  by (simp add: built_def reps_for_skip)

lemma build_views_ok:
  assumes ok: "netipx_ok nx"
  shows "built Is4 n4 as v4 \<Longrightarrow> built Is6 n6 as v6 \<Longrightarrow>
     (if list_all (\<lambda>ip. nx_FromStdIP nx ip \<noteq> None) ips
      then \<exists>w4 w6. build_views nx n4 n6 v4 v6 ips = Some (w4, w6)
         \<and> built Is4 n4 (as @ List.map_filter (nx_FromStdIP nx) ips) w4
         \<and> built Is6 n6 (as @ List.map_filter (nx_FromStdIP nx) ips) w6
      else build_views nx n4 n6 v4 v6 ips = None)"
proof (induction ips arbitrary: as v4 v6)
  case (Cons ip ips)
  show ?case
  proof (cases "nx_FromStdIP nx ip")
    case None
    then show ?thesis by (simp add: prefix_key [OF ok])
  next
    case (Some a)
    from from_std_length [OF ok Some] consider "Is4 a" | "Is6 a" by blast
    then show ?thesis
    proof cases
      case 1
      then have k: "hd (addr_key a) = 4" "\<not> Is6 a" by (auto simp: addr_key_def Is4_def Is6_def)
      obtain v' where v': "extend_views nx (addr_key a) ip n4 v4 = Some v'" "built Is4 n4 (as @ [a]) v'"
        using extend_views_built [OF Cons.prems(1) 1 Some] by blast
      from Cons.IH [OF v'(2) built_skip [OF Cons.prems(2) k(2)]] show ?thesis
        by (auto simp: Some prefix_key [OF ok] k v'(1) map_filter_simps split: if_splits)
    next
      case 2
      then have k: "hd (addr_key a) = 6" "\<not> Is4 a" by (auto simp: addr_key_def Is4_def Is6_def)
      obtain v' where v': "extend_views nx (addr_key a) ip n6 v6 = Some v'" "built Is6 n6 (as @ [a]) v'"
        using extend_views_built [OF Cons.prems(2) 2 Some] by blast
      from Cons.IH [OF built_skip [OF Cons.prems(1) k(2)] v'(2)] show ?thesis
        by (auto simp: Some prefix_key [OF ok] k v'(1) map_filter_simps split: if_splits)
    qed
  qed
qed (simp add: map_filter_simps)

text \<open>The views kept from matcher to matcher, for the addresses \<open>as\<close>.\<close>

definition views_ok :: "addr list \<Rightarrow> ip_views \<Rightarrow> bool" where
  "views_ok as v \<longleftrightarrow> (\<forall>bs. v_buckets4 v = Some bs \<longrightarrow> reps_for Is4 as bs) \<and> (\<forall>bs. v_buckets6 v = Some bs \<longrightarrow> reps_for Is6 as bs)
     \<and> (\<forall>ps. v_precise4 v = Some ps \<longrightarrow> ps = filter Is4 as) \<and> (\<forall>ps. v_precise6 v = Some ps \<longrightarrow> ps = filter Is6 as)"

definition views_for :: "'s heur \<Rightarrow> ip_views \<Rightarrow> bool" where
  "views_for m v \<longleftrightarrow> (if heur4 m then v_buckets4 v \<noteq> None else v_precise4 v \<noteq> None)
     \<and> (if heur6 m then v_buckets6 v \<noteq> None else v_precise6 v \<noteq> None)"

lemma ensure_views_ok:
  assumes ok: "netipx_ok nx" and valid: "list_all (\<lambda>ip. nx_FromStdIP nx ip \<noteq> None) ips"
    and v: "views_ok (List.map_filter (nx_FromStdIP nx) ips) v"
  shows "\<exists>v'. ensure_views nx m ips v = Some v' \<and> views_ok (List.map_filter (nx_FromStdIP nx) ips) v' \<and> views_for m v'"
proof (cases "views_for m v")
  case True
  then have "ensure_views nx m ips v = Some v"
    by (auto simp: ensure_views_def views_for_def Let_def split: if_splits)
  with True v show ?thesis by simp
next
  case False
  let ?n4 = "(heur4 m \<and> v_buckets4 v = None, \<not> heur4 m \<and> v_precise4 v = None)"
  let ?n6 = "(heur6 m \<and> v_buckets6 v = None, \<not> heur6 m \<and> v_precise6 v = None)"
  let ?as = "List.map_filter (nx_FromStdIP nx) ips"
  have init: "built fam n [] ([], [])" for fam n by (simp add: built_def reps_for_def)
  obtain b4 p4 b6 p6 where b: "build_views nx ?n4 ?n6 ([], []) ([], []) ips = Some ((b4, p4), (b6, p6))"
    and b4: "built Is4 ?n4 ?as (b4, p4)" and b6: "built Is6 ?n6 ?as (b6, p6)"
    using build_views_ok [OF ok init [of Is4 ?n4] init [of Is6 ?n6], of ips] valid by auto
  let ?v = "\<lparr>v_buckets4 = if fst ?n4 then Some b4 else v_buckets4 v, v_buckets6 = if fst ?n6 then Some b6 else v_buckets6 v,
     v_precise4 = if snd ?n4 then Some p4 else v_precise4 v, v_precise6 = if snd ?n6 then Some p6 else v_precise6 v\<rparr>"
  have "ensure_views nx m ips v = Some ?v"
    using False b by (auto simp: ensure_views_def views_for_def Let_def)
  moreover have "views_ok ?as ?v" using v b4 b6 by (simp add: views_ok_def built_def)
  moreover have "views_for m ?v" by (simp add: views_for_def)
  ultimately show ?thesis by blast
qed

lemma reps_for_match:
  assumes ok: "heur_ok nx m" and r: "reps_for fam as bs" and as: "\<forall>a \<in> set as. Is4 a \<or> Is6 a"
    and key: "\<And>a. fam a \<Longrightarrow> key_heur m (addr_key a)"
  shows "list_all (\<lambda>(k, a). matchAddr nx m a) bs = list_all (matchAddr nx m) (filter fam as)"
proof
  assume l: "list_all (\<lambda>(k, a). matchAddr nx m a) bs"
  show "list_all (matchAddr nx m) (filter fam as)"
    unfolding list_all_iff
  proof
    fix a assume a: "a \<in> set (filter fam as)"
    with r obtain b where b: "(addr_key a, b) \<in> set bs" by (fastforce simp: reps_for_def)
    with r have k: "addr_key a = addr_key b" "b \<in> set as" by (auto simp: reps_for_def)
    from b l have "matchAddr nx m b" by (auto simp: list_all_iff)
    with bucket_decides [OF ok k(1)] key a as k(2) show "matchAddr nx m a" by auto
  qed
next
  assume "list_all (matchAddr nx m) (filter fam as)"
  with r show "list_all (\<lambda>(k, a). matchAddr nx m a) bs" by (fastforce simp: list_all_iff reps_for_def)
qed

lemma views_match_iff:
  assumes ok: "heur_ok nx m" and v: "views_ok as v" "views_for m v" and as: "\<forall>a \<in> set as. Is4 a \<or> Is6 a"
  shows "views_match nx m v = list_all (matchAddr nx m) as"
proof -
  have k: "heur4 m \<Longrightarrow> Is4 a \<Longrightarrow> key_heur m (addr_key a)" "heur6 m \<Longrightarrow> Is6 a \<Longrightarrow> key_heur m (addr_key a)" for a
    by (auto simp: key_heur_def addr_key_def Is4_def Is6_def)
  have "(if heur4 m then list_all (\<lambda>(k, a). matchAddr nx m a) (the (v_buckets4 v)) else list_all (matchAddr nx m) (the (v_precise4 v)))
      = list_all (matchAddr nx m) (filter Is4 as)"
    using v reps_for_match [OF ok _ as, of Is4] k(1) by (auto simp: views_ok_def views_for_def)
  moreover have "(if heur6 m then list_all (\<lambda>(k, a). matchAddr nx m a) (the (v_buckets6 v)) else list_all (matchAddr nx m) (the (v_precise6 v)))
      = list_all (matchAddr nx m) (filter Is6 as)"
    using v reps_for_match [OF ok _ as, of Is6] k(2) by (auto simp: views_ok_def views_for_def)
  ultimately show ?thesis using as by (auto simp: views_match_def list_all_iff)
qed

lemma matches_loop_iff:
  assumes ok: "netipx_ok nx" and valid: "list_all (\<lambda>ip. nx_FromStdIP nx ip \<noteq> None) ips"
  shows "\<forall>m \<in> set ms. heur_ok nx m \<Longrightarrow> views_ok (List.map_filter (nx_FromStdIP nx) ips) v \<Longrightarrow>
     matches_loop nx ips v ms = list_ex (\<lambda>m. list_all (matchAddr nx m) (List.map_filter (nx_FromStdIP nx) ips)) ms"
proof (induction ms arbitrary: v)
  case (Cons m ms)
  have as: "\<forall>a \<in> set (List.map_filter (nx_FromStdIP nx) ips). Is4 a \<or> Is6 a"
    using from_std_length [OF ok] by (auto simp: List.map_filter_def)
  obtain v' where v': "ensure_views nx m ips v = Some v'" "views_ok (List.map_filter (nx_FromStdIP nx) ips) v'" "views_for m v'"
    using ensure_views_ok [OF ok valid Cons.prems(2)] by blast
  with Cons.prems(1) have "views_match nx m v' = list_all (matchAddr nx m) (List.map_filter (nx_FromStdIP nx) ips)"
    by (intro views_match_iff [OF _ v'(2,3) as]) auto
  with v' Cons show ?case by simp
qed simp

lemma matches_loop_invalid:
  assumes ok: "netipx_ok nx" and bad: "\<not> list_all (\<lambda>ip. nx_FromStdIP nx ip \<noteq> None) ips"
  shows "\<not> matches_loop nx ips no_views ms"
proof (cases ms)
  case (Cons m ms')
  have init: "built fam n [] ([], [])" for fam n by (simp add: built_def reps_for_def)
  have "ensure_views nx m ips no_views = None"
    using build_views_ok [OF ok init init, of ips "(heur4 m, \<not> heur4 m)" "(heur6 m, \<not> heur6 m)"] bad
    by (auto simp: ensure_views_def no_views_def Let_def)
  with Cons show ?thesis by simp
qed simp

lemma map_filter_all:
  "list_all (\<lambda>ip. nx_FromStdIP nx ip \<noteq> None) ips \<Longrightarrow>
     list_all (matchAddr nx m) (List.map_filter (nx_FromStdIP nx) ips) = list_all (heur_Match nx m) ips"
  by (induction ips) (auto simp: map_filter_simps heur_Match_def)

lemma multi_matches:
  assumes ok: "netipx_ok nx" and hs: "\<forall>m \<in> set ms. heur_ok nx m"
  shows "multi_Matches nx ms ips \<longleftrightarrow> ips \<noteq> [] \<and> list_ex (\<lambda>m. list_all (heur_Match nx m) ips) ms"
proof -
  have "matches_loop nx ips no_views ms = list_ex (\<lambda>m. list_all (heur_Match nx m) ips) ms"
  proof (cases "list_all (\<lambda>ip. nx_FromStdIP nx ip \<noteq> None) ips")
    case True
    with matches_loop_iff [OF ok True hs, of no_views] map_filter_all [OF True] show ?thesis
      by (simp add: views_ok_def no_views_def)
  next
    case False
    then have "\<not> list_all (heur_Match nx m) ips" for m
      by (force simp: list_all_iff heur_Match_def)
    with matches_loop_invalid [OF ok False] show ?thesis by (auto simp: list_ex_iff)
  qed
  then show ?thesis
    by (cases ips) (auto simp: multi_Matches_def multi_Match_iff list_ex_iff)
qed

end
