(* ===== verification/Xray_IP_Rules.thy ===== *)
theory Xray_IP_Rules
  imports Xray_IP_Matcher Xray_Geodata
begin

text \<open>
  From IP rules to a matcher (src/xray-core/common/geodata/ip_matcher.go,
  \<open>buildOptimizedIPMatcher\<close>, and ip_registry.go): the four groups of rules, the cache of
  the GeoIP sets, the matcher interface, and the matchers that a reload replaces.
\<close>

section \<open>The matcher interface\<close>

datatype 's ip_matcher = Heur "'s heur" | HeurMulti "'s heur list" | General "'s ip_matcher list"

fun ip_Match :: "'s netipx \<Rightarrow> 's ip_matcher \<Rightarrow> net_ip \<Rightarrow> bool" where
  "ip_Match nx (Heur m) ip = heur_Match nx m ip"
| "ip_Match nx (HeurMulti ms) ip = multi_Match nx ms ip"
| "ip_Match nx (General ms) ip = list_ex (\<lambda>m. ip_Match nx m ip) ms"

fun ip_AnyMatch :: "'s netipx \<Rightarrow> 's ip_matcher \<Rightarrow> net_ip list \<Rightarrow> bool" where
  "ip_AnyMatch nx (Heur m) ips = heur_AnyMatch nx m ips"
| "ip_AnyMatch nx (HeurMulti ms) ips = multi_AnyMatch nx ms ips"
| "ip_AnyMatch nx (General ms) ips = list_ex (\<lambda>m. ip_AnyMatch nx m ips) ms"

fun ip_Matches :: "'s netipx \<Rightarrow> 's ip_matcher \<Rightarrow> net_ip list \<Rightarrow> bool" where
  "ip_Matches nx (Heur m) ips = heur_Matches nx m ips"
| "ip_Matches nx (HeurMulti ms) ips = multi_Matches nx ms ips"
| "ip_Matches nx (General ms) ips = list_ex (\<lambda>m. ip_Matches nx m ips) ms"

text \<open>The loop of \<open>FilterIPs\<close>: each matcher filters what the ones before it left.\<close>

fun filter_chain :: "(net_ip list \<Rightarrow> net_ip list \<times> net_ip list) list \<Rightarrow> net_ip list \<Rightarrow> net_ip list \<Rightarrow> net_ip list \<times> net_ip list" where
  "filter_chain [] yes no = (yes, no)"
| "filter_chain (f # fs) yes no =
     (if no = [] then (yes, no) else case f no of (y, n) \<Rightarrow> filter_chain fs (yes @ y) n)"

fun ip_FilterIPs :: "'s netipx \<Rightarrow> 's ip_matcher \<Rightarrow> net_ip list \<Rightarrow> net_ip list \<times> net_ip list" where
  "ip_FilterIPs nx (Heur m) = heur_FilterIPs nx m"
| "ip_FilterIPs nx (HeurMulti ms) = multi_FilterIPs nx ms"
| "ip_FilterIPs nx (General ms) = filter_chain (map (ip_FilterIPs nx) ms) []"

definition heur_ToggleReverse :: "'s heur \<Rightarrow> 's heur" where
  "heur_ToggleReverse m = m\<lparr>h_reverse := \<not> h_reverse m\<rparr>"

fun ip_ToggleReverse :: "'s ip_matcher \<Rightarrow> 's ip_matcher" where
  "ip_ToggleReverse (Heur m) = Heur (heur_ToggleReverse m)"
| "ip_ToggleReverse (HeurMulti ms) = HeurMulti (map heur_ToggleReverse ms)"
| "ip_ToggleReverse (General ms) = General (map ip_ToggleReverse ms)"

fun ip_SetReverse :: "bool \<Rightarrow> 's ip_matcher \<Rightarrow> 's ip_matcher" where
  "ip_SetReverse r (Heur m) = Heur (m\<lparr>h_reverse := r\<rparr>)"
| "ip_SetReverse r (HeurMulti ms) = HeurMulti (map (\<lambda>m. m\<lparr>h_reverse := r\<rparr>) ms)"
| "ip_SetReverse r (General ms) = General (map (ip_SetReverse r) ms)"

section \<open>IPSetFactory\<close>

text \<open>The shared sets, by key; the key lists the sorted rules without repetition.\<close>

type_synonym 's shared_sets = "(string \<times> 's ipset) list"

definition geoip_pair :: "geoip_rule \<Rightarrow> string \<times> string" where
  "geoip_pair r = (gi_File r, gi_Code r)"

definition less_string :: "string \<Rightarrow> string \<Rightarrow> bool" where
  "less_string s t \<longleftrightarrow> (map byte s, map byte t) \<in> lexord {(x :: nat, y). x < y}"

definition pair_less :: "string \<times> string \<Rightarrow> string \<times> string \<Rightarrow> bool" where
  "pair_less p q \<longleftrightarrow> (if fst p \<noteq> fst q then less_string (fst p) (fst q) else less_string (snd p) (snd q))"

fun insert_pair :: "string \<times> string \<Rightarrow> (string \<times> string) list \<Rightarrow> (string \<times> string) list" where
  "insert_pair p [] = [p]"
| "insert_pair p (q # qs) = (if pair_less q p then q # insert_pair p qs else p # q # qs)"

definition buildGeoIPRulesKey :: "geoip_rule list \<Rightarrow> string" where
  "buildGeoIPRulesKey rules =
     concat (map (\<lambda>(f, c). f @ '':'' @ c @ '','') (remdups_adj (foldr insert_pair (map geoip_pair rules) [])))"

definition GetOrCreateFromGeoIPRules ::
  "'s netipx \<Rightarrow> geo_env \<Rightarrow> 's shared_sets \<Rightarrow> geoip_rule list \<Rightarrow> ('s ipset res) \<times> 's shared_sets"
where
  "GetOrCreateFromGeoIPRules nx env shared rules =
     (let key = buildGeoIPRulesKey rules in
      case map_of shared key of
        Some s \<Rightarrow> (Inr s, shared)
      | None \<Rightarrow> (case map_res (\<lambda>r. loadIP env (gi_File r) (gi_Code r)) rules of
            Inl e \<Rightarrow> (Inl e, shared)
          | Inr css \<Rightarrow> let s = CreateFromCIDRs nx (concat css) in (Inr s, (key, s) # shared)))"

section \<open>buildOptimizedIPMatcher\<close>

definition posCustom :: "ip_rule list \<Rightarrow> cidr list" where
  "posCustom rs = List.map_filter (\<lambda>r. case r of Ip_Custom c False \<Rightarrow> Some c | _ \<Rightarrow> None) rs"

definition negCustom :: "ip_rule list \<Rightarrow> cidr list" where
  "negCustom rs = List.map_filter (\<lambda>r. case r of Ip_Custom c True \<Rightarrow> Some c | _ \<Rightarrow> None) rs"

definition posGeoip :: "ip_rule list \<Rightarrow> geoip_rule list" where
  "posGeoip rs = List.map_filter (\<lambda>r. case r of Ip_Geoip g \<Rightarrow> if gi_Reverse g then None else Some g | _ \<Rightarrow> None) rs"

definition negGeoip :: "ip_rule list \<Rightarrow> geoip_rule list" where
  "negGeoip rs = List.map_filter (\<lambda>r. case r of Ip_Geoip g \<Rightarrow> if gi_Reverse g then Some g else None | _ \<Rightarrow> None) rs"

definition custom_sub :: "'s netipx \<Rightarrow> bool \<Rightarrow> cidr list \<Rightarrow> 's heur list" where
  "custom_sub nx neg cs = (if cs = [] then [] else [\<lparr>h_ipset = CreateFromCIDRs nx cs, h_reverse = neg\<rparr>])"

definition geoip_sub ::
  "'s netipx \<Rightarrow> geo_env \<Rightarrow> bool \<Rightarrow> geoip_rule list \<Rightarrow> 's shared_sets \<Rightarrow> ('s heur list res) \<times> 's shared_sets"
where
  "geoip_sub nx env neg gs shared =
     (if gs = [] then (Inr [], shared)
      else case GetOrCreateFromGeoIPRules nx env shared gs of
          (Inl e, sh) \<Rightarrow> (Inl e, sh)
        | (Inr s, sh) \<Rightarrow> (Inr [\<lparr>h_ipset = s, h_reverse = neg\<rparr>], sh))"

definition buildOptimizedIPMatcher ::
  "'s netipx \<Rightarrow> geo_env \<Rightarrow> ip_rule list \<Rightarrow> 's shared_sets \<Rightarrow> ('s ip_matcher res) \<times> 's shared_sets"
where
  "buildOptimizedIPMatcher nx env rules shared =
     (case geoip_sub nx env False (posGeoip rules) shared of
        (Inl e, sh) \<Rightarrow> (Inl e, sh)
      | (Inr ps, sh) \<Rightarrow>
      (case geoip_sub nx env True (negGeoip rules) sh of
          (Inl e, sh') \<Rightarrow> (Inl e, sh')
        | (Inr ns, sh') \<Rightarrow>
          (case custom_sub nx False (posCustom rules) @ custom_sub nx True (negCustom rules) @ ps @ ns of
              [] \<Rightarrow> (Inl (Err ''no valid ip matcher''), sh')
            | [m] \<Rightarrow> (Inr (Heur m), sh')
            | ms \<Rightarrow> (Inr (HeurMulti ms), sh'))))"

section \<open>Matchers that a reload replaces\<close>

record 's dyn_ip_matcher =
  di_rules :: "ip_rule list"
  di_state :: "'s ip_matcher"
  di_reverse :: bool
  di_reverseSet :: bool

definition dyn_ToggleReverse :: "'s dyn_ip_matcher \<Rightarrow> 's dyn_ip_matcher" where
  "dyn_ToggleReverse d = d\<lparr>di_reverse := \<not> di_reverse d, di_state := ip_ToggleReverse (di_state d)\<rparr>"

definition dyn_SetReverse :: "bool \<Rightarrow> 's dyn_ip_matcher \<Rightarrow> 's dyn_ip_matcher" where
  "dyn_SetReverse r d = d\<lparr>di_reverse := r, di_reverseSet := True, di_state := ip_SetReverse r (di_state d)\<rparr>"

definition dyn_Reload :: "'s ip_matcher \<Rightarrow> 's dyn_ip_matcher \<Rightarrow> 's dyn_ip_matcher" where
  "dyn_Reload m d = d\<lparr>di_state :=
     (if di_reverseSet d then ip_SetReverse (di_reverse d) m
      else if di_reverse d then ip_ToggleReverse m else m)\<rparr>"

definition NewDynamicIPMatcher :: "ip_rule list \<Rightarrow> 's ip_matcher \<Rightarrow> 's dyn_ip_matcher" where
  "NewDynamicIPMatcher rules m =
     dyn_Reload m \<lparr>di_rules = rules, di_state = m, di_reverse = False, di_reverseSet = False\<rparr>"

record 's ip_registry =
  ir_shared :: "'s shared_sets"
  ir_matchers :: "'s dyn_ip_matcher list"

definition BuildIPMatcher ::
  "'s netipx \<Rightarrow> geo_env \<Rightarrow> ip_rule list \<Rightarrow> 's ip_registry \<Rightarrow> ('s dyn_ip_matcher res) \<times> 's ip_registry"
where
  "BuildIPMatcher nx env rules r = (case buildOptimizedIPMatcher nx env rules (ir_shared r) of
       (Inl e, sh) \<Rightarrow> (Inl e, r\<lparr>ir_shared := sh\<rparr>)
     | (Inr m, sh) \<Rightarrow> let d = NewDynamicIPMatcher rules m in
         (Inr d, r\<lparr>ir_shared := sh, ir_matchers := ir_matchers r @ [d]\<rparr>))"

text \<open>\<open>Reload\<close>: all matchers are rebuilt before one is replaced.\<close>

fun rebuild_ip ::
  "'s netipx \<Rightarrow> geo_env \<Rightarrow> 's shared_sets \<Rightarrow> 's dyn_ip_matcher list \<Rightarrow> ('s dyn_ip_matcher list res) \<times> 's shared_sets"
where
  "rebuild_ip nx env sh [] = (Inr [], sh)"
| "rebuild_ip nx env sh (d # ds) = (case buildOptimizedIPMatcher nx env (di_rules d) sh of
       (Inl e, sh') \<Rightarrow> (Inl e, sh')
     | (Inr m, sh') \<Rightarrow> (case rebuild_ip nx env sh' ds of
           (Inl e, sh'') \<Rightarrow> (Inl e, sh'')
         | (Inr ds', sh'') \<Rightarrow> (Inr (dyn_Reload m d # ds'), sh'')))"

definition IPRegistry_Reload :: "'s netipx \<Rightarrow> geo_env \<Rightarrow> 's ip_registry \<Rightarrow> (unit res) \<times> 's ip_registry" where
  "IPRegistry_Reload nx env r = (case rebuild_ip nx env [] (ir_matchers r) of
       (Inl e, _) \<Rightarrow> (Inl e, r)
     | (Inr ds, sh) \<Rightarrow> (Inr (), \<lparr>ir_shared = sh, ir_matchers = ds\<rparr>))"

section \<open>What a built matcher matches\<close>

fun heurs_of :: "'s ip_matcher \<Rightarrow> 's heur list" where
  "heurs_of (Heur m) = [m]"
| "heurs_of (HeurMulti ms) = ms"
| "heurs_of (General ms) = concat (map heurs_of ms)"

text \<open>Every set in the cache was made by the factory.\<close>

definition shared_ok :: "'s netipx \<Rightarrow> 's shared_sets \<Rightarrow> bool" where
  "shared_ok nx sh \<longleftrightarrow> (\<forall>(k, s) \<in> set sh. \<exists>cs. s = CreateFromCIDRs nx cs)"

lemma shared_created: "shared_ok nx sh \<Longrightarrow> GetOrCreateFromGeoIPRules nx env sh gs = (r, sh') \<Longrightarrow>
     shared_ok nx sh' \<and> (\<forall>s. r = Inr s \<longrightarrow> (\<exists>cs. s = CreateFromCIDRs nx cs))"
  by (fastforce simp: GetOrCreateFromGeoIPRules_def shared_ok_def Let_def dest: map_of_SomeD
      split: option.splits sum.splits)

lemma geoip_sub_ok:
  assumes "netipx_ok nx" "shared_ok nx sh" "geoip_sub nx env neg gs sh = (Inr ms, sh')"
  shows "shared_ok nx sh' \<and> (\<forall>m \<in> set ms. heur_ok nx m)"
proof (cases "gs = []")
  case True
  with assms show ?thesis by (simp add: geoip_sub_def)
next
  case False
  with assms(3) obtain s where "GetOrCreateFromGeoIPRules nx env sh gs = (Inr s, sh')" "ms = [\<lparr>h_ipset = s, h_reverse = neg\<rparr>]"
    by (auto simp: geoip_sub_def split: prod.splits sum.splits)
  with shared_created [OF assms(2)] created_ok [OF assms(1)] show ?thesis by fastforce
qed

lemma heur_list_cases: "(xs = [] \<Longrightarrow> P) \<Longrightarrow> (\<And>h. xs = [h] \<Longrightarrow> P) \<Longrightarrow> (\<And>h h' hs. xs = h # h' # hs \<Longrightarrow> P) \<Longrightarrow> P"
  by (cases xs; cases "tl xs") auto

lemma built_heurs_ok:
  assumes "netipx_ok nx" "shared_ok nx sh" "buildOptimizedIPMatcher nx env rules sh = (Inr m, sh')"
  shows "(\<forall>h \<in> set (heurs_of m). heur_ok nx h) \<and> (case m of General ms \<Rightarrow> False | _ \<Rightarrow> True)"
proof -
  obtain ps sh1 ns where p: "geoip_sub nx env False (posGeoip rules) sh = (Inr ps, sh1)"
    and n: "geoip_sub nx env True (negGeoip rules) sh1 = (Inr ns, sh')"
    using assms(3) by (auto simp: buildOptimizedIPMatcher_def split: prod.splits sum.splits list.splits)
  let ?ms = "custom_sub nx False (posCustom rules) @ custom_sub nx True (negCustom rules) @ ps @ ns"
  have h: "\<forall>h \<in> set ?ms. heur_ok nx h"
    using geoip_sub_ok [OF assms(1,2) p] geoip_sub_ok [OF assms(1) _ n] created_ok [OF assms(1)]
    by (auto simp: custom_sub_def)
  have c: "(case ?ms of [] \<Rightarrow> (Inl (Err ''no valid ip matcher''), sh') | [m] \<Rightarrow> (Inr (Heur m), sh')
      | ms \<Rightarrow> (Inr (HeurMulti ms), sh')) = (Inr m, sh')"
    using assms(3) p n by (simp add: buildOptimizedIPMatcher_def)
  show ?thesis
  proof (cases ?ms rule: heur_list_cases)
    case (2 g)
    with h c show ?thesis by (simp only:) auto
  next
    case (3 g g' gs)
    with h c show ?thesis by (simp only:) auto
  qed (use c in simp)
qed

text \<open>C29: 
  The heuristic matchers decide a bucket of addresses together; still any-match means that one
  of the addresses matches alone, and all-match that every one does.
\<close>

theorem ip_matcher_shortcuts:
  assumes "netipx_ok nx" "shared_ok nx sh" "buildOptimizedIPMatcher nx env rules sh = (Inr m, sh')"
  shows "(ip_AnyMatch nx m ips \<longleftrightarrow> (\<exists>ip \<in> set ips. ip_Match nx m ip))
    \<and> (ip_Matches nx m ips \<longleftrightarrow> ips \<noteq> [] \<and> (\<exists>h \<in> set (heurs_of m). \<forall>ip \<in> set ips. heur_Match nx h ip))"
proof (cases m)
  case (Heur h)
  with built_heurs_ok [OF assms] have "heur_ok nx h" by simp
  with Heur assms(1) show ?thesis
    by (simp add: heur_any_match heur_matches list_ex_iff list_all_iff)
next
  case (HeurMulti ms)
  with built_heurs_ok [OF assms] have "\<forall>h \<in> set ms. heur_ok nx h" by simp
  with HeurMulti assms(1) show ?thesis
    by (simp add: multi_any_match multi_matches list_ex_iff list_all_iff)
next
  case (General ms)
  with built_heurs_ok [OF assms] show ?thesis by simp
qed

text \<open>
  What the rules say of an address: a CIDR covers it, and for negated rules, there is one of the
  address's family and none of them covers it.
\<close>

definition covered :: "cidr list \<Rightarrow> addr \<Rightarrow> bool" where
  "covered cs a \<longleftrightarrow> (\<exists>c \<in> set cs. \<exists>p. cidr_prefix c = Some p \<and> prefix_Contains p a)"

definition family_in :: "cidr list \<Rightarrow> addr \<Rightarrow> bool" where
  "family_in cs a \<longleftrightarrow> (\<exists>c \<in> set cs. cidr_prefix c \<noteq> None \<and> length (cd_Ip c) = length a)"

lemma max_bits_empty: "list_all prefix_valid ps \<Longrightarrow> max_bits ps = 255 \<longleftrightarrow> ps = []"
proof -
  assume v: "list_all prefix_valid ps"
  have "\<forall>n \<in> set ns. n \<le> 128 \<Longrightarrow> m \<le> 128 \<Longrightarrow> foldl max m ns \<le> (128 :: nat)" for m ns
    by (induction ns arbitrary: m) auto
  moreover have "\<forall>n \<in> set (map px_Bits ps). n \<le> 128"
    using v by (auto simp: list_all_iff prefix_valid_def Is4_def Is6_def)
  ultimately have "foldl max 0 (map px_Bits ps) \<le> 128" by blast
  then show ?thesis by (auto simp: max_bits_def fold_max Let_def)
qed

lemma set_empty:
  assumes "netipx_ok nx" "list_all prefix_valid ps"
  shows "nx_Prefixes nx (nx_IPSet nx ps) = [] \<longleftrightarrow> ps = []"
proof -
  let ?qs = "nx_Prefixes nx (nx_IPSet nx ps)"
  have cover: "list_ex (\<lambda>p. prefix_Contains p a) ?qs = list_ex (\<lambda>p. prefix_Contains p a) ps" for a
    using assms by (simp add: netipx_ok_def)
  have self: "prefix_Contains p (px_Addr p)" for p by (simp add: prefix_Contains_def)
  show ?thesis
  proof
    assume "?qs = []"
    with cover have "\<not> list_ex (\<lambda>p. prefix_Contains p a) ps" for a by simp
    with self show "ps = []" by (cases ps) auto
  next
    assume "ps = []"
    with cover have "\<not> list_ex (\<lambda>p. prefix_Contains p a) ?qs" for a by simp
    with self show "?qs = []" by (cases ?qs) auto
  qed
qed

lemma custom_says:
  assumes ok: "netipx_ok nx" and len: "Is4 a \<or> Is6 a"
  shows "matchAddr nx \<lparr>h_ipset = CreateFromCIDRs nx cs, h_reverse = neg\<rparr> a
     \<longleftrightarrow> family_in cs a \<and> covered cs a \<noteq> neg"
proof -
  define ps where "ps = List.map_filter cidr_prefix cs"
  define fam where "fam = (if Is4 a then Is4 else Is6)"
  have valid: "list_all prefix_valid (filter P ps)" for P
    using cidr_prefix_valid by (fastforce simp: ps_def list_all_iff List.map_filter_def)
  have set_ps: "p \<in> set ps \<longleftrightarrow> (\<exists>c \<in> set cs. cidr_prefix c = Some p)" for p
    by (force simp: ps_def List.map_filter_def)
  have addr_of: "cidr_prefix c = Some p \<Longrightarrow> px_Addr p = cd_Ip c" for c p
    by (auto simp: cidr_prefix_def Let_def split: if_splits)
  have fam: "fam b \<longleftrightarrow> length b = length a" for b
    using len by (auto simp: fam_def Is4_def Is6_def)
  have ne: "max_bits (nx_Prefixes nx (nx_IPSet nx (filter (fam \<circ> px_Addr) ps))) = 255 \<longleftrightarrow> \<not> family_in cs a"
  proof -
    have "(\<exists>p \<in> set ps. fam (px_Addr p)) \<longleftrightarrow> family_in cs a"
      using addr_of unfolding fam family_in_def Bex_def set_ps by (metis not_None_eq)
    then have "filter (fam \<circ> px_Addr) ps = [] \<longleftrightarrow> \<not> family_in cs a"
      by (auto simp: filter_empty_conv)
    moreover have "list_all prefix_valid (nx_Prefixes nx (nx_IPSet nx (filter (fam \<circ> px_Addr) ps)))"
      using ok valid by (simp add: netipx_ok_def)
    ultimately show ?thesis using set_empty [OF ok valid] by (simp add: max_bits_empty)
  qed
  have co: "nx_Contains nx (nx_IPSet nx (filter (fam \<circ> px_Addr) ps)) a \<longleftrightarrow> covered cs a"
    using ok valid [of "fam \<circ> px_Addr"] addr_of
    by (auto simp: netipx_ok_def list_ex_iff set_ps fam covered_def prefix_Contains_def) metis
  show ?thesis
  proof (cases "Is4 a")
    case True
    then show ?thesis using ne co
      by (simp add: matchAddr_def CreateFromCIDRs_def Let_def fam_def flip: ps_def)
  next
    case False
    with len show ?thesis using ne co
      by (simp add: matchAddr_def CreateFromCIDRs_def Let_def fam_def flip: ps_def)
  qed
qed

text \<open>C39: 
  A matcher built from custom address rules alone matches exactly the addresses that a positive rule
  covers, and those of a family named by a negative rule that no negative rule covers.
\<close>

theorem built_ip_matcher:
  assumes ok: "netipx_ok nx" and custom: "posGeoip rules = []" "negGeoip rules = []"
    and built: "buildOptimizedIPMatcher nx env rules sh = (Inr m, sh')"
  shows "ip_Match nx m ip \<longleftrightarrow> (\<exists>a. nx_FromStdIP nx ip = Some a \<and>
     (covered (posCustom rules) a \<or> family_in (negCustom rules) a \<and> \<not> covered (negCustom rules) a))"
proof -
  let ?ms = "custom_sub nx False (posCustom rules) @ custom_sub nx True (negCustom rules)"
  have c: "(case ?ms of [] \<Rightarrow> (Inl (Err ''no valid ip matcher''), sh) | [m] \<Rightarrow> (Inr (Heur m), sh)
      | ms \<Rightarrow> (Inr (HeurMulti ms), sh)) = (Inr m, sh')"
    using built custom by (simp add: buildOptimizedIPMatcher_def geoip_sub_def)
  have "ip_Match nx m ip \<longleftrightarrow> list_ex (\<lambda>h. heur_Match nx h ip) ?ms"
  proof (cases ?ms rule: heur_list_cases)
    case (2 g)
    with c show ?thesis by (simp only:) auto
  next
    case (3 g g' gs)
    with c show ?thesis by (simp only:) (auto simp: multi_Match_iff)
  qed (use c in simp)
  also have "\<dots> \<longleftrightarrow> (\<exists>a. nx_FromStdIP nx ip = Some a \<and> list_ex (\<lambda>h. matchAddr nx h a) ?ms)"
    by (auto simp: heur_Match_def list_ex_iff split: option.splits)
  also have "\<dots> \<longleftrightarrow> (\<exists>a. nx_FromStdIP nx ip = Some a \<and>
     (covered (posCustom rules) a \<or> family_in (negCustom rules) a \<and> \<not> covered (negCustom rules) a))"
  proof -
    have cov: "covered cs a \<Longrightarrow> family_in cs a" for cs a
      by (force simp: covered_def family_in_def cidr_prefix_def Let_def prefix_Contains_def split: if_splits)
    have nil: "\<not> covered [] a" "\<not> family_in [] a" for a by (simp_all add: covered_def family_in_def)
    have "list_ex (\<lambda>h. matchAddr nx h a) ?ms
        \<longleftrightarrow> covered (posCustom rules) a \<or> family_in (negCustom rules) a \<and> \<not> covered (negCustom rules) a"
      if "nx_FromStdIP nx ip = Some a" for a
      using custom_says [OF ok from_std_length [OF ok that]] cov nil by (auto simp: custom_sub_def)
    then show ?thesis by blast
  qed
  finally show ?thesis .
qed

text \<open>A sample of the package: a set is the list of its prefixes.\<close>

definition sample_netipx :: "(prefix list) netipx" where
  "sample_netipx = \<lparr>nx_FromStdIP = (\<lambda>ip. case To4 ip of Some a \<Rightarrow> Some a | None \<Rightarrow> To16 ip),
     nx_IPSet = (\<lambda>ps. ps), nx_Contains = (\<lambda>ps a. list_ex (\<lambda>p. prefix_Contains p a) ps), nx_Prefixes = (\<lambda>ps. ps)\<rparr>"

lemma sample_netipx_ok: "netipx_ok sample_netipx"
  by (simp add: netipx_ok_def sample_netipx_def)

definition sample_env :: geo_env where
  "sample_env = \<lparr>ge_asset = (\<lambda>f. Inl (ExtErr ''no such file'')), ge_GeoIP = (\<lambda>b. Inr []), ge_GeoSite = (\<lambda>b. Inr [])\<rparr>"

text \<open>10.0.0.0/8 and everything but 1.2.3.4.\<close>

definition sample_rules :: "ip_rule list" where
  "sample_rules = [Ip_Custom \<lparr>cd_Ip = [10, 0, 0, 0], cd_Prefix = 8\<rparr> False, Ip_Custom \<lparr>cd_Ip = [1, 2, 3, 4], cd_Prefix = 32\<rparr> True]"

definition sample_matcher :: "(prefix list) ip_matcher" where
  "sample_matcher = HeurMulti
     [\<lparr>h_ipset = \<lparr>is_ipv4 = [\<lparr>px_Addr = [10, 0, 0, 0], px_Bits = 8\<rparr>], is_ipv6 = [], is_max4 = 8, is_max6 = 255\<rparr>, h_reverse = False\<rparr>,
      \<lparr>h_ipset = \<lparr>is_ipv4 = [\<lparr>px_Addr = [1, 2, 3, 4], px_Bits = 32\<rparr>], is_ipv6 = [], is_max4 = 32, is_max6 = 255\<rparr>, h_reverse = True\<rparr>]"

lemmas build_rules = buildOptimizedIPMatcher_def posCustom_def negCustom_def posGeoip_def negGeoip_def
  geoip_sub_def custom_sub_def List.map_filter_def CreateFromCIDRs_def cidr_prefix_def prefix_valid_def
  Is4_def Is6_def max_bits_def Let_def

lemma sample_built: "buildOptimizedIPMatcher sample_netipx sample_env sample_rules [] = (Inr sample_matcher, [])"
  by (simp add: build_rules sample_netipx_def sample_rules_def sample_matcher_def)

theorem ip_matcher_shortcuts_witness:
  "ip_AnyMatch sample_netipx sample_matcher [[1, 2, 3, 4], [10, 0, 0, 1]] \<longleftrightarrow>
     (\<exists>ip \<in> set [[1, 2, 3, 4], [10, 0, 0, 1]]. ip_Match sample_netipx sample_matcher ip)"
  using ip_matcher_shortcuts [OF sample_netipx_ok _ sample_built, of "[[1, 2, 3, 4], [10, 0, 0, 1]]"]
  by (simp add: shared_ok_def)

text \<open>
  \<open>FilterIPs\<close> of several matchers of which one decides buckets and another single addresses
  keeps one view for each: an address that the first has taken stays in the view of the second.
  With the rules 10.0.0.0/8 and !10.0.0.1 the addresses 10.0.0.1 and 9.9.9.9 both match, and both are
  listed as unmatched too.
\<close>

definition overlap_rules :: "ip_rule list" where
  "overlap_rules = [Ip_Custom \<lparr>cd_Ip = [10, 0, 0, 0], cd_Prefix = 8\<rparr> False, Ip_Custom \<lparr>cd_Ip = [10, 0, 0, 1], cd_Prefix = 32\<rparr> True]"

definition overlap_heurs :: "(prefix list) heur list" where
  "overlap_heurs =
     [\<lparr>h_ipset = \<lparr>is_ipv4 = [\<lparr>px_Addr = [10, 0, 0, 0], px_Bits = 8\<rparr>], is_ipv6 = [], is_max4 = 8, is_max6 = 255\<rparr>, h_reverse = False\<rparr>,
      \<lparr>h_ipset = \<lparr>is_ipv4 = [\<lparr>px_Addr = [10, 0, 0, 1], px_Bits = 32\<rparr>], is_ipv6 = [], is_max4 = 32, is_max6 = 255\<rparr>, h_reverse = True\<rparr>]"

lemma overlap_built: "buildOptimizedIPMatcher sample_netipx sample_env overlap_rules [] = (Inr (HeurMulti overlap_heurs), [])"
  by (simp add: build_rules sample_netipx_def overlap_rules_def overlap_heurs_def)

lemma overlap_filtered:
  "multi_FilterIPs sample_netipx overlap_heurs [[10, 0, 0, 1], [9, 9, 9, 9]]
     = ([[10, 0, 0, 1], [9, 9, 9, 9]], [[9, 9, 9, 9], [10, 0, 0, 1]])"
  by code_simp

text \<open>
  The lists of \<open>FilterIPs\<close> overlap: of a matcher built from two rules, both addresses match, both
  are returned as matched, and both are returned as unmatched as well.
\<close>

theorem filter_lists_overlap:
  "fst (buildOptimizedIPMatcher sample_netipx sample_env overlap_rules []) = Inr (HeurMulti overlap_heurs)
   \<and> (case multi_FilterIPs sample_netipx overlap_heurs [[10, 0, 0, 1], [9, 9, 9, 9]] of
        (yes, no) \<Rightarrow> set yes = {[10, 0, 0, 1], [9, 9, 9, 9]} \<and> set no = set yes)
   \<and> multi_Match sample_netipx overlap_heurs [10, 0, 0, 1] \<and> multi_Match sample_netipx overlap_heurs [9, 9, 9, 9]"
proof -
  have "multi_Match sample_netipx overlap_heurs [10, 0, 0, 1]" by code_simp
  moreover have "multi_Match sample_netipx overlap_heurs [9, 9, 9, 9]" by code_simp
  ultimately show ?thesis by (auto simp: overlap_built overlap_filtered)
qed

theorem built_ip_matcher_witness:
  "ip_Match sample_netipx sample_matcher [10, 9, 8, 7]"
proof -
  have "posGeoip sample_rules = []" "negGeoip sample_rules = []"
    by (simp_all add: build_rules sample_rules_def)
  note r = built_ip_matcher [OF sample_netipx_ok this sample_built, of "[10, 9, 8, 7]"]
  have "prefix_Contains \<lparr>px_Addr = [10, 0, 0, 0], px_Bits = 8\<rparr> [10, 9, 8, 7]" by code_simp
  then have "covered (posCustom sample_rules) [10, 9, 8, 7]"
    by (simp add: covered_def build_rules sample_rules_def)
  with r show ?thesis by (simp add: sample_netipx_def To4_def)
qed

end
