(* ===== verification/Xray_Context.thy ===== *)
theory Xray_Context
  imports Xray_Domain_Rules Xray_IP_Rules
begin

text \<open>
  What the rules of xray's router look at (src/xray-core/features/routing): the metadata of the session
  (routing/session/context.go over common/session/session.go), and the context that resolves
  the domain of the target on demand (routing/dns/context.go).  The client of the DNS answers a domain with
  addresses or an error; the addresses and the failure are remembered in the context.
\<close>

section \<open>The session\<close>

record inbound_meta =
  im_Source :: destination
  im_Local :: destination
  im_Tag :: string
  im_User :: "string option"
  im_VlessRoute :: port

record outbound_meta =
  om_Target :: destination
  om_RouteTarget :: destination
  om_OriginalTarget :: destination
  om_Tag :: string

record content_meta =
  co_Protocol :: string
  co_Attributes :: "(string \<times> string) list option"
  co_SkipDNSResolve :: bool

record session_ctx =
  sc_Inbound :: "inbound_meta option"
  sc_Outbound :: "outbound_meta option"
  sc_Content :: "content_meta option"

text \<open>The address of a valid destination, as a list of IP addresses.\<close>

definition dest_ips :: "destination \<Rightarrow> net_ip list" where
  "dest_ips d = (if \<not> IsValid d then [] else case d_Address d of IPAddr i \<Rightarrow> [ip_bytes i] | DomainAddr _ \<Rightarrow> [])"

definition dest_port :: "destination \<Rightarrow> port" where
  "dest_port d = (if \<not> IsValid d then 0 else d_Port d)"

definition from_opt :: "'a \<Rightarrow> ('b \<Rightarrow> 'a) \<Rightarrow> 'b option \<Rightarrow> 'a" where
  "from_opt d f x = (case x of None \<Rightarrow> d | Some y \<Rightarrow> f y)"

definition GetInboundTag :: "session_ctx \<Rightarrow> string" where
  "GetInboundTag c = from_opt [] im_Tag (sc_Inbound c)"

definition GetSourceIPs :: "session_ctx \<Rightarrow> net_ip list" where
  "GetSourceIPs c = from_opt [] (\<lambda>i. dest_ips (im_Source i)) (sc_Inbound c)"

definition GetSourcePort :: "session_ctx \<Rightarrow> port" where
  "GetSourcePort c = from_opt 0 (\<lambda>i. dest_port (im_Source i)) (sc_Inbound c)"

definition session_TargetIPs :: "session_ctx \<Rightarrow> net_ip list" where
  "session_TargetIPs c = from_opt [] (\<lambda>o'. dest_ips (om_Target o')) (sc_Outbound c)"

definition GetTargetPort :: "session_ctx \<Rightarrow> port" where
  "GetTargetPort c = from_opt 0 (\<lambda>o'. dest_port (om_Target o')) (sc_Outbound c)"

definition GetLocalIPs :: "session_ctx \<Rightarrow> net_ip list" where
  "GetLocalIPs c = from_opt [] (\<lambda>i. dest_ips (im_Local i)) (sc_Inbound c)"

definition GetLocalPort :: "session_ctx \<Rightarrow> port" where
  "GetLocalPort c = from_opt 0 (\<lambda>i. dest_port (im_Local i)) (sc_Inbound c)"

definition domain_of :: "destination \<Rightarrow> string option" where
  "domain_of d = (case d_Address d of DomainAddr s \<Rightarrow> Some s | IPAddr _ \<Rightarrow> None)"

definition GetTargetDomain :: "session_ctx \<Rightarrow> string" where
  "GetTargetDomain c = (case sc_Outbound c of
       None \<Rightarrow> []
     | Some ob \<Rightarrow>
         if \<not> IsValid (om_Target ob) then []
         else case (if IsValid (om_RouteTarget ob) then domain_of (om_RouteTarget ob) else None) of
             Some d \<Rightarrow> d
           | None \<Rightarrow> (case domain_of (om_Target ob) of None \<Rightarrow> [] | Some d \<Rightarrow> d))"

definition GetNetwork :: "session_ctx \<Rightarrow> network" where
  "GetNetwork c = from_opt Network_Unknown (\<lambda>o'. d_Network (om_Target o')) (sc_Outbound c)"

definition GetProtocol :: "session_ctx \<Rightarrow> string" where
  "GetProtocol c = from_opt [] co_Protocol (sc_Content c)"

definition GetUser :: "session_ctx \<Rightarrow> string" where
  "GetUser c = from_opt [] (\<lambda>i. from_opt [] id (im_User i)) (sc_Inbound c)"

definition GetVlessRoute :: "session_ctx \<Rightarrow> port" where
  "GetVlessRoute c = from_opt 0 im_VlessRoute (sc_Inbound c)"

definition GetAttributes :: "session_ctx \<Rightarrow> (string \<times> string) list option" where
  "GetAttributes c = from_opt None co_Attributes (sc_Content c)"

definition GetSkipDNSResolve :: "session_ctx \<Rightarrow> bool" where
  "GetSkipDNSResolve c = from_opt False co_SkipDNSResolve (sc_Content c)"

section \<open>The context that resolves\<close>

text \<open>\<open>rc_client\<close>: wrapped in a context with a DNS client; \<open>rc_lookups\<close> counts the calls of the client.\<close>

record route_ctx =
  rc_session :: session_ctx
  rc_client :: bool
  rc_cacheIPs :: "net_ip list"
  rc_hasError :: bool
  rc_lookups :: nat

definition AsRoutingContext :: "session_ctx \<Rightarrow> route_ctx" where
  "AsRoutingContext s = \<lparr>rc_session = s, rc_client = False, rc_cacheIPs = [], rc_hasError = False, rc_lookups = 0\<rparr>"

definition ContextWithDNSClient :: "route_ctx \<Rightarrow> route_ctx" where
  "ContextWithDNSClient c = c\<lparr>rc_client := True, rc_cacheIPs := [], rc_hasError := False\<rparr>"

text \<open>\<open>GetTargetIPs\<close> of the session, or of the context that resolves, which it changes.\<close>

definition fall_back_ips :: "route_ctx \<Rightarrow> net_ip list \<times> route_ctx" where
  "fall_back_ips c = (let ips = session_TargetIPs (rc_session c) in
     if ips \<noteq> [] then (ips, c\<lparr>rc_cacheIPs := ips\<rparr>) else ([], c\<lparr>rc_hasError := True\<rparr>))"

definition GetTargetIPs :: "(string \<Rightarrow> net_ip list res) \<Rightarrow> route_ctx \<Rightarrow> net_ip list \<times> route_ctx" where
  "GetTargetIPs dns c =
     (if \<not> rc_client c then (session_TargetIPs (rc_session c), c)
      else if rc_cacheIPs c \<noteq> [] then (rc_cacheIPs c, c)
      else if rc_hasError c then ([], c)
      else let domain = GetTargetDomain (rc_session c) in
        if domain \<noteq> [] then
          (let c' = c\<lparr>rc_lookups := Suc (rc_lookups c)\<rparr> in
           case dns domain of
             Inr ips \<Rightarrow> (ips, c'\<lparr>rc_cacheIPs := ips\<rparr>)
           | Inl e \<Rightarrow> fall_back_ips c')
        else fall_back_ips c)"

section \<open>What asking for the addresses changes\<close>

definition same_session :: "route_ctx \<Rightarrow> route_ctx \<Rightarrow> bool" where
  "same_session c c' \<longleftrightarrow> rc_session c' = rc_session c \<and> rc_client c' = rc_client c"

lemma same_session_refl [simp]: "same_session c c"
  by (simp add: same_session_def)

lemma same_session_trans: "same_session a b \<Longrightarrow> same_session b c \<Longrightarrow> same_session a c"
  by (simp add: same_session_def)

lemma target_ips_session: "GetTargetIPs dns c = (ips, c') \<Longrightarrow> same_session c c'"
  by (auto simp: GetTargetIPs_def fall_back_ips_def same_session_def Let_def split: if_splits sum.splits)

text \<open>
  The addresses a context stands for: once asked, it gives the same answer again, whatever the order of the
  conditions that ask.
\<close>

lemma asked_again: "GetTargetIPs dns c = (ips, c') \<Longrightarrow> fst (GetTargetIPs dns c') = ips"
  by (auto simp: GetTargetIPs_def fall_back_ips_def Let_def split: if_splits sum.splits)

text \<open>
  No more lookups once an answer with addresses, or a failure, is remembered; without a client there is none.
\<close>

lemma lookups_bounded:
  "GetTargetIPs dns c = (ips, c') \<Longrightarrow>
     rc_lookups c' \<le> Suc (rc_lookups c) \<and> (\<not> rc_client c \<longrightarrow> c' = c) \<and> (rc_lookups c' = Suc (rc_lookups c) \<longrightarrow> rc_client c)"
  by (auto simp: GetTargetIPs_def fall_back_ips_def Let_def split: if_splits sum.splits)

end
