(* ===== verification/Xray_Webhook.thy ===== *)
theory Xray_Webhook
  imports Xray_Context "HOL-Library.AList"
begin

text \<open>
  The notifier of a routing rule (src/xray-core/app/router/webhook.go): where it posts to, the event, and the
  deduplication by email.  Times are in nanoseconds.  The post itself, which only logs its failure, and the
  fields that \<open>enrichFromSession\<close> copies from the session are left out; a notifier keeps
  the events it handed to \<open>post\<close>, with the time.
\<close>

section \<open>Where a notifier posts\<close>

fun Index :: "string \<Rightarrow> string \<Rightarrow> nat option" where
  "Index [] sub = (if sub = [] then Some 0 else None)"
| "Index (c # s) sub = (if HasPrefix (c # s) sub then Some 0 else map_option Suc (Index s sub))"

definition parseURL :: "string \<Rightarrow> string \<times> string" where
  "parseURL raw =
     (if raw = [] \<or> (hd raw \<noteq> CHR ''/'' \<and> hd raw \<noteq> CHR ''@'') then (raw, [])
      else case Index raw '':/'' of
          Some idx \<Rightarrow> (''http://localhost'' @ drop (idx + 1) raw, take idx raw)
        | None \<Rightarrow> (''http://localhost/'', raw))"

text \<open>On Linux; the path of a socket address has 108 bytes.\<close>

definition resolveSocketPath :: "string \<Rightarrow> string" where
  "resolveSocketPath path =
     (if path = [] \<or> hd path \<noteq> CHR ''@'' then path
      else if 1 < length path \<and> path ! 1 = CHR ''@'' then take 108 (tl path @ replicate 108 (CHR 0x00))
      else path)"

section \<open>Events\<close>

record event =
  ev_Email :: "string option"
  ev_Protocol :: string
  ev_Network :: string
  ev_Source :: "string option"
  ev_Destination :: "string option"
  ev_InboundTag :: string
  ev_InboundLocal :: "string option"
  ev_OutboundTag :: string
  ev_Timestamp :: int

definition net_IP_String :: "net_ip \<Rightarrow> string" where
  "net_IP_String b = (case IPAddress b of Some (IPAddr i) \<Rightarrow> ip_String i | _ \<Rightarrow> [])"

definition first_endpoint :: "net_ip list \<Rightarrow> port \<Rightarrow> string option" where
  "first_endpoint ips p = (case ips of [] \<Rightarrow> None | ip # _ \<Rightarrow> Some (JoinHostPort (net_IP_String ip) (port_String p)))"

text \<open>The context is the one given to \<open>PickRoute\<close>, the session itself.\<close>

definition buildEvent :: "session_ctx \<Rightarrow> string \<Rightarrow> int \<Rightarrow> event" where
  "buildEvent s outboundTag now =
     \<lparr>ev_Email = (if GetUser s \<noteq> [] then Some (GetUser s) else None),
      ev_Protocol = GetProtocol s,
      ev_Network = SystemString (GetNetwork s),
      ev_Source = first_endpoint (GetSourceIPs s) (GetSourcePort s),
      ev_Destination = (if GetTargetDomain s \<noteq> [] then Some (JoinHostPort (GetTargetDomain s) (port_String (GetTargetPort s)))
        else first_endpoint (session_TargetIPs s) (GetTargetPort s)),
      ev_InboundTag = GetInboundTag s,
      ev_InboundLocal = first_endpoint (GetLocalIPs s) (GetLocalPort s),
      ev_OutboundTag = outboundTag,
      ev_Timestamp = now div 1000000000\<rparr>"

section \<open>The notifier\<close>

record webhook_config =
  wc_Url :: string
  wc_Deduplication :: "32 word"
  wc_Headers :: "(string \<times> string) list"

record notifier =
  wn_url :: string
  wn_dialAddr :: "string option"
  wn_headers :: "(string \<times> string) list"
  wn_deduplication :: "32 word"
  wn_seen :: "(string \<times> int) list"
  wn_done :: bool
  wn_posted :: "(int \<times> event) list"

definition NewWebhookNotifier :: "webhook_config option \<Rightarrow> notifier option" where
  "NewWebhookNotifier cfg = (case cfg of
       None \<Rightarrow> None
     | Some c \<Rightarrow>
         if wc_Url c = [] then None
         else (case parseURL (wc_Url c) of (httpURL, socketPath) \<Rightarrow>
           Some \<lparr>wn_url = httpURL, wn_dialAddr = (if socketPath \<noteq> [] then Some (resolveSocketPath socketPath) else None),
             wn_headers = wc_Headers c, wn_deduplication = wc_Deduplication c, wn_seen = [], wn_done = False, wn_posted = []\<rparr>))"

definition hook_ttl :: "notifier \<Rightarrow> int" where
  "hook_ttl h = int (unat (wn_deduplication h)) * 1000000000"

text \<open>
  \<open>isDuplicate\<close>, \<open>Fire\<close> and \<open>cleanup_tick\<close> as one step each; \<open>Xray_Webhook_Threads\<close> splits them into their accesses to
  the shared state and shows that these are the runs that nothing interrupts.
\<close>

definition isDuplicate :: "string \<Rightarrow> int \<Rightarrow> notifier \<Rightarrow> bool \<times> notifier" where
  "isDuplicate email now h =
     (if wn_deduplication h = 0 \<or> email = [] then (False, h)
      else case map_of (wn_seen h) email of
          None \<Rightarrow> (False, h\<lparr>wn_seen := AList.update email now (wn_seen h)\<rparr>)
        | Some v \<Rightarrow> if now - v < hook_ttl h then (True, h)
            else (False, h\<lparr>wn_seen := AList.update email now (wn_seen h)\<rparr>))"

definition Fire :: "session_ctx \<Rightarrow> string \<Rightarrow> int \<Rightarrow> notifier \<Rightarrow> notifier" where
  "Fire s outboundTag now h =
     (let ev = buildEvent s outboundTag now;
          email = (case ev_Email ev of None \<Rightarrow> [] | Some e \<Rightarrow> e)
      in case isDuplicate email now h of (dup, h') \<Rightarrow>
           if dup \<or> wn_done h' then h' else h'\<lparr>wn_posted := wn_posted h' @ [(now, ev)]\<rparr>)"

text \<open>One tick of \<open>cleanupLoop\<close>, which ends when the notifier is closed, while no call of \<open>Fire\<close> runs.\<close>

definition cleanup_tick :: "int \<Rightarrow> notifier \<Rightarrow> notifier" where
  "cleanup_tick now h =
     (if wn_done h \<or> wn_deduplication h = 0 then h
      else h\<lparr>wn_seen := filter (\<lambda>(k, v). \<not> hook_ttl h \<le> now - v) (wn_seen h)\<rparr>)"

definition hook_Close :: "notifier \<Rightarrow> notifier" where
  "hook_Close h = h\<lparr>wn_done := True\<rparr>"

section \<open>Deduplication of calls one after the other\<close>

datatype hook_step = HFire session_ctx string (hook_time: int)
  | HTick (hook_time: int)
  | HClose (hook_time: int)

fun do_step :: "hook_step \<Rightarrow> notifier \<Rightarrow> notifier" where
  "do_step (HFire s tag now) h = Fire s tag now h"
| "do_step (HTick now) h = cleanup_tick now h"
| "do_step (HClose now) h = hook_Close h"

text \<open>
  Where no two calls run at the same time, no two posted events have the same email and are less than the time of the
  deduplication apart; the map of the emails seen holds one time per email, no later than now, and a posted event
  is out of the time or has its email in the map with a time that is not earlier.
\<close>

definition post_ok :: "int \<Rightarrow> notifier \<Rightarrow> int \<times> event \<Rightarrow> bool" where
  "post_ok now h = (\<lambda>(t, ev). t \<le> now \<and> (\<forall>e. ev_Email ev = Some e \<longrightarrow> e \<noteq> []
       \<and> (0 < wn_deduplication h \<longrightarrow> hook_ttl h \<le> now - t \<or> (\<exists>v. map_of (wn_seen h) e = Some v \<and> t \<le> v))))"

definition hook_ok :: "int \<Rightarrow> notifier \<Rightarrow> bool" where
  "hook_ok now h \<longleftrightarrow> distinct (map fst (wn_seen h)) \<and> (\<forall>p \<in> set (wn_posted h). post_ok now h p)"

definition spaced_by :: "int \<Rightarrow> (int \<times> event) list \<Rightarrow> bool" where
  "spaced_by ttl posts \<longleftrightarrow> sorted_wrt (\<lambda>(t, ev) (t', ev'). ev_Email ev \<noteq> None \<and> ev_Email ev = ev_Email ev' \<longrightarrow> t + ttl \<le> t') posts"

definition spaced :: "notifier \<Rightarrow> bool" where
  "spaced h \<longleftrightarrow> spaced_by (hook_ttl h) (wn_posted h)"

lemma new_hook_ok: "NewWebhookNotifier cfg = Some h \<Longrightarrow> hook_ok now h \<and> spaced h"
  by (auto simp: NewWebhookNotifier_def hook_ok_def spaced_def spaced_by_def split: option.splits if_splits prod.splits)

lemma hook_ttl_seen [simp]: "hook_ttl (h\<lparr>wn_seen := x\<rparr>) = hook_ttl h" "hook_ttl (h\<lparr>wn_posted := y\<rparr>) = hook_ttl h"
  "hook_ttl (h\<lparr>wn_done := z\<rparr>) = hook_ttl h"
  by (simp_all add: hook_ttl_def)

lemma post_ok_frame [simp]: "post_ok now (h\<lparr>wn_posted := y\<rparr>) = post_ok now h" "post_ok now (h\<lparr>wn_done := z\<rparr>) = post_ok now h"
  by (simp_all add: post_ok_def)

lemma hook_ok_later: "hook_ok a h \<Longrightarrow> a \<le> b \<Longrightarrow> hook_ok b h"
  unfolding hook_ok_def post_ok_def by fastforce

lemma tick_ok:
  assumes "hook_ok now h"
  shows "hook_ok now (cleanup_tick now h)"
proof (cases "wn_done h \<or> wn_deduplication h = 0")
  case False
  let ?P = "\<lambda>(k, v). \<not> hook_ttl h \<le> now - v"
  have d: "distinct (map fst (wn_seen h))" using assms by (simp add: hook_ok_def)
  have "map_of (filter ?P (wn_seen h)) e = Some v" if "map_of (wn_seen h) e = Some v" "\<not> hook_ttl h \<le> now - v" for e v
  proof -
    have "(e, v) \<in> set (filter ?P (wn_seen h))" using map_of_SomeD [OF that(1)] that(2) by simp
    then show ?thesis using d by (simp add: map_of_is_SomeI distinct_map_filter)
  qed
  then have "hook_ttl h \<le> now - t \<or> (\<exists>v. map_of (filter ?P (wn_seen h)) e = Some v \<and> t \<le> v)"
    if "hook_ttl h \<le> now - t \<or> (\<exists>v. map_of (wn_seen h) e = Some v \<and> t \<le> v)" for e t
    using that by fastforce
  with assms False d show ?thesis
    by (auto simp: hook_ok_def post_ok_def cleanup_tick_def distinct_map_filter split: prod.splits)
qed (use assms in \<open>simp add: cleanup_tick_def\<close>)

text \<open>What \<open>isDuplicate\<close> leaves: the map of the emails seen, with the email now where it is not a duplicate.\<close>

lemma fire_cases:
  assumes "hook_ok now h"
  shows "Fire s tag now h = h
    \<or> (\<exists>h'. (h' = h \<or> (0 < wn_deduplication h \<and> h' = h\<lparr>wn_seen := AList.update (GetUser s) now (wn_seen h)\<rparr>))
       \<and> (0 < wn_deduplication h \<longrightarrow> GetUser s \<noteq> [] \<longrightarrow> map_of (wn_seen h') (GetUser s) = Some now
           \<and> (\<forall>v. map_of (wn_seen h) (GetUser s) = Some v \<longrightarrow> hook_ttl h \<le> now - v))
       \<and> (Fire s tag now h = h' \<or> Fire s tag now h = h'\<lparr>wn_posted := wn_posted h' @ [(now, buildEvent s tag now)]\<rparr>))"
  by (auto simp: Fire_def isDuplicate_def buildEvent_def Let_def update_conv word_neq_0_conv not_less split: option.split if_splits)

lemma Fire_ok:
  assumes ok: "hook_ok now h" and sp: "spaced h"
  shows "hook_ok now (Fire s tag now h) \<and> spaced (Fire s tag now h)"
proof -
  let ?h2 = "\<lambda>h'. h'\<lparr>wn_posted := wn_posted h' @ [(now, buildEvent s tag now)]\<rparr>"
  have zero: "hook_ttl h = 0" if "\<not> 0 < wn_deduplication h" using that by (simp add: hook_ttl_def word_gt_0)
  have "hook_ok now h' \<and> spaced h' \<and> hook_ok now (?h2 h') \<and> spaced (?h2 h')"
    if h': "h' = h \<or> (0 < wn_deduplication h \<and> h' = h\<lparr>wn_seen := AList.update (GetUser s) now (wn_seen h)\<rparr>)"
      and seen: "0 < wn_deduplication h \<Longrightarrow> GetUser s \<noteq> [] \<Longrightarrow> map_of (wn_seen h') (GetUser s) = Some now
         \<and> (\<forall>v. map_of (wn_seen h) (GetUser s) = Some v \<longrightarrow> hook_ttl h \<le> now - v)" for h'
  proof -
    have same: "wn_posted h' = wn_posted h" "hook_ttl h' = hook_ttl h" "wn_deduplication h' = wn_deduplication h"
      using h' by auto
    have ok': "hook_ok now h'"
      using ok h' by (fastforce simp: hook_ok_def post_ok_def update_conv distinct_update)
    moreover have "spaced h'" using sp by (simp add: spaced_def spaced_by_def same)
    moreover have "hook_ok now (?h2 h')"
    proof -
      have "post_ok now h' (now, buildEvent s tag now)"
        unfolding post_ok_def same using seen by (auto simp: buildEvent_def simp del: map_of_eq_Some_iff split: if_splits)
      with ok' show ?thesis by (simp add: hook_ok_def)
    qed
    moreover have "t + hook_ttl h \<le> now" if "(t, ev) \<in> set (wn_posted h)" "ev_Email ev = Some e" "e = GetUser s" for t ev e
    proof (cases "0 < wn_deduplication h")
      case True
      from ok that(1) have "post_ok now h (t, ev)" by (simp add: hook_ok_def)
      with that have "e \<noteq> []" "hook_ttl h \<le> now - t \<or> (\<exists>v. map_of (wn_seen h) e = Some v \<and> t \<le> v)"
        using True unfolding post_ok_def by auto
      with seen [OF True] that(3) show ?thesis by fastforce
    next
      case False
      with zero ok that(1) show ?thesis by (auto simp: hook_ok_def post_ok_def)
    qed
    with sp have "spaced (?h2 h')"
      by (auto simp: spaced_def spaced_by_def same sorted_wrt_append buildEvent_def split: if_splits prod.splits)
    ultimately show ?thesis by blast
  qed
  with fire_cases [OF ok, of s tag] ok sp show ?thesis by metis
qed

lemma step_ok: "hook_ok (hook_time st) h \<Longrightarrow> spaced h \<Longrightarrow> hook_ok (hook_time st) (do_step st h) \<and> spaced (do_step st h)"
proof (cases st)
  case (HTick now)
  assume "hook_ok (hook_time st) h" "spaced h"
  with HTick tick_ok show ?thesis by (auto simp: spaced_def cleanup_tick_def)
next
  case (HClose now)
  assume "hook_ok (hook_time st) h" "spaced h"
  with HClose show ?thesis by (simp add: hook_Close_def hook_ok_def spaced_def)
next
  case (HFire s tag now)
  assume "hook_ok (hook_time st) h" "spaced h"
  with HFire Fire_ok show ?thesis by simp
qed

lemma steps_ok:
  "sorted (now # map hook_time steps) \<Longrightarrow> hook_ok now h \<Longrightarrow> spaced h \<Longrightarrow> spaced (fold do_step steps h)"
proof (induction steps arbitrary: now h)
  case (Cons st steps)
  then have "hook_ok (hook_time st) h" using hook_ok_later by auto
  from step_ok [OF this Cons.prems(3)] Cons.IH [of "hook_time st" "do_step st h"] Cons.prems(1) show ?case by simp
qed simp

lemma ttl_steps: "hook_ttl (fold do_step steps h) = hook_ttl h"
proof (induction steps arbitrary: h)
  case (Cons st steps)
  have "hook_ttl (do_step st h) = hook_ttl h"
    by (cases st) (auto simp: Fire_def isDuplicate_def cleanup_tick_def hook_Close_def Let_def split: option.split)
  with Cons.IH show ?case by simp
qed simp

text \<open>
  With the calls, the ticks and \<open>Close\<close> one after the other, in the order of their times, two events that are posted for the
  same email are at least the time of the deduplication apart.  Calls that run at the same time do not keep it;
  what they keep is in \<open>Xray_Webhook_Threads\<close>.
\<close>

lemma serial_deduplicates:
  assumes "NewWebhookNotifier (Some cfg) = Some h" "sorted (map hook_time steps)"
  shows "spaced_by (int (unat (wc_Deduplication cfg)) * 1000000000) (wn_posted (fold do_step steps h))"
proof -
  have "spaced (fold do_step steps h)"
  proof (cases steps)
    case (Cons st rest)
    with assms(2) new_hook_ok [OF assms(1)] steps_ok [of "hook_time st" steps h] show ?thesis by simp
  qed (use new_hook_ok [OF assms(1)] in simp)
  moreover have "hook_ttl h = int (unat (wc_Deduplication cfg)) * 1000000000"
    using assms(1) by (auto simp: NewWebhookNotifier_def hook_ttl_def split: if_splits prod.splits)
  ultimately show ?thesis by (simp add: spaced_def ttl_steps)
qed

end
