(* ===== verification/Xray_Conditions.thy ===== *)
theory Xray_Conditions
  imports Xray_Webhook
begin

text \<open>
  The conditions of a routing rule (src/xray-core/app/router/condition.go) and how they are built from
  the message of the configuration (config.go).  The matchers of addresses and domains live in the two
  registries, where a reload of the data files replaces their contents; a condition holds the place of
  its matcher.  Looking up the local process of a connection is a parameter.
\<close>

section \<open>Conditions\<close>

record ('s) route_env =
  re_netipx :: "'s netipx"
  re_geo :: geo_env
  re_libs :: domain_libs
  re_dns :: "string \<Rightarrow> net_ip list res"
  re_Executable :: "string res"
  re_FindProcess :: "string \<Rightarrow> net_ip \<Rightarrow> port \<Rightarrow> net_ip option \<Rightarrow> port \<Rightarrow> (nat \<times> string \<times> string) res"
  re_Getpid :: nat

record ('s) geo_regs =
  gr_ip :: "'s ip_registry"
  gr_domain :: domain_registry

datatype as_type = AsLocal | AsSource | AsTarget | AsVlessRoute

datatype condition =
    InboundTagCond "string list"
  | NetworkCond "bool list"
  | ProtocolCond "string list"
  | PortCond "memory_port_range list" as_type
  | UserCond "string list" "string list"
  | AttributeCond "(string \<times> string) list"
  | IPCond nat as_type
  | DomainCond nat
  | ProcessCond "string list" "string list" "string list" bool

section \<open>Making conditions\<close>

definition network_index :: "network \<Rightarrow> nat" where
  "network_index n = (case n of Network_Unknown \<Rightarrow> 0 | Network_TCP \<Rightarrow> 2 | Network_UDP \<Rightarrow> 3 | Network_UNIX \<Rightarrow> 4)"

definition NewNetworkMatcher :: "network list \<Rightarrow> condition" where
  "NewNetworkMatcher ns = NetworkCond (fold (\<lambda>n l. l[network_index n := True]) ns (replicate 8 False))"

definition NewPortMatcher :: "port_range list \<Rightarrow> as_type \<Rightarrow> condition" where
  "NewPortMatcher l t = PortCond (PortListFromProto l) t"

fun split_users :: "regexp_lib \<Rightarrow> string list \<Rightarrow> string list \<times> string list" where
  "split_users rx [] = ([], [])"
| "split_users rx (u # us) = (case split_users rx us of (users, pats) \<Rightarrow>
     if u = [] then (users, pats)
     else if 7 < length u \<and> HasPrefix u ''regexp:'' then
       (users, if rx (drop 7 u) = None then pats else drop 7 u # pats)
     else (u # users, pats))"

definition NewUserMatcher :: "regexp_lib \<Rightarrow> string list \<Rightarrow> condition" where
  "NewUserMatcher rx us = (case split_users rx us of (users, pats) \<Rightarrow> UserCond users pats)"

definition NewInboundTagMatcher :: "string list \<Rightarrow> condition" where
  "NewInboundTagMatcher tags = InboundTagCond (filter (\<lambda>t. t \<noteq> []) tags)"

definition NewProtocolMatcher :: "string list \<Rightarrow> condition" where
  "NewProtocolMatcher ps = ProtocolCond (filter (\<lambda>p. p \<noteq> []) ps)"

text \<open>The loop of \<open>NewProcessNameMatcher\<close>; \<open>filepath.ToSlash\<close> changes nothing on Unix.\<close>

fun process_names :: "string res \<Rightarrow> string list \<Rightarrow> string list \<times> string list \<times> string list \<times> bool \<Rightarrow> condition" where
  "process_names exe [] (names, paths, folders, self) = ProcessCond names paths folders self"
| "process_names exe (n # ns) (names, paths, folders, self) =
     (if n = ''self/'' then process_names exe ns (names, paths, folders, True)
      else case (if n = ''xray/'' then exe else Inr n) of
          Inl e \<Rightarrow> process_names exe ns (names, paths, folders, self)
        | Inr name \<Rightarrow>
            if HasSuffix name ''/'' then process_names exe ns (names, paths, folders @ [name], self)
            else if Contains name ''/'' then process_names exe ns (names, paths @ [name], folders, self)
            else process_names exe ns (names @ [TrimSuffix name ''.exe''], paths, folders, self))"

definition NewProcessNameMatcher :: "string res \<Rightarrow> string list \<Rightarrow> condition" where
  "NewProcessNameMatcher exe ns = process_names exe ns ([], [], [], False)"

text \<open>The matcher is appended to its registry; the condition keeps its place.\<close>

definition NewIPMatcher :: "'s route_env \<Rightarrow> ip_rule list \<Rightarrow> as_type \<Rightarrow> ('s geo_regs, condition) act" where
  "NewIPMatcher env rules t = (\<lambda>g. case BuildIPMatcher (re_netipx env) (re_geo env) rules (gr_ip g) of
       (Inl e, r) \<Rightarrow> (Inl e, g\<lparr>gr_ip := r\<rparr>)
     | (Inr d, r) \<Rightarrow> (Inr (IPCond (length (ir_matchers (gr_ip g))) t), g\<lparr>gr_ip := r\<rparr>))"

definition NewDomainMatcher :: "'s route_env \<Rightarrow> domain_rule list \<Rightarrow> ('s geo_regs, condition) act" where
  "NewDomainMatcher env rules = (\<lambda>g. case BuildDomainMatcher (re_libs env) (re_geo env) rules (gr_domain g) of
       (Inl e, r) \<Rightarrow> (Inl e, g\<lparr>gr_domain := r\<rparr>)
     | (Inr d, r) \<Rightarrow> (Inr (DomainCond (length (dr_matchers (gr_domain g)))), g\<lparr>gr_domain := r\<rparr>))"

text \<open>
  \<open>regexp.MustCompile\<close> panics on a pattern that does not compile; of two keys that are equal in lower case the one visited
  last stays.
\<close>

definition NewAttributeMatcher :: "regexp_lib \<Rightarrow> (string \<times> string) list \<Rightarrow> condition res" where
  "NewAttributeMatcher rx as =
     (if list_ex (\<lambda>(k, p). rx p = None) as then Inl (Panic ''regexp: Compile'')
      else Inr (AttributeCond (fold (\<lambda>(k, p). AList.update (ToLower k) p) as [])))"

section \<open>Rules of the configuration\<close>

datatype rule_target = ToTag string | ToBalancer string | NoTarget

record router_rule =
  xr_Target :: rule_target
  xr_RuleTag :: string
  xr_InboundTag :: "string list"
  xr_Networks :: "network list"
  xr_Protocol :: "string list"
  xr_PortList :: "port_range list option"
  xr_SourcePortList :: "port_range list option"
  xr_LocalPortList :: "port_range list option"
  xr_VlessRouteList :: "port_range list option"
  xr_UserEmail :: "string list"
  xr_Attributes :: "(string \<times> string) list"
  xr_Ip :: "ip_rule list"
  xr_SourceIp :: "ip_rule list"
  xr_LocalIp :: "ip_rule list"
  xr_Domain :: "domain_rule list"
  xr_Process :: "string list"
  xr_Webhook :: "webhook_config option"

definition GetTag :: "router_rule \<Rightarrow> string" where
  "GetTag r = (case xr_Target r of ToTag t \<Rightarrow> t | _ \<Rightarrow> [])"

definition GetBalancingTag :: "router_rule \<Rightarrow> string" where
  "GetBalancingTag r = (case xr_Target r of ToBalancer t \<Rightarrow> t | _ \<Rightarrow> [])"

definition when_set :: "bool \<Rightarrow> ('s, 'a) act \<Rightarrow> ('s, 'a list) act" where
  "when_set b m = (if b then andThen m (\<lambda>x. ret [x]) else ret [])"

definition port_cond :: "port_range list option \<Rightarrow> as_type \<Rightarrow> ('s, condition list) act" where
  "port_cond l t = (case l of None \<Rightarrow> ret [] | Some ps \<Rightarrow> ret [NewPortMatcher ps t])"

fun collect :: "('s, 'a list) act list \<Rightarrow> ('s, 'a list) act" where
  "collect [] = ret []"
| "collect (m # ms) = andThen m (\<lambda>xs. andThen (collect ms) (\<lambda>ys. ret (xs @ ys)))"

definition rule_conditions :: "'s route_env \<Rightarrow> router_rule \<Rightarrow> ('s geo_regs, condition list) act list" where
  "rule_conditions env r = (let rx = dl_regexp (re_libs env) in
    [when_set (xr_InboundTag r \<noteq> []) (ret (NewInboundTagMatcher (xr_InboundTag r))),
     when_set (xr_Networks r \<noteq> []) (ret (NewNetworkMatcher (xr_Networks r))),
     when_set (xr_Protocol r \<noteq> []) (ret (NewProtocolMatcher (xr_Protocol r))),
     port_cond (xr_PortList r) AsTarget,
     port_cond (xr_SourcePortList r) AsSource,
     port_cond (xr_LocalPortList r) AsLocal,
     port_cond (xr_VlessRouteList r) AsVlessRoute,
     when_set (xr_UserEmail r \<noteq> []) (ret (NewUserMatcher rx (xr_UserEmail r))),
     when_set (xr_Attributes r \<noteq> []) (lift_res (NewAttributeMatcher rx (xr_Attributes r))),
     when_set (xr_Ip r \<noteq> []) (NewIPMatcher env (xr_Ip r) AsTarget),
     when_set (xr_SourceIp r \<noteq> []) (NewIPMatcher env (xr_SourceIp r) AsSource),
     when_set (xr_LocalIp r \<noteq> []) (NewIPMatcher env (xr_LocalIp r) AsLocal),
     when_set (xr_Domain r \<noteq> []) (NewDomainMatcher env (xr_Domain r)),
     when_set (xr_Process r \<noteq> []) (ret (NewProcessNameMatcher (re_Executable env) (xr_Process r)))])"

definition BuildCondition :: "'s route_env \<Rightarrow> router_rule \<Rightarrow> ('s geo_regs, condition list) act" where
  "BuildCondition env r = andThen (collect (rule_conditions env r)) (\<lambda>conds.
     if conds = [] then throw (Err ''this rule has no effective fields'') else ret conds)"

section \<open>Applying conditions\<close>

definition rx_matches :: "regexp_lib \<Rightarrow> string \<Rightarrow> string \<Rightarrow> bool" where
  "rx_matches rx p s = (case rx p of None \<Rightarrow> False | Some f \<Rightarrow> f s)"

text \<open>The headers with lower-case names; of two names that become equal the one visited last stays.\<close>

definition attributes_match :: "regexp_lib \<Rightarrow> (string \<times> string) list \<Rightarrow> (string \<times> string) list \<Rightarrow> bool" where
  "attributes_match rx keys attrs = (let headers = map_of (rev (map (\<lambda>(k, v). (ToLower k, v)) attrs)) in
     list_all (\<lambda>(k, p). case headers k of None \<Rightarrow> False | Some a \<Rightarrow> rx_matches rx p a) keys)"

definition process_matches :: "'s route_env \<Rightarrow> string list \<Rightarrow> string list \<Rightarrow> string list \<Rightarrow> bool
    \<Rightarrow> session_ctx \<Rightarrow> net_ip list \<Rightarrow> bool" where
  "process_matches env names paths folders self s dst =
     (case (GetSourceIPs s, GetNetwork s) of
        ([], _) \<Rightarrow> False
      | (src # _, n) \<Rightarrow>
          if n \<noteq> Network_TCP \<and> n \<noteq> Network_UDP then False
          else (let (dstIP, dstPort) = (case dst of [] \<Rightarrow> (None, 0) | ip # _ \<Rightarrow> (Some ip, GetTargetPort s)) in
            case re_FindProcess env (if n = Network_TCP then ''tcp'' else ''udp'') src (GetSourcePort s) dstIP dstPort of
              Inl e \<Rightarrow> False
            | Inr (pid, name, absPath) \<Rightarrow>
                self \<and> pid = re_Getpid env \<or> List.member names name \<or> List.member paths absPath
                \<or> list_ex (\<lambda>f. HasPrefix absPath f) folders))"

text \<open>
  The process matcher prefers the addresses of the session; it asks the resolver only when there are
  none, and not at all before the source and the network are known to be usable.
\<close>

definition process_asks :: "session_ctx \<Rightarrow> bool" where
  "process_asks s \<longleftrightarrow> GetSourceIPs s \<noteq> [] \<and> (GetNetwork s = Network_TCP \<or> GetNetwork s = Network_UDP) \<and> session_TargetIPs s = []"

definition ip_Dyn_AnyMatch :: "'s netipx \<Rightarrow> 's ip_registry \<Rightarrow> nat \<Rightarrow> net_ip list \<Rightarrow> bool" where
  "ip_Dyn_AnyMatch nx r i ips = ip_AnyMatch nx (di_state (ir_matchers r ! i)) ips"

fun Apply :: "'s route_env \<Rightarrow> 's geo_regs \<Rightarrow> condition \<Rightarrow> route_ctx \<Rightarrow> bool res \<times> route_ctx" where
  "Apply env g (InboundTagCond tags) c = (Inr (let tag = GetInboundTag (rc_session c) in tag \<noteq> [] \<and> List.member tags tag), c)"
| "Apply env g (NetworkCond l) c = (Inr (l ! network_index (GetNetwork (rc_session c))), c)"
| "Apply env g (ProtocolCond ps) c = (Inr (let p = GetProtocol (rc_session c) in p \<noteq> [] \<and> list_ex (HasPrefix p) ps), c)"
| "Apply env g (PortCond l t) c = (Inr (MemoryPortList_Contains l (case t of
       AsLocal \<Rightarrow> GetLocalPort (rc_session c) | AsSource \<Rightarrow> GetSourcePort (rc_session c)
     | AsTarget \<Rightarrow> GetTargetPort (rc_session c) | AsVlessRoute \<Rightarrow> GetVlessRoute (rc_session c))), c)"
| "Apply env g (UserCond users pats) c = (Inr (let u = GetUser (rc_session c) in
       u \<noteq> [] \<and> (List.member users u \<or> list_ex (\<lambda>p. rx_matches (dl_regexp (re_libs env)) p u) pats)), c)"
| "Apply env g (AttributeCond keys) c = (Inr (case GetAttributes (rc_session c) of
       None \<Rightarrow> False | Some as \<Rightarrow> attributes_match (dl_regexp (re_libs env)) keys as), c)"
| "Apply env g (IPCond i t) c = (case t of
       AsLocal \<Rightarrow> (Inr (ip_Dyn_AnyMatch (re_netipx env) (gr_ip g) i (GetLocalIPs (rc_session c))), c)
     | AsSource \<Rightarrow> (Inr (ip_Dyn_AnyMatch (re_netipx env) (gr_ip g) i (GetSourceIPs (rc_session c))), c)
     | AsTarget \<Rightarrow> (case GetTargetIPs (re_dns env) c of (ips, c') \<Rightarrow>
         (Inr (ip_Dyn_AnyMatch (re_netipx env) (gr_ip g) i ips), c'))
     | AsVlessRoute \<Rightarrow> (Inl (Panic ''unk asType''), c))"
| "Apply env g (DomainCond i) c = (Inr (let d = GetTargetDomain (rc_session c) in
       d \<noteq> [] \<and> Dyn_MatchAny (re_libs env) (dr_matchers (gr_domain g) ! i) (ToLower d)), c)"
| "Apply env g (ProcessCond names paths folders self) c =
     (let (dst, c') = (if process_asks (rc_session c) then GetTargetIPs (re_dns env) c else (session_TargetIPs (rc_session c), c))
      in (Inr (process_matches env names paths folders self (rc_session c) dst), c'))"

text \<open>\<open>ConditionChan.Apply\<close>: the first condition that does not hold ends the loop.\<close>

fun chan_Apply :: "'s route_env \<Rightarrow> 's geo_regs \<Rightarrow> condition list \<Rightarrow> route_ctx \<Rightarrow> bool res \<times> route_ctx" where
  "chan_Apply env g [] c = (Inr True, c)"
| "chan_Apply env g (x # xs) c = (case Apply env g x c of
       (Inl e, c') \<Rightarrow> (Inl e, c')
     | (Inr b, c') \<Rightarrow> if b then chan_Apply env g xs c' else (Inr False, c'))"

section \<open>What a condition says\<close>

text \<open>
  Whether a condition holds of a session whose target stands for the addresses \<open>ips\<close>.  Applying a condition
  gives this answer, whatever was asked before, and changes only what the context remembers.
\<close>

fun cond_holds :: "'s route_env \<Rightarrow> 's geo_regs \<Rightarrow> net_ip list \<Rightarrow> session_ctx \<Rightarrow> condition \<Rightarrow> bool" where
  "cond_holds env g ips s (IPCond i AsTarget) = ip_Dyn_AnyMatch (re_netipx env) (gr_ip g) i ips"
| "cond_holds env g ips s (ProcessCond names paths folders self) =
     process_matches env names paths folders self s (if process_asks s then ips else session_TargetIPs s)"
| "cond_holds env g ips s x = (fst (Apply env g x (AsRoutingContext s)) = Inr True)"

fun no_panic :: "condition \<Rightarrow> bool" where
  "no_panic (IPCond i t) = (t \<noteq> AsVlessRoute)"
| "no_panic x = True"

definition resolved :: "'s route_env \<Rightarrow> route_ctx \<Rightarrow> net_ip list" where
  "resolved env c = fst (GetTargetIPs (re_dns env) c)"

text \<open>The context was only asked.\<close>

definition asked :: "'s route_env \<Rightarrow> route_ctx \<Rightarrow> route_ctx \<Rightarrow> bool" where
  "asked env c c' \<longleftrightarrow> same_session c c' \<and> resolved env c' = resolved env c \<and> (\<not> rc_client c \<longrightarrow> c' = c)"

lemma asked_refl [simp]: "asked env c c"
  by (simp add: asked_def)

lemma asked_trans: "asked env a b \<Longrightarrow> asked env b c \<Longrightarrow> asked env a c"
  by (auto simp: asked_def same_session_def)

lemma target_ips_asked: "GetTargetIPs (re_dns env) c = (ips, c') \<Longrightarrow> ips = resolved env c \<and> asked env c c'"
  using target_ips_session lookups_bounded asked_again by (fastforce simp: asked_def resolved_def)

lemma Apply_holds:
  assumes "no_panic x"
  shows "\<exists>c'. Apply env g x c = (Inr (cond_holds env g (resolved env c) (rc_session c) x), c') \<and> asked env c c'"
proof (cases x)
  case (IPCond i t)
  with assms show ?thesis
    using target_ips_asked [of env c] by (cases t) (auto simp: AsRoutingContext_def split: prod.splits)
next
  case (ProcessCond names paths folders self)
  then show ?thesis
    using target_ips_asked [of env c] by (cases "process_asks (rc_session c)") (auto simp: Let_def split: prod.splits)
next
  case (PortCond l t)
  then show ?thesis by (cases t) (auto simp: AsRoutingContext_def)
qed (auto simp: AsRoutingContext_def)

lemma chan_Apply_holds:
  "list_all no_panic cs \<Longrightarrow>
     \<exists>c'. chan_Apply env g cs c = (Inr (list_all (cond_holds env g (resolved env c) (rc_session c)) cs), c') \<and> asked env c c'"
proof (induction cs arbitrary: c)
  case (Cons x cs)
  from Cons.prems Apply_holds [of x env g c] obtain c1 where
    c1: "Apply env g x c = (Inr (cond_holds env g (resolved env c) (rc_session c) x), c1)" "asked env c c1" by auto
  then have same: "resolved env c1 = resolved env c" "rc_session c1 = rc_session c"
    by (simp_all add: asked_def same_session_def)
  from Cons.IH [of c1] Cons.prems obtain c2 where
    "chan_Apply env g cs c1 = (Inr (list_all (cond_holds env g (resolved env c) (rc_session c)) cs), c2)" "asked env c1 c2"
    by (auto simp: same)
  with c1 asked_trans [OF c1(2)] show ?case by auto
qed simp

section \<open>Conditions that were built do not panic\<close>

definition built_conds :: "('s, condition list) act \<Rightarrow> bool" where
  "built_conds m \<longleftrightarrow> (\<forall>g cs g'. m g = (Inr cs, g') \<longrightarrow> list_all no_panic cs)"

lemma built_when: "(\<And>g x g'. m g = (Inr x, g') \<Longrightarrow> no_panic x) \<Longrightarrow> built_conds (when_set b m)"
  by (auto simp: built_conds_def when_set_def andThen_run split: prod.splits sum.splits)

lemma built_collect: "list_all built_conds ms \<Longrightarrow> built_conds (collect ms)"
proof (induction ms)
  case (Cons m ms)
  then show ?case unfolding built_conds_def by (auto simp: andThen_Inr) blast+
qed (simp add: built_conds_def)

lemma process_names_no_panic: "no_panic (process_names exe ns acc)"
  by (induction exe ns acc rule: process_names.induct) (auto split: sum.splits if_splits)

lemma built_port: "built_conds (port_cond l t)"
  by (auto simp: port_cond_def built_conds_def NewPortMatcher_def split: option.splits)

lemma built_rule: "built_conds (BuildCondition env r)"
proof -
  have ip: "NewIPMatcher env rules t g = (Inr x, g') \<Longrightarrow> t \<noteq> AsVlessRoute \<Longrightarrow> no_panic x" for rules t g x g'
    by (auto simp: NewIPMatcher_def split: prod.splits sum.splits)
  have dom: "NewDomainMatcher env rules g = (Inr x, g') \<Longrightarrow> no_panic x" for rules g x g'
    by (auto simp: NewDomainMatcher_def split: prod.splits sum.splits)
  have attr: "NewAttributeMatcher rx as = Inr x \<Longrightarrow> no_panic x" for rx as x
    by (auto simp: NewAttributeMatcher_def split: if_splits)
  have user: "no_panic (NewUserMatcher rx us)" for rx us by (auto simp: NewUserMatcher_def split: prod.split)
  have "list_all built_conds (rule_conditions env r)"
    unfolding rule_conditions_def Let_def list.pred_inject
    by (intro conjI TrueI built_port built_when)
      (auto simp: NewInboundTagMatcher_def NewNetworkMatcher_def NewProtocolMatcher_def NewProcessNameMatcher_def
        process_names_no_panic user attr dest: ip dom)
  from built_collect [OF this] show ?thesis
    by (auto simp: built_conds_def BuildCondition_def andThen_Inr split: if_splits)
qed

lemma BuildCondition_conds: "BuildCondition env r g = (Inr cs, g') \<Longrightarrow> list_all no_panic cs \<and> cs \<noteq> []"
  using built_rule [of env r] by (auto simp: built_conds_def BuildCondition_def andThen_Inr split: if_splits)

section \<open>The registries only grow\<close>

definition regs_grow :: "'s geo_regs \<Rightarrow> 's geo_regs \<Rightarrow> bool" where
  "regs_grow g g' \<longleftrightarrow> prefix (ir_matchers (gr_ip g)) (ir_matchers (gr_ip g'))
     \<and> prefix (dr_matchers (gr_domain g)) (dr_matchers (gr_domain g'))"

lemma regs_grow_refl [simp]: "regs_grow g g"
  by (simp add: regs_grow_def)

lemma regs_grow_trans: "regs_grow a b \<Longrightarrow> regs_grow b c \<Longrightarrow> regs_grow a c"
  by (auto simp: regs_grow_def intro: prefix_order.trans)

lemma collect_keeps: "list_all (keeps P) ms \<Longrightarrow> keeps P (collect ms)"
  by (induction ms) (auto intro: keeps_intro)

lemma rule_grows: "keeps (regs_grow g0) (BuildCondition env r)"
proof -
  have ip: "keeps (regs_grow g0) (NewIPMatcher env rules t)" for rules t
    by (auto simp: keeps_def NewIPMatcher_def BuildIPMatcher_def Let_def regs_grow_def
        intro: prefix_order.trans split: prod.splits sum.splits)
  have dom: "keeps (regs_grow g0) (NewDomainMatcher env rules)" for rules
    by (auto simp: keeps_def NewDomainMatcher_def BuildDomainMatcher_def Let_def regs_grow_def
        intro: prefix_order.trans split: prod.splits sum.splits)
  have w: "keeps (regs_grow g0) m \<Longrightarrow> keeps (regs_grow g0) (when_set b m)" for b m
    unfolding when_set_def by (intro keeps_intro)
  have p: "keeps (regs_grow g0) (port_cond l t)" for l t
    unfolding port_cond_def by (intro keeps_intro)
  have "list_all (keeps (regs_grow g0)) (rule_conditions env r)"
    by (simp add: rule_conditions_def Let_def p w ip dom keeps_intro)
  then show ?thesis unfolding BuildCondition_def by (intro keeps_intro collect_keeps)
qed

lemma BuildCondition_grows: "BuildCondition env r g = (x, g') \<Longrightarrow> regs_grow g g'"
  using rule_grows [of g env r] keepsD by (metis regs_grow_refl snd_conv)

fun cond_in :: "'s geo_regs \<Rightarrow> condition \<Rightarrow> bool" where
  "cond_in g (IPCond i t) = (i < length (ir_matchers (gr_ip g)))"
| "cond_in g (DomainCond i) = (i < length (dr_matchers (gr_domain g)))"
| "cond_in g x = True"

text \<open>What is added later does not change a condition that was there.\<close>

lemma holds_grow: "regs_grow g g' \<Longrightarrow> cond_in g x \<Longrightarrow> cond_holds env g' ips s x = cond_holds env g ips s x \<and> cond_in g' x"
proof (cases x)
  case (IPCond i t)
  assume "regs_grow g g'" "cond_in g x"
  with IPCond show ?thesis
    by (cases t) (auto simp: regs_grow_def ip_Dyn_AnyMatch_def nth_append elim!: prefixE)
next
  case (DomainCond i)
  assume "regs_grow g g'" "cond_in g x"
  with DomainCond show ?thesis by (auto simp: regs_grow_def nth_append elim!: prefixE)
qed auto

text \<open>The conditions of a rule that was built hold places that exist.\<close>

definition built_in :: "('s geo_regs, condition list) act \<Rightarrow> bool" where
  "built_in m \<longleftrightarrow> (\<forall>g cs g'. m g = (Inr cs, g') \<longrightarrow> list_all (cond_in g') cs \<and> regs_grow g g')"

lemma cond_in_grow: "regs_grow g g' \<Longrightarrow> cond_in g x \<Longrightarrow> cond_in g' x"
  using holds_grow by blast

lemma built_in_when: "(\<And>g x g'. m g = (Inr x, g') \<Longrightarrow> cond_in g' x \<and> regs_grow g g') \<Longrightarrow> built_in (when_set b m)"
  by (auto simp: built_in_def when_set_def andThen_Inr)

lemma built_in_collect: "list_all built_in ms \<Longrightarrow> built_in (collect ms)"
proof (induction ms)
  case (Cons m ms)
  then have m: "built_in m" and ms: "built_in (collect ms)" by simp_all
  show ?case unfolding built_in_def
  proof (intro allI impI)
    fix g cs g'
    assume "collect (m # ms) g = (Inr cs, g')"
    then obtain xs g1 ys where "m g = (Inr xs, g1)" "collect ms g1 = (Inr ys, g')" "cs = xs @ ys"
      by (auto simp: andThen_Inr)
    with m ms show "list_all (cond_in g') cs \<and> regs_grow g g'"
      unfolding built_in_def by (fastforce simp: list_all_iff intro: cond_in_grow regs_grow_trans)
  qed
qed (simp add: built_in_def)

lemma BuildCondition_in: "BuildCondition env r g = (Inr cs, g') \<Longrightarrow> list_all (cond_in g') cs"
proof -
  have ip: "NewIPMatcher env rules t g = (Inr x, g') \<Longrightarrow> cond_in g' x \<and> regs_grow g g'" for rules t g x g'
    by (auto simp: NewIPMatcher_def BuildIPMatcher_def Let_def regs_grow_def split: prod.splits sum.splits)
  have dom: "NewDomainMatcher env rules g = (Inr x, g') \<Longrightarrow> cond_in g' x \<and> regs_grow g g'" for rules g x g'
    by (auto simp: NewDomainMatcher_def BuildDomainMatcher_def Let_def regs_grow_def split: prod.splits sum.splits)
  have attr: "NewAttributeMatcher rx as = Inr x \<Longrightarrow> cond_in g x" for rx as x g
    by (auto simp: NewAttributeMatcher_def split: if_splits)
  have user: "cond_in g (NewUserMatcher rx us)" for rx us g by (auto simp: NewUserMatcher_def split: prod.split)
  have proc: "cond_in g (process_names exe ns acc)" for exe ns acc g
    by (induction exe ns acc rule: process_names.induct) (auto split: sum.splits if_splits)
  have port: "built_in (port_cond l t)" for l t
    by (auto simp: port_cond_def built_in_def NewPortMatcher_def split: option.splits)
  have "list_all built_in (rule_conditions env r)"
    unfolding rule_conditions_def Let_def list.pred_inject
    by (intro conjI TrueI port built_in_when)
      (auto simp: NewInboundTagMatcher_def NewNetworkMatcher_def NewProtocolMatcher_def NewProcessNameMatcher_def
        proc user attr dest: ip dom)
  from built_in_collect [OF this] show "BuildCondition env r g = (Inr cs, g') \<Longrightarrow> list_all (cond_in g') cs"
    by (auto simp: built_in_def BuildCondition_def andThen_Inr split: if_splits)
qed

end
