(* ===== verification/Xray_Outbound.thy ===== *)
theory Xray_Outbound
  imports Go_Net "HOL-Library.Sublist" "HOL-Library.AList"
begin

text \<open>
  The manager of xray's outbound handlers (src/xray-core/app/proxyman/outbound/outbound.go).  A handler is its tag
  and an identity; whether starting it fails is a parameter of the operations that start handlers.
  The map of the tagged handlers is an association list in the order in which a range over the map visits it.
\<close>

section \<open>The manager\<close>

record handler =
  ha_Tag :: string
  ha_id :: nat

record manager =
  mg_default :: "handler option"
  mg_tagged :: "(string \<times> handler) list"
  mg_untagged :: "handler list"
  mg_running :: bool
  mg_cache :: "(string \<times> string list) list"

definition NewManager :: manager where
  "NewManager = \<lparr>mg_default = None, mg_tagged = [], mg_untagged = [], mg_running = False, mg_cache = []\<rparr>"

definition GetDefaultHandler :: "manager \<Rightarrow> handler option" where
  "GetDefaultHandler m = mg_default m"

definition GetHandler :: "string \<Rightarrow> manager \<Rightarrow> handler option" where
  "GetHandler tag m = map_of (mg_tagged m) tag"

definition AddHandler :: "(handler \<Rightarrow> unit res) \<Rightarrow> handler \<Rightarrow> (manager, unit) act" where
  "AddHandler start h m0 =
     (let m1 = m0\<lparr>mg_cache := []\<rparr>;
          m2 = (if mg_default m1 = None then m1\<lparr>mg_default := Some h\<rparr> else m1);
          tag = ha_Tag h;
          run = (\<lambda>m. if mg_running m then (start h, m) else (Inr (), m))
      in if tag \<noteq> [] then
           if map_of (mg_tagged m2) tag \<noteq> None then (Inl (ErrArg ''existing tag found'' tag), m2)
           else run (m2\<lparr>mg_tagged := AList.update tag h (mg_tagged m2)\<rparr>)
         else run (m2\<lparr>mg_untagged := mg_untagged m2 @ [h]\<rparr>))"

definition ErrNoClue :: err where
  "ErrNoClue = Err ''not enough information for making a decision''"

definition RemoveHandler :: "string \<Rightarrow> (manager, unit) act" where
  "RemoveHandler tag m0 =
     (if tag = [] then (Inl ErrNoClue, m0)
      else let m1 = m0\<lparr>mg_cache := [], mg_tagged := AList.delete tag (mg_tagged m0)\<rparr> in
        (Inr (), case mg_default m1 of
            None \<Rightarrow> m1
          | Some d \<Rightarrow> if ha_Tag d = tag then m1\<lparr>mg_default := None\<rparr> else m1))"

definition ListHandlers :: "manager \<Rightarrow> handler list" where
  "ListHandlers m = mg_untagged m @ map snd (mg_tagged m)"

text \<open>\<open>Start\<close>: the handlers are started until one fails; the result tells which were started.\<close>

fun start_all :: "(handler \<Rightarrow> unit res) \<Rightarrow> handler list \<Rightarrow> unit res \<times> handler list" where
  "start_all start [] = (Inr (), [])"
| "start_all start (h # hs) = (case start h of
       Inl e \<Rightarrow> (Inl e, [h])
     | Inr _ \<Rightarrow> (case start_all start hs of (r, started) \<Rightarrow> (r, h # started)))"

definition Manager_Start :: "(handler \<Rightarrow> unit res) \<Rightarrow> manager \<Rightarrow> (unit res \<times> handler list) \<times> manager" where
  "Manager_Start start m = (start_all start (map snd (mg_tagged m) @ mg_untagged m), m\<lparr>mg_running := True\<rparr>)"

text \<open>\<open>Close\<close> closes every handler and combines the errors.\<close>

definition Manager_Close :: "(handler \<Rightarrow> err option) \<Rightarrow> manager \<Rightarrow> err option \<times> manager" where
  "Manager_Close close m = (Combine (map close (map snd (mg_tagged m) @ mg_untagged m)), m\<lparr>mg_running := False\<rparr>)"

definition selected :: "string list \<Rightarrow> manager \<Rightarrow> string list" where
  "selected sels m = sort (filter (\<lambda>tag. list_ex (HasPrefix tag) sels) (map fst (mg_tagged m)))"

definition Select :: "string list \<Rightarrow> manager \<Rightarrow> string list \<times> manager" where
  "Select sels m = (let key = Join sels '','' in
     case map_of (mg_cache m) key of
       Some tags \<Rightarrow> (tags, m)
     | None \<Rightarrow> let tags = selected sels m in (tags, m\<lparr>mg_cache := (key, tags) # mg_cache m\<rparr>))"

section \<open>What the manager keeps\<close>

text \<open>
  Every handler is under its own tag, no tag twice, and an entry of the cache is the answer for some
  selectors with that key.
\<close>

definition manager_ok :: "manager \<Rightarrow> bool" where
  "manager_ok m \<longleftrightarrow> distinct (map fst (mg_tagged m)) \<and> (\<forall>(t, h) \<in> set (mg_tagged m). ha_Tag h = t \<and> t \<noteq> [])
     \<and> (\<forall>h \<in> set (mg_untagged m). ha_Tag h = [])
     \<and> (\<forall>(key, tags) \<in> set (mg_cache m). \<exists>sels. key = Join sels '','' \<and> tags = selected sels m)"

lemma new_manager_ok: "manager_ok NewManager"
  by (simp add: manager_ok_def NewManager_def)

lemma update_entry: "(a, b) \<in> set (AList.update k v xs) \<Longrightarrow> (a = k \<and> b = v) \<or> (a, b) \<in> set xs"
  by (induction xs) (auto split: if_splits)

lemma delete_entry: "(a, b) \<in> set (AList.delete k xs) \<Longrightarrow> (a, b) \<in> set xs"
  by (induction xs) (auto split: if_splits)

lemma AddHandler_ok: "manager_ok m \<Longrightarrow> manager_ok (snd (AddHandler start h m))"
  by (auto simp: manager_ok_def AddHandler_def Let_def distinct_update dest: update_entry split: if_splits)

lemma RemoveHandler_ok: "manager_ok m \<Longrightarrow> manager_ok (snd (RemoveHandler tag m))"
  by (auto simp: manager_ok_def RemoveHandler_def Let_def distinct_delete dest: delete_entry split: option.split)

lemma selected_frame: "mg_tagged m' = mg_tagged m \<Longrightarrow> selected sels m' = selected sels m"
  by (simp add: selected_def)

lemma Select_ok: "manager_ok m \<Longrightarrow> manager_ok (snd (Select sels m))"
  by (auto simp: manager_ok_def Select_def Let_def selected_def split: option.split)

text \<open>
  \<open>Select\<close> answers with the tags that have one of the prefixes, in order, whatever was asked before, where no
  selector is empty or contains a comma: then the key of the cache tells the selectors.
\<close>

definition plain_selectors :: "string list \<Rightarrow> bool" where
  "plain_selectors sels \<longleftrightarrow> (\<forall>x \<in> set sels. x \<noteq> [] \<and> CHR '','' \<notin> set x)"

lemma Split_Join: "ws \<noteq> [] \<Longrightarrow> \<forall>w \<in> set ws. sep \<notin> set w \<Longrightarrow> Split (Join ws [sep]) sep = ws"
  by (induction ws "[sep]" rule: Join.induct) (auto simp: Split_append Split_none)

lemma Join_Nil: "plain_selectors ws \<Longrightarrow> Join ws '','' = [] \<longleftrightarrow> ws = []"
  by (cases ws; cases "tl ws") (auto simp: plain_selectors_def)

lemma Join_inject:
  assumes "plain_selectors a" "plain_selectors b" "Join a '','' = Join b '',''"
  shows "a = b"
proof (cases "a = [] \<or> b = []")
  case True
  with assms Join_Nil show ?thesis by metis
next
  case False
  with assms show ?thesis unfolding plain_selectors_def by (metis Split_Join)
qed

definition cache_plain :: "manager \<Rightarrow> bool" where
  "cache_plain m \<longleftrightarrow> (\<forall>(key, tags) \<in> set (mg_cache m). \<exists>sels. plain_selectors sels \<and> key = Join sels '','' \<and> tags = selected sels m)"

lemma Select_fresh:
  assumes "cache_plain m" "plain_selectors sels"
  shows "fst (Select sels m) = selected sels m \<and> cache_plain (snd (Select sels m))"
proof (cases "map_of (mg_cache m) (Join sels '','')")
  case None
  with assms show ?thesis by (auto simp: Select_def Let_def cache_plain_def selected_def)
next
  case (Some tags)
  from map_of_SomeD [OF this] assms(1) obtain sels' where
    "plain_selectors sels'" "Join sels '','' = Join sels' '',''" "tags = selected sels' m" by (auto simp: cache_plain_def)
  with Join_inject assms(2) have "tags = selected sels m" by metis
  with Some assms(1) show ?thesis by (simp add: Select_def)
qed

text \<open>The list ["a,b"] shares its key with ["a", "b"] and is answered with the tags of the other.\<close>

lemma selectors_collide:
  "fst (Select [''a,b''] (snd (Select [''a'', ''b''] (NewManager\<lparr>mg_tagged := [(''ax'', \<lparr>ha_Tag = ''ax'', ha_id = 0\<rparr>)]\<rparr>)))) = [''ax'']"
  by (simp add: Select_def selected_def NewManager_def HasPrefix_def Let_def)

text \<open>
  A handler that is refused because its tag is taken becomes the default handler all the same, when the default
  handler was removed before.
\<close>

lemma refused_default:
  assumes "mg_default m = None" "map_of (mg_tagged m) (ha_Tag h) \<noteq> None" "ha_Tag h \<noteq> []"
  shows "\<exists>e m'. AddHandler start h m = (Inl e, m') \<and> GetDefaultHandler m' = Some h \<and> ListHandlers m' = ListHandlers m"
  using assms by (auto simp: AddHandler_def Let_def GetDefaultHandler_def ListHandlers_def)

text \<open>A handler that was added is found under its tag; one that was removed is not.\<close>

lemma handler_added: "AddHandler start h m = (Inr (), m') \<Longrightarrow> ha_Tag h \<noteq> [] \<Longrightarrow> GetHandler t m' = (if t = ha_Tag h then Some h else GetHandler t m)"
  by (auto simp: AddHandler_def GetHandler_def Let_def update_conv split: if_splits)

lemma handler_removed: "RemoveHandler tag m = (Inr (), m') \<Longrightarrow> GetHandler t m' = (if t = tag then None else GetHandler t m)"
  by (auto simp: RemoveHandler_def GetHandler_def Let_def delete_conv split: if_splits option.splits)

end
