(* ===== verification/Xray_Balancers.thy ===== *)
theory Xray_Balancers
  imports Xray_Outbound Xray_Str_Matchers "HOL-Library.Multiset" "HOL-Library.Product_Lexorder"
begin

text \<open>
  The balancers of xray's router (src/xray-core/app/router/balancing.go, balancing_override.go and
  strategy_*.go).  The report of the observatory, the die and the weighting of a round-trip time by a tag, which
  computes with floating-point numbers, are parameters.  Times are in nanoseconds, kept in 64 bits.
\<close>

section \<open>The observatory\<close>

record health_ping =
  hp_All :: int
  hp_Fail :: int
  hp_Deviation :: int
  hp_Average :: int

record outbound_status =
  os_Alive :: bool
  os_Delay :: int
  os_OutboundTag :: string
  os_HealthPing :: "health_ping option"

text \<open>\<open>be_observe\<close> is \<open>None\<close> where no observatory is configured.\<close>

record balance_env =
  be_observe :: "outbound_status list res option"
  be_roll :: "nat \<Rightarrow> nat"
  be_weigh :: "string \<Rightarrow> int \<Rightarrow> int"

text \<open>Of two reports on a tag the later one counts; a tag without a report is taken to be alive.\<close>

definition status_alive :: "outbound_status list \<Rightarrow> string \<Rightarrow> bool" where
  "status_alive st tag = (case map_of (rev (map (\<lambda>s. (os_OutboundTag s, s)) st)) tag of
       None \<Rightarrow> True | Some s \<Rightarrow> os_Alive s)"

definition alive_tags :: "outbound_status list res option \<Rightarrow> string list \<Rightarrow> string list" where
  "alive_tags obs tags = (case obs of Some (Inr st) \<Rightarrow> filter (status_alive st) tags | _ \<Rightarrow> tags)"

section \<open>Strategies\<close>

record leastload_settings =
  ll_Expected :: int
  ll_MaxRTT :: int
  ll_Baselines :: "int list"

text \<open>\<open>RoundRobin\<close> and \<open>Random\<close> look at the observatory only where a fallback tag is set.\<close>

datatype strategy =
    RoundRobin (rr_fallback: string) (rr_index: nat)
  | RandomPick string
  | LeastPing
  | LeastLoad leastload_settings

definition seen_report :: "balance_env \<Rightarrow> string \<Rightarrow> outbound_status list res option" where
  "seen_report be fallback = (if fallback \<noteq> [] then be_observe be else None)"

definition RoundRobin_Pick :: "balance_env \<Rightarrow> string \<Rightarrow> nat \<Rightarrow> string list \<Rightarrow> string \<times> nat" where
  "RoundRobin_Pick be fallback index tags0 =
     (let tags = alive_tags (seen_report be fallback) tags0; n = length tags in
      if n = 0 then ([], index) else (tags ! (index mod n), (index + 1) mod n))"

definition Random_Pick :: "balance_env \<Rightarrow> string \<Rightarrow> string list \<Rightarrow> string" where
  "Random_Pick be fallback tags0 =
     (let tags = alive_tags (seen_report be fallback) tags0 in
      if tags = [] then [] else tags ! be_roll be (length tags))"

fun least_ping :: "string list \<Rightarrow> outbound_status list \<Rightarrow> string \<times> int \<Rightarrow> string" where
  "least_ping tags [] (name, best) = name"
| "least_ping tags (s # st) (name, best) =
     (if List.member tags (os_OutboundTag s) \<and> os_Alive s \<and> os_Delay s < best
      then least_ping tags st (os_OutboundTag s, os_Delay s) else least_ping tags st (name, best))"

definition LeastPing_Pick :: "balance_env \<Rightarrow> string list \<Rightarrow> string" where
  "LeastPing_Pick be tags = (case be_observe be of
       Some (Inr st) \<Rightarrow> least_ping tags st ([], 99999999)
     | _ \<Rightarrow> [])"

record node =
  nd_Tag :: string
  nd_CountAll :: int
  nd_CountFail :: int
  nd_RTTAverage :: int
  nd_RTTDeviation :: int
  nd_RTTDeviationCost :: int

text \<open>The order of \<open>leastloadSort\<close>.\<close>

definition node_less :: "node \<Rightarrow> node \<Rightarrow> bool" where
  "node_less l r =
     (if nd_RTTDeviationCost l \<noteq> nd_RTTDeviationCost r then nd_RTTDeviationCost l < nd_RTTDeviationCost r
      else if nd_RTTAverage l \<noteq> nd_RTTAverage r then nd_RTTAverage l < nd_RTTAverage r
      else if nd_CountFail l \<noteq> nd_CountFail r then nd_CountFail l < nd_CountFail r
      else if nd_CountAll l \<noteq> nd_CountAll r then nd_CountAll r < nd_CountAll l
      else nd_Tag l < nd_Tag r)"

fun insert_node :: "node \<Rightarrow> node list \<Rightarrow> node list" where
  "insert_node x [] = [x]"
| "insert_node x (y # ys) = (if node_less y x then y # insert_node x ys else x # y # ys)"

definition leastloadSort :: "node list \<Rightarrow> node list" where
  "leastloadSort ns = foldr insert_node ns []"

definition millisecond :: int where
  "millisecond = 1000000"

definition status_node :: "balance_env \<Rightarrow> outbound_status \<Rightarrow> node" where
  "status_node be s =
     (let d = wrap64 (os_Delay s * millisecond);
          n = \<lparr>nd_Tag = os_OutboundTag s, nd_CountAll = 1, nd_CountFail = 1, nd_RTTAverage = d, nd_RTTDeviation = d,
               nd_RTTDeviationCost = be_weigh be (os_OutboundTag s) d\<rparr>
      in case os_HealthPing s of
           None \<Rightarrow> n
         | Some h \<Rightarrow> n\<lparr>nd_RTTAverage := hp_Average h, nd_RTTDeviation := hp_Deviation h,
             nd_RTTDeviationCost := be_weigh be (os_OutboundTag s) (hp_Deviation h),
             nd_CountAll := hp_All h, nd_CountFail := hp_Fail h\<rparr>)"

text \<open>\<open>Duration.Milliseconds\<close> divides towards zero.\<close>

definition to_ms :: "int \<Rightarrow> int" where
  "to_ms d = (if d < 0 then - (- d div millisecond) else d div millisecond)"

definition getNodes :: "balance_env \<Rightarrow> string list \<Rightarrow> int \<Rightarrow> node list" where
  "getNodes be candidates maxRTT = (case be_observe be of
       Some (Inr st) \<Rightarrow> leastloadSort (map (status_node be)
         (filter (\<lambda>s. os_Alive s \<and> (os_Delay s < to_ms maxRTT \<or> maxRTT = 0) \<and> List.member candidates (os_OutboundTag s)) st))
     | _ \<Rightarrow> [])"

text \<open>The loops over the baselines: \<open>near\<close> goes on from the nodes counted so far.\<close>

fun near :: "node list \<Rightarrow> int \<Rightarrow> nat \<Rightarrow> nat" where
  "near [] b cnt = cnt"
| "near (n # ns) b cnt = (if b \<le> nd_RTTDeviationCost n then cnt else near ns b (Suc cnt))"

fun baseline_count :: "node list \<Rightarrow> nat \<Rightarrow> int list \<Rightarrow> nat \<Rightarrow> nat" where
  "baseline_count nodes expected [] cnt = cnt"
| "baseline_count nodes expected (b # bs) cnt =
     (let k = near (drop cnt nodes) b cnt in
      if expected \<le> k then k else baseline_count nodes expected bs k)"

text \<open>A slice beyond the end would panic; \<open>slice\<close> is an error there.\<close>

definition slice :: "'a list \<Rightarrow> nat \<Rightarrow> 'a list res" where
  "slice xs n = (if n \<le> length xs then Inr (take n xs) else Inl (Panic ''slice bounds out of range''))"

definition selectLeastLoad :: "leastload_settings \<Rightarrow> node list \<Rightarrow> node list res" where
  "selectLeastLoad s nodes =
     (if nodes = [] then Inr []
      else if int (length nodes) < ll_Expected s then Inr nodes
      else let expected = nat (if ll_Expected s \<le> 0 then 1 else ll_Expected s) in
        if ll_Baselines s = [] then slice nodes expected
        else let cnt = baseline_count nodes expected (ll_Baselines s) 0 in
          slice nodes (if 0 < ll_Expected s \<and> cnt < expected then expected else cnt))"

definition LeastLoad_Nodes :: "balance_env \<Rightarrow> leastload_settings \<Rightarrow> string list \<Rightarrow> node list res" where
  "LeastLoad_Nodes be s candidates = selectLeastLoad s (getNodes be candidates (ll_MaxRTT s))"

definition LeastLoad_Pick :: "balance_env \<Rightarrow> leastload_settings \<Rightarrow> string list \<Rightarrow> string res" where
  "LeastLoad_Pick be s candidates = bind_res (LeastLoad_Nodes be s candidates) (\<lambda>selects.
     Inr (if selects = [] then [] else nd_Tag (selects ! be_roll be (length selects))))"

section \<open>Balancers\<close>

record balancer =
  ba_selectors :: "string list"
  ba_strategy :: strategy
  ba_fallbackTag :: string
  ba_override :: string

fun strategy_Pick :: "balance_env \<Rightarrow> string list \<Rightarrow> strategy \<Rightarrow> string res \<times> strategy" where
  "strategy_Pick be tags (RoundRobin f i) = (case RoundRobin_Pick be f i tags of (t, i') \<Rightarrow> (Inr t, RoundRobin f i'))"
| "strategy_Pick be tags (RandomPick f) = (Inr (Random_Pick be f tags), RandomPick f)"
| "strategy_Pick be tags LeastPing = (Inr (LeastPing_Pick be tags), LeastPing)"
| "strategy_Pick be tags (LeastLoad s) = (LeastLoad_Pick be s tags, LeastLoad s)"

text \<open>The candidates are those the manager selects; the manager is always a \<open>HandlerSelector\<close>.\<close>

definition PickOutbound :: "balance_env \<Rightarrow> balancer \<times> manager \<Rightarrow> string res \<times> (balancer \<times> manager)" where
  "PickOutbound be = (\<lambda>(b, m0).
     let (candidates, m) = Select (ba_selectors b) m0;
         (picked, st) = (if ba_override b \<noteq> [] then (Inr (ba_override b), ba_strategy b)
                         else strategy_Pick be candidates (ba_strategy b));
         b' = b\<lparr>ba_strategy := st\<rparr>
     in (case picked of
           Inl e \<Rightarrow> Inl e
         | Inr tag \<Rightarrow>
             if tag = [] then
               if ba_fallbackTag b \<noteq> [] then Inr (ba_fallbackTag b)
               else Inl (Err ''balancing strategy returns empty tag'')
             else Inr tag, b', m))"

fun strategy_targets :: "balance_env \<Rightarrow> string list \<Rightarrow> strategy \<Rightarrow> string list res" where
  "strategy_targets be tags (RoundRobin f i) = Inr tags"
| "strategy_targets be tags (RandomPick f) = Inr tags"
| "strategy_targets be tags LeastPing = Inr [LeastPing_Pick be tags]"
| "strategy_targets be tags (LeastLoad s) = bind_res (LeastLoad_Nodes be s tags) (\<lambda>ns. Inr (map nd_Tag ns))"

definition override_Put :: "string \<Rightarrow> balancer \<Rightarrow> balancer" where
  "override_Put t b = b\<lparr>ba_override := t\<rparr>"

definition override_Clear :: "balancer \<Rightarrow> balancer" where
  "override_Clear b = b\<lparr>ba_override := []\<rparr>"

text \<open>The message of the configuration, and \<open>BalancingRule.Build\<close>.\<close>

record balancing_rule =
  br_Tag :: string
  br_OutboundSelector :: "string list"
  br_Strategy :: string
  br_StrategySettings :: "leastload_settings res"
  br_FallbackTag :: string

definition new_balancer :: "balancing_rule \<Rightarrow> strategy \<Rightarrow> balancer" where
  "new_balancer br st = \<lparr>ba_selectors = br_OutboundSelector br, ba_strategy = st, ba_fallbackTag = br_FallbackTag br, ba_override = []\<rparr>"

definition BalancingRule_Build :: "balancing_rule \<Rightarrow> balancer res" where
  "BalancingRule_Build br = (let s = ToLower (br_Strategy br) in
     if s = ''leastping'' then Inr (new_balancer br LeastPing)
     else if s = ''roundrobin'' then Inr (new_balancer br (RoundRobin (br_FallbackTag br) 0))
     else if s = ''leastload'' then bind_res (br_StrategySettings br) (\<lambda>ll. Inr (new_balancer br (LeastLoad ll)))
     else if s = ''random'' \<or> s = [] then Inr (new_balancer br (RandomPick (br_FallbackTag br)))
     else Inl (Err ''unrecognized balancer type''))"

section \<open>Fairness of the round robin\<close>

fun picks :: "balance_env \<Rightarrow> string \<Rightarrow> string list \<Rightarrow> nat \<Rightarrow> nat \<Rightarrow> string list" where
  "picks be f tags i 0 = []"
| "picks be f tags i (Suc k) = (case RoundRobin_Pick be f i tags of (t, i') \<Rightarrow> t # picks be f tags i' k)"

lemma picks_rotate:
  assumes "alive_tags (seen_report be f) tags = ts" "ts \<noteq> []"
  shows "picks be f tags i k = map (\<lambda>j. ts ! ((i + j) mod length ts)) [0 ..< k]"
proof (induction k arbitrary: i)
  case (Suc k)
  have "picks be f tags i (Suc k) = ts ! (i mod length ts) # picks be f tags ((i + 1) mod length ts) k"
    using assms by (simp add: RoundRobin_Pick_def Let_def)
  also have "picks be f tags ((i + 1) mod length ts) k = map (\<lambda>j. ts ! ((i + Suc j) mod length ts)) [0 ..< k]"
    unfolding Suc.IH by (rule map_cong) (simp_all add: mod_simps)
  also have "ts ! (i mod length ts) # \<dots> = map (\<lambda>j. ts ! ((i + j) mod length ts)) (0 # map Suc [0 ..< k])" by simp
  also have "0 # map Suc [0 ..< k] = [0 ..< Suc k]" by (simp add: upt_conv_Cons map_Suc_upt del: upt_Suc)
  finally show ?case .
qed simp

lemma rotated_mset:
  fixes ts :: "'a list"
  assumes "ts \<noteq> []"
  shows "mset (map (\<lambda>j. ts ! ((i + j) mod length ts)) [0 ..< length ts]) = mset ts"
proof -
  have "map (\<lambda>j. ts ! ((i + j) mod length ts)) [0 ..< length ts] = rotate i ts"
    by (rule nth_equalityI) (simp_all add: nth_rotate add.commute)
  moreover have r: "mset (rotate1 xs) = mset xs" for xs :: "'a list" by (cases xs) simp_all
  have "mset (rotate i ts) = mset ts" by (induction i) (simp_all add: r)
  ultimately show ?thesis by simp
qed

text \<open>C32: 
  In a round of as many picks as there are candidates that are alive, every one of them is picked once, wherever the
  round begins.
\<close>

theorem round_robin_fair:
  assumes "alive_tags (seen_report be f) tags = ts" "ts \<noteq> []"
  shows "mset (picks be f tags i (length ts)) = mset ts"
  unfolding picks_rotate [OF assms] by (rule rotated_mset [OF assms(2)])

definition sample_balance :: balance_env where
  "sample_balance = \<lparr>be_observe = Some (Inr [\<lparr>os_Alive = False, os_Delay = 10, os_OutboundTag = ''b'', os_HealthPing = None\<rparr>,
       \<lparr>os_Alive = True, os_Delay = 30, os_OutboundTag = ''c'', os_HealthPing = None\<rparr>]),
     be_roll = (\<lambda>n. 0), be_weigh = (\<lambda>t d. d)\<rparr>"

theorem round_robin_fair_witness:
  "alive_tags (seen_report sample_balance ''f'') [''a'', ''b'', ''c''] = [''a'', ''c'']
     \<and> mset (picks sample_balance ''f'' [''a'', ''b'', ''c''] 7 2) = {#''a'', ''c''#}"
proof -
  have a: "alive_tags (seen_report sample_balance ''f'') [''a'', ''b'', ''c''] = [''a'', ''c'']"
    by (simp add: alive_tags_def seen_report_def status_alive_def sample_balance_def)
  with round_robin_fair [OF a, of 7] show ?thesis by (simp add: numeral_2_eq_2)
qed

section \<open>The nodes with the least load\<close>

lemma near_le: "near ns b c \<le> c + length ns \<and> c \<le> near ns b c"
  by (induction ns b c rule: near.induct) auto

lemma baseline_le: "cnt \<le> length nodes \<Longrightarrow> baseline_count nodes expected bs cnt \<le> length nodes"
proof (induction bs arbitrary: cnt)
  case (Cons b bs)
  have "near (drop cnt nodes) b cnt \<le> length nodes"
    using near_le [of "drop cnt nodes" b cnt] Cons.prems by simp
  with Cons.IH show ?case by (simp add: Let_def)
qed simp

text \<open>C37: 
  No slice of \<open>selectLeastLoad\<close> is out of range; the result is a first part of the nodes, with as many nodes
  as are expected where there are so many and a number is given.
\<close>

theorem least_load_range:
  "\<exists>ns. selectLeastLoad s nodes = Inr ns \<and> prefix ns nodes
     \<and> (0 < ll_Expected s \<longrightarrow> min (nat (ll_Expected s)) (length nodes) \<le> length ns)
     \<and> (ll_Baselines s = [] \<longrightarrow> nodes \<noteq> [] \<longrightarrow> ns \<noteq> [])"
proof -
  let ?e = "nat (if ll_Expected s \<le> 0 then 1 else ll_Expected s)"
  let ?c = "baseline_count nodes ?e (ll_Baselines s) 0"
  have c: "?c \<le> length nodes" by (rule baseline_le) simp
  show ?thesis
  proof (cases "nodes = [] \<or> int (length nodes) < ll_Expected s")
    case True
    then show ?thesis by (auto simp: selectLeastLoad_def)
  next
    case False
    then have e: "?e \<le> length nodes" by (cases nodes) auto
    show ?thesis
    proof (cases "ll_Baselines s = []")
      case True
      moreover have "selectLeastLoad s nodes = slice nodes ?e" using False True by (simp add: selectLeastLoad_def Let_def)
      moreover have "slice nodes ?e = Inr (take ?e nodes)" using e by (simp only: slice_def if_True)
      moreover have "take ?e nodes \<noteq> []" using False by auto
      moreover have "min (nat (ll_Expected s)) (length nodes) \<le> length (take ?e nodes)" by auto
      ultimately show ?thesis by (auto simp only: take_is_prefix)
    next
      case bl: False
      let ?n = "if 0 < ll_Expected s \<and> ?c < ?e then ?e else ?c"
      have "?n \<le> length nodes" using c e by (simp only: split: if_split) simp
      then have "slice nodes ?n = Inr (take ?n nodes)" by (simp only: slice_def if_True)
      moreover have "0 < ll_Expected s \<longrightarrow> min (nat (ll_Expected s)) (length nodes) \<le> length (take ?n nodes)" by auto
      moreover have "selectLeastLoad s nodes = slice nodes ?n" using False bl by (simp add: selectLeastLoad_def Let_def)
      ultimately show ?thesis using bl by (auto simp only: take_is_prefix)
    qed
  qed
qed

theorem least_load_range_witness:
  "\<exists>s n ns. 0 < ll_Expected s \<and> ll_Baselines s = [] \<and> selectLeastLoad s [n, n, n] = Inr ns \<and> prefix ns [n, n, n]
     \<and> 2 \<le> length ns \<and> ns \<noteq> []"
proof -
  let ?s = "\<lparr>ll_Expected = 2, ll_MaxRTT = 0, ll_Baselines = []\<rparr>"
  let ?n = "\<lparr>nd_Tag = ''a'', nd_CountAll = 1, nd_CountFail = 0, nd_RTTAverage = 3, nd_RTTDeviation = 4, nd_RTTDeviationCost = 5\<rparr>"
  from least_load_range [of ?s "[?n, ?n, ?n]"] show ?thesis by (intro exI [of _ ?s] exI [of _ ?n]) (simp add: numeral_2_eq_2)
qed

lemma insert_node_set: "set (insert_node x ns) = insert x (set ns)"
  by (induction ns) auto

lemma leastloadSort_set: "set (leastloadSort ns) = set ns"
  by (induction ns) (simp_all add: leastloadSort_def insert_node_set)

lemma node_less_key: "node_less l r \<longleftrightarrow>
    (nd_RTTDeviationCost l, nd_RTTAverage l, nd_CountFail l, - nd_CountAll l, nd_Tag l)
  < (nd_RTTDeviationCost r, nd_RTTAverage r, nd_CountFail r, - nd_CountAll r, nd_Tag r)"
  by (auto simp: node_less_def less_prod_simp)

lemma node_less_asym: "node_less a b \<Longrightarrow> \<not> node_less b a"
  unfolding node_less_key by (rule less_not_sym)

lemma node_not_less_trans: "\<not> node_less b a \<Longrightarrow> \<not> node_less c b \<Longrightarrow> \<not> node_less c a"
  unfolding node_less_key not_less by (rule order_trans)

text \<open>The sort puts no node before one that is less.\<close>

lemma insert_node_sorted:
  "sorted_wrt (\<lambda>a b. \<not> node_less b a) ys \<Longrightarrow> sorted_wrt (\<lambda>a b. \<not> node_less b a) (insert_node x ys)"
proof (induction ys)
  case (Cons y ys)
  show ?case
  proof (cases "node_less y x")
    case True
    then have "\<not> node_less x y" by (rule node_less_asym)
    with True Cons show ?thesis by (simp add: insert_node_set)
  next
    case False
    have "\<not> node_less z x" if "z \<in> set ys" for z
      using Cons.prems that node_not_less_trans [OF False] by simp
    with False Cons.prems show ?thesis by simp
  qed
qed simp

lemma leastloadSort_sorted: "sorted_wrt (\<lambda>a b. \<not> node_less b a) (leastloadSort ns)"
  by (induction ns) (simp_all add: leastloadSort_def insert_node_sorted)

section \<open>What a balancer picks\<close>

definition roll_ok :: "balance_env \<Rightarrow> bool" where
  "roll_ok be \<longleftrightarrow> (\<forall>n. 0 < n \<longrightarrow> be_roll be n < n)"

lemma least_ping_in: "least_ping tags st (name, best) = t \<Longrightarrow> t = name \<or> (t \<in> set tags \<and> (\<exists>s \<in> set st. os_OutboundTag s = t \<and> os_Alive s))"
proof (induction st arbitrary: name best)
  case (Cons s st)
  show ?case
  proof (cases "List.member tags (os_OutboundTag s) \<and> os_Alive s \<and> os_Delay s < best")
    case True
    with Cons.prems have "least_ping tags st (os_OutboundTag s, os_Delay s) = t" by (simp only: least_ping.simps if_True simp_thms)
    from Cons.IH [OF this] True show ?thesis by auto
  next
    case False
    with Cons.prems have "least_ping tags st (name, best) = t" by (simp only: least_ping.simps if_False)
    from Cons.IH [OF this] show ?thesis by auto
  qed
qed simp

lemma alive_in: "t \<in> set (alive_tags obs tags) \<Longrightarrow> t \<in> set tags \<and> (\<forall>st. obs = Some (Inr st) \<longrightarrow> (\<exists>s \<in> set st. os_OutboundTag s = t) \<longrightarrow>
     (\<exists>s \<in> set st. os_OutboundTag s = t \<and> os_Alive s))"
proof -
  assume t: "t \<in> set (alive_tags obs tags)"
  have "\<exists>s \<in> set st. os_OutboundTag s = t \<and> os_Alive s"
    if "obs = Some (Inr st)" "s \<in> set st" "os_OutboundTag s = t" for st s
  proof -
    have "map_of (rev (map (\<lambda>s. (os_OutboundTag s, s)) st)) t \<noteq> None"
      using that(2,3) by (auto simp: map_of_eq_None_iff image_image)
    then obtain s' where s': "map_of (rev (map (\<lambda>s. (os_OutboundTag s, s)) st)) t = Some s'" by auto
    from map_of_SomeD [OF this] have "s' \<in> set st" "os_OutboundTag s' = t" by auto
    moreover have "os_Alive s'" using t that(1) s' by (simp add: alive_tags_def status_alive_def)
    ultimately show ?thesis by blast
  qed
  with t show ?thesis by (auto simp: alive_tags_def split: option.splits sum.splits)
qed

lemma strategy_usable:
  assumes r: "roll_ok be" and p: "strategy_Pick be tags st = (Inr t, st')" and t: "t \<noteq> []"
  shows "t \<in> set tags"
proof (cases st)
  case (RoundRobin f i)
  with p t have "t \<in> set (alive_tags (seen_report be f) tags)"
    by (auto simp: RoundRobin_Pick_def Let_def split: if_splits)
  then show ?thesis by (simp add: alive_in)
next
  case (RandomPick f)
  with p t r have "t \<in> set (alive_tags (seen_report be f) tags)"
    by (auto simp: Random_Pick_def Let_def roll_ok_def split: if_splits)
  then show ?thesis by (simp add: alive_in)
next
  case LeastPing
  with p t obtain obs where "least_ping tags obs ([], 99999999) = t"
    by (auto simp: LeastPing_Pick_def split: option.splits sum.splits)
  from least_ping_in [OF this] t show ?thesis by simp
next
  case (LeastLoad s)
  with p obtain ns where ns: "LeastLoad_Nodes be s tags = Inr ns" "t = (if ns = [] then [] else nd_Tag (ns ! be_roll be (length ns)))"
    by (auto simp: LeastLoad_Pick_def bind_res_Inr)
  with t r have n: "ns ! be_roll be (length ns) \<in> set ns" "t = nd_Tag (ns ! be_roll be (length ns))"
    by (auto simp: roll_ok_def split: if_splits)
  from ns(1) least_load_range [of s "getNodes be tags (ll_MaxRTT s)"] have "prefix ns (getNodes be tags (ll_MaxRTT s))"
    by (auto simp: LeastLoad_Nodes_def)
  with n(1) have "ns ! be_roll be (length ns) \<in> set (getNodes be tags (ll_MaxRTT s))" by (meson set_mono_prefix subsetD)
  then show ?thesis
    by (auto simp: n(2) getNodes_def leastloadSort_set status_node_def Let_def split: option.splits sum.splits)
qed

text \<open>C36: 
  A balancer picks its override, its fallback tag, or one of the handlers that its selectors select; it never
  panics and never returns an empty tag as a success.
\<close>

theorem pick_outbound:
  assumes r: "roll_ok be" and c: "cache_plain m" "plain_selectors (ba_selectors b)" and p: "PickOutbound be (b, m) = (x, (b', m'))"
  shows "(case x of
      Inl e \<Rightarrow> ba_fallbackTag b = [] \<and> e = Err ''balancing strategy returns empty tag''
    | Inr t \<Rightarrow> t \<noteq> [] \<and> (t = ba_override b \<or> t = ba_fallbackTag b \<or> (\<exists>h. GetHandler t m = Some h \<and> list_ex (HasPrefix t) (ba_selectors b))))
    \<and> b' = b\<lparr>ba_strategy := ba_strategy b'\<rparr>"
proof -
  let ?tags = "selected (ba_selectors b) m"
  have sel: "Select (ba_selectors b) m = (?tags, snd (Select (ba_selectors b) m))"
    using Select_fresh [OF c] by (cases "Select (ba_selectors b) m") simp
  have tag: "(\<exists>h. GetHandler t m = Some h) \<and> list_ex (HasPrefix t) (ba_selectors b)" if "t \<in> set ?tags" for t
  proof -
    from that have "t \<in> fst ` set (mg_tagged m)" "list_ex (HasPrefix t) (ba_selectors b)" by (auto simp: selected_def)
    then show ?thesis unfolding GetHandler_def by (metis map_of_eq_None_iff not_Some_eq)
  qed
  have inr: "\<exists>t. fst (strategy_Pick be ?tags st) = Inr t" for st
  proof (cases st)
    case (LeastLoad s)
    from least_load_range [of s "getNodes be ?tags (ll_MaxRTT s)"] obtain ns where "LeastLoad_Nodes be s ?tags = Inr ns"
      by (auto simp: LeastLoad_Nodes_def)
    with LeastLoad show ?thesis by (simp add: LeastLoad_Pick_def bind_res_Inr)
  qed (auto split: prod.split)
  show ?thesis
  proof (cases "ba_override b = []")
    case False
    with p sel show ?thesis by (auto simp: PickOutbound_def Let_def split: prod.splits)
  next
    case True
    obtain y st' where y: "strategy_Pick be ?tags (ba_strategy b) = (y, st')" by fastforce
    with inr [of "ba_strategy b"] obtain t where t: "strategy_Pick be ?tags (ba_strategy b) = (Inr t, st')" by auto
    have "PickOutbound be (b, m) = (if t = [] then if ba_fallbackTag b \<noteq> [] then Inr (ba_fallbackTag b)
        else Inl (Err ''balancing strategy returns empty tag'') else Inr t, b\<lparr>ba_strategy := st'\<rparr>, snd (Select (ba_selectors b) m))"
      unfolding PickOutbound_def by (subst prod.case, subst sel) (simp add: True t Let_def)
    with p tag [OF strategy_usable [OF r t]] show ?thesis by (auto split: if_splits)
  qed
qed

theorem pick_outbound_witness:
  "\<exists>b m b' m'. ba_selectors b = [''a''] \<and> PickOutbound sample_balance (b, m) = (Inr ''ax'', (b', m'))
     \<and> (\<exists>h. GetHandler ''ax'' m = Some h \<and> list_ex (HasPrefix ''ax'') [''a''])"
proof -
  let ?b = "\<lparr>ba_selectors = [''a''], ba_strategy = RandomPick [], ba_fallbackTag = [], ba_override = []\<rparr>"
  let ?m = "NewManager\<lparr>mg_tagged := [(''ax'', \<lparr>ha_Tag = ''ax'', ha_id = 0\<rparr>)]\<rparr>"
  have sel: "selected [''a''] ?m = [''ax'']" by (simp add: selected_def HasPrefix_def)
  then have p: "PickOutbound sample_balance (?b, ?m) = (Inr ''ax'', (?b, ?m\<lparr>mg_cache := [(''a'', [''ax''])]\<rparr>))"
    by (simp add: PickOutbound_def Select_def Random_Pick_def alive_tags_def seen_report_def sample_balance_def NewManager_def Let_def)
  have "roll_ok sample_balance" "cache_plain ?m" "plain_selectors (ba_selectors ?b)"
    by (simp_all add: roll_ok_def sample_balance_def cache_plain_def NewManager_def plain_selectors_def)
  from pick_outbound [OF this p] have h: "\<exists>h. GetHandler ''ax'' ?m = Some h \<and> list_ex (HasPrefix ''ax'') [''a'']"
    by auto
  show ?thesis
    by (rule exI [of _ ?b], rule exI [of _ ?m], rule exI [of _ ?b], rule exI [of _ "?m\<lparr>mg_cache := [(''a'', [''ax''])]\<rparr>"])
      (intro conjI p h, simp)
qed

end
