(* ===== verification/Xray_Router.thy ===== *)
theory Xray_Router
  imports Xray_Conditions Xray_Balancers
begin

text \<open>
  The router of xray (src/xray-core/app/router/router.go, Rule and BuildCondition of config.go).  Balancers and
  notifiers are shared by reference, so they live in two lists that a rule points into.  The registries of the matchers
  and the manager of the outbounds belong to the state, since building a rule and picking a balancer change them.
\<close>

section \<open>State\<close>

datatype domain_strategy = AsIs | IpIfNonMatch | IpOnDemand

record rule =
  ru_Tag :: string
  ru_RuleTag :: string
  ru_Balancer :: "nat option"
  ru_Condition :: "condition list"
  ru_Webhook :: "nat option"

record router =
  rt_domainStrategy :: domain_strategy
  rt_rules :: "rule list"
  rt_balancers :: "(string \<times> nat) list"

record ('s) router_state =
  rs_router :: router
  rs_heap :: "balancer list"
  rs_hooks :: "notifier list"
  rs_regs :: "'s geo_regs"
  rs_ohm :: manager

record router_config =
  rf_DomainStrategy :: domain_strategy
  rf_Rule :: "router_rule list"
  rf_BalancingRule :: "balancing_rule list"

definition set_rules :: "rule list \<Rightarrow> 's router_state \<Rightarrow> 's router_state" where
  "set_rules rules st = st\<lparr>rs_router := (rs_router st)\<lparr>rt_rules := rules\<rparr>\<rparr>"

definition rules_of :: "'s router_state \<Rightarrow> rule list" where
  "rules_of st = rt_rules (rs_router st)"

definition balancers_of :: "'s router_state \<Rightarrow> (string \<times> nat) list" where
  "balancers_of st = rt_balancers (rs_router st)"

section \<open>Webhooks of rules\<close>

definition close_hook :: "nat option \<Rightarrow> notifier list \<Rightarrow> notifier list" where
  "close_hook w hooks = (case w of None \<Rightarrow> hooks | Some i \<Rightarrow> hooks[i := hook_Close (hooks ! i)])"

definition close_hooks :: "rule list \<Rightarrow> notifier list \<Rightarrow> notifier list" where
  "close_hooks rules hooks = fold (\<lambda>r. close_hook (ru_Webhook r)) rules hooks"

definition closeWebhooks :: "'s router_state \<Rightarrow> 's router_state" where
  "closeWebhooks st = st\<lparr>rs_hooks := close_hooks (rules_of st) (rs_hooks st)\<rparr>"

text \<open>\<open>NewWebhookNotifier\<close> never fails; the new notifier goes to the end of the list.\<close>

definition new_hook :: "webhook_config option \<Rightarrow> ('s router_state, nat option) act" where
  "new_hook wh = (\<lambda>st. case NewWebhookNotifier wh of
       None \<Rightarrow> (Inr None, st)
     | Some h \<Rightarrow> (Inr (Some (length (rs_hooks st))), st\<lparr>rs_hooks := rs_hooks st @ [h]\<rparr>))"

section \<open>Rules\<close>

definition on_regs :: "('s geo_regs, 'a) act \<Rightarrow> ('s router_state, 'a) act" where
  "on_regs m = (\<lambda>st. case m (rs_regs st) of (x, g) \<Rightarrow> (x, st\<lparr>rs_regs := g\<rparr>))"

text \<open>The part of a rule that \<open>Init\<close> and \<open>ReloadRules\<close> share.\<close>

definition build_rule :: "'s route_env \<Rightarrow> router_rule \<Rightarrow> ('s router_state, rule) act" where
  "build_rule env r =
     andThen (on_regs (BuildCondition env r)) (\<lambda>cond.
     andThen (new_hook (xr_Webhook r)) (\<lambda>wh.
     let btag = GetBalancingTag r;
         rr = \<lparr>ru_Tag = GetTag r, ru_RuleTag = xr_RuleTag r, ru_Balancer = None, ru_Condition = cond, ru_Webhook = wh\<rparr>
     in if btag = [] then ret rr
        else (\<lambda>st. case map_of (balancers_of st) btag of
            None \<Rightarrow> (Inl (ErrArg ''balancer not found'' btag), st\<lparr>rs_hooks := close_hook wh (rs_hooks st)\<rparr>)
          | Some b \<Rightarrow> (Inr (rr\<lparr>ru_Balancer := Some b\<rparr>), st))))"

definition append_rule :: "rule \<Rightarrow> ('s router_state, unit) act" where
  "append_rule rr = modify (\<lambda>st. set_rules (rules_of st @ [rr]) st)"

definition RuleExists :: "string \<Rightarrow> 's router_state \<Rightarrow> bool" where
  "RuleExists tag st \<longleftrightarrow> tag \<noteq> [] \<and> list_ex (\<lambda>r. ru_RuleTag r = tag) (rules_of st)"

text \<open>
  A balancer is built and put into the map; \<open>Init\<close> replaces one with the same tag, \<open>ReloadRules\<close> refuses it.
\<close>

definition add_balancer :: "balancing_rule \<Rightarrow> ('s router_state, unit) act" where
  "add_balancer br =
     andThen (lift_res (BalancingRule_Build br)) (\<lambda>b.
     modify (\<lambda>st. st\<lparr>rs_heap := rs_heap st @ [b],
       rs_router := (rs_router st)\<lparr>rt_balancers := AList.update (br_Tag br) (length (rs_heap st)) (balancers_of st)\<rparr>\<rparr>))"

definition add_new_balancer :: "balancing_rule \<Rightarrow> ('s router_state, unit) act" where
  "add_new_balancer br =
     andThen (gets balancers_of) (\<lambda>bs.
     if map_of bs (br_Tag br) \<noteq> None then throw (Err ''duplicate balancer tag'') else add_balancer br)"

text \<open>
  What a function does before it returns an error; a panic passes by, since nothing here is deferred.
\<close>

fun is_panic :: "err \<Rightarrow> bool" where
  "is_panic (Panic s) = True"
| "is_panic _ = False"

definition on_error :: "('s \<Rightarrow> 's) \<Rightarrow> ('s, 'a) act \<Rightarrow> ('s, 'a) act" where
  "on_error cleanup m = (\<lambda>s. case m s of
       (Inl e, s') \<Rightarrow> (Inl e, if is_panic e then s' else cleanup s')
     | (Inr x, s') \<Rightarrow> (Inr x, s'))"

definition Init :: "'s route_env \<Rightarrow> router_config \<Rightarrow> ('s router_state, unit) act" where
  "Init env config =
     andThen (modify (\<lambda>st. st\<lparr>rs_router := \<lparr>rt_domainStrategy = rf_DomainStrategy config, rt_rules = [], rt_balancers = []\<rparr>\<rparr>)) (\<lambda>_.
     andThen (for_each add_balancer (rf_BalancingRule config)) (\<lambda>_.
     on_error closeWebhooks (for_each (\<lambda>r. andThen (build_rule env r) append_rule) (rf_Rule config))))"

definition closeNewWebhooks :: "nat \<Rightarrow> 's router_state \<Rightarrow> 's router_state" where
  "closeNewWebhooks startIdx st =
     set_rules (take startIdx (rules_of st)) (st\<lparr>rs_hooks := close_hooks (drop startIdx (rules_of st)) (rs_hooks st)\<rparr>)"

definition reload_rule :: "'s route_env \<Rightarrow> router_rule \<Rightarrow> ('s router_state, unit) act" where
  "reload_rule env r =
     andThen (gets (RuleExists (xr_RuleTag r))) (\<lambda>dup.
     if dup then throw (ErrArg ''duplicate ruleTag'' (xr_RuleTag r))
     else andThen (build_rule env r) append_rule)"

definition ReloadRules :: "'s route_env \<Rightarrow> router_config \<Rightarrow> bool \<Rightarrow> ('s router_state, unit) act" where
  "ReloadRules env config shouldAppend =
     andThen (modify (\<lambda>st. if shouldAppend then st
       else set_rules [] ((closeWebhooks st)\<lparr>rs_router := (rs_router st)\<lparr>rt_balancers := []\<rparr>\<rparr>))) (\<lambda>_.
     andThen (for_each add_new_balancer (rf_BalancingRule config)) (\<lambda>_.
     andThen (gets (\<lambda>st. length (rules_of st))) (\<lambda>startIdx.
     on_error (closeNewWebhooks startIdx) (for_each (reload_rule env) (rf_Rule config)))))"

definition RemoveRule :: "string \<Rightarrow> ('s router_state, unit) act" where
  "RemoveRule tag = (\<lambda>st.
     if tag = [] then (Inl (Err ''empty tag name!''), st)
     else (Inr (), set_rules (filter (\<lambda>r. ru_RuleTag r \<noteq> tag) (rules_of st))
       (st\<lparr>rs_hooks := close_hooks (filter (\<lambda>r. ru_RuleTag r = tag) (rules_of st)) (rs_hooks st)\<rparr>)))"

definition ListRule :: "'s router_state \<Rightarrow> (string \<times> string) list" where
  "ListRule st = map (\<lambda>r. (ru_Tag r, ru_RuleTag r)) (rules_of st)"

section \<open>Picking a route\<close>

fun first_rule :: "'s route_env \<Rightarrow> 's geo_regs \<Rightarrow> rule list \<Rightarrow> route_ctx \<Rightarrow> rule option res \<times> route_ctx" where
  "first_rule env g [] c = (Inr None, c)"
| "first_rule env g (r # rs) c = (case chan_Apply env g (ru_Condition r) c of
       (Inl e, c') \<Rightarrow> (Inl e, c')
     | (Inr b, c') \<Rightarrow> if b then (Inr (Some r), c') else first_rule env g rs c')"

definition or_no_clue :: "rule option res \<times> route_ctx \<Rightarrow> rule res \<times> route_ctx" where
  "or_no_clue x = (case x of
       (Inl e, c) \<Rightarrow> (Inl e, c)
     | (Inr None, c) \<Rightarrow> (Inl ErrNoClue, c)
     | (Inr (Some r), c) \<Rightarrow> (Inr r, c))"

definition pickRouteInternal :: "'s route_env \<Rightarrow> 's geo_regs \<Rightarrow> router \<Rightarrow> route_ctx \<Rightarrow> rule res \<times> route_ctx" where
  "pickRouteInternal env g rt ctx0 =
     (let skipDNSResolve = GetSkipDNSResolve (rc_session ctx0);
          ctx = (if rt_domainStrategy rt = IpOnDemand \<and> \<not> skipDNSResolve then ContextWithDNSClient ctx0 else ctx0)
      in case first_rule env g (rt_rules rt) ctx of
           (Inr None, ctx1) \<Rightarrow>
             if rt_domainStrategy rt \<noteq> IpIfNonMatch \<or> GetTargetDomain (rc_session ctx1) = [] \<or> skipDNSResolve
             then (Inl ErrNoClue, ctx1)
             else or_no_clue (first_rule env g (rt_rules rt) (ContextWithDNSClient ctx1))
         | x \<Rightarrow> or_no_clue x)"

text \<open>\<open>Rule.GetTag\<close>: a balancer keeps its strategy's state, and the manager what it selected.\<close>

definition rule_GetTag :: "balance_env \<Rightarrow> rule \<Rightarrow> ('s router_state, string) act" where
  "rule_GetTag be r = (\<lambda>st. case ru_Balancer r of
       None \<Rightarrow> (Inr (ru_Tag r), st)
     | Some i \<Rightarrow> (case PickOutbound be (rs_heap st ! i, rs_ohm st) of
         (x, (b, m)) \<Rightarrow> (x, st\<lparr>rs_heap := (rs_heap st)[i := b], rs_ohm := m\<rparr>)))"

definition fire_hook :: "rule \<Rightarrow> session_ctx \<Rightarrow> string \<Rightarrow> int \<Rightarrow> 's router_state \<Rightarrow> 's router_state" where
  "fire_hook r s tag now st = (case ru_Webhook r of
       None \<Rightarrow> st
     | Some i \<Rightarrow> st\<lparr>rs_hooks := (rs_hooks st)[i := Fire s tag now (rs_hooks st ! i)]\<rparr>)"

record route =
  ro_Context :: route_ctx
  ro_outboundTag :: string
  ro_ruleTag :: string

definition PickRoute :: "'s route_env \<Rightarrow> balance_env \<Rightarrow> int \<Rightarrow> route_ctx \<Rightarrow> ('s router_state, route) act" where
  "PickRoute env be now originalCtx = (\<lambda>st.
     case pickRouteInternal env (rs_regs st) (rs_router st) originalCtx of
       (Inl e, ctx) \<Rightarrow> (Inl e, st)
     | (Inr rule, ctx) \<Rightarrow>
         andThen (rule_GetTag be rule) (\<lambda>tag.
         andThen (modify (fire_hook rule (rc_session originalCtx) tag now)) (\<lambda>_.
         ret \<lparr>ro_Context = ctx, ro_outboundTag = tag, ro_ruleTag = ru_RuleTag rule\<rparr>)) st)"

section \<open>Balancers of the router\<close>

definition GetPrincipleTarget :: "balance_env \<Rightarrow> string \<Rightarrow> ('s router_state, string list) act" where
  "GetPrincipleTarget be tag = (\<lambda>st. case map_of (balancers_of st) tag of
       None \<Rightarrow> (Inl (Err ''cannot find tag''), st)
     | Some i \<Rightarrow> (case Select (ba_selectors (rs_heap st ! i)) (rs_ohm st) of
         (candidates, m) \<Rightarrow> (strategy_targets be candidates (ba_strategy (rs_heap st ! i)), st\<lparr>rs_ohm := m\<rparr>)))"

definition put_override :: "string \<Rightarrow> nat \<Rightarrow> 's router_state \<Rightarrow> 's router_state" where
  "put_override target i st = st\<lparr>rs_heap := (rs_heap st)[i := override_Put target (rs_heap st ! i)]\<rparr>"

definition SetOverrideTarget :: "string \<Rightarrow> string \<Rightarrow> ('s router_state, unit) act" where
  "SetOverrideTarget tag target = (\<lambda>st. case map_of (balancers_of st) tag of
       None \<Rightarrow> (Inl (Err ''cannot find tag''), st)
     | Some i \<Rightarrow> (Inr (), put_override target i st))"

definition GetOverrideTarget :: "string \<Rightarrow> 's router_state \<Rightarrow> string res" where
  "GetOverrideTarget tag st = (case map_of (balancers_of st) tag of
       None \<Rightarrow> Inl (Err ''cannot find tag'')
     | Some i \<Rightarrow> Inr (ba_override (rs_heap st ! i)))"

text \<open>\<open>OverrideBalancer\<close> walks over the map.\<close>

fun find_balancer :: "string \<Rightarrow> (string \<times> nat) list \<Rightarrow> nat option" where
  "find_balancer t [] = None"
| "find_balancer t ((tag, b) # bs) = (if tag = t then Some b else find_balancer t bs)"

definition OverrideBalancer :: "string \<Rightarrow> string \<Rightarrow> ('s router_state, unit) act" where
  "OverrideBalancer bal target = (\<lambda>st. case find_balancer bal (balancers_of st) of
       None \<Rightarrow> (Inl (ErrArg ''balancer not found'' bal), st)
     | Some i \<Rightarrow> (Inr (), put_override target i st))"

section \<open>Which rule is picked\<close>

definition rule_holds :: "'s route_env \<Rightarrow> 's geo_regs \<Rightarrow> net_ip list \<Rightarrow> session_ctx \<Rightarrow> rule \<Rightarrow> bool" where
  "rule_holds env g ips s r = list_all (cond_holds env g ips s) (ru_Condition r)"

definition routed_rule_ok :: "'s router_state \<Rightarrow> rule \<Rightarrow> bool" where
  "routed_rule_ok st r \<longleftrightarrow> ru_Condition r \<noteq> [] \<and> list_all no_panic (ru_Condition r) \<and> list_all (cond_in (rs_regs st)) (ru_Condition r)
     \<and> (\<forall>i. ru_Balancer r = Some i \<longrightarrow> i < length (rs_heap st)) \<and> (\<forall>i. ru_Webhook r = Some i \<longrightarrow> i < length (rs_hooks st))"

definition router_ok :: "'s router_state \<Rightarrow> bool" where
  "router_ok st \<longleftrightarrow> list_all (routed_rule_ok st) (rules_of st) \<and> list_all (\<lambda>(t, i). i < length (rs_heap st)) (balancers_of st)"

lemma first_rule_find:
  "list_all (\<lambda>r. list_all no_panic (ru_Condition r)) rs \<Longrightarrow>
     \<exists>c'. first_rule env g rs c = (Inr (find (rule_holds env g (resolved env c) (rc_session c)) rs), c') \<and> asked env c c'"
proof (induction rs arbitrary: c)
  case (Cons r rs)
  then obtain c1 where c1: "chan_Apply env g (ru_Condition r) c = (Inr (rule_holds env g (resolved env c) (rc_session c) r), c1)"
      "asked env c c1"
    using chan_Apply_holds [of "ru_Condition r" env g c] by (auto simp: rule_holds_def)
  then have same: "resolved env c1 = resolved env c" "rc_session c1 = rc_session c"
    by (simp_all add: asked_def same_session_def)
  show ?case
  proof (cases "rule_holds env g (resolved env c) (rc_session c) r")
    case False
    from Cons.IH [of c1] Cons.prems obtain c2 where
      "first_rule env g rs c1 = (Inr (find (rule_holds env g (resolved env c) (rc_session c)) rs), c2)" "asked env c1 c2"
      by (auto simp: same)
    with c1 False asked_trans [OF c1(2)] show ?thesis by auto
  qed (use c1 in auto)
qed simp

lemma resolved_client: "rc_session c' = rc_session c \<Longrightarrow> resolved env (ContextWithDNSClient c') = resolved env (ContextWithDNSClient c)"
  by (auto simp: resolved_def GetTargetIPs_def ContextWithDNSClient_def fall_back_ips_def Let_def split: sum.split)

text \<open>C5: 
  The router picks the first rule whose conditions all hold; of a domain that no rule takes, it asks again
  with the addresses behind it, where the strategy says so and the session allows it.
\<close>

theorem picks_first_rule:
  assumes "router_ok st"
  shows "fst (pickRouteInternal env (rs_regs st) (rs_router st) c) =
    (let s = rc_session c;
         ask = resolved env (ContextWithDNSClient c);
         may_ask = (\<not> GetSkipDNSResolve s);
         ips = (if rt_domainStrategy (rs_router st) = IpOnDemand \<and> may_ask then ask else resolved env c);
         pick = (\<lambda>ips. find (rule_holds env (rs_regs st) ips s) (rules_of st));
         again = (rt_domainStrategy (rs_router st) = IpIfNonMatch \<and> GetTargetDomain s \<noteq> [] \<and> may_ask)
     in case pick ips of Some r \<Rightarrow> Inr r
        | None \<Rightarrow> (case (if again then pick ask else None) of Some r \<Rightarrow> Inr r | None \<Rightarrow> Inl ErrNoClue))"
proof -
  let ?g = "rs_regs st" and ?rt = "rs_router st"
  let ?c = "if rt_domainStrategy ?rt = IpOnDemand \<and> \<not> GetSkipDNSResolve (rc_session c) then ContextWithDNSClient c else c"
  have np: "list_all (\<lambda>r. list_all no_panic (ru_Condition r)) (rt_rules ?rt)"
    using assms by (auto simp: router_ok_def routed_rule_ok_def rules_of_def list_all_iff)
  from first_rule_find [OF np, of env ?g ?c] obtain c1 where
    c1: "first_rule env ?g (rt_rules ?rt) ?c = (Inr (find (rule_holds env ?g (resolved env ?c) (rc_session ?c)) (rt_rules ?rt)), c1)"
      "asked env ?c c1" by blast
  have s: "rc_session ?c = rc_session c" by (simp add: ContextWithDNSClient_def)
  with c1(2) have s1: "rc_session c1 = rc_session c" by (simp add: asked_def same_session_def)
  from first_rule_find [OF np, of env ?g "ContextWithDNSClient c1"] obtain c2 where
    c2: "first_rule env ?g (rt_rules ?rt) (ContextWithDNSClient c1) =
      (Inr (find (rule_holds env ?g (resolved env (ContextWithDNSClient c)) (rc_session c)) (rt_rules ?rt)), c2)"
    unfolding resolved_client [OF s1] using s1 by (auto simp: ContextWithDNSClient_def)
  show ?thesis
    unfolding pickRouteInternal_def Let_def c1(1) s rules_of_def
    by (auto simp: c2 s1 or_no_clue_def split: option.split)
qed

text \<open>A name is looked up at most once, and not at all where it must not or need not be.\<close>

definition budget :: "route_ctx \<Rightarrow> nat" where
  "budget c = (if rc_client c \<and> rc_cacheIPs c = [] \<and> \<not> rc_hasError c then 1 else 0)"

definition spends :: "route_ctx \<Rightarrow> route_ctx \<Rightarrow> bool" where
  "spends c c' \<longleftrightarrow> rc_lookups c' + budget c' \<le> rc_lookups c + budget c \<and> rc_session c' = rc_session c \<and> (\<not> rc_client c \<longrightarrow> c' = c)"

lemma spends_refl [simp]: "spends c c"
  by (simp add: spends_def)

lemma spends_trans: "spends a b \<Longrightarrow> spends b c \<Longrightarrow> spends a c"
  by (auto simp: spends_def)

lemma target_ips_spends: "(\<And>d. dns d \<noteq> Inr []) \<Longrightarrow> GetTargetIPs dns c = (ips, c') \<Longrightarrow> spends c c'"
  by (auto simp: GetTargetIPs_def fall_back_ips_def spends_def budget_def Let_def split: if_splits sum.splits)

lemma Apply_spends:
  assumes "\<And>d. re_dns env d \<noteq> Inr []"
  shows "spends c (snd (Apply env g x c))"
proof (cases x)
  case (IPCond i t)
  with target_ips_spends [of "re_dns env" c, OF assms] show ?thesis by (cases t) (auto split: prod.split)
next
  case (ProcessCond names paths folders self)
  with target_ips_spends [of "re_dns env" c, OF assms] show ?thesis
    by (cases "process_asks (rc_session c)") (auto simp: Let_def split: prod.split)
next
  case (PortCond l t)
  then show ?thesis by (cases t) auto
qed auto

lemma chan_Apply_spends: "(\<And>d. re_dns env d \<noteq> Inr []) \<Longrightarrow> spends c (snd (chan_Apply env g cs c))"
proof (induction cs arbitrary: c)
  case (Cons x cs)
  from Apply_spends [OF Cons.prems, of c g x] Cons.IH [OF Cons.prems] show ?case
    by (auto split: prod.split sum.split intro: spends_trans)
qed simp

lemma first_rule_spends: "(\<And>d. re_dns env d \<noteq> Inr []) \<Longrightarrow> spends c (snd (first_rule env g rs c))"
proof (induction rs arbitrary: c)
  case (Cons r rs)
  from chan_Apply_spends [OF Cons.prems, of c g "ru_Condition r"] Cons.IH [OF Cons.prems] show ?case
    by (auto split: prod.split sum.split intro: spends_trans)
qed simp

text \<open>C31: 
  One decision asks the DNS at most once, however many rules look at the addresses, and not at all for a session that
  must not resolve or with a strategy that does not, where the DNS does not answer with an empty list
  (which it reports as an error).
\<close>

theorem one_lookup:
  assumes dns: "\<And>d. re_dns env d \<noteq> Inr []"
  shows "rc_lookups (snd (pickRouteInternal env g rt (AsRoutingContext s)))
      \<le> (if rt_domainStrategy rt = AsIs \<or> GetSkipDNSResolve s then 0 else 1)"
proof -
  let ?c = "AsRoutingContext s"
  let ?first = "first_rule env g (rt_rules rt)"
  have lk: "rc_lookups (snd (?first c)) \<le> rc_lookups c + budget c" for c
    using first_rule_spends [OF dns, of c g "rt_rules rt"] by (simp add: spends_def)
  have plain: "snd (?first ?c) = ?c"
    using first_rule_spends [OF dns, of ?c g "rt_rules rt"] by (simp add: spends_def AsRoutingContext_def)
  have b: "rc_lookups (ContextWithDNSClient ?c) + budget (ContextWithDNSClient ?c) \<le> 1"
    by (simp add: budget_def ContextWithDNSClient_def AsRoutingContext_def)
  have clue: "snd (or_no_clue x) = snd x" for x by (auto simp: or_no_clue_def split: prod.split sum.split option.split)
  have l0: "rc_lookups ?c = 0" by (simp add: AsRoutingContext_def)
  show ?thesis
  proof (cases "rt_domainStrategy rt = IpOnDemand \<and> \<not> GetSkipDNSResolve s")
    case True
    then show ?thesis using lk [of "ContextWithDNSClient ?c"] b
      by (auto simp: pickRouteInternal_def Let_def clue AsRoutingContext_def split: prod.split sum.split option.split) 
  next
    case False
    obtain x where x: "?first ?c = (x, ?c)" using plain by (metis prod.collapse)
    then show ?thesis using False lk [of "ContextWithDNSClient ?c"] b
      by (auto simp: pickRouteInternal_def Let_def clue l0 split: sum.split option.split)
        (auto simp: AsRoutingContext_def)
  qed
qed

section \<open>What the operations keep\<close>

definition extends :: "'s router_state \<Rightarrow> 's router_state \<Rightarrow> bool" where
  "extends st st' \<longleftrightarrow> regs_grow (rs_regs st) (rs_regs st') \<and> length (rs_heap st) \<le> length (rs_heap st')
     \<and> length (rs_hooks st) \<le> length (rs_hooks st') \<and> rt_domainStrategy (rs_router st') = rt_domainStrategy (rs_router st)"

lemma extends_refl [simp]: "extends st st"
  by (simp add: extends_def)

lemma extends_trans: "extends a b \<Longrightarrow> extends b c \<Longrightarrow> extends a c"
  by (auto simp: extends_def intro: regs_grow_trans)

lemma routed_rule_extends: "extends st st' \<Longrightarrow> routed_rule_ok st r \<Longrightarrow> routed_rule_ok st' r"
  by (auto simp: extends_def routed_rule_ok_def list_all_iff intro: cond_in_grow)

lemma router_ok_extends:
  "extends st st' \<Longrightarrow> set (rules_of st') \<subseteq> set (rules_of st) \<Longrightarrow> balancers_of st' = balancers_of st \<Longrightarrow> router_ok st \<Longrightarrow> router_ok st'"
  by (auto simp: router_ok_def list_all_iff intro: routed_rule_extends) (fastforce simp: extends_def)

lemma close_hook_length [simp]: "length (close_hook w hooks) = length hooks"
  by (simp add: close_hook_def split: option.split)

lemma close_hooks_length [simp]: "length (close_hooks rs hooks) = length hooks"
  by (induction rs arbitrary: hooks) (simp_all add: close_hooks_def)

lemma state_simps [simp]:
  "rules_of (set_rules rs st) = rs" "balancers_of (set_rules rs st) = balancers_of st"
  "rs_heap (set_rules rs st) = rs_heap st" "rs_hooks (set_rules rs st) = rs_hooks st"
  "rt_domainStrategy (rs_router (set_rules rs st)) = rt_domainStrategy (rs_router st)"
  "rs_regs (set_rules rs st) = rs_regs st" "rs_ohm (set_rules rs st) = rs_ohm st"
  "rules_of (st\<lparr>rs_hooks := x\<rparr>) = rules_of st" "balancers_of (st\<lparr>rs_hooks := x\<rparr>) = balancers_of st"
  "rules_of (st\<lparr>rs_regs := g\<rparr>) = rules_of st" "balancers_of (st\<lparr>rs_regs := g\<rparr>) = balancers_of st"
  "rules_of (st\<lparr>rs_heap := y\<rparr>) = rules_of st" "balancers_of (st\<lparr>rs_heap := y\<rparr>) = balancers_of st"
  "rules_of (st\<lparr>rs_ohm := z\<rparr>) = rules_of st" "balancers_of (st\<lparr>rs_ohm := z\<rparr>) = balancers_of st"
  by (simp_all add: set_rules_def rules_of_def balancers_of_def)

lemma new_hook_run: "new_hook wh st = (x, st') \<Longrightarrow> \<exists>w hs. x = Inr w \<and> st' = st\<lparr>rs_hooks := rs_hooks st @ hs\<rparr>
    \<and> (\<forall>i. w = Some i \<longrightarrow> i < length (rs_hooks st'))"
proof (cases "NewWebhookNotifier wh")
  case None
  assume "new_hook wh st = (x, st')"
  with None show ?thesis by (intro exI [of _ None] exI [of _ "[]"]) (simp add: new_hook_def)
qed (auto simp: new_hook_def)

text \<open>Building a rule leaves the rules and the balancers alone.\<close>

lemma build_rule_run:
  assumes "build_rule env r st = (x, st')" "router_ok st"
  shows "extends st st' \<and> rules_of st' = rules_of st \<and> balancers_of st' = balancers_of st \<and> rs_heap st' = rs_heap st
    \<and> (\<forall>rr. x = Inr rr \<longrightarrow> routed_rule_ok st' rr \<and> ru_Tag rr = GetTag r \<and> ru_RuleTag rr = xr_RuleTag r)"
proof -
  obtain y g where y: "BuildCondition env r (rs_regs st) = (y, g)" by fastforce
  have grow: "regs_grow (rs_regs st) g" using BuildCondition_grows [OF y] .
  show ?thesis
  proof (cases y)
    case (Inl e)
    with assms y grow show ?thesis by (auto simp: build_rule_def on_regs_def andThen_run extends_def)
  next
    case (Inr cs)
    let ?s1 = "st\<lparr>rs_regs := g\<rparr>"
    obtain z s2 where z: "new_hook (xr_Webhook r) ?s1 = (z, s2)" by fastforce
    from new_hook_run [OF z] obtain w hs where w: "z = Inr w" "s2 = ?s1\<lparr>rs_hooks := rs_hooks ?s1 @ hs\<rparr>"
      "\<forall>i. w = Some i \<longrightarrow> i < length (rs_hooks s2)" by blast
    have ext: "extends st s2" using grow w(2) by (simp add: extends_def)
    have cs: "cs \<noteq> []" "list_all no_panic cs" "list_all (cond_in g) cs"
      using BuildCondition_conds BuildCondition_in y Inr by fastforce+
    have bal: "i < length (rs_heap st)" if "map_of (balancers_of st) t = Some i" for t i
      using assms(2) map_of_SomeD [OF that] by (auto simp: router_ok_def list_all_iff)
    show ?thesis
      using assms(1) y Inr z w ext cs bal
      by (auto simp: build_rule_def on_regs_def andThen_run Let_def routed_rule_ok_def extends_def split: if_splits option.splits)
  qed
qed

lemma add_balancer_run:
  assumes "add_balancer br st = (x, st')" "router_ok st"
  shows "extends st st' \<and> rules_of st' = rules_of st \<and> router_ok st'
    \<and> (x = Inr () \<longrightarrow> balancers_of st' = AList.update (br_Tag br) (length (rs_heap st)) (balancers_of st))
    \<and> (\<forall>e. x = Inl e \<longrightarrow> st' = st)"
proof (cases "BalancingRule_Build br")
  case (Inr b)
  with assms(1) have st': "x = Inr ()" "st' = st\<lparr>rs_heap := rs_heap st @ [b],
      rs_router := (rs_router st)\<lparr>rt_balancers := AList.update (br_Tag br) (length (rs_heap st)) (balancers_of st)\<rparr>\<rparr>"
    by (auto simp: add_balancer_def andThen_run)
  then have same: "extends st st'" "rules_of st' = rules_of st"
    "balancers_of st' = AList.update (br_Tag br) (length (rs_heap st)) (balancers_of st)"
    "length (rs_heap st') = Suc (length (rs_heap st))"
    by (simp_all add: extends_def rules_of_def balancers_of_def)
  moreover have "router_ok st'"
    using assms(2) routed_rule_extends [OF same(1)] same(2-4)
    by (auto simp: router_ok_def list_all_iff dest!: update_entry) 
  ultimately show ?thesis using st'(1) by simp
qed (use assms in \<open>auto simp: add_balancer_def andThen_run\<close>)

lemma add_new_balancer_run:
  assumes "add_new_balancer br st = (x, st')" "router_ok st"
  shows "extends st st' \<and> rules_of st' = rules_of st \<and> router_ok st'
    \<and> (x = Inr () \<longrightarrow> map_of (balancers_of st) (br_Tag br) = None
        \<and> balancers_of st' = AList.update (br_Tag br) (length (rs_heap st)) (balancers_of st))
    \<and> (\<forall>e. x = Inl e \<longrightarrow> st' = st)"
  using add_balancer_run [OF _ assms(2), of br x st'] assms
  by (auto simp: add_new_balancer_def andThen_run split: if_splits)

text \<open>The loops over the balancers and over the rules.\<close>

lemma balancers_run:
  assumes "\<And>br st x st'. f br st = (x, st') \<Longrightarrow> router_ok st \<Longrightarrow> extends st st' \<and> rules_of st' = rules_of st \<and> router_ok st'"
  shows "for_each f brs st = (x, st') \<Longrightarrow> router_ok st \<Longrightarrow> extends st st' \<and> rules_of st' = rules_of st \<and> router_ok st'"
proof (induction brs arbitrary: st)
  case (Cons br brs)
  obtain y s1 where y: "f br st = (y, s1)" by fastforce
  from assms [OF y Cons.prems(2)] have s1: "extends st s1" "rules_of s1 = rules_of st" "router_ok s1" by auto
  show ?case
  proof (cases y)
    case (Inr u)
    with Cons.prems(1) y have "for_each f brs s1 = (x, st')" by (simp add: andThen_run)
    with Cons.IH s1 show ?thesis by (metis extends_trans)
  qed (use Cons.prems(1) y s1 in \<open>auto simp: andThen_run\<close>)
qed simp

definition rule_tags :: "'s router_state \<Rightarrow> string list" where
  "rule_tags st = filter (\<lambda>t. t \<noteq> []) (map ru_RuleTag (rules_of st))"

text \<open>The rules a loop appends: one for each rule of the configuration, with its tags, and no tag twice.\<close>

definition appended :: "router_rule list \<Rightarrow> 's router_state \<Rightarrow> unit res \<Rightarrow> 's router_state \<Rightarrow> bool" where
  "appended rs st x st' \<longleftrightarrow> (\<exists>new. rules_of st' = rules_of st @ new
     \<and> (x = Inr () \<longrightarrow> map (\<lambda>r. (ru_Tag r, ru_RuleTag r)) new = map (\<lambda>r. (GetTag r, xr_RuleTag r)) rs)
     \<and> extends st st' \<and> router_ok st' \<and> balancers_of st' = balancers_of st \<and> rs_heap st' = rs_heap st)"

lemma append_built:
  assumes "andThen (build_rule env r) append_rule st = (x, st')" "router_ok st"
  shows "appended [r] st x st'"
proof -
  obtain y s1 where y: "build_rule env r st = (y, s1)" by fastforce
  note b = build_rule_run [OF y assms(2)]
  show ?thesis
  proof (cases y)
    case (Inl e)
    with assms(1) y b router_ok_extends [of st s1] assms(2) show ?thesis by (auto simp: appended_def andThen_run)
  next
    case (Inr rr)
    have ok: "router_ok s1" using b router_ok_extends [of st s1] assms(2) by simp
    from Inr assms(1) y have st': "x = Inr ()" "st' = set_rules (rules_of s1 @ [rr]) s1"
      by (auto simp: andThen_run append_rule_def)
    moreover have "extends s1 st'" by (simp add: st' extends_def)
    moreover have "router_ok st'"
      using ok b Inr routed_rule_extends [OF \<open>extends s1 st'\<close>] by (auto simp: router_ok_def st' list_all_iff)
    ultimately show ?thesis using b Inr by (auto simp: appended_def intro: extends_trans)
  qed
qed

lemma rules_run:
  assumes f: "\<And>r st x st'. f r st = (x, st') \<Longrightarrow> router_ok st \<Longrightarrow> appended [r] st x st'"
  shows "for_each f rs st = (x, st') \<Longrightarrow> router_ok st \<Longrightarrow> appended rs st x st'"
proof (induction rs arbitrary: st)
  case (Cons r rs)
  obtain y s1 where y: "f r st = (y, s1)" by fastforce
  note a = f [OF y Cons.prems(2)]
  show ?case
  proof (cases y)
    case (Inl e)
    with Cons.prems(1) y a show ?thesis by (auto simp: andThen_run appended_def)
  next
    case (Inr u)
    with Cons.prems(1) y have "for_each f rs s1 = (x, st')" by (simp add: andThen_run)
    with Cons.IH a have "appended rs s1 x st'" by (auto simp: appended_def)
    with a Inr show ?thesis unfolding appended_def by (fastforce intro: extends_trans)
  qed
qed (simp add: appended_def)

lemma reload_rule_run: "reload_rule env r st = (x, st') \<Longrightarrow> router_ok st \<Longrightarrow> appended [r] st x st'"
  using append_built [of env r st x st'] by (auto simp: reload_rule_def andThen_run appended_def split: if_splits)

definition ended :: "('s \<Rightarrow> 's) \<Rightarrow> 'a res \<Rightarrow> 's \<Rightarrow> 's \<Rightarrow> bool" where
  "ended cleanup x s s' \<longleftrightarrow> s' = (case x of Inr _ \<Rightarrow> s | Inl e \<Rightarrow> if is_panic e then s else cleanup s)"

lemma on_error_run: "on_error cleanup m s = (x, s') \<Longrightarrow> \<exists>s1. m s = (x, s1) \<and> ended cleanup x s1 s'"
  by (auto simp: on_error_def ended_def split: prod.splits sum.splits)

lemma ended_cases: "ended cleanup x s s' \<Longrightarrow> s' = s \<or> s' = cleanup s"
  by (auto simp: ended_def split: sum.splits if_splits)

lemma for_each_append: "for_each (\<lambda>r. andThen (build_rule env r) append_rule) rs st = (x, st') \<Longrightarrow> router_ok st \<Longrightarrow> appended rs st x st'"
  by (rule rules_run [OF append_built])

lemma for_each_reload: "for_each (reload_rule env) rs st = (x, st') \<Longrightarrow> router_ok st \<Longrightarrow> appended rs st x st'"
  by (rule rules_run [OF reload_rule_run])

lemma closed_ok: "router_ok st \<Longrightarrow> router_ok (closeWebhooks st)"
  by (rule router_ok_extends [of st]) (simp_all add: closeWebhooks_def extends_def)

lemma closeNew_ok: "router_ok st \<Longrightarrow> router_ok (closeNewWebhooks n st)"
  by (rule router_ok_extends [of st]) (simp_all add: closeNewWebhooks_def extends_def set_take_subset)

lemma emptied_ok: "rules_of st = [] \<Longrightarrow> balancers_of st = [] \<Longrightarrow> router_ok st"
  by (simp add: router_ok_def)

lemma Init_ok:
  assumes "Init env config st = (x, st')"
  shows "router_ok st'"
proof -
  let ?s0 = "st\<lparr>rs_router := \<lparr>rt_domainStrategy = rf_DomainStrategy config, rt_rules = [], rt_balancers = []\<rparr>\<rparr>"
  have ok0: "router_ok ?s0" by (rule emptied_ok) (simp_all add: rules_of_def balancers_of_def)
  obtain y s1 where y: "for_each add_balancer (rf_BalancingRule config) ?s0 = (y, s1)" by fastforce
  have ok1: "router_ok s1" using balancers_run [OF _ y ok0] add_balancer_run by blast
  show ?thesis
  proof (cases y)
    case (Inr u)
    with assms y obtain s2 where "for_each (\<lambda>r. andThen (build_rule env r) append_rule) (rf_Rule config) s1 = (x, s2)"
        "st' = s2 \<or> st' = closeWebhooks s2"
      by (auto simp: Init_def andThen_run dest!: on_error_run ended_cases)
    moreover from this(1) have "router_ok s2" using for_each_append ok1 unfolding appended_def by blast
    ultimately show ?thesis using closed_ok by auto
  qed (use assms y ok1 in \<open>auto simp: Init_def andThen_run\<close>)
qed

definition reload_start :: "bool \<Rightarrow> 's router_state \<Rightarrow> 's router_state" where
  "reload_start shouldAppend st = (if shouldAppend then st
     else set_rules [] ((closeWebhooks st)\<lparr>rs_router := (rs_router st)\<lparr>rt_balancers := []\<rparr>\<rparr>))"

lemma reload_start_ok: "router_ok st \<Longrightarrow> router_ok (reload_start app st)"
  by (simp add: reload_start_def emptied_ok balancers_of_def set_rules_def rules_of_def)

text \<open>The two ways in which a reload ends: a balancer is refused, or the rules were tried.\<close>

lemma reload_run:
  assumes "ReloadRules env config app st = (x, st')" "router_ok st"
  shows "\<exists>y s1. for_each add_new_balancer (rf_BalancingRule config) (reload_start app st) = (y, s1)
    \<and> router_ok s1 \<and> rules_of s1 = rules_of (reload_start app st) \<and> extends (reload_start app st) s1
    \<and> (case y of Inl e \<Rightarrow> x = Inl e \<and> st' = s1
       | Inr _ \<Rightarrow> \<exists>s2. for_each (reload_rule env) (rf_Rule config) s1 = (x, s2) \<and> appended (rf_Rule config) s1 x s2
           \<and> ended (closeNewWebhooks (length (rules_of s1))) x s2 st')"
proof -
  obtain y s1 where y: "for_each add_new_balancer (rf_BalancingRule config) (reload_start app st) = (y, s1)" by fastforce
  have s1: "extends (reload_start app st) s1 \<and> rules_of s1 = rules_of (reload_start app st) \<and> router_ok s1"
    using balancers_run [OF _ y reload_start_ok [OF assms(2)]] add_new_balancer_run by blast
  have run: "ReloadRules env config app st = (case y of Inl e \<Rightarrow> (Inl e, s1) | Inr _ \<Rightarrow>
      on_error (closeNewWebhooks (length (rules_of s1))) (for_each (reload_rule env) (rf_Rule config)) s1)"
    using y by (simp add: ReloadRules_def andThen_run reload_start_def split: sum.split)
  show ?thesis
  proof (cases y)
    case (Inr u)
    from run Inr assms(1) have "on_error (closeNewWebhooks (length (rules_of s1))) (for_each (reload_rule env) (rf_Rule config)) s1 = (x, st')"
      by simp
    from on_error_run [OF this] y s1 Inr for_each_reload show ?thesis by fastforce
  qed (use run assms(1) y s1 in simp)
qed

lemma reload_ok:
  assumes "ReloadRules env config app st = (x, st')" "router_ok st"
  shows "router_ok st'"
proof -
  from reload_run [OF assms] obtain y :: "unit res" and s1 where s1: "router_ok s1"
    "case y of Inl e \<Rightarrow> x = Inl e \<and> st' = s1
     | Inr _ \<Rightarrow> \<exists>s2. for_each (reload_rule env) (rf_Rule config) s1 = (x, s2) \<and> appended (rf_Rule config) s1 x s2
         \<and> ended (closeNewWebhooks (length (rules_of s1))) x s2 st'"
    by (elim exE conjE) (rule that)
  show ?thesis
  proof (cases y)
    case (Inr u)
    with s1 obtain s2 where "router_ok s2" "ended (closeNewWebhooks (length (rules_of s1))) x s2 st'"
      unfolding appended_def by auto
    with ended_cases [OF this(2)] closeNew_ok [OF this(1)] show ?thesis by auto
  qed (use s1 in simp)
qed

lemma reload_strategy:
  assumes "ReloadRules env config app st = (x, st')" "router_ok st"
  shows "rt_domainStrategy (rs_router st') = rt_domainStrategy (rs_router st)"
proof -
  from reload_run [OF assms] obtain y :: "unit res" and s1 where s1: "extends (reload_start app st) s1"
    "case y of Inl e \<Rightarrow> x = Inl e \<and> st' = s1
     | Inr _ \<Rightarrow> \<exists>s2. for_each (reload_rule env) (rf_Rule config) s1 = (x, s2) \<and> appended (rf_Rule config) s1 x s2
         \<and> ended (closeNewWebhooks (length (rules_of s1))) x s2 st'"
    by (elim exE conjE) (rule that)
  have "rt_domainStrategy (rs_router (reload_start app st)) = rt_domainStrategy (rs_router st)"
    by (simp add: reload_start_def)
  with s1 show ?thesis
    by (auto simp: extends_def appended_def closeNewWebhooks_def dest!: ended_cases split: sum.splits)
qed

lemma pick_route_run:
  assumes "PickRoute env be now c st = (x, st')" "router_ok st"
  shows "extends st st' \<and> rules_of st' = rules_of st \<and> balancers_of st' = balancers_of st \<and> rs_regs st' = rs_regs st
    \<and> router_ok st'"
proof -
  have "extends st st' \<and> rules_of st' = rules_of st \<and> balancers_of st' = balancers_of st \<and> rs_regs st' = rs_regs st"
    using assms(1)
    by (auto simp: PickRoute_def rule_GetTag_def fire_hook_def extends_def andThen_run
        split: prod.splits sum.splits option.splits)
  with router_ok_extends [of st st'] assms(2) show ?thesis by simp
qed

datatype router_op =
    OReload router_config bool
  | ORemove string
  | OPick route_ctx int
  | OPrinciple string
  | OSetOverride string string
  | OOverride string string

fun run_op :: "'s route_env \<Rightarrow> balance_env \<Rightarrow> router_op \<Rightarrow> 's router_state \<Rightarrow> 's router_state" where
  "run_op env be (OReload config app) st = snd (ReloadRules env config app st)"
| "run_op env be (ORemove tag) st = snd (RemoveRule tag st)"
| "run_op env be (OPick c now) st = snd (PickRoute env be now c st)"
| "run_op env be (OPrinciple tag) st = snd (GetPrincipleTarget be tag st)"
| "run_op env be (OSetOverride tag target) st = snd (SetOverrideTarget tag target st)"
| "run_op env be (OOverride tag target) st = snd (OverrideBalancer tag target st)"

lemma run_op_ok: "router_ok st \<Longrightarrow> router_ok (run_op env be op st)"
proof (cases op)
  case (OReload config app)
  assume "router_ok st"
  with OReload reload_ok [of env config app st "fst (ReloadRules env config app st)"] show ?thesis by simp
next
  case (OPick c now)
  assume "router_ok st"
  with OPick pick_route_run [of env be now c st "fst (PickRoute env be now c st)"] show ?thesis by simp
next
  case (ORemove tag)
  assume "router_ok st"
  with ORemove show ?thesis by (auto simp: RemoveRule_def extends_def intro!: router_ok_extends [of st])
next
  case (OPrinciple tag)
  assume "router_ok st"
  with OPrinciple show ?thesis
    by (auto simp: GetPrincipleTarget_def extends_def split: option.split prod.split intro!: router_ok_extends [of st])
qed (auto simp: SetOverrideTarget_def OverrideBalancer_def put_override_def extends_def split: option.split
    intro!: router_ok_extends [of st])

text \<open>C9: 
  However a router was made and used since, its rules have conditions that cannot panic, in places of the
  registries that exist, and balancers and notifiers that exist.
\<close>

theorem router_stays_ok:
  assumes "Init env config st = (Inr (), st')"
  shows "router_ok (fold (run_op env be) ops st')"
proof -
  have "router_ok (fold (run_op env be) ops s)" if "router_ok s" for s
    using that by (induction ops arbitrary: s) (simp_all add: run_op_ok)
  then show ?thesis using Init_ok [OF assms] by blast
qed

section \<open>Reloading rules\<close>

lemma holds_extends: "extends st st' \<Longrightarrow> routed_rule_ok st r \<Longrightarrow> rule_holds env (rs_regs st') ips s r = rule_holds env (rs_regs st) ips s r"
  unfolding rule_holds_def routed_rule_ok_def extends_def list_all_iff using holds_grow by blast

text \<open>C30: 
  Rules that are appended come behind the others, with the tags of the configuration, and change nothing for
  the others; when one of them is refused the rules are what they were.
\<close>

theorem append_keeps_rules:
  assumes "ReloadRules env config True st = (x, st')" "router_ok st"
  shows "(case x of
      Inr _ \<Rightarrow> \<exists>new. rules_of st' = rules_of st @ new
        \<and> map (\<lambda>r. (ru_Tag r, ru_RuleTag r)) new = map (\<lambda>r. (GetTag r, xr_RuleTag r)) (rf_Rule config)
    | Inl e \<Rightarrow> is_panic e \<or> rules_of st' = rules_of st)
    \<and> (\<forall>r \<in> set (rules_of st). \<forall>ips s. rule_holds env (rs_regs st') ips s r = rule_holds env (rs_regs st) ips s r)"
proof -
  from reload_run [OF assms] obtain y :: "unit res" and s1 where s1: "router_ok s1" "rules_of s1 = rules_of st" "extends st s1"
    "case y of Inl e \<Rightarrow> x = Inl e \<and> st' = s1
     | Inr _ \<Rightarrow> \<exists>s2. for_each (reload_rule env) (rf_Rule config) s1 = (x, s2) \<and> appended (rf_Rule config) s1 x s2
         \<and> ended (closeNewWebhooks (length (rules_of s1))) x s2 st'"
    unfolding reload_start_def if_True by (elim exE conjE) (rule that)
  have "extends st st' \<and> (case x of
      Inr _ \<Rightarrow> \<exists>new. rules_of st' = rules_of st @ new
        \<and> map (\<lambda>r. (ru_Tag r, ru_RuleTag r)) new = map (\<lambda>r. (GetTag r, xr_RuleTag r)) (rf_Rule config)
    | Inl e \<Rightarrow> is_panic e \<or> rules_of st' = rules_of st)"
  proof (cases y)
    case (Inr u)
    with s1(4) obtain s2 where a: "appended (rf_Rule config) s1 x s2"
      and e: "ended (closeNewWebhooks (length (rules_of s1))) x s2 st'" by auto
    from a s1(2,3) have ext: "extends st s2" and new: "\<exists>new. rules_of s2 = rules_of st @ new
        \<and> (x = Inr () \<longrightarrow> map (\<lambda>r. (ru_Tag r, ru_RuleTag r)) new = map (\<lambda>r. (GetTag r, xr_RuleTag r)) (rf_Rule config))"
      unfolding appended_def by (auto intro: extends_trans)
    have "extends s2 (closeNewWebhooks n s2)" for n by (simp add: closeNewWebhooks_def extends_def)
    with ext ended_cases [OF e] have "extends st st'" by (auto intro: extends_trans)
    moreover have "case x of
      Inr _ \<Rightarrow> \<exists>new. rules_of st' = rules_of st @ new
        \<and> map (\<lambda>r. (ru_Tag r, ru_RuleTag r)) new = map (\<lambda>r. (GetTag r, xr_RuleTag r)) (rf_Rule config)
    | Inl e \<Rightarrow> is_panic e \<or> rules_of st' = rules_of st"
      using e new s1(2) by (auto simp: ended_def closeNewWebhooks_def split: sum.split)
    ultimately show ?thesis by blast
  qed (use s1 in simp)
  moreover have "rule_holds env (rs_regs st') ips s r = rule_holds env (rs_regs st) ips s r"
    if "r \<in> set (rules_of st)" "extends st st'" for r ips s
  proof -
    have "routed_rule_ok st r" using that(1) assms(2) by (simp add: router_ok_def list_all_iff)
    then show ?thesis by (rule holds_extends [OF that(2)])
  qed
  ultimately show ?thesis by blast
qed

lemma find_cong_set: "(\<And>x. x \<in> set xs \<Longrightarrow> P x = Q x) \<Longrightarrow> find P xs = find Q xs"
  by (induction xs) auto

text \<open>C34: 
  A rule that is appended takes nothing from a rule that was there, where no domain is resolved after the rules failed:
  with that strategy an appended rule may take a domain that an earlier rule takes by its addresses.
\<close>

theorem appended_rules_come_after:
  assumes "ReloadRules env config True st = (Inr (), st')" "router_ok st"
    and "rt_domainStrategy (rs_router st) \<noteq> IpIfNonMatch"
    and "fst (pickRouteInternal env (rs_regs st) (rs_router st) c) = Inr r"
  shows "fst (pickRouteInternal env (rs_regs st') (rs_router st') c) = Inr r"
proof -
  note a = append_keeps_rules [OF assms(1,2)]
  then obtain new where new: "rules_of st' = rules_of st @ new" by auto
  have same: "find (rule_holds env (rs_regs st') ips s) (rules_of st) = find (rule_holds env (rs_regs st) ips s) (rules_of st)"
    for ips s using a by (intro find_cong_set) blast
  have ok': "router_ok st'" by (rule reload_ok [OF assms(1,2)])
  have strat: "rt_domainStrategy (rs_router st') = rt_domainStrategy (rs_router st)"
    using reload_strategy [OF assms(1,2)] .
  let ?ips = "if rt_domainStrategy (rs_router st) = IpOnDemand \<and> \<not> GetSkipDNSResolve (rc_session c)
    then resolved env (ContextWithDNSClient c) else resolved env c"
  have first: "find (rule_holds env (rs_regs st) ?ips (rc_session c)) (rules_of st) = Some r"
    using assms(3,4) unfolding picks_first_rule [OF assms(2)] Let_def by (simp split: option.splits split del: if_split)
  show ?thesis
    unfolding picks_first_rule [OF ok'] Let_def strat new find_append same first by simp
qed

text \<open>No tag of a rule is there twice when the rules come from \<open>ReloadRules\<close>; \<open>Init\<close> does not look.\<close>

lemma tags_run:
  "for_each (reload_rule env) rs st = (x, st') \<Longrightarrow> router_ok st \<Longrightarrow> distinct (rule_tags st) \<Longrightarrow> distinct (rule_tags st')"
proof (induction rs arbitrary: st)
  case (Cons r rs)
  obtain y s1 where y: "reload_rule env r st = (y, s1)" by fastforce
  note a = reload_rule_run [OF y Cons.prems(2)]
  show ?case
  proof (cases y)
    case (Inl e)
    have "rules_of s1 = rules_of st"
    proof (cases "RuleExists (xr_RuleTag r) st")
      case False
      with y have b: "andThen (build_rule env r) append_rule st = (Inl e, s1)" by (simp add: reload_rule_def andThen_run Inl)
      obtain z s2 where z: "build_rule env r st = (z, s2)" by fastforce
      with b have "z = Inl e \<and> s1 = s2" by (auto simp: andThen_run append_rule_def split: sum.splits)
      with build_rule_run [OF z Cons.prems(2)] show ?thesis by simp
    qed (use y in \<open>auto simp: reload_rule_def andThen_run\<close>)
    with Inl Cons.prems y show ?thesis by (auto simp: andThen_run rule_tags_def)
  next
    case (Inr u)
    with y have "\<not> RuleExists (xr_RuleTag r) st" by (auto simp: reload_rule_def andThen_run split: if_splits)
    moreover from a Inr obtain rr where "rules_of s1 = rules_of st @ [rr]" "ru_RuleTag rr = xr_RuleTag r" "router_ok s1"
      by (auto simp: appended_def)
    ultimately have "distinct (rule_tags s1)" "router_ok s1"
      using Cons.prems(3) by (auto simp: rule_tags_def RuleExists_def list_ex_iff)
    with Cons.IH [of s1] Cons.prems(1) y Inr show ?thesis by (simp add: andThen_run)
  qed
qed simp

text \<open>C35: Appending rules and removing the one appended gives the rules there were.\<close>

theorem add_remove_rule:
  assumes "ReloadRules env (config\<lparr>rf_Rule := [r]\<rparr>) True st = (Inr (), st1)" "router_ok st" "xr_RuleTag r \<noteq> []"
  shows "\<exists>st2. RemoveRule (xr_RuleTag r) st1 = (Inr (), st2) \<and> rules_of st2 = rules_of st"
proof -
  from reload_run [OF assms(1,2)] obtain y :: "unit res" and s0 where s0: "router_ok s0" "rules_of s0 = rules_of st"
    "case y of Inl e \<Rightarrow> Inr () = (Inl e :: unit res) \<and> st1 = s0
     | Inr _ \<Rightarrow> \<exists>s2. for_each (reload_rule env) (rf_Rule (config\<lparr>rf_Rule := [r]\<rparr>)) s0 = (Inr (), s2)
         \<and> appended (rf_Rule (config\<lparr>rf_Rule := [r]\<rparr>)) s0 (Inr ()) s2
         \<and> ended (closeNewWebhooks (length (rules_of s0))) (Inr ()) s2 st1"
    unfolding reload_start_def if_True by (elim exE conjE) (rule that)
  then have "for_each (reload_rule env) [r] s0 = (Inr (), st1)" by (cases y) (auto simp: ended_def)
  then have "reload_rule env r s0 = (Inr (), st1)" by (auto simp: andThen_Inr)
  with s0 obtain s1 where s1: "router_ok s1" "rules_of s1 = rules_of st" "reload_rule env r s1 = (Inr (), st1)"
    by blast
  then have no: "\<not> RuleExists (xr_RuleTag r) s1" by (auto simp: reload_rule_def andThen_run split: if_splits)
  from reload_rule_run [OF s1(3,1)] obtain rr where "rules_of st1 = rules_of s1 @ [rr]" "ru_RuleTag rr = xr_RuleTag r"
    by (auto simp: appended_def)
  with no assms(3) s1(2) show ?thesis
    by (auto simp: RemoveRule_def RuleExists_def list_ex_iff filter_id_conv)
qed

section \<open>A reload that was refused\<close>

text \<open>
  The balancers of a configuration whose rules were refused stay in the router: the configuration with its rules
  corrected is refused because of them.
\<close>

lemma balancers_stay:
  "for_each add_new_balancer brs st = (Inr (), s1) \<Longrightarrow> t \<in> br_Tag ` set brs \<or> map_of (balancers_of st) t \<noteq> None
     \<Longrightarrow> map_of (balancers_of s1) t \<noteq> None"
proof (induction brs arbitrary: st)
  case (Cons br brs)
  from Cons.prems(1) obtain s2 where s2: "add_new_balancer br st = (Inr (), s2)" "for_each add_new_balancer brs s2 = (Inr (), s1)"
    by (auto simp: andThen_Inr)
  then have "balancers_of s2 = AList.update (br_Tag br) (length (rs_heap st)) (balancers_of st)"
    by (cases "BalancingRule_Build br") (auto simp: add_new_balancer_def add_balancer_def andThen_run balancers_of_def split: if_splits)
  with Cons.IH [OF s2(2)] Cons.prems(2) show ?case by (auto simp: update_conv)
qed auto

lemma reload_leftover:
  assumes "for_each add_new_balancer (rf_BalancingRule config) st = (Inr (), s1)" "router_ok st"
    and "ReloadRules env config True st = (x, st')"
    and "rf_BalancingRule config' = br # brs" "br_Tag br \<in> br_Tag ` set (rf_BalancingRule config)"
  shows "fst (ReloadRules env config' True st') = Inl (Err ''duplicate balancer tag'')"
proof -
  have left: "map_of (balancers_of s1) (br_Tag br) \<noteq> None" using balancers_stay [OF assms(1)] assms(5) by blast
  from reload_run [OF assms(3,2)] assms(1) obtain s2 where
    "appended (rf_Rule config) s1 x s2" "ended (closeNewWebhooks (length (rules_of s1))) x s2 st'"
    unfolding reload_start_def if_True by (auto split: sum.splits)
  then have "balancers_of st' = balancers_of s1"
    using ended_cases by (fastforce simp: appended_def closeNewWebhooks_def)
  with left have "\<exists>i. map_of (balancers_of st') (br_Tag br) = Some i" by auto
  then show ?thesis by (auto simp: ReloadRules_def andThen_run assms(4) add_new_balancer_def)
qed

section \<open>A router with one rule\<close>

definition sample_session :: session_ctx where
  "sample_session = (let d = \<lparr>d_Network = Network_TCP, d_Address = DomainAddr ''d'', d_Port = 80\<rparr> in
     \<lparr>sc_Inbound = Some \<lparr>im_Source = d, im_Local = d, im_Tag = ''in'', im_User = None, im_VlessRoute = 0\<rparr>,
      sc_Outbound = None, sc_Content = None\<rparr>)"

definition in_rule :: "string \<Rightarrow> string \<Rightarrow> router_rule" where
  "in_rule tag ruleTag = \<lparr>xr_Target = ToTag tag, xr_RuleTag = ruleTag, xr_InboundTag = [''in''], xr_Networks = [], xr_Protocol = [],
     xr_PortList = None, xr_SourcePortList = None, xr_LocalPortList = None, xr_VlessRouteList = None, xr_UserEmail = [],
     xr_Attributes = [], xr_Ip = [], xr_SourceIp = [], xr_LocalIp = [], xr_Domain = [], xr_Process = [], xr_Webhook = None\<rparr>"

definition in_built :: "string \<Rightarrow> string \<Rightarrow> rule" where
  "in_built tag ruleTag = \<lparr>ru_Tag = tag, ru_RuleTag = ruleTag, ru_Balancer = None, ru_Condition = [InboundTagCond [''in'']], ru_Webhook = None\<rparr>"

definition sample_router :: "'s geo_regs \<Rightarrow> 's router_state" where
  "sample_router g = \<lparr>rs_router = \<lparr>rt_domainStrategy = AsIs, rt_rules = [in_built ''a'' ''r1''], rt_balancers = []\<rparr>,
     rs_heap = [], rs_hooks = [], rs_regs = g, rs_ohm = NewManager\<lparr>mg_tagged := [(''a'', \<lparr>ha_Tag = ''a'', ha_id = 0\<rparr>)]\<rparr>\<rparr>"

lemma in_rule_built: "BuildCondition env (in_rule tag ruleTag) g = (Inr [InboundTagCond [''in'']], g)"
  by (simp add: BuildCondition_def rule_conditions_def in_rule_def when_set_def port_cond_def NewInboundTagMatcher_def
      andThen_run Let_def)

lemma sample_ok: "router_ok (sample_router g)"
  by (simp add: router_ok_def sample_router_def rules_of_def balancers_of_def routed_rule_ok_def in_built_def)

lemma sample_holds: "rule_holds env g ips sample_session (in_built tag ruleTag)"
  by (simp add: rule_holds_def in_built_def sample_session_def AsRoutingContext_def GetInboundTag_def from_opt_def Let_def)

lemma build_in_rule: "build_rule env (in_rule tag ruleTag) st = (Inr (in_built tag ruleTag), st)"
proof -
  have "GetBalancingTag (in_rule tag ruleTag) = []" "xr_Webhook (in_rule tag ruleTag) = None"
    "GetTag (in_rule tag ruleTag) = tag" "xr_RuleTag (in_rule tag ruleTag) = ruleTag"
    by (simp_all add: in_rule_def GetBalancingTag_def GetTag_def)
  then show ?thesis
    by (simp add: build_rule_def on_regs_def new_hook_def NewWebhookNotifier_def andThen_run in_rule_built in_built_def Let_def)
qed

definition sample_config :: router_config where
  "sample_config = \<lparr>rf_DomainStrategy = AsIs, rf_Rule = [in_rule ''b'' ''r2''], rf_BalancingRule = []\<rparr>"

lemma sample_router_rules: "rules_of (sample_router g) = [in_built ''a'' ''r1'']"
  by (simp add: sample_router_def rules_of_def)

lemma reload_sample:
  "ReloadRules env sample_config True (sample_router g) =
     (Inr (), set_rules [in_built ''a'' ''r1'', in_built ''b'' ''r2''] (sample_router g))"
proof -
  have "\<not> RuleExists ''r2'' (sample_router g)" by (simp add: RuleExists_def sample_router_rules in_built_def)
  moreover have "xr_RuleTag (in_rule ''b'' ''r2'') = ''r2''" by (simp add: in_rule_def)
  ultimately have "reload_rule env (in_rule ''b'' ''r2'') (sample_router g) =
      (Inr (), set_rules [in_built ''a'' ''r1'', in_built ''b'' ''r2''] (sample_router g))"
    by (simp add: reload_rule_def andThen_run build_in_rule append_rule_def sample_router_rules)
  then show ?thesis by (simp add: ReloadRules_def sample_config_def on_error_def andThen_run)
qed

theorem picks_first_rule_witness:
  "\<forall>env g. fst (pickRouteInternal env (rs_regs (sample_router g)) (rs_router (sample_router g)) (AsRoutingContext sample_session))
     = Inr (in_built ''a'' ''r1'')"
proof (intro allI)
  fix env :: "'s route_env" and g :: "'s geo_regs"
  have "rc_session (AsRoutingContext sample_session) = sample_session" by (simp add: AsRoutingContext_def)
  then show "fst (pickRouteInternal env (rs_regs (sample_router g)) (rs_router (sample_router g)) (AsRoutingContext sample_session))
     = Inr (in_built ''a'' ''r1'')"
    unfolding picks_first_rule [OF sample_ok] Let_def sample_router_rules by (simp add: sample_holds)
qed

theorem one_lookup_witness:
  "\<forall>env g. rc_lookups (snd (pickRouteInternal (env\<lparr>re_dns := \<lambda>d. Inr [[1, 2, 3, 4]]\<rparr>) g
     \<lparr>rt_domainStrategy = IpOnDemand, rt_rules = [in_built ''a'' ''r1''], rt_balancers = []\<rparr> (AsRoutingContext sample_session))) \<le> 1"
proof (intro allI)
  fix env :: "'s route_env" and g :: "'s geo_regs"
  have "re_dns (env\<lparr>re_dns := \<lambda>d. Inr [[1, 2, 3, 4]]\<rparr>) d \<noteq> Inr []" for d by simp
  from one_lookup [of "env\<lparr>re_dns := \<lambda>d. Inr [[1, 2, 3, 4]]\<rparr>", OF this, of g "\<lparr>rt_domainStrategy = IpOnDemand,
      rt_rules = [in_built ''a'' ''r1''], rt_balancers = []\<rparr>" sample_session]
  show "rc_lookups (snd (pickRouteInternal (env\<lparr>re_dns := \<lambda>d. Inr [[1, 2, 3, 4]]\<rparr>) g
     \<lparr>rt_domainStrategy = IpOnDemand, rt_rules = [in_built ''a'' ''r1''], rt_balancers = []\<rparr> (AsRoutingContext sample_session))) \<le> 1"
    by (simp split: if_splits)
qed

theorem router_stays_ok_witness:
  "\<forall>env be g. \<exists>st'. Init env sample_config (sample_router g) = (Inr (), st') \<and> rules_of st' = [in_built ''b'' ''r2'']
     \<and> router_ok (fold (run_op env be) [OPick (AsRoutingContext sample_session) 0, ORemove ''r2''] st')"
proof (intro allI)
  fix env :: "'s route_env" and be and g :: "'s geo_regs"
  let ?st = "(sample_router g)\<lparr>rs_router := \<lparr>rt_domainStrategy = AsIs, rt_rules = [], rt_balancers = []\<rparr>\<rparr>"
  have "Init env sample_config (sample_router g) = (Inr (), set_rules (rules_of ?st @ [in_built ''b'' ''r2'']) ?st)"
    by (simp add: Init_def sample_config_def on_error_def andThen_run build_in_rule append_rule_def)
  moreover have "rules_of ?st = []" by (simp add: rules_of_def)
  ultimately have "Init env sample_config (sample_router g) = (Inr (), set_rules [in_built ''b'' ''r2''] ?st)" by simp
  from router_stays_ok [OF this, of be "[OPick (AsRoutingContext sample_session) 0, ORemove ''r2'']"] this
  show "\<exists>st'. Init env sample_config (sample_router g) = (Inr (), st') \<and> rules_of st' = [in_built ''b'' ''r2'']
     \<and> router_ok (fold (run_op env be) [OPick (AsRoutingContext sample_session) 0, ORemove ''r2''] st')"
    by (intro exI conjI) (assumption | simp)+
qed

theorem append_keeps_rules_witness:
  "\<forall>env g. \<exists>st'. ReloadRules env sample_config True (sample_router g) = (Inr (), st')
     \<and> (\<exists>new. rules_of st' = in_built ''a'' ''r1'' # new \<and> map (\<lambda>r. (ru_Tag r, ru_RuleTag r)) new = [(''b'', ''r2'')])"
proof (intro allI)
  fix env :: "'s route_env" and g :: "'s geo_regs"
  from append_keeps_rules [OF reload_sample [of env g] sample_ok] reload_sample [of env g]
  show "\<exists>st'. ReloadRules env sample_config True (sample_router g) = (Inr (), st')
     \<and> (\<exists>new. rules_of st' = in_built ''a'' ''r1'' # new \<and> map (\<lambda>r. (ru_Tag r, ru_RuleTag r)) new = [(''b'', ''r2'')])"
    by (auto simp: sample_router_rules sample_config_def in_rule_def GetTag_def)
qed

theorem appended_rules_come_after_witness:
  "\<forall>env g. \<exists>st'. ReloadRules env sample_config True (sample_router g) = (Inr (), st')
     \<and> fst (pickRouteInternal env (rs_regs st') (rs_router st') (AsRoutingContext sample_session)) = Inr (in_built ''a'' ''r1'')"
proof (intro allI)
  fix env :: "'s route_env" and g :: "'s geo_regs"
  have s: "rc_session (AsRoutingContext sample_session) = sample_session" by (simp add: AsRoutingContext_def)
  have "fst (pickRouteInternal env (rs_regs (sample_router g)) (rs_router (sample_router g)) (AsRoutingContext sample_session))
     = Inr (in_built ''a'' ''r1'')"
    by (simp add: pickRouteInternal_def sample_router_def in_built_def sample_session_def AsRoutingContext_def GetInboundTag_def
        from_opt_def Let_def or_no_clue_def)
  from appended_rules_come_after [OF reload_sample [of env g] sample_ok _ this] reload_sample [of env g]
  show "\<exists>st'. ReloadRules env sample_config True (sample_router g) = (Inr (), st')
     \<and> fst (pickRouteInternal env (rs_regs st') (rs_router st') (AsRoutingContext sample_session)) = Inr (in_built ''a'' ''r1'')"
    by (intro exI conjI) (assumption | simp add: sample_router_def)+
qed

theorem add_remove_rule_witness:
  "\<forall>env g. \<exists>st1 st2. ReloadRules env (sample_config\<lparr>rf_Rule := [in_rule ''b'' ''r2'']\<rparr>) True (sample_router g) = (Inr (), st1)
     \<and> RemoveRule ''r2'' st1 = (Inr (), st2) \<and> rules_of st2 = [in_built ''a'' ''r1'']"
proof (intro allI)
  fix env :: "'s route_env" and g :: "'s geo_regs"
  let ?st1 = "set_rules [in_built ''a'' ''r1'', in_built ''b'' ''r2''] (sample_router g)"
  have run: "ReloadRules env (sample_config\<lparr>rf_Rule := [in_rule ''b'' ''r2'']\<rparr>) True (sample_router g) = (Inr (), ?st1)"
    using reload_sample [of env g] by (simp add: sample_config_def)
  have tag: "xr_RuleTag (in_rule ''b'' ''r2'') = ''r2''" by (simp add: in_rule_def)
  from add_remove_rule [OF run sample_ok] run
  show "\<exists>st1 st2. ReloadRules env (sample_config\<lparr>rf_Rule := [in_rule ''b'' ''r2'']\<rparr>) True (sample_router g) = (Inr (), st1)
     \<and> RemoveRule ''r2'' st1 = (Inr (), st2) \<and> rules_of st2 = [in_built ''a'' ''r1'']"
    by (auto simp: tag sample_router_rules)
qed

end
