(* ===== verification/Xray_Dispatch.thy ===== *)
theory Xray_Dispatch
  imports Xray_Router
begin

text \<open>
  How xray hands a connection to an outbound (src/xray-core/app/dispatcher/default.go, sniffer.go) and the line it
  logs for it (common/log/access.go), which the panel reads (src/web/service/access_ip.go).  What the sniffer finds in the
  first bytes, the pool of the fake DNS and the exclusions of an inbound are parameters; the pipes and the
  counters of the traffic are left out.
\<close>

section \<open>What was sniffed\<close>

datatype sniff_result =
    PlainResult string string
  | FakeDNSResult string
  | ThenOthersResult string string
  | CompositeResult sniff_result sniff_result

fun sr_Protocol :: "sniff_result \<Rightarrow> string" where
  "sr_Protocol (PlainResult p d) = p"
| "sr_Protocol (FakeDNSResult d) = ''fakedns''"
| "sr_Protocol (ThenOthersResult d p) = ''fakedns+others''"
| "sr_Protocol (CompositeResult a b) = sr_Protocol b"

fun sr_Domain :: "sniff_result \<Rightarrow> string" where
  "sr_Domain (PlainResult p d) = d"
| "sr_Domain (FakeDNSResult d) = d"
| "sr_Domain (ThenOthersResult d p) = d"
| "sr_Domain (CompositeResult a b) = sr_Domain a"

fun ProtocolForDomainResult :: "sniff_result \<Rightarrow> string" where
  "ProtocolForDomainResult (CompositeResult a b) = sr_Protocol a"
| "ProtocolForDomainResult r = sr_Protocol r"

fun IsProtoSubsetOf :: "sniff_result \<Rightarrow> string \<Rightarrow> bool" where
  "IsProtoSubsetOf (ThenOthersResult d p) name = HasPrefix name p"
| "IsProtoSubsetOf r name = False"

record sniffing_request =
  sn_ExcludeForDomain :: "(string \<Rightarrow> bool) option"
  sn_ExcludeForIP :: "(ip \<Rightarrow> bool) option"
  sn_OverrideDestinationForProtocol :: "string list"
  sn_Enabled :: bool
  sn_RouteOnly :: bool

text \<open>\<open>fakePool\<close> is \<open>IsIPInIPPool\<close> of the fake DNS engine, where there is one with that operation.\<close>

definition in_pool :: "(address \<Rightarrow> bool) option \<Rightarrow> address \<Rightarrow> bool" where
  "in_pool fakePool a = (case fakePool of None \<Rightarrow> False | Some f \<Rightarrow> f a)"

definition excluded :: "sniffing_request \<Rightarrow> string \<Rightarrow> address \<Rightarrow> bool" where
  "excluded req domain a \<longleftrightarrow>
     (case sn_ExcludeForDomain req of None \<Rightarrow> False | Some f \<Rightarrow> f (ToLower domain))
     \<or> (case sn_ExcludeForIP req of None \<Rightarrow> False
        | Some f \<Rightarrow> (case a of IPAddr i \<Rightarrow> f i | DomainAddr d \<Rightarrow> False))"

definition shouldOverride :: "(address \<Rightarrow> bool) option \<Rightarrow> sniff_result \<Rightarrow> sniffing_request \<Rightarrow> destination \<Rightarrow> bool" where
  "shouldOverride fakePool result req dest =
     (let domain = sr_Domain result; protocolString = ProtocolForDomainResult result in
      if domain = [] then False
      else if excluded req domain (d_Address dest) then False
      else list_ex (\<lambda>p. HasPrefix protocolString p \<or> HasPrefix p protocolString
          \<or> (protocolString \<noteq> ''bittorrent'' \<and> p = ''fakedns'' \<and> in_pool fakePool (d_Address dest))
          \<or> IsProtoSubsetOf result p) (sn_OverrideDestinationForProtocol req))"

section \<open>The target of a connection\<close>

text \<open>The zero value of a destination has no network.\<close>

definition no_destination :: destination where
  "no_destination = \<lparr>d_Network = Network_Unknown, d_Address = DomainAddr [], d_Port = 0\<rparr>"

definition new_outbound :: outbound_meta where
  "new_outbound = \<lparr>om_Target = no_destination, om_RouteTarget = no_destination, om_OriginalTarget = no_destination, om_Tag = []\<rparr>"

definition new_content :: content_meta where
  "new_content = \<lparr>co_Protocol = [], co_Attributes = None, co_SkipDNSResolve = False\<rparr>"

text \<open>What \<open>Dispatch\<close> and \<open>DispatchLink\<close> put into the session before anything is read.\<close>

definition start_session :: "destination \<Rightarrow> session_ctx \<Rightarrow> session_ctx" where
  "start_session dest s =
     (let ob = (case sc_Outbound s of None \<Rightarrow> new_outbound | Some ob \<Rightarrow> ob) in
      s\<lparr>sc_Outbound := Some (ob\<lparr>om_OriginalTarget := dest, om_Target := dest\<rparr>),
        sc_Content := Some (case sc_Content s of None \<Rightarrow> new_content | Some c \<Rightarrow> c)\<rparr>)"

definition on_outbound :: "(outbound_meta \<Rightarrow> outbound_meta) \<Rightarrow> session_ctx \<Rightarrow> session_ctx" where
  "on_outbound f s = s\<lparr>sc_Outbound := map_option f (sc_Outbound s)\<rparr>"

definition set_protocol :: "string \<Rightarrow> session_ctx \<Rightarrow> session_ctx" where
  "set_protocol p s = s\<lparr>sc_Content := map_option (\<lambda>c. c\<lparr>co_Protocol := p\<rparr>) (sc_Content s)\<rparr>"

definition sniffed_session :: "(address \<Rightarrow> bool) option \<Rightarrow> sniffing_request \<Rightarrow> sniff_result res \<Rightarrow> destination
    \<Rightarrow> session_ctx \<Rightarrow> session_ctx" where
  "sniffed_session fakePool req sniffed dest s = (case sniffed of
       Inl e \<Rightarrow> s
     | Inr result \<Rightarrow>
         let s1 = set_protocol (sr_Protocol result) s in
         if \<not> shouldOverride fakePool result req dest then s1
         else let dest' = dest\<lparr>d_Address := ParseAddress (sr_Domain result)\<rparr>;
                  protocol = ProtocolForDomainResult result;
                  isFakeIP = (case sc_Outbound s of None \<Rightarrow> False | Some ob \<Rightarrow> in_pool fakePool (d_Address (om_Target ob)))
           in if sn_RouteOnly req \<and> protocol \<noteq> ''fakedns'' \<and> protocol \<noteq> ''fakedns+others'' \<and> \<not> isFakeIP
              then on_outbound (\<lambda>ob. ob\<lparr>om_RouteTarget := dest'\<rparr>) s1
              else on_outbound (\<lambda>ob. ob\<lparr>om_Target := dest'\<rparr>) s1)"

section \<open>The line of the access log\<close>

text \<open>The texts that \<open>serial.ToString\<close> makes of the fields.\<close>

record access_message =
  am_From :: string
  am_To :: string
  am_Status :: string
  am_Reason :: string
  am_Email :: string
  am_Detour :: string
  am_InboundTag :: string

definition AccessMessage_String :: "access_message \<Rightarrow> string" where
  "AccessMessage_String m =
     ''from '' @ am_From m @ '' '' @ am_Status m @ '' '' @ am_To m
     @ (if am_InboundTag m \<noteq> [] then '' ['' @ am_InboundTag m @ '']'' else [])
     @ (if am_Detour m \<noteq> [] then '' ['' @ am_Detour m @ '']'' else [])
     @ (if am_Reason m \<noteq> [] then '' '' @ am_Reason m else [])
     @ (if am_Email m \<noteq> [] then '' email: '' @ am_Email m else [])"

section \<open>Dispatching\<close>

text \<open>A connection ends at a handler, or its link is closed.\<close>

datatype dispatched = Closed | Handled handler

record dispatch_ctx =
  dc_session :: session_ctx
  dc_forced :: string
  dc_access :: "access_message option"

definition detour_text :: "nat \<Rightarrow> string \<Rightarrow> string \<Rightarrow> string" where
  "detour_text isPickRoute inTag tag =
     (if inTag = [] then tag
      else if isPickRoute = 1 then inTag @ '' ==> '' @ tag
      else if isPickRoute = 2 then inTag @ '' -> '' @ tag
      else inTag @ '' >> '' @ tag)"

text \<open>The end of \<open>routedDispatch\<close>: the tag of the outbound, and the message that is logged.\<close>

definition hand_over :: "nat \<Rightarrow> string \<Rightarrow> handler \<Rightarrow> dispatch_ctx \<Rightarrow> dispatched \<times> dispatch_ctx" where
  "hand_over isPickRoute inTag h c =
     (Handled h, c\<lparr>dc_session := on_outbound (\<lambda>ob. ob\<lparr>om_Tag := ha_Tag h\<rparr>) (dc_session c),
        dc_access := map_option (\<lambda>m. if ha_Tag h \<noteq> [] then m\<lparr>am_Detour := detour_text isPickRoute inTag (ha_Tag h)\<rparr> else m) (dc_access c)\<rparr>)"

definition default_or_close :: "string \<Rightarrow> manager \<Rightarrow> dispatch_ctx \<Rightarrow> dispatched \<times> dispatch_ctx" where
  "default_or_close inTag ohm c = (case GetDefaultHandler ohm of None \<Rightarrow> (Closed, c) | Some h \<Rightarrow> hand_over 0 inTag h c)"

definition routedDispatch :: "'s route_env \<Rightarrow> balance_env \<Rightarrow> int \<Rightarrow> bool \<Rightarrow> dispatch_ctx
    \<Rightarrow> ('s router_state, dispatched \<times> dispatch_ctx) act" where
  "routedDispatch env be now hasRouter c = (\<lambda>st.
     let inTag = GetInboundTag (dc_session c) in
     if dc_forced c \<noteq> [] then
       (case GetHandler (dc_forced c) (rs_ohm st) of
          Some h \<Rightarrow> (Inr (hand_over 1 inTag h (c\<lparr>dc_forced := []\<rparr>)), st)
        | None \<Rightarrow> (Inr (Closed, c\<lparr>dc_forced := []\<rparr>), st))
     else if hasRouter then
       (case PickRoute env be now (AsRoutingContext (dc_session c)) st of
          (Inr route, st') \<Rightarrow>
            (case GetHandler (ro_outboundTag route) (rs_ohm st') of
               Some h \<Rightarrow> (Inr (hand_over 2 inTag h c), st')
             | None \<Rightarrow> (Inr (Closed, c), st'))
        | (Inl e, st') \<Rightarrow> if is_panic e then (Inl e, st') else (Inr (default_or_close inTag (rs_ohm st') c), st'))
     else (Inr (default_or_close inTag (rs_ohm st) c), st))"

definition Dispatch :: "'s route_env \<Rightarrow> balance_env \<Rightarrow> int \<Rightarrow> bool \<Rightarrow> (address \<Rightarrow> bool) option \<Rightarrow> sniffing_request
    \<Rightarrow> sniff_result res \<Rightarrow> destination \<Rightarrow> dispatch_ctx \<Rightarrow> ('s router_state, dispatched \<times> dispatch_ctx) act" where
  "Dispatch env be now hasRouter fakePool req sniffed dest c =
     (if \<not> IsValid dest then throw (Panic ''Dispatcher: Invalid destination.'')
      else let s = start_session dest (dc_session c) in
        routedDispatch env be now hasRouter
          (c\<lparr>dc_session := if sn_Enabled req then sniffed_session fakePool req sniffed dest s else s\<rparr>))"

definition DispatchLink :: "'s route_env \<Rightarrow> balance_env \<Rightarrow> int \<Rightarrow> bool \<Rightarrow> (address \<Rightarrow> bool) option \<Rightarrow> sniffing_request
    \<Rightarrow> sniff_result res \<Rightarrow> destination \<Rightarrow> dispatch_ctx \<Rightarrow> ('s router_state, dispatched \<times> dispatch_ctx) act" where
  "DispatchLink env be now hasRouter fakePool req sniffed dest c =
     (if \<not> IsValid dest then throw (Err ''Dispatcher: Invalid destination.'')
      else let s = start_session dest (dc_session c) in
        routedDispatch env be now hasRouter
          (c\<lparr>dc_session := if sn_Enabled req then sniffed_session fakePool req sniffed dest s else s\<rparr>))"

section \<open>Where a connection goes\<close>

lemma handler_tag: "manager_ok m \<Longrightarrow> GetHandler t m = Some h \<Longrightarrow> ha_Tag h = t \<and> t \<noteq> []"
  by (auto simp: manager_ok_def GetHandler_def dest!: map_of_SomeD)

text \<open>C6: 
  The traffic a rule takes goes to the handler with the rule's tag or nowhere; a connection that was forced to
  a tag goes there or nowhere.  Only a connection that no rule takes, or whose balancer has nothing to
  offer, gets the default handler.
\<close>

theorem traffic_follows_rule:
  assumes ok: "manager_ok (rs_ohm st)" and run: "routedDispatch env be now True c st = (Inr (Handled h, c'), st')"
  shows "if dc_forced c \<noteq> [] then ha_Tag h = dc_forced c
    else (case fst (pickRouteInternal env (rs_regs st) (rs_router st) (AsRoutingContext (dc_session c))) of
        Inr r \<Rightarrow> (case ru_Balancer r of
            None \<Rightarrow> ha_Tag h = ru_Tag r
          | Some i \<Rightarrow> (case fst (PickOutbound be (rs_heap st ! i, rs_ohm st)) of
              Inr t \<Rightarrow> ha_Tag h = t
            | Inl e \<Rightarrow> GetDefaultHandler (rs_ohm st) = Some h))
      | Inl e \<Rightarrow> GetDefaultHandler (rs_ohm st) = Some h)"
proof (cases "dc_forced c = []")
  case False
  with run handler_tag [OF ok] show ?thesis
    by (auto simp: routedDispatch_def Let_def hand_over_def split: option.splits)
next
  case True
  obtain x ctx where x: "pickRouteInternal env (rs_regs st) (rs_router st) (AsRoutingContext (dc_session c)) = (x, ctx)" by fastforce
  show ?thesis
  proof (cases x)
    case (Inl e)
    with True x run show ?thesis
      by (auto simp: routedDispatch_def PickRoute_def Let_def default_or_close_def hand_over_def split: if_splits option.splits)
  next
    case (Inr r)
    show ?thesis
    proof (cases "ru_Balancer r")
      case None
      have same: "rs_ohm (fire_hook r s t now st) = rs_ohm st" for s t by (simp add: fire_hook_def split: option.split)
      from True x Inr None run handler_tag [OF ok] show ?thesis
        by (auto simp: routedDispatch_def PickRoute_def rule_GetTag_def andThen_run Let_def hand_over_def same split: option.splits)
    next
      case (Some i)
      obtain y b m where y: "PickOutbound be (rs_heap st ! i, rs_ohm st) = (y, (b, m))" by (metis prod.collapse)
      have m: "m = snd (Select (ba_selectors (rs_heap st ! i)) (rs_ohm st))"
        using y by (auto simp: PickOutbound_def Let_def split: prod.splits)
      have ok': "manager_ok m" unfolding m by (rule Select_ok [OF ok])
      have dflt: "GetDefaultHandler m = GetDefaultHandler (rs_ohm st)"
        unfolding m by (simp add: Select_def GetDefaultHandler_def Let_def split: option.split)
      have same: "rs_ohm (fire_hook r s t now (st\<lparr>rs_heap := hp, rs_ohm := m\<rparr>)) = m" for s t hp
        by (simp add: fire_hook_def split: option.split)
      from True x Inr Some y run handler_tag [OF ok'] show ?thesis
        by (auto simp: routedDispatch_def PickRoute_def rule_GetTag_def andThen_run Let_def hand_over_def default_or_close_def
            dflt same split: option.splits sum.splits if_splits)
    qed
  qed
qed

theorem traffic_follows_rule_witness:
  "\<forall>env be now g. \<exists>h c' st'. routedDispatch env be now True \<lparr>dc_session = sample_session, dc_forced = [], dc_access = None\<rparr>
     (sample_router g) = (Inr (Handled h, c'), st') \<and> ha_Tag h = ''a''"
proof (intro allI)
  fix env :: "'s route_env" and be now and g :: "'s geo_regs"
  let ?c = "\<lparr>dc_session = sample_session, dc_forced = [], dc_access = None\<rparr>" and ?h = "\<lparr>ha_Tag = ''a'', ha_id = 0\<rparr>"
  have ok: "manager_ok (rs_ohm (sample_router g))" by (simp add: sample_router_def manager_ok_def NewManager_def)
  have pick: "fst (pickRouteInternal env (rs_regs (sample_router g)) (rs_router (sample_router g)) (AsRoutingContext sample_session))
     = Inr (in_built ''a'' ''r1'')"
    by (simp add: pickRouteInternal_def sample_router_def in_built_def sample_session_def AsRoutingContext_def GetInboundTag_def
        from_opt_def Let_def or_no_clue_def)
  then obtain ctx where "pickRouteInternal env (rs_regs (sample_router g)) (rs_router (sample_router g)) (AsRoutingContext sample_session)
     = (Inr (in_built ''a'' ''r1''), ctx)" by (metis prod.collapse)
  then obtain c' where run: "routedDispatch env be now True ?c (sample_router g) = (Inr (Handled ?h, c'), sample_router g)"
    by (simp add: routedDispatch_def PickRoute_def rule_GetTag_def fire_hook_def andThen_run Let_def in_built_def hand_over_def
        sample_router_def GetHandler_def)
  from traffic_follows_rule [OF ok run] pick have "ha_Tag ?h = ''a''" by (simp add: in_built_def)
  with run show "\<exists>h c' st'. routedDispatch env be now True ?c (sample_router g) = (Inr (Handled h, c'), st') \<and> ha_Tag h = ''a''"
    by blast
qed

section \<open>The panel reads the line\<close>

lemma shaped_append: "shaped pat s \<Longrightarrow> length s = length pat \<Longrightarrow> shaped pat (s @ r)"
  by (simp add: shaped_def)

lemma match_time_line:
  assumes "shaped date_pattern d" "length d = length date_pattern" "f \<noteq> []" "list_all is_digit f"
  shows "match_time (d @ f @ CHR '' '' # r) = Some (d @ f, CHR '' '' # r)"
proof -
  have "takeWhile is_digit (f @ CHR '' '' # r) = f"
    using assms(4) by (simp add: list_all_iff takeWhile_append is_digit_def)
  with assms shaped_append [OF assms(1,2)] show ?thesis by (simp add: match_time_def Let_def)
qed

lemma match_word_line: "match_word w (CHR '' '' # w @ r) = Some r" if "w \<noteq> []" "\<not> re_space (hd w)"
  using that by (cases w) (auto simp: match_word_def Let_def re_space_def HasPrefix_iff)

lemma match_text_line: "t \<noteq> [] \<Longrightarrow> list_all (\<lambda>c. \<not> re_space c) t \<Longrightarrow> match_text (CHR '' '' # t @ CHR '' '' # r) = Some (t, CHR '' '' # r)"
  by (cases t) (auto simp: match_text_def Let_def re_space_def list_all_iff takeWhile_append)

definition mark_free :: "string \<Rightarrow> bool" where
  "mark_free s \<longleftrightarrow> CHR 0x0A \<notin> set s \<and> (\<forall>k < length s. \<not> HasPrefix (drop k s) ''[inbound-'')"

lemma mark_free_Cons: "mark_free (c # s) \<longleftrightarrow> c \<noteq> CHR 0x0A \<and> \<not> HasPrefix (c # s) ''[inbound-'' \<and> mark_free s"
  by (auto simp: mark_free_def less_Suc_eq_0_disj)

lemma no_prefix_space: "CHR '' '' \<notin> set p \<Longrightarrow> HasPrefix (s @ CHR '' '' # r) p \<Longrightarrow> HasPrefix s p"
proof (induction s arbitrary: p)
  case Nil
  then show ?case by (cases p) (auto simp: HasPrefix_def)
next
  case (Cons c s)
  then show ?case by (cases p) (auto simp: HasPrefix_def)
qed

lemma find_mark_line: "mark_free s \<Longrightarrow> find_mark (s @ '' [inbound-'' @ nat_str p @ '']'' @ r) = Some (nat_str p, r)"
proof (induction s)
  case Nil
  have "takeWhile is_digit (nat_str p @ CHR '']'' # r) = nat_str p"
    using nat_str_digits by (simp add: takeWhile_append is_digit_def)
  moreover have "drop (9 + n) (''[inbound-'' @ x) = drop n x" for n and x :: string
    by (subst drop_append) simp
  moreover have "drop 9 (''[inbound-'' @ x) = x" for x :: string by simp
  moreover have "HasPrefix (''[inbound-'' @ x) ''[inbound-''" "HasPrefix ('']'' @ r) '']''" for x by (simp_all only: HasPrefix_append)
  ultimately have "inbound_mark (''[inbound-'' @ nat_str p @ '']'' @ r) = Some (nat_str p, r)"
    by (simp add: inbound_mark_def Let_def del: append.simps) (simp add: HasPrefix_def)
  moreover have "inbound_mark (CHR '' '' # x) = None" for x by (simp add: inbound_mark_def HasPrefix_def)
  ultimately show ?case by simp
next
  case (Cons c s)
  then have "\<not> HasPrefix ((c # s) @ CHR '' '' # ''[inbound-'' @ nat_str p @ '']'' @ r) ''[inbound-''"
    using no_prefix_space [of "''[inbound-''" "c # s"] by (auto simp: mark_free_Cons)
  then have "inbound_mark ((c # s) @ '' [inbound-'' @ nat_str p @ '']'' @ r) = None" by (simp add: inbound_mark_def)
  with Cons show ?case by (simp add: mark_free_Cons)
qed

text \<open>What follows the tag of the inbound in the line.\<close>

definition access_tail :: "access_message \<Rightarrow> string" where
  "access_tail m = (if am_Detour m \<noteq> [] then '' ['' @ am_Detour m @ '']'' else [])
     @ (if am_Reason m \<noteq> [] then '' '' @ am_Reason m else [])
     @ (if am_Email m \<noteq> [] then '' email: '' @ am_Email m else [])"

lemma first_event:
  assumes time: "shaped date_pattern d" "length d = length date_pattern" "f \<noteq> []" "list_all is_digit f"
    and src: "am_From m \<noteq> []" "list_all (\<lambda>c. \<not> re_space c) (am_From m)"
    and to: "am_To m \<noteq> []" "\<not> re_space (hd (am_To m))" "mark_free (am_To m)"
    and m: "am_Status m = ''accepted''" "am_InboundTag m = ''inbound-'' @ nat_str p"
  shows "all_events (d @ f @ '' '' @ AccessMessage_String m) = (d @ f, am_From m, nat_str p) # all_events (access_tail m)"
proof -
  let ?tail = "am_To m @ '' [inbound-'' @ nat_str p @ '']'' @ access_tail m"
  let ?line = "d @ f @ CHR '' '' # ''from'' @ CHR '' '' # am_From m @ CHR '' '' # ''accepted'' @ CHR '' '' # ?tail"
  have str: "AccessMessage_String m = ''from'' @ CHR '' '' # am_From m @ CHR '' '' # ''accepted'' @ CHR '' '' # ?tail"
    by (simp add: AccessMessage_String_def access_tail_def m)
  have "dropWhile re_space (CHR '' '' # ?tail) = ?tail"
    using to(1,2) by (cases "am_To m") (simp_all add: re_space_def)
  then have ev: "match_event ?line = Some ((d @ f, am_From m, nat_str p), access_tail m)"
    unfolding match_event_def match_time_line [OF time]
    by (simp add: Let_def match_word_line match_text_line [OF src] find_mark_line [OF to(3)] re_space_def
        del: append.simps)
  have "?line \<noteq> []" by simp
  then have "all_events ?line = (d @ f, am_From m, nat_str p) # all_events (access_tail m)"
    using ev by (subst all_events.simps) (auto split: list.split)
  then show ?thesis by (simp add: str)
qed

text \<open>A text without a slash holds no date, so no event.\<close>

lemma no_slash_no_event: "CHR ''/'' \<notin> set s \<Longrightarrow> all_events s = []"
proof (induction s)
  case (Cons c s)
  have "\<not> shaped date_pattern (c # s)"
  proof
    assume sh: "shaped date_pattern (c # s)"
    then have "list_all2 (\<lambda>p c. if p = CHR ''d'' then is_digit c else c = p) date_pattern (take (length date_pattern) (c # s))"
      by (simp add: shaped_def)
    then have "take (length date_pattern) (c # s) ! 4 = CHR ''/''" "4 < length (take (length date_pattern) (c # s))"
      by (auto simp: list_all2_conv_all_nth date_pattern_def nth_Cons' dest: spec [of _ 4] simp del: take_Suc_Cons)
    then have "CHR ''/'' \<in> set (take (length date_pattern) (c # s))" by (metis nth_mem)
    with Cons.prems show False by (meson in_set_takeD)
  qed
  with Cons show ?case by (subst all_events.simps) (simp add: match_event_def match_time_def)
qed (simp add: all_events.simps)

lemma Atoi_nat_str: "in_int64 (int n) \<Longrightarrow> Atoi (nat_str n) = Inr (int n)"
  using Atoi_Itoa [of "int n"] by (simp add: Itoa_def)

text \<open>The source of a connection from an IPv4 address, as an address or as a destination.\<close>

lemma dotted_chars: "c \<in> set (ip_String (V4 [a, b, e, d])) \<Longrightarrow> is_digit c \<or> c = CHR ''.''"
  using nat_str_digits by (auto simp: ip_String_def)

lemma nat_str_ends: "is_digit (hd (nat_str n))" "is_digit (last (nat_str n))"
  using nat_str_digits nat_str_not_Nil hd_in_set last_in_set by metis+

lemma digit_graphic: "is_digit c \<Longrightarrow> graphic c"
  by (auto simp: is_digit_def graphic_def)

lemma dotted_plain:
  assumes "h = ip_String (V4 [a, b, e, d])"
  shows "CHR '':'' \<notin> set h" "CHR ''['' \<notin> set h" "CHR '']'' \<notin> set h" "h \<noteq> []" "graphic (hd h)" "graphic (last h)"
    "hd h \<noteq> CHR ''[''" "h \<noteq> ''localhost''"
proof -
  have ends: "hd h = hd (nat_str a)" "last h = last (nat_str d)" "h \<noteq> []" using assms by (simp_all add: ip_String_def hd_append)
  then have digits: "is_digit (hd h)" "is_digit (last h)" by (simp_all add: nat_str_ends)
  have "\<not> is_digit (CHR ''['')" "\<not> is_digit (CHR ''l'')" by (simp_all add: is_digit_def)
  with digits show "hd h \<noteq> CHR ''[''" "h \<noteq> ''localhost''" by auto
  from digits show "graphic (hd h)" "graphic (last h)" by (simp_all add: digit_graphic)
  show "h \<noteq> []" by (rule ends(3))
  show "CHR '':'' \<notin> set h" "CHR ''['' \<notin> set h" "CHR '']'' \<notin> set h"
    using dotted_chars [of _ a b e d] assms by (fastforce simp: is_digit_def)+
qed

lemma trim_brackets_plain:
  assumes "h \<noteq> []" "graphic (hd h)" "graphic (last h)" "hd h \<notin> set ''[]''" "last h \<notin> set ''[]''"
  shows "trim_brackets h = h"
proof -
  have "dropWhile (\<lambda>c. c \<in> set ''[]'') h = h" using assms(1,4) by (cases h) auto
  moreover have "dropWhile (\<lambda>c. c \<in> set ''[]'') (rev h) = rev h" using assms(1,5) by (cases h rule: rev_cases) auto
  ultimately have "TrimChars h ''[]'' = h" unfolding TrimChars_def by simp
  with TrimSpace_graphic [of h] assms show ?thesis by (simp add: trim_brackets_def)
qed

definition source_form :: "string \<Rightarrow> bool" where
  "source_form pre \<longleftrightarrow> pre = [] \<or> pre = ''tcp:'' \<or> pre = ''udp:''"

lemma drop_networks_plain: "CHR '':'' \<notin> set h \<Longrightarrow> drop_networks h = h"
proof -
  assume "CHR '':'' \<notin> set h"
  then have "takeWhile (\<lambda>c. c \<noteq> CHR '':'') h = h" by (auto simp: takeWhile_eq_all_conv)
  then show ?thesis by (subst drop_networks.simps) (simp add: Let_def del: takeWhile_eq_all_conv)
qed

lemma drop_networks_form:
  assumes "source_form pre" and h: "CHR '':'' \<notin> set h" "h \<noteq> []" "graphic (hd h)" "graphic (last h)"
  shows "drop_networks (pre @ h) = h"
proof -
  have "drop_networks (w @ CHR '':'' # h) = h" if "w = ''tcp'' \<or> w = ''udp''" for w
  proof -
    have "CHR '':'' \<notin> set w" "network_prefix (ToLower (TrimSpace w))"
      using that TrimSpace_graphic [of w] by (auto simp: network_prefix_def graphic_def ToLower_def to_lower_char_def)
    then show ?thesis
      using h TrimSpace_graphic [of h] by (subst drop_networks.simps) (simp add: Let_def takeWhile_append drop_networks_plain)
  qed
  from this [of "''tcp''"] this [of "''udp''"] assms(1) drop_networks_plain [OF h(1)] show ?thesis
    by (auto simp: source_form_def)
qed

lemma normalize_V4:
  assumes h: "h = ip_String (V4 [a, b, e, d])" and oct: "a \<le> 255" "b \<le> 255" "e \<le> 255" "d \<le> 255" and "source_form pre"
  shows "normalizeSourceHost (pre @ h) = h"
proof -
  note plain = dotted_plain [OF h]
  have last: "last h \<notin> set ''[]''" "hd h \<notin> set ''[]''" using plain(2-4) by (auto dest: last_in_set hd_in_set)
  have "trim_brackets (pre @ h) = pre @ h"
    by (rule trim_brackets_plain) (use assms(6) plain last in \<open>auto simp: source_form_def graphic_def\<close>)
  moreover have "trim_brackets h = h" by (rule trim_brackets_plain) (use plain last in auto)
  moreover note drop_networks_form [OF assms(6) plain(1,4-6)] ParseIP_String_V4 [OF oct]
  ultimately show ?thesis by (simp add: normalizeSourceHost_def Let_def h)
qed

lemma SplitHostPort_plain:
  "split_last (CHR '':'') s = Some (front, port) \<Longrightarrow> hd s \<noteq> CHR ''['' \<Longrightarrow> CHR ''['' \<notin> set s \<Longrightarrow> CHR '']'' \<notin> set s
     \<Longrightarrow> SplitHostPort s = (if CHR '':'' \<in> set front then None else Some (front, port))"
  by (simp add: SplitHostPort_def)

lemma endpoint_V4:
  assumes h: "h = ip_String (V4 [a, b, e, d])" and oct: "a \<le> 255" "b \<le> 255" "e \<le> 255" "d \<le> 255"
    and pre: "source_form pre" and q: "in_int64 (int q)"
  shows "splitAccessEndpoint (pre @ h @ '':'' @ nat_str q) = Inr (h, int q)" "isLoopbackAddress h = (a = 127)"
proof -
  note plain = dotted_plain [OF h]
  let ?s = "(pre @ h) @ CHR '':'' # nat_str q"
  have trim: "TrimSpace ?s = ?s"
    by (rule TrimSpace_graphic)
      (use pre plain nat_str_ends digit_graphic in \<open>auto simp: source_form_def graphic_def last_append\<close>)
  have "takeWhile (\<lambda>x. x \<noteq> CHR '':'') (rev ?s) = rev (nat_str q)"
    using dot_not_in_nat_str(2) [of q] by (auto simp: takeWhile_append)
  then have split: "split_last (CHR '':'') ?s = Some (pre @ h, nat_str q)" by (simp add: split_last_def Let_def)
  have "\<not> is_digit (CHR ''['')" "\<not> is_digit (CHR '']'')" by (simp_all add: is_digit_def)
  then have "CHR ''['' \<notin> set ?s" "CHR '']'' \<notin> set ?s" "hd ?s \<noteq> CHR ''[''"
    using plain pre nat_str_digits [of _ q] by (auto simp: source_form_def)
  then have "SplitHostPort ?s = (if CHR '':'' \<in> set (pre @ h) then None else Some (pre @ h, nat_str q))"
    using SplitHostPort_plain [OF split] by blast
  then show "splitAccessEndpoint (pre @ h @ '':'' @ nat_str q) = Inr (h, int q)"
    using trim split plain(4) normalize_V4 [OF h oct pre] Atoi_nat_str [OF q]
    by (simp add: splitAccessEndpoint_def Let_def)
  have "normalizeSourceHost h = h" using normalize_V4 [OF h oct, of "[]"] by (simp add: source_form_def)
  then show "isLoopbackAddress h = (a = 127)"
    using plain ParseIP_String_V4 [OF oct] by (simp add: isLoopbackAddress_def Let_def h IsLoopback_def)
qed


definition sample_access :: "string \<Rightarrow> string \<Rightarrow> access_message" where
  "sample_access src email = \<lparr>am_From = src, am_To = ''tcp:[::1]:80'', am_Status = ''accepted'', am_Reason = [], am_Email = email,
    am_Detour = ''inbound-443 -> direct'', am_InboundTag = ''inbound-443''\<rparr>"

definition utc :: "int \<Rightarrow> int \<times> int \<times> int" where
  "utc u = (0, 0, 0)"

lemma sample_nat_str: "nat_str 443 = ''443''"
  by code_simp

lemma sample_endpoint: "splitAccessEndpoint ''tcp:1.2.3.4:5'' = Inr (''1.2.3.4'', 5)" "\<not> isLoopbackAddress ''1.2.3.4''"
proof -
  have h: "''1.2.3.4'' = ip_String (V4 [1, 2, 3, 4])" and q: "nat_str 5 = ''5''" by code_simp+
  have "splitAccessEndpoint (''tcp:'' @ ''1.2.3.4'' @ '':'' @ nat_str 5) = Inr (''1.2.3.4'', int 5)"
    by (rule endpoint_V4 [OF h]) (simp_all add: source_form_def in_int64_def max_int64_def min_int64_def)
  then show "splitAccessEndpoint ''tcp:1.2.3.4:5'' = Inr (''1.2.3.4'', 5)" by (simp add: q)
  have "isLoopbackAddress ''1.2.3.4'' = ((1::nat) = 127)"
    by (rule endpoint_V4 [OF h, of "[]" 5]) (simp_all add: source_form_def in_int64_def max_int64_def min_int64_def)
  then show "\<not> isLoopbackAddress ''1.2.3.4''" by simp
qed


text \<open>An email that looks like a line of the log is read in place of the line: another source, another inbound.\<close>

lemma forged_email:
  "parseAccessIPLine utc (''2024/05/06 07:08:09.123456 '' @ AccessMessage_String
       (sample_access ''tcp:1.2.3.4:5'' ''2024/05/06 00:00:00.000000 from 9.9.9.9:1 accepted x [inbound-80]''))
     = Some \<lparr>ev_SourceIP = ''9.9.9.9'', ev_Port = 80, ev_SeenAt = 1714953600\<rparr>"
  by code_simp

end
