(* ===== verification/Xray_Webhook_Threads.thy ===== *)
theory Xray_Webhook_Threads
  imports Xray_Webhook "HOL-Library.Multiset"
begin

text \<open>
  The calls of \<open>WebhookNotifier.Fire\<close> that run at the same time as each other, as the goroutine of \<open>cleanupLoop\<close> and
  as \<open>Close\<close> (src/xray-core/app/router/webhook.go).  A move is one access to the shared state: the map
  \<open>seen\<close>, a \<open>sync.Map\<close>, the channel \<open>done\<close> or the clock.  \<open>isDuplicate\<close> looks (\<open>LoadOrStore\<close>) and stores
  in two moves, and the clean-up reads an entry and deletes its key in two moves, so that the moves of other calls may come
  in between.  \<open>Fire\<close> and \<open>cleanup_tick\<close> of \<open>Xray_Webhook\<close> are the runs that nothing interrupts.
\<close>

section \<open>The moves\<close>

text \<open>
  How an event passed \<open>isDuplicate\<close>: it was not asked for its email, its email was not in the map, or the entry of its
  email, with the given time, was too old.
\<close>

datatype passed_by = Unasked | First | Again int

text \<open>
  A call of \<open>Fire\<close>: the event is built; \<open>isDuplicate\<close> has read the clock; the entry that it loaded is too old and is to
  be replaced; the event passed; and the three ends of a call: posted, closed before the post, a duplicate.
\<close>

datatype fire_pc =
    Called event
  | Asking event int
  | Replacing event int int
  | Passed passed_by event int
  | Posted passed_by event int
  | Dropped passed_by event int
  | Suppressed event int

text \<open>The goroutine of the clean-up: waiting, ranging over the map with the time it read and the keys it visited, about to delete a key, or ended.\<close>

datatype cleaner_pc =
    Waiting
  | Ranging int "string list"
  | Deleting int string int "string list"
  | Ended

text \<open>\<open>hr_deleted\<close> remembers the deletions: the key, the time of the range and the time that the entry had when it was visited.\<close>

record hook_run =
  hr_hook :: notifier
  hr_clock :: int
  hr_fires :: "fire_pc list"
  hr_cleaner :: cleaner_pc
  hr_deleted :: "(string \<times> int \<times> int) list"

datatype hook_move =
    Elapse nat
  | MCall session_ctx string
  | MAsk nat
  | MLoadOrStore nat
  | MStore nat
  | MPost nat
  | MTick
  | MVisit string
  | MDelete
  | MRangeEnd
  | MStop
  | MClose

definition event_email :: "event \<Rightarrow> string" where
  "event_email ev = (case ev_Email ev of None \<Rightarrow> [] | Some e \<Rightarrow> e)"

definition set_fire :: "nat \<Rightarrow> fire_pc \<Rightarrow> hook_run \<Rightarrow> hook_run" where
  "set_fire i p r = r\<lparr>hr_fires := (hr_fires r)[i := p]\<rparr>"

definition set_seen :: "string \<Rightarrow> int \<Rightarrow> hook_run \<Rightarrow> hook_run" where
  "set_seen e now r = r\<lparr>hr_hook := hr_hook r\<lparr>wn_seen := AList.update e now (wn_seen (hr_hook r))\<rparr>\<rparr>"

definition fire_at :: "nat \<Rightarrow> hook_run \<Rightarrow> fire_pc option" where
  "fire_at i r = (if i < length (hr_fires r) then Some (hr_fires r ! i) else None)"

text \<open>The first lines of \<open>isDuplicate\<close>.\<close>

definition ask :: "nat \<Rightarrow> hook_run \<Rightarrow> hook_run" where
  "ask i r = (case fire_at i r of
       Some (Called ev) \<Rightarrow>
         if wn_deduplication (hr_hook r) = 0 \<or> event_email ev = [] then set_fire i (Passed Unasked ev (hr_clock r)) r
         else set_fire i (Asking ev (hr_clock r)) r
     | _ \<Rightarrow> r)"

definition loadOrStore :: "nat \<Rightarrow> hook_run \<Rightarrow> hook_run" where
  "loadOrStore i r = (case fire_at i r of
       Some (Asking ev now) \<Rightarrow>
         (case map_of (wn_seen (hr_hook r)) (event_email ev) of
            None \<Rightarrow> set_fire i (Passed First ev now) (set_seen (event_email ev) now r)
          | Some v \<Rightarrow>
              if now - v < hook_ttl (hr_hook r) then set_fire i (Suppressed ev now) r
              else set_fire i (Replacing ev now v) r)
     | _ \<Rightarrow> r)"

definition storeAgain :: "nat \<Rightarrow> hook_run \<Rightarrow> hook_run" where
  "storeAgain i r = (case fire_at i r of
       Some (Replacing ev now v) \<Rightarrow> set_fire i (Passed (Again v) ev now) (set_seen (event_email ev) now r)
     | _ \<Rightarrow> r)"

text \<open>The rest of \<open>Fire\<close>.\<close>

definition postOrDrop :: "nat \<Rightarrow> hook_run \<Rightarrow> hook_run" where
  "postOrDrop i r = (case fire_at i r of
       Some (Passed how ev now) \<Rightarrow>
         if wn_done (hr_hook r) then set_fire i (Dropped how ev now) r
         else set_fire i (Posted how ev now) (r\<lparr>hr_hook := hr_hook r\<lparr>wn_posted := wn_posted (hr_hook r) @ [(now, ev)]\<rparr>\<rparr>)
     | _ \<Rightarrow> r)"

text \<open>
  \<open>Range\<close> of a \<open>sync.Map\<close> visits no key twice, and what is stored meanwhile may or may not be visited.
\<close>

definition visit_key :: "string \<Rightarrow> hook_run \<Rightarrow> hook_run" where
  "visit_key k r = (case hr_cleaner r of
       Ranging now visited \<Rightarrow>
         (if k \<in> set visited then r
          else case map_of (wn_seen (hr_hook r)) k of
              None \<Rightarrow> r
            | Some v \<Rightarrow>
                if hook_ttl (hr_hook r) \<le> now - v then r\<lparr>hr_cleaner := Deleting now k v (k # visited)\<rparr>
                else r\<lparr>hr_cleaner := Ranging now (k # visited)\<rparr>)
     | _ \<Rightarrow> r)"

definition delete_key :: "hook_run \<Rightarrow> hook_run" where
  "delete_key r = (case hr_cleaner r of
       Deleting now k v visited \<Rightarrow>
         r\<lparr>hr_hook := hr_hook r\<lparr>wn_seen := AList.delete k (wn_seen (hr_hook r))\<rparr>,
           hr_cleaner := Ranging now visited, hr_deleted := (k, now, v) # hr_deleted r\<rparr>
     | _ \<Rightarrow> r)"

definition range_end :: "hook_run \<Rightarrow> hook_run" where
  "range_end r = (case hr_cleaner r of Ranging now visited \<Rightarrow> r\<lparr>hr_cleaner := Waiting\<rparr> | _ \<Rightarrow> r)"

text \<open>The \<open>select\<close> of \<open>cleanupLoop\<close>; with the notifier closed and a tick waiting it takes one of the two.\<close>

definition cleaner_tick :: "hook_run \<Rightarrow> hook_run" where
  "cleaner_tick r = (if hr_cleaner r = Waiting then r\<lparr>hr_cleaner := Ranging (hr_clock r) []\<rparr> else r)"

definition cleaner_stop :: "hook_run \<Rightarrow> hook_run" where
  "cleaner_stop r = (if hr_cleaner r = Waiting \<and> wn_done (hr_hook r) then r\<lparr>hr_cleaner := Ended\<rparr> else r)"

text \<open>A move that is not possible in a state leaves the state as it is.\<close>

fun do_move :: "hook_move \<Rightarrow> hook_run \<Rightarrow> hook_run" where
  "do_move (Elapse d) r = r\<lparr>hr_clock := hr_clock r + int d\<rparr>"
| "do_move (MCall s tag) r = r\<lparr>hr_fires := hr_fires r @ [Called (buildEvent s tag (hr_clock r))]\<rparr>"
| "do_move (MAsk i) r = ask i r"
| "do_move (MLoadOrStore i) r = loadOrStore i r"
| "do_move (MStore i) r = storeAgain i r"
| "do_move (MPost i) r = postOrDrop i r"
| "do_move MTick r = cleaner_tick r"
| "do_move (MVisit k) r = visit_key k r"
| "do_move MDelete r = delete_key r"
| "do_move MRangeEnd r = range_end r"
| "do_move MStop r = cleaner_stop r"
| "do_move MClose r = r\<lparr>hr_hook := hook_Close (hr_hook r)\<rparr>"

definition hook_start :: "int \<Rightarrow> notifier \<Rightarrow> hook_run" where
  "hook_start now h = \<lparr>hr_hook = h, hr_clock = now, hr_fires = [],
     hr_cleaner = (if 0 < wn_deduplication h then Waiting else Ended), hr_deleted = []\<rparr>"

section \<open>What passed\<close>

text \<open>An event that \<open>isDuplicate\<close> let through, and the time that it stored for its email.\<close>

fun passed_time :: "fire_pc \<Rightarrow> (passed_by \<times> event \<times> int) option" where
  "passed_time (Passed how ev now) = Some (how, ev, now)"
| "passed_time (Posted how ev now) = Some (how, ev, now)"
| "passed_time (Dropped how ev now) = Some (how, ev, now)"
| "passed_time _ = None"

definition stored_by :: "string \<Rightarrow> int \<Rightarrow> fire_pc \<Rightarrow> bool" where
  "stored_by e v p = (case passed_time p of Some (how, ev, now) \<Rightarrow> how \<noteq> Unasked \<and> event_email ev = e \<and> now = v | None \<Rightarrow> False)"

definition first_of :: "string \<Rightarrow> fire_pc \<Rightarrow> bool" where
  "first_of e p = (case passed_time p of Some (how, ev, now) \<Rightarrow> how = First \<and> event_email ev = e | None \<Rightarrow> False)"

definition passed_at :: "fire_pc list \<Rightarrow> string \<Rightarrow> int \<Rightarrow> bool" where
  "passed_at ps e v \<longleftrightarrow> list_ex (stored_by e v) ps"

definition first_passes :: "string \<Rightarrow> fire_pc list \<Rightarrow> nat" where
  "first_passes e ps = length (filter (first_of e) ps)"

definition deletions :: "string \<Rightarrow> (string \<times> int \<times> int) list \<Rightarrow> nat" where
  "deletions e ds = length (filter (\<lambda>(k, now, v). k = e) ds)"

fun posted_event :: "fire_pc \<Rightarrow> (int \<times> event) option" where
  "posted_event (Posted how ev now) = Some (now, ev)"
| "posted_event _ = None"

lemma fire_at_Some: "fire_at i r = Some p \<longleftrightarrow> i < length (hr_fires r) \<and> hr_fires r ! i = p"
  by (auto simp: fire_at_def)

lemma filter_update:
  "i < length ps \<Longrightarrow> \<not> P (ps ! i) \<Longrightarrow> length (filter P (ps[i := p])) = length (filter P ps) + (if P p then 1 else 0)"
  by (induction ps arbitrary: i) (auto split: nat.splits)

lemma filter_update_same:
  "i < length ps \<Longrightarrow> P (ps ! i) = P p \<Longrightarrow> length (filter P (ps[i := p])) = length (filter P ps)"
  by (induction ps arbitrary: i) (auto split: nat.splits)

lemma map_filter_update:
  "i < length ps \<Longrightarrow> f (ps ! i) = None
     \<Longrightarrow> mset (List.map_filter f (ps[i := p])) = mset (List.map_filter f ps) + (case f p of None \<Rightarrow> {#} | Some x \<Rightarrow> {#x#})"
proof (induction ps arbitrary: i)
  case (Cons a ps)
  then show ?case by (cases i) (auto simp: List.map_filter_simps split: option.splits)
qed simp

lemma list_ex_update:
  "i < length ps \<Longrightarrow> \<not> P (ps ! i) \<or> P p \<Longrightarrow> list_ex P ps \<Longrightarrow> list_ex P (ps[i := p])"
  by (induction ps arbitrary: i) (auto split: nat.splits)

section \<open>The invariant\<close>

definition was_asked :: "notifier \<Rightarrow> event \<Rightarrow> bool" where
  "was_asked h ev \<longleftrightarrow> wn_deduplication h \<noteq> 0 \<and> event_email ev \<noteq> []"

definition time_ok :: "int \<Rightarrow> hook_run \<Rightarrow> int \<Rightarrow> bool" where
  "time_ok t0 r now \<longleftrightarrow> t0 \<le> now \<and> now \<le> hr_clock r"

definition expired :: "hook_run \<Rightarrow> string \<Rightarrow> int \<Rightarrow> int \<Rightarrow> bool" where
  "expired r e v now \<longleftrightarrow> hook_ttl (hr_hook r) \<le> now - v \<and> passed_at (hr_fires r) e v"

fun how_ok :: "hook_run \<Rightarrow> event \<Rightarrow> int \<Rightarrow> passed_by \<Rightarrow> bool" where
  "how_ok r ev now Unasked = (\<not> was_asked (hr_hook r) ev)"
| "how_ok r ev now First = was_asked (hr_hook r) ev"
| "how_ok r ev now (Again v) = (was_asked (hr_hook r) ev \<and> expired r (event_email ev) v now)"

fun pc_ok :: "int \<Rightarrow> hook_run \<Rightarrow> fire_pc \<Rightarrow> bool" where
  "pc_ok t0 r (Called ev) = True"
| "pc_ok t0 r (Asking ev now) = (was_asked (hr_hook r) ev \<and> time_ok t0 r now)"
| "pc_ok t0 r (Replacing ev now v) = (was_asked (hr_hook r) ev \<and> time_ok t0 r now \<and> expired r (event_email ev) v now)"
| "pc_ok t0 r (Passed how ev now) = (time_ok t0 r now \<and> how_ok r ev now how)"
| "pc_ok t0 r (Posted how ev now) = (time_ok t0 r now \<and> how_ok r ev now how)"
| "pc_ok t0 r (Dropped how ev now) = (time_ok t0 r now \<and> how_ok r ev now how \<and> wn_done (hr_hook r))"
| "pc_ok t0 r (Suppressed ev now) = (was_asked (hr_hook r) ev \<and> time_ok t0 r now
     \<and> (\<exists>v. passed_at (hr_fires r) (event_email ev) v \<and> now - v < hook_ttl (hr_hook r)))"

fun cleaner_ok :: "hook_run \<Rightarrow> cleaner_pc \<Rightarrow> bool" where
  "cleaner_ok r (Ranging now ks) = (now \<le> hr_clock r)"
| "cleaner_ok r (Deleting now k v ks) = (now \<le> hr_clock r \<and> expired r k v now)"
| "cleaner_ok r _ = True"

definition first_ok :: "hook_run \<Rightarrow> bool" where
  "first_ok r \<longleftrightarrow> (\<forall>e. first_passes e (hr_fires r)
     \<le> deletions e (hr_deleted r) + (if map_of (wn_seen (hr_hook r)) e = None then 0 else 1))"

definition run_ok :: "int \<Rightarrow> hook_run \<Rightarrow> bool" where
  "run_ok t0 r \<longleftrightarrow> t0 \<le> hr_clock r
     \<and> (\<forall>p \<in> set (hr_fires r). pc_ok t0 r p)
     \<and> (\<forall>k v. map_of (wn_seen (hr_hook r)) k = Some v \<longrightarrow> passed_at (hr_fires r) k v)
     \<and> cleaner_ok r (hr_cleaner r)
     \<and> (\<forall>(k, now, v) \<in> set (hr_deleted r). now \<le> hr_clock r \<and> expired r k v now)
     \<and> first_ok r
     \<and> mset (wn_posted (hr_hook r)) = mset (List.map_filter posted_event (hr_fires r))"

text \<open>What holds of an event, of the clean-up and of a deletion goes on holding while the clock goes on and more events pass.\<close>

definition run_extends :: "hook_run \<Rightarrow> hook_run \<Rightarrow> bool" where
  "run_extends r r' \<longleftrightarrow> wn_deduplication (hr_hook r') = wn_deduplication (hr_hook r) \<and> hr_clock r \<le> hr_clock r'
     \<and> (wn_done (hr_hook r) \<longrightarrow> wn_done (hr_hook r')) \<and> (\<forall>e v. passed_at (hr_fires r) e v \<longrightarrow> passed_at (hr_fires r') e v)"

lemma ttl_extends: "run_extends r r' \<Longrightarrow> hook_ttl (hr_hook r') = hook_ttl (hr_hook r)"
  by (simp add: run_extends_def hook_ttl_def)

lemma asked_extends: "run_extends r r' \<Longrightarrow> was_asked (hr_hook r') ev = was_asked (hr_hook r) ev"
  by (simp add: run_extends_def was_asked_def)

lemma expired_extends: "expired r e v now \<Longrightarrow> run_extends r r' \<Longrightarrow> expired r' e v now"
  by (auto simp: expired_def ttl_extends) (simp add: run_extends_def)

lemma time_extends: "time_ok t0 r now \<Longrightarrow> run_extends r r' \<Longrightarrow> time_ok t0 r' now"
  by (auto simp: run_extends_def time_ok_def)

lemma how_extends: "how_ok r ev now how \<Longrightarrow> run_extends r r' \<Longrightarrow> how_ok r' ev now how"
  by (cases how) (auto simp: asked_extends expired_extends)

lemma pc_extends: "pc_ok t0 r p \<Longrightarrow> run_extends r r' \<Longrightarrow> pc_ok t0 r' p"
  by (cases p) (auto simp: asked_extends expired_extends time_extends how_extends ttl_extends, auto simp: run_extends_def)

lemma cleaner_extends: "cleaner_ok r c \<Longrightarrow> run_extends r r' \<Longrightarrow> cleaner_ok r' c"
  by (cases c) (auto simp: expired_extends, auto simp: run_extends_def)

lemma run_okI:
  assumes ok: "run_ok t0 r" and ext: "run_extends r r'"
    and fires: "\<forall>p \<in> set (hr_fires r'). p \<in> set (hr_fires r) \<or> pc_ok t0 r' p"
    and seen: "\<forall>k v. map_of (wn_seen (hr_hook r')) k = Some v
      \<longrightarrow> map_of (wn_seen (hr_hook r)) k = Some v \<or> passed_at (hr_fires r') k v"
    and cleaner: "hr_cleaner r' = hr_cleaner r \<or> cleaner_ok r' (hr_cleaner r')"
    and deleted: "\<forall>(k, now, v) \<in> set (hr_deleted r'). (k, now, v) \<in> set (hr_deleted r) \<or> now \<le> hr_clock r' \<and> expired r' k v now"
    and first: "first_ok r'"
    and posted: "mset (wn_posted (hr_hook r')) = mset (List.map_filter posted_event (hr_fires r'))"
  shows "run_ok t0 r'"
proof -
  have "t0 \<le> hr_clock r'" using ok ext by (simp add: run_ok_def run_extends_def)
  moreover have "pc_ok t0 r' p" if "p \<in> set (hr_fires r')" for p
    using fires that ok ext by (auto simp: run_ok_def intro: pc_extends)
  moreover have "passed_at (hr_fires r') k v" if "map_of (wn_seen (hr_hook r')) k = Some v" for k v
    using seen that ok ext by (metis run_ok_def run_extends_def)
  moreover have "cleaner_ok r' (hr_cleaner r')"
    using cleaner ok ext by (metis run_ok_def cleaner_extends)
  moreover have "now \<le> hr_clock r' \<and> expired r' k v now" if "(k, now, v) \<in> set (hr_deleted r')" for k now v
  proof (cases "(k, now, v) \<in> set (hr_deleted r)")
    case True
    then have "now \<le> hr_clock r" "expired r k v now" using ok unfolding run_ok_def by auto
    then show ?thesis using ext expired_extends by (auto simp: run_extends_def)
  qed (use that deleted in auto)
  ultimately show ?thesis using first posted unfolding run_ok_def by auto
qed

lemma run_ok_parts:
  assumes "run_ok t0 r"
  shows "t0 \<le> hr_clock r" "p \<in> set (hr_fires r) \<Longrightarrow> pc_ok t0 r p"
    "map_of (wn_seen (hr_hook r)) k = Some v \<Longrightarrow> passed_at (hr_fires r) k v"
    "cleaner_ok r (hr_cleaner r)" "first_ok r"
    "mset (wn_posted (hr_hook r)) = mset (List.map_filter posted_event (hr_fires r))"
  using assms unfolding run_ok_def by auto

lemma run_ok_deleted:
  "run_ok t0 r \<Longrightarrow> (k, now, v) \<in> set (hr_deleted r) \<Longrightarrow> now \<le> hr_clock r \<and> expired r k v now"
  unfolding run_ok_def by auto

lemma passed_update:
  "i < length ps \<Longrightarrow> passed_time (ps ! i) = None \<or> passed_time (ps ! i) = passed_time p
     \<Longrightarrow> passed_at ps e v \<Longrightarrow> passed_at (ps[i := p]) e v"
  unfolding passed_at_def by (rule list_ex_update) (auto simp: stored_by_def)

text \<open>A move of a call of \<open>Fire\<close> that neither looks at the map nor posts.\<close>

lemma set_fire_ok:
  assumes "run_ok t0 r" and at: "fire_at i r = Some q" "\<And>e. first_of e p = first_of e q" "posted_event p = None" "posted_event q = None"
    and pass: "passed_time q = None \<or> passed_time q = passed_time p" and ok: "pc_ok t0 (set_fire i p r) p"
  shows "run_ok t0 (set_fire i p r)"
proof -
  have i: "i < length (hr_fires r)" "hr_fires r ! i = q" using at(1) by (simp_all add: fire_at_Some)
  have ext: "run_extends r (set_fire i p r)"
    using passed_update [OF i(1)] i(2) pass by (auto simp: run_extends_def set_fire_def)
  show ?thesis
  proof (rule run_okI [OF assms(1) ext])
    show "\<forall>p' \<in> set (hr_fires (set_fire i p r)). p' \<in> set (hr_fires r) \<or> pc_ok t0 (set_fire i p r) p'"
    proof
      fix p' assume "p' \<in> set (hr_fires (set_fire i p r))"
      then have "p' \<in> insert p (set (hr_fires r))" using set_update_subset_insert by (fastforce simp: set_fire_def)
      with ok show "p' \<in> set (hr_fires r) \<or> pc_ok t0 (set_fire i p r) p'" by auto
    qed
    show "first_ok (set_fire i p r)"
      using run_ok_parts(5) [OF assms(1)] i at(2)
      by (simp add: first_ok_def set_fire_def first_passes_def filter_update_same)
    show "mset (wn_posted (hr_hook (set_fire i p r))) = mset (List.map_filter posted_event (hr_fires (set_fire i p r)))"
      using run_ok_parts(6) [OF assms(1)] i at(3,4) by (simp add: set_fire_def map_filter_update)
  qed (auto simp: set_fire_def)
qed

lemma fires_set [simp]: "hr_fires (set_fire i p r) = (hr_fires r)[i := p]" "hr_fires (set_seen e now r) = hr_fires r"
  "hr_hook (set_fire i p r) = hr_hook r" "hr_clock (set_fire i p r) = hr_clock r" "hr_clock (set_seen e now r) = hr_clock r"
  "hr_cleaner (set_fire i p r) = hr_cleaner r" "hr_cleaner (set_seen e now r) = hr_cleaner r"
  "hr_deleted (set_fire i p r) = hr_deleted r" "hr_deleted (set_seen e now r) = hr_deleted r"
  "hr_hook (set_seen e now r) = hr_hook r\<lparr>wn_seen := AList.update e now (wn_seen (hr_hook r))\<rparr>"
  by (simp_all add: set_fire_def set_seen_def)

lemma set_update_cases: "p' \<in> set (ps[i := p]) \<Longrightarrow> p' \<in> set ps \<or> p' = p"
  using set_update_subset_insert by fastforce

text \<open>A store of the time of an event.\<close>

lemma store_ok:
  assumes ok: "run_ok t0 r" and at: "fire_at i r = Some q" "passed_time q = None" "posted_event q = None"
    and ev: "was_asked (hr_hook r) ev" "time_ok t0 r now" "how_ok r ev now how"
    and how: "how = First \<and> map_of (wn_seen (hr_hook r)) (event_email ev) = None \<or> (\<exists>v. how = Again v)"
  shows "run_ok t0 (set_fire i (Passed how ev now) (set_seen (event_email ev) now r))"
proof -
  let ?e = "event_email ev" and ?p = "Passed how ev now"
  let ?r' = "set_fire i ?p (set_seen ?e now r)"
  have i: "i < length (hr_fires r)" "hr_fires r ! i = q" using at(1) by (simp_all add: fire_at_Some)
  have ext: "run_extends r ?r'" using passed_update [OF i(1)] i(2) at(2) by (simp add: run_extends_def)
  have pc: "pc_ok t0 ?r' ?p"
    unfolding pc_ok.simps by (rule conjI [OF time_extends [OF ev(2) ext] how_extends [OF ev(3) ext]])
  have new: "passed_at (hr_fires ?r') ?e now"
    unfolding passed_at_def list_ex_iff fires_set
    by (rule bexI [OF _ set_update_memI [OF i(1)]]) (use how in \<open>auto simp: stored_by_def\<close>)
  show ?thesis
  proof (rule run_okI [OF ok ext])
    show "\<forall>p' \<in> set (hr_fires ?r'). p' \<in> set (hr_fires r) \<or> pc_ok t0 ?r' p'"
    proof
      fix p' assume "p' \<in> set (hr_fires ?r')"
      then have "p' \<in> set (hr_fires r) \<or> p' = ?p" by (auto dest: set_update_cases)
      with pc show "p' \<in> set (hr_fires r) \<or> pc_ok t0 ?r' p'" by blast
    qed
    show "\<forall>k v. map_of (wn_seen (hr_hook ?r')) k = Some v \<longrightarrow> map_of (wn_seen (hr_hook r)) k = Some v \<or> passed_at (hr_fires ?r') k v"
      using new by (auto simp: update_conv simp del: map_of_eq_Some_iff split: if_splits)
    show "first_ok ?r'"
      unfolding first_ok_def
    proof
      fix e
      have "first_passes e (hr_fires ?r') = first_passes e (hr_fires r) + (if how = First \<and> ?e = e then 1 else 0)"
        using i at(2) by (simp add: first_passes_def filter_update first_of_def)
      then show "first_passes e (hr_fires ?r')
          \<le> deletions e (hr_deleted ?r') + (if map_of (wn_seen (hr_hook ?r')) e = None then 0 else 1)"
        using run_ok_parts(5) [OF ok] how unfolding first_ok_def
        by (auto simp: update_conv dest: spec [of _ e] split: if_splits)
    qed
    show "mset (wn_posted (hr_hook ?r')) = mset (List.map_filter posted_event (hr_fires ?r'))"
      using run_ok_parts(6) [OF ok] i at(3) by (simp add: map_filter_update)
  qed auto
qed

lemma ask_ok: "run_ok t0 r \<Longrightarrow> run_ok t0 (ask i r)"
  unfolding ask_def
  by (auto split: option.split fire_pc.split intro!: set_fire_ok simp: first_of_def was_asked_def time_ok_def run_ok_parts)

lemma at_ok: "run_ok t0 r \<Longrightarrow> fire_at i r = Some p \<Longrightarrow> pc_ok t0 r p"
  using run_ok_parts(2) by (auto simp: fire_at_Some)

lemma loadOrStore_ok:
  assumes ok: "run_ok t0 r"
  shows "run_ok t0 (loadOrStore i r)"
proof (cases "\<exists>ev now. fire_at i r = Some (Asking ev now)")
  case True
  then obtain ev now where at: "fire_at i r = Some (Asking ev now)" by blast
  then have ev: "was_asked (hr_hook r) ev" "time_ok t0 r now" using at_ok [OF ok at] by simp_all
  show ?thesis
  proof (cases "map_of (wn_seen (hr_hook r)) (event_email ev)")
    case None
    with at ev store_ok [OF ok at, of ev now First] show ?thesis by (simp add: loadOrStore_def)
  next
    case (Some v)
    have ps: "passed_at (hr_fires r) (event_email ev) v" using run_ok_parts(3) [OF ok Some] .
    then have ps': "passed_at ((hr_fires r)[i := p]) (event_email ev) v" for p
      using at by (intro passed_update) (auto simp: fire_at_Some)
    show ?thesis
      using at ev Some ps' unfolding loadOrStore_def
      by (auto intro!: set_fire_ok [OF ok at] simp: first_of_def time_ok_def expired_def) blast
  qed
next
  case False
  then have "loadOrStore i r = r" by (auto simp: loadOrStore_def split: option.split fire_pc.split)
  with ok show ?thesis by simp
qed

lemma storeAgain_ok:
  assumes ok: "run_ok t0 r"
  shows "run_ok t0 (storeAgain i r)"
proof (cases "\<exists>ev now v. fire_at i r = Some (Replacing ev now v)")
  case True
  then obtain ev now v where at: "fire_at i r = Some (Replacing ev now v)" by blast
  with at_ok [OF ok at] store_ok [OF ok at, of ev now "Again v"] show ?thesis by (simp add: storeAgain_def)
next
  case False
  then have "storeAgain i r = r" by (auto simp: storeAgain_def split: option.split fire_pc.split)
  with ok show ?thesis by simp
qed

lemma post_move_ok:
  assumes ok: "run_ok t0 r"
  shows "run_ok t0 (postOrDrop i r)"
proof (cases "\<exists>how ev now. fire_at i r = Some (Passed how ev now)")
  case True
  then obtain how ev now where at: "fire_at i r = Some (Passed how ev now)" by blast
  then have i: "i < length (hr_fires r)" "hr_fires r ! i = Passed how ev now" by (simp_all add: fire_at_Some)
  note pc = at_ok [OF ok at, simplified]
  show ?thesis
  proof (cases "wn_done (hr_hook r)")
    case True
    have "run_extends r (set_fire i (Dropped how ev now) r)" using i by (simp add: run_extends_def passed_update)
    with pc True have "pc_ok t0 (set_fire i (Dropped how ev now) r) (Dropped how ev now)"
      by (auto intro: how_extends time_extends)
    then have "run_ok t0 (set_fire i (Dropped how ev now) r)"
      by (intro set_fire_ok [OF ok at]) (simp_all add: first_of_def)
    with at True show ?thesis by (simp add: postOrDrop_def)
  next
    case False
    let ?r' = "postOrDrop i r"
    have r': "?r' = set_fire i (Posted how ev now) (r\<lparr>hr_hook := hr_hook r\<lparr>wn_posted := wn_posted (hr_hook r) @ [(now, ev)]\<rparr>\<rparr>)"
      using at False by (simp add: postOrDrop_def)
    have ext: "run_extends r ?r'" using i by (simp add: r' run_extends_def passed_update)
    show ?thesis
    proof (rule run_okI [OF ok ext])
      show "\<forall>p' \<in> set (hr_fires ?r'). p' \<in> set (hr_fires r) \<or> pc_ok t0 ?r' p'"
      proof
        fix p' assume "p' \<in> set (hr_fires ?r')"
        then have "p' \<in> set (hr_fires r) \<or> p' = Posted how ev now" by (auto simp: r' dest: set_update_cases)
        with pc ext show "p' \<in> set (hr_fires r) \<or> pc_ok t0 ?r' p'" by (auto intro: how_extends time_extends)
      qed
      show "first_ok ?r'"
        using run_ok_parts(5) [OF ok] i by (simp add: first_ok_def r' first_passes_def filter_update_same first_of_def)
      show "mset (wn_posted (hr_hook ?r')) = mset (List.map_filter posted_event (hr_fires ?r'))"
        using run_ok_parts(6) [OF ok] i by (simp add: r' map_filter_update)
    qed (simp_all add: r' fun_eq_iff split_beta)
  qed
next
  case False
  then have "postOrDrop i r = r" by (auto simp: postOrDrop_def split: option.split fire_pc.split)
  with ok show ?thesis by simp
qed

lemma frame_ok:
  assumes ok: "run_ok t0 r" and "hr_fires r' = hr_fires r" "hr_deleted r' = hr_deleted r" "hr_clock r \<le> hr_clock r'"
    "wn_deduplication (hr_hook r') = wn_deduplication (hr_hook r)" "wn_seen (hr_hook r') = wn_seen (hr_hook r)"
    "wn_posted (hr_hook r') = wn_posted (hr_hook r)" "wn_done (hr_hook r) \<longrightarrow> wn_done (hr_hook r')"
    "hr_cleaner r' = hr_cleaner r \<or> cleaner_ok r' (hr_cleaner r')"
  shows "run_ok t0 r'"
  by (rule run_okI [OF ok]) (use assms run_ok_parts [OF ok] in \<open>auto simp: run_extends_def first_ok_def\<close>)

lemma visit_key_ok:
  assumes ok: "run_ok t0 r"
  shows "run_ok t0 (visit_key k r)"
proof (cases "hr_cleaner r")
  case (Ranging now ks)
  then have "now \<le> hr_clock r" using run_ok_parts(4) [OF ok] by simp
  with Ranging run_ok_parts(3) [OF ok] ok show ?thesis
    unfolding visit_key_def
    by (auto split: option.split intro!: frame_ok [OF ok] simp: expired_def simp del: map_of_eq_Some_iff)
qed (simp_all add: visit_key_def ok)

lemma delete_ok:
  assumes ok: "run_ok t0 r"
  shows "run_ok t0 (delete_key r)"
proof (cases "hr_cleaner r")
  case (Deleting now k v ks)
  let ?r' = "delete_key r"
  have r': "?r' = r\<lparr>hr_hook := hr_hook r\<lparr>wn_seen := AList.delete k (wn_seen (hr_hook r))\<rparr>,
      hr_cleaner := Ranging now ks, hr_deleted := (k, now, v) # hr_deleted r\<rparr>"
    using Deleting by (simp add: delete_key_def)
  have exp: "now \<le> hr_clock r" "expired r k v now" using run_ok_parts(4) [OF ok] Deleting by simp_all
  have ext: "run_extends r ?r'" by (simp add: r' run_extends_def)
  show ?thesis
  proof (rule run_okI [OF ok ext])
    show "\<forall>(k', now', v') \<in> set (hr_deleted ?r'). (k', now', v') \<in> set (hr_deleted r) \<or> now' \<le> hr_clock ?r' \<and> expired ?r' k' v' now'"
      using exp expired_extends [OF exp(2) ext] by (auto simp: r')
    show "first_ok ?r'" unfolding first_ok_def
    proof
      fix e
      have "first_passes e (hr_fires r) \<le> deletions e (hr_deleted r) + (if map_of (wn_seen (hr_hook r)) e = None then 0 else 1)"
        using run_ok_parts(5) [OF ok] unfolding first_ok_def by blast
      then show "first_passes e (hr_fires ?r') \<le> deletions e (hr_deleted ?r') + (if map_of (wn_seen (hr_hook ?r')) e = None then 0 else 1)"
        by (auto simp: r' deletions_def delete_conv split: if_splits)
    qed
  qed (use exp run_ok_parts(6) [OF ok] in \<open>auto simp: r' delete_conv split: if_splits\<close>)
qed (simp_all add: delete_key_def ok)

theorem do_move_ok: "run_ok t0 r \<Longrightarrow> run_ok t0 (do_move m r)"
proof (cases m)
  case (MCall s tag)
  assume ok: "run_ok t0 r"
  show ?thesis
  proof (rule run_okI [OF ok])
    show "run_extends r (do_move m r)" by (simp add: MCall run_extends_def passed_at_def)
    show "first_ok (do_move m r)"
      using run_ok_parts(5) [OF ok] by (simp add: MCall first_ok_def first_passes_def first_of_def)
    show "mset (wn_posted (hr_hook (do_move m r))) = mset (List.map_filter posted_event (hr_fires (do_move m r)))"
      using run_ok_parts(6) [OF ok] by (simp add: MCall List.map_filter_def)
  qed (auto simp: MCall)
qed (auto simp: ask_ok loadOrStore_ok storeAgain_ok post_move_ok visit_key_ok delete_ok cleaner_tick_def cleaner_stop_def
  range_end_def hook_Close_def run_ok_parts intro: frame_ok split: cleaner_pc.split)

lemma hook_start_ok: "NewWebhookNotifier cfg = Some h \<Longrightarrow> run_ok now (hook_start now h)"
  by (auto simp: NewWebhookNotifier_def hook_start_def run_ok_def first_ok_def first_passes_def deletions_def
    List.map_filter_def split: option.splits if_splits prod.splits)

lemma run_moves_ok: "run_ok t0 r \<Longrightarrow> run_ok t0 (fold do_move moves r)"
  by (induction moves arbitrary: r) (simp_all add: do_move_ok)

lemma ttl_moves: "hook_ttl (hr_hook (do_move m r)) = hook_ttl (hr_hook r)"
  by (cases m) (simp_all add: ask_def loadOrStore_def storeAgain_def postOrDrop_def visit_key_def delete_key_def range_end_def
    cleaner_tick_def cleaner_stop_def hook_Close_def hook_ttl_def split: option.split fire_pc.split cleaner_pc.split)

lemma ttl_run: "hook_ttl (hr_hook (fold do_move moves r)) = hook_ttl (hr_hook r)"
  by (induction moves arbitrary: r) (simp_all add: ttl_moves)

section \<open>The uninterrupted runs\<close>

lemma fire_at_end: "fire_at (length ps) (r\<lparr>hr_fires := ps @ [p]\<rparr>) = Some p"
  by (simp add: fire_at_def)

definition own_moves :: "nat \<Rightarrow> hook_move list" where
  "own_moves i = [MAsk i, MLoadOrStore i, MStore i, MPost i]"

lemma fire_at_set: "i < length (hr_fires r) \<Longrightarrow> fire_at i (set_fire i p r) = Some p"
  by (simp add: fire_at_def)

lemma fire_at_set_again: "fire_at i r = Some q \<Longrightarrow> fire_at i (set_fire i p r) = Some p"
  by (auto simp: fire_at_def split: if_splits)

lemma fire_at_set_seen: "fire_at i (set_seen e now r) = fire_at i r"
  by (simp add: fire_at_def)

lemma fire_at_hook: "fire_at i (r\<lparr>hr_hook := h\<rparr>) = fire_at i r"
  by (simp add: fire_at_def)

lemmas fire_at_simps = fire_at_set_again fire_at_set_seen fire_at_hook

lemma hook_set_fire: "set_fire i p (r\<lparr>hr_hook := h\<rparr>) = (set_fire i p r)\<lparr>hr_hook := h\<rparr>"
  by (simp add: set_fire_def)

fun stage :: "fire_pc \<Rightarrow> nat" where
  "stage (Called ev) = 0"
| "stage (Asking ev now) = 1"
| "stage (Replacing ev now v) = 2"
| "stage (Passed how ev now) = 3"
| "stage _ = 4"

text \<open>A call can always go on: its own moves end it, whatever the others did before.\<close>

definition call_ended :: "fire_pc \<Rightarrow> bool" where
  "call_ended p = (case p of Posted _ _ _ \<Rightarrow> True | Dropped _ _ _ \<Rightarrow> True | Suppressed _ _ \<Rightarrow> True | _ \<Rightarrow> False)"

lemma own_moves_end:
  assumes "i < length (hr_fires r)"
  shows "\<exists>p. fire_at i (fold do_move (own_moves i) r) = Some p \<and> call_ended p"
proof -
  let ?at = "\<lambda>n r. \<exists>p. fire_at i r = Some p \<and> n \<le> stage p"
  have "?at 0 r" using assms by (simp add: fire_at_def)
  then have "?at 1 (ask i r)"
    by (auto simp: ask_def fire_at_simps split: fire_pc.split)
  then have "?at 2 (loadOrStore i (ask i r))"
    by (auto simp: loadOrStore_def fire_at_simps split: fire_pc.split option.split)
  then have "?at 3 (storeAgain i (loadOrStore i (ask i r)))"
    by (auto simp: storeAgain_def fire_at_simps split: fire_pc.split)
  then have "?at 4 (postOrDrop i (storeAgain i (loadOrStore i (ask i r))))"
    by (auto simp: postOrDrop_def fire_at_simps split: fire_pc.split)
  then obtain p where "fire_at i (fold do_move (own_moves i) r) = Some p" "4 \<le> stage p" by (auto simp: own_moves_def)
  then show ?thesis by (cases p) (auto simp: call_ended_def)
qed

text \<open>\<open>Fire\<close> is the run of a call that nothing interrupts.\<close>

lemma move_not_due:
  "fire_at i r = Some p \<Longrightarrow> stage p \<noteq> 0 \<Longrightarrow> ask i r = r"
  "fire_at i r = Some p \<Longrightarrow> stage p \<noteq> 1 \<Longrightarrow> loadOrStore i r = r"
  "fire_at i r = Some p \<Longrightarrow> stage p \<noteq> 2 \<Longrightarrow> storeAgain i r = r"
  "fire_at i r = Some p \<Longrightarrow> stage p \<noteq> 3 \<Longrightarrow> postOrDrop i r = r"
  by (cases p; simp add: ask_def loadOrStore_def storeAgain_def postOrDrop_def)+

lemma post_hook:
  "fire_at i r = Some (Passed how ev now) \<Longrightarrow> hr_hook (postOrDrop i r)
     = (if wn_done (hr_hook r) then hr_hook r else hr_hook r\<lparr>wn_posted := wn_posted (hr_hook r) @ [(now, ev)]\<rparr>)"
  by (simp add: postOrDrop_def)

lemma uninterrupted_Fire:
  "hr_hook (fold do_move (MCall s tag # own_moves (length (hr_fires r))) r) = Fire s tag (hr_clock r) (hr_hook r)"
proof -
  let ?i = "length (hr_fires r)" and ?ev = "buildEvent s tag (hr_clock r)" and ?h = "hr_hook r"
  define u where "u = r\<lparr>hr_fires := hr_fires r @ [Called ?ev]\<rparr>"
  have at: "fire_at ?i u = Some (Called ?ev)" and lt: "?i < length (hr_fires u)" by (simp_all add: u_def fire_at_def)
  have h: "hr_hook u = ?h" "hr_clock u = hr_clock r" by (simp_all add: u_def)
  have run: "fold do_move (MCall s tag # own_moves ?i) r = postOrDrop ?i (storeAgain ?i (loadOrStore ?i (ask ?i u)))"
    by (simp add: own_moves_def u_def)
  show ?thesis
  proof (cases "wn_deduplication ?h = 0 \<or> event_email ?ev = []")
    case True
    then have "ask ?i u = set_fire ?i (Passed Unasked ?ev (hr_clock r)) u" using at h by (simp add: ask_def)
    with True show ?thesis unfolding run
      using post_hook move_not_due(2,3) fire_at_set [OF lt, of "Passed Unasked ?ev (hr_clock r)"] h
      by (simp add: Fire_def isDuplicate_def Let_def event_email_def)
  next
    case False
    let ?a = "set_fire ?i (Asking ?ev (hr_clock r)) u"
    have a: "ask ?i u = ?a" using False at h by (simp add: ask_def)
    have ata: "fire_at ?i ?a = Some (Asking ?ev (hr_clock r))" "?i < length (hr_fires ?a)" using fire_at_set [OF lt] lt by simp_all
    show ?thesis
    proof (cases "map_of (wn_seen ?h) (event_email ?ev)")
      case None
      let ?b = "set_fire ?i (Passed First ?ev (hr_clock r)) (set_seen (event_email ?ev) (hr_clock r) ?a)"
      have b: "loadOrStore ?i ?a = ?b" using ata None h by (simp add: loadOrStore_def)
      have atb: "fire_at ?i ?b = Some (Passed First ?ev (hr_clock r))" using ata by (simp add: fire_at_set)
      have c: "storeAgain ?i ?b = ?b" using move_not_due(3) [OF atb] by simp
      from False None show ?thesis unfolding run a b c post_hook [OF atb]
        by (simp add: h Fire_def isDuplicate_def Let_def event_email_def)
    next
      case (Some v)
      show ?thesis
      proof (cases "hr_clock r - v < hook_ttl ?h")
        case True
        let ?b = "set_fire ?i (Suppressed ?ev (hr_clock r)) ?a"
        have b: "loadOrStore ?i ?a = ?b" using ata Some True h by (simp add: loadOrStore_def)
        have atb: "fire_at ?i ?b = Some (Suppressed ?ev (hr_clock r))" using ata by (simp add: fire_at_set)
        have c: "postOrDrop ?i (storeAgain ?i ?b) = ?b" using move_not_due(3,4) [OF atb] by simp
        from False Some True show ?thesis unfolding run a b c
          by (simp add: h Fire_def isDuplicate_def Let_def event_email_def)
      next
        case late: False
        let ?b = "set_fire ?i (Replacing ?ev (hr_clock r) v) ?a"
        let ?c = "set_fire ?i (Passed (Again v) ?ev (hr_clock r)) (set_seen (event_email ?ev) (hr_clock r) ?b)"
        have b: "loadOrStore ?i ?a = ?b" using ata Some late h by (simp add: loadOrStore_def)
        have "fire_at ?i ?b = Some (Replacing ?ev (hr_clock r) v)" using ata by (simp add: fire_at_set)
        then have c: "storeAgain ?i ?b = ?c" by (simp add: storeAgain_def)
        have atc: "fire_at ?i ?c = Some (Passed (Again v) ?ev (hr_clock r))" using ata by (simp add: fire_at_set)
        from False Some late show ?thesis unfolding run a b c post_hook [OF atc]
          by (simp add: h Fire_def isDuplicate_def Let_def event_email_def)
      qed
    qed
  qed
qed

text \<open>\<open>cleanup_tick\<close> is the range that nothing interrupts.\<close>

definition visits :: "string list \<Rightarrow> hook_move list" where
  "visits ks = concat (map (\<lambda>k. [MVisit k, MDelete]) ks)"

definition young :: "notifier \<Rightarrow> int \<Rightarrow> string \<times> int \<Rightarrow> bool" where
  "young h now = (\<lambda>(k, v). \<not> hook_ttl h \<le> now - v)"

lemma delete_middle:
  "distinct (map fst (a @ (k, v) # b)) \<Longrightarrow> AList.delete k (a @ (k, v) # b) = a @ b"
proof -
  assume d: "distinct (map fst (a @ (k, v) # b))"
  have "filter (\<lambda>(k', _). k \<noteq> k') ps = ps" if "k \<notin> fst ` set ps" for ps :: "('a \<times> 'b) list"
    using that by (induction ps) auto
  with d show ?thesis by (simp add: AList.delete_eq)
qed

lemma young_seen [simp]: "young (h\<lparr>wn_seen := x\<rparr>) = young h"
  by (simp add: fun_eq_iff young_def)

lemma visits_run:
  "hr_cleaner r = Ranging now vs \<Longrightarrow> wn_seen (hr_hook r) = a @ b \<Longrightarrow> distinct (map fst (a @ b)) \<Longrightarrow> set vs \<inter> fst ` set b = {}
     \<Longrightarrow> hr_hook (fold do_move (visits (map fst b)) r) = hr_hook r\<lparr>wn_seen := a @ filter (young (hr_hook r) now) b\<rparr>
       \<and> (\<exists>vs. hr_cleaner (fold do_move (visits (map fst b)) r) = Ranging now vs)"
proof (induction b arbitrary: a r vs)
  case Nil
  then show ?case by (simp add: visits_def)
next
  case (Cons x b)
  obtain k v where x: "x = (k, v)" by (cases x) auto
  have k: "map_of (wn_seen (hr_hook r)) k = Some v" "k \<notin> set vs"
    using Cons.prems x by (auto simp: map_add_Some_iff map_of_eq_None_iff)
  let ?u = "delete_key (visit_key k r)"
  have run: "fold do_move (visits (map fst (x # b))) r = fold do_move (visits (map fst b)) ?u" by (simp add: visits_def x)
  show ?case
  proof (cases "hook_ttl (hr_hook r) \<le> now - v")
    case True
    then have u: "hr_hook ?u = hr_hook r\<lparr>wn_seen := a @ b\<rparr>" "hr_cleaner ?u = Ranging now (k # vs)"
      using k Cons.prems(1-3) x delete_middle [of a k v b] by (simp_all add: visit_key_def delete_key_def)
    have "distinct (map fst (a @ b))" "set (k # vs) \<inter> fst ` set b = {}" using Cons.prems(3,4) x by auto
    with Cons.IH [OF u(2), of a] u True x show ?thesis unfolding run by (simp add: young_def)
  next
    case False
    then have u: "hr_hook ?u = hr_hook r" "hr_cleaner ?u = Ranging now (k # vs)"
      using k Cons.prems(1) by (simp_all add: visit_key_def delete_key_def)
    have "wn_seen (hr_hook ?u) = (a @ [x]) @ b" "distinct (map fst ((a @ [x]) @ b))" "set (k # vs) \<inter> fst ` set b = {}"
      using Cons.prems(2-4) u x by auto
    from Cons.IH [OF u(2) this] u False x show ?thesis unfolding run by (simp add: young_def)
  qed
qed

lemma uninterrupted_cleanup:
  assumes "hr_cleaner r = Waiting" "\<not> wn_done (hr_hook r)" "wn_deduplication (hr_hook r) \<noteq> 0"
    "distinct (map fst (wn_seen (hr_hook r)))"
  shows "hr_hook (fold do_move (MTick # visits (map fst (wn_seen (hr_hook r))) @ [MRangeEnd]) r)
    = cleanup_tick (hr_clock r) (hr_hook r)"
proof -
  let ?u = "cleaner_tick r"
  have u: "hr_cleaner ?u = Ranging (hr_clock r) []" "hr_hook ?u = hr_hook r" using assms(1) by (simp_all add: cleaner_tick_def)
  from visits_run [OF u(1), of "[]"] assms u show ?thesis
    by (auto simp: range_end_def cleanup_tick_def young_def)
qed

section \<open>What holds of every interleaving\<close>

definition passed_email :: "string \<Rightarrow> fire_pc \<Rightarrow> bool" where
  "passed_email e p = (case passed_time p of Some (how, ev, now) \<Rightarrow> event_email ev = e | None \<Rightarrow> False)"

lemma passed_ok:
  assumes "run_ok t0 r" "p \<in> set (hr_fires r)" "passed_time p = Some (how, ev, now)"
  shows "time_ok t0 r now \<and> how_ok r ev now how"
  using run_ok_parts(2) [OF assms(1,2)] assms(3) by (cases p) auto

lemma passed_at_time:
  assumes "run_ok t0 r" "passed_at (hr_fires r) e v"
  shows "t0 \<le> v"
  using assms(2) passed_ok [OF assms(1)]
  by (auto simp: passed_at_def list_ex_iff stored_by_def time_ok_def split: option.splits)

text \<open>In the first time of the deduplication no entry is too old.\<close>

lemma not_expired:
  assumes "run_ok t0 r" "hr_clock r < t0 + hook_ttl (hr_hook r)" "now \<le> hr_clock r"
  shows "\<not> expired r e v now"
  using passed_at_time [OF assms(1), of e v] assms(2,3) by (auto simp: expired_def)

lemma one_pass:
  assumes ok: "run_ok t0 r" and clock: "hr_clock r < t0 + hook_ttl (hr_hook r)" and e: "e \<noteq> []"
  shows "length (filter (passed_email e) (hr_fires r)) \<le> 1"
proof -
  have ded: "wn_deduplication (hr_hook r) \<noteq> 0" using clock run_ok_parts(1) [OF ok] by (auto simp: hook_ttl_def)
  have "passed_email e p = first_of e p" if p: "p \<in> set (hr_fires r)" for p
  proof (cases "passed_time p")
    case (Some x)
    obtain how ev now where x: "x = (how, ev, now)" by (cases x) auto
    have "time_ok t0 r now \<and> how_ok r ev now how" using passed_ok [OF ok p] Some x by simp
    with not_expired [OF ok clock] ded e show ?thesis
      by (cases how) (auto simp: passed_email_def first_of_def Some x was_asked_def time_ok_def)
  qed (simp add: passed_email_def first_of_def)
  then have "length (filter (passed_email e) (hr_fires r)) = first_passes e (hr_fires r)"
    unfolding first_passes_def by (metis filter_cong)
  moreover have "hr_deleted r = []"
  proof (cases "hr_deleted r")
    case (Cons d ds)
    obtain k now v where "d = (k, now, v)" by (cases d) auto
    with Cons run_ok_deleted [OF ok, of k now v] not_expired [OF ok clock, of now k v] show ?thesis by simp
  qed
  moreover have "first_passes e (hr_fires r) \<le> deletions e (hr_deleted r) + 1"
    using run_ok_parts(5) [OF ok] by (auto simp: first_ok_def dest: spec [of _ e] split: if_splits)
  ultimately show ?thesis by (simp add: deletions_def)
qed


text \<open>
  Two calls that find the same entry too old both renew it, so that two events of an email are posted at the same
  time; and a clean-up that read an entry before it was renewed deletes the renewed one, so that the
  next event is posted again at once.  With the deduplication of five seconds:
\<close>

definition race_ctx :: session_ctx where
  "race_ctx = \<lparr>sc_Inbound = Some \<lparr>im_Source = \<lparr>d_Network = Network_TCP, d_Address = DomainAddr ''d'', d_Port = 80\<rparr>,
      im_Local = \<lparr>d_Network = Network_TCP, d_Address = DomainAddr ''d'', d_Port = 80\<rparr>, im_Tag = ''in'', im_User = Some ''u'', im_VlessRoute = 0\<rparr>,
    sc_Outbound = None, sc_Content = None\<rparr>"

definition race_hook :: notifier where
  "race_hook = \<lparr>wn_url = ''https://h/'', wn_dialAddr = None, wn_headers = [], wn_deduplication = 5, wn_seen = [], wn_done = False, wn_posted = []\<rparr>"

definition renew_race :: "hook_move list" where
  "renew_race = MCall race_ctx ''a'' # own_moves 0 @ [Elapse 5000000000, MCall race_ctx ''a'', MCall race_ctx ''a'',
     MAsk 1, MAsk 2, MLoadOrStore 1, MLoadOrStore 2, MStore 1, MStore 2, MPost 1, MPost 2]"

definition delete_race :: "hook_move list" where
  "delete_race = MCall race_ctx ''a'' # own_moves 0 @ [Elapse 5000000000, MTick, MVisit ''u'', MCall race_ctx ''a''] @ own_moves 1
     @ [MDelete, MCall race_ctx ''a''] @ own_moves 2"

lemma race_user: "GetUser race_ctx = ''u''"
  by (simp add: race_ctx_def GetUser_def from_opt_def)

lemma race_email: "event_email (buildEvent race_ctx tag now) = ''u''"
  by (simp add: event_email_def buildEvent_def race_user)

lemmas race_simps = race_email hook_start_def race_hook_def own_moves_def ask_def loadOrStore_def storeAgain_def postOrDrop_def
  cleaner_tick_def visit_key_def delete_key_def fire_at_def set_fire_def set_seen_def hook_ttl_def

lemma two_renewals: "map fst (wn_posted (hr_hook (fold do_move renew_race (hook_start 0 race_hook)))) = [0, 5000000000, 5000000000]"
  by (simp add: renew_race_def race_simps)

lemma renewed_entry_deleted: "map fst (wn_posted (hr_hook (fold do_move delete_race (hook_start 0 race_hook)))) = [0, 5000000000, 5000000000]"
  by (simp add: delete_race_def race_simps)


end
