(* ===== verification/Spec2Isabelle.thy ===== *)
theory Spec2Isabelle
  imports Process_Properties Access_Properties Cert_Issue Startup_Properties Server_Properties Web_Conn
    Panel_Invariant Web_Properties Xray_Dispatch Xray_Webhook_Threads
begin

text \<open>
  A verification development of the v-ui panel: the Go program under src/ that
  manages a running xray, its inbounds, outbounds and routing rules, the traffic and
  the access log of its users, its own certificate and its own web server; and of the
  routing of the xray-core in src/xray-core, which decides where the traffic of those users goes.

  \<^bold>\<open>How the parts interact.\<close>  A request reaches a controller behind the login; the
  controller calls a service; the service reads and writes the database, in a transaction
  where rows depend on each other, and then marks xray for a restart or restarts it with the
  configuration computed from the database.  Jobs run beside the requests: they collect the
  counters of xray into the inbounds, switch off inbounds over quota, aggregate the access log,
  watch over xray.  The certificate service changes settings, restarts the panel and puts the settings
  back when the restart fails or the new listener does not answer.  main.go starts the server, restarts it on
  SIGHUP, and runs the commands on the same database.  The panel runs xray as a process.  In xray the dispatcher
  takes a connection of an inbound, asks the router for a route and hands the connection to a handler of the outbound
  manager; the router tries the conditions of its rules in order, which look at the session, at the matchers of
  addresses and domains and, through the DNS, at the addresses behind a domain; a rule may leave the choice to a
  balancer and may fire a webhook.  The dispatcher logs the line that the panel aggregates.

  \<^bold>\<open>The model.\<close>  Go functions are actions \<open>'s => 'a res * 's\<close> (Go_Prelude): an \<open>Inl\<close> is an error
  returned or a panic.  \<open>panel\<close> (Panel_State) is the state of the services: the database
  and the open transaction, the process of xray and the ones it replaced, the files,
  the clock, the \<open>world\<close> with the outside programs and libraries as functions, and a schedule of
  failures: every statement and every call outside consumes one entry and fails when it is an
  error.  A theorem over an arbitrary state is thereby one over every failure at every
  point.  \<open>web\<close> (Web_Server) adds the open sockets, the listener, the sessions and the controllers' fields.

  \<^bold>\<open>The theories.\<close>

  \<^item> Go_Prelude, Go_Strings, Go_Strconv, Go_Net: actions, \<open>keeps\<close>, common.Combine, and what the
    program uses of strings, strconv and net.  Json_Text, Json_Parse, Json_Codec,
    Json_Value: encoding/json and src/util/json_util, with the round trip of print and parse.

  \<^item> Xray_Model, Panel_State, Database, Tx_Logic: the rows (database/model), the types of src/xray,
    gorm's statements over the locale \<open>row_store\<close>, a Hoare logic for handlers in transactions.

  \<^item> Settings (setting.go, entity.go, with the locale \<open>kv_store\<close>), Inbound_Normalize and Inbounds
    (inbound.go and the clean-ups of db.go), Managed_Tables, Outbounds, Routing (outbound.go,
    routing.go), Access_Log, Xray_Config (xray.go up to the configuration), Xray_Process (process.go,
    the rest of xray.go), Access_Line and Access_IP (access_ip.go), Cert and Cert_Service
    (cert.go, panel.go), Users (user.go), Startup (db.go, the commands of main.go, v2ui),
    Port_Limit (portlimit.go), Server_Service (server.go, sys_linux.go), Web_Conn (web/network),
    Web_Server (web.go, web/job, the loop of main.go), Requests (web/controller, web/session).

  \<^item> Managed_Invariants, Managed_Properties, Rule_Properties, Config_Properties, Process_Properties,
    Access_Properties, Cert_Properties, Cert_Failures, Cert_Issue, Startup_Properties, Server_Properties, Web_Properties: what
    the components promise.

  \<^item> Tx_Discipline, Table_Writes, Panel_Steps, Panel_Invariant: the panel as a whole.  \<open>idle\<close> and \<open>busy\<close> are
    the states without and with an open transaction.  The locales \<open>inbound_writes\<close>, \<open>managed_writes\<close>,
    \<open>setting_writes\<close>, \<open>user_writes\<close>, \<open>access_writes\<close> state what the services rely on about an invariant of the
    database; in them every operation is shown to keep it and to close its transaction, in \<open>panel_writes\<close>
    every request, job and command.  They are interpreted on the model's invariant \<open>db_inv\<close>.  \<open>web_step\<close>
    is the step relation, \<open>panel_invariant\<close> the invariant of every reachable state.

  \<^item> Xray_Net (common/net), Xray_IP_Set, Xray_Geodata, Xray_IP_Match, Xray_IP_Matcher, Xray_IP_Rules (common/geodata: the data
    files, the IP matchers, their registry), Xray_Str_Matchers, Xray_Mph, Xray_Automaton, Xray_Domain_Rules
    (common/geodata/strmatcher, domain_matcher.go and domain_registry.go), Xray_Context (features/routing),
    Xray_Webhook, Xray_Webhook_Threads, Xray_Conditions, Xray_Balancers, Xray_Router (app/router), Xray_Outbound (app/proxyman/outbound),
    Xray_Dispatch (app/dispatcher, common/log/access.go).  \<open>router_state\<close> holds the rules, a heap of balancers and one of
    notifiers that the rules point into, the two registries of matchers and the outbound manager.  The calls of a notifier
    that run at the same time, with its clean-up and \<open>Close\<close>, are \<open>do_move\<close> on \<open>hook_run\<close>, one access to its
    shared state at a time; \<open>uninterrupted_Fire\<close> and \<open>uninterrupted_cleanup\<close> connect them with \<open>Fire\<close> and \<open>cleanup_tick\<close>.
\<close>

text \<open>
  \<^bold>\<open>What the lemmas show.\<close>

  \<^item> Of the whole: no transaction stays open and the tables keep their keys and normal forms, in every
    reachable state; nothing is done without a login; how a session comes about; what
    a started server listens on and that a failed start closes the socket it opened; that xray found down twice is restarted.

  \<^item> Of the handlers: the outcome on every branch and under every schedule of failures, as one
    row changed or nothing changed; the protected rows; the equivalence of the two clean-ups; the
    normal forms of limits, of the client settings and of REALITY.

  \<^item> Of the configuration: its contents in both modes, the round trip of the routing section, that a
    restart leaves only configurations that xray has accepted or the old one.

  \<^item> Of the access log: reading in pieces is reading at once, the records refine the multiset of events, a
    run that fails applied a prefix of the events.

  \<^item> Of the certificates, under every schedule of failures: a change is applied as a whole with the listener up; or a write
    fails and the settings before it stay changed; or the restart or the listener fails and each setting is put back unless its own
    write fails; what an upload and an issue leave on the disk.

  \<^item> Of the smaller parts: the redirect of plain HTTP, the migration of the indexes, the counters of
    connections, the queue of log lines under every interleaving of its readers.

  \<^item> Of the routing of xray: the optimised matchers of addresses and domains decide as the rules one by one; the first
    rule that holds is picked, with at most one lookup; traffic follows its rule or goes nowhere; rules that are appended or removed
    leave the others as they were; a balancer picks what its selectors select, in turn or by load; what the
    deduplication of a notifier keeps when its calls interleave, and the races it has; the line that is logged for a connection is
    read by the panel as that connection, unless the text behind its tag looks like a line itself.

  \<^bold>\<open>Bounds and fuel.\<close>  Recursions over texts are structural or have a measure.  \<open>count_blocks\<close> gets as many rounds
  as the text is long: \<open>blocks_counted_to_the_end\<close> shows that this is the loop of the code whenever the decoder
  returns a shorter rest.  The loop of \<open>waitForListener\<close> is bounded by its deadline: the rounds
  are a parameter of the world.  The breadth-first loop of the automaton gets as many rounds as there are
  nodes, which \<open>AC_Build_ok\<close> shows to be enough; the search for a seed of the hash table may not end and is a
  \<open>partial_function\<close>, which ends under the hypothesis of \<open>Mph_Build_ends\<close>.  Counters and sizes that the code keeps in an \<open>int\<close> or \<open>int64\<close> are
  integers with \<open>wrap64\<close> where they can overflow; ports and ids of rows are not wrapped.

  \<^bold>\<open>Choices.\<close>  Strings are lists of bytes.  A handler is one step; the interleavings modelled are those of
  handlers, jobs, signals, the steps of the process and its readers, the calls and the clean-up of a notifier, and the outside.  gorm's \<open>Create\<close>
  replaces zero values by the defaults of the columns.  A failure may be any error, also one that says
  \<open>record not found\<close>; for this reason the distinctness of the keys of the settings, whose table has no unique
  index, is shown for the calm schedule only; the theorems on the certificate and on the start of the server take a schedule of
  any other errors.  A file is there or not: \<open>os.Stat\<close> fails on an absent one only.  A read error of the access log comes behind
  the last line.  Closing a socket releases it, and addresses are in use when they are equal.  A reader of the output
  of xray looks at the length of the queue and takes a line in one step.  The traffic of a row and the numbers of a JSON
  text are exact, without the 64 bits of SQLite and of a float.  Buckets of equal size keep their order when the
  hash table is built.  Letter case is folded for ASCII only.
  Error texts of the services are in English, those of the controllers the UTF-8 bytes of the source.

  \<^bold>\<open>Parameters of xray.\<close>  The address sets of netipx with their documented laws, regular expressions, the hash function
  of the runtime, the data files, the DNS client, the lookup of a local process, the report of the observatory, the die,
  the weighting of a balancer (weight.go computes with floats), what the sniffer found.

  \<^bold>\<open>Not modelled.\<close>  The protocols, transports, TLS and REALITY, the DNS server, the congestion control, the statistics and
  the configuration reader of src/xray-core, which rest on sockets, QUIC and cryptography of other packages; the first
  bytes of a connection, its pipes and counters; locks, and so the interleaving of a reload with a
  decision; the route of the static assets, which needs no login; gorm, SQLite, gin, cron and gopsutil beyond what the services rely on, the front end, templates and
  translations, logging, the figures of CPU, memory, disk and load, the traffic per second (a division of
  floats), the other platform (sys_darwin.go), and the depth limit of encoding/json.
\<close>

end
